(* ===== verification/Preludium.thy ===== *)
theory Preludium
  imports Main "HOL-Library.Word"
begin

unbundle bit_operations_syntax

section \<open>Shared types, guarded machine arithmetic and automation\<close>

text \<open>
  The types of the kernel's C++ integers (\<open>uint8_t\<close> to \<open>uint64_t\<close>) as words of their width, the
  checked additions and the alignment masks that several source files repeat, and the facts
  that move such word expressions to natural numbers. \<open>arytmetyka\<close> collects the simp rules the
  component theories use for that move.
\<close>

type_synonym u8 = "8 word"
type_synonym u16 = "16 word"
type_synonym u32 = "32 word"
type_synonym u64 = "64 word"
type_synonym i32 = "32 word"
type_synonym adres = "64 word"

named_theorems arytmetyka \<open>guarded word arithmetic read as arithmetic on nat\<close>

definition UINT64_MAX :: u64 where
  "UINT64_MAX = 0xFFFFFFFFFFFFFFFF"

lemma UINT64_MAX_minus_1: "UINT64_MAX = - 1"
  by (simp add: UINT64_MAX_def)

lemma unat_UINT64_MAX: "unat UINT64_MAX = 2 ^ 64 - 1"
  by (simp add: UINT64_MAX_def)

lemma unat_u64_less [simp]: "unat (x :: u64) < 18446744073709551616"
  using unsigned_less [of x] by simp

lemma unat_u8_less [simp]: "unat (x :: u8) < 256"
  using unsigned_less [of x] by simp

lemma unat_of_nat_u64: "n < 18446744073709551616 \<Longrightarrow> unat (of_nat n :: u64) = n"
  by (simp add: unat_of_nat)

lemma unat_u64_le: "unat (x :: u64) \<le> 18446744073709551615"
  using unat_u64_less [of x] by linarith

lemma unat_add_u64:
  assumes "unat (a :: u64) + unat b < 18446744073709551616"
  shows "unat (a + b) = unat a + unat b"
  using assms by (simp add: unat_word_ariths)

lemma le_unat_u64_bound: "n \<le> unat (k :: u64) \<Longrightarrow> n < 18446744073709551616"
  using unat_u64_less [of k] by linarith

lemma unat_sub_u64:
  assumes "(b :: u64) \<le> a"
  shows "unat (a - b) = unat a - unat b"
  using assms by (simp add: unat_sub)

lemma max_minus_less_iff:
  "(a > UINT64_MAX - b) \<longleftrightarrow> 18446744073709551616 \<le> unat a + unat b"
proof -
  have "b \<le> UINT64_MAX"
    by (simp add: UINT64_MAX_minus_1)
  then have "unat (UINT64_MAX - b) = 18446744073709551615 - unat b"
    by (simp add: unat_sub_u64 unat_UINT64_MAX)
  then show ?thesis
    using unat_u64_less [of a] unat_u64_less [of b]
    unfolding word_less_nat_alt by linarith
qed

lemma unat_add_guarded:
  "\<not> a > UINT64_MAX - b \<Longrightarrow> unat (a + b) = unat a + unat b"
  unfolding max_minus_less_iff by (rule unat_add_u64) simp

lemma bit_u64_less: "bit (x :: u64) n \<Longrightarrow> n < 64"
  using bit_imp_le_length [of x n] by simp

subsection \<open>Checked addition\<close>

text \<open>
  \<open>dodaj_u64\<close> and \<open>dodaj_uintptr\<close>: the sum through a reference and a \<open>false\<close> when it would
  wrap. The result is an option.
\<close>

definition dodaj_u64 :: "u64 \<Rightarrow> u64 \<Rightarrow> u64 option" where
  "dodaj_u64 a b = (if a > UINT64_MAX - b then None else Some (a + b))"

lemma dodaj_u64_Some [arytmetyka]:
  "dodaj_u64 a b = Some c \<longleftrightarrow> unat a + unat b < 18446744073709551616 \<and> c = a + b"
  unfolding dodaj_u64_def by (auto simp: max_minus_less_iff)

lemma dodaj_u64_None [arytmetyka]:
  "dodaj_u64 a b = None \<longleftrightarrow> 18446744073709551616 \<le> unat a + unat b"
  unfolding dodaj_u64_def by (simp add: max_minus_less_iff)

lemma dodaj_u64_exact:
  "dodaj_u64 a b = Some c \<Longrightarrow> unat c = unat a + unat b"
  by (auto simp: arytmetyka unat_add_u64)

lemma dodaj_u64_eval:
  "unat a + unat b < 18446744073709551616 \<Longrightarrow> dodaj_u64 a b = Some (a + b)"
  by (simp add: arytmetyka)

subsection \<open>Alignment masks\<close>

lemma unat_and_mask:
  "unat ((x :: 'a :: len word) AND mask n) = unat x mod 2 ^ n"
proof -
  have "x AND mask n = take_bit n x"
    by (simp add: take_bit_eq_mask)
  then have "unat (x AND mask n) = take_bit n (unat x)"
    by (simp add: unsigned_take_bit_eq)
  then show ?thesis by (simp add: take_bit_eq_mod)
qed

lemma and_mask_eq_0_iff:
  "((x :: 'a :: len word) AND mask n = 0) \<longleftrightarrow> unat x mod 2 ^ n = 0"
  by (simp flip: unat_and_mask unat_eq_0)

lemma and_not_mask:
  "(x :: 'a :: len word) AND NOT (mask n) = x - (x AND mask n)"
proof -
  have "(x AND mask n) + (x AND NOT (mask n)) = x"
    by (subst disjunctive_add)
      (auto simp: bit_simps intro!: bit_word_eqI)
  then show ?thesis by (metis add_diff_cancel_left')
qed

lemma and_mask_le: "((x :: 'a :: len word) AND mask n) \<le> x"
  by (simp add: word_le_nat_alt unat_and_mask)

lemma unat_and_not_mask:
  "unat ((x :: 'a :: len word) AND NOT (mask n)) = unat x - unat x mod 2 ^ n"
  by (simp add: and_not_mask and_mask_le unat_sub unat_and_mask)

lemma word_15_mask: "(15 :: u64) = mask 4"
  by (simp add: mask_eq_exp_minus_1)

lemma word_4095_mask: "(4095 :: u64) = mask 12"
  by (simp add: mask_eq_exp_minus_1)

lemma aligned16_iff [arytmetyka]: "((x :: u64) AND 15 = 0) \<longleftrightarrow> unat x mod 16 = 0"
  using and_mask_eq_0_iff [of x 4] by (simp add: word_15_mask)

lemma aligned4096_iff [arytmetyka]: "((x :: u64) AND 4095 = 0) \<longleftrightarrow> unat x mod 4096 = 0"
  using and_mask_eq_0_iff [of x 12] by (simp add: word_4095_mask)

lemma unat_down16: "unat ((x :: u64) AND NOT 15) = unat x - unat x mod 16"
  using unat_and_not_mask [of x 4] by (simp add: word_15_mask)

lemma unat_down4096: "unat ((x :: u64) AND NOT 4095) = unat x - unat x mod 4096"
  using unat_and_not_mask [of x 12] by (simp add: word_4095_mask)

lemma down_mod: "((x :: nat) - x mod n) mod n = 0"
  by (simp add: minus_mod_eq_mult_div)

lemma up_down:
  assumes "0 < (n :: nat)"
  shows "x \<le> (x + (n - 1)) - (x + (n - 1)) mod n" "(x + (n - 1)) - (x + (n - 1)) mod n < x + n"
proof -
  define m where "m = (x + (n - 1)) mod n"
  have "m < n" unfolding m_def using assms by (rule mod_less_divisor)
  then show "x \<le> (x + (n - 1)) - (x + (n - 1)) mod n" "(x + (n - 1)) - (x + (n - 1)) mod n < x + n"
    unfolding m_def [symmetric] by linarith+
qed

lemma przedzial_podzbior: "{n ..< n + k} \<subseteq> X \<longleftrightarrow> (\<forall>i < k. (n :: nat) + i \<in> X)"
proof
  assume r: "\<forall>i < k. n + i \<in> X"
  show "{n ..< n + k} \<subseteq> X"
  proof
    fix x
    assume "x \<in> {n ..< n + k}"
    then have "x = n + (x - n)" "x - n < k" by auto
    then show "x \<in> X" using r by metis
  qed
qed auto

end
