(* ===== verification/Sterta.thy ===== *)
theory Sterta
  imports Preludium
begin

section \<open>The kernel heap (heap.h, heap.cpp)\<close>

text \<open>
  The first-fit allocator of the kernel. The state is the memory the block headers live in (a map
  from addresses to the header that a \<open>BlokSterty*\<close> with that value reads) and the three globals
  \<open>pierwszy_blok\<close>, \<open>poczatek_sterty\<close>, \<open>koniec_sterty\<close>; the null pointer is address 0. Operations
  are atomic: every one of them runs under \<open>BlokadaSterty\<close> with interrupts off. Headers that
  overlap at the byte level are not represented: on a list that passes the validator two headers
  are at least 64 bytes apart.
\<close>

subsection \<open>Data\<close>

record BlokSterty =
  bs_rozmiar :: u64
  bs_wolny :: bool
  bs_nastepny :: adres
  bs_poprzedni :: adres
  bs_magic :: u32

record sterta =
  st_pamiec :: "adres \<Rightarrow> BlokSterty"
  st_pierwszy :: adres
  st_poczatek :: adres
  st_koniec :: adres

definition MAGIC_STERTY :: u32 where
  "MAGIC_STERTY = 0x12345678"

text \<open>\<open>sizeof(BlokSterty)\<close> is 48 (a \<open>static_assert\<close> of heap.h); the alignment and the smallest
  payload are 16.\<close>

abbreviation NAGLOWEK :: u64 where "NAGLOWEK \<equiv> 48"
abbreviation MINIMALNY_BLOK :: u64 where "MINIMALNY_BLOK \<equiv> 16"

definition ustaw_naglowek :: "sterta \<Rightarrow> adres \<Rightarrow> BlokSterty \<Rightarrow> sterta" where
  "ustaw_naglowek h b n = h\<lparr>st_pamiec := (st_pamiec h)(b := n)\<rparr>"

subsection \<open>Checked arithmetic and validation\<close>

definition wyrownaj_rozmiar :: "u64 \<Rightarrow> u64 option" where
  "wyrownaj_rozmiar wartosc =
     (if wartosc > UINT64_MAX - 15 then None else Some ((wartosc + 15) AND NOT 15))"

definition sterta_ma_poprawny_zakres :: "sterta \<Rightarrow> bool" where
  "sterta_ma_poprawny_zakres h \<longleftrightarrow>
     \<not> (st_pierwszy h = 0 \<or> st_poczatek h = 0 \<or> st_koniec h \<le> st_poczatek h) \<and>
     st_poczatek h AND 15 = 0 \<and>
     st_koniec h AND 15 = 0 \<and>
     st_pierwszy h = st_poczatek h"

definition adres_naglowka_w_stercie :: "sterta \<Rightarrow> adres \<Rightarrow> bool" where
  "adres_naglowka_w_stercie h blok \<longleftrightarrow>
     blok \<noteq> 0 \<and> sterta_ma_poprawny_zakres h \<and>
     blok AND 15 = 0 \<and>
     \<not> (blok < st_poczatek h \<or> blok \<ge> st_koniec h) \<and>
     (case dodaj_u64 blok NAGLOWEK of None \<Rightarrow> False | Some kon \<Rightarrow> kon \<le> st_koniec h)"

definition pobierz_koniec_bloku :: "sterta \<Rightarrow> adres \<Rightarrow> adres option" where
  "pobierz_koniec_bloku h blok =
     (let n = st_pamiec h blok in
      if \<not> adres_naglowka_w_stercie h blok then None
      else if bs_magic n \<noteq> MAGIC_STERTY then None
      else if bs_rozmiar n < MINIMALNY_BLOK then None
      else if bs_rozmiar n AND 15 \<noteq> 0 then None
      else case dodaj_u64 blok NAGLOWEK of
          None \<Rightarrow> None
        | Some po_naglowku \<Rightarrow>
            if bs_rozmiar n > UINT64_MAX - po_naglowku then None
            else let wynik = po_naglowku + bs_rozmiar n in
              if wynik > st_koniec h \<or> wynik \<le> po_naglowku then None else Some wynik)"

text \<open>
  The validator's loop. \<open>zostalo\<close> is the number of blocks it may still count (\<open>maks_blokow\<close> minus
  \<open>licznik\<close>): a list longer than the heap can hold fails instead of looping.
\<close>

definition blok_listy_poprawny :: "sterta \<Rightarrow> adres \<Rightarrow> adres \<Rightarrow> bool" where
  "blok_listy_poprawny h poprzedni blok \<longleftrightarrow>
     (let n = st_pamiec h blok; nast = bs_nastepny n in
      adres_naglowka_w_stercie h blok \<and>
      bs_magic n = MAGIC_STERTY \<and>
      bs_poprzedni n = poprzedni \<and>
      (case pobierz_koniec_bloku h blok of
         None \<Rightarrow> False
       | Some koniec_bloku \<Rightarrow>
           if nast \<noteq> 0
           then nast = koniec_bloku \<and> adres_naglowka_w_stercie h nast \<and>
                bs_poprzedni (st_pamiec h nast) = blok
           else koniec_bloku = st_koniec h))"

fun lista_petla :: "sterta \<Rightarrow> adres \<Rightarrow> adres \<Rightarrow> nat \<Rightarrow> bool" where
  "lista_petla h poprzedni blok zostalo =
     (if blok = 0 then True
      else case zostalo of
          0 \<Rightarrow> False
        | Suc z \<Rightarrow> blok_listy_poprawny h poprzedni blok \<and>
                   lista_petla h blok (bs_nastepny (st_pamiec h blok)) z)"

declare lista_petla.simps [simp del]

definition maks_blokow :: "sterta \<Rightarrow> u64" where
  "maks_blokow h = (st_koniec h - st_poczatek h) div (NAGLOWEK + MINIMALNY_BLOK) + 1"

definition lista_sterty_poprawna :: "sterta \<Rightarrow> bool" where
  "lista_sterty_poprawna h \<longleftrightarrow>
     sterta_ma_poprawny_zakres h \<and>
     lista_petla h 0 (st_pierwszy h) (unat (maks_blokow h)) \<and> st_pierwszy h \<noteq> 0"

subsection \<open>Merging and searching\<close>

definition polacz_z_nastepnym :: "sterta \<Rightarrow> adres \<Rightarrow> sterta" where
  "polacz_z_nastepnym h blok =
     (let n = st_pamiec h blok; nast = bs_nastepny n; m = st_pamiec h nast in
      if blok = 0 \<or> \<not> adres_naglowka_w_stercie h blok \<or> bs_magic n \<noteq> MAGIC_STERTY \<or> \<not> bs_wolny n
      then h
      else if nast = 0 then h
      else if \<not> adres_naglowka_w_stercie h nast \<or> bs_magic m \<noteq> MAGIC_STERTY \<or> \<not> bs_wolny m \<or>
              bs_poprzedni m \<noteq> blok
      then h
      else case pobierz_koniec_bloku h blok of
        None \<Rightarrow> h
      | Some koniec_bloku \<Rightarrow>
        if koniec_bloku \<noteq> nast then h
        else (case dodaj_u64 (bs_rozmiar n) NAGLOWEK of
          None \<Rightarrow> h
        | Some temp \<Rightarrow>
          (case dodaj_u64 temp (bs_rozmiar m) of
            None \<Rightarrow> h
          | Some nowy_rozmiar \<Rightarrow>
            (case dodaj_u64 blok NAGLOWEK of
              None \<Rightarrow> h
            | Some dane_bloku \<Rightarrow>
              if nowy_rozmiar > UINT64_MAX - dane_bloku then h
              else if dane_bloku + nowy_rozmiar > st_koniec h then h
              else
                (let po_nastepnym = bs_nastepny m;
                     h1 = ustaw_naglowek h blok (n\<lparr>bs_rozmiar := nowy_rozmiar, bs_nastepny := po_nastepnym\<rparr>);
                     h2 = (if po_nastepnym \<noteq> 0
                           then ustaw_naglowek h1 po_nastepnym
                                  ((st_pamiec h1 po_nastepnym)\<lparr>bs_poprzedni := blok\<rparr>)
                           else h1)
                 in ustaw_naglowek h2 nast
                      \<lparr>bs_rozmiar = 0, bs_wolny = False, bs_nastepny = 0, bs_poprzedni = 0, bs_magic = 0\<rparr>)))))"

text \<open>
  The two list walks of the allocator have no counter of their own: they trust the validator that
  has just run. Their fuel is the validator's bound, and \<open>None\<close> is "still running when the fuel is
  spent"; that this never happens is proved below.
\<close>

fun znajdz_petla :: "nat \<Rightarrow> sterta \<Rightarrow> adres \<Rightarrow> adres \<Rightarrow> adres option" where
  "znajdz_petla paliwo h szukany blok =
     (if blok = 0 then Some 0
      else case paliwo of
          0 \<Rightarrow> None
        | Suc p \<Rightarrow>
            (case dodaj_u64 blok NAGLOWEK of
               None \<Rightarrow> Some 0
             | Some adres_danych \<Rightarrow>
                 if adres_danych = szukany then Some blok
                 else if adres_danych > szukany then Some 0
                 else znajdz_petla p h szukany (bs_nastepny (st_pamiec h blok))))"

declare znajdz_petla.simps [simp del]

definition znajdz_blok_po_wskazniku :: "sterta \<Rightarrow> adres \<Rightarrow> adres option" where
  "znajdz_blok_po_wskazniku h wskaznik =
     (if wskaznik = 0 \<or> \<not> lista_sterty_poprawna h then Some 0
      else znajdz_petla (unat (maks_blokow h)) h wskaznik (st_pierwszy h))"

subsection \<open>inicjalizuj\_sterte\_jadra, kmalloc, kfree\<close>

definition inicjalizuj_sterte_jadra :: "sterta \<Rightarrow> adres \<Rightarrow> u64 \<Rightarrow> sterta" where
  "inicjalizuj_sterte_jadra h0 adres_poczatkowy rozmiar_poczatkowy =
     (let h = h0\<lparr>st_pierwszy := 0, st_poczatek := 0, st_koniec := 0\<rparr> in
      if adres_poczatkowy = 0 \<or> rozmiar_poczatkowy = 0 then h
      else if rozmiar_poczatkowy > UINT64_MAX - adres_poczatkowy then h
      else let surowy_koniec = adres_poczatkowy + rozmiar_poczatkowy in
      if adres_poczatkowy > UINT64_MAX - 15 then h
      else let wyrownany_poczatek = (adres_poczatkowy + 15) AND NOT 15;
               wyrownany_koniec = surowy_koniec AND NOT 15 in
      if wyrownany_koniec \<le> wyrownany_poczatek then h
      else if wyrownany_koniec - wyrownany_poczatek < NAGLOWEK + MINIMALNY_BLOK then h
      else
        let h1 = ustaw_naglowek
                   (h\<lparr>st_poczatek := wyrownany_poczatek, st_koniec := wyrownany_koniec,
                      st_pierwszy := wyrownany_poczatek\<rparr>)
                   wyrownany_poczatek
                   \<lparr>bs_rozmiar = wyrownany_koniec - wyrownany_poczatek - NAGLOWEK, bs_wolny = True,
                    bs_nastepny = 0, bs_poprzedni = 0, bs_magic = MAGIC_STERTY\<rparr> in
        if \<not> lista_sterty_poprawna h1
        then h1\<lparr>st_pierwszy := 0, st_poczatek := 0, st_koniec := 0\<rparr>
        else h1)"

definition zajmij_blok :: "sterta \<Rightarrow> adres \<Rightarrow> adres \<times> sterta" where
  "zajmij_blok h blok =
     (case dodaj_u64 blok NAGLOWEK of
        None \<Rightarrow> (0, ustaw_naglowek h blok ((st_pamiec h blok)\<lparr>bs_wolny := True\<rparr>))
      | Some wynik \<Rightarrow> (wynik, ustaw_naglowek h blok ((st_pamiec h blok)\<lparr>bs_wolny := False\<rparr>)))"

definition kmalloc_w_bloku :: "sterta \<Rightarrow> u64 \<Rightarrow> adres \<Rightarrow> adres \<times> sterta" where
  "kmalloc_w_bloku h wyrownany blok =
     (let n = st_pamiec h blok; pozostalo = bs_rozmiar n - wyrownany in
      if pozostalo \<ge> NAGLOWEK + MINIMALNY_BLOK
      then case dodaj_u64 blok NAGLOWEK of
          None \<Rightarrow> (0, h)
        | Some adres_danych \<Rightarrow>
          if wyrownany > UINT64_MAX - adres_danych then (0, h)
          else let adres_nowego = adres_danych + wyrownany in
            if adres_nowego AND 15 \<noteq> 0 then (0, h)
            else (case dodaj_u64 adres_nowego NAGLOWEK of
                None \<Rightarrow> (0, h)
              | Some koniec_nowego_naglowka \<Rightarrow>
                if koniec_nowego_naglowka > st_koniec h then (0, h)
                else
                  let stary_nastepny = bs_nastepny n;
                      h1 = ustaw_naglowek h adres_nowego
                             \<lparr>bs_rozmiar = pozostalo - NAGLOWEK, bs_wolny = True,
                              bs_nastepny = stary_nastepny, bs_poprzedni = blok,
                              bs_magic = MAGIC_STERTY\<rparr>;
                      h2 = (if stary_nastepny \<noteq> 0
                            then ustaw_naglowek h1 stary_nastepny
                                   ((st_pamiec h1 stary_nastepny)\<lparr>bs_poprzedni := adres_nowego\<rparr>)
                            else h1);
                      h3 = ustaw_naglowek h2 blok
                             ((st_pamiec h2 blok)\<lparr>bs_rozmiar := wyrownany, bs_nastepny := adres_nowego\<rparr>)
                  in zajmij_blok h3 blok)
      else zajmij_blok h blok)"

fun kmalloc_petla :: "nat \<Rightarrow> sterta \<Rightarrow> u64 \<Rightarrow> adres \<Rightarrow> (adres \<times> sterta) option" where
  "kmalloc_petla paliwo h wyrownany blok =
     (if blok = 0 then Some (0, h)
      else case paliwo of
          0 \<Rightarrow> None
        | Suc p \<Rightarrow>
            let n = st_pamiec h blok in
            if bs_magic n \<noteq> MAGIC_STERTY \<or> \<not> bs_wolny n \<or> bs_rozmiar n < wyrownany
            then kmalloc_petla p h wyrownany (bs_nastepny n)
            else Some (kmalloc_w_bloku h wyrownany blok))"

declare kmalloc_petla.simps [simp del]

definition kmalloc :: "sterta \<Rightarrow> u64 \<Rightarrow> (adres \<times> sterta) option" where
  "kmalloc h rozmiar =
     (if rozmiar = 0 then Some (0, h)
      else if st_pierwszy h = 0 \<or> \<not> lista_sterty_poprawna h then Some (0, h)
      else case wyrownaj_rozmiar rozmiar of
          None \<Rightarrow> Some (0, h)
        | Some w \<Rightarrow>
            let wyrownany = (if w < MINIMALNY_BLOK then MINIMALNY_BLOK else w) in
            kmalloc_petla (unat (maks_blokow h)) h wyrownany (st_pierwszy h))"

definition kfree :: "sterta \<Rightarrow> adres \<Rightarrow> sterta option" where
  "kfree h wskaznik =
     (if wskaznik = 0 then Some h
      else if st_pierwszy h = 0 \<or> \<not> lista_sterty_poprawna h then Some h
      else case dodaj_u64 (st_poczatek h) NAGLOWEK of
          None \<Rightarrow> Some h
        | Some minimalny_adres_danych \<Rightarrow>
            if wskaznik < minimalny_adres_danych \<or> wskaznik \<ge> st_koniec h \<or> wskaznik AND 15 \<noteq> 0
            then Some h
            else (case znajdz_blok_po_wskazniku h wskaznik of
                None \<Rightarrow> None
              | Some blok \<Rightarrow>
                  let n = st_pamiec h blok in
                  if blok = 0 \<or> bs_magic n \<noteq> MAGIC_STERTY \<or> bs_wolny n then Some h
                  else
                    let h1 = ustaw_naglowek h blok (n\<lparr>bs_wolny := True\<rparr>);
                        h2 = polacz_z_nastepnym h1 blok;
                        poprzedni = bs_poprzedni (st_pamiec h2 blok) in
                    Some (if poprzedni \<noteq> 0 \<and> adres_naglowka_w_stercie h2 poprzedni \<and>
                             bs_magic (st_pamiec h2 poprzedni) = MAGIC_STERTY \<and>
                             bs_wolny (st_pamiec h2 poprzedni)
                          then polacz_z_nastepnym h2 poprzedni
                          else h2)))"

definition operator_new :: "sterta \<Rightarrow> u64 \<Rightarrow> (adres \<times> sterta) option" where
  "operator_new h rozm = kmalloc h (if rozm = 0 then 1 else rozm)"

definition operator_delete :: "sterta \<Rightarrow> adres \<Rightarrow> sterta option" where
  "operator_delete h p = kfree h p"

subsection \<open>Abstract heap: the list of blocks in address order\<close>

text \<open>
  The abstract heap is the list of the blocks' payload sizes and free flags: as the blocks tile the
  heap, addresses are sums of the sizes before them. \<open>odcinek h p b bs q c\<close> says that the headers
  from address \<open>b\<close> (whose predecessor is \<open>p\<close>) up to address \<open>c\<close> (whose predecessor is \<open>q\<close>) are
  exactly those of the blocks \<open>bs\<close>.
\<close>

type_synonym blok = "u64 \<times> bool"

definition naglowek_bloku :: "adres \<Rightarrow> adres \<Rightarrow> adres \<Rightarrow> u64 \<Rightarrow> bool \<Rightarrow> BlokSterty" where
  "naglowek_bloku kon p b r w =
     \<lparr>bs_rozmiar = r, bs_wolny = w, bs_nastepny = (if b + NAGLOWEK + r = kon then 0 else b + NAGLOWEK + r),
      bs_poprzedni = p, bs_magic = MAGIC_STERTY\<rparr>"

definition blok_w_granicach :: "sterta \<Rightarrow> adres \<Rightarrow> u64 \<Rightarrow> bool" where
  "blok_w_granicach h b r \<longleftrightarrow>
     unat b mod 16 = 0 \<and> st_poczatek h \<le> b \<and> unat b + 48 + unat r \<le> unat (st_koniec h) \<and>
     16 \<le> unat r \<and> unat r mod 16 = 0"

fun odcinek :: "sterta \<Rightarrow> adres \<Rightarrow> adres \<Rightarrow> blok list \<Rightarrow> adres \<Rightarrow> adres \<Rightarrow> bool" where
  "odcinek h p b [] q c \<longleftrightarrow> p = q \<and> b = c"
| "odcinek h p b ((r, w) # bs) q c \<longleftrightarrow>
     blok_w_granicach h b r \<and> st_pamiec h b = naglowek_bloku (st_koniec h) p b r w \<and>
     odcinek h b (b + NAGLOWEK + r) bs q c"

definition suma_blokow :: "blok list \<Rightarrow> nat" where
  "suma_blokow bs = (\<Sum>(r, w) \<leftarrow> bs. 48 + unat r)"

definition reprezentuje :: "sterta \<Rightarrow> blok list \<Rightarrow> bool" where
  "reprezentuje h bs \<longleftrightarrow>
     sterta_ma_poprawny_zakres h \<and> (\<exists>q. odcinek h 0 (st_poczatek h) bs q (st_koniec h))"

lemma suma_blokow_simps [simp]:
  "suma_blokow [] = 0"
  "suma_blokow ((r, w) # bs) = 48 + unat r + suma_blokow bs"
  "suma_blokow (xs @ ys) = suma_blokow xs + suma_blokow ys"
  by (simp_all add: suma_blokow_def)

lemma suma_blokow_length: "64 * length bs \<le> suma_blokow bs \<or> (\<exists>(r, w) \<in> set bs. unat r < 16)"
proof (induction bs)
  case Nil
  show ?case by simp
next
  case (Cons x bs)
  obtain r w where x: "x = (r, w)" by (cases x) auto
  show ?case
    using Cons by (cases "unat r < 16") (auto simp: x)
qed

lemma blok_koniec_unat:
  assumes "blok_w_granicach h b r"
  shows "unat (b + NAGLOWEK) = unat b + 48" "unat (b + NAGLOWEK + r) = unat b + 48 + unat r"
proof -
  have le: "unat b + 48 + unat r < 18446744073709551616"
    using assms unat_u64_less [of "st_koniec h"] unfolding blok_w_granicach_def by linarith
  then show one: "unat (b + NAGLOWEK) = unat b + 48"
    using unat_add_u64 [of b NAGLOWEK] by simp
  show "unat (b + NAGLOWEK + r) = unat b + 48 + unat r"
    using le unat_add_u64 [of "b + NAGLOWEK" r] by (simp add: one)
qed

lemma blok_koniec_neq: "\<not> (blok_w_granicach h b r \<and> b + NAGLOWEK + r = b)"
proof (rule notI, elim conjE)
  assume gran: "blok_w_granicach h b r" and eq: "b + NAGLOWEK + r = b"
  have "unat (b + NAGLOWEK + r) = unat b" by (simp only: eq)
  with blok_koniec_unat(2) [OF gran] show False by linarith
qed

lemma odcinek_append:
  "odcinek h p b (xs @ ys) q c \<longleftrightarrow> (\<exists>p' b'. odcinek h p b xs p' b' \<and> odcinek h p' b' ys q c)"
proof (induction xs arbitrary: p b)
  case Nil
  show ?case by simp
next
  case (Cons x xs)
  then show ?case by (cases x) (simp; blast)
qed

lemma odcinek_suma:
  "odcinek h p b bs q c \<Longrightarrow> unat c = unat b + suma_blokow bs"
  by (induction bs arbitrary: p b) (auto simp: blok_koniec_unat)

lemma odcinek_ponizej_konca:
  "odcinek h p b bs q c \<Longrightarrow> unat b \<le> unat (st_koniec h) \<Longrightarrow> unat c \<le> unat (st_koniec h)"
proof (induction bs arbitrary: p b)
  case Nil
  then show ?case by simp
next
  case (Cons x bs)
  then show ?case by (cases x) (auto simp: blok_w_granicach_def blok_koniec_unat)
qed

lemma odcinek_cong:
  assumes "odcinek h p b bs q c"
    and "st_poczatek h' = st_poczatek h" "st_koniec h' = st_koniec h"
    and "\<And>x. unat b \<le> unat x \<Longrightarrow> unat x < unat c \<Longrightarrow> st_pamiec h' x = st_pamiec h x"
  shows "odcinek h' p b bs q c"
  using assms(1,4)
proof (induction bs arbitrary: p b)
  case Nil
  then show ?case by simp
next
  case (Cons x bs)
  obtain r w where x: "x = (r, w)" by (cases x) auto
  have gran: "blok_w_granicach h b r" and od: "odcinek h b (b + NAGLOWEK + r) bs q c"
    using Cons.prems(1) by (auto simp: x)
  have "unat c = unat b + 48 + unat r + suma_blokow bs"
    using odcinek_suma [OF od] blok_koniec_unat [OF gran] by simp
  then have "st_pamiec h' b = st_pamiec h b"
    using Cons.prems(2) by simp
  moreover have "odcinek h' b (b + NAGLOWEK + r) bs q c"
    using Cons.IH [OF od] Cons.prems(2) blok_koniec_unat [OF gran] by simp
  ultimately show ?case
    using Cons.prems(1) assms(2,3) by (simp add: x blok_w_granicach_def)
qed

text \<open>The first header of a non-empty segment can have its predecessor link changed alone.\<close>

lemma odcinek_zmien_poprzedni:
  assumes "odcinek h p b bs q c" "bs \<noteq> []"
    and "h' = ustaw_naglowek h b ((st_pamiec h b)\<lparr>bs_poprzedni := p'\<rparr>)"
  shows "odcinek h' p' b bs q c"
proof (cases bs)
  case Nil
  then show ?thesis using assms(2) by simp
next
  case (Cons x ys)
  obtain r w where x: "x = (r, w)" by (cases x) auto
  have gran: "blok_w_granicach h b r" and od: "odcinek h b (b + NAGLOWEK + r) ys q c"
    and nag: "st_pamiec h b = naglowek_bloku (st_koniec h) p b r w"
    using assms(1) by (auto simp: Cons x)
  have "odcinek h' b (b + NAGLOWEK + r) ys q c"
    by (rule odcinek_cong [OF od])
      (use blok_koniec_unat [OF gran] in \<open>auto simp: assms(3) ustaw_naglowek_def\<close>)
  then show ?thesis
    using gran nag by (simp add: Cons x assms(3) ustaw_naglowek_def naglowek_bloku_def blok_w_granicach_def)
qed

subsection \<open>What the validator accepts\<close>

lemma dodaj_naglowek:
  assumes "unat b + 48 \<le> unat (k :: u64)"
  shows "dodaj_u64 b NAGLOWEK = Some (b + NAGLOWEK)" "unat (b + NAGLOWEK) = unat b + 48"
proof -
  have "unat b + unat NAGLOWEK < 18446744073709551616"
    using le_unat_u64_bound [OF assms] by simp
  then show "dodaj_u64 b NAGLOWEK = Some (b + NAGLOWEK)" "unat (b + NAGLOWEK) = unat b + 48"
    using unat_add_u64 [of b NAGLOWEK] by (simp_all add: arytmetyka)
qed

lemma adres_naglowka_iff:
  "adres_naglowka_w_stercie h b \<longleftrightarrow>
     sterta_ma_poprawny_zakres h \<and> unat b mod 16 = 0 \<and> st_poczatek h \<le> b \<and>
     unat b + 48 \<le> unat (st_koniec h)"
proof (cases "unat b + 48 \<le> unat (st_koniec h)")
  case True
  have "b \<noteq> 0" if "sterta_ma_poprawny_zakres h" "st_poczatek h \<le> b"
    using that by (auto simp: sterta_ma_poprawny_zakres_def)
  moreover have "b < st_koniec h" "b + NAGLOWEK \<le> st_koniec h"
    using True dodaj_naglowek [OF True] by (simp_all add: word_less_nat_alt word_le_nat_alt)
  ultimately show ?thesis
    using True by (auto simp: adres_naglowka_w_stercie_def dodaj_naglowek [OF True] aligned16_iff not_less not_le)
next
  case False
  have "\<not> kon \<le> st_koniec h" if "dodaj_u64 b NAGLOWEK = Some kon" for kon
    using False dodaj_u64_exact [OF that] by (simp add: word_le_nat_alt)
  with False show ?thesis
    by (auto simp: adres_naglowka_w_stercie_def split: option.splits)
qed

lemma pobierz_koniec_iff:
  "pobierz_koniec_bloku h b = Some k \<longleftrightarrow>
     sterta_ma_poprawny_zakres h \<and> bs_magic (st_pamiec h b) = MAGIC_STERTY \<and>
     blok_w_granicach h b (bs_rozmiar (st_pamiec h b)) \<and> k = b + NAGLOWEK + bs_rozmiar (st_pamiec h b)"
  (is "?L = ?R")
proof -
  let ?r = "bs_rozmiar (st_pamiec h b)"
  show ?thesis
  proof (cases "adres_naglowka_w_stercie h b")
    case False
    then have "\<not> ?R"
      by (auto simp: adres_naglowka_iff blok_w_granicach_def)
    with False show ?thesis by (simp add: pobierz_koniec_bloku_def)
  next
    case True
    then have z: "sterta_ma_poprawny_zakres h" "unat b mod 16 = 0" "st_poczatek h \<le> b"
      and b48: "unat b + 48 \<le> unat (st_koniec h)"
      by (simp_all add: adres_naglowka_iff)
    note d = dodaj_naglowek [OF b48]
    show ?thesis
    proof (cases "unat b + 48 + unat ?r < 18446744073709551616")
      case False
      then have "\<not> unat b + 48 + unat ?r \<le> unat (st_koniec h)"
        using le_unat_u64_bound by blast
      with True False show ?thesis
        by (auto simp: pobierz_koniec_bloku_def Let_def d max_minus_less_iff blok_w_granicach_def)
    next
      case fits: True
      have sum: "unat (b + NAGLOWEK + ?r) = unat b + 48 + unat ?r"
        using fits unat_add_u64 [of "b + NAGLOWEK" ?r] by (simp add: d)
      have "16 \<le> unat ?r \<longleftrightarrow> \<not> ?r < MINIMALNY_BLOK"
        by (simp add: word_less_nat_alt not_less)
      moreover have "unat b + 48 + unat ?r \<le> unat (st_koniec h) \<longleftrightarrow> \<not> b + NAGLOWEK + ?r > st_koniec h"
        by (simp add: word_less_nat_alt not_less sum)
      moreover have "b + NAGLOWEK + ?r \<le> b + NAGLOWEK \<longleftrightarrow> unat ?r = 0"
        by (simp add: word_le_nat_alt sum d)
      moreover have "\<not> ?r > UINT64_MAX - (b + NAGLOWEK)"
        using fits by (simp add: max_minus_less_iff d)
      ultimately show ?thesis
        using True z by (auto simp: pobierz_koniec_bloku_def Let_def d(1) blok_w_granicach_def aligned16_iff)
    qed
  qed
qed

lemma lista_petla_odcinek:
  assumes "lista_petla h p b n" "sterta_ma_poprawny_zakres h" "b \<noteq> 0"
  shows "\<exists>bs q. odcinek h p b bs q (st_koniec h)"
  using assms
proof (induction n arbitrary: p b)
  case 0
  then show ?case by (simp add: lista_petla.simps)
next
  case (Suc n)
  let ?n = "st_pamiec h b"
  from Suc.prems have ok: "blok_listy_poprawny h p b" and rest: "lista_petla h b (bs_nastepny ?n) n"
    by (auto simp: lista_petla.simps [of h p b "Suc n"])
  then obtain k where k: "pobierz_koniec_bloku h b = Some k"
    and kk: "if bs_nastepny ?n \<noteq> 0 then bs_nastepny ?n = k \<and> adres_naglowka_w_stercie h (bs_nastepny ?n)
             else k = st_koniec h"
    and pop: "bs_poprzedni ?n = p"
    by (auto simp: blok_listy_poprawny_def Let_def split: option.splits if_splits)
  from k have gran: "blok_w_granicach h b (bs_rozmiar ?n)" and kr: "k = b + NAGLOWEK + bs_rozmiar ?n"
    and mag: "bs_magic ?n = MAGIC_STERTY"
    by (auto simp: pobierz_koniec_iff)
  have nag: "?n = naglowek_bloku (st_koniec h) p b (bs_rozmiar ?n) (bs_wolny ?n)"
    using kk kr mag pop by (auto simp: naglowek_bloku_def adres_naglowka_iff split: if_splits)
  have "\<exists>bs q. odcinek h b k bs q (st_koniec h)"
  proof (cases "bs_nastepny ?n = 0")
    case True
    with kk have "odcinek h b k [] b (st_koniec h)" by simp
    then show ?thesis by blast
  next
    case False
    with Suc.IH [OF rest Suc.prems(2)] kk show ?thesis by simp
  qed
  then obtain bs q where "odcinek h b k bs q (st_koniec h)" by blast
  then have "odcinek h p b ((bs_rozmiar ?n, bs_wolny ?n) # bs) q (st_koniec h)"
    using gran nag kr by simp
  then show ?case by blast
qed

lemma odcinek_lista_petla:
  assumes "odcinek h p b bs q (st_koniec h)" "sterta_ma_poprawny_zakres h" "length bs \<le> n"
  shows "lista_petla h p (if b = st_koniec h then 0 else b) n"
  using assms
proof (induction bs arbitrary: p b n)
  case Nil
  then show ?case by (simp add: lista_petla.simps)
next
  case (Cons x bs)
  obtain r w where x: "x = (r, w)" by (cases x) auto
  obtain m where n: "n = Suc m" and m: "length bs \<le> m" using Cons.prems(3) by (cases n) auto
  let ?c = "b + NAGLOWEK + r"
  have gran: "blok_w_granicach h b r" and od: "odcinek h b ?c bs q (st_koniec h)"
    and nag: "st_pamiec h b = naglowek_bloku (st_koniec h) p b r w"
    using Cons.prems(1) by (auto simp: x)
  have pk: "pobierz_koniec_bloku h b = Some ?c"
    using gran nag Cons.prems(2) by (simp add: pobierz_koniec_iff naglowek_bloku_def)
  have adr: "adres_naglowka_w_stercie h b"
    using gran Cons.prems(2) by (auto simp: adres_naglowka_iff blok_w_granicach_def)
  have nast: "adres_naglowka_w_stercie h ?c \<and> bs_poprzedni (st_pamiec h ?c) = b" if neq: "?c \<noteq> st_koniec h"
  proof -
    obtain y ys where "bs = y # ys" using od neq by (cases bs) auto
    with od Cons.prems(2) show ?thesis
      by (cases y) (auto simp: adres_naglowka_iff blok_w_granicach_def naglowek_bloku_def)
  qed
  have "?c \<noteq> 0" if "?c \<noteq> st_koniec h"
    using nast [OF that] Cons.prems(2)
    by (auto simp: adres_naglowka_iff sterta_ma_poprawny_zakres_def)
  then have koniec: "?c = st_koniec h \<or> ?c \<noteq> 0" by blast
  have blok: "blok_listy_poprawny h p b"
    using adr pk nag nast koniec
    by (cases "?c = st_koniec h") (simp_all add: blok_listy_poprawny_def naglowek_bloku_def)
  moreover have "lista_petla h b (bs_nastepny (st_pamiec h b)) m"
    using Cons.IH [OF od Cons.prems(2) m] nag by (simp add: naglowek_bloku_def split: if_splits)
  ultimately show ?case
    by (simp add: lista_petla.simps [of h p b "Suc m"] lista_petla.simps [of h p 0] n)
qed

lemma odcinek_64:
  "odcinek h p b bs q c \<Longrightarrow> 64 * length bs \<le> suma_blokow bs"
  by (induction bs arbitrary: p b) (force simp: blok_w_granicach_def)+

lemma maks_blokow_unat:
  assumes "sterta_ma_poprawny_zakres h"
  shows "unat (maks_blokow h) = (unat (st_koniec h) - unat (st_poczatek h)) div 64 + 1"
proof -
  have le: "st_poczatek h \<le> st_koniec h"
    using assms by (auto simp: sterta_ma_poprawny_zakres_def not_le)
  have "unat ((st_koniec h - st_poczatek h) div 64) = (unat (st_koniec h) - unat (st_poczatek h)) div 64"
    using le by (simp add: unat_div unat_sub_u64)
  moreover have "(unat (st_koniec h) - unat (st_poczatek h)) div 64 + 1 < 18446744073709551616"
    using unat_u64_less [of "st_koniec h"] by linarith
  ultimately show ?thesis
    unfolding maks_blokow_def by (subst unat_add_u64) simp_all
qed

lemma reprezentuje_dlugosc:
  assumes "reprezentuje h bs"
  shows "length bs < unat (maks_blokow h)" and "unat (st_koniec h) = unat (st_poczatek h) + suma_blokow bs"
proof -
  from assms obtain q where z: "sterta_ma_poprawny_zakres h"
    and od: "odcinek h 0 (st_poczatek h) bs q (st_koniec h)"
    by (auto simp: reprezentuje_def)
  show s: "unat (st_koniec h) = unat (st_poczatek h) + suma_blokow bs"
    by (rule odcinek_suma [OF od])
  show "length bs < unat (maks_blokow h)"
    using odcinek_64 [OF od] s by (simp add: maks_blokow_unat [OF z])
qed

lemma odcinek_jednoznaczny:
  "odcinek h p b bs q c \<Longrightarrow> odcinek h p b bs' q' c \<Longrightarrow> bs = bs'"
proof (induction bs arbitrary: p b bs')
  case Nil
  then show ?case
    by (cases bs') (auto dest!: odcinek_suma simp: blok_koniec_unat)
next
  case (Cons x bs)
  obtain r w where x: "x = (r, w)" by (cases x) auto
  have gran: "blok_w_granicach h b r" and od: "odcinek h b (b + NAGLOWEK + r) bs q c"
    and nag: "st_pamiec h b = naglowek_bloku (st_koniec h) p b r w"
    using Cons.prems(1) by (auto simp: x)
  have "unat c > unat b"
    using odcinek_suma [OF Cons.prems(1)] by (simp add: x)
  then obtain r' w' ys where bs': "bs' = (r', w') # ys"
    using Cons.prems(2) by (cases bs') auto
  have "r' = r" "w' = w"
    using Cons.prems(2) nag by (simp_all add: bs' naglowek_bloku_def)
  then show ?case
    using Cons.IH [OF od, of ys] Cons.prems(2) by (simp add: bs' x)
qed

lemma reprezentuje_jednoznaczne:
  "reprezentuje h bs \<Longrightarrow> reprezentuje h bs' \<Longrightarrow> bs = bs'"
  by (auto simp: reprezentuje_def dest: odcinek_jednoznaczny)

lemma lista_sterty_poprawna_reprezentuje:
  "lista_sterty_poprawna h \<longleftrightarrow> (\<exists>bs. reprezentuje h bs)"
proof
  assume "lista_sterty_poprawna h"
  then show "\<exists>bs. reprezentuje h bs"
    using lista_petla_odcinek [of h 0 "st_pierwszy h"]
    by (auto simp: lista_sterty_poprawna_def reprezentuje_def sterta_ma_poprawny_zakres_def)
next
  assume "\<exists>bs. reprezentuje h bs"
  then obtain bs where r: "reprezentuje h bs" by blast
  then obtain q where z: "sterta_ma_poprawny_zakres h"
    and od: "odcinek h 0 (st_poczatek h) bs q (st_koniec h)"
    by (auto simp: reprezentuje_def)
  have "st_poczatek h \<noteq> st_koniec h" "st_pierwszy h = st_poczatek h" "st_pierwszy h \<noteq> 0"
    using z by (auto simp: sterta_ma_poprawny_zakres_def)
  then show "lista_sterty_poprawna h"
    using odcinek_lista_petla [OF od z, of "unat (maks_blokow h)"] reprezentuje_dlugosc [OF r] z
    by (simp add: lista_sterty_poprawna_def)
qed

subsection \<open>Effect of the block operations on the block list\<close>

lemma naglowek_bloku_sel [simp]:
  "bs_rozmiar (naglowek_bloku k p b r w) = r"
  "bs_wolny (naglowek_bloku k p b r w) = w"
  "bs_nastepny (naglowek_bloku k p b r w) = (if b + NAGLOWEK + r = k then 0 else b + NAGLOWEK + r)"
  "bs_poprzedni (naglowek_bloku k p b r w) = p"
  "bs_magic (naglowek_bloku k p b r w) = MAGIC_STERTY"
  by (simp_all add: naglowek_bloku_def)

lemma naglowek_bloku_upd:
  "(naglowek_bloku k p b r w)\<lparr>bs_wolny := w'\<rparr> = naglowek_bloku k p b r w'"
  "(naglowek_bloku k p b r w)\<lparr>bs_poprzedni := p'\<rparr> = naglowek_bloku k p' b r w"
  by (simp_all add: naglowek_bloku_def)

lemma ustaw_naglowek_sel [simp]:
  "st_pamiec (ustaw_naglowek h b n) = (st_pamiec h)(b := n)"
  "st_poczatek (ustaw_naglowek h b n) = st_poczatek h"
  "st_koniec (ustaw_naglowek h b n) = st_koniec h"
  "st_pierwszy (ustaw_naglowek h b n) = st_pierwszy h"
  by (simp_all add: ustaw_naglowek_def)

lemma zakres_ustaw_naglowek [simp]:
  "sterta_ma_poprawny_zakres (ustaw_naglowek h b n) = sterta_ma_poprawny_zakres h"
  by (simp add: sterta_ma_poprawny_zakres_def)

lemma blok_w_granicach_ustaw [simp]:
  "blok_w_granicach (ustaw_naglowek h b n) = blok_w_granicach h"
  by (intro ext) (simp add: blok_w_granicach_def)

text \<open>Replacing the head block of a segment, and only then repairing the next header's back link.\<close>

lemma odcinek_podmien:
  assumes xs: "odcinek h 0 a xs p b" and ys: "odcinek h s c ys q k"
    and bounds: "unat a \<le> unat b" "unat b < unat c"
    and pam: "\<And>x. unat x < unat b \<Longrightarrow> st_pamiec h' x = st_pamiec h x"
    and pam2: "\<And>x. unat c < unat x \<Longrightarrow> st_pamiec h' x = st_pamiec h x"
    and glowa: "ys \<noteq> [] \<Longrightarrow> st_pamiec h' c = (st_pamiec h c)\<lparr>bs_poprzedni := s'\<rparr>"
    and par: "st_poczatek h' = st_poczatek h" "st_koniec h' = st_koniec h"
    and mid: "odcinek h' p b zs s' c"
  shows "\<exists>q. odcinek h' 0 a (xs @ zs @ ys) q k"
proof -
  have xs': "odcinek h' 0 a xs p b"
    by (rule odcinek_cong [OF xs par]) (simp add: pam)
  have "\<exists>q. odcinek h' s' c ys q k"
  proof (cases ys)
    case Nil
    with ys show ?thesis by simp
  next
    case (Cons y zs')
    obtain r w where y: "y = (r, w)" by (cases y) auto
    have gran: "blok_w_granicach h c r" and od: "odcinek h c (c + NAGLOWEK + r) zs' q k"
      and nag: "st_pamiec h c = naglowek_bloku (st_koniec h) s c r w"
      using ys by (simp_all add: Cons y)
    have "odcinek h' c (c + NAGLOWEK + r) zs' q k"
      by (rule odcinek_cong [OF od par]) (use blok_koniec_unat [OF gran] in \<open>simp add: pam2\<close>)
    moreover have "st_pamiec h' c = naglowek_bloku (st_koniec h') s' c r w"
      using glowa nag par by (simp add: Cons naglowek_bloku_upd)
    ultimately have "odcinek h' s' c ys q k"
      using gran par by (simp add: Cons y blok_w_granicach_def)
    then show ?thesis by blast
  qed
  with xs' mid show ?thesis
    by (simp add: odcinek_append) blast
qed

text \<open>The address of the block after \<open>xs\<close>, and what a split of the block list says of the memory.\<close>

definition adres_bloku :: "sterta \<Rightarrow> blok list \<Rightarrow> adres" where
  "adres_bloku h xs = st_poczatek h + word_of_nat (suma_blokow xs)"

lemma odcinek_adres:
  "odcinek h 0 (st_poczatek h) xs p b \<Longrightarrow> b = adres_bloku h xs"
proof -
  assume "odcinek h 0 (st_poczatek h) xs p b"
  then have "unat b = unat (st_poczatek h) + suma_blokow xs" by (rule odcinek_suma)
  then have "word_of_nat (unat b) = (st_poczatek h + word_of_nat (suma_blokow xs) :: adres)"
    by simp
  then show ?thesis by (simp add: adres_bloku_def)
qed

lemma reprezentuje_podzial:
  assumes "reprezentuje h (xs @ (r, w) # ys)"
  obtains p q where
    "odcinek h 0 (st_poczatek h) xs p (adres_bloku h xs)"
    "blok_w_granicach h (adres_bloku h xs) r"
    "st_pamiec h (adres_bloku h xs) = naglowek_bloku (st_koniec h) p (adres_bloku h xs) r w"
    "odcinek h (adres_bloku h xs) (adres_bloku h xs + NAGLOWEK + r) ys q (st_koniec h)"
    "unat (adres_bloku h xs) = unat (st_poczatek h) + suma_blokow xs"
proof -
  from assms obtain q where "odcinek h 0 (st_poczatek h) (xs @ (r, w) # ys) q (st_koniec h)"
    by (auto simp: reprezentuje_def)
  then obtain p b where xs: "odcinek h 0 (st_poczatek h) xs p b"
    and ys: "odcinek h p b ((r, w) # ys) q (st_koniec h)"
    by (auto simp: odcinek_append)
  from xs have b: "b = adres_bloku h xs" by (rule odcinek_adres)
  show thesis
    using that [of p q] xs ys odcinek_suma [OF xs] by (simp add: b)
qed

lemma reprezentujeI:
  assumes "sterta_ma_poprawny_zakres h" "\<exists>q. odcinek h 0 (st_poczatek h) bs q (st_koniec h)"
  shows "reprezentuje h bs"
  using assms by (simp add: reprezentuje_def)

lemma reprezentuje_zakres: "reprezentuje h bs \<Longrightarrow> sterta_ma_poprawny_zakres h"
  by (simp add: reprezentuje_def)

lemma ustaw_wolny_reprezentuje:
  assumes rep: "reprezentuje h (xs @ (r, w) # ys)"
  shows "reprezentuje (ustaw_naglowek h (adres_bloku h xs)
           ((st_pamiec h (adres_bloku h xs))\<lparr>bs_wolny := w'\<rparr>)) (xs @ (r, w') # ys)"
    (is "reprezentuje ?h _")
proof -
  let ?b = "adres_bloku h xs" and ?c = "adres_bloku h xs + NAGLOWEK + r"
  obtain p q where o: "odcinek h 0 (st_poczatek h) xs p ?b" "blok_w_granicach h ?b r"
    "st_pamiec h ?b = naglowek_bloku (st_koniec h) p ?b r w" "odcinek h ?b ?c ys q (st_koniec h)"
    "unat ?b = unat (st_poczatek h) + suma_blokow xs"
    using reprezentuje_podzial [OF rep] by blast
  note c = blok_koniec_unat [OF o(2)]
  have "\<exists>q. odcinek ?h 0 (st_poczatek h) (xs @ [(r, w')] @ ys) q (st_koniec h)"
  proof (rule odcinek_podmien [OF o(1) o(4), where s' = ?b])
    show "odcinek ?h p ?b [(r, w')] ?b ?c"
      using o(2,3) by (simp add: naglowek_bloku_upd)
    show "st_pamiec ?h ?c = (st_pamiec h ?c)\<lparr>bs_poprzedni := ?b\<rparr>" if "ys \<noteq> []"
    proof -
      have "?c \<noteq> ?b" using blok_koniec_neq o(2) by blast
      moreover obtain y zs where "ys = y # zs" using \<open>ys \<noteq> []\<close> by (cases ys) auto
      ultimately show ?thesis using o(4) by (cases y) (simp add: naglowek_bloku_upd)
    qed
  qed (use o(5) c in auto)
  then show ?thesis
    using reprezentuje_zakres [OF rep] by (intro reprezentujeI) simp_all
qed

lemma polacz_sel [simp]:
  "st_poczatek (polacz_z_nastepnym h b) = st_poczatek h"
  "st_koniec (polacz_z_nastepnym h b) = st_koniec h"
  "st_pierwszy (polacz_z_nastepnym h b) = st_pierwszy h"
  unfolding polacz_z_nastepnym_def Let_def by (auto split: option.splits)

lemma granice_adres_naglowka:
  "blok_w_granicach h b r \<Longrightarrow> sterta_ma_poprawny_zakres h \<Longrightarrow> adres_naglowka_w_stercie h b"
  by (simp add: adres_naglowka_iff blok_w_granicach_def)

lemma granice_niezero:
  "blok_w_granicach h b r \<Longrightarrow> sterta_ma_poprawny_zakres h \<Longrightarrow> b \<noteq> 0 \<and> b \<noteq> st_koniec h"
  by (auto simp: blok_w_granicach_def sterta_ma_poprawny_zakres_def)

lemma scalony_rozmiar:
  assumes gb: "blok_w_granicach h b r" and gc: "blok_w_granicach h c r2" and c: "c = b + NAGLOWEK + r"
  shows "unat (r + NAGLOWEK + r2) = unat r + 48 + unat r2"
    and "dodaj_u64 r NAGLOWEK = Some (r + NAGLOWEK)"
    and "dodaj_u64 (r + NAGLOWEK) r2 = Some (r + NAGLOWEK + r2)"
    and "dodaj_u64 b NAGLOWEK = Some (b + NAGLOWEK)"
    and "b + NAGLOWEK + (r + NAGLOWEK + r2) = c + NAGLOWEK + r2"
    and "\<not> r + NAGLOWEK + r2 > UINT64_MAX - (b + NAGLOWEK)"
    and "\<not> c + NAGLOWEK + r2 > st_koniec h"
    and "blok_w_granicach h b (r + NAGLOWEK + r2)"
proof -
  note bc = blok_koniec_unat [OF gb, folded c] and cd = blok_koniec_unat [OF gc]
  have kon: "unat (c + NAGLOWEK + r2) \<le> unat (st_koniec h)"
    using gc unfolding blok_w_granicach_def cd by blast
  have le: "unat b + 48 + (unat r + 48 + unat r2) < 18446744073709551616"
    using le_unat_u64_bound [OF kon] bc cd by linarith
  have r48: "unat (r + NAGLOWEK) = unat r + 48"
    using le unat_add_u64 [of r NAGLOWEK] by simp
  show nowy: "unat (r + NAGLOWEK + r2) = unat r + 48 + unat r2"
    using le unat_add_u64 [of "r + NAGLOWEK" r2] r48 by simp
  show "dodaj_u64 r NAGLOWEK = Some (r + NAGLOWEK)"
    and "dodaj_u64 (r + NAGLOWEK) r2 = Some (r + NAGLOWEK + r2)"
    and "dodaj_u64 b NAGLOWEK = Some (b + NAGLOWEK)"
    using le r48 by (simp_all add: arytmetyka)
  show "b + NAGLOWEK + (r + NAGLOWEK + r2) = c + NAGLOWEK + r2"
    by (simp add: c algebra_simps)
  show "\<not> r + NAGLOWEK + r2 > UINT64_MAX - (b + NAGLOWEK)"
    using le unfolding max_minus_less_iff nowy bc(1) by linarith
  show "\<not> c + NAGLOWEK + r2 > st_koniec h"
    using kon by (simp only: word_less_nat_alt not_less)
  have "unat r mod 16 = 0" "unat r2 mod 16 = 0" "16 \<le> unat r"
    using gb gc unfolding blok_w_granicach_def by blast+
  then have mod: "(unat r + 48 + unat r2) mod 16 = 0 \<and> 16 \<le> unat r + 48 + unat r2"
    by presburger
  have "unat b + 48 + (unat r + 48 + unat r2) \<le> unat (st_koniec h)"
    using kon bc cd by linarith
  then show "blok_w_granicach h b (r + NAGLOWEK + r2)"
    using gb mod unfolding blok_w_granicach_def nowy by linarith
qed

lemma polacz_scala:
  assumes rep: "reprezentuje h (xs @ (r, True) # (r2, True) # ys)"
  shows "reprezentuje (polacz_z_nastepnym h (adres_bloku h xs)) (xs @ (r + NAGLOWEK + r2, True) # ys)"
proof -
  define b where "b = adres_bloku h xs"
  define c where "c = b + NAGLOWEK + r"
  define d where "d = c + NAGLOWEK + r2"
  define nowy where "nowy = r + NAGLOWEK + r2"
  note zak = reprezentuje_zakres [OF rep]
  obtain p q where o: "odcinek h 0 (st_poczatek h) xs p b" "blok_w_granicach h b r"
    "st_pamiec h b = naglowek_bloku (st_koniec h) p b r True"
    "odcinek h b c ((r2, True) # ys) q (st_koniec h)"
    "unat b = unat (st_poczatek h) + suma_blokow xs"
    using reprezentuje_podzial [OF rep] unfolding b_def c_def by blast
  then have g2: "blok_w_granicach h c r2"
    and m: "st_pamiec h c = naglowek_bloku (st_koniec h) b c r2 True"
    and ys: "odcinek h c d ys q (st_koniec h)"
    by (simp_all add: d_def)
  note bc = blok_koniec_unat [OF o(2), folded c_def] and cd = blok_koniec_unat [OF g2, folded d_def]
  note roz = scalony_rozmiar [OF o(2) g2 c_def, folded d_def nowy_def]
  have pk: "pobierz_koniec_bloku h b = Some c"
    using o(2,3) zak by (simp add: pobierz_koniec_iff c_def)
  have nz: "c \<noteq> 0" "c \<noteq> st_koniec h" "b \<noteq> 0"
    using granice_niezero [OF g2 zak] granice_niezero [OF o(2) zak] by simp_all
  have adr: "adres_naglowka_w_stercie h b" "adres_naglowka_w_stercie h c"
    using granice_adres_naglowka [OF o(2) zak] granice_adres_naglowka [OF g2 zak] by simp_all
  have ord: "b \<noteq> c" "c \<noteq> d" "b \<noteq> d" "d \<noteq> 0"
    using bc cd by auto
  define h' where "h' = polacz_z_nastepnym h b"
  have bn: "bs_nastepny (st_pamiec h b) = c" "bs_nastepny (st_pamiec h c) = (if d = st_koniec h then 0 else d)"
    using o(3) m nz by (simp_all add: c_def [symmetric] d_def [symmetric])
  have nb: "d \<noteq> st_koniec h \<Longrightarrow> (naglowek_bloku (st_koniec h) p b r True)\<lparr>bs_rozmiar := nowy, bs_nastepny := d\<rparr>
      = naglowek_bloku (st_koniec h) p b nowy True"
    "d = st_koniec h \<Longrightarrow> (naglowek_bloku (st_koniec h) p b r True)\<lparr>bs_rozmiar := nowy, bs_nastepny := 0\<rparr>
      = naglowek_bloku (st_koniec h) p b nowy True"
    by (simp_all add: naglowek_bloku_def roz(5))
  have pam: "st_pamiec h' =
      (let f = (st_pamiec h)(b := naglowek_bloku (st_koniec h) p b nowy True);
           g = (if d \<noteq> st_koniec h then f(d := (f d)\<lparr>bs_poprzedni := b\<rparr>) else f)
       in g(c := \<lparr>bs_rozmiar = 0, bs_wolny = False, bs_nastepny = 0, bs_poprzedni = 0, bs_magic = 0\<rparr>))"
    unfolding h'_def polacz_z_nastepnym_def Let_def bn
    using nz adr pk ord roz o(3) m by (simp add: nb)
  have par: "st_poczatek h' = st_poczatek h" "st_koniec h' = st_koniec h"
    by (simp_all add: h'_def)
  have "\<exists>q. odcinek h' 0 (st_poczatek h) (xs @ [(nowy, True)] @ ys) q (st_koniec h)"
  proof (rule odcinek_podmien [OF o(1) ys, where s' = b])
    show "odcinek h' p b [(nowy, True)] b d"
      using roz(5,8) ord by (simp add: pam par blok_w_granicach_def Let_def)
    show "st_pamiec h' d = (st_pamiec h d)\<lparr>bs_poprzedni := b\<rparr>" if "ys \<noteq> []"
    proof -
      obtain y zs where "ys = y # zs" using \<open>ys \<noteq> []\<close> by (cases ys) auto
      then have "d \<noteq> st_koniec h"
        using ys by (cases y) (auto simp: blok_w_granicach_def)
      then show ?thesis using ord by (simp add: pam)
    qed
  qed (use o(5) bc cd in \<open>auto simp: pam par Let_def\<close>)
  then show ?thesis
    using zak unfolding b_def [symmetric] nowy_def [symmetric] h'_def
    by (intro reprezentujeI) (simp_all add: sterta_ma_poprawny_zakres_def)
qed

lemma polacz_bez_zmian:
  assumes rep: "reprezentuje h (xs @ (r, w) # ys)"
    and brak: "\<not> w \<or> ys = [] \<or> \<not> snd (hd ys)"
  shows "polacz_z_nastepnym h (adres_bloku h xs) = h"
proof (cases "w \<and> ys \<noteq> []")
  case False
  obtain p q where o: "st_pamiec h (adres_bloku h xs) = naglowek_bloku (st_koniec h) p (adres_bloku h xs) r w"
    "odcinek h (adres_bloku h xs) (adres_bloku h xs + NAGLOWEK + r) ys q (st_koniec h)"
    using reprezentuje_podzial [OF rep] by blast
  with False show ?thesis
    by (auto simp: polacz_z_nastepnym_def Let_def)
next
  case True
  define c where "c = adres_bloku h xs + NAGLOWEK + r"
  obtain r2 zs where y: "ys = (r2, False) # zs"
    using True brak by (cases ys) auto
  obtain p q where o: "st_pamiec h (adres_bloku h xs) = naglowek_bloku (st_koniec h) p (adres_bloku h xs) r w"
    "odcinek h (adres_bloku h xs) c ys q (st_koniec h)"
    using reprezentuje_podzial [OF rep] unfolding c_def by blast
  then have "bs_wolny (st_pamiec h c) = False" "c \<noteq> st_koniec h"
    by (auto simp: y blok_w_granicach_def)
  with o(1) show ?thesis
    by (simp add: polacz_z_nastepnym_def Let_def c_def [symmetric])
qed

lemma poprzedni_bloku:
  assumes rep: "reprezentuje h (xs @ (r, w) # ys)"
  shows "bs_poprzedni (st_pamiec h (adres_bloku h xs)) = (if xs = [] then 0 else adres_bloku h (butlast xs))"
proof -
  obtain p where xs: "odcinek h 0 (st_poczatek h) xs p (adres_bloku h xs)"
    and nag: "bs_poprzedni (st_pamiec h (adres_bloku h xs)) = p"
    using reprezentuje_podzial [OF rep] by (metis naglowek_bloku_sel(4))
  show ?thesis
  proof (cases xs rule: rev_cases)
    case Nil
    with xs nag show ?thesis by simp
  next
    case (snoc zs z)
    then obtain p' b' where zs: "odcinek h 0 (st_poczatek h) zs p' b'" "odcinek h p' b' [z] p (adres_bloku h xs)"
      using xs by (auto simp: odcinek_append)
    then have "b' = p" by (cases z) simp
    with zs(1) nag snoc show ?thesis by (simp add: odcinek_adres)
  qed
qed

subsection \<open>kmalloc on the block list\<close>

lemma zajmij_blok_reprezentuje:
  assumes rep: "reprezentuje h (xs @ (r, w) # ys)"
  shows "\<exists>h'. zajmij_blok h (adres_bloku h xs) = (adres_bloku h xs + NAGLOWEK, h') \<and>
              reprezentuje h' (xs @ (r, False) # ys) \<and>
              st_poczatek h' = st_poczatek h \<and> st_koniec h' = st_koniec h"
proof -
  obtain p where "blok_w_granicach h (adres_bloku h xs) r"
    using reprezentuje_podzial [OF rep] by blast
  then have "unat (adres_bloku h xs) + 48 \<le> unat (st_koniec h)"
    by (simp add: blok_w_granicach_def)
  note dodaj_naglowek(1) [OF this]
  then show ?thesis
    using ustaw_wolny_reprezentuje [OF rep, of False] by (simp add: zajmij_blok_def)
qed

definition po_przydziale :: "u64 \<Rightarrow> u64 \<Rightarrow> blok list" where
  "po_przydziale n r =
     (if r - n \<ge> NAGLOWEK + MINIMALNY_BLOK then [(n, False), (r - n - NAGLOWEK, True)] else [(r, False)])"

lemma podzial_arytmetyka:
  assumes gb: "blok_w_granicach h b r" and nr: "n \<le> r" and n16: "unat n mod 16 = 0" "16 \<le> unat n"
    and duzy: "r - n \<ge> NAGLOWEK + MINIMALNY_BLOK"
    and a: "a = b + NAGLOWEK + n"
  shows "blok_w_granicach h b n" and "blok_w_granicach h a (r - n - NAGLOWEK)"
    and "a + NAGLOWEK + (r - n - NAGLOWEK) = b + NAGLOWEK + r"
    and "dodaj_u64 b NAGLOWEK = Some (b + NAGLOWEK)" and "dodaj_u64 a NAGLOWEK = Some (a + NAGLOWEK)"
    and "\<not> n > UINT64_MAX - (b + NAGLOWEK)" and "\<not> a + NAGLOWEK > st_koniec h"
proof -
  have un: "unat n + 64 \<le> unat r" "unat (r - n) = unat r - unat n" "unat n \<le> unat r"
    using duzy nr by (simp_all add: word_le_nat_alt unat_sub_u64)
  have n48: "unat (r - n - NAGLOWEK) = unat r - unat n - 48"
    using un by (subst unat_sub_u64) (simp_all add: word_le_nat_alt)
  have gb': "unat b mod 16 = 0" "st_poczatek h \<le> b" "unat b + 48 + unat r \<le> unat (st_koniec h)"
    "unat r mod 16 = 0"
    using gb by (simp_all add: blok_w_granicach_def)
  have sb: "blok_w_granicach h b n"
    using gb' un n16 unfolding blok_w_granicach_def by linarith
  note ab = blok_koniec_unat [OF sb, folded a]
  have "(unat r - unat n - 48) mod 16 = 0" "16 \<le> unat r - unat n - 48"
    using gb'(4) n16(1) un by presburger+
  moreover have "unat a mod 16 = 0"
    using gb'(1) n16(1) ab by presburger
  moreover have "st_poczatek h \<le> a"
    using gb'(2) ab by (simp add: word_le_nat_alt)
  moreover have "unat a + 48 + (unat r - unat n - 48) \<le> unat (st_koniec h)"
    using gb'(3) un ab by linarith
  ultimately show ga: "blok_w_granicach h a (r - n - NAGLOWEK)"
    unfolding blok_w_granicach_def n48 by blast
  have a48: "unat a + 48 \<le> unat (st_koniec h)" and b48: "unat b + 48 \<le> unat (st_koniec h)"
    using ga sb unfolding blok_w_granicach_def by linarith+
  show "blok_w_granicach h b n" by (rule sb)
  show "a + NAGLOWEK + (r - n - NAGLOWEK) = b + NAGLOWEK + r"
    by (simp add: a algebra_simps)
  show "dodaj_u64 b NAGLOWEK = Some (b + NAGLOWEK)" "dodaj_u64 a NAGLOWEK = Some (a + NAGLOWEK)"
    by (rule dodaj_naglowek(1) [OF b48], rule dodaj_naglowek(1) [OF a48])
  have "unat n + unat (b + NAGLOWEK) < 18446744073709551616"
    using le_unat_u64_bound [OF a48] ab by linarith
  then show "\<not> n > UINT64_MAX - (b + NAGLOWEK)"
    unfolding max_minus_less_iff by linarith
  show "\<not> a + NAGLOWEK > st_koniec h"
    using a48 dodaj_naglowek(2) [OF a48] by (simp add: word_less_nat_alt)
qed

lemma kmalloc_w_bloku_reprezentuje:
  assumes rep: "reprezentuje h (xs @ (r, True) # ys)"
    and nr: "n \<le> r" and n16: "unat n mod 16 = 0" "16 \<le> unat n"
  shows "\<exists>h'. kmalloc_w_bloku h n (adres_bloku h xs) = (adres_bloku h xs + NAGLOWEK, h') \<and>
              reprezentuje h' (xs @ po_przydziale n r @ ys) \<and>
              st_poczatek h' = st_poczatek h \<and> st_koniec h' = st_koniec h"
proof (cases "r - n \<ge> NAGLOWEK + MINIMALNY_BLOK")
  case False
  obtain p where "st_pamiec h (adres_bloku h xs) = naglowek_bloku (st_koniec h) p (adres_bloku h xs) r True"
    using reprezentuje_podzial [OF rep] by blast
  with False show ?thesis
    using zajmij_blok_reprezentuje [OF rep] by (simp add: kmalloc_w_bloku_def po_przydziale_def)
next
  case duzy: True
  define b where "b = adres_bloku h xs"
  define a where "a = b + NAGLOWEK + n"
  define d where "d = b + NAGLOWEK + r"
  define reszta where "reszta = r - n - NAGLOWEK"
  note zak = reprezentuje_zakres [OF rep]
  obtain p q where o: "odcinek h 0 (st_poczatek h) xs p b" "blok_w_granicach h b r"
    "st_pamiec h b = naglowek_bloku (st_koniec h) p b r True"
    "odcinek h b d ys q (st_koniec h)"
    "unat b = unat (st_poczatek h) + suma_blokow xs"
    using reprezentuje_podzial [OF rep] unfolding b_def d_def by blast
  note ar = podzial_arytmetyka [OF o(2) nr n16 duzy a_def, folded d_def reszta_def]
  note ba = blok_koniec_unat [OF ar(1), folded a_def] and ad = blok_koniec_unat [OF ar(2), unfolded ar(3)]
  have ord: "b \<noteq> a" "a \<noteq> d" "b \<noteq> d" "d \<noteq> 0"
    using ba ad by auto
  have anz: "a \<noteq> st_koniec h"
    using granice_niezero [OF ar(2) zak] by simp
  have a16: "a AND 15 = 0"
    using ar(2) by (simp add: aligned16_iff blok_w_granicach_def)
  define h3 where "h3 =
    (let h1 = ustaw_naglowek h a \<lparr>bs_rozmiar = reszta, bs_wolny = True,
                 bs_nastepny = (if d = st_koniec h then 0 else d), bs_poprzedni = b, bs_magic = MAGIC_STERTY\<rparr>;
         h2 = (if d \<noteq> st_koniec h
               then ustaw_naglowek h1 d ((st_pamiec h1 d)\<lparr>bs_poprzedni := a\<rparr>) else h1)
     in ustaw_naglowek h2 b ((st_pamiec h2 b)\<lparr>bs_rozmiar := n, bs_nastepny := a\<rparr>))"
  have krok: "kmalloc_w_bloku h n b = zajmij_blok h3 b"
    using o(3) duzy ar(4-7) a16 ord
    unfolding kmalloc_w_bloku_def Let_def h3_def reszta_def [symmetric] a_def [symmetric]
    by (simp add: d_def [symmetric] a_def [symmetric] reszta_def [symmetric])
  have par: "st_poczatek h3 = st_poczatek h" "st_koniec h3 = st_koniec h" "sterta_ma_poprawny_zakres h3"
    using zak by (simp_all add: h3_def Let_def)
  have pb: "st_pamiec h3 b = naglowek_bloku (st_koniec h) p b n True"
    using o(3) ord anz by (simp add: h3_def Let_def naglowek_bloku_def a_def [symmetric])
  have pa: "st_pamiec h3 a = naglowek_bloku (st_koniec h) b a reszta True"
    using ord by (simp add: h3_def Let_def naglowek_bloku_def ar(3))
  have pd: "st_pamiec h3 d = (st_pamiec h d)\<lparr>bs_poprzedni := a\<rparr>" if "ys \<noteq> []"
  proof -
    obtain y zs where "ys = y # zs" using \<open>ys \<noteq> []\<close> by (cases ys) auto
    then have "d \<noteq> st_koniec h" using o(4) by (cases y) (auto simp: blok_w_granicach_def)
    then show ?thesis using ord by (simp add: h3_def Let_def)
  qed
  have inne: "st_pamiec h3 x = st_pamiec h x" if "x \<noteq> a" "x \<noteq> b" "x \<noteq> d" for x
    using that by (simp add: h3_def Let_def)
  have "\<exists>q. odcinek h3 0 (st_poczatek h) (xs @ [(n, True), (reszta, True)] @ ys) q (st_koniec h)"
  proof (rule odcinek_podmien [OF o(1) o(4), where s' = a])
    show "odcinek h3 p b [(n, True), (reszta, True)] a d"
      using ar(1-3) pa pb by (simp add: par blok_w_granicach_def a_def [symmetric])
    show "\<And>x. unat x < unat b \<Longrightarrow> st_pamiec h3 x = st_pamiec h x"
      using ba ad by (intro inne) auto
    show "\<And>x. unat d < unat x \<Longrightarrow> st_pamiec h3 x = st_pamiec h x"
      using ba ad by (intro inne) auto
  qed (use o(5) ba ad pd par in auto)
  then have rep3: "reprezentuje h3 (xs @ (n, True) # (reszta, True) # ys)"
    using par by (intro reprezentujeI) simp_all
  have "adres_bloku h3 xs = b"
    by (simp add: adres_bloku_def par b_def)
  then show ?thesis
    using zajmij_blok_reprezentuje [OF rep3] krok duzy
    by (simp add: par po_przydziale_def reszta_def b_def [symmetric])
qed

text \<open>The block list as a walk over the headers, and the live payloads \<open>(address, size)\<close> in it.\<close>

fun zbierz_bloki :: "nat \<Rightarrow> sterta \<Rightarrow> adres \<Rightarrow> blok list" where
  "zbierz_bloki 0 h b = []"
| "zbierz_bloki (Suc f) h b =
     (if b = 0 then []
      else let n = st_pamiec h b in (bs_rozmiar n, bs_wolny n) # zbierz_bloki f h (bs_nastepny n))"

definition bloki_sterty :: "sterta \<Rightarrow> blok list" where
  "bloki_sterty h = zbierz_bloki (unat (maks_blokow h)) h (st_pierwszy h)"

fun zajete_od :: "nat \<Rightarrow> blok list \<Rightarrow> (nat \<times> nat) list" where
  "zajete_od a [] = []"
| "zajete_od a ((r, w) # bs) =
     (if w then [] else [(a + 48, unat r)]) @ zajete_od (a + 48 + unat r) bs"

definition zajete :: "sterta \<Rightarrow> (nat \<times> nat) list" where
  "zajete h = zajete_od (unat (st_poczatek h)) (bloki_sterty h)"

lemma zbierz_bloki_odcinek:
  "odcinek h p b bs q (st_koniec h) \<Longrightarrow> sterta_ma_poprawny_zakres h \<Longrightarrow> length bs < f \<Longrightarrow>
   zbierz_bloki f h (if b = st_koniec h then 0 else b) = bs"
proof (induction bs arbitrary: p b f)
  case Nil
  then obtain g where "f = Suc g" by (cases f) auto
  with Nil show ?case by simp
next
  case (Cons x bs)
  obtain r w where x: "x = (r, w)" by (cases x) auto
  obtain g where f: "f = Suc g" "length bs < g" using Cons.prems(3) by (cases f) auto
  have gran: "blok_w_granicach h b r" and od: "odcinek h b (b + NAGLOWEK + r) bs q (st_koniec h)"
    and nag: "st_pamiec h b = naglowek_bloku (st_koniec h) p b r w"
    using Cons.prems(1) by (auto simp: x)
  show ?case
    using Cons.IH [OF od Cons.prems(2) f(2)] granice_niezero [OF gran Cons.prems(2)] nag
    by (simp add: f x Let_def)
qed

lemma bloki_sterty_reprezentuje:
  assumes "reprezentuje h bs"
  shows "bloki_sterty h = bs"
proof -
  obtain q where o: "odcinek h 0 (st_poczatek h) bs q (st_koniec h)"
    and z: "sterta_ma_poprawny_zakres h"
    using assms by (auto simp: reprezentuje_def)
  have "st_poczatek h \<noteq> st_koniec h" "st_pierwszy h = st_poczatek h"
    using z by (auto simp: sterta_ma_poprawny_zakres_def)
  with zbierz_bloki_odcinek [OF o z reprezentuje_dlugosc(1) [OF assms]]
  show ?thesis by (simp add: bloki_sterty_def)
qed

lemma lista_poprawna_bloki: "lista_sterty_poprawna h \<longleftrightarrow> reprezentuje h (bloki_sterty h)"
  using lista_sterty_poprawna_reprezentuje bloki_sterty_reprezentuje by metis

lemma lista_poprawna_zakres: "lista_sterty_poprawna h \<Longrightarrow> sterta_ma_poprawny_zakres h"
  by (simp add: lista_sterty_poprawna_def)

lemma zajete_od_append:
  "zajete_od a (xs @ ys) = zajete_od a xs @ zajete_od (a + suma_blokow xs) ys"
  by (induction a xs rule: zajete_od.induct) (auto simp: add.assoc)

lemma zajete_od_dolna: "(p, s) \<in> set (zajete_od a bs) \<Longrightarrow> a + 48 \<le> p"
  by (induction a bs rule: zajete_od.induct) (fastforce split: if_splits)+

lemma zajete_od_rozlaczne: "sorted_wrt (\<lambda>(p, s) (p', s'). p + s \<le> p') (zajete_od a bs)"
proof (induction a bs rule: zajete_od.induct)
  case (2 a r w bs)
  then show ?case using zajete_od_dolna [of _ _ "a + 48 + unat r" bs] by fastforce
qed simp

lemma zajete_od_gorna: "(p, s) \<in> set (zajete_od a bs) \<Longrightarrow> p + s \<le> a + suma_blokow bs"
  by (induction a bs rule: zajete_od.induct) (fastforce split: if_splits)+

lemma kmalloc_petla_extract:
  assumes "odcinek h p b bs q (st_koniec h)" "sterta_ma_poprawny_zakres h" "length bs < f"
  shows "kmalloc_petla f h n (if b = st_koniec h then 0 else b) =
    (case List.extract (\<lambda>(r, w). w \<and> n \<le> r) bs of
       None \<Rightarrow> Some (0, h)
     | Some (xs, x, ys) \<Rightarrow> Some (kmalloc_w_bloku h n (b + word_of_nat (suma_blokow xs))))"
  using assms
proof (induction bs arbitrary: p b f)
  case Nil
  then show ?case by (simp add: kmalloc_petla.simps extract_Nil_code)
next
  case (Cons x bs)
  obtain r w where x: "x = (r, w)" by (cases x) auto
  obtain g where f: "f = Suc g" "length bs < g" using Cons.prems(3) by (cases f) auto
  have gran: "blok_w_granicach h b r" and od: "odcinek h b (b + NAGLOWEK + r) bs q (st_koniec h)"
    and nag: "st_pamiec h b = naglowek_bloku (st_koniec h) p b r w"
    using Cons.prems(1) by (auto simp: x)
  have nz: "b \<noteq> 0" "b \<noteq> st_koniec h"
    using granice_niezero [OF gran Cons.prems(2)] by simp_all
  show ?case
  proof (cases "w \<and> n \<le> r")
    case True
    with nag nz show ?thesis
      by (auto dest: leD simp: kmalloc_petla.simps [of "Suc g"] f x extract_Cons_code Let_def not_less)
  next
    case False
    then have skok: "kmalloc_petla f h n b = kmalloc_petla g h n (bs_nastepny (st_pamiec h b))"
      using nag nz by (auto simp: kmalloc_petla.simps [of "Suc g"] f Let_def not_less)
    have przes: "b + NAGLOWEK + r + word_of_nat (suma_blokow xs) = b + word_of_nat (suma_blokow ((r, w) # xs))" for xs
      by (simp add: algebra_simps)
    show ?thesis
      using Cons.IH [OF od Cons.prems(2) f(2)] False nz skok nag
      by (auto simp: x extract_Cons_code przes split: option.splits prod.splits if_splits)
  qed
qed

lemma kmalloc_jako_extract:
  assumes rep: "reprezentuje h bs" and r0: "rozmiar \<noteq> 0"
    and w: "wyrownaj_rozmiar rozmiar = Some w" and n: "n = max MINIMALNY_BLOK w"
  shows "kmalloc h rozmiar =
    (case List.extract (\<lambda>(r, wolny). wolny \<and> n \<le> r) bs of
       None \<Rightarrow> Some (0, h)
     | Some (xs, x, ys) \<Rightarrow> Some (kmalloc_w_bloku h n (adres_bloku h xs)))"
proof -
  obtain q where o: "odcinek h 0 (st_poczatek h) bs q (st_koniec h)"
    and z: "sterta_ma_poprawny_zakres h"
    using rep by (auto simp: reprezentuje_def)
  have pierwszy: "st_poczatek h \<noteq> st_koniec h" "st_pierwszy h = st_poczatek h" "st_pierwszy h \<noteq> 0"
    using z by (auto simp: sterta_ma_poprawny_zakres_def)
  have lista: "lista_sterty_poprawna h"
    using rep lista_sterty_poprawna_reprezentuje by blast
  have "kmalloc h rozmiar = kmalloc_petla (unat (maks_blokow h)) h n (st_pierwszy h)"
    using pierwszy lista r0 w
    by (auto simp: kmalloc_def Let_def n max_def intro: antisym)
  also have "\<dots> = kmalloc_petla (unat (maks_blokow h)) h n (if st_poczatek h = st_koniec h then 0 else st_poczatek h)"
    using pierwszy by simp
  finally show ?thesis
    unfolding kmalloc_petla_extract [OF o z reprezentuje_dlugosc(1) [OF rep]] adres_bloku_def .
qed

lemma wyrownaj_rozmiar_wlasnosci:
  assumes "wyrownaj_rozmiar rozmiar = Some w"
  shows "unat w mod 16 = 0" "unat rozmiar \<le> unat w" "unat w < unat rozmiar + 16"
proof -
  have nie: "unat rozmiar + 15 < 18446744073709551616" and w: "w = (rozmiar + 15) AND NOT 15"
    using assms unfolding wyrownaj_rozmiar_def
    by (auto simp: max_minus_less_iff split: if_splits)
  have s: "unat (rozmiar + 15) = unat rozmiar + 15"
    using nie unat_add_u64 [of rozmiar 15] by simp
  have "unat w = unat rozmiar + 15 - (unat rozmiar + 15) mod 16"
    unfolding w unat_down16 s by simp
  then show "unat w mod 16 = 0" "unat rozmiar \<le> unat w" "unat w < unat rozmiar + 16"
    using down_mod [of "unat rozmiar + 15" 16] up_down [of 16 "unat rozmiar"] by simp_all
qed

text \<open>The live payloads after an allocation in a given block.\<close>

lemma zajete_po_przydziale:
  assumes "n \<le> r"
  shows "\<exists>s. unat n \<le> s \<and> zajete_od a (xs @ po_przydziale n r @ ys) =
           zajete_od a xs @ (a + suma_blokow xs + 48, s) # zajete_od (a + suma_blokow xs + 48 + unat r) ys"
proof (cases "r - n \<ge> NAGLOWEK + MINIMALNY_BLOK")
  case True
  then have "unat n + 64 \<le> unat r" "unat (r - n) = unat r - unat n"
    using assms by (simp_all add: word_le_nat_alt unat_sub_u64)
  moreover from this have "unat (r - n - NAGLOWEK) = unat r - unat n - 48"
    by (subst unat_sub_u64) (simp_all add: word_le_nat_alt)
  ultimately show ?thesis
    using True by (intro exI [of _ "unat n"]) (simp add: po_przydziale_def zajete_od_append algebra_simps)
next
  case False
  then show ?thesis
    using assms by (intro exI [of _ "unat r"]) (simp add: po_przydziale_def zajete_od_append word_le_nat_alt)
qed

subsection \<open>kfree on the block list\<close>

definition scal_prawy :: "u64 \<Rightarrow> blok list \<Rightarrow> u64 \<times> blok list" where
  "scal_prawy r ys =
     (case ys of (r2, True) # zs \<Rightarrow> (r + NAGLOWEK + r2, zs) | _ \<Rightarrow> (r, ys))"

definition scal_lewy :: "blok list \<Rightarrow> u64 \<Rightarrow> blok list \<times> u64" where
  "scal_lewy xs r =
     (if xs \<noteq> [] \<and> snd (last xs) then (butlast xs, fst (last xs) + NAGLOWEK + r) else (xs, r))"

definition po_zwolnieniu :: "blok list \<Rightarrow> u64 \<Rightarrow> blok list \<Rightarrow> blok list" where
  "po_zwolnieniu xs r ys =
     (let (r1, zs) = scal_prawy r ys; (ws, r2) = scal_lewy xs r1 in ws @ (r2, True) # zs)"

lemma znajdz_petla_trafia:
  assumes "odcinek h p b (xs @ (r, w) # ys) q (st_koniec h)" "sterta_ma_poprawny_zakres h"
    "length xs < f" "unat sz = unat b + suma_blokow xs + 48"
  shows "znajdz_petla f h sz b = Some (b + word_of_nat (suma_blokow xs))"
  using assms
proof (induction xs arbitrary: p b f)
  case Nil
  then obtain g where f: "f = Suc g" by (cases f) auto
  have gran: "blok_w_granicach h b r" using Nil.prems(1) by simp
  have "b + NAGLOWEK = sz"
    using Nil.prems(4) blok_koniec_unat(1) [OF gran] unfolding word_unat_eq_iff by simp
  moreover have "dodaj_u64 b NAGLOWEK = Some (b + NAGLOWEK)"
    using gran by (intro dodaj_naglowek(1) [of b "st_koniec h"]) (simp add: blok_w_granicach_def)
  ultimately show ?case
    using granice_niezero [OF gran Nil.prems(2)] by (simp add: znajdz_petla.simps [of "Suc g"] f)
next
  case (Cons x xs)
  obtain r0 w0 where x: "x = (r0, w0)" by (cases x) auto
  obtain g where f: "f = Suc g" "length xs < g" using Cons.prems(3) by (cases f) auto
  define c where "c = b + NAGLOWEK + r0"
  have gran: "blok_w_granicach h b r0" and od: "odcinek h b c (xs @ (r, w) # ys) q (st_koniec h)"
    and nag: "st_pamiec h b = naglowek_bloku (st_koniec h) p b r0 w0"
    using Cons.prems(1) by (auto simp: x c_def)
  note bc = blok_koniec_unat [OF gran, folded c_def]
  have cnk: "c \<noteq> st_koniec h"
    using od odcinek_suma [OF od] by auto
  have sz: "unat sz = unat c + suma_blokow xs + 48"
    using Cons.prems(4) bc by (simp add: x)
  have "b + NAGLOWEK \<noteq> sz" "\<not> b + NAGLOWEK > sz"
    using sz bc by (auto simp: word_less_nat_alt)
  moreover have "dodaj_u64 b NAGLOWEK = Some (b + NAGLOWEK)"
    using gran by (intro dodaj_naglowek(1) [of b "st_koniec h"]) (simp add: blok_w_granicach_def)
  ultimately have "znajdz_petla f h sz b = znajdz_petla g h sz c"
    using granice_niezero [OF gran Cons.prems(2)] nag cnk
    by (simp add: znajdz_petla.simps [of "Suc g"] f c_def)
  also have "\<dots> = Some (c + word_of_nat (suma_blokow xs))"
    by (rule Cons.IH [OF od Cons.prems(2) f(2) sz])
  also have "c + word_of_nat (suma_blokow xs) = b + word_of_nat (suma_blokow (x # xs))"
    by (simp add: x c_def algebra_simps)
  finally show ?case .
qed

lemma znajdz_petla_chybia:
  assumes "odcinek h p b bs q (st_koniec h)" "sterta_ma_poprawny_zakres h" "length bs < f"
    "\<And>xs r w ys. bs = xs @ (r, w) # ys \<Longrightarrow> unat sz \<noteq> unat b + suma_blokow xs + 48"
  shows "znajdz_petla f h sz (if b = st_koniec h then 0 else b) = Some 0"
  using assms
proof (induction bs arbitrary: p b f)
  case Nil
  then show ?case by (simp add: znajdz_petla.simps)
next
  case (Cons x bs)
  obtain r0 w0 where x: "x = (r0, w0)" by (cases x) auto
  obtain g where f: "f = Suc g" "length bs < g" using Cons.prems(3) by (cases f) auto
  define c where "c = b + NAGLOWEK + r0"
  have gran: "blok_w_granicach h b r0" and od: "odcinek h b c bs q (st_koniec h)"
    and nag: "st_pamiec h b = naglowek_bloku (st_koniec h) p b r0 w0"
    using Cons.prems(1) by (auto simp: x c_def)
  note bc = blok_koniec_unat [OF gran, folded c_def]
  have inny: "unat sz \<noteq> unat c + suma_blokow xs + 48" if "bs = xs @ (r, w) # ys" for xs r w ys
    using Cons.prems(4) [of "x # xs" r w ys] that bc by (simp add: x)
  have "b + NAGLOWEK \<noteq> sz"
    using Cons.prems(4) [of "[]" r0 w0 bs] bc by (auto simp: x)
  moreover have "dodaj_u64 b NAGLOWEK = Some (b + NAGLOWEK)"
    using gran by (intro dodaj_naglowek(1) [of b "st_koniec h"]) (simp add: blok_w_granicach_def)
  moreover have "znajdz_petla g h sz (if c = st_koniec h then 0 else c) = Some 0"
    by (rule Cons.IH [OF od Cons.prems(2) f(2) inny])
  ultimately show ?case
    using granice_niezero [OF gran Cons.prems(2)] nag
    by (auto simp: znajdz_petla.simps [of "Suc g"] f c_def [symmetric] split: if_splits)
qed

text \<open>The block whose payload starts at a pointer.\<close>

definition ma_blok :: "sterta \<Rightarrow> adres \<Rightarrow> blok list \<Rightarrow> u64 \<Rightarrow> bool \<Rightarrow> blok list \<Rightarrow> bool" where
  "ma_blok h wskaznik xs r w ys \<longleftrightarrow>
     bloki_sterty h = xs @ (r, w) # ys \<and>
     unat wskaznik = unat (st_poczatek h) + suma_blokow xs + 48"

lemma znajdz_blok_trafia:
  assumes lista: "lista_sterty_poprawna h" and blok: "ma_blok h wskaznik xs r w ys"
  shows "znajdz_blok_po_wskazniku h wskaznik = Some (adres_bloku h xs)"
proof -
  have rep: "reprezentuje h (xs @ (r, w) # ys)"
    using lista blok by (simp add: lista_poprawna_bloki ma_blok_def)
  then obtain q where o: "odcinek h 0 (st_poczatek h) (xs @ (r, w) # ys) q (st_koniec h)"
    and z: "sterta_ma_poprawny_zakres h"
    by (auto simp: reprezentuje_def)
  have "length xs < unat (maks_blokow h)"
    using reprezentuje_dlugosc(1) [OF rep] by simp
  from znajdz_petla_trafia [OF o z this] blok lista z show ?thesis
    by (auto simp: znajdz_blok_po_wskazniku_def ma_blok_def adres_bloku_def sterta_ma_poprawny_zakres_def)
qed

lemma znajdz_blok_chybia:
  assumes lista: "lista_sterty_poprawna h" and brak: "\<nexists>xs r w ys. ma_blok h wskaznik xs r w ys"
  shows "znajdz_blok_po_wskazniku h wskaznik = Some 0"
proof -
  have rep: "reprezentuje h (bloki_sterty h)"
    using lista by (simp add: lista_poprawna_bloki)
  then obtain q where o: "odcinek h 0 (st_poczatek h) (bloki_sterty h) q (st_koniec h)"
    and z: "sterta_ma_poprawny_zakres h"
    by (auto simp: reprezentuje_def)
  have "st_poczatek h \<noteq> st_koniec h" "st_pierwszy h = st_poczatek h"
    using z by (auto simp: sterta_ma_poprawny_zakres_def)
  moreover have "znajdz_petla (unat (maks_blokow h)) h wskaznik
      (if st_poczatek h = st_koniec h then 0 else st_poczatek h) = Some 0"
    by (rule znajdz_petla_chybia [OF o z reprezentuje_dlugosc(1) [OF rep]])
      (use brak in \<open>auto simp: ma_blok_def\<close>)
  ultimately show ?thesis using lista by (simp add: znajdz_blok_po_wskazniku_def)
qed

lemma polacz_prawy:
  assumes rep: "reprezentuje h (xs @ (r, True) # ys)"
  shows "reprezentuje (polacz_z_nastepnym h (adres_bloku h xs))
           (xs @ (fst (scal_prawy r ys), True) # snd (scal_prawy r ys))"
proof (cases "ys \<noteq> [] \<and> snd (hd ys)")
  case True
  then obtain r2 zs where ys: "ys = (r2, True) # zs" by (cases ys) auto
  with polacz_scala [of h xs r r2 zs] rep show ?thesis by (simp add: scal_prawy_def)
next
  case False
  then have "scal_prawy r ys = (r, ys)"
    by (auto simp: scal_prawy_def split: list.splits bool.splits)
  moreover have "polacz_z_nastepnym h (adres_bloku h xs) = h"
    using False by (intro polacz_bez_zmian [OF rep]) auto
  ultimately show ?thesis using rep by simp
qed

lemma kfree_zwalnia:
  assumes lista: "lista_sterty_poprawna h" and blok: "ma_blok h wskaznik xs r False ys"
  shows "\<exists>h'. kfree h wskaznik = Some h' \<and> reprezentuje h' (po_zwolnieniu xs r ys) \<and>
              st_poczatek h' = st_poczatek h \<and> st_koniec h' = st_koniec h"
proof -
  define b where "b = adres_bloku h xs"
  have rep: "reprezentuje h (xs @ (r, False) # ys)"
    using lista blok by (simp add: lista_poprawna_bloki ma_blok_def)
  note z = reprezentuje_zakres [OF rep]
  obtain p where gran: "blok_w_granicach h b r"
    and nag: "st_pamiec h b = naglowek_bloku (st_koniec h) p b r False"
    and ub: "unat b = unat (st_poczatek h) + suma_blokow xs"
    using reprezentuje_podzial [OF rep] unfolding b_def by blast
  have zn: "znajdz_blok_po_wskazniku h wskaznik = Some b"
    using znajdz_blok_trafia [OF lista blok] by (simp add: b_def)
  have wsk: "unat wskaznik = unat b + 48"
    using blok ub by (simp add: ma_blok_def)
  have p48: "unat (st_poczatek h) + 48 \<le> unat (st_koniec h)"
    using gran ub unfolding blok_w_granicach_def by linarith
  define h1 where "h1 = ustaw_naglowek h b ((st_pamiec h b)\<lparr>bs_wolny := True\<rparr>)"
  have rep1: "reprezentuje h1 (xs @ (r, True) # ys)"
    using ustaw_wolny_reprezentuje [OF rep, of True] by (simp add: h1_def b_def)
  define h2 where "h2 = polacz_z_nastepnym h1 b"
  define r1 zs where "r1 = fst (scal_prawy r ys)" and "zs = snd (scal_prawy r ys)"
  have a1: "adres_bloku h1 xs = b" and a2: "adres_bloku h2 ws = adres_bloku h ws" for ws
    by (simp_all add: adres_bloku_def h1_def h2_def b_def)
  have rep2: "reprezentuje h2 (xs @ (r1, True) # zs)"
    using polacz_prawy [OF rep1] by (simp add: h2_def r1_def zs_def a1)
  have par2: "st_poczatek h2 = st_poczatek h" "st_koniec h2 = st_koniec h"
    by (simp_all add: h2_def h1_def)
  define po where "po = bs_poprzedni (st_pamiec h2 b)"
  have po: "po = (if xs = [] then 0 else adres_bloku h (butlast xs))"
    using poprzedni_bloku [OF rep2] by (simp add: po_def a2 b_def)
  define h3 where "h3 = (if po \<noteq> 0 \<and> adres_naglowka_w_stercie h2 po \<and>
      bs_magic (st_pamiec h2 po) = MAGIC_STERTY \<and> bs_wolny (st_pamiec h2 po)
      then polacz_z_nastepnym h2 po else h2)"
  have wy: "\<not> (wskaznik < st_poczatek h + NAGLOWEK \<or> wskaznik \<ge> st_koniec h \<or> wskaznik AND 15 \<noteq> 0)"
  proof -
    have "unat b mod 16 = 0" "unat b + 48 + unat r \<le> unat (st_koniec h)" "16 \<le> unat r"
      using gran by (simp_all add: blok_w_granicach_def)
    then show ?thesis
      using wsk ub dodaj_naglowek(2) [OF p48]
      by (simp add: word_less_nat_alt word_le_nat_alt aligned16_iff not_less not_le) presburger
  qed
  have w0: "wskaznik \<noteq> 0" using wsk by auto
  have krok: "kfree h wskaznik = Some h3"
    using lista zn nag granice_niezero [OF gran z] wy w0 z dodaj_naglowek(1) [OF p48]
    unfolding kfree_def Let_def h3_def po_def h2_def h1_def
    by (simp add: sterta_ma_poprawny_zakres_def)
  have rep3: "reprezentuje h3 (po_zwolnieniu xs r ys)"
  proof (cases xs rule: rev_cases)
    case Nil
    then show ?thesis
      using rep2 po by (simp add: h3_def po_zwolnieniu_def scal_lewy_def r1_def zs_def split_beta)
  next
    case (snoc ws x)
    obtain r0 w0 where x: "x = (r0, w0)" by (cases x) auto
    have rep2': "reprezentuje h2 (ws @ (r0, w0) # (r1, True) # zs)"
      using rep2 by (simp add: snoc x)
    obtain p' where g0: "blok_w_granicach h2 po r0"
      and n0: "st_pamiec h2 po = naglowek_bloku (st_koniec h2) p' po r0 w0"
      using reprezentuje_podzial [OF rep2'] po by (auto simp: a2 snoc)
    note adr = granice_adres_naglowka [OF g0 reprezentuje_zakres [OF rep2]]
      granice_niezero [OF g0 reprezentuje_zakres [OF rep2]]
    show ?thesis
    proof (cases w0)
      case True
      then show ?thesis
        using polacz_scala [of h2 ws r0 r1 zs] rep2' adr n0 po
        by (simp add: h3_def po_zwolnieniu_def scal_lewy_def snoc x split_beta r1_def zs_def a2)
    next
      case False
      then show ?thesis
        using rep2 n0 by (simp add: h3_def po_zwolnieniu_def scal_lewy_def snoc x split_beta r1_def zs_def)
    qed
  qed
  have "st_poczatek h3 = st_poczatek h" "st_koniec h3 = st_koniec h"
    by (simp_all add: h3_def par2)
  with krok rep3 show ?thesis by blast
qed

lemma kfree_odmawia:
  assumes brak: "\<nexists>xs r ys. ma_blok h wskaznik xs r False ys"
  shows "kfree h wskaznik = Some h"
proof (cases "lista_sterty_poprawna h")
  case False
  then show ?thesis by (simp add: kfree_def)
next
  case True
  have "\<exists>b. znajdz_blok_po_wskazniku h wskaznik = Some b \<and> (b = 0 \<or> bs_wolny (st_pamiec h b))"
  proof (cases "\<exists>xs r w ys. ma_blok h wskaznik xs r w ys")
    case False
    then show ?thesis using znajdz_blok_chybia [OF True] by blast
  next
    case jest: True
    then obtain xs r w ys where blok: "ma_blok h wskaznik xs r w ys" by blast
    then have w: "w" using brak by (cases w) auto
    have rep: "reprezentuje h (xs @ (r, w) # ys)"
      using True blok by (simp add: lista_poprawna_bloki ma_blok_def)
    then have "bs_wolny (st_pamiec h (adres_bloku h xs))"
      using reprezentuje_podzial [OF rep] w by (metis naglowek_bloku_sel(2))
    then show ?thesis using znajdz_blok_trafia [OF True blok] by blast
  qed
  then obtain b where "znajdz_blok_po_wskazniku h wskaznik = Some b" "b = 0 \<or> bs_wolny (st_pamiec h b)"
    by blast
  then show ?thesis by (auto simp: kfree_def Let_def split: option.split)
qed

end
