(* ===== verification/Interfejsy.thy ===== *)
theory Interfejsy
  imports Preludium
begin

section \<open>Interfaces between the kernel's components\<close>

text \<open>
  The contracts one component relies on in another, as locales over the operations their clients
  call. Each is interpreted on the model's own definitions in the theory of its provider.
\<close>

subsection \<open>Allocator of address ranges\<close>

text \<open>
  \<open>zywe s\<close> lists the live blocks of a state as (address, size), in address order. An allocation
  either fails and leaves the state alone or inserts one block of at least the requested size; a
  release removes exactly the block that starts at the pointer, or does nothing.
\<close>

datatype ('n, 'p) zadanie = Przydziel 'n | Zwolnij 'p

fun wykonaj_zadania ::
  "('s \<Rightarrow> 'n \<Rightarrow> ('p \<times> 's) option) \<Rightarrow> ('s \<Rightarrow> 'p \<Rightarrow> 's option) \<Rightarrow> 's \<Rightarrow> ('n, 'p) zadanie list \<Rightarrow> 's option" where
  "wykonaj_zadania al zw s [] = Some s"
| "wykonaj_zadania al zw s (Przydziel n # zs) =
     (case al s n of None \<Rightarrow> None | Some (p, s') \<Rightarrow> wykonaj_zadania al zw s' zs)"
| "wykonaj_zadania al zw s (Zwolnij p # zs) =
     (case zw s p of None \<Rightarrow> None | Some s' \<Rightarrow> wykonaj_zadania al zw s' zs)"

fun zwalniane :: "('n, 'p) zadanie list \<Rightarrow> 'p set" where
  "zwalniane [] = {}"
| "zwalniane (Przydziel n # zs) = zwalniane zs"
| "zwalniane (Zwolnij p # zs) = insert p (zwalniane zs)"

definition rozlaczne_bloki :: "(nat \<times> nat) list \<Rightarrow> bool" where
  "rozlaczne_bloki = sorted_wrt (\<lambda>(p, n) (p', n'). p + n \<le> p')"

locale alokator =
  fixes przydziel :: "'s \<Rightarrow> 'n \<Rightarrow> ('p \<times> 's) option"
    and zwolnij :: "'s \<Rightarrow> 'p \<Rightarrow> 's option"
    and sprawny :: "'s \<Rightarrow> bool"
    and zywe :: "'s \<Rightarrow> (nat \<times> nat) list"
    and adr :: "'p \<Rightarrow> nat"
    and ile :: "'n \<Rightarrow> nat"
  assumes rozlaczne: "sprawny s \<Longrightarrow> rozlaczne_bloki (zywe s)"
    and przydziel_spec: "sprawny s \<Longrightarrow> \<exists>p s'. przydziel s n = Some (p, s') \<and> sprawny s' \<and>
      (s' = s \<or> (\<exists>L R m. zywe s = L @ R \<and> zywe s' = L @ (adr p, m) # R \<and> ile n \<le> m))"
    and zwolnij_spec: "sprawny s \<Longrightarrow> \<exists>s'. zwolnij s p = Some s' \<and> sprawny s' \<and>
      (s' = s \<or> (\<exists>L R m. zywe s = L @ (adr p, m) # R \<and> zywe s' = L @ R))"
begin

lemma przydziel_zachowuje:
  assumes "sprawny s" "przydziel s n = Some (p, s')"
  shows "sprawny s'" "set (zywe s) \<subseteq> set (zywe s')"
  using przydziel_spec [OF assms(1), of n] assms(2) by auto

lemma zwolnij_zachowuje:
  assumes "sprawny s" "zwolnij s p = Some s'"
  shows "sprawny s'" "{b \<in> set (zywe s). fst b \<noteq> adr p} \<subseteq> set (zywe s')"
  using zwolnij_spec [OF assms(1), of p] assms(2) by auto

lemma sekwencja_sprawna:
  "sprawny s \<Longrightarrow> \<exists>s'. wykonaj_zadania przydziel zwolnij s zs = Some s' \<and> sprawny s' \<and>
     {b \<in> set (zywe s). fst b \<notin> adr ` zwalniane zs} \<subseteq> set (zywe s')"
proof (induction zs arbitrary: s)
  case Nil
  then show ?case by auto
next
  case (Cons z zs)
  show ?case
  proof (cases z)
    case (Przydziel n)
    obtain p s1 where s1: "przydziel s n = Some (p, s1)"
      using przydziel_spec [OF Cons.prems, of n] by blast
    note z1 = przydziel_zachowuje [OF Cons.prems s1]
    from Cons.IH [OF z1(1)] obtain s' where "wykonaj_zadania przydziel zwolnij s1 zs = Some s'"
      "sprawny s'" "{b \<in> set (zywe s1). fst b \<notin> adr ` zwalniane zs} \<subseteq> set (zywe s')" by blast
    with s1 z1(2) show ?thesis by (auto simp: Przydziel)
  next
    case (Zwolnij p)
    obtain s1 where s1: "zwolnij s p = Some s1"
      using zwolnij_spec [OF Cons.prems, of p] by blast
    note z1 = zwolnij_zachowuje [OF Cons.prems s1]
    from Cons.IH [OF z1(1)] obtain s' where "wykonaj_zadania przydziel zwolnij s1 zs = Some s'"
      "sprawny s'" "{b \<in> set (zywe s1). fst b \<notin> adr ` zwalniane zs} \<subseteq> set (zywe s')" by blast
    with s1 z1(2) show ?thesis by (auto simp: Zwolnij)
  qed
qed

lemma sekwencja_rozlaczna:
  assumes "sprawny s"
  shows "\<exists>s'. wykonaj_zadania przydziel zwolnij s zs = Some s' \<and> sprawny s' \<and> rozlaczne_bloki (zywe s') \<and>
     {b \<in> set (zywe s). fst b \<notin> adr ` zwalniane zs} \<subseteq> set (zywe s')"
  using sekwencja_sprawna [OF assms, of zs] rozlaczne by blast

end

subsection \<open>Pool of frames\<close>

text \<open>
  One unit at a time, address 0 for failure. \<open>uzywalne\<close> is the fixed set of units the pool
  manages; a release of anything else changes nothing. Code that needs several units takes them
  one by one and, when one is missing, gives back those it has.
\<close>

fun pobierz_wiele :: "('s \<Rightarrow> nat \<times> 's) \<Rightarrow> nat \<Rightarrow> 's \<Rightarrow> nat list \<times> 's" where
  "pobierz_wiele al 0 s = ([], s)"
| "pobierz_wiele al (Suc k) s =
     (case al s of (a, s1) \<Rightarrow>
        if a = 0 then ([], s1)
        else (case pobierz_wiele al k s1 of (as, s2) \<Rightarrow> (a # as, s2)))"

locale pula =
  fixes alokuj :: "'s \<Rightarrow> nat \<times> 's"
    and zwolnij_jedna :: "'s \<Rightarrow> nat \<Rightarrow> 's"
    and sprawna :: "'s \<Rightarrow> bool"
    and wolne_adresy :: "'s \<Rightarrow> nat set"
    and uzywalne :: "'s \<Rightarrow> nat set"
  assumes wolne_uzywalne: "sprawna s \<Longrightarrow> wolne_adresy s \<subseteq> uzywalne s"
    and alokuj_spec: "sprawna s \<Longrightarrow> alokuj s = (a, s') \<Longrightarrow>
      sprawna s' \<and> uzywalne s' = uzywalne s \<and> wolne_adresy s' = wolne_adresy s - {a} \<and>
      (a = 0 \<or> a \<in> wolne_adresy s)"
    and zwolnij_jedna_spec: "sprawna s \<Longrightarrow>
      sprawna (zwolnij_jedna s a) \<and> uzywalne (zwolnij_jedna s a) = uzywalne s \<and>
      wolne_adresy (zwolnij_jedna s a) = wolne_adresy s \<union> ({a} \<inter> uzywalne s)"
begin

lemma pobierz_wiele_spec:
  "sprawna s \<Longrightarrow> pobierz_wiele alokuj k s = (as, s') \<Longrightarrow>
     sprawna s' \<and> uzywalne s' = uzywalne s \<and> distinct as \<and> set as \<subseteq> wolne_adresy s \<and> 0 \<notin> set as \<and>
     wolne_adresy s' - {0} = wolne_adresy s - insert 0 (set as)"
proof (induction k arbitrary: s as)
  case 0
  then show ?case by auto
next
  case (Suc k)
  obtain a s1 where a: "alokuj s = (a, s1)" by fastforce
  note sp = alokuj_spec [OF Suc.prems(1) a]
  show ?case
  proof (cases "a = 0")
    case True
    then show ?thesis using Suc.prems sp a by auto
  next
    case False
    obtain bs where bs: "pobierz_wiele alokuj k s1 = (bs, s')" "as = a # bs"
      using Suc.prems(2) a False by (auto split: prod.splits)
    have "sprawna s1" using sp by blast
    from Suc.IH [OF this bs(1)] show ?thesis
      using sp False bs(2) by auto
  qed
qed

lemma zwolnij_wiele_spec:
  "sprawna s \<Longrightarrow> sprawna (foldl zwolnij_jedna s as) \<and> uzywalne (foldl zwolnij_jedna s as) = uzywalne s \<and>
     wolne_adresy (foldl zwolnij_jedna s as) = wolne_adresy s \<union> (set as \<inter> uzywalne s)"
proof (induction as arbitrary: s)
  case Nil
  then show ?case by simp
next
  case (Cons a as)
  note sp = zwolnij_jedna_spec [OF Cons.prems, of a]
  then have "sprawna (zwolnij_jedna s a)" by blast
  from Cons.IH [OF this] show ?case using sp by auto
qed

lemma wycofanie:
  assumes "sprawna s" "pobierz_wiele alokuj k s = (as, s')"
  shows "sprawna (foldl zwolnij_jedna s' as)"
    "wolne_adresy (foldl zwolnij_jedna s' as) - {0} = wolne_adresy s - {0}"
  using pobierz_wiele_spec [OF assms] zwolnij_wiele_spec [of s' as] wolne_uzywalne [OF assms(1)] by auto

end

subsection \<open>Check of user ranges\<close>

text \<open>
  The kernel's memory manager answers whether a process owns a range of bytes; \<open>bajt z a\<close> says that
  the process may read (write, for \<open>z\<close>) the byte at \<open>a\<close>. A copy routine relies on the answer being
  exact, byte by byte.
\<close>

definition zakres_procesu :: "(bool \<Rightarrow> u64 \<Rightarrow> bool) \<Rightarrow> bool \<Rightarrow> u64 \<Rightarrow> u64 \<Rightarrow> bool" where
  "zakres_procesu bajt z a n \<longleftrightarrow>
     4096 \<le> unat a \<and> unat a + unat n \<le> 140737488355328 \<and> (\<forall>i < unat n. bajt z (a + of_nat i))"

locale straz =
  fixes sprawdza :: "u64 \<Rightarrow> u64 \<Rightarrow> bool \<Rightarrow> bool"
    and bajt :: "bool \<Rightarrow> u64 \<Rightarrow> bool"
  assumes dokladna: "n \<noteq> 0 \<Longrightarrow> sprawdza a n z \<longleftrightarrow> zakres_procesu bajt z a n"

end
