(* ===== verification/Sterta_Alokator.thy ===== *)
theory Sterta_Alokator
  imports Sterta Interfejsy
begin

section \<open>The heap as an allocator: initialisation, sequences, properties\<close>

text \<open>
  What \<^theory_text>\<open>Sterta\<close>'s operations amount to for their callers: the heap of heap.cpp is an
  instance of the interface \<open>alokator\<close>, with the validator and the absence of adjacent free blocks
  as its invariant. The properties C1 to C5 of the development are here.
\<close>

subsection \<open>Initialisation\<close>

lemma inicjalizuj_warunki:
  assumes a: "a \<noteq> 0" and fits: "unat a + unat n < 18446744073709551616"
    and k: "kon = unat a + unat n - (unat a + unat n) mod 16" and p: "pocz = (unat a + 15) div 16 * 16"
    and dosc: "pocz + 64 \<le> kon"
  shows "unat ((a + 15) AND NOT 15) = pocz" "unat ((a + n) AND NOT 15) = kon"
    and "\<not> n > UINT64_MAX - a" "\<not> a > UINT64_MAX - 15" "n \<noteq> 0"
proof -
  have s: "unat (a + n) = unat a + unat n"
    using fits by (simp add: unat_add_u64)
  show "unat ((a + n) AND NOT 15) = kon"
    unfolding unat_down16 s k ..
  have le: "unat a + 15 < 18446744073709551616"
    using dosc fits unfolding k p by linarith
  then have "unat (a + 15) = unat a + 15"
    using unat_add_u64 [of a 15] by simp
  then show "unat ((a + 15) AND NOT 15) = pocz"
    unfolding unat_down16 p by (simp only: minus_mod_eq_div_mult)
  show "\<not> n > UINT64_MAX - a" "\<not> a > UINT64_MAX - 15"
    using fits le by (simp_all add: max_minus_less_iff)
  show "n \<noteq> 0"
  proof
    assume "n = 0"
    then show False using dosc unfolding k p by simp
  qed
qed

lemma inicjalizuj_reprezentuje:
  assumes "a \<noteq> 0" "unat a + unat n < 18446744073709551616"
    and "kon = unat a + unat n - (unat a + unat n) mod 16" "pocz = (unat a + 15) div 16 * 16"
    and "pocz + 64 \<le> kon"
  shows "\<exists>r. unat r = kon - pocz - 48 \<and> reprezentuje (inicjalizuj_sterte_jadra h a n) [(r, True)] \<and>
     unat (st_poczatek (inicjalizuj_sterte_jadra h a n)) = pocz \<and>
     unat (st_koniec (inicjalizuj_sterte_jadra h a n)) = kon"
proof -
  define wp where "wp = (a + 15) AND NOT 15"
  define wk where "wk = (a + n) AND NOT 15"
  define r where "r = wk - wp - NAGLOWEK"
  note w = inicjalizuj_warunki [OF assms, folded wp_def wk_def]
  have wkwp: "unat (wk - wp) = kon - pocz" "wp \<le> wk"
    using w assms(5) by (simp_all add: unat_sub_u64 word_le_nat_alt)
  have ur: "unat r = kon - pocz - 48"
    unfolding r_def using wkwp assms(5) by (subst unat_sub_u64) (simp_all add: word_le_nat_alt)
  define h1 where "h1 = ustaw_naglowek (h\<lparr>st_pierwszy := 0, st_poczatek := 0, st_koniec := 0,
       st_poczatek := wp, st_koniec := wk, st_pierwszy := wp\<rparr>) wp
     \<lparr>bs_rozmiar = r, bs_wolny = True, bs_nastepny = 0, bs_poprzedni = 0, bs_magic = MAGIC_STERTY\<rparr>"
  have mod: "pocz mod 16 = 0" "kon mod 16 = 0" "0 < pocz"
  proof -
    show "pocz mod 16 = 0" "kon mod 16 = 0" unfolding assms(3,4) by (simp_all add: down_mod)
    have "0 < unat a" using assms(1) by (simp add: unat_gt_0)
    then show "0 < pocz" unfolding assms(4) by presburger
  qed
  have z: "sterta_ma_poprawny_zakres h1"
    using w mod assms(5) unfolding sterta_ma_poprawny_zakres_def
    by (auto simp: h1_def aligned16_iff word_le_nat_alt)
  have gran: "blok_w_granicach h1 wp r"
    using w mod assms(5) ur unfolding blok_w_granicach_def h1_def by simp presburger
  have wpr: "wp + NAGLOWEK + r = wk"
    by (simp add: r_def)
  have rep: "reprezentuje h1 [(r, True)]"
    using z gran wpr by (intro reprezentujeI exI [of _ wp]) (auto simp: h1_def naglowek_bloku_def)
  have "\<not> wk \<le> wp" "\<not> wk - wp < NAGLOWEK + MINIMALNY_BLOK"
    using w wkwp assms(5) by (simp_all add: word_less_nat_alt word_le_nat_alt)
  then have "inicjalizuj_sterte_jadra h a n = h1"
    using assms(1) w(3-5) rep lista_sterty_poprawna_reprezentuje [of h1]
    unfolding inicjalizuj_sterte_jadra_def Let_def wp_def [symmetric] wk_def [symmetric] r_def [symmetric]
      h1_def [symmetric]
    by auto
  then show ?thesis
    using rep ur w by (intro exI [of _ r]) (simp add: h1_def)
qed

subsection \<open>The heap as an allocator\<close>

text \<open>No two neighbouring free blocks: the state kfree's coalescing keeps.\<close>

fun scalona :: "blok list \<Rightarrow> bool" where
  "scalona ((r, w) # (r2, w2) # bs) \<longleftrightarrow> \<not> (w \<and> w2) \<and> scalona ((r2, w2) # bs)"
| "scalona _ = True"

definition sterta_sprawna :: "sterta \<Rightarrow> bool" where
  "sterta_sprawna h \<longleftrightarrow> lista_sterty_poprawna h \<and> scalona (bloki_sterty h)"

lemma scalona_append:
  "scalona (xs @ ys) \<longleftrightarrow> scalona xs \<and> scalona ys \<and>
     (xs = [] \<or> ys = [] \<or> \<not> (snd (last xs) \<and> snd (hd ys)))"
proof (induction xs)
  case Nil
  then show ?case by simp
next
  case (Cons x xs)
  show ?case
  proof (cases xs)
    case Nil
    then show ?thesis by (cases x; cases ys) auto
  next
    case (Cons y zs)
    then show ?thesis using Cons.IH by (cases x; cases y) auto
  qed
qed

lemma scalona_Cons:
  "scalona ((r, w) # ys) \<longleftrightarrow> scalona ys \<and> (ys = [] \<or> \<not> (w \<and> snd (hd ys)))"
  using scalona_append [of "[(r, w)]" ys] by auto

lemma scalona_po_przydziale:
  "scalona (xs @ (r, True) # ys) \<Longrightarrow> scalona (xs @ po_przydziale n r @ ys)"
  by (auto simp: po_przydziale_def scalona_append scalona_Cons)

lemma scalona_po_zwolnieniu:
  assumes "scalona (xs @ (r, False) # ys)"
  shows "scalona (po_zwolnieniu xs r ys)"
proof -
  define r1 zs where "r1 = fst (scal_prawy r ys)" and "zs = snd (scal_prawy r ys)"
  have zs: "scalona zs" "zs = [] \<or> \<not> snd (hd zs)"
    using assms
    by (auto simp: zs_def scal_prawy_def scalona_append scalona_Cons split: list.splits bool.splits)
  have xs: "scalona xs" using assms by (simp add: scalona_append)
  show ?thesis
  proof (cases xs rule: rev_cases)
    case Nil
    then show ?thesis
      using zs by (simp add: po_zwolnieniu_def scal_lewy_def split_beta r1_def [symmetric] zs_def [symmetric] scalona_Cons)
  next
    case (snoc ws x)
    obtain r0 w0 where x: "x = (r0, w0)" by (cases x) auto
    show ?thesis
      using xs zs
      by (auto simp: po_zwolnieniu_def scal_lewy_def split_beta r1_def [symmetric] zs_def [symmetric]
          scalona_append scalona_Cons snoc x)
  qed
qed

lemma scal_prawy_zajete:
  assumes "unat r + suma_blokow ys < 18446744073709551616"
  shows "unat (fst (scal_prawy r ys)) + suma_blokow (snd (scal_prawy r ys)) = unat r + suma_blokow ys"
    and "zajete_od (c + unat (fst (scal_prawy r ys))) (snd (scal_prawy r ys)) = zajete_od (c + unat r) ys"
proof -
  have "unat (fst (scal_prawy r ys)) + suma_blokow (snd (scal_prawy r ys)) = unat r + suma_blokow ys \<and>
    zajete_od (c + unat (fst (scal_prawy r ys))) (snd (scal_prawy r ys)) = zajete_od (c + unat r) ys"
  proof (cases "ys \<noteq> [] \<and> snd (hd ys)")
    case True
    then obtain r2 zs where ys: "ys = (r2, True) # zs" by (cases ys) auto
    have "unat (r + NAGLOWEK + r2) = unat r + 48 + unat r2"
      using assms unat_add_u64 [of r NAGLOWEK] unat_add_u64 [of "r + NAGLOWEK" r2] by (simp add: ys)
    then show ?thesis by (simp add: scal_prawy_def ys add.assoc)
  next
    case False
    then have "scal_prawy r ys = (r, ys)"
      by (auto simp: scal_prawy_def split: list.splits bool.splits)
    then show ?thesis by simp
  qed
  then show "unat (fst (scal_prawy r ys)) + suma_blokow (snd (scal_prawy r ys)) = unat r + suma_blokow ys"
    and "zajete_od (c + unat (fst (scal_prawy r ys))) (snd (scal_prawy r ys)) = zajete_od (c + unat r) ys"
    by blast+
qed

lemma scal_lewy_zajete:
  assumes "suma_blokow xs + 48 + unat r < 18446744073709551616"
  shows "zajete_od a (fst (scal_lewy xs r) @ (snd (scal_lewy xs r), True) # zs) =
    zajete_od a xs @ zajete_od (a + suma_blokow xs + 48 + unat r) zs"
proof (cases xs rule: rev_cases)
  case Nil
  then show ?thesis by (simp add: scal_lewy_def)
next
  case (snoc ws x)
  obtain r0 w0 where x: "x = (r0, w0)" by (cases x) auto
  have "unat (r0 + NAGLOWEK + r) = unat r0 + 48 + unat r"
    using assms unat_add_u64 [of r0 NAGLOWEK] unat_add_u64 [of "r0 + NAGLOWEK" r] by (simp add: snoc x)
  then show ?thesis
    by (simp add: scal_lewy_def snoc x zajete_od_append algebra_simps)
qed

lemma zajete_po_zwolnieniu:
  assumes "suma_blokow (xs @ (r, w) # ys) < 18446744073709551616"
  shows "zajete_od a (po_zwolnieniu xs r ys) =
    zajete_od a xs @ zajete_od (a + suma_blokow xs + 48 + unat r) ys"
proof -
  have "unat r + suma_blokow ys < 18446744073709551616" using assms by simp
  note p = scal_prawy_zajete [OF this]
  have "suma_blokow xs + 48 + unat (fst (scal_prawy r ys)) < 18446744073709551616"
    using assms p(1) by simp
  from scal_lewy_zajete [OF this] show ?thesis
    by (simp add: po_zwolnieniu_def split_beta p(2))
qed

lemma reprezentuje_suma_ogr:
  "reprezentuje h bs \<Longrightarrow> suma_blokow bs < 18446744073709551616"
  using reprezentuje_dlugosc(2) [of h bs] unat_u64_less [of "st_koniec h"] by linarith

definition przydzielono ::
  "sterta \<Rightarrow> u64 \<Rightarrow> adres \<Rightarrow> sterta \<Rightarrow> u64 \<Rightarrow> blok list \<Rightarrow> u64 \<Rightarrow> blok list \<Rightarrow> bool" where
  "przydzielono h rozmiar p h' n xs r ys \<longleftrightarrow>
     (\<exists>w. wyrownaj_rozmiar rozmiar = Some w \<and> n = max MINIMALNY_BLOK w) \<and>
     bloki_sterty h = xs @ (r, True) # ys \<and> n \<le> r \<and>
     unat p = unat (st_poczatek h) + suma_blokow xs + 48 \<and>
     reprezentuje h' (xs @ po_przydziale n r @ ys) \<and>
     st_poczatek h' = st_poczatek h \<and> st_koniec h' = st_koniec h"

lemma kmalloc_wynik:
  assumes lista: "lista_sterty_poprawna h"
  shows "\<exists>p h'. kmalloc h rozmiar = Some (p, h') \<and>
     (p = 0 \<and> h' = h \<or> (\<exists>n xs r ys. przydzielono h rozmiar p h' n xs r ys))"
proof -
  have rep: "reprezentuje h (bloki_sterty h)" using lista by (simp add: lista_poprawna_bloki)
  show ?thesis
  proof (cases "rozmiar = 0 \<or> wyrownaj_rozmiar rozmiar = None")
    case True
    then show ?thesis by (auto simp: kmalloc_def)
  next
    case False
    then obtain w where r0: "rozmiar \<noteq> 0" and w: "wyrownaj_rozmiar rozmiar = Some w" by auto
    define n where "n = max MINIMALNY_BLOK w"
    have n16: "unat n mod 16 = 0" "16 \<le> unat n"
      using wyrownaj_rozmiar_wlasnosci [OF w] by (auto simp: n_def max_def word_le_nat_alt)
    note km = kmalloc_jako_extract [OF rep r0 w n_def]
    show ?thesis
    proof (cases "List.extract (\<lambda>(r, wolny). wolny \<and> n \<le> r) (bloki_sterty h)")
      case None
      with km show ?thesis by auto
    next
      case (Some t)
      obtain xs r wol ys where t: "t = (xs, (r, wol), ys)" by (cases t) auto
      have e: "bloki_sterty h = xs @ (r, wol) # ys" "wol" "n \<le> r"
        using Some unfolding t extract_Some_iff by auto
      have rep': "reprezentuje h (xs @ (r, True) # ys)" using rep e by simp
      obtain p where g: "blok_w_granicach h (adres_bloku h xs) r"
        "unat (adres_bloku h xs) = unat (st_poczatek h) + suma_blokow xs"
        using reprezentuje_podzial [OF rep'] by blast
      have up: "unat (adres_bloku h xs + NAGLOWEK) = unat (st_poczatek h) + suma_blokow xs + 48"
        using blok_koniec_unat(1) [OF g(1)] g(2) by simp
      from kmalloc_w_bloku_reprezentuje [OF rep' e(3) n16] obtain h' where
        "kmalloc_w_bloku h n (adres_bloku h xs) = (adres_bloku h xs + NAGLOWEK, h')"
        "reprezentuje h' (xs @ po_przydziale n r @ ys)"
        "st_poczatek h' = st_poczatek h" "st_koniec h' = st_koniec h" by blast
      moreover from this have "przydzielono h rozmiar (adres_bloku h xs + NAGLOWEK) h' n xs r ys"
        using e up w by (simp add: przydzielono_def n_def)
      ultimately show ?thesis using km Some by (auto simp: t)
    qed
  qed
qed

lemma sterta_rozlaczna: "rozlaczne_bloki (zajete h)"
  by (simp add: rozlaczne_bloki_def zajete_def zajete_od_rozlaczne)

lemma kmalloc_alokator:
  assumes spr: "sterta_sprawna h"
  shows "\<exists>p h'. kmalloc h n = Some (p, h') \<and> sterta_sprawna h' \<and>
    (h' = h \<or> (\<exists>L R m. zajete h = L @ R \<and> zajete h' = L @ (unat p, m) # R \<and> unat n \<le> m))"
proof -
  have lista: "lista_sterty_poprawna h" and sc: "scalona (bloki_sterty h)"
    using spr by (simp_all add: sterta_sprawna_def)
  from kmalloc_wynik [OF lista, of n] obtain p h' where km: "kmalloc h n = Some (p, h')" and
    przyp: "p = 0 \<and> h' = h \<or> (\<exists>m xs r ys. przydzielono h n p h' m xs r ys)" by blast
  show ?thesis
  proof (cases "h' = h")
    case True
    with km spr show ?thesis by blast
  next
    case False
    with przyp obtain w m xs r ys where w: "wyrownaj_rozmiar n = Some w" "m = max MINIMALNY_BLOK w" "m \<le> r"
      and bs: "bloki_sterty h = xs @ (r, True) # ys"
      and p: "unat p = unat (st_poczatek h) + suma_blokow xs + 48"
      and rep: "reprezentuje h' (xs @ po_przydziale m r @ ys)" "st_poczatek h' = st_poczatek h"
      unfolding przydzielono_def by blast
    have spr': "sterta_sprawna h'"
      using rep(1) scalona_po_przydziale [of xs r ys m] sc
      by (simp add: sterta_sprawna_def lista_poprawna_bloki bloki_sterty_reprezentuje bs)
    obtain sz where sz: "unat m \<le> sz" "zajete_od (unat (st_poczatek h)) (xs @ po_przydziale m r @ ys) =
        zajete_od (unat (st_poczatek h)) xs @ (unat p, sz) #
        zajete_od (unat (st_poczatek h) + suma_blokow xs + 48 + unat r) ys"
      using zajete_po_przydziale [OF w(3), of "unat (st_poczatek h)" xs ys] p by auto
    have "unat n \<le> sz"
      using wyrownaj_rozmiar_wlasnosci(2) [OF w(1)] sz(1) w(2)
      by (simp add: max_def word_le_nat_alt split: if_splits)
    with sz(2) rep km spr' show ?thesis
      by (simp add: zajete_def bs bloki_sterty_reprezentuje zajete_od_append) blast
  qed
qed

lemma kfree_alokator:
  assumes spr: "sterta_sprawna h"
  shows "\<exists>h'. kfree h p = Some h' \<and> sterta_sprawna h' \<and>
    (h' = h \<or> (\<exists>L R m. zajete h = L @ (unat p, m) # R \<and> zajete h' = L @ R))"
proof (cases "\<exists>xs r ys. ma_blok h p xs r False ys")
  case False
  with kfree_odmawia [of h p] spr show ?thesis by blast
next
  case True
  have lista: "lista_sterty_poprawna h" and sc: "scalona (bloki_sterty h)"
    using spr by (simp_all add: sterta_sprawna_def)
  from True obtain xs r ys where blok: "ma_blok h p xs r False ys" by blast
  then have bs: "bloki_sterty h = xs @ (r, False) # ys"
    and p: "unat p = unat (st_poczatek h) + suma_blokow xs + 48"
    by (simp_all add: ma_blok_def)
  obtain h' where h': "kfree h p = Some h'" "reprezentuje h' (po_zwolnieniu xs r ys)"
    "st_poczatek h' = st_poczatek h"
    using kfree_zwalnia [OF lista blok] by blast
  have spr': "sterta_sprawna h'"
    using h'(2) scalona_po_zwolnieniu sc
    by (simp add: sterta_sprawna_def lista_poprawna_bloki bloki_sterty_reprezentuje bs)
  have "suma_blokow (xs @ (r, False) # ys) < 18446744073709551616"
    using lista reprezentuje_suma_ogr by (simp add: lista_poprawna_bloki bs [symmetric])
  note zajete_po_zwolnieniu [OF this, of "unat (st_poczatek h)"]
  with h' spr' p show ?thesis
    by (simp add: zajete_def bs bloki_sterty_reprezentuje zajete_od_append) blast
qed

interpretation sterta: alokator kmalloc kfree sterta_sprawna zajete unat unat
  by unfold_locales (rule sterta_rozlaczna kmalloc_alokator kfree_alokator; assumption?)+

lemma podzial_sumy:
  "xs @ x # ys = xs' @ x' # ys' \<Longrightarrow> suma_blokow xs' = suma_blokow xs \<Longrightarrow> x = x'"
proof (induction xs arbitrary: xs')
  case Nil
  then show ?case by (cases xs') (auto simp: suma_blokow_def split_beta)
next
  case (Cons z zs)
  then show ?case by (cases xs'; cases z) (auto simp: suma_blokow_def split_beta)
qed

lemma po_zwolnieniu_po_przydziale:
  assumes sc: "scalona (xs @ (r, True) # ys)" and nr: "n \<le> r"
    and duzy: "r - n \<ge> NAGLOWEK + MINIMALNY_BLOK"
  shows "po_zwolnieniu xs n ((r - n - NAGLOWEK, True) # ys) = xs @ (r, True) # ys"
  using sc nr by (auto simp: po_zwolnieniu_def scal_prawy_def scal_lewy_def scalona_append scalona_Cons)

lemma po_zwolnieniu_bez_podzialu:
  assumes sc: "scalona (xs @ (r, True) # ys)"
  shows "po_zwolnieniu xs r ys = xs @ (r, True) # ys"
  using sc
  by (auto simp: po_zwolnieniu_def scal_prawy_def scal_lewy_def scalona_append scalona_Cons
      split: list.splits bool.splits)

subsection \<open>A concrete heap\<close>

text \<open>A 4096-byte region at address 4096, and the same heap after an allocation of 100 bytes.\<close>

definition sterta_przyklad :: sterta where
  "sterta_przyklad = inicjalizuj_sterte_jadra
     \<lparr>st_pamiec = (\<lambda>_. \<lparr>bs_rozmiar = 0, bs_wolny = False, bs_nastepny = 0, bs_poprzedni = 0, bs_magic = 0\<rparr>),
      st_pierwszy = 0, st_poczatek = 0, st_koniec = 0\<rparr> 4096 4096"

definition sterta_przyklad1 :: sterta where
  "sterta_przyklad1 = snd (the (kmalloc sterta_przyklad 100))"

lemma sterta_przyklad_rep:
  "reprezentuje sterta_przyklad [(4048, True)]" "unat (st_poczatek sterta_przyklad) = 4096"
proof -
  have "\<exists>r. unat r = 8192 - 4096 - 48 \<and> reprezentuje sterta_przyklad [(r, True)] \<and>
      unat (st_poczatek sterta_przyklad) = 4096 \<and> unat (st_koniec sterta_przyklad) = 8192"
    unfolding sterta_przyklad_def by (rule inicjalizuj_reprezentuje) simp_all
  then obtain r where r: "unat r = 4048" "reprezentuje sterta_przyklad [(r, True)]"
    "unat (st_poczatek sterta_przyklad) = 4096" by auto
  then have "r = 4048" unfolding word_unat_eq_iff by simp
  with r show "reprezentuje sterta_przyklad [(4048, True)]" "unat (st_poczatek sterta_przyklad) = 4096"
    by simp_all
qed

lemma sterta_przyklad_lista: "lista_sterty_poprawna sterta_przyklad"
  using sterta_przyklad_rep lista_sterty_poprawna_reprezentuje by blast

lemma sterta_przyklad_bloki: "bloki_sterty sterta_przyklad = [(4048, True)]"
  by (rule bloki_sterty_reprezentuje [OF sterta_przyklad_rep(1)])

lemma wyrownaj_100: "wyrownaj_rozmiar 100 = Some 112"
  by (simp add: wyrownaj_rozmiar_def UINT64_MAX_def)

lemma sterta_przyklad1_rep:
  "kmalloc sterta_przyklad 100 = Some (4144, sterta_przyklad1)"
  "reprezentuje sterta_przyklad1 [(112, False), (3888, True)]"
  "unat (st_poczatek sterta_przyklad1) = 4096"
proof -
  have "unat (st_poczatek sterta_przyklad) = unat (4096 :: adres)"
    using sterta_przyklad_rep(2) by simp
  then have adr: "adres_bloku sterta_przyklad [] = 4096"
    by (simp only: adres_bloku_def suma_blokow_simps semiring_1_class.of_nat_0 add_0_right word_unat_eq_iff)
  have km: "kmalloc sterta_przyklad 100 = Some (kmalloc_w_bloku sterta_przyklad 112 4096)"
    using kmalloc_jako_extract [OF sterta_przyklad_rep(1) _ wyrownaj_100, of 112] adr
    by (simp add: extract_Cons_code max_def)
  from kmalloc_w_bloku_reprezentuje [of sterta_przyklad "[]" 4048 "[]" 112] sterta_przyklad_rep
  obtain h' where "kmalloc_w_bloku sterta_przyklad 112 4096 = (4144, h')"
    "reprezentuje h' (po_przydziale 112 4048)" "st_poczatek h' = st_poczatek sterta_przyklad"
    by (auto simp: adr)
  with km sterta_przyklad_rep(2) show
    "kmalloc sterta_przyklad 100 = Some (4144, sterta_przyklad1)"
    "reprezentuje sterta_przyklad1 [(112, False), (3888, True)]"
    "unat (st_poczatek sterta_przyklad1) = 4096"
    by (simp_all add: sterta_przyklad1_def po_przydziale_def)
qed

lemma sterta_przyklad1_blok: "ma_blok sterta_przyklad1 4144 [] 112 False [(3888, True)]"
  using sterta_przyklad1_rep by (simp add: ma_blok_def bloki_sterty_reprezentuje)

lemma sterta_przyklad1_lista: "lista_sterty_poprawna sterta_przyklad1"
  using sterta_przyklad1_rep lista_sterty_poprawna_reprezentuje by blast

subsection \<open>Properties\<close>




text \<open>
  C3. \<open>kfree\<close> releases exactly the allocated block whose payload starts at the pointer, merging it
  with a free right neighbour and then with a free left one; any other pointer (null, foreign,
  into the middle of a block, already freed) leaves the heap unchanged. It always returns.
\<close>

theorem kfree_scala:
  assumes "lista_sterty_poprawna h"
  shows "(\<forall>xs r ys. ma_blok h p xs r False ys \<longrightarrow> (\<exists>h'. kfree h p = Some h' \<and>
            lista_sterty_poprawna h' \<and> bloki_sterty h' = po_zwolnieniu xs r ys)) \<and>
         ((\<nexists>xs r ys. ma_blok h p xs r False ys) \<longrightarrow> kfree h p = Some h)"
proof -
  have "\<exists>h'. kfree h p = Some h' \<and> lista_sterty_poprawna h' \<and> bloki_sterty h' = po_zwolnieniu xs r ys"
    if "ma_blok h p xs r False ys" for xs r ys
    using kfree_zwalnia [OF assms that] lista_sterty_poprawna_reprezentuje bloki_sterty_reprezentuje
    by blast
  then show ?thesis using kfree_odmawia by blast
qed

theorem kfree_scala_witness:
  "(\<exists>h'. kfree sterta_przyklad1 4144 = Some h' \<and> lista_sterty_poprawna h' \<and>
      bloki_sterty h' = [(4048, True)])"
proof -
  have "po_zwolnieniu [] 112 [(3888, True)] = [(4048, True)]"
    by (simp add: po_zwolnieniu_def scal_prawy_def scal_lewy_def)
  with kfree_scala [OF sterta_przyklad1_lista, of 4144] sterta_przyklad1_blok show ?thesis by metis
qed



text \<open>
  Round trip: on a valid, fully merged heap, freeing what \<open>kmalloc\<close> has just returned restores
  the block list, and freeing it a second time changes nothing.
\<close>

theorem kfree_po_kmalloc:
  assumes "lista_sterty_poprawna h" "scalona (bloki_sterty h)"
    and "kmalloc h rozmiar = Some (p, h')" "p \<noteq> 0"
  shows "\<exists>h''. kfree h' p = Some h'' \<and> bloki_sterty h'' = bloki_sterty h \<and> kfree h'' p = Some h''"
proof -
  from kmalloc_wynik [OF assms(1), of rozmiar] assms(3,4) obtain n xs r ys where
    "przydzielono h rozmiar p h' n xs r ys" by auto
  then have bs: "bloki_sterty h = xs @ (r, True) # ys"
    and nr: "n \<le> r" and p: "unat p = unat (st_poczatek h) + suma_blokow xs + 48"
    and rep: "reprezentuje h' (xs @ po_przydziale n r @ ys)" "st_poczatek h' = st_poczatek h"
    by (auto simp: przydzielono_def)
  define s zs where "s = fst (hd (po_przydziale n r))" and "zs = tl (po_przydziale n r) @ ys"
  have pp: "xs @ po_przydziale n r @ ys = xs @ (s, False) # zs"
    by (simp add: s_def zs_def po_przydziale_def)
  have blok: "ma_blok h' p xs s False zs"
    using p rep by (simp add: ma_blok_def bloki_sterty_reprezentuje pp)
  have lista: "lista_sterty_poprawna h'" using rep(1) lista_sterty_poprawna_reprezentuje by blast
  from kfree_zwalnia [OF lista blok] obtain h'' where h'': "kfree h' p = Some h''"
    "reprezentuje h'' (po_zwolnieniu xs s zs)" "st_poczatek h'' = st_poczatek h'" by blast
  have po: "po_zwolnieniu xs s zs = xs @ (r, True) # ys"
    using po_zwolnieniu_po_przydziale [of xs r ys n] po_zwolnieniu_bez_podzialu [of xs r ys] assms(2) nr
    by (simp add: bs s_def zs_def po_przydziale_def)
  have bs'': "bloki_sterty h'' = xs @ (r, True) # ys"
    using h''(2) by (simp add: po bloki_sterty_reprezentuje)
  have "\<nexists>xs' r' ys'. ma_blok h'' p xs' r' False ys'"
  proof
    assume "\<exists>xs' r' ys'. ma_blok h'' p xs' r' False ys'"
    then obtain xs' r' ys' where c: "xs @ (r, True) # ys = xs' @ (r', False) # ys'"
      "suma_blokow xs' = suma_blokow xs"
      using p h''(3) rep(2) by (auto simp: ma_blok_def bs'')
    then show False using podzial_sumy [OF c(1)] by auto
  qed
  then show ?thesis using h'' bs'' kfree_odmawia bs by auto
qed

theorem kfree_po_kmalloc_witness:
  "\<exists>h''. kfree sterta_przyklad1 4144 = Some h'' \<and> bloki_sterty h'' = bloki_sterty sterta_przyklad \<and>
     kfree h'' 4144 = Some h''"
  by (rule kfree_po_kmalloc [OF sterta_przyklad_lista _ sterta_przyklad1_rep(1)])
    (simp_all add: sterta_przyklad_bloki)

end
