(* ===== verification/Pmm.thy ===== *)
theory Pmm
  imports Interfejsy
begin

section \<open>The physical frame allocator (pamiec.h, pmm.cpp)\<close>

text \<open>
  A bitmap allocator of 4 KiB frames. Frame numbers and physical addresses are natural numbers:
  every path of the code compares them with 4 GiB (or checks the addition) before it computes with
  them, so nothing wraps. A bitmap is a map from byte indices to \<open>uint8_t\<close> values; every access of
  the code is guarded by \<open>numer_ramki_poprawny\<close>. All operations hold the PMM lock with interrupts
  off and are atomic here.
\<close>

abbreviation ROZMIAR_STRONY :: nat where "ROZMIAR_STRONY \<equiv> 4096"
abbreviation MAKS_ADRES_FIZYCZNY_PMM :: nat where "MAKS_ADRES_FIZYCZNY_PMM \<equiv> 0x100000000"
abbreviation MAX_RAMEK :: nat where "MAX_RAMEK \<equiv> 0x100000"
abbreviation MAX_RAMEK_ALOKOWALNYCH :: nat where "MAX_RAMEK_ALOKOWALNYCH \<equiv> 0x40000"
abbreviation GRANICA_NISKIEJ_PAMIECI :: nat where "GRANICA_NISKIEJ_PAMIECI \<equiv> 0x100000"
abbreviation LAPIC_MMIO :: nat where "LAPIC_MMIO \<equiv> 0xFEE00000"
abbreviation IOAPIC_MMIO :: nat where "IOAPIC_MMIO \<equiv> 0xFEC00000"

type_synonym bitmapa = "nat \<Rightarrow> u8"

record pmm =
  pm_bitowa :: bitmapa
  pm_dostepnosci :: bitmapa
  pm_najwyzsza :: nat
  pm_ostatnia :: nat
  pm_gotowy :: bool

subsection \<open>Bit operations\<close>

definition numer_ramki_poprawny :: "nat \<Rightarrow> bool" where
  "numer_ramki_poprawny numer = (numer < MAX_RAMEK)"

definition indeks_bajtu :: "nat \<Rightarrow> nat" where
  "indeks_bajtu numer = numer div 8"

definition maska_bitu :: "nat \<Rightarrow> u8" where
  "maska_bitu numer = push_bit (numer mod 8) 1"

definition bit_ustawiony :: "bitmapa \<Rightarrow> nat \<Rightarrow> bool" where
  "bit_ustawiony mapa numer =
     (if \<not> numer_ramki_poprawny numer then False
      else mapa (indeks_bajtu numer) AND maska_bitu numer \<noteq> 0)"

definition ustaw_bit :: "bitmapa \<Rightarrow> nat \<Rightarrow> bitmapa" where
  "ustaw_bit mapa numer =
     (if \<not> numer_ramki_poprawny numer then mapa
      else mapa(indeks_bajtu numer := mapa (indeks_bajtu numer) OR maska_bitu numer))"

definition wyczysc_bit :: "bitmapa \<Rightarrow> nat \<Rightarrow> bitmapa" where
  "wyczysc_bit mapa numer =
     (if \<not> numer_ramki_poprawny numer then mapa
      else mapa(indeks_bajtu numer := mapa (indeks_bajtu numer) AND NOT (maska_bitu numer)))"

definition ramka_dostepna :: "pmm \<Rightarrow> nat \<Rightarrow> bool" where
  "ramka_dostepna s numer = bit_ustawiony (pm_dostepnosci s) numer"

definition ramka_wolna :: "pmm \<Rightarrow> nat \<Rightarrow> bool" where
  "ramka_wolna s numer = bit_ustawiony (pm_bitowa s) numer"

definition ustaw_ramke_wolna :: "pmm \<Rightarrow> nat \<Rightarrow> pmm" where
  "ustaw_ramke_wolna s numer =
     (if \<not> ramka_dostepna s numer then s
      else s\<lparr>pm_bitowa := ustaw_bit (pm_bitowa s) numer\<rparr>)"

definition ustaw_ramke_zajeta :: "pmm \<Rightarrow> nat \<Rightarrow> pmm" where
  "ustaw_ramke_zajeta s numer = s\<lparr>pm_bitowa := wyczysc_bit (pm_bitowa s) numer\<rparr>"

definition oznacz_ramke_jako_ram :: "pmm \<Rightarrow> nat \<Rightarrow> pmm" where
  "oznacz_ramke_jako_ram s numer =
     (if \<not> numer_ramki_poprawny numer then s
      else s\<lparr>pm_dostepnosci := ustaw_bit (pm_dostepnosci s) numer,
             pm_bitowa := ustaw_bit (pm_bitowa s) numer\<rparr>)"

definition zarezerwuj_ramke_na_stale :: "pmm \<Rightarrow> nat \<Rightarrow> pmm" where
  "zarezerwuj_ramke_na_stale s numer =
     (if \<not> numer_ramki_poprawny numer then s
      else s\<lparr>pm_dostepnosci := wyczysc_bit (pm_dostepnosci s) numer,
             pm_bitowa := wyczysc_bit (pm_bitowa s) numer\<rparr>)"

subsection \<open>Alignment and ranges\<close>

definition pmm_dodaj_u64 :: "nat \<Rightarrow> nat \<Rightarrow> nat option" where
  "pmm_dodaj_u64 a b = (if a > 2 ^ 64 - 1 - b then None else Some (a + b))"

definition wyrownaj_w_gore_do_strony :: "nat \<Rightarrow> nat option" where
  "wyrownaj_w_gore_do_strony wartosc =
     (if wartosc mod ROZMIAR_STRONY = 0 then Some wartosc
      else pmm_dodaj_u64 wartosc (ROZMIAR_STRONY - wartosc mod ROZMIAR_STRONY))"

definition wyrownaj_w_dol_do_strony :: "nat \<Rightarrow> nat" where
  "wyrownaj_w_dol_do_strony wartosc = wartosc - wartosc mod ROZMIAR_STRONY"

definition wyrownaj_w_gore_do_8 :: "nat \<Rightarrow> nat option" where
  "wyrownaj_w_gore_do_8 wartosc =
     (if wartosc > 2 ^ 64 - 1 - 7 then None
      else Some (wartosc + 7 - (wartosc + 7) mod 8))"

text \<open>The loops \<open>for (ramka = pierwsza; ramka < za_koncem; ++ramka)\<close> over one frame operation.\<close>

definition dla_ramek :: "(pmm \<Rightarrow> nat \<Rightarrow> pmm) \<Rightarrow> nat \<Rightarrow> nat \<Rightarrow> pmm \<Rightarrow> pmm" where
  "dla_ramek f pierwsza za_koncem s = foldl f s [pierwsza ..< za_koncem]"

definition koniec_zakresu :: "nat \<Rightarrow> nat \<Rightarrow> nat" where
  "koniec_zakresu poczatek dlugosc =
     (if dlugosc > MAKS_ADRES_FIZYCZNY_PMM - poczatek then MAKS_ADRES_FIZYCZNY_PMM
      else poczatek + dlugosc)"

definition dodaj_dostepny_zakres :: "pmm \<Rightarrow> nat \<Rightarrow> nat \<Rightarrow> pmm" where
  "dodaj_dostepny_zakres s poczatek dlugosc =
     (if dlugosc = 0 then s
      else if poczatek \<ge> MAKS_ADRES_FIZYCZNY_PMM then s
      else let koniec = koniec_zakresu poczatek dlugosc in
      case wyrownaj_w_gore_do_strony poczatek of
        None \<Rightarrow> s
      | Some start_wyrownany \<Rightarrow>
        let koniec_wyrownany = wyrownaj_w_dol_do_strony koniec in
        if start_wyrownany \<ge> koniec_wyrownany then s
        else
          let pierwsza = start_wyrownany div ROZMIAR_STRONY;
              za_koncem = koniec_wyrownany div ROZMIAR_STRONY;
              s1 = dla_ramek oznacz_ramke_jako_ram pierwsza za_koncem s
          in if za_koncem > pm_najwyzsza s1 then s1\<lparr>pm_najwyzsza := za_koncem\<rparr> else s1)"

definition zarezerwuj_zakres_na_stale :: "pmm \<Rightarrow> nat \<Rightarrow> nat \<Rightarrow> pmm" where
  "zarezerwuj_zakres_na_stale s poczatek dlugosc =
     (if dlugosc = 0 then s
      else if poczatek \<ge> MAKS_ADRES_FIZYCZNY_PMM then s
      else
        let koniec = koniec_zakresu poczatek dlugosc;
            start_wyrownany = wyrownaj_w_dol_do_strony poczatek;
            k0 = (case wyrownaj_w_gore_do_strony koniec of
                    None \<Rightarrow> MAKS_ADRES_FIZYCZNY_PMM | Some k \<Rightarrow> k);
            koniec_wyrownany = (if k0 > MAKS_ADRES_FIZYCZNY_PMM then MAKS_ADRES_FIZYCZNY_PMM else k0)
        in if start_wyrownany \<ge> koniec_wyrownany then s
           else dla_ramek zarezerwuj_ramke_na_stale (start_wyrownany div ROZMIAR_STRONY)
                  (koniec_wyrownany div ROZMIAR_STRONY) s)"

subsection \<open>The Multiboot2 information structure\<close>

text \<open>
  Physical memory as the bootloader leaves it: bytes by address. The structures are read field by
  field in little-endian order, as the packed structs of pamiec.h lay them out.
\<close>

type_synonym pamiec_fiz = "nat \<Rightarrow> u8"

definition czytaj32 :: "pamiec_fiz \<Rightarrow> nat \<Rightarrow> nat" where
  "czytaj32 m a = unat (m a) + 256 * unat (m (a + 1)) + 65536 * unat (m (a + 2)) + 16777216 * unat (m (a + 3))"

definition czytaj64 :: "pamiec_fiz \<Rightarrow> nat \<Rightarrow> nat" where
  "czytaj64 m a = czytaj32 m a + 4294967296 * czytaj32 m (a + 4)"

record WpisMapyPamieciMB2 =
  mp_adres_bazowy :: nat
  mp_dlugosc :: nat
  mp_typ_obszaru :: nat

definition czytaj_wpis_mapy :: "pamiec_fiz \<Rightarrow> nat \<Rightarrow> WpisMapyPamieciMB2" where
  "czytaj_wpis_mapy m a =
     \<lparr>mp_adres_bazowy = czytaj64 m a, mp_dlugosc = czytaj64 m (a + 8), mp_typ_obszaru = czytaj32 m (a + 16)\<rparr>"

definition pobierz_zakres_multiboot :: "pamiec_fiz \<Rightarrow> nat \<Rightarrow> (nat \<times> nat) option" where
  "pobierz_zakres_multiboot m adres =
     (if adres = 0 then None
      else if adres mod 8 \<noteq> 0 then None
      else let calkowity_rozmiar = czytaj32 m adres in
      if calkowity_rozmiar < 16 then None
      else case pmm_dodaj_u64 adres calkowity_rozmiar of
        None \<Rightarrow> None
      | Some koniec \<Rightarrow> if koniec \<le> (adres + 8) mod 2 ^ 64 then None else Some (adres, koniec))"

text \<open>
  The walk over the tags with its callback on a state, as the result
  "the list was well formed and ended with the end tag" and the state. Every step advances by at
  least 8 bytes, which is why it ends.
\<close>

function przejdz_po_tagach :: "pamiec_fiz \<Rightarrow> nat \<Rightarrow> (nat \<Rightarrow> 's \<Rightarrow> bool \<times> 's) \<Rightarrow> nat \<Rightarrow> 's \<Rightarrow> bool \<times> 's" where
  "przejdz_po_tagach m koniec f aktualny s =
     (if \<not> aktualny < koniec then (False, s)
      else if koniec - aktualny < 8 then (False, s)
      else let typ = czytaj32 m aktualny; rozmiar = czytaj32 m (aktualny + 4) in
      if rozmiar < 8 then (False, s)
      else case pmm_dodaj_u64 aktualny rozmiar of
        None \<Rightarrow> (False, s)
      | Some koniec_tagu \<Rightarrow>
        if koniec_tagu > koniec then (False, s)
        else if typ = 0 then (rozmiar = 8, s)
        else (case f aktualny s of
          (False, s') \<Rightarrow> (False, s')
        | (True, s') \<Rightarrow>
          (case wyrownaj_w_gore_do_8 rozmiar of
             None \<Rightarrow> (False, s')
           | Some krok \<Rightarrow>
             if krok = 0 \<or> krok > koniec - aktualny then (False, s')
             else przejdz_po_tagach m koniec f (aktualny + krok) s')))"
  by pat_completeness auto
termination
  by (relation "measure (\<lambda>(m, koniec, f, aktualny, s). koniec - aktualny)") auto

declare przejdz_po_tagach.simps [simp del]

text \<open>The memory map tag: only entries of type \<open>MULTIBOOT_MEMORY_AVAILABLE\<close> become RAM.\<close>

definition dodaj_wpis_mapy :: "pmm \<Rightarrow> WpisMapyPamieciMB2 \<Rightarrow> pmm" where
  "dodaj_wpis_mapy s wpis =
     (if mp_typ_obszaru wpis \<noteq> 1 then s
      else dodaj_dostepny_zakres s (mp_adres_bazowy wpis) (mp_dlugosc wpis))"

definition wpisy_mapy :: "pamiec_fiz \<Rightarrow> nat \<Rightarrow> WpisMapyPamieciMB2 list" where
  "wpisy_mapy m tag =
     (let rozmiar_wpisu = czytaj32 m (tag + 8); payload = czytaj32 m (tag + 4) - 16 in
      map (\<lambda>i. czytaj_wpis_mapy m (tag + 16 + i * rozmiar_wpisu)) [0 ..< payload div rozmiar_wpisu])"

definition przetworz_mape_pamieci :: "pamiec_fiz \<Rightarrow> nat \<Rightarrow> pmm \<Rightarrow> bool \<times> pmm" where
  "przetworz_mape_pamieci m tag s =
     (let rozmiar = czytaj32 m (tag + 4); rozmiar_wpisu = czytaj32 m (tag + 8) in
      if rozmiar < 16 then (False, s)
      else if rozmiar_wpisu < 24 then (False, s)
      else if rozmiar - 16 = 0 then (False, s)
      else if (rozmiar - 16) mod rozmiar_wpisu \<noteq> 0 then (False, s)
      else (True, foldl dodaj_wpis_mapy s (wpisy_mapy m tag)))"

definition zarezerwuj_modul :: "pamiec_fiz \<Rightarrow> nat \<Rightarrow> pmm \<Rightarrow> pmm" where
  "zarezerwuj_modul m tag s =
     (if czytaj32 m (tag + 4) < 16 then s
      else let start = czytaj32 m (tag + 8); koniec = czytaj32 m (tag + 12) in
      if koniec \<le> start then s else zarezerwuj_zakres_na_stale s start (koniec - start))"

definition zarezerwuj_framebuffer :: "pamiec_fiz \<Rightarrow> nat \<Rightarrow> pmm \<Rightarrow> pmm" where
  "zarezerwuj_framebuffer m tag s =
     (if czytaj32 m (tag + 4) < 32 then s
      else let adres = czytaj64 m (tag + 8); pitch = czytaj32 m (tag + 16); wysokosc = czytaj32 m (tag + 24) in
      if adres = 0 \<or> pitch = 0 \<or> wysokosc = 0 then s
      else if wysokosc > (2 ^ 64 - 1) div pitch then s
      else zarezerwuj_zakres_na_stale s adres (pitch * wysokosc))"

definition wyzeruj_stan_pmm :: "pmm \<Rightarrow> pmm" where
  "wyzeruj_stan_pmm s =
     \<lparr>pm_bitowa = (\<lambda>_. 0), pm_dostepnosci = (\<lambda>_. 0), pm_najwyzsza = 0, pm_ostatnia = 0, pm_gotowy = False\<rparr>"

text \<open>The two callbacks of \<open>InicjalizujPMM\<close>; the first one's flags are \<open>znaleziono_mape\<close> and
  \<open>mapa_poprawna\<close>.\<close>

definition tag_mapy :: "pamiec_fiz \<Rightarrow> nat \<Rightarrow> bool \<times> bool \<times> pmm \<Rightarrow> bool \<times> bool \<times> bool \<times> pmm" where
  "tag_mapy m tag = (\<lambda>(znaleziono, poprawna, s).
     if czytaj32 m tag = 6
     then if znaleziono then (False, True, False, s)
          else (case przetworz_mape_pamieci m tag s of
                  (False, s') \<Rightarrow> (False, True, False, s')
                | (True, s') \<Rightarrow> (True, True, poprawna, s'))
     else (True, znaleziono, poprawna, s))"

definition tag_rezerwacji :: "pamiec_fiz \<Rightarrow> nat \<Rightarrow> pmm \<Rightarrow> bool \<times> pmm" where
  "tag_rezerwacji m tag s =
     (True, if czytaj32 m tag = 3 then zarezerwuj_modul m tag s
            else if czytaj32 m tag = 8 then zarezerwuj_framebuffer m tag s
            else s)"

definition InicjalizujPMM :: "pamiec_fiz \<Rightarrow> nat \<Rightarrow> nat \<Rightarrow> nat \<Rightarrow> pmm \<Rightarrow> pmm" where
  "InicjalizujPMM m jadro_start jadro_koniec adres_info s =
     (let s0 = wyzeruj_stan_pmm s in
      case pobierz_zakres_multiboot m adres_info of
        None \<Rightarrow> s0
      | Some (poczatek, koniec) \<Rightarrow>
        (case przejdz_po_tagach m koniec (tag_mapy m) (poczatek + 8) (False, True, s0) of
          (tagi_poprawne, znaleziono, poprawna, s1) \<Rightarrow>
            if \<not> tagi_poprawne \<or> \<not> znaleziono \<or> \<not> poprawna \<or> pm_najwyzsza s1 = 0
            then wyzeruj_stan_pmm s1
            else let s2 = zarezerwuj_zakres_na_stale s1 0 GRANICA_NISKIEJ_PAMIECI in
            if jadro_koniec \<le> jadro_start then wyzeruj_stan_pmm s2
            else
              let s3 = zarezerwuj_zakres_na_stale s2 jadro_start (jadro_koniec - jadro_start);
                  s4 = zarezerwuj_zakres_na_stale s3 poczatek (koniec - poczatek) in
              (case przejdz_po_tagach m koniec (tag_rezerwacji m) (poczatek + 8) s4 of
                (rezerwacje_ok, s5) \<Rightarrow>
                  if \<not> rezerwacje_ok then wyzeruj_stan_pmm s5
                  else
                    let s6 = zarezerwuj_zakres_na_stale s5 LAPIC_MMIO ROZMIAR_STRONY;
                        s7 = zarezerwuj_zakres_na_stale s6 IOAPIC_MMIO ROZMIAR_STRONY
                    in s7\<lparr>pm_ostatnia := GRANICA_NISKIEJ_PAMIECI div ROZMIAR_STRONY, pm_gotowy := True\<rparr>)))"

subsection \<open>Single frames\<close>

definition adres_na_numer_ramki :: "nat \<Rightarrow> nat option" where
  "adres_na_numer_ramki adres =
     (if adres \<ge> MAKS_ADRES_FIZYCZNY_PMM then None
      else let numer = adres div ROZMIAR_STRONY in
        if numer_ramki_poprawny numer then Some numer else None)"

definition OdblokujRamke :: "pmm \<Rightarrow> nat \<Rightarrow> pmm" where
  "OdblokujRamke s adres =
     (if \<not> pm_gotowy s then s
      else case adres_na_numer_ramki adres of
        None \<Rightarrow> s
      | Some numer \<Rightarrow>
          let s1 = ustaw_ramke_wolna s numer in
          if numer < pm_ostatnia s1 then s1\<lparr>pm_ostatnia := numer\<rparr> else s1)"

definition ZabezpieczRamke :: "pmm \<Rightarrow> nat \<Rightarrow> pmm" where
  "ZabezpieczRamke s adres =
     (if \<not> pm_gotowy s then s
      else case adres_na_numer_ramki adres of
        None \<Rightarrow> s
      | Some numer \<Rightarrow> ustaw_ramke_zajeta s numer)"

definition CzyRamkaWolna :: "pmm \<Rightarrow> nat \<Rightarrow> bool" where
  "CzyRamkaWolna s adres =
     (if \<not> pm_gotowy s then False
      else case adres_na_numer_ramki adres of
        None \<Rightarrow> False
      | Some numer \<Rightarrow> ramka_dostepna s numer \<and> ramka_wolna s numer)"

text \<open>One pass of the next-fit scan over \<open>ramka .. kon - 1\<close>; the address 0 stands for null.\<close>

function przebieg_ramek :: "nat \<Rightarrow> nat \<Rightarrow> pmm \<Rightarrow> nat \<Rightarrow> nat \<times> pmm" where
  "przebieg_ramek limit kon s ramka =
     (if \<not> ramka < kon then (0, s)
      else if \<not> ramka_dostepna s ramka \<or> \<not> ramka_wolna s ramka
      then przebieg_ramek limit kon s (ramka + 1)
      else
        let s1 = ustaw_ramke_zajeta s ramka;
            s2 = s1\<lparr>pm_ostatnia := if ramka + 1 \<ge> limit then 0 else ramka + 1\<rparr>;
            adres = ramka * ROZMIAR_STRONY in
        if adres = 0
        then przebieg_ramek limit kon (zarezerwuj_ramke_na_stale s2 ramka) (ramka + 1)
        else (adres, s2))"
  by pat_completeness auto
termination
  by (relation "measure (\<lambda>(limit, kon, s, ramka). kon - ramka)") auto

declare przebieg_ramek.simps [simp del]

definition limit_alokacji :: "pmm \<Rightarrow> nat" where
  "limit_alokacji s =
     (let limit = (if pm_najwyzsza s > MAX_RAMEK then MAX_RAMEK else pm_najwyzsza s)
      in if limit > MAX_RAMEK_ALOKOWALNYCH then MAX_RAMEK_ALOKOWALNYCH else limit)"

definition ZaalokujRamke :: "pmm \<Rightarrow> nat \<times> pmm" where
  "ZaalokujRamke s =
     (if \<not> pm_gotowy s then (0, s)
      else let limit = limit_alokacji s in
      if limit = 0 then (0, s)
      else
        let s0 = (if pm_ostatnia s \<ge> limit then s\<lparr>pm_ostatnia := 0\<rparr> else s) in
        (case przebieg_ramek limit limit s0 (pm_ostatnia s0) of
          (adres, s1) \<Rightarrow>
            if adres \<noteq> 0 then (adres, s1)
            else przebieg_ramek limit (if pm_ostatnia s1 < limit then pm_ostatnia s1 else limit) s1 0))"

definition ZwolnijRamke :: "pmm \<Rightarrow> nat \<Rightarrow> pmm" where
  "ZwolnijRamke s adres =
     (if adres = 0 then s
      else if adres mod ROZMIAR_STRONY \<noteq> 0 then s
      else if \<not> pm_gotowy s then s
      else case adres_na_numer_ramki adres of
        None \<Rightarrow> s
      | Some numer \<Rightarrow>
          if \<not> ramka_dostepna s numer then s
          else if ramka_wolna s numer then s
          else let s1 = ustaw_ramke_wolna s numer in
            if numer < pm_ostatnia s1 then s1\<lparr>pm_ostatnia := numer\<rparr> else s1)"

subsection \<open>Contiguous frames\<close>

text \<open>The inner loop: the first index at which the run \<open>start, start + 1, \<dots>\<close> is not free.\<close>

function pierwsza_zajeta :: "pmm \<Rightarrow> nat \<Rightarrow> nat \<Rightarrow> nat \<Rightarrow> nat option" where
  "pierwsza_zajeta s start potrzebne i =
     (if \<not> i < potrzebne then None
      else if \<not> ramka_dostepna s (start + i) \<or> \<not> ramka_wolna s (start + i) then Some i
      else pierwsza_zajeta s start potrzebne (i + 1))"
  by pat_completeness auto
termination
  by (relation "measure (\<lambda>(s, start, potrzebne, i). potrzebne - i)") auto

declare pierwsza_zajeta.simps [simp del]

function szukaj_ciagu :: "pmm \<Rightarrow> nat \<Rightarrow> nat \<Rightarrow> nat \<Rightarrow> nat \<times> pmm" where
  "szukaj_ciagu s limit potrzebne start =
     (if \<not> start \<le> limit - potrzebne then (0, s)
      else case pierwsza_zajeta s start potrzebne 0 of
        Some i \<Rightarrow> szukaj_ciagu s limit potrzebne (start + i + 1)
      | None \<Rightarrow>
          let s1 = dla_ramek ustaw_ramke_zajeta start (start + potrzebne) s;
              s2 = s1\<lparr>pm_ostatnia := if start + potrzebne \<ge> limit then 0 else start + potrzebne\<rparr>
          in (start * ROZMIAR_STRONY, s2))"
  by pat_completeness auto
termination
  by (relation "measure (\<lambda>(s, limit, potrzebne, start). limit + 1 - start)") auto

declare szukaj_ciagu.simps [simp del]

definition ZaalokujCiagleRamki :: "pmm \<Rightarrow> nat \<Rightarrow> nat \<times> pmm" where
  "ZaalokujCiagleRamki s liczba =
     (if liczba = 0 \<or> liczba > MAX_RAMEK_ALOKOWALNYCH then (0, s)
      else if \<not> pm_gotowy s then (0, s)
      else
        let limit = (if pm_najwyzsza s > MAX_RAMEK_ALOKOWALNYCH then MAX_RAMEK_ALOKOWALNYCH
                     else pm_najwyzsza s) in
        if liczba > limit then (0, s)
        else szukaj_ciagu s limit liczba (GRANICA_NISKIEJ_PAMIECI div ROZMIAR_STRONY))"

definition ZwolnijCiagleRamki :: "pmm \<Rightarrow> nat \<Rightarrow> nat \<Rightarrow> pmm" where
  "ZwolnijCiagleRamki s adres liczba =
     (if adres = 0 \<or> liczba = 0 then s
      else if adres mod ROZMIAR_STRONY \<noteq> 0 \<or> liczba > MAX_RAMEK_ALOKOWALNYCH then s
      else if \<not> pm_gotowy s then s
      else let start = adres div ROZMIAR_STRONY in
        if start \<ge> MAX_RAMEK_ALOKOWALNYCH \<or> liczba > MAX_RAMEK_ALOKOWALNYCH - start then s
        else if \<exists>i \<in> set [0 ..< liczba]. \<not> ramka_dostepna s (start + i) \<or> ramka_wolna s (start + i) then s
        else
          let s1 = dla_ramek ustaw_ramke_wolna start (start + liczba) s
          in if start < pm_ostatnia s1 then s1\<lparr>pm_ostatnia := start\<rparr> else s1)"

end
