(* ===== verification/Pmm_Wlasnosci.thy ===== *)
theory Pmm_Wlasnosci
  imports Pmm
begin

section \<open>Properties of the physical frame allocator\<close>

text \<open>
  The bitmaps read as sets of frames, what each operation of \<^theory_text>\<open>Pmm\<close> does to those sets, the
  allocator as an instance of the frame interface. The theorems are in \<^theory_text>\<open>Pmm_Twierdzenia\<close>.
\<close>

subsection \<open>Bitmaps as sets\<close>

lemma bit_ustawiony_bit:
  "bit_ustawiony m n \<longleftrightarrow> n < MAX_RAMEK \<and> bit (m (n div 8)) (n mod 8)"
  by (auto simp: bit_ustawiony_def numer_ramki_poprawny_def indeks_bajtu_def maska_bitu_def
      bit_iff_and_push_bit_not_eq_0)

lemma bit_ustawiony_MAX: "bit_ustawiony m n \<Longrightarrow> n < MAX_RAMEK"
  by (simp add: bit_ustawiony_bit)

lemma bit_maska_bitu: "bit (maska_bitu n) j \<longleftrightarrow> j = n mod 8"
  by (auto simp: maska_bitu_def bit_simps)

lemma div_mod_8_eq: "(n :: nat) div 8 = k div 8 \<Longrightarrow> n mod 8 = k mod 8 \<Longrightarrow> n = k"
  by (metis div_mult_mod_eq)

lemma bit_ustawiony_ustaw [simp]:
  "bit_ustawiony (ustaw_bit m n) k \<longleftrightarrow> (k = n \<and> n < MAX_RAMEK) \<or> bit_ustawiony m k"
proof -
  have "k mod 8 < 8" by simp
  then show ?thesis
    by (auto simp: bit_ustawiony_bit ustaw_bit_def numer_ramki_poprawny_def indeks_bajtu_def
        bit_maska_bitu bit_or_iff dest: div_mod_8_eq split: if_splits)
qed

lemma bit_ustawiony_wyczysc [simp]:
  "bit_ustawiony (wyczysc_bit m n) k \<longleftrightarrow> k \<noteq> n \<and> bit_ustawiony m k"
proof -
  have "k mod 8 < 8" by simp
  then show ?thesis
    by (auto simp: bit_ustawiony_bit wyczysc_bit_def numer_ramki_poprawny_def indeks_bajtu_def
        bit_maska_bitu bit_and_iff bit_not_iff dest: div_mod_8_eq split: if_splits)
qed

lemma ramka_ustaw_wolna [simp]:
  "ramka_dostepna (ustaw_ramke_wolna s n) k = ramka_dostepna s k"
  "ramka_wolna (ustaw_ramke_wolna s n) k \<longleftrightarrow> ramka_wolna s k \<or> k = n \<and> ramka_dostepna s n"
  by (auto simp: ustaw_ramke_wolna_def ramka_dostepna_def ramka_wolna_def bit_ustawiony_bit [of "pm_dostepnosci s" n])

lemma ramka_ustaw_zajeta [simp]:
  "ramka_dostepna (ustaw_ramke_zajeta s n) k = ramka_dostepna s k"
  "ramka_wolna (ustaw_ramke_zajeta s n) k \<longleftrightarrow> k \<noteq> n \<and> ramka_wolna s k"
  by (auto simp: ustaw_ramke_zajeta_def ramka_dostepna_def ramka_wolna_def)

lemma ramka_oznacz [simp]:
  "ramka_dostepna (oznacz_ramke_jako_ram s n) k \<longleftrightarrow> ramka_dostepna s k \<or> k = n \<and> n < MAX_RAMEK"
  "ramka_wolna (oznacz_ramke_jako_ram s n) k \<longleftrightarrow> ramka_wolna s k \<or> k = n \<and> n < MAX_RAMEK"
  by (auto simp: oznacz_ramke_jako_ram_def ramka_dostepna_def ramka_wolna_def numer_ramki_poprawny_def)

lemma ramka_zarezerwuj [simp]:
  "ramka_dostepna (zarezerwuj_ramke_na_stale s n) k \<longleftrightarrow> k \<noteq> n \<and> ramka_dostepna s k"
  "ramka_wolna (zarezerwuj_ramke_na_stale s n) k \<longleftrightarrow> k \<noteq> n \<and> ramka_wolna s k"
  by (auto simp: zarezerwuj_ramke_na_stale_def ramka_dostepna_def ramka_wolna_def
      numer_ramki_poprawny_def dest: bit_ustawiony_MAX)

lemma ramka_pola [simp]:
  "ramka_dostepna (s\<lparr>pm_ostatnia := x\<rparr>) = ramka_dostepna s"
  "ramka_wolna (s\<lparr>pm_ostatnia := x\<rparr>) = ramka_wolna s"
  "ramka_dostepna (s\<lparr>pm_najwyzsza := y\<rparr>) = ramka_dostepna s"
  "ramka_wolna (s\<lparr>pm_najwyzsza := y\<rparr>) = ramka_wolna s"
  "ramka_dostepna (s\<lparr>pm_gotowy := b\<rparr>) = ramka_dostepna s"
  "ramka_wolna (s\<lparr>pm_gotowy := b\<rparr>) = ramka_wolna s"
  by (intro ext; simp add: ramka_dostepna_def ramka_wolna_def)+

lemma ramka_dostepna_MAX: "ramka_dostepna s n \<Longrightarrow> n < MAX_RAMEK"
  by (simp add: ramka_dostepna_def bit_ustawiony_bit)

lemma ramka_wolna_MAX: "ramka_wolna s n \<Longrightarrow> n < MAX_RAMEK"
  by (simp add: ramka_wolna_def bit_ustawiony_bit)

text \<open>Fields the single-frame operations leave alone.\<close>

lemma ramka_reszta [simp]:
  "pm_najwyzsza (ustaw_ramke_wolna s n) = pm_najwyzsza s" "pm_gotowy (ustaw_ramke_wolna s n) = pm_gotowy s"
  "pm_ostatnia (ustaw_ramke_wolna s n) = pm_ostatnia s"
  "pm_najwyzsza (ustaw_ramke_zajeta s n) = pm_najwyzsza s" "pm_gotowy (ustaw_ramke_zajeta s n) = pm_gotowy s"
  "pm_ostatnia (ustaw_ramke_zajeta s n) = pm_ostatnia s"
  "pm_najwyzsza (zarezerwuj_ramke_na_stale s n) = pm_najwyzsza s" "pm_gotowy (zarezerwuj_ramke_na_stale s n) = pm_gotowy s"
  "pm_najwyzsza (oznacz_ramke_jako_ram s n) = pm_najwyzsza s" "pm_gotowy (oznacz_ramke_jako_ram s n) = pm_gotowy s"
  by (simp_all add: ustaw_ramke_wolna_def ustaw_ramke_zajeta_def zarezerwuj_ramke_na_stale_def oznacz_ramke_jako_ram_def)

definition wolne :: "pmm \<Rightarrow> nat set" where
  "wolne s = {n. ramka_dostepna s n \<and> ramka_wolna s n}"

definition dostepne :: "pmm \<Rightarrow> nat set" where
  "dostepne s = {n. ramka_dostepna s n}"

text \<open>The invariant: a free frame is RAM, the low megabyte (frame 0 in it) is never RAM.\<close>

definition pmm_niezmiennik :: "pmm \<Rightarrow> bool" where
  "pmm_niezmiennik s \<longleftrightarrow>
     (\<forall>n. ramka_wolna s n \<longrightarrow> ramka_dostepna s n) \<and> (\<forall>n < 256. \<not> ramka_dostepna s n)"

lemma niezmiennik_0: "pmm_niezmiennik s \<Longrightarrow> \<not> ramka_dostepna s 0"
  by (simp add: pmm_niezmiennik_def)

subsection \<open>Ranges of frames\<close>

lemma foldl_zarezerwuj:
  "ramka_dostepna (foldl zarezerwuj_ramke_na_stale s xs) k \<longleftrightarrow> k \<notin> set xs \<and> ramka_dostepna s k"
  "ramka_wolna (foldl zarezerwuj_ramke_na_stale s xs) k \<longleftrightarrow> k \<notin> set xs \<and> ramka_wolna s k"
  "pm_najwyzsza (foldl zarezerwuj_ramke_na_stale s xs) = pm_najwyzsza s"
  "pm_gotowy (foldl zarezerwuj_ramke_na_stale s xs) = pm_gotowy s"
  by (induction xs arbitrary: s) auto

lemma foldl_oznacz:
  "ramka_dostepna (foldl oznacz_ramke_jako_ram s xs) k \<longleftrightarrow> ramka_dostepna s k \<or> k \<in> set xs \<and> k < MAX_RAMEK"
  "ramka_wolna (foldl oznacz_ramke_jako_ram s xs) k \<longleftrightarrow> ramka_wolna s k \<or> k \<in> set xs \<and> k < MAX_RAMEK"
  "pm_najwyzsza (foldl oznacz_ramke_jako_ram s xs) = pm_najwyzsza s"
  by (induction xs arbitrary: s) auto

lemma foldl_zajeta:
  "ramka_dostepna (foldl ustaw_ramke_zajeta s xs) k \<longleftrightarrow> ramka_dostepna s k"
  "ramka_wolna (foldl ustaw_ramke_zajeta s xs) k \<longleftrightarrow> k \<notin> set xs \<and> ramka_wolna s k"
  "pm_najwyzsza (foldl ustaw_ramke_zajeta s xs) = pm_najwyzsza s"
  "pm_gotowy (foldl ustaw_ramke_zajeta s xs) = pm_gotowy s"
  by (induction xs arbitrary: s) auto

lemma foldl_wolna:
  "ramka_dostepna (foldl ustaw_ramke_wolna s xs) k \<longleftrightarrow> ramka_dostepna s k"
  "ramka_wolna (foldl ustaw_ramke_wolna s xs) k \<longleftrightarrow> ramka_wolna s k \<or> k \<in> set xs \<and> ramka_dostepna s k"
  "pm_najwyzsza (foldl ustaw_ramke_wolna s xs) = pm_najwyzsza s"
  "pm_gotowy (foldl ustaw_ramke_wolna s xs) = pm_gotowy s"
  "pm_ostatnia (foldl ustaw_ramke_wolna s xs) = pm_ostatnia s"
  by (induction xs arbitrary: s) auto

text \<open>A frame lies in, or meets, a range of bytes.\<close>

definition ramka_w_zakresie :: "nat \<Rightarrow> nat \<Rightarrow> nat \<Rightarrow> bool" where
  "ramka_w_zakresie n p d \<longleftrightarrow> p \<le> n * ROZMIAR_STRONY \<and> (n + 1) * ROZMIAR_STRONY \<le> p + d"

definition ramka_przecina :: "nat \<Rightarrow> nat \<Rightarrow> nat \<Rightarrow> bool" where
  "ramka_przecina n p d \<longleftrightarrow> 0 < d \<and> p < (n + 1) * ROZMIAR_STRONY \<and> n * ROZMIAR_STRONY < p + d"

lemma wyrownaj_gora_val:
  assumes "x \<le> MAKS_ADRES_FIZYCZNY_PMM"
  shows "\<exists>k. wyrownaj_w_gore_do_strony x = Some (k * ROZMIAR_STRONY) \<and>
    (\<forall>n. k \<le> n \<longleftrightarrow> x \<le> n * ROZMIAR_STRONY) \<and> k \<le> MAX_RAMEK"
proof -
  define q r where "q = x div ROZMIAR_STRONY" and "r = x mod ROZMIAR_STRONY"
  have x: "x = q * ROZMIAR_STRONY + r" and r: "r < ROZMIAR_STRONY"
    unfolding q_def r_def by (rule div_mult_mod_eq [symmetric]) simp
  show ?thesis
  proof (cases "r = 0")
    case True
    then show ?thesis
      using x assms by (intro exI [of _ q]) (simp add: wyrownaj_w_gore_do_strony_def r_def [symmetric])
  next
    case False
    have "pmm_dodaj_u64 x (ROZMIAR_STRONY - r) = Some (x + (ROZMIAR_STRONY - r))"
      using assms by (simp add: pmm_dodaj_u64_def)
    moreover have "x + (ROZMIAR_STRONY - r) = (q + 1) * ROZMIAR_STRONY"
      using x r by simp
    moreover have "q + 1 \<le> n \<longleftrightarrow> x \<le> n * ROZMIAR_STRONY" for n
      using x r False by (cases "q + 1 \<le> n") linarith+
    moreover have "q + 1 \<le> MAX_RAMEK"
      using x assms False by linarith
    ultimately show ?thesis
      using False by (intro exI [of _ "q + 1"]) (simp add: wyrownaj_w_gore_do_strony_def r_def [symmetric])
  qed
qed

lemma wyrownaj_dol_val:
  "wyrownaj_w_dol_do_strony x = x div ROZMIAR_STRONY * ROZMIAR_STRONY"
  by (simp add: wyrownaj_w_dol_do_strony_def minus_mod_eq_div_mult)

lemma dol_mniejsze: "n < x div ROZMIAR_STRONY \<longleftrightarrow> (n + 1) * ROZMIAR_STRONY \<le> (x :: nat)"
  by (simp add: less_eq_div_iff_mult_less_eq Suc_le_eq [symmetric])

lemma koniec_zakresu_val:
  assumes "p < MAKS_ADRES_FIZYCZNY_PMM"
  shows "koniec_zakresu p d \<le> MAKS_ADRES_FIZYCZNY_PMM"
    "x \<le> MAKS_ADRES_FIZYCZNY_PMM \<Longrightarrow> x \<le> koniec_zakresu p d \<longleftrightarrow> x \<le> p + d"
    "x < MAKS_ADRES_FIZYCZNY_PMM \<Longrightarrow> x < koniec_zakresu p d \<longleftrightarrow> x < p + d"
  using assms by (auto simp: koniec_zakresu_def)

text \<open>Both range operations run over one interval of frames.\<close>

lemma zarezerwuj_zakres_przedzial:
  "\<exists>xs. zarezerwuj_zakres_na_stale s p d = foldl zarezerwuj_ramke_na_stale s xs \<and>
     (\<forall>n < MAX_RAMEK. n \<in> set xs \<longleftrightarrow> ramka_przecina n p d)"
proof (cases "d = 0 \<or> MAKS_ADRES_FIZYCZNY_PMM \<le> p")
  case True
  then show ?thesis
    by (intro exI [of _ "[]"]) (auto simp: zarezerwuj_zakres_na_stale_def ramka_przecina_def)
next
  case False
  then have p: "p < MAKS_ADRES_FIZYCZNY_PMM" and d: "0 < d" by auto
  note kz = koniec_zakresu_val [OF p]
  obtain k where k: "wyrownaj_w_gore_do_strony (koniec_zakresu p d) = Some (k * ROZMIAR_STRONY)"
    "\<And>n. k \<le> n \<longleftrightarrow> koniec_zakresu p d \<le> n * ROZMIAR_STRONY" "k \<le> MAX_RAMEK"
    using wyrownaj_gora_val [OF kz(1), of d] by blast
  have nk: "n < k \<longleftrightarrow> n * ROZMIAR_STRONY < koniec_zakresu p d" for n
    using k(2) [of n] by linarith
  have kmax: "\<not> k * ROZMIAR_STRONY > MAKS_ADRES_FIZYCZNY_PMM"
    using k(3) by simp
  have eq: "zarezerwuj_zakres_na_stale s p d = foldl zarezerwuj_ramke_na_stale s [p div ROZMIAR_STRONY ..< k]"
    using False kmax
    by (auto simp: zarezerwuj_zakres_na_stale_def k(1) wyrownaj_dol_val dla_ramek_def Let_def)
  show ?thesis
  proof (intro exI conjI allI impI)
    show "zarezerwuj_zakres_na_stale s p d = foldl zarezerwuj_ramke_na_stale s [p div ROZMIAR_STRONY ..< k]"
      by (rule eq)
    fix n :: nat
    assume n: "n < MAX_RAMEK"
    have "n * ROZMIAR_STRONY < MAKS_ADRES_FIZYCZNY_PMM" using n by simp
    then have 1: "n < k \<longleftrightarrow> n * ROZMIAR_STRONY < p + d"
      by (simp add: nk kz(3))
    have 2: "p div ROZMIAR_STRONY \<le> n \<longleftrightarrow> p < (n + 1) * ROZMIAR_STRONY"
      using dol_mniejsze [of n p] by linarith
    show "n \<in> set [p div ROZMIAR_STRONY ..< k] \<longleftrightarrow> ramka_przecina n p d"
      using 1 2 d by (auto simp: ramka_przecina_def)
  qed
qed

lemma zarezerwuj_zakres_ramki [simp]:
  "ramka_dostepna (zarezerwuj_zakres_na_stale s p d) n \<longleftrightarrow> ramka_dostepna s n \<and> \<not> ramka_przecina n p d"
  "ramka_wolna (zarezerwuj_zakres_na_stale s p d) n \<longleftrightarrow> ramka_wolna s n \<and> \<not> ramka_przecina n p d"
  "pm_najwyzsza (zarezerwuj_zakres_na_stale s p d) = pm_najwyzsza s"
  "pm_gotowy (zarezerwuj_zakres_na_stale s p d) = pm_gotowy s"
proof -
  obtain xs where eq: "zarezerwuj_zakres_na_stale s p d = foldl zarezerwuj_ramke_na_stale s xs"
    and xs: "\<And>n. n < MAX_RAMEK \<Longrightarrow> n \<in> set xs \<longleftrightarrow> ramka_przecina n p d"
    using zarezerwuj_zakres_przedzial by blast
  show "ramka_dostepna (zarezerwuj_zakres_na_stale s p d) n \<longleftrightarrow> ramka_dostepna s n \<and> \<not> ramka_przecina n p d"
    using ramka_dostepna_MAX [of s n] xs [of n] by (auto simp: eq foldl_zarezerwuj)
  show "ramka_wolna (zarezerwuj_zakres_na_stale s p d) n \<longleftrightarrow> ramka_wolna s n \<and> \<not> ramka_przecina n p d"
    using ramka_wolna_MAX [of s n] xs [of n] by (auto simp: eq foldl_zarezerwuj)
qed (use zarezerwuj_zakres_przedzial [of s p d] in \<open>auto simp: foldl_zarezerwuj\<close>)

text \<open>\<open>ramka_ram n p d\<close>: frame \<open>n\<close> lies wholly in the range and below 4 GiB, which is what
  \<open>dodaj_dostepny_zakres\<close> marks.\<close>

definition ramka_ram :: "nat \<Rightarrow> nat \<Rightarrow> nat \<Rightarrow> bool" where
  "ramka_ram n p d \<longleftrightarrow> n < MAX_RAMEK \<and> p < MAKS_ADRES_FIZYCZNY_PMM \<and> ramka_w_zakresie n p d"

lemma dodaj_zakres_przedzial:
  "\<exists>xs N. dodaj_dostepny_zakres s p d = (foldl oznacz_ramke_jako_ram s xs)\<lparr>pm_najwyzsza := N\<rparr> \<and>
     (\<forall>n. n \<in> set xs \<longleftrightarrow> ramka_ram n p d) \<and> pm_najwyzsza s \<le> N \<and> (\<forall>n \<in> set xs. n < N) \<and>
     (pm_najwyzsza s \<le> MAX_RAMEK \<longrightarrow> N \<le> MAX_RAMEK)"
proof (cases "d = 0 \<or> MAKS_ADRES_FIZYCZNY_PMM \<le> p")
  case True
  then show ?thesis
    by (intro exI [of _ "[]"] exI [of _ "pm_najwyzsza s"])
      (auto simp: dodaj_dostepny_zakres_def ramka_ram_def ramka_w_zakresie_def)
next
  case False
  then have p: "p < MAKS_ADRES_FIZYCZNY_PMM" and d: "0 < d" by auto
  note kz = koniec_zakresu_val [OF p]
  obtain k where k: "wyrownaj_w_gore_do_strony p = Some (k * ROZMIAR_STRONY)"
    "\<And>n. k \<le> n \<longleftrightarrow> p \<le> n * ROZMIAR_STRONY"
    using wyrownaj_gora_val [of p] p by auto
  define e where "e = koniec_zakresu p d div ROZMIAR_STRONY"
  have nr: "n \<in> set [k ..< e] \<longleftrightarrow> ramka_ram n p d" for n
  proof -
    have 1: "n < e \<longleftrightarrow> (n + 1) * ROZMIAR_STRONY \<le> koniec_zakresu p d"
      unfolding e_def by (rule dol_mniejsze)
    have 2: "n < e \<longleftrightarrow> n < MAX_RAMEK \<and> (n + 1) * ROZMIAR_STRONY \<le> p + d"
    proof (cases "n < MAX_RAMEK")
      case True
      then have "(n + 1) * ROZMIAR_STRONY \<le> MAKS_ADRES_FIZYCZNY_PMM" by simp
      then show ?thesis using 1 True kz(2) by blast
    next
      case False
      then have "\<not> (n + 1) * ROZMIAR_STRONY \<le> koniec_zakresu p d" using kz(1) [of d] by simp
      then show ?thesis using 1 False by blast
    qed
    show ?thesis using 2 k(2) [of n] p by (auto simp: ramka_ram_def ramka_w_zakresie_def)
  qed
  have emax: "e \<le> MAX_RAMEK" using kz(1) [of d] unfolding e_def by linarith
  have dd: "dodaj_dostepny_zakres s p d = (if e \<le> k then s else
    let s1 = foldl oznacz_ramke_jako_ram s [k ..< e] in
      if e > pm_najwyzsza s1 then s1\<lparr>pm_najwyzsza := e\<rparr> else s1)"
    using False by (auto simp: dodaj_dostepny_zakres_def k(1) wyrownaj_dol_val dla_ramek_def Let_def e_def [symmetric])
  show ?thesis
  proof (cases "e \<le> k")
    case True
    then have "\<not> ramka_ram n p d" for n using nr [of n] by simp
    then show ?thesis
      using True by (intro exI [of _ "[]"] exI [of _ "pm_najwyzsza s"]) (simp add: dd)
  next
    case False
    have eq: "dodaj_dostepny_zakres s p d =
        (foldl oznacz_ramke_jako_ram s [k ..< e])\<lparr>pm_najwyzsza := max e (pm_najwyzsza s)\<rparr>"
      using False by (simp add: dd Let_def foldl_oznacz max_def)
    show ?thesis
    proof (intro exI conjI)
      show "dodaj_dostepny_zakres s p d =
        (foldl oznacz_ramke_jako_ram s [k ..< e])\<lparr>pm_najwyzsza := max e (pm_najwyzsza s)\<rparr>" by (rule eq)
      show "\<forall>n. n \<in> set [k ..< e] \<longleftrightarrow> ramka_ram n p d" using nr by blast
    qed (use emax in auto)
  qed
qed

lemma dodaj_zakres_ramki [simp]:
  "ramka_dostepna (dodaj_dostepny_zakres s p d) n \<longleftrightarrow> ramka_dostepna s n \<or> ramka_ram n p d"
  "ramka_wolna (dodaj_dostepny_zakres s p d) n \<longleftrightarrow> ramka_wolna s n \<or> ramka_ram n p d"
proof -
  obtain xs N where eq: "dodaj_dostepny_zakres s p d = (foldl oznacz_ramke_jako_ram s xs)\<lparr>pm_najwyzsza := N\<rparr>"
    and xs: "\<And>n. n \<in> set xs \<longleftrightarrow> ramka_ram n p d"
    using dodaj_zakres_przedzial [of s p d] by blast
  have "ramka_ram n p d \<Longrightarrow> n < MAX_RAMEK" by (simp add: ramka_ram_def)
  then show "ramka_dostepna (dodaj_dostepny_zakres s p d) n \<longleftrightarrow> ramka_dostepna s n \<or> ramka_ram n p d"
    "ramka_wolna (dodaj_dostepny_zakres s p d) n \<longleftrightarrow> ramka_wolna s n \<or> ramka_ram n p d"
    unfolding eq ramka_pola foldl_oznacz xs by blast+
qed

lemma dodaj_zakres_najwyzsza:
  assumes "\<forall>n. ramka_dostepna s n \<longrightarrow> n < pm_najwyzsza s" "ramka_dostepna (dodaj_dostepny_zakres s p d) n"
  shows "n < pm_najwyzsza (dodaj_dostepny_zakres s p d)"
  using dodaj_zakres_przedzial [of s p d] assms by (fastforce simp: foldl_oznacz ramka_ram_def)

subsection \<open>Allocation of one frame\<close>

lemma przebieg_brak:
  "\<forall>n. r \<le> n \<and> n < kon \<longrightarrow> n \<notin> wolne s \<Longrightarrow> przebieg_ramek limit kon s r = (0, s)"
proof (induction "kon - r" arbitrary: r)
  case 0
  then show ?case by (simp add: przebieg_ramek.simps [of limit kon s r])
next
  case (Suc k)
  then have "r \<notin> wolne s" "przebieg_ramek limit kon s (r + 1) = (0, s)"
    by (simp, intro Suc.hyps(1)) auto
  then show ?case by (auto simp: przebieg_ramek.simps [of limit kon s r] wolne_def)
qed

definition zajmij_ramke :: "nat \<Rightarrow> pmm \<Rightarrow> nat \<Rightarrow> pmm" where
  "zajmij_ramke limit s n =
     (ustaw_ramke_zajeta s n)\<lparr>pm_ostatnia := if n + 1 \<ge> limit then 0 else n + 1\<rparr>"

lemma przebieg_jest:
  assumes "0 < n" "n \<in> wolne s" "n < kon"
  shows "\<lbrakk>r \<le> n; \<forall>m. r \<le> m \<and> m < n \<longrightarrow> m \<notin> wolne s\<rbrakk>
    \<Longrightarrow> przebieg_ramek limit kon s r = (n * ROZMIAR_STRONY, zajmij_ramke limit s n)"
proof (induction "n - r" arbitrary: r)
  case 0
  then have "r = n" by simp
  then show ?case
    using assms by (simp add: przebieg_ramek.simps [of limit kon s n] wolne_def zajmij_ramke_def Let_def)
next
  case (Suc k)
  then have "r < n" "r \<notin> wolne s" by auto
  moreover have "przebieg_ramek limit kon s (r + 1) = (n * ROZMIAR_STRONY, zajmij_ramke limit s n)"
    using Suc by auto
  ultimately show ?case
    using assms(3) by (auto simp: przebieg_ramek.simps [of limit kon s r] wolne_def)
qed

lemma zajmij_ramke_pola [simp]:
  "dostepne (zajmij_ramke limit s n) = dostepne s"
  "wolne (zajmij_ramke limit s n) = wolne s - {n}"
  "pm_najwyzsza (zajmij_ramke limit s n) = pm_najwyzsza s"
  "pm_gotowy (zajmij_ramke limit s n) = pm_gotowy s"
  "pm_ostatnia (zajmij_ramke limit s n) = (if n + 1 \<ge> limit then 0 else n + 1)"
  by (auto simp: zajmij_ramke_def wolne_def dostepne_def)

lemma niezmiennik_zbiory:
  "pmm_niezmiennik s \<longleftrightarrow> {n. ramka_wolna s n} \<subseteq> dostepne s \<and> dostepne s \<inter> {..< 256} = {}"
  by (auto simp: pmm_niezmiennik_def dostepne_def)

lemma niezmiennik_zajmij [simp]: "pmm_niezmiennik s \<Longrightarrow> pmm_niezmiennik (zajmij_ramke limit s n)"
  by (auto simp: pmm_niezmiennik_def zajmij_ramke_def)

lemma niezmiennik_ostatnia [simp]: "pmm_niezmiennik (s\<lparr>pm_ostatnia := x\<rparr>) = pmm_niezmiennik s"
  "wolne (s\<lparr>pm_ostatnia := x\<rparr>) = wolne s" "dostepne (s\<lparr>pm_ostatnia := x\<rparr>) = dostepne s"
  "pmm_niezmiennik (s\<lparr>pm_gotowy := b\<rparr>) = pmm_niezmiennik s"
  "wolne (s\<lparr>pm_gotowy := b\<rparr>) = wolne s" "dostepne (s\<lparr>pm_gotowy := b\<rparr>) = dostepne s"
  by (simp_all add: pmm_niezmiennik_def wolne_def dostepne_def)

lemma wolne_dodatnie: "pmm_niezmiennik s \<Longrightarrow> n \<in> wolne s \<Longrightarrow> 256 \<le> n"
  by (metis mem_Collect_eq not_less pmm_niezmiennik_def wolne_def)

text \<open>The frames below the limit in the cyclic order that starts at the hint.\<close>

definition odleglosc :: "nat \<Rightarrow> nat \<Rightarrow> nat \<Rightarrow> nat" where
  "odleglosc lim start n = (if start \<le> n then n - start else n + lim - start)"

definition pierwsza_cyklicznie :: "nat \<Rightarrow> nat \<Rightarrow> nat set \<Rightarrow> nat \<Rightarrow> bool" where
  "pierwsza_cyklicznie lim start W n \<longleftrightarrow> n \<in> W \<and> (\<forall>m \<in> W. odleglosc lim start n \<le> odleglosc lim start m)"

definition start_alokacji :: "pmm \<Rightarrow> nat" where
  "start_alokacji s = (if pm_ostatnia s \<ge> limit_alokacji s then 0 else pm_ostatnia s)"

lemma zaalokuj_przypadki:
  assumes s: "pmm_niezmiennik s" "pm_gotowy s"
  defines "lim \<equiv> limit_alokacji s" and "W \<equiv> wolne s \<inter> {..< limit_alokacji s}"
  shows "(W = {} \<and> ZaalokujRamke s = (0, s\<lparr>pm_ostatnia := if lim = 0 then pm_ostatnia s else start_alokacji s\<rparr>)) \<or>
    (\<exists>n. pierwsza_cyklicznie lim (start_alokacji s) W n \<and>
      ZaalokujRamke s = (n * ROZMIAR_STRONY, zajmij_ramke lim (s\<lparr>pm_ostatnia := start_alokacji s\<rparr>) n))"
proof (cases "lim = 0")
  case True
  then show ?thesis
    using s by (simp add: ZaalokujRamke_def lim_def W_def)
next
  case lim: False
  define st where "st = start_alokacji s"
  define s0 where "s0 = s\<lparr>pm_ostatnia := st\<rparr>"
  have st: "st < lim" using lim by (auto simp: st_def start_alokacji_def lim_def)
  have s0: "(if pm_ostatnia s \<ge> lim then s\<lparr>pm_ostatnia := 0\<rparr> else s) = s0"
    by (simp add: s0_def st_def start_alokacji_def lim_def)
  have w0: "wolne s0 = wolne s" by (simp add: s0_def)
  have ost: "pm_ostatnia s0 = st" by (simp add: s0_def)
  have Z: "ZaalokujRamke s = (case przebieg_ramek lim lim s0 st of
      (adres, s1) \<Rightarrow> if adres \<noteq> 0 then (adres, s1)
        else przebieg_ramek lim (if pm_ostatnia s1 < lim then pm_ostatnia s1 else lim) s1 0)"
    unfolding ZaalokujRamke_def Let_def lim_def [symmetric] s0 ost using s lim by simp
  have poz: "0 < n" if "n \<in> wolne s" for n
    using wolne_dodatnie [OF s(1) that] by linarith
  show ?thesis
  proof (cases "\<exists>n. st \<le> n \<and> n < lim \<and> n \<in> wolne s")
    case True
    define n where "n = (LEAST n. st \<le> n \<and> n < lim \<and> n \<in> wolne s)"
    have n: "st \<le> n" "n < lim" "n \<in> wolne s"
      using LeastI_ex [OF True] by (simp_all add: n_def)
    have mn: "m \<notin> wolne s" if "st \<le> m" "m < n" for m
      using not_less_Least [of m "\<lambda>n. st \<le> n \<and> n < lim \<and> n \<in> wolne s"] that n(2) by (auto simp: n_def)
    have "przebieg_ramek lim lim s0 st = (n * ROZMIAR_STRONY, zajmij_ramke lim s0 n)"
      by (rule przebieg_jest) (use n mn poz w0 in auto)
    then have "ZaalokujRamke s = (n * ROZMIAR_STRONY, zajmij_ramke lim s0 n)"
      using poz [OF n(3)] by (simp add: Z)
    moreover have "odleglosc lim st n \<le> odleglosc lim st m" if "m \<in> W" for m
    proof (cases "st \<le> m")
      case True
      then have "n \<le> m" using that mn [of m] unfolding W_def by (meson IntD1 not_less)
      then show ?thesis using n True by (simp add: odleglosc_def)
    next
      case False
      then show ?thesis using n st by (simp add: odleglosc_def)
    qed
    ultimately show ?thesis
      using n unfolding pierwsza_cyklicznie_def W_def lim_def [symmetric] st_def [symmetric] s0_def [symmetric]
      by auto
  next
    case False
    then have A: "przebieg_ramek lim lim s0 st = (0, s0)"
      by (intro przebieg_brak) (auto simp: w0)
    then have B: "ZaalokujRamke s = przebieg_ramek lim st s0 0"
      using st by (simp add: Z ost)
    show ?thesis
    proof (cases "\<exists>n. n < st \<and> n \<in> wolne s")
      case True
      define n where "n = (LEAST n. n < st \<and> n \<in> wolne s)"
      have n: "n < st" "n \<in> wolne s"
        using LeastI_ex [OF True] by (simp_all add: n_def)
      have mn: "m \<notin> wolne s" if "m < n" for m
        using not_less_Least [of m "\<lambda>n. n < st \<and> n \<in> wolne s"] that n(1) by (auto simp: n_def)
      have "ZaalokujRamke s = (n * ROZMIAR_STRONY, zajmij_ramke lim s0 n)"
        unfolding B by (rule przebieg_jest) (use n mn poz w0 in auto)
      moreover have "odleglosc lim st n \<le> odleglosc lim st m" if "m \<in> W" for m
      proof -
        have "m < st" using that False by (force simp: W_def lim_def)
        moreover have "n \<le> m" using that mn [of m] unfolding W_def by (meson IntD1 not_less)
        ultimately show ?thesis using n st by (simp add: odleglosc_def)
      qed
      ultimately show ?thesis
        using n st unfolding pierwsza_cyklicznie_def W_def lim_def [symmetric] st_def [symmetric] s0_def [symmetric]
        by auto
    next
      case F2: False
      have "ZaalokujRamke s = (0, s0)"
        unfolding B by (rule przebieg_brak) (use F2 w0 in auto)
      moreover have "W = {}"
      proof -
        have "\<not> n < lim" if "n \<in> wolne s" for n
          using False F2 that by (meson not_less)
        then show ?thesis by (auto simp: W_def lim_def)
      qed
      ultimately show ?thesis using lim by (simp add: s0_def st_def)
    qed
  qed
qed

subsection \<open>Release of one frame\<close>

lemma adres_na_numer_val:
  "adres_na_numer_ramki a = (if a < MAKS_ADRES_FIZYCZNY_PMM then Some (a div ROZMIAR_STRONY) else None)"
  by (auto simp: adres_na_numer_ramki_def numer_ramki_poprawny_def Let_def)

lemma dostepne_adres: "n \<in> dostepne s \<Longrightarrow> n * ROZMIAR_STRONY < MAKS_ADRES_FIZYCZNY_PMM"
  using ramka_dostepna_MAX [of s n] by (simp add: dostepne_def)

lemma zwolnij_przypadki:
  assumes s: "pmm_niezmiennik s" "pm_gotowy s"
  shows "(\<exists>n \<in> dostepne s - wolne s. a = n * ROZMIAR_STRONY \<and>
       ZwolnijRamke s a = (ustaw_ramke_wolna s n)\<lparr>pm_ostatnia := min n (pm_ostatnia s)\<rparr>) \<or>
     ((\<forall>n \<in> dostepne s - wolne s. a \<noteq> n * ROZMIAR_STRONY) \<and> ZwolnijRamke s a = s)"
proof (cases "\<exists>n \<in> dostepne s - wolne s. a = n * ROZMIAR_STRONY")
  case True
  then obtain n where n: "n \<in> dostepne s" "n \<notin> wolne s" "a = n * ROZMIAR_STRONY" by blast
  then have "n \<noteq> 0" using niezmiennik_0 [OF s(1)] by (metis dostepne_def mem_Collect_eq)
  moreover have "a < MAKS_ADRES_FIZYCZNY_PMM" using dostepne_adres [OF n(1)] n(3) by simp
  ultimately have "ZwolnijRamke s a = (ustaw_ramke_wolna s n)\<lparr>pm_ostatnia := min n (pm_ostatnia s)\<rparr>"
    using n s by (auto simp: ZwolnijRamke_def adres_na_numer_val dostepne_def wolne_def Let_def min_def)
  then show ?thesis using n by blast
next
  case False
  have "ZwolnijRamke s a = s"
  proof (rule ccontr)
    assume "ZwolnijRamke s a \<noteq> s"
    then have "a mod ROZMIAR_STRONY = 0" "ramka_dostepna s (a div ROZMIAR_STRONY)"
      "\<not> ramka_wolna s (a div ROZMIAR_STRONY)"
      by (auto simp: ZwolnijRamke_def adres_na_numer_val Let_def split: if_splits)
    moreover from this(1) have "a = a div ROZMIAR_STRONY * ROZMIAR_STRONY" by auto
    ultimately show False using False by (auto simp: dostepne_def wolne_def)
  qed
  then show ?thesis using False by blast
qed

lemma wolne_ustaw [simp]:
  "wolne (ustaw_ramke_wolna s n) = wolne s \<union> (if n \<in> dostepne s then {n} else {})"
  "dostepne (ustaw_ramke_wolna s n) = dostepne s"
  by (auto simp: wolne_def dostepne_def)

lemma niezmiennik_wolna [simp]: "pmm_niezmiennik s \<Longrightarrow> pmm_niezmiennik (ustaw_ramke_wolna s n)"
  by (auto simp: pmm_niezmiennik_def)

lemma wolne_dostepne: "wolne s \<subseteq> dostepne s"
  by (auto simp: wolne_def dostepne_def)

subsection \<open>Runs of frames\<close>

lemma pierwsza_zajeta_spec:
  "(\<exists>j. pierwsza_zajeta s start k i = Some j \<and> i \<le> j \<and> j < k \<and> start + j \<notin> wolne s) \<or>
   (pierwsza_zajeta s start k i = None \<and> (\<forall>j. i \<le> j \<and> j < k \<longrightarrow> start + j \<in> wolne s))"
proof (induction s start k i rule: pierwsza_zajeta.induct)
  case (1 s start k i)
  show ?case
  proof (cases "i < k \<and> start + i \<in> wolne s")
    case True
    then have eq: "pierwsza_zajeta s start k i = pierwsza_zajeta s start k (i + 1)"
      by (simp add: pierwsza_zajeta.simps [of s start k i] wolne_def)
    have "(\<exists>j. pierwsza_zajeta s start k (i + 1) = Some j \<and> i + 1 \<le> j \<and> j < k \<and> start + j \<notin> wolne s) \<or>
      (pierwsza_zajeta s start k (i + 1) = None \<and> (\<forall>j. i + 1 \<le> j \<and> j < k \<longrightarrow> start + j \<in> wolne s))"
      using True by (intro 1) (auto simp: wolne_def)
    then show ?thesis
      using True unfolding eq by (metis Suc_eq_plus1 Suc_leD Suc_leI le_neq_implies_less)
  next
    case False
    then show ?thesis by (auto simp: pierwsza_zajeta.simps [of s start k i] wolne_def)
  qed
qed

definition ciag_wolny :: "pmm \<Rightarrow> nat \<Rightarrow> nat \<Rightarrow> bool" where
  "ciag_wolny s n k \<longleftrightarrow> {n ..< n + k} \<subseteq> wolne s"

definition zajmij_ciag :: "nat \<Rightarrow> pmm \<Rightarrow> nat \<Rightarrow> nat \<Rightarrow> pmm" where
  "zajmij_ciag limit s n k =
     (foldl ustaw_ramke_zajeta s [n ..< n + k])\<lparr>pm_ostatnia := if n + k \<ge> limit then 0 else n + k\<rparr>"

lemma zajmij_ciag_pola [simp]:
  "wolne (zajmij_ciag limit s n k) = wolne s - {n ..< n + k}"
  "dostepne (zajmij_ciag limit s n k) = dostepne s"
  "pm_gotowy (zajmij_ciag limit s n k) = pm_gotowy s"
  "pm_najwyzsza (zajmij_ciag limit s n k) = pm_najwyzsza s"
  "pmm_niezmiennik s \<Longrightarrow> pmm_niezmiennik (zajmij_ciag limit s n k)"
  by (auto simp: zajmij_ciag_def wolne_def dostepne_def foldl_zajeta pmm_niezmiennik_def)

lemma szukaj_ciagu_spec:
  assumes k: "0 < k" "k \<le> limit"
  shows "(\<exists>n. start \<le> n \<and> n + k \<le> limit \<and> ciag_wolny s n k \<and>
       (\<forall>m. start \<le> m \<and> ciag_wolny s m k \<longrightarrow> n \<le> m) \<and>
       szukaj_ciagu s limit k start = (n * ROZMIAR_STRONY, zajmij_ciag limit s n k)) \<or>
     ((\<forall>m. start \<le> m \<and> m + k \<le> limit \<longrightarrow> \<not> ciag_wolny s m k) \<and> szukaj_ciagu s limit k start = (0, s))"
proof (induction "limit + 1 - start" arbitrary: start rule: less_induct)
  case less
  show ?case
  proof (cases "start \<le> limit - k")
    case False
    then show ?thesis using k by (auto simp: szukaj_ciagu.simps [of s limit k start])
  next
    case st: True
    consider (jest) "pierwsza_zajeta s start k 0 = None" "ciag_wolny s start k"
      | (brak) i where "pierwsza_zajeta s start k 0 = Some i" "i < k" "start + i \<notin> wolne s"
    proof (cases "pierwsza_zajeta s start k 0")
      case None
      then have "\<forall>j < k. start + j \<in> wolne s"
        using pierwsza_zajeta_spec [of s start k 0] by auto
      then have "ciag_wolny s start k"
        unfolding ciag_wolny_def by (metis atLeastLessThan_iff le_add_diff_inverse nat_add_left_cancel_less subsetI)
      with None show ?thesis by (rule that(1))
    next
      case (Some i)
      then show ?thesis using pierwsza_zajeta_spec [of s start k 0] that(2) by auto
    qed
    then show ?thesis
    proof cases
      case jest
      then have "szukaj_ciagu s limit k start = (start * ROZMIAR_STRONY, zajmij_ciag limit s start k)"
        using st by (simp add: szukaj_ciagu.simps [of s limit k start] zajmij_ciag_def dla_ramek_def Let_def)
      then show ?thesis using jest st k by auto
    next
      case brak
      have eq: "szukaj_ciagu s limit k start = szukaj_ciagu s limit k (start + i + 1)"
        using brak st by (simp add: szukaj_ciagu.simps [of s limit k start])
      have pom: "start + i + 1 \<le> m" if "start \<le> m" "ciag_wolny s m k" for m
      proof (rule ccontr)
        assume "\<not> start + i + 1 \<le> m"
        then have "start + i \<in> {m ..< m + k}" using that(1) brak(2) by auto
        then show False using that(2) brak(3) by (auto simp: ciag_wolny_def)
      qed
      have "limit + 1 - (start + i + 1) < limit + 1 - start" using st k by linarith
      from less [OF this] show ?thesis
      proof (elim disjE exE conjE)
        fix n
        assume n: "start + i + 1 \<le> n" "n + k \<le> limit" "ciag_wolny s n k"
          "\<forall>m. start + i + 1 \<le> m \<and> ciag_wolny s m k \<longrightarrow> n \<le> m"
          "szukaj_ciagu s limit k (start + i + 1) = (n * ROZMIAR_STRONY, zajmij_ciag limit s n k)"
        have "n \<le> m" if "start \<le> m" "ciag_wolny s m k" for m
          using n(4) pom [OF that] that(2) by blast
        moreover have "start \<le> n" using n(1) by linarith
        ultimately show ?thesis unfolding eq using n(2,3,5) by blast
      next
        assume n: "\<forall>m. start + i + 1 \<le> m \<and> m + k \<le> limit \<longrightarrow> \<not> ciag_wolny s m k"
          "szukaj_ciagu s limit k (start + i + 1) = (0, s)"
        then show ?thesis unfolding eq using pom by blast
      qed
    qed
  qed
qed

lemma ciagle_przypadki:
  assumes s: "pmm_niezmiennik s" "pm_gotowy s" and k: "0 < k"
  defines "lim \<equiv> limit_alokacji s"
  shows "(\<exists>n. 256 \<le> n \<and> n + k \<le> lim \<and> ciag_wolny s n k \<and> (\<forall>m. ciag_wolny s m k \<longrightarrow> n \<le> m) \<and>
       ZaalokujCiagleRamki s k = (n * ROZMIAR_STRONY, zajmij_ciag lim s n k)) \<or>
     ((\<forall>m. m + k \<le> lim \<longrightarrow> \<not> ciag_wolny s m k) \<and> ZaalokujCiagleRamki s k = (0, s))"
proof -
  have lim: "lim = (if pm_najwyzsza s > MAX_RAMEK_ALOKOWALNYCH then MAX_RAMEK_ALOKOWALNYCH else pm_najwyzsza s)"
    by (simp add: lim_def limit_alokacji_def)
  have L: "lim \<le> MAX_RAMEK_ALOKOWALNYCH" by (simp add: lim)
  have eq0: "ZaalokujCiagleRamki s k = (if k > lim then (0, s) else szukaj_ciagu s lim k 256)"
    using L s k unfolding ZaalokujCiagleRamki_def lim [symmetric] Let_def by simp
  show ?thesis
  proof (cases "k \<le> lim")
    case False
    then show ?thesis by (auto simp: eq0)
  next
    case True
    then have eq: "ZaalokujCiagleRamki s k = szukaj_ciagu s lim k 256" by (simp add: eq0)
    have "256 \<le> m" if "ciag_wolny s m k" for m
    proof -
      have "m \<in> wolne s" using that k by (auto simp: ciag_wolny_def)
      then show ?thesis by (rule wolne_dodatnie [OF s(1)])
    qed
    then show ?thesis
      using szukaj_ciagu_spec [OF k True, of 256 s] unfolding eq by blast
  qed
qed

lemma zwolnij_ciagle_przypadki:
  assumes s: "pmm_niezmiennik s" "pm_gotowy s"
  shows "ZwolnijCiagleRamki s a k =
    (let n = a div ROZMIAR_STRONY in
     if 0 < k \<and> a mod ROZMIAR_STRONY = 0 \<and> n + k \<le> MAX_RAMEK_ALOKOWALNYCH \<and> {n ..< n + k} \<subseteq> dostepne s - wolne s
     then (foldl ustaw_ramke_wolna s [n ..< n + k])\<lparr>pm_ostatnia := min n (pm_ostatnia s)\<rparr>
     else s)"
proof -
  define n where "n = a div ROZMIAR_STRONY"
  have zb: "(\<exists>i \<in> set [0 ..< k]. \<not> ramka_dostepna s (n + i) \<or> ramka_wolna s (n + i)) \<longleftrightarrow>
      \<not> {n ..< n + k} \<subseteq> dostepne s - wolne s"
  proof -
    have "{n ..< n + k} \<subseteq> dostepne s - wolne s \<longleftrightarrow> (\<forall>i < k. n + i \<in> dostepne s - wolne s)"
      by (rule przedzial_podzbior)
    then show ?thesis by (auto simp: dostepne_def wolne_def)
  qed
  have a0: "\<not> {n ..< n + k} \<subseteq> dostepne s - wolne s" if "a = 0" "0 < k"
  proof -
    have "n \<notin> dostepne s" using niezmiennik_0 [OF s(1)] that by (simp add: n_def dostepne_def)
    moreover have "n \<in> {n ..< n + k}" using that by simp
    ultimately show ?thesis by blast
  qed
  have nk: "0 < k \<Longrightarrow> (n \<ge> MAX_RAMEK_ALOKOWALNYCH \<or> k > MAX_RAMEK_ALOKOWALNYCH - n) \<longleftrightarrow> \<not> n + k \<le> MAX_RAMEK_ALOKOWALNYCH"
    by linarith
  show ?thesis
  proof (cases "0 < k \<and> a mod ROZMIAR_STRONY = 0 \<and> n + k \<le> MAX_RAMEK_ALOKOWALNYCH \<and> a \<noteq> 0")
    case True
    then have "ZwolnijCiagleRamki s a k =
      (if \<not> {n ..< n + k} \<subseteq> dostepne s - wolne s then s
       else let s1 = dla_ramek ustaw_ramke_wolna n (n + k) s
            in if n < pm_ostatnia s1 then s1\<lparr>pm_ostatnia := n\<rparr> else s1)"
      using s nk unfolding ZwolnijCiagleRamki_def Let_def n_def [symmetric] zb by auto
    then show ?thesis
      using True by (simp add: Let_def n_def [symmetric] dla_ramek_def foldl_wolna min_def)
  next
    case False
    then have "ZwolnijCiagleRamki s a k = s"
      using nk unfolding ZwolnijCiagleRamki_def Let_def n_def [symmetric] by auto
    moreover have brak: "\<not> (0 < k \<and> a mod ROZMIAR_STRONY = 0 \<and> n + k \<le> MAX_RAMEK_ALOKOWALNYCH \<and>
        {n ..< n + k} \<subseteq> dostepne s - wolne s)"
      using False a0 by auto
    ultimately show ?thesis
      unfolding Let_def n_def [symmetric] if_not_P [OF brak] by simp
  qed
qed

subsection \<open>Initialisation\<close>

text \<open>
  The tags a successful walk visits, as a list: the walk itself with a callback that collects. A
  walk that reports success ran its callback on exactly those tags.
\<close>

definition lista_tagow :: "pamiec_fiz \<Rightarrow> nat \<Rightarrow> nat \<Rightarrow> nat list" where
  "lista_tagow m koniec a = snd (przejdz_po_tagach m koniec (\<lambda>t ts. (True, ts @ [t])) a [])"

fun po_tagach :: "(nat \<Rightarrow> 's \<Rightarrow> bool \<times> 's) \<Rightarrow> nat list \<Rightarrow> 's \<Rightarrow> bool \<times> 's" where
  "po_tagach f [] s = (True, s)"
| "po_tagach f (t # ts) s = (case f t s of (False, s') \<Rightarrow> (False, s') | (True, s') \<Rightarrow> po_tagach f ts s')"

lemma przejdz_zbiera:
  "przejdz_po_tagach m koniec f a s = (True, s') \<Longrightarrow>
   \<exists>ts. (\<forall>acc. przejdz_po_tagach m koniec (\<lambda>t ts. (True, ts @ [t])) a acc = (True, acc @ ts)) \<and>
        po_tagach f ts s = (True, s')"
proof (induction m koniec f a s rule: przejdz_po_tagach.induct)
  case (1 m koniec f a s)
  define r where "r = czytaj32 m (a + 4)"
  from 1(2) have g: "a < koniec" "\<not> koniec - a < 8" "\<not> r < 8"
    unfolding przejdz_po_tagach.simps [of m koniec f a s] r_def by (auto simp: Let_def split: if_splits)
  from 1(2) g obtain k where k: "pmm_dodaj_u64 a r = Some k" "\<not> k > koniec"
    unfolding przejdz_po_tagach.simps [of m koniec f a s] r_def by (auto simp: Let_def split: if_splits option.splits)
  show ?case
  proof (cases "czytaj32 m a = 0")
    case True
    then show ?thesis
      using 1(2) g k
      by (intro exI [of _ "[]"])
        (auto simp: przejdz_po_tagach.simps [of m koniec _ a] r_def [symmetric] Let_def)
  next
    case nz: False
    from 1(2) g k nz obtain s1 where s1: "f a s = (True, s1)"
      by (auto simp: przejdz_po_tagach.simps [of m koniec f a s] r_def [symmetric] Let_def split: prod.splits bool.splits)
    from 1(2) g k nz s1 obtain d where d: "wyrownaj_w_gore_do_8 r = Some d" "\<not> (d = 0 \<or> d > koniec - a)"
      by (auto simp: przejdz_po_tagach.simps [of m koniec f a s] r_def [symmetric] Let_def split: option.splits if_splits)
    have step: "przejdz_po_tagach m koniec f a s = przejdz_po_tagach m koniec f (a + d) s1"
      using g k nz s1 d by (simp add: przejdz_po_tagach.simps [of m koniec f a s] r_def [symmetric] Let_def)
    have step2: "przejdz_po_tagach m koniec (\<lambda>t ts. (True, ts @ [t])) a acc =
        przejdz_po_tagach m koniec (\<lambda>t ts. (True, ts @ [t])) (a + d) (acc @ [a])" for acc
      using g k nz d
      by (simp add: przejdz_po_tagach.simps [of m koniec _ a acc] r_def [symmetric] Let_def)
    have "\<exists>ts. (\<forall>acc. przejdz_po_tagach m koniec (\<lambda>t ts. (True, ts @ [t])) (a + d) acc = (True, acc @ ts)) \<and>
        po_tagach f ts s1 = (True, s')"
      by (rule 1(1) [OF _ _ refl refl _ k(1) [unfolded r_def] _ _ s1 [symmetric] refl d [unfolded r_def]]) (use g k nz 1(2) step r_def s1 in auto)
    then obtain ts where ts: "\<And>acc. przejdz_po_tagach m koniec (\<lambda>t ts. (True, ts @ [t])) (a + d) acc = (True, acc @ ts)"
      "po_tagach f ts s1 = (True, s')" by blast
    then show ?thesis
      by (intro exI [of _ "a # ts"]) (simp add: step2 s1)
  qed
qed

lemma przejdz_lista:
  "przejdz_po_tagach m koniec f a s = (True, s') \<Longrightarrow> po_tagach f (lista_tagow m koniec a) s = (True, s')"
  using przejdz_zbiera [of m koniec f a s s'] by (auto simp: lista_tagow_def)

text \<open>What the code derives from the memory map, and what it takes back.\<close>

definition ramki_ram :: "pamiec_fiz \<Rightarrow> nat list \<Rightarrow> nat set" where
  "ramki_ram m ts = {n. \<exists>t \<in> set ts. czytaj32 m t = 6 \<and> (\<exists>w \<in> set (wpisy_mapy m t).
     mp_typ_obszaru w = 1 \<and> ramka_ram n (mp_adres_bazowy w) (mp_dlugosc w))}"

definition zakres_tagu :: "pamiec_fiz \<Rightarrow> nat \<Rightarrow> (nat \<times> nat) list" where
  "zakres_tagu m t =
     (if czytaj32 m t = 3 \<and> 16 \<le> czytaj32 m (t + 4) \<and> czytaj32 m (t + 8) < czytaj32 m (t + 12)
      then [(czytaj32 m (t + 8), czytaj32 m (t + 12) - czytaj32 m (t + 8))]
      else if czytaj32 m t = 8 \<and> 32 \<le> czytaj32 m (t + 4) \<and> czytaj64 m (t + 8) \<noteq> 0
      then [(czytaj64 m (t + 8), czytaj32 m (t + 16) * czytaj32 m (t + 24))]
      else [])"

lemma czytaj32_less: "czytaj32 m a < 4294967296"
  using unat_u8_less [of "m a"] unat_u8_less [of "m (a + 1)"] unat_u8_less [of "m (a + 2)"]
    unat_u8_less [of "m (a + 3)"] unfolding czytaj32_def by linarith

text \<open>The framebuffer's overflow guard never fires: the factors are 32-bit.\<close>

lemma iloczyn_framebuffera: "0 < czytaj32 m a \<Longrightarrow> czytaj32 m b \<le> (2 ^ 64 - 1) div czytaj32 m a"
proof -
  assume "0 < czytaj32 m a"
  moreover have "czytaj32 m b * czytaj32 m a \<le> 4294967295 * 4294967295"
    using czytaj32_less [of m a] czytaj32_less [of m b] by (intro mult_le_mono) auto
  ultimately show ?thesis by (simp add: less_eq_div_iff_mult_less_eq)
qed

lemma tag_rezerwacji_ramki:
  "ramka_dostepna (snd (tag_rezerwacji m t s)) n \<longleftrightarrow>
     ramka_dostepna s n \<and> (\<forall>(p, d) \<in> set (zakres_tagu m t). \<not> ramka_przecina n p d)"
  "ramka_wolna (snd (tag_rezerwacji m t s)) n \<longleftrightarrow>
     ramka_wolna s n \<and> (\<forall>(p, d) \<in> set (zakres_tagu m t). \<not> ramka_przecina n p d)"
  "pm_najwyzsza (snd (tag_rezerwacji m t s)) = pm_najwyzsza s"
  using iloczyn_framebuffera [of m "t + 16" "t + 24"]
  by (auto simp: tag_rezerwacji_def zarezerwuj_modul_def zarezerwuj_framebuffer_def zakres_tagu_def Let_def
      ramka_przecina_def [of n "czytaj64 m (t + 8)" 0])

lemma po_tagach_rezerwacji:
  "po_tagach (tag_rezerwacji m) ts s = (True, s') \<Longrightarrow>
     (ramka_dostepna s' n \<longleftrightarrow> ramka_dostepna s n \<and>
        (\<forall>t \<in> set ts. \<forall>(p, d) \<in> set (zakres_tagu m t). \<not> ramka_przecina n p d)) \<and>
     (ramka_wolna s' n \<longleftrightarrow> ramka_wolna s n \<and>
        (\<forall>t \<in> set ts. \<forall>(p, d) \<in> set (zakres_tagu m t). \<not> ramka_przecina n p d)) \<and>
     pm_najwyzsza s' = pm_najwyzsza s"
proof (induction ts arbitrary: s)
  case Nil
  then show ?case by simp
next
  case (Cons t ts)
  obtain s1 where s1: "tag_rezerwacji m t s = (True, s1)"
    by (simp add: tag_rezerwacji_def)
  then have "po_tagach (tag_rezerwacji m) ts (snd (tag_rezerwacji m t s)) = (True, s')"
    using Cons.prems by simp
  from Cons.IH [OF this] show ?case
    by (auto simp: tag_rezerwacji_ramki)
qed

lemma foldl_wpisy:
  "ramka_dostepna (foldl dodaj_wpis_mapy s ws) n \<longleftrightarrow> ramka_dostepna s n \<or>
     (\<exists>w \<in> set ws. mp_typ_obszaru w = 1 \<and> ramka_ram n (mp_adres_bazowy w) (mp_dlugosc w))"
  "ramka_wolna (foldl dodaj_wpis_mapy s ws) n \<longleftrightarrow> ramka_wolna s n \<or>
     (\<exists>w \<in> set ws. mp_typ_obszaru w = 1 \<and> ramka_ram n (mp_adres_bazowy w) (mp_dlugosc w))"
  "\<forall>k. ramka_dostepna s k \<longrightarrow> k < pm_najwyzsza s \<Longrightarrow>
     ramka_dostepna (foldl dodaj_wpis_mapy s ws) n \<longrightarrow> n < pm_najwyzsza (foldl dodaj_wpis_mapy s ws)"
  by (induction ws arbitrary: s) (auto simp: dodaj_wpis_mapy_def dodaj_zakres_najwyzsza)

lemma po_tagach_mapy:
  "po_tagach (tag_mapy m) ts (z, p, s) = (True, z', p', s') \<Longrightarrow>
     (ramka_dostepna s' n \<longleftrightarrow> ramka_dostepna s n \<or> n \<in> ramki_ram m ts) \<and>
     (ramka_wolna s' n \<longleftrightarrow> ramka_wolna s n \<or> n \<in> ramki_ram m ts) \<and>
     ((\<forall>k. ramka_dostepna s k \<longrightarrow> k < pm_najwyzsza s) \<longrightarrow> (\<forall>k. ramka_dostepna s' k \<longrightarrow> k < pm_najwyzsza s'))"
proof (induction ts arbitrary: z p s)
  case Nil
  then show ?case by (simp add: ramki_ram_def)
next
  case (Cons t ts)
  show ?case
  proof (cases "czytaj32 m t = 6")
    case True
    with Cons.prems have "\<not> z" by (auto simp: tag_mapy_def)
    obtain ok s1 where s1: "przetworz_mape_pamieci m t s = (ok, s1)" by fastforce
    with Cons.prems True \<open>\<not> z\<close> have ok: ok by (cases ok) (auto simp: tag_mapy_def)
    have fold: "s1 = foldl dodaj_wpis_mapy s (wpisy_mapy m t)"
      using s1 ok by (auto simp: przetworz_mape_pamieci_def Let_def split: if_splits)
    have "tag_mapy m t (z, p, s) = (True, True, p, s1)"
      using True \<open>\<not> z\<close> s1 ok by (simp add: tag_mapy_def)
    with Cons.prems have "po_tagach (tag_mapy m) ts (True, p, s1) = (True, z', p', s')" by simp
    from Cons.IH [OF this] show ?thesis
      using True foldl_wpisy(3) [of s "wpisy_mapy m t"] by (auto simp: fold foldl_wpisy(1,2) ramki_ram_def)
  next
    case False
    then have "tag_mapy m t (z, p, s) = (True, z, p, s)" by (simp add: tag_mapy_def)
    with Cons.prems have "po_tagach (tag_mapy m) ts (z, p, s) = (True, z', p', s')" by simp
    from Cons.IH [OF this] show ?thesis
      using False by (auto simp: ramki_ram_def)
  qed
qed

text \<open>The ranges \<open>InicjalizujPMM\<close> reserves for good.\<close>

definition rezerwacje_stale :: "pamiec_fiz \<Rightarrow> nat \<Rightarrow> nat \<Rightarrow> nat \<Rightarrow> nat list \<Rightarrow> (nat \<times> nat) list" where
  "rezerwacje_stale m jadro_start jadro_koniec adres_info ts =
     [(0, GRANICA_NISKIEJ_PAMIECI), (jadro_start, jadro_koniec - jadro_start),
      (adres_info, czytaj32 m adres_info), (LAPIC_MMIO, ROZMIAR_STRONY), (IOAPIC_MMIO, ROZMIAR_STRONY)]
     @ concat (map (zakres_tagu m) ts)"

lemma wyzeruj_ramki [simp]:
  "\<not> ramka_dostepna (wyzeruj_stan_pmm s) n" "\<not> ramka_wolna (wyzeruj_stan_pmm s) n"
  "\<not> pm_gotowy (wyzeruj_stan_pmm s)" "pm_najwyzsza (wyzeruj_stan_pmm s) = 0"
  by (simp_all add: wyzeruj_stan_pmm_def ramka_dostepna_def ramka_wolna_def bit_ustawiony_bit)

lemma zakres_multiboot_val:
  "pobierz_zakres_multiboot m a = Some (p, k) \<Longrightarrow> p = a \<and> k = a + czytaj32 m a"
  by (auto simp: pobierz_zakres_multiboot_def pmm_dodaj_u64_def Let_def split: if_splits)

lemma inicjalizuj_gotowy:
  assumes g: "pm_gotowy (InicjalizujPMM m js jk info s)"
  defines "s' \<equiv> InicjalizujPMM m js jk info s" and "ts \<equiv> lista_tagow m (info + czytaj32 m info) (info + 8)"
  shows "(\<forall>n. ramka_wolna s' n = ramka_dostepna s' n) \<and>
     (\<forall>n. ramka_dostepna s' n \<longleftrightarrow> n \<in> ramki_ram m ts \<and>
        (\<forall>(p, d) \<in> set (rezerwacje_stale m js jk info ts). \<not> ramka_przecina n p d)) \<and>
     (\<forall>n. ramka_dostepna s' n \<longrightarrow> n < pm_najwyzsza s') \<and> pm_ostatnia s' = 256"
proof -
  let ?s0 = "wyzeruj_stan_pmm s"
  obtain p k where pk: "pobierz_zakres_multiboot m info = Some (p, k)"
    using g by (auto simp: InicjalizujPMM_def Let_def split: option.splits)
  from zakres_multiboot_val [OF pk] have p: "p = info" and k: "k = info + czytaj32 m info" by auto
  obtain ok zn po s1 where w1: "przejdz_po_tagach m k (tag_mapy m) (p + 8) (False, True, ?s0) = (ok, zn, po, s1)"
    by (metis prod.exhaust)
  define s2 where "s2 = zarezerwuj_zakres_na_stale s1 0 GRANICA_NISKIEJ_PAMIECI"
  define s3 where "s3 = zarezerwuj_zakres_na_stale s2 js (jk - js)"
  define s4 where "s4 = zarezerwuj_zakres_na_stale s3 p (k - p)"
  obtain ok2 s5 where w2: "przejdz_po_tagach m k (tag_rezerwacji m) (p + 8) s4 = (ok2, s5)"
    by (metis prod.exhaust)
  have I: "InicjalizujPMM m js jk info s =
    (if \<not> ok \<or> \<not> zn \<or> \<not> po \<or> pm_najwyzsza s1 = 0 then wyzeruj_stan_pmm s1
     else if jk \<le> js then wyzeruj_stan_pmm s2
     else if \<not> ok2 then wyzeruj_stan_pmm s5
     else (zarezerwuj_zakres_na_stale (zarezerwuj_zakres_na_stale s5 LAPIC_MMIO ROZMIAR_STRONY) IOAPIC_MMIO ROZMIAR_STRONY)
       \<lparr>pm_ostatnia := 256, pm_gotowy := True\<rparr>)"
    unfolding InicjalizujPMM_def Let_def pk option.case prod.case w1 s2_def [symmetric] s3_def [symmetric]
      s4_def [symmetric] w2 by simp
  have ok: ok ok2
    and s': "s' = (zarezerwuj_zakres_na_stale (zarezerwuj_zakres_na_stale s5 LAPIC_MMIO ROZMIAR_STRONY) IOAPIC_MMIO ROZMIAR_STRONY)
       \<lparr>pm_ostatnia := 256, pm_gotowy := True\<rparr>"
    using g unfolding s'_def I by (auto split: if_splits)
  have ts: "ts = lista_tagow m k (p + 8)" by (simp add: ts_def p k)
  have 1: "po_tagach (tag_mapy m) ts (False, True, ?s0) = (True, zn, po, s1)"
    unfolding ts by (rule przejdz_lista) (use w1 ok in simp)
  have 2: "po_tagach (tag_rezerwacji m) ts s4 = (True, s5)"
    unfolding ts by (rule przejdz_lista) (use w2 ok in simp)
  note r1 = po_tagach_mapy [OF 1] and r2 = po_tagach_rezerwacji [OF 2]
  have D1: "ramka_dostepna s1 n = (n \<in> ramki_ram m ts)" "ramka_wolna s1 n = (n \<in> ramki_ram m ts)" for n
    using r1 [of n] by simp_all
  have N1: "ramka_dostepna s1 n \<Longrightarrow> n < pm_najwyzsza s1" for n
    using r1 [of n] by simp
  have D: "ramka_dostepna s' n \<longleftrightarrow> n \<in> ramki_ram m ts \<and>
        (\<forall>(p, d) \<in> set (rezerwacje_stale m js jk info ts). \<not> ramka_przecina n p d)"
    "ramka_wolna s' n \<longleftrightarrow> n \<in> ramki_ram m ts \<and>
        (\<forall>(p, d) \<in> set (rezerwacje_stale m js jk info ts). \<not> ramka_przecina n p d)" for n
    using r2 [of n] by (auto simp: s' s4_def s3_def s2_def D1 rezerwacje_stale_def p k)
  have "pm_najwyzsza s' = pm_najwyzsza s1"
    using r2 [of 0] by (simp add: s' s4_def s3_def s2_def)
  then have "ramka_dostepna s' n \<Longrightarrow> n < pm_najwyzsza s'" for n
    using N1 [of n] D(1) [of n] D1(1) [of n] by simp
  with D show ?thesis by (simp add: s')
qed

subsection \<open>The frame allocator as a pool\<close>

definition pmm_sprawny :: "pmm \<Rightarrow> bool" where
  "pmm_sprawny s \<longleftrightarrow> pmm_niezmiennik s \<and> pm_gotowy s"

definition adresy :: "nat set \<Rightarrow> nat set" where
  "adresy W = (\<lambda>n. n * ROZMIAR_STRONY) ` W"

lemma adresy_roznica: "adresy (W - {n}) = adresy W - {n * ROZMIAR_STRONY}"
  by (auto simp: adresy_def)

lemma adresy_iff: "n * ROZMIAR_STRONY \<in> adresy W \<longleftrightarrow> n \<in> W"
  by (auto simp: adresy_def)

lemma zero_adresy: "pmm_niezmiennik s \<Longrightarrow> 0 \<notin> adresy (dostepne s)"
  by (auto simp: adresy_def dostepne_def niezmiennik_0)

interpretation pmm_pula: pula ZaalokujRamke ZwolnijRamke pmm_sprawny "\<lambda>s. adresy (wolne s)" "\<lambda>s. adresy (dostepne s)"
proof
  fix s assume "pmm_sprawny s"
  show "adresy (wolne s) \<subseteq> adresy (dostepne s)"
    unfolding adresy_def by (rule image_mono) (rule wolne_dostepne)
next
  fix s a s'
  assume s: "pmm_sprawny s" and z: "ZaalokujRamke s = (a, s')"
  then have sp: "pmm_niezmiennik s" "pm_gotowy s" by (simp_all add: pmm_sprawny_def)
  have z0: "0 \<notin> adresy (wolne s)"
    using zero_adresy [OF sp(1)] wolne_dostepne [of s] by (auto simp: adresy_def)
  show "pmm_sprawny s' \<and> adresy (dostepne s') = adresy (dostepne s) \<and>
      adresy (wolne s') = adresy (wolne s) - {a} \<and> (a = 0 \<or> a \<in> adresy (wolne s))"
    using zaalokuj_przypadki [OF sp] z z0 sp
    by (auto simp: pmm_sprawny_def pierwsza_cyklicznie_def adresy_roznica adresy_iff)
next
  fix s a
  assume s: "pmm_sprawny s"
  then have sp: "pmm_niezmiennik s" "pm_gotowy s" by (simp_all add: pmm_sprawny_def)
  show "pmm_sprawny (ZwolnijRamke s a) \<and> adresy (dostepne (ZwolnijRamke s a)) = adresy (dostepne s) \<and>
      adresy (wolne (ZwolnijRamke s a)) = adresy (wolne s) \<union> ({a} \<inter> adresy (dostepne s))"
    using zwolnij_przypadki [OF sp, of a] s
    by (auto simp: pmm_sprawny_def adresy_def)
qed

end
