(* ===== verification/Pmm_Twierdzenia.thy ===== *)
theory Pmm_Twierdzenia
  imports Pmm_Wlasnosci
begin

section \<open>The theorems on the physical frame allocator\<close>

text \<open>
  Properties C6 to C11: next-fit allocation, release, contiguous runs, initialisation from the
  Multiboot2 map, and the roll-back of several allocations. The witnesses run on a pool of the four
  frames at 1 MiB, and the initialisation on a small Multiboot2 structure.
\<close>

definition pmm_przyklad :: pmm where
  "pmm_przyklad = (dodaj_dostepny_zakres
     \<lparr>pm_bitowa = (\<lambda>_. 0), pm_dostepnosci = (\<lambda>_. 0), pm_najwyzsza = 0, pm_ostatnia = 0, pm_gotowy = False\<rparr>
     0x100000 0x4000)\<lparr>pm_ostatnia := 257, pm_gotowy := True\<rparr>"

lemma ramka_ram_przyklad: "ramka_ram n 0x100000 0x4000 \<longleftrightarrow> n \<in> {256 ..< 260}"
  by (auto simp: ramka_ram_def ramka_w_zakresie_def)

lemma zerowe_mapy:
  "\<not> bit_ustawiony (\<lambda>_. 0) n"
  by (simp add: bit_ustawiony_bit)

lemma pmm_przyklad_zbiory:
  "ramka_dostepna pmm_przyklad n \<longleftrightarrow> n \<in> {256 ..< 260}" "ramka_wolna pmm_przyklad n \<longleftrightarrow> n \<in> {256 ..< 260}"
  unfolding pmm_przyklad_def ramka_pola dodaj_zakres_ramki ramka_ram_przyklad
  by (simp_all add: ramka_dostepna_def ramka_wolna_def zerowe_mapy)

lemma pmm_przyklad_sprawny:
  "pmm_niezmiennik pmm_przyklad" "pm_gotowy pmm_przyklad"
  "wolne pmm_przyklad = {256 ..< 260}" "dostepne pmm_przyklad = {256 ..< 260}" "pm_ostatnia pmm_przyklad = 257"
  by (auto simp: pmm_niezmiennik_def pmm_przyklad_zbiory wolne_def dostepne_def) (simp_all add: pmm_przyklad_def)

lemma pmm_przyklad_limit: "limit_alokacji pmm_przyklad = 260"
proof -
  have "pm_najwyzsza pmm_przyklad = 260"
    by (simp add: pmm_przyklad_def dodaj_dostepny_zakres_def koniec_zakresu_def wyrownaj_w_gore_do_strony_def
        wyrownaj_w_dol_do_strony_def dla_ramek_def foldl_oznacz Let_def)
  then show ?thesis by (simp add: limit_alokacji_def)
qed

text \<open>
  C6. \<open>ZaalokujRamke\<close> is next-fit: with no free frame below the limit (1 GiB or the end of RAM) it
  returns null and keeps the pool; otherwise it returns the address of the first free frame in the
  cyclic order that starts at the hint, takes exactly that frame out of the pool, and leaves the
  hint on the frame after it. The invariant is kept.
\<close>

theorem zaalokuj_next_fit:
  assumes "pmm_niezmiennik s" "pm_gotowy s" "ZaalokujRamke s = (adres, s')"
  shows "(if wolne s \<inter> {..< limit_alokacji s} = {}
          then adres = 0 \<and> wolne s' = wolne s
          else \<exists>n. pierwsza_cyklicznie (limit_alokacji s) (start_alokacji s) (wolne s \<inter> {..< limit_alokacji s}) n \<and>
            adres = n * ROZMIAR_STRONY \<and> adres \<noteq> 0 \<and> wolne s' = wolne s - {n} \<and>
            pm_ostatnia s' = (n + 1) mod limit_alokacji s) \<and>
    dostepne s' = dostepne s \<and> pmm_niezmiennik s' \<and> pm_gotowy s'"
  using zaalokuj_przypadki [OF assms(1,2)]
proof (elim disjE exE conjE)
  assume "wolne s \<inter> {..< limit_alokacji s} = {}"
    "ZaalokujRamke s = (0, s\<lparr>pm_ostatnia := if limit_alokacji s = 0 then pm_ostatnia s else start_alokacji s\<rparr>)"
  then show ?thesis using assms by simp
next
  fix n
  assume n: "pierwsza_cyklicznie (limit_alokacji s) (start_alokacji s) (wolne s \<inter> {..< limit_alokacji s}) n"
    and z: "ZaalokujRamke s = (n * ROZMIAR_STRONY, zajmij_ramke (limit_alokacji s) (s\<lparr>pm_ostatnia := start_alokacji s\<rparr>) n)"
  then have nn: "n \<in> wolne s" "n < limit_alokacji s" by (auto simp: pierwsza_cyklicznie_def)
  then have "0 < n" using wolne_dodatnie [OF assms(1)] by fastforce
  moreover have "(if limit_alokacji s \<le> n + 1 then 0 else n + 1) = (n + 1) mod limit_alokacji s"
    using nn(2) by (cases "n + 1 = limit_alokacji s") auto
  moreover have "wolne s \<inter> {..< limit_alokacji s} \<noteq> {}" using nn by auto
  ultimately show ?thesis using n z assms by auto
qed

theorem zaalokuj_next_fit_witness:
  "fst (ZaalokujRamke pmm_przyklad) = 257 * 4096 \<and> wolne (snd (ZaalokujRamke pmm_przyklad)) = {256, 258, 259}"
proof -
  have W: "wolne pmm_przyklad \<inter> {..< 260} = {256, 257, 258, 259}"
    by (auto simp: pmm_przyklad_sprawny)
  have one: "pierwsza_cyklicznie 260 257 {256, 257, 258, 259} n \<longleftrightarrow> n = 257" for n
    by (auto simp: pierwsza_cyklicznie_def odleglosc_def)
  have st: "start_alokacji pmm_przyklad = 257"
    by (simp add: start_alokacji_def pmm_przyklad_limit pmm_przyklad_sprawny)
  have "fst (ZaalokujRamke pmm_przyklad) = 257 * 4096 \<and> wolne (snd (ZaalokujRamke pmm_przyklad)) = {256 ..< 260} - {257}"
    using zaalokuj_next_fit [OF pmm_przyklad_sprawny(1,2) prod.collapse [symmetric]]
    unfolding pmm_przyklad_limit W st one by (simp add: pmm_przyklad_sprawny(3))
  moreover have "{256 ..< 260} - {257} = {256, 258, 259 :: nat}" by auto
  ultimately show ?thesis by simp
qed

text \<open>
  C7. \<open>ZwolnijRamke\<close> returns exactly the frame the address names to the pool: a page-aligned
  address of an available frame that is not free. Every other argument (null, unaligned, above
  4 GiB, reserved, already free) leaves the whole state alone, so a double free is harmless; the
  hint moves down to the freed frame.
\<close>

theorem zwolnij_dokladnie:
  assumes "pmm_niezmiennik s" "pm_gotowy s"
  shows "(if adres \<in> adresy (dostepne s - wolne s)
          then wolne (ZwolnijRamke s adres) = insert (adres div ROZMIAR_STRONY) (wolne s) \<and>
            pm_ostatnia (ZwolnijRamke s adres) = min (adres div ROZMIAR_STRONY) (pm_ostatnia s)
          else ZwolnijRamke s adres = s) \<and>
    dostepne (ZwolnijRamke s adres) = dostepne s \<and> pmm_niezmiennik (ZwolnijRamke s adres) \<and>
    ZwolnijRamke (ZwolnijRamke s adres) adres = ZwolnijRamke s adres"
  using zwolnij_przypadki [OF assms, of adres]
proof (elim disjE bexE conjE)
  fix n
  assume n: "n \<in> dostepne s - wolne s" and a: "adres = n * ROZMIAR_STRONY"
    and z: "ZwolnijRamke s adres = (ustaw_ramke_wolna s n)\<lparr>pm_ostatnia := min n (pm_ostatnia s)\<rparr>"
  define s' where "s' = ZwolnijRamke s adres"
  have s': "pmm_niezmiennik s'" "pm_gotowy s'" "wolne s' = insert n (wolne s)" "dostepne s' = dostepne s"
    using n assms by (auto simp: s'_def z)
  then have "ZwolnijRamke s' adres = s'"
    using zwolnij_przypadki [of s' adres] by (auto simp: a)
  then show ?thesis
    using s' n a z unfolding s'_def [symmetric] by (auto simp: adresy_iff)
next
  assume n: "\<forall>n \<in> dostepne s - wolne s. adres \<noteq> n * ROZMIAR_STRONY" and z: "ZwolnijRamke s adres = s"
  then have "adres \<notin> adresy (dostepne s - wolne s)" by (auto simp: adresy_def)
  then show ?thesis using z assms by simp
qed

theorem zwolnij_dokladnie_witness: "ZwolnijRamke pmm_przyklad 0x100000 = pmm_przyklad"
  using zwolnij_dokladnie [OF pmm_przyklad_sprawny(1,2), of "0x100000"]
  by (auto simp: adresy_def pmm_przyklad_sprawny split: if_splits)

text \<open>
  C8. \<open>ZaalokujCiagleRamki\<close> takes the lowest run of free frames of the requested length below the
  limit, and only it; when there is none (or the count is 0) it returns null and the state is
  unchanged. No run starts in the low megabyte.
\<close>

theorem zaalokuj_ciagle_najnizszy:
  assumes "pmm_niezmiennik s" "pm_gotowy s" "ZaalokujCiagleRamki s k = (adres, s')"
  shows "(if 0 < k \<and> (\<exists>m. m + k \<le> limit_alokacji s \<and> ciag_wolny s m k)
          then \<exists>n. adres = n * ROZMIAR_STRONY \<and> 256 \<le> n \<and> n + k \<le> limit_alokacji s \<and> ciag_wolny s n k \<and>
            (\<forall>m < n. \<not> ciag_wolny s m k) \<and> wolne s' = wolne s - {n ..< n + k}
          else adres = 0 \<and> s' = s) \<and>
    dostepne s' = dostepne s \<and> pmm_niezmiennik s'"
proof (cases "k = 0")
  case True
  then show ?thesis using assms by (simp add: ZaalokujCiagleRamki_def)
next
  case False
  then have k: "0 < k" by simp
  from ciagle_przypadki [OF assms(1,2) k] show ?thesis
  proof (elim disjE exE conjE)
    fix n
    assume n: "256 \<le> n" "n + k \<le> limit_alokacji s" "ciag_wolny s n k" "\<forall>m. ciag_wolny s m k \<longrightarrow> n \<le> m"
      "ZaalokujCiagleRamki s k = (n * ROZMIAR_STRONY, zajmij_ciag (limit_alokacji s) s n k)"
    then have "\<forall>m < n. \<not> ciag_wolny s m k" using not_less by blast
    moreover have "s' = zajmij_ciag (limit_alokacji s) s n k" "adres = n * ROZMIAR_STRONY"
      using n(5) assms(3) by simp_all
    ultimately show ?thesis using n k assms(1) by auto
  next
    assume "\<forall>m. m + k \<le> limit_alokacji s \<longrightarrow> \<not> ciag_wolny s m k" "ZaalokujCiagleRamki s k = (0, s)"
    then show ?thesis using assms by auto
  qed
qed

theorem zaalokuj_ciagle_najnizszy_witness:
  "fst (ZaalokujCiagleRamki pmm_przyklad 2) = 0x100000 \<and> wolne (snd (ZaalokujCiagleRamki pmm_przyklad 2)) = {258, 259}"
proof -
  have c: "ciag_wolny pmm_przyklad m 2 \<longleftrightarrow> m \<in> {256, 257, 258}" for m
    unfolding ciag_wolny_def pmm_przyklad_sprawny by auto
  have "\<exists>m. m + 2 \<le> 260 \<and> ciag_wolny pmm_przyklad m 2" by (intro exI [of _ 256]) (simp add: c)
  then obtain n where n: "fst (ZaalokujCiagleRamki pmm_przyklad 2) = n * ROZMIAR_STRONY" "n \<in> {256, 257, 258}"
    "\<forall>m < n. m \<notin> {256, 257, 258 :: nat}" "wolne (snd (ZaalokujCiagleRamki pmm_przyklad 2)) = {256 ..< 260} - {n ..< n + 2}"
    using zaalokuj_ciagle_najnizszy [OF pmm_przyklad_sprawny(1,2) prod.collapse [symmetric], of 2]
    unfolding pmm_przyklad_limit c pmm_przyklad_sprawny by auto
  then have "n = 256" using n(2) n(3) [rule_format, of 256] by auto
  moreover have "{256 ..< 260} - {256 ..< 258} = {258, 259 :: nat}" by auto
  ultimately show ?thesis using n(1,4) by simp
qed

text \<open>
  \<open>ZwolnijCiagleRamki\<close> is all or nothing: a run whose frames are all allocated is freed whole,
  any other argument (one frame free or reserved, unaligned, outside the allocatable range) leaves
  the state alone. In particular it undoes \<open>ZaalokujCiagleRamki\<close>.
\<close>

theorem zwolnij_ciagle_calosc:
  assumes "pmm_niezmiennik s" "pm_gotowy s"
  shows "(let n = adres div ROZMIAR_STRONY; s' = ZwolnijCiagleRamki s adres k in
      if 0 < k \<and> adres mod ROZMIAR_STRONY = 0 \<and> n + k \<le> MAX_RAMEK_ALOKOWALNYCH \<and>
        {n ..< n + k} \<subseteq> dostepne s - wolne s
      then wolne s' = wolne s \<union> {n ..< n + k} \<and> dostepne s' = dostepne s \<and> pmm_niezmiennik s'
      else s' = s) \<and>
    (case ZaalokujCiagleRamki s k of (a, s1) \<Rightarrow>
      wolne (ZwolnijCiagleRamki s1 a k) = wolne s \<and> dostepne (ZwolnijCiagleRamki s1 a k) = dostepne s)"
proof
  show "let n = adres div ROZMIAR_STRONY; s' = ZwolnijCiagleRamki s adres k in
      if 0 < k \<and> adres mod ROZMIAR_STRONY = 0 \<and> n + k \<le> MAX_RAMEK_ALOKOWALNYCH \<and>
        {n ..< n + k} \<subseteq> dostepne s - wolne s
      then wolne s' = wolne s \<union> {n ..< n + k} \<and> dostepne s' = dostepne s \<and> pmm_niezmiennik s'
      else s' = s"
    using assms by (auto simp: zwolnij_ciagle_przypadki [OF assms] Let_def wolne_def dostepne_def foldl_wolna
        pmm_niezmiennik_def)
next
  obtain a s1 where z: "ZaalokujCiagleRamki s k = (a, s1)" by fastforce
  show "case ZaalokujCiagleRamki s k of (a, s1) \<Rightarrow>
      wolne (ZwolnijCiagleRamki s1 a k) = wolne s \<and> dostepne (ZwolnijCiagleRamki s1 a k) = dostepne s"
  proof (cases "k = 0")
    case True
    then show ?thesis by (simp add: ZaalokujCiagleRamki_def ZwolnijCiagleRamki_def)
  next
    case False
    then have k: "0 < k" by simp
    have lim: "limit_alokacji s \<le> MAX_RAMEK_ALOKOWALNYCH" by (simp add: limit_alokacji_def Let_def)
    from ciagle_przypadki [OF assms k] show ?thesis
    proof (elim disjE exE conjE)
      fix n
      assume n: "256 \<le> n" "n + k \<le> limit_alokacji s" "ciag_wolny s n k"
        "ZaalokujCiagleRamki s k = (n * ROZMIAR_STRONY, zajmij_ciag (limit_alokacji s) s n k)"
      let ?s = "zajmij_ciag (limit_alokacji s) s n k"
      have s1: "pmm_niezmiennik ?s" "pm_gotowy ?s" using assms by simp_all
      have sub: "{n ..< n + k} \<subseteq> wolne s" using n(3) by (simp add: ciag_wolny_def)
      then have cond: "{n ..< n + k} \<subseteq> dostepne ?s - wolne ?s"
        using wolne_dostepne [of s] by auto
      have "ZwolnijCiagleRamki ?s (n * ROZMIAR_STRONY) k =
          (foldl ustaw_ramke_wolna ?s [n ..< n + k])\<lparr>pm_ostatnia := min n (pm_ostatnia ?s)\<rparr>"
        using n(2) lim k cond by (simp add: zwolnij_ciagle_przypadki [OF s1] Let_def del: zajmij_ciag_pola)
      moreover have "wolne (foldl ustaw_ramke_wolna ?s [n ..< n + k]) = wolne ?s \<union> {n ..< n + k}"
        using cond by (auto simp: wolne_def dostepne_def foldl_wolna)
      moreover have "dostepne (foldl ustaw_ramke_wolna ?s [n ..< n + k]) = dostepne ?s"
        by (auto simp: dostepne_def foldl_wolna)
      ultimately show ?thesis using n(4) sub by auto
    next
      assume "ZaalokujCiagleRamki s k = (0, s)"
      moreover have "ZwolnijCiagleRamki s 0 k = s" by (simp add: ZwolnijCiagleRamki_def)
      ultimately show ?thesis by simp
    qed
  qed
qed

theorem zwolnij_ciagle_calosc_witness:
  "wolne (case ZaalokujCiagleRamki pmm_przyklad 3 of (a, s1) \<Rightarrow> ZwolnijCiagleRamki s1 a 3) = {256 ..< 260}"
  using zwolnij_ciagle_calosc [OF pmm_przyklad_sprawny(1,2), of 0 3]
  by (simp add: pmm_przyklad_sprawny split: prod.splits)

text \<open>
  C10. Initialisation from the Multiboot2 information. When \<open>InicjalizujPMM\<close> succeeds, the
  available frames are exactly the frames that lie wholly inside an entry of type
  MEMORY_AVAILABLE and below 4 GiB, less every frame that meets the low megabyte, the kernel image,
  the Multiboot2 structure itself, a boot module, the framebuffer, the local APIC or the I/O APIC;
  all of them are free, below the recorded end of RAM, and the invariant holds. When it fails, no
  frame is available.
\<close>

theorem inicjalizacja_pmm:
  fixes m :: pamiec_fiz
  assumes "s' = InicjalizujPMM m js jk info s" "ts = lista_tagow m (info + czytaj32 m info) (info + 8)"
  shows "if pm_gotowy s'
    then dostepne s' = {n \<in> ramki_ram m ts. list_all (\<lambda>(p, d). \<not> ramka_przecina n p d) (rezerwacje_stale m js jk info ts)} \<and>
      wolne s' = dostepne s' \<and> pmm_niezmiennik s' \<and> dostepne s' \<subseteq> {256 ..< pm_najwyzsza s'} \<and> pm_ostatnia s' = 256
    else dostepne s' = {} \<and> wolne s' = {}"
proof (cases "pm_gotowy s'")
  case True
  note g = True [unfolded assms(1)]
  from inicjalizuj_gotowy [OF g, folded assms(2), folded assms(1)]
  have w: "ramka_wolna s' n = ramka_dostepna s' n"
    and d: "ramka_dostepna s' n \<longleftrightarrow> n \<in> ramki_ram m ts \<and>
        list_all (\<lambda>(p, d). \<not> ramka_przecina n p d) (rezerwacje_stale m js jk info ts)"
    and l: "ramka_dostepna s' n \<Longrightarrow> n < pm_najwyzsza s'" and o: "pm_ostatnia s' = 256" for n
    by (auto simp: list_all_iff)
  have low: "\<not> ramka_dostepna s' n" if "n < 256" for n
  proof -
    have "ramka_przecina n 0 GRANICA_NISKIEJ_PAMIECI" using that by (simp add: ramka_przecina_def)
    then show ?thesis by (simp add: d rezerwacje_stale_def)
  qed
  have "dostepne s' \<subseteq> {256 ..< pm_najwyzsza s'}"
    using low l by (auto simp: dostepne_def not_less [symmetric])
  then show ?thesis
    using True w low o by (auto simp: d dostepne_def wolne_def pmm_niezmiennik_def)
next
  case False
  then have "\<exists>t. s' = wyzeruj_stan_pmm t"
    unfolding assms(1) InicjalizujPMM_def Let_def
    by (auto split: option.splits prod.splits if_splits)
  then have "\<not> ramka_dostepna s' n" for n by auto
  then show ?thesis using False by (simp add: dostepne_def wolne_def)
qed

text \<open>A Multiboot2 structure at 0x10000 with one memory map entry: RAM from 1 MiB to 5 MiB.\<close>

definition multiboot_przyklad :: pamiec_fiz where
  "multiboot_przyklad = (\<lambda>_. 0)(65536 := 56, 65544 := 6, 65548 := 40, 65552 := 24, 65562 := 0x10,
     65570 := 0x40, 65576 := 1, 65588 := 8)"

lemma mb_przyklad_czytaj:
  "czytaj32 multiboot_przyklad 65536 = 56" "czytaj32 multiboot_przyklad 65544 = 6"
  "czytaj32 multiboot_przyklad 65548 = 40" "czytaj32 multiboot_przyklad 65552 = 24"
  "czytaj32 multiboot_przyklad 65584 = 0" "czytaj32 multiboot_przyklad 65588 = 8"
  "czytaj64 multiboot_przyklad 65560 = 0x100000" "czytaj64 multiboot_przyklad 65568 = 0x400000"
  "czytaj32 multiboot_przyklad 65576 = 1"
  by (simp_all add: multiboot_przyklad_def czytaj64_def czytaj32_def)

lemma mb_przyklad_przejdz:
  "przejdz_po_tagach multiboot_przyklad 65592 f 65544 s =
     (case f 65544 s of (False, s') \<Rightarrow> (False, s') | (True, s') \<Rightarrow> (True, s'))"
proof -
  have "przejdz_po_tagach multiboot_przyklad 65592 f 65584 s' = (True, s')" for s'
    by (simp add: przejdz_po_tagach.simps [of multiboot_przyklad 65592 f 65584 s'] mb_przyklad_czytaj pmm_dodaj_u64_def)
  moreover have "wyrownaj_w_gore_do_8 40 = Some 40" by (simp add: wyrownaj_w_gore_do_8_def)
  moreover obtain b s' where "f 65544 s = (b, s')" by fastforce
  ultimately show ?thesis
    by (cases b) (simp_all add: przejdz_po_tagach.simps [of multiboot_przyklad 65592 f 65544 s]
        mb_przyklad_czytaj pmm_dodaj_u64_def)
qed

lemma mb_przyklad_wpisy:
  "wpisy_mapy multiboot_przyklad 65544 = [\<lparr>mp_adres_bazowy = 0x100000, mp_dlugosc = 0x400000, mp_typ_obszaru = 1\<rparr>]"
  by (simp add: wpisy_mapy_def czytaj_wpis_mapy_def mb_przyklad_czytaj)

lemma mb_przyklad_gotowy:
  "pm_gotowy (InicjalizujPMM multiboot_przyklad 0x200000 0x201000 65536 s)"
proof -
  have naj: "pm_najwyzsza (dodaj_dostepny_zakres (wyzeruj_stan_pmm s) 0x100000 0x400000) = 1280"
    by (simp add: dodaj_dostepny_zakres_def koniec_zakresu_def wyrownaj_w_gore_do_strony_def
        wyrownaj_w_dol_do_strony_def dla_ramek_def foldl_oznacz Let_def)
  have range: "pobierz_zakres_multiboot multiboot_przyklad 65536 = Some (65536, 65592)"
    by (simp add: pobierz_zakres_multiboot_def mb_przyklad_czytaj pmm_dodaj_u64_def)
  have t1: "tag_mapy multiboot_przyklad 65544 (False, True, s0) =
      (True, True, True, dodaj_dostepny_zakres s0 0x100000 0x400000)" for s0
    by (simp add: tag_mapy_def mb_przyklad_czytaj przetworz_mape_pamieci_def mb_przyklad_wpisy dodaj_wpis_mapy_def)
  have t2: "tag_rezerwacji multiboot_przyklad 65544 s0 = (True, s0)" for s0
    by (simp add: tag_rezerwacji_def mb_przyklad_czytaj)
  show ?thesis
    unfolding InicjalizujPMM_def Let_def range option.case prod.case
    by (simp add: mb_przyklad_przejdz t1 t2 naj)
qed

theorem inicjalizacja_pmm_witness:
  "256 \<in> dostepne (InicjalizujPMM multiboot_przyklad 0x200000 0x201000 65536 pmm_przyklad) \<and>
   512 \<notin> dostepne (InicjalizujPMM multiboot_przyklad 0x200000 0x201000 65536 pmm_przyklad)"
proof -
  have tagi: "lista_tagow multiboot_przyklad (65536 + czytaj32 multiboot_przyklad 65536) (65536 + 8) = [65544]"
    by (simp add: lista_tagow_def mb_przyklad_czytaj mb_przyklad_przejdz)
  have ram: "n \<in> ramki_ram multiboot_przyklad [65544] \<longleftrightarrow> n \<in> {256 ..< 1280}" for n
    by (auto simp: ramki_ram_def mb_przyklad_czytaj mb_przyklad_wpisy ramka_ram_def ramka_w_zakresie_def)
  have rez: "rezerwacje_stale multiboot_przyklad 0x200000 0x201000 65536 [65544] =
      [(0, 0x100000), (0x200000, 0x1000), (65536, 56), (LAPIC_MMIO, 4096), (IOAPIC_MMIO, 4096)]"
    by (simp add: rezerwacje_stale_def zakres_tagu_def mb_przyklad_czytaj)
  show ?thesis
    using inicjalizacja_pmm [OF refl tagi [symmetric], where js = "0x200000" and jk = "0x201000" and s = pmm_przyklad] mb_przyklad_gotowy
    by (simp add: rez ram ramka_przecina_def)
qed

text \<open>
  Code that takes several frames one by one never gets the same frame twice nor one that is in
  use, and when it gives them all back, in any later failure, the pool is what it was.
\<close>

theorem ramki_wycofanie:
  assumes "pmm_niezmiennik s" "pm_gotowy s" "pobierz_wiele ZaalokujRamke k s = (as, s')"
  shows "distinct as \<and> set as \<subseteq> adresy (wolne s) \<and> wolne (foldl ZwolnijRamke s' as) = wolne s \<and>
    dostepne s' = dostepne s \<and> pmm_niezmiennik s'"
proof -
  have s: "pmm_sprawny s" using assms by (simp add: pmm_sprawny_def)
  note a = pmm_pula.pobierz_wiele_spec [OF s assms(3)] and b = pmm_pula.wycofanie [OF s assms(3)]
  have inj: "adresy X = adresy Y \<Longrightarrow> X = Y" for X Y
    unfolding adresy_def by (rule inj_image_eq_iff [THEN iffD1, rotated]) (auto simp: inj_def)
  have z: "0 \<notin> adresy (wolne t)" if "pmm_sprawny t" for t
    using zero_adresy [of t] wolne_dostepne [of t] that by (auto simp: adresy_def pmm_sprawny_def)
  have "adresy (wolne (foldl ZwolnijRamke s' as)) = adresy (wolne s)"
    using b z [OF s] z [OF b(1)] by (metis Diff_empty Diff_insert0)
  then show ?thesis
    using a inj by (auto simp: pmm_sprawny_def)
qed

theorem ramki_wycofanie_witness:
  "wolne (case pobierz_wiele ZaalokujRamke 3 pmm_przyklad of (as, s') \<Rightarrow> foldl ZwolnijRamke s' as) = {256 ..< 260}"
  using ramki_wycofanie [OF pmm_przyklad_sprawny(1,2) prod.collapse [symmetric], of 3]
  by (simp add: pmm_przyklad_sprawny case_prod_beta)

end
