(* ===== verification/Vmm.thy ===== *)
theory Vmm
  imports Pmm
begin

section \<open>The virtual memory manager (vmm.cpp)\<close>

text \<open>
  Four-level x86-64 page tables. \<open>vm_tabele t i\<close> is the 64-bit entry \<open>i\<close> of the table at physical
  address \<open>t\<close>; the kernel reaches tables below 1 GiB through its identity map. Table frames come
  from the PMM, which is part of the state. \<open>vm_tlb\<close> logs the addresses given to \<open>invlpg\<close>; CR3 is a
  field. All public operations run under the VMM lock.
\<close>

abbreviation PTE_PRESENT :: u64 where "PTE_PRESENT \<equiv> 0x1"
abbreviation PTE_WRITE :: u64 where "PTE_WRITE \<equiv> 0x2"
abbreviation PTE_USER :: u64 where "PTE_USER \<equiv> 0x4"
abbreviation PTE_PWT :: u64 where "PTE_PWT \<equiv> 0x8"
abbreviation PTE_PCD :: u64 where "PTE_PCD \<equiv> 0x10"
abbreviation PTE_PAT_4K :: u64 where "PTE_PAT_4K \<equiv> 0x80"
abbreviation PDE_PS :: u64 where "PDE_PS \<equiv> 0x80"
abbreviation PDE_PAT_LARGE :: u64 where "PDE_PAT_LARGE \<equiv> 0x1000"
abbreviation STRONA_4K :: u64 where "STRONA_4K \<equiv> 0x1000"
abbreviation STRONA_2M :: u64 where "STRONA_2M \<equiv> 0x200000"
abbreviation STRONA_1G :: u64 where "STRONA_1G \<equiv> 0x40000000"
abbreviation LIMIT_BEZPOSREDNI :: u64 where "LIMIT_BEZPOSREDNI \<equiv> 0x40000000"

definition MASKA_ADRESU_4K :: u64 where "MASKA_ADRESU_4K = 0x000FFFFFFFFFF000"
definition MASKA_ADRESU_2M :: u64 where "MASKA_ADRESU_2M = 0x000FFFFFFFE00000"
definition MASKA_ADRESU_1G :: u64 where "MASKA_ADRESU_1G = 0x000FFFFFC0000000"
definition MASKA_FLAG_LISCIA_4K :: u64 where "MASKA_FLAG_LISCIA_4K = 0x1FF"
definition MASKA_FLAG_ZACHOWANYCH :: u64 where "MASKA_FLAG_ZACHOWANYCH = 0x800000000000017F"

record vmm =
  vm_tabele :: "u64 \<Rightarrow> nat \<Rightarrow> u64"
  vm_pmm :: pmm
  vm_cr3 :: u64
  vm_bazowe :: u64
  vm_globalne :: u64
  vm_gotowy :: bool
  vm_tlb :: "u64 list"

definition pisz_wpis :: "vmm \<Rightarrow> u64 \<Rightarrow> nat \<Rightarrow> u64 \<Rightarrow> vmm" where
  "pisz_wpis v t i e = v\<lparr>vm_tabele := (vm_tabele v)(t := (vm_tabele v t)(i := e))\<rparr>"

definition pisz_tabele :: "vmm \<Rightarrow> u64 \<Rightarrow> (nat \<Rightarrow> u64) \<Rightarrow> vmm" where
  "pisz_tabele v t f =
     v\<lparr>vm_tabele := (vm_tabele v)(t := (\<lambda>i. if i < 512 then f i else vm_tabele v t i))\<rparr>"

subsection \<open>Addresses and indices\<close>

definition pml4_z_cr3 :: "vmm \<Rightarrow> u64" where
  "pml4_z_cr3 v =
     (let fizyczny = vm_cr3 v AND MASKA_ADRESU_4K in
      if fizyczny = 0 \<or> fizyczny \<ge> LIMIT_BEZPOSREDNI then 0 else fizyczny)"

definition zapisz_cr3 :: "vmm \<Rightarrow> u64 \<Rightarrow> vmm" where
  "zapisz_cr3 v pml4 = (if pml4 = 0 then v else v\<lparr>vm_cr3 := pml4\<rparr>)"

definition uniewaznij_tlb :: "vmm \<Rightarrow> u64 \<Rightarrow> vmm" where
  "uniewaznij_tlb v a = v\<lparr>vm_tlb := a # vm_tlb v\<rparr>"

definition adres_kanoniczny :: "u64 \<Rightarrow> bool" where
  "adres_kanoniczny adres =
     (let gorne = drop_bit 48 adres; bit47 = (drop_bit 47 adres AND 1 \<noteq> 0) in
      if \<not> bit47 then gorne = 0 else gorne = 0xFFFF)"

definition adres_user_kanoniczny :: "u64 \<Rightarrow> bool" where
  "adres_user_kanoniczny adres \<longleftrightarrow> adres_kanoniczny adres \<and> drop_bit 47 adres AND 1 = 0"

definition adres_strony_poprawny :: "u64 \<Rightarrow> bool" where
  "adres_strony_poprawny adres \<longleftrightarrow> adres_kanoniczny adres \<and> adres AND (STRONA_4K - 1) = 0"

definition adres_fizyczny_strony_poprawny :: "u64 \<Rightarrow> bool" where
  "adres_fizyczny_strony_poprawny adres \<longleftrightarrow>
     (if adres AND (STRONA_4K - 1) \<noteq> 0 then False else adres AND NOT MASKA_ADRESU_4K = 0)"

definition tabela_fizyczna_bezposrednio_dostepna :: "u64 \<Rightarrow> bool" where
  "tabela_fizyczna_bezposrednio_dostepna adres \<longleftrightarrow>
     adres \<noteq> 0 \<and> adres < LIMIT_BEZPOSREDNI \<and> adres AND (STRONA_4K - 1) = 0"

definition indeks_pml4 :: "u64 \<Rightarrow> nat" where
  "indeks_pml4 adres = unat (drop_bit 39 adres AND 0x1FF)"

definition indeks_pdp :: "u64 \<Rightarrow> nat" where
  "indeks_pdp adres = unat (drop_bit 30 adres AND 0x1FF)"

definition indeks_pd :: "u64 \<Rightarrow> nat" where
  "indeks_pd adres = unat (drop_bit 21 adres AND 0x1FF)"

definition indeks_pt :: "u64 \<Rightarrow> nat" where
  "indeks_pt adres = unat (drop_bit 12 adres AND 0x1FF)"

subsection \<open>Tables\<close>

definition WyzerujStrone :: "vmm \<Rightarrow> u64 \<Rightarrow> vmm" where
  "WyzerujStrone v t = (if t = 0 then v else pisz_tabele v t (\<lambda>_. 0))"

text \<open>The null pointer is 0 in the results.\<close>

definition alokuj_tabele_stron :: "vmm \<Rightarrow> u64 \<times> vmm" where
  "alokuj_tabele_stron v =
     (case ZaalokujRamke (vm_pmm v) of
        (ramka, p) \<Rightarrow>
          if ramka = 0 then (0, v\<lparr>vm_pmm := p\<rparr>)
          else let fiz = of_nat ramka in
            if \<not> tabela_fizyczna_bezposrednio_dostepna fiz
            then (0, v\<lparr>vm_pmm := ZwolnijRamke p ramka\<rparr>)
            else (fiz, WyzerujStrone (v\<lparr>vm_pmm := p\<rparr>) fiz))"

definition tabela_z_wpisu :: "u64 \<Rightarrow> u64" where
  "tabela_z_wpisu wpis =
     (if wpis AND PTE_PRESENT = 0 then 0
      else let fiz = wpis AND MASKA_ADRESU_4K in
        if \<not> tabela_fizyczna_bezposrednio_dostepna fiz then 0 else fiz)"

definition flagi_tabeli_posredniej :: "bool \<Rightarrow> u64" where
  "flagi_tabeli_posredniej user =
     (let flagi = PTE_PRESENT OR PTE_WRITE in if user then flagi OR PTE_USER else flagi)"

definition rozbij_strone_1g :: "vmm \<Rightarrow> u64 \<Rightarrow> nat \<Rightarrow> bool \<Rightarrow> bool \<times> vmm" where
  "rozbij_strone_1g v pdp indeks wymagaj_user =
     (if pdp = 0 then (False, v)
      else let stary = vm_tabele v pdp indeks in
      if stary AND PTE_PRESENT = 0 \<or> stary AND PDE_PS = 0 then (False, v)
      else (case alokuj_tabele_stron v of
        (nowy_pd, v1) \<Rightarrow>
          if nowy_pd = 0 then (False, v1)
          else
            let baza = stary AND MASKA_ADRESU_1G;
                f0 = stary AND MASKA_FLAG_ZACHOWANYCH;
                flagi_liscia = (if stary AND PDE_PAT_LARGE \<noteq> 0 then f0 OR PDE_PAT_LARGE else f0);
                v2 = pisz_tabele v1 nowy_pd (\<lambda>i. (baza + of_nat i * STRONA_2M) OR flagi_liscia OR PDE_PS);
                user = (wymagaj_user \<or> stary AND PTE_USER \<noteq> 0)
            in (True, pisz_wpis v2 pdp indeks ((nowy_pd AND MASKA_ADRESU_4K) OR flagi_tabeli_posredniej user))))"

definition rozbij_strone_2m :: "vmm \<Rightarrow> u64 \<Rightarrow> nat \<Rightarrow> bool \<Rightarrow> bool \<times> vmm" where
  "rozbij_strone_2m v pd indeks wymagaj_user =
     (if pd = 0 then (False, v)
      else let stary = vm_tabele v pd indeks in
      if stary AND PTE_PRESENT = 0 \<or> stary AND PDE_PS = 0 then (False, v)
      else (case alokuj_tabele_stron v of
        (nowy_pt, v1) \<Rightarrow>
          if nowy_pt = 0 then (False, v1)
          else
            let baza = stary AND MASKA_ADRESU_2M;
                f0 = stary AND MASKA_FLAG_ZACHOWANYCH;
                flagi_liscia = (if stary AND PDE_PAT_LARGE \<noteq> 0 then f0 OR PTE_PAT_4K else f0);
                v2 = pisz_tabele v1 nowy_pt (\<lambda>i. (baza + of_nat i * STRONA_4K) OR flagi_liscia);
                user = (wymagaj_user \<or> stary AND PTE_USER \<noteq> 0)
            in (True, pisz_wpis v2 pd indeks ((nowy_pt AND MASKA_ADRESU_4K) OR flagi_tabeli_posredniej user))))"

text \<open>The part the three \<open>pobierz_lub_utworz\<close> functions share: a fresh table for an absent entry, more
  rights for a present one, and the pointer through \<open>wynik\<close>.\<close>

definition dodaj_prawa :: "bool \<Rightarrow> u64 \<Rightarrow> u64" where
  "dodaj_prawa user wpis = (let w = (if user then wpis OR PTE_USER else wpis) in w OR (PTE_PRESENT OR PTE_WRITE))"

definition tabela_lub_nowa :: "vmm \<Rightarrow> u64 \<Rightarrow> nat \<Rightarrow> bool \<Rightarrow> u64 \<times> vmm" where
  "tabela_lub_nowa v t indeks user =
     (if vm_tabele v t indeks AND PTE_PRESENT = 0
      then (case alokuj_tabele_stron v of
        (nowa, v1) \<Rightarrow>
          if nowa = 0 then (0, v1)
          else let v2 = pisz_wpis v1 t indeks ((nowa AND MASKA_ADRESU_4K) OR flagi_tabeli_posredniej user)
            in (tabela_z_wpisu (vm_tabele v2 t indeks), v2))
      else let v1 = pisz_wpis v t indeks (dodaj_prawa user (vm_tabele v t indeks))
        in (tabela_z_wpisu (vm_tabele v1 t indeks), v1))"

definition pobierz_lub_utworz_pdp :: "vmm \<Rightarrow> u64 \<Rightarrow> nat \<Rightarrow> bool \<Rightarrow> u64 \<times> vmm" where
  "pobierz_lub_utworz_pdp v pml4 indeks user =
     (if pml4 = 0 then (0, v)
      else if vm_tabele v pml4 indeks AND PTE_PRESENT \<noteq> 0 \<and> vm_tabele v pml4 indeks AND PDE_PS \<noteq> 0
      then (0, v)
      else tabela_lub_nowa v pml4 indeks user)"

definition pobierz_lub_utworz_pd :: "vmm \<Rightarrow> u64 \<Rightarrow> nat \<Rightarrow> bool \<Rightarrow> u64 \<times> vmm" where
  "pobierz_lub_utworz_pd v pdp indeks user =
     (if pdp = 0 then (0, v)
      else if vm_tabele v pdp indeks AND PTE_PRESENT \<noteq> 0 \<and> vm_tabele v pdp indeks AND PDE_PS \<noteq> 0
      then (case rozbij_strone_1g v pdp indeks user of
              (ok, v1) \<Rightarrow> if \<not> ok then (0, v1) else tabela_lub_nowa v1 pdp indeks user)
      else tabela_lub_nowa v pdp indeks user)"

definition pobierz_lub_utworz_pt :: "vmm \<Rightarrow> u64 \<Rightarrow> nat \<Rightarrow> bool \<Rightarrow> u64 \<times> vmm" where
  "pobierz_lub_utworz_pt v pd indeks user =
     (if pd = 0 then (0, v)
      else if vm_tabele v pd indeks AND PTE_PRESENT \<noteq> 0 \<and> vm_tabele v pd indeks AND PDE_PS \<noteq> 0
      then (case rozbij_strone_2m v pd indeks user of
              (ok, v1) \<Rightarrow> if \<not> ok then (0, v1) else tabela_lub_nowa v1 pd indeks user)
      else tabela_lub_nowa v pd indeks user)"

subsection \<open>Mapping one page\<close>

definition mapuj_strone_wewnetrznie :: "vmm \<Rightarrow> u64 \<Rightarrow> u64 \<Rightarrow> u64 \<Rightarrow> u32 \<Rightarrow> bool \<times> vmm" where
  "mapuj_strone_wewnetrznie v pml4 wirt fiz flagi =
     (if pml4 = 0 then (False, v)
      else if \<not> adres_strony_poprawny wirt then (False, v)
      else if \<not> adres_fizyczny_strony_poprawny fiz then (False, v)
      else let user = (ucast flagi AND PTE_USER \<noteq> 0) in
      if user \<and> \<not> adres_user_kanoniczny wirt then (False, v)
      else if user \<and> wirt < STRONA_4K then (False, v)
      else (case pobierz_lub_utworz_pdp v pml4 (indeks_pml4 wirt) user of
        (pdp, v1) \<Rightarrow> if pdp = 0 then (False, v1)
      else (case pobierz_lub_utworz_pd v1 pdp (indeks_pdp wirt) user of
        (pd, v2) \<Rightarrow> if pd = 0 then (False, v2)
      else (case pobierz_lub_utworz_pt v2 pd (indeks_pd wirt) user of
        (pt, v3) \<Rightarrow> if pt = 0 then (False, v3)
      else
        let flagi_liscia = (ucast flagi AND MASKA_FLAG_LISCIA_4K) OR PTE_PRESENT;
            v4 = pisz_wpis v3 pt (indeks_pt wirt) ((fiz AND MASKA_ADRESU_4K) OR flagi_liscia)
        in (True, uniewaznij_tlb v4 wirt)))))"

subsection \<open>The walker\<close>

record WynikWalkera =
  ww_obecna :: bool
  ww_user :: bool
  ww_zapisywalna :: bool
  ww_duza :: bool
  ww_wpis :: u64
  ww_rozmiar :: u64

definition wynik_pusty :: WynikWalkera where
  "wynik_pusty = \<lparr>ww_obecna = False, ww_user = False, ww_zapisywalna = False, ww_duza = False,
     ww_wpis = 0, ww_rozmiar = 0\<rparr>"

definition sprawdz_mapowanie :: "vmm \<Rightarrow> u64 \<Rightarrow> u64 \<Rightarrow> WynikWalkera" where
  "sprawdz_mapowanie v pml4 adres =
     (if pml4 = 0 \<or> \<not> adres_kanoniczny adres then wynik_pusty
      else let e4 = vm_tabele v pml4 (indeks_pml4 adres) in
      if e4 AND PTE_PRESENT = 0 then wynik_pusty
      else let user4 = (e4 AND PTE_USER \<noteq> 0); write4 = (e4 AND PTE_WRITE \<noteq> 0);
               pdp = tabela_z_wpisu e4 in
      if pdp = 0 then wynik_pusty
      else let e3 = vm_tabele v pdp (indeks_pdp adres) in
      if e3 AND PTE_PRESENT = 0 then wynik_pusty
      else let user3 = (user4 \<and> e3 AND PTE_USER \<noteq> 0); write3 = (write4 \<and> e3 AND PTE_WRITE \<noteq> 0) in
      if e3 AND PDE_PS \<noteq> 0
      then \<lparr>ww_obecna = True, ww_user = user3, ww_zapisywalna = write3, ww_duza = True,
            ww_wpis = e3, ww_rozmiar = STRONA_1G\<rparr>
      else let pd = tabela_z_wpisu e3 in
      if pd = 0 then wynik_pusty
      else let e2 = vm_tabele v pd (indeks_pd adres) in
      if e2 AND PTE_PRESENT = 0 then wynik_pusty
      else let user2 = (user3 \<and> e2 AND PTE_USER \<noteq> 0); write2 = (write3 \<and> e2 AND PTE_WRITE \<noteq> 0) in
      if e2 AND PDE_PS \<noteq> 0
      then \<lparr>ww_obecna = True, ww_user = user2, ww_zapisywalna = write2, ww_duza = True,
            ww_wpis = e2, ww_rozmiar = STRONA_2M\<rparr>
      else let pt = tabela_z_wpisu e2 in
      if pt = 0 then wynik_pusty
      else let e1 = vm_tabele v pt (indeks_pt adres) in
      if e1 AND PTE_PRESENT = 0 then wynik_pusty
      else \<lparr>ww_obecna = True, ww_user = user2 \<and> e1 AND PTE_USER \<noteq> 0,
            ww_zapisywalna = write2 \<and> e1 AND PTE_WRITE \<noteq> 0, ww_duza = False,
            ww_wpis = e1, ww_rozmiar = STRONA_4K\<rparr>)"

subsection \<open>Cloning and destroying a hierarchy\<close>

text \<open>
  The recursion is on the level (4 for a PML4 down to 1 for a page table); the loop over the 512
  entries takes the recursive call as an argument.
\<close>

definition duzy_lisc :: "nat \<Rightarrow> u64 \<Rightarrow> bool" where
  "duzy_lisc poziom wpis \<longleftrightarrow> (poziom = 3 \<or> poziom = 2) \<and> wpis AND PDE_PS \<noteq> 0"

fun dla_dzieci :: "(vmm \<Rightarrow> u64 \<Rightarrow> vmm) \<Rightarrow> nat \<Rightarrow> u64 \<Rightarrow> nat list \<Rightarrow> vmm \<Rightarrow> vmm" where
  "dla_dzieci f poziom tabela [] v = v"
| "dla_dzieci f poziom tabela (i # is) v =
     (let wpis = vm_tabele v tabela i in
      dla_dzieci f poziom tabela is
        (if wpis AND PTE_PRESENT = 0 then v
         else if duzy_lisc poziom wpis then v
         else let dziecko = tabela_z_wpisu wpis in if dziecko = 0 then v else f v dziecko))"

definition zwolnij_ramke_tabeli :: "vmm \<Rightarrow> u64 \<Rightarrow> vmm" where
  "zwolnij_ramke_tabeli v t = v\<lparr>vm_pmm := ZwolnijRamke (vm_pmm v) (unat t)\<rparr>"

primrec zwolnij_sklonowane_tabele_bez_lisci :: "nat \<Rightarrow> vmm \<Rightarrow> u64 \<Rightarrow> vmm" where
  "zwolnij_sklonowane_tabele_bez_lisci 0 = (\<lambda>v tabela. v)"
| "zwolnij_sklonowane_tabele_bez_lisci (Suc l) = (\<lambda>v tabela.
     if tabela = 0 \<or> Suc l > 4 then v
     else zwolnij_ramke_tabeli
       (if Suc l > 1 then dla_dzieci (zwolnij_sklonowane_tabele_bez_lisci l) (Suc l) tabela [0 ..< 512] v else v)
       tabela)"

fun klonuj_wpisy :: "(vmm \<Rightarrow> u64 \<Rightarrow> u64 \<times> vmm) \<Rightarrow> nat \<Rightarrow> u64 \<Rightarrow> u64 \<Rightarrow> nat list \<Rightarrow> vmm \<Rightarrow> bool \<times> vmm" where
  "klonuj_wpisy f poziom zrodlo kopia [] v = (True, v)"
| "klonuj_wpisy f poziom zrodlo kopia (i # is) v =
     (let wpis = vm_tabele v zrodlo i in
      if wpis AND PTE_PRESENT = 0 then klonuj_wpisy f poziom zrodlo kopia is (pisz_wpis v kopia i 0)
      else if poziom = 1 \<or> duzy_lisc poziom wpis
      then klonuj_wpisy f poziom zrodlo kopia is (pisz_wpis v kopia i wpis)
      else let fiz_dziecka = wpis AND MASKA_ADRESU_4K in
      if \<not> tabela_fizyczna_bezposrednio_dostepna fiz_dziecka then (False, v)
      else (case f v fiz_dziecka of
        (nowe_dziecko, v1) \<Rightarrow>
          if nowe_dziecko = 0 then (False, v1)
          else klonuj_wpisy f poziom zrodlo kopia is
                 (pisz_wpis v1 kopia i ((nowe_dziecko AND MASKA_ADRESU_4K) OR (wpis AND NOT MASKA_ADRESU_4K)))))"

primrec sklonuj_hierarchie :: "nat \<Rightarrow> vmm \<Rightarrow> u64 \<Rightarrow> u64 \<times> vmm" where
  "sklonuj_hierarchie 0 = (\<lambda>v zrodlo. (0, v))"
| "sklonuj_hierarchie (Suc l) = (\<lambda>v zrodlo.
     if zrodlo = 0 \<or> Suc l > 4 then (0, v)
     else (case alokuj_tabele_stron v of
       (kopia, v1) \<Rightarrow>
         if kopia = 0 then (0, v1)
         else (case klonuj_wpisy (sklonuj_hierarchie l) (Suc l) zrodlo kopia [0 ..< 512] v1 of
           (ok, v2) \<Rightarrow>
             if ok then (kopia, v2)
             else (0, zwolnij_sklonowane_tabele_bez_lisci (Suc l) v2 kopia))))"

text \<open>At level 1 the frames of user pages go back to the PMM and their entries are cleared; kernel
  leaves and large pages are left alone.\<close>

definition zwolnij_lisc :: "u64 \<Rightarrow> vmm \<Rightarrow> nat \<Rightarrow> vmm" where
  "zwolnij_lisc tabela v i =
     (let wpis = vm_tabele v tabela i in
      if wpis AND PTE_PRESENT = 0 \<or> wpis AND PTE_USER = 0 then v
      else let fiz = wpis AND MASKA_ADRESU_4K;
               v1 = (if fiz \<noteq> 0 then v\<lparr>vm_pmm := ZwolnijRamke (vm_pmm v) (unat fiz)\<rparr> else v)
        in pisz_wpis v1 tabela i 0)"

primrec zniszcz_hierarchie_procesu :: "nat \<Rightarrow> vmm \<Rightarrow> u64 \<Rightarrow> vmm" where
  "zniszcz_hierarchie_procesu 0 = (\<lambda>v tabela. v)"
| "zniszcz_hierarchie_procesu (Suc l) = (\<lambda>v tabela.
     if tabela = 0 \<or> Suc l > 4 then v
     else if Suc l = 1 then zwolnij_ramke_tabeli (foldl (zwolnij_lisc tabela) v [0 ..< 512]) tabela
     else zwolnij_ramke_tabeli
       (dla_dzieci (zniszcz_hierarchie_procesu l) (Suc l) tabela [0 ..< 512] v) tabela)"

subsection \<open>The kernel's identity map\<close>

text \<open>The addresses of the static tables \<open>st_pml4\<close>, \<open>st_pdp\<close>, \<open>st_pd\<close> and \<open>st_pt_pierwsze_2m\<close>, which the
  linker chooses.\<close>

record tablice_jadra =
  tj_pml4 :: u64
  tj_pdp :: u64
  tj_pd :: "nat \<Rightarrow> u64"
  tj_pt :: u64

definition wpis_2m_jadra :: "nat \<Rightarrow> nat \<Rightarrow> u64" where
  "wpis_2m_jadra gigabajt i =
     (let fiz = of_nat gigabajt * STRONA_1G + of_nat i * STRONA_2M;
          flagi = PTE_PRESENT OR PTE_WRITE OR PDE_PS;
          flagi2 = (if fiz = 0xFEE00000 \<or> fiz = 0xFEC00000 then flagi OR (PTE_PWT OR PTE_PCD) else flagi)
      in (fiz AND MASKA_ADRESU_2M) OR flagi2)"

definition przygotuj_identity_map_jadra :: "tablice_jadra \<Rightarrow> vmm \<Rightarrow> vmm" where
  "przygotuj_identity_map_jadra tj v =
     (let v1 = WyzerujStrone v (tj_pml4 tj);
          v2 = WyzerujStrone v1 (tj_pdp tj);
          v3 = foldl (\<lambda>v i. WyzerujStrone v (tj_pd tj i)) v2 [0 ..< 4];
          v4 = WyzerujStrone v3 (tj_pt tj);
          v5 = pisz_wpis v4 (tj_pml4 tj) 0 ((tj_pdp tj AND MASKA_ADRESU_4K) OR (PTE_PRESENT OR PTE_WRITE));
          v6 = foldl (\<lambda>v g. pisz_wpis v (tj_pdp tj) g
                 ((tj_pd tj g AND MASKA_ADRESU_4K) OR (PTE_PRESENT OR PTE_WRITE))) v5 [0 ..< 4];
          v7 = pisz_wpis v6 (tj_pd tj 0) 0 ((tj_pt tj AND MASKA_ADRESU_4K) OR (PTE_PRESENT OR PTE_WRITE));
          v8 = pisz_wpis v7 (tj_pt tj) 0 0;
          v9 = foldl (\<lambda>v i. pisz_wpis v (tj_pt tj) i ((of_nat i * STRONA_4K) OR (PTE_PRESENT OR PTE_WRITE)))
                 v8 [1 ..< 512]
      in foldl (\<lambda>v g. foldl (\<lambda>v i. if g = 0 \<and> i = 0 then v
                                   else pisz_wpis v (tj_pd tj g) i (wpis_2m_jadra g i)) v [0 ..< 512])
           v9 [0 ..< 4])"

subsection \<open>Public operations\<close>

definition ZmapujStrone :: "vmm \<Rightarrow> u64 \<Rightarrow> u64 \<Rightarrow> u32 \<Rightarrow> vmm" where
  "ZmapujStrone v wirt fiz flagi =
     (if \<not> vm_gotowy v then v
      else let aktualne = pml4_z_cr3 v in
      if aktualne = 0 then v
      else snd (mapuj_strone_wewnetrznie (v\<lparr>vm_globalne := aktualne\<rparr>) aktualne wirt fiz flagi))"

definition InicjalizujVMM :: "tablice_jadra \<Rightarrow> vmm \<Rightarrow> vmm" where
  "InicjalizujVMM tj v =
     (if vm_gotowy v then v
      else let v1 = przygotuj_identity_map_jadra tj v in
        (zapisz_cr3 (v1\<lparr>vm_bazowe := tj_pml4 tj, vm_globalne := tj_pml4 tj\<rparr>) (tj_pml4 tj))\<lparr>vm_gotowy := True\<rparr>)"

definition PobierzAktualnePML4 :: "vmm \<Rightarrow> u64 \<times> vmm" where
  "PobierzAktualnePML4 v =
     (let aktualne = pml4_z_cr3 v in
      if aktualne = 0 then (0, v) else (aktualne, v\<lparr>vm_globalne := aktualne\<rparr>))"

definition UtworzPrzestrzenAdresowaProcesu :: "vmm \<Rightarrow> u64 \<times> vmm" where
  "UtworzPrzestrzenAdresowaProcesu v =
     (if \<not> vm_gotowy v \<or> vm_bazowe v = 0 then (0, v)
      else sklonuj_hierarchie 4 v (vm_bazowe v))"

definition UstawPrzestrzenAdresowa :: "vmm \<Rightarrow> u64 \<Rightarrow> vmm" where
  "UstawPrzestrzenAdresowa v pml4 =
     (if pml4 = 0 then v
      else if \<not> tabela_fizyczna_bezposrednio_dostepna pml4 then v
      else if \<not> vm_gotowy v then v
      else zapisz_cr3 (v\<lparr>vm_globalne := pml4\<rparr>) pml4)"

definition ZniszczPrzestrzenAdresowaProcesu :: "vmm \<Rightarrow> u64 \<Rightarrow> vmm" where
  "ZniszczPrzestrzenAdresowaProcesu v pml4 =
     (if pml4 = 0 then v
      else if \<not> vm_gotowy v \<or> vm_bazowe v = 0 then v
      else if pml4 = vm_bazowe v then v
      else if pml4 = pml4_z_cr3 v then v
      else if \<not> tabela_fizyczna_bezposrednio_dostepna pml4 then v
      else zniszcz_hierarchie_procesu 4 v pml4)"

text \<open>The page loop of the range check ends because every iteration increases \<open>strona\<close> without
  wrapping.\<close>

function sprawdz_strony :: "vmm \<Rightarrow> u64 \<Rightarrow> bool \<Rightarrow> u64 \<Rightarrow> u64 \<Rightarrow> bool" where
  "sprawdz_strony v pml4 zapis strona ostatnia =
     (let wynik = sprawdz_mapowanie v pml4 strona in
      if \<not> ww_obecna wynik \<or> \<not> ww_user wynik then False
      else if zapis \<and> \<not> ww_zapisywalna wynik then False
      else if strona = ostatnia then True
      else if strona > UINT64_MAX - STRONA_4K then False
      else sprawdz_strony v pml4 zapis (strona + STRONA_4K) ostatnia)"
  by pat_completeness auto
termination
proof (relation "measure (\<lambda>(v, pml4, zapis, strona, ostatnia). 2 ^ 64 - unat strona)", goal_cases)
  case 1
  then show ?case by simp
next
  case (2 v pml4 zapis strona ostatnia w)
  then have "\<not> strona > UINT64_MAX - STRONA_4K" by blast
  then have "unat (strona + STRONA_4K) = unat strona + unat STRONA_4K" by (rule unat_add_guarded)
  then show ?case using unat_u64_less [of strona] by (simp del: unat_u64_less)
qed

declare sprawdz_strony.simps [simp del]

definition bws_vmm_sprawdz_zakres_uzytkownika :: "vmm \<Rightarrow> u64 \<Rightarrow> u64 \<Rightarrow> bool \<Rightarrow> bool" where
  "bws_vmm_sprawdz_zakres_uzytkownika v adres rozmiar zapis =
     (if rozmiar = 0 then True
      else if adres = 0 then False
      else if \<not> adres_user_kanoniczny adres \<or> adres < STRONA_4K then False
      else let minus_jeden = rozmiar - 1 in
      if adres > UINT64_MAX - minus_jeden then False
      else let koniec = adres + minus_jeden in
      if \<not> adres_user_kanoniczny koniec then False
      else if \<not> vm_gotowy v then False
      else let aktualne = pml4_z_cr3 v in
      if aktualne = 0 then False
      else sprawdz_strony v aktualne zapis (adres AND NOT (STRONA_4K - 1)) (koniec AND NOT (STRONA_4K - 1)))"

end
