(* ===== verification/Vmm_Drzewo.thy ===== *)
theory Vmm_Drzewo
  imports Vmm Pmm_Wlasnosci
begin

section \<open>Page tables as trees\<close>

text \<open>
  The walker by recursion on the level, the tables a root reaches, and the invariant that they form
  a tree whose frames are not free. A change of memory outside the reached tables changes no
  walk.
\<close>

subsection \<open>Bit fields of entries and addresses\<close>

definition pole :: "nat \<Rightarrow> nat \<Rightarrow> u64" where
  "pole a b = mask b AND NOT (mask a)"

lemma bit_pole: "bit (pole a b) n \<longleftrightarrow> a \<le> n \<and> n < b \<and> n < 64"
  by (auto simp: pole_def bit_and_iff bit_not_iff bit_mask_iff)

lemma maski_pole:
  "MASKA_ADRESU_4K = pole 12 52" "MASKA_ADRESU_2M = pole 21 52" "MASKA_ADRESU_1G = pole 30 52"
  by (simp_all add: pole_def MASKA_ADRESU_4K_def MASKA_ADRESU_2M_def MASKA_ADRESU_1G_def mask_eq_exp_minus_1)

lemma maska_indeksu: "(0x1FF :: u64) = mask 9"
  by (simp add: mask_eq_exp_minus_1)

lemma maska_offsetu: "STRONA_4K - 1 = mask 12" "(0xFFF :: u64) = mask 12"
  by (simp_all add: mask_eq_exp_minus_1)

lemma and_flaga: "(e :: u64) AND push_bit n 1 = 0 \<longleftrightarrow> \<not> bit e n"
  by (simp add: bit_iff_and_push_bit_not_eq_0)

lemma and_flagi:
  "(e :: u64) AND PTE_PRESENT = 0 \<longleftrightarrow> \<not> bit e 0" "e AND PTE_WRITE = 0 \<longleftrightarrow> \<not> bit e 1"
  "e AND PTE_USER = 0 \<longleftrightarrow> \<not> bit e 2" "e AND PDE_PS = 0 \<longleftrightarrow> \<not> bit e 7" "e AND PDE_PAT_LARGE = 0 \<longleftrightarrow> \<not> bit e 12"
  using and_flaga [of e 0] and_flaga [of e 1] and_flaga [of e 2] and_flaga [of e 7] and_flaga [of e 12]
  by (simp_all add: push_bit_eq_mult)

lemma bit_push_1: "bit (push_bit k 1 :: u64) n \<longleftrightarrow> n = k \<and> k < 64"
  unfolding bit_push_bit_iff bit_1_iff by auto

lemma bit_flagi:
  "bit PTE_PRESENT n \<longleftrightarrow> n = 0" "bit PTE_WRITE n \<longleftrightarrow> n = 1" "bit PTE_USER n \<longleftrightarrow> n = 2"
  "bit PDE_PS n \<longleftrightarrow> n = 7" "bit PDE_PAT_LARGE n \<longleftrightarrow> n = 12"
  using bit_push_1 [of 0 n] bit_push_1 [of 1 n] bit_push_1 [of 2 n] bit_push_1 [of 7 n] bit_push_1 [of 12 n]
  by (simp_all add: push_bit_eq_mult bit_1_iff)

lemma bit_mask_u64: "bit (mask k :: u64) n \<longleftrightarrow> n < k \<and> n < 64"
  by (auto simp: bit_mask_iff)

lemma bit_zachowane: "bit MASKA_FLAG_ZACHOWANYCH n \<longleftrightarrow> n < 7 \<or> n = 8 \<or> n = 63"
proof -
  have e: "MASKA_FLAG_ZACHOWANYCH = mask 7 OR push_bit 8 1 OR push_bit 63 1"
    by (simp add: MASKA_FLAG_ZACHOWANYCH_def mask_eq_exp_minus_1 push_bit_eq_mult)
  show ?thesis unfolding e bit_or_iff bit_push_1 bit_mask_u64 by auto
qed

lemma bit_lisc4k: "bit MASKA_FLAG_LISCIA_4K n \<longleftrightarrow> n < 9"
proof -
  have e: "MASKA_FLAG_LISCIA_4K = mask 9"
    by (simp add: MASKA_FLAG_LISCIA_4K_def mask_eq_exp_minus_1)
  show ?thesis unfolding e bit_mask_u64 by auto
qed

lemma dostepna_bity:
  "tabela_fizyczna_bezposrednio_dostepna t \<Longrightarrow> t \<noteq> 0 \<and> (\<forall>n. bit t n \<longrightarrow> 12 \<le> n \<and> n < 30)"
proof -
  assume t: "tabela_fizyczna_bezposrednio_dostepna t"
  have "unat t < 2 ^ 30" using t by (simp add: tabela_fizyczna_bezposrednio_dostepna_def word_less_nat_alt)
  then have "take_bit 30 t = t"
    by (metis take_bit_nat_eq_self unsigned_take_bit_eq word_unat_eq_iff)
  then have 1: "bit t n \<Longrightarrow> n < 30" for n by (metis bit_take_bit_iff)
  have m: "t AND mask 12 = 0" using t by (simp add: tabela_fizyczna_bezposrednio_dostepna_def maska_offsetu)
  have 2: "bit t n \<Longrightarrow> 12 \<le> n" for n
  proof (rule ccontr)
    assume "bit t n" "\<not> 12 \<le> n"
    then have "bit (t AND mask 12) n" by (simp add: bit_and_iff bit_mask_u64)
    then show False by (simp add: m)
  qed
  show ?thesis using t 1 2 by (auto simp: tabela_fizyczna_bezposrednio_dostepna_def)
qed

lemma dostepna_maska:
  assumes "tabela_fizyczna_bezposrednio_dostepna t"
  shows "t AND MASKA_ADRESU_4K = t"
  using dostepna_bity [OF assms] by (intro bit_word_eqI) (auto simp: maski_pole bit_and_iff bit_pole)

subsection \<open>Indices by level\<close>

definition indeks :: "nat \<Rightarrow> u64 \<Rightarrow> nat" where
  "indeks l va = unat (drop_bit (12 + 9 * (l - 1)) va AND mask 9)"

lemma indeksy:
  "indeks_pml4 = indeks 4" "indeks_pdp = indeks 3" "indeks_pd = indeks 2" "indeks_pt = indeks 1"
  by (simp_all add: fun_eq_iff indeks_def indeks_pml4_def indeks_pdp_def indeks_pd_def indeks_pt_def maska_indeksu)

lemma indeks_less [simp]: "indeks l va < 512"
  by (simp add: indeks_def unat_and_mask)

lemma indeks_eq_iff:
  "indeks l va = indeks l va' \<longleftrightarrow>
     (\<forall>n < 9. bit va (12 + 9 * (l - 1) + n) = bit va' (12 + 9 * (l - 1) + n))"
proof -
  have "indeks l va = indeks l va' \<longleftrightarrow>
      drop_bit (12 + 9 * (l - 1)) va AND mask 9 = drop_bit (12 + 9 * (l - 1)) va' AND mask 9"
    unfolding indeks_def word_unat_eq_iff ..
  also have "\<dots> \<longleftrightarrow> (\<forall>n < 9. bit va (12 + 9 * (l - 1) + n) = bit va' (12 + 9 * (l - 1) + n))"
  proof -
    have lt: "n < 9 \<Longrightarrow> n < 64" for n :: nat by simp
    show ?thesis by (simp add: bit_eq_iff bit_and_iff bit_mask_u64 bit_drop_bit_eq) (metis lt)
  qed
  finally show ?thesis .
qed

lemma bit_indeks:
  "bit (of_nat (indeks l va) :: u64) n \<longleftrightarrow> n < 9 \<and> bit va (12 + 9 * (l - 1) + n)"
  by (auto simp: indeks_def bit_and_iff bit_mask_u64 bit_drop_bit_eq)

subsection \<open>The walker by levels\<close>

type_synonym tabele = "u64 \<Rightarrow> nat \<Rightarrow> u64"

definition dziecko :: "nat \<Rightarrow> u64 \<Rightarrow> u64" where
  "dziecko l e = (if \<not> bit e 0 \<or> l = 1 \<or> duzy_lisc l e then 0 else tabela_z_wpisu e)"

fun spacer :: "tabele \<Rightarrow> nat \<Rightarrow> u64 \<Rightarrow> u64 \<Rightarrow> bool \<Rightarrow> bool \<Rightarrow> (nat \<times> u64 \<times> bool \<times> bool) option" where
  "spacer T 0 t va u w = None"
| "spacer T (Suc l) t va u w =
     (let e = T t (indeks (Suc l) va) in
      if \<not> bit e 0 then None
      else if l = 0 \<or> duzy_lisc (Suc l) e then Some (Suc l, e, u \<and> bit e 2, w \<and> bit e 1)
      else if dziecko (Suc l) e = 0 then None
      else spacer T l (dziecko (Suc l) e) va (u \<and> bit e 2) (w \<and> bit e 1))"

definition rozmiar_poziomu :: "nat \<Rightarrow> u64" where
  "rozmiar_poziomu l = (if l = 3 then STRONA_1G else if l = 2 then STRONA_2M else STRONA_4K)"

lemma duzy_lisc_bit: "duzy_lisc l e \<longleftrightarrow> (l = 3 \<or> l = 2) \<and> bit e 7"
  by (simp add: duzy_lisc_def and_flagi)

lemma sprawdz_spacer:
  "sprawdz_mapowanie v pml4 va =
     (if pml4 = 0 \<or> \<not> adres_kanoniczny va then wynik_pusty
      else case spacer (vm_tabele v) 4 pml4 va True True of
        None \<Rightarrow> wynik_pusty
      | Some (l, e, u, w) \<Rightarrow> \<lparr>ww_obecna = True, ww_user = u, ww_zapisywalna = w, ww_duza = (l \<noteq> 1),
          ww_wpis = e, ww_rozmiar = rozmiar_poziomu l\<rparr>)"
  by (simp add: sprawdz_mapowanie_def indeksy and_flagi numeral_eq_Suc [of "num.Bit0 (num.Bit0 num.One)"]
      eval_nat_numeral(2,3) Let_def dziecko_def duzy_lisc_bit rozmiar_poziomu_def)

subsection \<open>Reached tables\<close>

fun zasieg :: "tabele \<Rightarrow> nat \<Rightarrow> u64 \<Rightarrow> u64 set" where
  "zasieg T 0 t = {}"
| "zasieg T (Suc l) t =
     insert t (\<Union>i \<in> {..< 512}. if dziecko (Suc l) (T t i) = 0 then {} else zasieg T l (dziecko (Suc l) (T t i)))"

fun drzewo :: "tabele \<Rightarrow> nat \<Rightarrow> u64 \<Rightarrow> bool" where
  "drzewo T 0 t = True"
| "drzewo T (Suc l) t =
     ((\<forall>i < 512. dziecko (Suc l) (T t i) \<noteq> 0 \<longrightarrow>
         t \<notin> zasieg T l (dziecko (Suc l) (T t i)) \<and> drzewo T l (dziecko (Suc l) (T t i))) \<and>
      (\<forall>i < 512. \<forall>j < 512. i \<noteq> j \<and> dziecko (Suc l) (T t i) \<noteq> 0 \<and> dziecko (Suc l) (T t j) \<noteq> 0 \<longrightarrow>
         zasieg T l (dziecko (Suc l) (T t i)) \<inter> zasieg T l (dziecko (Suc l) (T t j)) = {}))"

definition zgodne :: "tabele \<Rightarrow> tabele \<Rightarrow> u64 set \<Rightarrow> bool" where
  "zgodne T T' Z \<longleftrightarrow> (\<forall>t \<in> Z. \<forall>i < 512. T' t i = T t i)"

lemma zgodne_zasieg:
  "zgodne T T' (zasieg T l t) \<Longrightarrow> zasieg T' l t = zasieg T l t \<and> drzewo T' l t = drzewo T l t \<and>
     (\<forall>va u w. spacer T' l t va u w = spacer T l t va u w)"
proof (induction l arbitrary: t)
  case 0
  then show ?case by simp
next
  case (Suc l)
  have wpis: "T' t i = T t i" if "i < 512" for i
    using Suc.prems that by (simp add: zgodne_def)
  have ih: "zasieg T' l (dziecko (Suc l) (T t i)) = zasieg T l (dziecko (Suc l) (T t i))"
    "drzewo T' l (dziecko (Suc l) (T t i)) = drzewo T l (dziecko (Suc l) (T t i))"
    "spacer T' l (dziecko (Suc l) (T t i)) va u w = spacer T l (dziecko (Suc l) (T t i)) va u w"
    if "i < 512" "dziecko (Suc l) (T t i) \<noteq> 0" for i va u w
  proof -
    have "zgodne T T' (zasieg T l (dziecko (Suc l) (T t i)))"
      using Suc.prems that by (auto simp: zgodne_def)
    from Suc.IH [OF this] show "zasieg T' l (dziecko (Suc l) (T t i)) = zasieg T l (dziecko (Suc l) (T t i))"
      "drzewo T' l (dziecko (Suc l) (T t i)) = drzewo T l (dziecko (Suc l) (T t i))"
      "spacer T' l (dziecko (Suc l) (T t i)) va u w = spacer T l (dziecko (Suc l) (T t i)) va u w" by auto
  qed
  have z: "zasieg T' (Suc l) t = zasieg T (Suc l) t"
    unfolding zasieg.simps by (rule arg_cong [of _ _ "insert t"], rule SUP_cong) (use wpis ih(1) in auto)
  have d: "drzewo T' (Suc l) t = drzewo T (Suc l) t"
    using wpis ih(1,2) by (simp cong: conj_cong imp_cong)
  have "spacer T' (Suc l) t va u w = spacer T (Suc l) t va u w" for va u w
    using wpis [OF indeks_less, of "Suc l" va] ih(3) [OF indeks_less, of "Suc l" va]
    by (simp add: Let_def)
  with z d show ?case by blast
qed

lemma zasieg_dziecka:
  "i < 512 \<Longrightarrow> dziecko (Suc l) (T t i) \<noteq> 0 \<Longrightarrow> zasieg T l (dziecko (Suc l) (T t i)) \<subseteq> zasieg T (Suc l) t"
  by auto

lemma korzen_zasieg: "0 < l \<Longrightarrow> t \<in> zasieg T l t"
  by (cases l) auto

lemma drzewo_dziecka:
  "drzewo T (Suc l) t \<Longrightarrow> i < 512 \<Longrightarrow> dziecko (Suc l) (T t i) \<noteq> 0 \<Longrightarrow>
     drzewo T l (dziecko (Suc l) (T t i)) \<and> t \<notin> zasieg T l (dziecko (Suc l) (T t i))"
  by simp

lemma drzewo_rozne:
  "drzewo T (Suc l) t \<Longrightarrow> i < 512 \<Longrightarrow> j < 512 \<Longrightarrow> i \<noteq> j \<Longrightarrow>
     dziecko (Suc l) (T t i) \<noteq> 0 \<Longrightarrow> dziecko (Suc l) (T t j) \<noteq> 0 \<Longrightarrow>
     zasieg T l (dziecko (Suc l) (T t i)) \<inter> zasieg T l (dziecko (Suc l) (T t j)) = {}"
  unfolding drzewo.simps by blast

lemma dziecko_0 [simp]: "dziecko l 0 = 0"
  by (simp add: dziecko_def)

text \<open>Replacing one entry of the root: the reached set, the tree and the walks, in terms of the
  subtree behind the new entry.\<close>

lemma podmiana:
  assumes T: "drzewo T (Suc l) t" and i: "i < 512"
    and bez: "\<And>j. j < 512 \<Longrightarrow> j \<noteq> i \<Longrightarrow> T' t j = T t j"
    and obce: "\<And>j. j < 512 \<Longrightarrow> j \<noteq> i \<Longrightarrow> dziecko (Suc l) (T t j) \<noteq> 0 \<Longrightarrow>
      zgodne T T' (zasieg T l (dziecko (Suc l) (T t j)))"
    and nowe: "dziecko (Suc l) (T' t i) \<noteq> 0 \<Longrightarrow> drzewo T' l (dziecko (Suc l) (T' t i)) \<and>
      t \<notin> zasieg T' l (dziecko (Suc l) (T' t i)) \<and>
      (\<forall>j < 512. j \<noteq> i \<and> dziecko (Suc l) (T t j) \<noteq> 0 \<longrightarrow>
         zasieg T' l (dziecko (Suc l) (T' t i)) \<inter> zasieg T l (dziecko (Suc l) (T t j)) = {})"
  shows "drzewo T' (Suc l) t"
    and "zasieg T' (Suc l) t \<subseteq> zasieg T (Suc l) t \<union>
      (if dziecko (Suc l) (T' t i) = 0 then {} else zasieg T' l (dziecko (Suc l) (T' t i)))"
    and "\<And>va u w. indeks (Suc l) va \<noteq> i \<Longrightarrow> spacer T' (Suc l) t va u w = spacer T (Suc l) t va u w"
proof -
  have o: "zasieg T' l (dziecko (Suc l) (T t j)) = zasieg T l (dziecko (Suc l) (T t j))"
    "drzewo T' l (dziecko (Suc l) (T t j))"
    "\<And>va u w. spacer T' l (dziecko (Suc l) (T t j)) va u w = spacer T l (dziecko (Suc l) (T t j)) va u w"
    if "j < 512" "j \<noteq> i" "dziecko (Suc l) (T t j) \<noteq> 0" for j
    using zgodne_zasieg [OF obce [OF that]] drzewo_dziecka [OF T that(1,3)] by auto
  show "drzewo T' (Suc l) t"
    unfolding drzewo.simps
  proof (intro conjI allI impI)
    fix j assume j: "j < 512" "dziecko (Suc l) (T' t j) \<noteq> 0"
    show "t \<notin> zasieg T' l (dziecko (Suc l) (T' t j))" "drzewo T' l (dziecko (Suc l) (T' t j))"
      using j nowe o bez drzewo_dziecka [OF T] by (cases "j = i"; simp)+
  next
    fix j k assume j: "j < 512" and k: "k < 512"
      and jk: "j \<noteq> k \<and> dziecko (Suc l) (T' t j) \<noteq> 0 \<and> dziecko (Suc l) (T' t k) \<noteq> 0"
    consider "j = i" "k \<noteq> i" | "k = i" "j \<noteq> i" | "j \<noteq> i" "k \<noteq> i" using jk by blast
    then show "zasieg T' l (dziecko (Suc l) (T' t j)) \<inter> zasieg T' l (dziecko (Suc l) (T' t k)) = {}"
    proof cases
      case 1
      then show ?thesis using nowe j k jk o(1) [OF k] bez [OF k] by simp
    next
      case 2
      then show ?thesis using nowe j k jk o(1) [OF j] bez [OF j] by (simp add: Int_commute)
    next
      case 3
      then show ?thesis
        using j k jk o(1) [OF j] o(1) [OF k] bez [OF j] bez [OF k] drzewo_rozne [OF T j k] by simp
    qed
  qed
  show "zasieg T' (Suc l) t \<subseteq> zasieg T (Suc l) t \<union>
      (if dziecko (Suc l) (T' t i) = 0 then {} else zasieg T' l (dziecko (Suc l) (T' t i)))"
  proof
    fix x assume "x \<in> zasieg T' (Suc l) t"
    then consider "x = t" | j where "j < 512" "dziecko (Suc l) (T' t j) \<noteq> 0" "x \<in> zasieg T' l (dziecko (Suc l) (T' t j))"
      by (auto split: if_splits)
    then show "x \<in> zasieg T (Suc l) t \<union>
      (if dziecko (Suc l) (T' t i) = 0 then {} else zasieg T' l (dziecko (Suc l) (T' t i)))"
    proof cases
      case (2 j)
      then show ?thesis
        using o(1) [of j] bez [of j] zasieg_dziecka [of j l T t] by (cases "j = i") auto
    qed simp
  qed
  show "spacer T' (Suc l) t va u w = spacer T (Suc l) t va u w" if "indeks (Suc l) va \<noteq> i" for va u w
    using bez [OF indeks_less that] o(3) [OF indeks_less that] by (simp add: Let_def)
qed

declare zasieg.simps(2) [simp del] drzewo.simps(2) [simp del] spacer.simps(2) [simp del]

end
