(* ===== verification/Vmm_Mapowanie.thy ===== *)
theory Vmm_Mapowanie
  imports Vmm_Drzewo
begin

section \<open>Mapping a page keeps the tree and every other translation\<close>

text \<open>
  Each change the mapper makes to one entry of a table (more rights, a new empty table, a large
  page split into a table) is a step that keeps the tree, takes its frames from the PMM and keeps
  the physical address and the leaf rights of every translation. Mapping is a chain of such steps
  and the write of one leaf.
\<close>

subsection \<open>Frames for tables\<close>

definition wolne_t :: "vmm \<Rightarrow> u64 set" where
  "wolne_t v = {t. unat t \<in> adresy (wolne (vm_pmm v))}"

lemma adresy_wolne_less: "a \<in> adresy (wolne p) \<Longrightarrow> a < 4294967296"
  using dostepne_adres wolne_dostepne by (fastforce simp: adresy_def)

lemma pisz_wpis_pola [simp]:
  "vm_tabele (pisz_wpis v t i e) = (vm_tabele v)(t := (vm_tabele v t)(i := e))"
  "vm_pmm (pisz_wpis v t i e) = vm_pmm v" "vm_cr3 (pisz_wpis v t i e) = vm_cr3 v"
  "vm_bazowe (pisz_wpis v t i e) = vm_bazowe v" "vm_gotowy (pisz_wpis v t i e) = vm_gotowy v"
  "wolne_t (pisz_wpis v t i e) = wolne_t v"
  by (simp_all add: pisz_wpis_def wolne_t_def)

lemma pisz_tabele_pola [simp]:
  "vm_tabele (pisz_tabele v t f) = (vm_tabele v)(t := (\<lambda>i. if i < 512 then f i else vm_tabele v t i))"
  "vm_pmm (pisz_tabele v t f) = vm_pmm v" "vm_cr3 (pisz_tabele v t f) = vm_cr3 v"
  "vm_bazowe (pisz_tabele v t f) = vm_bazowe v" "vm_gotowy (pisz_tabele v t f) = vm_gotowy v"
  "wolne_t (pisz_tabele v t f) = wolne_t v"
  by (simp_all add: pisz_tabele_def wolne_t_def)

lemma alokuj_tabele_spec:
  assumes s: "pmm_sprawny (vm_pmm v)" and a: "alokuj_tabele_stron v = (c, v')"
  shows "pmm_sprawny (vm_pmm v') \<and>
    (if c = 0 then vm_tabele v' = vm_tabele v \<and> wolne_t v' = wolne_t v
     else c \<in> wolne_t v \<and> wolne_t v' = wolne_t v - {c} \<and> tabela_fizyczna_bezposrednio_dostepna c \<and>
       vm_tabele v' = (vm_tabele v)(c := (\<lambda>i. if i < 512 then 0 else vm_tabele v c i)))"
proof -
  obtain r p where z: "ZaalokujRamke (vm_pmm v) = (r, p)" by fastforce
  note sp = pmm_pula.alokuj_spec [OF s z]
  have z0: "0 \<notin> adresy (wolne (vm_pmm v))"
    using s zero_adresy [of "vm_pmm v"] wolne_dostepne [of "vm_pmm v"] by (auto simp: pmm_sprawny_def adresy_def)
  show ?thesis
  proof (cases "r = 0")
    case True
    then show ?thesis
      using a z sp z0 by (auto simp: alokuj_tabele_stron_def wolne_t_def)
  next
    case False
    then have r: "r \<in> adresy (wolne (vm_pmm v))" using sp by blast
    have ur: "unat (of_nat r :: u64) = r"
      using adresy_wolne_less [OF r] by (simp add: unat_of_nat)
    show ?thesis
    proof (cases "tabela_fizyczna_bezposrednio_dostepna (of_nat r)")
      case True
      then have c: "c = of_nat r" "v' = WyzerujStrone (v\<lparr>vm_pmm := p\<rparr>) c"
        using a z False by (auto simp: alokuj_tabele_stron_def Let_def)
      have c0: "c \<noteq> 0" using True c(1) by (auto simp: tabela_fizyczna_bezposrednio_dostepna_def)
      have "unat t = r \<longleftrightarrow> t = c" for t :: u64
        unfolding word_unat_eq_iff using ur c(1) by simp
      then have "wolne_t v' = wolne_t v - {c}"
        using c(2) c0 sp by (auto simp: WyzerujStrone_def wolne_t_def)
      moreover have "c \<in> wolne_t v" using r ur c(1) by (simp add: wolne_t_def)
      moreover have "vm_tabele v' = (vm_tabele v)(c := (\<lambda>i. if i < 512 then 0 else vm_tabele v c i))"
        using c0 by (auto simp: c(2) WyzerujStrone_def fun_eq_iff)
      moreover have "pmm_sprawny (vm_pmm v')" using c(2) c0 sp by (simp add: WyzerujStrone_def)
      ultimately show ?thesis using True c(1) c0 by simp
    next
      case nd: False
      then have c: "c = 0" "v' = v\<lparr>vm_pmm := ZwolnijRamke p r\<rparr>"
        using a z False by (auto simp: alokuj_tabele_stron_def Let_def)
      have "r \<in> adresy (dostepne p)"
        using r sp wolne_dostepne [of "vm_pmm v"] by (auto simp: adresy_def)
      then show ?thesis
        using c sp r pmm_pula.zwolnij_jedna_spec [of p r] by (auto simp: wolne_t_def)
    qed
  qed
qed

subsection \<open>Translations that are kept\<close>

definition adres_ramki :: "nat \<Rightarrow> u64 \<Rightarrow> u64 \<Rightarrow> u64" where
  "adres_ramki l e va =
     (if l = 3 then (e AND pole 30 52) OR (va AND pole 12 30)
      else if l = 2 then (e AND pole 21 52) OR (va AND pole 12 21)
      else e AND pole 12 52)"

fun zachowana :: "bool \<Rightarrow> u64 \<Rightarrow> (nat \<times> u64 \<times> bool \<times> bool) option \<Rightarrow> (nat \<times> u64 \<times> bool \<times> bool) option \<Rightarrow> bool" where
  "zachowana user va None None = True"
| "zachowana user va (Some (l, e, u, w)) (Some (l', e', u', w')) \<longleftrightarrow>
     adres_ramki l' e' va = adres_ramki l e va \<and> bit e' 2 = bit e 2 \<and> bit e' 1 = bit e 1 \<and>
     (u \<longrightarrow> u') \<and> (w \<longrightarrow> w') \<and> (\<not> user \<longrightarrow> u' = u)"
| "zachowana user va _ _ = False"

lemma zachowana_refl [simp]: "zachowana user va r r"
  by (cases r) auto

lemma zachowana_trans:
  "zachowana user va r r1 \<Longrightarrow> zachowana user va r1 r2 \<Longrightarrow> zachowana user va r r2"
  by (cases r; cases r1; cases r2) auto

lemma spacer_prawa:
  "spacer T l t va u w = map_option (\<lambda>(l, e, u', w'). (l, e, u \<and> u', w \<and> w')) (spacer T l t va True True)"
proof (induction l arbitrary: t u w)
  case 0
  then show ?case by simp
next
  case (Suc l)
  define e where "e = T t (indeks (Suc l) va)"
  show ?case
    using Suc.IH [of "dziecko (Suc l) e" "u \<and> bit e 2" "w \<and> bit e 1"]
      Suc.IH [of "dziecko (Suc l) e" "bit e 2" "bit e 1"]
    by (simp add: spacer.simps(2) e_def [symmetric] Let_def option.map_comp o_def case_prod_beta conj_assoc)
qed

lemma spacer_liscia: "spacer T l t va u w = Some (k, e, u', w') \<Longrightarrow> (u' \<longrightarrow> bit e 2) \<and> (w' \<longrightarrow> bit e 1) \<and> bit e 0"
  by (induction l arbitrary: t u w) (auto simp: spacer.simps(2) Let_def split: if_splits)

lemma zachowana_prawa:
  assumes "zachowana user va (spacer T l t va True True) (spacer T' l t va True True)"
    "u \<longrightarrow> u'" "w \<longrightarrow> w'" "\<not> user \<longrightarrow> u' = u"
  shows "zachowana user va (spacer T l t va u w) (spacer T' l t va u' w')"
  unfolding spacer_prawa [of T l t va u w] spacer_prawa [of T' l t va u' w']
  using assms by (cases "spacer T l t va True True"; cases "spacer T' l t va True True") auto

subsection \<open>Steps on one entry\<close>

definition vmm_drzewo :: "nat \<Rightarrow> u64 \<Rightarrow> vmm \<Rightarrow> bool" where
  "vmm_drzewo L t v \<longleftrightarrow> pmm_sprawny (vm_pmm v) \<and> drzewo (vm_tabele v) L t \<and>
     zasieg (vm_tabele v) L t \<inter> wolne_t v = {}"

definition krok :: "bool \<Rightarrow> nat \<Rightarrow> u64 \<Rightarrow> nat \<Rightarrow> vmm \<Rightarrow> vmm \<Rightarrow> bool" where
  "krok user L t i v v' \<longleftrightarrow> pmm_sprawny (vm_pmm v') \<and> wolne_t v' \<subseteq> wolne_t v \<and>
     (\<forall>x j. x \<notin> wolne_t v \<and> (x \<noteq> t \<or> j \<noteq> i) \<longrightarrow> vm_tabele v' x j = vm_tabele v x j) \<and>
     drzewo (vm_tabele v') L t \<and>
     zasieg (vm_tabele v') L t \<subseteq> zasieg (vm_tabele v) L t \<union> (wolne_t v - wolne_t v') \<and>
     (\<forall>va u w. zachowana user va (spacer (vm_tabele v) L t va u w) (spacer (vm_tabele v') L t va u w))"

lemma krok_drzewo: "vmm_drzewo L t v \<Longrightarrow> krok user L t i v v' \<Longrightarrow> vmm_drzewo L t v'"
  unfolding vmm_drzewo_def krok_def by blast

lemma krok_trans: "krok user L t i v v1 \<Longrightarrow> krok user L t i v1 v2 \<Longrightarrow> krok user L t i v v2"
  unfolding krok_def
proof (elim conjE, intro conjI)
  assume a: "wolne_t v1 \<subseteq> wolne_t v" "wolne_t v2 \<subseteq> wolne_t v1"
    "zasieg (vm_tabele v1) L t \<subseteq> zasieg (vm_tabele v) L t \<union> (wolne_t v - wolne_t v1)"
    "zasieg (vm_tabele v2) L t \<subseteq> zasieg (vm_tabele v1) L t \<union> (wolne_t v1 - wolne_t v2)"
  show "wolne_t v2 \<subseteq> wolne_t v" using a by blast
  show "zasieg (vm_tabele v2) L t \<subseteq> zasieg (vm_tabele v) L t \<union> (wolne_t v - wolne_t v2)"
    using a by blast
  assume "\<forall>x j. x \<notin> wolne_t v \<and> (x \<noteq> t \<or> j \<noteq> i) \<longrightarrow> vm_tabele v1 x j = vm_tabele v x j"
    "\<forall>x j. x \<notin> wolne_t v1 \<and> (x \<noteq> t \<or> j \<noteq> i) \<longrightarrow> vm_tabele v2 x j = vm_tabele v1 x j"
  then show "\<forall>x j. x \<notin> wolne_t v \<and> (x \<noteq> t \<or> j \<noteq> i) \<longrightarrow> vm_tabele v2 x j = vm_tabele v x j"
    using a(1) by (metis subsetD)
  assume "\<forall>va u w. zachowana user va (spacer (vm_tabele v) L t va u w) (spacer (vm_tabele v1) L t va u w)"
    "\<forall>va u w. zachowana user va (spacer (vm_tabele v1) L t va u w) (spacer (vm_tabele v2) L t va u w)"
  then show "\<forall>va u w. zachowana user va (spacer (vm_tabele v) L t va u w) (spacer (vm_tabele v2) L t va u w)"
    using zachowana_trans by blast
qed

lemma krok_bez_zmian:
  "vmm_drzewo L t v \<Longrightarrow> vm_tabele v' = vm_tabele v \<Longrightarrow> wolne_t v' \<subseteq> wolne_t v \<Longrightarrow> pmm_sprawny (vm_pmm v') \<Longrightarrow>
     krok user L t i v v'"
  unfolding vmm_drzewo_def krok_def by auto

text \<open>A table with no children of its own, in a frame from the pool, behind a new entry.\<close>

lemma spacer_wpis:
  "T t (indeks (Suc l) va) = e \<Longrightarrow> bit e 0 \<Longrightarrow> dziecko (Suc l) e = c \<Longrightarrow> c \<noteq> 0 \<Longrightarrow> 0 < l \<Longrightarrow>
     spacer T (Suc l) t va u w = spacer T l c va (u \<and> bit e 2) (w \<and> bit e 1)"
  by (auto simp: spacer.simps(2) Let_def dziecko_def split: if_splits)

lemma krok_nowa_tabela:
  assumes d: "vmm_drzewo (Suc (Suc l)) t v" and i: "i < 512"
    and c: "c \<in> wolne_t v" "c \<notin> wolne_t v'" "c \<noteq> 0"
    and p: "pmm_sprawny (vm_pmm v')" "wolne_t v' \<subseteq> wolne_t v"
    and T: "vm_tabele v' = (vm_tabele v)(c := g, t := (vm_tabele v t)(i := e'))"
    and g: "\<And>j. j < 512 \<Longrightarrow> dziecko (Suc l) (g j) = 0"
    and e': "dziecko (Suc (Suc l)) e' = c" "bit e' 0"
    and R: "\<And>va u w. indeks (Suc (Suc l)) va = i \<Longrightarrow>
      zachowana user va (spacer (vm_tabele v) (Suc (Suc l)) t va u w)
        (let f = g (indeks (Suc l) va) in
         if bit f 0 \<and> (l = 0 \<or> duzy_lisc (Suc l) f) then Some (Suc l, f, u \<and> bit e' 2 \<and> bit f 2, w \<and> bit e' 1 \<and> bit f 1) else None)"
  shows "krok user (Suc (Suc l)) t i v v'"
proof -
  let ?T = "vm_tabele v" and ?T' = "vm_tabele v'"
  from d have tree: "drzewo ?T (Suc (Suc l)) t" and roz: "zasieg ?T (Suc (Suc l)) t \<inter> wolne_t v = {}"
    by (simp_all add: vmm_drzewo_def)
  have tz: "t \<in> zasieg ?T (Suc (Suc l)) t" by (simp add: korzen_zasieg)
  then have ct: "c \<noteq> t" using roz c by blast
  have Tt: "?T' t j = (if j = i then e' else ?T t j)" for j by (simp add: T)
  have Ti: "?T' t i = e'" by (simp add: Tt)
  have Tc: "?T' c = g" using ct by (simp add: T)
  have inne: "?T' x = ?T x" if "x \<noteq> c" "x \<noteq> t" for x using that by (simp add: T)
  have zc: "zasieg ?T' (Suc l) c = {c}" by (auto simp: zasieg.simps(2) Tc g)
  have dc: "drzewo ?T' (Suc l) c" by (simp add: drzewo.simps(2) Tc g)
  have obce: "zgodne ?T ?T' (zasieg ?T (Suc l) (dziecko (Suc (Suc l)) (?T t j)))"
    if "j < 512" "dziecko (Suc (Suc l)) (?T t j) \<noteq> 0" for j
  proof -
    have "zasieg ?T (Suc l) (dziecko (Suc (Suc l)) (?T t j)) \<subseteq> zasieg ?T (Suc (Suc l)) t"
      by (rule zasieg_dziecka) (use that in auto)
    then have "c \<notin> zasieg ?T (Suc l) (dziecko (Suc (Suc l)) (?T t j))"
      using roz c(1) by blast
    moreover have "t \<notin> zasieg ?T (Suc l) (dziecko (Suc (Suc l)) (?T t j))"
      using drzewo_dziecka [OF tree that] by blast
    ultimately show ?thesis unfolding zgodne_def by (metis inne)
  qed
  have P1: "\<And>j. j < 512 \<Longrightarrow> j \<noteq> i \<Longrightarrow> ?T' t j = ?T t j" by (simp add: Tt)
  have P2: "\<And>j. j < 512 \<Longrightarrow> j \<noteq> i \<Longrightarrow> dziecko (Suc (Suc l)) (?T t j) \<noteq> 0 \<Longrightarrow>
      zgodne ?T ?T' (zasieg ?T (Suc l) (dziecko (Suc (Suc l)) (?T t j)))" using obce by blast
  have rozc: "zasieg ?T (Suc l) (dziecko (Suc (Suc l)) (?T t j)) \<inter> {c} = {}"
    if "j < 512" "dziecko (Suc (Suc l)) (?T t j) \<noteq> 0" for j
    using zasieg_dziecka [of j "Suc l" ?T t, OF that] roz c(1) by blast
  have P3: "drzewo ?T' (Suc l) (dziecko (Suc (Suc l)) (?T' t i)) \<and>
      t \<notin> zasieg ?T' (Suc l) (dziecko (Suc (Suc l)) (?T' t i)) \<and>
      (\<forall>j < 512. j \<noteq> i \<and> dziecko (Suc (Suc l)) (?T t j) \<noteq> 0 \<longrightarrow>
         zasieg ?T' (Suc l) (dziecko (Suc (Suc l)) (?T' t i)) \<inter> zasieg ?T (Suc l) (dziecko (Suc (Suc l)) (?T t j)) = {})"
    unfolding Ti e'(1) zc using dc ct rozc by blast
  note pod = podmiana [of ?T "Suc l" t i ?T', OF tree i P1 P2 P3]
  have "zachowana user va (spacer ?T (Suc (Suc l)) t va u w) (spacer ?T' (Suc (Suc l)) t va u w)" for va u w
  proof (cases "indeks (Suc (Suc l)) va = i")
    case True
    define f where "f = g (indeks (Suc l) va)"
    have f0: "dziecko (Suc l) f = 0" by (simp add: f_def g)
    have "spacer ?T' (Suc (Suc l)) t va u w = spacer ?T' (Suc l) c va (u \<and> bit e' 2) (w \<and> bit e' 1)"
      by (rule spacer_wpis) (use True Tt e' c(3) in auto)
    also have "\<dots> = (if bit f 0 \<and> (l = 0 \<or> duzy_lisc (Suc l) f)
        then Some (Suc l, f, u \<and> bit e' 2 \<and> bit f 2, w \<and> bit e' 1 \<and> bit f 1) else None)"
      using f0 by (simp add: spacer.simps(2) Tc f_def [symmetric] Let_def conj_assoc)
    finally show ?thesis using R [OF True, of u w] by (simp add: f_def [symmetric] Let_def)
  next
    case False
    then show ?thesis by (simp add: pod(3))
  qed
  moreover have "zasieg ?T' (Suc (Suc l)) t \<subseteq> zasieg ?T (Suc (Suc l)) t \<union> (wolne_t v - wolne_t v')"
    using pod(2) c unfolding Ti e'(1) zc by auto
  ultimately show ?thesis
    unfolding krok_def using p pod(1) T c(1) by auto
qed

lemma tabela_z_wpisu_bity:
  "tabela_z_wpisu e = (if bit e 0 \<and> tabela_fizyczna_bezposrednio_dostepna (e AND pole 12 52) then e AND pole 12 52 else 0)"
  by (simp add: tabela_z_wpisu_def and_flagi maski_pole Let_def)

lemma dziecko_cong:
  assumes "bit e' 0 = bit e 0" "bit e' 7 = bit e 7" "\<And>n. 12 \<le> n \<Longrightarrow> n < 52 \<Longrightarrow> bit e' n = bit e n"
  shows "dziecko l e' = dziecko l e"
proof -
  have "e' AND pole 12 52 = e AND pole 12 52"
    by (rule bit_word_eqI) (use assms(3) in \<open>auto simp: bit_and_iff bit_pole\<close>)
  then show ?thesis
    unfolding dziecko_def duzy_lisc_bit tabela_z_wpisu_bity assms(1,2) by auto
qed

lemma bit_dodaj_prawa: "bit (dodaj_prawa user e) n \<longleftrightarrow> bit e n \<or> n = 0 \<or> n = 1 \<or> (user \<and> n = 2)"
  by (cases user; simp only: dodaj_prawa_def Let_def if_True if_False bit_or_iff bit_flagi; blast)

lemma bit_flagi_tabeli: "bit (flagi_tabeli_posredniej user) n \<longleftrightarrow> n = 0 \<or> n = 1 \<or> (user \<and> n = 2)"
  by (cases user; simp only: flagi_tabeli_posredniej_def Let_def if_True if_False bit_or_iff bit_flagi; blast)

lemma krok_prawa:
  assumes d: "vmm_drzewo (Suc (Suc l)) t v" and i: "i < 512"
    and e: "bit (vm_tabele v t i) 0" "\<not> duzy_lisc (Suc (Suc l)) (vm_tabele v t i)"
  shows "krok user (Suc (Suc l)) t i v (pisz_wpis v t i (dodaj_prawa user (vm_tabele v t i)))"
proof -
  let ?T = "vm_tabele v"
  define e where "e = ?T t i"
  define e' where "e' = dodaj_prawa user e"
  define T' where "T' = ?T(t := (?T t)(i := e'))"
  from d have tree: "drzewo ?T (Suc (Suc l)) t" by (simp add: vmm_drzewo_def)
  have dz: "dziecko (Suc (Suc l)) e' = dziecko (Suc (Suc l)) e"
    by (rule dziecko_cong) (use \<open>bit (vm_tabele v t i) 0\<close> in \<open>auto simp: e'_def e_def bit_dodaj_prawa\<close>)
  have Ti: "T' t i = e'" by (simp add: T'_def)
  have zg: "zgodne ?T T' (zasieg ?T (Suc l) (dziecko (Suc (Suc l)) (?T t j)))"
    if "j < 512" "dziecko (Suc (Suc l)) (?T t j) \<noteq> 0" for j
    using drzewo_dziecka [OF tree that] by (auto simp: zgodne_def T'_def)
  have zg': "zgodne ?T T' (zasieg ?T (Suc l) (dziecko (Suc (Suc l)) e))" if "dziecko (Suc (Suc l)) e \<noteq> 0"
    using zg [OF i] that by (simp add: e_def)
  have P1: "\<And>j. j < 512 \<Longrightarrow> j \<noteq> i \<Longrightarrow> T' t j = ?T t j" by (simp add: T'_def)
  have P2: "\<And>j. j < 512 \<Longrightarrow> j \<noteq> i \<Longrightarrow> dziecko (Suc (Suc l)) (?T t j) \<noteq> 0 \<Longrightarrow>
      zgodne ?T T' (zasieg ?T (Suc l) (dziecko (Suc (Suc l)) (?T t j)))" using zg by blast
  have P3: "drzewo T' (Suc l) (dziecko (Suc (Suc l)) (T' t i)) \<and>
      t \<notin> zasieg T' (Suc l) (dziecko (Suc (Suc l)) (T' t i)) \<and>
      (\<forall>j < 512. j \<noteq> i \<and> dziecko (Suc (Suc l)) (?T t j) \<noteq> 0 \<longrightarrow>
         zasieg T' (Suc l) (dziecko (Suc (Suc l)) (T' t i)) \<inter> zasieg ?T (Suc l) (dziecko (Suc (Suc l)) (?T t j)) = {})"
    if nz: "dziecko (Suc (Suc l)) (T' t i) \<noteq> 0"
  proof -
    have nz: "dziecko (Suc (Suc l)) e \<noteq> 0" using nz by (simp add: Ti dz)
    note z = zgodne_zasieg [OF zg' [OF nz]]
    have "dziecko (Suc (Suc l)) (?T t i) \<noteq> 0" using nz by (simp add: e_def)
    note dd = drzewo_dziecka [OF tree i this] and dr = drzewo_rozne [OF tree i _ _ this]
    show ?thesis
      unfolding Ti dz using z dd dr unfolding e_def [symmetric] by blast
  qed
  note pod = podmiana [of ?T "Suc l" t i T', OF tree i P1 P2 P3]
  have "zachowana user va (spacer ?T (Suc (Suc l)) t va u w) (spacer T' (Suc (Suc l)) t va u w)" for va u w
  proof (cases "indeks (Suc (Suc l)) va = i")
    case False
    then show ?thesis by (simp add: pod(3))
  next
    case ix: True
    show ?thesis
    proof (cases "dziecko (Suc (Suc l)) e = 0")
      case True
      have "\<not> duzy_lisc (Suc (Suc l)) e'"
        using e by (auto simp: duzy_lisc_bit e'_def e_def bit_dodaj_prawa)
      then show ?thesis
        using True dz e by (simp add: spacer.simps(2) Let_def ix Ti e_def [symmetric])
    next
      case nz: False
      have 1: "spacer ?T (Suc (Suc l)) t va u w = spacer ?T (Suc l) (dziecko (Suc (Suc l)) e) va (u \<and> bit e 2) (w \<and> bit e 1)"
        by (rule spacer_wpis) (use ix nz e in \<open>auto simp: e_def\<close>)
      have 2: "spacer T' (Suc (Suc l)) t va u w = spacer T' (Suc l) (dziecko (Suc (Suc l)) e) va (u \<and> bit e' 2) (w \<and> bit e' 1)"
        by (rule spacer_wpis) (use ix nz dz Ti in \<open>auto simp: e'_def bit_dodaj_prawa\<close>)
      have 3: "spacer T' (Suc l) (dziecko (Suc (Suc l)) e) va u w = spacer ?T (Suc l) (dziecko (Suc (Suc l)) e) va u w" for u w
        using zgodne_zasieg [OF zg' [OF nz]] by blast
      show ?thesis
        unfolding 1 2 3 by (rule zachowana_prawa) (auto simp: e'_def bit_dodaj_prawa)
    qed
  qed
  moreover have "zasieg T' (Suc (Suc l)) t \<subseteq> zasieg ?T (Suc (Suc l)) t"
  proof (cases "dziecko (Suc (Suc l)) e = 0")
    case True
    then show ?thesis using pod(2) unfolding Ti dz by simp
  next
    case False
    then have "zasieg T' (Suc l) (dziecko (Suc (Suc l)) e) \<subseteq> zasieg ?T (Suc (Suc l)) t"
      using zgodne_zasieg [OF zg' [OF False]] zasieg_dziecka [of i "Suc l" ?T t, OF i] by (simp add: e_def)
    then show ?thesis using pod(2) False unfolding Ti dz by auto
  qed
  moreover have "vm_tabele (pisz_wpis v t i e') = T'" by (simp add: T'_def)
  moreover have "\<forall>x j. x \<notin> wolne_t v \<and> (x \<noteq> t \<or> j \<noteq> i) \<longrightarrow> T' x j = ?T x j" by (auto simp: T'_def)
  ultimately show ?thesis
    using d pod(1) unfolding krok_def vmm_drzewo_def e_def [symmetric] e'_def [symmetric] by auto
qed

subsection \<open>Splitting a large page\<close>

lemma bit_skladowa:
  "bit (of_nat (indeks l va) * push_bit k 1 :: u64) n \<longleftrightarrow>
     k \<le> n \<and> n < k + 9 \<and> n < 64 \<and> bit va (12 + 9 * (l - 1) + (n - k))"
proof -
  have "of_nat (indeks l va) * push_bit k 1 = push_bit k (of_nat (indeks l va) :: u64)"
    by (simp add: push_bit_eq_mult)
  then show ?thesis unfolding bit_push_bit_iff bit_indeks by (auto simp: bit_push_bit_iff bit_indeks)
qed

lemma stale_rozmiarow: "STRONA_2M = push_bit 21 1" "STRONA_4K = push_bit 12 1"
  by (simp_all add: push_bit_eq_mult)

lemma bit_suma_pol:
  assumes "\<And>n. bit b n \<Longrightarrow> \<not> (k \<le> n \<and> n < 52)"
  shows "bit ((e AND pole k 52) + b) n \<longleftrightarrow> bit e n \<and> k \<le> n \<and> n < 52 \<or> bit (b :: u64) n"
proof -
  have "(e AND pole k 52) + b = (e AND pole k 52) OR b"
    by (rule disjunctive_add) (use assms in \<open>auto simp: bit_and_iff bit_pole\<close>)
  then show ?thesis by (auto simp: bit_or_iff bit_and_iff bit_pole)
qed

definition wpis_po_1g :: "u64 \<Rightarrow> nat \<Rightarrow> u64" where
  "wpis_po_1g e i =
     ((e AND MASKA_ADRESU_1G) + of_nat i * STRONA_2M) OR
       (if e AND PDE_PAT_LARGE \<noteq> 0 then (e AND MASKA_FLAG_ZACHOWANYCH) OR PDE_PAT_LARGE else e AND MASKA_FLAG_ZACHOWANYCH) OR
       PDE_PS"

definition wpis_po_2m :: "u64 \<Rightarrow> nat \<Rightarrow> u64" where
  "wpis_po_2m e i =
     ((e AND MASKA_ADRESU_2M) + of_nat i * STRONA_4K) OR
       (if e AND PDE_PAT_LARGE \<noteq> 0 then (e AND MASKA_FLAG_ZACHOWANYCH) OR PTE_PAT_4K else e AND MASKA_FLAG_ZACHOWANYCH)"

lemma bit_flagi_zachowane:
  "bit (if e AND PDE_PAT_LARGE \<noteq> 0 then (e AND MASKA_FLAG_ZACHOWANYCH) OR PDE_PAT_LARGE else e AND MASKA_FLAG_ZACHOWANYCH) n
    \<longleftrightarrow> bit e n \<and> (n < 7 \<or> n = 8 \<or> n = 63 \<or> n = 12)"
  "bit (if e AND PDE_PAT_LARGE \<noteq> 0 then (e AND MASKA_FLAG_ZACHOWANYCH) OR PTE_PAT_4K else e AND MASKA_FLAG_ZACHOWANYCH) n
    \<longleftrightarrow> bit e n \<and> (n < 7 \<or> n = 8 \<or> n = 63) \<or> n = 7 \<and> bit e 12"
  by (cases "bit e 12"; simp only: and_flagi not_True_eq_False not_False_eq_True if_True if_False
      bit_or_iff bit_and_iff bit_zachowane bit_flagi; blast)+

lemma bit_wpis_po_1g:
  "bit (wpis_po_1g e (indeks 2 va)) n \<longleftrightarrow> (bit e n \<and> 30 \<le> n \<and> n < 52) \<or> (21 \<le> n \<and> n < 30 \<and> bit va n) \<or>
     (bit e n \<and> (n < 7 \<or> n = 8 \<or> n = 63 \<or> n = 12)) \<or> n = 7"
proof -
  define F where "F = (if e AND PDE_PAT_LARGE \<noteq> 0 then (e AND MASKA_FLAG_ZACHOWANYCH) OR PDE_PAT_LARGE else e AND MASKA_FLAG_ZACHOWANYCH)"
  have F: "bit F n \<longleftrightarrow> bit e n \<and> (n < 7 \<or> n = 8 \<or> n = 63 \<or> n = 12)"
    unfolding F_def by (rule bit_flagi_zachowane)
  have S: "bit ((e AND pole 30 52) + of_nat (indeks 2 va) * push_bit 21 1) n \<longleftrightarrow>
      bit e n \<and> 30 \<le> n \<and> n < 52 \<or> bit (of_nat (indeks 2 va) * push_bit 21 1 :: u64) n"
    by (rule bit_suma_pol) (auto simp only: bit_skladowa)
  have "wpis_po_1g e (indeks 2 va) = ((e AND pole 30 52) + of_nat (indeks 2 va) * push_bit 21 1) OR F OR PDE_PS"
    by (simp only: wpis_po_1g_def maski_pole stale_rozmiarow(1) F_def)
  then show ?thesis
    unfolding S bit_or_iff F bit_flagi bit_skladowa by (auto simp only: bit_or_iff S F bit_flagi bit_skladowa) auto
qed

lemma bit_wpis_po_2m:
  "bit (wpis_po_2m e (indeks 1 va)) n \<longleftrightarrow> (bit e n \<and> 21 \<le> n \<and> n < 52) \<or> (12 \<le> n \<and> n < 21 \<and> bit va n) \<or>
     (bit e n \<and> (n < 7 \<or> n = 8 \<or> n = 63)) \<or> n = 7 \<and> bit e 12"
proof -
  define F where "F = (if e AND PDE_PAT_LARGE \<noteq> 0 then (e AND MASKA_FLAG_ZACHOWANYCH) OR PTE_PAT_4K else e AND MASKA_FLAG_ZACHOWANYCH)"
  have F: "bit F n \<longleftrightarrow> bit e n \<and> (n < 7 \<or> n = 8 \<or> n = 63) \<or> n = 7 \<and> bit e 12"
    unfolding F_def by (rule bit_flagi_zachowane)
  have S: "bit ((e AND pole 21 52) + of_nat (indeks 1 va) * push_bit 12 1) n \<longleftrightarrow>
      bit e n \<and> 21 \<le> n \<and> n < 52 \<or> bit (of_nat (indeks 1 va) * push_bit 12 1 :: u64) n"
    by (rule bit_suma_pol) (auto simp only: bit_skladowa)
  have "of_nat (indeks 1 va) * STRONA_4K = of_nat (indeks 1 va) * push_bit 12 1"
    by (simp only: stale_rozmiarow(2))
  then have "wpis_po_2m e (indeks 1 va) = ((e AND pole 21 52) + of_nat (indeks 1 va) * push_bit 12 1) OR F"
    by (simp only: wpis_po_2m_def maski_pole F_def)
  then show ?thesis
    by (auto simp only: bit_or_iff S F bit_skladowa) auto
qed

lemma adres_po_1g: "adres_ramki 2 (wpis_po_1g e (indeks 2 va)) va = adres_ramki 3 e va"
  by (rule bit_word_eqI) (auto simp: adres_ramki_def bit_or_iff bit_and_iff bit_pole bit_wpis_po_1g)

lemma adres_po_2m: "adres_ramki 1 (wpis_po_2m e (indeks 1 va)) va = adres_ramki 2 e va"
  by (rule bit_word_eqI) (auto simp: adres_ramki_def bit_or_iff bit_and_iff bit_pole bit_wpis_po_2m simp del: One_nat_def)

lemma bit_tabela:
  assumes "tabela_fizyczna_bezposrednio_dostepna c"
  shows "bit ((c AND MASKA_ADRESU_4K) OR flagi_tabeli_posredniej user) n \<longleftrightarrow> bit c n \<or> n = 0 \<or> n = 1 \<or> (user \<and> n = 2)"
    and "dziecko (Suc (Suc l)) ((c AND MASKA_ADRESU_4K) OR flagi_tabeli_posredniej user) = c"
proof -
  show b: "bit ((c AND MASKA_ADRESU_4K) OR flagi_tabeli_posredniej user) n \<longleftrightarrow> bit c n \<or> n = 0 \<or> n = 1 \<or> (user \<and> n = 2)" for n
    by (simp add: dostepna_maska [OF assms] bit_or_iff bit_flagi_tabeli)
  have "((c AND MASKA_ADRESU_4K) OR flagi_tabeli_posredniej user) AND pole 12 52 = c"
    using dostepna_bity [OF assms] by (intro bit_word_eqI) (auto simp: bit_and_iff b bit_pole)
  then show "dziecko (Suc (Suc l)) ((c AND MASKA_ADRESU_4K) OR flagi_tabeli_posredniej user) = c"
    using assms dostepna_bity [OF assms] by (auto simp: dziecko_def duzy_lisc_bit tabela_z_wpisu_bity b)
qed

lemma spacer_lisc:
  "T t (indeks (Suc l) va) = e \<Longrightarrow> bit e 0 \<Longrightarrow> l = 0 \<or> duzy_lisc (Suc l) e \<Longrightarrow>
     spacer T (Suc l) t va u w = Some (Suc l, e, u \<and> bit e 2, w \<and> bit e 1)"
  by (simp add: spacer.simps(2) Let_def)

lemma spacer_brak: "\<not> bit (T t (indeks (Suc l) va)) 0 \<Longrightarrow> spacer T (Suc l) t va u w = None"
  by (simp add: spacer.simps(2) Let_def)

text \<open>Both splits are the same step, for their level and their entries.\<close>

lemma krok_rozbicie:
  assumes d: "vmm_drzewo (Suc (Suc l)) t v" and i: "i < 512" and e: "vm_tabele v t i = e" "bit e 0" "bit e 7" "l = 0 \<or> l = 1"
    and a: "alokuj_tabele_stron v = (c, v1)" "c \<noteq> 0"
    and g: "\<And>j. bit (g j) 7 \<or> l = 0"
    and ga: "\<And>va. indeks (Suc (Suc l)) va = i \<Longrightarrow> bit (g (indeks (Suc l) va)) 0 \<and> bit (g (indeks (Suc l) va)) 1 = bit e 1 \<and>
      bit (g (indeks (Suc l) va)) 2 = bit e 2 \<and>
      adres_ramki (Suc l) (g (indeks (Suc l) va)) va = adres_ramki (Suc (Suc l)) e va"
    and v': "v' = pisz_wpis (pisz_tabele v1 c g) t i
      ((c AND MASKA_ADRESU_4K) OR flagi_tabeli_posredniej (user \<or> e AND PTE_USER \<noteq> 0))"
  shows "krok user (Suc (Suc l)) t i v v'" "bit (vm_tabele v' t i) 0" "\<not> bit (vm_tabele v' t i) 7"
proof -
  define e' where "e' = (c AND MASKA_ADRESU_4K) OR flagi_tabeli_posredniej (user \<or> e AND PTE_USER \<noteq> 0)"
  have pm: "pmm_sprawny (vm_pmm v)" using d by (simp add: vmm_drzewo_def)
  note al = alokuj_tabele_spec [OF pm a(1)]
  then have c: "c \<in> wolne_t v" "wolne_t v1 = wolne_t v - {c}" "tabela_fizyczna_bezposrednio_dostepna c"
    and T1: "vm_tabele v1 = (vm_tabele v)(c := (\<lambda>i. if i < 512 then 0 else vm_tabele v c i))"
    and pm1: "pmm_sprawny (vm_pmm v1)" using a(2) by auto
  have be: "bit e' n \<longleftrightarrow> bit c n \<or> n = 0 \<or> n = 1 \<or> ((user \<or> bit e 2) \<and> n = 2)" for n
    unfolding e'_def bit_tabela(1) [OF c(3)] and_flagi by blast
  have tc: "t \<noteq> c"
    using d c(1) korzen_zasieg [of "Suc (Suc l)" t "vm_tabele v"] by (auto simp: vmm_drzewo_def)
  define g' where "g' = (\<lambda>j. if j < 512 then g j else vm_tabele v c j)"
  have T': "vm_tabele v' = (vm_tabele v)(c := g', t := (vm_tabele v t)(i := e'))"
    using tc by (auto simp: v' T1 e'_def g'_def fun_eq_iff)
  have g'j: "g' (indeks k va) = g (indeks k va)" for k va by (simp add: g'_def)
  show "krok user (Suc (Suc l)) t i v v'"
  proof (rule krok_nowa_tabela [OF d i c(1) _ a(2) _ _ T'])
    show "dziecko (Suc (Suc l)) e' = c" unfolding e'_def by (rule bit_tabela(2) [OF c(3)])
    show "bit e' 0" by (simp add: be)
    show "dziecko (Suc l) (g' j) = 0" if "j < 512" for j
      using g [of j] e(4) that by (auto simp: g'_def dziecko_def duzy_lisc_bit)
    fix va u w
    assume ix: "indeks (Suc (Suc l)) va = i"
    have "spacer (vm_tabele v) (Suc (Suc l)) t va u w = Some (Suc (Suc l), e, u \<and> bit e 2, w \<and> bit e 1)"
      by (rule spacer_lisc) (use e ix in \<open>auto simp: duzy_lisc_bit\<close>)
    moreover have "\<not> bit c 2" "\<not> bit c 1" using dostepna_bity [OF c(3)] by fastforce+
    moreover have "l = 0 \<or> duzy_lisc (Suc l) (g (indeks (Suc l) va))"
      using g [of "indeks (Suc l) va"] e(4) by (auto simp: duzy_lisc_bit)
    ultimately show "zachowana user va (spacer (vm_tabele v) (Suc (Suc l)) t va u w)
        (let f = g' (indeks (Suc l) va) in
         if bit f 0 \<and> (l = 0 \<or> duzy_lisc (Suc l) f)
         then Some (Suc l, f, u \<and> bit e' 2 \<and> bit f 2, w \<and> bit e' 1 \<and> bit f 1) else None)"
      using ga [OF ix] by (auto simp: Let_def g'j be)
  qed (use c pm1 v' in auto)
  have "vm_tabele v' t i = e'" by (simp add: T')
  then show "bit (vm_tabele v' t i) 0" "\<not> bit (vm_tabele v' t i) 7"
    using dostepna_bity [OF c(3)] by (auto simp: be)
qed

lemma rozbij_1g:
  assumes d: "vmm_drzewo 3 t v" and i: "i < 512" and t: "t \<noteq> 0"
    and e: "bit (vm_tabele v t i) 0" "bit (vm_tabele v t i) 7"
    and r: "rozbij_strone_1g v t i user = (ok, v')"
  shows "krok user 3 t i v v' \<and> (ok \<longrightarrow> bit (vm_tabele v' t i) 0 \<and> \<not> bit (vm_tabele v' t i) 7)"
proof -
  obtain c v1 where a: "alokuj_tabele_stron v = (c, v1)" by fastforce
  have d': "vmm_drzewo (Suc (Suc 1)) t v" using d by (simp add: eval_nat_numeral)
  have pm: "pmm_sprawny (vm_pmm v)" using d by (simp add: vmm_drzewo_def)
  show ?thesis
  proof (cases "c = 0")
    case True
    then have "v' = v1" "\<not> ok" using r t e a by (auto simp: rozbij_strone_1g_def and_flagi)
    then show ?thesis
      using alokuj_tabele_spec [OF pm a] True by (auto intro!: krok_bez_zmian [OF d])
  next
    case False
    have v': "ok" "v' = pisz_wpis (pisz_tabele v1 c (wpis_po_1g (vm_tabele v t i))) t i
      ((c AND MASKA_ADRESU_4K) OR flagi_tabeli_posredniej (user \<or> vm_tabele v t i AND PTE_USER \<noteq> 0))"
      using r t e a False by (auto simp: rozbij_strone_1g_def and_flagi Let_def wpis_po_1g_def [abs_def])
    have g: "bit (wpis_po_1g (vm_tabele v t i) j) 7 \<or> 1 = (0 :: nat)" for j
      by (simp add: wpis_po_1g_def bit_or_iff bit_flagi)
    have ga: "bit (wpis_po_1g (vm_tabele v t i) (indeks (Suc 1) va)) 0 \<and>
        bit (wpis_po_1g (vm_tabele v t i) (indeks (Suc 1) va)) 1 = bit (vm_tabele v t i) 1 \<and>
        bit (wpis_po_1g (vm_tabele v t i) (indeks (Suc 1) va)) 2 = bit (vm_tabele v t i) 2 \<and>
        adres_ramki (Suc 1) (wpis_po_1g (vm_tabele v t i) (indeks (Suc 1) va)) va = adres_ramki (Suc (Suc 1)) (vm_tabele v t i) va" for va
      using e(1) adres_po_1g [of "vm_tabele v t i" va]
      by (simp add: bit_wpis_po_1g numeral_2_eq_2 [symmetric] numeral_3_eq_3 [symmetric])
    have "(1 :: nat) = 0 \<or> (1 :: nat) = 1" by simp
    note krok_rozbicie [OF d' i refl e this a False g ga v'(2)]
    then show ?thesis by (simp add: numeral_3_eq_3)
  qed
qed

lemma rozbij_2m:
  assumes d: "vmm_drzewo 2 t v" and i: "i < 512" and t: "t \<noteq> 0"
    and e: "bit (vm_tabele v t i) 0" "bit (vm_tabele v t i) 7"
    and r: "rozbij_strone_2m v t i user = (ok, v')"
  shows "krok user 2 t i v v' \<and> (ok \<longrightarrow> bit (vm_tabele v' t i) 0 \<and> \<not> bit (vm_tabele v' t i) 7)"
proof -
  obtain c v1 where a: "alokuj_tabele_stron v = (c, v1)" by fastforce
  have d': "vmm_drzewo (Suc (Suc 0)) t v" using d by (simp add: eval_nat_numeral)
  have pm: "pmm_sprawny (vm_pmm v)" using d by (simp add: vmm_drzewo_def)
  show ?thesis
  proof (cases "c = 0")
    case True
    then have "v' = v1" "\<not> ok" using r t e a by (auto simp: rozbij_strone_2m_def and_flagi)
    then show ?thesis
      using alokuj_tabele_spec [OF pm a] True by (auto intro!: krok_bez_zmian [OF d])
  next
    case False
    have v': "ok" "v' = pisz_wpis (pisz_tabele v1 c (wpis_po_2m (vm_tabele v t i))) t i
      ((c AND MASKA_ADRESU_4K) OR flagi_tabeli_posredniej (user \<or> vm_tabele v t i AND PTE_USER \<noteq> 0))"
      using r t e a False by (auto simp: rozbij_strone_2m_def and_flagi Let_def wpis_po_2m_def [abs_def])
    have g: "bit (wpis_po_2m (vm_tabele v t i) j) 7 \<or> 0 = (0 :: nat)" for j by simp
    have ga: "bit (wpis_po_2m (vm_tabele v t i) (indeks (Suc 0) va)) 0 \<and>
        bit (wpis_po_2m (vm_tabele v t i) (indeks (Suc 0) va)) 1 = bit (vm_tabele v t i) 1 \<and>
        bit (wpis_po_2m (vm_tabele v t i) (indeks (Suc 0) va)) 2 = bit (vm_tabele v t i) 2 \<and>
        adres_ramki (Suc 0) (wpis_po_2m (vm_tabele v t i) (indeks (Suc 0) va)) va = adres_ramki (Suc (Suc 0)) (vm_tabele v t i) va" for va
      using e(1) adres_po_2m [of "vm_tabele v t i" va] bit_wpis_po_2m [of "vm_tabele v t i" va]
      by (simp add: numeral_2_eq_2 [symmetric])
    have "(0 :: nat) = 0 \<or> (0 :: nat) = 1" by simp
    note krok_rozbicie [OF d' i refl e this a False g ga v'(2)]
    then show ?thesis by (simp add: numeral_2_eq_2)
  qed
qed

subsection \<open>Finding or creating the next table\<close>

lemma tabela_lub_nowa_krok:
  assumes d: "vmm_drzewo (Suc (Suc l)) t v" and i: "i < 512"
    and e: "\<not> (bit (vm_tabele v t i) 0 \<and> duzy_lisc (Suc (Suc l)) (vm_tabele v t i))"
    and r: "tabela_lub_nowa v t i user = (c, v')"
  shows "krok user (Suc (Suc l)) t i v v' \<and>
    (c \<noteq> 0 \<longrightarrow> dziecko (Suc (Suc l)) (vm_tabele v' t i) = c \<and> bit (vm_tabele v' t i) 0 \<and>
       bit (vm_tabele v' t i) 1 \<and> (user \<longrightarrow> bit (vm_tabele v' t i) 2))"
proof (cases "bit (vm_tabele v t i) 0")
  case True
  define e' where "e' = dodaj_prawa user (vm_tabele v t i)"
  have r': "c = tabela_z_wpisu e'" "v' = pisz_wpis v t i e'"
    using r True by (auto simp: tabela_lub_nowa_def and_flagi Let_def e'_def)
  have "\<not> duzy_lisc (Suc (Suc l)) (vm_tabele v t i)" using e True by blast
  note k = krok_prawa [OF d i True this, of user, folded e'_def]
  have "dziecko (Suc (Suc l)) e' = c"
    using e True r' by (auto simp: dziecko_def duzy_lisc_bit e'_def bit_dodaj_prawa)
  then show ?thesis
    using k by (simp add: r'(2)) (simp add: e'_def bit_dodaj_prawa)
next
  case False
  obtain n v1 where a: "alokuj_tabele_stron v = (n, v1)" by fastforce
  have pm: "pmm_sprawny (vm_pmm v)" using d by (simp add: vmm_drzewo_def)
  note al = alokuj_tabele_spec [OF pm a]
  show ?thesis
  proof (cases "n = 0")
    case True
    then have "c = 0" "v' = v1" using r False a by (auto simp: tabela_lub_nowa_def and_flagi)
    then show ?thesis using al True by (auto intro!: krok_bez_zmian [OF d])
  next
    case nz: False
    then have n: "n \<in> wolne_t v" "wolne_t v1 = wolne_t v - {n}" "tabela_fizyczna_bezposrednio_dostepna n"
      and T1: "vm_tabele v1 = (vm_tabele v)(n := (\<lambda>i. if i < 512 then 0 else vm_tabele v n i))"
      and pm1: "pmm_sprawny (vm_pmm v1)" using al by auto
    define e' where "e' = (n AND MASKA_ADRESU_4K) OR flagi_tabeli_posredniej user"
    have v': "v' = pisz_wpis v1 t i e'" "c = tabela_z_wpisu e'"
      using r False a nz by (auto simp: tabela_lub_nowa_def and_flagi Let_def e'_def)
    note be = bit_tabela(1) [OF n(3), of user, folded e'_def] and de = bit_tabela(2) [OF n(3), of l user, folded e'_def]
    have tn: "t \<noteq> n"
      using d n(1) korzen_zasieg [of "Suc (Suc l)" t "vm_tabele v"] by (auto simp: vmm_drzewo_def)
    have T': "vm_tabele v' = (vm_tabele v)(n := (\<lambda>i. if i < 512 then 0 else vm_tabele v n i), t := (vm_tabele v t)(i := e'))"
      using tn by (auto simp: v' T1 fun_eq_iff)
    have "krok user (Suc (Suc l)) t i v v'"
    proof (rule krok_nowa_tabela [OF d i n(1) _ nz _ _ T'])
      fix va u w assume "indeks (Suc (Suc l)) va = i"
      then have "spacer (vm_tabele v) (Suc (Suc l)) t va u w = None" using False by (simp add: spacer_brak)
      then show "zachowana user va (spacer (vm_tabele v) (Suc (Suc l)) t va u w)
        (let f = (if indeks (Suc l) va < 512 then 0 else vm_tabele v n (indeks (Suc l) va)) in
         if bit f 0 \<and> (l = 0 \<or> duzy_lisc (Suc l) f)
         then Some (Suc l, f, u \<and> bit e' 2 \<and> bit f 2, w \<and> bit e' 1 \<and> bit f 1) else None)"
        by (simp add: Let_def)
    qed (use n pm1 v' de be in auto)
    moreover have "c = n" using de v'(2) nz by (auto simp: dziecko_def split: if_splits)
    ultimately show ?thesis using de be by (simp add: T')
  qed
qed

definition pobierz_lub_utworz :: "nat \<Rightarrow> vmm \<Rightarrow> u64 \<Rightarrow> nat \<Rightarrow> bool \<Rightarrow> u64 \<times> vmm" where
  "pobierz_lub_utworz l =
     (if l = 4 then pobierz_lub_utworz_pdp else if l = 3 then pobierz_lub_utworz_pd else pobierz_lub_utworz_pt)"

lemma pobierz_krok:
  assumes d: "vmm_drzewo (Suc (Suc l)) t v" and i: "i < 512" and t: "t \<noteq> 0" and l: "l < 3"
    and r: "pobierz_lub_utworz (Suc (Suc l)) v t i user = (c, v')"
  shows "krok user (Suc (Suc l)) t i v v' \<and>
    (c \<noteq> 0 \<longrightarrow> dziecko (Suc (Suc l)) (vm_tabele v' t i) = c \<and> bit (vm_tabele v' t i) 0 \<and>
       bit (vm_tabele v' t i) 1 \<and> (user \<longrightarrow> bit (vm_tabele v' t i) 2))"
proof -
  define e where "e = vm_tabele v t i"
  have zwykla: ?thesis if "\<not> (bit e 0 \<and> duzy_lisc (Suc (Suc l)) e)" "tabela_lub_nowa v t i user = (c, v')"
    using tabela_lub_nowa_krok [OF d i _ that(2)] that(1) by (simp add: e_def)
  have po: ?thesis if k: "krok user (Suc (Suc l)) t i v v1" and e1: "\<not> bit (vm_tabele v1 t i) 7"
    and rr: "tabela_lub_nowa v1 t i user = (c, v')" for v1
  proof -
    have "\<not> (bit (vm_tabele v1 t i) 0 \<and> duzy_lisc (Suc (Suc l)) (vm_tabele v1 t i))"
      using e1 by (simp add: duzy_lisc_bit)
    note kk = tabela_lub_nowa_krok [OF krok_drzewo [OF d k] i this rr]
    then show ?thesis using krok_trans [OF k] by blast
  qed
  consider "l = 2" | "l = 1" | "l = 0" using l by linarith
  then show ?thesis
  proof cases
    case 1
    then show ?thesis
      using r t d zwykla krok_bez_zmian [OF d refl] unfolding e_def [symmetric]
      by (auto simp: pobierz_lub_utworz_def pobierz_lub_utworz_pdp_def and_flagi duzy_lisc_bit vmm_drzewo_def
          e_def [symmetric] split: if_splits)
  next
    case 2
    show ?thesis
    proof (cases "bit e 0 \<and> bit e 7")
      case True
      obtain ok v1 where rb: "rozbij_strone_1g v t i user = (ok, v1)" by fastforce
      have d3: "vmm_drzewo 3 t v" using d 2 by (simp add: numeral_3_eq_3)
      note rk = rozbij_1g [OF d3 i t _ _ rb]
      have rr: "if \<not> ok then c = 0 \<and> v' = v1 else tabela_lub_nowa v1 t i user = (c, v')"
        using r t True rb 2 by (auto simp: pobierz_lub_utworz_def pobierz_lub_utworz_pd_def and_flagi e_def split: if_splits)
      show ?thesis
        using rk rr po [of v1] True 2 by (cases ok) (auto simp: e_def numeral_3_eq_3)
    next
      case False
      then show ?thesis
        using r t 2 zwykla
        by (auto simp: pobierz_lub_utworz_def pobierz_lub_utworz_pd_def and_flagi e_def duzy_lisc_bit split: if_splits)
    qed
  next
    case 3
    show ?thesis
    proof (cases "bit e 0 \<and> bit e 7")
      case True
      obtain ok v1 where rb: "rozbij_strone_2m v t i user = (ok, v1)" by fastforce
      have d2: "vmm_drzewo 2 t v" using d 3 by (simp add: numeral_2_eq_2)
      note rk = rozbij_2m [OF d2 i t _ _ rb]
      have rr: "if \<not> ok then c = 0 \<and> v' = v1 else tabela_lub_nowa v1 t i user = (c, v')"
        using r t True rb 3 by (auto simp: pobierz_lub_utworz_def pobierz_lub_utworz_pt_def and_flagi e_def split: if_splits)
      show ?thesis
        using rk rr po [of v1] True 3 by (cases ok) (auto simp: e_def numeral_2_eq_2)
    next
      case False
      then show ?thesis
        using r t 3 zwykla
        by (auto simp: pobierz_lub_utworz_def pobierz_lub_utworz_pt_def and_flagi e_def duzy_lisc_bit split: if_splits)
    qed
  qed
qed

subsection \<open>The whole descent\<close>

text \<open>The mapper by recursion: \<open>zejdz l\<close> starts at a table of level \<open>l + 1\<close>.\<close>

fun zejdz :: "nat \<Rightarrow> vmm \<Rightarrow> u64 \<Rightarrow> u64 \<Rightarrow> bool \<Rightarrow> u64 \<Rightarrow> bool \<times> vmm" where
  "zejdz 0 v t va user e = (True, pisz_wpis v t (indeks 1 va) e)"
| "zejdz (Suc l) v t va user e =
     (case pobierz_lub_utworz (Suc (Suc l)) v t (indeks (Suc (Suc l)) va) user of
        (c, v') \<Rightarrow> if c = 0 then (False, v') else zejdz l v' c va user e)"

definition wpis_liscia :: "u64 \<Rightarrow> u32 \<Rightarrow> u64" where
  "wpis_liscia fiz flagi = (fiz AND MASKA_ADRESU_4K) OR ((ucast flagi AND MASKA_FLAG_LISCIA_4K) OR PTE_PRESENT)"

lemma zejdz_3:
  "zejdz 3 v t va user e =
     (case pobierz_lub_utworz_pdp v t (indeks 4 va) user of (c, v1) \<Rightarrow> if c = 0 then (False, v1)
      else (case pobierz_lub_utworz_pd v1 c (indeks 3 va) user of (c, v2) \<Rightarrow> if c = 0 then (False, v2)
      else (case pobierz_lub_utworz_pt v2 c (indeks 2 va) user of (c, v3) \<Rightarrow> if c = 0 then (False, v3)
      else (True, pisz_wpis v3 c (indeks 1 va) e))))"
proof -
  have n: "indeks (Suc (Suc (Suc (Suc 0)))) = indeks 4" "indeks (Suc (Suc (Suc 0))) = indeks 3"
    "indeks (Suc (Suc 0)) = indeks 2"
    by (simp_all add: eval_nat_numeral)
  have p: "pobierz_lub_utworz (Suc (Suc (Suc (Suc 0)))) = pobierz_lub_utworz_pdp"
    "pobierz_lub_utworz (Suc (Suc (Suc 0))) = pobierz_lub_utworz_pd"
    "pobierz_lub_utworz (Suc (Suc 0)) = pobierz_lub_utworz_pt"
    by (simp_all add: pobierz_lub_utworz_def)
  have "zejdz 3 v t va user e = zejdz (Suc (Suc (Suc 0))) v t va user e"
    by (simp only: numeral_3_eq_3)
  then show ?thesis unfolding zejdz.simps n p .
qed

lemma mapuj_zejdz:
  "mapuj_strone_wewnetrznie v pml4 wirt fiz flagi =
     (let user = (ucast flagi AND PTE_USER \<noteq> 0) in
      if pml4 = 0 \<or> \<not> adres_strony_poprawny wirt \<or> \<not> adres_fizyczny_strony_poprawny fiz \<or>
         user \<and> (\<not> adres_user_kanoniczny wirt \<or> wirt < STRONA_4K)
      then (False, v)
      else (case zejdz 3 v pml4 wirt user (wpis_liscia fiz flagi) of
              (ok, v') \<Rightarrow> (ok, if ok then uniewaznij_tlb v' wirt else v')))"
  unfolding mapuj_strone_wewnetrznie_def zejdz_3 indeksy wpis_liscia_def Let_def
  by (simp add: case_prod_beta)

lemma zejdz_spec:
  assumes "vmm_drzewo (Suc l) t v" "t \<noteq> 0" "l \<le> 3" "bit e 0" "zejdz l v t va (bit e 2) e = (ok, v')"
  shows "vmm_drzewo (Suc l) t v' \<and> wolne_t v' \<subseteq> wolne_t v \<and>
     zasieg (vm_tabele v') (Suc l) t \<subseteq> zasieg (vm_tabele v) (Suc l) t \<union> (wolne_t v - wolne_t v') \<and>
     (\<forall>x. x \<notin> wolne_t v \<union> zasieg (vm_tabele v) (Suc l) t \<longrightarrow> vm_tabele v' x = vm_tabele v x) \<and>
     (ok \<longrightarrow> (\<forall>u w. spacer (vm_tabele v') (Suc l) t va u w = Some (1, e, u \<and> bit e 2, w \<and> bit e 1))) \<and>
     (\<forall>va' u w. \<not> ok \<or> (\<exists>k \<in> {1 .. Suc l}. indeks k va' \<noteq> indeks k va) \<longrightarrow>
        zachowana (bit e 2) va' (spacer (vm_tabele v) (Suc l) t va' u w) (spacer (vm_tabele v') (Suc l) t va' u w))"
  using assms
proof (induction l arbitrary: t v)
  case 0
  define T' where "T' = (vm_tabele v)(t := (vm_tabele v t)(indeks 1 va := e))"
  have v': "ok" "v' = pisz_wpis v t (indeks 1 va) e" using 0 by auto
  then have T': "vm_tabele v' = T'" by (simp add: T'_def)
  have z: "zasieg T (Suc 0) t = {t}" "drzewo T (Suc 0) t" for T
    by (auto simp: zasieg.simps(2) drzewo.simps(2) dziecko_def)
  have "spacer T' (Suc 0) t va u w = Some (Suc 0, e, u \<and> bit e 2, w \<and> bit e 1)" for u w
    by (rule spacer_lisc) (use 0 in \<open>auto simp: T'_def\<close>)
  moreover have "spacer T' (Suc 0) t va' u w = spacer (vm_tabele v) (Suc 0) t va' u w"
    if "indeks (Suc 0) va' \<noteq> indeks (Suc 0) va" for va' u w
    using that by (simp add: spacer.simps(2) Let_def T'_def)
  moreover have "T' x = vm_tabele v x" if "x \<noteq> t" for x using that by (simp add: T'_def)
  moreover have "wolne_t v' = wolne_t v" "vm_pmm v' = vm_pmm v" by (simp_all add: v')
  moreover have "k = Suc 0" if "k \<in> {1 .. Suc 0}" for k using that by auto
  ultimately show ?case
    using 0 v'(1) by (auto simp: vmm_drzewo_def z T')
next
  case (Suc l)
  let ?L = "Suc (Suc l)" and ?i = "indeks (Suc (Suc l)) va"
  let ?T = "vm_tabele v" and ?T' = "vm_tabele v'"
  obtain c v1 where p: "pobierz_lub_utworz ?L v t ?i (bit e 2) = (c, v1)" by fastforce
  let ?T1 = "vm_tabele v1"
  have "l < 3" using Suc.prems(3) by simp
  note pk = pobierz_krok [OF Suc.prems(1) indeks_less Suc.prems(2) this p]
  then have k: "krok (bit e 2) ?L t ?i v v1" by blast
  note d1 = krok_drzewo [OF Suc.prems(1) k]
  have k2: "wolne_t v1 \<subseteq> wolne_t v" "zasieg ?T1 ?L t \<subseteq> zasieg ?T ?L t \<union> (wolne_t v - wolne_t v1)"
    "\<And>x j. x \<notin> wolne_t v \<Longrightarrow> x \<noteq> t \<or> j \<noteq> ?i \<Longrightarrow> ?T1 x j = ?T x j"
    "\<And>va u w. zachowana (bit e 2) va (spacer ?T ?L t va u w) (spacer ?T1 ?L t va u w)"
    using k unfolding krok_def by auto
  have tz: "t \<in> zasieg ?T ?L t" by (simp add: korzen_zasieg)
  show ?case
  proof (cases "c = 0")
    case True
    then have "\<not> ok" "v' = v1" using Suc.prems(5) p by auto
    then show ?thesis using d1 k2 tz by (auto simp: fun_eq_iff)
  next
    case c0: False
    then have dc: "dziecko ?L (?T1 t ?i) = c" and bc: "bit (?T1 t ?i) 0" "bit (?T1 t ?i) 1" "bit e 2 \<longrightarrow> bit (?T1 t ?i) 2"
      using pk by auto
    have tree1: "drzewo ?T1 ?L t" and roz1: "zasieg ?T1 ?L t \<inter> wolne_t v1 = {}" and pm1: "pmm_sprawny (vm_pmm v1)"
      using d1 by (simp_all add: vmm_drzewo_def)
    have dn: "dziecko ?L (?T1 t ?i) \<noteq> 0" using dc c0 by simp
    note dd = drzewo_dziecka [OF tree1 indeks_less dn, unfolded dc]
      and zz = zasieg_dziecka [of ?i "Suc l" ?T1 t, OF indeks_less dn, unfolded dc]
    have d1c: "vmm_drzewo (Suc l) c v1"
      using dd zz roz1 pm1 by (auto simp: vmm_drzewo_def)
    have "zejdz l v1 c va (bit e 2) e = (ok, v')" using Suc.prems(5) p c0 by simp
    note ih = Suc.IH [OF d1c c0 _ Suc.prems(4) this]
    then have ih: "vmm_drzewo (Suc l) c v'" "wolne_t v' \<subseteq> wolne_t v1"
      "zasieg ?T' (Suc l) c \<subseteq> zasieg ?T1 (Suc l) c \<union> (wolne_t v1 - wolne_t v')"
      "\<And>x. x \<notin> wolne_t v1 \<union> zasieg ?T1 (Suc l) c \<Longrightarrow> ?T' x = ?T1 x"
      "\<And>u w. ok \<Longrightarrow> spacer ?T' (Suc l) c va u w = Some (1, e, u \<and> bit e 2, w \<and> bit e 1)"
      "\<And>va' u w. \<not> ok \<or> (\<exists>k \<in> {1 .. Suc l}. indeks k va' \<noteq> indeks k va) \<Longrightarrow>
        zachowana (bit e 2) va' (spacer ?T1 (Suc l) c va' u w) (spacer ?T' (Suc l) c va' u w)"
      using Suc.prems(3) by simp_all
    have tW: "t \<notin> wolne_t v1" using roz1 korzen_zasieg [of ?L t ?T1] by auto
    have Tt: "?T' t = ?T1 t" using ih(4) [of t] tW dd by simp
    have P2: "zgodne ?T1 ?T' (zasieg ?T1 (Suc l) (dziecko ?L (?T1 t j)))"
      if "j < 512" "j \<noteq> ?i" "dziecko ?L (?T1 t j) \<noteq> 0" for j
    proof -
      have "zasieg ?T1 (Suc l) (dziecko ?L (?T1 t j)) \<inter> zasieg ?T1 (Suc l) c = {}"
        using drzewo_rozne [OF tree1 that(1) indeks_less that(2,3) dn] unfolding dc .
      moreover have "zasieg ?T1 (Suc l) (dziecko ?L (?T1 t j)) \<inter> wolne_t v1 = {}"
        using zasieg_dziecka [of j "Suc l" ?T1 t, OF that(1,3)] roz1 by blast
      ultimately have "?T' x = ?T1 x" if "x \<in> zasieg ?T1 (Suc l) (dziecko ?L (?T1 t j))" for x
        using ih(4) [of x] that by blast
      then show ?thesis by (simp add: zgodne_def)
    qed
    have P3: "drzewo ?T' (Suc l) (dziecko ?L (?T' t ?i)) \<and> t \<notin> zasieg ?T' (Suc l) (dziecko ?L (?T' t ?i)) \<and>
      (\<forall>j < 512. j \<noteq> ?i \<and> dziecko ?L (?T1 t j) \<noteq> 0 \<longrightarrow>
         zasieg ?T' (Suc l) (dziecko ?L (?T' t ?i)) \<inter> zasieg ?T1 (Suc l) (dziecko ?L (?T1 t j)) = {})"
    proof (intro conjI allI impI; (elim conjE)?)
      show "drzewo ?T' (Suc l) (dziecko ?L (?T' t ?i))" using ih(1) by (simp add: Tt dc vmm_drzewo_def)
      show "t \<notin> zasieg ?T' (Suc l) (dziecko ?L (?T' t ?i))" unfolding Tt dc using ih(3) dd tW by blast
      fix j assume j: "j < 512" "j \<noteq> ?i" "dziecko ?L (?T1 t j) \<noteq> 0"
      have "zasieg ?T1 (Suc l) (dziecko ?L (?T1 t j)) \<inter> zasieg ?T1 (Suc l) c = {}"
        using drzewo_rozne [OF tree1 j(1) indeks_less j(2,3) dn] unfolding dc .
      moreover have "zasieg ?T1 (Suc l) (dziecko ?L (?T1 t j)) \<inter> wolne_t v1 = {}"
        using zasieg_dziecka [of j "Suc l" ?T1 t, OF j(1,3)] roz1 by blast
      ultimately show "zasieg ?T' (Suc l) (dziecko ?L (?T' t ?i)) \<inter> zasieg ?T1 (Suc l) (dziecko ?L (?T1 t j)) = {}"
        unfolding Tt dc using ih(3) by blast
    qed
    note pod = podmiana [of ?T1 "Suc l" t ?i ?T', OF tree1 indeks_less fun_cong [OF Tt] P2 P3]
    have zas: "zasieg ?T' ?L t \<subseteq> zasieg ?T1 ?L t \<union> (wolne_t v1 - wolne_t v')"
      using pod(2) ih(3) zz c0 unfolding Tt dc by auto
    have drz: "vmm_drzewo ?L t v'"
      using pod(1) zas roz1 ih(1,2) unfolding vmm_drzewo_def by blast
    have kr: "spacer ?T' ?L t va' u w = spacer ?T' (Suc l) c va' (u \<and> bit (?T1 t ?i) 2) (w \<and> bit (?T1 t ?i) 1)"
      "spacer ?T1 ?L t va' u w = spacer ?T1 (Suc l) c va' (u \<and> bit (?T1 t ?i) 2) (w \<and> bit (?T1 t ?i) 1)"
      if "indeks ?L va' = ?i" for va' u w
      by (rule spacer_wpis; use that Tt bc dc c0 in simp)+
    have cel: "spacer ?T' ?L t va u w = Some (1, e, u \<and> bit e 2, w \<and> bit e 1)" if ok for u w
      using kr(1) [OF refl, of u w] ih(5) [OF that] bc by auto
    have inne: "zachowana (bit e 2) va' (spacer ?T ?L t va' u w) (spacer ?T' ?L t va' u w)"
      if "\<not> ok \<or> (\<exists>k \<in> {1 .. ?L}. indeks k va' \<noteq> indeks k va)" for va' u w
    proof (cases "indeks ?L va' = ?i")
      case True
      then have "\<not> ok \<or> (\<exists>k \<in> {1 .. Suc l}. indeks k va' \<noteq> indeks k va)"
        using that by (metis atLeastAtMost_iff le_Suc_eq)
      note ih(6) [OF this]
      then show ?thesis
        using k2(4) [of va' u w] unfolding kr [OF True] by (rule zachowana_trans [rotated])
    next
      case False
      then show ?thesis using k2(4) [of va' u w] pod(3) by simp
    qed
    have obce: "?T' x = ?T x" if "x \<notin> wolne_t v \<union> zasieg ?T ?L t" for x
    proof -
      have "x \<notin> zasieg ?T1 ?L t" using that k2(2) by blast
      then have "?T' x = ?T1 x" using ih(4) [of x] that k2(1) zz by blast
      moreover have "?T1 x = ?T x" using k2(3) [of x] that tz by (auto simp: fun_eq_iff)
      ultimately show ?thesis by simp
    qed
    show ?thesis
      using drz cel inne obce ih(2) k2(1) zas k2(2) by blast
  qed
qed

end
