(* ===== verification/Vmm_Twierdzenia.thy ===== *)
theory Vmm_Twierdzenia
  imports Vmm_Mapowanie Pmm_Twierdzenia
begin

section \<open>The theorems on the virtual memory manager\<close>

text \<open>
  Mapping (C12) and the range check that guards every pointer a process hands to the kernel (C13).
\<close>

subsection \<open>Canonical addresses and pages\<close>

lemma drop_bit_zero: "drop_bit k a = 0 \<longleftrightarrow> (\<forall>n. k \<le> n \<longrightarrow> \<not> bit (a :: u64) n)"
proof
  assume "drop_bit k a = 0"
  then have "\<not> bit (drop_bit k a) (n - k)" for n by simp
  then show "\<forall>n. k \<le> n \<longrightarrow> \<not> bit a n" by (metis bit_drop_bit_eq comp_apply le_add_diff_inverse)
qed (auto intro!: bit_word_eqI simp: bit_drop_bit_eq)

lemma unat_less_bity: "unat (a :: u64) < 2 ^ k \<longleftrightarrow> (\<forall>n. k \<le> n \<longrightarrow> \<not> bit a n)"
proof -
  have "unat a < 2 ^ k \<longleftrightarrow> unat a div 2 ^ k = 0" by (simp add: div_eq_0_iff)
  also have "\<dots> \<longleftrightarrow> drop_bit k (unat a) = 0" by (simp add: drop_bit_eq_div)
  also have "\<dots> \<longleftrightarrow> unat (drop_bit k a) = 0" by (simp only: unat_drop_bit_eq)
  also have "\<dots> \<longleftrightarrow> drop_bit k a = 0" by (rule unat_eq_0)
  finally show ?thesis unfolding drop_bit_zero .
qed

lemma drop_bit_ones: "drop_bit 48 a = 0xFFFF \<longleftrightarrow> (\<forall>n. 48 \<le> n \<and> n < 64 \<longrightarrow> bit (a :: u64) n)"
proof -
  have m: "(0xFFFF :: u64) = mask 16" by (simp add: mask_eq_exp_minus_1)
  show ?thesis
  proof
    assume "drop_bit 48 a = 0xFFFF"
    then have "bit (drop_bit 48 a) (n - 48)" if "48 \<le> n" "n < 64" for n
      using that unfolding m by (auto simp: bit_mask_u64)
    then show "\<forall>n. 48 \<le> n \<and> n < 64 \<longrightarrow> bit a n" by (simp add: bit_drop_bit_eq)
  next
    assume "\<forall>n. 48 \<le> n \<and> n < 64 \<longrightarrow> bit a n"
    then show "drop_bit 48 a = 0xFFFF" unfolding m
      by (intro bit_word_eqI) (auto simp: bit_drop_bit_eq bit_mask_u64 dest: bit_u64_less)
  qed
qed

lemma bit_47: "drop_bit 47 (a :: u64) AND 1 \<noteq> 0 \<longleftrightarrow> bit a 47"
  by (simp add: bit_iff_odd_drop_bit and_one_eq odd_iff_mod_2_eq_one)

lemma kanoniczny_bity: "adres_kanoniczny a \<longleftrightarrow> (\<forall>n. 48 \<le> n \<and> n < 64 \<longrightarrow> bit a n = bit a 47)"
  unfolding adres_kanoniczny_def Let_def bit_47 drop_bit_zero drop_bit_ones
  by (auto dest: bit_u64_less)

lemma user_kanoniczny: "adres_user_kanoniczny a \<longleftrightarrow> unat a < 2 ^ 47"
proof -
  have "adres_user_kanoniczny a \<longleftrightarrow> (\<forall>n. 47 \<le> n \<longrightarrow> \<not> bit a n)"
  proof
    assume k: "adres_user_kanoniczny a"
    then have b: "\<not> bit a 47" using bit_47 [of a] by (simp add: adres_user_kanoniczny_def)
    have "\<not> bit a n" if "47 \<le> n" for n
    proof (cases "n = 47")
      case False
      then show ?thesis
        using k b that bit_u64_less [of a n] by (auto simp: adres_user_kanoniczny_def kanoniczny_bity)
    qed (use b in simp)
    then show "\<forall>n. 47 \<le> n \<longrightarrow> \<not> bit a n" by blast
  next
    assume "\<forall>n. 47 \<le> n \<longrightarrow> \<not> bit a n"
    then show "adres_user_kanoniczny a"
      using bit_47 [of a] by (auto simp: adres_user_kanoniczny_def kanoniczny_bity)
  qed
  also have "\<dots> \<longleftrightarrow> drop_bit 47 a = 0" by (simp add: drop_bit_zero)
  also have "\<dots> \<longleftrightarrow> unat a div 2 ^ 47 = 0"
    by (simp add: word_unat_eq_iff drop_bit_eq_div unat_div del: unat_eq_0)
  also have "\<dots> \<longleftrightarrow> unat a < 2 ^ 47" by (simp add: div_eq_0_iff del: unat_u64_less)
  finally show ?thesis .
qed

lemma indeksy_zgodne:
  assumes "\<forall>n. 12 \<le> n \<and> n < 48 \<longrightarrow> bit a n = bit b n" "k \<le> 4" "1 \<le> k"
  shows "indeks k a = indeks k b"
  unfolding indeks_eq_iff using assms by auto

lemma spacer_indeksy:
  "(\<And>k. 1 \<le> k \<Longrightarrow> k \<le> l \<Longrightarrow> indeks k a = indeks k b) \<Longrightarrow> spacer T l t a u w = spacer T l t b u w"
  by (induction l arbitrary: t u w) (simp_all add: spacer.simps(2) Let_def)

text \<open>The walker sees pages only.\<close>

lemma sprawdz_strona:
  assumes "\<forall>n. 12 \<le> n \<longrightarrow> bit a n = bit b n"
  shows "sprawdz_mapowanie v pml4 a = sprawdz_mapowanie v pml4 b"
proof -
  have "adres_kanoniczny a = adres_kanoniczny b" using assms by (simp add: kanoniczny_bity)
  moreover have "spacer (vm_tabele v) 4 pml4 a True True = spacer (vm_tabele v) 4 pml4 b True True"
    by (rule spacer_indeksy) (rule indeksy_zgodne, use assms in auto)
  ultimately show ?thesis by (simp add: sprawdz_spacer)
qed

lemma rozny_indeks:
  assumes "adres_kanoniczny a" "adres_kanoniczny b" "\<exists>n \<ge> 12. bit a n \<noteq> bit b n"
  shows "\<exists>k \<in> {1 .. 4}. indeks k a \<noteq> indeks k b"
proof (rule ccontr)
  assume "\<not> ?thesis"
  then have eq: "\<And>k n. 1 \<le> k \<Longrightarrow> k \<le> 4 \<Longrightarrow> n < 9 \<Longrightarrow> bit a (12 + 9 * (k - 1) + n) = bit b (12 + 9 * (k - 1) + n)"
    unfolding indeks_eq_iff by auto
  have low: "bit a n = bit b n" if "12 \<le> n" "n < 48" for n
  proof -
    define k where "k = (n - 12) div 9 + 1"
    have "n = 12 + 9 * (k - 1) + (n - 12) mod 9" using that by (simp add: k_def)
    moreover have "1 \<le> k" "k \<le> 4" using that by (auto simp: k_def)
    ultimately show ?thesis using eq [of k "(n - 12) mod 9"] by simp
  qed
  have "bit a n = bit b n" if "12 \<le> n" for n
  proof (cases "n < 48")
    case False
    then show ?thesis using assms(1,2) low [of 47] unfolding kanoniczny_bity
      by (cases "n < 64") (auto dest: bit_u64_less)
  qed (use low that in blast)
  then show False using assms(3) by blast
qed

subsection \<open>Mapping\<close>

text \<open>What the walker's result says: the physical page of an address, and the relation between the
  results for an address before and after a mapping elsewhere. Rights may only be widened in the
  tables above a leaf, so a page never gets more rights than its leaf entry grants.\<close>

definition strona_fizyczna :: "WynikWalkera \<Rightarrow> u64 \<Rightarrow> u64" where
  "strona_fizyczna w a =
     adres_ramki (if ww_rozmiar w = STRONA_1G then 3 else if ww_rozmiar w = STRONA_2M then 2 else 1) (ww_wpis w) a"

definition tlumaczenie_zachowane :: "bool \<Rightarrow> u64 \<Rightarrow> WynikWalkera \<Rightarrow> WynikWalkera \<Rightarrow> bool" where
  "tlumaczenie_zachowane user a w w' \<longleftrightarrow>
     (if ww_obecna w
      then ww_obecna w' \<and> strona_fizyczna w' a = strona_fizyczna w a \<and>
        ww_user w \<le> ww_user w' \<and> ww_user w' \<le> bit (ww_wpis w) 2 \<and>
        ww_zapisywalna w \<le> ww_zapisywalna w' \<and> ww_zapisywalna w' \<le> bit (ww_wpis w) 1 \<and>
        (user \<or> ww_user w' = ww_user w)
      else \<not> ww_obecna w')"

lemma spacer_poziom: "spacer T l t va u w = Some (k, e, u', w') \<Longrightarrow> 1 \<le> k \<and> k \<le> l \<and> k \<noteq> 4"
proof (induction l arbitrary: t u w)
  case 0
  then show ?case by simp
next
  case (Suc l)
  then show ?case by (fastforce simp: spacer.simps(2) Let_def duzy_lisc_bit split: if_splits)
qed

lemma zachowana_walker:
  assumes "zachowana user va (spacer (vm_tabele v) 4 pml4 va True True) (spacer (vm_tabele v') 4 pml4 va True True)"
  shows "tlumaczenie_zachowane user va (sprawdz_mapowanie v pml4 va) (sprawdz_mapowanie v' pml4 va)"
proof (cases "pml4 = 0 \<or> \<not> adres_kanoniczny va")
  case True
  then show ?thesis by (auto simp: sprawdz_spacer tlumaczenie_zachowane_def wynik_pusty_def)
next
  case False
  note S = sprawdz_spacer [of _ pml4 va, unfolded if_not_P [OF False]]
  show ?thesis
  proof (cases "spacer (vm_tabele v) 4 pml4 va True True")
    case None
    then have "spacer (vm_tabele v') 4 pml4 va True True = None"
      using assms by (cases "spacer (vm_tabele v') 4 pml4 va True True") auto
    then show ?thesis using None by (simp add: S tlumaczenie_zachowane_def wynik_pusty_def)
  next
    case (Some r)
    then obtain l e u w l' e' u' w' where s: "spacer (vm_tabele v) 4 pml4 va True True = Some (l, e, u, w)"
      "spacer (vm_tabele v') 4 pml4 va True True = Some (l', e', u', w')"
      using assms by (cases r; cases "spacer (vm_tabele v') 4 pml4 va True True") auto
    have poz: "(if rozmiar_poziomu k = STRONA_1G then 3 else if rozmiar_poziomu k = STRONA_2M then 2 else 1) = k"
      if "1 \<le> k \<and> k \<le> 4 \<and> k \<noteq> 4" for k
      using that by (auto simp: rozmiar_poziomu_def)
    note s1 = spacer_poziom [OF s(1)] spacer_poziom [OF s(2)]
    have W: "sprawdz_mapowanie v pml4 va = \<lparr>ww_obecna = True, ww_user = u, ww_zapisywalna = w, ww_duza = (l \<noteq> 1),
          ww_wpis = e, ww_rozmiar = rozmiar_poziomu l\<rparr>"
      "sprawdz_mapowanie v' pml4 va = \<lparr>ww_obecna = True, ww_user = u', ww_zapisywalna = w', ww_duza = (l' \<noteq> 1),
          ww_wpis = e', ww_rozmiar = rozmiar_poziomu l'\<rparr>"
      by (simp_all add: S s)
    have l4: "1 \<le> l \<and> l \<le> 4 \<and> l \<noteq> 4" "1 \<le> l' \<and> l' \<le> 4 \<and> l' \<noteq> 4" using s1 by auto
    note z = assms [unfolded s zachowana.simps] and sl = spacer_liscia [OF s(1)] spacer_liscia [OF s(2)]
    show ?thesis
      unfolding W tlumaczenie_zachowane_def strona_fizyczna_def WynikWalkera.simps poz [OF l4(1)] poz [OF l4(2)]
      using z sl by (simp add: le_bool_def) blast
  qed
qed

text \<open>The translation lookaside buffer is told of the mapped page and of nothing else.\<close>

lemma tlb_pola [simp]:
  "vm_tlb (pisz_wpis v t i e) = vm_tlb v" "vm_tlb (pisz_tabele v t f) = vm_tlb v" "vm_tlb (WyzerujStrone v t) = vm_tlb v"
  by (simp_all add: pisz_wpis_def pisz_tabele_def WyzerujStrone_def)

lemma tlb_tabele [simp]:
  "vm_tlb (snd (alokuj_tabele_stron v)) = vm_tlb v" "vm_tlb (snd (rozbij_strone_1g v t i u)) = vm_tlb v"
  "vm_tlb (snd (rozbij_strone_2m v t i u)) = vm_tlb v" "vm_tlb (snd (tabela_lub_nowa v t i u)) = vm_tlb v"
proof -
  show a: "vm_tlb (snd (alokuj_tabele_stron v)) = vm_tlb v" for v
    by (simp add: alokuj_tabele_stron_def Let_def case_prod_beta)
  show "vm_tlb (snd (rozbij_strone_1g v t i u)) = vm_tlb v" "vm_tlb (snd (rozbij_strone_2m v t i u)) = vm_tlb v"
    "vm_tlb (snd (tabela_lub_nowa v t i u)) = vm_tlb v"
    using a [of v]
    by (simp_all add: rozbij_strone_1g_def rozbij_strone_2m_def tabela_lub_nowa_def Let_def case_prod_beta)
qed

lemma tlb_pobierz [simp]: "vm_tlb (snd (pobierz_lub_utworz l v t i u)) = vm_tlb v"
  by (simp add: pobierz_lub_utworz_def pobierz_lub_utworz_pdp_def pobierz_lub_utworz_pd_def
      pobierz_lub_utworz_pt_def case_prod_beta)

lemma tlb_zejdz: "vm_tlb (snd (zejdz l v t va u e)) = vm_tlb v"
  by (induction l v t va u e rule: zejdz.induct) (simp_all add: case_prod_beta)

lemma bit_wpis_liscia:
  "bit (wpis_liscia fiz flagi) n \<longleftrightarrow> 12 \<le> n \<and> n < 52 \<and> bit fiz n \<or> n < 9 \<and> bit (ucast flagi :: u64) n \<or> n = 0"
  unfolding wpis_liscia_def maski_pole by (simp only: bit_or_iff bit_and_iff bit_pole bit_lisc4k bit_flagi) auto

lemma wpis_liscia_fiz:
  assumes "adres_fizyczny_strony_poprawny fiz"
  shows "wpis_liscia fiz flagi AND pole 12 52 = fiz"
proof -
  have z: "fiz AND mask 12 = 0" "fiz AND NOT (pole 12 52) = 0"
    using assms by (auto simp: adres_fizyczny_strony_poprawny_def maska_offsetu maski_pole split: if_splits)
  have "12 \<le> n \<and> n < 52" if b: "bit fiz n" for n
  proof (rule ccontr)
    assume n: "\<not> (12 \<le> n \<and> n < 52)"
    have "\<not> bit (fiz AND mask 12) n" "\<not> bit (fiz AND NOT (pole 12 52)) n" by (simp_all add: z)
    then show False using b n bit_u64_less [OF b] by (auto simp: bit_and_iff bit_not_iff bit_mask_u64 bit_pole)
  qed
  then show ?thesis
    by (intro bit_word_eqI) (auto simp: bit_and_iff bit_pole bit_wpis_liscia)
qed

text \<open>
  C12. Mapping one page. On a tree of tables whose frames are not free,
  \<open>mapuj_strone_wewnetrznie\<close> keeps that invariant whatever happens (an allocation that fails
  included); when it succeeds, the walker finds the requested 4 KiB page with exactly the requested
  rights and the page is flushed from the TLB; every address of another page (every address, when
  it fails) keeps its physical page through splits of 1 GiB and 2 MiB pages, gains no right its
  leaf entry does not have, and a kernel mapping changes no address's user access.
\<close>

theorem mapowanie_strony:
  assumes "vmm_drzewo 4 pml4 v" "pml4 \<noteq> 0"
    and "mapuj_strone_wewnetrznie v pml4 wirt fiz flagi = (ok, v')"
  shows "vmm_drzewo 4 pml4 v' \<and>
    (ok \<longrightarrow> sprawdz_mapowanie v' pml4 wirt =
        \<lparr>ww_obecna = True, ww_user = bit flagi 2, ww_zapisywalna = bit flagi 1, ww_duza = False,
         ww_wpis = wpis_liscia fiz flagi, ww_rozmiar = STRONA_4K\<rparr> \<and>
       strona_fizyczna (sprawdz_mapowanie v' pml4 wirt) wirt = fiz \<and> vm_tlb v' = wirt # vm_tlb v) \<and>
    (\<forall>a. \<not> ok \<or> (\<exists>n \<ge> 12. bit a n \<noteq> bit wirt n) \<longrightarrow>
       tlumaczenie_zachowane (bit flagi 2) a (sprawdz_mapowanie v pml4 a) (sprawdz_mapowanie v' pml4 a))"
proof -
  define e where "e = wpis_liscia fiz flagi"
  have be: "bit e 0" "bit e 1 = bit flagi 1" "bit e 2 = bit flagi 2"
    by (simp_all add: e_def bit_wpis_liscia bit_ucast_iff)
  have us: "ucast flagi AND PTE_USER \<noteq> 0 \<longleftrightarrow> bit e 2"
    unfolding and_flagi be by (simp add: bit_ucast_iff)
  let ?zle = "pml4 = 0 \<or> \<not> adres_strony_poprawny wirt \<or> \<not> adres_fizyczny_strony_poprawny fiz \<or>
       bit e 2 \<and> (\<not> adres_user_kanoniczny wirt \<or> wirt < STRONA_4K)"
  have m: "(ok, v') = (if ?zle then (False, v)
      else (case zejdz 3 v pml4 wirt (bit e 2) e of (ok, v') \<Rightarrow> (ok, if ok then uniewaznij_tlb v' wirt else v')))"
    using assms(3) unfolding mapuj_zejdz Let_def us e_def [symmetric] by simp
  show ?thesis
  proof (cases ?zle)
    case True
    then have "\<not> ok" "v' = v" using m by simp_all
    then show ?thesis using assms(1) zachowana_walker [OF zachowana_refl] by simp
  next
    case False
    obtain ok1 v1 where z: "zejdz 3 v pml4 wirt (bit e 2) e = (ok1, v1)" by fastforce
    have ok: "ok = ok1" "v' = (if ok then uniewaznij_tlb v1 wirt else v1)"
      using m unfolding if_not_P [OF False] z by simp_all
    have T: "vm_tabele v' = vm_tabele v1" "vm_pmm v' = vm_pmm v1" "wolne_t v' = wolne_t v1"
      by (simp_all add: ok uniewaznij_tlb_def wolne_t_def)
    have n4: "Suc 3 = (4 :: nat)" by simp
    have d4: "vmm_drzewo (Suc 3) pml4 v" using assms(1) by simp
    have "(3 :: nat) \<le> 3" by simp
    note zs = zejdz_spec [OF d4 assms(2) this be(1) z, unfolded n4]
    have d: "vmm_drzewo 4 pml4 v'" using zs unfolding vmm_drzewo_def T by blast
    have kan: "adres_kanoniczny wirt" using False by (simp add: adres_strony_poprawny_def)
    have cel: "sprawdz_mapowanie v' pml4 wirt =
        \<lparr>ww_obecna = True, ww_user = bit flagi 2, ww_zapisywalna = bit flagi 1, ww_duza = False,
         ww_wpis = e, ww_rozmiar = STRONA_4K\<rparr>" if ok
    proof -
      have "spacer (vm_tabele v') 4 pml4 wirt True True = Some (1, e, bit e 2, bit e 1)"
        using zs that ok(1) unfolding T by simp
      then show ?thesis using kan assms(2) be by (simp add: sprawdz_spacer rozmiar_poziomu_def)
    qed
    have fizyczna: "strona_fizyczna (sprawdz_mapowanie v' pml4 wirt) wirt = fiz" if ok
      using False wpis_liscia_fiz [of fiz flagi] by (simp add: cel [OF that] strona_fizyczna_def adres_ramki_def e_def)
    have tlb: "vm_tlb v' = wirt # vm_tlb v" if ok
      using tlb_zejdz [of 3 v pml4 wirt "bit e 2" e] that by (simp add: z ok(2) uniewaznij_tlb_def)
    have inne: "tlumaczenie_zachowane (bit flagi 2) a (sprawdz_mapowanie v pml4 a) (sprawdz_mapowanie v' pml4 a)"
      if "\<not> ok \<or> (\<exists>n \<ge> 12. bit a n \<noteq> bit wirt n)" for a
    proof (cases "adres_kanoniczny a")
      case True
      then have "\<not> ok \<or> (\<exists>k \<in> {1 .. 4}. indeks k a \<noteq> indeks k wirt)"
        using that rozny_indeks [OF True kan] by blast
      then have "zachowana (bit e 2) a (spacer (vm_tabele v) 4 pml4 a True True) (spacer (vm_tabele v1) 4 pml4 a True True)"
        using zs ok(1) by blast
      then show ?thesis by (intro zachowana_walker) (simp add: T be)
    next
      case False
      then show ?thesis by (simp add: sprawdz_spacer tlumaczenie_zachowane_def wynik_pusty_def)
    qed
    show ?thesis using d cel fizyczna tlb inne unfolding e_def by blast
  qed
qed

text \<open>The witness: a root at 2 MiB with one table per level, four free frames at 1 MiB.\<close>

definition vmm_przyklad :: vmm where
  "vmm_przyklad = \<lparr>vm_tabele = (\<lambda>_ _. 0)(0x200000 := (\<lambda>_. 0)(0 := 0x201003), 0x201000 := (\<lambda>_. 0)(0 := 0x202003),
     0x202000 := (\<lambda>_. 0)(2 := 0x203003)), vm_pmm = pmm_przyklad, vm_cr3 = 0x200000, vm_bazowe = 0x200000,
     vm_globalne = 0x200000, vm_gotowy = True, vm_tlb = []\<rparr>"

lemma jeden_wpis:
  assumes "T t = (\<lambda>_. 0)(i := e)" "i < 512" "dziecko (Suc l) e = c" "c \<noteq> 0"
  shows "zasieg T (Suc l) t = insert t (zasieg T l c)"
    "drzewo T (Suc l) t \<longleftrightarrow> t \<notin> zasieg T l c \<and> drzewo T l c"
proof -
  have d: "dziecko (Suc l) (T t j) = (if j = i then c else 0)" for j
    using assms by simp
  show "zasieg T (Suc l) t = insert t (zasieg T l c)"
    unfolding zasieg.simps d using assms(2,4) by (auto split: if_splits)
  show "drzewo T (Suc l) t \<longleftrightarrow> t \<notin> zasieg T l c \<and> drzewo T l c"
    unfolding drzewo.simps d using assms(2,4) by auto
qed

lemma puste_wpisy:
  assumes "T t = (\<lambda>_. 0)"
  shows "zasieg T (Suc l) t = {t}" "drzewo T (Suc l) t"
  using assms by (auto simp: zasieg.simps(2) drzewo.simps(2))

lemma przyklad_dzieci:
  "dziecko 4 0x201003 = 0x201000" "dziecko 3 0x202003 = 0x202000" "dziecko 2 0x203003 = 0x203000"
  by (simp_all add: dziecko_def duzy_lisc_def tabela_z_wpisu_def MASKA_ADRESU_4K_def
      tabela_fizyczna_bezposrednio_dostepna_def)

lemma przyklad_zasieg: "zasieg (vm_tabele vmm_przyklad) 4 0x200000 = {0x200000, 0x201000, 0x202000, 0x203000}"
  and vmm_przyklad_drzewo: "vmm_drzewo 4 0x200000 vmm_przyklad"
proof -
  let ?T = "vm_tabele vmm_przyklad"
  have n: "Suc 0 = (1 :: nat)" "Suc 1 = (2 :: nat)" "Suc 2 = (3 :: nat)" "Suc 3 = (4 :: nat)" by simp_all
  have T: "?T 0x200000 = (\<lambda>_. 0)(0 := 0x201003)" "?T 0x201000 = (\<lambda>_. 0)(0 := 0x202003)"
    "?T 0x202000 = (\<lambda>_. 0)(2 := 0x203003)" "?T 0x203000 = (\<lambda>_. 0)"
    by (simp_all add: vmm_przyklad_def)
  have z1: "zasieg ?T 1 0x203000 = {0x203000}" "drzewo ?T 1 0x203000"
    using puste_wpisy [of ?T, OF T(4), of 0] unfolding n by blast+
  have z2: "zasieg ?T 2 0x202000 = {0x202000, 0x203000}" "drzewo ?T 2 0x202000"
    using jeden_wpis [of ?T, OF T(3), of 1, unfolded n, OF _ przyklad_dzieci(3)] z1 by simp_all
  have z3: "zasieg ?T 3 0x201000 = {0x201000, 0x202000, 0x203000}" "drzewo ?T 3 0x201000"
    using jeden_wpis [of ?T, OF T(2), of 2, unfolded n, OF _ przyklad_dzieci(2)] z2 by simp_all
  have z4: "zasieg ?T 4 0x200000 = {0x200000, 0x201000, 0x202000, 0x203000}" "drzewo ?T 4 0x200000"
    using jeden_wpis [of ?T, OF T(1), of 3, unfolded n, OF _ przyklad_dzieci(1)] z3 by simp_all
  have "wolne_t vmm_przyklad = {t. unat t \<in> adresy {256 ..< 260}}"
    by (simp add: wolne_t_def vmm_przyklad_def pmm_przyklad_sprawny)
  then show "vmm_drzewo 4 0x200000 vmm_przyklad"
    using z4 by (auto simp: vmm_drzewo_def pmm_sprawny_def vmm_przyklad_def pmm_przyklad_sprawny adresy_def)
  show "zasieg ?T 4 0x200000 = {0x200000, 0x201000, 0x202000, 0x203000}" by (rule z4(1))
qed

theorem mapowanie_strony_witness:
  "fst (mapuj_strone_wewnetrznie vmm_przyklad 0x200000 0x400000 0x300000 7) \<and>
   ww_user (sprawdz_mapowanie (snd (mapuj_strone_wewnetrznie vmm_przyklad 0x200000 0x400000 0x300000 7)) 0x200000 0x400000)"
proof -
  have ok: "fst (mapuj_strone_wewnetrznie vmm_przyklad 0x200000 0x400000 0x300000 7)"
    by (simp add: mapuj_strone_wewnetrznie_def adres_strony_poprawny_def adres_kanoniczny_def
        adres_fizyczny_strony_poprawny_def MASKA_ADRESU_4K_def adres_user_kanoniczny_def
        pobierz_lub_utworz_pdp_def pobierz_lub_utworz_pd_def pobierz_lub_utworz_pt_def tabela_lub_nowa_def
        indeks_pml4_def indeks_pdp_def indeks_pd_def dodaj_prawa_def tabela_z_wpisu_def
        tabela_fizyczna_bezposrednio_dostepna_def vmm_przyklad_def Let_def)
  then show ?thesis
    using mapowanie_strony [OF vmm_przyklad_drzewo _ prod.collapse [symmetric], where wirt = "0x400000" and fiz = "0x300000" and flagi = "7"]
    by (simp add: bit_numeral_rec)
qed

subsection \<open>The range check\<close>

lemma strona_bity: "bit (a AND NOT (STRONA_4K - 1)) n \<longleftrightarrow> bit a n \<and> 12 \<le> n"
  unfolding maska_offsetu by (auto simp: bit_and_iff bit_not_iff bit_mask_u64 dest: bit_u64_less)

lemma sprawdz_poczatek_strony:
  "sprawdz_mapowanie v pml4 (a AND NOT (STRONA_4K - 1)) = sprawdz_mapowanie v pml4 a"
  by (rule sprawdz_strona) (simp only: strona_bity, blast)

lemma unat_strona: "unat (a AND NOT (STRONA_4K - 1)) = unat a - unat a mod 4096"
  using unat_down4096 [of a] by simp

definition dostep :: "vmm \<Rightarrow> u64 \<Rightarrow> bool \<Rightarrow> u64 \<Rightarrow> bool" where
  "dostep v pml4 zapis a \<longleftrightarrow>
     (let w = sprawdz_mapowanie v pml4 a in ww_obecna w \<and> ww_user w \<and> (\<not> zapis \<or> ww_zapisywalna w))"

definition adres_strony :: "nat \<Rightarrow> u64" where
  "adres_strony k = of_nat (4096 * k)"

lemma unat_adres_strony: "k < 4503599627370496 \<Longrightarrow> unat (adres_strony k) = 4096 * k"
  unfolding adres_strony_def by (rule unat_of_nat_u64) simp

lemma sprawdz_strony_iff:
  assumes "q < 4503599627370496"
  shows "p \<le> q \<Longrightarrow> sprawdz_strony v pml4 zapis (adres_strony p) (adres_strony q) \<longleftrightarrow>
    (\<forall>k. p \<le> k \<and> k \<le> q \<longrightarrow> dostep v pml4 zapis (adres_strony k))"
proof (induction "q - p" arbitrary: p)
  case 0
  then have "p = q" by simp
  moreover have "sprawdz_strony v pml4 zapis (adres_strony q) (adres_strony q) = dostep v pml4 zapis (adres_strony q)"
    by (subst sprawdz_strony.simps) (auto simp: dostep_def Let_def)
  ultimately show ?case by (auto intro: le_antisym)
next
  case (Suc d)
  then have pq: "p < q" by simp
  have u: "unat (adres_strony p) = 4096 * p" "unat (adres_strony q) = 4096 * q" "unat (adres_strony (Suc p)) = 4096 * Suc p"
    using pq assms by (simp_all add: unat_adres_strony)
  have ne: "adres_strony p \<noteq> adres_strony q"
  proof
    assume "adres_strony p = adres_strony q"
    then have "unat (adres_strony p) = unat (adres_strony q)" by (rule arg_cong)
    then show False using u(1,2) pq by linarith
  qed
  have og: "\<not> adres_strony p > UINT64_MAX - STRONA_4K"
  proof -
    have "unat STRONA_4K = 4096" by simp
    then show ?thesis unfolding max_minus_less_iff u(1) using pq assms by linarith
  qed
  have nast: "adres_strony p + STRONA_4K = adres_strony (Suc p)"
    by (simp add: adres_strony_def)
  have "sprawdz_strony v pml4 zapis (adres_strony p) (adres_strony q) \<longleftrightarrow>
      dostep v pml4 zapis (adres_strony p) \<and> sprawdz_strony v pml4 zapis (adres_strony (Suc p)) (adres_strony q)"
    by (subst sprawdz_strony.simps) (simp only: Let_def dostep_def nast if_not_P [OF ne] if_not_P [OF og], auto)
  also have "sprawdz_strony v pml4 zapis (adres_strony (Suc p)) (adres_strony q) \<longleftrightarrow>
      (\<forall>k. Suc p \<le> k \<and> k \<le> q \<longrightarrow> dostep v pml4 zapis (adres_strony k))"
    using Suc pq by simp
  finally show ?case using pq by (metis Suc_le_eq le_eq_less_or_eq)
qed

lemma adres_strony_dol: "a AND NOT (STRONA_4K - 1) = adres_strony (unat a div 4096)"
proof -
  have "unat a div 4096 < 4503599627370496"
    using unat_u64_less [of a] by (simp add: less_mult_imp_div_less del: unat_u64_less)
  then have "unat (adres_strony (unat a div 4096)) = unat a - unat a mod 4096"
    by (simp add: unat_adres_strony minus_mod_eq_mult_div)
  then show ?thesis by (simp only: word_unat_eq_iff unat_strona)
qed

lemma dostep_strona: "dostep v pml4 zapis (adres_strony (unat a div 4096)) = dostep v pml4 zapis a"
  unfolding adres_strony_dol [symmetric] dostep_def sprawdz_poczatek_strony ..

definition zakres_dolny :: "vmm \<Rightarrow> u64 \<Rightarrow> u64 \<Rightarrow> bool" where
  "zakres_dolny v adres rozmiar \<longleftrightarrow> 4096 \<le> unat adres \<and> unat adres + unat rozmiar \<le> 2 ^ 47 \<and> vm_gotowy v \<and> pml4_z_cr3 v \<noteq> 0"

lemma ostatni_bajt:
  fixes rozmiar :: u64
  assumes "rozmiar \<noteq> 0" "unat adres + unat rozmiar \<le> 2 ^ 64"
  shows "unat (adres + (rozmiar - 1)) = unat adres + unat rozmiar - 1"
proof -
  have "0 < unat rozmiar" using assms(1) by (simp add: unat_gt_0)
  moreover have "unat (rozmiar - 1) = unat rozmiar - 1"
    using calculation by (simp add: unat_sub word_le_nat_alt)
  ultimately show ?thesis using assms(2) by (subst unat_add_u64) auto
qed

lemma zakres_jako_strony:
  assumes "rozmiar \<noteq> 0"
  shows "bws_vmm_sprawdz_zakres_uzytkownika v adres rozmiar zapis \<longleftrightarrow>
      zakres_dolny v adres rozmiar \<and> sprawdz_strony v (pml4_z_cr3 v) zapis (adres_strony (unat adres div 4096))
        (adres_strony (unat (adres + (rozmiar - 1)) div 4096))"
proof -
  define m where "m = rozmiar - 1"
  have r: "0 < unat rozmiar" using assms by (simp add: unat_gt_0)
  have m: "unat m = unat rozmiar - 1"
    using r by (simp add: m_def unat_sub word_le_nat_alt)
  have gr: "adres > UINT64_MAX - m \<longleftrightarrow> 2 ^ 64 < unat adres + unat rozmiar"
    unfolding max_minus_less_iff m using r by auto
  have st: "adres < STRONA_4K \<longleftrightarrow> unat adres < 4096" by (simp add: word_less_nat_alt)
  show ?thesis
  proof (cases "unat adres + unat rozmiar \<le> 2 ^ 64")
    case True
    then have "\<not> adres > UINT64_MAX - m" unfolding gr by simp
    moreover have "unat (adres + m) < 2 ^ 47 \<longleftrightarrow> unat adres + unat rozmiar \<le> 2 ^ 47"
      unfolding m_def ostatni_bajt [OF assms True] using r by auto
    ultimately show ?thesis
      using assms r unfolding bws_vmm_sprawdz_zakres_uzytkownika_def Let_def m_def [symmetric] adres_strony_dol
        user_kanoniczny st zakres_dolny_def
      by auto
  next
    case nie: False
    then have "adres > UINT64_MAX - m" unfolding gr by simp
    then have "\<not> bws_vmm_sprawdz_zakres_uzytkownika v adres rozmiar zapis"
      using assms unfolding bws_vmm_sprawdz_zakres_uzytkownika_def Let_def m_def [symmetric] by simp
    then show ?thesis using nie unfolding zakres_dolny_def by simp
  qed
qed

lemma strony_jako_bajty:
  assumes r: "0 < unat rozmiar" and z: "unat adres + unat rozmiar \<le> 2 ^ 47"
  shows "(\<forall>j. unat adres div 4096 \<le> j \<and> j \<le> (unat adres + unat rozmiar - 1) div 4096 \<longrightarrow> dostep v c zapis (adres_strony j)) \<longleftrightarrow>
    (\<forall>i < unat rozmiar. dostep v c zapis (adres + of_nat i))"
proof -
  have u: "unat (adres + of_nat i) = unat adres + i" if "i < unat rozmiar" for i
  proof -
    have "unat (of_nat i :: u64) = i" using that z by (intro unat_of_nat_u64) simp
    then show ?thesis using that z by (subst unat_add_u64) simp_all
  qed
  show ?thesis
  proof (intro iffI allI impI)
    fix i assume s: "\<forall>j. unat adres div 4096 \<le> j \<and> j \<le> (unat adres + unat rozmiar - 1) div 4096 \<longrightarrow> dostep v c zapis (adres_strony j)"
      and i: "i < unat rozmiar"
    have "unat adres div 4096 \<le> unat (adres + of_nat i) div 4096"
      "unat (adres + of_nat i) div 4096 \<le> (unat adres + unat rozmiar - 1) div 4096"
      unfolding u [OF i] using i by (intro div_le_mono; simp)+
    then show "dostep v c zapis (adres + of_nat i)" using s dostep_strona by blast
  next
    fix j assume s: "\<forall>i < unat rozmiar. dostep v c zapis (adres + of_nat i)"
      and j: "unat adres div 4096 \<le> j \<and> j \<le> (unat adres + unat rozmiar - 1) div 4096"
    define a where "a = max (unat adres) (4096 * j)"
    have aj: "a div 4096 = j" "unat adres \<le> a" "a \<le> unat adres + unat rozmiar - 1"
      using j r unfolding a_def by (auto simp: max_def)
    define i where "i = a - unat adres"
    have i: "i < unat rozmiar" "a = unat adres + i" using aj r by (auto simp: i_def)
    then have "unat (adres + of_nat i) = a" by (simp add: u)
    then show "dostep v c zapis (adres_strony j)"
      using s i(1) aj(1) dostep_strona [of v c zapis "adres + of_nat i"] by simp
  qed
qed

lemma bws_zakres:
  "bws_vmm_sprawdz_zakres_uzytkownika v adres rozmiar zapis \<longleftrightarrow>
     (if rozmiar = 0 then True
      else zakres_dolny v adres rozmiar \<and>
        list_all (\<lambda>i. dostep v (pml4_z_cr3 v) zapis (adres + of_nat i)) [0 ..< unat rozmiar])"
proof (cases "rozmiar = 0")
  case True
  then show ?thesis by (simp add: bws_vmm_sprawdz_zakres_uzytkownika_def)
next
  case False
  note W = zakres_jako_strony [OF False, of v adres zapis]
  show ?thesis
  proof (cases "zakres_dolny v adres rozmiar")
    case True
    then have z: "unat adres + unat rozmiar \<le> 2 ^ 47" by (simp add: zakres_dolny_def)
    have r: "0 < unat rozmiar" using False by (simp add: unat_gt_0)
    have k: "unat (adres + (rozmiar - 1)) = unat adres + unat rozmiar - 1"
      using z by (intro ostatni_bajt [OF False]) simp
    have "sprawdz_strony v (pml4_z_cr3 v) zapis (adres_strony (unat adres div 4096)) (adres_strony ((unat adres + unat rozmiar - 1) div 4096)) \<longleftrightarrow>
        (\<forall>i < unat rozmiar. dostep v (pml4_z_cr3 v) zapis (adres + of_nat i))"
      unfolding strony_jako_bajty [OF r z, symmetric]
      by (rule sprawdz_strony_iff) (use z r in \<open>auto intro!: div_le_mono\<close>)
    then show ?thesis using W True False unfolding k by (auto simp: list_all_iff)
  next
    case nie: False
    then show ?thesis using W False by simp
  qed
qed

text \<open>
  C13. The check of user pointers is exact: it accepts a non-empty range if and only if the range
  starts above the null page, ends within the lower half, the VMM runs on a valid CR3, and every
  single byte of the range is mapped, user accessible and, for writes, writable. The empty range is
  always accepted.
\<close>

theorem sprawdz_zakres_dokladny:
  "bws_vmm_sprawdz_zakres_uzytkownika v adres rozmiar zapis \<longleftrightarrow>
     (if rozmiar = 0 then True
      else zakres_dolny v adres rozmiar \<and>
        list_all (\<lambda>i. dostep v (pml4_z_cr3 v) zapis (adres + of_nat i)) [0 ..< unat rozmiar])"
  by (rule bws_zakres)

end
