(* ===== verification/Vmm_Jadro.thy ===== *)
theory Vmm_Jadro
  imports Vmm_Twierdzenia
begin

section \<open>The identity map of the kernel\<close>

text \<open>
  The tables \<open>InicjalizujVMM\<close> builds, entry by entry, and what the walker finds in them (C14).
\<close>


text \<open>The static tables the linker lays out: seven distinct pages the kernel can reach.\<close>

definition tablice_poprawne :: "tablice_jadra \<Rightarrow> bool" where
  "tablice_poprawne tj \<longleftrightarrow>
     (let ts = [tj_pml4 tj, tj_pdp tj, tj_pd tj 0, tj_pd tj 1, tj_pd tj 2, tj_pd tj 3, tj_pt tj] in
      distinct ts \<and> list_all tabela_fizyczna_bezposrednio_dostepna ts)"

lemma foldl_pisz:
  "vm_tabele (foldl (\<lambda>v i. pisz_wpis v t i (f i)) v is) x j =
     (if x = t \<and> j \<in> set is then f j else vm_tabele v x j)"
  by (induction "is" arbitrary: v) auto

lemma foldl_pd:
  "vm_tabele (foldl (\<lambda>v i. if P i then v else pisz_wpis v t i (f i)) v is) x j =
     (if x = t \<and> j \<in> set is \<and> \<not> P j then f j else vm_tabele v x j)"
  by (induction "is" arbitrary: v) auto

text \<open>The contents of the seven tables after \<open>przygotuj_identity_map_jadra\<close>.\<close>

lemma identity_tabele:
  fixes v :: vmm
  assumes "tablice_poprawne tj"
  defines "T \<equiv> vm_tabele (przygotuj_identity_map_jadra tj v)"
  shows "j < 512 \<Longrightarrow> T (tj_pml4 tj) j = (if j = 0 then (tj_pdp tj AND MASKA_ADRESU_4K) OR (PTE_PRESENT OR PTE_WRITE) else 0)"
    and "j < 512 \<Longrightarrow> T (tj_pdp tj) j = (if j < 4 then (tj_pd tj j AND MASKA_ADRESU_4K) OR (PTE_PRESENT OR PTE_WRITE) else 0)"
    and "j < 512 \<Longrightarrow> T (tj_pt tj) j = (if j = 0 then 0 else (of_nat j * STRONA_4K) OR (PTE_PRESENT OR PTE_WRITE))"
    and "j < 512 \<Longrightarrow> g < 4 \<Longrightarrow> T (tj_pd tj g) j =
      (if g = 0 \<and> j = 0 then (tj_pt tj AND MASKA_ADRESU_4K) OR (PTE_PRESENT OR PTE_WRITE) else wpis_2m_jadra g j)"
proof -
  have u: "[0 ..< 4] = [0, 1, 2, 3 :: nat]" by (simp add: upt_rec)
  have d: "distinct [tj_pml4 tj, tj_pdp tj, tj_pd tj 0, tj_pd tj 1, tj_pd tj 2, tj_pd tj 3, tj_pt tj]"
    and nz: "tj_pml4 tj \<noteq> 0" "tj_pdp tj \<noteq> 0" "tj_pd tj 0 \<noteq> 0" "tj_pd tj 1 \<noteq> 0" "tj_pd tj 2 \<noteq> 0" "tj_pd tj 3 \<noteq> 0" "tj_pt tj \<noteq> 0"
    using assms(1) by (auto simp: tablice_poprawne_def Let_def tabela_fizyczna_bezposrednio_dostepna_def)
  note T = T_def przygotuj_identity_map_jadra_def Let_def foldl_pd foldl_pisz u WyzerujStrone_def
  show "j < 512 \<Longrightarrow> T (tj_pml4 tj) j = (if j = 0 then (tj_pdp tj AND MASKA_ADRESU_4K) OR (PTE_PRESENT OR PTE_WRITE) else 0)"
    using d nz by (simp add: T)
  have j4: "j < 4 \<longleftrightarrow> j = 0 \<or> j = 1 \<or> j = 2 \<or> j = 3" for j :: nat by auto
  show "j < 512 \<Longrightarrow> T (tj_pdp tj) j = (if j < 4 then (tj_pd tj j AND MASKA_ADRESU_4K) OR (PTE_PRESENT OR PTE_WRITE) else 0)"
    unfolding j4 using d nz by (auto simp add: T)
  show "j < 512 \<Longrightarrow> T (tj_pt tj) j = (if j = 0 then 0 else (of_nat j * STRONA_4K) OR (PTE_PRESENT OR PTE_WRITE))"
    using d nz by (auto simp add: T)
  assume "j < 512" "g < 4"
  then consider "g = 0" | "g = 1" | "g = 2" | "g = 3" by linarith
  then show "T (tj_pd tj g) j =
      (if g = 0 \<and> j = 0 then (tj_pt tj AND MASKA_ADRESU_4K) OR (PTE_PRESENT OR PTE_WRITE) else wpis_2m_jadra g j)"
    using d nz \<open>j < 512\<close> by cases (simp_all add: T)
qed

lemma indeks_maly: "indeks l a < 2 ^ k \<longleftrightarrow> (\<forall>n. k \<le> n \<and> n < 9 \<longrightarrow> \<not> bit a (12 + 9 * (l - 1) + n))"
  unfolding indeks_def unat_less_bity by (auto simp: bit_and_iff bit_drop_bit_eq bit_mask_u64)

text \<open>An address of the first 4 GiB, seen by its indices.\<close>

lemma dolne_4g:
  "adres_kanoniczny a \<Longrightarrow> unat a < 4294967296 \<longleftrightarrow> indeks 4 a = 0 \<and> indeks 3 a < 4"
proof -
  assume k: "adres_kanoniczny a"
  have "unat a < 2 ^ 32 \<longleftrightarrow> (\<forall>n. 32 \<le> n \<longrightarrow> \<not> bit a n)" by (rule unat_less_bity)
  also have "\<dots> \<longleftrightarrow> (\<forall>n < 9. \<not> bit a (39 + n)) \<and> (\<forall>n. 2 \<le> n \<and> n < 9 \<longrightarrow> \<not> bit a (30 + n))"
  proof (intro iffI conjI allI impI; (elim conjE)?)
    fix n :: nat assume z: "\<forall>n < 9. \<not> bit a (39 + n)" "\<forall>n. 2 \<le> n \<and> n < 9 \<longrightarrow> \<not> bit a (30 + n)" and n: "32 \<le> n"
    have 47: "\<not> bit a 47" using z(1) [rule_format, of 8] by simp
    consider "n < 39" | "39 \<le> n" "n < 48" | "48 \<le> n" by linarith
    then show "\<not> bit a n"
    proof cases
      case 1
      then have "2 \<le> n - 30" "n - 30 < 9" "30 + (n - 30) = n" using n by linarith+
      then show ?thesis using z(2) [rule_format, of "n - 30"] by simp
    next
      case 2
      then have "n - 39 < 9" "39 + (n - 39) = n" by linarith+
      then show ?thesis using z(1) [rule_format, of "n - 39"] by simp
    next
      case 3 then show ?thesis using k 47 bit_u64_less [of a n] by (auto simp: kanoniczny_bity)
    qed
  qed auto
  also have "\<dots> \<longleftrightarrow> indeks 4 a < 2 ^ 0 \<and> indeks 3 a < 2 ^ 2"
    unfolding indeks_maly by simp
  finally show ?thesis by simp
qed

lemma maly_kanoniczny: "unat a < 4294967296 \<Longrightarrow> adres_kanoniczny a"
proof -
  assume "unat a < 4294967296"
  then have "\<forall>n. 32 \<le> n \<longrightarrow> \<not> bit a n" using unat_less_bity [of a 32] by simp
  then show ?thesis by (simp add: kanoniczny_bity)
qed

lemma bit_fiz_2m:
  "bit (of_nat (indeks 3 a) * STRONA_1G + of_nat (indeks 2 a) * STRONA_2M) n \<longleftrightarrow> 21 \<le> n \<and> n < 39 \<and> bit a n"
proof -
  have s: "STRONA_1G = push_bit 30 1" by (simp add: push_bit_eq_mult)
  have "of_nat (indeks 3 a) * push_bit 30 1 + of_nat (indeks 2 a) * push_bit 21 1 =
      of_nat (indeks 3 a) * push_bit 30 1 OR (of_nat (indeks 2 a) * push_bit 21 1 :: u64)"
    by (rule disjunctive_add) (simp only: bit_skladowa, linarith)
  then show ?thesis
    unfolding s stale_rozmiarow by (simp only: bit_or_iff bit_skladowa) auto
qed

lemma bit_wpis_2m_jadra:
  defines "e a \<equiv> wpis_2m_jadra (indeks 3 a) (indeks 2 a)"
  shows "bit (e a) 0" "bit (e a) 1" "bit (e a) 7" "\<not> bit (e a) 2"
    "21 \<le> n \<Longrightarrow> n < 52 \<Longrightarrow> bit (e a) n \<longleftrightarrow> n < 39 \<and> bit a n"
proof -
  define fiz where "fiz = of_nat (indeks 3 a) * STRONA_1G + of_nat (indeks 2 a) * STRONA_2M"
  obtain f where f: "e a = (fiz AND pole 21 52) OR f" "f = 0x83 \<or> f = 0x9B"
    unfolding e_def wpis_2m_jadra_def maski_pole Let_def fiz_def by (cases "fiz = 0xFEE00000 \<or> fiz = 0xFEC00000") (auto simp: fiz_def)
  have f2: "f = 0x83 OR (f AND 0x18)" using f(2) by auto
  have bf: "bit f n \<longleftrightarrow> n = 0 \<or> n = 1 \<or> n = 7 \<or> bit f n \<and> (n = 3 \<or> n = 4)" for n
  proof -
    have m: "(0x83 :: u64) = push_bit 0 1 OR push_bit 1 1 OR push_bit 7 1" "(0x18 :: u64) = push_bit 3 1 OR push_bit 4 1"
      by (simp_all add: push_bit_eq_mult)
    show ?thesis using arg_cong [OF f2, of "\<lambda>x. bit x n"] unfolding m bit_or_iff bit_and_iff bit_push_1 by auto
  qed
  show "bit (e a) 0" "bit (e a) 1" "bit (e a) 7" "\<not> bit (e a) 2"
    unfolding f(1) bit_or_iff bit_and_iff bit_pole using bf [of 0] bf [of 1] bf [of 7] bf [of 2] by simp_all
  show "bit (e a) n \<longleftrightarrow> n < 39 \<and> bit a n" if "21 \<le> n" "n < 52"
    unfolding f(1) bit_or_iff bit_and_iff bit_pole fiz_def bit_fiz_2m using bf [of n] that by auto
qed


text \<open>The walk through the kernel's tables.\<close>

lemma flagi_jadra: "PTE_PRESENT OR PTE_WRITE = flagi_tabeli_posredniej False"
  by (simp add: flagi_tabeli_posredniej_def)

lemma wpis_tabeli_jadra:
  assumes "tabela_fizyczna_bezposrednio_dostepna c"
  defines "e \<equiv> (c AND MASKA_ADRESU_4K) OR (PTE_PRESENT OR PTE_WRITE)"
  shows "bit e 0" "bit e 1" "\<not> bit e 2" "\<not> bit e 7" "dziecko (Suc (Suc l)) e = c"
proof -
  have e: "(c AND MASKA_ADRESU_4K) OR flagi_tabeli_posredniej False = e"
    unfolding e_def flagi_jadra ..
  note b = bit_tabela [OF assms(1), where user = False, unfolded e]
  have "\<not> bit c n" if "n < 12" for n using dostepna_bity [OF assms(1)] that by (meson not_le)
  then show "bit e 0" "bit e 1" "\<not> bit e 2" "\<not> bit e 7" "dziecko (Suc (Suc l)) e = c" using b by simp_all
qed

lemma bit_wpis_4k:
  defines "e a \<equiv> of_nat (indeks 1 a) * STRONA_4K OR (PTE_PRESENT OR PTE_WRITE)"
  shows "bit (e a) n \<longleftrightarrow> n = 0 \<or> n = 1 \<or> 12 \<le> n \<and> n < 21 \<and> bit a n"
proof -
  have s: "STRONA_4K = push_bit 12 1" by (simp add: push_bit_eq_mult)
  show ?thesis unfolding e_def s bit_or_iff bit_skladowa bit_flagi by auto
qed

lemma spacer_jadra:
  fixes v :: vmm
  assumes tj: "tablice_poprawne tj"
  defines "T \<equiv> vm_tabele (przygotuj_identity_map_jadra tj v)"
  shows "spacer T 4 (tj_pml4 tj) a True True =
    (if indeks 4 a \<noteq> 0 \<or> 4 \<le> indeks 3 a then None
     else if indeks 3 a = 0 \<and> indeks 2 a = 0
       then if indeks 1 a = 0 then None else Some (1, of_nat (indeks 1 a) * STRONA_4K OR (PTE_PRESENT OR PTE_WRITE), False, True)
     else Some (2, wpis_2m_jadra (indeks 3 a) (indeks 2 a), False, True))"
proof -
  note t = identity_tabele [OF tj, where v = v, folded T_def, OF indeks_less]
  have four: "g < 4 \<Longrightarrow> g = 0 \<or> g = 1 \<or> g = 2 \<or> g = 3" for g :: nat by linarith
  have dost: "tabela_fizyczna_bezposrednio_dostepna (tj_pdp tj)" "tabela_fizyczna_bezposrednio_dostepna (tj_pt tj)"
    "g < 4 \<Longrightarrow> tabela_fizyczna_bezposrednio_dostepna (tj_pd tj g)" for g
    using tj four [of g] by (auto simp: tablice_poprawne_def Let_def)
  have nz: "tj_pdp tj \<noteq> 0" "tj_pt tj \<noteq> 0" "g < 4 \<Longrightarrow> tj_pd tj g \<noteq> 0" for g
    using dost by (auto simp: tabela_fizyczna_bezposrednio_dostepna_def)
  have n: "4 = Suc (Suc (Suc (Suc 0)))" by simp
  note k = wpis_tabeli_jadra
  have l1: "spacer T (Suc 0) (tj_pt tj) a u w = (if indeks 1 a = 0 then None
      else Some (1, of_nat (indeks 1 a) * STRONA_4K OR (PTE_PRESENT OR PTE_WRITE), False, w))" for u w
    using t(3) [of 1 a] bit_wpis_4k [of a 0] bit_wpis_4k [of a 1] bit_wpis_4k [of a 2]
    unfolding spacer.simps(2) Let_def by simp
  have l2: "spacer T (Suc (Suc 0)) (tj_pd tj g) a u w = (if g = 0 \<and> indeks 2 a = 0 then
      if indeks 1 a = 0 then None else Some (1, of_nat (indeks 1 a) * STRONA_4K OR (PTE_PRESENT OR PTE_WRITE), False, w)
      else Some (2, wpis_2m_jadra g (indeks 2 a), False, w))" if g: "g < 4" "indeks 3 a = g" for g u w
  proof (cases "g = 0 \<and> indeks 2 a = 0")
    case True
    then have "T (tj_pd tj g) (indeks 2 a) = (tj_pt tj AND MASKA_ADRESU_4K) OR (PTE_PRESENT OR PTE_WRITE)"
      using t(4) [of g 2 a] g by simp
    then show ?thesis
      using True nz(2) k [OF dost(2)] unfolding spacer.simps(2) [of T "Suc 0"] Let_def
      by (simp add: duzy_lisc_bit l1 numeral_2_eq_2 del: One_nat_def)
  next
    case False
    then have e: "T (tj_pd tj g) (indeks 2 a) = wpis_2m_jadra (indeks 3 a) (indeks 2 a)"
      using t(4) [of g 2 a] g by auto
    show ?thesis
      using bit_wpis_2m_jadra(1-4) [of a] False g
      unfolding spacer.simps(2) [of T "Suc 0"] Let_def
      by (simp add: duzy_lisc_bit e [unfolded numeral_2_eq_2] numeral_2_eq_2)
  qed
  have l3: "spacer T (Suc (Suc (Suc 0))) (tj_pdp tj) a u w =
      (if 4 \<le> indeks 3 a then None else spacer T (Suc (Suc 0)) (tj_pd tj (indeks 3 a)) a False w)" for u w
    using nz(3) [of "indeks 3 a"] k [OF dost(3) [of "indeks 3 a"]] t(2) [of 3 a]
    unfolding spacer.simps(2) [of T "Suc (Suc 0)"] Let_def
    by (simp add: duzy_lisc_bit numeral_3_eq_3)
  have l4: "spacer T 4 (tj_pml4 tj) a True True =
      (if indeks 4 a \<noteq> 0 then None else spacer T (Suc (Suc (Suc 0))) (tj_pdp tj) a False True)"
  proof (cases "indeks 4 a = 0")
    case True
    then have "T (tj_pml4 tj) 0 = (tj_pdp tj AND MASKA_ADRESU_4K) OR (PTE_PRESENT OR PTE_WRITE)"
      using t(1) [of 4 a] by simp
    then show ?thesis using True nz(1) k [OF dost(1)] unfolding n spacer.simps(2) [of T "Suc (Suc (Suc 0))"] Let_def
      by (simp add: duzy_lisc_bit)
  next
    case False
    then show ?thesis using t(1) [of 4 a] unfolding n spacer.simps(2) [of T "Suc (Suc (Suc 0))"] Let_def
      by simp
  qed
  show ?thesis unfolding l4 l3 using l2 [of "indeks 3 a"] by simp
qed


text \<open>The page and the cache attribute of a leaf of the identity map.\<close>

lemma strona_2m_jadra:
  assumes "indeks 4 a = 0" "adres_kanoniczny a" "indeks 3 a < 4"
  shows "adres_ramki 2 (wpis_2m_jadra (indeks 3 a) (indeks 2 a)) a = a AND NOT (STRONA_4K - 1)"
proof -
  have g: "\<forall>n. 32 \<le> n \<longrightarrow> \<not> bit a n" using dolne_4g [OF assms(2)] assms(1,3) unat_less_bity [of a 32] by simp
  have lt: "n < 32" if "bit a n" for n using g that by (meson not_le)
  have r: "adres_ramki 2 e a = (e AND pole 21 52) OR (a AND pole 12 21)" for e by (simp add: adres_ramki_def)
  show ?thesis
  proof (rule bit_word_eqI)
    fix n assume "n < LENGTH(64)"
    show "bit (adres_ramki 2 (wpis_2m_jadra (indeks 3 a) (indeks 2 a)) a) n = bit (a AND NOT (STRONA_4K - 1)) n"
      unfolding strona_bity unfolding r bit_or_iff bit_and_iff bit_pole using bit_wpis_2m_jadra(5) [of n a] lt [of n] by fastforce
  qed
qed

lemma strona_4k_jadra:
  assumes "unat a < 4294967296" "indeks 3 a = 0" "indeks 2 a = 0"
  shows "adres_ramki 1 (of_nat (indeks 1 a) * STRONA_4K OR (PTE_PRESENT OR PTE_WRITE)) a = a AND NOT (STRONA_4K - 1)"
proof -
  have g: "\<forall>n. 32 \<le> n \<longrightarrow> \<not> bit a n" using assms(1) unat_less_bity [of a 32] by simp
  have z: "\<not> bit a (12 + 9 * (k - 1) + n)" if "k = 3 \<or> k = 2" "n < 9" for k n :: nat
    using indeks_maly [of k a 0] assms(2,3) that by auto
  have "bit a n \<Longrightarrow> n < 21" for n
  proof (rule ccontr)
    assume n: "bit a n" "\<not> n < 21"
    then consider "n < 30" "n - 21 < 9" "21 + (n - 21) = n" | "30 \<le> n" "n < 39" "n - 30 < 9" "30 + (n - 30) = n" | "39 \<le> n"
      by linarith
    then show False using z [of 2 "n - 21"] z [of 3 "n - 30"] n g by cases auto
  qed
  then have lt: "n < 21" if "bit a n" for n using that by blast
  have r: "adres_ramki 1 e a = e AND pole 12 52" for e by (simp add: adres_ramki_def)
  show ?thesis
  proof (rule bit_word_eqI)
    fix n assume "n < LENGTH(64)"
    show "bit (adres_ramki 1 (of_nat (indeks 1 a) * STRONA_4K OR (PTE_PRESENT OR PTE_WRITE)) a) n = bit (a AND NOT (STRONA_4K - 1)) n"
      unfolding strona_bity unfolding r bit_and_iff bit_pole bit_wpis_4k using lt [of n] by fastforce
  qed
qed


text \<open>The null page, seen by its indices.\<close>

lemma strona_zero:
  assumes "unat a < 4294967296"
  shows "unat a < 4096 \<longleftrightarrow> indeks 3 a = 0 \<and> indeks 2 a = 0 \<and> indeks 1 a = 0"
proof -
  have i: "indeks l a = 0 \<longleftrightarrow> (\<forall>n < 9. \<not> bit a (12 + 9 * (l - 1) + n))" for l
    using indeks_maly [of l a 0] by simp
  have g: "\<forall>n. 32 \<le> n \<longrightarrow> \<not> bit a n" using assms unat_less_bity [of a 32] by simp
  have "unat a < 2 ^ 12 \<longleftrightarrow> (\<forall>n. 12 \<le> n \<longrightarrow> \<not> bit a n)" by (rule unat_less_bity)
  also have "\<dots> \<longleftrightarrow> indeks 3 a = 0 \<and> indeks 2 a = 0 \<and> indeks 1 a = 0"
  proof (intro iffI allI impI)
    fix n :: nat assume z: "indeks 3 a = 0 \<and> indeks 2 a = 0 \<and> indeks 1 a = 0" and n: "12 \<le> n"
    then consider "n - 12 < 9" "12 + (n - 12) = n" | "n - 21 < 9" "21 + (n - 21) = n" | "n - 30 < 9" "30 + (n - 30) = n" | "39 \<le> n"
      by linarith
    then show "\<not> bit a n"
      using z [unfolded i, THEN conjunct1, rule_format, of "n - 30"] z [unfolded i, THEN conjunct2, THEN conjunct1, rule_format, of "n - 21"]
        z [unfolded i, THEN conjunct2, THEN conjunct2, rule_format, of "n - 12"] g by cases auto
  qed (auto simp: i)
  finally show ?thesis by simp
qed

lemma identity_pmm: "vm_pmm (przygotuj_identity_map_jadra tj v) = vm_pmm v"
proof -
  have a: "vm_pmm (foldl (\<lambda>v i. pisz_wpis v t i (f i)) v is) = vm_pmm v" for t f v and "is" :: "nat list"
    by (induction "is" arbitrary: v) (simp_all add: pisz_wpis_def)
  have b: "vm_pmm (foldl (\<lambda>v i. if P i then v else pisz_wpis v t i (f i)) v is) = vm_pmm v" for t f P v and "is" :: "nat list"
    by (induction "is" arbitrary: v) (simp_all add: pisz_wpis_def)
  show ?thesis
    by (simp add: przygotuj_identity_map_jadra_def Let_def upt_rec [of _ 4] a b WyzerujStrone_def)
qed

lemma walker_jadra:
  assumes tj: "tablice_poprawne tj" and t: "vm_tabele v' = vm_tabele (przygotuj_identity_map_jadra tj v)"
  shows "let w = sprawdz_mapowanie v' (tj_pml4 tj) a in
       ww_obecna w = (4096 \<le> unat a \<and> unat a < 2 ^ 32) \<and> \<not> ww_user w \<and>
       (ww_obecna w \<longrightarrow> ww_zapisywalna w \<and> strona_fizyczna w a = a AND NOT (STRONA_4K - 1))"
proof (cases "adres_kanoniczny a \<and> unat a < 4294967296")
  case False
  have nz: "tj_pml4 tj \<noteq> 0"
    using tj by (simp add: tablice_poprawne_def Let_def tabela_fizyczna_bezposrednio_dostepna_def)
  have "\<not> unat a < 4294967296" using False maly_kanoniczny by blast
  moreover have "sprawdz_mapowanie v' (tj_pml4 tj) a = wynik_pusty"
    using False maly_kanoniczny [of a] dolne_4g [of a] by (auto simp: sprawdz_spacer t spacer_jadra [OF tj])
  ultimately show ?thesis by (simp add: wynik_pusty_def)
next
  case True
  have nz: "tj_pml4 tj \<noteq> 0"
    using tj by (simp add: tablice_poprawne_def Let_def tabela_fizyczna_bezposrednio_dostepna_def)
  have z: "indeks 4 a = 0" "indeks 3 a < 4" using True dolne_4g by auto
  note n = strona_zero [of a]
  have pelny: ?thesis if "spacer (vm_tabele v') 4 (tj_pml4 tj) a True True = Some (l, e, False, True)"
      "l = 2 \<or> l = 1" "4096 \<le> unat a" "adres_ramki l e a = a AND NOT (STRONA_4K - 1)" for l e
    using that True nz unfolding sprawdz_spacer that(1) by (auto simp: rozmiar_poziomu_def strona_fizyczna_def)
  show ?thesis
  proof (cases "indeks 3 a = 0 \<and> indeks 2 a = 0")
    case False
    have ge: "4096 \<le> unat a" using n True False by auto
    have "spacer (vm_tabele v') 4 (tj_pml4 tj) a True True = Some (2, wpis_2m_jadra (indeks 3 a) (indeks 2 a), False, True)"
      using z unfolding t spacer_jadra [OF tj] if_not_P [OF False] by simp
    then show ?thesis by (rule pelny [OF _ _ ge strona_2m_jadra [OF z(1) _ z(2)]]) (use True in auto)
  next
    case zero: True
    show ?thesis
    proof (cases "indeks 1 a = 0")
      case i1: True
      then have "spacer (vm_tabele v') 4 (tj_pml4 tj) a True True = None"
        using z zero unfolding t spacer_jadra [OF tj] by simp
      then show ?thesis using zero i1 nz n True by (auto simp: sprawdz_spacer wynik_pusty_def)
    next
      case False
      have ge: "4096 \<le> unat a" using n True False by auto
      have "spacer (vm_tabele v') 4 (tj_pml4 tj) a True True =
          Some (1, of_nat (indeks 1 a) * STRONA_4K OR (PTE_PRESENT OR PTE_WRITE), False, True)"
        using z zero False unfolding t spacer_jadra [OF tj] by simp
      then show ?thesis by (rule pelny [OF _ _ ge strona_4k_jadra]) (use True zero in auto)
    qed
  qed
qed

text \<open>
  C14. After \<open>InicjalizujVMM\<close> on the linker's tables the VMM is ready, CR3 selects the kernel's root,
  and the walker finds an address mapped exactly when it lies in the first 4 GiB outside the null
  page; such an address is mapped to itself, writable, and closed to processes. (The null page stays
  unmapped, so a null pointer faults.)
\<close>

theorem identity_map_jadra:
  assumes tj: "tablice_poprawne tj" and g: "\<not> vm_gotowy v"
  shows "vm_gotowy (InicjalizujVMM tj v) \<and> pml4_z_cr3 (InicjalizujVMM tj v) = tj_pml4 tj \<and>
    vm_bazowe (InicjalizujVMM tj v) = tj_pml4 tj \<and> vm_pmm (InicjalizujVMM tj v) = vm_pmm v \<and>
    (\<forall>a. let w = sprawdz_mapowanie (InicjalizujVMM tj v) (tj_pml4 tj) a in
       ww_obecna w = (4096 \<le> unat a \<and> unat a < 2 ^ 32) \<and> \<not> ww_user w \<and>
       (ww_obecna w \<longrightarrow> ww_zapisywalna w \<and> strona_fizyczna w a = a AND NOT (STRONA_4K - 1)))"
proof -
  have d: "tabela_fizyczna_bezposrednio_dostepna (tj_pml4 tj)" using tj by (simp add: tablice_poprawne_def Let_def)
  then have nz: "tj_pml4 tj \<noteq> 0" by (simp add: tabela_fizyczna_bezposrednio_dostepna_def)
  have i: "vm_tabele (InicjalizujVMM tj v) = vm_tabele (przygotuj_identity_map_jadra tj v)" "vm_gotowy (InicjalizujVMM tj v)"
    "vm_bazowe (InicjalizujVMM tj v) = tj_pml4 tj" "vm_cr3 (InicjalizujVMM tj v) = tj_pml4 tj"
    using g nz by (simp_all add: InicjalizujVMM_def zapisz_cr3_def Let_def)
  have c: "pml4_z_cr3 (InicjalizujVMM tj v) = tj_pml4 tj"
    using d nz by (simp add: pml4_z_cr3_def Let_def i(4) dostepna_maska [OF d] tabela_fizyczna_bezposrednio_dostepna_def not_le)
  have p: "vm_pmm (InicjalizujVMM tj v) = vm_pmm v"
    using g nz by (simp add: InicjalizujVMM_def zapisz_cr3_def Let_def identity_pmm)
  have w: "let w = sprawdz_mapowanie (InicjalizujVMM tj v) (tj_pml4 tj) a in
       ww_obecna w = (4096 \<le> unat a \<and> unat a < 2 ^ 32) \<and> \<not> ww_user w \<and>
       (ww_obecna w \<longrightarrow> ww_zapisywalna w \<and> strona_fizyczna w a = a AND NOT (STRONA_4K - 1))" for a
    by (rule walker_jadra [OF tj i(1)])
  show ?thesis using i(2,3) c p w by blast
qed


text \<open>The witness: the tables at 2 MiB, a PMM in use, nothing else.\<close>

definition tablice_przyklad :: tablice_jadra where
  "tablice_przyklad = \<lparr>tj_pml4 = 0x200000, tj_pdp = 0x201000, tj_pd = (\<lambda>g. 0x202000 + of_nat g * 0x1000), tj_pt = 0x206000\<rparr>"

theorem identity_map_jadra_witness:
  "let v' = InicjalizujVMM tablice_przyklad (vmm_przyklad\<lparr>vm_gotowy := False\<rparr>) in
     \<not> ww_obecna (sprawdz_mapowanie v' 0x200000 0) \<and> ww_obecna (sprawdz_mapowanie v' 0x200000 0xB8000) \<and>
     \<not> ww_user (sprawdz_mapowanie v' 0x200000 0xB8000) \<and> \<not> ww_obecna (sprawdz_mapowanie v' 0x200000 0x100000000)"
proof -
  have t: "tablice_poprawne tablice_przyklad"
    by (simp add: tablice_poprawne_def tablice_przyklad_def tabela_fizyczna_bezposrednio_dostepna_def)
  have p: "tj_pml4 tablice_przyklad = 0x200000" by (simp add: tablice_przyklad_def)
  have "\<not> vm_gotowy (vmm_przyklad\<lparr>vm_gotowy := False\<rparr>)" by simp
  from identity_map_jadra [OF t this] have w: "let w = sprawdz_mapowanie (InicjalizujVMM tablice_przyklad (vmm_przyklad\<lparr>vm_gotowy := False\<rparr>)) 0x200000 a in
      ww_obecna w = (4096 \<le> unat a \<and> unat a < 2 ^ 32) \<and> \<not> ww_user w" for a
    unfolding p Let_def by blast
  show ?thesis using w [of 0] w [of "0xB8000"] w [of "0x100000000"] by (simp add: Let_def)
qed

end
