(* ===== verification/Vmm_Procesy.thy ===== *)
theory Vmm_Procesy
  imports Vmm_Twierdzenia
begin

section \<open>Address spaces of processes\<close>

text \<open>
  Copying a hierarchy for a new process and taking it apart again: the frames each operation takes
  and gives back, and what the walker finds in the copy.
\<close>

subsection \<open>Giving tables back\<close>

definition uzywalne_t :: "vmm \<Rightarrow> u64 set" where
  "uzywalne_t v = {t. unat t \<in> adresy (dostepne (vm_pmm v))}"

lemma wolne_uzywalne_t: "pmm_sprawny (vm_pmm v) \<Longrightarrow> wolne_t v \<subseteq> uzywalne_t v"
  using pmm_pula.wolne_uzywalne [of "vm_pmm v"] by (auto simp: wolne_t_def uzywalne_t_def)

text \<open>\<open>v'\<close> is \<open>v\<close> with the frames of \<open>F\<close> given back; only tables of \<open>Z\<close> may have changed.\<close>

definition zwalnia :: "u64 set \<Rightarrow> u64 set \<Rightarrow> vmm \<Rightarrow> vmm \<Rightarrow> bool" where
  "zwalnia Z F v v' \<longleftrightarrow> pmm_sprawny (vm_pmm v') \<and> uzywalne_t v' = uzywalne_t v \<and>
     (\<forall>x. x \<notin> Z \<longrightarrow> vm_tabele v' x = vm_tabele v x) \<and>
     wolne_t v' = wolne_t v \<union> (F \<inter> uzywalne_t v)"

lemma zwalnia_refl: "pmm_sprawny (vm_pmm v) \<Longrightarrow> zwalnia {} {} v v"
  by (simp add: zwalnia_def)

lemma zwalnia_mono: "zwalnia Z F v v' \<Longrightarrow> Z \<subseteq> Z' \<Longrightarrow> zwalnia Z' F v v'"
  by (auto simp: zwalnia_def)

lemma zwalnia_trans: "zwalnia Z R v v1 \<Longrightarrow> zwalnia Z' R' v1 v2 \<Longrightarrow> zwalnia (Z \<union> Z') (R \<union> R') v v2"
  unfolding zwalnia_def by (elim conjE, intro conjI) auto

lemma zwalnia_pmm:
  assumes "pmm_sprawny (vm_pmm v)"
  shows "pmm_sprawny (ZwolnijRamke (vm_pmm v) (unat t))"
    "uzywalne_t (v\<lparr>vm_pmm := ZwolnijRamke (vm_pmm v) (unat t)\<rparr>) = uzywalne_t v"
    "wolne_t (v\<lparr>vm_pmm := ZwolnijRamke (vm_pmm v) (unat t)\<rparr>) = wolne_t v \<union> ({t} \<inter> uzywalne_t v)"
  using pmm_pula.zwolnij_jedna_spec [OF assms, of "unat t"]
  by (auto simp: uzywalne_t_def wolne_t_def word_unat_eq_iff)

lemma zwalnia_ramka:
  "pmm_sprawny (vm_pmm v) \<Longrightarrow> zwalnia {} {t} v (zwolnij_ramke_tabeli v t)"
  using zwalnia_pmm [of v t] by (simp add: zwolnij_ramke_tabeli_def zwalnia_def)

text \<open>The loop over the children, for an operation that gives back a subtree and some frames that
  depend on the subtree only.\<close>

definition dzieci :: "tabele \<Rightarrow> nat \<Rightarrow> u64 \<Rightarrow> (u64 \<Rightarrow> u64 set) \<Rightarrow> nat set \<Rightarrow> u64 set" where
  "dzieci T l t f I = (\<Union>i \<in> I. if dziecko (Suc l) (T t i) = 0 then {} else f (dziecko (Suc l) (T t i)))"

lemma dzieci_empty [simp]: "dzieci T l t f {} = {}"
  and dzieci_insert: "dzieci T l t f (insert i I) =
    (if dziecko (Suc l) (T t i) = 0 then {} else f (dziecko (Suc l) (T t i))) \<union> dzieci T l t f I"
  by (simp_all add: dzieci_def)

lemma zasieg_dzieci: "zasieg T (Suc l) t = insert t (dzieci T l t (zasieg T l) {..< 512})"
  by (simp add: zasieg.simps(2) dzieci_def)

lemma dla_dzieci_Cons:
  "1 \<le> l \<Longrightarrow> dla_dzieci f (Suc l) t (i # is) v =
     dla_dzieci f (Suc l) t is (if dziecko (Suc l) (vm_tabele v t i) = 0 then v else f v (dziecko (Suc l) (vm_tabele v t i)))"
  by (simp add: dziecko_def and_flagi Let_def)

lemma dla_dzieci_zwalnia:
  assumes T: "drzewo T (Suc l) t" and l: "1 \<le> l"
    and f: "\<And>v c. pmm_sprawny (vm_pmm v) \<Longrightarrow> c \<noteq> 0 \<Longrightarrow> drzewo (vm_tabele v) l c \<Longrightarrow>
      zwalnia (zasieg (vm_tabele v) l c) (R (vm_tabele v) l c) v (f v c)"
    and R: "\<And>T' c. zgodne T T' (zasieg T l c) \<Longrightarrow> R T' l c = R T l c"
  shows "pmm_sprawny (vm_pmm v) \<Longrightarrow> set is \<subseteq> {..< 512} \<Longrightarrow> distinct is \<Longrightarrow>
    (\<forall>i \<in> set is. vm_tabele v t i = T t i) \<Longrightarrow> zgodne T (vm_tabele v) (dzieci T l t (zasieg T l) (set is)) \<Longrightarrow>
    zwalnia (dzieci T l t (zasieg T l) (set is)) (dzieci T l t (R T l) (set is)) v (dla_dzieci f (Suc l) t is v)"
proof (induction "is" arbitrary: v)
  case Nil
  then show ?case by (simp add: zwalnia_refl)
next
  case (Cons i "is")
  define c where "c = dziecko (Suc l) (T t i)"
  have i: "i < 512" "i \<notin> set is" and wt: "vm_tabele v t i = T t i" using Cons.prems by auto
  show ?case
  proof (cases "c = 0")
    case True
    then have "dla_dzieci f (Suc l) t (i # is) v = dla_dzieci f (Suc l) t is v"
      by (simp add: dla_dzieci_Cons [OF l] wt c_def del: dla_dzieci.simps)
    moreover have "dzieci T l t g (set (i # is)) = dzieci T l t g (set is)" for g
      using True by (simp add: dzieci_insert c_def)
    ultimately show ?thesis using Cons.IH [of v] Cons.prems by simp
  next
    case False
    define v1 where "v1 = f v c"
    have krok: "dla_dzieci f (Suc l) t (i # is) v = dla_dzieci f (Suc l) t is v1"
      using False by (simp only: dla_dzieci_Cons [OF l] wt c_def [symmetric] v1_def if_False)
    have dz: "dzieci T l t g (set (i # is)) = g c \<union> dzieci T l t g (set is)" for g
      using False by (simp add: dzieci_insert c_def)
    have zg: "zgodne T (vm_tabele v) (zasieg T l c)"
      using Cons.prems(5) unfolding dz zgodne_def by blast
    note zz = zgodne_zasieg [OF zg]
    have dc: "drzewo T l c" "t \<notin> zasieg T l c" using drzewo_dziecka [OF T i(1)] False by (auto simp: c_def)
    have zw: "zwalnia (zasieg T l c) (R T l c) v v1"
      using f [OF Cons.prems(1) False] zz dc(1) R [OF zg] by (simp add: v1_def)
    have roz: "zasieg T l c \<inter> dzieci T l t (zasieg T l) (set is) = {}"
      using drzewo_rozne [OF T i(1)] Cons.prems(2) i(2) False
      by (fastforce simp: c_def dzieci_def split: if_splits)
    have "zwalnia (dzieci T l t (zasieg T l) (set is)) (dzieci T l t (R T l) (set is)) v1 (dla_dzieci f (Suc l) t is v1)"
    proof (rule Cons.IH)
      show "pmm_sprawny (vm_pmm v1)" using zw by (simp add: zwalnia_def)
      show "\<forall>i \<in> set is. vm_tabele v1 t i = T t i" using zw dc(2) Cons.prems(4) by (simp add: zwalnia_def)
      show "zgodne T (vm_tabele v1) (dzieci T l t (zasieg T l) (set is))"
        unfolding zgodne_def
      proof (intro ballI allI impI)
        fix x j assume x: "x \<in> dzieci T l t (zasieg T l) (set is)" and j: "j < (512 :: nat)"
        have "vm_tabele v1 x = vm_tabele v x" using zw x roz unfolding zwalnia_def by blast
        moreover have "vm_tabele v x j = T x j" using Cons.prems(5) x j unfolding dz zgodne_def by blast
        ultimately show "vm_tabele v1 x j = T x j" by simp
      qed
    qed (use Cons.prems in auto)
    then show ?thesis unfolding krok dz by (rule zwalnia_trans [OF zw])
  qed
qed


lemma zwalnia_tabele:
  assumes "1 \<le> l" "drzewo T (Suc l) t" "zgodne T (vm_tabele v) (zasieg T (Suc l) t)" "pmm_sprawny (vm_pmm v)"
    and "\<And>v c. pmm_sprawny (vm_pmm v) \<Longrightarrow> c \<noteq> 0 \<Longrightarrow> drzewo (vm_tabele v) l c \<Longrightarrow>
      zwalnia (zasieg (vm_tabele v) l c) (R (vm_tabele v) l c) v (f v c)"
    and "\<And>T' c. zgodne T T' (zasieg T l c) \<Longrightarrow> R T' l c = R T l c"
  shows "zwalnia (zasieg T (Suc l) t) (insert t (dzieci T l t (R T l) {..< 512})) v
    (zwolnij_ramke_tabeli (dla_dzieci f (Suc l) t [0 ..< 512] v) t)"
proof -
  have "zwalnia (dzieci T l t (zasieg T l) (set [0 ..< 512])) (dzieci T l t (R T l) (set [0 ..< 512])) v
      (dla_dzieci f (Suc l) t [0 ..< 512] v)"
    by (rule dla_dzieci_zwalnia [where R = R and f = f, OF assms(2,1) assms(5,6)])
      (use assms(3,4) in \<open>auto simp: zasieg_dzieci zgodne_def atLeast0LessThan\<close>)
  moreover from this have "pmm_sprawny (vm_pmm (dla_dzieci f (Suc l) t [0 ..< 512] v))" by (simp add: zwalnia_def)
  note zwalnia_ramka [OF this, of t]
  ultimately have "zwalnia (dzieci T l t (zasieg T l) (set [0 ..< 512]) \<union> {}) (dzieci T l t (R T l) (set [0 ..< 512]) \<union> {t}) v
      (zwolnij_ramke_tabeli (dla_dzieci f (Suc l) t [0 ..< 512] v) t)"
    by (rule zwalnia_trans)
  from zwalnia_mono [OF this, of "zasieg T (Suc l) t"] show ?thesis
    by (simp add: zasieg_dzieci atLeast0LessThan subset_insertI)
qed

text \<open>The rollback of a partial copy gives back the tables of the copy and nothing else.\<close>

lemma zwolnij_sklonowane_spec:
  "l \<le> 4 \<Longrightarrow> pmm_sprawny (vm_pmm v) \<Longrightarrow> c \<noteq> 0 \<Longrightarrow> drzewo (vm_tabele v) l c \<Longrightarrow>
     zwalnia (zasieg (vm_tabele v) l c) (zasieg (vm_tabele v) l c) v (zwolnij_sklonowane_tabele_bez_lisci l v c)"
proof (induction l arbitrary: v c)
  case 0
  then show ?case by (simp add: zwalnia_refl)
next
  case (Suc l)
  show ?case
  proof (cases "l = 0")
    case True
    then show ?thesis
      using zwalnia_ramka [OF Suc.prems(2), of c] Suc.prems by (auto simp: zasieg.simps(2) dziecko_def zwalnia_def)
  next
    case False
    have "zwalnia (zasieg (vm_tabele v) (Suc l) c) (insert c (dzieci (vm_tabele v) l c (zasieg (vm_tabele v) l) {..< 512})) v
      (zwolnij_ramke_tabeli (dla_dzieci (zwolnij_sklonowane_tabele_bez_lisci l) (Suc l) c [0 ..< 512] v) c)"
    proof (rule zwalnia_tabele [where R = zasieg])
      show "zgodne T T' (zasieg T l c) \<Longrightarrow> zasieg T' l c = zasieg T l c" for T T' c
        using zgodne_zasieg by blast
      show "zwalnia (zasieg (vm_tabele v) l c) (zasieg (vm_tabele v) l c) v (zwolnij_sklonowane_tabele_bez_lisci l v c)"
        if "pmm_sprawny (vm_pmm v)" "c \<noteq> 0" "drzewo (vm_tabele v) l c" for v c
        using Suc.IH that Suc.prems(1) by simp
      show "zgodne (vm_tabele v) (vm_tabele v) (zasieg (vm_tabele v) (Suc l) c)" by (simp add: zgodne_def)
    qed (use Suc.prems False in auto)
    then show ?thesis using False Suc.prems unfolding zasieg_dzieci [symmetric] by simp
  qed
qed

subsection \<open>Destroying an address space\<close>

text \<open>The user pages of a process: the frames of the user entries of its page tables.\<close>

definition strona_lisc :: "u64 \<Rightarrow> u64 set" where
  "strona_lisc e = (if bit e 0 \<and> bit e 2 then {e AND MASKA_ADRESU_4K} else {})"

fun strony_user :: "tabele \<Rightarrow> nat \<Rightarrow> u64 \<Rightarrow> u64 set" where
  "strony_user T 0 t = {}"
| "strony_user T (Suc l) t =
     (if l = 0 then \<Union>i \<in> {..< 512}. strona_lisc (T t i) else dzieci T l t (strony_user T l) {..< 512})"

declare strony_user.simps(2) [simp del]

lemma strony_user_zgodne: "zgodne T T' (zasieg T l c) \<Longrightarrow> strony_user T' l c = strony_user T l c"
proof (induction l arbitrary: c)
  case (Suc l)
  have e: "T' c i = T c i" if "i < 512" for i
    using Suc.prems that by (simp add: zgodne_def zasieg.simps(2))
  show ?case
  proof (cases "l = 0")
    case False
    have "strony_user T' l (dziecko (Suc l) (T c i)) = strony_user T l (dziecko (Suc l) (T c i))"
      if "i < 512" "dziecko (Suc l) (T c i) \<noteq> 0" for i
      by (rule Suc.IH) (use Suc.prems zasieg_dziecka [of i l T c, OF that] in \<open>auto simp: zgodne_def\<close>)
    then show ?thesis using e False by (auto simp: strony_user.simps(2) dzieci_def split: if_splits)
  qed (use e in \<open>simp add: strony_user.simps(2)\<close>)
qed simp

lemma zero_nieuzywalne: "pmm_sprawny (vm_pmm v) \<Longrightarrow> 0 \<notin> uzywalne_t v"
  using zero_adresy [of "vm_pmm v"] by (auto simp: uzywalne_t_def pmm_sprawny_def)

lemma zwolnij_lisc_spec:
  assumes p: "pmm_sprawny (vm_pmm v)"
  shows "zwalnia {t} (strona_lisc (vm_tabele v t i)) v (zwolnij_lisc t v i)"
    and "j \<noteq> i \<Longrightarrow> vm_tabele (zwolnij_lisc t v i) t j = vm_tabele v t j"
proof -
  define f where "f = vm_tabele v t i AND MASKA_ADRESU_4K"
  note z = zwalnia_pmm [OF p, of f] zero_nieuzywalne [OF p]
  have u: "uzywalne_t (pisz_wpis x t i 0) = uzywalne_t x" for x by (simp add: uzywalne_t_def)
  show "zwalnia {t} (strona_lisc (vm_tabele v t i)) v (zwolnij_lisc t v i)"
    using z p by (auto simp: zwolnij_lisc_def strona_lisc_def and_flagi Let_def zwalnia_def u simp flip: f_def)
  show "j \<noteq> i \<Longrightarrow> vm_tabele (zwolnij_lisc t v i) t j = vm_tabele v t j"
    by (simp add: zwolnij_lisc_def Let_def)
qed

lemma zwolnij_liscie_spec:
  "pmm_sprawny (vm_pmm v) \<Longrightarrow> distinct is \<Longrightarrow> \<forall>i \<in> set is. vm_tabele v t i = T t i \<Longrightarrow>
     zwalnia {t} (\<Union>i \<in> set is. strona_lisc (T t i)) v (foldl (zwolnij_lisc t) v is)"
proof (induction "is" arbitrary: v)
  case Nil
  then show ?case using zwalnia_mono [OF zwalnia_refl] by simp
next
  case (Cons i "is")
  have z: "zwalnia {t} (strona_lisc (T t i)) v (zwolnij_lisc t v i)"
    using zwolnij_lisc_spec(1) [OF Cons.prems(1), of t i] Cons.prems(3) by simp
  have "zwalnia {t} (\<Union>i \<in> set is. strona_lisc (T t i)) (zwolnij_lisc t v i) (foldl (zwolnij_lisc t) (zwolnij_lisc t v i) is)"
  proof (rule Cons.IH)
    show "pmm_sprawny (vm_pmm (zwolnij_lisc t v i))" using z by (simp add: zwalnia_def)
    show "\<forall>j \<in> set is. vm_tabele (zwolnij_lisc t v i) t j = T t j"
    proof
      fix j assume "j \<in> set is"
      then have "j \<noteq> i" "vm_tabele v t j = T t j" using Cons.prems by auto
      then show "vm_tabele (zwolnij_lisc t v i) t j = T t j" using zwolnij_lisc_spec(2) [OF Cons.prems(1)] by simp
    qed
  qed (use Cons.prems in auto)
  from zwalnia_trans [OF z this] show ?case by simp
qed

lemma zniszcz_spec:
  "l \<le> 4 \<Longrightarrow> 0 < l \<Longrightarrow> pmm_sprawny (vm_pmm v) \<Longrightarrow> c \<noteq> 0 \<Longrightarrow> drzewo (vm_tabele v) l c \<Longrightarrow>
     zwalnia (zasieg (vm_tabele v) l c) (zasieg (vm_tabele v) l c \<union> strony_user (vm_tabele v) l c) v
       (zniszcz_hierarchie_procesu l v c)"
proof (induction l arbitrary: v c)
  case (Suc l)
  show ?case
  proof (cases "l = 0")
    case True
    have z: "zwalnia {c} (\<Union>i \<in> set [0 ..< 512]. strona_lisc (vm_tabele v c i)) v (foldl (zwolnij_lisc c) v [0 ..< 512])"
      by (rule zwolnij_liscie_spec) (use Suc.prems in auto)
    then have "pmm_sprawny (vm_pmm (foldl (zwolnij_lisc c) v [0 ..< 512]))" by (simp add: zwalnia_def)
    from zwalnia_trans [OF z zwalnia_ramka [OF this, of c]] show ?thesis
      using True Suc.prems by (simp add: zasieg.simps(2) dziecko_def strony_user.simps(2) atLeast0LessThan)
  next
    case False
    define R where "R T l c = zasieg T l c \<union> strony_user T l c" for T l c
    have "zwalnia (zasieg (vm_tabele v) (Suc l) c) (insert c (dzieci (vm_tabele v) l c (R (vm_tabele v) l) {..< 512})) v
      (zwolnij_ramke_tabeli (dla_dzieci (zniszcz_hierarchie_procesu l) (Suc l) c [0 ..< 512] v) c)"
    proof (rule zwalnia_tabele [where R = R])
      show "zgodne T T' (zasieg T l c) \<Longrightarrow> R T' l c = R T l c" for T T' c
        using zgodne_zasieg [of T T' l c] strony_user_zgodne [of T T' l c] by (simp add: R_def)
      show "zwalnia (zasieg (vm_tabele v) l c) (R (vm_tabele v) l c) v (zniszcz_hierarchie_procesu l v c)"
        if "pmm_sprawny (vm_pmm v)" "c \<noteq> 0" "drzewo (vm_tabele v) l c" for v c
        using Suc.IH that Suc.prems(1) False by (simp add: R_def)
      show "zgodne (vm_tabele v) (vm_tabele v) (zasieg (vm_tabele v) (Suc l) c)" by (simp add: zgodne_def)
    qed (use Suc.prems False in auto)
    moreover have "dzieci T l c (R T l) I = dzieci T l c (zasieg T l) I \<union> dzieci T l c (strony_user T l) I" for T I
      by (auto simp: dzieci_def R_def split: if_splits)
    ultimately show ?thesis using False Suc.prems by (simp add: zasieg_dzieci strony_user.simps(2))
  qed
qed simp


subsection \<open>Copying a hierarchy\<close>

lemma podmiana_zasieg:
  assumes T: "drzewo T (Suc l) t" and i: "i < 512" "dziecko (Suc l) (T t i) = 0"
    and bez: "\<And>j. j < 512 \<Longrightarrow> j \<noteq> i \<Longrightarrow> T' t j = T t j"
    and obce: "\<And>j. j < 512 \<Longrightarrow> j \<noteq> i \<Longrightarrow> dziecko (Suc l) (T t j) \<noteq> 0 \<Longrightarrow>
      zgodne T T' (zasieg T l (dziecko (Suc l) (T t j)))"
  shows "zasieg T' (Suc l) t = zasieg T (Suc l) t \<union>
    (if dziecko (Suc l) (T' t i) = 0 then {} else zasieg T' l (dziecko (Suc l) (T' t i)))"
proof -
  have o: "(if dziecko (Suc l) (T' t j) = 0 then {} else zasieg T' l (dziecko (Suc l) (T' t j))) =
      (if dziecko (Suc l) (T t j) = 0 then {} else zasieg T l (dziecko (Suc l) (T t j)))" if "j < 512" "j \<noteq> i" for j
    using zgodne_zasieg [OF obce [OF that]] bez [OF that] by simp
  have s: "{..< 512} = insert i ({..< 512} - {i})" using i by auto
  have d: "dzieci T' l t (zasieg T' l) ({..< 512} - {i}) = dzieci T l t (zasieg T l) ({..< 512} - {i})"
    unfolding dzieci_def by (rule SUP_cong) (use o in auto)
  note u = dzieci_insert [of _ l t _ i "{..< 512} - {i}", folded s]
  show ?thesis unfolding zasieg_dzieci u [of T'] u [of T] d by (simp add: i(2) Un_commute)
qed

text \<open>A copy after its first \<open>k\<close> entries: the frames it holds are gone from the pool, nothing else
  has changed, and the walks through these entries are those of the source.\<close>

definition kopia_do :: "vmm \<Rightarrow> nat \<Rightarrow> u64 \<Rightarrow> u64 \<Rightarrow> nat \<Rightarrow> vmm \<Rightarrow> bool" where
  "kopia_do v0 l z c k v \<longleftrightarrow> pmm_sprawny (vm_pmm v) \<and> uzywalne_t v = uzywalne_t v0 \<and>
     (\<forall>x. x \<notin> wolne_t v0 \<longrightarrow> vm_tabele v x = vm_tabele v0 x) \<and>
     drzewo (vm_tabele v) (Suc l) c \<and> zasieg (vm_tabele v) (Suc l) c \<subseteq> wolne_t v0 \<and>
     wolne_t v = wolne_t v0 - zasieg (vm_tabele v) (Suc l) c \<and>
     (\<forall>j < 512. k \<le> j \<longrightarrow> vm_tabele v c j = 0) \<and>
     (\<forall>va u w. indeks (Suc l) va < k \<longrightarrow>
        spacer (vm_tabele v) (Suc l) c va u w = spacer (vm_tabele v0) (Suc l) z va u w)"

definition skopiowana :: "nat \<Rightarrow> u64 \<Rightarrow> vmm \<Rightarrow> u64 \<Rightarrow> vmm \<Rightarrow> bool" where
  "skopiowana l z v0 c v \<longleftrightarrow> pmm_sprawny (vm_pmm v) \<and> uzywalne_t v = uzywalne_t v0 \<and>
     (\<forall>x. x \<notin> wolne_t v0 \<longrightarrow> vm_tabele v x = vm_tabele v0 x) \<and>
     (if c = 0 then wolne_t v = wolne_t v0
      else drzewo (vm_tabele v) l c \<and> zasieg (vm_tabele v) l c \<subseteq> wolne_t v0 \<and>
        wolne_t v = wolne_t v0 - zasieg (vm_tabele v) l c \<and> tabela_fizyczna_bezposrednio_dostepna c \<and>
        (\<forall>va u w. spacer (vm_tabele v) l c va u w = spacer (vm_tabele v0) l z va u w))"

text \<open>One entry: the table \<open>d\<close> (0 for none) goes behind entry \<open>k\<close>, whose frames were taken before.\<close>

lemma kopia_wpis:
  assumes K: "kopia_do v0 l z c k v" and k: "k < 512"
    and p: "pmm_sprawny (vm_pmm v1)" "uzywalne_t v1 = uzywalne_t v"
    and obce: "\<forall>x. x \<notin> wolne_t v \<longrightarrow> vm_tabele v1 x = vm_tabele v x"
    and d: "dziecko (Suc l) e = d"
    and nowe: "if d = 0 then wolne_t v1 = wolne_t v
      else drzewo (vm_tabele v1) l d \<and> zasieg (vm_tabele v1) l d \<subseteq> wolne_t v \<and> wolne_t v1 = wolne_t v - zasieg (vm_tabele v1) l d"
    and sp: "\<And>va u w. indeks (Suc l) va = k \<Longrightarrow>
      spacer ((vm_tabele v1)(c := (vm_tabele v1 c)(k := e))) (Suc l) c va u w = spacer (vm_tabele v0) (Suc l) z va u w"
  shows "kopia_do v0 l z c (Suc k) (pisz_wpis v1 c k e)"
proof -
  define T T' where "T = vm_tabele v" and "T' = (vm_tabele v1)(c := (vm_tabele v1 c)(k := e))"
  have K': "pmm_sprawny (vm_pmm v)" "uzywalne_t v = uzywalne_t v0" "\<And>x. x \<notin> wolne_t v0 \<Longrightarrow> T x = vm_tabele v0 x"
    "drzewo T (Suc l) c" "zasieg T (Suc l) c \<subseteq> wolne_t v0" "wolne_t v = wolne_t v0 - zasieg T (Suc l) c"
    "\<And>j. j < 512 \<Longrightarrow> k \<le> j \<Longrightarrow> T c j = 0"
    "\<And>va u w. indeks (Suc l) va < k \<Longrightarrow> spacer T (Suc l) c va u w = spacer (vm_tabele v0) (Suc l) z va u w"
    using K unfolding kopia_do_def T_def by auto
  have cz: "c \<in> zasieg T (Suc l) c" by (simp add: korzen_zasieg)
  then have cW: "c \<notin> wolne_t v" "c \<in> wolne_t v0" using K'(5,6) by auto
  have T1c: "vm_tabele v1 c = T c" using obce cW by (simp add: T_def)
  have Tc: "T' c j = (if j = k then e else T c j)" for j by (simp add: T'_def T1c)
  have inne: "T' x = vm_tabele v1 x" if "x \<noteq> c" for x using that by (simp add: T'_def)
  have stare: "T' x = T x" if "x \<notin> wolne_t v" "x \<noteq> c" for x using that obce by (simp add: T_def inne)
  have Tk: "dziecko (Suc l) (T c k) = 0" using K'(7) [OF k] by simp
  have P1: "\<And>j. j < 512 \<Longrightarrow> j \<noteq> k \<Longrightarrow> T' c j = T c j" by (simp add: Tc)
  have P2: "zgodne T T' (zasieg T l (dziecko (Suc l) (T c j)))" if "j < 512" "j \<noteq> k" "dziecko (Suc l) (T c j) \<noteq> 0" for j
    using stare drzewo_dziecka [OF K'(4) that(1,3)] zasieg_dziecka [of j l T c, OF that(1,3)] K'(6)
    unfolding zgodne_def by (metis DiffE subsetD)
  have zd: "drzewo T' l d \<and> zasieg T' l d = zasieg (vm_tabele v1) l d" if "d \<noteq> 0"
  proof -
    have "zgodne (vm_tabele v1) T' (zasieg (vm_tabele v1) l d)"
      unfolding zgodne_def
    proof (intro ballI allI impI)
      fix x i assume "x \<in> zasieg (vm_tabele v1) l d"
      then have "x \<in> wolne_t v" using nowe that by auto
      then show "T' x i = vm_tabele v1 x i" using cW(1) inne [of x] by (cases "x = c") auto
    qed
    then show ?thesis using zgodne_zasieg nowe that by auto
  qed
  have P3: "drzewo T' l (dziecko (Suc l) (T' c k)) \<and> c \<notin> zasieg T' l (dziecko (Suc l) (T' c k)) \<and>
      (\<forall>j < 512. j \<noteq> k \<and> dziecko (Suc l) (T c j) \<noteq> 0 \<longrightarrow>
         zasieg T' l (dziecko (Suc l) (T' c k)) \<inter> zasieg T l (dziecko (Suc l) (T c j)) = {})"
    if "dziecko (Suc l) (T' c k) \<noteq> 0"
  proof -
    have dd: "dziecko (Suc l) (T' c k) = d" "d \<noteq> 0" using that d by (simp_all add: Tc)
    have "zasieg (vm_tabele v1) l d \<subseteq> wolne_t v" using nowe dd(2) by simp
    then show ?thesis
      unfolding dd(1) using zd [OF dd(2)] cW(1) K'(6) zasieg_dziecka [of _ l T c] by blast
  qed
  note pod = podmiana [of T l c k T', OF K'(4) k P1 P2 P3]
    and zas = podmiana_zasieg [of T l c k T', OF K'(4) k Tk P1 P2]
  have zT': "zasieg T' (Suc l) c = zasieg T (Suc l) c \<union> (if d = 0 then {} else zasieg (vm_tabele v1) l d)"
    using zas zd d by (simp add: Tc)
  show ?thesis
    unfolding kopia_do_def pisz_wpis_pola T'_def [symmetric]
  proof (intro conjI allI impI)
    show "uzywalne_t (pisz_wpis v1 c k e) = uzywalne_t v0" using p(2) K'(2) by (simp add: uzywalne_t_def)
    show "T' x = vm_tabele v0 x" if "x \<notin> wolne_t v0" for x
      using that stare [of x] K'(3,6) cW(2) by (metis DiffE)
    show "zasieg T' (Suc l) c \<subseteq> wolne_t v0" using zT' K'(5,6) nowe by (auto split: if_splits)
    show "wolne_t v1 = wolne_t v0 - zasieg T' (Suc l) c" using zT' K'(5,6) nowe by (auto split: if_splits)
    show "T' c j = 0" if "j < 512" "Suc k \<le> j" for j using K'(7) that by (simp add: Tc)
    show "spacer T' (Suc l) c va u w = spacer (vm_tabele v0) (Suc l) z va u w" if "indeks (Suc l) va < Suc k" for va u w
      using that sp [of va u w] pod(3) [of va u w] K'(8) [of va u w] by (cases "indeks (Suc l) va = k") (auto simp: T'_def)
  qed (use p(1) pod(1) in auto)
qed


text \<open>The recursive operation, against the specification \<open>skopiowana\<close>.\<close>

definition klonuje :: "nat \<Rightarrow> (vmm \<Rightarrow> u64 \<Rightarrow> u64 \<times> vmm) \<Rightarrow> bool" where
  "klonuje l f \<longleftrightarrow> (\<forall>v z c v'. pmm_sprawny (vm_pmm v) \<and> z \<noteq> 0 \<and> zasieg (vm_tabele v) l z \<inter> wolne_t v = {} \<and>
     f v z = (c, v') \<longrightarrow> skopiowana l z v c v')"

lemma wpis_kopii:
  assumes "tabela_fizyczna_bezposrednio_dostepna d" "bit w 0" "\<not> duzy_lisc (Suc (Suc l)) w"
  defines "e \<equiv> (d AND MASKA_ADRESU_4K) OR (w AND NOT MASKA_ADRESU_4K)"
  shows "dziecko (Suc (Suc l)) e = d" "bit e 0" "bit e 1 = bit w 1" "bit e 2 = bit w 2"
proof -
  have b: "bit e n \<longleftrightarrow> (if 12 \<le> n \<and> n < 52 then bit d n else bit w n)" for n
    using dostepna_bity [OF assms(1)] bit_u64_less [of w n]
    by (auto simp: e_def maski_pole bit_or_iff bit_and_iff bit_not_iff bit_pole)
  show "bit e 0" "bit e 1 = bit w 1" "bit e 2 = bit w 2" using assms(2) by (simp_all add: b)
  have "e AND pole 12 52 = d"
    using dostepna_bity [OF assms(1)] by (intro bit_word_eqI) (auto simp: bit_and_iff bit_pole b)
  then show "dziecko (Suc (Suc l)) e = d"
    using assms(1-3) b [of 7] b [of 0] by (auto simp add: dziecko_def tabela_z_wpisu_bity duzy_lisc_bit)
qed

lemma kopia_bez_zmian:
  assumes K: "kopia_do v0 l z c k v" and p: "pmm_sprawny (vm_pmm v1)" "uzywalne_t v1 = uzywalne_t v" "wolne_t v1 = wolne_t v"
    and obce: "\<forall>x. x \<notin> wolne_t v \<longrightarrow> vm_tabele v1 x = vm_tabele v x"
  shows "kopia_do v0 l z c k v1"
proof -
  note K' = K [unfolded kopia_do_def]
  have "zgodne (vm_tabele v) (vm_tabele v1) (zasieg (vm_tabele v) (Suc l) c)"
    using K' obce by (auto simp: zgodne_def)
  note zg = zgodne_zasieg [OF this]
  have "c \<in> zasieg (vm_tabele v) (Suc l) c" by (rule korzen_zasieg) simp
  then have "c \<notin> wolne_t v" using K' by blast
  then have "vm_tabele v1 c = vm_tabele v c" using obce by blast
  moreover have "vm_tabele v1 x = vm_tabele v0 x" if "x \<notin> wolne_t v0" for x using that K' obce by auto
  ultimately show ?thesis using K' zg p unfolding kopia_do_def by simp
qed

lemma klonuj_dziecko:
  assumes K: "kopia_do v0 l z c k v" and k: "k < 512" and f: "klonuje l f"
    and z: "zasieg (vm_tabele v0) (Suc l) z \<inter> wolne_t v0 = {}"
    and w: "w = vm_tabele v z k" "bit w 0" "l \<noteq> 0" "\<not> duzy_lisc (Suc l) w"
    and d: "d = w AND MASKA_ADRESU_4K" "tabela_fizyczna_bezposrednio_dostepna d" and fv: "f v d = (n, v1)"
  shows "if n = 0 then kopia_do v0 l z c k v1
    else kopia_do v0 l z c (Suc k) (pisz_wpis v1 c k ((n AND MASKA_ADRESU_4K) OR (w AND NOT MASKA_ADRESU_4K)))"
proof -
  note K' = K [unfolded kopia_do_def]
  have "z \<in> zasieg (vm_tabele v0) (Suc l) z" by (rule korzen_zasieg) simp
  then have T0: "vm_tabele v0 z k = w" using K' z w(1) by auto
  have pm: "pmm_sprawny (vm_pmm v)" and sub: "wolne_t v \<subseteq> wolne_t v0" using K' by auto
  have d0: "d \<noteq> 0" using d(2) by (simp add: tabela_fizyczna_bezposrednio_dostepna_def)
  have dw: "dziecko (Suc l) w = d" using w d by (simp add: dziecko_def tabela_z_wpisu_bity maski_pole)
  have zd: "zasieg (vm_tabele v0) l d \<subseteq> zasieg (vm_tabele v0) (Suc l) z"
    using zasieg_dziecka [OF k, of l "vm_tabele v0" z] d0 dw T0 by simp
  have "zgodne (vm_tabele v0) (vm_tabele v) (zasieg (vm_tabele v0) l d)"
    using zd z K' unfolding zgodne_def by (metis disjoint_iff subsetD)
  note zg = zgodne_zasieg [OF this]
  have "zasieg (vm_tabele v) l d \<inter> wolne_t v = {}" using zg zd z sub by auto
  then have "skopiowana l d v n v1" using f pm d0 fv unfolding klonuje_def by blast
  note S = this [unfolded skopiowana_def]
  show ?thesis
  proof (cases "n = 0")
    case True
    then show ?thesis using kopia_bez_zmian [OF K, of v1] S by simp
  next
    case False
    define e where "e = (n AND MASKA_ADRESU_4K) OR (w AND NOT MASKA_ADRESU_4K)"
    from w(3) obtain m where m: "l = Suc m" by (cases l) auto
    have nd: "tabela_fizyczna_bezposrednio_dostepna n" using S False by simp
    note we = wpis_kopii [OF nd w(2), of m, folded e_def m, OF w(4)]
    have "c \<in> zasieg (vm_tabele v) (Suc l) c" by (rule korzen_zasieg) simp
    then have c: "c \<notin> wolne_t v" using K' by blast
    define T' where "T' = (vm_tabele v1)(c := (vm_tabele v1 c)(k := e))"
    have "zgodne (vm_tabele v1) T' (zasieg (vm_tabele v1) l n)" using S False c by (auto simp: zgodne_def T'_def)
    then have n1: "spacer T' l n va u x = spacer (vm_tabele v1) l n va u x" for va u x using zgodne_zasieg by blast
    have sp: "spacer T' (Suc l) c va u x = spacer (vm_tabele v0) (Suc l) z va u x" if "indeks (Suc l) va = k" for va u x
    proof -
      have "spacer T' (Suc l) c va u x = spacer T' l n va (u \<and> bit e 2) (x \<and> bit e 1)"
        by (rule spacer_wpis) (use that we False w(3) in \<open>auto simp: T'_def\<close>)
      also have "\<dots> = spacer (vm_tabele v0) l d va (u \<and> bit w 2) (x \<and> bit w 1)"
        using n1 S False zg we by simp
      also have "\<dots> = spacer (vm_tabele v0) (Suc l) z va u x"
        by (rule spacer_wpis [symmetric]) (use that w dw d0 T0 in auto)
      finally show ?thesis .
    qed
    have "kopia_do v0 l z c (Suc k) (pisz_wpis v1 c k e)"
      by (rule kopia_wpis [OF K k _ _ _ we(1) _ sp [unfolded T'_def]]) (use S False in auto)
    then show ?thesis using False by (simp add: e_def)
  qed
qed

lemma klonuj_wpisy_spec:
  assumes f: "klonuje l f" and z: "zasieg (vm_tabele v0) (Suc l) z \<inter> wolne_t v0 = {}"
  shows "kopia_do v0 l z c k v \<Longrightarrow> k \<le> 512 \<Longrightarrow> klonuj_wpisy f (Suc l) z c [k ..< 512] v = (ok, v') \<Longrightarrow>
    \<exists>k'. kopia_do v0 l z c k' v' \<and> (ok \<longrightarrow> k' = 512)"
proof (induction "512 - k" arbitrary: k v)
  case 0
  then show ?case by auto
next
  case (Suc n)
  have k: "k < 512" and u: "[k ..< 512] = k # [Suc k ..< 512]" using Suc(2) by (auto simp: upt_rec)
  define w where "w = vm_tabele v z k"
  note K = Suc.prems(1) [unfolded kopia_do_def]
  have zW: "z \<notin> wolne_t v0" using z by (auto simp: zasieg_dzieci)
  have T0: "vm_tabele v0 z k = w" using K zW by (simp add: w_def)
  have pm: "pmm_sprawny (vm_pmm v)" and sub: "wolne_t v \<subseteq> wolne_t v0" using K by auto
  have ck: "vm_tabele v c k = 0" using K k by simp
  have dalej: ?case if "kopia_do v0 l z c (Suc k) v1" "klonuj_wpisy f (Suc l) z c [Suc k ..< 512] v1 = (ok, v')" for v1
    by (rule Suc.hyps(1) [OF _ that(1) _ that(2)]) (use k Suc(2) in auto)
  have Tz: "vm_tabele v0 z (indeks (Suc l) va) = w" if "indeks (Suc l) va = k" for va using T0 that by simp
  consider "\<not> bit w 0" | "bit w 0" "l = 0 \<or> duzy_lisc (Suc l) w" | "bit w 0" "l \<noteq> 0" "\<not> duzy_lisc (Suc l) w" by blast
  then show ?case
  proof cases
    case 1
    have "kopia_do v0 l z c (Suc k) (pisz_wpis v c k 0)"
      by (rule kopia_wpis [OF Suc.prems(1) k pm refl _ refl])
        (use 1 Tz in \<open>auto simp: spacer.simps(2) Let_def\<close>)
    then show ?thesis by (rule dalej) (use Suc.prems(3) 1 in \<open>simp add: u and_flagi w_def [symmetric]\<close>)
  next
    case 2
    have "dziecko (Suc l) w = 0" using 2 by (auto simp: dziecko_def)
    have "kopia_do v0 l z c (Suc k) (pisz_wpis v c k w)"
      by (rule kopia_wpis [OF Suc.prems(1) k pm refl _ \<open>dziecko (Suc l) w = 0\<close>])
        (use 2 Tz in \<open>auto simp: spacer.simps(2) Let_def\<close>)
    then show ?thesis by (rule dalej) (use Suc.prems(3) 2 in \<open>simp add: u and_flagi Let_def w_def [symmetric]\<close>)
  next
    case 3
    define d where "d = w AND MASKA_ADRESU_4K"
    show ?thesis
    proof (cases "tabela_fizyczna_bezposrednio_dostepna d")
      case False
      then have "v' = v \<and> \<not> ok" using Suc.prems(3) 3 by (auto simp: u and_flagi Let_def d_def w_def)
      then show ?thesis using Suc.prems(1) by blast
    next
      case dost: True
      obtain n v1 where fv: "f v d = (n, v1)" by fastforce
      define e where "e = (n AND MASKA_ADRESU_4K) OR (w AND NOT MASKA_ADRESU_4K)"
      have kl: "(ok, v') = (if n = 0 then (False, v1) else klonuj_wpisy f (Suc l) z c [Suc k ..< 512] (pisz_wpis v1 c k e))"
        using Suc.prems(3) 3 dost fv by (auto simp: u and_flagi Let_def d_def w_def e_def)
      note kd = klonuj_dziecko [OF Suc.prems(1) k f z w_def 3 d_def dost fv, folded e_def]
      show ?thesis
      proof (cases "n = 0")
        case True
        then show ?thesis using kd kl by auto
      next
        case False
        then have "kopia_do v0 l z c (Suc k) (pisz_wpis v1 c k e)" using kd by simp
        then show ?thesis by (rule dalej) (use kl False in simp)
      qed
    qed
  qed
qed


lemma alokuj_uzywalne:
  assumes "pmm_sprawny (vm_pmm v)" "alokuj_tabele_stron v = (c, v')"
  shows "uzywalne_t v' = uzywalne_t v"
proof -
  obtain r p where z: "ZaalokujRamke (vm_pmm v) = (r, p)" by fastforce
  note a = pmm_pula.alokuj_spec [OF assms(1) z]
  note b = pmm_pula.zwolnij_jedna_spec [of p r]
  show ?thesis
    using assms(2) z a b by (auto simp: alokuj_tabele_stron_def uzywalne_t_def Let_def WyzerujStrone_def split: if_splits)
qed

lemma sklonuj_spec: "l \<le> 4 \<Longrightarrow> klonuje l (sklonuj_hierarchie l)"
proof (induction l)
  case 0
  then show ?case by (simp add: klonuje_def skopiowana_def)
next
  case (Suc l)
  then have f: "klonuje l (sklonuj_hierarchie l)" by simp
  show ?case
    unfolding klonuje_def
  proof (intro allI impI, elim conjE)
    fix v z r v'
    assume p: "pmm_sprawny (vm_pmm v)" and z0: "z \<noteq> 0" and z: "zasieg (vm_tabele v) (Suc l) z \<inter> wolne_t v = {}"
      and w: "sklonuj_hierarchie (Suc l) v z = (r, v')"
    obtain c v1 where a: "alokuj_tabele_stron v = (c, v1)" by fastforce
    note al = alokuj_tabele_spec [OF p a] alokuj_uzywalne [OF p a]
    obtain ok v2 where kl: "klonuj_wpisy (sklonuj_hierarchie l) (Suc l) z c [0 ..< 512] v1 = (ok, v2)" by fastforce
    have w': "(r, v') = (if c = 0 then (0, v1) else if ok then (c, v2)
        else (0, zwolnij_sklonowane_tabele_bez_lisci (Suc l) v2 c))"
      using w z0 Suc.prems by (cases "c = 0"; cases ok)
        (simp_all add: a kl del: zwolnij_sklonowane_tabele_bez_lisci.simps)
    show "skopiowana (Suc l) z v r v'"
    proof (cases "c = 0")
      case True
      then show ?thesis using w' al by (simp add: skopiowana_def)
    next
      case c0: False
      have cT: "vm_tabele v1 c j = 0" if "j < 512" for j using al c0 that by simp
      have zc: "zasieg (vm_tabele v1) (Suc l) c = {c}" "drzewo (vm_tabele v1) (Suc l) c"
        using cT by (auto simp: zasieg.simps(2) drzewo.simps(2))
      have "kopia_do v l z c 0 v1"
        unfolding kopia_do_def zc(1) using al c0 zc(2) cT by auto
      from klonuj_wpisy_spec [OF f z this _ kl] obtain k where k: "kopia_do v l z c k v2" "ok \<longrightarrow> k = 512" by auto
      note K = k(1) [unfolded kopia_do_def]
      show ?thesis
      proof (cases ok)
        case True
        then show ?thesis using w' c0 K k(2) al by (simp add: skopiowana_def)
      next
        case False
        have "zwalnia (zasieg (vm_tabele v2) (Suc l) c) (zasieg (vm_tabele v2) (Suc l) c) v2 v'"
          using zwolnij_sklonowane_spec [of "Suc l" v2 c] Suc.prems K c0 w' False by simp
        then show ?thesis
          using w' c0 False K wolne_uzywalne_t [OF p] unfolding skopiowana_def zwalnia_def by auto
      qed
    qed
  qed
qed

text \<open>The user pages are the frames of the user leaves the walker can reach.\<close>

lemma strony_user_spacer:
  "0 < l \<Longrightarrow> l \<le> 4 \<Longrightarrow> x \<in> strony_user T l t \<Longrightarrow>
     \<exists>va e u w. spacer T l t va True True = Some (1, e, u, w) \<and> bit e 2 \<and> x = e AND MASKA_ADRESU_4K"
proof (induction l arbitrary: t)
  case (Suc l)
  have ix: "\<exists>va'. indeks (Suc l) va' = i \<and> (\<forall>k. 1 \<le> k \<and> k \<le> l \<longrightarrow> indeks k va' = indeks k va)"
    if "i < 512" for i :: nat and va :: u64
  proof (intro exI conjI allI impI)
    define b where "b = 12 + 9 * l"
    have b: "b + 9 \<le> 64" using Suc.prems(2) by (simp add: b_def)
    define va' where "va' = (va AND mask b) OR push_bit b (of_nat i)"
    have bi: "bit va' n \<longleftrightarrow> (if n < b then bit va n else n < 64 \<and> bit (of_nat i :: u64) (n - b))" for n
      using b bit_u64_less [of va n] by (auto simp: va'_def bit_or_iff bit_and_iff bit_mask_u64 bit_push_bit_iff)
    have i9: "bit (of_nat i :: u64) n \<Longrightarrow> n < 9" for n
    proof (rule ccontr)
      assume n: "bit (of_nat i :: u64) n" "\<not> n < 9"
      have "unat (of_nat i :: u64) < 2 ^ 9" using that by (simp add: unat_of_nat)
      then show False using n unat_less_bity [of "of_nat i" 9] by auto
    qed
    have i64: "bit (of_nat i :: u64) n \<Longrightarrow> b + n < 64" for n using i9 [of n] b by linarith
    have "drop_bit b va' AND mask 9 = of_nat i"
      using b i9 i64 by (intro bit_word_eqI) (auto simp: bit_and_iff bit_mask_u64 bit_drop_bit_eq bi)
    then show "indeks (Suc l) va' = i" using that by (simp add: indeks_def b_def unat_of_nat)
    fix k assume "1 \<le> k \<and> k \<le> l"
    then obtain j where "k = Suc j" "j < l" by (cases k) auto
    then have "12 + 9 * (k - 1) + n < b" if "n < 9" for n using that by (simp add: b_def)
    then show "indeks k va' = indeks k va" unfolding indeks_eq_iff by (simp add: bi)
  qed
  show ?case
  proof (cases "l = 0")
    case True
    with Suc.prems(3) obtain i where i: "i < 512" "bit (T t i) 0" "bit (T t i) 2" "x = T t i AND MASKA_ADRESU_4K"
      by (auto simp: strony_user.simps(2) strona_lisc_def split: if_splits)
    from ix [OF i(1)] obtain va where "indeks (Suc l) va = i" by blast
    then have "spacer T (Suc l) t va True True = Some (1, T t i, bit (T t i) 2, bit (T t i) 1)"
      using i True by (simp add: spacer.simps(2) Let_def)
    then show ?thesis using i by blast
  next
    case False
    with Suc.prems(3) obtain i where i: "i < 512" "dziecko (Suc l) (T t i) \<noteq> 0" "x \<in> strony_user T l (dziecko (Suc l) (T t i))"
      by (auto simp: strony_user.simps(2) dzieci_def split: if_splits)
    from Suc.IH [OF _ _ i(3)] False Suc.prems(2) obtain va e u w
      where e: "spacer T l (dziecko (Suc l) (T t i)) va True True = Some (1, e, u, w)" "bit e 2" "x = e AND MASKA_ADRESU_4K" by auto
    from ix [OF i(1)] obtain va' where va': "indeks (Suc l) va' = i" "\<And>k. 1 \<le> k \<Longrightarrow> k \<le> l \<Longrightarrow> indeks k va' = indeks k va" by blast
    have b: "bit (T t i) 0" using i(2) by (auto simp: dziecko_def split: if_splits)
    have "spacer T (Suc l) t va' True True = spacer T l (dziecko (Suc l) (T t i)) va' (bit (T t i) 2) (bit (T t i) 1)"
      using spacer_wpis [of T t l va' "T t i", OF _ b refl i(2)] va'(1) False by simp
    also have "\<dots> = spacer T l (dziecko (Suc l) (T t i)) va (bit (T t i) 2) (bit (T t i) 1)"
      by (rule spacer_indeksy) (rule va'(2))
    also obtain u' w' where "\<dots> = Some (1, e, u', w')"
      using spacer_prawa [of T l "dziecko (Suc l) (T t i)" va "bit (T t i) 2" "bit (T t i) 1"] e(1) by simp
    finally show ?thesis using e by blast
  qed
qed simp


lemma strony_user_less: "spacer T l t va u w = Some (Suc 0, e, u', w') \<Longrightarrow> bit e 2 \<Longrightarrow> e AND MASKA_ADRESU_4K \<in> strony_user T l t"
proof (induction l arbitrary: t u w)
  case (Suc l)
  define f where "f = T t (indeks (Suc l) va)"
  show ?case
  proof (cases "l = 0 \<or> duzy_lisc (Suc l) f")
    case True
    then have "l = 0" "e = f" "bit e 0"
      using Suc.prems(1) by (auto simp: spacer.simps(2) Let_def f_def split: if_splits)
    then show ?thesis
      using Suc.prems(2) by (auto simp: strony_user.simps(2) strona_lisc_def f_def intro: exI [of _ "indeks (Suc 0) va"])
  next
    case False
    then have d: "dziecko (Suc l) f \<noteq> 0" "spacer T l (dziecko (Suc l) f) va (u \<and> bit f 2) (w \<and> bit f 1) = Some (Suc 0, e, u', w')"
      using Suc.prems(1) by (auto simp: spacer.simps(2) Let_def f_def split: if_splits)
    have "e AND MASKA_ADRESU_4K \<in> strony_user T l (dziecko (Suc l) f)" by (rule Suc.IH [OF d(2) Suc.prems(2)])
    then show ?thesis
      using False d(1) by (auto simp: strony_user.simps(2) dzieci_def f_def intro!: bexI [of _ "indeks (Suc l) va"])
  qed
qed simp

lemma strony_user_spacery:
  assumes "\<And>va u w. spacer T' 4 t' va u w = spacer T 4 t va u w"
  shows "strony_user T' 4 t' = strony_user T 4 t"
proof
  show "strony_user T' 4 t' \<subseteq> strony_user T 4 t"
    using strony_user_spacer [of 4 _ T' t'] strony_user_less [of T 4 t] assms by fastforce
  show "strony_user T 4 t \<subseteq> strony_user T' 4 t'"
    using strony_user_spacer [of 4 _ T t] strony_user_less [of T' 4 t'] assms by fastforce
qed

subsection \<open>The theorems\<close>

lemma sprawdz_z_spacera:
  assumes "\<And>va u w. spacer (vm_tabele v') 4 p' va u w = spacer (vm_tabele v) 4 p va u w" "p \<noteq> 0" "p' \<noteq> 0"
  shows "sprawdz_mapowanie v' p' a = sprawdz_mapowanie v p a"
  using assms by (simp add: sprawdz_spacer)

lemma sprawdz_zgodne:
  assumes "zgodne (vm_tabele v) (vm_tabele v') (zasieg (vm_tabele v) 4 p)"
  shows "sprawdz_mapowanie v' p a = sprawdz_mapowanie v p a"
  using zgodne_zasieg [OF assms] by (simp add: sprawdz_spacer)

text \<open>
  C15. A new address space. From the kernel's tree \<open>UtworzPrzestrzenAdresowaProcesu\<close> either fails
  and leaves the pool exactly as it was (every table of a partial copy is given back), or returns a
  root whose own tree of fresh frames translates every address as the kernel's does; in both cases
  the kernel's translations are unchanged.
\<close>

theorem nowa_przestrzen:
  assumes "vm_gotowy v" "vm_bazowe v \<noteq> 0" "vmm_drzewo 4 (vm_bazowe v) v"
    and w: "UtworzPrzestrzenAdresowaProcesu v = (k, v')"
  shows "(\<forall>a. sprawdz_mapowanie v' (vm_bazowe v) a = sprawdz_mapowanie v (vm_bazowe v) a) \<and>
    (if k = 0 then wolne_t v' = wolne_t v
     else vmm_drzewo 4 k v' \<and> vmm_drzewo 4 (vm_bazowe v) v' \<and>
       zasieg (vm_tabele v') 4 k \<subseteq> wolne_t v \<and> wolne_t v' = wolne_t v - zasieg (vm_tabele v') 4 k \<and>
       zasieg (vm_tabele v') 4 k \<inter> zasieg (vm_tabele v') 4 (vm_bazowe v) = {} \<and>
       (\<forall>a. sprawdz_mapowanie v' k a = sprawdz_mapowanie v (vm_bazowe v) a))"
proof -
  have "skopiowana 4 (vm_bazowe v) v k v'"
    using sklonuj_spec [of 4] assms by (auto simp: klonuje_def vmm_drzewo_def UtworzPrzestrzenAdresowaProcesu_def)
  note S = this [unfolded skopiowana_def]
  have zg: "zgodne (vm_tabele v) (vm_tabele v') (zasieg (vm_tabele v) 4 (vm_bazowe v))"
    using S assms(3) by (auto simp: zgodne_def vmm_drzewo_def)
  note zz = zgodne_zasieg [OF zg]
  have "sprawdz_mapowanie v' k a = sprawdz_mapowanie v (vm_bazowe v) a" if "k \<noteq> 0" for a
    by (rule sprawdz_z_spacera) (use S that assms(2) in auto)
  moreover have "vmm_drzewo 4 (vm_bazowe v) v'" if "k \<noteq> 0"
    using S that zz assms(3) by (auto simp: vmm_drzewo_def)
  moreover have "vmm_drzewo 4 k v'" if "k \<noteq> 0" using S that by (auto simp: vmm_drzewo_def)
  moreover have "zasieg (vm_tabele v') 4 k \<inter> zasieg (vm_tabele v') 4 (vm_bazowe v) = {}" if "k \<noteq> 0"
    using S that zz assms(3) unfolding vmm_drzewo_def by auto
  ultimately show ?thesis using S sprawdz_zgodne [OF zg] by simp
qed

text \<open>The witness state: besides the kernel's tree at 2 MiB an empty root at 3 MiB; with the kernel's
  root taken to be the empty one, a copy of it needs one frame.\<close>

definition vmm_pusty :: vmm where
  "vmm_pusty = vmm_przyklad\<lparr>vm_bazowe := 0x300000, vm_cr3 := 0x300000\<rparr>"

lemma pusty_korzen:
  "zasieg (vm_tabele vmm_przyklad) 4 0x300000 = {0x300000}" "vmm_drzewo 4 0x300000 vmm_przyklad"
proof -
  have T: "vm_tabele vmm_przyklad 0x300000 = (\<lambda>_. 0)" by (simp add: vmm_przyklad_def)
  note p = puste_wpisy [of "vm_tabele vmm_przyklad", OF T, of 3]
  have n: "Suc 3 = 4" by simp
  show z: "zasieg (vm_tabele vmm_przyklad) 4 0x300000 = {0x300000}" using p unfolding n by simp
  have "wolne_t vmm_przyklad = {t. unat t \<in> adresy {256 ..< 260}}"
    by (simp add: wolne_t_def vmm_przyklad_def pmm_przyklad_sprawny)
  then show "vmm_drzewo 4 0x300000 vmm_przyklad"
    using p unfolding n by (auto simp: vmm_drzewo_def z pmm_sprawny_def vmm_przyklad_def pmm_przyklad_sprawny adresy_def)
qed

lemma pusty_sprawny:
  "vm_gotowy vmm_pusty" "vm_bazowe vmm_pusty = 0x300000" "vmm_drzewo 4 0x300000 vmm_pusty" "pml4_z_cr3 vmm_pusty = 0x300000"
  "strony_user (vm_tabele vmm_pusty) 4 0x300000 = {}"
proof -
  have e: "vmm_drzewo 4 0x300000 vmm_pusty = vmm_drzewo 4 0x300000 vmm_przyklad"
    by (simp add: vmm_drzewo_def wolne_t_def vmm_pusty_def)
  then show "vmm_drzewo 4 0x300000 vmm_pusty" using pusty_korzen(2) by simp
  show "vm_gotowy vmm_pusty" "vm_bazowe vmm_pusty = 0x300000" by (simp_all add: vmm_pusty_def vmm_przyklad_def)
  show "pml4_z_cr3 vmm_pusty = 0x300000" by (simp add: vmm_pusty_def pml4_z_cr3_def MASKA_ADRESU_4K_def)
  have "vm_tabele vmm_pusty 0x300000 = (\<lambda>_. 0)" by (simp add: vmm_pusty_def vmm_przyklad_def)
  then show "strony_user (vm_tabele vmm_pusty) 4 0x300000 = {}"
    by (simp add: numeral_eq_Suc strony_user.simps(2) dzieci_def)
qed

lemma alokuj_przyklad: "fst (alokuj_tabele_stron vmm_pusty) \<noteq> 0"
proof -
  have W: "wolne pmm_przyklad \<inter> {..< limit_alokacji pmm_przyklad} = {256 ..< 260}"
    by (auto simp: pmm_przyklad_sprawny pmm_przyklad_limit)
  obtain n where n: "n \<in> {256 ..< 260}" "fst (ZaalokujRamke pmm_przyklad) = n * 4096"
    using zaalokuj_przypadki [OF pmm_przyklad_sprawny(1,2)] unfolding W by (auto simp: pierwsza_cyklicznie_def)
  then have "n = 256 \<or> n = 257 \<or> n = 258 \<or> n = 259" by auto
  then show ?thesis using n(2)
    by (elim disjE) (simp_all add: alokuj_tabele_stron_def case_prod_beta vmm_pusty_def vmm_przyklad_def Let_def
        tabela_fizyczna_bezposrednio_dostepna_def)
qed

lemma klonuj_puste:
  "\<forall>i \<in> set is. vm_tabele v z i = 0 \<Longrightarrow> z \<noteq> c \<Longrightarrow> fst (klonuj_wpisy f p z c is v)"
  by (induction "is" arbitrary: v) simp_all

lemma sklonuj_udane:
  "alokuj_tabele_stron v = (c, v1) \<Longrightarrow> c \<noteq> 0 \<Longrightarrow> z \<noteq> 0 \<Longrightarrow> l < 4 \<Longrightarrow>
     fst (klonuj_wpisy (sklonuj_hierarchie l) (Suc l) z c [0 ..< 512] v1) \<Longrightarrow> fst (sklonuj_hierarchie (Suc l) v z) = c"
  by (simp add: case_prod_beta del: zwolnij_sklonowane_tabele_bez_lisci.simps)

lemma klon_przyklad: "fst (UtworzPrzestrzenAdresowaProcesu vmm_pusty) \<noteq> 0"
proof -
  obtain c v1 where a: "alokuj_tabele_stron vmm_pusty = (c, v1)" by fastforce
  have c: "c \<noteq> 0" using alokuj_przyklad a by simp
  have d: "pmm_sprawny (vm_pmm vmm_pusty)" "0x300000 \<notin> wolne_t vmm_pusty"
    using pusty_sprawny(3) korzen_zasieg [of 4 "0x300000" "vm_tabele vmm_pusty"] by (auto simp: vmm_drzewo_def)
  note al = alokuj_tabele_spec [OF d(1) a]
  have cz: "0x300000 \<noteq> c" using al c d(2) by auto
  have "vm_tabele v1 0x300000 i = 0" for i using al c cz by (simp add: vmm_pusty_def vmm_przyklad_def)
  then have "fst (klonuj_wpisy (sklonuj_hierarchie 3) (Suc 3) 0x300000 c [0 ..< 512] v1)"
    using klonuj_puste cz by simp
  then have "fst (sklonuj_hierarchie (Suc 3) vmm_pusty 0x300000) = c"
    by (intro sklonuj_udane [OF a c]) simp_all
  moreover have "Suc 3 = 4" by simp
  ultimately show ?thesis using c pusty_sprawny by (simp only: UtworzPrzestrzenAdresowaProcesu_def) simp
qed

theorem nowa_przestrzen_witness:
  "let (k, v') = UtworzPrzestrzenAdresowaProcesu vmm_pusty in
     k \<noteq> 0 \<and> sprawdz_mapowanie v' k 0x400000 = sprawdz_mapowanie vmm_pusty 0x300000 0x400000"
  using nowa_przestrzen [of vmm_pusty, OF _ _ _ prod.collapse [symmetric]] klon_przyklad pusty_sprawny
  by (simp add: case_prod_beta)

text \<open>
  C16. Isolation. Mapping a page in one address space changes no translation of another whose tables
  are disjoint, and the two stay disjoint trees, whatever the mapping does (a failure included).
\<close>

theorem izolacja_przestrzeni:
  assumes "vmm_drzewo 4 p v" "vmm_drzewo 4 q v" "p \<noteq> 0"
    and roz: "zasieg (vm_tabele v) 4 p \<inter> zasieg (vm_tabele v) 4 q = {}"
    and m: "mapuj_strone_wewnetrznie v p wirt fiz flagi = (ok, v')"
  shows "(\<forall>a. sprawdz_mapowanie v' q a = sprawdz_mapowanie v q a) \<and> vmm_drzewo 4 p v' \<and> vmm_drzewo 4 q v' \<and>
    zasieg (vm_tabele v') 4 p \<inter> zasieg (vm_tabele v') 4 q = {}"
proof -
  have be: "bit (wpis_liscia fiz flagi) 2 = bit (ucast flagi :: u64) 2" by (simp add: bit_wpis_liscia)
  obtain ok1 v1 where z: "zejdz 3 v p wirt (bit (wpis_liscia fiz flagi) 2) (wpis_liscia fiz flagi) = (ok1, v1)" by fastforce
  have v1: "v' = v \<or> v' = v1 \<or> v' = uniewaznij_tlb v1 wirt"
    using m [symmetric] z unfolding be mapuj_zejdz Let_def and_flagi by (simp split: if_splits)
  have n: "Suc 3 = 4" by simp
  note sp = zejdz_spec [of 3 p v, unfolded n, OF assms(1,3) _ _ z]
  have b: "bit (wpis_liscia fiz flagi) 0" by (simp add: bit_wpis_liscia)
  have pola: "vm_tabele v' = vm_tabele v \<and> wolne_t v' = wolne_t v \<and> vm_pmm v' = vm_pmm v \<or>
      vm_tabele v' = vm_tabele v1 \<and> wolne_t v' = wolne_t v1 \<and> vm_pmm v' = vm_pmm v1"
    using v1 by (auto simp: uniewaznij_tlb_def wolne_t_def)
  have inne: "vm_tabele v' x = vm_tabele v x" if "x \<in> zasieg (vm_tabele v) 4 q" for x
    using pola sp b that roz assms(2) unfolding vmm_drzewo_def by auto
  then have zg: "zgodne (vm_tabele v) (vm_tabele v') (zasieg (vm_tabele v) 4 q)" by (simp add: zgodne_def)
  note zz = zgodne_zasieg [OF zg]
  have "zasieg (vm_tabele v') 4 p \<subseteq> zasieg (vm_tabele v) 4 p \<union> wolne_t v" "wolne_t v' \<subseteq> wolne_t v"
    "vmm_drzewo 4 p v'"
    using pola sp b assms(1) by (auto simp: vmm_drzewo_def)
  then show ?thesis
    using zz roz assms(2) sprawdz_zgodne [OF zg] unfolding vmm_drzewo_def by blast
qed


theorem izolacja_przestrzeni_witness:
  "sprawdz_mapowanie (snd (mapuj_strone_wewnetrznie vmm_przyklad 0x200000 0x400000 0x300000 7)) 0x300000 0x400000
     = sprawdz_mapowanie vmm_przyklad 0x300000 0x400000"
proof -
  have "zasieg (vm_tabele vmm_przyklad) 4 0x200000 \<inter> zasieg (vm_tabele vmm_przyklad) 4 0x300000 = {}"
    by (simp add: pusty_korzen(1) przyklad_zasieg)
  from izolacja_przestrzeni [OF vmm_przyklad_drzewo pusty_korzen(2) _ this prod.collapse [symmetric]]
  show ?thesis by simp
qed

lemma sklonuj_pola:
  "vm_cr3 (snd (sklonuj_hierarchie l v z)) = vm_cr3 v \<and> vm_bazowe (snd (sklonuj_hierarchie l v z)) = vm_bazowe v \<and>
     vm_gotowy (snd (sklonuj_hierarchie l v z)) = vm_gotowy v"
proof (induction l arbitrary: v z)
  case (Suc l)
  let ?pola = "\<lambda>v v'. vm_cr3 v' = vm_cr3 v \<and> vm_bazowe v' = vm_bazowe v \<and> vm_gotowy v' = vm_gotowy (v :: vmm)"
  have kl: "?pola v (snd (klonuj_wpisy (sklonuj_hierarchie l) p z c is v))" for p z c v and "is" :: "nat list"
  proof (induction "is" arbitrary: v)
    case (Cons i "is")
    define w where "w = vm_tabele v z i AND MASKA_ADRESU_4K"
    obtain n v1 where n: "sklonuj_hierarchie l v w = (n, v1)" by fastforce
    have n1: "?pola v v1" using Suc.IH [of v w] n by simp
    have e: "?pola v (snd (klonuj_wpisy (sklonuj_hierarchie l) p z c is (pisz_wpis v c i e)))" for e
      using Cons.IH [of "pisz_wpis v c i e"] by simp
    have e1: "?pola v (snd (klonuj_wpisy (sklonuj_hierarchie l) p z c is (pisz_wpis v1 c i e)))" for e
      using Cons.IH [of "pisz_wpis v1 c i e"] n1 by simp
    show ?case using e e1 n1 n by (simp add: Let_def w_def)
  qed simp
  have zw: "?pola v (zwolnij_sklonowane_tabele_bez_lisci k v c)" for k v c
  proof (induction k arbitrary: v c)
    case (Suc k)
    have "?pola v (dla_dzieci (zwolnij_sklonowane_tabele_bez_lisci k) p t is v)" for p t v and "is" :: "nat list"
      by (induction "is" arbitrary: v) (simp_all add: Let_def Suc.IH)
    then show ?case by (simp add: zwolnij_ramke_tabeli_def)
  qed simp
  have "?pola v (snd (alokuj_tabele_stron v))"
    by (simp add: alokuj_tabele_stron_def case_prod_beta Let_def WyzerujStrone_def)
  then show ?case using kl zw
    by (simp add: case_prod_beta del: zwolnij_sklonowane_tabele_bez_lisci.simps)
qed simp

text \<open>
  C17. Destroying an address space gives back exactly its tables and the frames of its user pages
  (those the PMM manages), and changes no translation of an address space with other tables. The
  kernel's own space and the active one are left alone.
\<close>

theorem zniszczenie_przestrzeni:
  assumes "vm_gotowy v" "vm_bazowe v \<noteq> 0" "vmm_drzewo 4 p v" "tabela_fizyczna_bezposrednio_dostepna p"
  shows "(if p = vm_bazowe v \<or> p = pml4_z_cr3 v then ZniszczPrzestrzenAdresowaProcesu v p = v
     else wolne_t (ZniszczPrzestrzenAdresowaProcesu v p) =
         wolne_t v \<union> ((zasieg (vm_tabele v) 4 p \<union> strony_user (vm_tabele v) 4 p) \<inter> uzywalne_t v) \<and>
       (\<forall>q. zasieg (vm_tabele v) 4 q \<inter> zasieg (vm_tabele v) 4 p = {} \<longrightarrow>
          (\<forall>a. sprawdz_mapowanie (ZniszczPrzestrzenAdresowaProcesu v p) q a = sprawdz_mapowanie v q a)))"
proof (cases "p = vm_bazowe v \<or> p = pml4_z_cr3 v")
  case False
  have p0: "p \<noteq> 0" using assms(4) by (simp add: tabela_fizyczna_bezposrednio_dostepna_def)
  have e: "ZniszczPrzestrzenAdresowaProcesu v p = zniszcz_hierarchie_procesu 4 v p"
    using False p0 assms unfolding ZniszczPrzestrzenAdresowaProcesu_def by simp
  have z: "zwalnia (zasieg (vm_tabele v) 4 p) (zasieg (vm_tabele v) 4 p \<union> strony_user (vm_tabele v) 4 p) v
      (ZniszczPrzestrzenAdresowaProcesu v p)"
    unfolding e by (rule zniszcz_spec) (use assms p0 in \<open>auto simp: vmm_drzewo_def\<close>)
  have "sprawdz_mapowanie (ZniszczPrzestrzenAdresowaProcesu v p) q a = sprawdz_mapowanie v q a"
    if "zasieg (vm_tabele v) 4 q \<inter> zasieg (vm_tabele v) 4 p = {}" for q a
    by (rule sprawdz_zgodne) (use z that in \<open>auto simp: zwalnia_def zgodne_def\<close>)
  then show ?thesis using False z by (simp add: zwalnia_def)
qed (auto simp: ZniszczPrzestrzenAdresowaProcesu_def)

theorem zniszczenie_przestrzeni_witness:
  "0x300000 \<notin> wolne_t (ZniszczPrzestrzenAdresowaProcesu vmm_pusty 0x300000) \<and>
   wolne_t (ZniszczPrzestrzenAdresowaProcesu vmm_przyklad 0x300000) = wolne_t vmm_przyklad"
proof -
  have b: "vm_gotowy vmm_przyklad" "vm_bazowe vmm_przyklad = 0x200000" "pml4_z_cr3 vmm_przyklad = 0x200000"
    by (simp_all add: vmm_przyklad_def pml4_z_cr3_def MASKA_ADRESU_4K_def)
  have d: "tabela_fizyczna_bezposrednio_dostepna 0x300000" by (simp add: tabela_fizyczna_bezposrednio_dostepna_def)
  have "0x300000 \<notin> wolne_t vmm_pusty"
    using pusty_sprawny(3) korzen_zasieg [of 4 "0x300000" "vm_tabele vmm_pusty"] by (auto simp: vmm_drzewo_def)
  moreover have "ZniszczPrzestrzenAdresowaProcesu vmm_pusty 0x300000 = vmm_pusty"
    using zniszczenie_przestrzeni [of vmm_pusty "0x300000", OF _ _ _ d] pusty_sprawny by simp
  moreover have "uzywalne_t vmm_przyklad \<inter> {0x300000} = {}"
    by (auto simp: uzywalne_t_def vmm_przyklad_def pmm_przyklad_sprawny adresy_def)
  moreover have "strony_user (vm_tabele vmm_przyklad) 4 0x300000 = {}"
    using pusty_sprawny(5) by (simp add: vmm_pusty_def)
  ultimately show ?thesis
    using zniszczenie_przestrzeni [of vmm_przyklad "0x300000", OF b(1) _ pusty_korzen(2) d] b
    by (simp add: pusty_korzen(1) Int_commute)
qed

text \<open>
  C18. A copy of the kernel's space that is destroyed again leaves the pool as it was before it was
  made, when the kernel has no user pages, and the kernel's translations are as before.
\<close>

theorem przestrzen_powrot:
  assumes "vm_gotowy v" "vm_bazowe v \<noteq> 0" "vmm_drzewo 4 (vm_bazowe v) v" "pml4_z_cr3 v \<notin> wolne_t v"
    and "strony_user (vm_tabele v) 4 (vm_bazowe v) = {}"
    and w: "UtworzPrzestrzenAdresowaProcesu v = (k, v1)" "k \<noteq> 0"
  shows "wolne_t (ZniszczPrzestrzenAdresowaProcesu v1 k) = wolne_t v \<and>
    (\<forall>a. sprawdz_mapowanie (ZniszczPrzestrzenAdresowaProcesu v1 k) (vm_bazowe v) a = sprawdz_mapowanie v (vm_bazowe v) a)"
proof -
  have kl: "sklonuj_hierarchie 4 v (vm_bazowe v) = (k, v1)"
    using w assms(1,2) by (simp add: UtworzPrzestrzenAdresowaProcesu_def split: if_splits)
  have "skopiowana 4 (vm_bazowe v) v k v1"
    using sklonuj_spec [of 4] assms(2,3) kl by (auto simp: klonuje_def vmm_drzewo_def)
  note S = this [unfolded skopiowana_def if_not_P [OF w(2)]]
  have pola: "vm_cr3 v1 = vm_cr3 v" "vm_bazowe v1 = vm_bazowe v" "vm_gotowy v1"
    using sklonuj_pola [of 4 v "vm_bazowe v"] kl assms(1) by auto
  have kW: "k \<in> wolne_t v" using S korzen_zasieg [of 4 k "vm_tabele v1"] by auto
  have "vm_bazowe v \<in> zasieg (vm_tabele v) 4 (vm_bazowe v)" by (simp add: korzen_zasieg)
  then have kb: "k \<noteq> vm_bazowe v1" using kW assms(3) pola by (auto simp: vmm_drzewo_def)
  have kc: "k \<noteq> pml4_z_cr3 v1" using kW assms(4) pola by (auto simp: pml4_z_cr3_def)
  have zg: "zgodne (vm_tabele v) (vm_tabele v1) (zasieg (vm_tabele v) 4 (vm_bazowe v))"
    using S assms(3) by (auto simp: zgodne_def vmm_drzewo_def)
  have d: "vmm_drzewo 4 k v1" using S by (auto simp: vmm_drzewo_def)
  have su: "strony_user (vm_tabele v1) 4 k = {}"
    using strony_user_spacery [of "vm_tabele v1" k "vm_tabele v" "vm_bazowe v"] S assms(5) by simp
  note Z = zniszczenie_przestrzeni [of v1 k, unfolded pola(2), OF pola(3) assms(2) d]
  have roz: "zasieg (vm_tabele v1) 4 (vm_bazowe v) \<inter> zasieg (vm_tabele v1) 4 k = {}"
    using zgodne_zasieg [OF zg] S assms(3) unfolding vmm_drzewo_def by auto
  have "wolne_t v1 \<union> (zasieg (vm_tabele v1) 4 k \<inter> uzywalne_t v1) = wolne_t v"
    using S wolne_uzywalne_t [of v] assms(3) by (auto simp: vmm_drzewo_def)
  then show ?thesis
    using Z S kb kc pola su roz sprawdz_zgodne [OF zg] by simp
qed

theorem przestrzen_powrot_witness:
  "wolne_t (ZniszczPrzestrzenAdresowaProcesu (snd (UtworzPrzestrzenAdresowaProcesu vmm_pusty))
     (fst (UtworzPrzestrzenAdresowaProcesu vmm_pusty))) = wolne_t vmm_pusty"
proof -
  have "0x300000 \<notin> wolne_t vmm_pusty"
    using pusty_sprawny(3) korzen_zasieg [of 4 "0x300000" "vm_tabele vmm_pusty"] by (auto simp: vmm_drzewo_def)
  then show ?thesis
    using przestrzen_powrot [of vmm_pusty, OF _ _ _ _ _ prod.collapse [symmetric]] klon_przyklad pusty_sprawny by simp
qed

end
