(* ===== verification/Bezpieczenstwo.thy ===== *)
theory Bezpieczenstwo
  imports Interfejsy
begin

section \<open>Copying between the kernel and a process\<close>

text \<open>
  \<open>bezpieczenstwo.cpp\<close>. Kernel and process share one virtual address space, so one memory holds the
  bytes of both. The weak symbol \<open>bws_vmm_sprawdz_zakres_uzytkownika\<close> is an option: \<open>None\<close> when the
  VMM does not define it. The client lemmas are proved once against the interface \<open>straz\<close> of an
  exact range check.
\<close>

type_synonym pamiec = "u64 \<Rightarrow> u8"
type_synonym sprawdzenie = "u64 \<Rightarrow> u64 \<Rightarrow> bool \<Rightarrow> bool"

definition BWS_USER_SPACE_END :: u64 where "BWS_USER_SPACE_END = 0x0000800000000000"
definition BWS_USER_SPACE_MIN :: u64 where "BWS_USER_SPACE_MIN = 0x1000"
definition BWS_ROZMIAR_STRONY :: u64 where "BWS_ROZMIAR_STRONY = 4096"
definition BWS_USER_SPACE_LIMIT :: u64 where "BWS_USER_SPACE_LIMIT = BWS_USER_SPACE_END - 1"

definition zakres_numerycznie_poprawny :: "u64 \<Rightarrow> u64 \<Rightarrow> bool" where
  "zakres_numerycznie_poprawny ptr rozmiar =
     (if rozmiar = 0 then ptr < BWS_USER_SPACE_END
      else if ptr = 0 then False
      else if ptr < BWS_USER_SPACE_MIN then False
      else if ptr \<ge> BWS_USER_SPACE_END then False
      else let pozostalo = BWS_USER_SPACE_END - ptr in
      if rozmiar > pozostalo then False else True)"

definition zakres_dostepny :: "sprawdzenie option \<Rightarrow> u64 \<Rightarrow> u64 \<Rightarrow> bool \<Rightarrow> bool" where
  "zakres_dostepny hook ptr rozmiar zapis =
     (if \<not> zakres_numerycznie_poprawny ptr rozmiar then False
      else if rozmiar = 0 then True
      else (case hook of None \<Rightarrow> True | Some h \<Rightarrow> if \<not> h ptr rozmiar zapis then False else True))"

definition bajtow_do_konca_strony :: "u64 \<Rightarrow> u64" where
  "bajtow_do_konca_strony adres = BWS_ROZMIAR_STRONY - (adres AND (BWS_ROZMIAR_STRONY - 1))"

definition czy_bezpieczny_wskaznik_uzytkownika :: "sprawdzenie option \<Rightarrow> u64 \<Rightarrow> u64 \<Rightarrow> bool" where
  "czy_bezpieczny_wskaznik_uzytkownika hook ptr rozmiar = zakres_dostepny hook ptr rozmiar False"

definition czy_bezpieczny_zakres_uzytkownika_do_odczytu :: "sprawdzenie option \<Rightarrow> u64 \<Rightarrow> u64 \<Rightarrow> bool" where
  "czy_bezpieczny_zakres_uzytkownika_do_odczytu hook ptr rozmiar = zakres_dostepny hook ptr rozmiar False"

definition czy_bezpieczny_zakres_uzytkownika_do_zapisu :: "sprawdzenie option \<Rightarrow> u64 \<Rightarrow> u64 \<Rightarrow> bool" where
  "czy_bezpieczny_zakres_uzytkownika_do_zapisu hook ptr rozmiar = zakres_dostepny hook ptr rozmiar True"

subsection \<open>Copy loops\<close>

text \<open>The inner loop over the bytes of a fragment.\<close>

definition kopiuj_fragment :: "u64 \<Rightarrow> u64 \<Rightarrow> nat \<Rightarrow> pamiec \<Rightarrow> pamiec" where
  "kopiuj_fragment dst src fragment pam =
     foldl (\<lambda>p i. p(dst + of_nat i := p (src + of_nat i))) pam [0 ..< fragment]"

lemma bajtow_dodatnie: "0 < unat (bajtow_do_konca_strony a)"
proof -
  have m: "BWS_ROZMIAR_STRONY - 1 = mask 12" by (simp add: BWS_ROZMIAR_STRONY_def mask_eq_exp_minus_1)
  have "unat (a AND mask 12) < 4096" by (simp add: unat_and_mask)
  then have "a AND mask 12 < 4096" by (simp add: word_less_nat_alt)
  then have "4096 - (a AND mask 12) \<noteq> 0" by simp
  then show ?thesis unfolding bajtow_do_konca_strony_def m by (simp add: BWS_ROZMIAR_STRONY_def unat_gt_0)
qed

text \<open>The outer loop: both copy routines check the side of the process, \<open>uzytkownik\<close> being the address
  of the first byte there, page fragment by page fragment.\<close>

function petla_kopiowania ::
  "sprawdzenie option \<Rightarrow> bool \<Rightarrow> u64 \<Rightarrow> u64 \<Rightarrow> u64 \<Rightarrow> u64 \<Rightarrow> u64 \<Rightarrow> pamiec \<Rightarrow> bool \<times> pamiec" where
  "petla_kopiowania hook zapis uzytkownik dst src offset pozostalo pam =
     (if pozostalo = 0 then (True, pam)
      else let fragment0 = bajtow_do_konca_strony (uzytkownik + offset);
               fragment = (if fragment0 > pozostalo then pozostalo else fragment0) in
      if \<not> zakres_dostepny hook (uzytkownik + offset) fragment zapis then (False, pam)
      else petla_kopiowania hook zapis uzytkownik dst src (offset + fragment) (pozostalo - fragment)
             (kopiuj_fragment (dst + offset) (src + offset) (unat fragment) pam))"
  by pat_completeness auto
termination
proof (relation "measure (\<lambda>(_, _, _, _, _, _, pozostalo, _). unat pozostalo)", goal_cases)
  case 1
  then show ?case by simp
next
  case (2 hook zapis uz dst src offset pozostalo pam f0 f)
  then have "f \<le> pozostalo" "0 < unat f" using bajtow_dodatnie [of "uz + offset"] by (auto simp: unat_gt_0)
  then show ?case by (simp add: unat_sub_u64 word_le_nat_alt)
qed

declare petla_kopiowania.simps [simp del]

definition skopiuj_z_przestrzeni_uzytkownika ::
  "sprawdzenie option \<Rightarrow> pamiec \<Rightarrow> u64 \<Rightarrow> u64 \<Rightarrow> u64 \<Rightarrow> bool \<times> pamiec" where
  "skopiuj_z_przestrzeni_uzytkownika hook pam bufor ptr rozmiar =
     (if rozmiar = 0 then (True, pam)
      else if bufor = 0 \<or> ptr = 0 then (False, pam)
      else if \<not> czy_bezpieczny_zakres_uzytkownika_do_odczytu hook ptr rozmiar then (False, pam)
      else petla_kopiowania hook False ptr bufor ptr 0 rozmiar pam)"

definition skopiuj_do_przestrzeni_uzytkownika ::
  "sprawdzenie option \<Rightarrow> pamiec \<Rightarrow> u64 \<Rightarrow> u64 \<Rightarrow> u64 \<Rightarrow> bool \<times> pamiec" where
  "skopiuj_do_przestrzeni_uzytkownika hook pam ptr bufor rozmiar =
     (if rozmiar = 0 then (True, pam)
      else if ptr = 0 \<or> bufor = 0 then (False, pam)
      else if \<not> czy_bezpieczny_zakres_uzytkownika_do_zapisu hook ptr rozmiar then (False, pam)
      else petla_kopiowania hook True ptr ptr bufor 0 rozmiar pam)"

subsection \<open>Strings\<close>

function petla_napisu ::
  "sprawdzenie option \<Rightarrow> u64 \<Rightarrow> u64 \<Rightarrow> u64 \<Rightarrow> u64 \<Rightarrow> pamiec \<Rightarrow> bool \<times> pamiec" where
  "petla_napisu hook bufor ptr max_rozmiar i pam =
     (if \<not> i < max_rozmiar - 1 then (False, pam(bufor + (max_rozmiar - 1) := 0))
      else if \<not> zakres_dostepny hook (ptr + i) 1 False then (False, pam(bufor + i := 0))
      else let znak = pam (ptr + i); pam1 = pam(bufor + i := znak) in
      if znak = 0 then (True, pam1)
      else petla_napisu hook bufor ptr max_rozmiar (i + 1) pam1)"
  by pat_completeness auto
termination
proof (relation "measure (\<lambda>(_, _, _, m, i, _). unat (m - 1) - unat i)", goal_cases)
  case (2 hook bufor ptr m i pam znak pam1)
  then have im: "unat i < unat (m - 1)" by (simp add: word_less_nat_alt)
  then have "unat (i + 1) = unat i + 1"
    using unat_u64_less [of "m - 1"] by (subst unat_add_u64) (simp_all del: unat_u64_less)
  then show ?case using im by simp
qed simp

declare petla_napisu.simps [simp del]

definition skopiuj_string_z_uzytkownika ::
  "sprawdzenie option \<Rightarrow> pamiec \<Rightarrow> u64 \<Rightarrow> u64 \<Rightarrow> u64 \<Rightarrow> bool \<times> pamiec" where
  "skopiuj_string_z_uzytkownika hook pam bufor ptr max_rozmiar =
     (if bufor = 0 \<or> max_rozmiar = 0 then (False, pam)
      else let pam1 = pam(bufor := 0) in
      if ptr = 0 then (False, pam1)
      else petla_napisu hook bufor ptr max_rozmiar 0 pam1)"

text \<open>The bounded search for the terminator, then one copy that includes it.\<close>

function dlugosc_tekstu :: "pamiec \<Rightarrow> u64 \<Rightarrow> u64 \<Rightarrow> u64 \<Rightarrow> u64 option" where
  "dlugosc_tekstu pam tekst max_rozmiar dlugosc =
     (if \<not> dlugosc < max_rozmiar then None
      else if pam (tekst + dlugosc) = 0 then Some dlugosc
      else dlugosc_tekstu pam tekst max_rozmiar (dlugosc + 1))"
  by pat_completeness auto
termination
proof (relation "measure (\<lambda>(_, _, m, d). unat m - unat d)", goal_cases)
  case (2 pam tekst m d)
  then have dm: "unat d < unat m" by (simp add: word_less_nat_alt)
  then have "unat (d + 1) = unat d + 1"
    using unat_u64_less [of m] by (subst unat_add_u64) (simp_all del: unat_u64_less)
  then show ?case using dm by simp
qed simp

declare dlugosc_tekstu.simps [simp del]

definition skopiuj_string_do_uzytkownika ::
  "sprawdzenie option \<Rightarrow> pamiec \<Rightarrow> u64 \<Rightarrow> u64 \<Rightarrow> u64 \<Rightarrow> bool \<times> pamiec" where
  "skopiuj_string_do_uzytkownika hook pam ptr tekst max_rozmiar =
     (if ptr = 0 \<or> tekst = 0 \<or> max_rozmiar = 0 then (False, pam)
      else (case dlugosc_tekstu pam tekst max_rozmiar 0 of
              None \<Rightarrow> (False, pam)
            | Some dlugosc \<Rightarrow> skopiuj_do_przestrzeni_uzytkownika hook pam ptr tekst (dlugosc + 1)))"

subsection \<open>Random bytes\<close>

text \<open>The CPU is a parameter: whether CPUID reports RDRAND, and the outcome of each execution of the
  instruction (\<open>None\<close> when it clears the carry). A draw is tried at most 16 times; \<open>n\<close> counts the
  executions.\<close>

primrec proby_rdrand :: "(nat \<Rightarrow> u64 option) \<Rightarrow> nat \<Rightarrow> nat \<Rightarrow> u64 option \<times> nat" where
  "proby_rdrand rdrand 0 n = (None, n)"
| "proby_rdrand rdrand (Suc k) n =
     (case rdrand n of Some v \<Rightarrow> (Some v, n + 1) | None \<Rightarrow> proby_rdrand rdrand k (n + 1))"

definition bajty_slowa :: "u64 \<Rightarrow> u8 list" where
  "bajty_slowa v = map (\<lambda>i. ucast (drop_bit (i * 8) v)) [0 ..< 8]"

function losowe_petla :: "(nat \<Rightarrow> u64 option) \<Rightarrow> nat \<Rightarrow> nat \<Rightarrow> nat \<Rightarrow> u8 list \<Rightarrow> bool \<times> u8 list" where
  "losowe_petla rdrand n dlugosc off bufor =
     (if \<not> off < dlugosc then (True, bufor)
      else (case proby_rdrand rdrand 16 n of
              (None, n') \<Rightarrow> (False, bufor)
            | (Some v, n') \<Rightarrow>
                losowe_petla rdrand n' dlugosc (off + min 8 (dlugosc - off))
                  (bufor @ take (dlugosc - off) (bajty_slowa v))))"
  by pat_completeness auto
termination by (relation "measure (\<lambda>(_, _, dlugosc, off, _). dlugosc - off)") auto

declare losowe_petla.simps [simp del]

definition bursztyn_krypto_wypelnij_losowe ::
  "bool \<Rightarrow> (nat \<Rightarrow> u64 option) \<Rightarrow> bool \<Rightarrow> nat \<Rightarrow> bool \<times> u8 list" where
  "bursztyn_krypto_wypelnij_losowe cpuid_rdrand rdrand bufor_pusty dlugosc =
     (if bufor_pusty \<and> dlugosc \<noteq> 0 then (False, [])
      else if \<not> cpuid_rdrand then (False, [])
      else losowe_petla rdrand 0 dlugosc 0 [])"

subsection \<open>The copies against an exact check\<close>

lemma kopiuj_fragment_0: "kopiuj_fragment dst src 0 pam = pam"
  and kopiuj_fragment_Suc: "kopiuj_fragment dst src (Suc n) pam =
    (kopiuj_fragment dst src n pam)(dst + of_nat n := kopiuj_fragment dst src n pam (src + of_nat n))"
  by (simp_all add: kopiuj_fragment_def)

lemma kopiuj_fragment_dodaj:
  "kopiuj_fragment dst src (k + m) pam =
     kopiuj_fragment (dst + of_nat k) (src + of_nat k) m (kopiuj_fragment dst src k pam)"
  by (induction m) (simp_all add: kopiuj_fragment_0 kopiuj_fragment_Suc add.assoc)

text \<open>A copy of a range onto one that does not meet it, as a function of the address.\<close>

definition kopia :: "u64 \<Rightarrow> u64 \<Rightarrow> u64 \<Rightarrow> pamiec \<Rightarrow> pamiec" where
  "kopia dst src n pam = (\<lambda>a. if a - dst < n then pam (src + (a - dst)) else pam a)"

definition rozlaczne_zakresy :: "u64 \<Rightarrow> u64 \<Rightarrow> nat \<Rightarrow> bool" where
  "rozlaczne_zakresy a b n \<longleftrightarrow> (\<forall>i < n. \<forall>j < n. a + of_nat i \<noteq> b + of_nat j)"

lemma rozlaczne_sym: "rozlaczne_zakresy a b n \<Longrightarrow> rozlaczne_zakresy b a n"
  unfolding rozlaczne_zakresy_def by metis

lemma kopiuj_fragment_kopia:
  "n < 2 ^ 64 \<Longrightarrow> rozlaczne_zakresy dst src n \<Longrightarrow>
     kopiuj_fragment dst src n pam = (\<lambda>a. if unat (a - dst) < n then pam (src + (a - dst)) else pam a)"
proof (induction n)
  case 0
  then show ?case by (simp add: kopiuj_fragment_def)
next
  case (Suc n)
  have ih: "kopiuj_fragment dst src n pam = (\<lambda>a. if unat (a - dst) < n then pam (src + (a - dst)) else pam a)"
    using Suc by (auto simp: rozlaczne_zakresy_def)
  have nn: "unat (of_nat n :: u64) = n" using Suc.prems(1) by (intro unat_of_nat_u64) simp
  have s: "kopiuj_fragment dst src n pam (src + of_nat n) = pam (src + of_nat n)"
  proof -
    define j where "j = unat (src + of_nat n - dst)"
    have "j < n \<Longrightarrow> dst + of_nat j = src + of_nat n" by (simp add: j_def)
    then have "\<not> j < n" using Suc.prems(2) unfolding rozlaczne_zakresy_def by (metis lessI less_Suc_eq)
    then show ?thesis by (simp add: ih j_def)
  qed
  have "unat (a - dst) < Suc n \<longleftrightarrow> unat (a - dst) < n \<or> a = dst + of_nat n" for a
  proof -
    have "unat (a - dst) = n \<longleftrightarrow> a - dst = of_nat n" unfolding word_unat_eq_iff nn ..
    then show ?thesis by (auto simp: less_Suc_eq algebra_simps)
  qed
  moreover have "unat (dst + of_nat n - dst) = n" using nn by simp
  moreover have "kopiuj_fragment dst src (Suc n) pam = (kopiuj_fragment dst src n pam)(dst + of_nat n := pam (src + of_nat n))"
    using s by (simp add: kopiuj_fragment_def)
  ultimately show ?case by (simp add: ih fun_eq_iff)
qed

context straz
begin

lemma dostepny_iff:
  "n \<noteq> 0 \<Longrightarrow> zakres_dostepny (Some sprawdza) a n z \<longleftrightarrow> zakres_procesu bajt z a n"
proof -
  assume n: "n \<noteq> 0"
  have "zakres_procesu bajt z a n \<Longrightarrow> zakres_numerycznie_poprawny a n"
  proof -
    assume "zakres_procesu bajt z a n"
    then have u: "4096 \<le> unat a" "unat a + unat n \<le> 140737488355328" by (simp_all add: zakres_procesu_def)
    have n0: "0 < unat n" using n by (simp add: unat_gt_0)
    have e: "unat BWS_USER_SPACE_END = 140737488355328" "unat BWS_USER_SPACE_MIN = 4096"
      by (simp_all add: BWS_USER_SPACE_END_def BWS_USER_SPACE_MIN_def)
    have "a \<le> BWS_USER_SPACE_END" using u e by (simp add: word_le_nat_alt)
    then have "unat (BWS_USER_SPACE_END - a) = 140737488355328 - unat a" by (simp add: unat_sub_u64 e)
    then show ?thesis
      using u n0 n e by (auto simp: zakres_numerycznie_poprawny_def Let_def word_less_nat_alt word_le_nat_alt)
  qed
  then show ?thesis using n dokladna [OF n, of a z] by (auto simp: zakres_dostepny_def)
qed

lemma czesc_zakresu:
  assumes "zakres_procesu bajt z a n" "unat off + unat f \<le> unat n"
  shows "zakres_procesu bajt z (a + off) f"
proof -
  have u: "unat (a + off) = unat a + unat off"
    using assms by (subst unat_add_u64) (auto simp: zakres_procesu_def)
  have "bajt z (a + off + of_nat i)" if "i < unat f" for i
  proof -
    have "\<forall>j < unat n. bajt z (a + of_nat j)" using assms(1) by (simp add: zakres_procesu_def)
    moreover have "unat off + i < unat n" using assms(2) that by linarith
    ultimately have "bajt z (a + of_nat (unat off + i))" by blast
    then show ?thesis by (simp add: add.assoc)
  qed
  then show ?thesis using assms u by (simp add: zakres_procesu_def)
qed

lemma petla_spec:
  "zakres_procesu bajt z uz n \<Longrightarrow> unat off + unat poz = unat n \<Longrightarrow>
     petla_kopiowania (Some sprawdza) z uz dst src off poz pam =
       (True, kopiuj_fragment (dst + off) (src + off) (unat poz) pam)"
proof (induction "Some sprawdza" z uz dst src off poz pam rule: petla_kopiowania.induct)
  case (1 z uz dst src off poz pam)
  show ?case
  proof (cases "poz = 0")
    case True
    then show ?thesis by (subst petla_kopiowania.simps) (simp add: kopiuj_fragment_def)
  next
    case False
    define f0 where "f0 = bajtow_do_konca_strony (uz + off)"
    define f where "f = (if f0 > poz then poz else f0)"
    have f: "unat f \<le> unat poz" "f \<le> poz" "f \<noteq> 0"
      using bajtow_dodatnie [of "uz + off"] False by (auto simp: f_def f0_def word_le_nat_alt word_less_nat_alt)
    have z: "zakres_procesu bajt z (uz + off) f"
      by (rule czesc_zakresu [OF 1(2)]) (use 1(3) f in linarith)
    then have d: "zakres_dostepny (Some sprawdza) (uz + off) f z" using dostepny_iff [OF f(3)] by simp
    have of: "unat (off + f) = unat off + unat f"
      using 1(3) f unat_u64_less [of n] by (subst unat_add_u64) (simp_all del: unat_u64_less)
    have pf: "unat (poz - f) = unat poz - unat f" by (rule unat_sub_u64 [OF f(2)])
    define pam1 where "pam1 = kopiuj_fragment (dst + off) (src + off) (unat f) pam"
    have "petla_kopiowania (Some sprawdza) z uz dst src off poz pam =
        petla_kopiowania (Some sprawdza) z uz dst src (off + f) (poz - f) pam1"
      using False d unfolding f_def f0_def pam1_def by (subst petla_kopiowania.simps) (simp add: Let_def)
    also have "\<dots> = (True, kopiuj_fragment (dst + (off + f)) (src + (off + f)) (unat (poz - f)) pam1)"
      unfolding pam1_def
      by (rule 1(1)) (use False d 1(2,3) f of pf in \<open>auto simp: f_def f0_def\<close>)
    also have "kopiuj_fragment (dst + (off + f)) (src + (off + f)) (unat (poz - f)) pam1 =
        kopiuj_fragment (dst + off) (src + off) (unat poz) pam"
      using kopiuj_fragment_dodaj [of "dst + off" "src + off" "unat f" "unat (poz - f)" pam] f(1)
      by (simp add: pf pam1_def add.assoc)
    finally show ?thesis .
  qed
qed

lemma kopia_z_procesu:
  assumes "zakres_procesu bajt False ptr n \<Longrightarrow> rozlaczne_zakresy bufor ptr (unat n)"
  shows "skopiuj_z_przestrzeni_uzytkownika (Some sprawdza) pam bufor ptr n =
    (if n = 0 then (True, pam)
     else if bufor \<noteq> 0 \<and> zakres_procesu bajt False ptr n then (True, kopia bufor ptr n pam) else (False, pam))"
proof -
  have "\<not> zakres_procesu bajt False 0 n" by (simp add: zakres_procesu_def)
  moreover have "kopiuj_fragment bufor ptr (unat n) pam = kopia bufor ptr n pam" if "zakres_procesu bajt False ptr n"
    using kopiuj_fragment_kopia [OF _ assms [OF that]] unat_u64_less [of n] by (simp add: kopia_def word_less_nat_alt)
  ultimately show ?thesis
    using petla_spec [of False ptr n 0 n bufor ptr pam] dostepny_iff [of n ptr False]
    by (auto simp: skopiuj_z_przestrzeni_uzytkownika_def czy_bezpieczny_zakres_uzytkownika_do_odczytu_def)
qed

lemma kopia_do_procesu:
  assumes "zakres_procesu bajt True ptr n \<Longrightarrow> rozlaczne_zakresy ptr bufor (unat n)"
  shows "skopiuj_do_przestrzeni_uzytkownika (Some sprawdza) pam ptr bufor n =
    (if n = 0 then (True, pam)
     else if bufor \<noteq> 0 \<and> zakres_procesu bajt True ptr n then (True, kopia ptr bufor n pam) else (False, pam))"
proof -
  have "\<not> zakres_procesu bajt True 0 n" by (simp add: zakres_procesu_def)
  moreover have "kopiuj_fragment ptr bufor (unat n) pam = kopia ptr bufor n pam" if "zakres_procesu bajt True ptr n"
    using kopiuj_fragment_kopia [OF _ assms [OF that]] unat_u64_less [of n] by (simp add: kopia_def word_less_nat_alt)
  ultimately show ?thesis
    using petla_spec [of True ptr n 0 n ptr bufor pam] dostepny_iff [of n ptr True]
    by (auto simp: skopiuj_do_przestrzeni_uzytkownika_def czy_bezpieczny_zakres_uzytkownika_do_zapisu_def)
qed

end

text \<open>What a copied string is: the bytes of the process up to and with the first zero, all of them
  readable, within \<open>m - 1\<close> bytes.\<close>

definition napis_procesu :: "(u64 \<Rightarrow> bool) \<Rightarrow> pamiec \<Rightarrow> u64 \<Rightarrow> u64 \<Rightarrow> nat \<Rightarrow> bool" where
  "napis_procesu czyta pam ptr m k \<longleftrightarrow> k < unat m - 1 \<and> (\<forall>j \<le> k. czyta (ptr + of_nat j)) \<and>
     pam (ptr + of_nat k) = 0 \<and> (\<forall>j < k. pam (ptr + of_nat j) \<noteq> 0)"

definition napis_skopiowany :: "(u64 \<Rightarrow> bool) \<Rightarrow> pamiec \<Rightarrow> u64 \<Rightarrow> u64 \<Rightarrow> u64 \<Rightarrow> bool \<times> pamiec \<Rightarrow> bool" where
  "napis_skopiowany czyta pam bufor ptr m = (\<lambda>(ok, pam').
     (\<forall>a. m \<le> a - bufor \<longrightarrow> pam' a = pam a) \<and>
     (if ok then \<exists>k. napis_procesu czyta pam ptr m k \<and> (\<forall>j \<le> k. pam' (bufor + of_nat j) = pam (ptr + of_nat j))
      else (\<exists>k < unat m. pam' (bufor + of_nat k) = 0) \<and> \<not> (\<exists>k. napis_procesu czyta pam ptr m k)))"

lemma petla_napisu_spec:
  fixes m :: u64
  assumes cz: "\<And>a. zakres_dostepny hook a 1 False = czyta a" and m: "m \<noteq> 0"
    and kb: "\<forall>j < unat m. \<not> czyta (bufor + of_nat j)"
  shows "i \<le> unat m - 1 \<Longrightarrow> (\<forall>a. m \<le> a - bufor \<longrightarrow> pam a = pam0 a) \<Longrightarrow>
    (\<forall>j < i. czyta (ptr + of_nat j) \<and> pam0 (ptr + of_nat j) \<noteq> 0 \<and> pam (bufor + of_nat j) = pam0 (ptr + of_nat j)) \<Longrightarrow>
    napis_skopiowany czyta pam0 bufor ptr m (petla_napisu hook bufor ptr m (of_nat i) pam)"
proof (induction "unat m - 1 - i" arbitrary: i pam)
  case d: 0
  have m0: "0 < unat m" using m by (simp add: unat_gt_0)
  have i: "i = unat m - 1" using d by simp
  have m1: "unat (m - 1) = unat m - 1" using m0 by (simp add: unat_sub_u64 word_le_nat_alt)
  have oi: "(of_nat i :: u64) = m - 1" unfolding i m1 [symmetric] by simp
  have "petla_napisu hook bufor ptr m (of_nat i) pam = (False, pam(bufor + (m - 1) := 0))"
    unfolding oi by (subst petla_napisu.simps) simp
  moreover have "\<not> napis_procesu czyta pam0 ptr m k" for k
    using d.prems(3) i by (auto simp: napis_procesu_def)
  moreover have "\<not> m \<le> (m - 1 :: u64)" using m1 m0 by (simp add: word_le_nat_alt)
  moreover have "bufor + of_nat (unat m - 1) = bufor + (m - 1)" unfolding i [symmetric] oi ..
  ultimately show ?case
    using d.prems(2) m0 by (auto simp: napis_skopiowany_def intro!: exI [of _ "unat m - 1"])
next
  case (Suc x)
  have im: "i < unat m - 1" using Suc(2) by simp
  have m0: "0 < unat m" using im by simp
  have m1: "unat (m - 1) = unat m - 1" using m0 by (simp add: unat_sub_u64 word_le_nat_alt)
  have "i < 18446744073709551616" using im unat_u64_less [of m] by linarith
  then have ui: "unat (of_nat i :: u64) = i" by (rule unat_of_nat_u64)
  have lt: "(of_nat i :: u64) < m - 1" using im by (simp add: word_less_nat_alt ui m1)
  have wb: "\<not> m \<le> (bufor + of_nat i) - bufor" using im ui by (simp add: word_le_nat_alt)
  have ri: "pam (ptr + of_nat i) = pam0 (ptr + of_nat i)" if "czyta (ptr + of_nat i)"
  proof -
    define y where "y = unat (ptr + of_nat i - bufor)"
    have "bufor + of_nat y = ptr + of_nat i" by (simp add: y_def)
    then have "\<not> y < unat m" using kb that by metis
    then show ?thesis using Suc.prems(2) by (simp add: y_def word_le_nat_alt)
  qed
  show ?case
  proof (cases "czyta (ptr + of_nat i)")
    case False
    then have "petla_napisu hook bufor ptr m (of_nat i) pam = (False, pam(bufor + of_nat i := 0))"
      using lt cz by (subst petla_napisu.simps) simp
    moreover have "\<not> napis_procesu czyta pam0 ptr m k" for k
      using False Suc.prems(3) by (auto simp: napis_procesu_def not_le intro: leI)
    ultimately show ?thesis
      using Suc.prems(2) wb im by (auto simp: napis_skopiowany_def intro!: exI [of _ i])
  next
    case cti: True
    define pam1 where "pam1 = pam(bufor + of_nat i := pam (ptr + of_nat i))"
    have krok: "petla_napisu hook bufor ptr m (of_nat i) pam =
        (if pam0 (ptr + of_nat i) = 0 then (True, pam1) else petla_napisu hook bufor ptr m (of_nat (Suc i)) pam1)"
      using lt cz cti by (subst petla_napisu.simps) (simp add: Let_def pam1_def ri [OF cti] add.commute)
    have z1: "\<forall>a. m \<le> a - bufor \<longrightarrow> pam1 a = pam0 a" using Suc.prems(2) wb by (auto simp: pam1_def)
    have inj: "bufor + of_nat j \<noteq> bufor + of_nat i" if "j < i" for j
    proof -
      have "unat (of_nat j :: u64) = j" using that \<open>i < 18446744073709551616\<close> by (intro unat_of_nat_u64) simp
      then show ?thesis using that ui by (metis add_left_cancel nat_neq_iff)
    qed
    have p1: "\<forall>j < Suc i. czyta (ptr + of_nat j) \<and> (j < i \<longrightarrow> pam0 (ptr + of_nat j) \<noteq> 0) \<and> pam1 (bufor + of_nat j) = pam0 (ptr + of_nat j)"
      using Suc.prems(3) cti inj ri [OF cti] by (auto simp: pam1_def less_Suc_eq)
    show ?thesis
    proof (cases "pam0 (ptr + of_nat i) = 0")
      case True
      then have "napis_procesu czyta pam0 ptr m i" using p1 im by (simp add: napis_procesu_def less_Suc_eq_le)
      then show ?thesis using krok True z1 p1 by (auto simp: napis_skopiowany_def intro!: exI [of _ i])
    next
      case False
      have "napis_skopiowany czyta pam0 bufor ptr m (petla_napisu hook bufor ptr m (of_nat (Suc i)) pam1)"
        by (rule Suc.hyps(1)) (use Suc(2) im z1 p1 False in \<open>auto simp: less_Suc_eq\<close>)
      then show ?thesis using krok False by simp
    qed
  qed
qed


subsection \<open>Random bytes\<close>

lemma dlugosc_bajtow [simp]: "length (bajty_slowa v) = 8"
  by (simp add: bajty_slowa_def)

lemma proby_spec:
  "proby_rdrand rdrand k n = (r, n') \<Longrightarrow> n \<le> n' \<and>
     (case r of Some v \<Rightarrow> n < n' \<and> rdrand (n' - 1) = Some v | None \<Rightarrow> n' = n + k \<and> (\<forall>j. n \<le> j \<and> j < n' \<longrightarrow> rdrand j = None))"
proof (induction k arbitrary: n)
  case (Suc k)
  show ?case
  proof (cases "rdrand n")
    case None
    then have "proby_rdrand rdrand k (n + 1) = (r, n')" using Suc.prems by simp
    from Suc.IH [OF this] None show ?thesis
      by (auto split: option.splits) (metis Suc_leI le_eq_less_or_eq)
  next
    case (Some v)
    then have "r = Some v" "n' = n + 1" using Suc.prems by auto
    then show ?thesis using Some by simp
  qed
qed auto

lemma losowe_spec:
  "off \<le> dlugosc \<Longrightarrow> losowe_petla rdrand n dlugosc off bufor = (ok, b) \<Longrightarrow>
     \<exists>ks vs. sorted_wrt (<) ks \<and> (\<forall>k \<in> set ks. n \<le> k) \<and> map rdrand ks = map Some vs \<and>
       b = bufor @ take (dlugosc - off) (concat (map bajty_slowa vs)) \<and>
       (ok \<longrightarrow> dlugosc - off \<le> length (concat (map bajty_slowa vs))) \<and>
       (\<not> ok \<longrightarrow> (\<exists>j \<ge> n. \<forall>i < 16. rdrand (j + i) = None))"
proof (induction rdrand n dlugosc off bufor rule: losowe_petla.induct)
  case (1 rdrand n dlugosc off bufor)
  obtain r n' where r: "proby_rdrand rdrand 16 n = (r, n')" by fastforce
  note ps = proby_spec [OF r]
  show ?case
  proof (cases "off < dlugosc")
    case False
    then have "ok" "b = bufor" using 1(3) by (simp_all add: losowe_petla.simps)
    then show ?thesis using False by (intro exI [of _ "[]"]) simp
  next
    case off: True
    show ?thesis
    proof (cases r)
      case None
      then have "\<not> ok" "b = bufor" using 1(3) off r by (simp_all add: losowe_petla.simps)
      moreover have "\<forall>i < 16. rdrand (n + i) = None" using ps None by simp
      ultimately show ?thesis by (intro exI [of _ "[]"]) auto
    next
      case (Some v)
      define off' b0 where "off' = off + min 8 (dlugosc - off)" and "b0 = bufor @ take (dlugosc - off) (bajty_slowa v)"
      have w: "losowe_petla rdrand n' dlugosc off' b0 = (ok, b)"
        using 1(3) off r Some by (simp add: losowe_petla.simps [of rdrand n] off'_def b0_def)
      have o: "off' \<le> dlugosc" using off by (simp add: off'_def)
      from 1(1) [OF _ r [symmetric] Some, folded off'_def b0_def, OF _ o w] off obtain ks vs where ih:
        "sorted_wrt (<) ks" "\<forall>k \<in> set ks. n' \<le> k" "map rdrand ks = map Some vs"
        "b = b0 @ take (dlugosc - off') (concat (map bajty_slowa vs))"
        "ok \<longrightarrow> dlugosc - off' \<le> length (concat (map bajty_slowa vs))"
        "\<not> ok \<longrightarrow> (\<exists>j \<ge> n'. \<forall>i < 16. rdrand (j + i) = None)" by auto
      have "b = bufor @ take (dlugosc - off) (concat (map bajty_slowa (v # vs)))"
        using ih(4) off by (simp add: b0_def off'_def min_def)
      moreover have "sorted_wrt (<) ((n' - 1) # ks)" "\<forall>k \<in> set ((n' - 1) # ks). n \<le> k"
        "map rdrand ((n' - 1) # ks) = map Some (v # vs)" using ih(1-3) ps Some by fastforce+
      moreover have "ok \<longrightarrow> dlugosc - off \<le> length (concat (map bajty_slowa (v # vs)))"
        using ih(5) by (auto simp: off'_def)
      moreover have "\<not> ok \<longrightarrow> (\<exists>j \<ge> n. \<forall>i < 16. rdrand (j + i) = None)" using ih(6) ps by (meson le_trans)
      ultimately show ?thesis by blast
    qed
  qed
qed

end
