(* ===== verification/Bezpieczenstwo_Twierdzenia.thy ===== *)
theory Bezpieczenstwo_Twierdzenia
  imports Bezpieczenstwo Vmm_Twierdzenia
begin

section \<open>The theorems on copying between the kernel and a process\<close>

text \<open>
  The memory manager provides the interface \<open>straz\<close>, so the copies of the kernel are exact: they
  move a range that the process owns completely, or change nothing.
\<close>

definition bajt_uzytkownika :: "vmm \<Rightarrow> bool \<Rightarrow> u64 \<Rightarrow> bool" where
  "bajt_uzytkownika v zapis a \<longleftrightarrow> vm_gotowy v \<and> pml4_z_cr3 v \<noteq> 0 \<and> dostep v (pml4_z_cr3 v) zapis a"

interpretation straz_vmm: straz "bws_vmm_sprawdz_zakres_uzytkownika v" "bajt_uzytkownika v" for v
proof
  fix n a :: u64 and z assume n: "n \<noteq> 0"
  then have "0 < unat n" by (simp add: unat_gt_0)
  then show "bws_vmm_sprawdz_zakres_uzytkownika v a n z = zakres_procesu (bajt_uzytkownika v) z a n"
    using n by (auto simp: bws_zakres zakres_dolny_def zakres_procesu_def bajt_uzytkownika_def list_all_iff)
qed

abbreviation hook_vmm :: "vmm \<Rightarrow> sprawdzenie option" where
  "hook_vmm v \<equiv> Some (bws_vmm_sprawdz_zakres_uzytkownika v)"

text \<open>A buffer of the kernel: it does not wrap, and no byte of it is open to the process.\<close>

definition bufor_jadra :: "vmm \<Rightarrow> bool \<Rightarrow> u64 \<Rightarrow> u64 \<Rightarrow> bool" where
  "bufor_jadra v zapis bufor n \<longleftrightarrow> list_all (\<lambda>i. \<not> bajt_uzytkownika v zapis (bufor + of_nat i)) [0 ..< unat n]"

lemma bufor_rozlaczny:
  "bufor_jadra v z bufor n \<Longrightarrow> zakres_procesu (bajt_uzytkownika v) z ptr n \<Longrightarrow> rozlaczne_zakresy bufor ptr (unat n)"
  unfolding bufor_jadra_def zakres_procesu_def rozlaczne_zakresy_def list_all_iff
  by (metis atLeastLessThan_iff le0 set_upt)


text \<open>The witness state: a process with one user page at 4 MiB.\<close>

definition vmm_procesu :: vmm where
  "vmm_procesu = \<lparr>vm_tabele = (\<lambda>_ _. 0)(0x200000 := (\<lambda>_. 0)(0 := 0x201007), 0x201000 := (\<lambda>_. 0)(0 := 0x202007),
     0x202000 := (\<lambda>_. 0)(2 := 0x203007), 0x203000 := (\<lambda>_. 0)(0 := 0x300007)), vm_pmm = pmm_przyklad, vm_cr3 = 0x200000,
     vm_bazowe = 0x200000, vm_globalne = 0x200000, vm_gotowy = True, vm_tlb = []\<rparr>"

lemmas walker_eval = dostep_def sprawdz_mapowanie_def vmm_procesu_def Let_def
  MASKA_ADRESU_4K_def adres_kanoniczny_def indeks_pml4_def indeks_pdp_def indeks_pd_def indeks_pt_def
  tabela_z_wpisu_def tabela_fizyczna_bezposrednio_dostepna_def wynik_pusty_def

lemma strony_przyklad:
  "dostep vmm_procesu 0x200000 True 0x400000" "dostep vmm_procesu 0x200000 False 0x400000"
  "\<not> dostep vmm_procesu 0x200000 True 0x100000" "\<not> dostep vmm_procesu 0x200000 False 0x100000"
  by (simp_all add: walker_eval)

lemma bajt_przyklad:
  assumes "i < 4"
  shows "bajt_uzytkownika vmm_procesu z (0x400000 + of_nat i)" "\<not> bajt_uzytkownika vmm_procesu z (0x100000 + of_nat i)"
proof -
  have v: "vm_gotowy vmm_procesu" "pml4_z_cr3 vmm_procesu = 0x200000"
    by (simp_all add: vmm_procesu_def pml4_z_cr3_def MASKA_ADRESU_4K_def)
  have u: "unat (of_nat i :: u64) = i" using assms by (intro unat_of_nat_u64) simp
  have "unat (0x400000 + of_nat i :: u64) div 4096 = 1024" "unat (0x100000 + of_nat i :: u64) div 4096 = 256"
    using assms u by (subst unat_add_u64; simp)+
  then have "dostep vmm_procesu 0x200000 z (0x400000 + of_nat i) = dostep vmm_procesu 0x200000 z 0x400000"
    "dostep vmm_procesu 0x200000 z (0x100000 + of_nat i) = dostep vmm_procesu 0x200000 z 0x100000"
    using dostep_strona [of vmm_procesu "0x200000" z "0x400000 + of_nat i"] dostep_strona [of vmm_procesu "0x200000" z "0x100000 + of_nat i"]
    by (simp_all add: adres_strony_def)
  then show "bajt_uzytkownika vmm_procesu z (0x400000 + of_nat i)" "\<not> bajt_uzytkownika vmm_procesu z (0x100000 + of_nat i)"
    using strony_przyklad v by (cases z; simp add: bajt_uzytkownika_def)+
qed

lemma zakresy_przyklad:
  "bufor_jadra vmm_procesu z 0x100000 4" "zakres_procesu (bajt_uzytkownika vmm_procesu) z 0x400000 4"
  using bajt_przyklad by (simp_all add: bufor_jadra_def zakres_procesu_def list_all_iff)

text \<open>
  C19. \<open>skopiuj_z_przestrzeni_uzytkownika\<close> (copy_from_user) is all or nothing: into a buffer of the
  kernel it copies exactly the requested bytes when the process may read every one of them, and in
  every other case it fails and changes no byte at all. No length is truncated and no fragment is
  copied before a failure.
\<close>

theorem kopia_z_uzytkownika:
  assumes "bufor_jadra v False bufor n"
  shows "skopiuj_z_przestrzeni_uzytkownika (hook_vmm v) pam bufor ptr n =
    (if n = 0 then (True, pam)
     else if bufor \<noteq> 0 \<and> zakres_procesu (bajt_uzytkownika v) False ptr n then (True, kopia bufor ptr n pam)
     else (False, pam))"
  by (rule straz_vmm.kopia_z_procesu) (rule bufor_rozlaczny [OF assms])

theorem kopia_z_uzytkownika_witness:
  "skopiuj_z_przestrzeni_uzytkownika (hook_vmm vmm_procesu) (\<lambda>_. 65) 0x100000 0x400000 4 =
     (True, kopia 0x100000 0x400000 4 (\<lambda>_. 65))"
  using kopia_z_uzytkownika [OF zakresy_przyklad(1), of "\<lambda>_. 65" "0x400000"] zakresy_przyklad(2) by simp

text \<open>
  C20. \<open>skopiuj_do_przestrzeni_uzytkownika\<close> (copy_to_user) writes exactly the requested bytes when the
  process may write every one of them, and changes no byte otherwise; so a system call can never
  make the kernel write to memory the process could not write itself.
\<close>

theorem kopia_do_uzytkownika:
  assumes "bufor_jadra v True bufor n"
  shows "skopiuj_do_przestrzeni_uzytkownika (hook_vmm v) pam ptr bufor n =
    (if n = 0 then (True, pam)
     else if bufor \<noteq> 0 \<and> zakres_procesu (bajt_uzytkownika v) True ptr n then (True, kopia ptr bufor n pam)
     else (False, pam)) \<and>
    (\<forall>a. snd (skopiuj_do_przestrzeni_uzytkownika (hook_vmm v) pam ptr bufor n) a \<noteq> pam a \<longrightarrow> bajt_uzytkownika v True a)"
proof -
  have k: "skopiuj_do_przestrzeni_uzytkownika (hook_vmm v) pam ptr bufor n =
    (if n = 0 then (True, pam)
     else if bufor \<noteq> 0 \<and> zakres_procesu (bajt_uzytkownika v) True ptr n then (True, kopia ptr bufor n pam)
     else (False, pam))"
    by (rule straz_vmm.kopia_do_procesu) (rule rozlaczne_sym [OF bufor_rozlaczny [OF assms]])
  have "bajt_uzytkownika v True a" if "zakres_procesu (bajt_uzytkownika v) True ptr n" "kopia ptr bufor n pam a \<noteq> pam a" for a
  proof -
    have "unat (a - ptr) < unat n" using that(2) by (auto simp: kopia_def word_less_nat_alt split: if_splits)
    then have "bajt_uzytkownika v True (ptr + of_nat (unat (a - ptr)))" using that(1) unfolding zakres_procesu_def by blast
    then show ?thesis by simp
  qed
  then show ?thesis using k by auto
qed

theorem kopia_do_uzytkownika_witness:
  "skopiuj_do_przestrzeni_uzytkownika (hook_vmm vmm_procesu) (\<lambda>_. 65) 0x400000 0x100000 4 =
     (True, kopia 0x400000 0x100000 4 (\<lambda>_. 65))"
  using kopia_do_uzytkownika [OF zakresy_przyklad(1), of "\<lambda>_. 65" "0x400000"] zakresy_przyklad(2) by simp

text \<open>
  \<open>skopiuj_string_z_uzytkownika\<close> succeeds exactly when the process can read a terminated string
  that fits the limit, and then the buffer holds that string with its terminator; otherwise it
  fails with a terminated buffer (a string that is too long is never cut). Nothing outside the
  buffer changes.
\<close>

theorem napis_z_uzytkownika:
  assumes "bufor_jadra v False bufor m" "bufor \<noteq> 0" "m \<noteq> 0"
  shows "napis_skopiowany (\<lambda>a. zakres_procesu (bajt_uzytkownika v) False a 1) pam bufor ptr m
    (skopiuj_string_z_uzytkownika (hook_vmm v) pam bufor ptr m)"
proof -
  let ?czyta = "\<lambda>a. zakres_procesu (bajt_uzytkownika v) False a 1"
  have kb: "\<forall>j < unat m. \<not> ?czyta (bufor + of_nat j)"
    using assms(1) by (auto simp: bufor_jadra_def zakres_procesu_def list_all_iff)
  have m0: "0 < unat m" using assms(3) by (simp add: unat_gt_0)
  have u: "zakres_dostepny (hook_vmm v) a 1 False = ?czyta a" for a
    by (rule straz_vmm.dostepny_iff) simp
  define pam1 where "pam1 = pam(bufor := 0)"
  have p1: "\<forall>a. m \<le> a - bufor \<longrightarrow> pam1 a = pam a" using m0 by (auto simp: pam1_def word_le_nat_alt)
  show ?thesis
  proof (cases "ptr = 0")
    case True
    have "\<not> napis_procesu ?czyta pam ptr m k" for k
      using True by (auto simp: napis_procesu_def zakres_procesu_def intro!: exI [of _ 0])
    then show ?thesis
      using True assms p1 m0 by (auto simp: skopiuj_string_z_uzytkownika_def napis_skopiowany_def pam1_def intro!: exI [of _ 0])
  next
    case False
    have "napis_skopiowany ?czyta pam bufor ptr m (petla_napisu (hook_vmm v) bufor ptr m (of_nat 0) pam1)"
      by (rule petla_napisu_spec [OF u assms(3) kb]) (use p1 in auto)
    then show ?thesis using False assms by (simp add: skopiuj_string_z_uzytkownika_def Let_def pam1_def)
  qed
qed

theorem napis_z_uzytkownika_witness:
  "snd (skopiuj_string_z_uzytkownika (hook_vmm vmm_procesu) (\<lambda>_. 65) 0x100000 0x400000 4) 0x100004 = 65"
  using napis_z_uzytkownika [OF zakresy_przyklad(1), of "\<lambda>_. 65" "0x400000"]
  by (simp add: napis_skopiowany_def case_prod_beta)



end
