(* ===== verification/Pierscien.thy ===== *)
theory Pierscien
  imports Preludium
begin

section \<open>Ring buffers\<close>

text \<open>
  The kernel's queues are arrays of a fixed size with a read index (\<open>ogon\<close>) and a write index
  (\<open>glowa\<close>), one slot always free. The list they stand for, and what each index operation does to it.
\<close>

definition dlugosc_pierscienia :: "nat \<Rightarrow> nat \<Rightarrow> nat \<Rightarrow> nat" where
  "dlugosc_pierscienia n ogon glowa = (glowa + n - ogon) mod n"

definition lista_pierscienia :: "nat \<Rightarrow> (nat \<Rightarrow> 'a) \<Rightarrow> nat \<Rightarrow> nat \<Rightarrow> 'a list" where
  "lista_pierscienia n w ogon glowa = map (\<lambda>i. w ((ogon + i) mod n)) [0 ..< dlugosc_pierscienia n ogon glowa]"

lemma dlugosc_lista [simp]: "length (lista_pierscienia n w o1 g) = dlugosc_pierscienia n o1 g"
  by (simp add: lista_pierscienia_def)

lemma nth_pierscienia: "i < dlugosc_pierscienia n o1 g \<Longrightarrow> lista_pierscienia n w o1 g ! i = w ((o1 + i) mod n)"
  by (simp add: lista_pierscienia_def)

lemma dlugosc_mniejsza [simp]: "0 < n \<Longrightarrow> dlugosc_pierscienia n o1 g < n"
  by (simp add: dlugosc_pierscienia_def)

lemma dlugosc_przypadki:
  assumes "o1 < n" "g < n"
  shows "dlugosc_pierscienia n o1 g = (if o1 \<le> g then g - o1 else g + n - o1)"
proof (cases "o1 \<le> g")
  case True
  then have "g + n - o1 = n + (g - o1)" by simp
  then have "(g + n - o1) mod n = (g - o1) mod n" by simp
  then show ?thesis using True assms by (simp add: dlugosc_pierscienia_def)
qed (use assms in \<open>simp add: dlugosc_pierscienia_def\<close>)

lemma mod_przypadki: "a < n \<Longrightarrow> b \<le> n \<Longrightarrow> (a + b) mod n = (if a + b < n then a + b else a + b - n)" for a b n :: nat
  by (auto simp: mod_if)

lemma pusty_pierscien: "o1 < n \<Longrightarrow> g < n \<Longrightarrow> dlugosc_pierscienia n o1 g = 0 \<longleftrightarrow> o1 = g"
  by (auto simp: dlugosc_przypadki)

lemma koniec_pierscienia: "o1 < n \<Longrightarrow> g < n \<Longrightarrow> (o1 + dlugosc_pierscienia n o1 g) mod n = g"
  by (auto simp: dlugosc_przypadki mod_if)

lemma pozycje_rozne:
  fixes o1 :: nat
  assumes "o1 < n" "i < n" "j < n"
  shows "(o1 + i) mod n = (o1 + j) mod n \<longleftrightarrow> i = j"
  using assms mod_przypadki [of o1 n i] mod_przypadki [of o1 n j] by (auto split: if_splits)

lemma pelny_pierscien:
  "o1 < n \<Longrightarrow> g < n \<Longrightarrow> 1 < n \<Longrightarrow> (g + 1) mod n = o1 \<longleftrightarrow> dlugosc_pierscienia n o1 g = n - 1"
  using mod_przypadki [of g n 1] by (auto simp: dlugosc_przypadki split: if_splits)

lemma dlugosc_dopisanie:
  assumes "o1 < n" "g < n" "(g + 1) mod n \<noteq> o1"
  shows "dlugosc_pierscienia n o1 ((g + 1) mod n) = Suc (dlugosc_pierscienia n o1 g)"
proof -
  have "(g + 1) mod n < n" using assms by simp
  then show ?thesis
    using assms mod_przypadki [of g n 1] by (auto simp: dlugosc_przypadki split: if_splits)
qed

lemma dopisanie:
  assumes "o1 < n" "g < n" "(g + 1) mod n \<noteq> o1"
  shows "lista_pierscienia n (w(g := z)) o1 ((g + 1) mod n) = lista_pierscienia n w o1 g @ [z]"
proof (rule nth_equalityI)
  let ?d = "dlugosc_pierscienia n o1 g"
  have n: "0 < n" using assms by simp
  show "length (lista_pierscienia n (w(g := z)) o1 ((g + 1) mod n)) = length (lista_pierscienia n w o1 g @ [z])"
    using dlugosc_dopisanie [OF assms] by simp
  fix i assume "i < length (lista_pierscienia n (w(g := z)) o1 ((g + 1) mod n))"
  then have i: "i < Suc ?d" using dlugosc_dopisanie [OF assms] by simp
  have "(o1 + i) mod n = g \<longleftrightarrow> i = ?d"
    using pozycje_rozne [OF assms(1), of i ?d] koniec_pierscienia [OF assms(1,2)] i dlugosc_mniejsza [OF n, of o1 g] by auto
  then show "lista_pierscienia n (w(g := z)) o1 ((g + 1) mod n) ! i = (lista_pierscienia n w o1 g @ [z]) ! i"
    using i dlugosc_dopisanie [OF assms] by (auto simp: nth_pierscienia nth_append less_Suc_eq)
qed

lemma pobranie:
  assumes "o1 < n" "g < n" "o1 \<noteq> g"
  shows "lista_pierscienia n w o1 g = w o1 # lista_pierscienia n w ((o1 + 1) mod n) g"
proof (rule nth_equalityI)
  have d: "dlugosc_pierscienia n o1 g = Suc (dlugosc_pierscienia n ((o1 + 1) mod n) g)"
    using assms mod_przypadki [of o1 n 1] by (auto simp: dlugosc_przypadki split: if_splits)
  show "length (lista_pierscienia n w o1 g) = length (w o1 # lista_pierscienia n w ((o1 + 1) mod n) g)" using d by simp
  fix i assume "i < length (lista_pierscienia n w o1 g)"
  then show "lista_pierscienia n w o1 g ! i = (w o1 # lista_pierscienia n w ((o1 + 1) mod n) g) ! i"
    using d assms(1) by (cases i) (simp_all add: nth_pierscienia mod_add_left_eq)
qed

lemma podmiana_wpisu:
  assumes "o1 < n" "i < dlugosc_pierscienia n o1 g"
  shows "lista_pierscienia n (w((o1 + i) mod n := z)) o1 g = (lista_pierscienia n w o1 g)[i := z]"
proof (rule nth_equalityI)
  fix j assume "j < length (lista_pierscienia n (w((o1 + i) mod n := z)) o1 g)"
  then have j: "j < dlugosc_pierscienia n o1 g" by simp
  have "dlugosc_pierscienia n o1 g < n" using assms by simp
  then have "(o1 + j) mod n = (o1 + i) mod n \<longleftrightarrow> j = i" using pozycje_rozne [OF assms(1), of j i] j assms(2) by simp
  then show "lista_pierscienia n (w((o1 + i) mod n := z)) o1 g ! j = (lista_pierscienia n w o1 g)[i := z] ! j"
    using j by (simp add: nth_pierscienia nth_list_update)
qed simp

lemma pusta_lista: "lista_pierscienia n w o1 o1 = []"
  by (simp add: lista_pierscienia_def dlugosc_pierscienia_def)

end
