(* ===== verification/Zdarzenia.thy ===== *)
theory Zdarzenia
  imports Pierscien
begin

section \<open>Event queues\<close>

text \<open>
  The events of \<open>bws_zdarzenia.h\<close> and the queue each process has in \<open>scheduler.cpp\<close>, a ring of 128
  entries that merges pointer moves and timer ticks; then the list operation it implements.
\<close>

record bws_zdarzenie =
  zd_typ :: u32
  zd_x :: i32
  zd_y :: i32
  zd_dx :: i32
  zd_dy :: i32
  zd_przyciski :: u32
  zd_kod :: u32
  zd_timestamp :: u64

definition zdarzenie_zero :: bws_zdarzenie where
  "zdarzenie_zero = \<lparr>zd_typ = 0, zd_x = 0, zd_y = 0, zd_dx = 0, zd_dy = 0, zd_przyciski = 0, zd_kod = 0, zd_timestamp = 0\<rparr>"

abbreviation BWS_ZDARZENIE_MYSZ_RUCH :: u32 where "BWS_ZDARZENIE_MYSZ_RUCH \<equiv> 1"
abbreviation BWS_ZDARZENIE_MYSZ_DOWN :: u32 where "BWS_ZDARZENIE_MYSZ_DOWN \<equiv> 2"
abbreviation BWS_ZDARZENIE_MYSZ_UP :: u32 where "BWS_ZDARZENIE_MYSZ_UP \<equiv> 3"
abbreviation BWS_ZDARZENIE_KLAWISZ :: u32 where "BWS_ZDARZENIE_KLAWISZ \<equiv> 4"
abbreviation BWS_ZDARZENIE_TIMER :: u32 where "BWS_ZDARZENIE_TIMER \<equiv> 5"
abbreviation BWS_ZDARZENIE_FOCUS :: u32 where "BWS_ZDARZENIE_FOCUS \<equiv> 6"
abbreviation BWS_ZDARZENIE_BLUR :: u32 where "BWS_ZDARZENIE_BLUR \<equiv> 7"
abbreviation BWS_ZDARZENIE_ZAMKNIJ :: u32 where "BWS_ZDARZENIE_ZAMKNIJ \<equiv> 8"
abbreviation BWS_ZDARZENIE_MYSZ_PRAWY_DOWN :: u32 where "BWS_ZDARZENIE_MYSZ_PRAWY_DOWN \<equiv> 20"
abbreviation BWS_ZDARZENIE_MYSZ_PRAWY_UP :: u32 where "BWS_ZDARZENIE_MYSZ_PRAWY_UP \<equiv> 21"

abbreviation ROZMIAR_KOLEJKI_ZDARZEN :: nat where "ROZMIAR_KOLEJKI_ZDARZEN \<equiv> 128"

record KolejkaZdarzen =
  kz_wpisy :: "nat \<Rightarrow> bws_zdarzenie"
  kz_glowa :: nat
  kz_ogon :: nat
  kz_przepelnienia :: u64

definition kolejka_zero :: KolejkaZdarzen where
  "kolejka_zero = \<lparr>kz_wpisy = (\<lambda>_. zdarzenie_zero), kz_glowa = 0, kz_ogon = 0, kz_przepelnienia = 0\<rparr>"

text \<open>The backward search reads the type through a \<open>uint8_t\<close>. Its fuel is the size of the ring.\<close>

definition zdarzenie_zamyka :: "u32 \<Rightarrow> bool" where
  "zdarzenie_zamyka typ \<longleftrightarrow> typ = BWS_ZDARZENIE_MYSZ_DOWN \<or> typ = BWS_ZDARZENIE_MYSZ_UP \<or>
     typ = BWS_ZDARZENIE_MYSZ_PRAWY_DOWN \<or> typ = BWS_ZDARZENIE_MYSZ_PRAWY_UP \<or>
     typ = BWS_ZDARZENIE_KLAWISZ \<or> typ = BWS_ZDARZENIE_FOCUS \<or> typ = BWS_ZDARZENIE_BLUR \<or>
     typ = BWS_ZDARZENIE_ZAMKNIJ"

definition typ_bajt :: "bws_zdarzenie \<Rightarrow> u32" where
  "typ_bajt z = ucast (ucast (zd_typ z) :: u8)"

definition poprzedni_w_pierscieniu :: "nat \<Rightarrow> nat" where
  "poprzedni_w_pierscieniu i = (i + ROZMIAR_KOLEJKI_ZDARZEN - 1) mod ROZMIAR_KOLEJKI_ZDARZEN"

definition nastepny_w_pierscieniu :: "nat \<Rightarrow> nat" where
  "nastepny_w_pierscieniu i = (i + 1) mod ROZMIAR_KOLEJKI_ZDARZEN"

fun szukaj_scalania :: "nat \<Rightarrow> KolejkaZdarzen \<Rightarrow> u32 \<Rightarrow> nat \<Rightarrow> nat option" where
  "szukaj_scalania 0 q typ szukaj = None"
| "szukaj_scalania (Suc paliwo) q typ szukaj =
     (let t = typ_bajt (kz_wpisy q szukaj) in
      if t = typ then Some szukaj
      else if zdarzenie_zamyka t then None
      else if szukaj = kz_ogon q then None
      else szukaj_scalania paliwo q typ (poprzedni_w_pierscieniu szukaj))"

fun szukaj_usuwanego :: "nat \<Rightarrow> KolejkaZdarzen \<Rightarrow> nat \<Rightarrow> nat" where
  "szukaj_usuwanego 0 q usun = kz_glowa q"
| "szukaj_usuwanego (Suc paliwo) q usun =
     (if usun \<noteq> kz_glowa q \<and> zd_typ (kz_wpisy q usun) \<noteq> BWS_ZDARZENIE_MYSZ_RUCH \<and>
         zd_typ (kz_wpisy q usun) \<noteq> BWS_ZDARZENIE_TIMER
      then szukaj_usuwanego paliwo q (nastepny_w_pierscieniu usun)
      else usun)"

fun przesun_wpisy :: "nat \<Rightarrow> nat \<Rightarrow> nat \<Rightarrow> nat \<Rightarrow> (nat \<Rightarrow> bws_zdarzenie) \<Rightarrow> (nat \<Rightarrow> bws_zdarzenie)" where
  "przesun_wpisy 0 glowa i kolejny w = w"
| "przesun_wpisy (Suc paliwo) glowa i kolejny w =
     (if kolejny \<noteq> glowa
      then przesun_wpisy paliwo glowa kolejny (nastepny_w_pierscieniu kolejny) (w(i := w kolejny))
      else w)"

text \<open>The queue's part of \<open>scheduler_dodaj_zdarzenie\<close>: \<open>Scalone\<close> when the event replaced a queued one,
  \<open>Dodane\<close> when it was appended, \<open>Odrzucone\<close> when a full queue held no event to drop.\<close>

datatype wynik_dodania = Scalone | Dodane | Odrzucone

definition dodaj_do_kolejki :: "bws_zdarzenie \<Rightarrow> KolejkaZdarzen \<Rightarrow> wynik_dodania \<times> KolejkaZdarzen" where
  "dodaj_do_kolejki z q =
     (let glowa = kz_glowa q; ogon = kz_ogon q;
          scal = (if (zd_typ z = BWS_ZDARZENIE_MYSZ_RUCH \<or> zd_typ z = BWS_ZDARZENIE_TIMER) \<and> glowa \<noteq> ogon
                  then szukaj_scalania ROZMIAR_KOLEJKI_ZDARZEN q (zd_typ z) (poprzedni_w_pierscieniu glowa)
                  else None)
      in case scal of
        Some szukaj \<Rightarrow> (Scalone, q\<lparr>kz_wpisy := (kz_wpisy q)(szukaj := z)\<rparr>)
      | None \<Rightarrow>
          if nastepny_w_pierscieniu glowa = ogon then
            (let usun = szukaj_usuwanego ROZMIAR_KOLEJKI_ZDARZEN q ogon in
             if usun = glowa
             then (Odrzucone, q\<lparr>kz_przepelnienia := kz_przepelnienia q + 1\<rparr>)
             else let w = przesun_wpisy ROZMIAR_KOLEJKI_ZDARZEN glowa usun (nastepny_w_pierscieniu usun) (kz_wpisy q);
                      glowa' = poprzedni_w_pierscieniu glowa
                  in (Dodane, q\<lparr>kz_wpisy := w(glowa' := z), kz_glowa := nastepny_w_pierscieniu glowa',
                                 kz_przepelnienia := kz_przepelnienia q + 1\<rparr>))
          else (Dodane, q\<lparr>kz_wpisy := (kz_wpisy q)(glowa := z), kz_glowa := nastepny_w_pierscieniu glowa\<rparr>))"

text \<open>The result stands for the event written through the pointer.\<close>

definition pobierz_z_kolejki :: "KolejkaZdarzen \<Rightarrow> bws_zdarzenie option \<times> KolejkaZdarzen" where
  "pobierz_z_kolejki q =
     (if kz_ogon q = kz_glowa q then (None, q)
      else (Some (kz_wpisy q (kz_ogon q)), q\<lparr>kz_ogon := nastepny_w_pierscieniu (kz_ogon q)\<rparr>))"

subsection \<open>The list a queue stands for\<close>

definition kolejka_sprawna :: "KolejkaZdarzen \<Rightarrow> bool" where
  "kolejka_sprawna q \<longleftrightarrow> kz_glowa q < ROZMIAR_KOLEJKI_ZDARZEN \<and> kz_ogon q < ROZMIAR_KOLEJKI_ZDARZEN"

definition lista_kolejki :: "KolejkaZdarzen \<Rightarrow> bws_zdarzenie list" where
  "lista_kolejki q = lista_pierscienia ROZMIAR_KOLEJKI_ZDARZEN (kz_wpisy q) (kz_ogon q) (kz_glowa q)"

definition ulotne :: "bws_zdarzenie \<Rightarrow> bool" where
  "ulotne z \<longleftrightarrow> zd_typ z = BWS_ZDARZENIE_MYSZ_RUCH \<or> zd_typ z = BWS_ZDARZENIE_TIMER"

text \<open>From the newest entry back: the first one of the type, unless a closing event comes before it.\<close>

fun scal_od_konca :: "u32 \<Rightarrow> bws_zdarzenie list \<Rightarrow> nat option" where
  "scal_od_konca typ [] = None"
| "scal_od_konca typ (x # xs) =
     (if typ_bajt x = typ then Some (length xs) else if zdarzenie_zamyka (typ_bajt x) then None else scal_od_konca typ xs)"

fun bez_pierwszego :: "('a \<Rightarrow> bool) \<Rightarrow> 'a list \<Rightarrow> 'a list option" where
  "bez_pierwszego P [] = None"
| "bez_pierwszego P (x # xs) = (if P x then Some xs else map_option (Cons x) (bez_pierwszego P xs))"

definition dodaj_do_listy :: "bws_zdarzenie \<Rightarrow> bws_zdarzenie list \<Rightarrow> wynik_dodania \<times> bws_zdarzenie list" where
  "dodaj_do_listy z xs =
     (case (if ulotne z then scal_od_konca (zd_typ z) (rev xs) else None) of
        Some i \<Rightarrow> (Scalone, xs[i := z])
      | None \<Rightarrow>
          if length xs = ROZMIAR_KOLEJKI_ZDARZEN - 1
          then (case bez_pierwszego ulotne xs of None \<Rightarrow> (Odrzucone, xs) | Some ys \<Rightarrow> (Dodane, ys @ [z]))
          else (Dodane, xs @ [z]))"

subsection \<open>The three scans\<close>

lemma poprzedni:
  "i < 128 \<Longrightarrow> poprzedni_w_pierscieniu i = (if i = 0 then 127 else i - 1)"
  by (cases "i = 0") (auto simp: poprzedni_w_pierscieniu_def mod_if)

lemma poprzedni_pozycji:
  assumes "o1 < 128" "Suc j < 128"
  shows "poprzedni_w_pierscieniu ((o1 + Suc j) mod 128) = (o1 + j) mod 128"
  using assms by (auto simp: poprzedni_w_pierscieniu_def mod_if)

lemma nastepny_pozycji: "nastepny_w_pierscieniu ((o1 + j) mod 128) = (o1 + Suc j) mod 128"
  by (simp add: nastepny_w_pierscieniu_def mod_Suc_eq)

lemma szukaj_scalania_lista:
  assumes s: "kolejka_sprawna q"
  shows "j < length (lista_kolejki q) \<Longrightarrow> j < paliwo \<Longrightarrow>
    szukaj_scalania paliwo q typ ((kz_ogon q + j) mod 128) =
      map_option (\<lambda>i. (kz_ogon q + i) mod 128) (scal_od_konca typ (rev (take (Suc j) (lista_kolejki q))))"
proof (induction j arbitrary: paliwo)
  case 0
  then obtain p where p: "paliwo = Suc p" by (cases paliwo) auto
  have o: "kz_ogon q mod 128 = kz_ogon q" using s by (simp add: kolejka_sprawna_def)
  have t: "take (Suc 0) (lista_kolejki q) = [kz_wpisy q (kz_ogon q)]"
    using 0(1) o by (simp add: take_Suc_conv_app_nth lista_kolejki_def nth_pierscienia)
  show ?case unfolding p t by (simp add: o Let_def)
next
  case (Suc j)
  then obtain p where p: "paliwo = Suc p" by (cases paliwo) auto
  let ?w = "kz_wpisy q ((kz_ogon q + Suc j) mod 128)"
  have oo: "kz_ogon q < 128" and l: "length (lista_kolejki q) < 128"
    using s by (simp_all add: kolejka_sprawna_def lista_kolejki_def)
  have t: "rev (take (Suc (Suc j)) (lista_kolejki q)) = ?w # rev (take (Suc j) (lista_kolejki q))"
    using Suc.prems(1) by (simp add: take_Suc_conv_app_nth lista_kolejki_def nth_pierscienia)
  have r: "(kz_ogon q + Suc j) mod 128 \<noteq> kz_ogon q"
    using pozycje_rozne [OF oo, of "Suc j" 0] Suc.prems(1) l oo by simp
  have ps: "poprzedni_w_pierscieniu ((kz_ogon q + Suc j) mod 128) = (kz_ogon q + j) mod 128"
    by (rule poprzedni_pozycji) (use oo l Suc.prems(1) in linarith)+
  have ih: "szukaj_scalania p q typ ((kz_ogon q + j) mod 128) =
      map_option (\<lambda>i. (kz_ogon q + i) mod 128) (scal_od_konca typ (rev (take (Suc j) (lista_kolejki q))))"
    by (rule Suc.IH) (use Suc.prems p in auto)
  have len: "length (rev (take (Suc j) (lista_kolejki q))) = Suc j" using Suc.prems(1) by simp
  show ?case
    unfolding p t szukaj_scalania.simps Let_def scal_od_konca.simps ps ih len using r by simp
qed

lemma scal_od_konca_zakres: "scal_od_konca typ xs = Some i \<Longrightarrow> i < length xs"
  by (induction xs) (auto split: if_splits)

lemma szukaj_usuwanego_lista:
  assumes s: "kolejka_sprawna q"
  shows "j \<le> length (lista_kolejki q) \<Longrightarrow> length (lista_kolejki q) - j \<le> paliwo \<Longrightarrow>
    szukaj_usuwanego paliwo q ((kz_ogon q + j) mod 128) =
      (kz_ogon q + (j + length (takeWhile (\<lambda>z. \<not> ulotne z) (drop j (lista_kolejki q))))) mod 128"
proof (induction paliwo arbitrary: j)
  case 0
  then show ?case using s koniec_pierscienia [of "kz_ogon q" 128 "kz_glowa q"]
    by (simp add: kolejka_sprawna_def lista_kolejki_def)
next
  case (Suc p)
  let ?xs = "lista_kolejki q"
  have k: "(kz_ogon q + length ?xs) mod 128 = kz_glowa q" "kz_ogon q < 128" "length ?xs < 128"
    using s koniec_pierscienia [of "kz_ogon q" 128 "kz_glowa q"] by (simp_all add: kolejka_sprawna_def lista_kolejki_def)
  show ?case
  proof (cases "j = length ?xs")
    case True then show ?thesis using k by simp
  next
    case False
    then have j: "j < length ?xs" using Suc.prems by simp
    have g: "(kz_ogon q + j) mod 128 \<noteq> kz_glowa q"
      using pozycje_rozne [OF k(2), of j "length ?xs"] k j by simp
    have n: "?xs ! j = kz_wpisy q ((kz_ogon q + j) mod 128)"
      using j by (simp add: lista_kolejki_def nth_pierscienia)
    have d: "drop j ?xs = ?xs ! j # drop (Suc j) ?xs" using j by (rule Cons_nth_drop_Suc [symmetric])
    have ih: "szukaj_usuwanego p q ((kz_ogon q + Suc j) mod 128) =
        (kz_ogon q + (Suc j + length (takeWhile (\<lambda>z. \<not> ulotne z) (drop (Suc j) ?xs)))) mod 128"
      by (rule Suc.IH) (use j Suc.prems in auto)
    show ?thesis
    proof (cases "ulotne (?xs ! j)")
      case True then show ?thesis using d n by (auto simp: ulotne_def)
    next
      case False
      then have "szukaj_usuwanego (Suc p) q ((kz_ogon q + j) mod 128) = szukaj_usuwanego p q ((kz_ogon q + Suc j) mod 128)"
        using n g by (simp add: ulotne_def nastepny_pozycji)
      then show ?thesis using ih d False by simp
    qed
  qed
qed

lemma przesun_wpisy_lista:
  assumes o1: "o1 < 128" and l: "l < 128" and g: "(o1 + l) mod 128 = glowa"
  shows "i < l \<Longrightarrow> l - Suc i \<le> paliwo \<Longrightarrow> k < 128 \<Longrightarrow>
    przesun_wpisy paliwo glowa ((o1 + i) mod 128) ((o1 + Suc i) mod 128) w ((o1 + k) mod 128) =
      (if i \<le> k \<and> Suc k < l then w ((o1 + Suc k) mod 128) else w ((o1 + k) mod 128))"
proof (induction paliwo arbitrary: i w)
  case 0
  then show ?case by auto
next
  case (Suc p)
  show ?case
  proof (cases "Suc i = l")
    case True then show ?thesis using g Suc.prems by auto
  next
    case False
    then have i: "Suc i < l" using Suc.prems by simp
    have ng: "(o1 + Suc i) mod 128 \<noteq> glowa" using pozycje_rozne [OF o1, of "Suc i" l] i l g by simp
    let ?w = "w((o1 + i) mod 128 := w ((o1 + Suc i) mod 128))"
    have r: "(o1 + m) mod 128 = (o1 + i) mod 128 \<longleftrightarrow> m = i" if "m < 128" for m
      by (rule pozycje_rozne [OF o1]) (use that i l in auto)
    have ih: "przesun_wpisy p glowa ((o1 + Suc i) mod 128) ((o1 + Suc (Suc i)) mod 128) ?w ((o1 + k) mod 128) =
        (if Suc i \<le> k \<and> Suc k < l then ?w ((o1 + Suc k) mod 128) else ?w ((o1 + k) mod 128))"
      by (rule Suc.IH) (use i Suc.prems in auto)
    have e: "przesun_wpisy (Suc p) glowa ((o1 + i) mod 128) ((o1 + Suc i) mod 128) w =
        przesun_wpisy p glowa ((o1 + Suc i) mod 128) ((o1 + Suc (Suc i)) mod 128) ?w"
      using ng by (simp only: przesun_wpisy.simps if_True nastepny_pozycji simp_thms)
    show ?thesis unfolding e ih using r [of k] r [of "Suc k"] Suc.prems i l by (auto simp: less_Suc_eq_le le_Suc_eq)
  qed
qed

subsection \<open>The queue implements the list\<close>

lemma bez_pierwszego_takeWhile:
  "bez_pierwszego P xs = (let i = length (takeWhile (\<lambda>x. \<not> P x) xs) in
     if i = length xs then None else Some (take i xs @ drop (Suc i) xs))"
  by (induction xs) (auto simp: Let_def)

lemma bez_pierwszego_filter:
  "bez_pierwszego P xs = Some ys \<Longrightarrow> filter (\<lambda>x. \<not> P x) ys = filter (\<lambda>x. \<not> P x) xs \<and> length xs = Suc (length ys)"
  by (induction xs arbitrary: ys) (auto split: if_splits)

lemma bez_pierwszego_None: "bez_pierwszego P xs = None \<longleftrightarrow> (\<forall>x\<in>set xs. \<not> P x)"
  by (induction xs) auto

lemma kolejka_fakty:
  assumes "kolejka_sprawna q"
  shows "kz_ogon q < 128" "kz_glowa q < 128" "length (lista_kolejki q) < 128"
    "(kz_ogon q + length (lista_kolejki q)) mod 128 = kz_glowa q"
    "lista_kolejki q = [] \<longleftrightarrow> kz_ogon q = kz_glowa q"
    "(kz_glowa q + 1) mod 128 = kz_ogon q \<longleftrightarrow> length (lista_kolejki q) = 127"
proof -
  have a: "kz_ogon q < 128" "kz_glowa q < 128" using assms by (simp_all add: kolejka_sprawna_def)
  show "lista_kolejki q = [] \<longleftrightarrow> kz_ogon q = kz_glowa q"
    using pusty_pierscien [OF a] by (simp add: lista_kolejki_def flip: length_0_conv)
  show "(kz_glowa q + 1) mod 128 = kz_ogon q \<longleftrightarrow> length (lista_kolejki q) = 127"
    using pelny_pierscien [OF a] by (simp add: lista_kolejki_def)
qed (use assms koniec_pierscienia in \<open>simp_all add: kolejka_sprawna_def lista_kolejki_def\<close>)

lemma scalanie_kolejki:
  assumes s: "kolejka_sprawna q" and n: "kz_glowa q \<noteq> kz_ogon q"
  shows "szukaj_scalania 128 q typ (poprzedni_w_pierscieniu (kz_glowa q)) =
    map_option (\<lambda>i. (kz_ogon q + i) mod 128) (scal_od_konca typ (rev (lista_kolejki q)))"
proof -
  note f = kolejka_fakty [OF s]
  obtain j where j: "length (lista_kolejki q) = Suc j" using f(5) n by (cases "lista_kolejki q") auto
  have p: "poprzedni_w_pierscieniu (kz_glowa q) = (kz_ogon q + j) mod 128"
    using poprzedni_pozycji [OF f(1), of j] f(3,4) j by simp
  show ?thesis unfolding p using szukaj_scalania_lista [OF s, of j 128 "typ"] f(3) j by simp
qed

lemma wyrzucenie_z_kolejki:
  assumes s: "kolejka_sprawna q" and l: "length (lista_kolejki q) = 127"
    and i: "i < 127" and w: "w = przesun_wpisy 128 (kz_glowa q) ((kz_ogon q + i) mod 128) ((kz_ogon q + Suc i) mod 128) (kz_wpisy q)"
  shows "lista_pierscienia 128 (w(poprzedni_w_pierscieniu (kz_glowa q) := z)) (kz_ogon q) (kz_glowa q) =
    take i (lista_kolejki q) @ drop (Suc i) (lista_kolejki q) @ [z]"
proof (rule nth_equalityI)
  note f = kolejka_fakty [OF s]
  have d: "dlugosc_pierscienia 128 (kz_ogon q) (kz_glowa q) = 127" using l by (simp add: lista_kolejki_def)
  have p: "poprzedni_w_pierscieniu (kz_glowa q) = (kz_ogon q + 126) mod 128"
    using poprzedni_pozycji [OF f(1), of 126] f(4) l by simp
  show "length (lista_pierscienia 128 (w(poprzedni_w_pierscieniu (kz_glowa q) := z)) (kz_ogon q) (kz_glowa q)) =
    length (take i (lista_kolejki q) @ drop (Suc i) (lista_kolejki q) @ [z])" using d l i by simp
  fix k assume "k < length (lista_pierscienia 128 (w(poprzedni_w_pierscieniu (kz_glowa q) := z)) (kz_ogon q) (kz_glowa q))"
  then have k: "k < 127" using d by simp
  have r: "(kz_ogon q + k) mod 128 = (kz_ogon q + 126) mod 128 \<longleftrightarrow> k = 126"
    by (rule pozycje_rozne [OF f(1)]) (use k in auto)
  have x: "m < 127 \<Longrightarrow> kz_wpisy q ((kz_ogon q + m) mod 128) = lista_kolejki q ! m" for m
    using d by (simp add: lista_kolejki_def nth_pierscienia)
  have v: "w ((kz_ogon q + k) mod 128) = (if i \<le> k \<and> Suc k < 127 then lista_kolejki q ! Suc k else lista_kolejki q ! k)"
    unfolding w using przesun_wpisy_lista [OF f(1) _ f(4), of i 128 k "kz_wpisy q"] l i k x [of k] x [of "Suc k"] by auto
  have "lista_pierscienia 128 (w(poprzedni_w_pierscieniu (kz_glowa q) := z)) (kz_ogon q) (kz_glowa q) ! k =
      (if k = 126 then z else w ((kz_ogon q + k) mod 128))"
    using d k r p by (simp add: nth_pierscienia)
  then show "lista_pierscienia 128 (w(poprzedni_w_pierscieniu (kz_glowa q) := z)) (kz_ogon q) (kz_glowa q) ! k =
      (take i (lista_kolejki q) @ drop (Suc i) (lista_kolejki q) @ [z]) ! k"
    using v i k l by (auto simp: nth_append)
qed

lemma dodaj_do_kolejki_lista:
  assumes s: "kolejka_sprawna q"
  shows "kolejka_sprawna (snd (dodaj_do_kolejki z q)) \<and>
    dodaj_do_listy z (lista_kolejki q) = (fst (dodaj_do_kolejki z q), lista_kolejki (snd (dodaj_do_kolejki z q)))"
proof -
  note f = kolejka_fakty [OF s]
  let ?xs = "lista_kolejki q"
  define scal where "scal = (if (zd_typ z = BWS_ZDARZENIE_MYSZ_RUCH \<or> zd_typ z = BWS_ZDARZENIE_TIMER) \<and> kz_glowa q \<noteq> kz_ogon q
                  then szukaj_scalania 128 q (zd_typ z) (poprzedni_w_pierscieniu (kz_glowa q)) else None)"
  have scal_eq: "scal = map_option (\<lambda>i. (kz_ogon q + i) mod 128) (if ulotne z then scal_od_konca (zd_typ z) (rev ?xs) else None)"
  proof (cases "ulotne z \<and> kz_glowa q \<noteq> kz_ogon q")
    case True then show ?thesis using scalanie_kolejki [OF s] by (auto simp: scal_def ulotne_def)
  next
    case False
    then have "\<not> ulotne z \<or> ?xs = []" using f(5) by auto
    then show ?thesis using False by (auto simp: scal_def ulotne_def)
  qed
  have dodaj: "dodaj_do_kolejki z q = (case scal of
        Some szukaj \<Rightarrow> (Scalone, q\<lparr>kz_wpisy := (kz_wpisy q)(szukaj := z)\<rparr>)
      | None \<Rightarrow>
          if nastepny_w_pierscieniu (kz_glowa q) = kz_ogon q then
            (let usun = szukaj_usuwanego ROZMIAR_KOLEJKI_ZDARZEN q (kz_ogon q) in
             if usun = kz_glowa q
             then (Odrzucone, q\<lparr>kz_przepelnienia := kz_przepelnienia q + 1\<rparr>)
             else let w = przesun_wpisy ROZMIAR_KOLEJKI_ZDARZEN (kz_glowa q) usun (nastepny_w_pierscieniu usun) (kz_wpisy q);
                      glowa' = poprzedni_w_pierscieniu (kz_glowa q)
                  in (Dodane, q\<lparr>kz_wpisy := w(glowa' := z), kz_glowa := nastepny_w_pierscieniu glowa',
                                 kz_przepelnienia := kz_przepelnienia q + 1\<rparr>))
          else (Dodane, q\<lparr>kz_wpisy := (kz_wpisy q)(kz_glowa q := z), kz_glowa := nastepny_w_pierscieniu (kz_glowa q)\<rparr>))"
    unfolding dodaj_do_kolejki_def Let_def scal_def by simp
  show ?thesis
  proof (cases "if ulotne z then scal_od_konca (zd_typ z) (rev ?xs) else None")
    case (Some i)
    then have "i < length ?xs" using scal_od_konca_zakres [of "zd_typ z" "rev ?xs" i] by (auto split: if_splits)
    then have "lista_pierscienia 128 ((kz_wpisy q)((kz_ogon q + i) mod 128 := z)) (kz_ogon q) (kz_glowa q) = ?xs[i := z]"
      using podmiana_wpisu [OF f(1)] by (simp add: lista_kolejki_def)
    then show ?thesis using Some scal_eq s unfolding dodaj dodaj_do_listy_def
      by (simp add: kolejka_sprawna_def lista_kolejki_def)
  next
    case None
    then have sn: "scal = None" using scal_eq by simp
    show ?thesis
    proof (cases "length ?xs = 127")
      case False
      then have np: "(kz_glowa q + 1) mod 128 \<noteq> kz_ogon q" using f(6) by simp
      then show ?thesis using None f(1,2) sn False dopisanie [OF f(1,2) np, of "kz_wpisy q" z] unfolding dodaj dodaj_do_listy_def
        by (simp add: nastepny_w_pierscieniu_def kolejka_sprawna_def lista_kolejki_def)
    next
      case True
      define i where "i = length (takeWhile (\<lambda>z. \<not> ulotne z) ?xs)"
      have pelna: "nastepny_w_pierscieniu (kz_glowa q) = kz_ogon q" using f(6) True by (simp add: nastepny_w_pierscieniu_def)
      have u: "szukaj_usuwanego 128 q (kz_ogon q) = (kz_ogon q + i) mod 128"
        using szukaj_usuwanego_lista [OF s, of 0 128] True f(1) by (simp add: i_def)
      have i_le: "i \<le> 127" using length_takeWhile_le [of "\<lambda>z. \<not> ulotne z" ?xs] True by (simp add: i_def)
      have ug: "(kz_ogon q + i) mod 128 = kz_glowa q \<longleftrightarrow> i = 127"
        using pozycje_rozne [OF f(1), of i 127] i_le f(4) True by simp
      have b: "bez_pierwszego ulotne ?xs = (if i = 127 then None else Some (take i ?xs @ drop (Suc i) ?xs))"
        unfolding bez_pierwszego_takeWhile using True by (simp add: i_def Let_def)
      show ?thesis
      proof (cases "i = 127")
        case True
        then have "dodaj_do_kolejki z q = (Odrzucone, q\<lparr>kz_przepelnienia := kz_przepelnienia q + 1\<rparr>)"
          unfolding dodaj sn using pelna u ug by simp
        then show ?thesis using None True b s \<open>length ?xs = 127\<close> unfolding dodaj_do_listy_def
          by (simp add: kolejka_sprawna_def lista_kolejki_def)
      next
        case False
        then have i: "i < 127" using i_le by simp
        define w where "w = przesun_wpisy 128 (kz_glowa q) ((kz_ogon q + i) mod 128) ((kz_ogon q + Suc i) mod 128) (kz_wpisy q)"
        have gg: "nastepny_w_pierscieniu (poprzedni_w_pierscieniu (kz_glowa q)) = kz_glowa q"
          using f(2) by (auto simp: poprzedni nastepny_w_pierscieniu_def)
        have d: "dodaj_do_kolejki z q = (Dodane, q\<lparr>kz_wpisy := w(poprzedni_w_pierscieniu (kz_glowa q) := z), kz_glowa := kz_glowa q,
            kz_przepelnienia := kz_przepelnienia q + 1\<rparr>)"
          unfolding dodaj sn using pelna u ug False gg by (simp add: Let_def w_def nastepny_pozycji)
        have "bez_pierwszego ulotne ?xs = Some (take i ?xs @ drop (Suc i) ?xs)" using b False by simp
        then have l: "dodaj_do_listy z ?xs = (Dodane, (take i ?xs @ drop (Suc i) ?xs) @ [z])"
          unfolding dodaj_do_listy_def using None True by simp
        have "kolejka_sprawna (snd (dodaj_do_kolejki z q))" using s unfolding d by (simp add: kolejka_sprawna_def)
        moreover have "lista_kolejki (snd (dodaj_do_kolejki z q)) = take i ?xs @ drop (Suc i) ?xs @ [z]"
          unfolding d using wyrzucenie_z_kolejki [OF s True i w_def] by (simp add: lista_kolejki_def)
        ultimately show ?thesis unfolding l by (simp add: d)
      qed
    qed
  qed
qed

lemma pobierz_z_kolejki_lista:
  assumes s: "kolejka_sprawna q"
  shows "kolejka_sprawna (snd (pobierz_z_kolejki q)) \<and>
    (case lista_kolejki q of
       [] \<Rightarrow> pobierz_z_kolejki q = (None, q)
     | z # zs \<Rightarrow> fst (pobierz_z_kolejki q) = Some z \<and> lista_kolejki (snd (pobierz_z_kolejki q)) = zs)"
proof (cases "kz_ogon q = kz_glowa q")
  case True
  then show ?thesis using kolejka_fakty(5) [OF s] s by (simp add: pobierz_z_kolejki_def)
next
  case False
  note f = kolejka_fakty [OF s]
  show ?thesis using pobranie [OF f(1,2) False, of "kz_wpisy q"] f(1,2) False
    by (simp add: pobierz_z_kolejki_def nastepny_w_pierscieniu_def lista_kolejki_def kolejka_sprawna_def)
qed

end
