(* ===== verification/Planista.thy ===== *)
theory Planista
  imports Sterta_Alokator Vmm Zdarzenia
begin

section \<open>The scheduler\<close>

text \<open>
  \<open>scheduler.cpp\<close> with the process descriptor and the trust levels of \<open>pzb.h\<close>; the event queues are
  those of \<open>Zdarzenia\<close>. The state holds the globals of the file, the CPU's TSS.rsp0, and the states of
  the two allocators it calls: the VMM (CR3, address spaces) and the kernel heap (stacks). The
  interrupt flag is left out: every operation runs with interrupts off.
\<close>

subsection \<open>Processes and trust levels\<close>

definition PZB_JADRO :: u8 where "PZB_JADRO = 0"
definition PZB_PIASKOWNICA :: u8 where "PZB_PIASKOWNICA = 5"
definition PZB_MAX_POZIOM :: u8 where "PZB_MAX_POZIOM = PZB_PIASKOWNICA"
definition PRAWA_BRAK :: u64 where "PRAWA_BRAK = 0"
definition PRAWA_ZNANE :: u64 where "PRAWA_ZNANE = 0xFF"

abbreviation PZB_DLUGOSC_SCIEZKI_PROCESU :: nat where "PZB_DLUGOSC_SCIEZKI_PROCESU \<equiv> 64"
abbreviation MAKS_PROCESOW :: nat where "MAKS_PROCESOW \<equiv> 16"

text \<open>The path is the array of its characters; a null pointer is 0.\<close>

record proces_t =
  pr_pid :: u64
  pr_poziom :: u8
  pr_uprawnienia :: u64
  pr_przestrzen :: u64
  pr_rsp :: u64
  pr_baza :: u64
  pr_szczyt :: u64
  pr_cr3 :: u64
  pr_granica :: u64
  pr_sciezka :: "nat \<Rightarrow> u8"
  pr_stan :: int

abbreviation PROCES_PUSTY :: int where "PROCES_PUSTY \<equiv> 0"
abbreviation PROCES_GOTOWY :: int where "PROCES_GOTOWY \<equiv> 1"
abbreviation PROCES_ZABLOKOWANY :: int where "PROCES_ZABLOKOWANY \<equiv> 2"
abbreviation PROCES_ZABLOKOWANY_MYSZ :: int where "PROCES_ZABLOKOWANY_MYSZ \<equiv> 3"
abbreviation PROCES_ZABLOKOWANY_ZDARZENIE :: int where "PROCES_ZABLOKOWANY_ZDARZENIE \<equiv> 4"
abbreviation PROCES_ZABLOKOWANY_KLAWIATURA :: int where "PROCES_ZABLOKOWANY_KLAWIATURA \<equiv> 5"
abbreviation PROCES_KONCZACY :: int where "PROCES_KONCZACY \<equiv> 6"

definition pzb_poziom_poprawny :: "u8 \<Rightarrow> bool" where
  "pzb_poziom_poprawny poziom \<longleftrightarrow> poziom \<le> PZB_MAX_POZIOM"

definition pzb_maska_praw_poprawna :: "u64 \<Rightarrow> bool" where
  "pzb_maska_praw_poprawna prawa \<longleftrightarrow> prawa AND NOT PRAWA_ZNANE = 0"

definition pzb_ma_prawa :: "proces_t option \<Rightarrow> u64 \<Rightarrow> bool" where
  "pzb_ma_prawa proces wymagane \<longleftrightarrow> (case proces of None \<Rightarrow> False
     | Some p \<Rightarrow> pzb_maska_praw_poprawna (pr_uprawnienia p) \<and> pr_uprawnienia p AND wymagane = wymagane)"

definition pzb_ma_jakiekolwiek_prawo :: "proces_t option \<Rightarrow> u64 \<Rightarrow> bool" where
  "pzb_ma_jakiekolwiek_prawo proces maska \<longleftrightarrow> (case proces of None \<Rightarrow> False
     | Some p \<Rightarrow> maska \<noteq> 0 \<and> pzb_maska_praw_poprawna (pr_uprawnienia p) \<and> pr_uprawnienia p AND maska \<noteq> 0)"

definition pzb_ma_co_najmniej_poziom :: "proces_t option \<Rightarrow> u8 \<Rightarrow> bool" where
  "pzb_ma_co_najmniej_poziom proces maksymalny \<longleftrightarrow> (case proces of None \<Rightarrow> False
     | Some p \<Rightarrow> pzb_poziom_poprawny (pr_poziom p) \<and> pzb_poziom_poprawny maksymalny \<and> pr_poziom p \<le> maksymalny)"

definition sciezka_zakonczona :: "(nat \<Rightarrow> u8) \<Rightarrow> bool" where
  "sciezka_zakonczona sciezka \<longleftrightarrow> list_ex (\<lambda>i. sciezka i = 0) [0 ..< PZB_DLUGOSC_SCIEZKI_PROCESU]"

definition pzb_podstawowy_deskryptor_poprawny :: "proces_t option \<Rightarrow> bool" where
  "pzb_podstawowy_deskryptor_poprawny proces \<longleftrightarrow> (case proces of None \<Rightarrow> False
     | Some p \<Rightarrow>
       if \<not> pzb_poziom_poprawny (pr_poziom p) then False
       else if \<not> pzb_maska_praw_poprawna (pr_uprawnienia p) then False
       else if pr_pid p \<noteq> 0 then
         (if pr_przestrzen p = 0 \<or> pr_cr3 p = 0 \<or> pr_baza p = 0 \<or> pr_szczyt p = 0 then False
          else if pr_szczyt p \<le> pr_baza p then False
          else sciezka_zakonczona (pr_sciezka p))
       else True)"

subsection \<open>Events and the state of the scheduler\<close>

record ZasobyDoZwolnienia =
  zas_przestrzen :: u64
  zas_baza :: u64
  zas_oczekuje :: bool

definition zasoby_zero :: ZasobyDoZwolnienia where
  "zasoby_zero = \<lparr>zas_przestrzen = 0, zas_baza = 0, zas_oczekuje = False\<rparr>"

record planista =
  pl_tablica :: "nat \<Rightarrow> proces_t"
  pl_aktualny :: int
  pl_wielozadaniowosc :: bool
  pl_zdarzenia_myszy :: u64
  pl_ostatnie_zdarzenie :: "nat \<Rightarrow> u64"
  pl_tykniecia :: u64
  pl_irq_timera :: u64
  pl_przelaczenia :: u64
  pl_wybudzenia :: u64
  pl_termin :: "nat \<Rightarrow> u64"
  pl_kolejki :: "nat \<Rightarrow> KolejkaZdarzen"
  pl_zasoby :: "nat \<Rightarrow> ZasobyDoZwolnienia"
  pl_aktywny :: proces_t
  pl_tss_rsp0 :: u64
  pl_bezpieczny_stos :: u64
  pl_vmm :: vmm
  pl_sterta :: sterta

abbreviation TIMEOUT_MYSZY_TICKI :: u64 where "TIMEOUT_MYSZY_TICKI \<equiv> 20"

definition odczytaj_cr3 :: "planista \<Rightarrow> u64" where
  "odczytaj_cr3 s = vm_cr3 (pl_vmm s) AND 0x000FFFFFFFFFF000"

definition stan_pid :: "planista \<Rightarrow> nat \<Rightarrow> int" where
  "stan_pid s pid = pr_stan (pl_tablica s pid)"

definition ustaw_proces :: "planista \<Rightarrow> nat \<Rightarrow> proces_t \<Rightarrow> planista" where
  "ustaw_proces s pid p = s\<lparr>pl_tablica := (pl_tablica s)(pid := p)\<rparr>"

definition ustaw_stan_procesu :: "planista \<Rightarrow> nat \<Rightarrow> int \<Rightarrow> planista" where
  "ustaw_stan_procesu s pid stan = ustaw_proces s pid ((pl_tablica s pid)\<lparr>pr_stan := stan\<rparr>)"

definition pid_poprawny :: "int \<Rightarrow> bool" where
  "pid_poprawny pid \<longleftrightarrow> 0 \<le> pid \<and> pid < int MAKS_PROCESOW"

definition pid_uzytkownika :: "int \<Rightarrow> bool" where
  "pid_uzytkownika pid \<longleftrightarrow> 0 < pid \<and> pid < int MAKS_PROCESOW"

definition cr3_poprawne :: "u64 \<Rightarrow> bool" where
  "cr3_poprawne cr3 \<longleftrightarrow> cr3 \<noteq> 0 \<and> cr3 AND 0xFFF = 0"

definition stos_jadra_procesu_poprawny :: "proces_t \<Rightarrow> bool" where
  "stos_jadra_procesu_poprawny p =
     (if pr_szczyt p = 0 then False
      else if pr_szczyt p AND 0xF \<noteq> 0 then False
      else if pr_pid p = 0 then True
      else if pr_baza p = 0 \<or> pr_szczyt p \<le> pr_baza p then False
      else if pr_rsp p < pr_baza p \<or> pr_rsp p \<ge> pr_szczyt p then False
      else True)"

definition proces_moze_byc_uruchomiony :: "planista \<Rightarrow> int \<Rightarrow> bool" where
  "proces_moze_byc_uruchomiony s pid =
     (if \<not> pid_poprawny pid then False
      else let p = pl_tablica s (nat pid) in
      if pr_stan p \<noteq> PROCES_GOTOWY then False
      else if pr_rsp p = 0 then False
      else if \<not> cr3_poprawne (pr_cr3 p) then False
      else if \<not> stos_jadra_procesu_poprawny p then False
      else if pid_uzytkownika pid then
        (if pr_przestrzen p = 0 then False
         else if pr_poziom p > PZB_MAX_POZIOM then False else True)
      else True)"

subsection \<open>Paths\<close>

fun sciezki_rowne_od :: "nat \<Rightarrow> (nat \<Rightarrow> u8) \<Rightarrow> (nat \<Rightarrow> u8) \<Rightarrow> nat \<Rightarrow> bool" where
  "sciezki_rowne_od 0 a b i = False"
| "sciezki_rowne_od (Suc n) a b i =
     (if a i \<noteq> b i then False else if a i = 0 then True else sciezki_rowne_od n a b (i + 1))"

definition sciezki_rowne :: "(nat \<Rightarrow> u8) \<Rightarrow> (nat \<Rightarrow> u8) \<Rightarrow> bool" where
  "sciezki_rowne a b = sciezki_rowne_od PZB_DLUGOSC_SCIEZKI_PROCESU a b 0"

definition sciezka_wejsciowa_poprawna :: "(nat \<Rightarrow> u8) \<Rightarrow> bool" where
  "sciezka_wejsciowa_poprawna sciezka =
     (case find (\<lambda>i. sciezka i = 0) [0 ..< PZB_DLUGOSC_SCIEZKI_PROCESU] of None \<Rightarrow> False | Some i \<Rightarrow> i \<noteq> 0)"

definition czy_proces_uruchomiony :: "planista \<Rightarrow> (nat \<Rightarrow> u8) option \<Rightarrow> bool" where
  "czy_proces_uruchomiony s sciezka =
     (case sciezka of None \<Rightarrow> False
      | Some b \<Rightarrow>
        if \<not> sciezka_wejsciowa_poprawna b then False
        else list_ex (\<lambda>pid. stan_pid s pid \<noteq> PROCES_PUSTY \<and> stan_pid s pid \<noteq> PROCES_KONCZACY \<and>
                            sciezki_rowne (pr_sciezka (pl_tablica s pid)) b) [1 ..< MAKS_PROCESOW])"


subsection \<open>Waiting for the mouse\<close>

definition tick_osiagnal_termin :: "u64 \<Rightarrow> u64 \<Rightarrow> bool" where
  "tick_osiagnal_termin teraz termin \<longleftrightarrow> sint (teraz - termin) \<ge> 0"

definition obsluz_timeouty_myszy :: "planista \<Rightarrow> planista" where
  "obsluz_timeouty_myszy s = foldl (\<lambda>s pid.
     if stan_pid s pid \<noteq> PROCES_ZABLOKOWANY_MYSZ then s
     else if \<not> tick_osiagnal_termin (pl_tykniecia s) (pl_termin s pid) then s
     else ustaw_stan_procesu s pid PROCES_GOTOWY) s [1 ..< MAKS_PROCESOW]"

definition ZablokujAktualnyProcesNaMyszy :: "planista \<Rightarrow> planista" where
  "ZablokujAktualnyProcesNaMyszy s =
     (if \<not> pid_uzytkownika (pl_aktualny s) then s
      else let pid = nat (pl_aktualny s) in
      if stan_pid s pid \<noteq> PROCES_GOTOWY then s
      else if pl_ostatnie_zdarzenie s pid \<noteq> pl_zdarzenia_myszy s
      then s\<lparr>pl_ostatnie_zdarzenie := (pl_ostatnie_zdarzenie s)(pid := pl_zdarzenia_myszy s)\<rparr>
      else ustaw_stan_procesu
             (s\<lparr>pl_termin := (pl_termin s)(pid := pl_tykniecia s + TIMEOUT_MYSZY_TICKI)\<rparr>)
             pid PROCES_ZABLOKOWANY_MYSZ)"

definition wybudz_czekajace :: "int \<Rightarrow> planista \<Rightarrow> planista" where
  "wybudz_czekajace stan s = foldl (\<lambda>s pid.
     if stan_pid s pid = stan then ustaw_stan_procesu s pid PROCES_GOTOWY else s) s [1 ..< MAKS_PROCESOW]"

definition WybudzProcesyOczekujaceNaMysz :: "planista \<Rightarrow> planista" where
  "WybudzProcesyOczekujaceNaMysz s =
     wybudz_czekajace PROCES_ZABLOKOWANY_MYSZ (s\<lparr>pl_zdarzenia_myszy := pl_zdarzenia_myszy s + 1\<rparr>)"

subsection \<open>The event queues\<close>

definition ustaw_kolejke :: "planista \<Rightarrow> nat \<Rightarrow> KolejkaZdarzen \<Rightarrow> planista" where
  "ustaw_kolejke s pid q = s\<lparr>pl_kolejki := (pl_kolejki s)(pid := q)\<rparr>"

definition scheduler_dodaj_zdarzenie :: "planista \<Rightarrow> int \<Rightarrow> bws_zdarzenie option \<Rightarrow> bool \<times> planista" where
  "scheduler_dodaj_zdarzenie s pid zdarzenie =
     (if \<not> pid_uzytkownika pid then (False, s)
      else case zdarzenie of None \<Rightarrow> (False, s)
      | Some z \<Rightarrow>
        (case dodaj_do_kolejki z (pl_kolejki s (nat pid)) of
           (Odrzucone, q) \<Rightarrow> (False, ustaw_kolejke s (nat pid) q)
         | (Scalone, q) \<Rightarrow>
             let s1 = ustaw_kolejke s (nat pid) q in
             (True, if stan_pid s1 (nat pid) = PROCES_ZABLOKOWANY_ZDARZENIE
                    then ustaw_stan_procesu s1 (nat pid) PROCES_GOTOWY else s1)
         | (Dodane, q) \<Rightarrow>
             let s1 = ustaw_kolejke s (nat pid) q in
             (True, if stan_pid s1 (nat pid) = PROCES_ZABLOKOWANY_ZDARZENIE
                    then (ustaw_stan_procesu s1 (nat pid) PROCES_GOTOWY)\<lparr>pl_wybudzenia := pl_wybudzenia s1 + 1\<rparr>
                    else s1)))"

definition scheduler_pobierz_zdarzenie :: "planista \<Rightarrow> int \<Rightarrow> bws_zdarzenie option \<times> planista" where
  "scheduler_pobierz_zdarzenie s pid =
     (if \<not> pid_uzytkownika pid then (None, s)
      else (case pobierz_z_kolejki (pl_kolejki s (nat pid)) of
              (None, q) \<Rightarrow> (None, s)
            | (Some z, q) \<Rightarrow> (Some z, ustaw_kolejke s (nat pid) q)))"

definition scheduler_czekaj_na_zdarzenie :: "planista \<Rightarrow> int \<Rightarrow> planista" where
  "scheduler_czekaj_na_zdarzenie s pid =
     (if \<not> pid_uzytkownika pid then s
      else let q = pl_kolejki s (nat pid) in
      if kz_ogon q = kz_glowa q \<and> stan_pid s (nat pid) = PROCES_GOTOWY
      then ustaw_stan_procesu s (nat pid) PROCES_ZABLOKOWANY_ZDARZENIE else s)"

definition scheduler_usun_zdarzenia_procesu :: "planista \<Rightarrow> int \<Rightarrow> planista" where
  "scheduler_usun_zdarzenia_procesu s pid =
     (if \<not> pid_uzytkownika pid then s else ustaw_kolejke s (nat pid) kolejka_zero)"

subsection \<open>Waiting for the keyboard\<close>

definition scheduler_czekaj_na_klawiature :: "planista \<Rightarrow> int \<Rightarrow> planista" where
  "scheduler_czekaj_na_klawiature s pid =
     (if \<not> pid_uzytkownika pid then s
      else if stan_pid s (nat pid) = PROCES_GOTOWY
      then ustaw_stan_procesu s (nat pid) PROCES_ZABLOKOWANY_KLAWIATURA else s)"

text \<open>\<open>znak\<close> is what \<open>pobierz_znak_klawiatury\<close> returns, 0 when no key waits.\<close>

definition scheduler_pobierz_klawisz_lub_zablokuj :: "planista \<Rightarrow> int \<Rightarrow> u8 \<Rightarrow> u8 \<times> planista" where
  "scheduler_pobierz_klawisz_lub_zablokuj s pid znak =
     (if \<not> pid_uzytkownika pid then (0, s)
      else (znak, if znak = 0 \<and> stan_pid s (nat pid) = PROCES_GOTOWY
                  then ustaw_stan_procesu s (nat pid) PROCES_ZABLOKOWANY_KLAWIATURA else s))"

definition scheduler_wybudz_klawiature :: "planista \<Rightarrow> planista" where
  "scheduler_wybudz_klawiature s = wybudz_czekajace PROCES_ZABLOKOWANY_KLAWIATURA s"

definition scheduler_zarejestruj_irq_timera :: "planista \<Rightarrow> planista" where
  "scheduler_zarejestruj_irq_timera s = s\<lparr>pl_irq_timera := pl_irq_timera s + 1\<rparr>"

subsection \<open>Deferred clean-up\<close>

text \<open>\<open>kfree\<close> always returns (lemma \<open>kfree_zawsze\<close> below); the VMM's hook exists in this kernel.\<close>

definition zwolnij_stos :: "planista \<Rightarrow> u64 \<Rightarrow> planista" where
  "zwolnij_stos s p = s\<lparr>pl_sterta := the (kfree (pl_sterta s) p)\<rparr>"

definition posprzataj_pid :: "u64 \<Rightarrow> planista \<Rightarrow> nat \<Rightarrow> planista" where
  "posprzataj_pid biezacy_cr3 s pid =
     (let z = pl_zasoby s pid;
          stare_cr3 = zas_przestrzen z AND 0x000FFFFFFFFFF000;
          zniszcz = (zas_przestrzen z \<noteq> 0 \<and> stare_cr3 \<noteq> 0 \<and> stare_cr3 \<noteq> biezacy_cr3);
          s1 = (if zniszcz then s\<lparr>pl_vmm := ZniszczPrzestrzenAdresowaProcesu (pl_vmm s) (zas_przestrzen z)\<rparr> else s);
          z1 = (if zniszcz then z\<lparr>zas_przestrzen := 0\<rparr> else z);
          s2 = (if zas_baza z \<noteq> 0 then zwolnij_stos s1 (zas_baza z) else s1);
          z2 = z1\<lparr>zas_baza := 0, zas_oczekuje := False\<rparr>;
          p = pl_tablica s2 pid
      in ustaw_proces (s2\<lparr>pl_zasoby := (pl_zasoby s2)(pid := z2)\<rparr>) pid
           (p\<lparr>pr_sciezka := (pr_sciezka p)(0 := 0), pr_przestrzen := 0, pr_rsp := 0, pr_baza := 0, pr_szczyt := 0,
              pr_stan := PROCES_PUSTY\<rparr>))"

definition posprzataj_zakonczone_procesy :: "planista \<Rightarrow> int \<Rightarrow> planista" where
  "posprzataj_zakonczone_procesy s pid_biezacy =
     (let biezacy_cr3 = odczytaj_cr3 s in
      foldl (\<lambda>s pid. if int pid = pid_biezacy then s
                      else if \<not> zas_oczekuje (pl_zasoby s pid) then s
                      else posprzataj_pid biezacy_cr3 s pid) s [1 ..< MAKS_PROCESOW])"


subsection \<open>Slots and the choice of the next process\<close>

definition wyzeruj_slot_procesu :: "u64 \<Rightarrow> proces_t" where
  "wyzeruj_slot_procesu pid =
     \<lparr>pr_pid = pid, pr_poziom = PZB_PIASKOWNICA, pr_uprawnienia = PRAWA_BRAK, pr_przestrzen = 0, pr_rsp = 0,
      pr_baza = 0, pr_szczyt = 0, pr_cr3 = 0, pr_granica = 0, pr_sciezka = (\<lambda>_. 0), pr_stan = PROCES_PUSTY\<rparr>"

definition znajdz_nastepny_proces :: "planista \<Rightarrow> int \<Rightarrow> int" where
  "znajdz_nastepny_proces s biezacy =
     (if \<not> pid_poprawny biezacy then (if proces_moze_byc_uruchomiony s 0 then 0 else -1)
      else case find (\<lambda>krok. proces_moze_byc_uruchomiony s ((biezacy + int krok) mod int MAKS_PROCESOW))
                  [1 ..< MAKS_PROCESOW + 1] of
             None \<Rightarrow> -1
           | Some krok \<Rightarrow> (biezacy + int krok) mod int MAKS_PROCESOW)"

definition InicjalizujPlaniste :: "planista \<Rightarrow> u64 \<Rightarrow> u64 \<Rightarrow> planista" where
  "InicjalizujPlaniste s kernel_rsp0 cr3 =
     (let s1 = s\<lparr>pl_wielozadaniowosc := False, pl_aktualny := -1, pl_tykniecia := 0, pl_zdarzenia_myszy := 1,
            pl_tablica := (\<lambda>i. if i < MAKS_PROCESOW then wyzeruj_slot_procesu (of_nat i) else pl_tablica s i),
            pl_ostatnie_zdarzenie := (\<lambda>i. if i < MAKS_PROCESOW then 0 else pl_ostatnie_zdarzenie s i),
            pl_termin := (\<lambda>i. if i < MAKS_PROCESOW then 0 else pl_termin s i),
            pl_kolejki := (\<lambda>i. if i < MAKS_PROCESOW then kolejka_zero else pl_kolejki s i),
            pl_zasoby := (\<lambda>i. if i < MAKS_PROCESOW then zasoby_zero else pl_zasoby s i)\<rparr>;
          czysty_cr3 = cr3 AND 0x000FFFFFFFFFF000
      in if kernel_rsp0 = 0 \<or> kernel_rsp0 AND 0xF \<noteq> 0 \<or> \<not> cr3_poprawne czysty_cr3 then s1
         else let jadro = (pl_tablica s1 0)\<lparr>pr_pid := 0, pr_poziom := PZB_JADRO, pr_uprawnienia := PRAWA_ZNANE,
                    pr_przestrzen := czysty_cr3, pr_rsp := 0, pr_baza := 0, pr_szczyt := kernel_rsp0, pr_cr3 := czysty_cr3,
                    pr_granica := 0, pr_sciezka := (pr_sciezka (pl_tablica s1 0))(0 := 0), pr_stan := PROCES_GOTOWY\<rparr>
           in (ustaw_proces s1 0 jadro)\<lparr>pl_aktualny := 0, pl_aktywny := jadro, pl_tss_rsp0 := kernel_rsp0,
                pl_bezpieczny_stos := kernel_rsp0\<rparr>)"

subsection \<open>The context switch\<close>

text \<open>The last part of \<open>PrzelaczKontekst\<close>: the CPU moves to the process \<open>nastepny\<close>.\<close>

definition ustaw_stos_jadra :: "planista \<Rightarrow> u64 \<Rightarrow> planista" where
  "ustaw_stos_jadra s rsp0 = s\<lparr>pl_tss_rsp0 := rsp0, pl_bezpieczny_stos := rsp0\<rparr>"

definition przejdz_do :: "planista \<Rightarrow> u64 \<Rightarrow> nat \<Rightarrow> int \<Rightarrow> u64 \<times> planista" where
  "przejdz_do s stary_rsp stary_pid nastepny_pid =
     (let nastepny = pl_tablica s (nat nastepny_pid);
          nowy_rsp = pr_rsp nastepny;
          nowy_rsp0 = pr_szczyt nastepny;
          nowy_cr3 = pr_cr3 nastepny AND 0x000FFFFFFFFFF000
      in if nowy_rsp = 0 \<or> nowy_rsp0 = 0 \<or> \<not> cr3_poprawne nowy_cr3 then (stary_rsp, s)
         else let s1 = ustaw_stos_jadra s nowy_rsp0;
                  s2 = (if nowy_cr3 \<noteq> odczytaj_cr3 s1
                        then s1\<lparr>pl_vmm := UstawPrzestrzenAdresowa (pl_vmm s1) nowy_cr3\<rparr> else s1)
           in if nowy_cr3 \<noteq> odczytaj_cr3 s1 \<and> odczytaj_cr3 s2 \<noteq> nowy_cr3
              then (stary_rsp, ustaw_stos_jadra s2 (pr_szczyt (pl_tablica s2 stary_pid)))
              else (nowy_rsp, s2\<lparr>pl_aktualny := nastepny_pid, pl_przelaczenia := pl_przelaczenia s2 + 1,
                                pl_aktywny := nastepny\<rparr>))"

definition PrzelaczKontekst :: "planista \<Rightarrow> u64 \<Rightarrow> u64 \<times> planista" where
  "PrzelaczKontekst s stary_rsp =
     (if stary_rsp = 0 then (0, s)
      else if \<not> pl_wielozadaniowosc s then (stary_rsp, s)
      else if \<not> pid_poprawny (pl_aktualny s) then (stary_rsp, s)
      else let stary_pid = nat (pl_aktualny s);
               stan_starego = stan_pid s stary_pid;
               s1 = (if stan_starego \<noteq> PROCES_PUSTY \<and> stan_starego \<noteq> PROCES_KONCZACY
                     then ustaw_proces s stary_pid ((pl_tablica s stary_pid)\<lparr>pr_rsp := stary_rsp\<rparr>) else s);
               s2 = posprzataj_zakonczone_procesy s1 (pl_aktualny s);
               s3 = obsluz_timeouty_myszy (s2\<lparr>pl_tykniecia := pl_tykniecia s2 + 1\<rparr>);
               nastepny_pid = znajdz_nastepny_proces s3 (pl_aktualny s)
        in if \<not> pid_poprawny nastepny_pid then (stary_rsp, s3)
           else if nastepny_pid = pl_aktualny s then (stary_rsp, s3\<lparr>pl_aktywny := pl_tablica s3 stary_pid\<rparr>)
           else if \<not> proces_moze_byc_uruchomiony s3 nastepny_pid then (stary_rsp, s3)
           else przejdz_do s3 stary_rsp stary_pid nastepny_pid)"

subsection \<open>The end of a process\<close>

text \<open>The state in which \<open>zakoncz_aktualny_proces\<close> enters its final loop of \<open>HLT\<close>; it never returns.\<close>

definition zakoncz_aktualny_proces :: "planista \<Rightarrow> planista" where
  "zakoncz_aktualny_proces s =
     (if \<not> pid_uzytkownika (pl_aktualny s) then s
      else let pid = nat (pl_aktualny s);
               s1 = scheduler_usun_zdarzenia_procesu s (pl_aktualny s);
               p = pl_tablica s1 pid;
               z = pl_zasoby s1 pid;
               z1 = (if \<not> zas_oczekuje z
                     then z\<lparr>zas_przestrzen := pr_przestrzen p, zas_baza := pr_baza p, zas_oczekuje := True\<rparr> else z);
               p1 = p\<lparr>pr_poziom := PZB_PIASKOWNICA, pr_uprawnienia := PRAWA_BRAK, pr_stan := PROCES_KONCZACY\<rparr>
           in (ustaw_proces (s1\<lparr>pl_zasoby := (pl_zasoby s1)(pid := z1)\<rparr>) pid p1)\<lparr>pl_aktywny := p1\<rparr>)"

text \<open>The timer branch of \<open>WspolnaObslugaPrzerwan\<close> in \<open>idt.cpp\<close>: a task that was interrupted in Ring 0
  keeps the CPU unless it is the idle task or has ended. \<open>None\<close> is the panic that halts the system.\<close>

definition obsluz_timer :: "planista \<Rightarrow> u64 \<Rightarrow> u64 \<Rightarrow> (u64 \<times> planista) option" where
  "obsluz_timer s rejestr_cs rsp =
     (let przerwano_ring3 = (rejestr_cs AND 3 = 3);
          pid_idle = (pl_aktualny s = 0);
          proces_juz_pusty = (pl_aktualny s > 0 \<and> pl_aktualny s < int MAKS_PROCESOW \<and>
             (stan_pid s (nat (pl_aktualny s)) = PROCES_PUSTY \<or> stan_pid s (nat (pl_aktualny s)) = PROCES_KONCZACY))
      in if pl_aktualny s \<ge> int MAKS_PROCESOW then None
         else if przerwano_ring3 \<or> pid_idle \<or> proces_juz_pusty then Some (PrzelaczKontekst s rsp)
         else Some (rsp, s))"

end
