(* ===== verification/Planista_Wlasnosci.thy ===== *)
theory Planista_Wlasnosci
  imports Planista Vmm_Drzewo
begin

section \<open>What each scheduler operation changes\<close>

text \<open>
  Closed forms of the scheduler's loops over the sixteen slots, what the clean-up changes, the cyclic
  search, and the cases of the context switch.
\<close>

lemma odczytaj_cr3_maska: "odczytaj_cr3 s = vm_cr3 (pl_vmm s) AND MASKA_ADRESU_4K"
  by (simp add: odczytaj_cr3_def MASKA_ADRESU_4K_def)

lemma kfree_zawsze: "\<exists>h'. kfree h p = Some h'"
proof (cases "\<exists>xs r ys. ma_blok h p xs r False ys")
  case False
  then show ?thesis using kfree_odmawia [of h p] by blast
next
  case True
  then obtain xs r ys where b: "ma_blok h p xs r False ys" by blast
  show ?thesis
  proof (cases "lista_sterty_poprawna h")
    case True then show ?thesis using kfree_zwalnia [OF _ b] by blast
  qed (simp add: kfree_def)
qed

subsection \<open>State changes of single slots\<close>

lemma stan_pid_ustaw: "stan_pid (ustaw_stan_procesu s p g) q = (if q = p then g else stan_pid s q)"
  by (simp add: stan_pid_def ustaw_stan_procesu_def ustaw_proces_def)

text \<open>The loops that make some slots ready: which slots a step looks at does not depend on the others.\<close>

definition gotowe :: "(nat \<Rightarrow> bool) \<Rightarrow> (nat \<Rightarrow> proces_t) \<Rightarrow> nat \<Rightarrow> proces_t" where
  "gotowe Q t i = (if Q i then (t i)\<lparr>pr_stan := PROCES_GOTOWY\<rparr> else t i)"

lemma petla_gotowe:
  assumes P: "\<And>t i. P (s\<lparr>pl_tablica := t\<rparr>) i = R (t i) i"
  shows "distinct xs \<Longrightarrow>
    foldl (\<lambda>s i. if P s i then ustaw_stan_procesu s i PROCES_GOTOWY else s) (s\<lparr>pl_tablica := t\<rparr>) xs =
      s\<lparr>pl_tablica := gotowe (\<lambda>i. i \<in> set xs \<and> R (t i) i) t\<rparr>"
proof (induction xs arbitrary: t)
  case Nil
  have "gotowe (\<lambda>i. False) t = t" by (simp add: gotowe_def fun_eq_iff)
  then show ?case by simp
next
  case (Cons x xs)
  let ?t = "if R (t x) x then t(x := (t x)\<lparr>pr_stan := PROCES_GOTOWY\<rparr>) else t"
  have e: "(if P (s\<lparr>pl_tablica := t\<rparr>) x then ustaw_stan_procesu (s\<lparr>pl_tablica := t\<rparr>) x PROCES_GOTOWY else s\<lparr>pl_tablica := t\<rparr>) =
      s\<lparr>pl_tablica := ?t\<rparr>" by (simp add: P ustaw_stan_procesu_def ustaw_proces_def)
  have "foldl (\<lambda>s i. if P s i then ustaw_stan_procesu s i PROCES_GOTOWY else s) (s\<lparr>pl_tablica := t\<rparr>) (x # xs) =
      s\<lparr>pl_tablica := gotowe (\<lambda>i. i \<in> set xs \<and> R (?t i) i) ?t\<rparr>"
    unfolding foldl_Cons e by (rule Cons.IH) (use Cons.prems in simp)
  also have "gotowe (\<lambda>i. i \<in> set xs \<and> R (?t i) i) ?t = gotowe (\<lambda>i. i \<in> set (x # xs) \<and> R (t i) i) t"
    using Cons.prems by (auto simp: gotowe_def fun_eq_iff)
  finally show ?case .
qed

definition slot :: "nat \<Rightarrow> bool" where
  "slot i \<longleftrightarrow> Suc 0 \<le> i \<and> i < MAKS_PROCESOW"

lemma pid_uzytkownika_slot: "pid_uzytkownika pid \<Longrightarrow> slot (nat pid)"
  by (auto simp: pid_uzytkownika_def slot_def)

lemma wybudz_czekajace_jako:
  "wybudz_czekajace g s = s\<lparr>pl_tablica := gotowe (\<lambda>i. slot i \<and> stan_pid s i = g) (pl_tablica s)\<rparr>"
  unfolding wybudz_czekajace_def
  using petla_gotowe [where s = s and t = "pl_tablica s" and xs = "[1 ..< MAKS_PROCESOW]" and
      P = "\<lambda>s i. stan_pid s i = g" and R = "\<lambda>p i. pr_stan p = g"]
  by (simp add: stan_pid_def slot_def)

lemma obsluz_timeouty_jako:
  "obsluz_timeouty_myszy s = s\<lparr>pl_tablica := gotowe (\<lambda>i. slot i \<and> stan_pid s i = PROCES_ZABLOKOWANY_MYSZ \<and>
     tick_osiagnal_termin (pl_tykniecia s) (pl_termin s i)) (pl_tablica s)\<rparr>"
proof -
  have "obsluz_timeouty_myszy s = foldl (\<lambda>s i. if stan_pid s i = PROCES_ZABLOKOWANY_MYSZ \<and>
      tick_osiagnal_termin (pl_tykniecia s) (pl_termin s i) then ustaw_stan_procesu s i PROCES_GOTOWY else s) s [1 ..< MAKS_PROCESOW]"
    unfolding obsluz_timeouty_myszy_def by (rule arg_cong [where f = "\<lambda>f. foldl f s [1 ..< MAKS_PROCESOW]"]) (auto simp: fun_eq_iff)
  also have "\<dots> = s\<lparr>pl_tablica := gotowe (\<lambda>i. slot i \<and> stan_pid s i = PROCES_ZABLOKOWANY_MYSZ \<and>
     tick_osiagnal_termin (pl_tykniecia s) (pl_termin s i)) (pl_tablica s)\<rparr>"
    using petla_gotowe [where s = s and t = "pl_tablica s" and xs = "[1 ..< MAKS_PROCESOW]" and
      P = "\<lambda>s i. stan_pid s i = PROCES_ZABLOKOWANY_MYSZ \<and> tick_osiagnal_termin (pl_tykniecia s) (pl_termin s i)" and
      R = "\<lambda>p i. pr_stan p = PROCES_ZABLOKOWANY_MYSZ \<and> tick_osiagnal_termin (pl_tykniecia s) (pl_termin s i)"]
    by (simp add: stan_pid_def slot_def)
  finally show ?thesis .
qed

subsection \<open>Clean-up\<close>

lemma zniszcz_pola:
  "vm_cr3 (zniszcz_hierarchie_procesu l v t) = vm_cr3 v \<and> vm_bazowe (zniszcz_hierarchie_procesu l v t) = vm_bazowe v \<and>
     vm_gotowy (zniszcz_hierarchie_procesu l v t) = vm_gotowy v"
proof (induction l arbitrary: v t)
  case (Suc l)
  let ?pola = "\<lambda>v v'. vm_cr3 v' = vm_cr3 v \<and> vm_bazowe v' = vm_bazowe v \<and> vm_gotowy v' = vm_gotowy (v :: vmm)"
  have d: "?pola v (dla_dzieci (zniszcz_hierarchie_procesu l) p t is v)" for p t v and "is" :: "nat list"
    by (induction "is" arbitrary: v) (simp_all add: Let_def Suc.IH)
  have li: "?pola v (foldl (zwolnij_lisc t) v xs)" for t v xs
    by (induction xs arbitrary: v) (simp_all add: zwolnij_lisc_def Let_def zwolnij_ramke_tabeli_def pisz_wpis_def)
  show ?case unfolding zniszcz_hierarchie_procesu.simps using d li by (simp add: zwolnij_ramke_tabeli_def)
qed simp

lemma zniszcz_przestrzen_pola:
  "vm_cr3 (ZniszczPrzestrzenAdresowaProcesu v p) = vm_cr3 v \<and> vm_bazowe (ZniszczPrzestrzenAdresowaProcesu v p) = vm_bazowe v \<and>
     vm_gotowy (ZniszczPrzestrzenAdresowaProcesu v p) = vm_gotowy v"
  by (simp add: ZniszczPrzestrzenAdresowaProcesu_def zniszcz_pola)

text \<open>A slot after the clean-up.\<close>

definition slot_pusty :: "proces_t \<Rightarrow> proces_t" where
  "slot_pusty p = p\<lparr>pr_sciezka := (pr_sciezka p)(0 := 0), pr_przestrzen := 0, pr_rsp := 0, pr_baza := 0, pr_szczyt := 0,
     pr_stan := PROCES_PUSTY\<rparr>"

lemma posprzataj_pid_pola:
  "\<exists>v h z. posprzataj_pid c s pid = s\<lparr>pl_vmm := v, pl_sterta := h, pl_zasoby := (pl_zasoby s)(pid := z),
      pl_tablica := (pl_tablica s)(pid := slot_pusty (pl_tablica s pid))\<rparr> \<and>
    \<not> zas_oczekuje z \<and> vm_cr3 v = vm_cr3 (pl_vmm s) \<and> vm_gotowy v = vm_gotowy (pl_vmm s) \<and> vm_bazowe v = vm_bazowe (pl_vmm s) \<and>
    h = (if zas_baza (pl_zasoby s pid) \<noteq> 0 then the (kfree (pl_sterta s) (zas_baza (pl_zasoby s pid))) else pl_sterta s)"
proof -
  define z where "z = pl_zasoby s pid"
  define zn where "zn \<longleftrightarrow> zas_przestrzen z \<noteq> 0 \<and> zas_przestrzen z AND 0x000FFFFFFFFFF000 \<noteq> 0 \<and> zas_przestrzen z AND 0x000FFFFFFFFFF000 \<noteq> c"
  define v where "v = (if zn then ZniszczPrzestrzenAdresowaProcesu (pl_vmm s) (zas_przestrzen z) else pl_vmm s)"
  define h where "h = (if zas_baza z \<noteq> 0 then the (kfree (pl_sterta s) (zas_baza z)) else pl_sterta s)"
  define z' where "z' = (if zn then z\<lparr>zas_przestrzen := 0\<rparr> else z)\<lparr>zas_baza := 0, zas_oczekuje := False\<rparr>"
  have "posprzataj_pid c s pid = s\<lparr>pl_vmm := v, pl_sterta := h, pl_zasoby := (pl_zasoby s)(pid := z'),
      pl_tablica := (pl_tablica s)(pid := slot_pusty (pl_tablica s pid))\<rparr>"
    unfolding posprzataj_pid_def Let_def z_def [symmetric] zn_def [symmetric] slot_pusty_def
    by (simp add: zwolnij_stos_def ustaw_proces_def v_def h_def z'_def)
  moreover have "vm_cr3 v = vm_cr3 (pl_vmm s)" "vm_gotowy v = vm_gotowy (pl_vmm s)" "vm_bazowe v = vm_bazowe (pl_vmm s)"
    unfolding v_def using zniszcz_przestrzen_pola by auto
  moreover have "\<not> zas_oczekuje z'" by (simp add: z'_def)
  ultimately show ?thesis using h_def z_def by blast
qed

text \<open>The fold over the slots: it cleans exactly the waiting slots other than the given one.\<close>

definition posprzatane :: "(nat \<Rightarrow> bool) \<Rightarrow> planista \<Rightarrow> planista \<Rightarrow> bool" where
  "posprzatane Q s s' \<longleftrightarrow> (\<exists>v h z. s' = s\<lparr>pl_vmm := v, pl_sterta := h, pl_zasoby := z,
       pl_tablica := (\<lambda>i. if Q i then slot_pusty (pl_tablica s i) else pl_tablica s i)\<rparr> \<and>
     vm_cr3 v = vm_cr3 (pl_vmm s) \<and> vm_gotowy v = vm_gotowy (pl_vmm s) \<and> vm_bazowe v = vm_bazowe (pl_vmm s) \<and>
     (\<forall>i. if Q i then \<not> zas_oczekuje (z i) else z i = pl_zasoby s i))"

lemma posprzatane_refl: "posprzatane (\<lambda>i. False) s s"
  unfolding posprzatane_def by (intro exI [of _ "pl_vmm s"] exI [of _ "pl_sterta s"] exI [of _ "pl_zasoby s"]) simp

lemma posprzataj_petla:
  "distinct xs \<Longrightarrow> posprzatane (\<lambda>i. i \<in> set xs \<and> int i \<noteq> pid \<and> zas_oczekuje (pl_zasoby s i)) s
     (foldl (\<lambda>s i. if int i = pid then s else if \<not> zas_oczekuje (pl_zasoby s i) then s else posprzataj_pid c s i) s xs)"
proof (induction xs rule: rev_induct)
  case Nil
  then show ?case using posprzatane_refl by simp
next
  case (snoc x xs)
  define s1 where "s1 = foldl (\<lambda>s i. if int i = pid then s else if \<not> zas_oczekuje (pl_zasoby s i) then s else posprzataj_pid c s i) s xs"
  have x: "x \<notin> set xs" using snoc.prems by simp
  from snoc obtain v h z where s1: "s1 = s\<lparr>pl_vmm := v, pl_sterta := h, pl_zasoby := z,
       pl_tablica := (\<lambda>i. if i \<in> set xs \<and> int i \<noteq> pid \<and> zas_oczekuje (pl_zasoby s i) then slot_pusty (pl_tablica s i) else pl_tablica s i)\<rparr>"
    and v: "vm_cr3 v = vm_cr3 (pl_vmm s)" "vm_gotowy v = vm_gotowy (pl_vmm s)" "vm_bazowe v = vm_bazowe (pl_vmm s)"
    and z: "\<And>i. if i \<in> set xs \<and> int i \<noteq> pid \<and> zas_oczekuje (pl_zasoby s i) then \<not> zas_oczekuje (z i) else z i = pl_zasoby s i"
    unfolding s1_def posprzatane_def by auto
  have zx: "z x = pl_zasoby s x" using z [of x] x by simp
  show ?case
  proof (cases "int x = pid \<or> \<not> zas_oczekuje (pl_zasoby s x)")
    case True
    then have e: "(\<lambda>i. i \<in> set (xs @ [x]) \<and> int i \<noteq> pid \<and> zas_oczekuje (pl_zasoby s i)) =
        (\<lambda>i. i \<in> set xs \<and> int i \<noteq> pid \<and> zas_oczekuje (pl_zasoby s i))" by (auto simp: fun_eq_iff)
    have "(if int x = pid then s1 else if \<not> zas_oczekuje (pl_zasoby s1 x) then s1 else posprzataj_pid c s1 x) = s1"
      using True zx by (auto simp: s1)
    then show ?thesis using snoc unfolding e foldl_append s1_def by simp
  next
    case False
    obtain v' h' z' where p: "posprzataj_pid c s1 x = s1\<lparr>pl_vmm := v', pl_sterta := h', pl_zasoby := (pl_zasoby s1)(x := z'),
        pl_tablica := (pl_tablica s1)(x := slot_pusty (pl_tablica s1 x))\<rparr>"
      "\<not> zas_oczekuje z'" "vm_cr3 v' = vm_cr3 (pl_vmm s1)" "vm_gotowy v' = vm_gotowy (pl_vmm s1)" "vm_bazowe v' = vm_bazowe (pl_vmm s1)"
      using posprzataj_pid_pola [of c s1 x] by blast
    have e: "foldl (\<lambda>s i. if int i = pid then s else if \<not> zas_oczekuje (pl_zasoby s i) then s else posprzataj_pid c s i) s (xs @ [x]) =
        posprzataj_pid c s1 x"
      using False zx by (simp add: s1_def [symmetric]) (simp add: s1)
    let ?Q = "\<lambda>i. i \<in> set (xs @ [x]) \<and> int i \<noteq> pid \<and> zas_oczekuje (pl_zasoby s i)"
    have zz: "if ?Q i then \<not> zas_oczekuje ((z(x := z')) i) else (z(x := z')) i = pl_zasoby s i" for i
      using z [of i] False p(2) by auto
    have tt: "(pl_tablica s1)(x := slot_pusty (pl_tablica s1 x)) = (\<lambda>i. if ?Q i then slot_pusty (pl_tablica s i) else pl_tablica s i)"
      using x False by (auto simp: s1 fun_eq_iff)
    have "posprzataj_pid c s1 x = s\<lparr>pl_vmm := v', pl_sterta := h', pl_zasoby := z(x := z'),
        pl_tablica := (\<lambda>i. if ?Q i then slot_pusty (pl_tablica s i) else pl_tablica s i)\<rparr>"
      unfolding p(1) tt by (simp add: s1)
    moreover have "vm_cr3 v' = vm_cr3 (pl_vmm s)" "vm_gotowy v' = vm_gotowy (pl_vmm s)" "vm_bazowe v' = vm_bazowe (pl_vmm s)"
      using p(3-5) v by (simp_all add: s1)
    ultimately show ?thesis unfolding e posprzatane_def using zz by blast
  qed
qed

subsection \<open>The cyclic search\<close>

definition uruchamialny :: "bool \<Rightarrow> proces_t \<Rightarrow> bool" where
  "uruchamialny u p \<longleftrightarrow> pr_stan p = PROCES_GOTOWY \<and> pr_rsp p \<noteq> 0 \<and> cr3_poprawne (pr_cr3 p) \<and>
     stos_jadra_procesu_poprawny p \<and> (u \<longrightarrow> pr_przestrzen p \<noteq> 0 \<and> \<not> pr_poziom p > PZB_MAX_POZIOM)"

lemma proces_moze_uruchamialny:
  "proces_moze_byc_uruchomiony s pid \<longleftrightarrow> pid_poprawny pid \<and> uruchamialny (pid_uzytkownika pid) (pl_tablica s (nat pid))"
  by (simp add: proces_moze_byc_uruchomiony_def uruchamialny_def Let_def)

text \<open>How many slots the search passes before it looks at \<open>p\<close>, starting behind \<open>b\<close>.\<close>

definition odleglosc :: "int \<Rightarrow> int \<Rightarrow> int" where
  "odleglosc b p = (p - b - 1) mod 16"

lemma odleglosc_zakres: "0 \<le> odleglosc b p" "odleglosc b p < 16"
  by (simp_all add: odleglosc_def)

lemma odleglosc_krok: "1 \<le> k \<Longrightarrow> k \<le> 16 \<Longrightarrow> odleglosc b ((b + int k) mod 16) = int k - 1"
proof -
  assume k: "1 \<le> k" "k \<le> 16"
  have "((b + int k) mod 16 - b - 1) mod 16 = (int k - 1) mod 16"
    by (metis add_diff_cancel_left' diff_diff_eq2 mod_diff_left_eq diff_diff_eq add.commute)
  then show ?thesis using k by (simp add: odleglosc_def)
qed

lemma krok_odleglosci: "0 \<le> p \<Longrightarrow> p < 16 \<Longrightarrow> (b + (odleglosc b p + 1)) mod 16 = p"
proof -
  assume p: "0 \<le> p" "p < 16"
  have "(b + (odleglosc b p + 1)) mod 16 = (b + 1 + (p - b - 1)) mod 16"
    by (metis odleglosc_def mod_add_right_eq add.assoc add.commute)
  then show ?thesis using p by simp
qed

lemma find_krok:
  "find P [1 ..< 17] = None \<longleftrightarrow> (\<forall>k. 1 \<le> k \<and> k \<le> 16 \<longrightarrow> \<not> P k)"
  "find P [1 ..< 17] = Some k \<Longrightarrow> 1 \<le> k \<and> k \<le> 16 \<and> P k \<and> (\<forall>j. 1 \<le> j \<and> j < k \<longrightarrow> \<not> P j)"
proof -
  show "find P [1 ..< 17] = None \<longleftrightarrow> (\<forall>k. 1 \<le> k \<and> k \<le> 16 \<longrightarrow> \<not> P k)"
    unfolding find_None_iff by (auto simp: less_Suc_eq_le)
  assume "find P [1 ..< 17] = Some k"
  then obtain i where i: "i < 16" "P (i + 1)" "k = i + 1" "\<And>j. j < i \<Longrightarrow> \<not> P (j + 1)"
    by (auto simp: find_Some_iff)
  have "\<not> P j" if "1 \<le> j" "j < k" for j using i(4) [of "j - 1"] that i(3) by simp
  then show "1 \<le> k \<and> k \<le> 16 \<and> P k \<and> (\<forall>j. 1 \<le> j \<and> j < k \<longrightarrow> \<not> P j)" using i by simp
qed

text \<open>The search returns the runnable process that comes first behind the current one, the current
  one last; -1 when none is runnable.\<close>

lemma znajdz_spec:
  fixes s b
  assumes b: "pid_poprawny b"
  defines "r \<equiv> znajdz_nastepny_proces s b"
  shows "(r = -1 \<and> (\<forall>p. \<not> proces_moze_byc_uruchomiony s p)) \<or>
    (proces_moze_byc_uruchomiony s r \<and> (\<forall>p. proces_moze_byc_uruchomiony s p \<longrightarrow> odleglosc b r \<le> odleglosc b p))"
proof -
  let ?P = "\<lambda>k :: nat. proces_moze_byc_uruchomiony s ((b + int k) mod 16)"
  have zasieg: "\<exists>k. 1 \<le> k \<and> k \<le> 16 \<and> (b + int k) mod 16 = p \<and> int k = odleglosc b p + 1"
    if "proces_moze_byc_uruchomiony s p" for p
  proof -
    have p: "0 \<le> p" "p < 16" using that by (simp_all add: proces_moze_uruchamialny pid_poprawny_def)
    show ?thesis using krok_odleglosci [OF p, of b] odleglosc_zakres [of b p]
      by (intro exI [of _ "nat (odleglosc b p + 1)"]) auto
  qed
  have r: "r = (case find ?P [1 ..< 17] of None \<Rightarrow> -1 | Some k \<Rightarrow> (b + int k) mod 16)"
    unfolding r_def znajdz_nastepny_proces_def of_nat_numeral using b by simp
  show ?thesis
  proof (cases "find ?P [1 ..< 17]")
    case None
    then have "\<not> proces_moze_byc_uruchomiony s p" for p using find_krok(1) [of ?P] zasieg [of p] by metis
    then show ?thesis using r None by simp
  next
    case (Some k)
    note k = find_krok(2) [OF Some]
    have rk: "r = (b + int k) mod 16" using r Some by simp
    have d: "odleglosc b r = int k - 1" using odleglosc_krok [of k b] k rk by simp
    have "odleglosc b r \<le> odleglosc b p" if m: "proces_moze_byc_uruchomiony s p" for p
    proof -
      obtain j where j: "1 \<le> j" "(b + int j) mod 16 = p" "int j = odleglosc b p + 1" using zasieg [OF m] by blast
      have "\<not> j < k" using k j m by metis
      then show ?thesis using d j by simp
    qed
    then show ?thesis using k rk by auto
  qed
qed

lemma znajdz_zakres: "znajdz_nastepny_proces s b = -1 \<or> pid_poprawny (znajdz_nastepny_proces s b)"
proof (cases "pid_poprawny b")
  case True
  then show ?thesis using znajdz_spec [of b s] by (auto simp: proces_moze_uruchamialny)
next
  case False
  then show ?thesis by (simp add: znajdz_nastepny_proces_def pid_poprawny_def)
qed

text \<open>Two states with the same table choose the same process.\<close>

lemma znajdz_tablica: "pl_tablica s = pl_tablica s' \<Longrightarrow> znajdz_nastepny_proces s b = znajdz_nastepny_proces s' b"
  by (simp add: znajdz_nastepny_proces_def proces_moze_uruchamialny)

subsection \<open>The context switch\<close>

definition przed_wyborem :: "planista \<Rightarrow> u64 \<Rightarrow> planista" where
  "przed_wyborem s rsp =
     (let stary_pid = nat (pl_aktualny s);
          s1 = (if stan_pid s stary_pid \<noteq> PROCES_PUSTY \<and> stan_pid s stary_pid \<noteq> PROCES_KONCZACY
                then ustaw_proces s stary_pid ((pl_tablica s stary_pid)\<lparr>pr_rsp := rsp\<rparr>) else s);
          s2 = posprzataj_zakonczone_procesy s1 (pl_aktualny s)
      in obsluz_timeouty_myszy (s2\<lparr>pl_tykniecia := pl_tykniecia s2 + 1\<rparr>))"

lemma przelacz_jako:
  assumes "rsp \<noteq> 0" "pl_wielozadaniowosc s" "pid_poprawny (pl_aktualny s)"
  defines "s3 \<equiv> przed_wyborem s rsp"
  defines "n \<equiv> znajdz_nastepny_proces s3 (pl_aktualny s)"
  shows "PrzelaczKontekst s rsp =
    (if n = -1 then (rsp, s3)
     else if n = pl_aktualny s then (rsp, s3\<lparr>pl_aktywny := pl_tablica s3 (nat (pl_aktualny s))\<rparr>)
     else przejdz_do s3 rsp (nat (pl_aktualny s)) n)"
proof -
  have e: "PrzelaczKontekst s rsp =
     (if \<not> pid_poprawny n then (rsp, s3)
      else if n = pl_aktualny s then (rsp, s3\<lparr>pl_aktywny := pl_tablica s3 (nat (pl_aktualny s))\<rparr>)
      else if \<not> proces_moze_byc_uruchomiony s3 n then (rsp, s3)
      else przejdz_do s3 rsp (nat (pl_aktualny s)) n)"
    unfolding PrzelaczKontekst_def Let_def n_def s3_def przed_wyborem_def using assms(1-3) by simp
  show ?thesis
  proof (cases "n = -1")
    case True
    then show ?thesis unfolding e by (simp add: pid_poprawny_def)
  next
    case False
    then show ?thesis unfolding e using znajdz_spec [OF assms(3), of s3] znajdz_zakres [of s3 "pl_aktualny s"] by (auto simp: n_def)
  qed
qed

text \<open>The table after the clean-up and the timeouts.\<close>

definition tablica_zapisana :: "planista \<Rightarrow> u64 \<Rightarrow> nat \<Rightarrow> proces_t" where
  "tablica_zapisana s rsp i =
     (if i = nat (pl_aktualny s) \<and> stan_pid s i \<noteq> PROCES_PUSTY \<and> stan_pid s i \<noteq> PROCES_KONCZACY
      then (pl_tablica s i)\<lparr>pr_rsp := rsp\<rparr> else pl_tablica s i)"

definition do_sprzatania :: "planista \<Rightarrow> nat \<Rightarrow> bool" where
  "do_sprzatania s i \<longleftrightarrow> slot i \<and> int i \<noteq> pl_aktualny s \<and> zas_oczekuje (pl_zasoby s i)"

definition po_czasie :: "planista \<Rightarrow> nat \<Rightarrow> bool" where
  "po_czasie s i \<longleftrightarrow> slot i \<and> stan_pid s i = PROCES_ZABLOKOWANY_MYSZ \<and> tick_osiagnal_termin (pl_tykniecia s + 1) (pl_termin s i)"

definition tablica_przed_wyborem :: "planista \<Rightarrow> u64 \<Rightarrow> nat \<Rightarrow> proces_t" where
  "tablica_przed_wyborem s rsp i =
     (if do_sprzatania s i then slot_pusty (tablica_zapisana s rsp i)
      else if po_czasie s i then (tablica_zapisana s rsp i)\<lparr>pr_stan := PROCES_GOTOWY\<rparr>
      else tablica_zapisana s rsp i)"

lemma przed_wyborem_pola:
  "\<exists>v h z. przed_wyborem s rsp = s\<lparr>pl_tablica := tablica_przed_wyborem s rsp, pl_tykniecia := pl_tykniecia s + 1,
      pl_vmm := v, pl_sterta := h, pl_zasoby := z\<rparr> \<and>
    vm_cr3 v = vm_cr3 (pl_vmm s) \<and> vm_gotowy v = vm_gotowy (pl_vmm s) \<and> vm_bazowe v = vm_bazowe (pl_vmm s) \<and>
    (\<forall>i. if do_sprzatania s i then \<not> zas_oczekuje (z i) else z i = pl_zasoby s i)"
proof -
  define s1 where "s1 = s\<lparr>pl_tablica := tablica_zapisana s rsp\<rparr>"
  have a: "(if stan_pid s (nat (pl_aktualny s)) \<noteq> PROCES_PUSTY \<and> stan_pid s (nat (pl_aktualny s)) \<noteq> PROCES_KONCZACY
      then ustaw_proces s (nat (pl_aktualny s)) ((pl_tablica s (nat (pl_aktualny s)))\<lparr>pr_rsp := rsp\<rparr>) else s) = s1"
  proof -
    have "tablica_zapisana s rsp = (if stan_pid s (nat (pl_aktualny s)) \<noteq> PROCES_PUSTY \<and> stan_pid s (nat (pl_aktualny s)) \<noteq> PROCES_KONCZACY
      then (pl_tablica s)(nat (pl_aktualny s) := (pl_tablica s (nat (pl_aktualny s)))\<lparr>pr_rsp := rsp\<rparr>) else pl_tablica s)"
      by (auto simp: tablica_zapisana_def fun_eq_iff)
    then show ?thesis by (simp add: s1_def ustaw_proces_def)
  qed
  have "posprzatane (\<lambda>i. i \<in> set [1 ..< 16] \<and> int i \<noteq> pl_aktualny s \<and> zas_oczekuje (pl_zasoby s1 i)) s1
      (posprzataj_zakonczone_procesy s1 (pl_aktualny s))"
    unfolding posprzataj_zakonczone_procesy_def Let_def by (rule posprzataj_petla) simp
  moreover have "(\<lambda>i. i \<in> set [1 ..< 16] \<and> int i \<noteq> pl_aktualny s \<and> zas_oczekuje (pl_zasoby s1 i)) = do_sprzatania s"
    by (auto simp: do_sprzatania_def slot_def s1_def fun_eq_iff)
  ultimately have "posprzatane (do_sprzatania s) s1 (posprzataj_zakonczone_procesy s1 (pl_aktualny s))" by simp
  then obtain v h z where s2: "posprzataj_zakonczone_procesy s1 (pl_aktualny s) = s1\<lparr>pl_vmm := v, pl_sterta := h, pl_zasoby := z,
       pl_tablica := (\<lambda>i. if do_sprzatania s i then slot_pusty (pl_tablica s1 i) else pl_tablica s1 i)\<rparr>"
    and v: "vm_cr3 v = vm_cr3 (pl_vmm s)" "vm_gotowy v = vm_gotowy (pl_vmm s)" "vm_bazowe v = vm_bazowe (pl_vmm s)"
    and z: "\<And>i. if do_sprzatania s i then \<not> zas_oczekuje (z i) else z i = pl_zasoby s i"
    unfolding posprzatane_def by (auto simp: s1_def)
  have zap: "pr_stan (tablica_zapisana s rsp i) = stan_pid s i" for i by (simp add: tablica_zapisana_def stan_pid_def)
  define s2 where "s2 = (posprzataj_zakonczone_procesy s1 (pl_aktualny s))\<lparr>pl_tykniecia := pl_tykniecia s + 1\<rparr>"
  have s2_eq: "s2 = s\<lparr>pl_vmm := v, pl_sterta := h, pl_zasoby := z, pl_tykniecia := pl_tykniecia s + 1,
       pl_tablica := (\<lambda>i. if do_sprzatania s i then slot_pusty (tablica_zapisana s rsp i) else tablica_zapisana s rsp i)\<rparr>"
  proof -
    have "pl_tablica s1 = tablica_zapisana s rsp" by (simp add: s1_def)
    then show ?thesis unfolding s2_def s2 by (simp only:) (simp add: s1_def)
  qed
  have t: "gotowe (\<lambda>i. slot i \<and> stan_pid s2 i = PROCES_ZABLOKOWANY_MYSZ \<and>
     tick_osiagnal_termin (pl_tykniecia s2) (pl_termin s2 i)) (pl_tablica s2) = tablica_przed_wyborem s rsp"
  proof
    fix i
    show "gotowe (\<lambda>i. slot i \<and> stan_pid s2 i = PROCES_ZABLOKOWANY_MYSZ \<and>
     tick_osiagnal_termin (pl_tykniecia s2) (pl_termin s2 i)) (pl_tablica s2) i = tablica_przed_wyborem s rsp i"
      by (simp add: gotowe_def tablica_przed_wyborem_def po_czasie_def s2_eq stan_pid_def slot_pusty_def zap [unfolded stan_pid_def])
  qed
  have "przed_wyborem s rsp = obsluz_timeouty_myszy s2"
  proof -
    have "pl_tykniecia (posprzataj_zakonczone_procesy s1 (pl_aktualny s)) = pl_tykniecia s" unfolding s2 by (simp add: s1_def)
    then show ?thesis unfolding przed_wyborem_def Let_def a s2_def by simp
  qed
  also have "\<dots> = s2\<lparr>pl_tablica := tablica_przed_wyborem s rsp\<rparr>" by (simp only: obsluz_timeouty_jako t)
  finally have "przed_wyborem s rsp = s\<lparr>pl_tablica := tablica_przed_wyborem s rsp, pl_tykniecia := pl_tykniecia s + 1,
      pl_vmm := v, pl_sterta := h, pl_zasoby := z\<rparr>" by (simp add: s2_eq)
  then show ?thesis using v z by blast
qed

subsection \<open>Moving the CPU\<close>

text \<open>The CPU runs the process \<open>n\<close> of \<open>s\<close> in \<open>s'\<close>: its page tables, its kernel stack, its descriptor.\<close>

definition przeniesiony :: "planista \<Rightarrow> int \<Rightarrow> planista \<Rightarrow> bool" where
  "przeniesiony s n s' \<longleftrightarrow> (\<exists>v. s' = s\<lparr>pl_tss_rsp0 := pr_szczyt (pl_tablica s (nat n)),
       pl_bezpieczny_stos := pr_szczyt (pl_tablica s (nat n)), pl_vmm := v, pl_aktualny := n,
       pl_przelaczenia := pl_przelaczenia s + 1, pl_aktywny := pl_tablica s (nat n)\<rparr> \<and>
     vm_cr3 v AND MASKA_ADRESU_4K = pr_cr3 (pl_tablica s (nat n)) AND MASKA_ADRESU_4K \<and>
     vm_gotowy v = vm_gotowy (pl_vmm s) \<and> vm_bazowe v = vm_bazowe (pl_vmm s) \<and> vm_tabele v = vm_tabele (pl_vmm s) \<and>
     vm_pmm v = vm_pmm (pl_vmm s))"

lemma ustaw_przestrzen_pola:
  "UstawPrzestrzenAdresowa v c = v \<or> UstawPrzestrzenAdresowa v c = v\<lparr>vm_globalne := c, vm_cr3 := c\<rparr> \<and> tabela_fizyczna_bezposrednio_dostepna c"
  by (auto simp: UstawPrzestrzenAdresowa_def zapisz_cr3_def)

lemma przejdz_do_przypadki:
  "(\<exists>s'. przejdz_do s rsp stary n = (rsp, s') \<and> (s' = s \<or> s' = ustaw_stos_jadra s (pr_szczyt (pl_tablica s stary)))) \<or>
   (\<exists>s'. przejdz_do s rsp stary n = (pr_rsp (pl_tablica s (nat n)), s') \<and> przeniesiony s n s')"
proof -
  let ?p = "pl_tablica s (nat n)"
  let ?c = "pr_cr3 ?p AND MASKA_ADRESU_4K"
  let ?s1 = "ustaw_stos_jadra s (pr_szczyt ?p)"
  let ?s2 = "if ?c \<noteq> odczytaj_cr3 ?s1 then ?s1\<lparr>pl_vmm := UstawPrzestrzenAdresowa (pl_vmm ?s1) ?c\<rparr> else ?s1"
  have c1: "odczytaj_cr3 ?s1 = vm_cr3 (pl_vmm s) AND MASKA_ADRESU_4K" "pl_vmm ?s1 = pl_vmm s"
    by (simp_all add: odczytaj_cr3_maska ustaw_stos_jadra_def)
  have d: "przejdz_do s rsp stary n =
     (if pr_rsp ?p = 0 \<or> pr_szczyt ?p = 0 \<or> \<not> cr3_poprawne ?c then (rsp, s)
      else if ?c \<noteq> odczytaj_cr3 ?s1 \<and> odczytaj_cr3 ?s2 \<noteq> ?c
      then (rsp, ustaw_stos_jadra ?s2 (pr_szczyt (pl_tablica ?s2 stary)))
      else (pr_rsp ?p, ?s2\<lparr>pl_aktualny := n, pl_przelaczenia := pl_przelaczenia ?s2 + 1, pl_aktywny := ?p\<rparr>))"
    unfolding przejdz_do_def Let_def MASKA_ADRESU_4K_def by simp
  show ?thesis
  proof (cases "pr_rsp ?p = 0 \<or> pr_szczyt ?p = 0 \<or> \<not> cr3_poprawne ?c")
    case True
    then show ?thesis unfolding d by auto
  next
    case False
    show ?thesis
    proof (cases "?c = odczytaj_cr3 ?s1")
      case True
      then have "przejdz_do s rsp stary n = (pr_rsp ?p, ?s1\<lparr>pl_aktualny := n, pl_przelaczenia := pl_przelaczenia ?s1 + 1, pl_aktywny := ?p\<rparr>)"
        unfolding d using False by simp
      moreover have "przeniesiony s n (?s1\<lparr>pl_aktualny := n, pl_przelaczenia := pl_przelaczenia ?s1 + 1, pl_aktywny := ?p\<rparr>)"
        unfolding przeniesiony_def using True c1 by (intro exI [of _ "pl_vmm s"]) (simp add: ustaw_stos_jadra_def)
      ultimately show ?thesis by blast
    next
      case nc: False
      define v where "v = UstawPrzestrzenAdresowa (pl_vmm s) ?c"
      have s2: "?s2 = ?s1\<lparr>pl_vmm := v\<rparr>" using nc c1 by (simp add: v_def)
      have o2: "odczytaj_cr3 ?s2 = vm_cr3 v AND MASKA_ADRESU_4K" unfolding s2 by (simp add: odczytaj_cr3_maska)
      show ?thesis
      proof (cases "v = pl_vmm s")
        case True
        then have "odczytaj_cr3 ?s2 \<noteq> ?c" using o2 c1 nc by simp
        then have "przejdz_do s rsp stary n = (rsp, ustaw_stos_jadra ?s2 (pr_szczyt (pl_tablica ?s2 stary)))"
          unfolding d using False nc by (simp del: if_P if_not_P)
        also have "ustaw_stos_jadra ?s2 (pr_szczyt (pl_tablica ?s2 stary)) = ustaw_stos_jadra s (pr_szczyt (pl_tablica s stary))"
          unfolding s2 True by (simp add: ustaw_stos_jadra_def)
        finally show ?thesis by blast
      next
        case v: False
        then have ve: "v = (pl_vmm s)\<lparr>vm_globalne := ?c, vm_cr3 := ?c\<rparr>"
          using ustaw_przestrzen_pola [of "pl_vmm s" ?c] by (auto simp: v_def)
        have cm: "?c AND MASKA_ADRESU_4K = ?c" by (simp add: and.assoc)
        have "odczytaj_cr3 ?s2 = ?c" unfolding o2 ve by (simp add: cm)
        then have "przejdz_do s rsp stary n = (pr_rsp ?p, ?s2\<lparr>pl_aktualny := n, pl_przelaczenia := pl_przelaczenia ?s2 + 1, pl_aktywny := ?p\<rparr>)"
          unfolding d using False by simp
        moreover have "przeniesiony s n (?s2\<lparr>pl_aktualny := n, pl_przelaczenia := pl_przelaczenia ?s2 + 1, pl_aktywny := ?p\<rparr>)"
          unfolding przeniesiony_def s2 using cm by (intro exI [of _ v]) (simp add: ustaw_stos_jadra_def ve)
        ultimately show ?thesis by blast
      qed
    qed
  qed
qed

lemma przejdz_do_udane:
  assumes "pr_rsp (pl_tablica s (nat n)) \<noteq> 0" "pr_szczyt (pl_tablica s (nat n)) \<noteq> 0" "vm_gotowy (pl_vmm s)"
    and c: "tabela_fizyczna_bezposrednio_dostepna (pr_cr3 (pl_tablica s (nat n)))"
  shows "\<exists>s'. przejdz_do s rsp stary n = (pr_rsp (pl_tablica s (nat n)), s') \<and> przeniesiony s n s'"
proof -
  let ?p = "pl_tablica s (nat n)"
  let ?c = "pr_cr3 ?p"
  have m: "?c AND MASKA_ADRESU_4K = ?c" by (rule dostepna_maska [OF c])
  have ok: "cr3_poprawne ?c" using c by (simp add: cr3_poprawne_def tabela_fizyczna_bezposrednio_dostepna_def)
  have u: "UstawPrzestrzenAdresowa (pl_vmm s) ?c = (pl_vmm s)\<lparr>vm_globalne := ?c, vm_cr3 := ?c\<rparr>"
    using c assms(3) by (simp add: UstawPrzestrzenAdresowa_def zapisz_cr3_def tabela_fizyczna_bezposrednio_dostepna_def)
  have "fst (przejdz_do s rsp stary n) = pr_rsp ?p \<and> pl_aktualny (snd (przejdz_do s rsp stary n)) = n"
    unfolding przejdz_do_def Let_def MASKA_ADRESU_4K_def [symmetric] m odczytaj_cr3_maska
    using assms(1,2) ok u m by (simp add: ustaw_stos_jadra_def)
  then have a: "fst (przejdz_do s rsp stary n) = pr_rsp ?p" "pl_aktualny (snd (przejdz_do s rsp stary n)) = n" by auto
  show ?thesis
  proof (cases "\<exists>s'. przejdz_do s rsp stary n = (pr_rsp ?p, s') \<and> przeniesiony s n s'")
    case False
    then obtain s' where s': "przejdz_do s rsp stary n = (rsp, s')" "s' = s \<or> s' = ustaw_stos_jadra s (pr_szczyt (pl_tablica s stary))"
      using przejdz_do_przypadki [of s rsp stary n] by blast
    have t: "pl_tablica s' = pl_tablica s" "pl_vmm s' = pl_vmm s" "pl_przelaczenia s' = pl_przelaczenia s" using s'(2) by (auto simp: ustaw_stos_jadra_def)
    have "pl_przelaczenia (snd (przejdz_do s rsp stary n)) = pl_przelaczenia s + 1"
      unfolding przejdz_do_def Let_def MASKA_ADRESU_4K_def [symmetric] m odczytaj_cr3_maska
      using assms(1,2) ok u m by (simp add: ustaw_stos_jadra_def)
    then show ?thesis using s' t by simp
  qed
qed

end
