(* ===== verification/Planista_Twierdzenia.thy ===== *)
theory Planista_Twierdzenia
  imports Planista_Wlasnosci Vmm_Twierdzenia
begin

section \<open>Events and the choice of processes\<close>

text \<open>
  The event queues deliver what they accepted; the scheduler takes the processes in turn, so that a
  process that stays runnable waits at most sixteen switches; a process that waits for the mouse is
  woken by the next movement or after twenty ticks.
\<close>

subsection \<open>Event queues of processes\<close>

lemma ustaw_kolejke_pola:
  "pl_kolejki (ustaw_kolejke s p q) = (pl_kolejki s)(p := q)" "pl_tablica (ustaw_kolejke s p q) = pl_tablica s"
  "stan_pid (ustaw_kolejke s p q) i = stan_pid s i"
  by (simp_all add: ustaw_kolejke_def stan_pid_def)

lemma ustaw_stan_pola:
  "pl_kolejki (ustaw_stan_procesu s p g) = pl_kolejki s"
  "i \<noteq> p \<Longrightarrow> pl_tablica (ustaw_stan_procesu s p g) i = pl_tablica s i"
  by (simp_all add: ustaw_stan_procesu_def ustaw_proces_def)

lemma dodaj_zdarzenie_wynik:
  fixes s pid z i
  assumes u: "pid_uzytkownika pid" and s: "kolejka_sprawna (pl_kolejki s (nat pid))"
  defines "w \<equiv> dodaj_do_listy z (lista_kolejki (pl_kolejki s (nat pid)))"
  defines "s' \<equiv> snd (scheduler_dodaj_zdarzenie s pid (Some z))"
  shows "fst (scheduler_dodaj_zdarzenie s pid (Some z)) \<longleftrightarrow> fst w \<noteq> Odrzucone"
    "lista_kolejki (pl_kolejki s' (nat pid)) = snd w" "kolejka_sprawna (pl_kolejki s' (nat pid))"
    "stan_pid s' (nat pid) = (if fst w \<noteq> Odrzucone \<and> stan_pid s (nat pid) = PROCES_ZABLOKOWANY_ZDARZENIE
       then PROCES_GOTOWY else stan_pid s (nat pid))"
    "i \<noteq> nat pid \<Longrightarrow> pl_kolejki s' i = pl_kolejki s i \<and> pl_tablica s' i = pl_tablica s i"
proof -
  obtain r q where d: "dodaj_do_kolejki z (pl_kolejki s (nat pid)) = (r, q)" by fastforce
  have w: "w = (r, lista_kolejki q)" "kolejka_sprawna q"
    using dodaj_do_kolejki_lista [OF s, of z] d by (simp_all add: w_def)
  have e: "scheduler_dodaj_zdarzenie s pid (Some z) = (case (r, q) of
           (Odrzucone, q) \<Rightarrow> (False, ustaw_kolejke s (nat pid) q)
         | (Scalone, q) \<Rightarrow>
             let s1 = ustaw_kolejke s (nat pid) q in
             (True, if stan_pid s1 (nat pid) = PROCES_ZABLOKOWANY_ZDARZENIE
                    then ustaw_stan_procesu s1 (nat pid) PROCES_GOTOWY else s1)
         | (Dodane, q) \<Rightarrow>
             let s1 = ustaw_kolejke s (nat pid) q in
             (True, if stan_pid s1 (nat pid) = PROCES_ZABLOKOWANY_ZDARZENIE
                    then (ustaw_stan_procesu s1 (nat pid) PROCES_GOTOWY)\<lparr>pl_wybudzenia := pl_wybudzenia s1 + 1\<rparr>
                    else s1))"
    unfolding scheduler_dodaj_zdarzenie_def using u d by simp
  note pola = ustaw_kolejke_pola ustaw_stan_pola stan_pid_ustaw
  have st: "stan_pid (s\<lparr>pl_wybudzenia := x\<rparr>) i = stan_pid s i" for s x i by (simp add: stan_pid_def)
  show "fst (scheduler_dodaj_zdarzenie s pid (Some z)) \<longleftrightarrow> fst w \<noteq> Odrzucone"
    unfolding e w(1) by (cases r) (simp_all add: Let_def)
  show "lista_kolejki (pl_kolejki s' (nat pid)) = snd w" "kolejka_sprawna (pl_kolejki s' (nat pid))"
    using w(2) unfolding s'_def e w(1) by (cases r; simp add: Let_def pola)+
  show "stan_pid s' (nat pid) = (if fst w \<noteq> Odrzucone \<and> stan_pid s (nat pid) = PROCES_ZABLOKOWANY_ZDARZENIE
       then PROCES_GOTOWY else stan_pid s (nat pid))"
    unfolding s'_def e w(1) by (cases r) (simp_all add: Let_def pola st)
  show "pl_kolejki s' i = pl_kolejki s i \<and> pl_tablica s' i = pl_tablica s i" if "i \<noteq> nat pid"
    using that unfolding s'_def e by (cases r) (simp_all add: Let_def pola)
qed

lemma pobierz_zdarzenie_wynik:
  assumes u: "pid_uzytkownika pid" and s: "kolejka_sprawna (pl_kolejki s (nat pid))"
  shows "fst (scheduler_pobierz_zdarzenie s pid) =
      (case lista_kolejki (pl_kolejki s (nat pid)) of [] \<Rightarrow> None | z # zs \<Rightarrow> Some z)"
    "lista_kolejki (pl_kolejki (snd (scheduler_pobierz_zdarzenie s pid)) (nat pid)) = tl (lista_kolejki (pl_kolejki s (nat pid)))"
    "kolejka_sprawna (pl_kolejki (snd (scheduler_pobierz_zdarzenie s pid)) (nat pid))"
    "pl_tablica (snd (scheduler_pobierz_zdarzenie s pid)) = pl_tablica s"
    "i \<noteq> nat pid \<Longrightarrow> pl_kolejki (snd (scheduler_pobierz_zdarzenie s pid)) i = pl_kolejki s i"
proof -
  obtain w q where d: "pobierz_z_kolejki (pl_kolejki s (nat pid)) = (w, q)" by fastforce
  have e: "scheduler_pobierz_zdarzenie s pid = (case w of None \<Rightarrow> (None, s) | Some z \<Rightarrow> (Some z, ustaw_kolejke s (nat pid) q))"
    unfolding scheduler_pobierz_zdarzenie_def using u d by (cases w) simp_all
  define xs where "xs = lista_kolejki (pl_kolejki s (nat pid))"
  have l: "kolejka_sprawna q" "case xs of [] \<Rightarrow> w = None | z # zs \<Rightarrow> w = Some z \<and> lista_kolejki q = zs"
    using pobierz_z_kolejki_lista [OF s] unfolding xs_def [symmetric] d by (simp_all split: list.splits)
  show "fst (scheduler_pobierz_zdarzenie s pid) = (case lista_kolejki (pl_kolejki s (nat pid)) of [] \<Rightarrow> None | z # zs \<Rightarrow> Some z)"
    unfolding e xs_def [symmetric] using l(2) by (cases xs) simp_all
  show "lista_kolejki (pl_kolejki (snd (scheduler_pobierz_zdarzenie s pid)) (nat pid)) = tl (lista_kolejki (pl_kolejki s (nat pid)))"
    unfolding e xs_def [symmetric] using l(2) by (cases xs) (simp_all add: ustaw_kolejke_pola xs_def)
  show "kolejka_sprawna (pl_kolejki (snd (scheduler_pobierz_zdarzenie s pid)) (nat pid))"
    unfolding e using l(1) s by (cases w) (simp_all add: ustaw_kolejke_pola)
  show "pl_tablica (snd (scheduler_pobierz_zdarzenie s pid)) = pl_tablica s"
    "i \<noteq> nat pid \<Longrightarrow> pl_kolejki (snd (scheduler_pobierz_zdarzenie s pid)) i = pl_kolejki s i"
    unfolding e by (cases w; simp add: ustaw_kolejke_pola)+
qed

text \<open>
  C23. A process's event queue is the bounded list of \<open>dodaj_do_listy\<close>: an event is accepted unless
  127 events wait and none can be dropped, a pointer move or timer tick replaces the newest one of its
  type not followed by a button, key, focus or close event, and a reader takes the oldest. Accepting
  an event wakes exactly its own process, if that one waits for events.
\<close>

theorem kolejka_procesu:
  assumes "pid_uzytkownika pid" "kolejka_sprawna (pl_kolejki s (nat pid))"
  shows "(case (scheduler_dodaj_zdarzenie s pid (Some z), dodaj_do_listy z (lista_kolejki (pl_kolejki s (nat pid)))) of
      ((ok, s'), (w, xs)) \<Rightarrow>
        (ok \<longleftrightarrow> w \<noteq> Odrzucone) \<and> lista_kolejki (pl_kolejki s' (nat pid)) = xs \<and> kolejka_sprawna (pl_kolejki s' (nat pid)) \<and>
        stan_pid s' (nat pid) = (if ok \<and> stan_pid s (nat pid) = PROCES_ZABLOKOWANY_ZDARZENIE
          then PROCES_GOTOWY else stan_pid s (nat pid)) \<and>
        (\<forall>i. i = nat pid \<or> pl_kolejki s' i = pl_kolejki s i \<and> pl_tablica s' i = pl_tablica s i)) \<and>
    (case scheduler_pobierz_zdarzenie s pid of
      (z, s') \<Rightarrow> (case lista_kolejki (pl_kolejki s (nat pid)) of
          [] \<Rightarrow> z = None \<and> lista_kolejki (pl_kolejki s' (nat pid)) = []
        | x # xs \<Rightarrow> z = Some x \<and> lista_kolejki (pl_kolejki s' (nat pid)) = xs) \<and>
        kolejka_sprawna (pl_kolejki s' (nat pid)) \<and> pl_tablica s' = pl_tablica s)"
  using dodaj_zdarzenie_wynik [OF assms, where z = z] pobierz_zdarzenie_wynik [OF assms]
  by (auto simp: case_prod_beta split: list.splits)

subsection \<open>Delivery\<close>

datatype operacja_kolejki = Dodaj bws_zdarzenie | Pobierz

text \<open>Runs operations on the queue of one process: the accepted events, the delivered ones, the state.\<close>

fun wykonaj_operacje :: "int \<Rightarrow> operacja_kolejki list \<Rightarrow> planista \<Rightarrow> bws_zdarzenie list \<times> bws_zdarzenie list \<times> planista" where
  "wykonaj_operacje pid [] s = ([], [], s)"
| "wykonaj_operacje pid (Dodaj z # os) s =
     (case scheduler_dodaj_zdarzenie s pid (Some z) of (ok, s1) \<Rightarrow>
        case wykonaj_operacje pid os s1 of (p, d, s2) \<Rightarrow> (if ok then z # p else p, d, s2))"
| "wykonaj_operacje pid (Pobierz # os) s =
     (case scheduler_pobierz_zdarzenie s pid of (w, s1) \<Rightarrow>
        case wykonaj_operacje pid os s1 of (p, d, s2) \<Rightarrow> (p, (case w of None \<Rightarrow> d | Some z \<Rightarrow> z # d), s2))"

definition trwale :: "bws_zdarzenie list \<Rightarrow> bws_zdarzenie list" where
  "trwale xs = filter (\<lambda>z. \<not> ulotne z) xs"

definition typ_maly :: "bws_zdarzenie \<Rightarrow> bool" where
  "typ_maly z \<longleftrightarrow> unat (zd_typ z) < 256"

fun operacja_mala :: "operacja_kolejki \<Rightarrow> bool" where
  "operacja_mala (Dodaj z) = typ_maly z"
| "operacja_mala Pobierz = True"

lemma typ_bajt_maly: "typ_maly z \<Longrightarrow> typ_bajt z = zd_typ z"
proof -
  assume "typ_maly z"
  then have "unat (zd_typ z) mod 256 = unat (zd_typ z)" by (simp add: typ_maly_def)
  then have "unat (typ_bajt z) = unat (zd_typ z)" by (simp add: typ_bajt_def unsigned_ucast_eq take_bit_eq_mod unat_mod_distrib)
  then show ?thesis by (rule unsigned_word_eqI)
qed

lemma filter_podmiana: "i < length xs \<Longrightarrow> \<not> P (xs ! i) \<Longrightarrow> \<not> P z \<Longrightarrow> filter P (xs[i := z]) = filter P xs"
  by (subst (2) id_take_nth_drop [of i xs]) (simp_all add: upd_conv_take_nth_drop)

lemma scal_od_konca_typ: "scal_od_konca t (rev xs) = Some i \<Longrightarrow> i < length xs \<and> typ_bajt (xs ! i) = t"
proof (induction xs rule: rev_induct)
  case (snoc x xs)
  then show ?case by (auto split: if_splits simp: nth_append)
qed simp

lemma dodaj_do_listy_trwale:
  assumes "list_all typ_maly xs" "typ_maly z"
  shows "trwale (snd (dodaj_do_listy z xs)) = (if fst (dodaj_do_listy z xs) = Odrzucone then trwale xs else trwale (xs @ [z]))"
    "list_all typ_maly (snd (dodaj_do_listy z xs))"
proof -
  have "trwale (snd (dodaj_do_listy z xs)) = (if fst (dodaj_do_listy z xs) = Odrzucone then trwale xs else trwale (xs @ [z])) \<and>
    list_all typ_maly (snd (dodaj_do_listy z xs))"
  proof (cases "if ulotne z then scal_od_konca (zd_typ z) (rev xs) else None")
    case (Some i)
    then have u: "ulotne z" and i: "i < length xs" "typ_bajt (xs ! i) = zd_typ z"
      using scal_od_konca_typ [of "zd_typ z" xs i] by (auto split: if_splits)
    have "typ_maly (xs ! i)" using assms(1) i(1) by (simp add: list_all_length)
    then have ui: "ulotne (xs ! i)" using u i(2) by (simp add: ulotne_def typ_bajt_maly)
    have "trwale (xs[i := z]) = trwale xs" unfolding trwale_def by (rule filter_podmiana) (use i u ui in auto)
    moreover have "list_all typ_maly (xs[i := z])" using assms by (auto simp: list_all_iff dest: set_update_subset_insert [THEN subsetD])
    ultimately show ?thesis using Some u unfolding dodaj_do_listy_def by (simp add: trwale_def)
  next
    case None
    show ?thesis
    proof (cases "length xs = 127 \<and> bez_pierwszego ulotne xs \<noteq> None")
      case True
      then obtain ys where ys: "bez_pierwszego ulotne xs = Some ys" by blast
      have "set ys \<subseteq> set xs" using ys
        by (auto simp: bez_pierwszego_takeWhile Let_def split: if_splits dest: in_set_takeD in_set_dropD)
      then show ?thesis using True None ys bez_pierwszego_filter [OF ys] assms unfolding dodaj_do_listy_def
        by (auto simp: trwale_def list_all_iff)
    next
      case False
      then show ?thesis using None assms unfolding dodaj_do_listy_def by (auto simp: trwale_def)
    qed
  qed
  then show "trwale (snd (dodaj_do_listy z xs)) = (if fst (dodaj_do_listy z xs) = Odrzucone then trwale xs else trwale (xs @ [z]))"
    "list_all typ_maly (snd (dodaj_do_listy z xs))" by auto
qed

lemma operacje_trwale:
  assumes u: "pid_uzytkownika pid"
  shows "kolejka_sprawna (pl_kolejki s (nat pid)) \<Longrightarrow> list_all typ_maly (lista_kolejki (pl_kolejki s (nat pid))) \<Longrightarrow>
    list_all operacja_mala os \<Longrightarrow> wykonaj_operacje pid os s = (p, d, s') \<Longrightarrow>
    kolejka_sprawna (pl_kolejki s' (nat pid)) \<and>
    trwale (lista_kolejki (pl_kolejki s (nat pid)) @ p) = trwale (d @ lista_kolejki (pl_kolejki s' (nat pid)))"
proof (induction os arbitrary: s p d)
  case Nil
  then show ?case by simp
next
  case (Cons x os)
  let ?q = "\<lambda>s. lista_kolejki (pl_kolejki s (nat pid))"
  show ?case
  proof (cases x)
    case (Dodaj z)
    define ok where "ok = fst (scheduler_dodaj_zdarzenie s pid (Some z))"
    define s1 where "s1 = snd (scheduler_dodaj_zdarzenie s pid (Some z))"
    obtain p1 d1 where w: "wykonaj_operacje pid os s1 = (p1, d, s')" "p = (if ok then z # p1 else p1)"
      using Cons.prems(4) by (auto simp: Dodaj ok_def s1_def case_prod_beta prod_eq_iff)
    note a = dodaj_zdarzenie_wynik [OF u Cons.prems(1), where z = z, folded s1_def ok_def]
    have z: "typ_maly z" using Cons.prems(3) by (simp add: Dodaj)
    note t = dodaj_do_listy_trwale [OF Cons.prems(2) z]
    have "kolejka_sprawna (pl_kolejki s' (nat pid)) \<and> trwale (?q s1 @ p1) = trwale (d @ ?q s')"
      by (rule Cons.IH [OF a(3) _ _ w(1)]) (use a(2) t(2) Cons.prems(3) in auto)
    moreover have "trwale (?q s1 @ p1) = trwale (?q s @ p)"
      using t(1) a(1) w(2) by (simp add: a(2) trwale_def)
    ultimately show ?thesis by simp
  next
    case Pobierz
    define z where "z = fst (scheduler_pobierz_zdarzenie s pid)"
    define s1 where "s1 = snd (scheduler_pobierz_zdarzenie s pid)"
    obtain d1 where w: "wykonaj_operacje pid os s1 = (p, d1, s')" "d = (case z of None \<Rightarrow> d1 | Some z \<Rightarrow> z # d1)"
      using Cons.prems(4) by (auto simp: Pobierz z_def s1_def case_prod_beta prod_eq_iff)
    note a = pobierz_zdarzenie_wynik [OF u Cons.prems(1), folded s1_def z_def]
    have "kolejka_sprawna (pl_kolejki s' (nat pid)) \<and> trwale (?q s1 @ p) = trwale (d1 @ ?q s')"
      by (rule Cons.IH [OF a(3) _ _ w(1)]) (use a(2) Cons.prems(2,3) in \<open>cases "?q s"; auto\<close>)+
    then show ?thesis using a(1,2) w(2) by (cases "?q s") (auto simp: trwale_def)
  qed
qed

text \<open>
  C24. No accepted button, key, focus or close event is lost, duplicated or reordered, whatever
  pointer moves and timer ticks come between: over any run of additions and reads, those delivered,
  followed by those still queued, are those queued before, followed by those accepted. (Event types
  below 256, as every event of the kernel has; the search for a mergeable one reads 8 bits.)
\<close>

theorem zdarzenia_trwale:
  assumes "pid_uzytkownika pid" "kolejka_sprawna (pl_kolejki s (nat pid))"
    and "list_all typ_maly (lista_kolejki (pl_kolejki s (nat pid)))" "list_all operacja_mala os"
  shows "case wykonaj_operacje pid os s of (przyjete, dostarczone, s') \<Rightarrow>
     trwale (dostarczone @ lista_kolejki (pl_kolejki s' (nat pid))) =
       trwale (lista_kolejki (pl_kolejki s (nat pid)) @ przyjete) \<and>
     length (lista_kolejki (pl_kolejki s' (nat pid))) < 128"
proof -
  obtain p d s' where w: "wykonaj_operacje pid os s = (p, d, s')" by (cases "wykonaj_operacje pid os s") auto
  note o = operacje_trwale [OF assms w]
  then have "kolejka_sprawna (pl_kolejki s' (nat pid))" by blast
  then show ?thesis unfolding w using o kolejka_fakty(3) by auto
qed

text \<open>An empty scheduler for the examples.\<close>

definition planista_zero :: planista where
  "planista_zero = \<lparr>pl_tablica = (\<lambda>i. wyzeruj_slot_procesu (of_nat i)), pl_aktualny = 0, pl_wielozadaniowosc = True, pl_zdarzenia_myszy = 1,
     pl_ostatnie_zdarzenie = (\<lambda>_. 0), pl_tykniecia = 0, pl_irq_timera = 0, pl_przelaczenia = 0, pl_wybudzenia = 0,
     pl_termin = (\<lambda>_. 0), pl_kolejki = (\<lambda>_. kolejka_zero), pl_zasoby = (\<lambda>_. zasoby_zero), pl_aktywny = wyzeruj_slot_procesu 0,
     pl_tss_rsp0 = 0, pl_bezpieczny_stos = 0, pl_vmm = vmm_przyklad, pl_sterta = sterta_przyklad\<rparr>"

definition zdarzenie_typu :: "u32 \<Rightarrow> bws_zdarzenie" where
  "zdarzenie_typu t = zdarzenie_zero\<lparr>zd_typ := t\<rparr>"

theorem kolejka_procesu_witness:
  "(case (scheduler_dodaj_zdarzenie planista_zero 3 (Some zdarzenie_zero),
      dodaj_do_listy zdarzenie_zero (lista_kolejki (pl_kolejki planista_zero 3))) of
      ((ok, s'), (w, xs)) \<Rightarrow> (ok \<longleftrightarrow> w \<noteq> Odrzucone) \<and> lista_kolejki (pl_kolejki s' 3) = xs)"
  using kolejka_procesu [of 3 planista_zero zdarzenie_zero]
  by (simp add: pid_uzytkownika_def planista_zero_def kolejka_zero_def kolejka_sprawna_def case_prod_beta)

theorem zdarzenia_trwale_witness:
  "case wykonaj_operacje 3 [Dodaj (zdarzenie_typu 2), Dodaj (zdarzenie_typu 1), Pobierz] planista_zero of
     (przyjete, dostarczone, s') \<Rightarrow> trwale (dostarczone @ lista_kolejki (pl_kolejki s' 3)) = trwale przyjete"
proof -
  have q: "lista_kolejki (pl_kolejki planista_zero 3) = []"
    by (simp add: planista_zero_def kolejka_zero_def lista_kolejki_def pusta_lista)
  show ?thesis
    using zdarzenia_trwale [of 3 planista_zero "[Dodaj (zdarzenie_typu 2), Dodaj (zdarzenie_typu 1), Pobierz]"] q
    by (simp add: pid_uzytkownika_def planista_zero_def kolejka_zero_def kolejka_sprawna_def typ_maly_def zdarzenie_typu_def case_prod_beta)
qed

subsection \<open>Taking turns\<close>

text \<open>What the switch leaves when it can move the CPU to every runnable process.\<close>

lemma wybor_wynik:
  assumes "rsp \<noteq> 0" "pl_wielozadaniowosc s" "pid_poprawny (pl_aktualny s)" "vm_gotowy (pl_vmm s)"
    and m: "proces_moze_byc_uruchomiony (przed_wyborem s rsp) p"
    and c: "\<And>q. proces_moze_byc_uruchomiony (przed_wyborem s rsp) q \<Longrightarrow>
      tabela_fizyczna_bezposrednio_dostepna (pr_cr3 (pl_tablica (przed_wyborem s rsp) (nat q)))"
  defines "r \<equiv> pl_aktualny (snd (PrzelaczKontekst s rsp))"
  shows "proces_moze_byc_uruchomiony (przed_wyborem s rsp) r \<and>
    (\<forall>q. proces_moze_byc_uruchomiony (przed_wyborem s rsp) q \<longrightarrow> odleglosc (pl_aktualny s) r \<le> odleglosc (pl_aktualny s) q) \<and>
    (if r = pl_aktualny s then fst (PrzelaczKontekst s rsp) = rsp
     else fst (PrzelaczKontekst s rsp) = pr_rsp (pl_tablica (przed_wyborem s rsp) (nat r)) \<and>
       przeniesiony (przed_wyborem s rsp) r (snd (PrzelaczKontekst s rsp)))"
proof -
  define s3 where "s3 = przed_wyborem s rsp"
  define n where "n = znajdz_nastepny_proces s3 (pl_aktualny s)"
  have n: "proces_moze_byc_uruchomiony s3 n" "\<forall>q. proces_moze_byc_uruchomiony s3 q \<longrightarrow> odleglosc (pl_aktualny s) n \<le> odleglosc (pl_aktualny s) q"
    using znajdz_spec [OF assms(3), of s3] m unfolding n_def s3_def by auto
  have n1: "n \<noteq> -1" using n(1) by (auto simp: proces_moze_uruchamialny pid_poprawny_def)
  note e = przelacz_jako [OF assms(1-3), folded s3_def, folded n_def]
  obtain v h z where s3: "s3 = s\<lparr>pl_tablica := tablica_przed_wyborem s rsp, pl_tykniecia := pl_tykniecia s + 1,
      pl_vmm := v, pl_sterta := h, pl_zasoby := z\<rparr>" "vm_gotowy v"
    using przed_wyborem_pola [of s rsp] assms(4) unfolding s3_def by auto
  show ?thesis
  proof (cases "n = pl_aktualny s")
    case True
    then have "r = n" "fst (PrzelaczKontekst s rsp) = rsp" using e n1 s3 by (simp_all add: r_def)
    then show ?thesis using n True unfolding s3_def by simp
  next
    case False
    have u: "uruchamialny (pid_uzytkownika n) (pl_tablica s3 (nat n))" using n(1) by (simp add: proces_moze_uruchamialny)
    have "\<exists>s'. przejdz_do s3 rsp (nat (pl_aktualny s)) n = (pr_rsp (pl_tablica s3 (nat n)), s') \<and> przeniesiony s3 n s'"
      by (rule przejdz_do_udane)
        (use u c n(1) s3 in \<open>auto simp: uruchamialny_def stos_jadra_procesu_poprawny_def s3_def [symmetric] split: if_splits\<close>)
    then obtain s' where s': "przejdz_do s3 rsp (nat (pl_aktualny s)) n = (pr_rsp (pl_tablica s3 (nat n)), s')" "przeniesiony s3 n s'" by blast
    then have p: "PrzelaczKontekst s rsp = (pr_rsp (pl_tablica s3 (nat n)), s')" using e n1 False by simp
    have "r = n" using s'(2) by (auto simp: r_def p przeniesiony_def)
    then show ?thesis using n False p s'(2) unfolding s3_def by simp
  qed
qed

text \<open>
  C25. The timer takes the processes in turn. After the clean-up and the mouse timeouts the CPU goes
  to the runnable process that comes first behind the current one in cyclic order, the current one
  being last; it continues from that process's saved stack pointer, on its page tables, with
  TSS.RSP0 at the top of its own kernel stack.
\<close>

theorem wybor_karuzelowy:
  assumes "rsp \<noteq> 0" "pl_wielozadaniowosc s" "pid_poprawny (pl_aktualny s)" "vm_gotowy (pl_vmm s)"
    and "proces_moze_byc_uruchomiony (przed_wyborem s rsp) p"
    and "\<And>q. proces_moze_byc_uruchomiony (przed_wyborem s rsp) q \<Longrightarrow>
      tabela_fizyczna_bezposrednio_dostepna (pr_cr3 (pl_tablica (przed_wyborem s rsp) (nat q)))"
  shows "case PrzelaczKontekst s rsp of (nowy_rsp, s') \<Rightarrow>
    let r = pl_aktualny s'; proces = pl_tablica (przed_wyborem s rsp) (nat r) in
    proces_moze_byc_uruchomiony (przed_wyborem s rsp) r \<and>
    (\<forall>q. proces_moze_byc_uruchomiony (przed_wyborem s rsp) q \<longrightarrow> odleglosc (pl_aktualny s) r \<le> odleglosc (pl_aktualny s) q) \<and>
    (if r = pl_aktualny s then nowy_rsp = rsp
     else nowy_rsp = pr_rsp proces \<and> odczytaj_cr3 s' = pr_cr3 proces \<and>
       pl_tss_rsp0 s' = pr_szczyt proces \<and> pl_aktywny s' = proces)"
proof -
  note w = wybor_wynik [OF assms(1-5) assms(6)]
  define r where "r = pl_aktualny (snd (PrzelaczKontekst s rsp))"
  have "tabela_fizyczna_bezposrednio_dostepna (pr_cr3 (pl_tablica (przed_wyborem s rsp) (nat r)))"
    using w assms(6) unfolding r_def by blast
  note m = dostepna_maska [OF this]
  show ?thesis
  proof (cases "r = pl_aktualny s")
    case True
    then show ?thesis using w unfolding r_def by (simp add: case_prod_beta Let_def)
  next
    case False
    then have "przeniesiony (przed_wyborem s rsp) r (snd (PrzelaczKontekst s rsp))" using w unfolding r_def by simp
    then have "odczytaj_cr3 (snd (PrzelaczKontekst s rsp)) = pr_cr3 (pl_tablica (przed_wyborem s rsp) (nat r)) \<and>
        pl_tss_rsp0 (snd (PrzelaczKontekst s rsp)) = pr_szczyt (pl_tablica (przed_wyborem s rsp) (nat r)) \<and>
        pl_aktywny (snd (PrzelaczKontekst s rsp)) = pl_tablica (przed_wyborem s rsp) (nat r)"
      using m by (auto simp: przeniesiony_def odczytaj_cr3_maska)
    then show ?thesis using w False unfolding r_def by (simp add: case_prod_beta Let_def)
  qed
qed

lemma odleglosc_maleje:
  assumes p: "0 \<le> p" "p < 16" and r: "0 \<le> r" "r < 16" "r \<noteq> p" and le: "odleglosc b r \<le> odleglosc b p"
  shows "odleglosc r p < odleglosc b p"
proof -
  let ?x = "odleglosc b p" and ?y = "odleglosc b r"
  have "(p - r) mod 16 = (?x - ?y) mod 16"
    unfolding odleglosc_def by (simp add: mod_diff_eq)
  moreover have z: "0 \<le> ?x - ?y" "?x - ?y < 16" using le odleglosc_zakres [of b p] odleglosc_zakres [of b r] by auto
  ultimately have d: "(p - r) mod 16 = ?x - ?y" by simp
  have "?x - ?y \<noteq> 0"
  proof
    assume "?x - ?y = 0"
    then have "(p - r) mod 16 = 0" using d by simp
    then show False using p r by presburger
  qed
  then have "1 \<le> ?x - ?y" using z by simp
  moreover have "odleglosc r p = ((p - r) mod 16 - 1) mod 16" by (simp add: odleglosc_def mod_diff_left_eq)
  ultimately have "odleglosc r p = ?x - ?y - 1" using d z by simp
  then show ?thesis using odleglosc_zakres [of b r] by simp
qed

text \<open>
  C26. No process starves: whatever the system does between the timer's switches, a process that is
  runnable at sixteen consecutive switches has the CPU after one of them.
\<close>

theorem sprawiedliwosc:
  assumes "\<And>k. k < 16 \<Longrightarrow> rsp k \<noteq> 0 \<and> pl_wielozadaniowosc (c k) \<and> pid_poprawny (pl_aktualny (c k)) \<and> vm_gotowy (pl_vmm (c k))"
    and "\<And>k q. k < 16 \<Longrightarrow> proces_moze_byc_uruchomiony (przed_wyborem (c k) (rsp k)) q \<Longrightarrow>
      tabela_fizyczna_bezposrednio_dostepna (pr_cr3 (pl_tablica (przed_wyborem (c k) (rsp k)) (nat q)))"
    and "\<And>k. k < 16 \<Longrightarrow> proces_moze_byc_uruchomiony (przed_wyborem (c k) (rsp k)) p"
    and "\<And>k. k < 16 \<Longrightarrow> pl_aktualny (c (Suc k)) = pl_aktualny (snd (PrzelaczKontekst (c k) (rsp k)))"
  shows "\<exists>k \<in> {1 .. 16 :: nat}. pl_aktualny (c k) = p"
proof (rule ccontr)
  assume n: "\<not> ?thesis"
  have p: "0 \<le> p" "p < 16" using assms(3) [of 0] by (simp_all add: proces_moze_uruchamialny pid_poprawny_def)
  have "k \<le> 16 \<Longrightarrow> odleglosc (pl_aktualny (c k)) p \<le> 15 - int k" for k :: nat
  proof (induction k)
    case 0
    then show ?case using odleglosc_zakres [of "pl_aktualny (c 0)" p] by simp
  next
    case (Suc k)
    then have k: "k < 16" by simp
    let ?r = "pl_aktualny (snd (PrzelaczKontekst (c k) (rsp k)))"
    have w: "proces_moze_byc_uruchomiony (przed_wyborem (c k) (rsp k)) ?r"
      "odleglosc (pl_aktualny (c k)) ?r \<le> odleglosc (pl_aktualny (c k)) p"
      using wybor_wynik [of "rsp k" "c k" p] assms(1) [OF k] assms(2) [OF k] assms(3) [OF k] by auto
    have "?r \<noteq> p" using n assms(4) [OF k] Suc.prems by force
    then have "odleglosc ?r p < odleglosc (pl_aktualny (c k)) p"
      using w p by (intro odleglosc_maleje) (simp_all add: proces_moze_uruchamialny pid_poprawny_def)
    then show ?case using Suc k assms(4) [OF k] by simp
  qed
  from this [of 16] show False using odleglosc_zakres [of "pl_aktualny (c 16)" p] by simp
qed

subsection \<open>Waiting for the mouse\<close>

lemma tick_po_dwudziestu:
  assumes "k < 2 ^ 63"
  shows "tick_osiagnal_termin (t + of_nat k) (t + TIMEOUT_MYSZY_TICKI) \<longleftrightarrow> 20 \<le> k"
proof -
  have "(t + of_nat k) - (t + 20) = (word_of_int (int k - 20) :: u64)" by simp
  moreover have "sint (word_of_int (int k - 20) :: u64) = int k - 20"
    unfolding signed_of_int using assms by (simp add: signed_take_bit_int_eq_self)
  ultimately show ?thesis by (simp add: tick_osiagnal_termin_def)
qed

lemma dwa_64: "(2 :: nat) ^ 64 = 18446744073709551616"
  by simp

lemma wybudz_n:
  "pl_zdarzenia_myszy ((WybudzProcesyOczekujaceNaMysz ^^ n) s) = pl_zdarzenia_myszy s + of_nat n"
  "pl_ostatnie_zdarzenie ((WybudzProcesyOczekujaceNaMysz ^^ n) s) = pl_ostatnie_zdarzenie s"
  "pl_aktualny ((WybudzProcesyOczekujaceNaMysz ^^ n) s) = pl_aktualny s"
  "stan_pid s i = PROCES_GOTOWY \<Longrightarrow> stan_pid ((WybudzProcesyOczekujaceNaMysz ^^ n) s) i = PROCES_GOTOWY"
  by (induction n) (simp_all add: WybudzProcesyOczekujaceNaMysz_def wybudz_czekajace_jako stan_pid_def gotowe_def)

text \<open>
  C27. A process that asks to sleep until the mouse moves never misses a movement: if the mouse moved
  after its last call, the call returns at once and takes note of it; otherwise the process sleeps,
  the next movement wakes it, and without one the timer does, at the twentieth tick and not before.
\<close>

theorem mysz_bez_zgubienia:
  assumes "pid_uzytkownika (pl_aktualny s)" "stan_pid s (nat (pl_aktualny s)) = PROCES_GOTOWY"
    and "pl_ostatnie_zdarzenie s (nat (pl_aktualny s)) = pl_zdarzenia_myszy s" "n < 2 ^ 64"
  shows "let pid = nat (pl_aktualny s);
             s' = ZablokujAktualnyProcesNaMyszy ((WybudzProcesyOczekujaceNaMysz ^^ n) s) in
    if n \<noteq> 0 then stan_pid s' pid = PROCES_GOTOWY \<and> pl_ostatnie_zdarzenie s' pid = pl_zdarzenia_myszy s'
    else stan_pid s' pid = PROCES_ZABLOKOWANY_MYSZ \<and>
      stan_pid (WybudzProcesyOczekujaceNaMysz s') pid = PROCES_GOTOWY \<and>
      (\<forall>k < 2 ^ 63. stan_pid (obsluz_timeouty_myszy (s'\<lparr>pl_tykniecia := pl_tykniecia s + of_nat k\<rparr>)) pid =
         (if k < 20 then PROCES_ZABLOKOWANY_MYSZ else PROCES_GOTOWY))"
proof -
  define pid where "pid = nat (pl_aktualny s)"
  define w where "w = (WybudzProcesyOczekujaceNaMysz ^^ n) s"
  note wn = wybudz_n [where n = n and s = s, folded w_def]
  have sl: "slot pid" using assms(1) by (auto simp: pid_def pid_uzytkownika_def slot_def)
  have st: "stan_pid w pid = PROCES_GOTOWY" using wn(4) assms(2) by (simp add: pid_def)
  have z: "ZablokujAktualnyProcesNaMyszy w =
      (if pl_ostatnie_zdarzenie s pid \<noteq> pl_zdarzenia_myszy s + of_nat n
       then w\<lparr>pl_ostatnie_zdarzenie := (pl_ostatnie_zdarzenie w)(pid := pl_zdarzenia_myszy w)\<rparr>
       else ustaw_stan_procesu (w\<lparr>pl_termin := (pl_termin w)(pid := pl_tykniecia w + TIMEOUT_MYSZY_TICKI)\<rparr>) pid PROCES_ZABLOKOWANY_MYSZ)"
    unfolding ZablokujAktualnyProcesNaMyszy_def wn(3) Let_def pid_def [symmetric] using assms(1) st wn(1,2) by simp
  show ?thesis
  proof (cases "n = 0")
    case False
    then have "(of_nat n :: u64) \<noteq> 0" using assms(4) by (metis unat_of_nat_u64 unsigned_0 dwa_64)
    then have "ZablokujAktualnyProcesNaMyszy w = w\<lparr>pl_ostatnie_zdarzenie := (pl_ostatnie_zdarzenie w)(pid := pl_zdarzenia_myszy w)\<rparr>"
      unfolding z using assms(3) by (simp add: pid_def)
    then show ?thesis using False st unfolding pid_def [symmetric] w_def [symmetric] by (simp add: Let_def stan_pid_def)
  next
    case True
    then have w: "w = s" by (simp add: w_def)
    define s' where "s' = ustaw_stan_procesu (s\<lparr>pl_termin := (pl_termin s)(pid := pl_tykniecia s + TIMEOUT_MYSZY_TICKI)\<rparr>) pid PROCES_ZABLOKOWANY_MYSZ"
    have e: "ZablokujAktualnyProcesNaMyszy w = s'" unfolding z using True assms(3) by (simp add: pid_def w s'_def)
    have st': "stan_pid s' pid = PROCES_ZABLOKOWANY_MYSZ" by (simp add: s'_def stan_pid_ustaw)
    have tr: "pl_termin s' pid = pl_tykniecia s + 20" by (simp add: s'_def ustaw_stan_procesu_def ustaw_proces_def)
    have b: "stan_pid (WybudzProcesyOczekujaceNaMysz s') pid = PROCES_GOTOWY"
      using st' sl by (simp add: WybudzProcesyOczekujaceNaMysz_def wybudz_czekajace_jako stan_pid_def gotowe_def)
    have "stan_pid (obsluz_timeouty_myszy (s'\<lparr>pl_tykniecia := pl_tykniecia s + of_nat k\<rparr>)) pid =
         (if k < 20 then PROCES_ZABLOKOWANY_MYSZ else PROCES_GOTOWY)" if "k < 2 ^ 63" for k
      using st' sl tr tick_po_dwudziestu [OF that, of "pl_tykniecia s"]
      by (simp add: obsluz_timeouty_jako stan_pid_def gotowe_def)
    then show ?thesis using True e b st' unfolding pid_def [symmetric] w_def [symmetric] by (simp add: Let_def)
  qed
qed

subsection \<open>Examples\<close>

text \<open>The kernel and one process, both runnable.\<close>

definition planista_dwa :: "int \<Rightarrow> planista" where
  "planista_dwa a = planista_zero\<lparr>pl_aktualny := a, pl_tablica := (\<lambda>i.
     if i = 0 then (wyzeruj_slot_procesu 0)\<lparr>pr_poziom := 0, pr_rsp := 0x9000, pr_szczyt := 0xA000, pr_cr3 := 0x200000, pr_stan := PROCES_GOTOWY\<rparr>
     else if i = 1 then (wyzeruj_slot_procesu 1)\<lparr>pr_przestrzen := 0x300000, pr_rsp := 0x13000, pr_baza := 0x10000, pr_szczyt := 0x14000,
       pr_cr3 := 0x300000, pr_stan := PROCES_GOTOWY\<rparr>
     else wyzeruj_slot_procesu (of_nat i))\<rparr>"

lemma planista_dwa_pola:
  "pl_aktualny (planista_dwa a) = a" "pl_wielozadaniowosc (planista_dwa a)" "vm_gotowy (pl_vmm (planista_dwa a))"
  "\<not> do_sprzatania (planista_dwa a) i" "\<not> po_czasie (planista_dwa a) i"
  by (simp_all add: planista_dwa_def planista_zero_def vmm_przyklad_def do_sprzatania_def po_czasie_def zasoby_zero_def stan_pid_def
      wyzeruj_slot_procesu_def)

lemma planista_dwa_tablica:
  assumes "a \<in> {0, 1}"
  shows "pl_tablica (przed_wyborem (planista_dwa a) 0x13000) i =
    (if i = nat a then (pl_tablica (planista_dwa a) i)\<lparr>pr_rsp := 0x13000\<rparr> else pl_tablica (planista_dwa a) i)"
proof -
  have "pl_tablica (przed_wyborem (planista_dwa a) 0x13000) = tablica_przed_wyborem (planista_dwa a) 0x13000"
    using przed_wyborem_pola [of "planista_dwa a" "0x13000"] by auto
  then show ?thesis using assms
    by (auto simp: tablica_przed_wyborem_def planista_dwa_pola tablica_zapisana_def)
      (auto simp: planista_dwa_def planista_zero_def stan_pid_def wyzeruj_slot_procesu_def)
qed

lemma planista_dwa_uruchamialne:
  assumes "a \<in> {0, 1}"
  shows "proces_moze_byc_uruchomiony (przed_wyborem (planista_dwa a) 0x13000) q \<longleftrightarrow> q = 0 \<or> q = 1"
    "q = 0 \<or> q = 1 \<Longrightarrow> tabela_fizyczna_bezposrednio_dostepna (pr_cr3 (pl_tablica (przed_wyborem (planista_dwa a) 0x13000) (nat q)))"
proof -
  have e: "uruchamialny (0 < i) (pl_tablica (przed_wyborem (planista_dwa a) 0x13000) i) \<longleftrightarrow> i = 0 \<or> i = 1" for i
  proof -
    consider "a = 0" "i = 0" | "a = 0" "i = 1" | "a = 1" "i = 0" | "a = 1" "i = 1" | "i \<noteq> 0" "i \<noteq> 1" "i \<noteq> nat a"
      using assms by force
    then show ?thesis unfolding planista_dwa_tablica [OF assms] unfolding planista_dwa_def uruchamialny_def stos_jadra_procesu_poprawny_def
      cr3_poprawne_def wyzeruj_slot_procesu_def PZB_PIASKOWNICA_def PZB_MAX_POZIOM_def
      by cases simp_all
  qed
  show "proces_moze_byc_uruchomiony (przed_wyborem (planista_dwa a) 0x13000) q \<longleftrightarrow> q = 0 \<or> q = 1"
  proof (cases "pid_poprawny q")
    case True
    then have "pid_uzytkownika q \<longleftrightarrow> 0 < nat q" "nat q = 0 \<or> nat q = 1 \<longleftrightarrow> q = 0 \<or> q = 1"
      by (auto simp: pid_poprawny_def pid_uzytkownika_def)
    then show ?thesis using e [of "nat q"] True by (simp add: proces_moze_uruchamialny)
  qed (auto simp: proces_moze_uruchamialny pid_poprawny_def)
  show "tabela_fizyczna_bezposrednio_dostepna (pr_cr3 (pl_tablica (przed_wyborem (planista_dwa a) 0x13000) (nat q)))" if q: "q = 0 \<or> q = 1"
  proof -
    consider "a = 0" "q = 0" | "a = 0" "q = 1" | "a = 1" "q = 0" | "a = 1" "q = 1" using assms q by blast
    then show ?thesis unfolding planista_dwa_tablica [OF assms] unfolding planista_dwa_def tabela_fizyczna_bezposrednio_dostepna_def
      by cases simp_all
  qed
qed

lemma planista_dwa_zmiana:
  assumes "a \<in> {0, 1}"
  shows "pl_aktualny (snd (PrzelaczKontekst (planista_dwa a) 0x13000)) = 1 - a"
proof -
  define r where "r = pl_aktualny (snd (PrzelaczKontekst (planista_dwa a) 0x13000))"
  have a: "pid_poprawny (pl_aktualny (planista_dwa a))" using assms by (auto simp: planista_dwa_pola pid_poprawny_def)
  have m: "proces_moze_byc_uruchomiony (przed_wyborem (planista_dwa a) 0x13000) 0" by (simp add: planista_dwa_uruchamialne [OF assms])
  have c: "tabela_fizyczna_bezposrednio_dostepna (pr_cr3 (pl_tablica (przed_wyborem (planista_dwa a) 0x13000) (nat q)))"
    if "proces_moze_byc_uruchomiony (przed_wyborem (planista_dwa a) 0x13000) q" for q
    using planista_dwa_uruchamialne [OF assms, of q] that by blast
  have n: "(0x13000 :: u64) \<noteq> 0" by simp
  note w = wybor_wynik [OF n planista_dwa_pola(2) a planista_dwa_pola(3) m c, folded r_def]
  have "r = 0 \<or> r = 1" "odleglosc a r \<le> odleglosc a 0" "odleglosc a r \<le> odleglosc a 1"
    using w unfolding planista_dwa_uruchamialne(1) [OF assms] planista_dwa_pola(1) by blast+
  then show ?thesis using assms unfolding r_def [symmetric] by (auto simp: odleglosc_def)
qed

theorem wybor_karuzelowy_witness:
  "odczytaj_cr3 (snd (PrzelaczKontekst (planista_dwa 0) 0x13000)) = 0x300000 \<and>
   fst (PrzelaczKontekst (planista_dwa 0) 0x13000) = 0x13000"
  using wybor_karuzelowy [of "0x13000" "planista_dwa 0" 1] planista_dwa_uruchamialne [of 0] planista_dwa_zmiana [of 0]
  by (simp add: planista_dwa_pola pid_poprawny_def case_prod_beta Let_def planista_dwa_tablica) (simp add: planista_dwa_def)

theorem sprawiedliwosc_witness:
  "\<exists>k \<in> {1 .. 16 :: nat}. pl_aktualny (planista_dwa (if even k then 0 else 1)) = 1"
proof (rule sprawiedliwosc [where c = "\<lambda>k. planista_dwa (if even k then 0 else 1)" and rsp = "\<lambda>_. 0x13000"])
  fix k :: nat and q
  show "proces_moze_byc_uruchomiony (przed_wyborem (planista_dwa (if even k then 0 else 1)) 0x13000) 1"
    by (subst planista_dwa_uruchamialne) auto
  show "tabela_fizyczna_bezposrednio_dostepna (pr_cr3 (pl_tablica (przed_wyborem (planista_dwa (if even k then 0 else 1)) 0x13000) (nat q)))"
    if "proces_moze_byc_uruchomiony (przed_wyborem (planista_dwa (if even k then 0 else 1)) 0x13000) q"
    using that by (intro planista_dwa_uruchamialne(2)) (auto simp: planista_dwa_uruchamialne split: if_splits)
qed (auto simp: planista_dwa_pola planista_dwa_zmiana pid_poprawny_def)

theorem mysz_bez_zgubienia_witness:
  "stan_pid (ZablokujAktualnyProcesNaMyszy ((planista_dwa 1)\<lparr>pl_ostatnie_zdarzenie := \<lambda>_. 1\<rparr>)) 1 = PROCES_ZABLOKOWANY_MYSZ"
  using mysz_bez_zgubienia [of "(planista_dwa 1)\<lparr>pl_ostatnie_zdarzenie := \<lambda>_. 1\<rparr>" 0]
  by (simp add: planista_dwa_def planista_zero_def stan_pid_def pid_uzytkownika_def Let_def)

end
