(* ===== verification/Loader.thy ===== *)
theory Loader
  imports Planista Bezpieczenstwo
begin

section \<open>The program loader\<close>

text \<open>
  \<open>loader.cpp\<close> and the file format of \<open>loader.h\<close>. The state adds to the scheduler's the start arguments
  and the bytes of physical memory, which the kernel reaches at the same addresses. \<open>None\<close> is a loop
  that does not end. The file system's \<open>bsp_wczytaj_plik_do_pamieci\<close> is a parameter: a buffer
  address (0 on failure), a size and the memory after the read. The spinlock and the interrupt flag
  make the steps on slots atomic; the log is left out.
\<close>

record loader =
  ld_planista :: planista
  ld_argument :: "nat \<Rightarrow> nat \<Rightarrow> u8"
  ld_pamiec :: pamiec

abbreviation MAKS_DLUGOSC_SCIEZKI :: nat where "MAKS_DLUGOSC_SCIEZKI \<equiv> 64"
abbreviation MAKS_ARGUMENT_STARTOWY :: nat where "MAKS_ARGUMENT_STARTOWY \<equiv> 512"

definition MIN_ADRES_USER :: u64 where "MIN_ADRES_USER = 0x1000"
definition KONIEC_ADRESOW_USER :: u64 where "KONIEC_ADRESOW_USER = 0x0000800000000000"
definition BAZA_STERTY_USER :: u64 where "BAZA_STERTY_USER = 0x0000000800000000"
definition BAZA_STOSU_USER :: u64 where "BAZA_STOSU_USER = 0x00007FFFF0000000"
definition LICZBA_STRON_STOSU_USER :: nat where "LICZBA_STRON_STOSU_USER = 4"
definition ROZMIAR_STOSU_USER :: u64 where "ROZMIAR_STOSU_USER = 0x4000"
definition MAKS_ROZMIAR_SEGMENTU_BUR :: u64 where "MAKS_ROZMIAR_SEGMENTU_BUR = 0x10000000"
definition ROZMIAR_STOSU_JADRA :: u64 where "ROZMIAR_STOSU_JADRA = 0x4000"
definition ROZMIAR_RAMY :: u64 where "ROZMIAR_RAMY = 0xB0"
definition ROZMIAR_NAGLOWKA_BUR :: u64 where "ROZMIAR_NAGLOWKA_BUR = 60"

definition FLAGA_OBECNA :: u32 where "FLAGA_OBECNA = 1"
definition FLAGA_ZAPIS :: u32 where "FLAGA_ZAPIS = 2"
definition FLAGA_USER :: u32 where "FLAGA_USER = 4"

subsection \<open>Ranges and strings\<close>

definition dodaj_bez_przepelnienia :: "u64 \<Rightarrow> u64 \<Rightarrow> u64 option" where
  "dodaj_bez_przepelnienia a b = (if a > UINT64_MAX - b then None else Some (a + b))"

text \<open>The end of the range when it lies between the bounds.\<close>

definition zakres_w_przedziale :: "u64 \<Rightarrow> u64 \<Rightarrow> u64 \<Rightarrow> u64 \<Rightarrow> u64 option" where
  "zakres_w_przedziale poczatek rozmiar dolna gorna =
     (if rozmiar = 0 then None
      else if poczatek < dolna then None
      else if poczatek \<ge> gorna then None
      else case dodaj_bez_przepelnienia poczatek rozmiar of None \<Rightarrow> None
        | Some kon \<Rightarrow> if kon > gorna then None else Some kon)"

definition zakresy_nachodza :: "u64 \<Rightarrow> u64 \<Rightarrow> u64 \<Rightarrow> u64 \<Rightarrow> bool" where
  "zakresy_nachodza a_poczatek a_koniec b_poczatek b_koniec \<longleftrightarrow> a_poczatek < b_koniec \<and> b_poczatek < a_koniec"

fun takie_same_od :: "nat \<Rightarrow> (nat \<Rightarrow> u8) \<Rightarrow> (nat \<Rightarrow> u8) \<Rightarrow> nat \<Rightarrow> bool" where
  "takie_same_od 0 a b i = False"
| "takie_same_od (Suc n) a b i =
     (let ca = a i; cb = b i in
      if ca \<noteq> cb then False else if ca = 0 then True else takie_same_od n a b (i + 1))"

definition takie_same_sciezki :: "(nat \<Rightarrow> u8) \<Rightarrow> (nat \<Rightarrow> u8) \<Rightarrow> bool" where
  "takie_same_sciezki a b = takie_same_od MAKS_DLUGOSC_SCIEZKI a b 0"

text \<open>\<open>n\<close> characters are left of the 63 that the loop copies.\<close>

fun kopiuj_sciezke_od :: "nat \<Rightarrow> pamiec \<Rightarrow> u64 \<Rightarrow> u64 \<Rightarrow> nat \<Rightarrow> bool \<times> pamiec" where
  "kopiuj_sciezke_od 0 pam cel zrodlo i = (False, pam(cel + of_nat (MAKS_DLUGOSC_SCIEZKI - 1) := 0))"
| "kopiuj_sciezke_od (Suc n) pam cel zrodlo i =
     (let c = pam (zrodlo + of_nat i); pam1 = pam(cel + of_nat i := c) in
      if c = 0 then (i \<noteq> 0, pam1) else kopiuj_sciezke_od n pam1 cel zrodlo (i + 1))"

definition kopiuj_sciezke_z_jadra :: "pamiec \<Rightarrow> u64 \<Rightarrow> u64 \<Rightarrow> bool \<times> pamiec" where
  "kopiuj_sciezke_z_jadra pam cel zrodlo =
     (if cel = 0 \<or> zrodlo = 0 then (False, pam)
      else kopiuj_sciezke_od (MAKS_DLUGOSC_SCIEZKI - 1) pam cel zrodlo 0)"

definition pobierz_bezpieczna_sciezke ::
  "sprawdzenie option \<Rightarrow> pamiec \<Rightarrow> u64 \<Rightarrow> u64 \<Rightarrow> bool \<Rightarrow> bool \<times> pamiec" where
  "pobierz_bezpieczna_sciezke hook pam cel sciezka z_syscalla =
     (if cel = 0 \<or> sciezka = 0 then (False, pam)
      else case (if z_syscalla then skopiuj_string_z_uzytkownika hook pam cel sciezka (of_nat MAKS_DLUGOSC_SCIEZKI)
                 else kopiuj_sciezke_z_jadra pam cel sciezka) of
        (ok, pam1) \<Rightarrow> if \<not> ok then (False, pam1) else (pam1 cel \<noteq> 0, pam1))"

text \<open>A bounded copy of a kernel string, \<open>None\<close> for a null pointer: the loop stops at the terminator
  or after 511 characters.\<close>

definition dlugosc_do :: "nat \<Rightarrow> (nat \<Rightarrow> u8) \<Rightarrow> nat" where
  "dlugosc_do maks zrodlo = length (takeWhile (\<lambda>i. zrodlo i \<noteq> 0) [0 ..< maks - 1])"

definition kopiuj_argument_startowy :: "(nat \<Rightarrow> u8) \<Rightarrow> (nat \<Rightarrow> u8) option \<Rightarrow> bool \<times> (nat \<Rightarrow> u8)" where
  "kopiuj_argument_startowy cel zrodlo =
     (let cel0 = cel(0 := 0) in
      case zrodlo of None \<Rightarrow> (True, cel0)
      | Some z \<Rightarrow>
        let i = dlugosc_do MAKS_ARGUMENT_STARTOWY z;
            cel1 = (\<lambda>k. if k < i then z k else cel0 k)
        in if z i \<noteq> 0 then (False, cel1(0 := 0)) else (True, cel1(i := 0)))"

subsection \<open>Slots\<close>

definition wyzeruj_znane_pola_procesu :: "proces_t \<Rightarrow> proces_t" where
  "wyzeruj_znane_pola_procesu p =
     p\<lparr>pr_pid := 0, pr_poziom := 0, pr_uprawnienia := 0, pr_przestrzen := 0, pr_rsp := 0, pr_baza := 0,
       pr_szczyt := 0, pr_cr3 := 0, pr_granica := 0, pr_sciezka := (pr_sciezka p)(0 := 0)\<rparr>"

definition sciezka_juz_zarezerwowana :: "planista \<Rightarrow> (nat \<Rightarrow> u8) \<Rightarrow> bool" where
  "sciezka_juz_zarezerwowana s sciezka \<longleftrightarrow>
     list_ex (\<lambda>i. stan_pid s i \<noteq> PROCES_PUSTY \<and> stan_pid s i \<noteq> PROCES_KONCZACY \<and>
                  takie_same_sciezki (pr_sciezka (pl_tablica s i)) sciezka) [1 ..< MAKS_PROCESOW]"

definition sciezka_slotu :: "(nat \<Rightarrow> u8) \<Rightarrow> (nat \<Rightarrow> u8) \<Rightarrow> nat \<Rightarrow> u8" where
  "sciezka_slotu stara sciezka =
     (let i = dlugosc_do MAKS_DLUGOSC_SCIEZKI sciezka in (\<lambda>k. if k < i then sciezka k else stara k)(i := 0))"

definition zarezerwuj_slot_procesu :: "loader \<Rightarrow> (nat \<Rightarrow> u8) \<Rightarrow> int \<times> loader" where
  "zarezerwuj_slot_procesu s sciezka =
     (let pl = ld_planista s in
      if sciezka_juz_zarezerwowana pl sciezka then (-2, s)
      else case find (\<lambda>i. stan_pid pl i = PROCES_PUSTY) [1 ..< MAKS_PROCESOW] of
        None \<Rightarrow> (-1, s)
      | Some pid \<Rightarrow>
          let p = wyzeruj_znane_pola_procesu (pl_tablica pl pid);
              p1 = p\<lparr>pr_pid := of_nat pid, pr_sciezka := sciezka_slotu (pr_sciezka p) sciezka, pr_stan := PROCES_ZABLOKOWANY\<rparr>
          in (int pid, s\<lparr>ld_argument := (ld_argument s)(pid := (ld_argument s pid)(0 := 0)),
                         ld_planista := ustaw_proces pl pid p1\<rparr>))"

definition zwolnij_rezerwacje_procesu :: "loader \<Rightarrow> int \<Rightarrow> loader" where
  "zwolnij_rezerwacje_procesu s pid =
     (if pid \<le> 0 \<or> pid \<ge> int MAKS_PROCESOW then s
      else let pl = ld_planista s; i = nat pid in
        s\<lparr>ld_argument := (ld_argument s)(i := (ld_argument s i)(0 := 0)),
          ld_planista := ustaw_proces pl i ((wyzeruj_znane_pola_procesu (pl_tablica pl i))\<lparr>pr_stan := PROCES_PUSTY\<rparr>)\<rparr>)"

subsection \<open>The file header\<close>

record NaglowekBur =
  nb_magia :: "nat \<Rightarrow> u8"
  nb_wejscie :: u64
  nb_tekst_przesuniecie :: u64
  nb_tekst_rozmiar :: u64
  nb_tekst_wirtualny :: u64
  nb_dane_przesuniecie :: u64
  nb_dane_rozmiar :: u64
  nb_dane_wirtualny :: u64

definition PorownajPamiec :: "(nat \<Rightarrow> u8) \<Rightarrow> (nat \<Rightarrow> u8) \<Rightarrow> nat \<Rightarrow> bool" where
  "PorownajPamiec p1 p2 rozmiar = list_all (\<lambda>i. p1 i = p2 i) [0 ..< rozmiar]"

definition oczekiwana_magia :: "nat \<Rightarrow> u8" where
  "oczekiwana_magia i = (if i = 0 then 0x42 else if i = 1 then 0x55 else if i = 2 then 0x52 else 0)"

text \<open>The block that checks a data segment of non-zero size.\<close>

definition dane_naglowka_poprawne :: "NaglowekBur \<Rightarrow> u64 \<Rightarrow> u64 \<Rightarrow> u64 \<Rightarrow> bool" where
  "dane_naglowka_poprawne n rozmiar_pliku koniec_tekstu_w_pliku koniec_tekstu_va =
     (case zakres_w_przedziale (nb_dane_wirtualny n) (nb_dane_rozmiar n) MIN_ADRES_USER BAZA_STERTY_USER of
        None \<Rightarrow> False
      | Some koniec_danych_va \<Rightarrow>
        if zakresy_nachodza (nb_tekst_wirtualny n) koniec_tekstu_va (nb_dane_wirtualny n) koniec_danych_va then False
        else let pozostale_dane = rozmiar_pliku - nb_dane_przesuniecie n;
                 dane_w_pliku = (if nb_dane_rozmiar n < pozostale_dane then nb_dane_rozmiar n else pozostale_dane)
             in if dane_w_pliku = 0 then True
                else case dodaj_bez_przepelnienia (nb_dane_przesuniecie n) dane_w_pliku of None \<Rightarrow> False
                  | Some koniec_danych_w_pliku \<Rightarrow>
                    \<not> zakresy_nachodza (nb_tekst_przesuniecie n) koniec_tekstu_w_pliku
                        (nb_dane_przesuniecie n) koniec_danych_w_pliku)"

definition poprawny_naglowek_bur :: "NaglowekBur \<Rightarrow> u64 \<Rightarrow> bool" where
  "poprawny_naglowek_bur n rozmiar_pliku =
     (if \<not> PorownajPamiec (nb_magia n) oczekiwana_magia 4 then False
      else if nb_tekst_rozmiar n = 0 \<or> nb_tekst_rozmiar n > MAKS_ROZMIAR_SEGMENTU_BUR \<or>
              nb_dane_rozmiar n > MAKS_ROZMIAR_SEGMENTU_BUR then False
      else if nb_tekst_wirtualny n AND 0xFFF \<noteq> 0 then False
      else if nb_dane_rozmiar n \<noteq> 0 \<and> nb_dane_wirtualny n AND 0xFFF \<noteq> 0 then False
      else if nb_tekst_przesuniecie n < ROZMIAR_NAGLOWKA_BUR \<or> nb_tekst_przesuniecie n > rozmiar_pliku then False
      else case dodaj_bez_przepelnienia (nb_tekst_przesuniecie n) (nb_tekst_rozmiar n) of None \<Rightarrow> False
      | Some koniec_tekstu_w_pliku \<Rightarrow>
        if koniec_tekstu_w_pliku > rozmiar_pliku then False
        else if nb_dane_rozmiar n \<noteq> 0 \<and>
                (nb_dane_przesuniecie n < ROZMIAR_NAGLOWKA_BUR \<or> nb_dane_przesuniecie n > rozmiar_pliku) then False
        else case zakres_w_przedziale (nb_tekst_wirtualny n) (nb_tekst_rozmiar n) MIN_ADRES_USER BAZA_STERTY_USER of
          None \<Rightarrow> False
        | Some koniec_tekstu_va \<Rightarrow>
          if nb_dane_rozmiar n \<noteq> 0 \<and>
             \<not> dane_naglowka_poprawne n rozmiar_pliku koniec_tekstu_w_pliku koniec_tekstu_va
          then False
          else if nb_wejscie n < nb_tekst_wirtualny n \<or> nb_wejscie n \<ge> koniec_tekstu_va then False
          else if BAZA_STOSU_USER < MIN_ADRES_USER \<or> BAZA_STOSU_USER \<ge> KONIEC_ADRESOW_USER then False
          else (case dodaj_bez_przepelnienia BAZA_STOSU_USER ROZMIAR_STOSU_USER of None \<Rightarrow> False
                | Some koniec_stosu \<Rightarrow> if koniec_stosu > KONIEC_ADRESOW_USER then False else True))"

subsection \<open>Memory\<close>

definition KopiujPamiec :: "pamiec \<Rightarrow> u64 \<Rightarrow> u64 \<Rightarrow> u64 \<Rightarrow> pamiec" where
  "KopiujPamiec pam cel zrodlo rozmiar =
     (if rozmiar = 0 then pam
      else if cel = 0 \<or> zrodlo = 0 then pam
      else kopiuj_fragment cel zrodlo (unat rozmiar) pam)"

text \<open>The byte loops that clear a page and a register frame.\<close>

definition zeruj_bajty :: "pamiec \<Rightarrow> u64 \<Rightarrow> nat \<Rightarrow> pamiec" where
  "zeruj_bajty pam cel n = foldl (\<lambda>p i. p(cel + of_nat i := 0)) pam [0 ..< n]"

text \<open>Little-endian words in memory: the fields of the packed header and of the register frame.\<close>

definition czytaj_u64 :: "pamiec \<Rightarrow> u64 \<Rightarrow> u64" where
  "czytaj_u64 pam a = foldr (\<lambda>i x. push_bit 8 x OR ucast (pam (a + of_nat i))) [0 ..< 8] 0"

definition zapisz_u64 :: "pamiec \<Rightarrow> u64 \<Rightarrow> u64 \<Rightarrow> pamiec" where
  "zapisz_u64 pam a x = foldl (\<lambda>p i. p(a + of_nat i := ucast (drop_bit (8 * i) x))) pam [0 ..< 8]"

definition naglowek_z_bufora :: "pamiec \<Rightarrow> u64 \<Rightarrow> NaglowekBur" where
  "naglowek_z_bufora pam a =
     \<lparr>nb_magia = (\<lambda>i. pam (a + of_nat i)), nb_wejscie = czytaj_u64 pam (a + 0x04),
      nb_tekst_przesuniecie = czytaj_u64 pam (a + 0x0C), nb_tekst_rozmiar = czytaj_u64 pam (a + 0x14),
      nb_tekst_wirtualny = czytaj_u64 pam (a + 0x1C), nb_dane_przesuniecie = czytaj_u64 pam (a + 0x24),
      nb_dane_rozmiar = czytaj_u64 pam (a + 0x2C), nb_dane_wirtualny = czytaj_u64 pam (a + 0x34)\<rparr>"

definition ld_vmm :: "loader \<Rightarrow> vmm" where
  "ld_vmm s = pl_vmm (ld_planista s)"

definition ustaw_vmm :: "loader \<Rightarrow> vmm \<Rightarrow> loader" where
  "ustaw_vmm s v = s\<lparr>ld_planista := (ld_planista s)\<lparr>pl_vmm := v\<rparr>\<rparr>"

definition ld_sterta :: "loader \<Rightarrow> sterta" where
  "ld_sterta s = pl_sterta (ld_planista s)"

definition ustaw_sterte :: "loader \<Rightarrow> sterta \<Rightarrow> loader" where
  "ustaw_sterte s h = s\<lparr>ld_planista := (ld_planista s)\<lparr>pl_sterta := h\<rparr>\<rparr>"

definition ROZMIAR_STRONY_LOADERA :: nat where "ROZMIAR_STRONY_LOADERA = 4096"

text \<open>One iteration of the loop that maps a segment.\<close>

definition mapuj_strone_segmentu :: "loader \<Rightarrow> u64 \<Rightarrow> u64 \<Rightarrow> u64 \<Rightarrow> u32 \<Rightarrow> u64 \<Rightarrow> bool \<times> loader" where
  "mapuj_strone_segmentu s adres_wirtualny dane_pliku rozmiar_danych flagi przesuniecie =
     (case ZaalokujRamke (vm_pmm (ld_vmm s)) of (ramka, p) \<Rightarrow>
        let s1 = ustaw_vmm s ((ld_vmm s)\<lparr>vm_pmm := p\<rparr>) in
        if ramka = 0 then (False, s1)
        else let cel = of_nat ramka;
                 pam1 = zeruj_bajty (ld_pamiec s1) cel ROZMIAR_STRONY_LOADERA;
                 pam2 = (if przesuniecie < rozmiar_danych
                         then let pozostalo = rozmiar_danych - przesuniecie;
                                  do_kopiowania = (if pozostalo < of_nat ROZMIAR_STRONY_LOADERA then pozostalo else of_nat ROZMIAR_STRONY_LOADERA)
                              in KopiujPamiec pam1 cel (dane_pliku + przesuniecie) do_kopiowania
                         else pam1)
             in (True, (ustaw_vmm s1 (ZmapujStrone (ld_vmm s1) (adres_wirtualny + przesuniecie) cel flagi))\<lparr>ld_pamiec := pam2\<rparr>))"

partial_function (option) mapuj_segment_petla :: "u64 \<Rightarrow> u64 \<Rightarrow> u64 \<Rightarrow> u64 \<Rightarrow> u32 \<Rightarrow> u64 \<Rightarrow> loader \<Rightarrow> (bool \<times> loader) option" where
  "mapuj_segment_petla adres_wirtualny rozmiar dane_pliku rozmiar_danych flagi przesuniecie s =
     (if \<not> przesuniecie < rozmiar then Some (True, s)
      else case mapuj_strone_segmentu s adres_wirtualny dane_pliku rozmiar_danych flagi przesuniecie of (ok, s1) \<Rightarrow>
        if \<not> ok then Some (False, s1)
        else mapuj_segment_petla adres_wirtualny rozmiar dane_pliku rozmiar_danych flagi
               (przesuniecie + of_nat ROZMIAR_STRONY_LOADERA) s1)"

declare mapuj_segment_petla.simps [simp del]

definition mapuj_segment_z_pliku :: "loader \<Rightarrow> u64 \<Rightarrow> u64 \<Rightarrow> u64 \<Rightarrow> u64 \<Rightarrow> u32 \<Rightarrow> (bool \<times> loader) option" where
  "mapuj_segment_z_pliku s adres_wirtualny rozmiar_w_pamieci dane_pliku rozmiar_danych flagi =
     (if rozmiar_w_pamieci = 0 then Some (True, s)
      else if dane_pliku = 0 \<and> rozmiar_danych \<noteq> 0 then Some (False, s)
      else if rozmiar_danych > rozmiar_w_pamieci then Some (False, s)
      else mapuj_segment_petla adres_wirtualny rozmiar_w_pamieci dane_pliku rozmiar_danych flagi 0 s)"

fun mapuj_stos_od :: "nat \<Rightarrow> nat \<Rightarrow> u32 \<Rightarrow> loader \<Rightarrow> bool \<times> loader" where
  "mapuj_stos_od 0 i flagi s = (True, s)"
| "mapuj_stos_od (Suc n) i flagi s =
     (case ZaalokujRamke (vm_pmm (ld_vmm s)) of (ramka, p) \<Rightarrow>
        let s1 = ustaw_vmm s ((ld_vmm s)\<lparr>vm_pmm := p\<rparr>) in
        if ramka = 0 then (False, s1)
        else let cel = of_nat ramka;
                 pam1 = zeruj_bajty (ld_pamiec s1) cel ROZMIAR_STRONY_LOADERA
             in mapuj_stos_od n (i + 1) flagi
                  ((ustaw_vmm s1 (ZmapujStrone (ld_vmm s1)
                      (BAZA_STOSU_USER + of_nat i * of_nat ROZMIAR_STRONY_LOADERA) cel flagi))\<lparr>ld_pamiec := pam1\<rparr>))"

definition mapuj_stos_uzytkownika :: "loader \<Rightarrow> u32 \<Rightarrow> bool \<times> loader" where
  "mapuj_stos_uzytkownika s flagi = mapuj_stos_od LICZBA_STRON_STOSU_USER 0 flagi s"

definition wyzeruj_rame_rejestrow :: "pamiec \<Rightarrow> u64 \<Rightarrow> pamiec" where
  "wyzeruj_rame_rejestrow pam rama = (if rama = 0 then pam else zeruj_bajty pam rama (unat ROZMIAR_RAMY))"

definition rama_startowa :: "pamiec \<Rightarrow> u64 \<Rightarrow> u64 \<Rightarrow> pamiec" where
  "rama_startowa pam rama wejscie =
     (let p1 = zapisz_u64 pam (rama + 0x78) 0;
          p2 = zapisz_u64 p1 (rama + 0x80) 0;
          p3 = zapisz_u64 p2 (rama + 0x88) wejscie;
          p4 = zapisz_u64 p3 (rama + 0x90) 0x23;
          p5 = zapisz_u64 p4 (rama + 0x98) 0x202;
          p6 = zapisz_u64 p5 (rama + 0xA0) (BAZA_STOSU_USER + ROZMIAR_STOSU_USER - 8)
      in zapisz_u64 p6 (rama + 0xA8) 0x1B)"

definition posprzataj_przestrzen_po_bledzie :: "loader \<Rightarrow> u64 \<Rightarrow> loader" where
  "posprzataj_przestrzen_po_bledzie s pml4 =
     (if pml4 = 0 then s else ustaw_vmm s (ZniszczPrzestrzenAdresowaProcesu (ld_vmm s) pml4))"

subsection \<open>Starting a program\<close>

text \<open>The three segments, in the new address space.\<close>

definition mapuj_program :: "loader \<Rightarrow> NaglowekBur \<Rightarrow> u64 \<Rightarrow> u64 \<Rightarrow> (bool \<times> loader) option" where
  "mapuj_program s n bufor rozmiar_pliku =
     (let flagi_kod = FLAGA_OBECNA OR FLAGA_USER;
          flagi_dane = FLAGA_OBECNA OR FLAGA_ZAPIS OR FLAGA_USER
      in case mapuj_segment_z_pliku s (nb_tekst_wirtualny n) (nb_tekst_rozmiar n)
                (bufor + nb_tekst_przesuniecie n) (nb_tekst_rozmiar n) flagi_kod of
        None \<Rightarrow> None
      | Some (ok1, s1) \<Rightarrow>
        case (if ok1 \<and> nb_dane_rozmiar n \<noteq> 0
              then let dostepne = rozmiar_pliku - nb_dane_przesuniecie n;
                       kopiowane = (if nb_dane_rozmiar n < dostepne then nb_dane_rozmiar n else dostepne)
                   in mapuj_segment_z_pliku s1 (nb_dane_wirtualny n) (nb_dane_rozmiar n)
                        (bufor + nb_dane_przesuniecie n) kopiowane flagi_dane
              else Some (ok1, s1)) of
          None \<Rightarrow> None
        | Some (ok2, s2) \<Rightarrow> Some (if ok2 then mapuj_stos_uzytkownika s2 flagi_dane else (False, s2)))"

definition zwolnij_i_odmow :: "loader \<Rightarrow> u64 \<Rightarrow> int \<Rightarrow> bool \<times> loader" where
  "zwolnij_i_odmow s baza pid = (False, zwolnij_rezerwacje_procesu (ustaw_sterte s (the (kfree (ld_sterta s) baza))) pid)"

definition opublikuj_proces :: "loader \<Rightarrow> int \<Rightarrow> u8 \<Rightarrow> u64 \<Rightarrow> u64 \<Rightarrow> u64 \<Rightarrow> u64 \<Rightarrow> u64 \<Rightarrow> (nat \<Rightarrow> u8) \<Rightarrow> bool \<times> loader" where
  "opublikuj_proces s pid poziom prawa pml4 rama baza szczyt argument =
     (let i = nat pid; pl = ld_planista s;
          p = (pl_tablica pl i)\<lparr>pr_pid := of_int pid, pr_poziom := poziom, pr_uprawnienia := prawa, pr_przestrzen := pml4,
                pr_rsp := rama, pr_baza := baza, pr_szczyt := szczyt, pr_cr3 := pml4, pr_granica := BAZA_STERTY_USER\<rparr>;
          s1 = s\<lparr>ld_planista := ustaw_proces pl i p\<rparr>;
          (ok, arg) = kopiuj_argument_startowy (ld_argument s1 i) (Some argument);
          s2 = s1\<lparr>ld_argument := (ld_argument s1)(i := arg)\<rparr>
      in if \<not> ok then (False, s2)
         else (True, s2\<lparr>ld_planista := ustaw_stan_procesu (ld_planista s2) i PROCES_GOTOWY\<rparr>))"

text \<open>From the file in the buffer to the published process.\<close>

definition zbuduj_proces :: "loader \<Rightarrow> int \<Rightarrow> u64 \<Rightarrow> u64 \<Rightarrow> u8 \<Rightarrow> u64 \<Rightarrow> (nat \<Rightarrow> u8) \<Rightarrow> (bool \<times> loader) option" where
  "zbuduj_proces s pid bufor rozmiar_pliku poziom prawa argument =
     (if bufor = 0 \<or> rozmiar_pliku < ROZMIAR_NAGLOWKA_BUR then Some (False, zwolnij_rezerwacje_procesu s pid)
      else let n = naglowek_z_bufora (ld_pamiec s) bufor in
      if \<not> poprawny_naglowek_bur n rozmiar_pliku then Some (False, zwolnij_rezerwacje_procesu s pid)
      else case kmalloc (ld_sterta s) ROZMIAR_STOSU_JADRA of None \<Rightarrow> None
      | Some (baza, h) \<Rightarrow>
        let s1 = ustaw_sterte s h in
        if baza = 0 then Some (False, zwolnij_rezerwacje_procesu s1 pid)
        else let szczyt = baza + ROZMIAR_STOSU_JADRA in
        if szczyt < baza \<or> ROZMIAR_STOSU_JADRA < ROZMIAR_RAMY then Some (zwolnij_i_odmow s1 baza pid)
        else let rama = szczyt - ROZMIAR_RAMY;
                 s2 = s1\<lparr>ld_pamiec := wyzeruj_rame_rejestrow (ld_pamiec s1) rama\<rparr>;
                 (poprzednie, v1) = PobierzAktualnePML4 (ld_vmm s2);
                 s3 = ustaw_vmm s2 v1
             in
        if poprzednie = 0 then Some (zwolnij_i_odmow s3 baza pid)
        else let (pml4, v2) = UtworzPrzestrzenAdresowaProcesu (ld_vmm s3);
                 s4 = ustaw_vmm s3 v2
             in
        if pml4 = 0 then Some (zwolnij_i_odmow s4 baza pid)
        else let s5 = ustaw_vmm s4 (UstawPrzestrzenAdresowa (ld_vmm s4) pml4) in
        case mapuj_program s5 n bufor rozmiar_pliku of None \<Rightarrow> None
        | Some (ok, s6) \<Rightarrow>
          let s7 = ustaw_vmm s6 (UstawPrzestrzenAdresowa (ld_vmm s6) poprzednie) in
          if \<not> ok then Some (zwolnij_i_odmow (posprzataj_przestrzen_po_bledzie s7 pml4) baza pid)
          else let s8 = s7\<lparr>ld_pamiec := rama_startowa (ld_pamiec s7) rama (nb_wejscie n)\<rparr> in
            Some (opublikuj_proces s8 pid poziom prawa pml4 rama baza szczyt argument))"

text \<open>\<open>pam\<close> is the caller's memory, \<open>cel\<close> the address of the local path buffer; the file is read
  with interrupts on, between the reservation and the rest.\<close>

definition uruchom_program_z_pliku_impl ::
  "((nat \<Rightarrow> u8) \<Rightarrow> pamiec \<Rightarrow> u64 \<times> u64 \<times> pamiec) \<Rightarrow> sprawdzenie option \<Rightarrow> pamiec \<Rightarrow> u64 \<Rightarrow> loader \<Rightarrow>
   u64 \<Rightarrow> u8 \<Rightarrow> u64 \<Rightarrow> bool \<Rightarrow> (nat \<Rightarrow> u8) option \<Rightarrow> (bool \<times> loader) option" where
  "uruchom_program_z_pliku_impl wczytaj hook pam cel s sciezka poziom prawa z_syscalla argument =
     (if poziom > 5 then Some (False, s)
      else let (ok, pam1) = pobierz_bezpieczna_sciezke hook pam cel sciezka z_syscalla in
      if \<not> ok then Some (False, s)
      else let bezpieczna = (\<lambda>i. pam1 (cel + of_nat i));
               (ok2, bezpieczny_argument) = kopiuj_argument_startowy (\<lambda>_. 0) argument
           in
      if \<not> ok2 then Some (False, s)
      else let (pid, s1) = zarezerwuj_slot_procesu s bezpieczna in
      if pid = -2 then Some (False, s1)
      else if pid < 0 then Some (False, s1)
      else let (bufor, rozmiar, pam2) = wczytaj bezpieczna (ld_pamiec s1)
           in zbuduj_proces (s1\<lparr>ld_pamiec := pam2\<rparr>) pid bufor rozmiar poziom prawa bezpieczny_argument)"

definition bws_uruchom_program_z_pliku ::
  "((nat \<Rightarrow> u8) \<Rightarrow> pamiec \<Rightarrow> u64 \<times> u64 \<times> pamiec) \<Rightarrow> sprawdzenie option \<Rightarrow> pamiec \<Rightarrow> u64 \<Rightarrow> loader \<Rightarrow>
   u64 \<Rightarrow> u8 \<Rightarrow> u64 \<Rightarrow> bool \<Rightarrow> (bool \<times> loader) option" where
  "bws_uruchom_program_z_pliku wczytaj hook pam cel s sciezka poziom prawa z_syscalla =
     uruchom_program_z_pliku_impl wczytaj hook pam cel s sciezka poziom prawa z_syscalla None"

definition bws_uruchom_program_z_pliku_z_argumentem ::
  "((nat \<Rightarrow> u8) \<Rightarrow> pamiec \<Rightarrow> u64 \<times> u64 \<times> pamiec) \<Rightarrow> sprawdzenie option \<Rightarrow> pamiec \<Rightarrow> u64 \<Rightarrow> loader \<Rightarrow>
   u64 \<Rightarrow> u8 \<Rightarrow> u64 \<Rightarrow> bool \<Rightarrow> (nat \<Rightarrow> u8) option \<Rightarrow> (bool \<times> loader) option" where
  "bws_uruchom_program_z_pliku_z_argumentem wczytaj hook pam cel s sciezka poziom prawa z_syscalla argument =
     (case argument of None \<Rightarrow> Some (False, s)
      | Some a \<Rightarrow> if a 0 = 0 then Some (False, s)
          else uruchom_program_z_pliku_impl wczytaj hook pam cel s sciezka poziom prawa z_syscalla (Some a))"

subsection \<open>Start arguments\<close>

text \<open>The result is the text written to the caller's buffer, \<open>None\<close> when nothing is.\<close>

definition loader_pobierz_argument_startowy :: "loader \<Rightarrow> int \<Rightarrow> (nat \<Rightarrow> u8) option \<Rightarrow> nat \<Rightarrow> bool \<times> (nat \<Rightarrow> u8) option" where
  "loader_pobierz_argument_startowy s pid wynik pojemnosc =
     (if pid \<le> 0 \<or> pid \<ge> int MAKS_PROCESOW \<or> wynik = None \<or> pojemnosc = 0 then (False, wynik)
      else let zrodlo = ld_argument s (nat pid); w = the wynik;
               i = dlugosc_do pojemnosc zrodlo;
               w1 = (\<lambda>k. if k < i then zrodlo k else w k)
           in if zrodlo i \<noteq> 0 then (False, Some (w1(0 := 0))) else (i \<noteq> 0, Some (w1(i := 0))))"

definition loader_przekaz_argument_uruchomionemu :: "loader \<Rightarrow> (nat \<Rightarrow> u8) option \<Rightarrow> (nat \<Rightarrow> u8) option \<Rightarrow> int \<times> loader" where
  "loader_przekaz_argument_uruchomionemu s sciezka argument =
     (case (sciezka, argument) of
        (Some sc, Some a) \<Rightarrow>
          if a 0 = 0 then (-1, s)
          else let (ok, kopia) = kopiuj_argument_startowy (\<lambda>_. 0) (Some a) in
          if \<not> ok then (-1, s)
          else (let pl = ld_planista s in
            case find (\<lambda>pid. \<not> (stan_pid pl pid = PROCES_PUSTY \<or> stan_pid pl pid = PROCES_KONCZACY) \<and>
                             takie_same_sciezki (pr_sciezka (pl_tablica pl pid)) sc) [1 ..< MAKS_PROCESOW] of
              None \<Rightarrow> (0, s)
            | Some pid \<Rightarrow> (int pid, s\<lparr>ld_argument := (ld_argument s)(pid :=
                             snd (kopiuj_argument_startowy (ld_argument s pid) (Some kopia)))\<rparr>))
      | _ \<Rightarrow> (-1, s))"

end
