(* ===== verification/Loader_Pamiec.thy ===== *)
theory Loader_Pamiec
  imports Loader Planista_Wlasnosci Vmm_Procesy
begin

section \<open>What the loader puts into memory\<close>

text \<open>
  The leaf a page walk ends in, and how mapping one page changes it; the byte loops as functions of
  the address; then the loops over the pages of a program, up to the statement that a new process can
  reach nothing but its program's pages, with the right bytes and rights.
\<close>

subsection \<open>Leaves\<close>

text \<open>The physical page of an address with the user and write bits of its leaf entry.\<close>

definition lisc :: "vmm \<Rightarrow> u64 \<Rightarrow> u64 \<Rightarrow> (u64 \<times> bool \<times> bool) option" where
  "lisc v p a = (let w = sprawdz_mapowanie v p a in
     if ww_obecna w then Some (strona_fizyczna w a, bit (ww_wpis w) 2, bit (ww_wpis w) 1) else None)"

lemma lisc_spacer:
  "lisc v p a = (if p = 0 \<or> \<not> adres_kanoniczny a then None
     else map_option (\<lambda>(l, e, u, w). (adres_ramki l e a, bit e 2, bit e 1)) (spacer (vm_tabele v) 4 p a True True))"
proof (cases "p = 0 \<or> \<not> adres_kanoniczny a")
  case True
  then show ?thesis by (auto simp: lisc_def sprawdz_spacer wynik_pusty_def)
next
  case False
  show ?thesis
  proof (cases "spacer (vm_tabele v) 4 p a True True")
    case None
    then show ?thesis using False by (simp add: lisc_def sprawdz_spacer wynik_pusty_def)
  next
    case (Some r)
    then obtain l e u w where s: "spacer (vm_tabele v) 4 p a True True = Some (l, e, u, w)" by (cases r) auto
    have "1 \<le> l \<and> l \<le> 4 \<and> l \<noteq> 4" by (rule spacer_poziom [OF s])
    then have "(if rozmiar_poziomu l = STRONA_1G then 3 else if rozmiar_poziomu l = STRONA_2M then 2 else 1) = l"
      by (auto simp: rozmiar_poziomu_def)
    then have "strona_fizyczna \<lparr>ww_obecna = True, ww_user = u, ww_zapisywalna = w, ww_duza = (l \<noteq> 1), ww_wpis = e,
        ww_rozmiar = rozmiar_poziomu l\<rparr> a = adres_ramki l e a"
      unfolding strona_fizyczna_def WynikWalkera.simps by (simp only:)
    then show ?thesis using False s by (simp add: lisc_def sprawdz_spacer Let_def)
  qed
qed

lemma lisc_uzytkownika:
  assumes "ww_obecna (sprawdz_mapowanie v p a)" "ww_user (sprawdz_mapowanie v p a)"
  shows "\<exists>z. lisc v p a = Some (strona_fizyczna (sprawdz_mapowanie v p a) a, True, z) \<and>
    (ww_zapisywalna (sprawdz_mapowanie v p a) \<longrightarrow> z)"
proof -
  have "ww_user (sprawdz_mapowanie v p a) \<longrightarrow> bit (ww_wpis (sprawdz_mapowanie v p a)) 2"
    "ww_zapisywalna (sprawdz_mapowanie v p a) \<longrightarrow> bit (ww_wpis (sprawdz_mapowanie v p a)) 1"
    using assms(1) spacer_liscia [of "vm_tabele v" 4 p a True True]
    by (auto simp: sprawdz_spacer wynik_pusty_def split: option.splits if_splits)
  then show ?thesis using assms by (simp add: lisc_def Let_def)
qed

definition strona_adresu :: "u64 \<Rightarrow> u64" where
  "strona_adresu a = a AND NOT (mask 12)"

lemma bit_strony: "bit (strona_adresu a) n \<longleftrightarrow> bit a n \<and> 12 \<le> n"
  unfolding strona_adresu_def using bit_u64_less [of a n] by (auto simp: bit_and_iff bit_not_iff bit_mask_iff)

lemma unat_strony: "unat (strona_adresu a) = unat a - unat a mod 4096"
  unfolding strona_adresu_def unat_and_not_mask by simp

lemma ta_sama_strona: "strona_adresu a = strona_adresu b \<longleftrightarrow> (\<forall>n \<ge> 12. bit a n = bit b n)"
proof
  assume s: "strona_adresu a = strona_adresu b"
  show "\<forall>n \<ge> 12. bit a n = bit b n" using bit_strony [of a] bit_strony [of b] s by metis
next
  assume "\<forall>n \<ge> 12. bit a n = bit b n"
  then show "strona_adresu a = strona_adresu b" by (intro bit_word_eqI) (auto simp: bit_strony)
qed

lemma w_stronie:
  assumes f: "strona_adresu f = f"
  shows "strona_adresu x = f \<longleftrightarrow> unat (x - f) < 4096"
proof -
  have m: "unat f mod 4096 = 0" using unat_strony [of f] f by (metis mod_less_eq_dividend diff_diff_cancel diff_self_eq_0 minus_mod_self2)
  show ?thesis
  proof
    assume "strona_adresu x = f"
    then have e: "unat x - unat x mod 4096 = unat f" using unat_strony [of x] by simp
    then have "f \<le> x" unfolding word_le_nat_alt by linarith
    then have "unat (x - f) = unat x - unat f" by (rule unat_sub_u64)
    also have "\<dots> = unat x mod 4096" using e mod_less_eq_dividend [of "unat x" 4096] by linarith
    finally show "unat (x - f) < 4096" by simp
  next
    assume d: "unat (x - f) < 4096"
    have l: "unat f + 4096 \<le> 18446744073709551616"
    proof -
      obtain k where k: "unat f = 4096 * k" using m by auto
      then have "4096 * k < 18446744073709551616" using unat_u64_less [of f] by simp
      then have "k < 4503599627370496" by simp
      then show ?thesis using k by simp
    qed
    have x: "x = f + (x - f)" by simp
    have u: "unat x = unat f + unat (x - f)" by (subst x, rule unat_add_u64) (use d l in linarith)
    have "unat x mod 4096 = unat (x - f)" unfolding u using m d by (metis mod_add_left_eq add_0 mod_less)
    then have "unat (strona_adresu x) = unat f" using unat_strony [of x] u by simp
    then show "strona_adresu x = f" by (rule unsigned_word_eqI)
  qed
qed

subsection \<open>Mapping one page\<close>

lemma lisc_strona: "strona_adresu a = strona_adresu b \<Longrightarrow> spacer (vm_tabele v) 4 p a True True = Some (1, e, u, w) \<Longrightarrow> lisc v p a = lisc v p b"
proof -
  assume ab: "strona_adresu a = strona_adresu b" and s: "spacer (vm_tabele v) 4 p a True True = Some (1, e, u, w)"
  have bits: "\<And>n. 12 \<le> n \<Longrightarrow> bit a n = bit b n" using ab by (simp add: ta_sama_strona)
  have "spacer (vm_tabele v) 4 p b True True = spacer (vm_tabele v) 4 p a True True"
    by (rule spacer_indeksy) (rule indeksy_zgodne, use bits in auto)
  moreover have "adres_kanoniczny a = adres_kanoniczny b" using bits by (simp add: kanoniczny_bity)
  ultimately show ?thesis unfolding lisc_spacer s by (simp add: adres_ramki_def s)
qed

definition pola_vmm :: "vmm \<Rightarrow> u64 \<times> bool \<times> u64" where
  "pola_vmm v = (vm_cr3 v, vm_gotowy v, vm_bazowe v)"

lemma pola_zapisow [simp]:
  "pola_vmm (pisz_wpis v t i e) = pola_vmm v" "pola_vmm (pisz_tabele v t f) = pola_vmm v" "pola_vmm (WyzerujStrone v t) = pola_vmm v"
  "pola_vmm (v\<lparr>vm_pmm := p\<rparr>) = pola_vmm v" "pola_vmm (uniewaznij_tlb v a) = pola_vmm v"
  by (simp_all add: pola_vmm_def pisz_wpis_def pisz_tabele_def WyzerujStrone_def uniewaznij_tlb_def)

lemma pola_tabel [simp]:
  "pola_vmm (snd (alokuj_tabele_stron v)) = pola_vmm v" "pola_vmm (snd (rozbij_strone_1g v t i u)) = pola_vmm v"
  "pola_vmm (snd (rozbij_strone_2m v t i u)) = pola_vmm v" "pola_vmm (snd (tabela_lub_nowa v t i u)) = pola_vmm v"
proof -
  show a: "pola_vmm (snd (alokuj_tabele_stron v)) = pola_vmm v" for v
    by (simp add: alokuj_tabele_stron_def Let_def case_prod_beta)
  show "pola_vmm (snd (rozbij_strone_1g v t i u)) = pola_vmm v" "pola_vmm (snd (rozbij_strone_2m v t i u)) = pola_vmm v"
    "pola_vmm (snd (tabela_lub_nowa v t i u)) = pola_vmm v"
    using a [of v]
    by (simp_all add: rozbij_strone_1g_def rozbij_strone_2m_def tabela_lub_nowa_def Let_def case_prod_beta)
qed

lemma pola_pobierz [simp]: "pola_vmm (snd (pobierz_lub_utworz l v t i u)) = pola_vmm v"
  by (simp add: pobierz_lub_utworz_def pobierz_lub_utworz_pdp_def pobierz_lub_utworz_pd_def
      pobierz_lub_utworz_pt_def case_prod_beta)

lemma zejdz_pola: "pola_vmm (snd (zejdz l v t va u e)) = pola_vmm v"
  by (induction l v t va u e rule: zejdz.induct) (simp_all add: case_prod_beta)

text \<open>Mapping one page in the active address space: whether it succeeds or not, only the leaves of that
  page change.\<close>

lemma zmapuj_wynik:
  fixes wirt fiz :: u64 and flagi :: u32
  assumes d: "vmm_drzewo 4 p v" and p: "pml4_z_cr3 v = p" "p \<noteq> 0" "vm_gotowy v"
  defines "v' \<equiv> ZmapujStrone v wirt fiz flagi"
  shows "\<exists>ok. vmm_drzewo 4 p v' \<and> wolne_t v' \<subseteq> wolne_t v \<and>
    vm_cr3 v' = vm_cr3 v \<and> vm_gotowy v' = vm_gotowy v \<and> vm_bazowe v' = vm_bazowe v \<and>
    (\<forall>a. lisc v' p a = (if ok \<and> strona_adresu a = wirt then Some (fiz, bit flagi 2, bit flagi 1) else lisc v p a))"
proof -
  define e where "e = wpis_liscia fiz flagi"
  have be: "bit e 0" "bit e 1 = bit flagi 1" "bit e 2 = bit flagi 2"
    by (simp_all add: e_def bit_wpis_liscia bit_ucast_iff)
  have us: "ucast flagi AND PTE_USER \<noteq> 0 \<longleftrightarrow> bit e 2"
    unfolding and_flagi be by (simp add: bit_ucast_iff)
  define v0 where "v0 = v\<lparr>vm_globalne := p\<rparr>"
  have v0: "vm_tabele v0 = vm_tabele v" "vm_pmm v0 = vm_pmm v" "vm_cr3 v0 = vm_cr3 v" "vm_gotowy v0 = vm_gotowy v" "vm_bazowe v0 = vm_bazowe v"
    by (simp_all add: v0_def)
  have l0: "lisc v0 p a = lisc v p a" "wolne_t v0 = wolne_t v" for a by (simp_all add: lisc_spacer v0 wolne_t_def)
  have d0: "vmm_drzewo 4 p v0" using d by (simp add: vmm_drzewo_def v0 wolne_t_def)
  let ?zle = "p = 0 \<or> \<not> adres_strony_poprawny wirt \<or> \<not> adres_fizyczny_strony_poprawny fiz \<or>
       bit e 2 \<and> (\<not> adres_user_kanoniczny wirt \<or> wirt < STRONA_4K)"
  have m: "v' = (if ?zle then v0 else (case zejdz 3 v0 p wirt (bit e 2) e of (ok, v') \<Rightarrow> if ok then uniewaznij_tlb v' wirt else v'))"
  proof -
    have "v' = snd (mapuj_strone_wewnetrznie v0 p wirt fiz flagi)"
      unfolding v'_def ZmapujStrone_def Let_def p(1) v0_def using p by simp
    then have h: "v' = snd (if ?zle then (False, v0) else (case zejdz 3 v0 p wirt (bit e 2) e of
          (ok, v') \<Rightarrow> (ok, if ok then uniewaznij_tlb v' wirt else v')))"
      unfolding mapuj_zejdz us e_def [symmetric] Let_def .
    show ?thesis
    proof (cases ?zle)
      case True
      show ?thesis using h unfolding if_P [OF True] by simp
    next
      case False
      show ?thesis using h unfolding if_not_P [OF False] by (simp add: case_prod_beta)
    qed
  qed
  show ?thesis
  proof (cases ?zle)
    case True
    then have "v' = v0" using m by simp
    then show ?thesis using d0 l0 v0 by (intro exI [of _ False]) simp
  next
    case False
    obtain ok v1 where z: "zejdz 3 v0 p wirt (bit e 2) e = (ok, v1)" by fastforce
    have v': "v' = (if ok then uniewaznij_tlb v1 wirt else v1)" using m unfolding if_not_P [OF False] z by simp
    have T: "vm_tabele v' = vm_tabele v1" "vm_pmm v' = vm_pmm v1" "wolne_t v' = wolne_t v1" "vm_cr3 v' = vm_cr3 v1"
      "vm_gotowy v' = vm_gotowy v1" "vm_bazowe v' = vm_bazowe v1"
      by (simp_all add: v' uniewaznij_tlb_def wolne_t_def)
    have pola: "vm_cr3 v1 = vm_cr3 v" "vm_gotowy v1 = vm_gotowy v" "vm_bazowe v1 = vm_bazowe v"
      using zejdz_pola [of 3 v0 p wirt "bit e 2" e] unfolding z by (simp_all add: v0 pola_vmm_def)
    have n4: "Suc 3 = (4 :: nat)" by simp
    have d4: "vmm_drzewo (Suc 3) p v0" using d0 by simp
    have "(3 :: nat) \<le> 3" by simp
    note zs = zejdz_spec [OF d4 p(2) this be(1) z, unfolded n4]
    have kan: "adres_kanoniczny wirt" and wyr: "strona_adresu wirt = wirt"
      using False by (auto simp: adres_strony_poprawny_def maska_offsetu strona_adresu_def and_not_mask)
    have cel: "spacer (vm_tabele v') 4 p wirt True True = Some (1, e, bit e 2, bit e 1)" if ok
      using zs that unfolding T by simp
    have lc: "lisc v' p wirt = Some (fiz, bit flagi 2, bit flagi 1)" if ok
      using kan p(2) be wpis_liscia_fiz [of fiz flagi] False cel [OF that]
      by (simp add: lisc_spacer adres_ramki_def e_def)
    have "lisc v' p a = (if ok \<and> strona_adresu a = wirt then Some (fiz, bit flagi 2, bit flagi 1) else lisc v p a)" for a
    proof (cases "ok \<and> strona_adresu a = wirt")
      case True
      then have "strona_adresu wirt = strona_adresu a" using wyr by simp
      from lisc_strona [OF this cel] True lc show ?thesis by simp
    next
      case inna: False
      show ?thesis
      proof (cases "adres_kanoniczny a")
        case True
        have "\<not> ok \<or> (\<exists>k \<in> {1 .. 4}. indeks k a \<noteq> indeks k wirt)"
        proof (cases ok)
          case True
          then have "strona_adresu a \<noteq> strona_adresu wirt" using inna wyr by simp
          then show ?thesis using rozny_indeks [OF \<open>adres_kanoniczny a\<close> kan] unfolding ta_sama_strona by blast
        qed simp
        then have "zachowana (bit e 2) a (spacer (vm_tabele v0) 4 p a True True) (spacer (vm_tabele v1) 4 p a True True)"
          using zs by blast
        then show ?thesis unfolding if_not_P [OF inna] lisc_spacer T v0
          by (cases "spacer (vm_tabele v) 4 p a True True"; cases "spacer (vm_tabele v1) 4 p a True True") auto
      qed (use inna in \<open>simp add: lisc_spacer\<close>)
    qed
    moreover have "vmm_drzewo 4 p v'" "wolne_t v' \<subseteq> wolne_t v" using zs l0 unfolding vmm_drzewo_def T by auto
    ultimately show ?thesis using pola T by (intro exI [of _ ok]) simp
  qed
qed

subsection \<open>Pages and bytes\<close>

lemma wyrownany_dvd: "strona_adresu x = x \<longleftrightarrow> 4096 dvd x"
proof
  assume s: "strona_adresu x = x"
  have b: "bit x n \<longrightarrow> 12 \<le> n" for n using bit_strony [of x n] s by auto
  have "x = push_bit 12 (drop_bit 12 x)"
  proof (rule bit_word_eqI)
    fix n
    show "bit x n = bit (push_bit 12 (drop_bit 12 x)) n"
      using b [of n] bit_u64_less [of x n] by (cases "12 \<le> n") (auto simp: bit_push_bit_iff bit_drop_bit_eq)
  qed
  then have "x = 4096 * drop_bit 12 x" by (simp add: push_bit_eq_mult mult.commute)
  then show "4096 dvd x" by (rule dvdI)
next
  assume "4096 dvd x"
  then obtain k where "x = 4096 * k" ..
  then have "x = push_bit 12 k" by (simp add: push_bit_eq_mult mult.commute)
  then have "12 \<le> n" if "bit x n" for n using that by (simp add: bit_push_bit_iff)
  then show "strona_adresu x = x" by (intro bit_word_eqI) (auto simp: bit_strony)
qed

lemma strona_wyrownana [simp]: "strona_adresu (strona_adresu x) = strona_adresu x"
  by (intro bit_word_eqI) (auto simp: bit_strony)

lemma unat_w_stronie:
  assumes "4096 dvd (x :: u64)" "unat j < 4096"
  shows "unat (x + j) = unat x + unat j" "strona_adresu (x + j) = x"
proof -
  have "strona_adresu x = x" using assms(1) by (simp add: wyrownany_dvd)
  from w_stronie [OF this, of "x + j"] assms(2) show s: "strona_adresu (x + j) = x" by simp
  then have "unat x \<le> unat (x + j)" "unat (x + j) - unat x = unat (x + j) mod 4096"
    using unat_strony [of "x + j"] mod_less_eq_dividend [of "unat (x + j)" 4096] by auto
  moreover from this have "x \<le> x + j" by (simp add: word_le_nat_alt)
  ultimately have "unat (x + j - x) = unat (x + j) - unat x" using unat_sub_u64 by blast
  then show "unat (x + j) = unat x + unat j" using \<open>unat x \<le> unat (x + j)\<close> by simp
qed

definition w_stronie_adresu :: "u64 \<Rightarrow> nat" where
  "w_stronie_adresu a = unat (a - strona_adresu a)"

lemma w_stronie_adresu_less: "w_stronie_adresu a < 4096"
  unfolding w_stronie_adresu_def using w_stronie [of "strona_adresu a" a] by simp

lemma adres_ze_strony: "a = strona_adresu a + of_nat (w_stronie_adresu a)"
  by (simp add: w_stronie_adresu_def)

lemma zeruj_bajty_jako:
  "n < 2 ^ 64 \<Longrightarrow> zeruj_bajty pam c n = (\<lambda>x. if unat (x - c) < n then 0 else pam x)"
proof (induction n)
  case 0
  then show ?case by (simp add: zeruj_bajty_def)
next
  case (Suc n)
  have n: "unat (of_nat n :: u64) = n" using Suc.prems by (intro unat_of_nat_u64) simp
  have x: "x = c + of_nat n \<longleftrightarrow> unat (x - c) = n" for x
  proof
    assume "unat (x - c) = n"
    then have "x - c = of_nat n" using n by (metis unsigned_word_eqI)
    then show "x = c + of_nat n" by (simp add: algebra_simps)
  qed (use n in simp)
  have "zeruj_bajty pam c (Suc n) = (zeruj_bajty pam c n)(c + of_nat n := 0)" by (simp add: zeruj_bajty_def)
  also have "\<dots> = (\<lambda>x. if unat (x - c) < Suc n then 0 else pam x)"
    using Suc x by (auto simp: fun_eq_iff less_Suc_eq)
  finally show ?case .
qed

text \<open>A frame filled with the bytes of the file from \<open>zrodlo\<close> on, \<open>n\<close> of them, the rest zero.\<close>

definition wypelniona :: "u64 \<Rightarrow> u64 \<Rightarrow> nat \<Rightarrow> pamiec \<Rightarrow> pamiec" where
  "wypelniona f zrodlo n pam = (\<lambda>x. if strona_adresu x = f
     then if unat (x - f) < n then pam (zrodlo + (x - f)) else 0 else pam x)"

lemma wypelnienie_zerami:
  "strona_adresu f = f \<Longrightarrow> zeruj_bajty pam f 4096 = wypelniona f zrodlo 0 pam"
  by (simp add: zeruj_bajty_jako wypelniona_def fun_eq_iff w_stronie)

lemma wypelnienie_kopia:
  assumes f: "strona_adresu f = f" "f \<noteq> 0" and n: "0 < unat n" "unat n \<le> 4096" and z: "zrodlo \<noteq> 0"
    and r: "\<And>j. j < unat n \<Longrightarrow> strona_adresu (zrodlo + of_nat j) \<noteq> f"
  shows "KopiujPamiec (zeruj_bajty pam f 4096) f zrodlo n = wypelniona f zrodlo (unat n) pam"
proof -
  have n0: "n \<noteq> 0" using n(1) by auto
  have fs: "strona_adresu (f + of_nat i) = f" if "i < 4096" for i
    using unat_w_stronie(2) [of f "of_nat i"] f(1) that by (simp add: wyrownany_dvd unat_of_nat_u64)
  have roz: "rozlaczne_zakresy f zrodlo (unat n)"
    unfolding rozlaczne_zakresy_def using fs r n(2) by (metis order_less_le_trans)
  have n64: "unat n < 2 ^ 64" using n(2) by simp
  have "KopiujPamiec (zeruj_bajty pam f 4096) f zrodlo n =
      (\<lambda>a. if unat (a - f) < unat n then zeruj_bajty pam f 4096 (zrodlo + (a - f)) else zeruj_bajty pam f 4096 a)"
    using n0 f(2) z kopiuj_fragment_kopia [OF n64 roz] by (simp add: KopiujPamiec_def)
  also have "\<dots> = wypelniona f zrodlo (unat n) pam"
  proof
    fix x
    have "zeruj_bajty pam f 4096 y = (if strona_adresu y = f then 0 else pam y)" for y
      using f(1) by (simp add: zeruj_bajty_jako w_stronie)
    moreover have "strona_adresu (zrodlo + (x - f)) \<noteq> f" if "unat (x - f) < unat n"
      using r [of "unat (x - f)"] that by simp
    moreover have "strona_adresu x = f" if "unat (x - f) < unat n" using that n(2) f(1) by (simp add: w_stronie)
    ultimately show "(if unat (x - f) < unat n then zeruj_bajty pam f 4096 (zrodlo + (x - f)) else zeruj_bajty pam f 4096 x) =
        wypelniona f zrodlo (unat n) pam x" by (auto simp: wypelniona_def)
  qed
  finally show ?thesis .
qed

subsection \<open>The pages loaded so far\<close>

text \<open>
  \<open>K\<close> gives for every page loaded so far its write right and its bytes; \<open>W\<close> is the set of frames
  that were free at the start, \<open>M\<close> the memory then. Every user leaf of the address space belongs to a
  loaded page, whose frame is its own and holds its bytes.
\<close>

type_synonym strony = "u64 \<Rightarrow> (bool \<times> (nat \<Rightarrow> u8)) option"

definition wczytane :: "u64 \<Rightarrow> u64 set \<Rightarrow> pamiec \<Rightarrow> strony \<Rightarrow> loader \<Rightarrow> bool" where
  "wczytane p W M K s \<longleftrightarrow> vmm_drzewo 4 p (ld_vmm s) \<and> pml4_z_cr3 (ld_vmm s) = p \<and> p \<noteq> 0 \<and> vm_gotowy (ld_vmm s) \<and>
     wolne_t (ld_vmm s) \<subseteq> W \<and>
     (\<forall>x. strona_adresu x \<notin> W \<longrightarrow> ld_pamiec s x = M x) \<and>
     (\<exists>R. inj_on R (dom K) \<and> (\<forall>g \<in> dom K. R g \<in> W - wolne_t (ld_vmm s) \<and> strona_adresu (R g) = R g) \<and>
        (\<forall>g z c j. K g = Some (z, c) \<longrightarrow> j < 4096 \<longrightarrow> ld_pamiec s (R g + of_nat j) = c j) \<and>
        (\<forall>a f z. lisc (ld_vmm s) p a = Some (f, True, z) \<longrightarrow>
           (\<exists>c. K (strona_adresu a) = Some (z, c)) \<and> f = R (strona_adresu a)))"

lemma wolna_ramka:
  assumes s: "pmm_sprawny (vm_pmm v)" and z: "ZaalokujRamke (vm_pmm v) = (r, q)"
  shows "pmm_sprawny q \<and> (if r = 0 then wolne_t (v\<lparr>vm_pmm := q\<rparr>) = wolne_t v
     else of_nat r \<in> wolne_t v \<and> of_nat r \<noteq> (0 :: u64) \<and> strona_adresu (of_nat r) = of_nat r \<and>
       wolne_t (v\<lparr>vm_pmm := q\<rparr>) = wolne_t v - {of_nat r})"
proof -
  note sp = pmm_pula.alokuj_spec [OF s z]
  have z0: "0 \<notin> adresy (wolne (vm_pmm v))"
    using s zero_adresy [of "vm_pmm v"] wolne_dostepne [of "vm_pmm v"] by (auto simp: pmm_sprawny_def adresy_def)
  show ?thesis
  proof (cases "r = 0")
    case True
    then show ?thesis using sp z0 by (auto simp: wolne_t_def)
  next
    case False
    then have r: "r \<in> adresy (wolne (vm_pmm v))" using sp by blast
    then obtain n where n: "r = n * 4096" by (auto simp: adresy_def)
    have ur: "unat (of_nat r :: u64) = r"
      using adresy_wolne_less [OF r] by (simp add: unat_of_nat)
    have "(4096 :: u64) dvd of_nat r" by (simp add: n)
    then have "strona_adresu (of_nat r) = of_nat r" by (simp add: wyrownany_dvd)
    moreover have "unat t = r \<longleftrightarrow> t = of_nat r" for t :: u64
      using ur by (metis unsigned_word_eqI)
    moreover have "of_nat r \<noteq> (0 :: u64)" using False ur by (metis unsigned_0)
    moreover have "of_nat r \<in> wolne_t v" using r ur by (simp add: wolne_t_def)
    ultimately show ?thesis using sp False by (auto simp: wolne_t_def)
  qed
qed

lemma wolne_wyrownane: "pmm_sprawny (vm_pmm v) \<Longrightarrow> f \<in> wolne_t v \<Longrightarrow> strona_adresu f = f"
proof -
  assume "f \<in> wolne_t v"
  then obtain n where "unat f = n * 4096" by (auto simp: wolne_t_def adresy_def)
  then have "unat (strona_adresu f) = unat f" using unat_strony [of f] by simp
  then show "strona_adresu f = f" by (rule unsigned_word_eqI)
qed

text \<open>The bytes of the page at offset \<open>o1\<close> of a segment with \<open>n\<close> bytes in the file, from \<open>zrodlo\<close> on.\<close>

definition bajty_strony :: "pamiec \<Rightarrow> u64 \<Rightarrow> u64 \<Rightarrow> u64 \<Rightarrow> nat \<Rightarrow> u8" where
  "bajty_strony M zrodlo n o1 j = (if unat o1 + j < unat n then M (zrodlo + o1 + of_nat j) else 0)"

definition zrodlo_rozlaczne :: "u64 set \<Rightarrow> u64 \<Rightarrow> u64 \<Rightarrow> bool" where
  "zrodlo_rozlaczne W zrodlo n \<longleftrightarrow> (\<forall>i < unat n. zrodlo + of_nat i \<noteq> 0 \<and> strona_adresu (zrodlo + of_nat i) \<notin> W)"

lemma krok_wczytania:
  assumes w: "wczytane p W M K s" and m: "mapuj_strone_segmentu s va zrodlo n flagi o1 = (True, s')"
    and K: "K (va + o1) = None" and u: "bit flagi 2" and roz: "zrodlo_rozlaczne W zrodlo n"
  shows "wczytane p W M (K(va + o1 \<mapsto> (bit flagi 1, bajty_strony M zrodlo n o1))) s'"
proof -
  have d: "vmm_drzewo 4 p (ld_vmm s)" "pml4_z_cr3 (ld_vmm s) = p" "p \<noteq> 0" "vm_gotowy (ld_vmm s)" "wolne_t (ld_vmm s) \<subseteq> W"
    and Mx: "\<And>x. strona_adresu x \<notin> W \<Longrightarrow> ld_pamiec s x = M x"
    using w by (simp_all add: wczytane_def)
  obtain R where R: "inj_on R (dom K)" "\<forall>g \<in> dom K. R g \<in> W - wolne_t (ld_vmm s) \<and> strona_adresu (R g) = R g"
      "\<forall>g z c j. K g = Some (z, c) \<longrightarrow> j < 4096 \<longrightarrow> ld_pamiec s (R g + of_nat j) = c j"
      "\<forall>a f z. lisc (ld_vmm s) p a = Some (f, True, z) \<longrightarrow> (\<exists>c. K (strona_adresu a) = Some (z, c)) \<and> f = R (strona_adresu a)"
    using w unfolding wczytane_def by blast
  note R = R(1) R(2) [rule_format] R(3) [rule_format] R(4) [rule_format]
  have ps: "pmm_sprawny (vm_pmm (ld_vmm s))" using d(1) by (simp add: vmm_drzewo_def)
  obtain r q where z: "ZaalokujRamke (vm_pmm (ld_vmm s)) = (r, q)" by fastforce
  define f :: u64 where "f = of_nat r"
  have r0: "r \<noteq> 0"
  proof
    assume "r = 0"
    then show False using m z by (simp add: mapuj_strone_segmentu_def Let_def)
  qed
  note wr = wolna_ramka [OF ps z]
  have f: "f \<in> wolne_t (ld_vmm s)" "f \<noteq> 0" "strona_adresu f = f" "pmm_sprawny q"
    and wq: "wolne_t ((ld_vmm s)\<lparr>vm_pmm := q\<rparr>) = wolne_t (ld_vmm s) - {f}"
    using wr r0 by (simp_all add: f_def)
  define v1 where "v1 = (ld_vmm s)\<lparr>vm_pmm := q\<rparr>"
  have d1: "vmm_drzewo 4 p v1" "pml4_z_cr3 v1 = p" "vm_gotowy v1"
    using d f(4) wq by (auto simp: vmm_drzewo_def v1_def pml4_z_cr3_def)
  have l1: "lisc v1 p a = lisc (ld_vmm s) p a" for a by (simp add: lisc_spacer v1_def)
  define m1 where "m1 = (let pam1 = zeruj_bajty (ld_pamiec s) f 4096 in if o1 < n
      then KopiujPamiec pam1 f (zrodlo + o1) (if n - o1 < 4096 then n - o1 else 4096) else pam1)"
  have s': "s' = (ustaw_vmm s (ZmapujStrone v1 (va + o1) f flagi))\<lparr>ld_pamiec := m1\<rparr>"
    using m z r0 by (cases "o1 < n"; cases "n - o1 < 4096")
      (simp_all add: mapuj_strone_segmentu_def Let_def m1_def v1_def f_def ROZMIAR_STRONY_LOADERA_def ld_vmm_def ustaw_vmm_def)
  have pam: "ld_pamiec s' x = (if strona_adresu x = f then bajty_strony M zrodlo n o1 (unat (x - f)) else ld_pamiec s x)" for x
  proof (cases "o1 < n")
    case False
    then have "m1 = wypelniona f 0 0 (ld_pamiec s)" using wypelnienie_zerami [OF f(3)] by (simp add: m1_def Let_def)
    moreover have "\<not> unat o1 + k < unat n" for k using False by (simp add: word_less_nat_alt)
    ultimately show ?thesis by (simp add: s' wypelniona_def bajty_strony_def)
  next
    case True
    define k where "k = (if n - o1 < 4096 then n - o1 else 4096)"
    have no: "unat (n - o1) = unat n - unat o1" using True by (intro unat_sub_u64) simp
    have "unat (n - o1) > 0" using True no by (simp add: word_less_nat_alt)
    then have k: "0 < unat k" "unat k \<le> 4096" "unat k = min (unat n - unat o1) 4096"
      using no by (auto simp: k_def word_less_nat_alt)
    have zr: "zrodlo + o1 + of_nat j \<noteq> 0 \<and> strona_adresu (zrodlo + o1 + of_nat j) \<noteq> f" if "j < unat k" for j
    proof -
      have i: "unat o1 + j < unat n" using that unfolding k(3) by linarith
      have e: "zrodlo + o1 + of_nat j = zrodlo + of_nat (unat o1 + j)" by simp
      have "zrodlo + of_nat (unat o1 + j) \<noteq> 0 \<and> strona_adresu (zrodlo + of_nat (unat o1 + j)) \<notin> W"
        using roz i unfolding zrodlo_rozlaczne_def by blast
      then show ?thesis unfolding e using f(1) d(5) by auto
    qed
    have zr0: "zrodlo + o1 \<noteq> 0" using zr [of 0] k(1) by simp
    have "m1 = wypelniona f (zrodlo + o1) (unat k) (ld_pamiec s)"
      unfolding m1_def Let_def k_def [symmetric] using True wypelnienie_kopia [OF f(3,2) k(1,2) zr0] zr by simp
    moreover have "strona_adresu (zrodlo + o1 + y) \<notin> W" if "unat y < unat k" for y
    proof -
      have "unat o1 + unat y < unat n" using that unfolding k(3) by linarith
      then have "strona_adresu (zrodlo + of_nat (unat o1 + unat y)) \<notin> W"
        using roz unfolding zrodlo_rozlaczne_def by blast
      then show ?thesis by (simp add: algebra_simps)
    qed
    moreover have "unat (x - f) < unat k \<longleftrightarrow> unat o1 + unat (x - f) < unat n" if "strona_adresu x = f"
      using w_stronie [OF f(3), of x] that unfolding k(3) by linarith
    ultimately show ?thesis using Mx by (auto simp: s' wypelniona_def bajty_strony_def)
  qed
  obtain ok where Z: "vmm_drzewo 4 p (ld_vmm s')" "wolne_t (ld_vmm s') \<subseteq> wolne_t v1"
      "vm_cr3 (ld_vmm s') = vm_cr3 v1" "vm_gotowy (ld_vmm s') = vm_gotowy v1"
      "\<And>a. lisc (ld_vmm s') p a = (if ok \<and> strona_adresu a = va + o1 then Some (f, bit flagi 2, bit flagi 1) else lisc v1 p a)"
    using zmapuj_wynik [OF d1(1,2) d(3) d1(3), of "va + o1" f flagi] by (auto simp: s' ld_vmm_def ustaw_vmm_def)
  have w': "wolne_t (ld_vmm s') \<subseteq> wolne_t (ld_vmm s) - {f}" using Z(2) wq by (simp add: v1_def)
  define g0 where "g0 = va + o1"
  define K' where "K' = K(g0 \<mapsto> (bit flagi 1, bajty_strony M zrodlo n o1))"
  define R' where "R' = R(g0 := f)"
  have g0: "g0 \<notin> dom K" using K by (simp add: g0_def domIff)
  have dK: "dom K' = insert g0 (dom K)" by (simp add: K'_def)
  have Rf: "R g \<noteq> f" if "g \<in> dom K" for g using R(2) [OF that] f(1) by auto
  have "inj_on R' (dom K')"
    using R(1) g0 Rf unfolding dK R'_def by (auto simp: inj_on_def)
  moreover have "R' g \<in> W - wolne_t (ld_vmm s') \<and> strona_adresu (R' g) = R' g" if "g \<in> dom K'" for g
    using that R(2) [of g] w' f(1,3) d(5) unfolding dK R'_def by auto
  moreover have "ld_pamiec s' (R' g + of_nat j) = c j" if "K' g = Some (z, c)" "j < 4096" for g z c j
  proof (cases "g = g0")
    case True
    have j: "unat (of_nat j :: u64) = j" using that(2) by (intro unat_of_nat_u64) simp
    have "strona_adresu (f + of_nat j) = f" using unat_w_stronie(2) [of f "of_nat j"] f(3) j that(2) by (simp add: wyrownany_dvd)
    then show ?thesis using that True j by (simp add: pam K'_def R'_def)
  next
    case False
    then have k: "K g = Some (z, c)" using that by (simp add: K'_def)
    then have gd: "g \<in> dom K" by blast
    have j: "unat (of_nat j :: u64) = j" using that(2) by (intro unat_of_nat_u64) simp
    have "strona_adresu (R g + of_nat j) = R g"
      using unat_w_stronie(2) [of "R g" "of_nat j"] R(2) [OF gd] j that(2) by (simp add: wyrownany_dvd)
    then show ?thesis using R(3) [OF k that(2)] Rf [OF gd] False by (simp add: pam R'_def)
  qed
  moreover have "(\<exists>c. K' (strona_adresu a) = Some (z, c)) \<and> h = R' (strona_adresu a)" if "lisc (ld_vmm s') p a = Some (h, True, z)" for a h z
  proof (cases "ok \<and> strona_adresu a = g0")
    case True
    then show ?thesis using that Z(5) [of a] u by (simp add: g0_def [symmetric] K'_def R'_def)
  next
    case False
    have l: "lisc (ld_vmm s) p a = Some (h, True, z)"
      using that unfolding Z(5) g0_def [symmetric] if_not_P [OF False] l1 .
    then have "strona_adresu a \<in> dom K" using R(4) by blast
    then have "strona_adresu a \<noteq> g0" using g0 by auto
    then show ?thesis using R(4) [OF l] by (simp add: K'_def R'_def)
  qed
  moreover have "ld_pamiec s' x = M x" if "strona_adresu x \<notin> W" for x
    using pam [of x] Mx [OF that] f(1) d(5) that by auto
  moreover have "pml4_z_cr3 (ld_vmm s') = p" using d1(2) Z(3) by (simp add: pml4_z_cr3_def)
  moreover have "wolne_t (ld_vmm s') \<subseteq> W" using w' d(5) by blast
  ultimately have "wczytane p W M K' s'"
    unfolding wczytane_def using Z(1,4) d1(3) d(3) by blast
  then show ?thesis by (simp add: K'_def g0_def)
qed

subsection \<open>The loops over pages\<close>

definition strony_segmentu :: "pamiec \<Rightarrow> u64 \<Rightarrow> nat \<Rightarrow> u64 \<Rightarrow> u64 \<Rightarrow> bool \<Rightarrow> strony" where
  "strony_segmentu M va dlugosc zrodlo n z = (\<lambda>g.
     if 4096 dvd g - va \<and> unat (g - va) < dlugosc then Some (z, bajty_strony M zrodlo n (g - va)) else None)"

lemma dvd_unat: "4096 dvd (x :: u64) \<longleftrightarrow> 4096 dvd unat x"
proof -
  have "4096 dvd x \<longleftrightarrow> unat (strona_adresu x) = unat x"
    unfolding wyrownany_dvd [symmetric] by (metis unsigned_word_eqI)
  also have "\<dots> \<longleftrightarrow> unat x mod 4096 = 0" unfolding unat_strony using mod_less_eq_dividend [of "unat x" 4096] by auto
  finally show ?thesis by (simp add: dvd_eq_mod_eq_0)
qed

lemma dalsza_strona: "4096 dvd (d :: nat) \<Longrightarrow> 4096 dvd o1 \<Longrightarrow> d < o1 + 4096 \<longleftrightarrow> d < o1 \<or> d = o1"
  by (elim dvdE) auto

lemma do_konca_segmentu: "4096 dvd (d :: nat) \<Longrightarrow> 4096 dvd o1 \<Longrightarrow> r \<le> o1 \<Longrightarrow> o1 < r + 4096 \<Longrightarrow> d < o1 \<longleftrightarrow> d < r"
  by (elim dvdE) auto

lemma krok_strony_segmentu:
  assumes "4096 dvd o1" "K (va + o1) = None"
  shows "(K ++ strony_segmentu M va (unat o1) zrodlo n z) (va + o1) = None"
    "(K ++ strony_segmentu M va (unat o1) zrodlo n z)(va + o1 \<mapsto> (z, bajty_strony M zrodlo n o1)) =
     K ++ strony_segmentu M va (unat o1 + 4096) zrodlo n z"
proof -
  show "(K ++ strony_segmentu M va (unat o1) zrodlo n z) (va + o1) = None"
    using assms by (simp add: map_add_def strony_segmentu_def)
  show "(K ++ strony_segmentu M va (unat o1) zrodlo n z)(va + o1 \<mapsto> (z, bajty_strony M zrodlo n o1)) =
     K ++ strony_segmentu M va (unat o1 + 4096) zrodlo n z"
  proof
    fix g
    have eq: "g = va + o1 \<longleftrightarrow> unat (g - va) = unat o1"
    proof
      assume "unat (g - va) = unat o1"
      then have "g - va = o1" by (rule unsigned_word_eqI)
      then show "g = va + o1" by (simp add: algebra_simps)
    qed simp
    show "((K ++ strony_segmentu M va (unat o1) zrodlo n z)(va + o1 \<mapsto> (z, bajty_strony M zrodlo n o1))) g =
        (K ++ strony_segmentu M va (unat o1 + 4096) zrodlo n z) g"
    proof (cases "g = va + o1")
      case True
      then show ?thesis using assms(1) by (simp add: map_add_def strony_segmentu_def)
    next
      case False
      then have "4096 dvd g - va \<Longrightarrow> unat (g - va) < unat o1 + 4096 \<longleftrightarrow> unat (g - va) < unat o1"
        using dalsza_strona [of "unat (g - va)" "unat o1"] assms(1) eq by (simp add: dvd_unat)
      then show ?thesis using False by (auto simp: map_add_def strony_segmentu_def)
    qed
  qed
qed

lemma petla_segmentu:
  assumes u: "bit flagi 2" and roz: "zrodlo_rozlaczne W zrodlo n" and r: "unat rozmiar < 2 ^ 63"
    and K: "\<And>o1. 4096 dvd o1 \<Longrightarrow> unat o1 < unat rozmiar \<Longrightarrow> K (va + o1) = None"
  shows "4096 dvd o1 \<Longrightarrow> unat o1 < unat rozmiar + 4096 \<Longrightarrow>
    wczytane p W M (K ++ strony_segmentu M va (unat o1) zrodlo n (bit flagi 1)) s \<Longrightarrow>
    \<exists>ok s'. mapuj_segment_petla va rozmiar zrodlo n flagi o1 s = Some (ok, s') \<and>
      (ok \<longrightarrow> wczytane p W M (K ++ strony_segmentu M va (unat rozmiar) zrodlo n (bit flagi 1)) s')"
proof (induction "unat rozmiar + 4096 - unat o1" arbitrary: o1 s rule: less_induct)
  case less
  show ?case
  proof (cases "o1 < rozmiar")
    case False
    have d: "unat rozmiar \<le> unat o1" using False by (simp add: word_le_nat_alt not_less)
    have "strony_segmentu M va (unat o1) zrodlo n (bit flagi 1) = strony_segmentu M va (unat rozmiar) zrodlo n (bit flagi 1)"
      using do_konca_segmentu [OF _ _ d less.prems(2)] less.prems(1)
      by (auto simp: strony_segmentu_def fun_eq_iff dvd_unat)
    then show ?thesis using less.prems(3) False by (intro exI [of _ True] exI [of _ s]) (simp add: mapuj_segment_petla.simps)
  next
    case True
    then have lt: "unat o1 < unat rozmiar" by (simp add: word_less_nat_alt)
    obtain ok s1 where m: "mapuj_strone_segmentu s va zrodlo n flagi o1 = (ok, s1)" by fastforce
    have e: "mapuj_segment_petla va rozmiar zrodlo n flagi o1 s =
        (if \<not> ok then Some (False, s1) else mapuj_segment_petla va rozmiar zrodlo n flagi (o1 + 4096) s1)"
      using True m by (simp add: mapuj_segment_petla.simps [of va rozmiar zrodlo n flagi o1] ROZMIAR_STRONY_LOADERA_def)
    show ?thesis
    proof (cases ok)
      case ok: True
      note k = krok_strony_segmentu [where K = K and va = va, OF less.prems(1) K [OF less.prems(1) lt]]
      have w: "wczytane p W M (K ++ strony_segmentu M va (unat o1 + 4096) zrodlo n (bit flagi 1)) s1"
        using krok_wczytania [OF less.prems(3) m [unfolded eqTrueI [OF ok]] k(1) u roz] unfolding k(2) .
      have o4: "unat (o1 + 4096) = unat o1 + 4096"
        using lt r by (subst unat_add_u64) simp_all
      have "\<exists>ok s'. mapuj_segment_petla va rozmiar zrodlo n flagi (o1 + 4096) s1 = Some (ok, s') \<and>
          (ok \<longrightarrow> wczytane p W M (K ++ strony_segmentu M va (unat rozmiar) zrodlo n (bit flagi 1)) s')"
      proof (rule less.hyps)
        show "unat rozmiar + 4096 - unat (o1 + 4096) < unat rozmiar + 4096 - unat o1" using o4 lt by simp
        show "4096 dvd o1 + 4096" using less.prems(1) by simp
        show "unat (o1 + 4096) < unat rozmiar + 4096" using o4 lt by simp
        show "wczytane p W M (K ++ strony_segmentu M va (unat (o1 + 4096)) zrodlo n (bit flagi 1)) s1" using w o4 by simp
      qed
      then show ?thesis using e ok by simp
    qed (use e in \<open>intro exI [of _ False] exI [of _ s1], simp\<close>)
  qed
qed

lemma segment_wczytany:
  assumes u: "bit flagi 2" and roz: "zrodlo_rozlaczne W zrodlo n" and r: "unat rozmiar < 2 ^ 63"
    and K: "\<And>o1. 4096 dvd o1 \<Longrightarrow> unat o1 < unat rozmiar \<Longrightarrow> K (va + o1) = None"
    and w: "wczytane p W M K s"
  shows "\<exists>ok s'. mapuj_segment_z_pliku s va rozmiar zrodlo n flagi = Some (ok, s') \<and>
    (ok \<longrightarrow> wczytane p W M (K ++ strony_segmentu M va (unat rozmiar) zrodlo n (bit flagi 1)) s')"
proof -
  have e: "strony_segmentu M va 0 zrodlo n z = Map.empty" for z by (simp add: strony_segmentu_def)
  have "\<exists>ok s'. mapuj_segment_petla va rozmiar zrodlo n flagi 0 s = Some (ok, s') \<and>
    (ok \<longrightarrow> wczytane p W M (K ++ strony_segmentu M va (unat rozmiar) zrodlo n (bit flagi 1)) s')"
    by (rule petla_segmentu [where K = K, OF u roz r K]) (use w e in simp_all)
  moreover have "rozmiar = 0 \<Longrightarrow> K ++ strony_segmentu M va (unat rozmiar) zrodlo n (bit flagi 1) = K" using e by simp
  ultimately show ?thesis using w by (auto simp: mapuj_segment_z_pliku_def)
qed

text \<open>The loop that maps the stack is the same step with no bytes from the file.\<close>

lemma stos_jako_segment:
  "mapuj_stos_od (Suc n) i flagi s = (case mapuj_strone_segmentu s BAZA_STOSU_USER 0 0 flagi (of_nat i * 4096) of
     (ok, s1) \<Rightarrow> if ok then mapuj_stos_od n (i + 1) flagi s1 else (False, s1))"
  by (simp add: mapuj_strone_segmentu_def case_prod_beta Let_def ROZMIAR_STRONY_LOADERA_def)

lemma stos_wczytany:
  assumes u: "bit flagi 2" and K: "\<And>o1. 4096 dvd o1 \<Longrightarrow> unat o1 < 4 * 4096 \<Longrightarrow> K (BAZA_STOSU_USER + o1) = None"
  shows "n + i = 4 \<Longrightarrow> wczytane p W M (K ++ strony_segmentu M BAZA_STOSU_USER (i * 4096) 0 0 (bit flagi 1)) s \<Longrightarrow>
    mapuj_stos_od n i flagi s = (True, s') \<Longrightarrow>
    wczytane p W M (K ++ strony_segmentu M BAZA_STOSU_USER (4 * 4096) 0 0 (bit flagi 1)) s'"
proof (induction n arbitrary: i s)
  case 0
  then show ?case by simp
next
  case (Suc n)
  define o1 :: u64 where "o1 = of_nat i * 4096"
  have ui: "unat o1 = i * 4096"
  proof -
    have "o1 = of_nat (i * 4096)" by (simp add: o1_def)
    then show ?thesis using Suc.prems(1) by (simp only: unat_of_nat_u64)
  qed
  have d: "4096 dvd o1" by (simp add: o1_def)
  have o4: "unat o1 < 4 * 4096" using ui Suc.prems(1) by simp
  obtain ok s1 where m: "mapuj_strone_segmentu s BAZA_STOSU_USER 0 0 flagi o1 = (ok, s1)" by fastforce
  have ok: ok and s': "mapuj_stos_od n (i + 1) flagi s1 = (True, s')"
    using Suc.prems(3) m unfolding stos_jako_segment o1_def [symmetric] by (auto split: if_splits)
  note k = krok_strony_segmentu [where K = K and va = BAZA_STOSU_USER, OF d K [OF d o4]]
  have r0: "zrodlo_rozlaczne W 0 0" by (simp add: zrodlo_rozlaczne_def)
  have "wczytane p W M (K ++ strony_segmentu M BAZA_STOSU_USER (unat o1 + 4096) 0 0 (bit flagi 1)) s1"
    using krok_wczytania [OF Suc.prems(2) [folded ui] m [unfolded eqTrueI [OF ok]] k(1) u r0] unfolding k(2) .
  then have "wczytane p W M (K ++ strony_segmentu M BAZA_STOSU_USER ((i + 1) * 4096) 0 0 (bit flagi 1)) s1"
    by (simp add: ui add.commute)
  from Suc.IH [OF _ this s'] Suc.prems(1) show ?case by simp
qed

end
