(* ===== verification/Loader_Twierdzenia.thy ===== *)
theory Loader_Twierdzenia
  imports Loader_Pamiec Planista_Twierdzenia
begin

section \<open>Programs that the loader accepts\<close>

text \<open>
  The file format in numbers without wrap-around, what a new process can reach, and who may hold a slot.
\<close>

subsection \<open>The header\<close>

definition rozlaczne_nat :: "nat \<Rightarrow> nat \<Rightarrow> nat \<Rightarrow> nat \<Rightarrow> bool" where
  "rozlaczne_nat a n b m \<longleftrightarrow> a + n \<le> b \<or> b + m \<le> a"

definition naglowek_zgodny :: "NaglowekBur \<Rightarrow> nat \<Rightarrow> bool" where
  "naglowek_zgodny n r \<longleftrightarrow>
     (let tv = unat (nb_tekst_wirtualny n); tr = unat (nb_tekst_rozmiar n); tp = unat (nb_tekst_przesuniecie n);
          dv = unat (nb_dane_wirtualny n); dr = unat (nb_dane_rozmiar n); dp = unat (nb_dane_przesuniecie n)
      in nb_magia n 0 = 0x42 \<and> nb_magia n 1 = 0x55 \<and> nb_magia n 2 = 0x52 \<and> nb_magia n 3 = 0 \<and>
         0 < tr \<and> tr \<le> 2 ^ 28 \<and> dr \<le> 2 ^ 28 \<and>
         tv mod 4096 = 0 \<and> 60 \<le> tp \<and> tp + tr \<le> r \<and> 4096 \<le> tv \<and> tv + tr \<le> 2 ^ 35 \<and>
         tv \<le> unat (nb_wejscie n) \<and> unat (nb_wejscie n) < tv + tr \<and>
         (dr = 0 \<or> dv mod 4096 = 0 \<and> 60 \<le> dp \<and> dp \<le> r \<and> 4096 \<le> dv \<and> dv + dr \<le> 2 ^ 35 \<and>
            rozlaczne_nat tv tr dv dr \<and> (dp = r \<or> rozlaczne_nat tp tr dp (min dr (r - dp)))))"

lemma dodaj_bez: "dodaj_bez_przepelnienia a b = dodaj_u64 a b"
  by (simp add: dodaj_bez_przepelnienia_def dodaj_u64_def)

lemma zakres_w_przedziale_spec:
  "zakres_w_przedziale a n d g = Some k \<longleftrightarrow> n \<noteq> 0 \<and> unat d \<le> unat a \<and> unat a + unat n \<le> unat g \<and> k = a + n"
proof -
  have "unat (a + n) = unat a + unat n" if "unat a + unat n < 2 ^ 64" using that by (simp add: unat_add_u64)
  moreover have "n = 0 \<or> 0 < unat n" by (simp add: unat_gt_0)
  ultimately show ?thesis
    using unat_u64_less [of g]
    by (auto simp: zakres_w_przedziale_def dodaj_bez dodaj_u64_Some word_less_nat_alt word_le_nat_alt not_less
        split: option.splits simp del: unat_u64_less) (auto simp: dodaj_u64_None dodaj_u64_Some simp del: unat_u64_less)
qed

lemma case_dodaj:
  "(case dodaj_bez_przepelnienia a b of None \<Rightarrow> False | Some k \<Rightarrow> P k) \<longleftrightarrow> unat a + unat b < 2 ^ 64 \<and> P (a + b)"
  by (simp add: dodaj_bez_przepelnienia_def max_minus_less_iff not_le)

lemma case_zakres:
  "(case zakres_w_przedziale a n d g of None \<Rightarrow> False | Some k \<Rightarrow> P k) \<longleftrightarrow>
     n \<noteq> 0 \<and> unat d \<le> unat a \<and> unat a + unat n \<le> unat g \<and> P (a + n)"
proof (cases "zakres_w_przedziale a n d g")
  case None
  then show ?thesis using zakres_w_przedziale_spec [of a n d g "a + n"] by auto
next
  case (Some k)
  then show ?thesis using zakres_w_przedziale_spec [of a n d g k] by auto
qed

lemma nie_nachodza:
  "unat a + unat n < 2 ^ 64 \<Longrightarrow> unat b + unat m < 2 ^ 64 \<Longrightarrow>
     zakresy_nachodza a (a + n) b (b + m) \<longleftrightarrow> \<not> rozlaczne_nat (unat a) (unat n) (unat b) (unat m)"
  by (simp add: zakresy_nachodza_def rozlaczne_nat_def word_less_nat_alt unat_add_u64 not_le)
    (metis not_le)

text \<open>The data segment's part of the check.\<close>

definition dane_zgodne :: "NaglowekBur \<Rightarrow> nat \<Rightarrow> bool" where
  "dane_zgodne n r \<longleftrightarrow>
     (let tv = unat (nb_tekst_wirtualny n); tr = unat (nb_tekst_rozmiar n); tp = unat (nb_tekst_przesuniecie n);
          dv = unat (nb_dane_wirtualny n); dr = unat (nb_dane_rozmiar n); dp = unat (nb_dane_przesuniecie n)
      in 4096 \<le> dv \<and> dv + dr \<le> 2 ^ 35 \<and> rozlaczne_nat tv tr dv dr \<and> (dp = r \<or> rozlaczne_nat tp tr dp (min dr (r - dp))))"

lemma dane_sprawdzone:
  assumes dr: "nb_dane_rozmiar n \<noteq> 0" and t: "unat (nb_tekst_przesuniecie n) + unat (nb_tekst_rozmiar n) \<le> unat r"
    and tv: "unat (nb_tekst_wirtualny n) + unat (nb_tekst_rozmiar n) \<le> 2 ^ 35" and dp: "unat (nb_dane_przesuniecie n) \<le> unat r"
  shows "dane_naglowka_poprawne n r (nb_tekst_przesuniecie n + nb_tekst_rozmiar n) (nb_tekst_wirtualny n + nb_tekst_rozmiar n)
    \<longleftrightarrow> dane_zgodne n (unat r)"
proof -
  define w where "w = (if nb_dane_rozmiar n < r - nb_dane_przesuniecie n then nb_dane_rozmiar n else r - nb_dane_przesuniecie n)"
  have rd: "unat (r - nb_dane_przesuniecie n) = unat r - unat (nb_dane_przesuniecie n)"
    by (rule unat_sub_u64) (use dp in \<open>simp add: word_le_nat_alt\<close>)
  have w: "unat w = min (unat (nb_dane_rozmiar n)) (unat r - unat (nb_dane_przesuniecie n))"
    using rd by (auto simp: w_def word_less_nat_alt)
  have drn: "0 < unat (nb_dane_rozmiar n)" using dr by (simp add: unat_gt_0)
  have w0: "w = 0 \<longleftrightarrow> unat (nb_dane_przesuniecie n) = unat r"
  proof -
    have "w = 0 \<longleftrightarrow> unat w = 0" using unat_gt_0 [of w] by auto
    then show ?thesis unfolding w using drn dp by linarith
  qed
  have wr: "unat (nb_dane_przesuniecie n) + unat w < 2 ^ 64"
    using w dp unat_u64_less [of r] by (simp del: unat_u64_less)
  have tr: "unat (nb_tekst_przesuniecie n) + unat (nb_tekst_rozmiar n) < 2 ^ 64"
    using t unat_u64_less [of r] by (simp del: unat_u64_less)
  note nf = nie_nachodza [OF tr wr]
  have nv: "zakresy_nachodza (nb_tekst_wirtualny n) (nb_tekst_wirtualny n + nb_tekst_rozmiar n) (nb_dane_wirtualny n)
      (nb_dane_wirtualny n + nb_dane_rozmiar n) \<longleftrightarrow> \<not> rozlaczne_nat (unat (nb_tekst_wirtualny n)) (unat (nb_tekst_rozmiar n))
      (unat (nb_dane_wirtualny n)) (unat (nb_dane_rozmiar n))" if "unat (nb_dane_wirtualny n) + unat (nb_dane_rozmiar n) \<le> 2 ^ 35"
    by (rule nie_nachodza) (use tv that in simp_all)
  show ?thesis
    unfolding dane_naglowka_poprawne_def case_zakres Let_def w_def [symmetric] case_dodaj w0 dane_zgodne_def
    using nv nf wr dr w by (auto simp: MIN_ADRES_USER_def BAZA_STERTY_USER_def)
qed

lemma naglowek_bur_spec: "poprawny_naglowek_bur n r \<longleftrightarrow> naglowek_zgodny n (unat r)"
proof -
  let ?tv = "unat (nb_tekst_wirtualny n)" and ?tr = "unat (nb_tekst_rozmiar n)" and ?tp = "unat (nb_tekst_przesuniecie n)"
  let ?dp = "unat (nb_dane_przesuniecie n)" and ?dr = "unat (nb_dane_rozmiar n)" and ?dv = "unat (nb_dane_wirtualny n)"
  define dane where "dane = dane_naglowka_poprawne n r (nb_tekst_przesuniecie n + nb_tekst_rozmiar n) (nb_tekst_wirtualny n + nb_tekst_rozmiar n)"
  define m where "m \<longleftrightarrow> nb_magia n 0 = 0x42 \<and> nb_magia n 1 = 0x55 \<and> nb_magia n 2 = 0x52 \<and> nb_magia n 3 = 0"
  have mag: "PorownajPamiec (nb_magia n) oczekiwana_magia 4 \<longleftrightarrow> m"
    by (simp add: PorownajPamiec_def oczekiwana_magia_def m_def upt_conv_Cons numeral_eq_Suc)
  have wyr: "x AND 0xFFF = 0 \<longleftrightarrow> unat x mod 4096 = 0" for x :: u64 using aligned4096_iff [of x] by simp
  have dr0: "nb_dane_rozmiar n \<noteq> 0 \<longleftrightarrow> 0 < ?dr" "nb_tekst_rozmiar n = 0 \<longleftrightarrow> \<not> 0 < ?tr"
    using unat_gt_0 [of "nb_dane_rozmiar n"] unat_gt_0 [of "nb_tekst_rozmiar n"] by auto
  have p: "poprawny_naglowek_bur n r \<longleftrightarrow> m \<and> 0 < ?tr \<and> ?tr \<le> 2 ^ 28 \<and> ?dr \<le> 2 ^ 28 \<and> ?tv mod 4096 = 0 \<and>
      (0 < ?dr \<longrightarrow> ?dv mod 4096 = 0) \<and> 60 \<le> ?tp \<and> ?tp \<le> unat r \<and> ?tp + ?tr < 2 ^ 64 \<and>
      unat (nb_tekst_przesuniecie n + nb_tekst_rozmiar n) \<le> unat r \<and> (0 < ?dr \<longrightarrow> 60 \<le> ?dp \<and> ?dp \<le> unat r) \<and>
      4096 \<le> ?tv \<and> ?tv + ?tr \<le> 2 ^ 35 \<and> (0 < ?dr \<longrightarrow> dane) \<and>
      ?tv \<le> unat (nb_wejscie n) \<and> unat (nb_wejscie n) < unat (nb_tekst_wirtualny n + nb_tekst_rozmiar n)"
    unfolding poprawny_naglowek_bur_def mag wyr case_dodaj case_zakres dane_def [symmetric] dr0
    by (auto simp: word_less_nat_alt word_le_nat_alt not_le not_less MAKS_ROZMIAR_SEGMENTU_BUR_def ROZMIAR_NAGLOWKA_BUR_def
        MIN_ADRES_USER_def BAZA_STERTY_USER_def BAZA_STOSU_USER_def KONIEC_ADRESOW_USER_def ROZMIAR_STOSU_USER_def)
  have tp: "unat (nb_tekst_przesuniecie n + nb_tekst_rozmiar n) = ?tp + ?tr" if "?tp + ?tr < 2 ^ 64"
    using that by (simp add: unat_add_u64)
  have tv: "unat (nb_tekst_wirtualny n + nb_tekst_rozmiar n) = ?tv + ?tr" if "?tv + ?tr \<le> 2 ^ 35"
    using that by (simp add: unat_add_u64)
  have r: "unat r < 2 ^ 64" using unat_u64_less [of r] by (simp del: unat_u64_less)
  have d: "dane \<longleftrightarrow> dane_zgodne n (unat r)" if "0 < ?dr" "?tp + ?tr \<le> unat r" "?tv + ?tr \<le> 2 ^ 35" "?dp \<le> unat r"
    unfolding dane_def by (rule dane_sprawdzone) (use that dr0 in auto)
  show ?thesis
  proof (cases "?tp + ?tr \<le> unat r \<and> ?tv + ?tr \<le> 2 ^ 35 \<and> (0 < ?dr \<longrightarrow> ?dp \<le> unat r)")
    case True
    then have tr: "?tp + ?tr \<le> unat r" and tr2: "?tp \<le> unat r" and lv: "?tv + ?tr \<le> 2 ^ 35" and lt: "?tp + ?tr < 2 ^ 64" using r by linarith+
    show ?thesis
    proof (cases "0 < ?dr")
      case False
      then show ?thesis unfolding p naglowek_zgodny_def Let_def m_def tp [OF lt] tv [OF lv]
        using tr tr2 lv lt by simp
    next
      case dr: True
      then have dp: "?dp \<le> unat r" using True by blast
      show ?thesis unfolding p naglowek_zgodny_def Let_def m_def tp [OF lt] tv [OF lv] d [OF dr tr lv dp] dane_zgodne_def
        using tr tr2 lv lt dr dp by (simp add: conj_ac)
    qed
  next
    case False
    then have "\<not> (?tp + ?tr < 2 ^ 64 \<and> unat (nb_tekst_przesuniecie n + nb_tekst_rozmiar n) \<le> unat r \<and> ?tv + ?tr \<le> 2 ^ 35 \<and>
        (0 < ?dr \<longrightarrow> 60 \<le> ?dp \<and> ?dp \<le> unat r))" using tp by auto
    then have "\<not> poprawny_naglowek_bur n r" unfolding p by (elim contrapos_nn conjE) (intro conjI, assumption+)
    moreover have "\<not> (?tp + ?tr \<le> unat r \<and> ?tv + ?tr \<le> 2 ^ 35 \<and> (?dr = 0 \<or> ?dp \<le> unat r))" using False by auto
    then have "\<not> naglowek_zgodny n (unat r)" unfolding naglowek_zgodny_def Let_def
      by (elim contrapos_nn conjE) (intro conjI, assumption+, elim disjE conjE, simp_all)
    ultimately show ?thesis by blast
  qed
qed

text \<open>
  C28. The loader accepts a header exactly when it is a program the rest of the loader can build
  without any address or file offset wrapping: the text lies in the file, both segments are page
  aligned, lie between 4 KiB and the user heap at 32 GiB and do not meet, nor do their bytes in the
  file, and the entry point is in the text.
\<close>

theorem naglowek_bur_dokladny:
  "poprawny_naglowek_bur n rozmiar_pliku \<longleftrightarrow> naglowek_zgodny n (unat rozmiar_pliku)"
  by (rule naglowek_bur_spec)

text \<open>The check does not keep a program away from the kernel's identity map: a text segment may cover
  the kernel's own code at 1 MiB.\<close>

definition naglowek_przyklad :: "u64 \<Rightarrow> NaglowekBur" where
  "naglowek_przyklad va = \<lparr>nb_magia = oczekiwana_magia, nb_wejscie = va, nb_tekst_przesuniecie = 0x1000,
     nb_tekst_rozmiar = 0x1000, nb_tekst_wirtualny = va, nb_dane_przesuniecie = 0, nb_dane_rozmiar = 0, nb_dane_wirtualny = 0\<rparr>"

lemma naglowek_nad_jadrem: "poprawny_naglowek_bur (naglowek_przyklad 0x100000) 0x2000"
  unfolding naglowek_bur_spec by (simp add: naglowek_zgodny_def naglowek_przyklad_def oczekiwana_magia_def Let_def)

subsection \<open>The memory of a new process\<close>
















end
