(* ===== verification/Zegar.thy ===== *)
theory Zegar
  imports Preludium
begin

section \<open>The real-time clock\<close>

text \<open>
  \<open>zegar-rtc.cpp\<close> in its default build (the CMOS keeps UTC, no century register). The CMOS is a
  parameter: \<open>c t r\<close> is what port 0x71 gives for register \<open>r\<close> at the \<open>t\<close>-th read since the start; every
  read of the model moves \<open>t\<close> on. The lock and the interrupt flag make a call atomic.
\<close>

record czas_rtc =
  rtc_sekundy :: u8
  rtc_minuty :: u8
  rtc_godziny :: u8
  rtc_dzien :: u8
  rtc_miesiac :: u8
  rtc_rok :: u32

type_synonym cmos = "nat \<Rightarrow> u8 \<Rightarrow> u8"

abbreviation RTC_REJ_SEKUNDY :: u8 where "RTC_REJ_SEKUNDY \<equiv> 0x00"
abbreviation RTC_REJ_MINUTY :: u8 where "RTC_REJ_MINUTY \<equiv> 0x02"
abbreviation RTC_REJ_GODZINY :: u8 where "RTC_REJ_GODZINY \<equiv> 0x04"
abbreviation RTC_REJ_DZIEN :: u8 where "RTC_REJ_DZIEN \<equiv> 0x07"
abbreviation RTC_REJ_MIESIAC :: u8 where "RTC_REJ_MIESIAC \<equiv> 0x08"
abbreviation RTC_REJ_ROK :: u8 where "RTC_REJ_ROK \<equiv> 0x09"
abbreviation RTC_REJ_A :: u8 where "RTC_REJ_A \<equiv> 0x0A"
abbreviation RTC_REJ_B :: u8 where "RTC_REJ_B \<equiv> 0x0B"
abbreviation RTC_REJ_D :: u8 where "RTC_REJ_D \<equiv> 0x0D"
abbreviation RTC_A_UIP :: u8 where "RTC_A_UIP \<equiv> 0x80"
abbreviation RTC_B_24H :: u8 where "RTC_B_24H \<equiv> 0x02"
abbreviation RTC_B_BINARY :: u8 where "RTC_B_BINARY \<equiv> 0x04"
abbreviation RTC_D_VRT :: u8 where "RTC_D_VRT \<equiv> 0x80"
abbreviation MAX_PROB_UIP :: nat where "MAX_PROB_UIP \<equiv> 10000"
abbreviation MAX_PROB_STABILNEGO_ODCZYTU :: nat where "MAX_PROB_STABILNEGO_ODCZYTU \<equiv> 8"

subsection \<open>Reading the CMOS\<close>

definition pobierz_rejestr_rtc :: "cmos \<Rightarrow> u8 \<Rightarrow> nat \<Rightarrow> u8 \<times> nat" where
  "pobierz_rejestr_rtc c rejestr t = (c t (rejestr AND 0x7F), t + 1)"

definition aktualizacja_w_toku :: "cmos \<Rightarrow> nat \<Rightarrow> bool \<times> nat" where
  "aktualizacja_w_toku c t = (case pobierz_rejestr_rtc c RTC_REJ_A t of (a, t1) \<Rightarrow> (a AND RTC_A_UIP \<noteq> 0, t1))"

fun czekaj_od :: "nat \<Rightarrow> cmos \<Rightarrow> nat \<Rightarrow> bool \<times> nat" where
  "czekaj_od 0 c t = (False, t)"
| "czekaj_od (Suc n) c t = (case aktualizacja_w_toku c t of (uip, t1) \<Rightarrow> if \<not> uip then (True, t1) else czekaj_od n c t1)"

definition czekaj_na_koniec_aktualizacji :: "cmos \<Rightarrow> nat \<Rightarrow> bool \<times> nat" where
  "czekaj_na_koniec_aktualizacji c t = czekaj_od MAX_PROB_UIP c t"

record ProbkaRTC =
  pr_sekundy :: u8
  pr_minuty :: u8
  pr_godziny :: u8
  pr_dzien :: u8
  pr_miesiac :: u8
  pr_rok :: u8
  pr_stulecie :: u8
  pr_rejestr_b :: u8
  pr_rejestr_d :: u8

definition pobierz_probke_surowa :: "cmos \<Rightarrow> nat \<Rightarrow> ProbkaRTC \<times> nat" where
  "pobierz_probke_surowa c t =
     (let (sekundy, t1) = pobierz_rejestr_rtc c RTC_REJ_SEKUNDY t;
          (minuty, t2) = pobierz_rejestr_rtc c RTC_REJ_MINUTY t1;
          (godziny, t3) = pobierz_rejestr_rtc c RTC_REJ_GODZINY t2;
          (dzien, t4) = pobierz_rejestr_rtc c RTC_REJ_DZIEN t3;
          (miesiac, t5) = pobierz_rejestr_rtc c RTC_REJ_MIESIAC t4;
          (rok, t6) = pobierz_rejestr_rtc c RTC_REJ_ROK t5;
          (rejestr_b, t7) = pobierz_rejestr_rtc c RTC_REJ_B t6;
          (rejestr_d, t8) = pobierz_rejestr_rtc c RTC_REJ_D t7
      in (\<lparr>pr_sekundy = sekundy, pr_minuty = minuty, pr_godziny = godziny, pr_dzien = dzien, pr_miesiac = miesiac, pr_rok = rok,
           pr_stulecie = 0, pr_rejestr_b = rejestr_b, pr_rejestr_d = rejestr_d\<rparr>, t8))"

definition probki_rowne :: "ProbkaRTC \<Rightarrow> ProbkaRTC \<Rightarrow> bool" where
  "probki_rowne a b \<longleftrightarrow> pr_sekundy a = pr_sekundy b \<and> pr_minuty a = pr_minuty b \<and> pr_godziny a = pr_godziny b \<and>
     pr_dzien a = pr_dzien b \<and> pr_miesiac a = pr_miesiac b \<and> pr_rok a = pr_rok b \<and> pr_stulecie a = pr_stulecie b \<and>
     pr_rejestr_b a = pr_rejestr_b b \<and> pr_rejestr_d a = pr_rejestr_d b"

fun stabilna_od :: "nat \<Rightarrow> cmos \<Rightarrow> nat \<Rightarrow> ProbkaRTC option \<times> nat" where
  "stabilna_od 0 c t = (None, t)"
| "stabilna_od (Suc n) c t =
     (case czekaj_na_koniec_aktualizacji c t of (ok, t1) \<Rightarrow>
      if \<not> ok then (None, t1)
      else (case pobierz_probke_surowa c t1 of (pierwsza, t2) \<Rightarrow> (case aktualizacja_w_toku c t2 of (uip, t3) \<Rightarrow>
        if uip then stabilna_od n c t3
        else (case czekaj_na_koniec_aktualizacji c t3 of (ok, t4) \<Rightarrow>
          if \<not> ok then (None, t4)
          else (case pobierz_probke_surowa c t4 of (druga, t5) \<Rightarrow> (case aktualizacja_w_toku c t5 of (uip, t6) \<Rightarrow>
            if uip then stabilna_od n c t6
            else if probki_rowne pierwsza druga then (Some druga, t6)
            else stabilna_od n c t6))))))"

definition pobierz_stabilna_probke :: "cmos \<Rightarrow> nat \<Rightarrow> ProbkaRTC option \<times> nat" where
  "pobierz_stabilna_probke c t = stabilna_od MAX_PROB_STABILNEGO_ODCZYTU c t"

subsection \<open>Conversion\<close>

definition poprawny_bcd :: "u8 \<Rightarrow> bool" where
  "poprawny_bcd wartosc \<longleftrightarrow> wartosc AND 0x0F \<le> 9 \<and> drop_bit 4 wartosc AND 0x0F \<le> 9"

definition bcd_na_bin :: "u8 \<Rightarrow> u8" where
  "bcd_na_bin wartosc = (wartosc AND 0x0F) + (drop_bit 4 wartosc AND 0x0F) * 10"

text \<open>The hours of a 12-hour clock as hours of the day.\<close>

definition godziny_24 :: "bool \<Rightarrow> bool \<Rightarrow> u8 \<Rightarrow> u8 option" where
  "godziny_24 tryb_24h pm godziny =
     (if tryb_24h then Some godziny
      else if godziny < 1 \<or> godziny > 12 then None
      else Some (if pm then (if godziny \<noteq> 12 then godziny + 12 else godziny) else if godziny = 12 then 0 else godziny))"

definition skonwertuj_probke :: "ProbkaRTC \<Rightarrow> czas_rtc option" where
  "skonwertuj_probke surowa =
     (if pr_rejestr_d surowa AND RTC_D_VRT = 0 then None
      else let tryb_binarny = (pr_rejestr_b surowa AND RTC_B_BINARY \<noteq> 0);
               tryb_24h = (pr_rejestr_b surowa AND RTC_B_24H \<noteq> 0);
               pm = (\<not> tryb_24h \<and> pr_godziny surowa AND 0x80 \<noteq> 0);
               godziny = pr_godziny surowa AND 0x7F;
               bin = (if tryb_binarny then (\<lambda>x. x) else bcd_na_bin)
      in if \<not> tryb_binarny \<and> (\<not> poprawny_bcd (pr_sekundy surowa) \<or> \<not> poprawny_bcd (pr_minuty surowa) \<or> \<not> poprawny_bcd godziny \<or>
            \<not> poprawny_bcd (pr_dzien surowa) \<or> \<not> poprawny_bcd (pr_miesiac surowa) \<or> \<not> poprawny_bcd (pr_rok surowa)) then None
         else case godziny_24 tryb_24h pm (bin godziny) of None \<Rightarrow> None
         | Some h \<Rightarrow> Some \<lparr>rtc_sekundy = bin (pr_sekundy surowa), rtc_minuty = bin (pr_minuty surowa), rtc_godziny = h,
             rtc_dzien = bin (pr_dzien surowa), rtc_miesiac = bin (pr_miesiac surowa), rtc_rok = 2000 + ucast (bin (pr_rok surowa))\<rparr>)"

subsection \<open>The calendar\<close>

definition rok_przestepny :: "u16 \<Rightarrow> bool" where
  "rok_przestepny rok = (if rok mod 400 = 0 then True else if rok mod 100 = 0 then False else rok mod 4 = 0)"

definition dni_w_miesiacu :: "u16 \<Rightarrow> u8 \<Rightarrow> u8" where
  "dni_w_miesiacu rok miesiac =
     (if miesiac = 2 then (if rok_przestepny rok then 29 else 28)
      else if miesiac \<in> {1, 3, 5, 7, 8, 10, 12} then 31
      else if miesiac \<in> {4, 6, 9, 11} then 30
      else 0)"

definition czas_poprawny :: "czas_rtc \<Rightarrow> bool" where
  "czas_poprawny czas =
     (if rtc_sekundy czas > 59 \<or> rtc_minuty czas > 59 \<or> rtc_godziny czas > 23 then False
      else if rtc_rok czas < 1900 then False
      else if rtc_miesiac czas < 1 \<or> rtc_miesiac czas > 12 then False
      else if rtc_dzien czas < 1 \<or> rtc_dzien czas > dni_w_miesiacu (ucast (rtc_rok czas)) (rtc_miesiac czas) then False
      else True)"

definition tabela_dni :: "u32 list" where
  "tabela_dni = [0, 3, 2, 5, 0, 3, 5, 1, 4, 6, 2, 4]"

definition dzien_tygodnia :: "u16 \<Rightarrow> u8 \<Rightarrow> u8 \<Rightarrow> u8" where
  "dzien_tygodnia rok miesiac dzien =
     (let y = (if miesiac < 3 then ucast rok - 1 else ucast rok :: u32);
          wynik = y + y div 4 - y div 100 + y div 400 + tabela_dni ! unat (miesiac - 1) + ucast dzien
      in ucast (wynik mod 7))"

definition ostatnia_niedziela :: "u16 \<Rightarrow> u8 \<Rightarrow> u8" where
  "ostatnia_niedziela rok miesiac =
     (let ostatni = dni_w_miesiacu rok miesiac in ostatni - dzien_tygodnia rok miesiac ostatni)"

definition polska_strefa_minuty_utc :: "czas_rtc \<Rightarrow> int" where
  "polska_strefa_minuty_utc utc =
     (if rtc_miesiac utc < 3 \<or> rtc_miesiac utc > 10 then 60
      else if rtc_miesiac utc > 3 \<and> rtc_miesiac utc < 10 then 120
      else if rtc_miesiac utc = 3
      then (let zmiana = ostatnia_niedziela (ucast (rtc_rok utc)) 3 in
        if rtc_dzien utc > zmiana then 120
        else if rtc_dzien utc < zmiana then 60
        else if rtc_godziny utc \<ge> 1 then 120 else 60)
      else (let zmiana = ostatnia_niedziela (ucast (rtc_rok utc)) 10 in
        if rtc_dzien utc < zmiana then 120
        else if rtc_dzien utc > zmiana then 60
        else if rtc_godziny utc < 1 then 120 else 60))"

definition nastepny_dzien :: "czas_rtc \<Rightarrow> czas_rtc" where
  "nastepny_dzien czas =
     (if rtc_dzien czas < dni_w_miesiacu (ucast (rtc_rok czas)) (rtc_miesiac czas) then czas\<lparr>rtc_dzien := rtc_dzien czas + 1\<rparr>
      else let c1 = czas\<lparr>rtc_dzien := 1\<rparr> in
        if rtc_miesiac c1 < 12 then c1\<lparr>rtc_miesiac := rtc_miesiac c1 + 1\<rparr>
        else c1\<lparr>rtc_miesiac := 1, rtc_rok := rtc_rok c1 + 1\<rparr>)"

definition poprzedni_dzien :: "czas_rtc \<Rightarrow> czas_rtc" where
  "poprzedni_dzien czas =
     (if rtc_dzien czas > 1 then czas\<lparr>rtc_dzien := rtc_dzien czas - 1\<rparr>
      else let c1 = (if rtc_miesiac czas > 1 then czas\<lparr>rtc_miesiac := rtc_miesiac czas - 1\<rparr>
                     else czas\<lparr>rtc_miesiac := 12, rtc_rok := (if rtc_rok czas > 0 then rtc_rok czas - 1 else rtc_rok czas)\<rparr>)
           in c1\<lparr>rtc_dzien := dni_w_miesiacu (ucast (rtc_rok c1)) (rtc_miesiac c1)\<rparr>)"

text \<open>The two loops of \<open>przesun_czas_o_minuty\<close>. The code adds in 32 bits; the callers pass 60 or 120.\<close>

function dni_naprzod :: "int \<Rightarrow> czas_rtc \<Rightarrow> int \<times> czas_rtc" where
  "dni_naprzod m czas = (if m \<ge> 24 * 60 then dni_naprzod (m - 24 * 60) (nastepny_dzien czas) else (m, czas))"
  by pat_completeness auto
termination by (relation "measure (\<lambda>(m, czas). nat m)") auto

function dni_wstecz :: "int \<Rightarrow> czas_rtc \<Rightarrow> int \<times> czas_rtc" where
  "dni_wstecz m czas = (if m < 0 then dni_wstecz (m + 24 * 60) (poprzedni_dzien czas) else (m, czas))"
  by pat_completeness auto
termination by (relation "measure (\<lambda>(m, czas). nat (- m))") auto

declare dni_naprzod.simps [simp del] dni_wstecz.simps [simp del]

definition przesun_czas_o_minuty :: "czas_rtc \<Rightarrow> int \<Rightarrow> bool \<times> czas_rtc" where
  "przesun_czas_o_minuty czas przesuniecie =
     (if \<not> czas_poprawny czas then (False, czas)
      else let minuty_dnia = int (unat (rtc_godziny czas)) * 60 + int (unat (rtc_minuty czas)) + przesuniecie;
               (m1, c1) = dni_naprzod minuty_dnia czas;
               (m2, c2) = dni_wstecz m1 c1;
               c3 = c2\<lparr>rtc_godziny := of_int (m2 div 60), rtc_minuty := of_int (m2 mod 60)\<rparr>
           in (czas_poprawny c3, c3))"

subsection \<open>The public operations\<close>

record rtc_stan =
  rs_ostatni :: czas_rtc
  rs_mamy :: bool

definition ustaw_czas_awaryjny :: czas_rtc where
  "ustaw_czas_awaryjny = \<lparr>rtc_sekundy = 0, rtc_minuty = 0, rtc_godziny = 0, rtc_dzien = 1, rtc_miesiac = 1, rtc_rok = 2000\<rparr>"

definition pobierz_czas_rtc_wewnetrznie :: "cmos \<Rightarrow> nat \<Rightarrow> czas_rtc option \<times> nat" where
  "pobierz_czas_rtc_wewnetrznie c t =
     (case pobierz_stabilna_probke c t of (p, t1) \<Rightarrow>
      (case p of None \<Rightarrow> None
       | Some probka \<Rightarrow> (case skonwertuj_probke probka of None \<Rightarrow> None
         | Some odczyt \<Rightarrow>
           if \<not> czas_poprawny odczyt then None
           else (case przesun_czas_o_minuty odczyt (polska_strefa_minuty_utc odczyt) of (ok, lokalny) \<Rightarrow>
             if \<not> ok then None else if \<not> czas_poprawny lokalny then None else Some lokalny)), t1))"

definition pobierz_czas_rtc :: "cmos \<Rightarrow> nat \<Rightarrow> rtc_stan \<Rightarrow> czas_rtc \<times> nat \<times> rtc_stan" where
  "pobierz_czas_rtc c t s =
     (case pobierz_czas_rtc_wewnetrznie c t of (w, t1) \<Rightarrow>
      (case w of Some nowy \<Rightarrow> (nowy, t1, s\<lparr>rs_ostatni := nowy, rs_mamy := True\<rparr>)
       | None \<Rightarrow> if rs_mamy s then (rs_ostatni s, t1, s) else (ustaw_czas_awaryjny, t1, s)))"

definition pobierz_czas_rtc_bezpiecznie :: "cmos \<Rightarrow> nat \<Rightarrow> rtc_stan \<Rightarrow> czas_rtc option \<times> nat \<times> rtc_stan" where
  "pobierz_czas_rtc_bezpiecznie c t s =
     (case pobierz_czas_rtc_wewnetrznie c t of (w, t1) \<Rightarrow>
      (case w of Some nowy \<Rightarrow> (Some nowy, t1, s\<lparr>rs_ostatni := nowy, rs_mamy := True\<rparr>)
       | None \<Rightarrow> if rs_mamy s then (Some (rs_ostatni s), t1, s) else (None, t1, s)))"

text \<open>The nine bytes written to the buffer.\<close>

definition formatuj_czas_do_stringa :: "czas_rtc option \<Rightarrow> u8 list" where
  "formatuj_czas_do_stringa czas =
     (case czas of None \<Rightarrow> [0x2D, 0x2D, 0x3A, 0x2D, 0x2D, 0x3A, 0x2D, 0x2D, 0]
      | Some c \<Rightarrow> if \<not> czas_poprawny c then [0x2D, 0x2D, 0x3A, 0x2D, 0x2D, 0x3A, 0x2D, 0x2D, 0]
          else [0x30 + rtc_godziny c div 10, 0x30 + rtc_godziny c mod 10, 0x3A,
                0x30 + rtc_minuty c div 10, 0x30 + rtc_minuty c mod 10, 0x3A,
                0x30 + rtc_sekundy c div 10, 0x30 + rtc_sekundy c mod 10, 0])"

text \<open>The quick check of the header file.\<close>

definition rtc_podstawowy_czas_poprawny :: "czas_rtc \<Rightarrow> bool" where
  "rtc_podstawowy_czas_poprawny czas \<longleftrightarrow> rtc_sekundy czas \<le> 59 \<and> rtc_minuty czas \<le> 59 \<and> rtc_godziny czas \<le> 23 \<and>
     rtc_miesiac czas \<ge> 1 \<and> rtc_miesiac czas \<le> 12 \<and> rtc_dzien czas \<ge> 1 \<and> rtc_dzien czas \<le> 31"

lemma czas_poprawny_podstawowy: "czas_poprawny czas \<Longrightarrow> rtc_podstawowy_czas_poprawny czas"
proof -
  assume c: "czas_poprawny czas"
  have "dni_w_miesiacu r m \<le> 31" for r m by (simp add: dni_w_miesiacu_def)
  then have "rtc_dzien czas \<le> 31" using c unfolding czas_poprawny_def by (metis linorder_not_less order_trans)
  then show ?thesis using c unfolding rtc_podstawowy_czas_poprawny_def czas_poprawny_def word_less_nat_alt word_le_nat_alt by (auto split: if_splits)
qed

end
