(* ===== verification/Psf.thy ===== *)
theory Psf
  imports Zegar
begin

section \<open>The BSP2 file system\<close>

text \<open>
  \<open>psf.cpp\<close> and the disk format of \<open>psf.h\<close>. The RAM disk is a map from block numbers to the 4096 bytes
  of the block, so a pointer into it is a block number with an offset; the packed structures are read
  and written byte by byte at their offsets. The AHCI driver and the RTC are parameters, bundled in
  \<open>otoczenie\<close>. The lock makes each public operation atomic; the log is left out.
\<close>

type_synonym blok = "nat \<Rightarrow> u8"
type_synonym tekst = "nat \<Rightarrow> u8"
type_synonym dysk = "u64 \<Rightarrow> nat \<Rightarrow> u8"

abbreviation PSF_ROZMIAR_BLOKU :: nat where "PSF_ROZMIAR_BLOKU \<equiv> 4096"
abbreviation PSF_MAX_NAZWA :: nat where "PSF_MAX_NAZWA \<equiv> 56"
abbreviation PSF_MAX_BLOKOW_W_WEZLE :: nat where "PSF_MAX_BLOKOW_W_WEZLE \<equiv> 490"
abbreviation TYP_WOLNY :: u8 where "TYP_WOLNY \<equiv> 0"
abbreviation TYP_PLIK :: u8 where "TYP_PLIK \<equiv> 1"
abbreviation TYP_KATALOG :: u8 where "TYP_KATALOG \<equiv> 2"
abbreviation ROZMIAR_SEKTORA :: nat where "ROZMIAR_SEKTORA \<equiv> 512"
abbreviation AHCI_MAX_SEKTOROW_NA_OPERACJE :: nat where "AHCI_MAX_SEKTOROW_NA_OPERACJE \<equiv> 32"
abbreviation MAKS_BRUDNYCH_BLOKOW :: nat where "MAKS_BRUDNYCH_BLOKOW \<equiv> 256"
abbreviation PSF_MAKS_DLUGOSC_SCIEZKI :: nat where "PSF_MAKS_DLUGOSC_SCIEZKI \<equiv> 512"

definition BARK_BLOKU :: u64 where "BARK_BLOKU = 0xFFFFFFFFFFFFFFFF"
definition BSP_START_LBA :: u64 where "BSP_START_LBA = 40000"
definition MAX_LOADER_BUF :: u64 where "MAX_LOADER_BUF = 0x80000"
definition MINIMALNA_LICZBA_BLOKOW :: u64 where "MINIMALNA_LICZBA_BLOKOW = 10"
definition DOMYSLNY_PZB_PLIKU :: u8 where "DOMYSLNY_PZB_PLIKU = 4"

definition PSF_META_MAGIC_MASK :: u64 where "PSF_META_MAGIC_MASK = 0xFFFFFFFF00000000"
definition PSF_META_MAGIC :: u64 where "PSF_META_MAGIC = 0x5053464D00000000"
definition PSF_META_WERSJA_MASK :: u64 where "PSF_META_WERSJA_MASK = 0x00000000FF000000"
definition PSF_META_WERSJA_1 :: u64 where "PSF_META_WERSJA_1 = 0x0000000001000000"
definition PSF_META_CZAS_WAZNY :: u64 where "PSF_META_CZAS_WAZNY = 0x100"
definition PSF_META_PZB_WAZNY :: u64 where "PSF_META_PZB_WAZNY = 0x200"
definition PSF_META_PZB_MASK :: u64 where "PSF_META_PZB_MASK = 7"

subsection \<open>Bytes and packed structures\<close>

definition czytaj64 :: "blok \<Rightarrow> nat \<Rightarrow> u64" where
  "czytaj64 b o1 = foldr (\<lambda>i x. push_bit 8 x OR ucast (b (o1 + i))) [0 ..< 8] 0"

definition zapisz64 :: "blok \<Rightarrow> nat \<Rightarrow> u64 \<Rightarrow> blok" where
  "zapisz64 b o1 x = (\<lambda>i. if o1 \<le> i \<and> i < o1 + 8 then ucast (drop_bit (8 * (i - o1)) x) else b i)"

text \<open>\<open>wyzeruj_pamiec\<close> and \<open>kopiuj_pamiec\<close> on a block: the copy behaves as if it read the whole source
  before the first write.\<close>

definition wyzeruj_pamiec :: "blok \<Rightarrow> nat \<Rightarrow> nat \<Rightarrow> blok" where
  "wyzeruj_pamiec b o1 n = (\<lambda>i. if o1 \<le> i \<and> i < o1 + n then 0 else b i)"

definition kopiuj_pamiec :: "blok \<Rightarrow> nat \<Rightarrow> (nat \<Rightarrow> u8) \<Rightarrow> nat \<Rightarrow> blok" where
  "kopiuj_pamiec b o1 zrodlo n = (\<lambda>i. if o1 \<le> i \<and> i < o1 + n then zrodlo (i - o1) else b i)"

definition mnoz_u64 :: "u64 \<Rightarrow> u64 \<Rightarrow> u64 option" where
  "mnoz_u64 a b = (if a \<noteq> 0 \<and> b > UINT64_MAX div a then None else Some (a * b))"

definition podziel_w_gore :: "u64 \<Rightarrow> u64 \<Rightarrow> u64" where
  "podziel_w_gore wartosc dzielnik =
     (if dzielnik = 0 then 0 else wartosc div dzielnik + (if wartosc mod dzielnik \<noteq> 0 then 1 else 0))"

record superblok =
  sb_sygnatura :: "nat \<Rightarrow> u8"
  sb_calkowity_rozmiar :: u64
  sb_ilosc_blokow :: u64
  sb_id_korzenia :: u64
  sb_start_wezlow :: u64
  sb_start_danych :: u64

definition superblok_z :: "blok \<Rightarrow> superblok" where
  "superblok_z b = \<lparr>sb_sygnatura = (\<lambda>i. if i < 4 then b i else 0), sb_calkowity_rozmiar = czytaj64 b 0x04,
     sb_ilosc_blokow = czytaj64 b 0x0C, sb_id_korzenia = czytaj64 b 0x14, sb_start_wezlow = czytaj64 b 0x1C,
     sb_start_danych = czytaj64 b 0x24\<rparr>"

record wezel_indeksowy =
  w_typ :: u8
  w_rozmiar :: u64
  w_czas :: u64
  w_flagi :: u64
  w_wskazniki :: "nat \<Rightarrow> u64"
  w_posredni_1 :: u64
  w_posredni_2 :: u64
  w_posredni_3 :: u64

definition wezel_z :: "blok \<Rightarrow> wezel_indeksowy" where
  "wezel_z b = \<lparr>w_typ = b 0, w_rozmiar = czytaj64 b 0x001, w_czas = czytaj64 b 0x009, w_flagi = czytaj64 b 0x011,
     w_wskazniki = (\<lambda>k. if k < PSF_MAX_BLOKOW_W_WEZLE then czytaj64 b (0x019 + 8 * k) else BARK_BLOKU),
     w_posredni_1 = czytaj64 b 0xF69, w_posredni_2 = czytaj64 b 0xF71, w_posredni_3 = czytaj64 b 0xF79\<rparr>"

record wpis_katalogowy =
  wp_id :: u64
  wp_nazwa :: tekst

definition wpis_z :: "blok \<Rightarrow> nat \<Rightarrow> wpis_katalogowy" where
  "wpis_z b j = \<lparr>wp_id = czytaj64 b (64 * j), wp_nazwa = (\<lambda>i. if i < PSF_MAX_NAZWA then b (64 * j + 8 + i) else 0)\<rparr>"

definition wezlow_na_blok :: u64 where "wezlow_na_blok = of_nat PSF_ROZMIAR_BLOKU div 4096"
definition wpisow_katalogowych_na_blok :: u64 where "wpisow_katalogowych_na_blok = of_nat PSF_ROZMIAR_BLOKU div 64"

definition parametry_formatu_obslugiwane :: bool where
  "parametry_formatu_obslugiwane \<longleftrightarrow> PSF_ROZMIAR_BLOKU \<noteq> 0 \<and> PSF_ROZMIAR_BLOKU mod ROZMIAR_SEKTORA = 0 \<and>
     (44 :: nat) \<le> ROZMIAR_SEKTORA \<and> (4096 :: nat) \<le> PSF_ROZMIAR_BLOKU \<and> (64 :: nat) \<le> PSF_ROZMIAR_BLOKU \<and>
     PSF_ROZMIAR_BLOKU div 4096 \<noteq> 0 \<and> PSF_ROZMIAR_BLOKU div 64 \<noteq> 0"

subsection \<open>The state\<close>

text \<open>\<open>ot_zapisz\<close> writes sectors from a source of bytes, \<open>ot_czytaj\<close> reads them, both with the number of
  the first sector and a count; \<open>ot_czas\<close> is what \<open>pobierz_czas_rtc_bezpiecznie\<close> reads.\<close>

record otoczenie =
  ot_zapisz :: "u64 \<Rightarrow> nat \<Rightarrow> (nat \<Rightarrow> u8) \<Rightarrow> dysk \<Rightarrow> bool \<times> dysk"
  ot_czytaj :: "u64 \<Rightarrow> nat \<Rightarrow> dysk \<Rightarrow> (nat \<Rightarrow> u8) option"
  ot_czas :: "czas_rtc option"

record psf =
  ps_ram :: "u64 \<Rightarrow> blok"
  ps_ram_dysk :: bool
  ps_rozmiar :: u32
  ps_superblok :: bool
  ps_wezly :: u64
  ps_bloki :: u64
  ps_ostatni :: u64
  ps_gotowy :: bool
  ps_ahci :: bool
  ps_trwaly :: bool
  ps_flush_ok :: bool
  ps_brudne :: "u64 list"
  ps_caly :: bool
  ps_bufor_superbloku :: "nat \<Rightarrow> u8"
  ps_bufor_wymiany :: "nat \<Rightarrow> u8"
  ps_dysk :: dysk

definition sb :: "psf \<Rightarrow> superblok" where
  "sb s = superblok_z (ps_ram s 0)"

definition zmien_blok :: "psf \<Rightarrow> u64 \<Rightarrow> (blok \<Rightarrow> blok) \<Rightarrow> psf" where
  "zmien_blok s nr f = s\<lparr>ps_ram := (ps_ram s)(nr := f (ps_ram s nr))\<rparr>"

subsection \<open>Dirty blocks and the write-through\<close>

definition wyczysc_liste_brudnych :: "psf \<Rightarrow> psf" where
  "wyczysc_liste_brudnych s = s\<lparr>ps_brudne := [], ps_caly := False\<rparr>"

definition oznacz_caly_system_jako_brudny :: "psf \<Rightarrow> psf" where
  "oznacz_caly_system_jako_brudny s = s\<lparr>ps_caly := True, ps_brudne := []\<rparr>"

definition oznacz_blok_jako_brudny :: "psf \<Rightarrow> u64 \<Rightarrow> psf" where
  "oznacz_blok_jako_brudny s nr =
     (if \<not> ps_superblok s then s
      else if nr \<ge> sb_ilosc_blokow (sb s) then s
      else if ps_caly s then s
      else if nr \<in> set (ps_brudne s) then s
      else if length (ps_brudne s) \<ge> MAKS_BRUDNYCH_BLOKOW then oznacz_caly_system_jako_brudny s
      else s\<lparr>ps_brudne := ps_brudne s @ [nr]\<rparr>)"

function zapisz_sektory_od :: "otoczenie \<Rightarrow> nat \<Rightarrow> u64 \<Rightarrow> nat \<Rightarrow> (nat \<Rightarrow> u8) \<Rightarrow> dysk \<Rightarrow> bool \<times> dysk" where
  "zapisz_sektory_od E zapisano lba liczba dane d =
     (if zapisano < liczba
      then let pozostalo = liczba - zapisano;
               paczka = (if pozostalo > AHCI_MAX_SEKTOROW_NA_OPERACJE then AHCI_MAX_SEKTOROW_NA_OPERACJE else pozostalo)
           in case ot_zapisz E (lba + of_nat zapisano) paczka (\<lambda>i. dane (zapisano * ROZMIAR_SEKTORA + i)) d of (ok, d1) \<Rightarrow>
              if \<not> ok then (False, d1) else zapisz_sektory_od E (zapisano + paczka) lba liczba dane d1
      else (True, d))"
  by pat_completeness auto
termination by (relation "measure (\<lambda>(E, zapisano, lba, liczba, dane, d). liczba - zapisano)") auto

declare zapisz_sektory_od.simps [simp del]

definition zapisz_sektory_porcjami :: "otoczenie \<Rightarrow> u64 \<Rightarrow> u64 \<Rightarrow> (nat \<Rightarrow> u8) \<Rightarrow> dysk \<Rightarrow> bool \<times> dysk" where
  "zapisz_sektory_porcjami E lba liczba_sektorow dane d = zapisz_sektory_od E 0 lba (unat liczba_sektorow) dane d"

function czytaj_sektory_od :: "otoczenie \<Rightarrow> dysk \<Rightarrow> nat \<Rightarrow> u64 \<Rightarrow> nat \<Rightarrow> (nat \<Rightarrow> u8) \<Rightarrow> bool \<times> (nat \<Rightarrow> u8)" where
  "czytaj_sektory_od E d przeczytano lba liczba cel =
     (if przeczytano < liczba
      then let pozostalo = liczba - przeczytano;
               paczka = (if pozostalo > AHCI_MAX_SEKTOROW_NA_OPERACJE then AHCI_MAX_SEKTOROW_NA_OPERACJE else pozostalo)
           in case ot_czytaj E (lba + of_nat przeczytano) paczka d of
                None \<Rightarrow> (False, cel)
              | Some dane \<Rightarrow> czytaj_sektory_od E d (przeczytano + paczka) lba liczba
                  (kopiuj_pamiec cel (przeczytano * ROZMIAR_SEKTORA) dane (paczka * ROZMIAR_SEKTORA))
      else (True, cel))"
  by pat_completeness auto
termination by (relation "measure (\<lambda>(E, d, przeczytano, lba, liczba, cel). liczba - przeczytano)") auto

declare czytaj_sektory_od.simps [simp del]

definition czytaj_sektory_porcjami :: "otoczenie \<Rightarrow> dysk \<Rightarrow> u64 \<Rightarrow> u64 \<Rightarrow> (nat \<Rightarrow> u8) \<Rightarrow> bool \<times> (nat \<Rightarrow> u8)" where
  "czytaj_sektory_porcjami E d lba liczba_sektorow cel = czytaj_sektory_od E d 0 lba (unat liczba_sektorow) cel"

text \<open>The bytes of the RAM disk in a row, and a RAM disk made of them.\<close>

definition bajty_ram :: "(u64 \<Rightarrow> blok) \<Rightarrow> nat \<Rightarrow> u8" where
  "bajty_ram ram i = ram (of_nat (i div PSF_ROZMIAR_BLOKU)) (i mod PSF_ROZMIAR_BLOKU)"

definition ram_z_bajtow :: "(nat \<Rightarrow> u8) \<Rightarrow> u64 \<Rightarrow> blok" where
  "ram_z_bajtow bajty nr i = bajty (unat nr * PSF_ROZMIAR_BLOKU + i)"

fun zapisz_brudne :: "otoczenie \<Rightarrow> (u64 \<Rightarrow> blok) \<Rightarrow> u64 list \<Rightarrow> dysk \<Rightarrow> bool \<times> dysk" where
  "zapisz_brudne E ram [] d = (True, d)"
| "zapisz_brudne E ram (nr # nry) d =
     (case (mnoz_u64 nr (of_nat PSF_ROZMIAR_BLOKU), mnoz_u64 nr (of_nat (PSF_ROZMIAR_BLOKU div ROZMIAR_SEKTORA))) of
        (Some przesuniecie_bajtowe, Some przesuniecie_lba) \<Rightarrow>
          (case zapisz_sektory_porcjami E (BSP_START_LBA + przesuniecie_lba) (of_nat (PSF_ROZMIAR_BLOKU div ROZMIAR_SEKTORA))
                  (\<lambda>i. bajty_ram ram (unat przesuniecie_bajtowe + i)) d of (ok, d1) \<Rightarrow>
             if \<not> ok then (False, d1) else zapisz_brudne E ram nry d1)
      | _ \<Rightarrow> (False, d))"

definition bsp_zapisz_zmiany :: "otoczenie \<Rightarrow> psf \<Rightarrow> bool \<times> psf" where
  "bsp_zapisz_zmiany E s =
     (if \<not> ps_ram_dysk s \<or> \<not> ps_superblok s then (False, s)
      else if \<not> ps_ahci s \<or> \<not> ps_trwaly s then (False, (wyczysc_liste_brudnych s)\<lparr>ps_flush_ok := False\<rparr>)
      else if \<not> ps_caly s \<and> ps_brudne s = [] then (True, s\<lparr>ps_flush_ok := True\<rparr>)
      else let (sukces, d) =
             (if ps_caly s
              then zapisz_sektory_porcjami E BSP_START_LBA (sb_calkowity_rozmiar (sb s) div of_nat ROZMIAR_SEKTORA)
                     (bajty_ram (ps_ram s)) (ps_dysk s)
              else zapisz_brudne E (ps_ram s) (ps_brudne s) (ps_dysk s));
               s1 = s\<lparr>ps_dysk := d\<rparr>;
               s2 = (if sukces then wyczysc_liste_brudnych s1 else s1)
           in (sukces, s2\<lparr>ps_flush_ok := sukces\<rparr>))"

subsection \<open>Raw blocks and nodes\<close>

text \<open>A pointer to a block, a node or a block of entries is the number of its block.\<close>

definition pobierz_blok :: "psf \<Rightarrow> u64 \<Rightarrow> u64 option" where
  "pobierz_blok s nr =
     (if \<not> ps_ram_dysk s \<or> \<not> ps_superblok s then None
      else if nr \<ge> sb_ilosc_blokow (sb s) then None
      else case mnoz_u64 nr (of_nat PSF_ROZMIAR_BLOKU) of None \<Rightarrow> None
      | Some offset \<Rightarrow> (case dodaj_u64 offset (of_nat PSF_ROZMIAR_BLOKU) of None \<Rightarrow> None
        | Some kon \<Rightarrow> if kon > ucast (ps_rozmiar s) then None else Some nr))"

text \<open>A node fills its block: \<open>indeks mod wezlow_na_blok\<close> is 0.\<close>

definition pobierz_wezel :: "psf \<Rightarrow> u64 \<Rightarrow> u64 option" where
  "pobierz_wezel s id_wezla =
     (if \<not> ps_superblok s \<or> id_wezla = 0 \<or> id_wezla > ps_wezly s then None
      else if wezlow_na_blok = 0 then None
      else let indeks = id_wezla - 1; nr_bloku = sb_start_wezlow (sb s) + indeks div wezlow_na_blok in
      if nr_bloku \<ge> sb_start_danych (sb s) then None else pobierz_blok s nr_bloku)"

definition oznacz_wezel_jako_brudny :: "psf \<Rightarrow> u64 \<Rightarrow> psf" where
  "oznacz_wezel_jako_brudny s id_wezla =
     (if \<not> ps_superblok s \<or> id_wezla = 0 then s
      else if wezlow_na_blok = 0 then s
      else oznacz_blok_jako_brudny s (sb_start_wezlow (sb s) + (id_wezla - 1) div wezlow_na_blok))"

definition id_bloku_danych_poprawne :: "psf \<Rightarrow> u64 \<Rightarrow> bool" where
  "id_bloku_danych_poprawne s i \<longleftrightarrow> i < ps_bloki s"

definition absolutny_blok_danych :: "psf \<Rightarrow> u64 \<Rightarrow> u64" where
  "absolutny_blok_danych s i =
     (if \<not> ps_superblok s \<or> \<not> id_bloku_danych_poprawne s i then UINT64_MAX else sb_start_danych (sb s) + i)"

definition pobierz_blok_danych :: "psf \<Rightarrow> u64 \<Rightarrow> u64 option" where
  "pobierz_blok_danych s i =
     (let absolutny = absolutny_blok_danych s i in if absolutny = UINT64_MAX then None else pobierz_blok s absolutny)"

definition pobierz_wpisy_katalogowe :: "psf \<Rightarrow> u64 \<Rightarrow> u64 option" where
  "pobierz_wpisy_katalogowe s i = pobierz_blok_danych s i"

text \<open>The common tail of every write to a data block.\<close>

definition oznacz_dane_jako_brudne :: "psf \<Rightarrow> u64 \<Rightarrow> psf" where
  "oznacz_dane_jako_brudne s i =
     (let absolutny = absolutny_blok_danych s i in if absolutny \<noteq> UINT64_MAX then oznacz_blok_jako_brudny s absolutny else s)"

end
