(* ===== verification/Psf_Struktury.thy ===== *)
theory Psf_Struktury
  imports Psf
begin

section \<open>BSP2: bitmap, nodes, names, directories and paths\<close>

text \<open>
  The internal operations of \<open>psf.cpp\<close>. A search loop is a recursion on the list of the indices it
  still visits. Texts are the characters behind a non-null pointer; the public operations take an
  option for a pointer that may be null.
\<close>

subsection \<open>The bitmap of data blocks\<close>

definition lokalizacja_bitmapy :: "psf \<Rightarrow> u64 \<Rightarrow> (u64 \<times> nat \<times> u8) option" where
  "lokalizacja_bitmapy s i =
     (if \<not> ps_superblok s then None
      else if \<not> id_bloku_danych_poprawne s i then None
      else let bajt = i div 8; blok = 1 + bajt div of_nat PSF_ROZMIAR_BLOKU in
      if blok \<ge> sb_start_wezlow (sb s) then None
      else Some (blok, unat (bajt mod of_nat PSF_ROZMIAR_BLOKU), push_bit (unat (i AND 7)) 1))"

definition czy_blok_danych_zajety :: "psf \<Rightarrow> u64 \<Rightarrow> bool" where
  "czy_blok_danych_zajety s i =
     (case lokalizacja_bitmapy s i of None \<Rightarrow> False
      | Some (nr_bitmapy, offset, maska) \<Rightarrow>
        (case pobierz_blok s nr_bitmapy of None \<Rightarrow> False
         | Some nr \<Rightarrow> ps_ram s nr offset AND maska \<noteq> 0))"

definition ustaw_stan_bloku_danych :: "psf \<Rightarrow> u64 \<Rightarrow> bool \<Rightarrow> bool \<times> psf" where
  "ustaw_stan_bloku_danych s i zajety =
     (case lokalizacja_bitmapy s i of None \<Rightarrow> (False, s)
      | Some (nr_bitmapy, offset, maska) \<Rightarrow>
        (case pobierz_blok s nr_bitmapy of None \<Rightarrow> (False, s)
         | Some nr \<Rightarrow>
             (True, oznacz_blok_jako_brudny
                (zmien_blok s nr (\<lambda>b. b(offset := (if zajety then b offset OR maska else b offset AND NOT maska))))
                nr_bitmapy)))"

text \<open>One candidate of the search for a free block; \<open>False\<close> is a \<open>continue\<close>.\<close>

definition sprobuj_blok :: "psf \<Rightarrow> u64 \<Rightarrow> bool \<times> psf" where
  "sprobuj_blok s i =
     (if czy_blok_danych_zajety s i then (False, s)
      else case ustaw_stan_bloku_danych s i True of (ok, s1) \<Rightarrow>
        if \<not> ok then (False, s1)
        else (case pobierz_blok_danych s1 i of
            None \<Rightarrow> (False, snd (ustaw_stan_bloku_danych s1 i False))
          | Some nr \<Rightarrow>
              let s2 = oznacz_dane_jako_brudne (zmien_blok s1 nr (\<lambda>b. wyzeruj_pamiec b 0 PSF_ROZMIAR_BLOKU)) i;
                  ostatni = (if i + 1 \<ge> ps_bloki s2 then 0 else i + 1)
              in (True, s2\<lparr>ps_ostatni := ostatni\<rparr>)))"

fun szukaj_bloku :: "psf \<Rightarrow> u64 list \<Rightarrow> u64 \<times> psf" where
  "szukaj_bloku s [] = (BARK_BLOKU, s)"
| "szukaj_bloku s (i # is) = (case sprobuj_blok s i of (ok, s1) \<Rightarrow> if ok then (i, s1) else szukaj_bloku s1 is)"

text \<open>The ids of the two passes, from \<open>od\<close> up to \<open>gorna - 1\<close>.\<close>

definition zakres_id :: "u64 \<Rightarrow> u64 \<Rightarrow> u64 list" where
  "zakres_id od gorna = map of_nat [unat od ..< unat gorna]"

definition zaalokuj_wolny_blok_danych :: "psf \<Rightarrow> u64 \<times> psf" where
  "zaalokuj_wolny_blok_danych s =
     (if \<not> ps_superblok s \<or> ps_bloki s = 0 then (BARK_BLOKU, s)
      else let start = (if ps_ostatni s \<ge> ps_bloki s then 0 else ps_ostatni s)
           in szukaj_bloku s (zakres_id start (ps_bloki s) @ zakres_id 0 start))"

definition zwolnij_blok_danych :: "psf \<Rightarrow> u64 \<Rightarrow> bool \<times> psf" where
  "zwolnij_blok_danych s i =
     (if \<not> id_bloku_danych_poprawne s i then (False, s)
      else if \<not> czy_blok_danych_zajety s i then (False, s)
      else case pobierz_blok_danych s i of None \<Rightarrow> (False, s)
      | Some nr \<Rightarrow>
          let s1 = oznacz_dane_jako_brudne (zmien_blok s nr (\<lambda>b. wyzeruj_pamiec b 0 PSF_ROZMIAR_BLOKU)) i in
          case ustaw_stan_bloku_danych s1 i False of (ok, s2) \<Rightarrow>
            if \<not> ok then (False, s2)
            else (True, if i < ps_ostatni s2 then s2\<lparr>ps_ostatni := i\<rparr> else s2))"

subsection \<open>Nodes\<close>

definition wezel :: "psf \<Rightarrow> u64 \<Rightarrow> wezel_indeksowy" where
  "wezel s nr = wezel_z (ps_ram s nr)"

definition ustaw_wskaznik :: "psf \<Rightarrow> u64 \<Rightarrow> nat \<Rightarrow> u64 \<Rightarrow> psf" where
  "ustaw_wskaznik s nr k x = zmien_blok s nr (\<lambda>b. zapisz64 b (0x019 + 8 * k) x)"

definition ustaw_rozmiar :: "psf \<Rightarrow> u64 \<Rightarrow> u64 \<Rightarrow> psf" where
  "ustaw_rozmiar s nr x = zmien_blok s nr (\<lambda>b. zapisz64 b 0x001 x)"

definition wyzeruj_wezel :: "blok \<Rightarrow> u8 \<Rightarrow> blok" where
  "wyzeruj_wezel b typ =
     (let b1 = (wyzeruj_pamiec b 0 PSF_ROZMIAR_BLOKU)(0 := typ);
          b2 = zapisz64 (zapisz64 (zapisz64 b1 0x001 0) 0x009 0) 0x011 0;
          b3 = foldl (\<lambda>b k. zapisz64 b (0x019 + 8 * k) BARK_BLOKU) b2 [0 ..< PSF_MAX_BLOKOW_W_WEZLE]
      in zapisz64 (zapisz64 (zapisz64 b3 0xF69 BARK_BLOKU) 0xF71 BARK_BLOKU) 0xF79 BARK_BLOKU)"

text \<open>The first free node among the ids.\<close>

fun szukaj_wezla :: "psf \<Rightarrow> u64 list \<Rightarrow> (u64 \<times> u64) option" where
  "szukaj_wezla s [] = None"
| "szukaj_wezla s (i # is) =
     (case pobierz_wezel s i of None \<Rightarrow> szukaj_wezla s is
      | Some nr \<Rightarrow> if w_typ (wezel s nr) \<noteq> TYP_WOLNY then szukaj_wezla s is else Some (i, nr))"

definition id_wezlow :: "psf \<Rightarrow> u64 list" where
  "id_wezlow s = map of_nat [1 ..< unat (ps_wezly s) + 1]"

definition zaalokuj_wolny_wezel :: "psf \<Rightarrow> u8 \<Rightarrow> u64 \<times> psf" where
  "zaalokuj_wolny_wezel s typ =
     (case szukaj_wezla s (id_wezlow s) of None \<Rightarrow> (0, s)
      | Some (i, nr) \<Rightarrow> (i, oznacz_wezel_jako_brudny (zmien_blok s nr (\<lambda>b. wyzeruj_wezel b typ)) i))"

definition zwolnij_wezel :: "psf \<Rightarrow> u64 \<Rightarrow> bool \<times> psf" where
  "zwolnij_wezel s i =
     (case pobierz_wezel s i of None \<Rightarrow> (False, s)
      | Some nr \<Rightarrow> if w_typ (wezel s nr) = TYP_WOLNY then (False, s)
          else (True, oznacz_wezel_jako_brudny (zmien_blok s nr (\<lambda>b. wyzeruj_wezel b TYP_WOLNY)) i))"

definition zapakuj_prawdziwy_czas_rtc :: "czas_rtc option \<Rightarrow> u64 option" where
  "zapakuj_prawdziwy_czas_rtc czas = map_option (\<lambda>c.
     let w1 = ucast (rtc_rok c); w2 = w1 * 100 + ucast (rtc_miesiac c); w3 = w2 * 100 + ucast (rtc_dzien c);
         w4 = w3 * 100 + ucast (rtc_godziny c); w5 = w4 * 100 + ucast (rtc_minuty c)
     in w5 * 100 + ucast (rtc_sekundy c)) czas"

definition znacznik_metadanych_poprawny :: "u64 \<Rightarrow> bool" where
  "znacznik_metadanych_poprawny flagi \<longleftrightarrow>
     flagi AND PSF_META_MAGIC_MASK = PSF_META_MAGIC \<and> flagi AND PSF_META_WERSJA_MASK = PSF_META_WERSJA_1"

definition ustaw_metadane_nowego_wezla :: "czas_rtc option \<Rightarrow> psf \<Rightarrow> u64 \<Rightarrow> u8 \<Rightarrow> psf" where
  "ustaw_metadane_nowego_wezla rtc s nr pzb =
     (if pzb > 5 then s
      else let flagi = PSF_META_MAGIC OR PSF_META_WERSJA_1 OR PSF_META_PZB_WAZNY OR ucast pzb in
        zmien_blok s nr (\<lambda>b. case zapakuj_prawdziwy_czas_rtc rtc of
            None \<Rightarrow> zapisz64 b 0x011 flagi
          | Some czas \<Rightarrow> zapisz64 (zapisz64 b 0x009 czas) 0x011 (flagi OR PSF_META_CZAS_WAZNY)))"

subsection \<open>Names and paths\<close>

definition zakonczony_string_w_limicie :: "tekst \<Rightarrow> nat \<Rightarrow> nat option" where
  "zakonczony_string_w_limicie t limit = find (\<lambda>i. t i = 0) [0 ..< limit]"

definition poprawna_nazwa :: "tekst \<Rightarrow> bool" where
  "poprawna_nazwa nazwa =
     (case zakonczony_string_w_limicie nazwa PSF_MAX_NAZWA of None \<Rightarrow> False
      | Some dlugosc \<Rightarrow>
        if dlugosc = 0 \<or> dlugosc \<ge> PSF_MAX_NAZWA then False
        else if dlugosc = 1 \<and> nazwa 0 = 0x2E \<or> dlugosc = 2 \<and> nazwa 0 = 0x2E \<and> nazwa 1 = 0x2E then False
        else list_all (\<lambda>i. \<not> (nazwa i = 0x2F \<or> nazwa i = 0x5C \<or> nazwa i < 0x20)) [0 ..< dlugosc])"

fun ukosniki_poprawne :: "tekst \<Rightarrow> bool \<Rightarrow> nat list \<Rightarrow> bool" where
  "ukosniki_poprawne t poprzedni [] = True"
| "ukosniki_poprawne t poprzedni (i # is) =
     (if t i = 0x2F then if poprzedni then False else ukosniki_poprawne t True is
      else ukosniki_poprawne t False is)"

definition bezpieczna_sciezka :: "tekst \<Rightarrow> bool" where
  "bezpieczna_sciezka sciezka =
     (case zakonczony_string_w_limicie sciezka PSF_MAKS_DLUGOSC_SCIEZKI of None \<Rightarrow> False
      | Some dlugosc \<Rightarrow>
        if dlugosc = 0 \<or> sciezka 0 \<noteq> 0x2F then False
        else if dlugosc = 1 then True
        else if sciezka (dlugosc - 1) = 0x2F then False
        else ukosniki_poprawne sciezka True [1 ..< dlugosc])"

definition kopiuj_nazwe :: "tekst \<Rightarrow> tekst \<Rightarrow> tekst option" where
  "kopiuj_nazwe cel zrodlo =
     (if \<not> poprawna_nazwa zrodlo then None
      else let i = length (takeWhile (\<lambda>i. zrodlo i \<noteq> 0) [0 ..< PSF_MAX_NAZWA - 1])
           in Some ((\<lambda>k. if k < i then zrodlo k else cel k)(i := 0)))"

fun nazwy_rowne_od :: "nat \<Rightarrow> tekst \<Rightarrow> tekst \<Rightarrow> nat \<Rightarrow> bool" where
  "nazwy_rowne_od 0 a b i = False"
| "nazwy_rowne_od (Suc n) a b i =
     (let ca = a i; cb = b i in
      if ca \<noteq> cb then False else if ca = 0 then True else nazwy_rowne_od n a b (i + 1))"

definition nazwy_rowne :: "tekst \<Rightarrow> tekst \<Rightarrow> bool" where
  "nazwy_rowne a b = nazwy_rowne_od PSF_MAX_NAZWA a b 0"

subsection \<open>Directories\<close>

record ZnalezionyWpis =
  zw_znaleziony :: bool
  zw_id_wezla :: u64
  zw_id_bloku :: u64
  zw_indeks :: nat

definition brak_wpisu :: ZnalezionyWpis where
  "brak_wpisu = \<lparr>zw_znaleziony = False, zw_id_wezla = 0, zw_id_bloku = 0, zw_indeks = 0\<rparr>"

text \<open>An entry's index \<open>j\<close> runs over the 64 entries of a block, a pointer's index \<open>k\<close> over the 490 of a
  node.\<close>

definition indeksy_wpisow :: "nat list" where "indeksy_wpisow = [0 ..< unat wpisow_katalogowych_na_blok]"
definition indeksy_wskaznikow :: "nat list" where "indeksy_wskaznikow = [0 ..< PSF_MAX_BLOKOW_W_WEZLE]"

definition wpis :: "psf \<Rightarrow> u64 \<Rightarrow> nat \<Rightarrow> wpis_katalogowy" where
  "wpis s nr j = wpis_z (ps_ram s nr) j"

fun znajdz_w_blokach :: "psf \<Rightarrow> wezel_indeksowy \<Rightarrow> tekst \<Rightarrow> nat list \<Rightarrow> ZnalezionyWpis" where
  "znajdz_w_blokach s katalog nazwa [] = brak_wpisu"
| "znajdz_w_blokach s katalog nazwa (k # ks) =
     (let id_bloku = w_wskazniki katalog k in
      if id_bloku = BARK_BLOKU then znajdz_w_blokach s katalog nazwa ks
      else if \<not> id_bloku_danych_poprawne s id_bloku then brak_wpisu
      else case pobierz_wpisy_katalogowe s id_bloku of None \<Rightarrow> brak_wpisu
      | Some nr \<Rightarrow>
          (case find (\<lambda>j. wp_id (wpis s nr j) \<noteq> 0 \<and> nazwy_rowne (wp_nazwa (wpis s nr j)) nazwa) indeksy_wpisow of
             Some j \<Rightarrow> \<lparr>zw_znaleziony = True, zw_id_wezla = wp_id (wpis s nr j), zw_id_bloku = id_bloku, zw_indeks = j\<rparr>
           | None \<Rightarrow> znajdz_w_blokach s katalog nazwa ks))"

definition znajdz_wpis_w_katalogu :: "psf \<Rightarrow> u64 \<Rightarrow> tekst \<Rightarrow> ZnalezionyWpis" where
  "znajdz_wpis_w_katalogu s katalog_id nazwa =
     (if \<not> poprawna_nazwa nazwa then brak_wpisu
      else case pobierz_wezel s katalog_id of None \<Rightarrow> brak_wpisu
      | Some nr \<Rightarrow> if w_typ (wezel s nr) \<noteq> TYP_KATALOG then brak_wpisu
                   else znajdz_w_blokach s (wezel s nr) nazwa indeksy_wskaznikow)"

fun bloki_puste :: "psf \<Rightarrow> wezel_indeksowy \<Rightarrow> nat list \<Rightarrow> bool" where
  "bloki_puste s katalog [] = True"
| "bloki_puste s katalog (k # ks) =
     (let id_bloku = w_wskazniki katalog k in
      if id_bloku = BARK_BLOKU then bloki_puste s katalog ks
      else case pobierz_wpisy_katalogowe s id_bloku of None \<Rightarrow> False
      | Some nr \<Rightarrow> if list_ex (\<lambda>j. wp_id (wpis s nr j) \<noteq> 0) indeksy_wpisow then False else bloki_puste s katalog ks)"

definition katalog_pusty :: "psf \<Rightarrow> u64 \<Rightarrow> bool" where
  "katalog_pusty s katalog_id =
     (case pobierz_wezel s katalog_id of None \<Rightarrow> False
      | Some nr \<Rightarrow> if w_typ (wezel s nr) \<noteq> TYP_KATALOG then False else bloki_puste s (wezel s nr) indeksy_wskaznikow)"

text \<open>An entry is written name first; the copy changes no byte behind the terminator.\<close>

definition ustaw_nazwe_wpisu :: "blok \<Rightarrow> nat \<Rightarrow> tekst \<Rightarrow> blok" where
  "ustaw_nazwe_wpisu b j nazwa = (\<lambda>i. if 64 * j + 8 \<le> i \<and> i < 64 * j + 64 then nazwa (i - (64 * j + 8)) else b i)"

definition ustaw_id_wpisu :: "blok \<Rightarrow> nat \<Rightarrow> u64 \<Rightarrow> blok" where
  "ustaw_id_wpisu b j x = zapisz64 b (64 * j) x"

definition odwolaj_blok_katalogu :: "psf \<Rightarrow> u64 \<Rightarrow> u64 \<Rightarrow> nat \<Rightarrow> u64 \<Rightarrow> psf" where
  "odwolaj_blok_katalogu s katalog_id nr_katalogu k id_bloku =
     oznacz_wezel_jako_brudny (snd (zwolnij_blok_danych (ustaw_wskaznik s nr_katalogu k BARK_BLOKU) id_bloku)) katalog_id"

fun dodaj_wpis_od :: "psf \<Rightarrow> u64 \<Rightarrow> u64 \<Rightarrow> u64 \<Rightarrow> tekst \<Rightarrow> nat list \<Rightarrow> bool \<times> psf" where
  "dodaj_wpis_od s katalog_id nr_katalogu nowy_twor_id nazwa [] = (False, s)"
| "dodaj_wpis_od s katalog_id nr_katalogu nowy_twor_id nazwa (k # ks) =
     (let stary = w_wskazniki (wezel s nr_katalogu) k;
          nowo_przydzielony = (stary = BARK_BLOKU);
          (id_bloku, s1) = (if nowo_przydzielony then zaalokuj_wolny_blok_danych s else (stary, s))
      in
      if nowo_przydzielony \<and> id_bloku = BARK_BLOKU then (False, s1)
      else let s2 = (if nowo_przydzielony
                     then oznacz_wezel_jako_brudny (ustaw_wskaznik s1 nr_katalogu k id_bloku) katalog_id else s1) in
      case pobierz_wpisy_katalogowe s2 id_bloku of
        None \<Rightarrow> (False, if nowo_przydzielony then odwolaj_blok_katalogu s2 katalog_id nr_katalogu k id_bloku else s2)
      | Some nr \<Rightarrow>
          (case find (\<lambda>j. wp_id (wpis s2 nr j) = 0) indeksy_wpisow of
             None \<Rightarrow> dodaj_wpis_od s2 katalog_id nr_katalogu nowy_twor_id nazwa ks
           | Some j \<Rightarrow>
             (case kopiuj_nazwe (wp_nazwa (wpis s2 nr j)) nazwa of
                None \<Rightarrow> (False, if nowo_przydzielony then odwolaj_blok_katalogu s2 katalog_id nr_katalogu k id_bloku else s2)
              | Some n \<Rightarrow>
                  let s3 = oznacz_dane_jako_brudne
                             (zmien_blok s2 nr (\<lambda>b. ustaw_id_wpisu (ustaw_nazwe_wpisu b j n) j nowy_twor_id)) id_bloku;
                      s4 = ustaw_rozmiar s3 nr_katalogu (w_rozmiar (wezel s3 nr_katalogu) + 1)
                  in (True, oznacz_wezel_jako_brudny s4 katalog_id))))"

definition dodaj_wpis_do_katalogu :: "psf \<Rightarrow> u64 \<Rightarrow> u64 \<Rightarrow> tekst \<Rightarrow> bool \<times> psf" where
  "dodaj_wpis_do_katalogu s katalog_id nowy_twor_id nazwa =
     (if \<not> poprawna_nazwa nazwa then (False, s)
      else if pobierz_wezel s nowy_twor_id = None then (False, s)
      else if zw_znaleziony (znajdz_wpis_w_katalogu s katalog_id nazwa) then (False, s)
      else case pobierz_wezel s katalog_id of None \<Rightarrow> (False, s)
      | Some nr \<Rightarrow> if w_typ (wezel s nr) \<noteq> TYP_KATALOG then (False, s)
                   else dodaj_wpis_od s katalog_id nr nowy_twor_id nazwa indeksy_wskaznikow)"

subsection \<open>Walking a path\<close>

text \<open>The segment's characters are copied while there is room for 55; \<open>n\<close> is the room left.\<close>

fun kopiuj_segment :: "nat \<Rightarrow> tekst \<Rightarrow> nat \<Rightarrow> tekst \<Rightarrow> nat \<Rightarrow> (tekst \<times> nat) option" where
  "kopiuj_segment 0 sciezka pos segment dlugosc =
     (if sciezka pos \<noteq> 0 \<and> sciezka pos \<noteq> 0x2F then None else Some (segment(dlugosc := 0), pos))"
| "kopiuj_segment (Suc n) sciezka pos segment dlugosc =
     (if sciezka pos \<noteq> 0 \<and> sciezka pos \<noteq> 0x2F
      then kopiuj_segment n sciezka (pos + 1) (segment(dlugosc := sciezka pos)) (dlugosc + 1)
      else Some (segment(dlugosc := 0), pos))"

text \<open>The segment, whether it is the last one, and the index of the next.\<close>

definition pobierz_segment :: "tekst \<Rightarrow> nat \<Rightarrow> tekst \<Rightarrow> (tekst \<times> bool \<times> nat) option" where
  "pobierz_segment sciezka indeks segment =
     (if sciezka indeks = 0 \<or> sciezka indeks = 0x2F then None
      else case kopiuj_segment (PSF_MAX_NAZWA - 1) sciezka indeks segment 0 of None \<Rightarrow> None
      | Some (seg, pos) \<Rightarrow>
          if \<not> poprawna_nazwa seg then None
          else if sciezka pos = 0 then Some (seg, True, pos) else Some (seg, False, pos + 1))"

text \<open>The walk. A path has at most 511 characters, and each step passes at least one of them.\<close>

fun rozwiaz_od :: "nat \<Rightarrow> psf \<Rightarrow> tekst \<Rightarrow> tekst option \<Rightarrow> bool \<Rightarrow> nat \<Rightarrow> u64 \<Rightarrow> u64 \<times> tekst option" where
  "rozwiaz_od 0 s sciezka nazwa_docelowa zwroc_rodzica indeks aktualny = (0, nazwa_docelowa)"
| "rozwiaz_od (Suc n) s sciezka nazwa_docelowa zwroc_rodzica indeks aktualny =
     (if sciezka indeks = 0 then (0, nazwa_docelowa)
      else case pobierz_segment sciezka indeks (\<lambda>_. 0) of None \<Rightarrow> (0, nazwa_docelowa)
      | Some (segment, ostatni, indeks1) \<Rightarrow>
          if ostatni \<and> zwroc_rodzica then
            (case kopiuj_nazwe (the nazwa_docelowa) segment of None \<Rightarrow> (0, nazwa_docelowa)
             | Some nazwa \<Rightarrow>
                 (case pobierz_wezel s aktualny of None \<Rightarrow> (0, Some nazwa)
                  | Some nr \<Rightarrow> if w_typ (wezel s nr) \<noteq> TYP_KATALOG then (0, Some nazwa) else (aktualny, Some nazwa)))
          else let krok = znajdz_wpis_w_katalogu s aktualny segment in
            if \<not> zw_znaleziony krok then (0, nazwa_docelowa)
            else (case pobierz_wezel s (zw_id_wezla krok) of None \<Rightarrow> (0, nazwa_docelowa)
              | Some nr \<Rightarrow>
                  if w_typ (wezel s nr) = TYP_WOLNY then (0, nazwa_docelowa)
                  else if \<not> ostatni \<and> w_typ (wezel s nr) \<noteq> TYP_KATALOG then (0, nazwa_docelowa)
                  else if ostatni then (zw_id_wezla krok, nazwa_docelowa)
                  else rozwiaz_od n s sciezka nazwa_docelowa zwroc_rodzica indeks1 (zw_id_wezla krok)))"

definition rozwiaz_sciezke :: "psf \<Rightarrow> tekst \<Rightarrow> tekst option \<Rightarrow> bool \<Rightarrow> u64 \<times> tekst option" where
  "rozwiaz_sciezke s sciezka nazwa_docelowa zwroc_rodzica =
     (if \<not> ps_gotowy s \<or> \<not> ps_superblok s \<or> \<not> bezpieczna_sciezka sciezka then (0, nazwa_docelowa)
      else if sciezka 0 = 0x2F \<and> sciezka 1 = 0 then (if zwroc_rodzica then 0 else sb_id_korzenia (sb s), nazwa_docelowa)
      else if zwroc_rodzica \<and> nazwa_docelowa = None then (0, nazwa_docelowa)
      else rozwiaz_od PSF_MAKS_DLUGOSC_SCIEZKI s sciezka nazwa_docelowa zwroc_rodzica 1 (sb_id_korzenia (sb s)))"

end
