(* ===== verification/Psf_Operacje.thy ===== *)
theory Psf_Operacje
  imports Psf_Struktury
begin

section \<open>BSP2: formatting, mounting and the public operations\<close>

text \<open>
  The geometry and the checks of a mounted image, formatting, and the operations of \<open>psf.h\<close>, each the
  body of its function with the path as an option for a pointer that may be null.
\<close>

subsection \<open>Geometry and validation\<close>

definition sygnatura_bsp2 :: "superblok \<Rightarrow> bool" where
  "sygnatura_bsp2 b \<longleftrightarrow> sb_sygnatura b 0 = 0x42 \<and> sb_sygnatura b 1 = 0x53 \<and> sb_sygnatura b 2 = 0x50 \<and> sb_sygnatura b 3 = 0x32"

text \<open>The numbers of nodes and of data blocks.\<close>

definition wylicz_geometrie :: "superblok \<Rightarrow> u32 \<Rightarrow> (u64 \<times> u64) option" where
  "wylicz_geometrie b dostepny_ram =
     (if \<not> sygnatura_bsp2 b then None
      else let calkowity = sb_calkowity_rozmiar b in
      if calkowity < of_nat PSF_ROZMIAR_BLOKU * MINIMALNA_LICZBA_BLOKOW \<or> calkowity > ucast dostepny_ram then None
      else if calkowity mod of_nat PSF_ROZMIAR_BLOKU \<noteq> 0 \<or> calkowity mod of_nat ROZMIAR_SEKTORA \<noteq> 0 then None
      else if sb_ilosc_blokow b \<noteq> calkowity div of_nat PSF_ROZMIAR_BLOKU then None
      else if sb_ilosc_blokow b < MINIMALNA_LICZBA_BLOKOW then None
      else if sb_start_wezlow b \<le> 1 \<or> sb_start_wezlow b \<ge> sb_start_danych b \<or> sb_start_danych b \<ge> sb_ilosc_blokow b then None
      else let bloki_bitmapy = sb_start_wezlow b - 1;
               region_wezlow = sb_start_danych b - sb_start_wezlow b;
               region_danych = sb_ilosc_blokow b - sb_start_danych b
      in (case mnoz_u64 bloki_bitmapy (of_nat PSF_ROZMIAR_BLOKU) of None \<Rightarrow> None
        | Some bajty \<Rightarrow> (case mnoz_u64 bajty 8 of None \<Rightarrow> None
          | Some bity_bitmapy \<Rightarrow>
            if region_danych > bity_bitmapy then None
            else (case mnoz_u64 region_wezlow wezlow_na_blok of None \<Rightarrow> None
              | Some liczba_wezlow \<Rightarrow>
                if liczba_wezlow = 0 then None
                else if sb_id_korzenia b = 0 \<or> sb_id_korzenia b > liczba_wezlow then None
                else Some (liczba_wezlow, region_danych)))))"

definition wskazniki_wezla_poprawne :: "psf \<Rightarrow> wezel_indeksowy \<Rightarrow> bool" where
  "wskazniki_wezla_poprawne s w =
     (if w_posredni_1 w \<noteq> BARK_BLOKU \<or> w_posredni_2 w \<noteq> BARK_BLOKU \<or> w_posredni_3 w \<noteq> BARK_BLOKU then False
      else list_all (\<lambda>k. let i = w_wskazniki w k in
        if i = BARK_BLOKU then True
        else if \<not> id_bloku_danych_poprawne s i then False
        else if \<not> czy_blok_danych_zajety s i then False
        else list_all (\<lambda>j. w_wskazniki w j \<noteq> i) [0 ..< k]) indeksy_wskaznikow)"

text \<open>The checks of one entry: its target, its name, and no earlier entry of the same name.\<close>

definition wpis_bez_powtorki :: "psf \<Rightarrow> wezel_indeksowy \<Rightarrow> nat \<Rightarrow> nat \<Rightarrow> tekst \<Rightarrow> bool" where
  "wpis_bez_powtorki s w k j nazwa = list_all (\<lambda>k2. let blok2 = w_wskazniki w k2 in
     if blok2 = BARK_BLOKU then True
     else case pobierz_wpisy_katalogowe s blok2 of None \<Rightarrow> False
     | Some nr2 \<Rightarrow> list_all (\<lambda>j2. \<not> (wp_id (wpis s nr2 j2) \<noteq> 0 \<and> nazwy_rowne (wp_nazwa (wpis s nr2 j2)) nazwa))
         [0 ..< (if k2 = k then j else unat wpisow_katalogowych_na_blok)]) [0 ..< k + 1]"

definition wpis_poprawny :: "psf \<Rightarrow> u64 \<Rightarrow> wezel_indeksowy \<Rightarrow> nat \<Rightarrow> nat \<Rightarrow> wpis_katalogowy \<Rightarrow> bool" where
  "wpis_poprawny s i w k j p =
     (if wp_id p > ps_wezly s \<or> wp_id p = i then False
      else if \<not> poprawna_nazwa (wp_nazwa p) then False
      else case pobierz_wezel s (wp_id p) of None \<Rightarrow> False
      | Some nr \<Rightarrow> if w_typ (wezel s nr) = TYP_WOLNY then False else wpis_bez_powtorki s w k j (wp_nazwa p))"

fun waliduj_wpisy :: "psf \<Rightarrow> u64 \<Rightarrow> wezel_indeksowy \<Rightarrow> nat \<Rightarrow> u64 \<Rightarrow> u64 \<Rightarrow> nat list \<Rightarrow> u64 option" where
  "waliduj_wpisy s i w k nr znalezionych [] = Some znalezionych"
| "waliduj_wpisy s i w k nr znalezionych (j # js) =
     (if wp_id (wpis s nr j) = 0 then waliduj_wpisy s i w k nr znalezionych js
      else if \<not> wpis_poprawny s i w k j (wpis s nr j) then None
      else waliduj_wpisy s i w k nr (znalezionych + 1) js)"

fun waliduj_bloki :: "psf \<Rightarrow> u64 \<Rightarrow> wezel_indeksowy \<Rightarrow> u64 \<Rightarrow> nat list \<Rightarrow> u64 option" where
  "waliduj_bloki s i w znalezionych [] = Some znalezionych"
| "waliduj_bloki s i w znalezionych (k # ks) =
     (if w_wskazniki w k = BARK_BLOKU then waliduj_bloki s i w znalezionych ks
      else case pobierz_wpisy_katalogowe s (w_wskazniki w k) of None \<Rightarrow> None
      | Some nr \<Rightarrow> (case waliduj_wpisy s i w k nr znalezionych indeksy_wpisow of None \<Rightarrow> None
          | Some n \<Rightarrow> waliduj_bloki s i w n ks))"

definition waliduj_katalog :: "psf \<Rightarrow> u64 \<Rightarrow> wezel_indeksowy \<Rightarrow> bool" where
  "waliduj_katalog s i w =
     (if w_typ w \<noteq> TYP_KATALOG then False
      else case waliduj_bloki s i w 0 indeksy_wskaznikow of None \<Rightarrow> False | Some znalezionych \<Rightarrow> w_rozmiar w = znalezionych)"

definition maks_rozmiar_pliku :: u64 where
  "maks_rozmiar_pliku = of_nat PSF_MAX_BLOKOW_W_WEZLE * of_nat PSF_ROZMIAR_BLOKU"

definition waliduj_wezel :: "psf \<Rightarrow> u64 \<Rightarrow> bool" where
  "waliduj_wezel s i =
     (case pobierz_wezel s i of None \<Rightarrow> False
      | Some nr \<Rightarrow> let w = wezel s nr in
          if w_typ w = TYP_WOLNY then True
          else if w_typ w \<noteq> TYP_PLIK \<and> w_typ w \<noteq> TYP_KATALOG then False
          else if \<not> wskazniki_wezla_poprawne s w then False
          else if w_typ w = TYP_PLIK then
            (if w_rozmiar w > maks_rozmiar_pliku then False
             else list_all (\<lambda>k. \<not> (k \<ge> PSF_MAX_BLOKOW_W_WEZLE \<or> w_wskazniki w k = BARK_BLOKU))
                    [0 ..< unat (podziel_w_gore (w_rozmiar w) (of_nat PSF_ROZMIAR_BLOKU))])
          else waliduj_katalog s i w)"

definition waliduj_metadane :: "psf \<Rightarrow> bool" where
  "waliduj_metadane s =
     (if \<not> ps_superblok s \<or> ps_wezly s = 0 then False
      else case pobierz_wezel s (sb_id_korzenia (sb s)) of None \<Rightarrow> False
      | Some nr \<Rightarrow> if w_typ (wezel s nr) \<noteq> TYP_KATALOG then False
                   else list_all (waliduj_wezel s) (id_wezlow s))"

subsection \<open>Formatting\<close>

fun wyzeruj_wezly :: "psf \<Rightarrow> u64 list \<Rightarrow> bool \<times> psf" where
  "wyzeruj_wezly s [] = (True, s)"
| "wyzeruj_wezly s (i # is) =
     (case pobierz_wezel s i of None \<Rightarrow> (False, s)
      | Some nr \<Rightarrow> wyzeruj_wezly (zmien_blok s nr (\<lambda>b. wyzeruj_wezel b TYP_WOLNY)) is)"

text \<open>The first node and the first data block of a fresh disk of \<open>ilosc_blokow\<close> blocks.\<close>

definition podzial_dysku :: "u64 \<Rightarrow> (u64 \<times> u64) option" where
  "podzial_dysku ilosc_blokow =
     (let bajty_bitmapy = podziel_w_gore ilosc_blokow 8;
          bloki_bitmapy = podziel_w_gore bajty_bitmapy (of_nat PSF_ROZMIAR_BLOKU)
      in if bloki_bitmapy = 0 \<or> 1 + bloki_bitmapy \<ge> ilosc_blokow then None
         else let start_wezlow = 1 + bloki_bitmapy; pozostale = ilosc_blokow - start_wezlow in
         if pozostale < 2 then None
         else let bloki_wezlow = (if pozostale div 4 = 0 then 1 else pozostale div 4) in
         if bloki_wezlow \<ge> pozostale then None
         else let start_danych = start_wezlow + bloki_wezlow in
         if start_danych \<ge> ilosc_blokow then None else Some (start_wezlow, start_danych))"

definition naglowek_superbloku :: "blok \<Rightarrow> u64 \<Rightarrow> u64 \<Rightarrow> u64 \<Rightarrow> u64 \<Rightarrow> blok" where
  "naglowek_superbloku b rozmiar ilosc start_wezlow start_danych =
     (let b1 = b(0 := 0x42, 1 := 0x53, 2 := 0x50, 3 := 0x32)
      in zapisz64 (zapisz64 (zapisz64 (zapisz64 b1 0x04 rozmiar) 0x0C ilosc) 0x1C start_wezlow) 0x24 start_danych)"

definition sformatuj_ram_dysk :: "otoczenie \<Rightarrow> psf \<Rightarrow> bool \<Rightarrow> bool \<times> psf" where
  "sformatuj_ram_dysk E s pozwol_na_zapis_fizyczny =
     (if \<not> ps_ram_dysk s \<or> ps_rozmiar s = 0 \<or> \<not> parametry_formatu_obslugiwane then (False, s)
      else let rozmiar_uzyteczny = (ucast (ps_rozmiar s) div of_nat PSF_ROZMIAR_BLOKU) * of_nat PSF_ROZMIAR_BLOKU :: u64 in
      if rozmiar_uzyteczny > 0xFFFFFFFF \<or> rozmiar_uzyteczny < of_nat PSF_ROZMIAR_BLOKU * MINIMALNA_LICZBA_BLOKOW then (False, s)
      else let ilosc_blokow = rozmiar_uzyteczny div of_nat PSF_ROZMIAR_BLOKU;
               s1 = s\<lparr>ps_ram := (\<lambda>nr. if nr < ilosc_blokow then wyzeruj_pamiec (ps_ram s nr) 0 PSF_ROZMIAR_BLOKU else ps_ram s nr),
                      ps_superblok := True\<rparr>
      in case podzial_dysku ilosc_blokow of None \<Rightarrow> (False, s1)
      | Some (start_wezlow, start_danych) \<Rightarrow>
          let s2 = (zmien_blok s1 0 (\<lambda>b. naglowek_superbloku b (ucast (ucast rozmiar_uzyteczny :: u32)) ilosc_blokow start_wezlow start_danych))
                     \<lparr>ps_wezly := (start_danych - start_wezlow) * wezlow_na_blok, ps_bloki := ilosc_blokow - start_danych\<rparr>
          in if ps_wezly s2 = 0 \<or> ps_bloki s2 = 0 then (False, s2)
             else case wyzeruj_wezly s2 (id_wezlow s2) of (ok, s3) \<Rightarrow>
               if \<not> ok then (False, s3)
               else case zaalokuj_wolny_wezel s3 TYP_KATALOG of (korzen, s4) \<Rightarrow>
                 if korzen = 0 then (False, s4)
                 else let s5 = (oznacz_caly_system_jako_brudny ((zmien_blok s4 0 (\<lambda>b. zapisz64 b 0x14 korzen))\<lparr>ps_ostatni := 0\<rparr>))
                                 \<lparr>ps_gotowy := True, ps_trwaly := pozwol_na_zapis_fizyczny \<and> ps_ahci s4\<rparr>
                      in (True, if ps_trwaly s5 then snd (bsp_zapisz_zmiany E s5) else s5))"

subsection \<open>Mounting\<close>

definition wczytaj_istniejacy_bsp2 :: "otoczenie \<Rightarrow> psf \<Rightarrow> bool \<times> psf" where
  "wczytaj_istniejacy_bsp2 E s =
     (if \<not> ps_ram_dysk s \<or> ps_rozmiar s = 0 then (False, s)
      else case ot_czytaj E BSP_START_LBA 1 (ps_dysk s) of
        None \<Rightarrow> (False, s\<lparr>ps_bufor_superbloku := \<lambda>_. 0, ps_ahci := False\<rparr>)
      | Some dane \<Rightarrow>
          let bufor = kopiuj_pamiec (\<lambda>_. 0) 0 dane ROZMIAR_SEKTORA;
              s1 = s\<lparr>ps_bufor_superbloku := bufor, ps_ahci := True\<rparr>;
              kandydat = superblok_z bufor
          in if \<not> sygnatura_bsp2 kandydat then (False, s1\<lparr>ps_trwaly := True\<rparr>)
             else if wylicz_geometrie kandydat (ps_rozmiar s1) = None then (False, s1\<lparr>ps_trwaly := False\<rparr>)
             else case czytaj_sektory_porcjami E (ps_dysk s1) BSP_START_LBA
                         (sb_calkowity_rozmiar kandydat div of_nat ROZMIAR_SEKTORA) (bajty_ram (ps_ram s1)) of (ok, bajty) \<Rightarrow>
               let s2 = s1\<lparr>ps_ram := ram_z_bajtow bajty\<rparr> in
               if \<not> ok then (False, s2\<lparr>ps_trwaly := False\<rparr>)
               else let s3 = s2\<lparr>ps_superblok := True\<rparr> in
               (case wylicz_geometrie (sb s3) (ps_rozmiar s3) of
                  None \<Rightarrow> (False, s3\<lparr>ps_trwaly := False\<rparr>)
                | Some (wezly, dane_b) \<Rightarrow>
                    let s4 = s3\<lparr>ps_wezly := wezly, ps_bloki := dane_b, ps_ostatni := 0, ps_gotowy := True\<rparr> in
                    if \<not> waliduj_metadane s4 then (False, s4\<lparr>ps_gotowy := False, ps_trwaly := False\<rparr>)
                    else (True, (wyczysc_liste_brudnych s4)\<lparr>ps_trwaly := True, ps_flush_ok := True\<rparr>)))"

definition inicjalizuj_psf :: "otoczenie \<Rightarrow> psf \<Rightarrow> bool \<Rightarrow> u32 \<Rightarrow> psf" where
  "inicjalizuj_psf E s adres_ram_dysku rozmiar_w_bajtach =
     (let s1 = wyczysc_liste_brudnych (s\<lparr>ps_ram_dysk := adres_ram_dysku, ps_rozmiar := rozmiar_w_bajtach, ps_superblok := False,
            ps_wezly := 0, ps_bloki := 0, ps_ostatni := 0, ps_gotowy := False, ps_ahci := False, ps_trwaly := False,
            ps_flush_ok := True\<rparr>)
      in if \<not> adres_ram_dysku \<or> \<not> parametry_formatu_obslugiwane \<or>
            ucast rozmiar_w_bajtach < of_nat PSF_ROZMIAR_BLOKU * MINIMALNA_LICZBA_BLOKOW then s1
         else case wczytaj_istniejacy_bsp2 E s1 of (ok, s2) \<Rightarrow>
           if ok then s2
           else if ps_ahci s2 \<and> \<not> ps_trwaly s2 \<and> ps_bufor_superbloku s2 0 = 0x42 \<and> ps_bufor_superbloku s2 1 = 0x53 \<and>
                   ps_bufor_superbloku s2 2 = 0x50 \<and> ps_bufor_superbloku s2 3 = 0x32
           then snd (sformatuj_ram_dysk E s2 False)
           else snd (sformatuj_ram_dysk E s2 (ps_ahci s2)))"

subsection \<open>Creating\<close>

definition utworz_twor :: "otoczenie \<Rightarrow> psf \<Rightarrow> tekst option \<Rightarrow> u8 \<Rightarrow> u8 \<Rightarrow> bool \<times> psf" where
  "utworz_twor E s sciezka typ poziom_pzb =
     (case sciezka of None \<Rightarrow> (False, s)
      | Some p \<Rightarrow>
        if \<not> ps_gotowy s \<or> \<not> bezpieczna_sciezka p then (False, s)
        else if fst (rozwiaz_sciezke s p None False) \<noteq> 0 then (False, s)
        else case rozwiaz_sciezke s p (Some (\<lambda>_. 0)) True of (rodzic_id, n) \<Rightarrow>
          let nazwa = the n in
          if rodzic_id = 0 \<or> \<not> poprawna_nazwa nazwa then (False, s)
          else (case pobierz_wezel s rodzic_id of None \<Rightarrow> (False, s)
            | Some nr_rodzica \<Rightarrow>
              if w_typ (wezel s nr_rodzica) \<noteq> TYP_KATALOG then (False, s)
              else if zw_znaleziony (znajdz_wpis_w_katalogu s rodzic_id nazwa) then (False, s)
              else case zaalokuj_wolny_wezel s typ of (nowy_id, s1) \<Rightarrow>
                if nowy_id = 0 then (False, s1)
                else let s2 = oznacz_wezel_jako_brudny
                          (case pobierz_wezel s1 nowy_id of None \<Rightarrow> s1
                           | Some nr \<Rightarrow> ustaw_metadane_nowego_wezla (ot_czas E) s1 nr poziom_pzb) nowy_id
                in (case dodaj_wpis_do_katalogu s2 rodzic_id nowy_id nazwa of (ok, s3) \<Rightarrow>
                     if \<not> ok then (False, snd (zwolnij_wezel s3 nowy_id))
                     else (True, snd (bsp_zapisz_zmiany E s3)))))"

definition utworz_katalog :: "otoczenie \<Rightarrow> psf \<Rightarrow> tekst option \<Rightarrow> bool \<times> psf" where
  "utworz_katalog E s sciezka = utworz_twor E s sciezka TYP_KATALOG DOMYSLNY_PZB_PLIKU"

definition utworz_plik :: "otoczenie \<Rightarrow> psf \<Rightarrow> tekst option \<Rightarrow> bool \<times> psf" where
  "utworz_plik E s sciezka = utworz_twor E s sciezka TYP_PLIK DOMYSLNY_PZB_PLIKU"

definition utworz_katalog_z_pzb :: "otoczenie \<Rightarrow> psf \<Rightarrow> tekst option \<Rightarrow> u8 \<Rightarrow> bool \<times> psf" where
  "utworz_katalog_z_pzb E s sciezka poziom_pzb =
     (if poziom_pzb > 5 then (False, s) else utworz_twor E s sciezka TYP_KATALOG poziom_pzb)"

definition utworz_plik_z_pzb :: "otoczenie \<Rightarrow> psf \<Rightarrow> tekst option \<Rightarrow> u8 \<Rightarrow> bool \<times> psf" where
  "utworz_plik_z_pzb E s sciezka poziom_pzb =
     (if poziom_pzb > 5 then (False, s) else utworz_twor E s sciezka TYP_PLIK poziom_pzb)"

end
