(* ===== verification/Psf_Api.thy ===== *)
theory Psf_Api
  imports Psf_Operacje
begin

section \<open>BSP2: files and the tree of names\<close>

text \<open>The rest of the public operations of \<open>psf.h\<close>: writing, reading, listing, removing, renaming,
  metadata, moving and copying.\<close>

subsection \<open>Writing a file\<close>

definition wskazniki_pliku_poprawne :: "psf \<Rightarrow> wezel_indeksowy \<Rightarrow> bool" where
  "wskazniki_pliku_poprawne s w =
     (if w_typ w \<noteq> TYP_PLIK then False
      else if w_posredni_1 w \<noteq> BARK_BLOKU \<or> w_posredni_2 w \<noteq> BARK_BLOKU \<or> w_posredni_3 w \<noteq> BARK_BLOKU then False
      else list_all (\<lambda>k. let i = w_wskazniki w k in
        if i = BARK_BLOKU then True
        else if \<not> id_bloku_danych_poprawne s i \<or> \<not> czy_blok_danych_zajety s i then False
        else list_all (\<lambda>j. w_wskazniki w j \<noteq> i) [0 ..< k]) indeksy_wskaznikow)"

text \<open>The missing blocks of the first \<open>potrzebne\<close>; the list is what has been taken so far, oldest first.\<close>

fun przydziel_bloki :: "psf \<Rightarrow> u64 \<Rightarrow> nat list \<Rightarrow> (nat \<times> u64) list \<Rightarrow> bool \<times> psf \<times> (nat \<times> u64) list" where
  "przydziel_bloki s nr [] nowe = (True, s, nowe)"
| "przydziel_bloki s nr (k # ks) nowe =
     (if w_wskazniki (wezel s nr) k \<noteq> BARK_BLOKU then przydziel_bloki s nr ks nowe
      else case zaalokuj_wolny_blok_danych s of (nowy, s1) \<Rightarrow>
        if nowy = BARK_BLOKU then (False, s1, nowe)
        else przydziel_bloki (ustaw_wskaznik s1 nr k nowy) nr ks (nowe @ [(k, nowy)]))"

fun cofnij_przydzial :: "psf \<Rightarrow> u64 \<Rightarrow> (nat \<times> u64) list \<Rightarrow> psf" where
  "cofnij_przydzial s nr [] = s"
| "cofnij_przydzial s nr ((k, i) # nowe) =
     cofnij_przydzial (snd (zwolnij_blok_danych (ustaw_wskaznik s nr k BARK_BLOKU) i)) nr nowe"

fun zapisz_bloki :: "psf \<Rightarrow> u64 \<Rightarrow> (nat \<Rightarrow> u8) \<Rightarrow> u64 \<Rightarrow> u64 \<Rightarrow> nat list \<Rightarrow> bool \<times> psf" where
  "zapisz_bloki s nr dane dlugosc zapisano [] = (True, s)"
| "zapisz_bloki s nr dane dlugosc zapisano (k # ks) =
     (let i = w_wskazniki (wezel s nr) k in
      case pobierz_blok_danych s i of None \<Rightarrow> (False, s)
      | Some blok \<Rightarrow>
          let porcja = (if dlugosc - zapisano > of_nat PSF_ROZMIAR_BLOKU then of_nat PSF_ROZMIAR_BLOKU else dlugosc - zapisano);
              s1 = zmien_blok s blok (\<lambda>b. let b1 = kopiuj_pamiec b 0 (\<lambda>x. dane (unat zapisano + x)) (unat porcja) in
                     if porcja < of_nat PSF_ROZMIAR_BLOKU then wyzeruj_pamiec b1 (unat porcja) (PSF_ROZMIAR_BLOKU - unat porcja) else b1)
          in zapisz_bloki (oznacz_dane_jako_brudne s1 i) nr dane dlugosc (zapisano + porcja) ks)"

fun zwolnij_zbedne :: "psf \<Rightarrow> u64 \<Rightarrow> nat list \<Rightarrow> bool \<times> psf" where
  "zwolnij_zbedne s nr [] = (True, s)"
| "zwolnij_zbedne s nr (k # ks) =
     (let i = w_wskazniki (wezel s nr) k in
      if i = BARK_BLOKU then zwolnij_zbedne s nr ks
      else case zwolnij_blok_danych s i of (ok, s1) \<Rightarrow>
        if \<not> ok then (False, s1) else zwolnij_zbedne (ustaw_wskaznik s1 nr k BARK_BLOKU) nr ks)"

text \<open>The body after the path has been resolved to the node in block \<open>nr\<close>.\<close>

definition zapisz_wezel :: "otoczenie \<Rightarrow> psf \<Rightarrow> u64 \<Rightarrow> u64 \<Rightarrow> (nat \<Rightarrow> u8) \<Rightarrow> u32 \<Rightarrow> bool \<times> psf" where
  "zapisz_wezel E s plik_id nr dane dlugosc =
     (if ucast dlugosc > maks_rozmiar_pliku then (False, s)
      else let potrzebne = unat (podziel_w_gore (ucast dlugosc) (of_nat PSF_ROZMIAR_BLOKU)) in
      case przydziel_bloki s nr [0 ..< potrzebne] [] of (ok1, s1, nowe) \<Rightarrow>
        if \<not> ok1 then (False, oznacz_wezel_jako_brudny (cofnij_przydzial s1 nr nowe) plik_id)
        else case zapisz_bloki s1 nr dane (ucast dlugosc) 0 [0 ..< potrzebne] of (ok2, s2) \<Rightarrow>
          if \<not> ok2 then (False, s2)
          else case zwolnij_zbedne s2 nr [potrzebne ..< PSF_MAX_BLOKOW_W_WEZLE] of (ok3, s3) \<Rightarrow>
            if \<not> ok3 then (False, s3)
            else bsp_zapisz_zmiany E (oznacz_wezel_jako_brudny (ustaw_rozmiar s3 nr (ucast dlugosc)) plik_id))"

definition zapisz_do_pliku :: "otoczenie \<Rightarrow> psf \<Rightarrow> tekst option \<Rightarrow> (nat \<Rightarrow> u8) option \<Rightarrow> u32 \<Rightarrow> bool \<times> psf" where
  "zapisz_do_pliku E s sciezka dane dlugosc =
     (case sciezka of None \<Rightarrow> (False, s)
      | Some p \<Rightarrow>
        if \<not> ps_gotowy s \<or> dlugosc \<noteq> 0 \<and> dane = None then (False, s)
        else let plik_id = fst (rozwiaz_sciezke s p None False) in
        if plik_id = 0 then (False, s)
        else case pobierz_wezel s plik_id of None \<Rightarrow> (False, s)
        | Some nr \<Rightarrow>
            if w_typ (wezel s nr) \<noteq> TYP_PLIK \<or> \<not> wskazniki_pliku_poprawne s (wezel s nr) then (False, s)
            else zapisz_wezel E s plik_id nr (case dane of None \<Rightarrow> (\<lambda>_. 0) | Some d \<Rightarrow> d) dlugosc)"

subsection \<open>Reading a file\<close>

fun czytaj_bloki :: "psf \<Rightarrow> wezel_indeksowy \<Rightarrow> u64 \<Rightarrow> u64 \<Rightarrow> (nat \<Rightarrow> u8) \<Rightarrow> nat list \<Rightarrow> bool \<times> (nat \<Rightarrow> u8)" where
  "czytaj_bloki s w do_odczytu przeczytano bufor [] = (\<not> przeczytano < do_odczytu, bufor)"
| "czytaj_bloki s w do_odczytu przeczytano bufor (k # ks) =
     (if \<not> przeczytano < do_odczytu then (True, bufor)
      else let i = w_wskazniki w k in
      if i = BARK_BLOKU then (False, bufor)
      else case pobierz_blok_danych s i of None \<Rightarrow> (False, bufor)
      | Some blok \<Rightarrow>
          let porcja = (if do_odczytu - przeczytano > of_nat PSF_ROZMIAR_BLOKU then of_nat PSF_ROZMIAR_BLOKU else do_odczytu - przeczytano)
          in czytaj_bloki s w do_odczytu (przeczytano + porcja) (kopiuj_pamiec bufor (unat przeczytano) (ps_ram s blok) (unat porcja)) ks)"

definition czytaj_z_pliku :: "psf \<Rightarrow> tekst option \<Rightarrow> (nat \<Rightarrow> u8) option \<Rightarrow> u32 \<Rightarrow> bool \<times> (nat \<Rightarrow> u8) option" where
  "czytaj_z_pliku s sciezka bufor max_dlugosc =
     (case sciezka of None \<Rightarrow> (False, bufor)
      | Some p \<Rightarrow>
        if \<not> ps_gotowy s \<or> max_dlugosc \<noteq> 0 \<and> bufor = None then (False, bufor)
        else let plik_id = fst (rozwiaz_sciezke s p None False) in
        if plik_id = 0 then (False, bufor)
        else case pobierz_wezel s plik_id of None \<Rightarrow> (False, bufor)
        | Some nr \<Rightarrow>
            let w = wezel s nr in
            if w_typ w \<noteq> TYP_PLIK \<or> \<not> wskazniki_pliku_poprawne s w then (False, bufor)
            else let do_odczytu = (if w_rozmiar w > ucast max_dlugosc then ucast max_dlugosc else w_rozmiar w) in
              (case czytaj_bloki s w do_odczytu 0 (case bufor of None \<Rightarrow> (\<lambda>_. 0) | Some b \<Rightarrow> b) indeksy_wskaznikow of
                 (ok, b) \<Rightarrow> (ok, if bufor = None then None else Some b)))"

text \<open>The loader's read: the size with the shared buffer, \<open>None\<close> for a null pointer.\<close>

definition bsp_wczytaj_plik_do_pamieci :: "psf \<Rightarrow> tekst option \<Rightarrow> u64 option \<times> psf" where
  "bsp_wczytaj_plik_do_pamieci s sciezka =
     (case sciezka of None \<Rightarrow> (None, s)
      | Some p \<Rightarrow>
        if \<not> ps_gotowy s then (None, s)
        else let plik_id = fst (rozwiaz_sciezke s p None False) in
        if plik_id = 0 then (None, s)
        else case pobierz_wezel s plik_id of None \<Rightarrow> (None, s)
        | Some nr \<Rightarrow>
            let w = wezel s nr in
            if w_typ w \<noteq> TYP_PLIK \<or> \<not> wskazniki_pliku_poprawne s w then (None, s)
            else if w_rozmiar w = 0 \<or> w_rozmiar w > MAX_LOADER_BUF then (None, s)
            else (case czytaj_bloki s w (w_rozmiar w) 0 (ps_bufor_wymiany s) indeksy_wskaznikow of
                   (ok, b) \<Rightarrow> (if ok then Some (w_rozmiar w) else None, s\<lparr>ps_bufor_wymiany := b\<rparr>)))"

subsection \<open>Listing a directory\<close>

text \<open>The text written so far with its position, or the end of the listing: a full buffer ends it with
  success, a damaged entry with failure.\<close>

datatype listowanie = Dalej nat tekst | Koniec bool tekst

fun dopisz_znaki :: "u32 \<Rightarrow> nat \<Rightarrow> tekst \<Rightarrow> u8 list \<Rightarrow> listowanie" where
  "dopisz_znaki maks pozycja bufor [] = Dalej pozycja bufor"
| "dopisz_znaki maks pozycja bufor (z # zs) =
     (if pozycja + 1 \<ge> unat maks then Koniec True (bufor(pozycja := 0))
      else dopisz_znaki maks (pozycja + 1) (bufor(pozycja := z)) zs)"

definition znaki_nazwy :: "tekst \<Rightarrow> u8 list" where
  "znaki_nazwy nazwa = takeWhile (\<lambda>z. z \<noteq> 0) (map nazwa [0 ..< PSF_MAX_NAZWA])"

definition znacznik_typu :: "u8 \<Rightarrow> u8 list" where
  "znacznik_typu typ = (if typ = TYP_KATALOG then [0x5B, 0x4B, 0x41, 0x54, 0x5D, 0x20, 0x20]
     else [0x5B, 0x50, 0x4C, 0x49, 0x4B, 0x5D, 0x20])"

definition wypisz_element :: "psf \<Rightarrow> u32 \<Rightarrow> wpis_katalogowy \<Rightarrow> nat \<Rightarrow> tekst \<Rightarrow> listowanie" where
  "wypisz_element s maks p pozycja bufor =
     (case pobierz_wezel s (wp_id p) of None \<Rightarrow> Koniec False bufor
      | Some nr \<Rightarrow>
          if w_typ (wezel s nr) = TYP_WOLNY \<or> \<not> poprawna_nazwa (wp_nazwa p) then Koniec False bufor
          else (case dopisz_znaki maks pozycja bufor (znacznik_typu (w_typ (wezel s nr))) of
              Koniec ok b \<Rightarrow> Koniec ok b
            | Dalej poz1 b1 \<Rightarrow> (case dopisz_znaki maks poz1 b1 (znaki_nazwy (wp_nazwa p)) of
                  Koniec ok b \<Rightarrow> Koniec ok b
                | Dalej poz2 b2 \<Rightarrow> if poz2 + 1 < unat maks then Dalej (poz2 + 1) (b2(poz2 := 0x0A))
                                    else Koniec True (b2(poz2 := 0)))))"

fun listuj_wpisy :: "psf \<Rightarrow> u32 \<Rightarrow> u64 \<Rightarrow> nat \<Rightarrow> tekst \<Rightarrow> nat list \<Rightarrow> listowanie" where
  "listuj_wpisy s maks nr pozycja bufor [] = Dalej pozycja bufor"
| "listuj_wpisy s maks nr pozycja bufor (j # js) =
     (if wp_id (wpis s nr j) = 0 then listuj_wpisy s maks nr pozycja bufor js
      else case wypisz_element s maks (wpis s nr j) pozycja bufor of
        Koniec ok b \<Rightarrow> Koniec ok b | Dalej poz b \<Rightarrow> listuj_wpisy s maks nr poz b js)"

fun listuj_bloki :: "psf \<Rightarrow> u32 \<Rightarrow> wezel_indeksowy \<Rightarrow> nat \<Rightarrow> tekst \<Rightarrow> nat list \<Rightarrow> listowanie" where
  "listuj_bloki s maks w pozycja bufor [] = Dalej pozycja bufor"
| "listuj_bloki s maks w pozycja bufor (k # ks) =
     (if w_wskazniki w k = BARK_BLOKU then listuj_bloki s maks w pozycja bufor ks
      else case pobierz_wpisy_katalogowe s (w_wskazniki w k) of None \<Rightarrow> Koniec False bufor
      | Some nr \<Rightarrow> (case listuj_wpisy s maks nr pozycja bufor indeksy_wpisow of
            Koniec ok b \<Rightarrow> Koniec ok b | Dalej poz b \<Rightarrow> listuj_bloki s maks w poz b ks))"

definition wylistuj_katalog :: "psf \<Rightarrow> tekst option \<Rightarrow> tekst option \<Rightarrow> u32 \<Rightarrow> bool \<times> tekst option" where
  "wylistuj_katalog s sciezka bufor max_dlugosc =
     (case (sciezka, bufor) of
        (Some p, Some b) \<Rightarrow>
          if \<not> ps_gotowy s \<or> max_dlugosc = 0 then (False, bufor)
          else let katalog_id = fst (rozwiaz_sciezke s p None False) in
          if katalog_id = 0 then (False, bufor)
          else (case pobierz_wezel s katalog_id of None \<Rightarrow> (False, bufor)
            | Some nr \<Rightarrow>
              if w_typ (wezel s nr) \<noteq> TYP_KATALOG then (False, bufor)
              else (case listuj_bloki s max_dlugosc (wezel s nr) 0 (b(0 := 0)) indeksy_wskaznikow of
                  Koniec ok b1 \<Rightarrow> (ok, Some b1)
                | Dalej pozycja b1 \<Rightarrow> (True, Some (b1(pozycja := 0)))))
      | _ \<Rightarrow> (False, bufor))"

subsection \<open>Removing\<close>

definition wskazniki_do_zwolnienia :: "psf \<Rightarrow> wezel_indeksowy \<Rightarrow> bool" where
  "wskazniki_do_zwolnienia s w = list_all (\<lambda>k. let i = w_wskazniki w k in
     if i = BARK_BLOKU then True else id_bloku_danych_poprawne s i \<and> czy_blok_danych_zajety s i) indeksy_wskaznikow"

definition usun_wpis :: "psf \<Rightarrow> u64 \<Rightarrow> u64 \<Rightarrow> nat \<Rightarrow> psf" where
  "usun_wpis s nr id_bloku j =
     oznacz_dane_jako_brudne (zmien_blok s nr (\<lambda>b. wyzeruj_pamiec (ustaw_id_wpisu b j 0) (64 * j + 8) PSF_MAX_NAZWA)) id_bloku"

definition zmniejsz_rozmiar :: "psf \<Rightarrow> u64 \<Rightarrow> psf" where
  "zmniejsz_rozmiar s nr =
     (if w_rozmiar (wezel s nr) > 0 then ustaw_rozmiar s nr (w_rozmiar (wezel s nr) - 1) else s)"

text \<open>The removal of the entry \<open>z\<close> of the directory \<open>rodzic_id\<close>.\<close>

definition usun_znaleziony :: "otoczenie \<Rightarrow> psf \<Rightarrow> u64 \<Rightarrow> ZnalezionyWpis \<Rightarrow> bool \<times> psf" where
  "usun_znaleziony E s rodzic_id z =
     (case (pobierz_wezel s (zw_id_wezla z), pobierz_wezel s rodzic_id) of
        (Some cel, Some rodzic) \<Rightarrow>
          let w = wezel s cel in
          if w_typ (wezel s rodzic) \<noteq> TYP_KATALOG \<or> w_typ w = TYP_WOLNY then (False, s)
          else if w_typ w = TYP_KATALOG \<and> \<not> katalog_pusty s (zw_id_wezla z) then (False, s)
          else if w_posredni_1 w \<noteq> BARK_BLOKU \<or> w_posredni_2 w \<noteq> BARK_BLOKU \<or> w_posredni_3 w \<noteq> BARK_BLOKU then (False, s)
          else if \<not> wskazniki_do_zwolnienia s w then (False, s)
          else case zwolnij_zbedne s cel indeksy_wskaznikow of (ok, s1) \<Rightarrow>
            if \<not> ok then (False, s1)
            else (case pobierz_wpisy_katalogowe s1 (zw_id_bloku z) of None \<Rightarrow> (False, s1)
              | Some nr \<Rightarrow>
                if zw_indeks z \<ge> unat wpisow_katalogowych_na_blok then (False, s1)
                else let s2 = usun_wpis s1 nr (zw_id_bloku z) (zw_indeks z);
                         s3 = oznacz_wezel_jako_brudny (zmniejsz_rozmiar s2 rodzic) rodzic_id
                     in case zwolnij_wezel s3 (zw_id_wezla z) of (ok2, s4) \<Rightarrow>
                       if \<not> ok2 then (False, s4) else (True, snd (bsp_zapisz_zmiany E s4)))
      | _ \<Rightarrow> (False, s))"

definition usun_twor :: "otoczenie \<Rightarrow> psf \<Rightarrow> tekst option \<Rightarrow> bool \<times> psf" where
  "usun_twor E s sciezka =
     (case sciezka of None \<Rightarrow> (False, s)
      | Some p \<Rightarrow>
        if \<not> ps_gotowy s \<or> \<not> bezpieczna_sciezka p then (False, s)
        else if p 0 = 0x2F \<and> p 1 = 0 then (False, s)
        else case rozwiaz_sciezke s p (Some (\<lambda>_. 0)) True of (rodzic_id, n) \<Rightarrow>
          if rodzic_id = 0 then (False, s)
          else let z = znajdz_wpis_w_katalogu s rodzic_id (the n) in
            if \<not> zw_znaleziony z \<or> zw_id_wezla z = sb_id_korzenia (sb s) then (False, s)
            else usun_znaleziony E s rodzic_id z)"

subsection \<open>Sizes, directories and metadata\<close>

definition rozmiar_pliku :: "psf \<Rightarrow> tekst option \<Rightarrow> u32" where
  "rozmiar_pliku s sciezka =
     (case sciezka of None \<Rightarrow> 0
      | Some p \<Rightarrow>
        if \<not> ps_gotowy s then 0
        else let i = fst (rozwiaz_sciezke s p None False) in
        if i = 0 then 0
        else case pobierz_wezel s i of None \<Rightarrow> 0
        | Some nr \<Rightarrow> if w_typ (wezel s nr) \<noteq> TYP_PLIK then 0
            else if w_rozmiar (wezel s nr) > 0xFFFFFFFF then 0xFFFFFFFF else ucast (w_rozmiar (wezel s nr)))"

definition czy_katalog_istnieje :: "psf \<Rightarrow> tekst option \<Rightarrow> bool" where
  "czy_katalog_istnieje s sciezka =
     (case sciezka of None \<Rightarrow> False
      | Some p \<Rightarrow>
        let i = fst (rozwiaz_sciezke s p None False) in
        if i = 0 then False
        else case pobierz_wezel s i of None \<Rightarrow> False | Some nr \<Rightarrow> w_typ (wezel s nr) = TYP_KATALOG)"

definition zapewnij_katalog :: "otoczenie \<Rightarrow> psf \<Rightarrow> tekst option \<Rightarrow> bool \<times> psf" where
  "zapewnij_katalog E s sciezka = (if czy_katalog_istnieje s sciezka then (True, s) else utworz_katalog E s sciezka)"

record psf_metadane =
  me_rozmiar :: u64
  me_czas :: u64
  me_typ :: u8
  me_pzb :: u8
  me_czas_dostepny :: u8
  me_pzb_dostepny :: u8

definition pobierz_metadane_tworu :: "psf \<Rightarrow> tekst option \<Rightarrow> psf_metadane option" where
  "pobierz_metadane_tworu s sciezka =
     (case sciezka of None \<Rightarrow> None
      | Some p \<Rightarrow>
        if \<not> ps_gotowy s \<or> \<not> bezpieczna_sciezka p then None
        else let i = fst (rozwiaz_sciezke s p None False) in
        case pobierz_wezel s i of None \<Rightarrow> None
        | Some nr \<Rightarrow>
            let w = wezel s nr in
            if i = 0 \<or> w_typ w = TYP_WOLNY then None
            else let m = \<lparr>me_rozmiar = w_rozmiar w, me_czas = 0, me_typ = w_typ w, me_pzb = 0, me_czas_dostepny = 0, me_pzb_dostepny = 0\<rparr>
            in if \<not> znacznik_metadanych_poprawny (w_flagi w) then Some m
               else let m1 = (if w_flagi w AND PSF_META_CZAS_WAZNY \<noteq> 0 \<and> w_czas w \<noteq> 0
                              then m\<lparr>me_czas := w_czas w, me_czas_dostepny := 1\<rparr> else m);
                        pzb = ucast (w_flagi w AND PSF_META_PZB_MASK)
                    in Some (if w_flagi w AND PSF_META_PZB_WAZNY \<noteq> 0 \<and> pzb \<le> 5
                             then m1\<lparr>me_pzb := pzb, me_pzb_dostepny := 1\<rparr> else m1))"

subsection \<open>Renaming and moving\<close>

definition zmien_nazwe_tworu :: "otoczenie \<Rightarrow> psf \<Rightarrow> tekst option \<Rightarrow> tekst option \<Rightarrow> bool \<times> psf" where
  "zmien_nazwe_tworu E s sciezka nowa_nazwa =
     (case (sciezka, nowa_nazwa) of
        (Some p, Some nowa) \<Rightarrow>
          if \<not> ps_gotowy s \<or> \<not> bezpieczna_sciezka p \<or> \<not> poprawna_nazwa nowa then (False, s)
          else if p 0 = 0x2F \<and> p 1 = 0 then (False, s)
          else (case rozwiaz_sciezke s p (Some (\<lambda>_. 0)) True of (rodzic_id, n) \<Rightarrow>
            let stara = the n in
            if rodzic_id = 0 then (False, s)
            else if nazwy_rowne stara nowa then (zw_znaleziony (znajdz_wpis_w_katalogu s rodzic_id stara), s)
            else if zw_znaleziony (znajdz_wpis_w_katalogu s rodzic_id nowa) then (False, s)
            else let z = znajdz_wpis_w_katalogu s rodzic_id stara in
            if \<not> zw_znaleziony z then (False, s)
            else (case pobierz_wpisy_katalogowe s (zw_id_bloku z) of None \<Rightarrow> (False, s)
              | Some nr \<Rightarrow>
                if zw_indeks z \<ge> unat wpisow_katalogowych_na_blok then (False, s)
                else (case kopiuj_nazwe (wp_nazwa (wpis s nr (zw_indeks z))) nowa of None \<Rightarrow> (False, s)
                  | Some nazwa \<Rightarrow>
                      let s1 = oznacz_dane_jako_brudne (zmien_blok s nr (\<lambda>b. ustaw_nazwe_wpisu b (zw_indeks z) nazwa)) (zw_id_bloku z)
                      in (True, snd (bsp_zapisz_zmiany E s1)))))
      | _ \<Rightarrow> (False, s))"

text \<open>The first path is the second one or one of its ancestors.\<close>

definition sciezka_przodka :: "tekst \<Rightarrow> tekst \<Rightarrow> bool" where
  "sciezka_przodka sciezka folder =
     (let i = length (takeWhile (\<lambda>i. sciezka i \<noteq> 0 \<and> folder i = sciezka i) [0 ..< PSF_MAKS_DLUGOSC_SCIEZKI])
      in sciezka i = 0 \<and> (folder i = 0 \<or> folder i = 0x2F))"

definition przenies_twor :: "otoczenie \<Rightarrow> psf \<Rightarrow> tekst option \<Rightarrow> tekst option \<Rightarrow> bool \<times> psf" where
  "przenies_twor E s sciezka folder_docelowy =
     (case (sciezka, folder_docelowy) of
        (Some p, Some f) \<Rightarrow>
          if \<not> ps_gotowy s \<or> \<not> bezpieczna_sciezka p \<or> \<not> bezpieczna_sciezka f then (False, s)
          else if p 0 = 0x2F \<and> p 1 = 0 \<or> f 0 = 0x2F \<and> f 1 = 0 \<and> p 0 = 0x2F \<and> p 1 = 0 then (False, s)
          else (case rozwiaz_sciezke s p (Some (\<lambda>_. 0)) True of (stary_rodzic_id, n) \<Rightarrow>
            let nazwa = the n;
                cel_id = fst (rozwiaz_sciezke s p None False);
                nowy_rodzic_id = fst (rozwiaz_sciezke s f None False) in
            if stary_rodzic_id = 0 \<or> cel_id = 0 \<or> nowy_rodzic_id = 0 \<or> stary_rodzic_id = nowy_rodzic_id \<or> \<not> poprawna_nazwa nazwa
            then (False, s)
            else (case (pobierz_wezel s cel_id, pobierz_wezel s stary_rodzic_id, pobierz_wezel s nowy_rodzic_id) of
              (Some cel, Some stary_rodzic, Some nowy_rodzic) \<Rightarrow>
                if w_typ (wezel s stary_rodzic) \<noteq> TYP_KATALOG \<or> w_typ (wezel s nowy_rodzic) \<noteq> TYP_KATALOG then (False, s)
                else if w_typ (wezel s cel) = TYP_KATALOG \<and> sciezka_przodka p f then (False, s)
                else if zw_znaleziony (znajdz_wpis_w_katalogu s nowy_rodzic_id nazwa) then (False, s)
                else let z = znajdz_wpis_w_katalogu s stary_rodzic_id nazwa in
                if \<not> zw_znaleziony z \<or> zw_id_wezla z \<noteq> cel_id then (False, s)
                else (case pobierz_wpisy_katalogowe s (zw_id_bloku z) of None \<Rightarrow> (False, s)
                  | Some nr \<Rightarrow>
                    if zw_indeks z \<ge> unat wpisow_katalogowych_na_blok then (False, s)
                    else (case dodaj_wpis_do_katalogu s nowy_rodzic_id cel_id nazwa of (ok, s1) \<Rightarrow>
                      if \<not> ok then (False, s1)
                      else let s2 = usun_wpis s1 nr (zw_id_bloku z) (zw_indeks z);
                               s3 = oznacz_wezel_jako_brudny (zmniejsz_rozmiar s2 stary_rodzic) stary_rodzic_id
                           in (True, snd (bsp_zapisz_zmiany E s3))))
            | _ \<Rightarrow> (False, s)))
      | _ \<Rightarrow> (False, s))"

subsection \<open>Copying\<close>

abbreviation PSF_MAKS_GLEBOKOSC_KOPII :: nat where "PSF_MAKS_GLEBOKOSC_KOPII \<equiv> 32"

text \<open>The recursion argument counts the levels left: 33 less the depth here, 32 less the depth in the
  copy. The entries of a block are visited by a loop that stops at the first failure.\<close>

fun zwolnij_wpisy :: "(psf \<Rightarrow> u64 \<Rightarrow> bool \<times> psf) \<Rightarrow> psf \<Rightarrow> u64 \<Rightarrow> nat list \<Rightarrow> bool \<times> psf" where
  "zwolnij_wpisy zwolnij s nr [] = (True, s)"
| "zwolnij_wpisy zwolnij s nr (j # js) =
     (if wp_id (wpis s nr j) = 0 then zwolnij_wpisy zwolnij s nr js
      else case zwolnij s (wp_id (wpis s nr j)) of (ok, s1) \<Rightarrow>
        if \<not> ok then (False, s1) else zwolnij_wpisy zwolnij s1 nr js)"

fun zwolnij_bloki_katalogu :: "(psf \<Rightarrow> u64 \<Rightarrow> bool \<times> psf) \<Rightarrow> psf \<Rightarrow> u64 \<Rightarrow> nat list \<Rightarrow> bool \<times> psf" where
  "zwolnij_bloki_katalogu zwolnij s w [] = (True, s)"
| "zwolnij_bloki_katalogu zwolnij s w (k # ks) =
     (let blok_id = w_wskazniki (wezel s w) k in
      if blok_id = BARK_BLOKU then zwolnij_bloki_katalogu zwolnij s w ks
      else case pobierz_wpisy_katalogowe s blok_id of None \<Rightarrow> (False, s)
      | Some nr \<Rightarrow> (case zwolnij_wpisy zwolnij s nr indeksy_wpisow of (ok, s1) \<Rightarrow>
          if \<not> ok then (False, s1)
          else case zwolnij_blok_danych s1 blok_id of (ok2, s2) \<Rightarrow>
            if \<not> ok2 then (False, s2) else zwolnij_bloki_katalogu zwolnij (ustaw_wskaznik s2 w k BARK_BLOKU) w ks))"

fun zwolnij_nieopublikowana_kopie :: "nat \<Rightarrow> psf \<Rightarrow> u64 \<Rightarrow> bool \<times> psf" where
  "zwolnij_nieopublikowana_kopie 0 s i = (False, s)"
| "zwolnij_nieopublikowana_kopie (Suc n) s i =
     (if i = 0 then (False, s)
      else case pobierz_wezel s i of None \<Rightarrow> (False, s)
      | Some w \<Rightarrow>
          if w_typ (wezel s w) = TYP_WOLNY then (False, s)
          else (case (if w_typ (wezel s w) = TYP_KATALOG
                      then zwolnij_bloki_katalogu (zwolnij_nieopublikowana_kopie n) s w indeksy_wskaznikow
                      else if w_typ (wezel s w) = TYP_PLIK then zwolnij_zbedne s w indeksy_wskaznikow
                      else (False, s)) of
                 (ok, s1) \<Rightarrow> if \<not> ok then (False, s1) else zwolnij_wezel s1 i))"

fun sklonuj_bloki :: "psf \<Rightarrow> u64 \<Rightarrow> u64 \<Rightarrow> u64 \<Rightarrow> nat list \<Rightarrow> bool \<times> psf" where
  "sklonuj_bloki s zrodlo nowy nowy_id [] = (True, s)"
| "sklonuj_bloki s zrodlo nowy nowy_id (k # ks) =
     (let stary_blok = w_wskazniki (wezel s zrodlo) k in
      case zaalokuj_wolny_blok_danych s of (nowy_blok, s1) \<Rightarrow>
        (case (pobierz_blok_danych s1 stary_blok, pobierz_blok_danych s1 nowy_blok) of
           (Some src, Some dst) \<Rightarrow>
             if nowy_blok = BARK_BLOKU then (False, s1)
             else let reszta = w_rozmiar (wezel s1 zrodlo) - of_nat k * of_nat PSF_ROZMIAR_BLOKU;
                      porcja = (if reszta > of_nat PSF_ROZMIAR_BLOKU then of_nat PSF_ROZMIAR_BLOKU else reszta);
                      s2 = zmien_blok s1 dst (\<lambda>b. let b1 = kopiuj_pamiec b 0 (ps_ram s1 src) (unat porcja) in
                             if porcja < of_nat PSF_ROZMIAR_BLOKU then wyzeruj_pamiec b1 (unat porcja) (PSF_ROZMIAR_BLOKU - unat porcja) else b1)
                  in sklonuj_bloki (oznacz_dane_jako_brudne (ustaw_wskaznik s2 nowy k nowy_blok) nowy_blok) zrodlo nowy nowy_id ks
         | _ \<Rightarrow> (False, if nowy_blok \<noteq> BARK_BLOKU then snd (zwolnij_blok_danych s1 nowy_blok) else s1)))"

fun sklonuj_wpisy :: "(psf \<Rightarrow> u64 \<Rightarrow> u64 \<times> psf) \<Rightarrow> nat \<Rightarrow> psf \<Rightarrow> u64 \<Rightarrow> u64 \<Rightarrow> nat list \<Rightarrow> bool \<times> psf" where
  "sklonuj_wpisy klon n s nr nowy_id [] = (True, s)"
| "sklonuj_wpisy klon n s nr nowy_id (j # js) =
     (if wp_id (wpis s nr j) = 0 then sklonuj_wpisy klon n s nr nowy_id js
      else case klon s (wp_id (wpis s nr j)) of (dziecko, s1) \<Rightarrow>
        if dziecko = 0 then (False, s1)
        else case dodaj_wpis_do_katalogu s1 nowy_id dziecko (wp_nazwa (wpis s1 nr j)) of (ok, s2) \<Rightarrow>
          if \<not> ok then (False, snd (zwolnij_nieopublikowana_kopie n s2 dziecko))
          else sklonuj_wpisy klon n s2 nr nowy_id js)"

fun sklonuj_katalog :: "(psf \<Rightarrow> u64 \<Rightarrow> u64 \<times> psf) \<Rightarrow> nat \<Rightarrow> psf \<Rightarrow> u64 \<Rightarrow> u64 \<Rightarrow> nat list \<Rightarrow> bool \<times> psf" where
  "sklonuj_katalog klon n s zrodlo nowy_id [] = (True, s)"
| "sklonuj_katalog klon n s zrodlo nowy_id (k # ks) =
     (let blok_id = w_wskazniki (wezel s zrodlo) k in
      if blok_id = BARK_BLOKU then sklonuj_katalog klon n s zrodlo nowy_id ks
      else case pobierz_wpisy_katalogowe s blok_id of None \<Rightarrow> (False, s)
      | Some nr \<Rightarrow> (case sklonuj_wpisy klon n s nr nowy_id indeksy_wpisow of (ok, s1) \<Rightarrow>
          if \<not> ok then (False, s1) else sklonuj_katalog klon n s1 zrodlo nowy_id ks))"

text \<open>The clean-up of the failed copy of a child of depth \<open>g + 1\<close> starts at that depth: of the 33 levels
  \<open>n = 32 - g\<close> are left.\<close>

fun sklonuj_wezel_rekurencyjnie :: "otoczenie \<Rightarrow> u8 \<Rightarrow> nat \<Rightarrow> u64 list \<Rightarrow> psf \<Rightarrow> u64 \<Rightarrow> u64 \<times> psf" where
  "sklonuj_wezel_rekurencyjnie E pzb 0 przodkowie s zrodlo_id = (0, s)"
| "sklonuj_wezel_rekurencyjnie E pzb (Suc n) przodkowie s zrodlo_id =
     (if zrodlo_id \<in> set przodkowie then (0, s)
      else case pobierz_wezel s zrodlo_id of None \<Rightarrow> (0, s)
      | Some zrodlo \<Rightarrow>
          let typ = w_typ (wezel s zrodlo) in
          if typ \<noteq> TYP_PLIK \<and> typ \<noteq> TYP_KATALOG then (0, s)
          else if typ = TYP_PLIK \<and> \<not> wskazniki_pliku_poprawne s (wezel s zrodlo) then (0, s)
          else case zaalokuj_wolny_wezel s typ of (nowy_id, s1) \<Rightarrow>
            (case pobierz_wezel s1 nowy_id of None \<Rightarrow> (0, s1)
             | Some nowy \<Rightarrow>
               if nowy_id = 0 then (0, s1)
               else let s2 = oznacz_wezel_jako_brudny (ustaw_metadane_nowego_wezla (ot_czas E) s1 nowy pzb) nowy_id in
               case (if typ = TYP_PLIK
                     then (case sklonuj_bloki s2 zrodlo nowy nowy_id
                              [0 ..< unat (podziel_w_gore (w_rozmiar (wezel s2 zrodlo)) (of_nat PSF_ROZMIAR_BLOKU))] of
                             (ok, s3) \<Rightarrow> (ok, if ok then oznacz_wezel_jako_brudny
                                  (ustaw_rozmiar s3 nowy (w_rozmiar (wezel s3 zrodlo))) nowy_id else s3))
                     else sklonuj_katalog (sklonuj_wezel_rekurencyjnie E pzb n (przodkowie @ [zrodlo_id])) (Suc n)
                            s2 zrodlo nowy_id indeksy_wskaznikow) of
                 (ok, s4) \<Rightarrow> if ok then (nowy_id, s4) else (0, snd (zwolnij_nieopublikowana_kopie (Suc (Suc n)) s4 nowy_id))))"

definition kopiuj_twor_z_pzb :: "otoczenie \<Rightarrow> psf \<Rightarrow> tekst option \<Rightarrow> tekst option \<Rightarrow> u8 \<Rightarrow> bool \<times> psf" where
  "kopiuj_twor_z_pzb E s sciezka folder_docelowy poziom_pzb =
     (case (sciezka, folder_docelowy) of
        (Some p, Some f) \<Rightarrow>
          if \<not> ps_gotowy s \<or> poziom_pzb > 5 \<or> \<not> bezpieczna_sciezka p \<or> \<not> bezpieczna_sciezka f \<or> p 0 = 0x2F \<and> p 1 = 0 then (False, s)
          else (case rozwiaz_sciezke s p (Some (\<lambda>_. 0)) True of (zrodlo_rodzic, n) \<Rightarrow>
            let nazwa = the n;
                zrodlo_id = fst (rozwiaz_sciezke s p None False);
                cel_rodzic = fst (rozwiaz_sciezke s f None False) in
            (case (pobierz_wezel s zrodlo_id, pobierz_wezel s cel_rodzic) of
              (Some zrodlo, Some cel) \<Rightarrow>
                if zrodlo_id = 0 \<or> zrodlo_rodzic = 0 \<or> cel_rodzic = 0 \<or> w_typ (wezel s cel) \<noteq> TYP_KATALOG \<or> \<not> poprawna_nazwa nazwa \<or>
                   zw_znaleziony (znajdz_wpis_w_katalogu s cel_rodzic nazwa) then (False, s)
                else if w_typ (wezel s zrodlo) = TYP_KATALOG \<and> sciezka_przodka p f then (False, s)
                else (case sklonuj_wezel_rekurencyjnie E poziom_pzb PSF_MAKS_GLEBOKOSC_KOPII [] s zrodlo_id of (kopia_id, s1) \<Rightarrow>
                  if kopia_id = 0 then (False, s1)
                  else (case dodaj_wpis_do_katalogu s1 cel_rodzic kopia_id nazwa of (ok, s2) \<Rightarrow>
                    if \<not> ok then (False, snd (zwolnij_nieopublikowana_kopie (PSF_MAKS_GLEBOKOSC_KOPII + 1) s2 kopia_id))
                    else (True, snd (bsp_zapisz_zmiany E s2))))
            | _ \<Rightarrow> (False, s)))
      | _ \<Rightarrow> (False, s))"

end
