(* ===== verification/Psf_Bajty.thy ===== *)
theory Psf_Bajty
  imports Psf_Api
begin

section \<open>BSP2: fields in bytes\<close>

text \<open>Reading a packed field gives what was written last, and a write to one field leaves the others
  alone; then the same for the fields of a node and of a directory entry.\<close>

lemma bit_czytaj_od:
  "bit (foldr (\<lambda>i x. push_bit 8 x OR ucast (b (o1 + i))) [j ..< j + k] (0 :: u64)) n \<longleftrightarrow>
     n < 64 \<and> n < 8 * k \<and> bit (b (o1 + j + n div 8) :: u8) (n mod 8)"
proof (induction k arbitrary: j n)
  case 0
  then show ?case by simp
next
  case (Suc k)
  have u: "[j ..< j + Suc k] = j # [Suc j ..< Suc j + k]" by (simp add: upt_conv_Cons)
  have b8: "bit (b x) m \<Longrightarrow> m < 8" for x m using bit_imp_le_length [of "b x" m] by simp
  show ?case
  proof (cases "n < 8")
    case True
    then show ?thesis unfolding u by (simp add: bit_or_iff bit_push_bit_iff bit_ucast_iff)
  next
    case False
    then have d: "n div 8 = Suc ((n - 8) div 8)" "n mod 8 = (n - 8) mod 8" "n = 8 + (n - 8)"
      by (simp_all add: le_div_geq le_mod_geq)
    have "bit (foldr (\<lambda>i x. push_bit 8 x OR ucast (b (o1 + i))) [j ..< j + Suc k] (0 :: u64)) n \<longleftrightarrow>
        n < 64 \<and> bit (foldr (\<lambda>i x. push_bit 8 x OR ucast (b (o1 + i))) [Suc j ..< Suc j + k] (0 :: u64)) (n - 8)"
      unfolding u using False b8 by (auto simp: bit_or_iff bit_push_bit_iff bit_ucast_iff)
    also have "\<dots> \<longleftrightarrow> n < 64 \<and> n < 8 * Suc k \<and> bit (b (o1 + j + n div 8)) (n mod 8)"
      unfolding Suc.IH using False d by auto
    finally show ?thesis .
  qed
qed

lemma bit_czytaj64: "bit (czytaj64 b o1) n \<longleftrightarrow> n < 64 \<and> bit (b (o1 + n div 8)) (n mod 8)"
  using bit_czytaj_od [of b o1 0 8 n] by (auto simp: czytaj64_def)

lemma czytaj64_zgodne: "(\<And>i. i < 8 \<Longrightarrow> b (o1 + i) = b' (o1 + i)) \<Longrightarrow> czytaj64 b o1 = czytaj64 b' o1"
  by (rule bit_word_eqI) (simp add: bit_czytaj64 less_mult_imp_div_less)

lemma czytaj64_zapisane [simp]: "czytaj64 (zapisz64 b o1 x) o1 = x"
proof (rule bit_word_eqI)
  fix n assume "n < LENGTH(64)"
  then have n: "n div 8 < 8" "n < 64" by simp_all
  have "n mod 8 + 8 * (n div 8) = n" by simp
  then show "bit (czytaj64 (zapisz64 b o1 x) o1) n = bit x n"
    using n by (simp add: bit_czytaj64 zapisz64_def bit_ucast_iff bit_drop_bit_eq)
qed

lemma czytaj64_inne: "o2 + 8 \<le> o1 \<or> o1 + 8 \<le> o2 \<Longrightarrow> czytaj64 (zapisz64 b o1 x) o2 = czytaj64 b o2"
  by (rule czytaj64_zgodne) (auto simp: zapisz64_def)

lemma zapisz64_poza: "i < o1 \<or> o1 + 8 \<le> i \<Longrightarrow> zapisz64 b o1 x i = b i"
  by (auto simp: zapisz64_def)

lemma czytaj64_zero: "(\<And>i. i < 8 \<Longrightarrow> b (o1 + i) = 0) \<Longrightarrow> czytaj64 b o1 = 0"
  by (rule bit_word_eqI) (simp add: bit_czytaj64 less_mult_imp_div_less)

lemma zapisz64_przestaw:
  "o1 + 8 \<le> o2 \<or> o2 + 8 \<le> o1 \<Longrightarrow> zapisz64 (zapisz64 b o1 x) o2 y = zapisz64 (zapisz64 b o2 y) o1 x"
  by (auto simp: zapisz64_def fun_eq_iff)

subsection \<open>Nodes\<close>

lemma czytaj64_wskaznik [simp]:
  "k \<noteq> k' \<Longrightarrow> czytaj64 (zapisz64 b (25 + 8 * k) x) (25 + 8 * k') = czytaj64 b (25 + 8 * k')"
  by (rule czytaj64_inne) arith

lemma wezel_wskaznik [simp]:
  "k < 490 \<Longrightarrow> wezel_z (zapisz64 b (25 + 8 * k) x) = (wezel_z b)\<lparr>w_wskazniki := (w_wskazniki (wezel_z b))(k := x)\<rparr>"
  by (auto simp: wezel_z_def zapisz64_poza czytaj64_inne fun_eq_iff)

lemma wezel_rozmiar [simp]: "wezel_z (zapisz64 b (Suc 0) x) = (wezel_z b)\<lparr>w_rozmiar := x\<rparr>"
  using czytaj64_zapisane [of b "Suc 0" x] by (auto simp: wezel_z_def zapisz64_poza czytaj64_inne fun_eq_iff)

lemma wezel_czas [simp]: "wezel_z (zapisz64 b 9 x) = (wezel_z b)\<lparr>w_czas := x\<rparr>"
  by (auto simp: wezel_z_def zapisz64_poza czytaj64_inne fun_eq_iff)

lemma wezel_flagi [simp]: "wezel_z (zapisz64 b 17 x) = (wezel_z b)\<lparr>w_flagi := x\<rparr>"
  by (auto simp: wezel_z_def zapisz64_poza czytaj64_inne fun_eq_iff)

lemma wezel_posrednie [simp]:
  "wezel_z (zapisz64 b 3945 x) = (wezel_z b)\<lparr>w_posredni_1 := x\<rparr>"
  "wezel_z (zapisz64 b 3953 x) = (wezel_z b)\<lparr>w_posredni_2 := x\<rparr>"
  "wezel_z (zapisz64 b 3961 x) = (wezel_z b)\<lparr>w_posredni_3 := x\<rparr>"
  by (auto simp: wezel_z_def zapisz64_poza czytaj64_inne fun_eq_iff)

lemma wezel_bez_wskaznika [simp]: "490 \<le> k \<Longrightarrow> w_wskazniki (wezel_z b) k = BARK_BLOKU"
  by (simp add: wezel_z_def)

text \<open>A cleared node.\<close>

definition wezel_pusty :: "u8 \<Rightarrow> wezel_indeksowy" where
  "wezel_pusty typ = \<lparr>w_typ = typ, w_rozmiar = 0, w_czas = 0, w_flagi = 0, w_wskazniki = (\<lambda>_. BARK_BLOKU),
     w_posredni_1 = BARK_BLOKU, w_posredni_2 = BARK_BLOKU, w_posredni_3 = BARK_BLOKU\<rparr>"

lemma bez_wskaznikow:
  "n \<le> 490 \<Longrightarrow> wezel_z (foldl (\<lambda>b k. zapisz64 b (25 + 8 * k) BARK_BLOKU) b [0 ..< n]) =
     (wezel_z b)\<lparr>w_wskazniki := (\<lambda>k. if k < n then BARK_BLOKU else w_wskazniki (wezel_z b) k)\<rparr>"
proof (induction n)
  case (Suc n)
  then show ?case by (auto simp: fun_eq_iff less_Suc_eq)
qed simp

lemma wezel_wyzerowany [simp]: "wezel_z (wyzeruj_wezel b typ) = wezel_pusty typ"
proof -
  define b1 where "b1 = (wyzeruj_pamiec b 0 4096)(0 := typ)"
  have "w_typ (wezel_z b1) = typ" by (simp add: b1_def wezel_z_def)
  moreover have "(\<lambda>k. if k < 490 then BARK_BLOKU else w_wskazniki (wezel_z b2) k) = (\<lambda>_. BARK_BLOKU)" for b2
    by (auto simp: fun_eq_iff)
  ultimately show ?thesis
    by (intro wezel_indeksowy.equality) (simp_all add: wyzeruj_wezel_def Let_def b1_def [symmetric] bez_wskaznikow wezel_pusty_def)
qed

subsection \<open>Directory entries\<close>

lemma rozne_wpisy: "j \<noteq> j' \<Longrightarrow> 64 * j + 64 \<le> 64 * j' \<or> 64 * j' + 64 \<le> (64 :: nat) * j"
  by auto

lemma wpis_id [simp]:
  "wpis_z (ustaw_id_wpisu b j x) j' = (if j = j' then (wpis_z b j)\<lparr>wp_id := x\<rparr> else wpis_z b j')"
proof (cases "j = j'")
  case True
  then show ?thesis by (auto simp: wpis_z_def ustaw_id_wpisu_def zapisz64_poza fun_eq_iff)
next
  case False
  from rozne_wpisy [OF this] show ?thesis using False
    by (auto simp: wpis_z_def ustaw_id_wpisu_def zapisz64_poza czytaj64_inne fun_eq_iff)
qed

lemma czytaj64_nazwa:
  "czytaj64 (ustaw_nazwe_wpisu b j n) (64 * j') = czytaj64 b (64 * j')"
proof (rule czytaj64_zgodne)
  fix i :: nat assume "i < 8"
  then show "ustaw_nazwe_wpisu b j n (64 * j' + i) = b (64 * j' + i)"
    using rozne_wpisy [of j j'] by (cases "j = j'") (auto simp: ustaw_nazwe_wpisu_def)
qed

lemma wpis_nazwa [simp]:
  "wpis_z (ustaw_nazwe_wpisu b j n) j' =
     (if j = j' then (wpis_z b j)\<lparr>wp_nazwa := (\<lambda>i. if i < 56 then n i else 0)\<rparr> else wpis_z b j')"
proof (cases "j = j'")
  case True
  then show ?thesis unfolding wpis_z_def czytaj64_nazwa by (auto simp: ustaw_nazwe_wpisu_def fun_eq_iff)
next
  case False
  from rozne_wpisy [OF this] show ?thesis using False
    unfolding wpis_z_def czytaj64_nazwa by (auto simp: ustaw_nazwe_wpisu_def fun_eq_iff)
qed

lemma wyzerowana_nazwa: "wyzeruj_pamiec b (64 * j + 8) 56 = ustaw_nazwe_wpisu b j (\<lambda>_. 0)"
  by (auto simp: wyzeruj_pamiec_def ustaw_nazwe_wpisu_def fun_eq_iff)

lemma wpis_w_zerach: "j < 64 \<Longrightarrow> wpis_z (wyzeruj_pamiec b 0 4096) j = \<lparr>wp_id = 0, wp_nazwa = \<lambda>_. 0\<rparr>"
  by (auto simp: wpis_z_def wyzeruj_pamiec_def fun_eq_iff intro!: czytaj64_zero)

end
