(* ===== verification/Psf_Widok.thy ===== *)
theory Psf_Widok
  imports Psf_Bajty
begin

section \<open>BSP2: what a disk stands for\<close>

text \<open>
  With a valid geometry the disk is a table of nodes, a table of data blocks and a set of used blocks:
  the view. Each primitive of \<open>psf.cpp\<close> changes one entry of the view, keeps the geometry, and
  marks the blocks it changes as dirty; \<open>zmiana\<close> collects the three and composes.
\<close>

subsection \<open>Geometry\<close>

lemma mnoz_u64_Some:
  "mnoz_u64 a b = Some c \<longleftrightarrow> unat a * unat b < 18446744073709551616 \<and> c = a * b"
proof (cases "a = 0")
  case True
  then show ?thesis by (auto simp: mnoz_u64_def)
next
  case False
  then have a: "0 < unat a" by (simp add: unat_gt_0)
  have "b \<le> UINT64_MAX div a \<longleftrightarrow> unat b \<le> 18446744073709551615 div unat a"
    by (simp add: word_le_nat_alt unat_div unat_UINT64_MAX)
  also have "\<dots> \<longleftrightarrow> unat b * unat a \<le> 18446744073709551615" using a by (rule less_eq_div_iff_mult_less_eq)
  also have "\<dots> \<longleftrightarrow> unat a * unat b < 18446744073709551616" by (auto simp: mult.commute)
  finally show ?thesis using False by (auto simp: mnoz_u64_def not_less)
qed

lemma mnoz_u64_case:
  "unat a * unat b < 18446744073709551616 \<Longrightarrow> mnoz_u64 a b = Some (a * b)"
  by (simp add: mnoz_u64_Some)

lemma unat_mult_u64:
  "unat a * unat b < 18446744073709551616 \<Longrightarrow> unat (a * b :: u64) = unat a * unat b"
  by (simp add: unat_word_ariths)

lemma mnoz_u64_unat: "mnoz_u64 a b = Some c \<Longrightarrow> unat c = unat a * unat b"
  by (simp only: mnoz_u64_Some unat_mult_u64)

lemma dvd_unat_4096: "(4096 :: u64) dvd x \<longleftrightarrow> 4096 dvd unat x"
  using exp_dvd_iff_exp_udvd [of 12 x] by (simp add: udvd_iff_dvd)

lemma unat_u32_less: "unat (r :: u32) < 4294967296"
  using unsigned_less [of r, where 'a = nat] by simp

lemma unat_u32_u64 [simp]: "unat (ucast (r :: u32) :: u64) = unat r"
proof -
  have "unat r < 2 ^ 64" using unat_u32_less [of r] by simp
  then show ?thesis by (simp add: unsigned_ucast_eq take_bit_nat_eq_self)
qed

lemma na_blok [simp]: "wezlow_na_blok = 1" "wpisow_katalogowych_na_blok = 64" "unat (64 :: u64) = 64"
  by (simp_all add: wezlow_na_blok_def wpisow_katalogowych_na_blok_def)

definition geometria :: "psf \<Rightarrow> bool" where
  "geometria s \<longleftrightarrow> ps_ram_dysk s \<and> ps_superblok s \<and> wylicz_geometrie (sb s) (ps_rozmiar s) = Some (ps_wezly s, ps_bloki s)"

abbreviation bloki_dysku :: "psf \<Rightarrow> nat" where "bloki_dysku s \<equiv> unat (sb_ilosc_blokow (sb s))"
abbreviation pierwszy_wezel :: "psf \<Rightarrow> nat" where "pierwszy_wezel s \<equiv> unat (sb_start_wezlow (sb s))"
abbreviation pierwsze_dane :: "psf \<Rightarrow> nat" where "pierwsze_dane s \<equiv> unat (sb_start_danych (sb s))"

lemma geometria_superbloku:
  assumes "wylicz_geometrie b r = Some (n, m)"
  shows "1 < unat (sb_start_wezlow b)" "unat (sb_start_wezlow b) < unat (sb_start_danych b)"
    "unat (sb_start_danych b) < unat (sb_ilosc_blokow b)"
    "unat (sb_calkowity_rozmiar b) = unat (sb_ilosc_blokow b) * 4096" "unat (sb_ilosc_blokow b) * 4096 \<le> unat r"
    "unat n = unat (sb_start_danych b) - unat (sb_start_wezlow b)" "unat m = unat (sb_ilosc_blokow b) - unat (sb_start_danych b)"
    "unat m \<le> (unat (sb_start_wezlow b) - 1) * 32768" "0 < unat (sb_id_korzenia b)" "unat (sb_id_korzenia b) \<le> unat n"
    "sygnatura_bsp2 b"
proof -
  let ?W = "sb_start_wezlow b" and ?D = "sb_start_danych b" and ?I = "sb_ilosc_blokow b" and ?C = "sb_calkowity_rozmiar b"
  note z = assms [unfolded wylicz_geometrie_def Let_def, simplified]
  have c: "unat ?C \<le> unat r" "?I = ?C div 4096" "4096 dvd ?C" "\<not> ?W \<le> 1" "\<not> ?D \<le> ?W" "\<not> ?I \<le> ?D"
    "sb_id_korzenia b \<noteq> 0" "sb_id_korzenia b \<le> n" "m = ?I - ?D" "sygnatura_bsp2 b"
    using z by (auto simp: word_less_nat_alt word_le_nat_alt not_less split: if_splits option.splits)
  obtain x y where xy: "mnoz_u64 (?W - 1) 4096 = Some x" "mnoz_u64 x 8 = Some y" "m \<le> y" "mnoz_u64 (?D - ?W) 1 = Some n"
    using z by (auto simp: not_less split: if_splits option.splits)
  show W: "1 < unat ?W" using c(4) by (simp add: word_le_nat_alt)
  show D: "unat ?W < unat ?D" using c(5) by (simp add: word_le_nat_alt)
  show I: "unat ?D < unat ?I" using c(6) by (simp add: word_le_nat_alt)
  show C: "unat ?C = unat ?I * 4096" using c(3) unfolding c(2) dvd_unat_4096 by (simp add: unat_div)
  then show "unat ?I * 4096 \<le> unat r" using c(1) by simp
  have "?W \<le> ?D" "?D \<le> ?I" using D I by (simp_all add: word_le_nat_alt)
  then show n: "unat n = unat ?D - unat ?W" and m: "unat m = unat ?I - unat ?D"
    using xy(4) c(9) by (simp_all add: mnoz_u64_Some unat_sub_u64)
  have "(1 :: u64) \<le> ?W" using W by (simp add: word_le_nat_alt)
  then have w1: "unat (?W - 1) = unat ?W - 1" by (simp add: unat_sub_u64)
  have "unat x = (unat ?W - 1) * 4096" using mnoz_u64_unat [OF xy(1)] w1 by simp
  then have "unat y = (unat ?W - 1) * 32768" using mnoz_u64_unat [OF xy(2)] by simp
  then show "unat m \<le> (unat ?W - 1) * 32768" using xy(3) by (simp add: word_le_nat_alt)
  show "0 < unat (sb_id_korzenia b)" "unat (sb_id_korzenia b) \<le> unat n"
    using c(7,8) by (simp_all add: unat_gt_0 word_le_nat_alt)
  show "sygnatura_bsp2 b" by (rule c(10))
qed

lemma geometria_liczby:
  assumes "geometria s"
  shows "1 < pierwszy_wezel s" "pierwszy_wezel s < pierwsze_dane s" "pierwsze_dane s < bloki_dysku s"
    "bloki_dysku s < 1048576" "bloki_dysku s * 4096 \<le> unat (ps_rozmiar s)"
    "unat (ps_wezly s) = pierwsze_dane s - pierwszy_wezel s" "unat (ps_bloki s) = bloki_dysku s - pierwsze_dane s"
    "unat (ps_bloki s) \<le> (pierwszy_wezel s - 1) * 32768"
    "sb_id_korzenia (sb s) \<noteq> 0" "sb_id_korzenia (sb s) \<le> ps_wezly s"
proof -
  note g = geometria_superbloku [of "sb s" "ps_rozmiar s" "ps_wezly s" "ps_bloki s"]
  have z: "wylicz_geometrie (sb s) (ps_rozmiar s) = Some (ps_wezly s, ps_bloki s)" using assms by (simp add: geometria_def)
  show "1 < pierwszy_wezel s" "pierwszy_wezel s < pierwsze_dane s" "pierwsze_dane s < bloki_dysku s"
    "bloki_dysku s * 4096 \<le> unat (ps_rozmiar s)"
    "unat (ps_wezly s) = pierwsze_dane s - pierwszy_wezel s" "unat (ps_bloki s) = bloki_dysku s - pierwsze_dane s"
    "unat (ps_bloki s) \<le> (pierwszy_wezel s - 1) * 32768"
    by (rule g [OF z])+
  then show "bloki_dysku s < 1048576" using unat_u32_less [of "ps_rozmiar s"] by linarith
  show "sb_id_korzenia (sb s) \<noteq> 0" "sb_id_korzenia (sb s) \<le> ps_wezly s"
    using g(9,10) [OF z] by (auto simp: word_le_nat_alt)
qed

definition wezel_na_dysku :: "psf \<Rightarrow> u64 \<Rightarrow> bool" where
  "wezel_na_dysku s i \<longleftrightarrow> i \<noteq> 0 \<and> i \<le> ps_wezly s"

definition nr_wezla :: "psf \<Rightarrow> u64 \<Rightarrow> u64" where
  "nr_wezla s i = sb_start_wezlow (sb s) + (i - 1)"

definition nr_danych :: "psf \<Rightarrow> u64 \<Rightarrow> u64" where
  "nr_danych s b = sb_start_danych (sb s) + b"

definition nr_bitmapy :: "u64 \<Rightarrow> u64" where
  "nr_bitmapy b = 1 + b div 8 div 4096"

lemma pobierz_blok_geo:
  assumes "geometria s"
  shows "pobierz_blok s nr = (if unat nr < bloki_dysku s then Some nr else None)"
proof (cases "unat nr < bloki_dysku s")
  case True
  note g = geometria_liczby [OF assms]
  have n: "unat nr * 4096 + 4096 \<le> unat (ps_rozmiar s)" using True g(5) by simp
  have r: "unat (ps_rozmiar s) < 4294967296" by (rule unat_u32_less)
  have m: "unat (nr * 4096) = unat nr * 4096" using n r by (simp add: unat_mult_u64)
  then have e: "unat (nr * 4096 + 4096) = unat nr * 4096 + 4096" using n r by (simp add: unat_add_u64)
  have k: "\<not> nr * 4096 + 4096 > ucast (ps_rozmiar s)" using e n by (simp add: word_less_nat_alt)
  have "mnoz_u64 nr 4096 = Some (nr * 4096)" "dodaj_u64 (nr * 4096) 4096 = Some (nr * 4096 + 4096)"
    using n r m by (simp_all add: mnoz_u64_Some dodaj_u64_Some)
  then show ?thesis using True k assms by (simp add: pobierz_blok_def geometria_def word_le_nat_alt)
qed (use assms in \<open>simp add: pobierz_blok_def geometria_def word_le_nat_alt\<close>)

lemma unat_nr_wezla:
  assumes "geometria s" "wezel_na_dysku s i"
  shows "unat (nr_wezla s i) = pierwszy_wezel s + (unat i - 1)" "unat (nr_wezla s i) < pierwsze_dane s" "1 \<le> unat i"
proof -
  note g = geometria_liczby [OF assms(1)]
  have i: "1 \<le> unat i" "unat i \<le> unat (ps_wezly s)" using assms(2) by (auto simp: wezel_na_dysku_def word_le_nat_alt Suc_le_eq unat_gt_0)
  then have "(1 :: u64) \<le> i" by (simp add: word_le_nat_alt)
  then have d: "unat (i - 1) = unat i - 1" by (simp add: unat_sub_u64)
  then show "unat (nr_wezla s i) = pierwszy_wezel s + (unat i - 1)"
    unfolding nr_wezla_def using i g by (subst unat_add_u64) simp_all
  then show "unat (nr_wezla s i) < pierwsze_dane s" using i g by simp
  show "1 \<le> unat i" by (rule i)
qed

lemma unat_nr_danych:
  assumes "geometria s" "b < ps_bloki s"
  shows "unat (nr_danych s b) = pierwsze_dane s + unat b" "unat (nr_danych s b) < bloki_dysku s"
proof -
  note g = geometria_liczby [OF assms(1)]
  have b: "unat b < unat (ps_bloki s)" using assms(2) by (simp add: word_less_nat_alt)
  then show "unat (nr_danych s b) = pierwsze_dane s + unat b"
    unfolding nr_danych_def using g by (subst unat_add_u64) simp_all
  then show "unat (nr_danych s b) < bloki_dysku s" using b g by simp
qed

lemma unat_nr_bitmapy:
  assumes "geometria s" "b < ps_bloki s"
  shows "unat (nr_bitmapy b) = 1 + unat b div 8 div 4096" "unat (nr_bitmapy b) < pierwszy_wezel s"
proof -
  note g = geometria_liczby [OF assms(1)]
  have d: "unat (b div 8 div 4096) = unat b div 8 div 4096" by (simp add: unat_div)
  have "unat b div 8 div 4096 < 18446744073709551615"
    using unat_u64_less [of b] div_le_dividend [of "unat b div 8" 4096] div_le_dividend [of "unat b" 8]
    by linarith
  then show u: "unat (nr_bitmapy b) = 1 + unat b div 8 div 4096"
    unfolding nr_bitmapy_def using d by (subst unat_add_u64) simp_all
  have "unat b < (pierwszy_wezel s - 1) * 32768" using assms(2) g(8) by (simp add: word_less_nat_alt)
  then show "unat (nr_bitmapy b) < pierwszy_wezel s" unfolding u using g(1)
    by (simp add: div_mult2_eq [symmetric])
qed

lemma pobierz_wezel_geo:
  assumes "geometria s"
  shows "pobierz_wezel s i = (if wezel_na_dysku s i then Some (nr_wezla s i) else None)"
proof (cases "wezel_na_dysku s i")
  case True
  note u = unat_nr_wezla [OF assms True]
  have "\<not> nr_wezla s i \<ge> sb_start_danych (sb s)" using u by (simp add: word_le_nat_alt)
  moreover have "unat (nr_wezla s i) < bloki_dysku s" using u geometria_liczby [OF assms] by simp
  ultimately show ?thesis
    using True assms by (simp add: pobierz_wezel_def wezel_na_dysku_def nr_wezla_def Let_def pobierz_blok_geo geometria_def not_less)
qed (auto simp: pobierz_wezel_def wezel_na_dysku_def)

lemma pobierz_dane_geo:
  assumes "geometria s"
  shows "pobierz_blok_danych s b = (if b < ps_bloki s then Some (nr_danych s b) else None)"
    "absolutny_blok_danych s b = (if b < ps_bloki s then nr_danych s b else UINT64_MAX)"
    "b < ps_bloki s \<Longrightarrow> nr_danych s b \<noteq> UINT64_MAX"
proof -
  show n: "nr_danych s b \<noteq> UINT64_MAX" if "b < ps_bloki s"
  proof
    assume "nr_danych s b = UINT64_MAX"
    then have "unat (nr_danych s b) = 18446744073709551615" by (simp add: unat_UINT64_MAX)
    then show False using unat_nr_danych [OF assms that] geometria_liczby [OF assms] by simp
  qed
  show a: "absolutny_blok_danych s b = (if b < ps_bloki s then nr_danych s b else UINT64_MAX)"
    using assms by (simp add: absolutny_blok_danych_def id_bloku_danych_poprawne_def nr_danych_def geometria_def)
  show "pobierz_blok_danych s b = (if b < ps_bloki s then Some (nr_danych s b) else None)"
    using n unat_nr_danych(2) [OF assms, of b] by (simp add: pobierz_blok_danych_def a pobierz_blok_geo [OF assms])
qed

lemma pobierz_wpisy_geo:
  "geometria s \<Longrightarrow> pobierz_wpisy_katalogowe s b = (if b < ps_bloki s then Some (nr_danych s b) else None)"
  by (simp add: pobierz_wpisy_katalogowe_def pobierz_dane_geo)

lemma lokalizacja_geo:
  assumes "geometria s"
  shows "lokalizacja_bitmapy s b =
    (if b < ps_bloki s then Some (nr_bitmapy b, unat b div 8 mod 4096, push_bit (unat b mod 8) 1) else None)"
proof -
  have "unat (b AND 7) = unat b mod 8" using unat_and_mask [of b 3] by (simp add: mask_eq_exp_minus_1)
  moreover have "unat (b div 8 mod 4096) = unat b div 8 mod 4096" by (simp add: unat_div unat_mod)
  moreover have "b < ps_bloki s \<Longrightarrow> \<not> nr_bitmapy b \<ge> sb_start_wezlow (sb s)"
    using unat_nr_bitmapy(2) [OF assms, of b] by (simp add: word_le_nat_alt)
  ultimately show ?thesis
    using assms by (simp add: lokalizacja_bitmapy_def id_bloku_danych_poprawne_def Let_def geometria_def nr_bitmapy_def)
qed


subsection \<open>Where the blocks are\<close>

lemma rozne_bloki:
  assumes g: "geometria s"
  shows "wezel_na_dysku s i \<Longrightarrow> wezel_na_dysku s j \<Longrightarrow> nr_wezla s i = nr_wezla s j \<longleftrightarrow> i = j"
    "nr_danych s b = nr_danych s c \<longleftrightarrow> b = c"
    "wezel_na_dysku s i \<Longrightarrow> c < ps_bloki s \<Longrightarrow> nr_wezla s i \<noteq> nr_danych s c"
    "wezel_na_dysku s i \<Longrightarrow> c < ps_bloki s \<Longrightarrow> nr_wezla s i \<noteq> nr_bitmapy c"
    "b < ps_bloki s \<Longrightarrow> c < ps_bloki s \<Longrightarrow> nr_danych s b \<noteq> nr_bitmapy c"
    "wezel_na_dysku s i \<Longrightarrow> nr_wezla s i \<noteq> 0" "b < ps_bloki s \<Longrightarrow> nr_danych s b \<noteq> 0" "b < ps_bloki s \<Longrightarrow> nr_bitmapy b \<noteq> 0"
    "wezel_na_dysku s i \<Longrightarrow> unat (nr_wezla s i) < bloki_dysku s" "b < ps_bloki s \<Longrightarrow> unat (nr_bitmapy b) < bloki_dysku s"
proof -
  note l = geometria_liczby [OF g]
  note w = unat_nr_wezla [OF g] and d = unat_nr_danych [OF g] and m = unat_nr_bitmapy [OF g]
  show "wezel_na_dysku s i \<Longrightarrow> wezel_na_dysku s j \<Longrightarrow> nr_wezla s i = nr_wezla s j \<longleftrightarrow> i = j"
    by (simp add: nr_wezla_def)
  show "nr_danych s b = nr_danych s c \<longleftrightarrow> b = c" by (simp add: nr_danych_def)
  show "wezel_na_dysku s i \<Longrightarrow> c < ps_bloki s \<Longrightarrow> nr_wezla s i \<noteq> nr_danych s c" using w(2) [of i] d(1) [of c] by auto
  show "wezel_na_dysku s i \<Longrightarrow> c < ps_bloki s \<Longrightarrow> nr_wezla s i \<noteq> nr_bitmapy c" using w(1) [of i] m(2) [of c] by auto
  show "b < ps_bloki s \<Longrightarrow> c < ps_bloki s \<Longrightarrow> nr_danych s b \<noteq> nr_bitmapy c" using d(1) [of b] m(2) [of c] l(2) by auto
  show "wezel_na_dysku s i \<Longrightarrow> nr_wezla s i \<noteq> 0" using w(1) [of i] l(1) by auto
  show "b < ps_bloki s \<Longrightarrow> nr_danych s b \<noteq> 0" using d(1) [of b] l(1,2) by auto
  show "b < ps_bloki s \<Longrightarrow> nr_bitmapy b \<noteq> 0" using m(1) [of b] by auto
  show "wezel_na_dysku s i \<Longrightarrow> unat (nr_wezla s i) < bloki_dysku s" using w(2) [of i] l(3) by simp
  show "b < ps_bloki s \<Longrightarrow> unat (nr_bitmapy b) < bloki_dysku s" using m(2) [of b] l(2,3) by simp
qed

subsection \<open>The view\<close>

record widok =
  vi_wezel :: "u64 \<Rightarrow> wezel_indeksowy"
  vi_dane :: "u64 \<Rightarrow> blok"
  vi_zajety :: "u64 \<Rightarrow> bool"

definition widok :: "psf \<Rightarrow> widok" where
  "widok s = \<lparr>vi_wezel = (\<lambda>i. if wezel_na_dysku s i then wezel s (nr_wezla s i) else wezel_pusty TYP_WOLNY),
     vi_dane = (\<lambda>b. if b < ps_bloki s then ps_ram s (nr_danych s b) else (\<lambda>_. 0)),
     vi_zajety = czy_blok_danych_zajety s\<rparr>"

definition stale :: "psf \<Rightarrow> bool \<times> bool \<times> u32 \<times> u64 \<times> u64 \<times> blok \<times> bool \<times> bool \<times> bool \<times> dysk \<times> (nat \<Rightarrow> u8)" where
  "stale s = (ps_ram_dysk s, ps_superblok s, ps_rozmiar s, ps_wezly s, ps_bloki s, ps_ram s 0, ps_gotowy s, ps_ahci s, ps_trwaly s,
     ps_dysk s, ps_bufor_wymiany s)"

lemma stale_pola:
  assumes "stale s' = stale s"
  shows "ps_wezly s' = ps_wezly s" "ps_bloki s' = ps_bloki s" "sb s' = sb s" "nr_wezla s' i = nr_wezla s i" "nr_danych s' b = nr_danych s b"
    "wezel_na_dysku s' i = wezel_na_dysku s i" "geometria s' = geometria s" "ps_gotowy s' = ps_gotowy s" "ps_superblok s' = ps_superblok s"
    "ps_ahci s' = ps_ahci s" "ps_trwaly s' = ps_trwaly s" "ps_dysk s' = ps_dysk s" "ps_ram_dysk s' = ps_ram_dysk s"
    "ps_rozmiar s' = ps_rozmiar s"
proof -
  note e = assms [unfolded stale_def prod.inject]
  then have b: "sb s' = sb s" by (simp add: sb_def)
  then show "sb s' = sb s" "nr_wezla s' i = nr_wezla s i" "nr_danych s' b = nr_danych s b" "wezel_na_dysku s' i = wezel_na_dysku s i"
    "geometria s' = geometria s"
    using e by (simp_all add: nr_wezla_def nr_danych_def wezel_na_dysku_def geometria_def)
qed (use assms [unfolded stale_def prod.inject] in blast)+

definition brudny :: "psf \<Rightarrow> u64 \<Rightarrow> bool" where
  "brudny s nr \<longleftrightarrow> ps_caly s \<or> nr \<in> set (ps_brudne s)"

text \<open>\<open>s'\<close> comes from \<open>s\<close> by changes that end in the view \<open>v\<close>; every changed block is dirty, but for
  those of \<open>X\<close>.\<close>

definition zmiana :: "u64 set \<Rightarrow> psf \<Rightarrow> psf \<Rightarrow> widok \<Rightarrow> bool" where
  "zmiana X s s' v \<longleftrightarrow> stale s' = stale s \<and> widok s' = v \<and>
     (\<forall>nr. brudny s nr \<longrightarrow> brudny s' nr) \<and>
     (\<forall>nr. ps_ram s' nr \<noteq> ps_ram s nr \<longrightarrow> unat nr < bloki_dysku s \<and> (brudny s' nr \<or> nr \<in> X))"

lemma zmiana_bez: "zmiana X s s (widok s)"
  by (simp add: zmiana_def)

lemma zmiana_nast:
  assumes "zmiana X s s1 v1" "zmiana Y s1 s2 v2"
  shows "zmiana (X \<union> Y) s s2 v2"
proof -
  note a = assms [unfolded zmiana_def]
  have "sb s1 = sb s" using a(1) by (intro stale_pola) simp
  then have i: "bloki_dysku s1 = bloki_dysku s" by simp
  have "unat nr < bloki_dysku s \<and> (brudny s2 nr \<or> nr \<in> X \<union> Y)" if "ps_ram s2 nr \<noteq> ps_ram s nr" for nr
    using a i that by (cases "ps_ram s2 nr = ps_ram s1 nr") auto
  then show ?thesis using a by (auto simp: zmiana_def)
qed

lemma zmiana_czysta: "zmiana X s s' v \<Longrightarrow> (\<And>nr. nr \<in> X \<Longrightarrow> unat nr < bloki_dysku s \<Longrightarrow> brudny s' nr) \<Longrightarrow> zmiana {} s s' v"
  by (auto simp: zmiana_def)

lemma zmiana_geo: "zmiana X s s' v \<Longrightarrow> geometria s \<Longrightarrow> geometria s'"
  using stale_pola(7) [of s' s] by (simp add: zmiana_def)

lemmas zmiana_stale = stale_pola [OF zmiana_def [THEN iffD1, THEN conjunct1]]

lemma zmiana_widok: "zmiana X s s' v \<Longrightarrow> widok s' = v"
  by (simp add: zmiana_def)

lemma oznacz_przypadki:
  "oznacz_blok_jako_brudny s nr = s \<or> oznacz_blok_jako_brudny s nr = s\<lparr>ps_caly := True, ps_brudne := []\<rparr> \<or>
     oznacz_blok_jako_brudny s nr = s\<lparr>ps_brudne := ps_brudne s @ [nr]\<rparr>"
  unfolding oznacz_blok_jako_brudny_def oznacz_caly_system_jako_brudny_def by simp

lemma oznacz_pola [simp]:
  "ps_ram (oznacz_blok_jako_brudny s nr) = ps_ram s" "ps_ram_dysk (oznacz_blok_jako_brudny s nr) = ps_ram_dysk s"
  "ps_superblok (oznacz_blok_jako_brudny s nr) = ps_superblok s" "ps_rozmiar (oznacz_blok_jako_brudny s nr) = ps_rozmiar s"
  "ps_wezly (oznacz_blok_jako_brudny s nr) = ps_wezly s" "ps_bloki (oznacz_blok_jako_brudny s nr) = ps_bloki s"
  "ps_gotowy (oznacz_blok_jako_brudny s nr) = ps_gotowy s" "ps_ahci (oznacz_blok_jako_brudny s nr) = ps_ahci s"
  "ps_trwaly (oznacz_blok_jako_brudny s nr) = ps_trwaly s" "ps_dysk (oznacz_blok_jako_brudny s nr) = ps_dysk s"
  "ps_bufor_wymiany (oznacz_blok_jako_brudny s nr) = ps_bufor_wymiany s"
  using oznacz_przypadki [of s nr] by (elim disjE; simp)+

lemma stale_pol [simp]:
  "stale (s\<lparr>ps_brudne := b, ps_caly := c\<rparr>) = stale s" "stale (s\<lparr>ps_ostatni := x\<rparr>) = stale s"
  by (simp_all add: stale_def)

lemma oznaczony_blok [simp]: "stale (oznacz_blok_jako_brudny s nr) = stale s"
  by (simp add: stale_def)

lemma oznaczony_wezel [simp]:
  "stale (oznacz_wezel_jako_brudny s i) = stale s" "ps_ram (oznacz_wezel_jako_brudny s i) = ps_ram s"
  by (simp_all add: oznacz_wezel_jako_brudny_def)

lemma oznaczone_dane [simp]:
  "stale (oznacz_dane_jako_brudne s i) = stale s" "ps_ram (oznacz_dane_jako_brudne s i) = ps_ram s"
  by (simp_all add: oznacz_dane_jako_brudne_def Let_def)

lemma widok_ram:
  assumes "stale s' = stale s" "ps_ram s' = ps_ram s"
  shows "widok s' = widok s"
proof -
  note p = stale_pola [OF assms(1)]
  have pb: "pobierz_blok s' nr = pobierz_blok s nr" for nr
    unfolding pobierz_blok_def p ..
  have lk: "lokalizacja_bitmapy s' b = lokalizacja_bitmapy s b" for b
    unfolding lokalizacja_bitmapy_def id_bloku_danych_poprawne_def p ..
  have "czy_blok_danych_zajety s' = czy_blok_danych_zajety s"
    by (rule ext) (unfold czy_blok_danych_zajety_def pb lk assms(2), rule refl)
  then show ?thesis unfolding widok_def p wezel_def assms(2) by simp
qed

lemma brudny_oznaczony:
  "ps_superblok s \<Longrightarrow> unat nr < bloki_dysku s \<Longrightarrow> brudny (oznacz_blok_jako_brudny s nr) nr"
  "brudny s x \<Longrightarrow> brudny (oznacz_blok_jako_brudny s nr) x"
  "brudny s x \<Longrightarrow> brudny (oznacz_wezel_jako_brudny s i) x" "brudny s x \<Longrightarrow> brudny (oznacz_dane_jako_brudne s b) x"
proof -
  show "ps_superblok s \<Longrightarrow> unat nr < bloki_dysku s \<Longrightarrow> brudny (oznacz_blok_jako_brudny s nr) nr"
    unfolding oznacz_blok_jako_brudny_def oznacz_caly_system_jako_brudny_def brudny_def word_le_nat_alt by simp
  show m: "brudny s x \<Longrightarrow> brudny (oznacz_blok_jako_brudny s nr) x" for nr
    using oznacz_przypadki [of s nr] unfolding brudny_def by (elim disjE; simp)
  show "brudny s x \<Longrightarrow> brudny (oznacz_wezel_jako_brudny s i) x" using m by (simp add: oznacz_wezel_jako_brudny_def)
  show "brudny s x \<Longrightarrow> brudny (oznacz_dane_jako_brudne s b) x" using m by (simp add: oznacz_dane_jako_brudne_def Let_def)
qed

lemma zmiana_oznacz:
  "zmiana {} s (oznacz_blok_jako_brudny s nr) (widok s)" "zmiana {} s (oznacz_wezel_jako_brudny s i) (widok s)"
  "zmiana {} s (oznacz_dane_jako_brudne s b) (widok s)" "zmiana {} s (s\<lparr>ps_ostatni := x\<rparr>) (widok s)"
proof -
  have z: "zmiana {} s s' (widok s)" if "stale s' = stale s" "ps_ram s' = ps_ram s" "\<And>nr. brudny s nr \<Longrightarrow> brudny s' nr" for s'
    using that widok_ram [OF that(1,2)] by (simp add: zmiana_def)
  show "zmiana {} s (oznacz_blok_jako_brudny s nr) (widok s)" "zmiana {} s (oznacz_wezel_jako_brudny s i) (widok s)"
    "zmiana {} s (oznacz_dane_jako_brudne s b) (widok s)"
    by (rule z; simp add: brudny_oznaczony)+
  show "zmiana {} s (s\<lparr>ps_ostatni := x\<rparr>) (widok s)" by (rule z) (simp_all add: brudny_def)
qed

lemma oznacz_wezel_brudny: "geometria s \<Longrightarrow> wezel_na_dysku s i \<Longrightarrow> brudny (oznacz_wezel_jako_brudny s i) (nr_wezla s i)"
  using brudny_oznaczony(1) [of s "nr_wezla s i"] rozne_bloki(9) [of s i]
  by (simp add: oznacz_wezel_jako_brudny_def geometria_def wezel_na_dysku_def nr_wezla_def)

lemma oznacz_dane_brudne: "geometria s \<Longrightarrow> b < ps_bloki s \<Longrightarrow> brudny (oznacz_dane_jako_brudne s b) (nr_danych s b)"
  using brudny_oznaczony(1) [of s "nr_danych s b"] unat_nr_danych(2) [of s b]
  by (simp add: oznacz_dane_jako_brudne_def pobierz_dane_geo Let_def geometria_def)

end
