(* ===== verification/Psf_Zmiany.thy ===== *)
theory Psf_Zmiany
  imports Psf_Widok
begin

section \<open>BSP2: the primitives on the view\<close>

subsection \<open>One block\<close>

definition v_wezel :: "widok \<Rightarrow> u64 \<Rightarrow> wezel_indeksowy \<Rightarrow> widok" where
  "v_wezel v i w = v\<lparr>vi_wezel := (vi_wezel v)(i := w)\<rparr>"

definition v_dane :: "widok \<Rightarrow> u64 \<Rightarrow> blok \<Rightarrow> widok" where
  "v_dane v b x = v\<lparr>vi_dane := (vi_dane v)(b := x)\<rparr>"

definition v_zajety :: "widok \<Rightarrow> u64 \<Rightarrow> bool \<Rightarrow> widok" where
  "v_zajety v b z = v\<lparr>vi_zajety := (vi_zajety v)(b := z)\<rparr>"

lemma v_pola [simp]:
  "vi_wezel (v_wezel v i w) = (vi_wezel v)(i := w)" "vi_dane (v_wezel v i w) = vi_dane v" "vi_zajety (v_wezel v i w) = vi_zajety v"
  "vi_wezel (v_dane v b x) = vi_wezel v" "vi_dane (v_dane v b x) = (vi_dane v)(b := x)" "vi_zajety (v_dane v b x) = vi_zajety v"
  "vi_wezel (v_zajety v b z) = vi_wezel v" "vi_dane (v_zajety v b z) = vi_dane v" "vi_zajety (v_zajety v b z) = (vi_zajety v)(b := z)"
  by (simp_all add: v_wezel_def v_dane_def v_zajety_def)

lemma zajety_geo:
  assumes "geometria s"
  shows "czy_blok_danych_zajety s b \<longleftrightarrow>
    b < ps_bloki s \<and> bit (ps_ram s (nr_bitmapy b) (unat b div 8 mod 4096)) (unat b mod 8)"
proof (cases "b < ps_bloki s")
  case True
  have "pobierz_blok s (nr_bitmapy b) = Some (nr_bitmapy b)"
    using rozne_bloki(10) [OF assms True] by (simp add: pobierz_blok_geo [OF assms])
  moreover have "x AND push_bit n 1 \<noteq> 0 \<longleftrightarrow> bit x n" if "n < 8" for x :: u8 and n
  proof -
    have "bit (x AND push_bit n 1) m \<longleftrightarrow> m = n \<and> bit x n" for m
      using that by (auto simp: bit_and_iff bit_exp_iff)
    then show ?thesis by (metis bit_0_eq bit_word_eqI bot_apply bot_bool_def)
  qed
  ultimately show ?thesis using True by (simp add: czy_blok_danych_zajety_def lokalizacja_geo [OF assms])
qed (simp add: czy_blok_danych_zajety_def lokalizacja_geo [OF assms])

lemma widok_pola:
  assumes "geometria s"
  shows "wezel_na_dysku s i \<Longrightarrow> wezel s (nr_wezla s i) = vi_wezel (widok s) i"
    "b < ps_bloki s \<Longrightarrow> ps_ram s (nr_danych s b) = vi_dane (widok s) b"
    "czy_blok_danych_zajety s b = vi_zajety (widok s) b" "vi_zajety (widok s) b \<Longrightarrow> b < ps_bloki s"
  using zajety_geo [OF assms] by (simp_all add: widok_def)

lemma zmien_ram: "ps_ram (zmien_blok s nr f) = (ps_ram s)(nr := f (ps_ram s nr))"
  by (simp add: zmien_blok_def)

lemma zmien_stale: "nr \<noteq> 0 \<Longrightarrow> stale (zmien_blok s nr f) = stale s"
  by (simp add: zmien_blok_def stale_def)

lemma zmiana_zmien:
  assumes g: "geometria s" and nr: "nr \<noteq> 0" "unat nr < bloki_dysku s"
    and w: "\<And>i. wezel_na_dysku s i \<Longrightarrow> vi_wezel v i = wezel_z (((ps_ram s)(nr := f (ps_ram s nr))) (nr_wezla s i))"
      "\<And>i. \<not> wezel_na_dysku s i \<Longrightarrow> vi_wezel v i = wezel_pusty TYP_WOLNY"
    and d: "\<And>b. b < ps_bloki s \<Longrightarrow> vi_dane v b = ((ps_ram s)(nr := f (ps_ram s nr))) (nr_danych s b)"
      "\<And>b. \<not> b < ps_bloki s \<Longrightarrow> vi_dane v b = (\<lambda>_. 0)"
    and z: "\<And>b. vi_zajety v b \<longleftrightarrow> b < ps_bloki s \<and> bit (((ps_ram s)(nr := f (ps_ram s nr))) (nr_bitmapy b) (unat b div 8 mod 4096)) (unat b mod 8)"
  shows "zmiana {nr} s (zmien_blok s nr f) v"
proof -
  note st = zmien_stale [OF nr(1), of s f]
  note p = stale_pola [OF st]
  have g': "geometria (zmien_blok s nr f)" using g p(7) by simp
  have "widok (zmien_blok s nr f) = v"
  proof (rule widok.equality)
    show "vi_wezel (widok (zmien_blok s nr f)) = vi_wezel v"
      by (rule ext) (simp add: widok_def p wezel_def zmien_ram w)
    show "vi_dane (widok (zmien_blok s nr f)) = vi_dane v"
      by (rule ext) (simp add: widok_def p zmien_ram d)
    have "czy_blok_danych_zajety (zmien_blok s nr f) b = vi_zajety v b" for b
      unfolding zajety_geo [OF g'] p zmien_ram z ..
    then show "vi_zajety (widok (zmien_blok s nr f)) = vi_zajety v" by (simp add: widok_def fun_eq_iff)
  qed simp
  moreover have "brudny (zmien_blok s nr f) = brudny s" by (simp add: brudny_def zmien_blok_def fun_eq_iff)
  ultimately show ?thesis using st nr by (auto simp: zmiana_def zmien_ram)
qed

lemma zmiana_wezla:
  assumes g: "geometria s" and i: "wezel_na_dysku s i"
  shows "zmiana {nr_wezla s i} s (zmien_blok s (nr_wezla s i) f) (v_wezel (widok s) i (wezel_z (f (ps_ram s (nr_wezla s i)))))"
proof (rule zmiana_zmien [OF g rozne_bloki(6,9) [OF g i]])
  fix j assume j: "wezel_na_dysku s j"
  show "vi_wezel (v_wezel (widok s) i (wezel_z (f (ps_ram s (nr_wezla s i))))) j =
      wezel_z (((ps_ram s)(nr_wezla s i := f (ps_ram s (nr_wezla s i)))) (nr_wezla s j))"
    using j rozne_bloki(1) [OF g j i] by (auto simp: widok_def wezel_def)
next
  fix b assume b: "b < ps_bloki s"
  show "vi_dane (v_wezel (widok s) i (wezel_z (f (ps_ram s (nr_wezla s i))))) b =
      ((ps_ram s)(nr_wezla s i := f (ps_ram s (nr_wezla s i)))) (nr_danych s b)"
    using b rozne_bloki(3) [OF g i b] by (auto simp: widok_def)
next
  fix b
  show "vi_zajety (v_wezel (widok s) i (wezel_z (f (ps_ram s (nr_wezla s i))))) b \<longleftrightarrow> b < ps_bloki s \<and>
      bit (((ps_ram s)(nr_wezla s i := f (ps_ram s (nr_wezla s i)))) (nr_bitmapy b) (unat b div 8 mod 4096)) (unat b mod 8)"
    using rozne_bloki(4) [OF g i, of b] by (auto simp: widok_def zajety_geo [OF g])
qed (use i in \<open>auto simp: widok_def\<close>)

lemma zmiana_danych:
  assumes g: "geometria s" and b: "b < ps_bloki s"
  shows "zmiana {nr_danych s b} s (zmien_blok s (nr_danych s b) f) (v_dane (widok s) b (f (vi_dane (widok s) b)))"
proof (rule zmiana_zmien [OF g rozne_bloki(7) [OF g b] unat_nr_danych(2) [OF g b]])
  fix j assume j: "wezel_na_dysku s j"
  show "vi_wezel (v_dane (widok s) b (f (vi_dane (widok s) b))) j =
      wezel_z (((ps_ram s)(nr_danych s b := f (ps_ram s (nr_danych s b)))) (nr_wezla s j))"
    using j rozne_bloki(3) [OF g j b] by (auto simp: widok_def wezel_def)
next
  fix c assume c: "c < ps_bloki s"
  show "vi_dane (v_dane (widok s) b (f (vi_dane (widok s) b))) c =
      ((ps_ram s)(nr_danych s b := f (ps_ram s (nr_danych s b)))) (nr_danych s c)"
    using b c rozne_bloki(2) [OF g] by (auto simp: widok_def)
next
  fix c
  show "vi_zajety (v_dane (widok s) b (f (vi_dane (widok s) b))) c \<longleftrightarrow> c < ps_bloki s \<and>
      bit (((ps_ram s)(nr_danych s b := f (ps_ram s (nr_danych s b)))) (nr_bitmapy c) (unat c div 8 mod 4096)) (unat c mod 8)"
    using rozne_bloki(5) [OF g b, of c] by (auto simp: widok_def zajety_geo [OF g])
qed (use b in \<open>auto simp: widok_def\<close>)

subsection \<open>The bitmap\<close>

lemma ten_sam_bit:
  fixes b c :: u64
  assumes "geometria s" "b < ps_bloki s" "c < ps_bloki s"
    and "nr_bitmapy b = nr_bitmapy c" "unat b div 8 mod 4096 = unat c div 8 mod 4096" "unat b mod 8 = unat c mod 8"
  shows "b = c"
proof -
  have "unat b div 8 div 4096 = unat c div 8 div 4096"
    using assms(4) unat_nr_bitmapy(1) [OF assms(1)] assms(2,3) by (metis add_left_cancel)
  then have "unat b div 8 = unat c div 8" using assms(5) by (metis mult_div_mod_eq)
  then have "unat b = unat c" using assms(6) by (metis mult_div_mod_eq)
  then show ?thesis by (rule unsigned_word_eqI)
qed

lemma bit_maski:
  fixes x :: u8
  assumes "n < 8" "m < 8"
  shows "bit (if z then x OR 2 ^ n else x AND NOT (2 ^ n)) m \<longleftrightarrow> (if m = n then z else bit x m)"
  using assms by (auto simp: bit_or_iff bit_and_iff bit_not_iff bit_exp_iff)

lemma zmiana_bitu:
  assumes g: "geometria s" and b: "b < ps_bloki s"
  shows "\<exists>s'. ustaw_stan_bloku_danych s b z = (True, s') \<and> zmiana {} s s' (v_zajety (widok s) b z)"
proof -
  define f where "f = (\<lambda>x :: blok. x(unat b div 8 mod 4096 :=
    (if z then x (unat b div 8 mod 4096) OR 2 ^ (unat b mod 8) else x (unat b div 8 mod 4096) AND NOT (2 ^ (unat b mod 8)))))"
  define s1 where "s1 = zmien_blok s (nr_bitmapy b) f"
  define s' where "s' = oznacz_blok_jako_brudny s1 (nr_bitmapy b)"
  note nr = rozne_bloki(8,10) [OF g b]
  have "pobierz_blok s (nr_bitmapy b) = Some (nr_bitmapy b)" using nr by (simp add: pobierz_blok_geo [OF g])
  then have e: "ustaw_stan_bloku_danych s b z = (True, s')"
    using b by (simp add: ustaw_stan_bloku_danych_def lokalizacja_geo [OF g] s'_def s1_def f_def)
  have z1: "zmiana {nr_bitmapy b} s s1 (v_zajety (widok s) b z)"
    unfolding s1_def
  proof (rule zmiana_zmien [OF g nr])
    fix c
    have "bit (((ps_ram s)(nr_bitmapy b := f (ps_ram s (nr_bitmapy b)))) (nr_bitmapy c) (unat c div 8 mod 4096)) (unat c mod 8) \<longleftrightarrow>
        (if c = b then z else bit (ps_ram s (nr_bitmapy c) (unat c div 8 mod 4096)) (unat c mod 8))" if c: "c < ps_bloki s"
    proof (cases "nr_bitmapy c = nr_bitmapy b \<and> unat c div 8 mod 4096 = unat b div 8 mod 4096")
      case True
      then have "unat c mod 8 = unat b mod 8 \<longleftrightarrow> c = b" using ten_sam_bit [OF g c b] by auto
      then show ?thesis using True bit_maski [of "unat b mod 8" "unat c mod 8" z "ps_ram s (nr_bitmapy b) (unat b div 8 mod 4096)"]
        by (simp add: f_def)
    next
      case False
      then have "c \<noteq> b" by auto
      then show ?thesis using False by (auto simp: f_def)
    qed
    then show "vi_zajety (v_zajety (widok s) b z) c \<longleftrightarrow> c < ps_bloki s \<and>
        bit (((ps_ram s)(nr_bitmapy b := f (ps_ram s (nr_bitmapy b)))) (nr_bitmapy c) (unat c div 8 mod 4096)) (unat c mod 8)"
      using b by (auto simp: widok_def zajety_geo [OF g])
  qed (use b rozne_bloki [OF g] in \<open>auto simp: widok_def wezel_def\<close>)
  have "zmiana {} s1 s' (widok s1)" unfolding s'_def by (rule zmiana_oznacz)
  from zmiana_nast [OF z1 this] have "zmiana {nr_bitmapy b} s s' (v_zajety (widok s) b z)"
    using zmiana_widok [OF z1] by simp
  then have "zmiana {} s s' (v_zajety (widok s) b z)"
  proof (rule zmiana_czysta)
    fix nr assume "nr \<in> {nr_bitmapy b}" "unat nr < bloki_dysku s"
    moreover have "sb s1 = sb s" "ps_superblok s1" using zmiana_stale [OF z1] g by (auto simp: geometria_def)
    ultimately show "brudny s' nr" unfolding s'_def by (simp add: brudny_oznaczony(1))
  qed
  then show ?thesis using e by blast
qed


subsection \<open>Data blocks\<close>

definition puste_dane :: "blok \<Rightarrow> blok" where
  "puste_dane b = wyzeruj_pamiec b 0 PSF_ROZMIAR_BLOKU"

text \<open>A change to a data block that its tail marks.\<close>

lemma zmiana_danych_brudna:
  assumes g: "geometria s" and b: "b < ps_bloki s"
  shows "zmiana {} s (oznacz_dane_jako_brudne (zmien_blok s (nr_danych s b) f) b) (v_dane (widok s) b (f (vi_dane (widok s) b)))"
proof -
  define s1 where "s1 = zmien_blok s (nr_danych s b) f"
  define v where "v = v_dane (widok s) b (f (vi_dane (widok s) b))"
  have z: "zmiana {nr_danych s b} s s1 v" unfolding s1_def v_def by (rule zmiana_danych [OF g b])
  note st = zmiana_stale [OF z]
  have g1: "geometria s1" by (rule zmiana_geo [OF z g])
  have "zmiana {nr_danych s b} s (oznacz_dane_jako_brudne s1 b) v"
    using zmiana_nast [OF z zmiana_oznacz(3) [of s1 b]] zmiana_widok [OF z] by simp
  moreover have "brudny (oznacz_dane_jako_brudne s1 b) (nr_danych s b)"
    using oznacz_dane_brudne [OF g1, of b] b st by simp
  ultimately show ?thesis unfolding s1_def [symmetric] v_def [symmetric] by (auto intro: zmiana_czysta)
qed

lemma zwolnij_blok_widok:
  assumes g: "geometria s" and b: "vi_zajety (widok s) b"
  shows "\<exists>s'. zwolnij_blok_danych s b = (True, s') \<and>
    zmiana {} s s' (v_zajety (v_dane (widok s) b (puste_dane (vi_dane (widok s) b))) b False)"
proof -
  have bb: "b < ps_bloki s" by (rule widok_pola(4) [OF g b])
  define s1 where "s1 = oznacz_dane_jako_brudne (zmien_blok s (nr_danych s b) puste_dane) b"
  have z1: "zmiana {} s s1 (v_dane (widok s) b (puste_dane (vi_dane (widok s) b)))"
    unfolding s1_def by (rule zmiana_danych_brudna [OF g bb])
  have g1: "geometria s1" and b1: "b < ps_bloki s1" using zmiana_geo [OF z1 g] zmiana_stale(2) [OF z1] bb by simp_all
  obtain s2 where s2: "ustaw_stan_bloku_danych s1 b False = (True, s2)" "zmiana {} s1 s2 (v_zajety (widok s1) b False)"
    using zmiana_bitu [OF g1 b1, of False] by blast
  have z2: "zmiana {} s s2 (v_zajety (v_dane (widok s) b (puste_dane (vi_dane (widok s) b))) b False)"
    using zmiana_nast [OF z1 s2(2)] zmiana_widok [OF z1] by simp
  define s3 where "s3 = (if b < ps_ostatni s2 then s2\<lparr>ps_ostatni := b\<rparr> else s2)"
  have z3: "zmiana {} s2 s3 (widok s2)" unfolding s3_def using zmiana_oznacz(4) [of s2 b] zmiana_bez [of "{}" s2] by simp
  have "zwolnij_blok_danych s b = (True, s3)"
    using bb b s2(1) widok_pola(3) [OF g, of b]
    by (simp add: zwolnij_blok_danych_def id_bloku_danych_poprawne_def pobierz_dane_geo(1) [OF g] s3_def s1_def puste_dane_def [abs_def])
  moreover have "zmiana {} s s3 (v_zajety (v_dane (widok s) b (puste_dane (vi_dane (widok s) b))) b False)"
    using zmiana_nast [OF z2 z3] zmiana_widok [OF z2] by simp
  ultimately show ?thesis by blast
qed

lemma zwolnij_wolny:
  "geometria s \<Longrightarrow> \<not> vi_zajety (widok s) b \<Longrightarrow> zwolnij_blok_danych s b = (False, s)"
  using widok_pola(3) [of s b] by (simp add: zwolnij_blok_danych_def)

lemma sprobuj_widok:
  assumes g: "geometria s" and b: "b < ps_bloki s"
  shows "if vi_zajety (widok s) b then sprobuj_blok s b = (False, s)
    else \<exists>s'. sprobuj_blok s b = (True, s') \<and>
      zmiana {} s s' (v_zajety (v_dane (widok s) b (puste_dane (vi_dane (widok s) b))) b True)"
proof (cases "vi_zajety (widok s) b")
  case True
  then show ?thesis using widok_pola(3) [OF g, of b] by (simp add: sprobuj_blok_def)
next
  case False
  obtain s1 where s1: "ustaw_stan_bloku_danych s b True = (True, s1)" "zmiana {} s s1 (v_zajety (widok s) b True)"
    using zmiana_bitu [OF g b, of True] by blast
  note st = zmiana_stale [OF s1(2)]
  have g1: "geometria s1" and b1: "b < ps_bloki s1" using zmiana_geo [OF s1(2) g] st b by simp_all
  define s2 where "s2 = oznacz_dane_jako_brudne (zmien_blok s1 (nr_danych s1 b) puste_dane) b"
  have z2: "zmiana {} s1 s2 (v_dane (widok s1) b (puste_dane (vi_dane (widok s1) b)))"
    unfolding s2_def by (rule zmiana_danych_brudna [OF g1 b1])
  have w: "v_dane (v_zajety v b True) b x = v_zajety (v_dane v b x) b True" for v x by (simp add: v_dane_def v_zajety_def)
  have z12: "zmiana {} s s2 (v_zajety (v_dane (widok s) b (puste_dane (vi_dane (widok s) b))) b True)"
    using zmiana_nast [OF s1(2) z2] zmiana_widok [OF s1(2)] by (simp add: w)
  define x where "x = (if b + 1 \<ge> ps_bloki s2 then 0 else b + 1)"
  have "sprobuj_blok s b = (True, s2\<lparr>ps_ostatni := x\<rparr>)"
    using False s1(1) b1 widok_pola(3) [OF g, of b]
    by (simp add: sprobuj_blok_def pobierz_dane_geo(1) [OF g1] s2_def x_def puste_dane_def [abs_def] Let_def)
  moreover have "zmiana {} s (s2\<lparr>ps_ostatni := x\<rparr>) (v_zajety (v_dane (widok s) b (puste_dane (vi_dane (widok s) b))) b True)"
    using zmiana_nast [OF z12 zmiana_oznacz(4) [of s2 x]] zmiana_widok [OF z12] by simp
  ultimately show ?thesis using False by auto
qed

lemma szukaj_bloku_widok:
  assumes g: "geometria s"
  shows "(\<forall>i \<in> set is. i < ps_bloki s) \<Longrightarrow>
    (\<forall>i \<in> set is. vi_zajety (widok s) i) \<and> szukaj_bloku s is = (BARK_BLOKU, s) \<or>
    (\<exists>b s'. szukaj_bloku s is = (b, s') \<and> b \<in> set is \<and> \<not> vi_zajety (widok s) b \<and>
       zmiana {} s s' (v_zajety (v_dane (widok s) b (puste_dane (vi_dane (widok s) b))) b True))"
proof (induction "is")
  case (Cons i "is")
  note sp = sprobuj_widok [OF g, of i]
  show ?case
  proof (cases "vi_zajety (widok s) i")
    case True
    then have e: "szukaj_bloku s (i # is) = szukaj_bloku s is" using sp Cons.prems by simp
    have ih: "(\<forall>i \<in> set is. vi_zajety (widok s) i) \<and> szukaj_bloku s is = (BARK_BLOKU, s) \<or>
      (\<exists>b s'. szukaj_bloku s is = (b, s') \<and> b \<in> set is \<and> \<not> vi_zajety (widok s) b \<and>
       zmiana {} s s' (v_zajety (v_dane (widok s) b (puste_dane (vi_dane (widok s) b))) b True))"
      using Cons.IH Cons.prems by simp
    then show ?thesis unfolding e using True by (elim disjE) (simp, meson list.set_intros(2))
  next
    case False
    then obtain s' where "sprobuj_blok s i = (True, s')"
      "zmiana {} s s' (v_zajety (v_dane (widok s) i (puste_dane (vi_dane (widok s) i))) i True)"
      using sp Cons.prems by auto
    then show ?thesis using False by auto
  qed
qed simp

lemma zakres_id_zbior: "set (zakres_id od gorna) = {b. od \<le> b \<and> b < gorna}"
proof -
  have "b \<in> of_nat ` {unat od ..< unat gorna} \<longleftrightarrow> od \<le> b \<and> b < gorna" for b
  proof
    assume "b \<in> of_nat ` {unat od ..< unat gorna}"
    then obtain n where n: "b = of_nat n" "unat od \<le> n" "n < unat gorna" by auto
    have "n < 18446744073709551616" using n(3) unat_u64_less [of gorna] by linarith
    then have "unat b = n" unfolding n(1) by (rule unat_of_nat_u64)
    then show "od \<le> b \<and> b < gorna" using n by (simp add: word_le_nat_alt word_less_nat_alt)
  next
    assume "od \<le> b \<and> b < gorna"
    then show "b \<in> of_nat ` {unat od ..< unat gorna}"
      by (intro image_eqI [of _ _ "unat b"]) (simp_all add: word_le_nat_alt word_less_nat_alt)
  qed
  then show ?thesis by (auto simp: zakres_id_def)
qed

lemma zaalokuj_blok_widok:
  assumes g: "geometria s"
  shows "(\<forall>b < ps_bloki s. vi_zajety (widok s) b) \<and> zaalokuj_wolny_blok_danych s = (BARK_BLOKU, s) \<or>
    (\<exists>b s'. zaalokuj_wolny_blok_danych s = (b, s') \<and> b < ps_bloki s \<and> \<not> vi_zajety (widok s) b \<and>
      zmiana {} s s' (v_zajety (v_dane (widok s) b (puste_dane (vi_dane (widok s) b))) b True))"
proof -
  define start where "start = (if ps_ostatni s \<ge> ps_bloki s then 0 else ps_ostatni s)"
  define ids where "ids = zakres_id start (ps_bloki s) @ zakres_id 0 start"
  have sb0: "ps_superblok s" using g by (simp add: geometria_def)
  have b0: "ps_bloki s \<noteq> 0"
  proof
    assume "ps_bloki s = 0"
    then have "unat (ps_bloki s) = 0" by simp
    then show False using geometria_liczby [OF g] by linarith
  qed
  have "start \<le> ps_bloki s" by (cases "ps_bloki s \<le> ps_ostatni s") (simp_all add: start_def not_le less_imp_le)
  then have ids: "b \<in> set ids \<longleftrightarrow> b < ps_bloki s" for b
    by (auto simp: ids_def zakres_id_zbior not_less intro: order.strict_trans2)
  have "zaalokuj_wolny_blok_danych s = szukaj_bloku s ids"
    using sb0 b0 by (simp add: zaalokuj_wolny_blok_danych_def ids_def start_def Let_def)
  moreover have "\<forall>i \<in> set ids. i < ps_bloki s" using ids by simp
  moreover note szukaj_bloku_widok [OF g this]
  moreover have "(\<forall>i \<in> set ids. vi_zajety (widok s) i) \<longleftrightarrow> (\<forall>b < ps_bloki s. vi_zajety (widok s) b)"
    using ids by blast
  ultimately show ?thesis by (simp only: ids)
qed

lemma blok_nie_brak: "geometria s \<Longrightarrow> b < ps_bloki s \<Longrightarrow> b \<noteq> BARK_BLOKU"
  using geometria_liczby(4,7) [of s] by (auto simp: word_less_nat_alt BARK_BLOKU_def)

subsection \<open>Nodes\<close>

lemma wezel_dysku [simp]: "geometria s \<Longrightarrow> wezel_na_dysku s i \<Longrightarrow> wezel s (nr_wezla s i) = vi_wezel (widok s) i"
  by (rule widok_pola)

lemma wezel_z_ram: "geometria s \<Longrightarrow> wezel_na_dysku s i \<Longrightarrow> wezel_z (ps_ram s (nr_wezla s i)) = vi_wezel (widok s) i"
  using widok_pola(1) [of s i] by (simp add: wezel_def)

definition z_wskaznikiem :: "wezel_indeksowy \<Rightarrow> nat \<Rightarrow> u64 \<Rightarrow> wezel_indeksowy" where
  "z_wskaznikiem w k x = w\<lparr>w_wskazniki := (w_wskazniki w)(k := x)\<rparr>"

lemma z_wskaznikiem_pola [simp]:
  "w_typ (z_wskaznikiem w k x) = w_typ w" "w_rozmiar (z_wskaznikiem w k x) = w_rozmiar w"
  "w_wskazniki (z_wskaznikiem w k x) = (w_wskazniki w)(k := x)" "w_posredni_1 (z_wskaznikiem w k x) = w_posredni_1 w"
  "w_posredni_2 (z_wskaznikiem w k x) = w_posredni_2 w" "w_posredni_3 (z_wskaznikiem w k x) = w_posredni_3 w"
  by (simp_all add: z_wskaznikiem_def)

lemma zmiana_wskaznika:
  "geometria s \<Longrightarrow> wezel_na_dysku s i \<Longrightarrow> k < 490 \<Longrightarrow>
     zmiana {nr_wezla s i} s (ustaw_wskaznik s (nr_wezla s i) k x) (v_wezel (widok s) i (z_wskaznikiem (vi_wezel (widok s) i) k x))"
  using zmiana_wezla [of s i "\<lambda>b. zapisz64 b (0x019 + 8 * k) x"]
  by (simp add: ustaw_wskaznik_def wezel_z_ram z_wskaznikiem_def)

lemma zmiana_rozmiaru:
  "geometria s \<Longrightarrow> wezel_na_dysku s i \<Longrightarrow>
     zmiana {nr_wezla s i} s (ustaw_rozmiar s (nr_wezla s i) x) (v_wezel (widok s) i ((vi_wezel (widok s) i)\<lparr>w_rozmiar := x\<rparr>))"
  using zmiana_wezla [of s i "\<lambda>b. zapisz64 b 0x001 x"] by (simp add: ustaw_rozmiar_def wezel_z_ram)

text \<open>The node's mark makes its changes clean.\<close>

lemma zmiana_oznaczona:
  assumes z: "zmiana {nr_wezla s i} s s1 v" and g: "geometria s" and i: "wezel_na_dysku s i"
  shows "zmiana {} s (oznacz_wezel_jako_brudny s1 i) v"
proof -
  note st = zmiana_stale [OF z]
  have "zmiana {nr_wezla s i} s (oznacz_wezel_jako_brudny s1 i) v"
    using zmiana_nast [OF z zmiana_oznacz(2) [of s1 i]] zmiana_widok [OF z] by simp
  moreover have "brudny (oznacz_wezel_jako_brudny s1 i) (nr_wezla s i)"
    using oznacz_wezel_brudny [OF zmiana_geo [OF z g], of i] st i by simp
  ultimately show ?thesis by (auto intro: zmiana_czysta)
qed

lemma zwolnij_wezel_widok:
  assumes g: "geometria s"
  shows "if wezel_na_dysku s i \<and> w_typ (vi_wezel (widok s) i) \<noteq> TYP_WOLNY
    then \<exists>s'. zwolnij_wezel s i = (True, s') \<and> zmiana {} s s' (v_wezel (widok s) i (wezel_pusty TYP_WOLNY))
    else zwolnij_wezel s i = (False, s)"
proof (cases "wezel_na_dysku s i \<and> w_typ (vi_wezel (widok s) i) \<noteq> TYP_WOLNY")
  case True
  have "zmiana {nr_wezla s i} s (zmien_blok s (nr_wezla s i) (\<lambda>b. wyzeruj_wezel b TYP_WOLNY)) (v_wezel (widok s) i (wezel_pusty TYP_WOLNY))"
    using zmiana_wezla [OF g, of i "\<lambda>b. wyzeruj_wezel b TYP_WOLNY"] True by simp
  from zmiana_oznaczona [OF this g] True show ?thesis by (simp add: zwolnij_wezel_def pobierz_wezel_geo [OF g] g)
qed (auto simp: zwolnij_wezel_def pobierz_wezel_geo [OF g] g)

lemma szukaj_wezla_wynik:
  assumes g: "geometria s"
  shows "szukaj_wezla s is = Some (i, nr) \<Longrightarrow> i \<in> set is \<and> wezel_na_dysku s i \<and> nr = nr_wezla s i \<and> w_typ (vi_wezel (widok s) i) = TYP_WOLNY"
    "szukaj_wezla s is = None \<Longrightarrow> i \<in> set is \<Longrightarrow> wezel_na_dysku s i \<Longrightarrow> w_typ (vi_wezel (widok s) i) \<noteq> TYP_WOLNY"
  by (induction "is") (auto simp: pobierz_wezel_geo [OF g] g split: if_splits option.splits)

lemma id_wezlow_zbior: "geometria s \<Longrightarrow> set (id_wezlow s) = {i. wezel_na_dysku s i}"
proof -
  assume g: "geometria s"
  have "unat (ps_wezly s) < 18446744073709551615" using geometria_liczby [OF g] by linarith
  then have "unat (ps_wezly s + 1) = unat (ps_wezly s) + 1" by (subst unat_add_u64) simp_all
  then have "id_wezlow s = zakres_id 1 (ps_wezly s + 1)" by (simp add: id_wezlow_def zakres_id_def)
  moreover have "i < ps_wezly s + 1 \<longleftrightarrow> i \<le> ps_wezly s" for i
    using \<open>unat (ps_wezly s + 1) = unat (ps_wezly s) + 1\<close> by (simp add: word_less_nat_alt word_le_nat_alt less_Suc_eq_le)
  moreover have "1 \<le> i \<longleftrightarrow> i \<noteq> 0" for i :: u64 by (metis word_gt_0 word_less_1 not_le)
  ultimately show ?thesis by (auto simp: zakres_id_zbior wezel_na_dysku_def)
qed

lemma zaalokuj_wezel_widok:
  assumes g: "geometria s"
  shows "(\<forall>i. wezel_na_dysku s i \<longrightarrow> w_typ (vi_wezel (widok s) i) \<noteq> TYP_WOLNY) \<and> zaalokuj_wolny_wezel s typ = (0, s) \<or>
    (\<exists>i s'. zaalokuj_wolny_wezel s typ = (i, s') \<and> wezel_na_dysku s i \<and> w_typ (vi_wezel (widok s) i) = TYP_WOLNY \<and>
      zmiana {} s s' (v_wezel (widok s) i (wezel_pusty typ)))"
proof (cases "szukaj_wezla s (id_wezlow s)")
  case None
  then have "\<forall>i. wezel_na_dysku s i \<longrightarrow> w_typ (vi_wezel (widok s) i) \<noteq> TYP_WOLNY"
    using szukaj_wezla_wynik(2) [OF g, of "id_wezlow s"] id_wezlow_zbior [OF g] by auto
  then show ?thesis using None by (simp add: zaalokuj_wolny_wezel_def)
next
  case (Some r)
  then obtain i nr where "szukaj_wezla s (id_wezlow s) = Some (i, nr)" by (cases r) auto
  then have i: "szukaj_wezla s (id_wezlow s) = Some (i, nr_wezla s i)" "wezel_na_dysku s i" "w_typ (vi_wezel (widok s) i) = TYP_WOLNY"
    using szukaj_wezla_wynik(1) [OF g, of "id_wezlow s" i nr] by auto
  have "zmiana {nr_wezla s i} s (zmien_blok s (nr_wezla s i) (\<lambda>b. wyzeruj_wezel b typ)) (v_wezel (widok s) i (wezel_pusty typ))"
    using zmiana_wezla [OF g i(2), of "\<lambda>b. wyzeruj_wezel b typ"] by simp
  from zmiana_oznaczona [OF this g i(2)] show ?thesis using i by (auto simp: zaalokuj_wolny_wezel_def)
qed

end
