(* ===== verification/Psf_Spojnosc.thy ===== *)
theory Psf_Spojnosc
  imports Psf_Zmiany
begin

section \<open>BSP2: the file system a disk holds\<close>

text \<open>
  The abstract file system: a type for each node, a finite map from names to nodes for each directory,
  a list of bytes for each file. \<open>spojny\<close> is the invariant under which the view stands for one: used
  blocks have exactly one owner, directories hold valid and distinct names of nodes that exist, files
  own the blocks of their size.
\<close>

subsection \<open>Directories and files of a view\<close>

definition zywe_wpisy :: "blok \<Rightarrow> nat list" where
  "zywe_wpisy b = filter (\<lambda>j. wp_id (wpis_z b j) \<noteq> 0) [0 ..< 64]"

definition napis_wpisu :: "blok \<Rightarrow> nat \<Rightarrow> u8 list \<times> u64" where
  "napis_wpisu b j = (znaki_nazwy (wp_nazwa (wpis_z b j)), wp_id (wpis_z b j))"

definition lista_bloku :: "blok \<Rightarrow> (u8 list \<times> u64) list" where
  "lista_bloku b = map (napis_wpisu b) (zywe_wpisy b)"

definition lista_pod :: "(u64 \<Rightarrow> blok) \<Rightarrow> wezel_indeksowy \<Rightarrow> nat \<Rightarrow> (u8 list \<times> u64) list" where
  "lista_pod dane w k = (if w_wskazniki w k = BARK_BLOKU then [] else lista_bloku (dane (w_wskazniki w k)))"

definition wpisy :: "widok \<Rightarrow> u64 \<Rightarrow> (u8 list \<times> u64) list" where
  "wpisy v d = concat (map (lista_pod (vi_dane v) (vi_wezel v d)) [0 ..< 490])"

definition typ_wezla :: "widok \<Rightarrow> u64 \<Rightarrow> u8" where
  "typ_wezla v i = w_typ (vi_wezel v i)"

record system_plikow =
  sp_typ :: "u64 \<Rightarrow> u8"
  sp_kat :: "u64 \<Rightarrow> u8 list \<rightharpoonup> u64"
  sp_tresc :: "u64 \<Rightarrow> u8 list"

definition tresc_wezla :: "(u64 \<Rightarrow> blok) \<Rightarrow> wezel_indeksowy \<Rightarrow> u8 list" where
  "tresc_wezla dane w = map (\<lambda>x. dane (w_wskazniki w (x div 4096)) (x mod 4096)) [0 ..< unat (w_rozmiar w)]"

definition system :: "widok \<Rightarrow> system_plikow" where
  "system v = \<lparr>sp_typ = typ_wezla v,
     sp_kat = (\<lambda>d. if typ_wezla v d = TYP_KATALOG then map_of (wpisy v d) else Map.empty),
     sp_tresc = (\<lambda>i. if typ_wezla v i = TYP_PLIK then tresc_wezla (vi_dane v) (vi_wezel v i) else [])\<rparr>"

subsection \<open>The invariant\<close>

definition zajmuje :: "widok \<Rightarrow> u64 \<Rightarrow> nat \<Rightarrow> u64 \<Rightarrow> bool" where
  "zajmuje v i k b \<longleftrightarrow> typ_wezla v i \<noteq> TYP_WOLNY \<and> k < 490 \<and> w_wskazniki (vi_wezel v i) k = b \<and> b \<noteq> BARK_BLOKU"

definition wezly_ok :: "widok \<Rightarrow> bool" where
  "wezly_ok v \<longleftrightarrow> (\<forall>i. typ_wezla v i \<in> {TYP_WOLNY, TYP_PLIK, TYP_KATALOG} \<and>
     (typ_wezla v i \<noteq> TYP_WOLNY \<longrightarrow> w_posredni_1 (vi_wezel v i) = BARK_BLOKU \<and> w_posredni_2 (vi_wezel v i) = BARK_BLOKU \<and>
        w_posredni_3 (vi_wezel v i) = BARK_BLOKU))"

definition bloki_ok :: "widok \<Rightarrow> bool" where
  "bloki_ok v \<longleftrightarrow> (\<forall>b. vi_zajety v b \<longleftrightarrow> (\<exists>i k. zajmuje v i k b)) \<and>
     (\<forall>b i k i' k'. zajmuje v i k b \<longrightarrow> zajmuje v i' k' b \<longrightarrow> i = i' \<and> k = k')"

definition plik_ok :: "wezel_indeksowy \<Rightarrow> bool" where
  "plik_ok w \<longleftrightarrow> unat (w_rozmiar w) \<le> 490 * 4096 \<and> (\<forall>k. k * 4096 < unat (w_rozmiar w) \<longrightarrow> w_wskazniki w k \<noteq> BARK_BLOKU)"

definition nazwa_ok :: "u8 list \<Rightarrow> bool" where
  "nazwa_ok n \<longleftrightarrow> n \<noteq> [] \<and> length n < 56 \<and> n \<noteq> [0x2E] \<and> n \<noteq> [0x2E, 0x2E] \<and>
     (\<forall>z \<in> set n. z \<noteq> 0x2F \<and> z \<noteq> 0x5C \<and> \<not> z < 0x20)"

definition katalog_ok :: "widok \<Rightarrow> u64 \<Rightarrow> bool" where
  "katalog_ok v d \<longleftrightarrow> length (wpisy v d) = unat (w_rozmiar (vi_wezel v d)) \<and> distinct (map fst (wpisy v d)) \<and>
     (\<forall>(n, c) \<in> set (wpisy v d). nazwa_ok n \<and> c \<noteq> d \<and> typ_wezla v c \<noteq> TYP_WOLNY)"

definition pliki_ok :: "widok \<Rightarrow> bool" where
  "pliki_ok v \<longleftrightarrow> (\<forall>i. typ_wezla v i = TYP_PLIK \<longrightarrow> plik_ok (vi_wezel v i))"

definition katalogi_ok :: "widok \<Rightarrow> bool" where
  "katalogi_ok v \<longleftrightarrow> (\<forall>d. typ_wezla v d = TYP_KATALOG \<longrightarrow> katalog_ok v d)"

definition spojny :: "widok \<Rightarrow> bool" where
  "spojny v \<longleftrightarrow> wezly_ok v \<and> bloki_ok v \<and> katalogi_ok v"

subsection \<open>Names\<close>

lemma znaki_dlugosc: "length (znaki_nazwy t) \<le> 56"
  using length_takeWhile_le [of "\<lambda>z. z \<noteq> 0" "map t [0 ..< 56]"] by (simp add: znaki_nazwy_def)

lemma znaki_nth: "i < length (znaki_nazwy t) \<Longrightarrow> znaki_nazwy t ! i = t i \<and> t i \<noteq> 0"
proof -
  assume i: "i < length (znaki_nazwy t)"
  then have "znaki_nazwy t ! i = map t [0 ..< 56] ! i" by (simp add: znaki_nazwy_def takeWhile_nth)
  moreover have "znaki_nazwy t ! i \<in> set (znaki_nazwy t)" using i by simp
  moreover have "i < 56" using i znaki_dlugosc [of t] by linarith
  moreover have "\<forall>z \<in> set (znaki_nazwy t). z \<noteq> 0" unfolding znaki_nazwy_def using set_takeWhileD by fastforce
  ultimately show ?thesis by (metis add_0 diff_zero length_upt nth_map nth_upt)
qed

lemma znaki_koniec: "length (znaki_nazwy t) < 56 \<Longrightarrow> t (length (znaki_nazwy t)) = 0"
  using nth_length_takeWhile [of "\<lambda>z. z \<noteq> 0" "map t [0 ..< 56]"] by (simp add: znaki_nazwy_def)

lemma znakiI:
  assumes "\<And>i. i < length zs \<Longrightarrow> t i = zs ! i \<and> zs ! i \<noteq> 0" "length zs < 56 \<Longrightarrow> t (length zs) = 0" "length zs \<le> 56"
  shows "znaki_nazwy t = zs"
proof (rule nth_equalityI)
  have "length (znaki_nazwy t) \<le> length zs"
  proof (rule ccontr)
    assume "\<not> length (znaki_nazwy t) \<le> length zs"
    then have "t (length zs) \<noteq> 0" "length zs < 56" using znaki_nth [of "length zs" t] znaki_dlugosc [of t] by auto
    then show False using assms(2) by simp
  qed
  moreover have "length zs \<le> length (znaki_nazwy t)"
  proof (rule ccontr)
    assume "\<not> length zs \<le> length (znaki_nazwy t)"
    then have "t (length (znaki_nazwy t)) = 0" "t (length (znaki_nazwy t)) \<noteq> 0"
      using znaki_koniec [of t] assms(1) [of "length (znaki_nazwy t)"] assms(3) by auto
    then show False by simp
  qed
  ultimately show "length (znaki_nazwy t) = length zs" by simp
  then show "znaki_nazwy t ! i = zs ! i" if "i < length (znaki_nazwy t)" for i
    using that znaki_nth [of i t] assms(1) [of i] by simp
qed

lemma znaki_zgodne: "(\<And>i. i < 56 \<Longrightarrow> t i = u i) \<Longrightarrow> znaki_nazwy t = znaki_nazwy u"
  unfolding znaki_nazwy_def by (metis (mono_tags, lifting) atLeastLessThan_iff map_eq_conv set_upt)

lemma znaki_pola [simp]: "znaki_nazwy (\<lambda>i. if i < 56 then t i else 0) = znaki_nazwy t"
  by (rule znaki_zgodne) simp

lemma zakonczony_znaki:
  "zakonczony_string_w_limicie t 56 = (if length (znaki_nazwy t) < 56 then Some (length (znaki_nazwy t)) else None)"
proof (cases "length (znaki_nazwy t) < 56")
  case True
  have "find (\<lambda>i. t i = 0) [0 ..< 56] = Some (length (znaki_nazwy t))"
    unfolding find_Some_iff using True znaki_koniec [OF True] znaki_nth [of _ t]
    by (intro exI [of _ "length (znaki_nazwy t)"]) simp
  then show ?thesis using True by (simp add: zakonczony_string_w_limicie_def)
next
  case False
  then have "t i \<noteq> 0" if "i < 56" for i using znaki_nth [of i t] that by simp
  then show ?thesis using False by (simp add: zakonczony_string_w_limicie_def find_None_iff)
qed

lemma poprawna_nazwa_znaki: "poprawna_nazwa t \<longleftrightarrow> nazwa_ok (znaki_nazwy t)"
proof -
  let ?n = "znaki_nazwy t"
  have l1: "?n = [a] \<longleftrightarrow> length ?n = 1 \<and> t 0 = a" if "a \<noteq> 0" for a
    using znaki_nth [of 0 t] by (auto simp: length_Suc_conv)
  have l2: "?n = [a, b] \<longleftrightarrow> length ?n = 2 \<and> t 0 = a \<and> t 1 = b" if "a \<noteq> 0" "b \<noteq> 0" for a b
    using znaki_nth [of 0 t] znaki_nth [of 1 t] by (auto simp: length_Suc_conv numeral_2_eq_2)
  have s: "(\<forall>z \<in> set ?n. P z) \<longleftrightarrow> list_all (\<lambda>i. P (t i)) [0 ..< length ?n]" for P
    unfolding list_all_iff all_set_conv_all_nth using znaki_nth [of _ t] by auto
  show ?thesis
    using znaki_dlugosc [of t] l1 [of "0x2E"] l2 [of "0x2E" "0x2E"]
    unfolding poprawna_nazwa_def nazwa_ok_def s zakonczony_znaki
    by (auto simp: list_all_iff)
qed

lemma nazwy_rowne_od_znaki:
  "(\<And>j. j < i \<Longrightarrow> a j = b j \<and> a j \<noteq> 0) \<Longrightarrow> i + n = 56 \<Longrightarrow>
     nazwy_rowne_od n a b i \<longleftrightarrow> znaki_nazwy a = znaki_nazwy b \<and> length (znaki_nazwy a) < 56"
proof (induction n arbitrary: i)
  case 0
  then have "a j \<noteq> 0" if "j < 56" for j using 0(1) [of j] that by auto
  then have "znaki_nazwy a = map a [0 ..< 56]" by (intro znakiI) simp_all
  then show ?case by simp
next
  case (Suc n)
  note p = znaki_nth [of i a] znaki_nth [of i b]
  have k: "length (znaki_nazwy t) < 56 \<and> \<not> i < length (znaki_nazwy t) \<Longrightarrow> i = length (znaki_nazwy t)"
    if "\<And>j. j < i \<Longrightarrow> t j \<noteq> 0" for t
    using that [of "length (znaki_nazwy t)"] znaki_koniec [of t] by (cases "length (znaki_nazwy t)" i rule: linorder_cases) auto
  consider "a i \<noteq> b i" | "a i = b i" "a i = 0" | "a i = b i" "a i \<noteq> 0" by blast
  then show ?case
  proof cases
    case 1
    then have "znaki_nazwy a \<noteq> znaki_nazwy b \<or> \<not> length (znaki_nazwy a) < 56"
      using p k [of a] znaki_koniec [of a] znaki_koniec [of b] Suc.prems by metis
    then show ?thesis using 1 by auto
  next
    case 2
    have z: "a j \<noteq> 0 \<and> b j = a j" if "j < i" for j using Suc.prems(1) [OF that] by auto
    have "b i = 0" using 2 by simp
    then have "znaki_nazwy a = map a [0 ..< i]" "znaki_nazwy b = map a [0 ..< i]"
      using z 2 Suc.prems(2) by (auto intro!: znakiI)
    then show ?thesis using 2 Suc.prems(2) by simp
  next
    case 3
    then show ?thesis using Suc.IH [of "i + 1"] Suc.prems by (simp add: less_Suc_eq) (metis less_Suc_eq)
  qed
qed

lemma nazwy_rowne_znaki: "nazwy_rowne a b \<longleftrightarrow> znaki_nazwy a = znaki_nazwy b \<and> length (znaki_nazwy a) < 56"
  using nazwy_rowne_od_znaki [of 0 a b 56] by (simp add: nazwy_rowne_def)

lemma kopiuj_nazwe_znaki:
  "kopiuj_nazwe cel zrodlo = None \<longleftrightarrow> \<not> nazwa_ok (znaki_nazwy zrodlo)"
  "kopiuj_nazwe cel zrodlo = Some n \<Longrightarrow> znaki_nazwy n = znaki_nazwy zrodlo"
proof -
  show "kopiuj_nazwe cel zrodlo = None \<longleftrightarrow> \<not> nazwa_ok (znaki_nazwy zrodlo)"
    by (simp add: kopiuj_nazwe_def poprawna_nazwa_znaki Let_def)
next
  assume c: "kopiuj_nazwe cel zrodlo = Some n"
  then have ok: "nazwa_ok (znaki_nazwy zrodlo)" by (simp add: kopiuj_nazwe_def poprawna_nazwa_znaki Let_def split: if_splits)
  then have l: "length (znaki_nazwy zrodlo) < 56" by (simp add: nazwa_ok_def)
  define i where "i = length (takeWhile (\<lambda>i. zrodlo i \<noteq> 0) [0 ..< 55])"
  have "i = length (znaki_nazwy zrodlo)"
  proof -
    have "takeWhile (\<lambda>i. zrodlo i \<noteq> 0) [0 ..< 55] = take (length (znaki_nazwy zrodlo)) [0 ..< 55]"
      by (rule takeWhile_eq_take_P_nth) (use znaki_nth [of _ zrodlo] znaki_koniec [OF l] in simp_all)
    then show ?thesis using l by (simp add: i_def)
  qed
  moreover have "n = (\<lambda>k. if k < i then zrodlo k else cel k)(i := 0)"
    using c by (simp add: kopiuj_nazwe_def poprawna_nazwa_znaki ok Let_def i_def)
  ultimately show "znaki_nazwy n = znaki_nazwy zrodlo"
    using znaki_nth [of _ zrodlo] l by (intro znakiI) auto
qed

subsection \<open>Lookup\<close>

lemma dla_indeksow [simp]: "indeksy_wpisow = [0 ..< 64]" "indeksy_wskaznikow = [0 ..< 490]"
  by (simp_all add: indeksy_wpisow_def indeksy_wskaznikow_def)

lemma map_of_mapa: "map_of (map (\<lambda>j. (f j, g j)) js) n = map_option g (find (\<lambda>j. f j = n) js)"
  by (induction js) auto

lemma find_filter: "find P (filter Q xs) = find (\<lambda>x. Q x \<and> P x) xs"
  by (induction xs) auto

lemma szukaj_w_bloku:
  assumes "nazwa_ok n"
  shows "map_of (lista_bloku b) n =
    map_option (\<lambda>j. wp_id (wpis_z b j)) (find (\<lambda>j. wp_id (wpis_z b j) \<noteq> 0 \<and> znaki_nazwy (wp_nazwa (wpis_z b j)) = n) [0 ..< 64])"
  by (simp add: lista_bloku_def napis_wpisu_def [abs_def] zywe_wpisy_def map_of_mapa find_filter)

text \<open>Pointers of live nodes name blocks of the disk.\<close>

definition wskazniki_ok :: "psf \<Rightarrow> u64 \<Rightarrow> bool" where
  "wskazniki_ok s i \<longleftrightarrow> (\<forall>k. w_wskazniki (vi_wezel (widok s) i) k \<noteq> BARK_BLOKU \<longrightarrow> w_wskazniki (vi_wezel (widok s) i) k < ps_bloki s)"

lemma bez_wskaznikow_widok: "490 \<le> k \<Longrightarrow> w_wskazniki (vi_wezel (widok s) i) k = BARK_BLOKU"
  by (simp add: widok_def wezel_def wezel_pusty_def)

lemma wskazniki_w_zakresie:
  assumes g: "geometria s" and b: "bloki_ok (widok s)" and i: "typ_wezla (widok s) i \<noteq> TYP_WOLNY"
  shows "wskazniki_ok s i"
  unfolding wskazniki_ok_def
proof (intro allI impI)
  fix k assume k: "w_wskazniki (vi_wezel (widok s) i) k \<noteq> BARK_BLOKU"
  then have "k < 490" using bez_wskaznikow_widok [of k s i] by (meson not_le)
  then have "zajmuje (widok s) i k (w_wskazniki (vi_wezel (widok s) i) k)" using i k by (simp add: zajmuje_def)
  then have "vi_zajety (widok s) (w_wskazniki (vi_wezel (widok s) i) k)" using b by (auto simp: bloki_ok_def)
  then show "w_wskazniki (vi_wezel (widok s) i) k < ps_bloki s" by (rule widok_pola(4) [OF g])
qed

lemma wolny_poza_dyskiem: "typ_wezla (widok s) i \<noteq> TYP_WOLNY \<Longrightarrow> wezel_na_dysku s i"
  by (rule ccontr) (simp add: typ_wezla_def widok_def wezel_pusty_def)

lemma wpis_danych: "geometria s \<Longrightarrow> b < ps_bloki s \<Longrightarrow> wpis s (nr_danych s b) j = wpis_z (vi_dane (widok s) b) j"
  by (simp add: wpis_def widok_pola(2))

lemma znajdz_w_blokach_widok:
  assumes g: "geometria s" and n: "nazwa_ok (znaki_nazwy t)"
    and w: "\<And>k. w_wskazniki w k \<noteq> BARK_BLOKU \<Longrightarrow> w_wskazniki w k < ps_bloki s"
  shows "case map_of (concat (map (lista_pod (vi_dane (widok s)) w) ks)) (znaki_nazwy t) of
      None \<Rightarrow> znajdz_w_blokach s w t ks = brak_wpisu
    | Some c \<Rightarrow> \<exists>k j. k \<in> set ks \<and> w_wskazniki w k \<noteq> BARK_BLOKU \<and> j < 64 \<and> c \<noteq> 0 \<and>
        napis_wpisu (vi_dane (widok s) (w_wskazniki w k)) j = (znaki_nazwy t, c) \<and>
        znajdz_w_blokach s w t ks = \<lparr>zw_znaleziony = True, zw_id_wezla = c, zw_id_bloku = w_wskazniki w k, zw_indeks = j\<rparr>"
proof (induction ks)
  case (Cons k ks)
  let ?b = "w_wskazniki w k" and ?n = "znaki_nazwy t"
  have l: "length ?n < 56" using n by (simp add: nazwa_ok_def)
  show ?case
  proof (cases "?b = BARK_BLOKU")
    case True
    then show ?thesis using Cons.IH by (auto simp: lista_pod_def split: option.splits)
  next
    case False
    let ?d = "vi_dane (widok s) ?b"
    define r where "r = find (\<lambda>j. wp_id (wpis_z ?d j) \<noteq> 0 \<and> znaki_nazwy (wp_nazwa (wpis_z ?d j)) = ?n) [0 ..< 64]"
    have "find (\<lambda>j. wp_id (wpis s (nr_danych s ?b) j) \<noteq> 0 \<and> nazwy_rowne (wp_nazwa (wpis s (nr_danych s ?b) j)) t) indeksy_wpisow = r"
      unfolding r_def using l by (simp add: wpis_danych [OF g w [OF False]] nazwy_rowne_znaki cong: conj_cong)
    then have z: "znajdz_w_blokach s w t (k # ks) = (case r of
        Some j \<Rightarrow> \<lparr>zw_znaleziony = True, zw_id_wezla = wp_id (wpis_z ?d j), zw_id_bloku = ?b, zw_indeks = j\<rparr>
      | None \<Rightarrow> znajdz_w_blokach s w t ks)"
      using False w [OF False] by (simp add: pobierz_wpisy_geo [OF g] id_bloku_danych_poprawne_def wpis_danych [OF g] Let_def split: option.splits)
    have m: "map_of (concat (map (lista_pod (vi_dane (widok s)) w) (k # ks))) ?n =
        (case r of Some j \<Rightarrow> Some (wp_id (wpis_z ?d j)) | None \<Rightarrow> map_of (concat (map (lista_pod (vi_dane (widok s)) w) ks)) ?n)"
      using False szukaj_w_bloku [OF n, of ?d] by (simp add: lista_pod_def map_add_def r_def split: option.splits)
    show ?thesis
    proof (cases r)
      case None
      then show ?thesis unfolding z m using Cons.IH by (auto split: option.splits)
    next
      case (Some j)
      then have "j < 64" "wp_id (wpis_z ?d j) \<noteq> 0" "znaki_nazwy (wp_nazwa (wpis_z ?d j)) = ?n"
        unfolding r_def find_Some_iff by auto
      then show ?thesis unfolding z m using Some False
        by (simp add: napis_wpisu_def) (intro exI [of _ k] exI [of _ j], simp)
    qed
  qed
qed simp

definition wynik_szukania :: "widok \<Rightarrow> u64 \<Rightarrow> u8 list \<Rightarrow> ZnalezionyWpis \<Rightarrow> bool" where
  "wynik_szukania v d n z \<longleftrightarrow> (case sp_kat (system v) d n of
      None \<Rightarrow> z = brak_wpisu
    | Some c \<Rightarrow> \<exists>k j. k < 490 \<and> w_wskazniki (vi_wezel v d) k \<noteq> BARK_BLOKU \<and> j < 64 \<and> c \<noteq> 0 \<and>
        napis_wpisu (vi_dane v (w_wskazniki (vi_wezel v d) k)) j = (n, c) \<and>
        z = \<lparr>zw_znaleziony = True, zw_id_wezla = c, zw_id_bloku = w_wskazniki (vi_wezel v d) k, zw_indeks = j\<rparr>)"

lemma wpisy_nazwy_ok:
  assumes "spojny v" "sp_kat (system v) d n = Some c"
  shows "nazwa_ok n" "typ_wezla v d = TYP_KATALOG" "(n, c) \<in> set (wpisy v d)" "c \<noteq> d" "typ_wezla v c \<noteq> TYP_WOLNY"
proof -
  show d: "typ_wezla v d = TYP_KATALOG" using assms(2) by (simp add: system_def split: if_splits)
  then show m: "(n, c) \<in> set (wpisy v d)" using assms(2) by (simp add: system_def map_of_SomeD)
  have "katalog_ok v d" using assms(1) d by (simp add: spojny_def katalogi_ok_def)
  then show "nazwa_ok n" "c \<noteq> d" "typ_wezla v c \<noteq> TYP_WOLNY" using m by (auto simp: katalog_ok_def)
qed

lemma znajdz_wpis_widok:
  assumes g: "geometria s" and sp: "spojny (widok s)"
  shows "wynik_szukania (widok s) d (znaki_nazwy t) (znajdz_wpis_w_katalogu s d t)"
proof (cases "nazwa_ok (znaki_nazwy t) \<and> typ_wezla (widok s) d = TYP_KATALOG")
  case True
  then have d: "wezel_na_dysku s d" using wolny_poza_dyskiem [of s d] by simp
  have w: "wskazniki_ok s d" using wskazniki_w_zakresie [OF g] sp True by (simp add: spojny_def)
  have "znajdz_wpis_w_katalogu s d t = znajdz_w_blokach s (vi_wezel (widok s) d) t [0 ..< 490]"
    using True d by (simp add: znajdz_wpis_w_katalogu_def poprawna_nazwa_znaki pobierz_wezel_geo [OF g] g typ_wezla_def)
  moreover have "sp_kat (system (widok s)) d = map_of (concat (map (lista_pod (vi_dane (widok s)) (vi_wezel (widok s) d)) [0 ..< 490]))"
    using True by (simp add: system_def wpisy_def)
  ultimately show ?thesis
    using znajdz_w_blokach_widok [OF g, of t "vi_wezel (widok s) d" "[0 ..< 490]"] True w
    unfolding wynik_szukania_def wskazniki_ok_def by (auto split: option.splits)
next
  case False
  then have "sp_kat (system (widok s)) d (znaki_nazwy t) = None"
    using wpisy_nazwy_ok [OF sp, of d "znaki_nazwy t"] by (cases "sp_kat (system (widok s)) d (znaki_nazwy t)") auto
  moreover have "znajdz_wpis_w_katalogu s d t = brak_wpisu"
    using False by (auto simp: znajdz_wpis_w_katalogu_def poprawna_nazwa_znaki pobierz_wezel_geo [OF g] g typ_wezla_def)
  ultimately show ?thesis by (simp add: wynik_szukania_def)
qed

end
