(* ===== verification/Psf_Sciezki.thy ===== *)
theory Psf_Sciezki
  imports Psf_Spojnosc
begin

section \<open>BSP2: walking a path\<close>

text \<open>
  A path is split at its slashes; the walk follows the names through the directories. The code's walk
  on the text gives the same node, and its bound of 512 steps is never what ends it.
\<close>

definition napis_sciezki :: "tekst \<Rightarrow> u8 list" where
  "napis_sciezki p = takeWhile (\<lambda>z. z \<noteq> 0) (map p [0 ..< PSF_MAKS_DLUGOSC_SCIEZKI])"

function segmenty :: "u8 list \<Rightarrow> u8 list list" where
  "segmenty zs = (case dropWhile (\<lambda>z. z \<noteq> 0x2F) zs of [] \<Rightarrow> [zs]
     | _ # reszta \<Rightarrow> takeWhile (\<lambda>z. z \<noteq> 0x2F) zs # segmenty reszta)"
  by pat_completeness auto
termination
  by (relation "measure length") (auto, metis length_dropWhile_le le_imp_less_Suc length_Cons less_le_trans lessI)

declare segmenty.simps [simp del]

definition segmenty_sciezki :: "tekst \<Rightarrow> u8 list list" where
  "segmenty_sciezki p = (case tl (napis_sciezki p) of [] \<Rightarrow> [] | z # zs \<Rightarrow> segmenty (z # zs))"

fun spacer_po :: "(u64 \<Rightarrow> u8 list \<rightharpoonup> u64) \<Rightarrow> u64 \<Rightarrow> u8 list list \<Rightarrow> u64 option" where
  "spacer_po kat i [] = Some i"
| "spacer_po kat i (n # ns) = (case kat i n of None \<Rightarrow> None | Some j \<Rightarrow> spacer_po kat j ns)"

text \<open>The parent directory of a path and whether its last name is one.\<close>

definition rodzic_sciezki :: "system_plikow \<Rightarrow> u64 \<Rightarrow> u8 list list \<Rightarrow> u64 option" where
  "rodzic_sciezki A i ns = (case spacer_po (sp_kat A) i (butlast ns) of None \<Rightarrow> None
     | Some d \<Rightarrow> if sp_typ A d = TYP_KATALOG \<and> nazwa_ok (last ns) then Some d else None)"

lemma rodzic_krok:
  "ns \<noteq> [] \<Longrightarrow> sp_kat A a n = Some c \<Longrightarrow> rodzic_sciezki A a (n # ns) = rodzic_sciezki A c ns"
  by (simp add: rodzic_sciezki_def split: option.split)

subsection \<open>The text\<close>

lemma segmenty_niepuste [simp]: "segmenty zs \<noteq> []"
  by (subst segmenty.simps) (simp split: list.split)

lemma segmenty_przypadki:
  "segmenty zs = (if length (takeWhile (\<lambda>z. z \<noteq> 0x2F) zs) = length zs then [zs]
     else takeWhile (\<lambda>z. z \<noteq> 0x2F) zs # segmenty (drop (Suc (length (takeWhile (\<lambda>z. z \<noteq> 0x2F) zs))) zs))"
proof (cases "dropWhile (\<lambda>z. z \<noteq> 0x2F) zs")
  case Nil
  then have "takeWhile (\<lambda>z. z \<noteq> 0x2F) zs = zs" by (metis append_Nil2 takeWhile_dropWhile_id)
  moreover have "segmenty zs = [zs]" by (subst segmenty.simps) (simp only: Nil list.case)
  ultimately show ?thesis by (metis (no_types, lifting))
next
  case (Cons y ys)
  then have "ys = drop (Suc (length (takeWhile (\<lambda>z. z \<noteq> 0x2F) zs))) zs"
    by (metis drop_Suc dropWhile_eq_drop list.sel(3) tl_drop)
  moreover have "length (takeWhile (\<lambda>z. z \<noteq> 0x2F) zs) \<noteq> length zs"
    using Cons by (metis dropWhile_eq_drop drop_all le_refl list.distinct(1))
  ultimately show ?thesis using Cons by (subst segmenty.simps) simp
qed

lemma napis_znaki:
  assumes "zakonczony_string_w_limicie p 512 \<noteq> None"
  shows "length (napis_sciezki p) < 512" "p (length (napis_sciezki p)) = 0"
    "i < length (napis_sciezki p) \<Longrightarrow> napis_sciezki p ! i = p i \<and> p i \<noteq> 0"
proof -
  obtain n where n: "n < 512" "p n = 0"
    using assms by (auto simp: zakonczony_string_w_limicie_def find_None_iff)
  have "\<not> length (map p [0 ..< 512]) \<le> length (napis_sciezki p)"
  proof
    assume "length (map p [0 ..< 512]) \<le> length (napis_sciezki p)"
    then have "take (length (takeWhile (\<lambda>z. z \<noteq> 0) (map p [0 ..< 512]))) (map p [0 ..< 512]) = map p [0 ..< 512]"
      unfolding napis_sciezki_def by simp
    then have "takeWhile (\<lambda>z. z \<noteq> 0) (map p [0 ..< 512]) = map p [0 ..< 512]"
      by (subst takeWhile_eq_take)
    then have "\<forall>z \<in> set (map p [0 ..< 512]). z \<noteq> 0" by (metis set_takeWhileD)
    then show False using n by auto
  qed
  then show l: "length (napis_sciezki p) < 512" by simp
  then show "p (length (napis_sciezki p)) = 0"
    using nth_length_takeWhile [of "\<lambda>z. z \<noteq> 0" "map p [0 ..< 512]"] by (simp add: napis_sciezki_def)
  assume i: "i < length (napis_sciezki p)"
  then have "napis_sciezki p ! i = map p [0 ..< 512] ! i" by (simp add: napis_sciezki_def takeWhile_nth)
  moreover have "napis_sciezki p ! i \<in> set (napis_sciezki p)" using i by simp
  moreover have "\<forall>z \<in> set (napis_sciezki p). z \<noteq> 0" unfolding napis_sciezki_def using set_takeWhileD by fastforce
  ultimately show "napis_sciezki p ! i = p i \<and> p i \<noteq> 0" using i l by auto
qed

abbreviation segment_od :: "tekst \<Rightarrow> nat \<Rightarrow> u8 list" where
  "segment_od p i \<equiv> takeWhile (\<lambda>z. z \<noteq> 0x2F) (drop i (napis_sciezki p))"

lemma kopiuj_segment_napis:
  assumes z: "zakonczony_string_w_limicie p 512 \<noteq> None"
  shows "i \<le> length (napis_sciezki p) \<Longrightarrow>
    (if length (segment_od p i) \<le> n
     then \<exists>t. kopiuj_segment n p i seg d = Some (t, i + length (segment_od p i)) \<and> t (d + length (segment_od p i)) = 0 \<and>
       (\<forall>k < length (segment_od p i). t (d + k) = segment_od p i ! k) \<and> (\<forall>k < d. t k = seg k)
     else kopiuj_segment n p i seg d = None)"
proof (induction n arbitrary: i seg d)
  case 0
  note np = napis_znaki [OF z]
  show ?case
  proof (cases "i < length (napis_sciezki p) \<and> p i \<noteq> 0x2F")
    case True
    then show ?thesis using np(3) [of i] by (simp add: Cons_nth_drop_Suc [symmetric])
  next
    case False
    then have "segment_od p i = []" "p i = 0 \<or> p i = 0x2F"
      using 0 np(2) np(3) [of i] by (cases "i = length (napis_sciezki p)"; simp add: Cons_nth_drop_Suc [symmetric])+
    then show ?thesis by auto
  qed
next
  case (Suc n)
  note np = napis_znaki [OF z]
  show ?case
  proof (cases "i < length (napis_sciezki p) \<and> p i \<noteq> 0x2F")
    case True
    then have s: "segment_od p i = p i # segment_od p (Suc i)" and w: "p i \<noteq> 0"
      using np(3) [of i] by (simp_all add: Cons_nth_drop_Suc [symmetric])
    have e: "kopiuj_segment (Suc n) p i seg d = kopiuj_segment n p (Suc i) (seg(d := p i)) (Suc d)" using True w by simp
    have ih: "if length (segment_od p (Suc i)) \<le> n
     then \<exists>t. kopiuj_segment n p (Suc i) (seg(d := p i)) (Suc d) = Some (t, Suc i + length (segment_od p (Suc i))) \<and>
       t (Suc d + length (segment_od p (Suc i))) = 0 \<and>
       (\<forall>k < length (segment_od p (Suc i)). t (Suc d + k) = segment_od p (Suc i) ! k) \<and> (\<forall>k < Suc d. t k = (seg(d := p i)) k)
     else kopiuj_segment n p (Suc i) (seg(d := p i)) (Suc d) = None"
      using Suc.IH [of "Suc i" "seg(d := p i)" "Suc d"] True by simp
    show ?thesis
    proof (cases "length (segment_od p (Suc i)) \<le> n")
      case True
      with ih obtain t where t: "kopiuj_segment n p (Suc i) (seg(d := p i)) (Suc d) = Some (t, Suc i + length (segment_od p (Suc i)))"
        "t (Suc d + length (segment_od p (Suc i))) = 0" "\<forall>k < Suc d. t k = (seg(d := p i)) k"
        "\<And>k. k < length (segment_od p (Suc i)) \<Longrightarrow> t (Suc d + k) = segment_od p (Suc i) ! k" by auto
      have "t (d + k) = segment_od p i ! k" if "k < length (segment_od p i)" for k
        using that t(3) t(4) [of "k - 1"] unfolding s by (cases k) auto
      then show ?thesis using t True unfolding e by (simp add: s)
    next
      case False
      then show ?thesis using ih unfolding e by (simp add: s)
    qed
  next
    case False
    then have "segment_od p i = []" "p i = 0 \<or> p i = 0x2F"
      using Suc.prems np(2) np(3) [of i] by (cases "i = length (napis_sciezki p)"; simp add: Cons_nth_drop_Suc [symmetric])+
    then show ?thesis by auto
  qed
qed

text \<open>One segment: its name when it is valid, and the index behind it.\<close>

lemma pobierz_segment_napis:
  assumes z: "zakonczony_string_w_limicie p 512 \<noteq> None" and i: "i < length (napis_sciezki p)"
  defines "n \<equiv> segment_od p i"
  shows "if nazwa_ok n
    then \<exists>t. znaki_nazwy t = n \<and> pobierz_segment p i (\<lambda>_. 0) =
      (if i + length n = length (napis_sciezki p) then Some (t, True, i + length n) else Some (t, False, Suc (i + length n)))
    else pobierz_segment p i (\<lambda>_. 0) = None"
proof -
  note np = napis_znaki [OF z]
  have k: "p i = 0x2F \<longleftrightarrow> n = []" using i np(3) [OF i] unfolding n_def by (simp add: Cons_nth_drop_Suc [symmetric])
  have p0: "p i \<noteq> 0" using np(3) [OF i] by simp
  have konc: "p (i + length n) = 0 \<longleftrightarrow> i + length n = length (napis_sciezki p)"
  proof -
    have "i + length n \<le> length (napis_sciezki p)"
      using length_takeWhile_le [of "\<lambda>z. z \<noteq> 0x2F" "drop i (napis_sciezki p)"] i by (simp add: n_def)
    then show ?thesis using np(2) np(3) [of "i + length n"] by (cases "i + length n = length (napis_sciezki p)") auto
  qed
  have ks: "if length n \<le> 55
     then \<exists>t. kopiuj_segment 55 p i (\<lambda>_. 0) 0 = Some (t, i + length n) \<and> t (length n) = 0 \<and> (\<forall>k < length n. t k = n ! k)
     else kopiuj_segment 55 p i (\<lambda>_. 0) 0 = None"
    using kopiuj_segment_napis [OF z, of i 55 "\<lambda>_. 0" 0] i unfolding n_def [symmetric] by auto
  have nz: "n ! k \<noteq> 0" if "k < length n" for k
  proof -
    have "n ! k \<in> set (napis_sciezki p)" using that unfolding n_def by (meson in_set_dropD nth_mem set_takeWhileD)
    then show ?thesis unfolding napis_sciezki_def using set_takeWhileD by fastforce
  qed
  show ?thesis
  proof (cases "length n \<le> 55")
    case True
    with ks obtain t where t: "kopiuj_segment 55 p i (\<lambda>_. 0) 0 = Some (t, i + length n)" "t (length n) = 0"
      "\<And>k. k < length n \<Longrightarrow> t k = n ! k" by auto
    then have zn: "znaki_nazwy t = n" using nz True by (intro znakiI) auto
    show ?thesis
    proof (cases "nazwa_ok n")
      case True
      then have "n \<noteq> []" by (simp add: nazwa_ok_def)
      then show ?thesis using True k p0 konc zn t(1)
        by (intro if_P [THEN iffD2] exI [of _ t]) (auto simp: pobierz_segment_def poprawna_nazwa_znaki)
    next
      case False
      then show ?thesis using t(1) zn by (simp add: pobierz_segment_def poprawna_nazwa_znaki)
    qed
  next
    case False
    then show ?thesis using ks by (simp add: pobierz_segment_def nazwa_ok_def)
  qed
qed

subsection \<open>The walk\<close>

lemma zla_nazwa: "spojny v \<Longrightarrow> \<not> nazwa_ok n \<Longrightarrow> sp_kat (system v) d n = None"
  using wpisy_nazwy_ok(1) by (cases "sp_kat (system v) d n") auto

lemma segmenty_od:
  assumes "i \<le> length (napis_sciezki p)"
  defines "n \<equiv> segment_od p i"
  shows "segmenty (drop i (napis_sciezki p)) =
    (if i + length n = length (napis_sciezki p) then [n] else n # segmenty (drop (Suc (i + length n)) (napis_sciezki p)))"
    "i + length n \<le> length (napis_sciezki p)"
proof -
  have l: "length n \<le> length (drop i (napis_sciezki p))" unfolding n_def by (rule length_takeWhile_le)
  then show "i + length n \<le> length (napis_sciezki p)" using assms(1) by simp
  have "length n = length (drop i (napis_sciezki p)) \<Longrightarrow> n = drop i (napis_sciezki p)"
    unfolding n_def by (metis takeWhile_eq_take take_all order_refl)
  then show "segmenty (drop i (napis_sciezki p)) =
    (if i + length n = length (napis_sciezki p) then [n] else n # segmenty (drop (Suc (i + length n)) (napis_sciezki p)))"
    using segmenty_przypadki [of "drop i (napis_sciezki p)"] assms(1) l unfolding n_def [symmetric]
    by (auto simp: add.commute)
qed

lemma krok_spaceru:
  assumes g: "geometria s" and sp: "spojny (widok s)" and zn: "zw_znaleziony (znajdz_wpis_w_katalogu s a t)"
  shows "sp_kat (system (widok s)) a (znaki_nazwy t) = Some (zw_id_wezla (znajdz_wpis_w_katalogu s a t))"
    "wezel_na_dysku s (zw_id_wezla (znajdz_wpis_w_katalogu s a t))"
    "typ_wezla (widok s) (zw_id_wezla (znajdz_wpis_w_katalogu s a t)) \<noteq> 0"
proof -
  have w: "wynik_szukania (widok s) a (znaki_nazwy t) (znajdz_wpis_w_katalogu s a t)" by (rule znajdz_wpis_widok [OF g sp])
  then show k: "sp_kat (system (widok s)) a (znaki_nazwy t) = Some (zw_id_wezla (znajdz_wpis_w_katalogu s a t))"
    using zn by (auto simp: wynik_szukania_def brak_wpisu_def split: option.splits)
  from wpisy_nazwy_ok(5) [OF sp k] show "typ_wezla (widok s) (zw_id_wezla (znajdz_wpis_w_katalogu s a t)) \<noteq> 0" .
  then show "wezel_na_dysku s (zw_id_wezla (znajdz_wpis_w_katalogu s a t))" by (rule wolny_poza_dyskiem)
qed

lemma brak_kroku:
  "geometria s \<Longrightarrow> spojny (widok s) \<Longrightarrow> \<not> zw_znaleziony (znajdz_wpis_w_katalogu s a t) \<Longrightarrow> sp_kat (system (widok s)) a (znaki_nazwy t) = None"
  using znajdz_wpis_widok [of s a t] by (auto simp: wynik_szukania_def brak_wpisu_def split: option.splits)

lemma rozwiaz_od_wezel:
  assumes g: "geometria s" and sp: "spojny (widok s)" and z: "zakonczony_string_w_limicie p 512 \<noteq> None"
  shows "i \<le> length (napis_sciezki p) \<Longrightarrow> length (napis_sciezki p) - i < n \<Longrightarrow>
    rozwiaz_od n s p nd False i a =
      (case spacer_po (sp_kat (system (widok s))) a (segmenty (drop i (napis_sciezki p))) of None \<Rightarrow> 0 | Some c \<Rightarrow> c, nd)"
proof (induction n arbitrary: i a)
  case (Suc n)
  note np = napis_znaki [OF z]
  let ?seg = "segment_od p i" and ?K = "sp_kat (system (widok s))"
  note so = segmenty_od [OF Suc.prems(1)]
  show ?case
  proof (cases "i < length (napis_sciezki p) \<and> nazwa_ok ?seg")
    case False
    then have "rozwiaz_od (Suc n) s p nd False i a = (0, nd)"
      using pobierz_segment_napis [OF z, of i] np(2) Suc.prems(1) by (cases "i = length (napis_sciezki p)") auto
    moreover have "?K a ?seg = None" using False Suc.prems(1)
      by (intro zla_nazwa [OF sp]) (auto simp: nazwa_ok_def)
    ultimately show ?thesis using so(1) by simp
  next
    case True
    then obtain t where t: "znaki_nazwy t = ?seg" "pobierz_segment p i (\<lambda>_. 0) =
      (if i + length ?seg = length (napis_sciezki p) then Some (t, True, i + length ?seg) else Some (t, False, Suc (i + length ?seg)))"
      using pobierz_segment_napis [OF z, of i] by auto
    have p0: "p i \<noteq> 0" using np(3) True by simp
    let ?z = "znajdz_wpis_w_katalogu s a t"
    show ?thesis
    proof (cases "zw_znaleziony ?z")
      case False
      then have "?K a ?seg = None" using brak_kroku [OF g sp] t(1) by metis
      then show ?thesis using t(2) p0 False so(1) by simp
    next
      case zn: True
      note kr = krok_spaceru [OF g sp zn, unfolded t(1)]
      let ?c = "zw_id_wezla ?z"
      show ?thesis
      proof (cases "i + length ?seg = length (napis_sciezki p)")
        case True
        then show ?thesis using t(2) p0 zn kr so(1) by (simp add: pobierz_wezel_geo [OF g] g typ_wezla_def)
      next
        case False
        have ih: "rozwiaz_od n s p nd False (Suc (i + length ?seg)) ?c =
          (case spacer_po ?K ?c (segmenty (drop (Suc (i + length ?seg)) (napis_sciezki p))) of None \<Rightarrow> 0 | Some c \<Rightarrow> c, nd)"
          using False so(2) Suc.prems(2) by (intro Suc.IH) simp_all
        have r: "rozwiaz_od (Suc n) s p nd False i a = (if typ_wezla (widok s) ?c \<noteq> TYP_KATALOG then (0, nd)
            else rozwiaz_od n s p nd False (Suc (i + length ?seg)) ?c)"
          using t(2) p0 zn kr False by (simp add: pobierz_wezel_geo [OF g] g typ_wezla_def)
        have "typ_wezla (widok s) ?c \<noteq> TYP_KATALOG \<Longrightarrow> spacer_po ?K ?c (segmenty x) = None" for x
          using segmenty_niepuste [of x] by (cases "segmenty x") (simp_all add: system_def)
        then show ?thesis unfolding r using ih so(1) False kr by simp
      qed
    qed
  qed
qed simp

lemma rozwiaz_od_rodzic:
  assumes g: "geometria s" and sp: "spojny (widok s)" and z: "zakonczony_string_w_limicie p 512 \<noteq> None"
  shows "i \<le> length (napis_sciezki p) \<Longrightarrow> length (napis_sciezki p) - i < n \<Longrightarrow> wezel_na_dysku s a \<Longrightarrow>
    case rodzic_sciezki (system (widok s)) a (segmenty (drop i (napis_sciezki p))) of
      None \<Rightarrow> fst (rozwiaz_od n s p (Some t0) True i a) = 0
    | Some d \<Rightarrow> \<exists>t. rozwiaz_od n s p (Some t0) True i a = (d, Some t) \<and>
        znaki_nazwy t = last (segmenty (drop i (napis_sciezki p)))"
proof (induction n arbitrary: i a)
  case (Suc n)
  note np = napis_znaki [OF z]
  let ?seg = "segment_od p i" and ?K = "sp_kat (system (widok s))"
  note so = segmenty_od [OF Suc.prems(1)]
  have st: "sp_typ (system (widok s)) = typ_wezla (widok s)" by (simp add: system_def)
  show ?case
  proof (cases "i < length (napis_sciezki p) \<and> nazwa_ok ?seg")
    case False
    then have "fst (rozwiaz_od (Suc n) s p (Some t0) True i a) = 0"
      using pobierz_segment_napis [OF z, of i] np(2) Suc.prems(1) by (cases "i = length (napis_sciezki p)") auto
    moreover have "\<not> nazwa_ok ?seg" using False Suc.prems(1) by (auto simp: nazwa_ok_def)
    then have "rodzic_sciezki (system (widok s)) a (segmenty (drop i (napis_sciezki p))) = None"
      using so(1) zla_nazwa [OF sp, of ?seg a] by (simp add: rodzic_sciezki_def split: option.splits)
    ultimately show ?thesis by simp
  next
    case True
    then obtain t where t: "znaki_nazwy t = ?seg" "pobierz_segment p i (\<lambda>_. 0) =
      (if i + length ?seg = length (napis_sciezki p) then Some (t, True, i + length ?seg) else Some (t, False, Suc (i + length ?seg)))"
      using pobierz_segment_napis [OF z, of i] by auto
    have p0: "p i \<noteq> 0" using np(3) True by simp
    let ?z = "znajdz_wpis_w_katalogu s a t"
    show ?thesis
    proof (cases "i + length ?seg = length (napis_sciezki p)")
      case ost: True
      obtain t1 where t1: "kopiuj_nazwe t0 t = Some t1" "znaki_nazwy t1 = ?seg"
        using kopiuj_nazwe_znaki [of t0 t] t(1) True by (cases "kopiuj_nazwe t0 t") auto
      have "rozwiaz_od (Suc n) s p (Some t0) True i a = (if typ_wezla (widok s) a \<noteq> TYP_KATALOG then 0 else a, Some t1)"
        using t(2) p0 ost t1(1) Suc.prems(3) by (simp add: pobierz_wezel_geo [OF g] g typ_wezla_def)
      then show ?thesis using so(1) ost True t1(2) by (simp add: rodzic_sciezki_def st)
    next
      case False
      show ?thesis
      proof (cases "zw_znaleziony ?z")
        case nz: False
        then have "?K a ?seg = None" using brak_kroku [OF g sp] t(1) by metis
        then show ?thesis using t(2) p0 nz so(1) False by (simp add: rodzic_sciezki_def)
      next
        case zn: True
        note kr = krok_spaceru [OF g sp zn, unfolded t(1)]
        let ?c = "zw_id_wezla ?z" and ?x = "drop (Suc (i + length ?seg)) (napis_sciezki p)"
        have r: "rozwiaz_od (Suc n) s p (Some t0) True i a = (if typ_wezla (widok s) ?c \<noteq> TYP_KATALOG then (0, Some t0)
            else rozwiaz_od n s p (Some t0) True (Suc (i + length ?seg)) ?c)"
          using t(2) p0 zn kr False by (simp add: pobierz_wezel_geo [OF g] g typ_wezla_def)
        have ih: "case rodzic_sciezki (system (widok s)) ?c (segmenty ?x) of
            None \<Rightarrow> fst (rozwiaz_od n s p (Some t0) True (Suc (i + length ?seg)) ?c) = 0
          | Some d \<Rightarrow> \<exists>t. rozwiaz_od n s p (Some t0) True (Suc (i + length ?seg)) ?c = (d, Some t) \<and> znaki_nazwy t = last (segmenty ?x)"
          using False so(2) Suc.prems(2) kr(2) by (intro Suc.IH) simp_all
        have "rodzic_sciezki (system (widok s)) a (segmenty (drop i (napis_sciezki p))) = rodzic_sciezki (system (widok s)) ?c (segmenty ?x)"
          using so(1) False kr by (simp add: rodzic_krok)
        moreover have "typ_wezla (widok s) ?c \<noteq> TYP_KATALOG \<Longrightarrow> rodzic_sciezki (system (widok s)) ?c (segmenty ?x) = None"
          by (cases "butlast (segmenty ?x)") (simp_all add: rodzic_sciezki_def system_def)
        ultimately show ?thesis unfolding r using ih so(1) False by (simp add: last_ConsR split: option.splits)
      qed
    qed
  qed
qed simp

subsection \<open>The public walk\<close>

lemma bezpieczna_napis:
  assumes "bezpieczna_sciezka p"
  shows "zakonczony_string_w_limicie p 512 \<noteq> None" "p 0 = 0x2F" "napis_sciezki p = 0x2F # tl (napis_sciezki p)"
    "p 1 = 0 \<longleftrightarrow> tl (napis_sciezki p) = []" "tl (napis_sciezki p) = drop 1 (napis_sciezki p)"
proof -
  show z: "zakonczony_string_w_limicie p 512 \<noteq> None" using assms by (auto simp: bezpieczna_sciezka_def split: option.splits)
  show p0: "p 0 = 0x2F" using assms by (auto simp: bezpieczna_sciezka_def split: option.splits if_splits)
  note np = napis_znaki [OF z]
  have l: "0 < length (napis_sciezki p)" using np(2) p0 by (cases "length (napis_sciezki p)") auto
  then show t: "napis_sciezki p = 0x2F # tl (napis_sciezki p)" using np(3) [of 0] p0 by (cases "napis_sciezki p") auto
  show "p 1 = 0 \<longleftrightarrow> tl (napis_sciezki p) = []"
  proof (cases "tl (napis_sciezki p)")
    case Nil
    then have "length (napis_sciezki p) = 1" using t by (metis length_Cons list.size(3) One_nat_def)
    then show ?thesis using np(2) Nil by simp
  next
    case (Cons y ys)
    then have "1 < length (napis_sciezki p)" using t by (metis length_Cons One_nat_def Suc_less_eq zero_less_Suc)
    then show ?thesis using np(3) [of 1] Cons by simp
  qed
  show "tl (napis_sciezki p) = drop 1 (napis_sciezki p)" by (simp add: drop_Suc)
qed

lemma segmenty_bezpiecznej:
  "bezpieczna_sciezka p \<Longrightarrow> segmenty_sciezki p = (if p 1 = 0 then [] else segmenty (drop 1 (napis_sciezki p)))"
  using bezpieczna_napis [of p] by (simp add: segmenty_sciezki_def split: list.split)

abbreviation korzen :: "psf \<Rightarrow> u64" where "korzen s \<equiv> sb_id_korzenia (sb s)"

lemma korzen_na_dysku: "geometria s \<Longrightarrow> wezel_na_dysku s (korzen s)"
  using geometria_liczby(9,10) [of s] by (simp add: wezel_na_dysku_def)

lemma rozwiaz_wezel:
  assumes "geometria s" "spojny (widok s)" "ps_gotowy s" "bezpieczna_sciezka p"
  shows "rozwiaz_sciezke s p nd False =
    (case spacer_po (sp_kat (system (widok s))) (korzen s) (segmenty_sciezki p) of None \<Rightarrow> 0 | Some c \<Rightarrow> c, nd)"
proof -
  note b = bezpieczna_napis [OF assms(4)]
  have l: "1 \<le> length (napis_sciezki p)" using b(3) by (metis One_nat_def Suc_leI length_greater_0_conv list.distinct(1))
  have "length (napis_sciezki p) - 1 < 512" using napis_znaki(1) [OF b(1)] by linarith
  from rozwiaz_od_wezel [OF assms(1,2) b(1) l this, of nd "korzen s"] show ?thesis
    using assms b(2) segmenty_bezpiecznej [OF assms(4)] by (simp add: rozwiaz_sciezke_def geometria_def)
qed

lemma rozwiaz_rodzica:
  assumes "geometria s" "spojny (widok s)" "ps_gotowy s" "bezpieczna_sciezka p"
  shows "case (if segmenty_sciezki p = [] then None else rodzic_sciezki (system (widok s)) (korzen s) (segmenty_sciezki p)) of
      None \<Rightarrow> fst (rozwiaz_sciezke s p (Some t0) True) = 0
    | Some d \<Rightarrow> \<exists>t. rozwiaz_sciezke s p (Some t0) True = (d, Some t) \<and> znaki_nazwy t = last (segmenty_sciezki p)"
proof (cases "p 1 = 0")
  case True
  then show ?thesis using assms bezpieczna_napis(2) [OF assms(4)] segmenty_bezpiecznej [OF assms(4)]
    by (simp add: rozwiaz_sciezke_def geometria_def)
next
  case False
  note b = bezpieczna_napis [OF assms(4)]
  have l: "1 \<le> length (napis_sciezki p)" using b(3) by (metis One_nat_def Suc_leI length_greater_0_conv list.distinct(1))
  have "length (napis_sciezki p) - 1 < 512" using napis_znaki(1) [OF b(1)] by linarith
  note r = rozwiaz_od_rodzic [OF assms(1,2) b(1) l this korzen_na_dysku [OF assms(1)], of t0]
  have "rozwiaz_sciezke s p (Some t0) True = rozwiaz_od 512 s p (Some t0) True 1 (korzen s)"
    using assms False by (simp add: rozwiaz_sciezke_def geometria_def)
  moreover have "segmenty_sciezki p = segmenty (drop 1 (napis_sciezki p))" using False segmenty_bezpiecznej [OF assms(4)] by simp
  ultimately show ?thesis using r by (simp only: segmenty_niepuste if_False)
qed

end
