(* ===== verification/Psf_Przydzial.thy ===== *)
theory Psf_Przydzial
  imports Psf_Sciezki
begin

section \<open>BSP2: giving blocks to nodes and taking them back\<close>

text \<open>
  What changes of the abstract file system when a node gets a block, gives one back, or a data block
  is written; then the loops of \<open>zapisz_do_pliku\<close> and \<open>usun_twor\<close>.
\<close>

subsection \<open>Frames\<close>

lemma lista_pusta [simp]: "lista_bloku (puste_dane b) = []"
  by (simp add: lista_bloku_def zywe_wpisy_def puste_dane_def wpis_w_zerach cong: filter_cong)

lemma wpisy_rama:
  "(\<And>k. k < 490 \<Longrightarrow> lista_pod (vi_dane v') (vi_wezel v' d) k = lista_pod (vi_dane v) (vi_wezel v d) k) \<Longrightarrow> wpisy v' d = wpisy v d"
  unfolding wpisy_def by (intro arg_cong [where f = concat] map_cong) simp_all

lemma wpisy_rama_bloki:
  "w_wskazniki (vi_wezel v' d) = w_wskazniki (vi_wezel v d) \<Longrightarrow>
   (\<And>k. k < 490 \<Longrightarrow> w_wskazniki (vi_wezel v d) k \<noteq> BARK_BLOKU \<Longrightarrow>
      vi_dane v' (w_wskazniki (vi_wezel v d) k) = vi_dane v (w_wskazniki (vi_wezel v d) k)) \<Longrightarrow> wpisy v' d = wpisy v d"
  by (rule wpisy_rama) (auto simp: lista_pod_def)

lemma tresc_rama:
  "plik_ok w \<Longrightarrow> w_rozmiar w' = w_rozmiar w \<Longrightarrow>
   (\<And>k. k < 490 \<Longrightarrow> k * 4096 < unat (w_rozmiar w) \<Longrightarrow> w_wskazniki w k \<noteq> BARK_BLOKU \<Longrightarrow>
      d' (w_wskazniki w' k) = d (w_wskazniki w k)) \<Longrightarrow> tresc_wezla d' w' = tresc_wezla d w"
proof -
  assume p: "plik_ok w" "w_rozmiar w' = w_rozmiar w"
    and r: "\<And>k. k < 490 \<Longrightarrow> k * 4096 < unat (w_rozmiar w) \<Longrightarrow> w_wskazniki w k \<noteq> BARK_BLOKU \<Longrightarrow> d' (w_wskazniki w' k) = d (w_wskazniki w k)"
  have "d' (w_wskazniki w' (x div 4096)) = d (w_wskazniki w (x div 4096))" if "x < unat (w_rozmiar w)" for x
  proof -
    have "unat (w_rozmiar w) \<le> 490 * 4096" using p by (simp add: plik_ok_def)
    then have k: "x div 4096 < 490" "x div 4096 * 4096 < unat (w_rozmiar w)" using that by (auto simp: div_less_iff_less_mult)
    then show ?thesis using p r by (simp add: plik_ok_def)
  qed
  then show ?thesis using p by (simp add: tresc_wezla_def)
qed

lemma zajmuje_zajety: "bloki_ok v \<Longrightarrow> zajmuje v i k b \<Longrightarrow> vi_zajety v b"
  by (auto simp: bloki_ok_def)

lemma zajety_wlasciciel: "bloki_ok v \<Longrightarrow> vi_zajety v b \<longleftrightarrow> (\<exists>i k. zajmuje v i k b)"
  by (simp add: bloki_ok_def)

lemma bloki_okI:
  "(\<And>b. vi_zajety v b \<longleftrightarrow> (\<exists>i k. zajmuje v i k b)) \<Longrightarrow>
   (\<And>b i k i' k'. zajmuje v i k b \<Longrightarrow> zajmuje v i' k' b \<Longrightarrow> i = i' \<and> k = k') \<Longrightarrow> bloki_ok v"
  unfolding bloki_ok_def by blast

lemma zajmuje_jeden: "bloki_ok v \<Longrightarrow> zajmuje v i k b \<Longrightarrow> zajmuje v i' k' b \<Longrightarrow> i = i' \<and> k = k'"
  unfolding bloki_ok_def by blast

lemma inny_blok:
  assumes "bloki_ok v" "zajmuje v i k b" "typ_wezla v d \<noteq> TYP_WOLNY" "l < 490"
  shows "w_wskazniki (vi_wezel v d) l = b \<longleftrightarrow> d = i \<and> l = k"
  using zajmuje_jeden [OF assms(1,2), of d l] assms(2-) by (auto simp: zajmuje_def)

lemma systemI:
  assumes "\<And>i. typ_wezla v' i = typ_wezla v i" "\<And>d. typ_wezla v d = TYP_KATALOG \<Longrightarrow> wpisy v' d = wpisy v d"
    "\<And>i. typ_wezla v i = TYP_PLIK \<Longrightarrow> tresc_wezla (vi_dane v') (vi_wezel v' i) = tresc_wezla (vi_dane v) (vi_wezel v i)"
  shows "system v' = system v"
  using assms by (simp add: system_def fun_eq_iff)

lemma katalogi_rama:
  assumes "katalogi_ok v" "\<And>i. typ_wezla v' i = typ_wezla v i" "\<And>d. typ_wezla v d = TYP_KATALOG \<Longrightarrow> wpisy v' d = wpisy v d"
    "\<And>d. typ_wezla v d = TYP_KATALOG \<Longrightarrow> w_rozmiar (vi_wezel v' d) = w_rozmiar (vi_wezel v d)"
  shows "katalogi_ok v'"
  using assms by (simp add: katalogi_ok_def katalog_ok_def)

subsection \<open>A block for a node\<close>

definition v_przydziel :: "widok \<Rightarrow> u64 \<Rightarrow> nat \<Rightarrow> u64 \<Rightarrow> widok" where
  "v_przydziel v i k b =
     v_wezel (v_zajety (v_dane v b (puste_dane (vi_dane v b))) b True) i (z_wskaznikiem (vi_wezel v i) k b)"

definition v_oddaj :: "widok \<Rightarrow> u64 \<Rightarrow> nat \<Rightarrow> widok" where
  "v_oddaj v i k = (let b = w_wskazniki (vi_wezel v i) k in
     v_zajety (v_dane (v_wezel v i (z_wskaznikiem (vi_wezel v i) k BARK_BLOKU)) b (puste_dane (vi_dane v b))) b False)"

lemma v_przydziel_pola [simp]:
  "vi_wezel (v_przydziel v i k b) = (vi_wezel v)(i := z_wskaznikiem (vi_wezel v i) k b)"
  "vi_dane (v_przydziel v i k b) = (vi_dane v)(b := puste_dane (vi_dane v b))"
  "vi_zajety (v_przydziel v i k b) = (vi_zajety v)(b := True)" "typ_wezla (v_przydziel v i k b) = typ_wezla v"
  by (auto simp: v_przydziel_def typ_wezla_def fun_eq_iff)

lemma v_oddaj_pola [simp]:
  "vi_wezel (v_oddaj v i k) = (vi_wezel v)(i := z_wskaznikiem (vi_wezel v i) k BARK_BLOKU)"
  "vi_dane (v_oddaj v i k) = (vi_dane v)(w_wskazniki (vi_wezel v i) k := puste_dane (vi_dane v (w_wskazniki (vi_wezel v i) k)))"
  "vi_zajety (v_oddaj v i k) = (vi_zajety v)(w_wskazniki (vi_wezel v i) k := False)" "typ_wezla (v_oddaj v i k) = typ_wezla v"
  by (auto simp: v_oddaj_def Let_def typ_wezla_def fun_eq_iff)

lemma wezly_ok_wskaznik:
  "wezly_ok v \<Longrightarrow> vi_wezel v' = (vi_wezel v)(i := z_wskaznikiem (vi_wezel v i) k b) \<Longrightarrow> wezly_ok v'"
  by (simp add: wezly_ok_def typ_wezla_def)

lemma przydziel_zajmuje:
  assumes "typ_wezla v i \<noteq> TYP_WOLNY" "k < 490" "w_wskazniki (vi_wezel v i) k = BARK_BLOKU" "b \<noteq> BARK_BLOKU"
  shows "zajmuje (v_przydziel v i k b) j l c \<longleftrightarrow> zajmuje v j l c \<or> j = i \<and> l = k \<and> c = b"
  using assms by (auto simp: zajmuje_def)

lemma przydziel_ok:
  assumes sp: "spojny v" and i: "typ_wezla v i \<noteq> TYP_WOLNY" "k < 490" "w_wskazniki (vi_wezel v i) k = BARK_BLOKU"
    and b: "b \<noteq> BARK_BLOKU" "\<not> vi_zajety v b"
  shows "spojny (v_przydziel v i k b)" "typ_wezla v d = TYP_KATALOG \<Longrightarrow> wpisy (v_przydziel v i k b) d = wpisy v d"
    "pliki_ok v \<Longrightarrow> system (v_przydziel v i k b) = system v" "pliki_ok v \<Longrightarrow> pliki_ok (v_przydziel v i k b)"
proof -
  have bo: "bloki_ok v" using sp by (simp add: spojny_def)
  note z = przydziel_zajmuje [OF i b(1)]
  have nb: "\<not> zajmuje v j l b" for j l using b(2) zajmuje_zajety [OF bo] by blast
  have inne: "w_wskazniki (vi_wezel v d) l \<noteq> b" if "typ_wezla v d \<noteq> TYP_WOLNY" "l < 490" for d l
    using nb [of d l] that b(1) by (auto simp: zajmuje_def)
  have w: "wpisy (v_przydziel v i k b) d = wpisy v d" if d: "typ_wezla v d = TYP_KATALOG" for d
  proof (rule wpisy_rama)
    fix l :: nat assume "l < 490"
    then show "lista_pod (vi_dane (v_przydziel v i k b)) (vi_wezel (v_przydziel v i k b) d) l = lista_pod (vi_dane v) (vi_wezel v d) l"
      using inne [of d l] d i(3) by (auto simp: lista_pod_def)
  qed
  then show "typ_wezla v d = TYP_KATALOG \<Longrightarrow> wpisy (v_przydziel v i k b) d = wpisy v d" .
  have "bloki_ok (v_przydziel v i k b)"
  proof (rule bloki_okI)
    fix c
    have "vi_zajety (v_przydziel v i k b) c \<longleftrightarrow> c = b \<or> vi_zajety v c" by simp
    then show "vi_zajety (v_przydziel v i k b) c \<longleftrightarrow> (\<exists>j l. zajmuje (v_przydziel v i k b) j l c)"
      unfolding z zajety_wlasciciel [OF bo] by blast
  next
    fix c j l j' l'
    show "zajmuje (v_przydziel v i k b) j l c \<Longrightarrow> zajmuje (v_przydziel v i k b) j' l' c \<Longrightarrow> j = j' \<and> l = l'"
      unfolding z using zajmuje_jeden [OF bo] nb by blast
  qed
  moreover have "wezly_ok (v_przydziel v i k b)"
    by (rule wezly_ok_wskaznik [OF _ v_przydziel_pola(1)]) (use sp in \<open>simp add: spojny_def\<close>)
  moreover have "katalogi_ok (v_przydziel v i k b)"
    by (rule katalogi_rama [of v]) (use sp w in \<open>simp_all add: spojny_def\<close>)
  ultimately show "spojny (v_przydziel v i k b)" by (simp add: spojny_def)
  show "pliki_ok v \<Longrightarrow> pliki_ok (v_przydziel v i k b)" using b by (auto simp: pliki_ok_def plik_ok_def typ_wezla_def)
  show "system (v_przydziel v i k b) = system v" if po: "pliki_ok v"
  proof (rule systemI)
    fix j assume j: "typ_wezla v j = TYP_PLIK"
    show "tresc_wezla (vi_dane (v_przydziel v i k b)) (vi_wezel (v_przydziel v i k b) j) = tresc_wezla (vi_dane v) (vi_wezel v j)"
      using po j i(3) inne [of j] by (intro tresc_rama) (auto simp: pliki_ok_def)
  qed (use w in simp_all)
qed

lemma oddaj_zajmuje:
  assumes "bloki_ok v" "zajmuje v i k b"
  shows "zajmuje (v_oddaj v i k) j l c \<longleftrightarrow> zajmuje v j l c \<and> c \<noteq> b"
  using assms zajmuje_jeden [OF assms] by (auto simp: zajmuje_def)

lemma oddaj_ok:
  assumes sp: "spojny v" and z: "zajmuje v i k b"
    and p: "typ_wezla v i = TYP_KATALOG \<Longrightarrow> lista_bloku (vi_dane v b) = []"
  shows "spojny (v_oddaj v i k)" "typ_wezla v d = TYP_KATALOG \<Longrightarrow> wpisy (v_oddaj v i k) d = wpisy v d"
    "typ_wezla v j = TYP_PLIK \<Longrightarrow> plik_ok (vi_wezel v j) \<Longrightarrow> (j = i \<Longrightarrow> unat (w_rozmiar (vi_wezel v i)) \<le> k * 4096) \<Longrightarrow>
       tresc_wezla (vi_dane (v_oddaj v i k)) (vi_wezel (v_oddaj v i k) j) = tresc_wezla (vi_dane v) (vi_wezel v j)"
proof -
  have bo: "bloki_ok v" using sp by (simp add: spojny_def)
  have b: "w_wskazniki (vi_wezel v i) k = b" "b \<noteq> BARK_BLOKU" "k < 490" using z by (simp_all add: zajmuje_def)
  note inne = inny_blok [OF bo z]
  have w: "wpisy (v_oddaj v i k) d = wpisy v d" if d: "typ_wezla v d = TYP_KATALOG" for d
  proof (rule wpisy_rama)
    fix l :: nat assume "l < 490"
    then show "lista_pod (vi_dane (v_oddaj v i k)) (vi_wezel (v_oddaj v i k) d) l = lista_pod (vi_dane v) (vi_wezel v d) l"
      using inne [of d l] d p b by (auto simp: lista_pod_def)
  qed
  then show "typ_wezla v d = TYP_KATALOG \<Longrightarrow> wpisy (v_oddaj v i k) d = wpisy v d" .
  have "bloki_ok (v_oddaj v i k)"
  proof (rule bloki_okI)
    fix c
    have "vi_zajety (v_oddaj v i k) c \<longleftrightarrow> c \<noteq> b \<and> vi_zajety v c" using b(1) by simp
    then show "vi_zajety (v_oddaj v i k) c \<longleftrightarrow> (\<exists>j l. zajmuje (v_oddaj v i k) j l c)"
      unfolding oddaj_zajmuje [OF bo z] zajety_wlasciciel [OF bo] by blast
  next
    fix c j l j' l'
    show "zajmuje (v_oddaj v i k) j l c \<Longrightarrow> zajmuje (v_oddaj v i k) j' l' c \<Longrightarrow> j = j' \<and> l = l'"
      unfolding oddaj_zajmuje [OF bo z] using zajmuje_jeden [OF bo] by blast
  qed
  moreover have "wezly_ok (v_oddaj v i k)"
    by (rule wezly_ok_wskaznik [OF _ v_oddaj_pola(1)]) (use sp in \<open>simp add: spojny_def\<close>)
  moreover have "katalogi_ok (v_oddaj v i k)"
    by (rule katalogi_rama [of v]) (use sp w in \<open>simp_all add: spojny_def\<close>)
  ultimately show "spojny (v_oddaj v i k)" by (simp add: spojny_def)
  assume j: "typ_wezla v j = TYP_PLIK" "plik_ok (vi_wezel v j)" "j = i \<Longrightarrow> unat (w_rozmiar (vi_wezel v i)) \<le> k * 4096"
  show "tresc_wezla (vi_dane (v_oddaj v i k)) (vi_wezel (v_oddaj v i k) j) = tresc_wezla (vi_dane v) (vi_wezel v j)"
    using j(1,3) inne [of j] b by (intro tresc_rama [OF j(2)]) auto
qed

end
