(* ===== verification/Psf_Wpisy.thy ===== *)
theory Psf_Wpisy
  imports Psf_Przydzial
begin

section \<open>BSP2: nodes and directory entries of the view\<close>

subsection \<open>A node made and a node freed\<close>

definition wezel_bez_blokow :: "u8 \<Rightarrow> wezel_indeksowy \<Rightarrow> bool" where
  "wezel_bez_blokow typ w \<longleftrightarrow> w_typ w = typ \<and> w_rozmiar w = 0 \<and> w_wskazniki w = (\<lambda>_. BARK_BLOKU) \<and>
     w_posredni_1 w = BARK_BLOKU \<and> w_posredni_2 w = BARK_BLOKU \<and> w_posredni_3 w = BARK_BLOKU"

lemma wezel_pusty_bez_blokow [simp]: "wezel_bez_blokow typ (wezel_pusty typ)"
  by (simp add: wezel_bez_blokow_def wezel_pusty_def)

lemma typ_v_wezel [simp]: "typ_wezla (v_wezel v i w) = (typ_wezla v)(i := w_typ w)"
  by (auto simp: typ_wezla_def fun_eq_iff)

lemma wpisy_v_wezel: "d \<noteq> i \<Longrightarrow> wpisy (v_wezel v i w) d = wpisy v d"
  by (rule wpisy_rama) simp

lemma bez_blokow_puste:
  assumes "wezel_bez_blokow t w"
  shows "wpisy (v_wezel v i w) i = []" "tresc_wezla dane w = []" "plik_ok w"
proof -
  have "map (lista_pod (vi_dane v) w) [0 ..< 490] = map (\<lambda>_. []) [0 ..< 490]"
    using assms by (intro map_cong) (simp_all add: lista_pod_def wezel_bez_blokow_def)
  then have "concat (map (lista_pod (vi_dane v) w) [0 ..< 490]) = concat (map (\<lambda>_. []) [0 ..< 490])" by (rule arg_cong)
  then show "wpisy (v_wezel v i w) i = []" by (simp add: wpisy_def)
qed (use assms in \<open>simp_all add: tresc_wezla_def plik_ok_def wezel_bez_blokow_def\<close>)

lemma katalogi_v_wezel:
  assumes "katalogi_ok v" "typ_wezla v i = TYP_WOLNY" "wezel_bez_blokow t w" "t \<noteq> TYP_WOLNY"
  shows "katalogi_ok (v_wezel v i w)"
  unfolding katalogi_ok_def
proof (intro allI impI)
  fix d assume d: "typ_wezla (v_wezel v i w) d = TYP_KATALOG"
  have t: "w_typ w = t" using assms(3) by (simp add: wezel_bez_blokow_def)
  show "katalog_ok (v_wezel v i w) d"
  proof (cases "d = i")
    case True
    then show ?thesis using bez_blokow_puste(1) [OF assms(3)] assms(3) by (simp add: katalog_ok_def wezel_bez_blokow_def)
  next
    case False
    then have "katalog_ok v d" using d assms(1) by (simp add: katalogi_ok_def)
    then show ?thesis using False t assms(4) by (auto simp: katalog_ok_def wpisy_v_wezel)
  qed
qed

lemma nowy_wezel_ok:
  assumes sp: "spojny v" and i: "typ_wezla v i = TYP_WOLNY" and w: "wezel_bez_blokow t w" and t: "t \<in> {TYP_PLIK, TYP_KATALOG}"
  shows "spojny (v_wezel v i w)" "pliki_ok v \<Longrightarrow> pliki_ok (v_wezel v i w)"
    "system (v_wezel v i w) = (system v)\<lparr>sp_typ := (sp_typ (system v))(i := t)\<rparr>"
proof -
  have wt: "w_typ w = t" using w by (simp add: wezel_bez_blokow_def)
  have z: "zajmuje (v_wezel v i w) j k b \<longleftrightarrow> zajmuje v j k b" for j k b
    using i w by (auto simp: zajmuje_def wezel_bez_blokow_def)
  have "bloki_ok (v_wezel v i w)" using sp by (simp add: bloki_ok_def z spojny_def)
  moreover have "wezly_ok (v_wezel v i w)" using sp t w wt by (auto simp: wezly_ok_def spojny_def wezel_bez_blokow_def)
  moreover have "katalogi_ok (v_wezel v i w)" using katalogi_v_wezel [OF _ i w] sp t by (auto simp: spojny_def)
  ultimately show "spojny (v_wezel v i w)" by (simp add: spojny_def)
  show "pliki_ok v \<Longrightarrow> pliki_ok (v_wezel v i w)" using bez_blokow_puste(3) [OF w] by (simp add: pliki_ok_def)
  show "system (v_wezel v i w) = (system v)\<lparr>sp_typ := (sp_typ (system v))(i := t)\<rparr>"
    using i t wt bez_blokow_puste(1,2) [OF w] by (auto simp: system_def fun_eq_iff wpisy_v_wezel)
qed

lemma wolny_wezel_ok:
  assumes sp: "spojny v" and i: "\<And>k b. \<not> zajmuje v i k b" and n: "\<And>d n. sp_kat (system v) d n \<noteq> Some i"
    and w: "wezel_bez_blokow TYP_WOLNY w"
  shows "spojny (v_wezel v i w)" "pliki_ok v \<Longrightarrow> pliki_ok (v_wezel v i w)"
    "system (v_wezel v i w) = (system v)\<lparr>sp_typ := (sp_typ (system v))(i := TYP_WOLNY), sp_kat := (sp_kat (system v))(i := Map.empty),
       sp_tresc := (sp_tresc (system v))(i := [])\<rparr>"
proof -
  have wt: "w_typ w = TYP_WOLNY" using w by (simp add: wezel_bez_blokow_def)
  have z: "zajmuje (v_wezel v i w) j k b \<longleftrightarrow> zajmuje v j k b" for j k b
  proof (cases "j = i")
    case True
    then show ?thesis using i wt by (simp add: zajmuje_def)
  qed (simp add: zajmuje_def)
  have "bloki_ok (v_wezel v i w)" using sp by (simp add: bloki_ok_def z spojny_def)
  moreover have "wezly_ok (v_wezel v i w)" using sp wt by (simp add: wezly_ok_def spojny_def)
  moreover have "katalogi_ok (v_wezel v i w)" unfolding katalogi_ok_def
  proof (intro allI impI)
    fix d assume "typ_wezla (v_wezel v i w) d = TYP_KATALOG"
    then have d: "d \<noteq> i" "typ_wezla v d = TYP_KATALOG" using wt by (auto split: if_splits)
    then have k: "katalog_ok v d" using sp by (simp add: spojny_def katalogi_ok_def)
    have "c \<noteq> i" if "(n', c) \<in> set (wpisy v d)" for n' c
    proof -
      have "map_of (wpisy v d) n' = Some c" using k that by (simp add: katalog_ok_def)
      then show ?thesis using n [of d n'] d by (auto simp: system_def)
    qed
    then show "katalog_ok (v_wezel v i w) d" using k d by (auto simp: katalog_ok_def wpisy_v_wezel)
  qed
  ultimately show "spojny (v_wezel v i w)" by (simp add: spojny_def)
  show "pliki_ok v \<Longrightarrow> pliki_ok (v_wezel v i w)" using wt by (simp add: pliki_ok_def)
  show "system (v_wezel v i w) = (system v)\<lparr>sp_typ := (sp_typ (system v))(i := TYP_WOLNY), sp_kat := (sp_kat (system v))(i := Map.empty),
       sp_tresc := (sp_tresc (system v))(i := [])\<rparr>"
    using wt by (auto simp: system_def fun_eq_iff wpisy_v_wezel)
qed

subsection \<open>One entry of a directory\<close>

definition wpis_lista :: "blok \<Rightarrow> nat \<Rightarrow> (u8 list \<times> u64) list" where
  "wpis_lista b j = (if wp_id (wpis_z b j) \<noteq> 0 then [napis_wpisu b j] else [])"

lemma lista_bloku_concat: "lista_bloku b = concat (map (wpis_lista b) [0 ..< 64])"
proof -
  have "map (napis_wpisu b) (filter (\<lambda>j. wp_id (wpis_z b j) \<noteq> 0) js) = concat (map (wpis_lista b) js)" for js
    by (induction js) (simp_all add: wpis_lista_def)
  then show ?thesis by (simp add: lista_bloku_def zywe_wpisy_def)
qed

lemma concat_zmiana:
  assumes "j < n" "\<And>l. l < n \<Longrightarrow> l \<noteq> j \<Longrightarrow> f' l = f l"
  shows "\<exists>xs ys. concat (map f [0 ..< n]) = xs @ f j @ ys \<and> concat (map f' [0 ..< n]) = xs @ f' j @ ys"
proof -
  have u: "[0 ..< n] = [0 ..< j] @ j # [Suc j ..< n]" using assms(1) upt_add_eq_append [of 0 j "n - j"] by (simp add: upt_conv_Cons)
  have e: "map f' [0 ..< j] = map f [0 ..< j]" "map f' [Suc j ..< n] = map f [Suc j ..< n]" using assms by simp_all
  have "concat (map f [0 ..< n]) = concat (map f [0 ..< j]) @ f j @ concat (map f [Suc j ..< n])"
    "concat (map f' [0 ..< n]) = concat (map f [0 ..< j]) @ f' j @ concat (map f [Suc j ..< n])"
    unfolding u map_append concat_append list.map concat.simps e by (rule refl)+
  then show ?thesis by blast
qed

definition v_wpis :: "widok \<Rightarrow> u64 \<Rightarrow> u64 \<Rightarrow> blok \<Rightarrow> u64 \<Rightarrow> widok" where
  "v_wpis v d b x rozmiar = v_wezel (v_dane v b x) d ((vi_wezel v d)\<lparr>w_rozmiar := rozmiar\<rparr>)"

lemma v_wpis_pola [simp]:
  "vi_wezel (v_wpis v d b x r) = (vi_wezel v)(d := (vi_wezel v d)\<lparr>w_rozmiar := r\<rparr>)" "vi_dane (v_wpis v d b x r) = (vi_dane v)(b := x)"
  "vi_zajety (v_wpis v d b x r) = vi_zajety v" "typ_wezla (v_wpis v d b x r) = typ_wezla v"
  by (auto simp: v_wpis_def typ_wezla_def fun_eq_iff)

lemma wpis_zajmuje [simp]: "zajmuje (v_wpis v d b x r) = zajmuje v"
  by (auto simp: zajmuje_def fun_eq_iff)

lemma wpisy_v_wpis:
  assumes sp: "spojny v" and d: "typ_wezla v d = TYP_KATALOG" and z: "zajmuje v d k b" and j: "j < 64"
    and x: "\<And>l. l \<noteq> j \<Longrightarrow> wpis_z x l = wpis_z (vi_dane v b) l"
  shows "\<exists>xs ys. wpisy v d = xs @ wpis_lista (vi_dane v b) j @ ys \<and> wpisy (v_wpis v d b x r) d = xs @ wpis_lista x j @ ys"
    "d' \<noteq> d \<Longrightarrow> typ_wezla v d' = TYP_KATALOG \<Longrightarrow> wpisy (v_wpis v d b x r) d' = wpisy v d'"
proof -
  let ?v' = "v_wpis v d b x r"
  have bo: "bloki_ok v" using sp by (simp add: spojny_def)
  have k: "k < 490" "w_wskazniki (vi_wezel v d) k = b" "b \<noteq> BARK_BLOKU" using z by (simp_all add: zajmuje_def)
  have inne: "w_wskazniki (vi_wezel v d') l = b \<longleftrightarrow> d' = d \<and> l = k" if "typ_wezla v d' = TYP_KATALOG" "l < 490" for d' l
    using inny_blok [OF bo z] that by simp
  have "wpis_lista x l = wpis_lista (vi_dane v b) l" if "l \<noteq> j" for l using x [OF that] by (simp add: wpis_lista_def napis_wpisu_def)
  then obtain us vs where uv: "lista_bloku (vi_dane v b) = us @ wpis_lista (vi_dane v b) j @ vs" "lista_bloku x = us @ wpis_lista x j @ vs"
    unfolding lista_bloku_concat using concat_zmiana [OF j] by metis
  have "lista_pod (vi_dane ?v') (vi_wezel ?v' d) l = lista_pod (vi_dane v) (vi_wezel v d) l" if "l < 490" "l \<noteq> k" for l
    using inne [OF d that(1)] that by (auto simp: lista_pod_def)
  from concat_zmiana [OF k(1), of "lista_pod (vi_dane ?v') (vi_wezel ?v' d)" "lista_pod (vi_dane v) (vi_wezel v d)", OF this]
  obtain xs ys where "wpisy v d = xs @ lista_pod (vi_dane v) (vi_wezel v d) k @ ys"
    "wpisy ?v' d = xs @ lista_pod (vi_dane ?v') (vi_wezel ?v' d) k @ ys" unfolding wpisy_def by blast
  moreover have "lista_pod (vi_dane v) (vi_wezel v d) k = lista_bloku (vi_dane v b)"
    "lista_pod (vi_dane ?v') (vi_wezel ?v' d) k = lista_bloku x" using k by (simp_all add: lista_pod_def)
  ultimately have "wpisy v d = (xs @ us) @ wpis_lista (vi_dane v b) j @ (vs @ ys)" "wpisy ?v' d = (xs @ us) @ wpis_lista x j @ (vs @ ys)"
    using uv by simp_all
  then show "\<exists>xs ys. wpisy v d = xs @ wpis_lista (vi_dane v b) j @ ys \<and> wpisy (v_wpis v d b x r) d = xs @ wpis_lista x j @ ys" by blast
  assume d': "d' \<noteq> d" "typ_wezla v d' = TYP_KATALOG"
  show "wpisy ?v' d' = wpisy v d'"
    by (rule wpisy_rama) (use d' inne [OF d'(2)] in \<open>auto simp: lista_pod_def\<close>)
qed

text \<open>A directory's map after its entry \<open>E\<close> has become \<open>E'\<close>; each list has at most one entry.\<close>

definition zmien_mape :: "(u8 list \<rightharpoonup> u64) \<Rightarrow> (u8 list \<times> u64) list \<Rightarrow> (u8 list \<times> u64) list \<Rightarrow> (u8 list \<rightharpoonup> u64)" where
  "zmien_mape m E E' = (m |` (- fst ` set E)) ++ map_of E'"

lemma zmien_mape_wpisu [simp]:
  "zmien_mape m [] [(n, c)] = m(n \<mapsto> c)" "zmien_mape m [(n, c)] [] = m(n := None)"
  "zmien_mape m [(n, c)] [(n', c)] = m(n := None, n' \<mapsto> c)" "zmien_mape m [] [] = m"
  by (auto simp: zmien_mape_def restrict_map_def fun_eq_iff)

lemma map_of_srodek:
  assumes "distinct (map fst (xs @ E @ ys))" "distinct (map fst (xs @ E' @ ys))"
  shows "map_of (xs @ E' @ ys) = zmien_mape (map_of (xs @ E @ ys)) E E'"
proof
  fix n
  have d: "map_of (xs @ E @ ys) n = (if n \<in> fst ` set E then map_of E n else map_of (xs @ ys) n)"
    if "distinct (map fst (xs @ E @ ys))" for E
  proof (cases "n \<in> fst ` set E")
    case True
    then have "n \<notin> fst ` set xs" "n \<notin> fst ` set ys" using that by auto
    then have "map_of xs n = None" "map_of ys n = None" by (simp_all add: map_of_eq_None_iff)
    then show ?thesis using True by (simp add: map_add_def split: option.split)
  next
    case False
    then have "map_of E n = None" by (simp add: map_of_eq_None_iff)
    then show ?thesis using False by (simp add: map_add_def split: option.split)
  qed
  have n: "map_of E' n = None \<longleftrightarrow> n \<notin> fst ` set E'" by (rule map_of_eq_None_iff)
  have "map_of (xs @ ys) n = None" if "n \<in> fst ` set E"
  proof -
    have "n \<notin> fst ` set xs" "n \<notin> fst ` set ys" using assms(1) that by auto
    then have "map_of xs n = None" "map_of ys n = None" by (simp_all add: map_of_eq_None_iff)
    then show ?thesis by (simp add: map_add_def)
  qed
  then show "map_of (xs @ E' @ ys) n = zmien_mape (map_of (xs @ E @ ys)) E E' n"
    unfolding d [OF assms(2)] zmien_mape_def map_add_def restrict_map_def d [OF assms(1)]
    using n by (cases "map_of E' n") auto
qed

lemma wpis_ok:
  assumes sp: "spojny v" and d: "typ_wezla v d = TYP_KATALOG" and z: "zajmuje v d k b" and j: "j < 64"
    and x: "\<And>l. l \<noteq> j \<Longrightarrow> wpis_z x l = wpis_z (vi_dane v b) l"
    and r: "unat r + length (wpis_lista (vi_dane v b) j) = unat (w_rozmiar (vi_wezel v d)) + length (wpis_lista x j)"
    and e: "\<And>n c. (n, c) \<in> set (wpis_lista x j) \<Longrightarrow> nazwa_ok n \<and> c \<noteq> d \<and> typ_wezla v c \<noteq> TYP_WOLNY \<and>
      (sp_kat (system v) d n = None \<or> n \<in> fst ` set (wpis_lista (vi_dane v b) j))"
  shows "spojny (v_wpis v d b x r)" "pliki_ok v \<Longrightarrow> pliki_ok (v_wpis v d b x r)"
    "pliki_ok v \<Longrightarrow> system (v_wpis v d b x r) = (system v)\<lparr>sp_kat := (sp_kat (system v))
       (d := zmien_mape (sp_kat (system v) d) (wpis_lista (vi_dane v b) j) (wpis_lista x j))\<rparr>"
    "sp_kat (system (v_wpis v d b x r)) = (sp_kat (system v))
       (d := zmien_mape (sp_kat (system v) d) (wpis_lista (vi_dane v b) j) (wpis_lista x j))"
    "typ_wezla v i = TYP_PLIK \<Longrightarrow> plik_ok (vi_wezel v i) \<Longrightarrow>
       tresc_wezla (vi_dane (v_wpis v d b x r)) (vi_wezel (v_wpis v d b x r) i) = tresc_wezla (vi_dane v) (vi_wezel v i)"
proof -
  let ?v' = "v_wpis v d b x r" and ?E = "wpis_lista (vi_dane v b) j" and ?E' = "wpis_lista x j"
  have bo: "bloki_ok v" using sp by (simp add: spojny_def)
  have ko: "katalog_ok v d" using sp d by (simp add: spojny_def katalogi_ok_def)
  obtain xs ys where w: "wpisy v d = xs @ ?E @ ys" "wpisy ?v' d = xs @ ?E' @ ys" using wpisy_v_wpis(1) [OF sp d z j x] by blast
  have inne: "wpisy ?v' d' = wpisy v d'" if "d' \<noteq> d" "typ_wezla v d' = TYP_KATALOG" for d'
    by (rule wpisy_v_wpis(2) [OF sp d z j x that])
  have ds: "distinct (map fst (xs @ ?E @ ys))" using ko w(1) by (simp add: katalog_ok_def)
  have nie: "n \<notin> fst ` set xs \<union> fst ` set ys" if "(n, c) \<in> set ?E'" for n c
  proof
    assume n: "n \<in> fst ` set xs \<union> fst ` set ys"
    then have "n \<in> fst ` set (wpisy v d)" "n \<notin> fst ` set ?E" using ds w(1) by auto
    then have "sp_kat (system v) d n \<noteq> None" using d by (simp add: system_def map_of_eq_None_iff)
    then show False using e [OF that] \<open>n \<notin> fst ` set ?E\<close> by simp
  qed
  have l1: "?E' = [] \<or> (\<exists>n c. ?E' = [(n, c)])" by (cases "hd ?E'") (simp add: wpis_lista_def)
  have ds': "distinct (map fst (xs @ ?E' @ ys))" 
  proof (cases "?E' = []")
    case False
    then obtain n c where "?E' = [(n, c)]" using l1 by blast
    moreover from this have "n \<notin> fst ` set xs" "n \<notin> fst ` set ys" using nie [of n c] by simp_all
    ultimately show ?thesis using ds by (simp add: Int_Un_distrib)
  qed (use ds in auto)
  have "\<forall>p \<in> set xs \<union> set ys. case p of (n, c) \<Rightarrow> nazwa_ok n \<and> c \<noteq> d \<and> typ_wezla v c \<noteq> TYP_WOLNY"
    using ko w(1) by (simp only: katalog_ok_def set_append ball_Un) blast
  moreover have "\<forall>p \<in> set ?E'. case p of (n, c) \<Rightarrow> nazwa_ok n \<and> c \<noteq> d \<and> typ_wezla v c \<noteq> TYP_WOLNY"
    using e by blast
  moreover have "length (xs @ ?E' @ ys) = unat r" using ko r w(1) by (simp add: katalog_ok_def)
  ultimately have "katalog_ok ?v' d" unfolding katalog_ok_def w(2) using ds' by (simp add: ball_Un)
  moreover have "katalog_ok ?v' d'" if "typ_wezla v d' = TYP_KATALOG" "d' \<noteq> d" for d'
  proof -
    have "katalog_ok v d'" using sp that by (simp add: spojny_def katalogi_ok_def)
    then show ?thesis using inne [OF that(2,1)] that(2) by (simp add: katalog_ok_def)
  qed
  ultimately have "katalogi_ok ?v'" by (auto simp: katalogi_ok_def)
  moreover have "bloki_ok ?v'" using bo by (simp add: bloki_ok_def)
  moreover have "wezly_ok ?v'" using sp by (simp add: spojny_def wezly_ok_def)
  ultimately show "spojny ?v'" by (simp add: spojny_def)
  show "pliki_ok v \<Longrightarrow> pliki_ok ?v'" using d by (auto simp: pliki_ok_def)
  have tr: "tresc_wezla (vi_dane ?v') (vi_wezel ?v' i) = tresc_wezla (vi_dane v) (vi_wezel v i)"
    if i: "typ_wezla v i = TYP_PLIK" and po: "plik_ok (vi_wezel v i)" for i
  proof -
    have "w_wskazniki (vi_wezel v i) l \<noteq> b" if "l < 490" for l
      using inny_blok [OF bo z, of i l] that i d by auto
    moreover have "i \<noteq> d" using i d by auto
    ultimately show ?thesis by (intro tresc_rama [OF po]) auto
  qed
  then show "typ_wezla v i = TYP_PLIK \<Longrightarrow> plik_ok (vi_wezel v i) \<Longrightarrow>
       tresc_wezla (vi_dane ?v') (vi_wezel ?v' i) = tresc_wezla (vi_dane v) (vi_wezel v i)" .
  have "map_of (wpisy ?v' d) = zmien_mape (map_of (wpisy v d)) ?E ?E'" unfolding w by (rule map_of_srodek [OF ds ds'])
  then show kat: "sp_kat (system ?v') = (sp_kat (system v))(d := zmien_mape (sp_kat (system v) d) ?E ?E')"
    using d inne by (auto simp: system_def fun_eq_iff)
  assume po: "pliki_ok v"
  then have "sp_tresc (system ?v') = sp_tresc (system v)" using tr by (simp add: system_def pliki_ok_def fun_eq_iff)
  then show "system ?v' = (system v)\<lparr>sp_kat := (sp_kat (system v))(d := zmien_mape (sp_kat (system v) d) ?E ?E')\<rparr>"
    using kat by (intro system_plikow.equality) (simp_all add: system_def)
qed

end
