(* ===== verification/Psf_Katalogi.thy ===== *)
theory Psf_Katalogi
  imports Psf_Wpisy
begin

section \<open>BSP2: the directory operations of the code\<close>

text \<open>\<open>bsp2_ok\<close>: a mounted, consistent file system.\<close>

definition bsp2_ok :: "psf \<Rightarrow> bool" where
  "bsp2_ok s \<longleftrightarrow> geometria s \<and> ps_gotowy s \<and> spojny (widok s) \<and> pliki_ok (widok s)"

abbreviation pliki_i_katalogi :: "psf \<Rightarrow> system_plikow" where
  "pliki_i_katalogi s \<equiv> system (widok s)"

text \<open>A step that marks what it changes and leads to a consistent file system.\<close>

definition krok :: "psf \<Rightarrow> psf \<Rightarrow> system_plikow \<Rightarrow> bool" where
  "krok s s' A \<longleftrightarrow> (\<exists>v. zmiana {} s s' v) \<and> bsp2_ok s' \<and> pliki_i_katalogi s' = A"

lemma krokI:
  assumes "zmiana {} s s' v" "bsp2_ok s" "spojny v" "pliki_ok v" "system v = A"
  shows "krok s s' A"
proof -
  have "ps_gotowy s' = ps_gotowy s" by (rule zmiana_stale(8) [OF assms(1)])
  then show ?thesis
    using assms zmiana_geo [OF assms(1)] zmiana_widok [OF assms(1)] unfolding krok_def bsp2_ok_def by auto
qed

lemma krok_bez: "bsp2_ok s \<Longrightarrow> krok s s (pliki_i_katalogi s)"
  by (rule krokI [OF zmiana_bez]) (simp_all add: bsp2_ok_def)

lemma krok_ok: "krok s s' A \<Longrightarrow> bsp2_ok s' \<and> pliki_i_katalogi s' = A"
  by (simp add: krok_def)

lemma krok_zmiana: "krok s s' A \<Longrightarrow> zmiana {} s s' (widok s')"
  using zmiana_widok unfolding krok_def by blast

lemma krok_nast: "krok s s1 A \<Longrightarrow> krok s1 s2 B \<Longrightarrow> krok s s2 B"
  using zmiana_nast [of "{}" s s1 _ "{}" s2] unfolding krok_def by auto

text \<open>A step inside one node.\<close>

definition tylko_wezel :: "widok \<Rightarrow> widok \<Rightarrow> u64 \<Rightarrow> bool" where
  "tylko_wezel v v' d \<longleftrightarrow> (\<forall>i. i \<noteq> d \<longrightarrow> vi_wezel v' i = vi_wezel v i) \<and>
     (\<forall>i k b. i \<noteq> d \<longrightarrow> zajmuje v i k b \<longrightarrow> vi_dane v' b = vi_dane v b)"

lemma tylko_wezel_nast:
  assumes "tylko_wezel v v1 d" "tylko_wezel v1 v2 d"
  shows "tylko_wezel v v2 d"
proof -
  have w: "vi_wezel v1 i = vi_wezel v i" "vi_wezel v2 i = vi_wezel v1 i" if "i \<noteq> d" for i
    using assms that unfolding tylko_wezel_def by blast+
  have "vi_dane v2 b = vi_dane v b" if i: "i \<noteq> d" and z: "zajmuje v i k b" for i k b
  proof -
    have "zajmuje v1 i k b" using z unfolding zajmuje_def typ_wezla_def w(1) [OF i] .
    then have "vi_dane v2 b = vi_dane v1 b" using assms(2) i unfolding tylko_wezel_def by blast
    moreover have "vi_dane v1 b = vi_dane v b" using assms(1) i z unfolding tylko_wezel_def by blast
    ultimately show ?thesis by (rule trans)
  qed
  then show ?thesis unfolding tylko_wezel_def using w by metis
qed

lemma tylko_przydzial: "bloki_ok v \<Longrightarrow> \<not> vi_zajety v b \<Longrightarrow> tylko_wezel v (v_przydziel v d k b) d"
  using zajmuje_zajety [of v] by (auto simp: tylko_wezel_def)

lemma tylko_wpis:
  assumes "bloki_ok v" "zajmuje v d k b"
  shows "tylko_wezel v (v_wpis v d b x r) d"
proof -
  have "e \<noteq> b" if "i \<noteq> d" "zajmuje v i l e" for i l e
    using zajmuje_jeden [OF assms(1,2), of i l] that by blast
  then show ?thesis unfolding tylko_wezel_def by (auto simp: v_wpis_def)
qed

definition krok_wezla :: "u64 \<Rightarrow> psf \<Rightarrow> psf \<Rightarrow> system_plikow \<Rightarrow> bool" where
  "krok_wezla d s s' A \<longleftrightarrow> krok s s' A \<and> tylko_wezel (widok s) (widok s') d"

lemma krok_wezla_nast: "krok_wezla d s s1 A \<Longrightarrow> krok_wezla d s1 s2 B \<Longrightarrow> krok_wezla d s s2 B"
  unfolding krok_wezla_def using krok_nast tylko_wezel_nast by blast

lemma bsp2_typ_na_dysku: "typ_wezla (widok s) i \<noteq> TYP_WOLNY \<Longrightarrow> wezel_na_dysku s i"
  by (rule wolny_poza_dyskiem)

lemma bsp2_zajety:
  assumes "bsp2_ok s" "zajmuje (widok s) i k b"
  shows "b < ps_bloki s" "vi_zajety (widok s) b"
proof -
  show "vi_zajety (widok s) b" using assms by (intro zajmuje_zajety [of _ i k]) (simp_all add: bsp2_ok_def spojny_def)
  then show "b < ps_bloki s" using widok_pola(4) assms(1) by (simp add: bsp2_ok_def)
qed

subsection \<open>A block for a node\<close>

lemma przydziel_kod:
  assumes g: "geometria s" and i: "wezel_na_dysku s i" and k: "k < 490"
  shows "(\<forall>b < ps_bloki s. vi_zajety (widok s) b) \<and> zaalokuj_wolny_blok_danych s = (BARK_BLOKU, s) \<or>
    (\<exists>b s1. zaalokuj_wolny_blok_danych s = (b, s1) \<and> b \<noteq> BARK_BLOKU \<and> b < ps_bloki s \<and> \<not> vi_zajety (widok s) b \<and>
       zmiana {nr_wezla s i} s (ustaw_wskaznik s1 (nr_wezla s i) k b) (v_przydziel (widok s) i k b))"
proof -
  have "zmiana {nr_wezla s i} s (ustaw_wskaznik s1 (nr_wezla s i) k b) (v_przydziel (widok s) i k b)"
    if z: "zmiana {} s s1 (v_zajety (v_dane (widok s) b (puste_dane (vi_dane (widok s) b))) b True)" for s1 b
  proof -
    have "geometria s1" "wezel_na_dysku s1 i" "nr_wezla s1 i = nr_wezla s i"
      using zmiana_geo [OF z g] zmiana_stale [OF z] i by simp_all
    from zmiana_wskaznika [OF this(1,2) k, of b] this(3)
    have "zmiana {nr_wezla s i} s1 (ustaw_wskaznik s1 (nr_wezla s i) k b) (v_wezel (widok s1) i (z_wskaznikiem (vi_wezel (widok s1) i) k b))"
      by simp
    from zmiana_nast [OF z this] show ?thesis unfolding zmiana_widok [OF z] by (simp add: v_przydziel_def)
  qed
  then show ?thesis using zaalokuj_blok_widok [OF g] blok_nie_brak [OF g] by blast
qed

lemma v_oddaj_inaczej:
  "v_oddaj v i k = (let b = w_wskazniki (vi_wezel v i) k in
     v_wezel (v_zajety (v_dane v b (puste_dane (vi_dane v b))) b False) i (z_wskaznikiem (vi_wezel v i) k BARK_BLOKU))"
  by (intro widok.equality) (simp_all add: Let_def)

lemma oddaj_kod:
  assumes g: "geometria s" and i: "wezel_na_dysku s i" and k: "k < 490" and b: "w_wskazniki (vi_wezel (widok s) i) k = b" "vi_zajety (widok s) b"
  shows "\<exists>s1. zwolnij_blok_danych s b = (True, s1) \<and>
    zmiana {nr_wezla s i} s (ustaw_wskaznik s1 (nr_wezla s i) k BARK_BLOKU) (v_oddaj (widok s) i k)"
proof -
  obtain s1 where s1: "zwolnij_blok_danych s b = (True, s1)"
    and z: "zmiana {} s s1 (v_zajety (v_dane (widok s) b (puste_dane (vi_dane (widok s) b))) b False)"
    using zwolnij_blok_widok [OF g b(2)] by blast
  have "geometria s1" "wezel_na_dysku s1 i" "nr_wezla s1 i = nr_wezla s i"
    using zmiana_geo [OF z g] zmiana_stale [OF z] i by simp_all
  from zmiana_wskaznika [OF this(1,2) k, of BARK_BLOKU] this(3)
  have "zmiana {nr_wezla s i} s1 (ustaw_wskaznik s1 (nr_wezla s i) k BARK_BLOKU)
      (v_wezel (widok s1) i (z_wskaznikiem (vi_wezel (widok s1) i) k BARK_BLOKU))" by simp
  from zmiana_nast [OF z this] have "zmiana {nr_wezla s i} s (ustaw_wskaznik s1 (nr_wezla s i) k BARK_BLOKU) (v_oddaj (widok s) i k)"
    unfolding zmiana_widok [OF z] by (simp add: v_oddaj_inaczej b(1))
  then show ?thesis using s1 by blast
qed

text \<open>The roll-back order: pointer first.\<close>

lemma cofnij_kod:
  assumes g: "geometria s" and i: "wezel_na_dysku s i" and k: "k < 490" and b: "w_wskazniki (vi_wezel (widok s) i) k = b" "vi_zajety (widok s) b"
  shows "zmiana {nr_wezla s i} s (snd (zwolnij_blok_danych (ustaw_wskaznik s (nr_wezla s i) k BARK_BLOKU) b)) (v_oddaj (widok s) i k)"
proof -
  define s1 where "s1 = ustaw_wskaznik s (nr_wezla s i) k BARK_BLOKU"
  have z: "zmiana {nr_wezla s i} s s1 (v_wezel (widok s) i (z_wskaznikiem (vi_wezel (widok s) i) k BARK_BLOKU))"
    unfolding s1_def by (rule zmiana_wskaznika [OF g i k])
  note w1 = zmiana_widok [OF z]
  have "geometria s1" "vi_zajety (widok s1) b" using zmiana_geo [OF z g] b(2) w1 by simp_all
  from zwolnij_blok_widok [OF this] obtain s2 where s2: "zwolnij_blok_danych s1 b = (True, s2)"
    "zmiana {} s1 s2 (v_zajety (v_dane (widok s1) b (puste_dane (vi_dane (widok s1) b))) b False)" by blast
  from zmiana_nast [OF z s2(2)] show ?thesis unfolding s1_def [symmetric] s2(1) w1
    by (simp add: v_oddaj_def b(1))
qed

subsection \<open>One entry\<close>

lemma zmiana_wpisu:
  fixes f :: "blok \<Rightarrow> blok"
  assumes g: "geometria s" and d: "wezel_na_dysku s d" and b: "b < ps_bloki s"
  defines "s1 \<equiv> oznacz_dane_jako_brudne (zmien_blok s (nr_danych s b) f) b"
  shows "wezel s1 (nr_wezla s d) = vi_wezel (widok s) d"
    "zmiana {} s (oznacz_wezel_jako_brudny (ustaw_rozmiar s1 (nr_wezla s d) r) d) (v_wpis (widok s) d b (f (vi_dane (widok s) b)) r)"
    "zmiana {} s (oznacz_wezel_jako_brudny s1 d) (v_dane (widok s) b (f (vi_dane (widok s) b)))"
proof -
  have z: "zmiana {} s s1 (v_dane (widok s) b (f (vi_dane (widok s) b)))" unfolding s1_def by (rule zmiana_danych_brudna [OF g b])
  have g1: "geometria s1" and d1: "wezel_na_dysku s1 d" and nr: "nr_wezla s1 d = nr_wezla s d"
    using zmiana_geo [OF z g] zmiana_stale [OF z] d by simp_all
  show w: "wezel s1 (nr_wezla s d) = vi_wezel (widok s) d"
    using widok_pola(1) [OF g1 d1] nr zmiana_widok [OF z] by simp
  have "zmiana {} s1 (oznacz_wezel_jako_brudny (ustaw_rozmiar s1 (nr_wezla s d) r) d) (v_wezel (widok s1) d ((vi_wezel (widok s1) d)\<lparr>w_rozmiar := r\<rparr>))"
    using zmiana_oznaczona [OF zmiana_rozmiaru [OF g1 d1] g1 d1, of r] nr by simp
  from zmiana_nast [OF z this] show "zmiana {} s (oznacz_wezel_jako_brudny (ustaw_rozmiar s1 (nr_wezla s d) r) d)
      (v_wpis (widok s) d b (f (vi_dane (widok s) b)) r)"
    unfolding zmiana_widok [OF z] by (simp add: v_wpis_def)
  show "zmiana {} s (oznacz_wezel_jako_brudny s1 d) (v_dane (widok s) b (f (vi_dane (widok s) b)))"
    using zmiana_nast [OF z zmiana_oznacz(2) [of s1 d]] zmiana_widok [OF z] by simp
qed

lemma dlugosc_wpisow: "length (wpisy v d) \<le> 490 * 64"
proof -
  have b: "length (lista_bloku b) \<le> 64" for b
    using length_filter_le [of "\<lambda>j. wp_id (wpis_z b j) \<noteq> 0" "[0 ..< 64]"] by (simp add: lista_bloku_def zywe_wpisy_def)
  have "length (concat (map (lista_pod (vi_dane v) (vi_wezel v d)) ks)) \<le> length ks * 64" for ks
  proof (induction ks)
    case (Cons k ks)
    then show ?case using b [of "vi_dane v (w_wskazniki (vi_wezel v d) k)"] by (auto simp: lista_pod_def)
  qed simp
  from this [of "[0 ..< 490]"] show ?thesis by (simp add: wpisy_def)
qed

lemma wpisz_wpis [simp]:
  "l \<noteq> j \<Longrightarrow> wpis_z (ustaw_id_wpisu (ustaw_nazwe_wpisu b j n) j c) l = wpis_z b l"
  "l \<noteq> j \<Longrightarrow> wpis_z (ustaw_nazwe_wpisu b j n) l = wpis_z b l"
  "wpis_lista (ustaw_id_wpisu (ustaw_nazwe_wpisu b j n) j c) j = (if c = 0 then [] else [(znaki_nazwy n, c)])"
  "wpis_lista (ustaw_nazwe_wpisu b j n) j = (if wp_id (wpis_z b j) = 0 then [] else [(znaki_nazwy n, wp_id (wpis_z b j))])"
  by (auto simp: wpis_lista_def napis_wpisu_def)

text \<open>A new entry in a free place.\<close>

lemma dodaj_w_miejsce:
  assumes ok: "bsp2_ok s" and d: "typ_wezla (widok s) d = TYP_KATALOG" and z: "zajmuje (widok s) d k b" and j: "j < 64"
    and wolny: "wp_id (wpis_z (vi_dane (widok s) b) j) = 0"
    and c: "typ_wezla (widok s) c \<noteq> TYP_WOLNY" "c \<noteq> d" "nazwa_ok (znaki_nazwy n)"
    and kat: "sp_kat (pliki_i_katalogi s) d (znaki_nazwy n) = None"
  defines "s1 \<equiv> oznacz_dane_jako_brudne (zmien_blok s (nr_danych s b) (\<lambda>x. ustaw_id_wpisu (ustaw_nazwe_wpisu x j n) j c)) b"
  shows "krok_wezla d s (oznacz_wezel_jako_brudny (ustaw_rozmiar s1 (nr_wezla s d) (w_rozmiar (wezel s1 (nr_wezla s d)) + 1)) d)
    ((pliki_i_katalogi s)\<lparr>sp_kat := (sp_kat (pliki_i_katalogi s))(d := (sp_kat (pliki_i_katalogi s) d)(znaki_nazwy n \<mapsto> c))\<rparr>)"
proof -
  have g: "geometria s" and sp: "spojny (widok s)" and po: "pliki_ok (widok s)" using ok by (simp_all add: bsp2_ok_def)
  have dd: "wezel_na_dysku s d" and cd: "wezel_na_dysku s c" using bsp2_typ_na_dysku [of s] d c by simp_all
  then have c0: "c \<noteq> 0" by (simp add: wezel_na_dysku_def)
  have b: "b < ps_bloki s" by (rule bsp2_zajety [OF ok z])
  note zw = zmiana_wpisu [OF g dd b, of "\<lambda>x. ustaw_id_wpisu (ustaw_nazwe_wpisu x j n) j c", folded s1_def]
  let ?r = "w_rozmiar (vi_wezel (widok s) d) + 1"
  have "unat (w_rozmiar (vi_wezel (widok s) d)) \<le> 490 * 64"
    using sp d dlugosc_wpisow [of "widok s" d] by (simp add: spojny_def katalogi_ok_def katalog_ok_def)
  then have r: "unat ?r = unat (w_rozmiar (vi_wezel (widok s) d)) + 1" by (subst unat_add_u64) simp_all
  have E: "wpis_lista (vi_dane (widok s) b) j = []" using wolny by (simp add: wpis_lista_def)
  define x where "x = ustaw_id_wpisu (ustaw_nazwe_wpisu (vi_dane (widok s) b) j n) j c"
  have x1: "wpis_z x l = wpis_z (vi_dane (widok s) b) l" if "l \<noteq> j" for l using that by (simp add: x_def)
  have E': "wpis_lista x j = [(znaki_nazwy n, c)]" using c0 by (simp add: x_def)
  have x2: "unat ?r + length (wpis_lista (vi_dane (widok s) b) j) = unat (w_rozmiar (vi_wezel (widok s) d)) + length (wpis_lista x j)"
    using r E E' by simp
  have x3: "nazwa_ok m \<and> e \<noteq> d \<and> typ_wezla (widok s) e \<noteq> TYP_WOLNY \<and>
      (sp_kat (pliki_i_katalogi s) d m = None \<or> m \<in> fst ` set (wpis_lista (vi_dane (widok s) b) j))"
    if "(m, e) \<in> set (wpis_lista x j)" for m e using that E' c kat by simp
  note wo = wpis_ok [OF sp d z j x1 x2 x3]
  have "pliki_ok (v_wpis (widok s) d b x ?r)" by (rule wo(2) [OF _ _ po])
  moreover have "system (v_wpis (widok s) d b x ?r) = (pliki_i_katalogi s)\<lparr>sp_kat := (sp_kat (pliki_i_katalogi s))
      (d := (sp_kat (pliki_i_katalogi s) d)(znaki_nazwy n \<mapsto> c))\<rparr>"
    using wo(3) [OF _ _ po] by (simp add: E E')
  ultimately have "krok s (oznacz_wezel_jako_brudny (ustaw_rozmiar s1 (nr_wezla s d) (w_rozmiar (wezel s1 (nr_wezla s d)) + 1)) d)
    ((pliki_i_katalogi s)\<lparr>sp_kat := (sp_kat (pliki_i_katalogi s))(d := (sp_kat (pliki_i_katalogi s) d)(znaki_nazwy n \<mapsto> c))\<rparr>)"
    unfolding zw(1) using zw(2) wo(1) by (intro krokI [OF _ ok]) (auto simp: x_def)
  moreover have "bloki_ok (widok s)" using sp by (simp add: spojny_def)
  ultimately show ?thesis using tylko_wpis [OF _ z] zmiana_widok [OF zw(2)] unfolding krok_wezla_def zw(1) by simp
qed

text \<open>A block taken for a node by the code's three steps.\<close>

lemma przydziel_krok:
  assumes ok: "bsp2_ok s" and i: "typ_wezla (widok s) i \<noteq> TYP_WOLNY" "k < 490" "w_wskazniki (vi_wezel (widok s) i) k = BARK_BLOKU"
  shows "(\<forall>b < ps_bloki s. vi_zajety (widok s) b) \<and> zaalokuj_wolny_blok_danych s = (BARK_BLOKU, s) \<or>
    (\<exists>b s1. zaalokuj_wolny_blok_danych s = (b, s1) \<and> b \<noteq> BARK_BLOKU \<and>
       zmiana {nr_wezla s i} s (ustaw_wskaznik s1 (nr_wezla s i) k b) (v_przydziel (widok s) i k b) \<and>
       krok_wezla i s (oznacz_wezel_jako_brudny (ustaw_wskaznik s1 (nr_wezla s i) k b) i) (pliki_i_katalogi s) \<and>
       widok (oznacz_wezel_jako_brudny (ustaw_wskaznik s1 (nr_wezla s i) k b) i) = v_przydziel (widok s) i k b \<and>
       \<not> vi_zajety (widok s) b \<and> b < ps_bloki s)"
proof -
  have g: "geometria s" and sp: "spojny (widok s)" and po: "pliki_ok (widok s)" using ok by (simp_all add: bsp2_ok_def)
  have d: "wezel_na_dysku s i" by (rule bsp2_typ_na_dysku [OF i(1)])
  have "krok_wezla i s (oznacz_wezel_jako_brudny (ustaw_wskaznik s1 (nr_wezla s i) k b) i) (pliki_i_katalogi s) \<and>
      widok (oznacz_wezel_jako_brudny (ustaw_wskaznik s1 (nr_wezla s i) k b) i) = v_przydziel (widok s) i k b"
    if b: "b \<noteq> BARK_BLOKU" "\<not> vi_zajety (widok s) b"
      and z: "zmiana {nr_wezla s i} s (ustaw_wskaznik s1 (nr_wezla s i) k b) (v_przydziel (widok s) i k b)" for b s1
  proof -
    note z' = zmiana_oznaczona [OF z g d]
    have "bloki_ok (widok s)" using sp by (simp add: spojny_def)
    then have "tylko_wezel (widok s) (v_przydziel (widok s) i k b) i" using b(2) by (rule tylko_przydzial)
    then show ?thesis using krokI [OF z' ok] przydziel_ok [OF sp i b] po zmiana_widok [OF z'] unfolding krok_wezla_def by simp
  qed
  then show ?thesis using przydziel_kod [OF g d i(2)] by blast
qed

lemma pusty_blok_katalogu: "find (\<lambda>j. wp_id (wpis_z (puste_dane b) j) = 0) [0 ..< 64] = Some 0"
  by (simp add: upt_conv_Cons puste_dane_def wpis_w_zerach)

lemma dodaj_wpis_od_krok:
  assumes ok: "bsp2_ok s" and d: "typ_wezla (widok s) d = TYP_KATALOG"
    and c: "typ_wezla (widok s) c \<noteq> TYP_WOLNY" "c \<noteq> d" and n: "nazwa_ok (znaki_nazwy t)"
    and kat: "sp_kat (pliki_i_katalogi s) d (znaki_nazwy t) = None"
  shows "set ks \<subseteq> {..< 490} \<Longrightarrow> case dodaj_wpis_od s d (nr_wezla s d) c t ks of (udane, s') \<Rightarrow>
    if udane then krok_wezla d s s' ((pliki_i_katalogi s)\<lparr>sp_kat := (sp_kat (pliki_i_katalogi s))
        (d := (sp_kat (pliki_i_katalogi s) d)(znaki_nazwy t \<mapsto> c))\<rparr>) else s' = s"
proof (induction ks)
  case (Cons k ks)
  have g: "geometria s" using ok by (simp add: bsp2_ok_def)
  have dd: "wezel_na_dysku s d" using bsp2_typ_na_dysku [of s d] d by simp
  let ?stary = "w_wskazniki (vi_wezel (widok s) d) k"
  let ?K = "\<lambda>s'. krok_wezla d s s' ((pliki_i_katalogi s)\<lparr>sp_kat := (sp_kat (pliki_i_katalogi s))
        (d := (sp_kat (pliki_i_katalogi s) d)(znaki_nazwy t \<mapsto> c))\<rparr>)"
  have k: "k < 490" using Cons.prems by simp
  have w: "wezel s (nr_wezla s d) = vi_wezel (widok s) d" using widok_pola(1) [OF g dd] .
  have nazwa: "\<exists>n. kopiuj_nazwe cel t = Some n \<and> znaki_nazwy n = znaki_nazwy t" for cel
    using kopiuj_nazwe_znaki [of cel t] n by (cases "kopiuj_nazwe cel t") auto
  show ?case
  proof (cases "?stary = BARK_BLOKU")
    case True
    consider "zaalokuj_wolny_blok_danych s = (BARK_BLOKU, s)"
      | b s1 where "zaalokuj_wolny_blok_danych s = (b, s1)" "b \<noteq> BARK_BLOKU" "b < ps_bloki s"
        "krok_wezla d s (oznacz_wezel_jako_brudny (ustaw_wskaznik s1 (nr_wezla s d) k b) d) (pliki_i_katalogi s)"
        "widok (oznacz_wezel_jako_brudny (ustaw_wskaznik s1 (nr_wezla s d) k b) d) = v_przydziel (widok s) d k b"
      using przydziel_krok [OF ok _ k True] d by auto
    then show ?thesis
    proof cases
      case 1
      then show ?thesis using True w by simp
    next
      case (2 b s1)
      define s2 where "s2 = oznacz_wezel_jako_brudny (ustaw_wskaznik s1 (nr_wezla s d) k b) d"
      note kr = 2(4) [folded s2_def] and w2 = 2(5) [folded s2_def]
      have kr1: "krok s s2 (pliki_i_katalogi s)" using kr by (simp add: krok_wezla_def)
      note st = zmiana_stale [OF krok_zmiana [OF kr1]]
      have ok2: "bsp2_ok s2" and sys: "pliki_i_katalogi s2 = pliki_i_katalogi s" using krok_ok [OF kr1] by auto
      then have g2: "geometria s2" by (simp add: bsp2_ok_def)
      have b2: "b < ps_bloki s2" using 2(3) st by simp
      have da: "vi_dane (widok s2) b = puste_dane (vi_dane (widok s) b)" by (simp add: w2)
      have f: "find (\<lambda>j. wp_id (wpis s2 (nr_danych s2 b) j) = 0) indeksy_wpisow = Some 0"
        using pusty_blok_katalogu by (simp add: wpis_danych [OF g2 b2] da)
      obtain nn where nn: "kopiuj_nazwe (wp_nazwa (wpis s2 (nr_danych s2 b) 0)) t = Some nn" "znaki_nazwy nn = znaki_nazwy t"
        using nazwa by blast
      have "zajmuje (widok s2) d k b" "typ_wezla (widok s2) d = TYP_KATALOG" "typ_wezla (widok s2) c \<noteq> TYP_WOLNY"
        "wp_id (wpis_z (vi_dane (widok s2) b) 0) = 0"
        using d k c 2(2) unfolding da by (simp_all add: w2 zajmuje_def puste_dane_def wpis_w_zerach)
      moreover have "sp_kat (pliki_i_katalogi s2) d (znaki_nazwy nn) = None" "nazwa_ok (znaki_nazwy nn)"
        unfolding sys nn(2) by (rule kat, rule n)
      ultimately have "krok_wezla d s2 (oznacz_wezel_jako_brudny (ustaw_rozmiar (oznacz_dane_jako_brudne (zmien_blok s2 (nr_danych s2 b)
          (\<lambda>x. ustaw_id_wpisu (ustaw_nazwe_wpisu x 0 nn) 0 c)) b) (nr_wezla s2 d) (w_rozmiar (wezel (oznacz_dane_jako_brudne
          (zmien_blok s2 (nr_danych s2 b) (\<lambda>x. ustaw_id_wpisu (ustaw_nazwe_wpisu x 0 nn) 0 c)) b) (nr_wezla s2 d)) + 1)) d)
        ((pliki_i_katalogi s2)\<lparr>sp_kat := (sp_kat (pliki_i_katalogi s2))
          (d := (sp_kat (pliki_i_katalogi s2) d)(znaki_nazwy nn \<mapsto> c))\<rparr>)"
        using c(2) by (intro dodaj_w_miejsce [OF ok2]) simp_all
      from krok_wezla_nast [OF kr this [unfolded sys nn(2)]]
      have "?K (oznacz_wezel_jako_brudny (ustaw_rozmiar (oznacz_dane_jako_brudne (zmien_blok s2 (nr_danych s2 b)
          (\<lambda>x. ustaw_id_wpisu (ustaw_nazwe_wpisu x 0 nn) 0 c)) b) (nr_wezla s2 d) (w_rozmiar (wezel (oznacz_dane_jako_brudne
          (zmien_blok s2 (nr_danych s2 b) (\<lambda>x. ustaw_id_wpisu (ustaw_nazwe_wpisu x 0 nn) 0 c)) b) (nr_wezla s2 d)) + 1)) d)" .
      then show ?thesis using True w 2(1,2,3) f nn(1) st
        by (simp add: Let_def s2_def [symmetric] pobierz_wpisy_geo [OF g2] b2)
    qed
  next
    case False
    have z: "zajmuje (widok s) d k ?stary" using d k False by (simp add: zajmuje_def)
    have b: "?stary < ps_bloki s" by (rule bsp2_zajety [OF ok z])
    define r where "r = find (\<lambda>j. wp_id (wpis_z (vi_dane (widok s) ?stary) j) = 0) [0 ..< 64]"
    have f: "find (\<lambda>j. wp_id (wpis s (nr_danych s ?stary) j) = 0) indeksy_wpisow = r"
      by (simp add: wpis_danych [OF g b] r_def)
    show ?thesis
    proof (cases r)
      case None
      then show ?thesis using False w f Cons by (simp add: Let_def pobierz_wpisy_geo [OF g] b)
    next
      case (Some j)
      then have j: "j < 64" "wp_id (wpis_z (vi_dane (widok s) ?stary) j) = 0" unfolding r_def find_Some_iff by auto
      obtain nn where nn: "kopiuj_nazwe (wp_nazwa (wpis s (nr_danych s ?stary) j)) t = Some nn" "znaki_nazwy nn = znaki_nazwy t"
        using nazwa by blast
      from dodaj_w_miejsce [OF ok d z j c, of nn] n kat nn(2)
      show ?thesis using False w f nn(1) Some by (simp add: Let_def pobierz_wpisy_geo [OF g] b)
    qed
  qed
qed simp

lemma dodaj_wpis_krok:
  assumes ok: "bsp2_ok s" and c: "typ_wezla (widok s) c \<noteq> TYP_WOLNY" "c \<noteq> d"
  shows "case dodaj_wpis_do_katalogu s d c t of (udane, s') \<Rightarrow>
    if udane then nazwa_ok (znaki_nazwy t) \<and> typ_wezla (widok s) d = TYP_KATALOG \<and> sp_kat (pliki_i_katalogi s) d (znaki_nazwy t) = None \<and>
      krok_wezla d s s' ((pliki_i_katalogi s)\<lparr>sp_kat := (sp_kat (pliki_i_katalogi s))
        (d := (sp_kat (pliki_i_katalogi s) d)(znaki_nazwy t \<mapsto> c))\<rparr>) else s' = s"
proof -
  have g: "geometria s" and sp: "spojny (widok s)" using ok by (simp_all add: bsp2_ok_def)
  have cd: "wezel_na_dysku s c" by (rule bsp2_typ_na_dysku [OF c(1)])
  show ?thesis
  proof (cases "nazwa_ok (znaki_nazwy t) \<and> typ_wezla (widok s) d = TYP_KATALOG \<and> \<not> zw_znaleziony (znajdz_wpis_w_katalogu s d t)")
    case True
    then have dd: "wezel_na_dysku s d" using bsp2_typ_na_dysku [of s d] by simp
    have e: "dodaj_wpis_do_katalogu s d c t = dodaj_wpis_od s d (nr_wezla s d) c t [0 ..< 490]"
      using True cd dd by (simp add: dodaj_wpis_do_katalogu_def poprawna_nazwa_znaki pobierz_wezel_geo [OF g] g typ_wezla_def)
    have kat: "sp_kat (pliki_i_katalogi s) d (znaki_nazwy t) = None" using brak_kroku [OF g sp] True by simp
    have "set [0 ..< 490] \<subseteq> {..< 490}" by auto
    from dodaj_wpis_od_krok [OF ok _ c _ kat this] show ?thesis unfolding e using True kat by auto
  next
    case False
    then have "dodaj_wpis_do_katalogu s d c t = (False, s)"
      by (auto simp: dodaj_wpis_do_katalogu_def poprawna_nazwa_znaki pobierz_wezel_geo [OF g] g typ_wezla_def)
    then show ?thesis by simp
  qed
qed

end
