(* ===== verification/Psf_Tworzenie.thy ===== *)
theory Psf_Tworzenie
  imports Psf_Katalogi
begin

section \<open>BSP2: creating, removing, renaming and moving\<close>

subsection \<open>The operations on the abstract file system\<close>

definition a_utworz :: "system_plikow \<Rightarrow> u64 \<Rightarrow> u8 list \<Rightarrow> u64 \<Rightarrow> u8 \<Rightarrow> system_plikow" where
  "a_utworz A d n i t = A\<lparr>sp_typ := (sp_typ A)(i := t), sp_kat := (sp_kat A)(d := (sp_kat A d)(n \<mapsto> i))\<rparr>"

definition a_usun :: "system_plikow \<Rightarrow> u64 \<Rightarrow> u8 list \<Rightarrow> u64 \<Rightarrow> system_plikow" where
  "a_usun A d n i = A\<lparr>sp_typ := (sp_typ A)(i := TYP_WOLNY), sp_kat := (sp_kat A)(i := Map.empty, d := (sp_kat A d)(n := None)),
     sp_tresc := (sp_tresc A)(i := [])\<rparr>"

definition a_zmien_nazwe :: "system_plikow \<Rightarrow> u64 \<Rightarrow> u8 list \<Rightarrow> u8 list \<Rightarrow> u64 \<Rightarrow> system_plikow" where
  "a_zmien_nazwe A d n n' i = A\<lparr>sp_kat := (sp_kat A)(d := (sp_kat A d)(n := None, n' \<mapsto> i))\<rparr>"

definition a_przenies :: "system_plikow \<Rightarrow> u64 \<Rightarrow> u64 \<Rightarrow> u8 list \<Rightarrow> u64 \<Rightarrow> system_plikow" where
  "a_przenies A d d' n i = A\<lparr>sp_kat := (sp_kat A)(d' := (sp_kat A d')(n \<mapsto> i), d := (sp_kat A d)(n := None))\<rparr>"

definition a_zapisz :: "system_plikow \<Rightarrow> u64 \<Rightarrow> u8 list \<Rightarrow> system_plikow" where
  "a_zapisz A i dane = A\<lparr>sp_tresc := (sp_tresc A)(i := dane)\<rparr>"

text \<open>A path's node and its parent directory.\<close>

definition a_wezel :: "system_plikow \<Rightarrow> u64 \<Rightarrow> tekst \<Rightarrow> u64 option" where
  "a_wezel A k p = (if bezpieczna_sciezka p then spacer_po (sp_kat A) k (segmenty_sciezki p) else None)"

definition a_rodzic :: "system_plikow \<Rightarrow> u64 \<Rightarrow> tekst \<Rightarrow> (u64 \<times> u8 list) option" where
  "a_rodzic A k p = (if bezpieczna_sciezka p \<and> segmenty_sciezki p \<noteq> []
     then map_option (\<lambda>d. (d, last (segmenty_sciezki p))) (rodzic_sciezki A k (segmenty_sciezki p)) else None)"

subsection \<open>The write-through does not touch the RAM disk\<close>

lemma zapis_zmian_pola:
  "ps_ram (snd (bsp_zapisz_zmiany E s)) = ps_ram s" "ps_ram_dysk (snd (bsp_zapisz_zmiany E s)) = ps_ram_dysk s"
  "ps_superblok (snd (bsp_zapisz_zmiany E s)) = ps_superblok s" "ps_rozmiar (snd (bsp_zapisz_zmiany E s)) = ps_rozmiar s"
  "ps_wezly (snd (bsp_zapisz_zmiany E s)) = ps_wezly s" "ps_bloki (snd (bsp_zapisz_zmiany E s)) = ps_bloki s"
  "ps_gotowy (snd (bsp_zapisz_zmiany E s)) = ps_gotowy s" "ps_ahci (snd (bsp_zapisz_zmiany E s)) = ps_ahci s"
  "ps_trwaly (snd (bsp_zapisz_zmiany E s)) = ps_trwaly s"
  unfolding bsp_zapisz_zmiany_def wyczysc_liste_brudnych_def Let_def by (simp_all split: prod.split)

lemma widok_zapisu:
  "widok (snd (bsp_zapisz_zmiany E s)) = widok s" "geometria (snd (bsp_zapisz_zmiany E s)) = geometria s"
proof -
  let ?s = "snd (bsp_zapisz_zmiany E s)"
  note p = zapis_zmian_pola [of E s]
  have b: "sb ?s = sb s" unfolding sb_def p ..
  have pb: "pobierz_blok ?s nr = pobierz_blok s nr" for nr unfolding pobierz_blok_def p b ..
  have "czy_blok_danych_zajety ?s = czy_blok_danych_zajety s"
    by (rule ext) (unfold czy_blok_danych_zajety_def lokalizacja_bitmapy_def id_bloku_danych_poprawne_def pb p b, rule refl)
  then show "widok ?s = widok s" unfolding widok_def wezel_na_dysku_def wezel_def nr_wezla_def nr_danych_def p b by simp
  show "geometria ?s = geometria s" unfolding geometria_def p b ..
qed

lemma bsp2_zapisu: "bsp2_ok (snd (bsp_zapisz_zmiany E s)) = bsp2_ok s"
  unfolding bsp2_ok_def widok_zapisu zapis_zmian_pola ..

lemma korzen_zapisu: "korzen (snd (bsp_zapisz_zmiany E s)) = korzen s"
  unfolding sb_def zapis_zmian_pola ..

text \<open>A step, or a step and the write-through.\<close>

definition krok_api :: "otoczenie \<Rightarrow> psf \<Rightarrow> psf \<Rightarrow> system_plikow \<Rightarrow> bool" where
  "krok_api E s s' A \<longleftrightarrow> (\<exists>s1. krok s s1 A \<and> (s' = s1 \<or> s' = snd (bsp_zapisz_zmiany E s1)))"

lemma krok_apiI: "krok s s1 A \<Longrightarrow> krok_api E s s1 A" "krok s s1 A \<Longrightarrow> krok_api E s (snd (bsp_zapisz_zmiany E s1)) A"
  unfolding krok_api_def by blast+

lemma krok_api_ok: "krok_api E s s' A \<Longrightarrow> bsp2_ok s' \<and> pliki_i_katalogi s' = A"
  unfolding krok_api_def using krok_ok bsp2_zapisu widok_zapisu(1) by metis

lemma krok_api_korzen: "krok_api E s s' A \<Longrightarrow> korzen s' = korzen s"
  unfolding krok_api_def using zmiana_stale(3) [OF krok_zmiana] korzen_zapisu by metis

subsection \<open>A new node\<close>

lemma v_wezel_dwa [simp]: "v_wezel (v_wezel v i w) i w' = v_wezel v i w'" "v_wezel v i (vi_wezel v i) = v"
  by (simp_all add: v_wezel_def)

lemma metadane_wezla:
  assumes g: "geometria s" and i: "wezel_na_dysku s i" and w: "wezel_bez_blokow t (vi_wezel (widok s) i)"
  shows "\<exists>w'. wezel_bez_blokow t w' \<and>
    zmiana {} s (oznacz_wezel_jako_brudny (ustaw_metadane_nowego_wezla rtc s (nr_wezla s i) pzb) i) (v_wezel (widok s) i w')"
proof -
  have wz: "wezel_z (ps_ram s (nr_wezla s i)) = vi_wezel (widok s) i" by (rule wezel_z_ram [OF g i])
  have "\<exists>w'. wezel_bez_blokow t w' \<and> zmiana {nr_wezla s i} s (ustaw_metadane_nowego_wezla rtc s (nr_wezla s i) pzb) (v_wezel (widok s) i w')"
  proof (cases "pzb > 5")
    case True
    then show ?thesis using w zmiana_bez [of "{nr_wezla s i}" s] by (intro exI [of _ "vi_wezel (widok s) i"]) (simp add: ustaw_metadane_nowego_wezla_def)
  next
    case False
    define f where "f = (\<lambda>b. case zapakuj_prawdziwy_czas_rtc rtc of
        None \<Rightarrow> zapisz64 b 0x011 (PSF_META_MAGIC OR PSF_META_WERSJA_1 OR PSF_META_PZB_WAZNY OR ucast pzb)
      | Some czas \<Rightarrow> zapisz64 (zapisz64 b 0x009 czas) 0x011 ((PSF_META_MAGIC OR PSF_META_WERSJA_1 OR PSF_META_PZB_WAZNY OR ucast pzb) OR PSF_META_CZAS_WAZNY))"
    have "ustaw_metadane_nowego_wezla rtc s (nr_wezla s i) pzb = zmien_blok s (nr_wezla s i) f"
      using False by (simp add: ustaw_metadane_nowego_wezla_def f_def Let_def)
    moreover have "wezel_bez_blokow t (wezel_z (f (ps_ram s (nr_wezla s i))))"
      using w by (simp add: f_def wz wezel_bez_blokow_def split: option.split)
    ultimately show ?thesis using zmiana_wezla [OF g i, of f] by auto
  qed
  then show ?thesis using zmiana_oznaczona [OF _ g i] by blast
qed

lemma nowy_wezel_krok:
  assumes ok: "bsp2_ok s" and t: "t \<in> {TYP_PLIK, TYP_KATALOG}"
  shows "zaalokuj_wolny_wezel s t = (0, s) \<and> (\<forall>i. wezel_na_dysku s i \<longrightarrow> typ_wezla (widok s) i \<noteq> TYP_WOLNY) \<or>
    (\<exists>i s1. zaalokuj_wolny_wezel s t = (i, s1) \<and> i \<noteq> 0 \<and> typ_wezla (widok s) i = TYP_WOLNY \<and> pobierz_wezel s1 i = Some (nr_wezla s1 i) \<and>
      krok s (oznacz_wezel_jako_brudny (ustaw_metadane_nowego_wezla rtc s1 (nr_wezla s1 i) pzb) i)
        ((pliki_i_katalogi s)\<lparr>sp_typ := (sp_typ (pliki_i_katalogi s))(i := t)\<rparr>) \<and>
      wezel_bez_blokow t (vi_wezel (widok (oznacz_wezel_jako_brudny (ustaw_metadane_nowego_wezla rtc s1 (nr_wezla s1 i) pzb) i)) i))"
proof -
  have g: "geometria s" and sp: "spojny (widok s)" and po: "pliki_ok (widok s)" using ok by (simp_all add: bsp2_ok_def)
  have "i \<noteq> 0 \<and> pobierz_wezel s1 i = Some (nr_wezla s1 i) \<and>
      krok s (oznacz_wezel_jako_brudny (ustaw_metadane_nowego_wezla rtc s1 (nr_wezla s1 i) pzb) i)
        ((pliki_i_katalogi s)\<lparr>sp_typ := (sp_typ (pliki_i_katalogi s))(i := t)\<rparr>) \<and>
      wezel_bez_blokow t (vi_wezel (widok (oznacz_wezel_jako_brudny (ustaw_metadane_nowego_wezla rtc s1 (nr_wezla s1 i) pzb) i)) i)"
    if i: "wezel_na_dysku s i" "typ_wezla (widok s) i = TYP_WOLNY" and z: "zmiana {} s s1 (v_wezel (widok s) i (wezel_pusty t))" for i s1
  proof -
    have g1: "geometria s1" and i1: "wezel_na_dysku s1 i" using zmiana_geo [OF z g] zmiana_stale [OF z] i by simp_all
    obtain w' where w': "wezel_bez_blokow t w'"
      "zmiana {} s1 (oznacz_wezel_jako_brudny (ustaw_metadane_nowego_wezla rtc s1 (nr_wezla s1 i) pzb) i) (v_wezel (widok s1) i w')"
      using metadane_wezla [OF g1 i1, of t rtc pzb] zmiana_widok [OF z] by auto
    from zmiana_nast [OF z w'(2)] have z2: "zmiana {} s (oznacz_wezel_jako_brudny (ustaw_metadane_nowego_wezla rtc s1 (nr_wezla s1 i) pzb) i)
        (v_wezel (widok s) i w')" unfolding zmiana_widok [OF z] by simp
    have "i \<noteq> 0" using i by (simp add: wezel_na_dysku_def)
    moreover have "krok s (oznacz_wezel_jako_brudny (ustaw_metadane_nowego_wezla rtc s1 (nr_wezla s1 i) pzb) i)
        ((pliki_i_katalogi s)\<lparr>sp_typ := (sp_typ (pliki_i_katalogi s))(i := t)\<rparr>)"
      by (rule krokI [OF z2 ok nowy_wezel_ok(1) [OF sp i(2) w'(1) t] nowy_wezel_ok(2) [OF sp i(2) w'(1) t po] nowy_wezel_ok(3) [OF sp i(2) w'(1) t]])
    ultimately show ?thesis using w'(1) zmiana_widok [OF z2] g1 i1 by (simp add: pobierz_wezel_geo)
  qed
  then show ?thesis using zaalokuj_wezel_widok [OF g, of t] unfolding typ_wezla_def by blast
qed

lemma wolny_w_systemie:
  assumes "spojny v" "typ_wezla v i = TYP_WOLNY"
  shows "sp_kat (system v) i = Map.empty" "sp_tresc (system v) i = []" "sp_kat (system v) d n \<noteq> Some i"
proof -
  show "sp_kat (system v) i = Map.empty" "sp_tresc (system v) i = []" using assms(2) by (simp_all add: system_def)
  show "sp_kat (system v) d n \<noteq> Some i" using assms(2) wpisy_nazwy_ok(5) [OF assms(1), of d n i] by auto
qed

text \<open>Freeing a node without blocks and without an entry.\<close>

lemma zwolnij_wezel_krok:
  assumes ok: "bsp2_ok s" and i: "typ_wezla (widok s) i \<noteq> TYP_WOLNY" "\<And>k b. \<not> zajmuje (widok s) i k b"
    and n: "\<And>d n. sp_kat (pliki_i_katalogi s) d n \<noteq> Some i"
  shows "\<exists>s'. zwolnij_wezel s i = (True, s') \<and> krok s s' ((pliki_i_katalogi s)\<lparr>sp_typ := (sp_typ (pliki_i_katalogi s))(i := TYP_WOLNY),
    sp_kat := (sp_kat (pliki_i_katalogi s))(i := Map.empty), sp_tresc := (sp_tresc (pliki_i_katalogi s))(i := [])\<rparr>)"
proof -
  have g: "geometria s" and sp: "spojny (widok s)" and po: "pliki_ok (widok s)" using ok by (simp_all add: bsp2_ok_def)
  have "wezel_na_dysku s i" by (rule bsp2_typ_na_dysku [OF i(1)])
  then obtain s' where s': "zwolnij_wezel s i = (True, s')" "zmiana {} s s' (v_wezel (widok s) i (wezel_pusty TYP_WOLNY))"
    using zwolnij_wezel_widok [OF g, of i] i(1) by (auto simp: typ_wezla_def)
  note w = wolny_wezel_ok [OF sp i(2) n wezel_pusty_bez_blokow]
  show ?thesis using s'(1) krokI [OF s'(2) ok w(1) w(2) [OF po] w(3)] by blast
qed

subsection \<open>Creating\<close>

lemma rozwiaz_a:
  assumes "bsp2_ok s"
  shows "fst (rozwiaz_sciezke s p nd False) = (case a_wezel (pliki_i_katalogi s) (korzen s) p of None \<Rightarrow> 0 | Some c \<Rightarrow> c)"
    "case a_rodzic (pliki_i_katalogi s) (korzen s) p of None \<Rightarrow> fst (rozwiaz_sciezke s p (Some t0) True) = 0
      | Some (d, n) \<Rightarrow> \<exists>t. rozwiaz_sciezke s p (Some t0) True = (d, Some t) \<and> znaki_nazwy t = n"
proof -
  show "fst (rozwiaz_sciezke s p nd False) = (case a_wezel (pliki_i_katalogi s) (korzen s) p of None \<Rightarrow> 0 | Some c \<Rightarrow> c)"
  proof (cases "bezpieczna_sciezka p")
    case True
    then show ?thesis using rozwiaz_wezel [of s p nd] assms by (simp add: bsp2_ok_def a_wezel_def)
  qed (simp add: rozwiaz_sciezke_def a_wezel_def)
  show "case a_rodzic (pliki_i_katalogi s) (korzen s) p of None \<Rightarrow> fst (rozwiaz_sciezke s p (Some t0) True) = 0
      | Some (d, n) \<Rightarrow> \<exists>t. rozwiaz_sciezke s p (Some t0) True = (d, Some t) \<and> znaki_nazwy t = n"
  proof (cases "bezpieczna_sciezka p")
    case True
    then show ?thesis using rozwiaz_rodzica [of s p t0] assms
      by (cases "rodzic_sciezki (pliki_i_katalogi s) (korzen s) (segmenty_sciezki p)") (auto simp: bsp2_ok_def a_rodzic_def split: if_splits)
  qed (simp add: rozwiaz_sciezke_def a_rodzic_def)
qed

lemma a_rodzic_ok:
  assumes "a_rodzic A k p = Some (d, n)"
  shows "sp_typ A d = TYP_KATALOG" "nazwa_ok n" "bezpieczna_sciezka p" "segmenty_sciezki p \<noteq> []"
    "spacer_po (sp_kat A) k (butlast (segmenty_sciezki p)) = Some d" "n = last (segmenty_sciezki p)"
  using assms by (auto simp: a_rodzic_def rodzic_sciezki_def split: if_splits option.splits)

lemma sp_typ_system [simp]: "sp_typ (system v) = typ_wezla v" "(system v)\<lparr>sp_typ := typ_wezla v\<rparr> = system v"
  by (simp_all add: system_def)

lemma znaleziony_widok:
  assumes "bsp2_ok s"
  shows "zw_znaleziony (znajdz_wpis_w_katalogu s d t) \<longleftrightarrow> sp_kat (pliki_i_katalogi s) d (znaki_nazwy t) \<noteq> None"
  using krok_spaceru(1) [of s d t] brak_kroku [of s d t] assms unfolding bsp2_ok_def by fastforce

lemma utworz_twor_krok:
  assumes ok: "bsp2_ok s" and t: "typ \<in> {TYP_PLIK, TYP_KATALOG}"
  shows "case utworz_twor E s p typ pzb of (udane, s') \<Rightarrow>
    if udane then \<exists>q d n i. p = Some q \<and> a_rodzic (pliki_i_katalogi s) (korzen s) q = Some (d, n) \<and>
      sp_kat (pliki_i_katalogi s) d n = None \<and> sp_typ (pliki_i_katalogi s) i = TYP_WOLNY \<and>
      krok_api E s s' (a_utworz (pliki_i_katalogi s) d n i typ)
    else krok_api E s s' (pliki_i_katalogi s)"
proof -
  have g: "geometria s" and sp: "spojny (widok s)" and gt: "ps_gotowy s" using ok by (simp_all add: bsp2_ok_def)
  let ?A = "pliki_i_katalogi s"
  have bez: "krok_api E s s ?A" by (rule krok_apiI(1) [OF krok_bez [OF ok]])
  show ?thesis
  proof (cases "\<exists>q d n. p = Some q \<and> fst (rozwiaz_sciezke s q None False) = 0 \<and> a_rodzic ?A (korzen s) q = Some (d, n) \<and> sp_kat ?A d n = None")
    case False
    then have "utworz_twor E s p typ pzb = (False, s)"
      using rozwiaz_a(2) [OF ok, of "the p" "\<lambda>_. 0"] znaleziony_widok [OF ok]
      by (auto simp: utworz_twor_def Let_def split: option.splits prod.splits)
    then show ?thesis using bez by simp
  next
    case True
    then obtain q d n where q: "p = Some q" "fst (rozwiaz_sciezke s q None False) = 0" "a_rodzic ?A (korzen s) q = Some (d, n)" "sp_kat ?A d n = None"
      by blast
    note r = a_rodzic_ok [OF q(3)]
    obtain tx where tx: "rozwiaz_sciezke s q (Some (\<lambda>_. 0)) True = (d, Some tx)" "znaki_nazwy tx = n"
      using rozwiaz_a(2) [OF ok, of q "\<lambda>_. 0"] q(3) by auto
    have dd: "wezel_na_dysku s d" using bsp2_typ_na_dysku [of s d] r(1) by simp
    then have d0: "d \<noteq> 0" by (simp add: wezel_na_dysku_def)
    have wd: "w_typ (wezel s (nr_wezla s d)) = TYP_KATALOG" using widok_pola(1) [OF g dd] r(1) by (simp add: typ_wezla_def)
    have nz: "\<not> zw_znaleziony (znajdz_wpis_w_katalogu s d tx)" using znaleziony_widok [OF ok] tx(2) q(4) by simp
    have e: "utworz_twor E s p typ pzb = (case zaalokuj_wolny_wezel s typ of (nowy_id, s1) \<Rightarrow>
        if nowy_id = 0 then (False, s1)
        else let s2 = oznacz_wezel_jako_brudny (case pobierz_wezel s1 nowy_id of None \<Rightarrow> s1
               | Some nr \<Rightarrow> ustaw_metadane_nowego_wezla (ot_czas E) s1 nr pzb) nowy_id
             in (case dodaj_wpis_do_katalogu s2 d nowy_id tx of (ok, s3) \<Rightarrow>
                     if \<not> ok then (False, snd (zwolnij_wezel s3 nowy_id)) else (True, snd (bsp_zapisz_zmiany E s3))))"
      using q(1,2) r tx gt d0 dd nz wd
      by (simp add: utworz_twor_def poprawna_nazwa_znaki pobierz_wezel_geo [OF g])
    from nowy_wezel_krok [OF ok t, of "ot_czas E" pzb] show ?thesis
    proof (elim disjE exE conjE)
      assume "zaalokuj_wolny_wezel s typ = (0, s)"
      then show ?thesis unfolding e using bez by simp
    next
      fix i s1
      assume i: "zaalokuj_wolny_wezel s typ = (i, s1)" "i \<noteq> 0" "typ_wezla (widok s) i = TYP_WOLNY" "pobierz_wezel s1 i = Some (nr_wezla s1 i)"
      define s2 where "s2 = oznacz_wezel_jako_brudny (ustaw_metadane_nowego_wezla (ot_czas E) s1 (nr_wezla s1 i) pzb) i"
      assume "krok s (oznacz_wezel_jako_brudny (ustaw_metadane_nowego_wezla (ot_czas E) s1 (nr_wezla s1 i) pzb) i) (?A\<lparr>sp_typ := (sp_typ ?A)(i := typ)\<rparr>)"
        "wezel_bez_blokow typ (vi_wezel (widok (oznacz_wezel_jako_brudny (ustaw_metadane_nowego_wezla (ot_czas E) s1 (nr_wezla s1 i) pzb) i)) i)"
      note k = this [folded s2_def]
      have ok2: "bsp2_ok s2" and A2: "pliki_i_katalogi s2 = ?A\<lparr>sp_typ := (sp_typ ?A)(i := typ)\<rparr>" using krok_ok [OF k(1)] by auto
      have T2: "typ_wezla (widok s2) = (typ_wezla (widok s))(i := typ)" using arg_cong [OF A2, of sp_typ] by simp
      have t0: "typ_wezla (widok s2) i \<noteq> TYP_WOLNY" "i \<noteq> d" using T2 t i(3) r(1) by auto
      note w = wolny_w_systemie [OF sp i(3)]
      obtain ud s3 where s3: "dodaj_wpis_do_katalogu s2 d i tx = (ud, s3)" by (cases "dodaj_wpis_do_katalogu s2 d i tx")
      have u: "utworz_twor E s p typ pzb = (if \<not> ud then (False, snd (zwolnij_wezel s3 i)) else (True, snd (bsp_zapisz_zmiany E s3)))"
        unfolding e using i s3 by (simp add: s2_def)
      show ?thesis
      proof (cases ud)
        case True
        then have "krok s2 s3 ((pliki_i_katalogi s2)\<lparr>sp_kat := (sp_kat (pliki_i_katalogi s2))(d := (sp_kat (pliki_i_katalogi s2) d)(n \<mapsto> i))\<rparr>)"
          using dodaj_wpis_krok [OF ok2 t0, of tx] s3 tx(2) by (simp add: krok_wezla_def)
        from krok_nast [OF k(1) this] have "krok s s3 (a_utworz ?A d n i typ)" unfolding A2 by (simp add: a_utworz_def)
        then show ?thesis unfolding u using True q i(3) krok_apiI(2) by auto
      next
        case False
        then have "s3 = s2" using dodaj_wpis_krok [OF ok2 t0, of tx] s3 by simp
        moreover have "\<not> zajmuje (widok s2) i l b" for l b using k(2) by (simp add: zajmuje_def wezel_bez_blokow_def)
        moreover have "sp_kat (pliki_i_katalogi s2) d' m \<noteq> Some i" for d' m using w(3) unfolding A2 by simp
        ultimately obtain s4 where s4: "zwolnij_wezel s3 i = (True, s4)" "krok s2 s4 ((pliki_i_katalogi s2)\<lparr>sp_typ := (sp_typ (pliki_i_katalogi s2))(i := TYP_WOLNY),
            sp_kat := (sp_kat (pliki_i_katalogi s2))(i := Map.empty), sp_tresc := (sp_tresc (pliki_i_katalogi s2))(i := [])\<rparr>)"
          using zwolnij_wezel_krok [OF ok2 t0(1)] by blast
        have "(sp_typ ?A)(i := TYP_WOLNY) = sp_typ ?A" "(sp_kat ?A)(i := Map.empty) = sp_kat ?A" "(sp_tresc ?A)(i := []) = sp_tresc ?A"
          using i(3) w by (auto simp: fun_eq_iff)
        then have "krok s s4 ?A" using krok_nast [OF k(1) s4(2)] unfolding A2 by simp
        then show ?thesis unfolding u using False s4(1) krok_apiI(1) by simp
      qed
    qed
  qed
qed

subsection \<open>Giving all blocks back\<close>

definition zwolnione :: "widok \<Rightarrow> widok \<Rightarrow> u64 \<Rightarrow> nat set \<Rightarrow> bool" where
  "zwolnione v v' i K \<longleftrightarrow> typ_wezla v' = typ_wezla v \<and> (\<forall>j. j \<noteq> i \<longrightarrow> vi_wezel v' j = vi_wezel v j) \<and>
     vi_wezel v' i = (vi_wezel v i)\<lparr>w_wskazniki := (\<lambda>k. if k \<in> K then BARK_BLOKU else w_wskazniki (vi_wezel v i) k)\<rparr> \<and>
     (\<forall>d. typ_wezla v d = TYP_KATALOG \<longrightarrow> wpisy v' d = wpisy v d) \<and>
     (\<forall>b. b \<noteq> BARK_BLOKU \<longrightarrow> (\<forall>k \<in> K. w_wskazniki (vi_wezel v i) k \<noteq> b) \<longrightarrow> vi_dane v' b = vi_dane v b)"

lemma zwolnione_bez: "zwolnione v v i {}"
  by (simp add: zwolnione_def)

lemma zwolnione_jeden:
  assumes "spojny v" "zajmuje v i k b" "typ_wezla v i = TYP_KATALOG \<Longrightarrow> lista_bloku (vi_dane v b) = []"
    and "zwolnione (v_oddaj v i k) v' i K"
  shows "zwolnione v v' i (insert k K)"
proof -
  note o = oddaj_ok(2) [OF assms(1-3)]
  have b: "w_wskazniki (vi_wezel v i) k = b" using assms(2) by (simp add: zajmuje_def)
  note z = assms(4) [unfolded zwolnione_def]
  have "(\<lambda>l. if l \<in> K then BARK_BLOKU else w_wskazniki (vi_wezel (v_oddaj v i k) i) l) =
      (\<lambda>l. if l \<in> insert k K then BARK_BLOKU else w_wskazniki (vi_wezel v i) l)" by (auto simp: fun_eq_iff)
  then have "vi_wezel v' i = (vi_wezel v i)\<lparr>w_wskazniki := \<lambda>l. if l \<in> insert k K then BARK_BLOKU else w_wskazniki (vi_wezel v i) l\<rparr>"
    using z by (simp add: z_wskaznikiem_def)
  moreover have "vi_dane v' c = vi_dane v c" if c: "c \<noteq> BARK_BLOKU" "\<forall>l \<in> insert k K. w_wskazniki (vi_wezel v i) l \<noteq> c" for c
  proof -
    have "\<forall>l \<in> K. w_wskazniki (vi_wezel (v_oddaj v i k) i) l \<noteq> c" using c by simp
    then have "vi_dane v' c = vi_dane (v_oddaj v i k) c" using z c by blast
    then show ?thesis using c b by auto
  qed
  ultimately show ?thesis using z o unfolding zwolnione_def by simp
qed

lemma zwolnij_zbedne_widok:
  assumes "geometria s" "spojny (widok s)" "typ_wezla (widok s) i \<noteq> TYP_WOLNY" "set ks \<subseteq> {..< 490}"
    and "typ_wezla (widok s) i = TYP_KATALOG \<Longrightarrow> \<forall>k < 490. lista_pod (vi_dane (widok s)) (vi_wezel (widok s) i) k = []"
  shows "\<exists>s'. zwolnij_zbedne s (nr_wezla s i) ks = (True, s') \<and> zmiana {nr_wezla s i} s s' (widok s') \<and> spojny (widok s') \<and>
    zwolnione (widok s) (widok s') i (set ks)"
  using assms
proof (induction ks arbitrary: s)
  case Nil
  then show ?case using zmiana_bez zwolnione_bez by simp
next
  case (Cons k ks)
  have d: "wezel_na_dysku s i" by (rule bsp2_typ_na_dysku [OF Cons.prems(3)])
  have w: "wezel s (nr_wezla s i) = vi_wezel (widok s) i" by (rule widok_pola(1) [OF Cons.prems(1) d])
  let ?b = "w_wskazniki (vi_wezel (widok s) i) k"
  show ?case
  proof (cases "?b = BARK_BLOKU")
    case True
    have "zwolnione (widok s) v' i (set ks) \<Longrightarrow> zwolnione (widok s) v' i (insert k (set ks))" for v'
    proof -
      assume z: "zwolnione (widok s) v' i (set ks)"
      have "(\<lambda>l. if l \<in> insert k (set ks) then BARK_BLOKU else w_wskazniki (vi_wezel (widok s) i) l) =
        (\<lambda>l. if l \<in> set ks then BARK_BLOKU else w_wskazniki (vi_wezel (widok s) i) l)" using True by (auto simp: fun_eq_iff)
      then show "zwolnione (widok s) v' i (insert k (set ks))" using z unfolding zwolnione_def by simp
    qed
    then show ?thesis using Cons.IH [of s] Cons.prems True w by auto
  next
    case False
    have z: "zajmuje (widok s) i k ?b" using False Cons.prems(3,4) by (simp add: zajmuje_def)
    then have bz: "vi_zajety (widok s) ?b" using Cons.prems(2) by (intro zajmuje_zajety [of _ i k]) (simp_all add: spojny_def)
    have k: "k < 490" using Cons.prems(4) by simp
    obtain s1 where s1: "zwolnij_blok_danych s ?b = (True, s1)"
      "zmiana {nr_wezla s i} s (ustaw_wskaznik s1 (nr_wezla s i) k BARK_BLOKU) (v_oddaj (widok s) i k)"
      using oddaj_kod [OF Cons.prems(1) d k refl bz] by blast
    define s2 where "s2 = ustaw_wskaznik s1 (nr_wezla s i) k BARK_BLOKU"
    note z2 = s1(2) [folded s2_def]
    note st = zmiana_stale [OF z2] and w2 = zmiana_widok [OF z2]
    have p: "typ_wezla (widok s) i = TYP_KATALOG \<Longrightarrow> lista_bloku (vi_dane (widok s) ?b) = []"
      using Cons.prems(5) k False by (auto simp: lista_pod_def)
    have lp: "\<forall>l < 490. lista_pod (vi_dane (widok s2)) (vi_wezel (widok s2) i) l = []" if "typ_wezla (widok s2) i = TYP_KATALOG"
      using Cons.prems(5) that unfolding w2 by (auto simp: lista_pod_def)
    have "spojny (widok s2)" "typ_wezla (widok s2) i \<noteq> TYP_WOLNY" "set ks \<subseteq> {..< 490}"
      using oddaj_ok(1) [OF Cons.prems(2) z p] Cons.prems(3,4) by (simp_all add: w2)
    from Cons.IH [OF zmiana_geo [OF z2 Cons.prems(1)] this lp]
    have "\<exists>s'. zwolnij_zbedne s2 (nr_wezla s2 i) ks = (True, s') \<and> zmiana {nr_wezla s2 i} s2 s' (widok s') \<and> spojny (widok s') \<and>
        zwolnione (widok s2) (widok s') i (set ks)" .
    then obtain s' where s': "zwolnij_zbedne s2 (nr_wezla s i) ks = (True, s')" "zmiana {nr_wezla s i} s2 s' (widok s')" "spojny (widok s')"
      "zwolnione (widok s2) (widok s') i (set ks)" using st by auto
    have "zwolnij_zbedne s (nr_wezla s i) (k # ks) = (True, s')" using False w s1(1) s'(1) by (simp add: s2_def)
    moreover have "zmiana {nr_wezla s i} s s' (widok s')" using zmiana_nast [OF z2 s'(2)] by simp
    moreover have "zwolnione (widok s) (widok s') i (set (k # ks))"
      using zwolnione_jeden [OF Cons.prems(2) z p s'(4) [unfolded w2]] by simp
    ultimately show ?thesis using s'(3) by blast
  qed
qed

subsection \<open>Removing\<close>

lemma lista_bloku_pusta: "lista_bloku b = [] \<longleftrightarrow> \<not> list_ex (\<lambda>j. wp_id (wpis_z b j) \<noteq> 0) [0 ..< 64]"
  by (simp add: lista_bloku_def zywe_wpisy_def filter_empty_conv list_ex_iff)

lemma bloki_puste_widok:
  assumes g: "geometria s" and w: "\<And>k. w_wskazniki w k \<noteq> BARK_BLOKU \<Longrightarrow> w_wskazniki w k < ps_bloki s"
  shows "bloki_puste s w ks \<longleftrightarrow> (\<forall>k \<in> set ks. lista_pod (vi_dane (widok s)) w k = [])"
proof (induction ks)
  case (Cons k ks)
  show ?case
  proof (cases "w_wskazniki w k = BARK_BLOKU")
    case False
    then show ?thesis using w [OF False] Cons.IH
      by (simp add: pobierz_wpisy_geo [OF g] wpis_danych [OF g] lista_pod_def lista_bloku_pusta Let_def)
  qed (simp add: Cons.IH lista_pod_def)
qed simp

lemma katalog_pusty_widok:
  assumes g: "geometria s" and sp: "spojny (widok s)" and c: "typ_wezla (widok s) c = TYP_KATALOG"
  shows "katalog_pusty s c \<longleftrightarrow> (\<forall>k < 490. lista_pod (vi_dane (widok s)) (vi_wezel (widok s) c) k = [])"
proof -
  have "wskazniki_ok s c" using wskazniki_w_zakresie [OF g] sp c by (simp add: spojny_def)
  moreover have "wezel_na_dysku s c" using bsp2_typ_na_dysku [of s c] c by simp
  ultimately show ?thesis using c bloki_puste_widok [OF g, of "vi_wezel (widok s) c" "[0 ..< 490]"]
    by (auto simp: katalog_pusty_def pobierz_wezel_geo [OF g] g typ_wezla_def wskazniki_ok_def)
qed

lemma wpis_usuniety [simp]:
  "l \<noteq> j \<Longrightarrow> wpis_z (wyzeruj_pamiec (ustaw_id_wpisu b j 0) (64 * j + 8) 56) l = wpis_z b l"
  "wpis_lista (wyzeruj_pamiec (ustaw_id_wpisu b j 0) (64 * j + 8) 56) j = []"
  by (auto simp: wyzerowana_nazwa wpis_lista_def)

lemma usun_w_miejscu:
  assumes g: "geometria s" and sp: "spojny (widok s)" and d: "typ_wezla (widok s) d = TYP_KATALOG"
    and z: "zajmuje (widok s) d k b" and j: "j < 64"
    and e: "wpis_lista (vi_dane (widok s) b) j = [(n, c)]"
  shows "\<exists>x r. zmiana {} s (oznacz_wezel_jako_brudny (zmniejsz_rozmiar (usun_wpis s (nr_danych s b) b j) (nr_wezla s d)) d)
        (v_wpis (widok s) d b x r) \<and> wpis_lista x j = [] \<and> (\<forall>l. l \<noteq> j \<longrightarrow> wpis_z x l = wpis_z (vi_dane (widok s) b) l) \<and>
      unat r + 1 = unat (w_rozmiar (vi_wezel (widok s) d))"
proof -
  have dd: "wezel_na_dysku s d" using bsp2_typ_na_dysku [of s d] d by simp
  have bo: "bloki_ok (widok s)" using sp by (simp add: spojny_def)
  have b: "b < ps_bloki s" using widok_pola(4) [OF g zajmuje_zajety [OF bo z]] .
  note zw = zmiana_wpisu [OF g dd b, of "\<lambda>x. wyzeruj_pamiec (ustaw_id_wpisu x j 0) (64 * j + 8) 56"]
  have "wpisy (widok s) d \<noteq> []" using wpisy_v_wpis(1) [OF sp d z j, of "vi_dane (widok s) b"] e by auto
  moreover have "katalog_ok (widok s) d" using sp d by (simp add: spojny_def katalogi_ok_def)
  ultimately have u: "0 < unat (w_rozmiar (vi_wezel (widok s) d))" by (metis katalog_ok_def length_greater_0_conv)
  then have w: "w_rozmiar (vi_wezel (widok s) d) > 0" by (simp add: word_less_nat_alt)
  let ?r = "w_rozmiar (vi_wezel (widok s) d) - 1"
  have "(1 :: u64) \<le> w_rozmiar (vi_wezel (widok s) d)" using u by (simp add: word_le_nat_alt)
  then have "unat ?r + 1 = unat (w_rozmiar (vi_wezel (widok s) d))" using u by (simp add: unat_sub_u64)
  then show ?thesis using zw(2) [of ?r] w
    by (intro exI [of _ "wyzeruj_pamiec (ustaw_id_wpisu (vi_dane (widok s) b) j 0) (64 * j + 8) 56"] exI [of _ ?r])
      (simp add: zmniejsz_rozmiar_def usun_wpis_def zw(1))
qed

text \<open>A lookup's place is an entry of its own block.\<close>

lemma miejsce_wpisu:
  assumes "bsp2_ok s" "sp_kat (pliki_i_katalogi s) d (znaki_nazwy t) = Some c"
  shows "\<exists>k b j. zajmuje (widok s) d k b \<and> j < 64 \<and> wpis_lista (vi_dane (widok s) b) j = [(znaki_nazwy t, c)] \<and> c \<noteq> 0 \<and>
    znajdz_wpis_w_katalogu s d t = \<lparr>zw_znaleziony = True, zw_id_wezla = c, zw_id_bloku = b, zw_indeks = j\<rparr>"
proof -
  have "typ_wezla (widok s) d = TYP_KATALOG" using assms wpisy_nazwy_ok(2) [of "widok s" d] by (simp add: bsp2_ok_def)
  then show ?thesis
    using znajdz_wpis_widok [of s d t] assms by (fastforce simp: bsp2_ok_def wynik_szukania_def zajmuje_def wpis_lista_def napis_wpisu_def)
qed

definition jedna_nazwa :: "system_plikow \<Rightarrow> bool" where
  "jedna_nazwa A \<longleftrightarrow> (\<forall>d n d' n' c. sp_kat A d n = Some c \<longrightarrow> sp_kat A d' n' = Some c \<longrightarrow> d = d' \<and> n = n')"

lemma pusty_katalog_mapa:
  assumes "spojny v" "typ_wezla v c = TYP_KATALOG"
  shows "sp_kat (system v) c = Map.empty \<longleftrightarrow> (\<forall>k < 490. lista_pod (vi_dane v) (vi_wezel v c) k = [])"
proof -
  have "sp_kat (system v) c = Map.empty \<longleftrightarrow> wpisy v c = []" using assms(2) by (simp add: system_def)
  then show ?thesis by (auto simp: wpisy_def)
qed

lemma zwolnione_plik:
  assumes bo: "bloki_ok v" and c: "typ_wezla v c \<noteq> TYP_WOLNY" and zn: "zwolnione v v' c K" "K \<subseteq> {..< 490}"
    and i: "i \<noteq> c" "typ_wezla v i = TYP_PLIK" "plik_ok (vi_wezel v i)"
  shows "vi_wezel v' i = vi_wezel v i" "tresc_wezla (vi_dane v') (vi_wezel v' i) = tresc_wezla (vi_dane v) (vi_wezel v i)"
proof -
  note z = zn(1) [unfolded zwolnione_def]
  show w: "vi_wezel v' i = vi_wezel v i" using z i(1) by blast
  have "vi_dane v' (w_wskazniki (vi_wezel v i) l) = vi_dane v (w_wskazniki (vi_wezel v i) l)"
    if l: "l < 490" "w_wskazniki (vi_wezel v i) l \<noteq> BARK_BLOKU" for l
  proof -
    have "zajmuje v i l (w_wskazniki (vi_wezel v i) l)" using l i(2) by (simp add: zajmuje_def)
    from inny_blok [OF bo this c] have "\<forall>m \<in> K. w_wskazniki (vi_wezel v c) m \<noteq> w_wskazniki (vi_wezel v i) l"
      using i(1) zn(2) by blast
    then show ?thesis using z l(2) by blast
  qed
  then show "tresc_wezla (vi_dane v') (vi_wezel v' i) = tresc_wezla (vi_dane v) (vi_wezel v i)"
    using w by (intro tresc_rama [OF i(3)]) simp_all
qed

lemma zwolnij_wezel_brudny:
  assumes g: "geometria s" and c: "wezel_na_dysku s c" "w_typ (vi_wezel (widok s) c) \<noteq> TYP_WOLNY"
  shows "\<exists>s'. zwolnij_wezel s c = (True, s') \<and> zmiana {} s s' (v_wezel (widok s) c (wezel_pusty TYP_WOLNY)) \<and> brudny s' (nr_wezla s c)"
proof -
  obtain s' where s': "zwolnij_wezel s c = (True, s')" "zmiana {} s s' (v_wezel (widok s) c (wezel_pusty TYP_WOLNY))"
    using zwolnij_wezel_widok [OF g, of c] c by auto
  define s1 where "s1 = zmien_blok s (nr_wezla s c) (\<lambda>b. wyzeruj_wezel b TYP_WOLNY)"
  have "s' = oznacz_wezel_jako_brudny s1 c"
    using s'(1) c(1) by (auto simp: zwolnij_wezel_def pobierz_wezel_geo [OF g] s1_def split: if_splits)
  moreover have "geometria s1" "wezel_na_dysku s1 c" "nr_wezla s1 c = nr_wezla s c"
    using stale_pola [OF zmien_stale [OF rozne_bloki(6) [OF g c(1)]]] g c(1) unfolding s1_def by simp_all
  ultimately show ?thesis using s' oznacz_wezel_brudny by metis
qed

text \<open>The three changes of a removal, on the view: the blocks, the entry, the node.\<close>

lemma usun_widok:
  assumes sp: "spojny v" and po: "pliki_ok v" and jn: "jedna_nazwa (system v)" and kat: "sp_kat (system v) d n = Some c"
    and z: "zajmuje v d k b" "j < 64" "wpis_lista (vi_dane v b) j = [(n, c)]"
    and zn: "zwolnione v v1 c (set [0 ..< 490])" and sp1: "spojny v1"
  shows "zajmuje v1 d k b" "vi_dane v1 b = vi_dane v b" "typ_wezla v1 = typ_wezla v" "vi_wezel v1 d = vi_wezel v d"
    "wpis_lista x j = [] \<Longrightarrow> (\<And>l. l \<noteq> j \<Longrightarrow> wpis_z x l = wpis_z (vi_dane v1 b) l) \<Longrightarrow>
      unat r + 1 = unat (w_rozmiar (vi_wezel v1 d)) \<Longrightarrow>
      spojny (v_wezel (v_wpis v1 d b x r) c (wezel_pusty TYP_WOLNY)) \<and> pliki_ok (v_wezel (v_wpis v1 d b x r) c (wezel_pusty TYP_WOLNY)) \<and>
      system (v_wezel (v_wpis v1 d b x r) c (wezel_pusty TYP_WOLNY)) = a_usun (system v) d n c"
proof -
  note wn = wpisy_nazwy_ok [OF sp kat] and zd = zn [unfolded zwolnione_def]
  have bo: "bloki_ok v" using sp by (simp add: spojny_def)
  show T1: "typ_wezla v1 = typ_wezla v" and d1: "vi_wezel v1 d = vi_wezel v d" using zd wn(4) by auto
  have "w_wskazniki (vi_wezel v c) l \<noteq> b" if "l < 490" for l using inny_blok [OF bo z(1) wn(5) that] wn(4) by simp
  moreover have "b \<noteq> BARK_BLOKU" using z(1) by (simp add: zajmuje_def)
  ultimately show b1: "vi_dane v1 b = vi_dane v b" using zd by simp
  show z1: "zajmuje v1 d k b" using z(1) T1 d1 by (simp add: zajmuje_def)
  assume x: "wpis_lista x j = []" "\<And>l. l \<noteq> j \<Longrightarrow> wpis_z x l = wpis_z (vi_dane v1 b) l"
    "unat r + 1 = unat (w_rozmiar (vi_wezel v1 d))"
  let ?A = "system v" and ?v3 = "v_wpis v1 d b x r"
  let ?v4 = "v_wezel ?v3 c (wezel_pusty TYP_WOLNY)"
  have E1: "wpis_lista (vi_dane v1 b) j = [(n, c)]" using z(3) b1 by simp
  have "typ_wezla v1 d = TYP_KATALOG" using wn(2) T1 by simp
  note wo3 = wpis_ok [OF sp1 this z1 z(2) x(2), of r]
  have sp3: "spojny ?v3" using x(1,3) E1 by (intro wo3(1)) simp_all
  have kat1: "sp_kat (system v1) = sp_kat ?A" using zd by (auto simp: system_def fun_eq_iff)
  have kat3: "sp_kat (system ?v3) = (sp_kat ?A)(d := (sp_kat ?A d)(n := None))" using x(1,3) E1 wo3(4) kat1 by simp
  have "\<not> zajmuje ?v3 c l e" for l e using zd wn(4) by (simp add: zajmuje_def)
  moreover have "sp_kat (system ?v3) d' m \<noteq> Some c" for d' m
  proof
    assume m: "sp_kat (system ?v3) d' m = Some c"
    then have "sp_kat ?A d' m = Some c" unfolding kat3 by (auto split: if_splits)
    then have "d' = d \<and> m = n" using jn kat unfolding jedna_nazwa_def by blast
    then show False using m unfolding kat3 by simp
  qed
  ultimately have W: "spojny ?v4" "system ?v4 = (system ?v3)\<lparr>sp_typ := (sp_typ (system ?v3))(c := TYP_WOLNY),
         sp_kat := (sp_kat (system ?v3))(c := Map.empty), sp_tresc := (sp_tresc (system ?v3))(c := [])\<rparr>"
    using wolny_wezel_ok [OF sp3 _ _ wezel_pusty_bez_blokow] by blast+
  have plik: "plik_ok (vi_wezel ?v3 i) \<and> tresc_wezla (vi_dane ?v3) (vi_wezel ?v3 i) = tresc_wezla (vi_dane v) (vi_wezel v i)"
    if i: "i \<noteq> c" "typ_wezla v i = TYP_PLIK" for i
  proof -
    have p: "plik_ok (vi_wezel v i)" using po i(2) by (simp add: pliki_ok_def)
    have "set [0 ..< 490] \<subseteq> {..< 490}" by auto
    note zp = zwolnione_plik [OF bo wn(5) zn this i p]
    have "plik_ok (vi_wezel v1 i)" "tresc_wezla (vi_dane v1) (vi_wezel v1 i) = tresc_wezla (vi_dane v) (vi_wezel v i)" using zp p by auto
    moreover from this have "tresc_wezla (vi_dane ?v3) (vi_wezel ?v3 i) = tresc_wezla (vi_dane v1) (vi_wezel v1 i)"
      using x(1,3) E1 i(2) T1 by (intro wo3(5)) simp_all
    moreover have "i \<noteq> d" using i(2) wn(2) by auto
    ultimately show ?thesis by simp
  qed
  then have "pliki_ok ?v4" using T1 by (auto simp: pliki_ok_def wezel_pusty_def)
  moreover have "sp_tresc (system ?v3) i = sp_tresc ?A i" if "i \<noteq> c" for i using plik [OF that] T1 by (simp add: system_def)
  then have "(sp_tresc (system ?v3))(c := []) = (sp_tresc ?A)(c := [])" by (auto simp: fun_eq_iff)
  moreover have "(sp_kat (system ?v3))(c := Map.empty) = (sp_kat ?A)(c := Map.empty, d := (sp_kat ?A d)(n := None))"
    unfolding kat3 using wn(4) by (auto simp: fun_eq_iff)
  ultimately show "spojny ?v4 \<and> pliki_ok ?v4 \<and> system ?v4 = a_usun ?A d n c" unfolding W(2) using W(1) T1 by (simp add: a_usun_def)
qed

lemma usun_znaleziony_krok:
  assumes ok: "bsp2_ok s" and jn: "jedna_nazwa (pliki_i_katalogi s)" and kat: "sp_kat (pliki_i_katalogi s) d (znaki_nazwy t) = Some c"
  shows "case usun_znaleziony E s d (znajdz_wpis_w_katalogu s d t) of (udane, s') \<Rightarrow>
    (udane \<longleftrightarrow> sp_kat (pliki_i_katalogi s) c = Map.empty) \<and>
    (if udane then krok_api E s s' (a_usun (pliki_i_katalogi s) d (znaki_nazwy t) c) else s' = s)"
proof -
  have g: "geometria s" and sp: "spojny (widok s)" and po: "pliki_ok (widok s)" using ok by (simp_all add: bsp2_ok_def)
  let ?A = "pliki_i_katalogi s" and ?n = "znaki_nazwy t"
  note wn = wpisy_nazwy_ok [OF sp kat]
  have dd: "wezel_na_dysku s d" and cd: "wezel_na_dysku s c" using bsp2_typ_na_dysku [of s] wn(2,5) by simp_all
  obtain k b j where z: "zajmuje (widok s) d k b" "j < 64" "wpis_lista (vi_dane (widok s) b) j = [(?n, c)]"
    "znajdz_wpis_w_katalogu s d t = \<lparr>zw_znaleziony = True, zw_id_wezla = c, zw_id_bloku = b, zw_indeks = j\<rparr>"
    using miejsce_wpisu [OF ok kat] by blast
  have b: "b < ps_bloki s" by (rule bsp2_zajety [OF ok z(1)])
  have wd: "wezel s (nr_wezla s d) = vi_wezel (widok s) d" and wc: "wezel s (nr_wezla s c) = vi_wezel (widok s) c"
    using widok_pola(1) [OF g] dd cd by simp_all
  have wo: "w_posredni_1 (vi_wezel (widok s) c) = BARK_BLOKU" "w_posredni_2 (vi_wezel (widok s) c) = BARK_BLOKU"
    "w_posredni_3 (vi_wezel (widok s) c) = BARK_BLOKU"
    using sp wn(5) unfolding spojny_def wezly_ok_def by auto
  have zw: "wskazniki_do_zwolnienia s (vi_wezel (widok s) c)"
    using bsp2_zajety [OF ok, of c] widok_pola(3) [OF g] wn(5)
    by (auto simp: wskazniki_do_zwolnienia_def list_all_iff zajmuje_def id_bloku_danych_poprawne_def Let_def)
  have pusty: "sp_kat ?A c = Map.empty \<longleftrightarrow> \<not> (typ_wezla (widok s) c = TYP_KATALOG \<and> \<not> katalog_pusty s c)"
    using pusty_katalog_mapa [OF sp] katalog_pusty_widok [OF g sp, of c] by (cases "typ_wezla (widok s) c = TYP_KATALOG") (auto simp: system_def)
  show ?thesis
  proof (cases "sp_kat ?A c = Map.empty")
    case False
    then have "usun_znaleziony E s d (znajdz_wpis_w_katalogu s d t) = (False, s)"
      using pusty wn dd cd wd wc unfolding usun_znaleziony_def z(4) by (simp add: pobierz_wezel_geo [OF g] typ_wezla_def Let_def)
    then show ?thesis using False by simp
  next
    case True
    have lp: "typ_wezla (widok s) c = TYP_KATALOG \<Longrightarrow> \<forall>k < 490. lista_pod (vi_dane (widok s)) (vi_wezel (widok s) c) k = []"
      using pusty_katalog_mapa [OF sp] True by blast
    have "set [0 ..< 490] \<subseteq> {..< 490}" by auto
    from zwolnij_zbedne_widok [OF g sp wn(5) this lp]
    obtain s1 where s1: "zwolnij_zbedne s (nr_wezla s c) [0 ..< 490] = (True, s1)" "zmiana {nr_wezla s c} s s1 (widok s1)"
      "spojny (widok s1)" "zwolnione (widok s) (widok s1) c (set [0 ..< 490])" by blast
    note st1 = zmiana_stale [OF s1(2)] and u = usun_widok [OF sp po jn kat z(1-3) s1(4,3)]
    have g1: "geometria s1" by (rule zmiana_geo [OF s1(2) g])
    define s3 where "s3 = oznacz_wezel_jako_brudny (zmniejsz_rozmiar (usun_wpis s1 (nr_danych s1 b) b j) (nr_wezla s1 d)) d"
    obtain x r where x: "zmiana {} s1 s3 (v_wpis (widok s1) d b x r)" "wpis_lista x j = []"
      "\<And>l. l \<noteq> j \<Longrightarrow> wpis_z x l = wpis_z (vi_dane (widok s1) b) l" "unat r + 1 = unat (w_rozmiar (vi_wezel (widok s1) d))"
      using usun_w_miejscu [OF g1 s1(3) _ u(1) z(2), of "?n" c] wn(2) z(3) u(2,3) unfolding s3_def by auto
    note w3 = zmiana_widok [OF x(1)] and st3 = zmiana_stale [OF x(1)]
    have "typ_wezla (widok s3) c = typ_wezla (widok s) c" unfolding w3 using u(3) by simp
    moreover have g3: "geometria s3" by (rule zmiana_geo [OF x(1) g1])
    moreover have "wezel_na_dysku s3 c" "nr_wezla s3 c = nr_wezla s c" using cd st1 st3 by simp_all
    ultimately obtain s4 where s4: "zwolnij_wezel s3 c = (True, s4)" "zmiana {} s3 s4 (v_wezel (widok s3) c (wezel_pusty TYP_WOLNY))"
      "brudny s4 (nr_wezla s c)" using zwolnij_wezel_brudny [of s3 c] wn(5) unfolding typ_wezla_def by auto
    have "zmiana {nr_wezla s c} s s4 (v_wezel (widok s3) c (wezel_pusty TYP_WOLNY))"
      using zmiana_nast [OF zmiana_nast [OF s1(2) x(1)] s4(2)] by simp
    then have "zmiana {} s s4 (v_wezel (widok s3) c (wezel_pusty TYP_WOLNY))" using s4(3) by (auto intro: zmiana_czysta)
    then have K: "krok s s4 (a_usun ?A d ?n c)" using u(5) [OF x(2,3,4)] krokI [OF _ ok] unfolding w3 by blast
    have "usun_znaleziony E s d (znajdz_wpis_w_katalogu s d t) = (True, snd (bsp_zapisz_zmiany E s4))"
      using True pusty wn dd cd wd wc wo zw s1(1) z(2) b st1 s4(1) unfolding usun_znaleziony_def z(4)
      by (simp add: pobierz_wezel_geo [OF g] typ_wezla_def Let_def pobierz_wpisy_geo [OF g1] s3_def)
    then show ?thesis using True krok_apiI(2) [OF K] by simp
  qed
qed

end
