(* ===== verification/Psf_Drzewo.thy ===== *)
theory Psf_Drzewo
  imports Psf_Tworzenie "HOL-Library.Sublist"
begin

section \<open>BSP2: the directory tree\<close>

text \<open>
  The tree the operations keep: every node in use is reached from the root by one path only. The textual
  comparison of \<open>przenies_twor\<close> decides whether the target lies below the moved directory.
\<close>

inductive osiagalny :: "(u64 \<Rightarrow> u8 list \<rightharpoonup> u64) \<Rightarrow> u64 \<Rightarrow> u64 \<Rightarrow> bool" for kat k where
  korzen_osiagalny: "osiagalny kat k k"
| krok_osiagalny: "osiagalny kat k d \<Longrightarrow> kat d n = Some c \<Longrightarrow> osiagalny kat k c"

definition drzewo :: "system_plikow \<Rightarrow> u64 \<Rightarrow> bool" where
  "drzewo A k \<longleftrightarrow> sp_typ A k = TYP_KATALOG \<and> jedna_nazwa A \<and> (\<forall>d n. sp_kat A d n \<noteq> Some k) \<and>
     (\<forall>i. sp_typ A i \<noteq> TYP_WOLNY \<longrightarrow> osiagalny (sp_kat A) k i)"

subsection \<open>Paths\<close>

lemma spacer_dalej: "spacer_po kat i (ns @ ms) = (case spacer_po kat i ns of None \<Rightarrow> None | Some j \<Rightarrow> spacer_po kat j ms)"
  by (induction ns arbitrary: i) (simp_all split: option.split)

lemma spacer_koniec:
  "spacer_po kat i (ns @ [n]) = Some c \<longleftrightarrow> (\<exists>d. spacer_po kat i ns = Some d \<and> kat d n = Some c)"
  by (simp add: spacer_dalej split: option.split)

lemma osiagalny_spacer: "osiagalny kat k i \<longleftrightarrow> (\<exists>ns. spacer_po kat k ns = Some i)"
proof
  show "osiagalny kat k i \<Longrightarrow> \<exists>ns. spacer_po kat k ns = Some i"
  proof (induction rule: osiagalny.induct)
    case korzen_osiagalny
    show ?case by (intro exI [of _ "[]"]) simp
  next
    case (krok_osiagalny d n c)
    then show ?case using spacer_koniec [of kat k _ n c] by blast
  qed
next
  have "spacer_po kat k ns = Some i \<Longrightarrow> osiagalny kat k i" for ns
  proof (induction ns arbitrary: i rule: rev_induct)
    case (snoc n ns)
    then obtain d where "spacer_po kat k ns = Some d" "kat d n = Some i" unfolding spacer_koniec by blast
    then show ?case using snoc.IH krok_osiagalny by blast
  qed (simp add: korzen_osiagalny)
  then show "\<exists>ns. spacer_po kat k ns = Some i \<Longrightarrow> osiagalny kat k i" by blast
qed

lemma osiagalny_lisc: "osiagalny kat c e \<Longrightarrow> kat c = Map.empty \<Longrightarrow> e = c"
  by (induction rule: osiagalny.induct) auto

lemma osiagalny_trans: "osiagalny kat a b \<Longrightarrow> osiagalny kat b c \<Longrightarrow> osiagalny kat a c"
  by (rotate_tac, induction rule: osiagalny.induct) (auto intro: krok_osiagalny)

text \<open>A node has one path.\<close>

lemma jedna_sciezka:
  assumes "jedna_nazwa A" "\<And>d n. sp_kat A d n \<noteq> Some k"
  shows "spacer_po (sp_kat A) k ns = Some i \<Longrightarrow> spacer_po (sp_kat A) k ms = Some i \<Longrightarrow> ns = ms"
proof (induction ns arbitrary: i ms rule: rev_induct)
  case Nil
  then show ?case using assms(2) by (cases ms rule: rev_cases) (auto simp: spacer_koniec)
next
  case (snoc n ns)
  then obtain d where d: "spacer_po (sp_kat A) k ns = Some d" "sp_kat A d n = Some i" unfolding spacer_koniec by blast
  show ?case
  proof (cases ms rule: rev_cases)
    case Nil
    then show ?thesis using snoc.prems(2) d(2) assms(2) by simp
  next
    case (snoc ms' m)
    then obtain d' where d': "spacer_po (sp_kat A) k ms' = Some d'" "sp_kat A d' m = Some i"
      using snoc.prems(2) unfolding snoc spacer_koniec by blast
    then have "d = d' \<and> n = m" using d(2) assms(1) unfolding jedna_nazwa_def by blast
    then show ?thesis using snoc.IH [OF d(1), of ms'] d'(1) snoc by simp
  qed
qed

lemma podkatalog_prefiks:
  assumes t: "drzewo A k" and c: "spacer_po (sp_kat A) k ns = Some c" and d: "spacer_po (sp_kat A) k ms = Some d"
  shows "osiagalny (sp_kat A) c d \<longleftrightarrow> prefix ns ms"
proof
  assume "osiagalny (sp_kat A) c d"
  then obtain xs where "spacer_po (sp_kat A) c xs = Some d" unfolding osiagalny_spacer by blast
  then have "spacer_po (sp_kat A) k (ns @ xs) = Some d" using c by (simp add: spacer_dalej)
  then have "ns @ xs = ms" using jedna_sciezka [of A k _ d ms] t d unfolding drzewo_def by blast
  then show "prefix ns ms" by (auto simp: prefix_def)
next
  assume "prefix ns ms"
  then obtain xs where "ms = ns @ xs" by (auto simp: prefix_def)
  then show "osiagalny (sp_kat A) c d" using c d unfolding osiagalny_spacer by (auto simp: spacer_dalej)
qed

subsection \<open>The operations keep the tree\<close>

lemma osiagalny_wiecej:
  assumes "\<And>d n c. kat d n = Some c \<Longrightarrow> \<exists>m. kat' d m = Some c"
  shows "osiagalny kat k i \<Longrightarrow> osiagalny kat' k i"
proof (induction rule: osiagalny.induct)
  case (krok_osiagalny d n c)
  then show ?case using assms [of d n c] osiagalny.krok_osiagalny [of kat' k d] by blast
qed (rule osiagalny.korzen_osiagalny)

lemma drzewo_utworz:
  assumes t: "drzewo A k" and d: "sp_typ A d = TYP_KATALOG" "sp_kat A d n = None" and i: "sp_typ A i = TYP_WOLNY"
    and w: "\<And>d m. sp_kat A d m \<noteq> Some i"
  shows "drzewo (a_utworz A d n i typ) k"
proof -
  let ?kat = "(sp_kat A)(d := (sp_kat A d)(n \<mapsto> i))"
  have k: "k \<noteq> i" using t i by (auto simp: drzewo_def)
  have wiecej: "osiagalny (sp_kat A) k j \<Longrightarrow> osiagalny ?kat k j" for j
  proof (rule osiagalny_wiecej)
    fix e m c assume "sp_kat A e m = Some c"
    then have "?kat e m = Some c" using d(2) by auto
    then show "\<exists>m. ?kat e m = Some c" by blast
  qed
  have "osiagalny (sp_kat A) k d" using t d(1) by (simp add: drzewo_def)
  from krok_osiagalny [OF wiecej [OF this], of n i] have ki: "osiagalny ?kat k i" by simp
  have "jedna_nazwa (a_utworz A d n i typ)"
    using t w unfolding jedna_nazwa_def a_utworz_def drzewo_def by (auto split: if_splits)
  moreover have "\<forall>e m. ?kat e m \<noteq> Some k" using t k unfolding drzewo_def by auto
  moreover have "osiagalny ?kat k j" if "sp_typ (a_utworz A d n i typ) j \<noteq> TYP_WOLNY" for j
    using that wiecej [of j] ki t by (cases "j = i") (simp_all add: a_utworz_def drzewo_def)
  ultimately show ?thesis using t k by (simp add: drzewo_def a_utworz_def)
qed

lemma drzewo_usun:
  assumes t: "drzewo A k" and c: "sp_kat A d n = Some c" "sp_kat A c = Map.empty"
  shows "drzewo (a_usun A d n c) k"
proof -
  let ?kat = "(sp_kat A)(c := Map.empty, d := (sp_kat A d)(n := None))"
  have k: "k \<noteq> c" using t c(1) by (auto simp: drzewo_def)
  have dc: "d \<noteq> c" using c by auto
  have j: "jedna_nazwa A" using t by (simp add: drzewo_def)
  have kat': "sp_kat (a_usun A d n c) = ?kat" by (simp add: a_usun_def)
  have mniej: "?kat e m = Some j \<Longrightarrow> sp_kat A e m = Some j" for e m j by (auto split: if_splits)
  have "osiagalny ?kat k j" if "osiagalny (sp_kat A) k j" "j \<noteq> c" for j
    using that
  proof (induction rule: osiagalny.induct)
    case (krok_osiagalny e m j)
    then have "e \<noteq> c" using c(2) by auto
    moreover have "\<not> (e = d \<and> m = n)" using krok_osiagalny c(1) by auto
    ultimately have "?kat e m = Some j" using krok_osiagalny by auto
    then show ?case using krok_osiagalny \<open>e \<noteq> c\<close> osiagalny.krok_osiagalny by blast
  qed (rule osiagalny.korzen_osiagalny)
  moreover have "jedna_nazwa (a_usun A d n c)"
    unfolding jedna_nazwa_def kat' using j mniej unfolding jedna_nazwa_def by blast
  moreover have "?kat e m \<noteq> Some k" for e m using mniej [of e m k] t unfolding drzewo_def by blast
  ultimately show ?thesis using t k by (simp add: drzewo_def a_usun_def)
qed

lemma drzewo_zmien_nazwe:
  assumes t: "drzewo A k" and c: "sp_kat A d n = Some c" "n' = n \<or> sp_kat A d n' = None"
  shows "drzewo (a_zmien_nazwe A d n n' c) k"
proof -
  let ?kat = "(sp_kat A)(d := (sp_kat A d)(n := None, n' \<mapsto> c))"
  have j: "jedna_nazwa A" using t by (simp add: drzewo_def)
  have kat': "sp_kat (a_zmien_nazwe A d n n' c) = ?kat" by (simp add: a_zmien_nazwe_def)
  have stary: "sp_kat A e m = Some x \<Longrightarrow> \<exists>m'. ?kat e m' = Some x" for e m x
  proof -
    assume e: "sp_kat A e m = Some x"
    have "?kat e (if e = d \<and> m = n then n' else m) = Some x" using e c by auto
    then show "\<exists>m'. ?kat e m' = Some x" by blast
  qed
  have nowy: "?kat e m = Some x \<Longrightarrow> sp_kat A e (if e = d \<and> m = n' then n else m) = Some x" for e m x
    using c(1) by (auto split: if_splits)
  have nn: "?kat d n = None" if "n' \<noteq> n" using that by simp
  have "jedna_nazwa (a_zmien_nazwe A d n n' c)"
    unfolding jedna_nazwa_def kat'
  proof (intro allI impI)
    fix e m e' m' x assume a: "?kat e m = Some x" "?kat e' m' = Some x"
    have "e = e' \<and> (if e = d \<and> m = n' then n else m) = (if e' = d \<and> m' = n' then n else m')"
      using j nowy [OF a(1)] nowy [OF a(2)] unfolding jedna_nazwa_def by blast
    then show "e = e' \<and> m = m'" using a nn by (auto split: if_splits)
  qed
  moreover have "?kat e m \<noteq> Some k" for e m using nowy [of e m k] t unfolding drzewo_def by blast
  moreover have "osiagalny (sp_kat A) k x \<Longrightarrow> osiagalny ?kat k x" for x
    by (rule osiagalny_wiecej [of "sp_kat A" ?kat, OF stary])
  ultimately show ?thesis using t by (simp add: drzewo_def a_zmien_nazwe_def)
qed

lemma drzewo_przenies:
  assumes t: "drzewo A k" and c: "sp_kat A d n = Some c" and d': "sp_typ A d' = TYP_KATALOG" "d \<noteq> d'" "sp_kat A d' n = None"
    and nie: "\<not> osiagalny (sp_kat A) c d'"
  shows "drzewo (a_przenies A d d' n c) k"
proof -
  let ?kat = "(sp_kat A)(d' := (sp_kat A d')(n \<mapsto> c), d := (sp_kat A d)(n := None))"
  have j: "jedna_nazwa A" and kk: "\<And>e m. sp_kat A e m \<noteq> Some k" using t by (simp_all add: drzewo_def)
  have kat': "sp_kat (a_przenies A d d' n c) = ?kat" by (simp add: a_przenies_def)
  have stary: "?kat e m = Some x" if "sp_kat A e m = Some x" "\<not> (e = d \<and> m = n)" for e m x using that d' by auto
  have bez_c: "osiagalny ?kat k x \<or> osiagalny (sp_kat A) c x" if "osiagalny (sp_kat A) k x" for x
    using that
  proof (induction rule: osiagalny.induct)
    case (krok_osiagalny e m x)
    then consider "osiagalny (sp_kat A) c e" | "e = d \<and> m = n" | "osiagalny ?kat k e" "\<not> (e = d \<and> m = n)" by blast
    then show ?case
    proof cases
      case 1
      then show ?thesis using krok_osiagalny(2) osiagalny.krok_osiagalny by blast
    next
      case 2
      then show ?thesis using krok_osiagalny(2) c osiagalny.korzen_osiagalny by auto
    next
      case 3
      then show ?thesis using krok_osiagalny(2) stary osiagalny.krok_osiagalny by blast
    qed
  qed (auto intro: osiagalny.korzen_osiagalny)
  have "osiagalny ?kat k d'" using bez_c [of d'] nie t d'(1) by (simp add: drzewo_def)
  then have kc: "osiagalny ?kat k c" using krok_osiagalny [of ?kat k d' n c] d'(2) by auto
  have "osiagalny ?kat k x" if "osiagalny (sp_kat A) c x" for x
    using that
  proof (induction rule: osiagalny.induct)
    case (krok_osiagalny e m x)
    show ?case
    proof (cases "e = d \<and> m = n")
      case True
      then have "x = c" using krok_osiagalny(2) c by simp
      then show ?thesis using kc by (simp only:)
    next
      case False
      then show ?thesis using krok_osiagalny stary osiagalny.krok_osiagalny by blast
    qed
  qed (rule kc)
  then have os: "osiagalny ?kat k x" if "osiagalny (sp_kat A) k x" for x using bez_c that by blast
  have nowy: "sp_kat A (if e = d' \<and> m = n then d else e) m = Some x \<and> \<not> (e = d \<and> m = n)" if "?kat e m = Some x" for e m x
    using that c d'(2) by (auto split: if_splits)
  have "jedna_nazwa (a_przenies A d d' n c)"
    unfolding jedna_nazwa_def kat'
  proof (intro allI impI)
    fix e m e' m' x assume a: "?kat e m = Some x" "?kat e' m' = Some x"
    have "(if e = d' \<and> m = n then d else e) = (if e' = d' \<and> m' = n then d else e') \<and> m = m'"
      using j nowy [OF a(1)] nowy [OF a(2)] unfolding jedna_nazwa_def by blast
    then show "e = e' \<and> m = m'" using nowy [OF a(1)] nowy [OF a(2)] by (auto split: if_splits)
  qed
  moreover have "?kat e m \<noteq> Some k" for e m using nowy [of e m k] kk by blast
  ultimately show ?thesis using t os by (simp add: drzewo_def a_przenies_def)
qed

lemma drzewo_zapisz [simp]: "drzewo (a_zapisz A i dane) k = drzewo A k"
  by (simp add: drzewo_def a_zapisz_def jedna_nazwa_def)

subsection \<open>The textual test for an ancestor\<close>

fun sklej :: "u8 list list \<Rightarrow> u8 list" where
  "sklej [] = []"
| "sklej [n] = n"
| "sklej (n # m # ms) = n @ 0x2F # sklej (m # ms)"

lemma sklej_segmenty: "sklej (segmenty zs) = zs"
proof (induction zs rule: segmenty.induct)
  case (1 zs)
  let ?P = "\<lambda>z :: u8. z \<noteq> 0x2F"
  show ?case
  proof (cases "dropWhile ?P zs")
    case Nil
    then have "segmenty zs = [zs]" by (subst segmenty.simps) (simp only: list.case)
    then show ?thesis by simp
  next
    case (Cons y ys)
    then have y: "y = 0x2F" by (metis (mono_tags, lifting) dropWhile_eq_Cons_conv)
    have "segmenty zs = takeWhile ?P zs # segmenty ys" using Cons by (subst segmenty.simps) simp
    moreover have "sklej (n # segmenty ys) = n @ 0x2F # sklej (segmenty ys)" for n
      by (cases "segmenty ys") simp_all
    ultimately show ?thesis using 1 [OF Cons] y Cons takeWhile_dropWhile_id [of ?P zs] by simp
  qed
qed

lemma segmenty_ukosnik: "segmenty (xs @ 0x2F # ys) = segmenty xs @ segmenty ys"
proof (induction xs rule: segmenty.induct)
  case (1 xs)
  let ?P = "\<lambda>z :: u8. z \<noteq> 0x2F"
  show ?case
  proof (cases "dropWhile ?P xs")
    case Nil
    then have x: "\<And>x. x \<in> set xs \<Longrightarrow> ?P x" by (simp add: dropWhile_eq_Nil_conv)
    have "takeWhile ?P (xs @ 0x2F # ys) = xs" "dropWhile ?P (xs @ 0x2F # ys) = 0x2F # ys"
      using takeWhile_append2 [of xs ?P, OF x] dropWhile_append2 [of xs ?P, OF x] by simp_all
    then have "segmenty (xs @ 0x2F # ys) = xs # segmenty ys" by (subst segmenty.simps) (simp only: list.case)
    moreover have "segmenty xs = [xs]" using Nil by (subst segmenty.simps) (simp only: list.case)
    ultimately show ?thesis by simp
  next
    case (Cons z zs)
    have "segmenty xs = takeWhile ?P xs # segmenty zs" using Cons by (subst segmenty.simps) simp
    moreover have "dropWhile ?P xs \<noteq> []" using Cons by simp
    then obtain x where x: "x \<in> set xs" "\<not> ?P x" unfolding dropWhile_eq_Nil_conv by blast
    have "dropWhile ?P (xs @ 0x2F # ys) = z # zs @ 0x2F # ys"
      unfolding dropWhile_append1 [of x xs ?P, OF x] Cons by simp
    then have "segmenty (xs @ 0x2F # ys) = takeWhile ?P xs # segmenty (zs @ 0x2F # ys)"
      using takeWhile_append1 [of x xs ?P, OF x] by (subst segmenty.simps) (simp only: list.case)
    ultimately show ?thesis using 1 [OF Cons] by simp
  qed
qed

lemma prefiks_segmentow: "prefix (segmenty xs) (segmenty ys) \<longleftrightarrow> ys = xs \<or> prefix (xs @ [0x2F]) ys"
proof
  have sk: "sklej (ns @ ms) = sklej ns @ 0x2F # sklej ms" if "ns \<noteq> []" "ms \<noteq> []" for ns ms
    using that
  proof (induction ns rule: sklej.induct)
    case (2 n)
    then show ?case by (cases ms) simp_all
  qed simp_all
  assume "prefix (segmenty xs) (segmenty ys)"
  then obtain ms where ms: "segmenty ys = segmenty xs @ ms" by (auto simp: prefix_def)
  then have "ys = (if ms = [] then xs else xs @ 0x2F # sklej ms)"
    using sklej_segmenty [of ys] sklej_segmenty [of xs] sk [of "segmenty xs" ms] by auto
  then show "ys = xs \<or> prefix (xs @ [0x2F]) ys" by (auto simp: prefix_def split: if_splits)
next
  assume "ys = xs \<or> prefix (xs @ [0x2F]) ys"
  then show "prefix (segmenty xs) (segmenty ys)" by (auto simp: prefix_def segmenty_ukosnik)
qed

lemma takeWhile_upt:
  "length (takeWhile P [0 ..< n]) \<le> n" "l < length (takeWhile P [0 ..< n]) \<Longrightarrow> P l"
  "length (takeWhile P [0 ..< n]) < n \<Longrightarrow> \<not> P (length (takeWhile P [0 ..< n]))"
proof -
  show d: "length (takeWhile P [0 ..< n]) \<le> n" using length_takeWhile_le [of P "[0 ..< n]"] by simp
  show "\<not> P (length (takeWhile P [0 ..< n]))" if "length (takeWhile P [0 ..< n]) < n"
    using nth_length_takeWhile [of P "[0 ..< n]"] that by simp
  assume l: "l < length (takeWhile P [0 ..< n])"
  then have "takeWhile P [0 ..< n] ! l = l" using d by (simp add: takeWhile_nth)
  then show "P l" using nth_mem [OF l] set_takeWhileD [of l P "[0 ..< n]"] by simp
qed

lemma przodek_tekst:
  assumes "zakonczony_string_w_limicie p 512 \<noteq> None" "zakonczony_string_w_limicie f 512 \<noteq> None"
  shows "sciezka_przodka p f \<longleftrightarrow> napis_sciezki f = napis_sciezki p \<or> prefix (napis_sciezki p @ [0x2F]) (napis_sciezki f)"
proof -
  note P = napis_znaki [OF assms(1)] and F = napis_znaki [OF assms(2)]
  let ?np = "napis_sciezki p" and ?nf = "napis_sciezki f"
  define i where "i = length (takeWhile (\<lambda>i. p i \<noteq> 0 \<and> f i = p i) [0 ..< 512])"
  note tw = takeWhile_upt [where P = "\<lambda>i. p i \<noteq> 0 \<and> f i = p i" and n = 512, folded i_def]
  have przed: "p l \<noteq> 0 \<and> f l = p l" if "l < i" for l using tw(2) that by blast
  have i1: "i \<le> length ?np" using przed [of "length ?np"] P(2) by (cases "i \<le> length ?np") auto
  then have i2: "\<not> (p i \<noteq> 0 \<and> f i = p i)"
    using tw(3) P(1) by auto
  have i3: "i \<le> length ?nf"
  proof (rule ccontr)
    assume "\<not> i \<le> length ?nf"
    then show False using przed [of "length ?nf"] F(2) by auto
  qed
  have pi: "p i = 0 \<longleftrightarrow> i = length ?np" using P(2) P(3) [of i] i1 by (cases "i = length ?np") auto
  have fi: "f i = 0 \<longleftrightarrow> i = length ?nf" using F(2) F(3) [of i] i3 by (cases "i = length ?nf") auto
  have tk: "take i ?nf = take i ?np"
    by (rule nth_equalityI) (use i1 i3 P(3) F(3) przed in auto)
  have "sciezka_przodka p f \<longleftrightarrow> p i = 0 \<and> (f i = 0 \<or> f i = 0x2F)" unfolding sciezka_przodka_def i_def [symmetric] Let_def ..
  also have "\<dots> \<longleftrightarrow> ?nf = ?np \<or> prefix (?np @ [0x2F]) ?nf"
  proof
    assume a: "p i = 0 \<and> (f i = 0 \<or> f i = 0x2F)"
    then have i: "i = length ?np" using pi by simp
    show "?nf = ?np \<or> prefix (?np @ [0x2F]) ?nf"
    proof (cases "f i = 0")
      case True
      then have l: "i = length ?nf" using fi by blast
      have "?nf = take i ?nf" using l by (rule take_all [symmetric, OF eq_refl, OF sym])
      also have "\<dots> = ?np" using tk take_all [OF eq_refl, OF i [symmetric]] by (rule trans)
      finally show ?thesis by (rule disjI1)
    next
      case False
      then have l: "i < length ?nf" using fi i3 by simp
      then have "?nf ! i = 0x2F" using F(3) [of i] a False by auto
      have "?nf = take i ?np @ ?nf ! i # drop (Suc i) ?nf" using id_take_nth_drop [OF l] unfolding tk .
      moreover have "take i ?np = ?np" using i by (simp only: take_all)
      ultimately have "?nf = ?np @ 0x2F # drop (Suc i) ?nf" using \<open>?nf ! i = 0x2F\<close> by (simp only:)
      then show ?thesis by (metis prefix_def append.assoc append_Cons append_Nil)
    qed
  next
    assume a: "?nf = ?np \<or> prefix (?np @ [0x2F]) ?nf"
    then have "\<exists>r. ?nf = ?np @ r \<and> (r = [] \<or> hd r = 0x2F)" by (auto simp: prefix_def)
    then obtain r where r: "?nf = ?np @ r" "r = [] \<or> hd r = 0x2F" by blast
    have ip: "i = length ?np"
    proof (rule ccontr)
      assume "i \<noteq> length ?np"
      then have l: "i < length ?np" using i1 by simp
      moreover have "?nf ! i = ?np ! i" using r(1) l by (simp add: nth_append)
      ultimately show False using i2 P(3) [of i] F(3) [of i] r(1) by simp
    qed
    show "p i = 0 \<and> (f i = 0 \<or> f i = 0x2F)"
    proof (cases r)
      case Nil
      then show ?thesis using ip pi fi r(1) by simp
    next
      case (Cons y ys)
      then have "f i = 0x2F" using F(3) [of i] r ip by (simp add: nth_append)
      then show ?thesis using ip pi by simp
    qed
  qed
  finally show ?thesis .
qed

lemma przodek_segmenty:
  assumes "bezpieczna_sciezka p" "bezpieczna_sciezka f" "segmenty_sciezki p \<noteq> []"
  shows "sciezka_przodka p f \<longleftrightarrow> prefix (segmenty_sciezki p) (segmenty_sciezki f)"
proof -
  note P = bezpieczna_napis [OF assms(1)] and F = bezpieczna_napis [OF assms(2)]
  have p: "segmenty_sciezki p = segmenty (tl (napis_sciezki p))" "tl (napis_sciezki p) \<noteq> []"
    using segmenty_bezpiecznej [OF assms(1)] assms(3) P by (simp_all split: if_splits)
  have e: "napis_sciezki f = napis_sciezki p \<or> prefix (napis_sciezki p @ [0x2F]) (napis_sciezki f) \<longleftrightarrow>
      tl (napis_sciezki f) = tl (napis_sciezki p) \<or> prefix (tl (napis_sciezki p) @ [0x2F]) (tl (napis_sciezki f))"
    using P(3) F(3) by (metis Cons_prefix_Cons append_Cons list.sel(3))
  show ?thesis
  proof (cases "tl (napis_sciezki f) = []")
    case True
    then have "segmenty_sciezki f = []" by (simp add: segmenty_sciezki_def)
    moreover have "\<not> sciezka_przodka p f" unfolding przodek_tekst [OF P(1) F(1)] e using True p(2) by simp
    ultimately show ?thesis using assms(3) by simp
  next
    case False
    then have "segmenty_sciezki f = segmenty (tl (napis_sciezki f))" using segmenty_bezpiecznej [OF assms(2)] F by simp
    then show ?thesis unfolding przodek_tekst [OF P(1) F(1)] e p(1) by (simp add: prefiks_segmentow)
  qed
qed

end
