(* ===== verification/Psf_Przenoszenie.thy ===== *)
theory Psf_Przenoszenie
  imports Psf_Drzewo
begin

section \<open>BSP2: what removing, renaming and moving do to the tree\<close>

text \<open>
  Each operation either performs the abstract operation of its name or leaves the file system as it was;
  which of the two happens is decided on the abstract file system.
\<close>

text \<open>A path's parent directory, last name and node.\<close>

definition a_cel :: "system_plikow \<Rightarrow> u64 \<Rightarrow> tekst \<Rightarrow> (u64 \<times> u8 list \<times> u64) option" where
  "a_cel A k p = (case a_rodzic A k p of None \<Rightarrow> None | Some (d, n) \<Rightarrow> map_option (\<lambda>c. (d, n, c)) (sp_kat A d n))"

lemma a_cel_rodzic:
  "a_cel A k p = Some (d, n, c) \<longleftrightarrow> a_rodzic A k p = Some (d, n) \<and> sp_kat A d n = Some c"
  by (auto simp: a_cel_def split: option.split)

lemma a_cel_wezel: "a_cel A k p = Some (d, n, c) \<Longrightarrow> a_wezel A k p = Some c"
proof -
  assume c: "a_cel A k p = Some (d, n, c)"
  then have r: "a_rodzic A k p = Some (d, n)" "sp_kat A d n = Some c" by (simp_all add: a_cel_rodzic)
  note o = a_rodzic_ok [OF r(1)]
  have "segmenty_sciezki p = butlast (segmenty_sciezki p) @ [n]" using o(4,6) by simp
  moreover have "spacer_po (sp_kat A) k (butlast (segmenty_sciezki p) @ [n]) = Some c" unfolding spacer_koniec using o(5) r(2) by blast
  ultimately show ?thesis using o(3) by (simp add: a_wezel_def)
qed

text \<open>The parent the code resolves.\<close>

lemma rozwiaz_cel:
  assumes "bsp2_ok s"
  shows "case a_rodzic (pliki_i_katalogi s) (korzen s) p of None \<Rightarrow> fst (rozwiaz_sciezke s p (Some (\<lambda>_. 0)) True) = 0
    | Some (d, n) \<Rightarrow> d \<noteq> 0 \<and> wezel_na_dysku s d \<and> p 1 \<noteq> 0 \<and>
        (\<exists>t. rozwiaz_sciezke s p (Some (\<lambda>_. 0)) True = (d, Some t) \<and> znaki_nazwy t = n)"
proof (cases "a_rodzic (pliki_i_katalogi s) (korzen s) p")
  case None
  then show ?thesis using rozwiaz_a(2) [OF assms, of p "\<lambda>_. 0"] by simp
next
  case (Some dn)
  obtain d n where dn: "dn = (d, n)" by force
  note o = a_rodzic_ok [OF Some [unfolded dn]]
  have "wezel_na_dysku s d" using bsp2_typ_na_dysku [of s d] o(1) by simp
  moreover from this have "d \<noteq> 0" by (simp add: wezel_na_dysku_def)
  moreover have "p 1 \<noteq> 0" using segmenty_bezpiecznej [OF o(3)] o(4) by auto
  ultimately show ?thesis using rozwiaz_a(2) [OF assms, of p "\<lambda>_. 0"] Some dn by simp
qed

subsection \<open>Removing\<close>

lemma usun_twor_krok:
  assumes ok: "bsp2_ok s" and jn: "jedna_nazwa (pliki_i_katalogi s)"
  shows "case a_cel (pliki_i_katalogi s) (korzen s) p of None \<Rightarrow> usun_twor E s (Some p) = (False, s)
    | Some (d, n, c) \<Rightarrow> if c = korzen s \<or> sp_kat (pliki_i_katalogi s) c \<noteq> Map.empty then usun_twor E s (Some p) = (False, s)
        else \<exists>s'. usun_twor E s (Some p) = (True, s') \<and> krok_api E s s' (a_usun (pliki_i_katalogi s) d n c)"
proof (cases "a_rodzic (pliki_i_katalogi s) (korzen s) p")
  case None
  then show ?thesis using rozwiaz_cel [OF ok, of p] by (auto simp: a_cel_def usun_twor_def split: prod.split)
next
  case (Some dn)
  obtain d n where dn: "dn = (d, n)" by force
  note o = a_rodzic_ok [OF Some [unfolded dn]]
  have gt: "ps_gotowy s" using ok by (simp add: bsp2_ok_def)
  obtain t where t: "rozwiaz_sciezke s p (Some (\<lambda>_. 0)) True = (d, Some t)" "znaki_nazwy t = n" and d: "d \<noteq> 0" "p 1 \<noteq> 0"
    using rozwiaz_cel [OF ok, of p] Some dn by auto
  let ?z = "znajdz_wpis_w_katalogu s d t"
  have u: "usun_twor E s (Some p) = (if \<not> zw_znaleziony ?z \<or> zw_id_wezla ?z = korzen s then (False, s) else usun_znaleziony E s d ?z)"
    using gt o(3) t(1) d by (simp add: usun_twor_def)
  show ?thesis
  proof (cases "sp_kat (pliki_i_katalogi s) d n")
    case None
    then show ?thesis using Some dn u znaleziony_widok [OF ok, of d t] t(2) by (simp add: a_cel_def)
  next
    case c: (Some c)
    then have kat: "sp_kat (pliki_i_katalogi s) d (znaki_nazwy t) = Some c" using t(2) by simp
    obtain k b j where z: "?z = \<lparr>zw_znaleziony = True, zw_id_wezla = c, zw_id_bloku = b, zw_indeks = j\<rparr>"
      using miejsce_wpisu [OF ok kat] by blast
    obtain ud s' where us: "usun_znaleziony E s d ?z = (ud, s')" by (cases "usun_znaleziony E s d ?z")
    show ?thesis using usun_znaleziony_krok [OF ok jn kat, of E] c Some dn u us z t(2) by (auto simp: a_cel_def split: if_splits)
  qed
qed

subsection \<open>Renaming\<close>

lemma v_wpis_nazwa: "v_wpis v d b x (w_rozmiar (vi_wezel v d)) = v_dane v b x"
  by (simp add: v_wpis_def v_wezel_def v_dane_def)

lemma zmien_nazwe_w_miejscu:
  assumes ok: "bsp2_ok s" and kat: "sp_kat (pliki_i_katalogi s) d n = Some c" and z: "zajmuje (widok s) d k b" "j < 64"
    "wpis_lista (vi_dane (widok s) b) j = [(n, c)]"
    and nn: "nazwa_ok (znaki_nazwy nn)" "sp_kat (pliki_i_katalogi s) d (znaki_nazwy nn) = None"
  shows "krok s (oznacz_dane_jako_brudne (zmien_blok s (nr_danych s b) (\<lambda>x. ustaw_nazwe_wpisu x j nn)) b)
    (a_zmien_nazwe (pliki_i_katalogi s) d n (znaki_nazwy nn) c)"
proof -
  have g: "geometria s" and sp: "spojny (widok s)" and po: "pliki_ok (widok s)" using ok by (simp_all add: bsp2_ok_def)
  note wn = wpisy_nazwy_ok [OF sp kat]
  let ?x = "ustaw_nazwe_wpisu (vi_dane (widok s) b) j nn" and ?r = "w_rozmiar (vi_wezel (widok s) d)"
  have b: "b < ps_bloki s" by (rule bsp2_zajety [OF ok z(1)])
  have id: "wp_id (wpis_z (vi_dane (widok s) b) j) = c \<and> c \<noteq> 0"
    using z(3) by (auto simp: wpis_lista_def napis_wpisu_def split: if_splits)
  have E': "wpis_lista ?x j = [(znaki_nazwy nn, c)]" using id by simp
  have "wpis_z ?x l = wpis_z (vi_dane (widok s) b) l" if "l \<noteq> j" for l using that by simp
  note wo = wpis_ok [OF sp wn(2) z(1,2) this, of ?r]
  have e: "nazwa_ok m \<and> e \<noteq> d \<and> typ_wezla (widok s) e \<noteq> TYP_WOLNY \<and>
      (sp_kat (pliki_i_katalogi s) d m = None \<or> m \<in> fst ` set (wpis_lista (vi_dane (widok s) b) j))"
    if "(m, e) \<in> set (wpis_lista ?x j)" for m e using that E' nn wn(4,5) by simp
  have r: "unat ?r + length (wpis_lista (vi_dane (widok s) b) j) = unat ?r + length (wpis_lista ?x j)" using z(3) E' by simp
  have "system (v_dane (widok s) b ?x) = a_zmien_nazwe (pliki_i_katalogi s) d n (znaki_nazwy nn) c"
    using wo(3) [OF _ r e po] unfolding v_wpis_nazwa E' z(3) by (simp add: a_zmien_nazwe_def)
  moreover have "spojny (v_dane (widok s) b ?x)" "pliki_ok (v_dane (widok s) b ?x)"
    using wo(1) [OF _ r e] wo(2) [OF _ r e po] unfolding v_wpis_nazwa by simp_all
  ultimately show ?thesis using krokI [OF zmiana_danych_brudna [OF g b, of "\<lambda>x. ustaw_nazwe_wpisu x j nn"] ok] by blast
qed

lemma zmien_nazwe_krok:
  assumes ok: "bsp2_ok s"
  shows "case a_cel (pliki_i_katalogi s) (korzen s) p of None \<Rightarrow> zmien_nazwe_tworu E s (Some p) (Some nowa) = (False, s)
    | Some (d, n, c) \<Rightarrow> if nazwa_ok (znaki_nazwy nowa) \<and> (znaki_nazwy nowa = n \<or> sp_kat (pliki_i_katalogi s) d (znaki_nazwy nowa) = None)
        then \<exists>s'. zmien_nazwe_tworu E s (Some p) (Some nowa) = (True, s') \<and>
          krok_api E s s' (a_zmien_nazwe (pliki_i_katalogi s) d n (znaki_nazwy nowa) c)
        else zmien_nazwe_tworu E s (Some p) (Some nowa) = (False, s)"
proof (cases "nazwa_ok (znaki_nazwy nowa) \<and> a_rodzic (pliki_i_katalogi s) (korzen s) p \<noteq> None")
  case False
  then have "zmien_nazwe_tworu E s (Some p) (Some nowa) = (False, s)"
    using rozwiaz_cel [OF ok, of p] by (auto simp: zmien_nazwe_tworu_def poprawna_nazwa_znaki Let_def split: prod.split option.splits)
  then show ?thesis using False by (auto simp: a_cel_def split: option.splits)
next
  case True
  then obtain d n where dn: "a_rodzic (pliki_i_katalogi s) (korzen s) p = Some (d, n)" by force
  note o = a_rodzic_ok [OF dn]
  have g: "geometria s" and gt: "ps_gotowy s" using ok by (simp_all add: bsp2_ok_def)
  obtain t where t: "rozwiaz_sciezke s p (Some (\<lambda>_. 0)) True = (d, Some t)" "znaki_nazwy t = n" and d: "d \<noteq> 0" "p 1 \<noteq> 0"
    using rozwiaz_cel [OF ok, of p] dn by auto
  let ?A = "pliki_i_katalogi s" and ?m = "znaki_nazwy nowa" and ?z = "znajdz_wpis_w_katalogu s d t"
  have nr: "nazwy_rowne t nowa \<longleftrightarrow> ?m = n" using o(2) t(2) unfolding nazwy_rowne_znaki by (auto simp: nazwa_ok_def)
  note zn = znaleziony_widok [OF ok, of d]
  define R where "R = (case pobierz_wpisy_katalogowe s (zw_id_bloku ?z) of None \<Rightarrow> (False, s)
              | Some nr \<Rightarrow>
                if zw_indeks ?z \<ge> unat wpisow_katalogowych_na_blok then (False, s)
                else (case kopiuj_nazwe (wp_nazwa (wpis s nr (zw_indeks ?z))) nowa of None \<Rightarrow> (False, s)
                  | Some nazwa \<Rightarrow>
                      let s1 = oznacz_dane_jako_brudne (zmien_blok s nr (\<lambda>b. ustaw_nazwe_wpisu b (zw_indeks ?z) nazwa)) (zw_id_bloku ?z)
                      in (True, snd (bsp_zapisz_zmiany E s1))))"
  have u: "zmien_nazwe_tworu E s (Some p) (Some nowa) = (if ?m = n then (sp_kat ?A d n \<noteq> None, s)
      else if sp_kat ?A d ?m \<noteq> None \<or> sp_kat ?A d n = None then (False, s) else R)"
    using gt o(3) t d True nr zn [of t] zn [of nowa] unfolding R_def
    by (simp add: zmien_nazwe_tworu_def poprawna_nazwa_znaki Let_def)
  show ?thesis
  proof (cases "sp_kat ?A d n")
    case None
    then show ?thesis using u dn by (simp add: a_cel_def)
  next
    case (Some c)
    show ?thesis
    proof (cases "?m \<noteq> n \<and> sp_kat ?A d ?m = None")
      case False
      have "a_zmien_nazwe ?A d n n c = ?A"
        using Some by (intro system_plikow.equality) (auto simp: a_zmien_nazwe_def fun_eq_iff)
      then show ?thesis using False u dn Some True krok_apiI(1) [OF krok_bez [OF ok], of E] by (auto simp: a_cel_def)
    next
      case nowe: True
      obtain k b j where z: "zajmuje (widok s) d k b" "j < 64" "wpis_lista (vi_dane (widok s) b) j = [(n, c)]"
        "?z = \<lparr>zw_znaleziony = True, zw_id_wezla = c, zw_id_bloku = b, zw_indeks = j\<rparr>"
        using miejsce_wpisu [OF ok, of d t c] Some t(2) by auto
      have b: "b < ps_bloki s" by (rule bsp2_zajety [OF ok z(1)])
      obtain nn where nn: "kopiuj_nazwe (wp_nazwa (wpis s (nr_danych s b) j)) nowa = Some nn" "znaki_nazwy nn = ?m"
        using kopiuj_nazwe_znaki [of "wp_nazwa (wpis s (nr_danych s b) j)" nowa] True by blast
      have K: "krok s (oznacz_dane_jako_brudne (zmien_blok s (nr_danych s b) (\<lambda>x. ustaw_nazwe_wpisu x j nn)) b) (a_zmien_nazwe ?A d n ?m c)"
        by (rule zmien_nazwe_w_miejscu [OF ok Some z(1-3), of nn, unfolded nn(2)]) (use True nowe in blast)+
      have "R = (True, snd (bsp_zapisz_zmiany E (oznacz_dane_jako_brudne (zmien_blok s (nr_danych s b) (\<lambda>x. ustaw_nazwe_wpisu x j nn)) b)))"
        unfolding R_def z(4) using z(2) nn(1) b by (simp add: pobierz_wpisy_geo [OF g] Let_def)
      then show ?thesis using krok_apiI(2) [OF K, of E] u nowe Some True dn by (simp add: a_cel_def)
    qed
  qed
qed

subsection \<open>Moving\<close>

lemma przenies_wpisy:
  assumes ok: "bsp2_ok s" and kat: "sp_kat (pliki_i_katalogi s) d n = Some c" and z: "zajmuje (widok s) d k b" "j < 64"
    "wpis_lista (vi_dane (widok s) b) j = [(n, c)]"
    and d': "d \<noteq> d'" and kr: "krok_wezla d' s s1 ((pliki_i_katalogi s)\<lparr>sp_kat := (sp_kat (pliki_i_katalogi s))
        (d' := (sp_kat (pliki_i_katalogi s) d')(n \<mapsto> c))\<rparr>)"
  shows "krok s (oznacz_wezel_jako_brudny (zmniejsz_rozmiar (usun_wpis s1 (nr_danych s b) b j) (nr_wezla s d)) d)
    (a_przenies (pliki_i_katalogi s) d d' n c)"
proof -
  let ?A = "pliki_i_katalogi s"
  have sp: "spojny (widok s)" using ok by (simp add: bsp2_ok_def)
  note wn = wpisy_nazwy_ok [OF sp kat]
  have kr1: "krok s s1 (?A\<lparr>sp_kat := (sp_kat ?A)(d' := (sp_kat ?A d')(n \<mapsto> c))\<rparr>)" and tw: "tylko_wezel (widok s) (widok s1) d'"
    using kr by (simp_all add: krok_wezla_def)
  note st = zmiana_stale [OF krok_zmiana [OF kr1]] and o1 = krok_ok [OF kr1]
  have ok1: "bsp2_ok s1" using o1 by blast
  then have g1: "geometria s1" and sp1: "spojny (widok s1)" and po1: "pliki_ok (widok s1)" by (simp_all add: bsp2_ok_def)
  have A1: "pliki_i_katalogi s1 = ?A\<lparr>sp_kat := (sp_kat ?A)(d' := (sp_kat ?A d')(n \<mapsto> c))\<rparr>" using o1 by blast
  have wd: "vi_wezel (widok s1) d = vi_wezel (widok s) d" "vi_dane (widok s1) b = vi_dane (widok s) b"
    using tw d' z(1) unfolding tylko_wezel_def by blast+
  have z1: "zajmuje (widok s1) d k b" "typ_wezla (widok s1) d = TYP_KATALOG" "wpis_lista (vi_dane (widok s1) b) j = [(n, c)]"
    using z(1,3) wd wn(2) by (simp_all add: zajmuje_def typ_wezla_def)
  obtain x r where x: "zmiana {} s1 (oznacz_wezel_jako_brudny (zmniejsz_rozmiar (usun_wpis s1 (nr_danych s1 b) b j) (nr_wezla s1 d)) d)
        (v_wpis (widok s1) d b x r)" "wpis_lista x j = []" "\<And>l. l \<noteq> j \<Longrightarrow> wpis_z x l = wpis_z (vi_dane (widok s1) b) l"
      "unat r + 1 = unat (w_rozmiar (vi_wezel (widok s1) d))"
    using usun_w_miejscu [OF g1 sp1 z1(2,1) z(2) z1(3)] by blast
  note wo = wpis_ok [OF sp1 z1(2,1) z(2) x(3), of r]
  have e: "nazwa_ok m \<and> e \<noteq> d \<and> typ_wezla (widok s1) e \<noteq> TYP_WOLNY \<and>
      (sp_kat (pliki_i_katalogi s1) d m = None \<or> m \<in> fst ` set (wpis_lista (vi_dane (widok s1) b) j))"
    if "(m, e) \<in> set (wpis_lista x j)" for m e using that x(2) by simp
  have r: "unat r + length (wpis_lista (vi_dane (widok s1) b) j) = unat (w_rozmiar (vi_wezel (widok s1) d)) + length (wpis_lista x j)"
    using x(2,4) z1(3) by simp
  have "system (v_wpis (widok s1) d b x r) = a_przenies ?A d d' n c"
    using wo(3) [OF _ r e po1] d' unfolding A1 z1(3) x(2) by (simp add: a_przenies_def)
  then have "krok s1 (oznacz_wezel_jako_brudny (zmniejsz_rozmiar (usun_wpis s1 (nr_danych s1 b) b j) (nr_wezla s1 d)) d) (a_przenies ?A d d' n c)"
    using krokI [OF x(1) ok1 wo(1) [OF _ r e] wo(2) [OF _ r e po1]] by blast
  then show ?thesis using krok_nast [OF kr1] st by simp
qed

lemma przenies_krok:
  assumes ok: "bsp2_ok s" and dr: "drzewo (pliki_i_katalogi s) (korzen s)"
  shows "case (a_cel (pliki_i_katalogi s) (korzen s) p, a_wezel (pliki_i_katalogi s) (korzen s) f) of
      (Some (d, n, c), Some d') \<Rightarrow>
        if sp_typ (pliki_i_katalogi s) d' = TYP_KATALOG \<and> d \<noteq> d' \<and> sp_kat (pliki_i_katalogi s) d' n = None \<and>
           \<not> osiagalny (sp_kat (pliki_i_katalogi s)) c d'
        then przenies_twor E s (Some p) (Some f) = (False, s) \<or>
          (\<exists>s'. przenies_twor E s (Some p) (Some f) = (True, s') \<and> krok_api E s s' (a_przenies (pliki_i_katalogi s) d d' n c))
        else przenies_twor E s (Some p) (Some f) = (False, s)
    | _ \<Rightarrow> przenies_twor E s (Some p) (Some f) = (False, s)"
proof -
  have g: "geometria s" and gt: "ps_gotowy s" and sp: "spojny (widok s)" using ok by (simp_all add: bsp2_ok_def)
  let ?A = "pliki_i_katalogi s" and ?k = "korzen s"
  show ?thesis
  proof (cases "a_cel ?A ?k p")
    case None
    then show ?thesis
    proof (cases "a_rodzic ?A ?k p")
      case None
      then show ?thesis using rozwiaz_cel [OF ok, of p] by (auto simp: a_cel_def przenies_twor_def Let_def split: prod.split)
    next
      case (Some dn)
      obtain d n where dn: "dn = (d, n)" by force
      obtain t where t: "rozwiaz_sciezke s p (Some (\<lambda>_. 0)) True = (d, Some t)" "znaki_nazwy t = n"
        using rozwiaz_cel [OF ok, of p] Some dn by auto
      have "sp_kat ?A d n = None" using None Some dn by (simp add: a_cel_def)
      then have "\<not> zw_znaleziony (znajdz_wpis_w_katalogu s d t)" using znaleziony_widok [OF ok] t(2) by simp
      then have "przenies_twor E s (Some p) (Some f) = (False, s)" using t(1) by (simp add: przenies_twor_def Let_def split: option.split)
      then show ?thesis using None by simp
    qed
  next
    case (Some dnc)
    obtain d n c where dnc: "dnc = (d, n, c)" by (cases dnc)
    have r: "a_rodzic ?A ?k p = Some (d, n)" and kat: "sp_kat ?A d n = Some c" using Some dnc by (simp_all add: a_cel_rodzic)
    note o = a_rodzic_ok [OF r] and wn = wpisy_nazwy_ok [OF sp kat]
    obtain t where t: "rozwiaz_sciezke s p (Some (\<lambda>_. 0)) True = (d, Some t)" "znaki_nazwy t = n"
      and d: "d \<noteq> 0" "wezel_na_dysku s d" "p 1 \<noteq> 0"
      using rozwiaz_cel [OF ok, of p] r by auto
    have wc: "a_wezel ?A ?k p = Some c" using a_cel_wezel Some dnc by blast
    have cd: "wezel_na_dysku s c" using bsp2_typ_na_dysku [of s c] wn(5) by simp
    then have c0: "c \<noteq> 0" by (simp add: wezel_na_dysku_def)
    have fc: "fst (rozwiaz_sciezke s p None False) = c" using rozwiaz_a(1) [OF ok, of p None] wc by simp
    show ?thesis
    proof (cases "a_wezel ?A ?k f")
      case None
      then have "fst (rozwiaz_sciezke s f None False) = 0" using rozwiaz_a(1) [OF ok, of f None] by simp
      then have "przenies_twor E s (Some p) (Some f) = (False, s)" by (simp add: przenies_twor_def Let_def split: prod.split)
      then show ?thesis using None Some dnc by simp
    next
      case f: (Some d')
      then have bf: "bezpieczna_sciezka f" and sf: "spacer_po (sp_kat ?A) ?k (segmenty_sciezki f) = Some d'"
        by (simp_all add: a_wezel_def split: if_splits)
      have sc: "spacer_po (sp_kat ?A) ?k (segmenty_sciezki p) = Some c" using wc by (simp add: a_wezel_def split: if_splits)
      have ff: "fst (rozwiaz_sciezke s f None False) = d'" using rozwiaz_a(1) [OF ok, of f None] f by simp
      have os: "osiagalny (sp_kat ?A) c d' \<longleftrightarrow> sciezka_przodka p f"
        unfolding przodek_segmenty [OF o(3) bf o(4)] by (rule podkatalog_prefiks [OF dr sc sf])
      show ?thesis
      proof (cases "sp_typ ?A d' = TYP_KATALOG \<and> d \<noteq> d' \<and> sp_kat ?A d' n = None \<and> \<not> osiagalny (sp_kat ?A) c d'")
        case False
        have "typ_wezla (widok s) c \<noteq> TYP_KATALOG \<Longrightarrow> sp_typ ?A d' = TYP_KATALOG \<Longrightarrow> \<not> osiagalny (sp_kat ?A) c d'"
        proof
          assume a: "typ_wezla (widok s) c \<noteq> TYP_KATALOG" "sp_typ ?A d' = TYP_KATALOG" "osiagalny (sp_kat ?A) c d'"
          then have "sp_kat ?A c = Map.empty" by (simp add: system_def)
          from osiagalny_lisc [OF a(3) this] show False using a by simp
        qed
        then have "przenies_twor E s (Some p) (Some f) = (False, s)"
          using False fc ff t d(1,3) cd d(2) znaleziony_widok [OF ok, of d' t] os
          by (auto simp: przenies_twor_def Let_def pobierz_wezel_geo [OF g] g typ_wezla_def widok_pola(1) [OF g])
        then show ?thesis using False Some dnc f by simp
      next
        case True
        have dd': "wezel_na_dysku s d'" using bsp2_typ_na_dysku [of s d'] True by simp
        then have d0: "d' \<noteq> 0" by (simp add: wezel_na_dysku_def)
        obtain k b j where z: "zajmuje (widok s) d k b" "j < 64" "wpis_lista (vi_dane (widok s) b) j = [(n, c)]"
          "znajdz_wpis_w_katalogu s d t = \<lparr>zw_znaleziony = True, zw_id_wezla = c, zw_id_bloku = b, zw_indeks = j\<rparr>"
          using miejsce_wpisu [OF ok, of d t c] kat t(2) by auto
        have b: "b < ps_bloki s" by (rule bsp2_zajety [OF ok z(1)])
        have nz: "\<not> zw_znaleziony (znajdz_wpis_w_katalogu s d' t)" using znaleziony_widok [OF ok, of d' t] True t(2) by simp
        have ty: "w_typ (wezel s (nr_wezla s d)) = TYP_KATALOG" "w_typ (wezel s (nr_wezla s d')) = TYP_KATALOG"
          using widok_pola(1) [OF g d(2)] widok_pola(1) [OF g dd'] True wn(2) by (simp_all add: typ_wezla_def)
        have "c \<noteq> d'" using True korzen_osiagalny by auto
        note dk = dodaj_wpis_krok [OF ok wn(5) this, of t, unfolded t(2)]
        obtain ud s1 where s1: "dodaj_wpis_do_katalogu s d' c t = (ud, s1)" by (cases "dodaj_wpis_do_katalogu s d' c t")
        let ?s3 = "oznacz_wezel_jako_brudny (zmniejsz_rozmiar (usun_wpis s1 (nr_danych s b) b j) (nr_wezla s d)) d"
        have u: "przenies_twor E s (Some p) (Some f) = (if \<not> ud then (False, s1) else (True, snd (bsp_zapisz_zmiany E ?s3)))"
          using gt o(2,3) bf d t fc ff c0 d0 cd dd' b z(2,4) nz True os ty s1
          by (simp add: przenies_twor_def Let_def poprawna_nazwa_znaki pobierz_wezel_geo [OF g] g pobierz_wpisy_geo [OF g])
        have ud: "ud \<Longrightarrow> krok_wezla d' s s1 (?A\<lparr>sp_kat := (sp_kat ?A)(d' := (sp_kat ?A d')(n \<mapsto> c))\<rparr>)" "\<not> ud \<Longrightarrow> s1 = s"
          using dk s1 by simp_all
        have K: "ud \<Longrightarrow> krok_api E s (snd (bsp_zapisz_zmiany E ?s3)) (a_przenies ?A d d' n c)"
          using przenies_wpisy [OF ok kat z(1-3) _ ud(1)] True krok_apiI(2) by blast
        show ?thesis using u ud(2) K True Some dnc f by (cases ud) auto
      qed
    qed
  qed
qed

end
