(* ===== verification/Psf_Pliki.thy ===== *)
theory Psf_Pliki
  imports Psf_Przenoszenie
begin

section \<open>BSP2: reading and writing files\<close>

text \<open>
  The write takes the missing blocks, or gives back what it took; fills the blocks of the new size; gives
  back the rest and sets the size. The read copies the blocks of the size.
\<close>

subsection \<open>Taking the missing blocks\<close>

definition wolne_bloki :: "psf \<Rightarrow> u64 set" where
  "wolne_bloki s = {b. b < ps_bloki s \<and> \<not> vi_zajety (widok s) b}"

lemma wolne_skonczone [simp]: "finite (wolne_bloki s)"
  by (simp add: wolne_bloki_def)

text \<open>The blocks taken so far lie past the file's size.\<close>

definition wziete :: "widok \<Rightarrow> u64 \<Rightarrow> (nat \<times> u64) list \<Rightarrow> bool" where
  "wziete v i nowe \<longleftrightarrow> distinct (map fst nowe) \<and> (\<forall>(k, b) \<in> set nowe. zajmuje v i k b \<and> unat (w_rozmiar (vi_wezel v i)) \<le> k * 4096)"

lemma oddaj_plik:
  assumes sp: "spojny v" and po: "pliki_ok v" and i: "typ_wezla v i = TYP_PLIK" and z: "zajmuje v i k b"
    and r: "unat (w_rozmiar (vi_wezel v i)) \<le> k * 4096"
  shows "spojny (v_oddaj v i k)" "pliki_ok (v_oddaj v i k)" "system (v_oddaj v i k) = system v"
proof -
  have p: "typ_wezla v i = TYP_KATALOG \<Longrightarrow> lista_bloku (vi_dane v b) = []" using i by simp
  note o = oddaj_ok [OF sp z p]
  show "spojny (v_oddaj v i k)" by (rule o(1))
  have "plik_ok (vi_wezel (v_oddaj v i k) j)" if "typ_wezla v j = TYP_PLIK" for j
    using po that r by (auto simp: pliki_ok_def plik_ok_def)
  then show "pliki_ok (v_oddaj v i k)" by (simp add: pliki_ok_def)
  show "system (v_oddaj v i k) = system v"
    by (rule systemI) (use o(2,3) po r in \<open>simp_all add: pliki_ok_def\<close>)
qed

lemma cofnij_widok:
  assumes "geometria s" "spojny (widok s)" "pliki_ok (widok s)" "typ_wezla (widok s) i = TYP_PLIK" "wziete (widok s) i nowe"
  shows "\<exists>v. zmiana {nr_wezla s i} s (cofnij_przydzial s (nr_wezla s i) nowe) v \<and> spojny v \<and> pliki_ok v \<and> system v = system (widok s)"
  using assms
proof (induction nowe arbitrary: s)
  case Nil
  then show ?case using zmiana_bez by auto
next
  case (Cons kb nowe)
  obtain k b where kb: "kb = (k, b)" by force
  have z: "zajmuje (widok s) i k b" "unat (w_rozmiar (vi_wezel (widok s) i)) \<le> k * 4096" and wz: "wziete (widok s) i nowe" "k \<notin> fst ` set nowe"
    using Cons.prems(5) unfolding kb by (auto simp: wziete_def)
  have bo: "bloki_ok (widok s)" using Cons.prems(2) by (simp add: spojny_def)
  have kk: "k < 490" "w_wskazniki (vi_wezel (widok s) i) k = b" using z(1) by (simp_all add: zajmuje_def)
  have d: "wezel_na_dysku s i" using bsp2_typ_na_dysku [of s i] Cons.prems(4) by simp
  define s1 where "s1 = snd (zwolnij_blok_danych (ustaw_wskaznik s (nr_wezla s i) k BARK_BLOKU) b)"
  have z1: "zmiana {nr_wezla s i} s s1 (v_oddaj (widok s) i k)"
    unfolding s1_def by (rule cofnij_kod [OF Cons.prems(1) d kk zajmuje_zajety [OF bo z(1)]])
  note w1 = zmiana_widok [OF z1] and st = zmiana_stale [OF z1] and o = oddaj_plik [OF Cons.prems(2-4) z]
  have "wziete (widok s1) i nowe" unfolding w1 wziete_def
  proof (intro conjI ballI, goal_cases)
    case 1
    then show ?case using wz(1) by (simp add: wziete_def)
  next
    case (2 e)
    obtain l c where e: "e = (l, c)" by force
    then have l: "zajmuje (widok s) i l c" "unat (w_rozmiar (vi_wezel (widok s) i)) \<le> l * 4096" "l \<noteq> k"
      using wz 2 by (force simp: wziete_def)+
    then have "c \<noteq> b" using zajmuje_jeden [OF bo z(1), of i l] by blast
    then show ?case unfolding e using l oddaj_zajmuje [OF bo z(1)] by simp
  qed
  moreover have "spojny (widok s1)" "pliki_ok (widok s1)" "typ_wezla (widok s1) i = TYP_PLIK"
    unfolding w1 using o Cons.prems(4) by simp_all
  ultimately obtain v where v: "zmiana {nr_wezla s1 i} s1 (cofnij_przydzial s1 (nr_wezla s1 i) nowe) v" "spojny v" "pliki_ok v"
      "system v = system (widok s1)" using Cons.IH [OF zmiana_geo [OF z1 Cons.prems(1)]] by blast
  have "zmiana {nr_wezla s i} s (cofnij_przydzial s1 (nr_wezla s1 i) nowe) v" using zmiana_nast [OF z1 v(1)] st by simp
  then show ?case using v o(3) st unfolding kb w1 by (auto simp: s1_def)
qed

text \<open>What the loop leads to: the blocks taken, the missing ones gone when it succeeds, too little space when it does not.\<close>

definition przydzielone :: "psf \<Rightarrow> psf \<Rightarrow> u64 \<Rightarrow> (nat \<times> u64) list \<Rightarrow> bool" where
  "przydzielone s s' i nowe \<longleftrightarrow> zmiana {nr_wezla s i} s s' (widok s') \<and> spojny (widok s') \<and> pliki_ok (widok s') \<and>
     system (widok s') = system (widok s) \<and> wziete (widok s') i nowe \<and> tylko_wezel (widok s) (widok s') i \<and>
     w_rozmiar (vi_wezel (widok s') i) = w_rozmiar (vi_wezel (widok s) i) \<and>
     (\<forall>k. w_wskazniki (vi_wezel (widok s) i) k \<noteq> BARK_BLOKU \<longrightarrow> w_wskazniki (vi_wezel (widok s') i) k \<noteq> BARK_BLOKU)"

lemma przydziel_plik:
  assumes g: "geometria s" and sp: "spojny (widok s)" and po: "pliki_ok (widok s)" and i: "typ_wezla (widok s) i = TYP_PLIK"
    and k: "k < 490" "w_wskazniki (vi_wezel (widok s) i) k = BARK_BLOKU" and b: "b \<noteq> BARK_BLOKU" "\<not> vi_zajety (widok s) b"
    and wz: "wziete (widok s) i nowe"
    and z: "zmiana {nr_wezla s i} s s1 (v_przydziel (widok s) i k b)"
  shows "przydzielone s s1 i (nowe @ [(k, b)])" "b < ps_bloki s \<Longrightarrow> wolne_bloki s1 = wolne_bloki s - {b}"
proof -
  have t: "typ_wezla (widok s) i \<noteq> TYP_WOLNY" using i by simp
  note w1 = zmiana_widok [OF z] and st = zmiana_stale [OF z] and o = przydziel_ok [OF sp t k b] and pz = przydziel_zajmuje [OF t k b(1)]
  have bo: "bloki_ok (widok s)" using sp by (simp add: spojny_def)
  have r: "unat (w_rozmiar (vi_wezel (widok s) i)) \<le> k * 4096"
    using po i k(2) by (meson pliki_ok_def plik_ok_def not_le)
  have "k \<notin> fst ` set nowe"
  proof
    assume "k \<in> fst ` set nowe"
    then obtain c where "(k, c) \<in> set nowe" by auto
    then have "zajmuje (widok s) i k c" using wz by (auto simp: wziete_def)
    then show False using k(2) unfolding zajmuje_def by blast
  qed
  then have "wziete (widok s1) i (nowe @ [(k, b)])" using wz r unfolding w1 wziete_def by (auto simp: pz)
  moreover have "tylko_wezel (widok s) (widok s1) i" unfolding w1 using bo b(2) by (rule tylko_przydzial)
  ultimately show "przydzielone s s1 i (nowe @ [(k, b)])"
    using o po z b(1) unfolding przydzielone_def w1 by simp
  show "b < ps_bloki s \<Longrightarrow> wolne_bloki s1 = wolne_bloki s - {b}" using st b(2) unfolding wolne_bloki_def w1 by auto
qed

lemma przydzielone_nast:
  assumes "przydzielone s s1 i nowe" "przydzielone s1 s2 i nowe'"
  shows "przydzielone s s2 i nowe'"
proof -
  have z: "zmiana {nr_wezla s i} s s1 (widok s1)" "zmiana {nr_wezla s1 i} s1 s2 (widok s2)" using assms by (simp_all add: przydzielone_def)
  have "zmiana {nr_wezla s i} s s2 (widok s2)" using zmiana_nast [OF z] zmiana_stale [OF z(1)] by simp
  then show ?thesis using assms tylko_wezel_nast unfolding przydzielone_def by auto
qed

lemma przydziel_bloki_widok:
  assumes "geometria s" "spojny (widok s)" "pliki_ok (widok s)" "typ_wezla (widok s) i = TYP_PLIK" "set ks \<subseteq> {..< 490}" "distinct ks"
    and "wziete (widok s) i nowe"
  shows "\<exists>ok s' nowe'. przydziel_bloki s (nr_wezla s i) ks nowe = (ok, s', nowe') \<and> przydzielone s s' i nowe' \<and>
    (if ok then \<forall>k \<in> set ks. w_wskazniki (vi_wezel (widok s') i) k \<noteq> BARK_BLOKU
     else card (wolne_bloki s) < length (filter (\<lambda>k. w_wskazniki (vi_wezel (widok s) i) k = BARK_BLOKU) ks))"
  using assms
proof (induction ks arbitrary: s nowe)
  case Nil
  then have "przydzielone s s i nowe" using zmiana_bez by (simp add: przydzielone_def tylko_wezel_def)
  then show ?case by (intro exI [of _ True] exI [of _ s] exI [of _ nowe]) simp
next
  case (Cons k ks)
  have d: "wezel_na_dysku s i" using bsp2_typ_na_dysku [of s i] Cons.prems(4) by simp
  have w: "wezel s (nr_wezla s i) = vi_wezel (widok s) i" by (rule widok_pola(1) [OF Cons.prems(1) d])
  have k: "k < 490" and ks: "set ks \<subseteq> {..< 490}" "distinct ks" "k \<notin> set ks" using Cons.prems(5,6) by auto
  show ?case
  proof (cases "w_wskazniki (vi_wezel (widok s) i) k = BARK_BLOKU")
    case False
    obtain ok s' nowe' where r: "przydziel_bloki s (nr_wezla s i) ks nowe = (ok, s', nowe')" "przydzielone s s' i nowe'"
      "if ok then \<forall>k \<in> set ks. w_wskazniki (vi_wezel (widok s') i) k \<noteq> BARK_BLOKU
       else card (wolne_bloki s) < length (filter (\<lambda>k. w_wskazniki (vi_wezel (widok s) i) k = BARK_BLOKU) ks)"
      using Cons.IH [OF Cons.prems(1-4) ks(1,2) Cons.prems(7)] by blast
    then show ?thesis using False w by (auto simp: przydzielone_def)
  next
    case True
    note pk = przydziel_kod [OF Cons.prems(1) d k]
    show ?thesis
    proof (cases "zaalokuj_wolny_blok_danych s = (BARK_BLOKU, s)")
      case brak: True
      then have "wolne_bloki s = {}" using pk by (auto simp: wolne_bloki_def)
      moreover have "przydzielone s s i nowe" using Cons.prems zmiana_bez by (simp add: przydzielone_def tylko_wezel_def)
      ultimately show ?thesis using brak True w by (intro exI [of _ False] exI [of _ s] exI [of _ nowe]) simp
    next
      case False
      then obtain b s0 where b: "zaalokuj_wolny_blok_danych s = (b, s0)" "b \<noteq> BARK_BLOKU" "b < ps_bloki s" "\<not> vi_zajety (widok s) b"
        "zmiana {nr_wezla s i} s (ustaw_wskaznik s0 (nr_wezla s i) k b) (v_przydziel (widok s) i k b)" using pk by blast
      define s1 where "s1 = ustaw_wskaznik s0 (nr_wezla s i) k b"
      note z1 = b(5) [folded s1_def]
      note st = zmiana_stale [OF z1] and w1 = zmiana_widok [OF z1]
      note pp = przydziel_plik [OF Cons.prems(1-4) k True b(2,4) Cons.prems(7) z1]
      have p1: "spojny (widok s1)" "pliki_ok (widok s1)" "wziete (widok s1) i (nowe @ [(k, b)])" using pp(1) by (simp_all add: przydzielone_def)
      have t1: "typ_wezla (widok s1) i = TYP_PLIK" unfolding w1 using Cons.prems(4) by simp
      obtain ok s' nowe' where r: "przydziel_bloki s1 (nr_wezla s1 i) ks (nowe @ [(k, b)]) = (ok, s', nowe')" "przydzielone s1 s' i nowe'"
        "if ok then \<forall>k \<in> set ks. w_wskazniki (vi_wezel (widok s') i) k \<noteq> BARK_BLOKU
         else card (wolne_bloki s1) < length (filter (\<lambda>k. w_wskazniki (vi_wezel (widok s1) i) k = BARK_BLOKU) ks)"
        using Cons.IH [OF zmiana_geo [OF z1 Cons.prems(1)] p1(1,2) t1 ks(1,2) p1(3)] by blast
      have "przydziel_bloki s (nr_wezla s i) (k # ks) nowe = (ok, s', nowe')" using True w b(1,2) r(1) st by (simp add: s1_def)
      moreover have "przydzielone s s' i nowe'" by (rule przydzielone_nast [OF pp(1) r(2)])
      moreover have "w_wskazniki (vi_wezel (widok s') i) k \<noteq> BARK_BLOKU" using r(2) b(2) unfolding przydzielone_def w1 by simp
      moreover have "card (wolne_bloki s) = Suc (card (wolne_bloki s1))"
        unfolding pp(2) [OF b(3)] using b(3,4) by (intro card.remove) (simp_all add: wolne_bloki_def)
      moreover have "filter (\<lambda>k. w_wskazniki (vi_wezel (widok s1) i) k = BARK_BLOKU) ks = filter (\<lambda>k. w_wskazniki (vi_wezel (widok s) i) k = BARK_BLOKU) ks"
        unfolding w1 using ks(3) by (intro filter_cong) auto
      ultimately show ?thesis using r(3) True by (auto split: if_splits)
    qed
  qed
qed

subsection \<open>Filling the blocks\<close>

text \<open>The blocks \<open>m\<close> up to \<open>p\<close> of node \<open>i\<close> hold their part of the bytes; nothing else has changed.\<close>

definition zapisane :: "widok \<Rightarrow> widok \<Rightarrow> u64 \<Rightarrow> (nat \<Rightarrow> u8) \<Rightarrow> nat \<Rightarrow> nat \<Rightarrow> nat \<Rightarrow> bool" where
  "zapisane v v' i dane n m p \<longleftrightarrow> vi_wezel v' = vi_wezel v \<and> vi_zajety v' = vi_zajety v \<and>
     (\<forall>b. (\<forall>k. m \<le> k \<longrightarrow> k < p \<longrightarrow> w_wskazniki (vi_wezel v i) k \<noteq> b) \<longrightarrow> vi_dane v' b = vi_dane v b) \<and>
     (\<forall>k x. m \<le> k \<longrightarrow> k < p \<longrightarrow> x < 4096 \<longrightarrow> k * 4096 + x < n \<longrightarrow> vi_dane v' (w_wskazniki (vi_wezel v i) k) x = dane (k * 4096 + x))"

lemma porcja_unat:
  assumes "unat (z :: u64) \<le> unat d"
  shows "unat (if d - z > of_nat 4096 then of_nat 4096 else d - z) = min 4096 (unat d - unat z)"
proof -
  have "unat (d - z) = unat d - unat z" using assms by (intro unat_sub_u64) (simp add: word_le_nat_alt)
  then show ?thesis by (auto simp: word_less_nat_alt min_def)
qed

lemma zapisz_bloki_widok:
  assumes "geometria s" "bloki_ok (widok s)" "typ_wezla (widok s) i \<noteq> TYP_WOLNY" "p \<le> 490"
    and "\<And>k. k < p \<Longrightarrow> w_wskazniki (vi_wezel (widok s) i) k \<noteq> BARK_BLOKU"
    and "m \<le> p" "m < p \<Longrightarrow> unat zap = m * 4096" "unat dl \<le> p * 4096" "p * 4096 < unat dl + 4096"
  shows "\<exists>s'. zapisz_bloki s (nr_wezla s i) dane dl zap [m ..< p] = (True, s') \<and> zmiana {} s s' (widok s') \<and>
    zapisane (widok s) (widok s') i dane (unat dl) m p"
  using assms
proof (induction "p - m" arbitrary: s m zap)
  case 0
  then show ?case using zmiana_bez by (simp add: zapisane_def)
next
  case (Suc q)
  have m: "m < p" "[m ..< p] = m # [Suc m ..< p]" using Suc.hyps(2) by (simp_all add: upt_conv_Cons)
  have d: "wezel_na_dysku s i" by (rule bsp2_typ_na_dysku [OF Suc.prems(3)])
  let ?w = "vi_wezel (widok s) i"
  let ?b = "w_wskazniki ?w m"
  have w: "wezel s (nr_wezla s i) = ?w" by (rule widok_pola(1) [OF Suc.prems(1) d])
  have zm: "zajmuje (widok s) i m ?b" using Suc.prems(3,4) Suc.prems(5) [OF m(1)] m(1) by (simp add: zajmuje_def)
  have b: "?b < ps_bloki s" by (rule widok_pola(4) [OF Suc.prems(1) zajmuje_zajety [OF Suc.prems(2) zm]])
  have mp: "m * 4096 + 4096 \<le> p * 4096" using m(1) by simp
  have uz: "unat zap = m * 4096" using Suc.prems(7) m(1) by blast
  define por where "por = (if dl - zap > of_nat 4096 then of_nat 4096 else dl - zap)"
  have uz': "unat zap \<le> unat dl" using uz Suc.prems(9) mp by linarith
  have po: "unat por = min 4096 (unat dl - m * 4096)" unfolding por_def uz [symmetric] by (rule porcja_unat [OF uz'])
  define f where "f = (\<lambda>x. let b1 = kopiuj_pamiec x 0 (\<lambda>y. dane (unat zap + y)) (unat por) in
      if por < of_nat 4096 then wyzeruj_pamiec b1 (unat por) (4096 - unat por) else b1)"
  define s1 where "s1 = oznacz_dane_jako_brudne (zmien_blok s (nr_danych s ?b) f) ?b"
  have z1: "zmiana {} s s1 (v_dane (widok s) ?b (f (vi_dane (widok s) ?b)))" unfolding s1_def by (rule zmiana_danych_brudna [OF Suc.prems(1) b])
  note st = zmiana_stale [OF z1] and w1 = zmiana_widok [OF z1]
  have fx: "f y x = dane (m * 4096 + x)" if "x < 4096" "m * 4096 + x < unat dl" for y x
    using that po uz by (auto simp: f_def Let_def kopiuj_pamiec_def wyzeruj_pamiec_def)
  have u1: "Suc m < p \<Longrightarrow> unat (zap + por) = Suc m * 4096"
  proof -
    assume "Suc m < p"
    then have "Suc m * 4096 + 4096 \<le> p * 4096" by simp
    then have "unat por = 4096" using po Suc.prems(9) by simp
    then show ?thesis using uz m(1) Suc.prems(4) by (subst unat_add_u64) simp_all
  qed
  have zz: "zajmuje (widok s1) = zajmuje (widok s)" unfolding w1 by (simp add: zajmuje_def typ_wezla_def fun_eq_iff)
  have "\<exists>s'. zapisz_bloki s1 (nr_wezla s1 i) dane dl (zap + por) [Suc m ..< p] = (True, s') \<and> zmiana {} s1 s' (widok s') \<and>
    zapisane (widok s1) (widok s') i dane (unat dl) (Suc m) p"
  proof (rule Suc.hyps(1))
    show "q = p - Suc m" using Suc.hyps(2) by simp
    show "geometria s1" by (rule zmiana_geo [OF z1 Suc.prems(1)])
    show "bloki_ok (widok s1)" using Suc.prems(2) unfolding bloki_ok_def zz unfolding w1 by simp
    show "typ_wezla (widok s1) i \<noteq> TYP_WOLNY" using Suc.prems(3) unfolding w1 by (simp add: typ_wezla_def)
    show "Suc m \<le> p" using m(1) by simp
    show "w_wskazniki (vi_wezel (widok s1) i) k \<noteq> BARK_BLOKU" if "k < p" for k using Suc.prems(5) [OF that] unfolding w1 by simp
  qed (use Suc.prems u1 in simp_all)
  then obtain s' where s': "zapisz_bloki s1 (nr_wezla s1 i) dane dl (zap + por) [Suc m ..< p] = (True, s')" "zmiana {} s1 s' (widok s')"
    "zapisane (widok s1) (widok s') i dane (unat dl) (Suc m) p" by blast
  note za = s'(3) [unfolded zapisane_def w1 v_pola]
  have inny: "w_wskazniki ?w k \<noteq> ?b" if "Suc m \<le> k" "k < p" for k
    using inny_blok [OF Suc.prems(2) zm Suc.prems(3), of k] that Suc.prems(4) by simp
  have pierwszy: "vi_dane (widok s') ?b = f (vi_dane (widok s) ?b)" using za inny by auto
  have "zapisz_bloki s (nr_wezla s i) dane dl zap [m ..< p] = zapisz_bloki s1 (nr_wezla s i) dane dl (zap + por) [Suc m ..< p]"
    by (simp only: m(2) zapisz_bloki.simps w pobierz_dane_geo [OF Suc.prems(1)] b if_True option.case s1_def f_def por_def Let_def)
  then have "zapisz_bloki s (nr_wezla s i) dane dl zap [m ..< p] = (True, s')" using s'(1) st by simp
  moreover have "zmiana {} s s' (widok s')" using zmiana_nast [OF z1 s'(2)] by simp
  moreover have "zapisane (widok s) (widok s') i dane (unat dl) m p"
    unfolding zapisane_def
  proof (intro conjI allI impI)
    fix c assume c: "\<forall>k. m \<le> k \<longrightarrow> k < p \<longrightarrow> w_wskazniki ?w k \<noteq> c"
    then have "vi_dane (widok s') c = ((vi_dane (widok s)) (?b := f (vi_dane (widok s) ?b))) c" using za by simp
    then show "vi_dane (widok s') c = vi_dane (widok s) c" using c m(1) by auto
  next
    fix k x :: nat assume k: "m \<le> k" "k < p" "x < 4096" "k * 4096 + x < unat dl"
    show "vi_dane (widok s') (w_wskazniki ?w k) x = dane (k * 4096 + x)"
    proof (cases "k = m")
      case True
      then show ?thesis using pierwszy fx k by simp
    next
      case False
      then show ?thesis using za k by simp
    qed
  qed (use za in simp_all)
  ultimately show ?case by blast
qed

lemma zapisane_ok:
  assumes sp: "spojny v" and i: "typ_wezla v i = TYP_PLIK" and za: "zapisane v v' i dane n m p" and p: "p \<le> 490"
  shows "spojny v'" "typ_wezla v' = typ_wezla v" "typ_wezla v d = TYP_KATALOG \<Longrightarrow> wpisy v' d = wpisy v d"
    "typ_wezla v j = TYP_PLIK \<Longrightarrow> plik_ok (vi_wezel v j) \<Longrightarrow> j \<noteq> i \<Longrightarrow>
       tresc_wezla (vi_dane v') (vi_wezel v' j) = tresc_wezla (vi_dane v) (vi_wezel v j)"
proof -
  note z = za [unfolded zapisane_def]
  have bo: "bloki_ok v" using sp by (simp add: spojny_def)
  show t: "typ_wezla v' = typ_wezla v" using z by (simp add: typ_wezla_def fun_eq_iff)
  have inne: "vi_dane v' (w_wskazniki (vi_wezel v d) l) = vi_dane v (w_wskazniki (vi_wezel v d) l)"
    if "typ_wezla v d \<noteq> TYP_WOLNY" "d \<noteq> i" "l < 490" "w_wskazniki (vi_wezel v d) l \<noteq> BARK_BLOKU" for d l
  proof -
    have "zajmuje v d l (w_wskazniki (vi_wezel v d) l)" using that by (simp add: zajmuje_def)
    from inny_blok [OF bo this, of i] have "\<forall>k < p. w_wskazniki (vi_wezel v i) k \<noteq> w_wskazniki (vi_wezel v d) l"
      using i p that(2) by auto
    then show ?thesis using z by blast
  qed
  have w: "wpisy v' d = wpisy v d" if d: "typ_wezla v d = TYP_KATALOG" for d
  proof -
    have "d \<noteq> i" using d i by auto
    then show ?thesis using inne [of d] d z by (intro wpisy_rama_bloki) simp_all
  qed
  then show "typ_wezla v d = TYP_KATALOG \<Longrightarrow> wpisy v' d = wpisy v d" .
  have zz: "zajmuje v' = zajmuje v" using z t by (simp add: zajmuje_def fun_eq_iff)
  have "bloki_ok v'" using bo z unfolding bloki_ok_def zz by simp
  moreover have "wezly_ok v'" using sp z t by (simp add: spojny_def wezly_ok_def)
  moreover have "katalogi_ok v'" by (rule katalogi_rama [of v]) (use sp w t z in \<open>simp_all add: spojny_def\<close>)
  ultimately show "spojny v'" by (simp add: spojny_def)
  assume j: "typ_wezla v j = TYP_PLIK" "plik_ok (vi_wezel v j)" "j \<noteq> i"
  show "tresc_wezla (vi_dane v') (vi_wezel v' j) = tresc_wezla (vi_dane v) (vi_wezel v j)"
    using inne [of j] j(1,3) z by (intro tresc_rama [OF j(2)]) auto
qed

subsection \<open>The whole write\<close>

definition bloki_rozmiaru :: "nat \<Rightarrow> nat" where
  "bloki_rozmiaru n = n div 4096 + (if n mod 4096 \<noteq> 0 then 1 else 0)"

lemma bloki_rozmiaru_granice:
  "n \<le> bloki_rozmiaru n * 4096" "bloki_rozmiaru n * 4096 < n + 4096" "k * 4096 < n \<longleftrightarrow> k < bloki_rozmiaru n"
  "n \<le> 490 * 4096 \<Longrightarrow> bloki_rozmiaru n \<le> 490"
proof -
  have e: "n = n div 4096 * 4096 + n mod 4096" "n mod 4096 < 4096" by simp_all
  have c: "n mod 4096 = 0 \<and> bloki_rozmiaru n = n div 4096 \<or> 0 < n mod 4096 \<and> bloki_rozmiaru n = n div 4096 + 1"
    by (simp add: bloki_rozmiaru_def)
  show a: "n \<le> bloki_rozmiaru n * 4096" using e c by linarith
  show b: "bloki_rozmiaru n * 4096 < n + 4096" using e c by linarith
  show "k * 4096 < n \<longleftrightarrow> k < bloki_rozmiaru n"
  proof
    assume "k * 4096 < n"
    then have "k * 4096 < bloki_rozmiaru n * 4096" using a by linarith
    then show "k < bloki_rozmiaru n" by simp
  next
    assume "k < bloki_rozmiaru n"
    then have "Suc k * 4096 \<le> bloki_rozmiaru n * 4096" by (intro mult_le_mono1) simp
    then show "k * 4096 < n" using b by simp
  qed
  assume "n \<le> 490 * 4096"
  then have "bloki_rozmiaru n * 4096 < 491 * 4096" using b by linarith
  then show "bloki_rozmiaru n \<le> 490" by simp
qed

lemma podziel_blok: "unat (podziel_w_gore x (of_nat 4096)) = bloki_rozmiaru (unat x)"
proof -
  have d: "unat (x div 4096) = unat x div 4096" and m: "unat (x mod 4096) = unat x mod 4096"
    by (simp_all add: unat_div unat_mod)
  have "unat x div 4096 \<le> 18446744073709551615 div 4096" by (intro div_le_mono unat_u64_le)
  then have "unat (x div 4096 + 1) = unat x div 4096 + 1" using d by (subst unat_add_u64) simp_all
  moreover have "x mod 4096 = 0 \<longleftrightarrow> unat x mod 4096 = 0" using m by (metis unat_eq_0)
  ultimately show ?thesis using d by (simp add: podziel_w_gore_def bloki_rozmiaru_def)
qed

lemma v_wezel_rozmiar:
  fixes r :: u64
  assumes sp: "spojny v" and i: "typ_wezla v i = TYP_PLIK"
  defines "v' \<equiv> v_wezel v i ((vi_wezel v i)\<lparr>w_rozmiar := r\<rparr>)"
  shows "spojny v'" "typ_wezla v' = typ_wezla v" "typ_wezla v d = TYP_KATALOG \<Longrightarrow> wpisy v' d = wpisy v d"
proof -
  show t: "typ_wezla v' = typ_wezla v" by (auto simp: v'_def typ_wezla_def fun_eq_iff)
  have w: "wpisy v' d = wpisy v d" if "typ_wezla v d = TYP_KATALOG" for d
    using that i unfolding v'_def by (intro wpisy_v_wezel) auto
  then show "typ_wezla v d = TYP_KATALOG \<Longrightarrow> wpisy v' d = wpisy v d" .
  have zz: "zajmuje v' = zajmuje v" using t by (auto simp: v'_def zajmuje_def fun_eq_iff)
  have "bloki_ok v'" using sp unfolding spojny_def bloki_ok_def zz by (simp add: v'_def)
  moreover have "wezly_ok v'" using sp t unfolding spojny_def wezly_ok_def by (simp add: v'_def)
  moreover have "katalogi_ok v'"
  proof (rule katalogi_rama [of v])
    fix d assume "typ_wezla v d = TYP_KATALOG"
    then show "w_rozmiar (vi_wezel v' d) = w_rozmiar (vi_wezel v d)" using i by (auto simp: v'_def)
  qed (use sp w t in \<open>simp_all add: spojny_def\<close>)
  ultimately show "spojny v'" by (simp add: spojny_def)
qed

lemma zapis_na_widoku:
  fixes dl :: u64
  assumes sp: "spojny v" and po: "pliki_ok v" and i: "typ_wezla v i = TYP_PLIK" and n: "unat dl \<le> 490 * 4096"
  defines "p \<equiv> bloki_rozmiaru (unat dl)"
  assumes ws: "\<And>k. k < p \<Longrightarrow> w_wskazniki (vi_wezel v i) k \<noteq> BARK_BLOKU"
    and za: "zapisane v v2 i dane (unat dl) 0 p" and zw: "zwolnione v2 v3 i {p ..< 490}" and sp3: "spojny v3"
  defines "v4 \<equiv> v_wezel v3 i ((vi_wezel v3 i)\<lparr>w_rozmiar := dl\<rparr>)"
  shows "spojny v4" "pliki_ok v4" "system v4 = a_zapisz (system v) i (map dane [0 ..< unat dl])"
proof -
  note B = bloki_rozmiaru_granice [where n = "unat dl", folded p_def]
  have p: "p \<le> 490" by (rule B(4) [OF n])
  note o2 = zapisane_ok [OF sp i za p] and z2 = za [unfolded zapisane_def] and z3 = zw [unfolded zwolnione_def]
  have t3: "typ_wezla v3 = typ_wezla v" using z3 o2(2) by simp
  have i3: "typ_wezla v3 i = TYP_PLIK" using i t3 by simp
  note o4 = v_wezel_rozmiar [OF sp3 i3, where r = dl, folded v4_def]
  show "spojny v4" by (rule o4(1))
  have bo2: "bloki_ok v2" using o2(1) by (simp add: spojny_def)
  have ti: "typ_wezla v2 i \<noteq> TYP_WOLNY" using i o2(2) by simp
  have inny: "vi_wezel v4 j = vi_wezel v j \<and> tresc_wezla (vi_dane v4) (vi_wezel v4 j) = tresc_wezla (vi_dane v) (vi_wezel v j)"
    if j: "typ_wezla v j = TYP_PLIK" "j \<noteq> i" for j
  proof -
    have pj: "plik_ok (vi_wezel v j)" using po j by (simp add: pliki_ok_def)
    have w2: "vi_wezel v2 j = vi_wezel v j" using z2 by simp
    have K: "{p ..< 490} \<subseteq> {..< 490}" by auto
    have "plik_ok (vi_wezel v2 j)" "typ_wezla v2 j = TYP_PLIK" using pj j o2(2) w2 by simp_all
    from zwolnione_plik [OF bo2 ti zw K j(2) this(2,1)] o2(4) [OF j(1) pj j(2)] show ?thesis
      using j(2) w2 by (simp add: v4_def)
  qed
  have ws3: "w_wskazniki (vi_wezel v3 i) k = w_wskazniki (vi_wezel v i) k" if "k < p" for k using z3 z2 that by simp
  have plik_i: "plik_ok (vi_wezel v4 i)" using n ws ws3 B(3) by (simp add: v4_def plik_ok_def)
  have "plik_ok (vi_wezel v4 j)" if "typ_wezla v j = TYP_PLIK" for j
    using inny [OF that] plik_i po that by (cases "j = i") (auto simp: pliki_ok_def)
  then show "pliki_ok v4" using o4(2) t3 by (simp add: pliki_ok_def)
  have bajt: "vi_dane v3 (w_wskazniki (vi_wezel v3 i) (x div 4096)) (x mod 4096) = dane x" if x: "x < unat dl" for x
  proof -
    have "x div 4096 * 4096 \<le> x" by (rule div_times_less_eq_dividend)
    then have "x div 4096 * 4096 < unat dl" using x by linarith
    then have k: "x div 4096 < p" using B(3) by blast
    then have zaj: "zajmuje v2 i (x div 4096) (w_wskazniki (vi_wezel v i) (x div 4096))"
      using ws [OF k] p z2 o2(2) i by (simp add: zajmuje_def)
    have "\<forall>l \<in> {p ..< 490}. w_wskazniki (vi_wezel v2 i) l \<noteq> w_wskazniki (vi_wezel v i) (x div 4096)"
      using inny_blok [OF bo2 zaj ti] k by simp
    then have "vi_dane v3 (w_wskazniki (vi_wezel v i) (x div 4096)) = vi_dane v2 (w_wskazniki (vi_wezel v i) (x div 4096))"
      using z3 ws [OF k] by blast
    moreover have "vi_dane v2 (w_wskazniki (vi_wezel v i) (x div 4096)) (x mod 4096) = dane (x div 4096 * 4096 + x mod 4096)"
      using z2 k x by simp
    ultimately show ?thesis using ws3 [OF k] by simp
  qed
  have "tresc_wezla (vi_dane v4) (vi_wezel v4 i) = map dane [0 ..< unat dl]"
    unfolding tresc_wezla_def by (simp add: v4_def bajt)
  then have "sp_tresc (system v4) = (sp_tresc (system v))(i := map dane [0 ..< unat dl])"
    using inny [THEN conjunct2] i o4(2) t3 by (simp add: system_def fun_eq_iff)
  moreover have "wpisy v4 d = wpisy v d" if "typ_wezla v d = TYP_KATALOG" for d
    using o4(3) [of d] z3 o2(2,3) that t3 by simp
  then have "sp_kat (system v4) = sp_kat (system v)" using o4(2) t3 by (simp add: system_def fun_eq_iff)
  moreover have "sp_typ (system v4) = sp_typ (system v)" using o4(2) t3 by simp
  ultimately show "system v4 = a_zapisz (system v) i (map dane [0 ..< unat dl])"
    by (intro system_plikow.equality) (simp_all add: a_zapisz_def)
qed

text \<open>The code's write of a file: done, or undone for lack of space.\<close>

lemma zapisz_wezel_krok:
  assumes ok: "bsp2_ok s" and i: "typ_wezla (widok s) i = TYP_PLIK" and n: "unat dl \<le> 490 * 4096"
  shows "(\<exists>s1. zapisz_wezel E s i (nr_wezla s i) dane dl = bsp_zapisz_zmiany E s1 \<and>
      krok s s1 (a_zapisz (pliki_i_katalogi s) i (map dane [0 ..< unat dl]))) \<or>
    (\<exists>s1. zapisz_wezel E s i (nr_wezla s i) dane dl = (False, s1) \<and> krok s s1 (pliki_i_katalogi s) \<and>
      card (wolne_bloki s) < length (filter (\<lambda>k. w_wskazniki (vi_wezel (widok s) i) k = BARK_BLOKU) [0 ..< bloki_rozmiaru (unat dl)]))"
proof -
  have g: "geometria s" and sp: "spojny (widok s)" and po: "pliki_ok (widok s)" using ok by (simp_all add: bsp2_ok_def)
  have d: "wezel_na_dysku s i" using bsp2_typ_na_dysku [of s i] i by simp
  let ?nr = "nr_wezla s i" and ?D = "ucast dl :: u64"
  define p where "p = bloki_rozmiaru (unat dl)"
  have p490: "p \<le> 490" unfolding p_def by (rule bloki_rozmiaru_granice(4) [OF n])
  have pz: "unat (podziel_w_gore ?D (of_nat 4096)) = p" by (simp only: podziel_blok unat_u32_u64 p_def)
  have mx: "\<not> ?D > maks_rozmiar_pliku"
    using n by (simp add: maks_rozmiar_pliku_def word_less_nat_alt unat_word_ariths)
  have ks: "set [0 ..< p] \<subseteq> {..< 490}" "distinct [0 ..< p]" using p490 by auto
  have "wziete (widok s) i []" by (simp add: wziete_def)
  from przydziel_bloki_widok [OF g sp po i ks this] obtain ok1 s1 nowe where
    s1: "przydziel_bloki s ?nr [0 ..< p] [] = (ok1, s1, nowe)" "przydzielone s s1 i nowe"
      "if ok1 then \<forall>k \<in> set [0 ..< p]. w_wskazniki (vi_wezel (widok s1) i) k \<noteq> BARK_BLOKU
       else card (wolne_bloki s) < length (filter (\<lambda>k. w_wskazniki (vi_wezel (widok s) i) k = BARK_BLOKU) [0 ..< p])" by blast
  have z1: "zmiana {?nr} s s1 (widok s1)" and sp1: "spojny (widok s1)" and po1: "pliki_ok (widok s1)"
    and A1: "pliki_i_katalogi s1 = pliki_i_katalogi s" and wz: "wziete (widok s1) i nowe" using s1(2) by (simp_all add: przydzielone_def)
  note st1 = zmiana_stale [OF z1]
  have g1: "geometria s1" by (rule zmiana_geo [OF z1 g])
  have i1: "typ_wezla (widok s1) i = TYP_PLIK" using arg_cong [OF A1, of sp_typ] i by simp
  have Z: "zapisz_wezel E s i ?nr dane dl = (if \<not> ok1 then (False, oznacz_wezel_jako_brudny (cofnij_przydzial s1 ?nr nowe) i)
      else case zapisz_bloki s1 ?nr dane ?D 0 [0 ..< p] of (ok2, s2) \<Rightarrow> if \<not> ok2 then (False, s2)
        else case zwolnij_zbedne s2 ?nr [p ..< 490] of (ok3, s3) \<Rightarrow> if \<not> ok3 then (False, s3)
          else bsp_zapisz_zmiany E (oznacz_wezel_jako_brudny (ustaw_rozmiar s3 ?nr ?D) i))"
    unfolding zapisz_wezel_def Let_def pz s1(1) using mx by simp
  show ?thesis
  proof (cases ok1)
    case False
    obtain v where v: "zmiana {nr_wezla s1 i} s1 (cofnij_przydzial s1 (nr_wezla s1 i) nowe) v" "spojny v" "pliki_ok v"
      "system v = system (widok s1)" using cofnij_widok [OF g1 sp1 po1 i1 wz] by blast
    have "zmiana {?nr} s (cofnij_przydzial s1 ?nr nowe) v" using zmiana_nast [OF z1 v(1)] st1 by simp
    from krokI [OF zmiana_oznaczona [OF this g d] ok v(2,3)] have "krok s (oznacz_wezel_jako_brudny (cofnij_przydzial s1 ?nr nowe) i) (pliki_i_katalogi s)"
      using v(4) A1 by simp
    then show ?thesis using Z False s1(3) unfolding p_def by simp
  next
    case True
    then have ws: "w_wskazniki (vi_wezel (widok s1) i) k \<noteq> BARK_BLOKU" if "k < p" for k using s1(3) that by simp
    have t1: "typ_wezla (widok s1) i \<noteq> TYP_WOLNY" and bo1: "bloki_ok (widok s1)" using i1 sp1 by (simp_all add: spojny_def)
    have u: "unat ?D = unat dl" by simp
    note B = bloki_rozmiaru_granice(1,2) [where n = "unat dl", folded p_def u]
    obtain s2 where s2: "zapisz_bloki s1 (nr_wezla s1 i) dane ?D 0 [0 ..< p] = (True, s2)" "zmiana {} s1 s2 (widok s2)"
      "zapisane (widok s1) (widok s2) i dane (unat ?D) 0 p"
      using zapisz_bloki_widok [OF g1 bo1 t1 p490 ws, of 0 0 ?D dane] B by auto
    note st2 = zmiana_stale [OF s2(2)] and o2 = zapisane_ok [OF sp1 i1 s2(3) p490]
    have g2: "geometria s2" by (rule zmiana_geo [OF s2(2) g1])
    have t2: "typ_wezla (widok s2) i \<noteq> TYP_WOLNY" "typ_wezla (widok s2) i \<noteq> TYP_KATALOG" using i1 o2(2) by simp_all
    have K: "set [p ..< 490] \<subseteq> {..< 490}" by auto
    obtain s3 where s3: "zwolnij_zbedne s2 (nr_wezla s2 i) [p ..< 490] = (True, s3)" "zmiana {nr_wezla s2 i} s2 s3 (widok s3)"
      "spojny (widok s3)" "zwolnione (widok s2) (widok s3) i (set [p ..< 490])"
      using zwolnij_zbedne_widok [OF g2 o2(1) t2(1) K] t2(2) by blast
    note st3 = zmiana_stale [OF s3(2)]
    have g3: "geometria s3" by (rule zmiana_geo [OF s3(2) g2])
    have d3: "wezel_na_dysku s3 i" using d st1 st2 st3 by simp
    define s4 where "s4 = oznacz_wezel_jako_brudny (ustaw_rozmiar s3 ?nr ?D) i"
    have e3: "nr_wezla s3 i = ?nr" "nr_wezla s2 i = ?nr" "nr_wezla s1 i = ?nr" using st1 st2 st3 by simp_all
    have z3: "zmiana {?nr} s s3 (widok s3)"
      using zmiana_nast [OF zmiana_nast [OF z1 s2(2)] s3(2)] e3 by simp
    have "zmiana {?nr} s3 (ustaw_rozmiar s3 ?nr ?D) (v_wezel (widok s3) i ((vi_wezel (widok s3) i)\<lparr>w_rozmiar := ?D\<rparr>))"
      using zmiana_rozmiaru [OF g3 d3, of ?D] e3 by simp
    from zmiana_nast [OF z3 this] have z4: "zmiana {} s s4 (v_wezel (widok s3) i ((vi_wezel (widok s3) i)\<lparr>w_rozmiar := ?D\<rparr>))"
      unfolding s4_def by (intro zmiana_oznaczona [OF _ g d]) simp
    have n': "unat ?D \<le> 490 * 4096" using n by simp
    have W: "spojny (v_wezel (widok s3) i ((vi_wezel (widok s3) i)\<lparr>w_rozmiar := ?D\<rparr>))"
      "pliki_ok (v_wezel (widok s3) i ((vi_wezel (widok s3) i)\<lparr>w_rozmiar := ?D\<rparr>))"
      "system (v_wezel (widok s3) i ((vi_wezel (widok s3) i)\<lparr>w_rozmiar := ?D\<rparr>)) = a_zapisz (pliki_i_katalogi s1) i (map dane [0 ..< unat ?D])"
      using zapis_na_widoku [OF sp1 po1 i1 n' _ s2(3) [unfolded p_def u, folded u] s3(4) [unfolded p_def u, folded u, unfolded atLeastLessThan_upt [symmetric]] s3(3)] ws
      unfolding p_def u by blast+
    have "krok s s4 (a_zapisz (pliki_i_katalogi s) i (map dane [0 ..< unat dl]))"
      using krokI [OF z4 ok W] unfolding A1 u .
    moreover have "zapisz_wezel E s i ?nr dane dl = bsp_zapisz_zmiany E s4"
      using Z True s2(1) s3(1) unfolding s4_def by (simp add: e3)
    ultimately show ?thesis by blast
  qed
qed

lemma plik_poprawny:
  assumes ok: "bsp2_ok s" and i: "typ_wezla (widok s) i = TYP_PLIK"
  shows "wskazniki_pliku_poprawne s (vi_wezel (widok s) i)"
proof -
  have g: "geometria s" and bo: "bloki_ok (widok s)" and wo: "wezly_ok (widok s)" using ok by (simp_all add: bsp2_ok_def spojny_def)
  have p: "w_posredni_1 (vi_wezel (widok s) i) = BARK_BLOKU \<and> w_posredni_2 (vi_wezel (widok s) i) = BARK_BLOKU \<and>
      w_posredni_3 (vi_wezel (widok s) i) = BARK_BLOKU" using wo i unfolding wezly_ok_def by simp
  have "let b = w_wskazniki (vi_wezel (widok s) i) k in if b = BARK_BLOKU then True
      else if \<not> id_bloku_danych_poprawne s b \<or> \<not> czy_blok_danych_zajety s b then False
      else list_all (\<lambda>j. w_wskazniki (vi_wezel (widok s) i) j \<noteq> b) [0 ..< k]" if k: "k < 490" for k
  proof (cases "w_wskazniki (vi_wezel (widok s) i) k = BARK_BLOKU")
    case False
    then have z: "zajmuje (widok s) i k (w_wskazniki (vi_wezel (widok s) i) k)" using i k by (simp add: zajmuje_def)
    have "w_wskazniki (vi_wezel (widok s) i) j \<noteq> w_wskazniki (vi_wezel (widok s) i) k" if "j < k" for j
      using inny_blok [OF bo z, of i j] i k that by simp
    then show ?thesis using bsp2_zajety [OF ok z] widok_pola(3) [OF g] by (simp add: id_bloku_danych_poprawne_def Let_def list_all_iff)
  qed simp
  then show ?thesis using p i by (simp add: wskazniki_pliku_poprawne_def list_all_iff typ_wezla_def)
qed

text \<open>What a path of a file leads the code to.\<close>

lemma plik_sciezki:
  assumes ok: "bsp2_ok s"
  shows "case a_wezel (pliki_i_katalogi s) (korzen s) p of None \<Rightarrow> fst (rozwiaz_sciezke s p nd False) = 0
    | Some i \<Rightarrow> fst (rozwiaz_sciezke s p nd False) = i \<and> i \<noteq> 0 \<and> pobierz_wezel s i = Some (nr_wezla s i) \<and>
        wezel s (nr_wezla s i) = vi_wezel (widok s) i \<and> w_typ (vi_wezel (widok s) i) = sp_typ (pliki_i_katalogi s) i"
proof (cases "a_wezel (pliki_i_katalogi s) (korzen s) p")
  case None
  then show ?thesis using rozwiaz_a(1) [OF ok, of p nd] by simp
next
  case (Some i)
  have g: "geometria s" and sp: "spojny (widok s)" using ok by (simp_all add: bsp2_ok_def)
  have sc: "spacer_po (sp_kat (pliki_i_katalogi s)) (korzen s) (segmenty_sciezki p) = Some i"
    using Some by (simp add: a_wezel_def split: if_splits)
  have "wezel_na_dysku s i"
  proof (cases "segmenty_sciezki p" rule: rev_cases)
    case Nil
    then show ?thesis using sc korzen_na_dysku [OF g] by simp
  next
    case (snoc ns n)
    then obtain d where "sp_kat (pliki_i_katalogi s) d n = Some i" using sc unfolding snoc spacer_koniec by blast
    from wpisy_nazwy_ok(5) [OF sp this] show ?thesis by (rule bsp2_typ_na_dysku)
  qed
  moreover from this have "i \<noteq> 0" by (simp add: wezel_na_dysku_def)
  ultimately show ?thesis using Some rozwiaz_a(1) [OF ok, of p nd] by (simp add: pobierz_wezel_geo [OF g] g typ_wezla_def)
qed

lemma zapisz_do_pliku_krok:
  assumes ok: "bsp2_ok s"
  shows "case a_wezel (pliki_i_katalogi s) (korzen s) p of None \<Rightarrow> zapisz_do_pliku E s (Some p) dane dl = (False, s)
    | Some i \<Rightarrow> if sp_typ (pliki_i_katalogi s) i \<noteq> TYP_PLIK \<or> dl \<noteq> 0 \<and> dane = None \<or> 490 * 4096 < unat dl
        then zapisz_do_pliku E s (Some p) dane dl = (False, s)
        else (\<exists>s1. zapisz_do_pliku E s (Some p) dane dl = bsp_zapisz_zmiany E s1 \<and>
            krok s s1 (a_zapisz (pliki_i_katalogi s) i (map (the dane) [0 ..< unat dl]))) \<or>
          (\<exists>s1. zapisz_do_pliku E s (Some p) dane dl = (False, s1) \<and> krok s s1 (pliki_i_katalogi s) \<and>
            card (wolne_bloki s) < length (filter (\<lambda>k. w_wskazniki (vi_wezel (widok s) i) k = BARK_BLOKU) [0 ..< bloki_rozmiaru (unat dl)]))"
proof (cases "a_wezel (pliki_i_katalogi s) (korzen s) p")
  case None
  then show ?thesis using plik_sciezki [OF ok, of p None] by (simp add: zapisz_do_pliku_def)
next
  case (Some i)
  have gt: "ps_gotowy s" using ok by (simp add: bsp2_ok_def)
  note ps = plik_sciezki [OF ok, of p None, unfolded Some option.case]
  let ?dane = "case dane of None \<Rightarrow> (\<lambda>_. 0) | Some d \<Rightarrow> d"
  show ?thesis
  proof (cases "sp_typ (pliki_i_katalogi s) i \<noteq> TYP_PLIK \<or> dl \<noteq> 0 \<and> dane = None")
    case True
    then have "zapisz_do_pliku E s (Some p) dane dl = (False, s)" using ps by (auto simp: zapisz_do_pliku_def)
    then show ?thesis using True Some by auto
  next
    case False
    then have i: "typ_wezla (widok s) i = TYP_PLIK" by simp
    have e: "zapisz_do_pliku E s (Some p) dane dl = zapisz_wezel E s i (nr_wezla s i) ?dane dl"
      using False gt ps plik_poprawny [OF ok i] by (cases dane) (simp_all add: zapisz_do_pliku_def)
    have d: "map ?dane [0 ..< unat dl] = map (the dane) [0 ..< unat dl]" using False by (cases dane) auto
    show ?thesis
    proof (cases "490 * 4096 < unat dl")
      case True
      then have "ucast dl > maks_rozmiar_pliku" by (simp add: maks_rozmiar_pliku_def word_less_nat_alt unat_word_ariths)
      then show ?thesis using e True Some by (simp add: zapisz_wezel_def)
    next
      case n: False
      then have "unat dl \<le> 490 * 4096" by simp
      note zk = zapisz_wezel_krok [OF ok i this, of E ?dane, unfolded d, folded e]
      have c: "\<not> (sp_typ (pliki_i_katalogi s) i \<noteq> TYP_PLIK \<or> dl \<noteq> 0 \<and> dane = None \<or> 490 * 4096 < unat dl)" using False n by blast
      show ?thesis unfolding Some option.case if_not_P [OF c] by (rule zk)
    qed
  qed
qed

subsection \<open>Reading\<close>

lemma czytaj_bloki_widok:
  assumes g: "geometria s" and n: "unat d \<le> 490 * 4096"
    and w: "\<And>k. k * 4096 < unat d \<Longrightarrow> w_wskazniki w k \<noteq> BARK_BLOKU \<and> w_wskazniki w k < ps_bloki s"
  shows "m \<le> 490 \<Longrightarrow> unat z = min (m * 4096) (unat d) \<Longrightarrow>
    czytaj_bloki s w d z b [m ..< 490] =
      (True, \<lambda>x. if m * 4096 \<le> x \<and> x < unat d then vi_dane (widok s) (w_wskazniki w (x div 4096)) (x mod 4096) else b x)"
proof (induction "490 - m" arbitrary: m z b)
  case 0
  then have "unat z = unat d" using n by (simp add: min_def)
  then have "z = d" by (rule word_unat_eq_iff [THEN iffD2])
  then show ?case using 0 n by (auto simp: fun_eq_iff)
next
  case (Suc q)
  then have m: "m < 490" "[m ..< 490] = m # [Suc m ..< 490]" by (simp_all add: upt_conv_Cons)
  show ?case
  proof (cases "z < d")
    case False
    then have "unat d \<le> m * 4096" using Suc.prems(2) by (simp add: word_less_nat_alt min_def split: if_splits)
    then show ?thesis using False unfolding m(2) by (auto simp: fun_eq_iff)
  next
    case True
    then have uz: "unat z = m * 4096" "m * 4096 < unat d" using Suc.prems(2) by (simp_all add: word_less_nat_alt min_def split: if_splits)
    have wm: "w_wskazniki w m \<noteq> BARK_BLOKU" "w_wskazniki w m < ps_bloki s" using w [OF uz(2)] by simp_all
    define por where "por = (if d - z > of_nat 4096 then of_nat 4096 else d - z)"
    have po: "unat por = min 4096 (unat d - m * 4096)" unfolding por_def uz(1) [symmetric] by (rule porcja_unat) (use uz in simp)
    have "unat z + unat por \<le> unat d" using po uz by (simp add: min_def split: if_splits)
    then have "unat (z + por) = unat z + unat por" using unat_u64_less [of d] by (intro unat_add_u64) linarith
    then have u: "unat (z + por) = min (Suc m * 4096) (unat d)" using po uz by (simp add: min_def split: if_splits)
    let ?b = "kopiuj_pamiec b (unat z) (ps_ram s (nr_danych s (w_wskazniki w m))) (unat por)"
    have e: "czytaj_bloki s w d z b [m ..< 490] = czytaj_bloki s w d (z + por) ?b [Suc m ..< 490]"
      using True wm unfolding m(2) by (simp add: pobierz_dane_geo [OF g] por_def Let_def)
    have ih: "czytaj_bloki s w d (z + por) ?b [Suc m ..< 490] =
      (True, \<lambda>x. if Suc m * 4096 \<le> x \<and> x < unat d then vi_dane (widok s) (w_wskazniki w (x div 4096)) (x mod 4096) else ?b x)"
      using Suc.hyps(2) m(1) by (intro Suc.hyps(1) u) simp_all
    have "?b x = (if m * 4096 \<le> x \<and> x < unat d then vi_dane (widok s) (w_wskazniki w (x div 4096)) (x mod 4096) else b x)"
      if x: "\<not> (Suc m * 4096 \<le> x \<and> x < unat d)" for x
    proof (cases "m * 4096 \<le> x \<and> x < unat d")
      case True
      then have "x < m * 4096 + 4096" using x by simp
      moreover from this have dm: "x div 4096 = m" using True by (intro div_nat_eqI) simp_all
      ultimately have "x div 4096 = m" "x mod 4096 = x - m * 4096" using minus_div_mult_eq_mod [of x 4096] by simp_all
      moreover have "x < unat z + unat por" using True x po uz by (simp add: min_def split: if_splits)
      ultimately show ?thesis using True uz widok_pola(2) [OF g wm(2)] by (simp add: kopiuj_pamiec_def)
    next
      case False
      then show ?thesis using po uz by (auto simp: kopiuj_pamiec_def)
    qed
    moreover have "Suc m * 4096 \<le> x \<Longrightarrow> m * 4096 \<le> x" for x by simp
    ultimately show ?thesis unfolding e ih by (auto simp: fun_eq_iff)
  qed
qed

lemma czytaj_tresc:
  assumes ok: "bsp2_ok s" and i: "typ_wezla (widok s) i = TYP_PLIK" and d: "unat d \<le> unat (w_rozmiar (vi_wezel (widok s) i))"
  shows "czytaj_bloki s (vi_wezel (widok s) i) d 0 b indeksy_wskaznikow =
    (True, \<lambda>x. if x < unat d then sp_tresc (pliki_i_katalogi s) i ! x else b x)"
proof -
  have g: "geometria s" using ok by (simp add: bsp2_ok_def)
  let ?w = "vi_wezel (widok s) i"
  have p: "plik_ok ?w" using ok i by (simp add: bsp2_ok_def pliki_ok_def)
  have "wskazniki_ok s i" using wskazniki_w_zakresie [OF g] ok i by (simp add: bsp2_ok_def spojny_def)
  then have w: "w_wskazniki ?w k \<noteq> BARK_BLOKU \<and> w_wskazniki ?w k < ps_bloki s" if "k * 4096 < unat d" for k
    using p that d by (simp add: plik_ok_def wskazniki_ok_def)
  have n: "unat d \<le> 490 * 4096" using p d by (simp add: plik_ok_def)
  have "sp_tresc (pliki_i_katalogi s) i ! x = vi_dane (widok s) (w_wskazniki ?w (x div 4096)) (x mod 4096)" if "x < unat d" for x
    using that d i by (simp add: system_def tresc_wezla_def)
  then show ?thesis using czytaj_bloki_widok [OF g n w, of 0 0 b] by (simp add: fun_eq_iff)
qed

lemma dlugosc_tresci: "typ_wezla v i = TYP_PLIK \<Longrightarrow> length (sp_tresc (system v) i) = unat (w_rozmiar (vi_wezel v i))"
  by (simp add: system_def tresc_wezla_def)

text \<open>The file read into a buffer of the caller.\<close>

lemma czytaj_z_pliku_tresc:
  assumes ok: "bsp2_ok s"
  shows "czytaj_z_pliku s (Some p) (Some b) maks = (case a_wezel (pliki_i_katalogi s) (korzen s) p of None \<Rightarrow> (False, Some b)
    | Some i \<Rightarrow> if sp_typ (pliki_i_katalogi s) i \<noteq> TYP_PLIK then (False, Some b)
        else (True, Some (\<lambda>x. if x < length (sp_tresc (pliki_i_katalogi s) i) \<and> x < unat maks then sp_tresc (pliki_i_katalogi s) i ! x else b x)))"
proof (cases "a_wezel (pliki_i_katalogi s) (korzen s) p")
  case None
  then show ?thesis using plik_sciezki [OF ok, of p None] by (simp add: czytaj_z_pliku_def)
next
  case (Some i)
  have gt: "ps_gotowy s" using ok by (simp add: bsp2_ok_def)
  note ps = plik_sciezki [OF ok, of p None, unfolded Some option.case]
  show ?thesis
  proof (cases "sp_typ (pliki_i_katalogi s) i \<noteq> TYP_PLIK")
    case True
    then show ?thesis using ps Some by (simp add: czytaj_z_pliku_def Let_def)
  next
    case False
    then have i: "typ_wezla (widok s) i = TYP_PLIK" by simp
    let ?w = "vi_wezel (widok s) i"
    define d where "d = (if w_rozmiar ?w > ucast maks then ucast maks else w_rozmiar ?w)"
    have d: "unat d = min (unat maks) (unat (w_rozmiar ?w))" by (auto simp: d_def word_less_nat_alt min_def)
    have "czytaj_z_pliku s (Some p) (Some b) maks = (case czytaj_bloki s ?w d 0 b indeksy_wskaznikow of (ok, b) \<Rightarrow> (ok, Some b))"
      using gt ps False plik_poprawny [OF ok i] unfolding d_def by (simp add: czytaj_z_pliku_def Let_def)
    also have "\<dots> = (True, Some (\<lambda>x. if x < unat d then sp_tresc (pliki_i_katalogi s) i ! x else b x))"
      using czytaj_tresc [OF ok i, of d b] d by simp
    also have "\<dots> = (True, Some (\<lambda>x. if x < length (sp_tresc (pliki_i_katalogi s) i) \<and> x < unat maks then sp_tresc (pliki_i_katalogi s) i ! x else b x))"
      unfolding dlugosc_tresci [OF i] d by (auto simp: fun_eq_iff)
    finally show ?thesis using Some False by simp
  qed
qed

text \<open>The file read into the loader's buffer.\<close>

lemma bsp_wczytaj_tresc:
  assumes ok: "bsp2_ok s"
  shows "bsp_wczytaj_plik_do_pamieci s (Some p) = (case a_wezel (pliki_i_katalogi s) (korzen s) p of None \<Rightarrow> (None, s)
    | Some i \<Rightarrow> let t = sp_tresc (pliki_i_katalogi s) i in
        if sp_typ (pliki_i_katalogi s) i \<noteq> TYP_PLIK \<or> t = [] \<or> unat MAX_LOADER_BUF < length t then (None, s)
        else (Some (of_nat (length t)), s\<lparr>ps_bufor_wymiany := \<lambda>x. if x < length t then t ! x else ps_bufor_wymiany s x\<rparr>))"
proof (cases "a_wezel (pliki_i_katalogi s) (korzen s) p")
  case None
  then show ?thesis using plik_sciezki [OF ok, of p None] by (simp add: bsp_wczytaj_plik_do_pamieci_def)
next
  case (Some i)
  have gt: "ps_gotowy s" using ok by (simp add: bsp2_ok_def)
  note ps = plik_sciezki [OF ok, of p None, unfolded Some option.case]
  show ?thesis
  proof (cases "sp_typ (pliki_i_katalogi s) i \<noteq> TYP_PLIK")
    case True
    then show ?thesis using ps Some by (simp add: bsp_wczytaj_plik_do_pamieci_def Let_def)
  next
    case False
    then have i: "typ_wezla (widok s) i = TYP_PLIK" by simp
    let ?w = "vi_wezel (widok s) i" and ?t = "sp_tresc (pliki_i_katalogi s) i"
    note dl = dlugosc_tresci [OF i]
    have r: "w_rozmiar ?w = 0 \<longleftrightarrow> ?t = []" "w_rozmiar ?w > MAX_LOADER_BUF \<longleftrightarrow> unat MAX_LOADER_BUF < length ?t" "of_nat (length ?t) = w_rozmiar ?w"
      unfolding length_0_conv [symmetric] dl by (simp_all add: unat_eq_0 word_less_nat_alt)
    show ?thesis
      using gt ps False plik_poprawny [OF ok i] czytaj_tresc [OF ok i, of "w_rozmiar ?w" "ps_bufor_wymiany s"] r Some
      by (simp add: bsp_wczytaj_plik_do_pamieci_def Let_def dl)
  qed
qed

end
