(* ===== verification/Psf_Format.thy ===== *)
theory Psf_Format
  imports Psf_Pliki
begin

section \<open>BSP2: a fresh disk\<close>

text \<open>
  \<open>sformatuj_ram_dysk\<close> succeeds on every RAM disk of at least ten blocks and makes an empty file system:
  node 1 is the root, no other node and no data block is in use.
\<close>

subsection \<open>The layout\<close>

definition bloki_bitmapy :: "nat \<Rightarrow> nat" where
  "bloki_bitmapy n = bloki_rozmiaru (n div 8 + (if n mod 8 \<noteq> 0 then 1 else 0))"

definition format_wezly :: "nat \<Rightarrow> nat" where
  "format_wezly n = 1 + bloki_bitmapy n"

definition format_dane :: "nat \<Rightarrow> nat" where
  "format_dane n = format_wezly n + max 1 ((n - format_wezly n) div 4)"

lemma format_liczby:
  assumes "10 \<le> n"
  shows "0 < bloki_bitmapy n" "n \<le> bloki_bitmapy n * 32768" "format_wezly n + 2 \<le> n" "format_wezly n < format_dane n" "format_dane n < n"
proof -
  define b where "b = n div 8 + (if n mod 8 \<noteq> 0 then 1 else 0)"
  have e: "n = n div 8 * 8 + n mod 8" "n mod 8 < 8" by simp_all
  have "n mod 8 = 0 \<and> b = n div 8 \<or> 0 < n mod 8 \<and> b = n div 8 + 1" by (simp add: b_def)
  then have b: "n \<le> b * 8" "b * 8 < n + 8" using e by linarith+
  have B: "b \<le> bloki_bitmapy n * 4096" "bloki_bitmapy n * 4096 < b + 4096"
    using bloki_rozmiaru_granice(1,2) [of b] by (simp_all add: bloki_bitmapy_def b_def)
  show "0 < bloki_bitmapy n" using B(1) b(1) assms by (cases "bloki_bitmapy n") simp_all
  show "n \<le> bloki_bitmapy n * 32768" using B(1) b(1) by simp
  have "bloki_bitmapy n + 3 \<le> n"
  proof (cases "bloki_bitmapy n \<le> 1")
    case False
    then show ?thesis using B(2) b(2) by linarith
  qed (use assms in simp)
  then show w: "format_wezly n + 2 \<le> n" by (simp add: format_wezly_def)
  show "format_wezly n < format_dane n" by (simp add: format_dane_def)
  have "(n - format_wezly n) div 4 < n - format_wezly n" using w by (intro div_less_dividend) simp_all
  then have "max 1 ((n - format_wezly n) div 4) < n - format_wezly n" using w by simp
  then show "format_dane n < n" unfolding format_dane_def by linarith
qed

lemma podziel_w_gore_unat:
  assumes "unat d = k" "1 < k"
  shows "unat (podziel_w_gore x d) = unat x div k + (if unat x mod k \<noteq> 0 then 1 else 0)"
proof -
  have d: "unat (x div d) = unat x div k" and m: "unat (x mod d) = unat x mod k"
    using assms(1) by (simp_all add: unat_div unat_mod)
  have "unat x div k \<le> unat x div 2" using assms(2) by (intro div_le_mono2) simp_all
  also have "\<dots> < 18446744073709551615" by (rule le_less_trans [OF div_le_mono [OF unat_u64_le]]) simp
  finally have "unat (x div d + 1) = unat x div k + 1" using d by (subst unat_add_u64) simp_all
  moreover have "x mod d = 0 \<longleftrightarrow> unat x mod k = 0" using m by (metis unat_eq_0)
  moreover have "d \<noteq> 0" using assms by auto
  ultimately show ?thesis using d by (simp add: podziel_w_gore_def)
qed

lemma podzial_dysku_liczby:
  assumes n: "10 \<le> unat m" "unat m < 1048576"
  shows "podzial_dysku m = Some (of_nat (format_wezly (unat m)), of_nat (format_dane (unat m)))"
proof -
  let ?n = "unat m"
  note F = format_liczby [OF n(1)]
  define bm where "bm = podziel_w_gore (podziel_w_gore m 8) (of_nat 4096)"
  have b1: "unat bm = bloki_bitmapy ?n"
    unfolding bm_def podziel_blok podziel_w_gore_unat [of 8 8 m, simplified] by (simp add: bloki_bitmapy_def)
  have W: "unat (1 + bm) = format_wezly ?n" using b1 F(3) n(2) by (subst unat_add_u64) (simp_all add: format_wezly_def)
  have Wm: "1 + bm \<le> m" using W F(3) by (simp add: word_le_nat_alt)
  have P: "unat (m - (1 + bm)) = ?n - format_wezly ?n" using unat_sub_u64 [OF Wm] W by simp
  define bw where "bw = (if (m - (1 + bm)) div 4 = 0 then 1 else (m - (1 + bm)) div 4)"
  have q: "unat ((m - (1 + bm)) div 4) = (?n - format_wezly ?n) div 4" using P by (simp add: unat_div)
  then have "(m - (1 + bm)) div 4 = 0 \<longleftrightarrow> (?n - format_wezly ?n) div 4 = 0" by (metis unat_eq_0)
  then have bw: "unat bw = max 1 ((?n - format_wezly ?n) div 4)" using q by (simp add: bw_def)
  have D: "unat (1 + bm + bw) = format_dane ?n"
    using W bw F(5) n(2) by (subst unat_add_u64) (simp_all add: format_dane_def)
  have "max 1 ((?n - format_wezly ?n) div 4) < ?n - format_wezly ?n" using F(3,5) unfolding format_dane_def by linarith
  then have "\<not> bw \<ge> m - (1 + bm)" unfolding word_le_nat_alt bw P by (simp only: not_le)
  moreover have c: "bm \<noteq> 0" "\<not> 1 + bm \<ge> m" "\<not> m - (1 + bm) < 2" "\<not> 1 + bm + bw \<ge> m"
    using b1 F(1,3,5) W P D by (auto simp: word_le_nat_alt word_less_nat_alt)
  ultimately have "podzial_dysku m = Some (1 + bm, 1 + bm + bw)"
    unfolding podzial_dysku_def Let_def bm_def [symmetric] bw_def [symmetric] using c by simp
  moreover have "1 + bm = of_nat (format_wezly ?n)" "1 + bm + bw = of_nat (format_dane ?n)"
    by (simp_all add: W [symmetric] D [symmetric])
  ultimately show ?thesis by simp
qed

text \<open>The superblock of a fresh disk.\<close>

lemma superblok_naglowka:
  "superblok_z (zapisz64 (naglowek_superbloku b c n w d) 0x14 k) =
     \<lparr>sb_sygnatura = (\<lambda>i. if i < 4 then [0x42, 0x53, 0x50, 0x32] ! i else 0), sb_calkowity_rozmiar = c, sb_ilosc_blokow = n,
      sb_id_korzenia = k, sb_start_wezlow = w, sb_start_danych = d\<rparr>"
  by (auto simp: superblok_z_def naglowek_superbloku_def Let_def czytaj64_inne zapisz64_poza fun_eq_iff less_Suc_eq numeral_eq_Suc)

lemma sb_bez_korzenia:
  "sb_ilosc_blokow (superblok_z (zapisz64 b 0x14 k)) = sb_ilosc_blokow (superblok_z b)"
  "sb_start_wezlow (superblok_z (zapisz64 b 0x14 k)) = sb_start_wezlow (superblok_z b)"
  "sb_start_danych (superblok_z (zapisz64 b 0x14 k)) = sb_start_danych (superblok_z b)"
  "sb_calkowity_rozmiar (superblok_z (zapisz64 b 0x14 k)) = sb_calkowity_rozmiar (superblok_z b)"
  by (simp_all add: superblok_z_def czytaj64_inne)

lemma geometria_formatu:
  assumes n: "10 \<le> n" "n < 1048576" "n * 4096 \<le> unat r"
    and b: "sygnatura_bsp2 b" "sb_calkowity_rozmiar b = of_nat (n * 4096)" "sb_ilosc_blokow b = of_nat n"
      "sb_id_korzenia b = 1" "sb_start_wezlow b = of_nat (format_wezly n)" "sb_start_danych b = of_nat (format_dane n)"
  shows "wylicz_geometrie b r = Some (of_nat (format_dane n) - of_nat (format_wezly n), of_nat n - of_nat (format_dane n))"
proof -
  note F = format_liczby [OF n(1)]
  have u: "unat (of_nat (n * 4096) :: u64) = n * 4096" "unat (of_nat n :: u64) = n"
    "unat (of_nat (format_wezly n) :: u64) = format_wezly n" "unat (of_nat (format_dane n) :: u64) = format_dane n"
    using n F by (simp_all add: unat_of_nat_u64 del: of_nat_mult)
  have le: "of_nat (format_wezly n) \<le> (of_nat (format_dane n) :: u64)" "of_nat (format_dane n) \<le> (of_nat n :: u64)" "1 \<le> (of_nat (format_wezly n) :: u64)"
    using u F by (simp_all add: word_le_nat_alt format_wezly_def)
  have bb: "bloki_bitmapy n < 1048576" using F(3) n(2) by (simp add: format_wezly_def)
  have s: "unat (of_nat (format_wezly n) - 1 :: u64) = bloki_bitmapy n"
    "unat (of_nat (format_dane n) - of_nat (format_wezly n) :: u64) = format_dane n - format_wezly n"
    "unat (of_nat n - of_nat (format_dane n) :: u64) = n - format_dane n"
    using le u bb by (simp_all add: unat_sub_u64 format_wezly_def unat_of_nat_u64)
  let ?x = "(of_nat (format_wezly n) - 1 :: u64) * 4096"
  have x: "unat ?x = bloki_bitmapy n * 4096" using s(1) bb by (subst unat_mult_u64) simp_all
  then have y: "unat (?x * 8) = bloki_bitmapy n * 32768" using bb by (subst unat_mult_u64) simp_all
  have m: "mnoz_u64 (of_nat (format_wezly n) - 1) 4096 = Some ?x" "mnoz_u64 ?x 8 = Some (?x * 8)"
    "mnoz_u64 (of_nat (format_dane n) - of_nat (format_wezly n)) 1 = Some (of_nat (format_dane n) - of_nat (format_wezly n))"
    using s(1) x bb by (simp_all add: mnoz_u64_Some)
  have "\<not> of_nat n - of_nat (format_dane n) > ?x * 8" using s(3) y F(2) by (simp add: word_less_nat_alt)
  moreover have "of_nat (format_dane n) - of_nat (format_wezly n) \<noteq> (0 :: u64)" "\<not> (1 :: u64) > of_nat (format_dane n) - of_nat (format_wezly n)"
    using s(2) F(4) by (auto simp: word_less_nat_alt)
  moreover have "\<not> (of_nat (n * 4096) :: u64) < 40960" "\<not> (of_nat (n * 4096) :: u64) > ucast r" "\<not> (of_nat n :: u64) < 10"
    using u n by (simp_all add: word_less_nat_alt)
  moreover have "(of_nat (n * 4096) :: u64) mod 4096 = 0" "(of_nat (n * 4096) :: u64) mod 512 = 0" "(of_nat (n * 4096) :: u64) div 4096 = of_nat n"
    by (rule word_unat_eq_iff [THEN iffD2], simp add: unat_mod unat_div u del: of_nat_mult; fail)+
  moreover have "\<not> (of_nat (format_wezly n) :: u64) \<le> 1" "\<not> (of_nat (format_wezly n) :: u64) \<ge> of_nat (format_dane n)"
    "\<not> (of_nat (format_dane n) :: u64) \<ge> of_nat n"
    using u F by (simp_all add: word_le_nat_alt format_wezly_def)
  ultimately show ?thesis
    unfolding wylicz_geometrie_def b Let_def using b(1) m by (simp add: MINIMALNA_LICZBA_BLOKOW_def del: of_nat_mult)
qed

subsection \<open>The root's number\<close>

text \<open>The superblock gets the root's number last; with the number set early every step is the same.\<close>

definition z_korzeniem :: "u64 \<Rightarrow> psf \<Rightarrow> psf" where
  "z_korzeniem k s = zmien_blok s 0 (\<lambda>b. zapisz64 b 0x14 k)"

lemma z_korzeniem_pola [simp]:
  "ps_ram_dysk (z_korzeniem k s) = ps_ram_dysk s" "ps_superblok (z_korzeniem k s) = ps_superblok s" "ps_rozmiar (z_korzeniem k s) = ps_rozmiar s"
  "ps_wezly (z_korzeniem k s) = ps_wezly s" "ps_bloki (z_korzeniem k s) = ps_bloki s" "ps_gotowy (z_korzeniem k s) = ps_gotowy s"
  "ps_ahci (z_korzeniem k s) = ps_ahci s" "ps_brudne (z_korzeniem k s) = ps_brudne s" "ps_caly (z_korzeniem k s) = ps_caly s"
  "nr \<noteq> 0 \<Longrightarrow> wezel (z_korzeniem k s) nr = wezel s nr" "id_wezlow (z_korzeniem k s) = id_wezlow s"
  "sb_ilosc_blokow (sb (z_korzeniem k s)) = sb_ilosc_blokow (sb s)" "sb_start_wezlow (sb (z_korzeniem k s)) = sb_start_wezlow (sb s)"
  "sb_start_danych (sb (z_korzeniem k s)) = sb_start_danych (sb s)"
  using sb_bez_korzenia [of "ps_ram s 0" k]
  by (simp_all add: z_korzeniem_def zmien_blok_def wezel_def sb_def id_wezlow_def)

lemma z_korzeniem_bloki [simp]:
  "pobierz_blok (z_korzeniem k s) nr = pobierz_blok s nr" "pobierz_wezel (z_korzeniem k s) i = pobierz_wezel s i"
proof -
  show b: "pobierz_blok (z_korzeniem k s) nr = pobierz_blok s nr" for nr unfolding pobierz_blok_def z_korzeniem_pola ..
  show "pobierz_wezel (z_korzeniem k s) i = pobierz_wezel s i" unfolding pobierz_wezel_def z_korzeniem_pola b ..
qed

lemma z_korzeniem_zmien: "nr \<noteq> 0 \<Longrightarrow> zmien_blok (z_korzeniem k s) nr f = z_korzeniem k (zmien_blok s nr f)"
  by (simp add: z_korzeniem_def zmien_blok_def fun_upd_twist)

lemma z_korzeniem_oznacz: "oznacz_wezel_jako_brudny (z_korzeniem k s) i = z_korzeniem k (oznacz_wezel_jako_brudny s i)"
proof -
  have b: "oznacz_blok_jako_brudny (z_korzeniem k s) nr = z_korzeniem k (oznacz_blok_jako_brudny s nr)" for nr
    by (simp add: oznacz_blok_jako_brudny_def oznacz_caly_system_jako_brudny_def)
      (simp add: z_korzeniem_def zmien_blok_def)
  show ?thesis by (simp add: oznacz_wezel_jako_brudny_def b)
qed

lemma wezel_po_zmianie: "nr \<noteq> 0 \<Longrightarrow> pobierz_wezel (zmien_blok s nr f) i = pobierz_wezel s i"
proof -
  assume "nr \<noteq> 0"
  then have "sb (zmien_blok s nr f) = sb s" by (simp add: sb_def zmien_blok_def)
  moreover have "ps_ram_dysk (zmien_blok s nr f) = ps_ram_dysk s" "ps_superblok (zmien_blok s nr f) = ps_superblok s"
    "ps_rozmiar (zmien_blok s nr f) = ps_rozmiar s" "ps_wezly (zmien_blok s nr f) = ps_wezly s" by (simp_all add: zmien_blok_def)
  ultimately show ?thesis by (simp only: pobierz_wezel_def pobierz_blok_def)
qed

lemma wyzeruj_wezly_korzen:
  "(\<And>i. pobierz_wezel s i \<noteq> Some 0) \<Longrightarrow>
     wyzeruj_wezly (z_korzeniem k s) is = (case wyzeruj_wezly s is of (ok, s') \<Rightarrow> (ok, z_korzeniem k s')) \<and>
     (\<forall>i. pobierz_wezel (snd (wyzeruj_wezly s is)) i = pobierz_wezel s i)"
proof (induction "is" arbitrary: s)
  case (Cons i "is")
  show ?case
  proof (cases "pobierz_wezel s i")
    case (Some nr)
    then have nr: "nr \<noteq> 0" using Cons.prems [of i] by auto
    have p: "pobierz_wezel (zmien_blok s nr (\<lambda>b. wyzeruj_wezel b TYP_WOLNY)) j = pobierz_wezel s j" for j by (rule wezel_po_zmianie [OF nr])
    have "pobierz_wezel (zmien_blok s nr (\<lambda>b. wyzeruj_wezel b TYP_WOLNY)) j \<noteq> Some 0" for j unfolding p by (rule Cons.prems)
    from Cons.IH [OF this] show ?thesis using Some nr by (simp add: z_korzeniem_zmien p)
  qed simp
qed simp

lemma szukaj_wezla_korzen:
  "(\<And>i. pobierz_wezel s i \<noteq> Some 0) \<Longrightarrow> szukaj_wezla (z_korzeniem k s) is = szukaj_wezla s is"
proof (induction "is")
  case (Cons i "is")
  show ?case
  proof (cases "pobierz_wezel s i")
    case (Some nr)
    then have "nr \<noteq> 0" using Cons.prems [of i] by auto
    then show ?thesis using Some Cons by simp
  qed (use Cons in simp)
qed simp

lemma szukaj_wezla_blok: "szukaj_wezla s is = Some (i, nr) \<Longrightarrow> pobierz_wezel s i = Some nr"
  by (induction "is") (auto split: option.splits if_splits)

lemma zaalokuj_korzen:
  assumes "\<And>i. pobierz_wezel s i \<noteq> Some 0"
  shows "zaalokuj_wolny_wezel (z_korzeniem k s) typ = (case zaalokuj_wolny_wezel s typ of (i, s') \<Rightarrow> (i, z_korzeniem k s'))"
proof (cases "szukaj_wezla s (id_wezlow s)")
  case (Some r)
  then obtain i nr where r: "r = (i, nr)" by force
  then have "nr \<noteq> 0" using szukaj_wezla_blok [of s _ i nr] Some assms [of i] by auto
  then show ?thesis using Some r
    by (simp add: zaalokuj_wolny_wezel_def szukaj_wezla_korzen [OF assms] z_korzeniem_zmien z_korzeniem_oznacz)
qed (simp add: zaalokuj_wolny_wezel_def szukaj_wezla_korzen [OF assms])

subsection \<open>Clearing the nodes\<close>

lemma wyzeruj_wezly_widok:
  assumes "geometria s" "\<And>i. i \<in> set is \<Longrightarrow> wezel_na_dysku s i"
  shows "\<exists>s' X. wyzeruj_wezly s is = (True, s') \<and> zmiana X s s' (widok s') \<and>
    vi_wezel (widok s') = (\<lambda>i. if i \<in> set is then wezel_pusty TYP_WOLNY else vi_wezel (widok s) i) \<and> vi_zajety (widok s') = vi_zajety (widok s)"
  using assms
proof (induction "is" arbitrary: s)
  case Nil
  then show ?case using zmiana_bez [of "{}"] by (intro exI [of _ s] exI [of _ "{}"]) simp
next
  case (Cons i "is")
  define s1 where "s1 = zmien_blok s (nr_wezla s i) (\<lambda>b. wyzeruj_wezel b TYP_WOLNY)"
  have i: "wezel_na_dysku s i" using Cons.prems(2) by simp
  have z1: "zmiana {nr_wezla s i} s s1 (v_wezel (widok s) i (wezel_pusty TYP_WOLNY))"
    using zmiana_wezla [OF Cons.prems(1) i, of "\<lambda>b. wyzeruj_wezel b TYP_WOLNY"] by (simp add: s1_def)
  note w1 = zmiana_widok [OF z1] and st = zmiana_stale [OF z1]
  obtain s' X where s': "wyzeruj_wezly s1 is = (True, s')" "zmiana X s1 s' (widok s')"
    "vi_wezel (widok s') = (\<lambda>i. if i \<in> set is then wezel_pusty TYP_WOLNY else vi_wezel (widok s1) i)" "vi_zajety (widok s') = vi_zajety (widok s1)"
    using Cons.IH [OF zmiana_geo [OF z1 Cons.prems(1)]] Cons.prems(2) st by auto
  have "wyzeruj_wezly s (i # is) = (True, s')" using s'(1) i by (simp add: pobierz_wezel_geo [OF Cons.prems(1)] s1_def)
  moreover have "vi_wezel (widok s') = (\<lambda>j. if j \<in> set (i # is) then wezel_pusty TYP_WOLNY else vi_wezel (widok s) j)"
    unfolding s'(3) w1 by (auto simp: fun_eq_iff)
  ultimately show ?case using zmiana_nast [OF z1 s'(2)] s'(4) unfolding w1 by auto
qed

lemma widok_zgodny:
  assumes "ps_ram s' = ps_ram s" "ps_ram_dysk s' = ps_ram_dysk s" "ps_superblok s' = ps_superblok s" "ps_rozmiar s' = ps_rozmiar s"
    "ps_wezly s' = ps_wezly s" "ps_bloki s' = ps_bloki s"
  shows "widok s' = widok s" "geometria s' = geometria s" "sb s' = sb s"
proof -
  show b: "sb s' = sb s" unfolding sb_def assms ..
  have pb: "pobierz_blok s' nr = pobierz_blok s nr" for nr unfolding pobierz_blok_def assms b ..
  have "czy_blok_danych_zajety s' = czy_blok_danych_zajety s"
    by (rule ext) (unfold czy_blok_danych_zajety_def lokalizacja_bitmapy_def id_bloku_danych_poprawne_def pb assms b, rule refl)
  then show "widok s' = widok s" unfolding widok_def wezel_na_dysku_def wezel_def nr_wezla_def nr_danych_def assms b by simp
  show "geometria s' = geometria s" unfolding geometria_def assms b ..
qed

subsection \<open>The empty file system\<close>

definition pusty_system :: system_plikow where
  "pusty_system = \<lparr>sp_typ = (\<lambda>_. TYP_WOLNY)(1 := TYP_KATALOG), sp_kat = (\<lambda>_. Map.empty), sp_tresc = (\<lambda>_. [])\<rparr>"

lemma pusty_drzewo: "drzewo pusty_system 1"
  by (auto simp: drzewo_def pusty_system_def jedna_nazwa_def korzen_osiagalny)

lemma pusty_widok:
  assumes "vi_wezel v = (\<lambda>_. wezel_pusty TYP_WOLNY)(1 := wezel_pusty TYP_KATALOG)" "vi_zajety v = (\<lambda>_. False)"
  shows "spojny v" "pliki_ok v" "system v = pusty_system"
proof -
  have t: "typ_wezla v = (\<lambda>_. TYP_WOLNY)(1 := TYP_KATALOG)" using assms(1) by (auto simp: typ_wezla_def wezel_pusty_def fun_eq_iff)
  have z: "\<not> zajmuje v i k b" for i k b using assms(1) t by (auto simp: zajmuje_def wezel_pusty_def)
  have w: "wpisy v 1 = []"
    using bez_blokow_puste(1) [OF wezel_pusty_bez_blokow, of v 1 TYP_KATALOG] assms(1) by (simp add: v_wezel_def wpisy_def)
  have "wezly_ok v" using assms(1) t by (auto simp: wezly_ok_def wezel_pusty_def)
  moreover have "bloki_ok v" using assms(2) z by (auto simp: bloki_ok_def)
  moreover have "katalogi_ok v" using t w assms(1) by (auto simp: katalogi_ok_def katalog_ok_def wezel_pusty_def)
  ultimately show "spojny v" by (simp add: spojny_def)
  show "pliki_ok v" using t by (auto simp: pliki_ok_def)
  show "system v = pusty_system" using t w by (intro system_plikow.equality) (auto simp: system_def pusty_system_def fun_eq_iff)
qed

subsection \<open>Formatting\<close>

text \<open>The state before the nodes are cleared: zeros and the header.\<close>

definition po_naglowku :: "psf \<Rightarrow> nat \<Rightarrow> psf" where
  "po_naglowku s n = (zmien_blok (s\<lparr>ps_ram := (\<lambda>nr. if nr < of_nat n then wyzeruj_pamiec (ps_ram s nr) 0 PSF_ROZMIAR_BLOKU else ps_ram s nr),
       ps_superblok := True\<rparr>) 0 (\<lambda>b. naglowek_superbloku b (of_nat (n * 4096)) (of_nat n) (of_nat (format_wezly n)) (of_nat (format_dane n))))
     \<lparr>ps_wezly := of_nat (format_dane n) - of_nat (format_wezly n), ps_bloki := of_nat n - of_nat (format_dane n)\<rparr>"

lemma po_naglowku_geo:
  assumes "ps_ram_dysk s" and n: "10 \<le> n" "n < 1048576" "n * 4096 \<le> unat (ps_rozmiar s)"
  shows "geometria (z_korzeniem 1 (po_naglowku s n))" "korzen (z_korzeniem 1 (po_naglowku s n)) = 1"
    "vi_zajety (widok (z_korzeniem 1 (po_naglowku s n))) = (\<lambda>_. False)" "bloki_dysku (z_korzeniem 1 (po_naglowku s n)) = n"
    "sb_start_wezlow (sb (z_korzeniem 1 (po_naglowku s n))) = of_nat (format_wezly n)"
    "sb_start_danych (sb (z_korzeniem 1 (po_naglowku s n))) = of_nat (format_dane n)"
proof -
  let ?t = "z_korzeniem 1 (po_naglowku s n)"
  have sbt: "sb ?t = \<lparr>sb_sygnatura = (\<lambda>i. if i < 4 then [0x42, 0x53, 0x50, 0x32] ! i else 0), sb_calkowity_rozmiar = of_nat (n * 4096),
      sb_ilosc_blokow = of_nat n, sb_id_korzenia = 1, sb_start_wezlow = of_nat (format_wezly n), sb_start_danych = of_nat (format_dane n)\<rparr>"
    unfolding sb_def z_korzeniem_def po_naglowku_def zmien_blok_def by (simp add: superblok_naglowka del: of_nat_mult)
  have "wylicz_geometrie (sb ?t) (ps_rozmiar ?t) = Some (ps_wezly ?t, ps_bloki ?t)"
    using geometria_formatu [OF n(1,2), of "ps_rozmiar s" "sb ?t"] n(3) unfolding sbt
    by (simp add: sygnatura_bsp2_def po_naglowku_def zmien_blok_def del: of_nat_mult)
  then show g: "geometria ?t" using assms(1) by (simp add: geometria_def po_naglowku_def zmien_blok_def)
  show "korzen ?t = 1" "sb_start_wezlow (sb ?t) = of_nat (format_wezly n)" "sb_start_danych (sb ?t) = of_nat (format_dane n)" by (simp_all only: sbt superblok.simps)
  show il: "bloki_dysku ?t = n" using n(2) by (simp add: sbt unat_of_nat_u64)
  have zero: "ps_ram ?t (nr_bitmapy b) (unat b div 8 mod 4096) = 0" if "b < ps_bloki ?t" for b
  proof -
    have nb: "unat (nr_bitmapy b) < n" "nr_bitmapy b \<noteq> 0"
      using unat_nr_bitmapy [OF g that] geometria_liczby(2,3) [OF g] il by auto
    then have "nr_bitmapy b < of_nat n" using n(2) by (simp add: word_less_nat_alt unat_of_nat_u64)
    then show ?thesis using nb(2)
      by (simp add: z_korzeniem_def po_naglowku_def zmien_blok_def wyzeruj_pamiec_def)
  qed
  show "vi_zajety (widok ?t) = (\<lambda>_. False)"
  proof (rule ext)
    fix b show "vi_zajety (widok ?t) b = False"
      using zajety_geo [OF g, of b] zero [of b] widok_pola(3) [OF g, of b] by (cases "b < ps_bloki ?t") simp_all
  qed
qed

lemma nowy_korzen:
  assumes g: "geometria t" and z: "vi_zajety (widok t) = (\<lambda>_. False)"
  shows "\<exists>t3 t4. wyzeruj_wezly t (id_wezlow t) = (True, t3) \<and> zaalokuj_wolny_wezel t3 TYP_KATALOG = (1, t4) \<and> geometria t4 \<and> sb t4 = sb t \<and>
    stale t4 = stale t \<and> spojny (widok t4) \<and> pliki_ok (widok t4) \<and> system (widok t4) = pusty_system"
proof -
  have "\<And>i. i \<in> set (id_wezlow t) \<Longrightarrow> wezel_na_dysku t i" using id_wezlow_zbior [OF g] by blast
  from wyzeruj_wezly_widok [OF g this] obtain t3 X where
    t3: "wyzeruj_wezly t (id_wezlow t) = (True, t3)" "zmiana X t t3 (widok t3)"
      "vi_wezel (widok t3) = (\<lambda>i. if i \<in> set (id_wezlow t) then wezel_pusty TYP_WOLNY else vi_wezel (widok t) i)"
      "vi_zajety (widok t3) = vi_zajety (widok t)" by blast
  have "vi_wezel (widok t) i = wezel_pusty TYP_WOLNY" if "i \<notin> set (id_wezlow t)" for i
    using that id_wezlow_zbior [OF g] by (simp add: widok_def)
  then have w3: "vi_wezel (widok t3) = (\<lambda>_. wezel_pusty TYP_WOLNY)" unfolding t3(3) by (auto simp: fun_eq_iff)
  have g3: "geometria t3" by (rule zmiana_geo [OF t3(2) g])
  have u: "1 < unat (ps_wezly t3) + 1" using geometria_liczby(2,6) [OF g3] by linarith
  have ids: "id_wezlow t3 = 1 # map of_nat [Suc 1 ..< unat (ps_wezly t3) + 1]"
    by (simp only: id_wezlow_def upt_conv_Cons [OF u] list.map of_nat_1)
  have d1: "wezel_na_dysku t3 1" using u by (simp add: wezel_na_dysku_def word_le_nat_alt)
  have "szukaj_wezla t3 (id_wezlow t3) = Some (1, nr_wezla t3 1)"
    unfolding ids using d1 w3 by (simp add: pobierz_wezel_geo [OF g3] g3 wezel_pusty_def)
  then have fst1: "fst (zaalokuj_wolny_wezel t3 TYP_KATALOG) = 1" by (simp add: zaalokuj_wolny_wezel_def)
  then obtain t4 where t4: "zaalokuj_wolny_wezel t3 TYP_KATALOG = (1, t4)" "zmiana {} t3 t4 (v_wezel (widok t3) 1 (wezel_pusty TYP_KATALOG))"
    using zaalokuj_wezel_widok [OF g3, of TYP_KATALOG] by (auto simp: prod_eq_iff)
  note w4 = zmiana_widok [OF t4(2)]
  have "vi_wezel (widok t4) = (\<lambda>_. wezel_pusty TYP_WOLNY)(1 := wezel_pusty TYP_KATALOG)" "vi_zajety (widok t4) = (\<lambda>_. False)"
    unfolding w4 using w3 t3(4) z by simp_all
  note P = pusty_widok [OF this]
  have "stale t4 = stale t" using t4(2) t3(2) by (simp add: zmiana_def)
  then show ?thesis using t3(1) t4(1) P zmiana_geo [OF t4(2) g3] stale_pola(3) by blast
qed

lemma sformatuj_krok:
  assumes rd: "ps_ram_dysk s" and r: "40960 \<le> unat (ps_rozmiar s)"
  defines "n \<equiv> unat (ps_rozmiar s) div 4096"
  shows "\<exists>s'. sformatuj_ram_dysk E s zapis = (True, s') \<and> bsp2_ok s' \<and> pliki_i_katalogi s' = pusty_system \<and> korzen s' = 1 \<and>
    bloki_dysku s' = n \<and> pierwszy_wezel s' = format_wezly n \<and> pierwsze_dane s' = format_dane n"
proof -
  have "40960 div 4096 \<le> n" unfolding n_def by (rule div_le_mono [OF r])
  moreover have "n < 1048576" unfolding n_def using unat_u32_less [of "ps_rozmiar s"] by (simp add: div_less_iff_less_mult)
  moreover have nr: "n * 4096 \<le> unat (ps_rozmiar s)" unfolding n_def by (rule div_times_less_eq_dividend)
  ultimately have n: "10 \<le> n" "n < 1048576" "n * 4096 \<le> unat (ps_rozmiar s)" by simp_all
  note F = format_liczby [OF n(1)]
  have d: "(ucast (ps_rozmiar s) :: u64) div of_nat 4096 = of_nat n"
    by (rule word_unat_eq_iff [THEN iffD2]) (use n(2) in \<open>simp add: unat_div n_def [symmetric] unat_of_nat_u64\<close>)
  let ?R = "of_nat (n * 4096) :: u64"
  have uR: "unat ?R = n * 4096" using n(2) by (simp add: unat_of_nat_u64 del: of_nat_mult)
  have R: "of_nat n * of_nat 4096 = ?R" by simp
  have c: "\<not> ?R > 0xFFFFFFFF" "\<not> ?R < of_nat 4096 * MINIMALNA_LICZBA_BLOKOW" "?R div of_nat 4096 = of_nat n"
    using uR n by (simp_all add: word_less_nat_alt MINIMALNA_LICZBA_BLOKOW_def del: of_nat_mult)
      (rule word_unat_eq_iff [THEN iffD2], simp add: unat_div unat_of_nat_u64 del: of_nat_mult)
  have "unat (ucast ?R :: u32) = n * 4096" using n(2) uR by (simp add: unsigned_ucast_eq take_bit_eq_mod del: of_nat_mult)
  then have uc: "ucast (ucast ?R :: u32) = ?R" by (intro word_unat_eq_iff [THEN iffD2]) (simp add: uR del: of_nat_mult)
  have podz: "podzial_dysku (of_nat n) = Some (of_nat (format_wezly n), of_nat (format_dane n))"
    using podzial_dysku_liczby [of "of_nat n"] n by (simp add: unat_of_nat_u64)
  define s2 where "s2 = po_naglowku s n"
  note G = po_naglowku_geo [OF rd n, folded s2_def]
  have uD: "unat (of_nat (format_wezly n) :: u64) = format_wezly n" "unat (of_nat (format_dane n) :: u64) = format_dane n" "unat (of_nat n :: u64) = n"
    using n(2) F by (simp_all add: unat_of_nat_u64)
  have nz: "ps_wezly s2 \<noteq> 0" "ps_bloki s2 \<noteq> 0" "wezlow_na_blok = 1"
    using geometria_liczby(2,3,6,7) [OF G(1)] by (auto simp: word_unat_eq_iff)
  have nie0: "pobierz_wezel s2 i \<noteq> Some 0" for i
  proof -
    have "pobierz_wezel (z_korzeniem 1 s2) i \<noteq> Some 0" using rozne_bloki(6) [OF G(1), of i] unfolding pobierz_wezel_geo [OF G(1)] by auto
    then show ?thesis by simp
  qed
  obtain t3 t4 where t: "wyzeruj_wezly (z_korzeniem 1 s2) (id_wezlow (z_korzeniem 1 s2)) = (True, t3)" "zaalokuj_wolny_wezel t3 TYP_KATALOG = (1, t4)"
    "geometria t4" "sb t4 = sb (z_korzeniem 1 s2)" "stale t4 = stale (z_korzeniem 1 s2)" "spojny (widok t4)" "pliki_ok (widok t4)" "system (widok t4) = pusty_system"
    using nowy_korzen [OF G(1,3)] by blast
  obtain s3 where s3: "wyzeruj_wezly s2 (id_wezlow s2) = (True, s3)" "t3 = z_korzeniem 1 s3" "\<And>i. pobierz_wezel s3 i \<noteq> Some 0"
    using wyzeruj_wezly_korzen [of s2 1 "id_wezlow s2", OF nie0] t(1) nie0 by (auto split: prod.splits)
  obtain s4 where s4: "zaalokuj_wolny_wezel s3 TYP_KATALOG = (1, s4)" "t4 = z_korzeniem 1 s4"
    using zaalokuj_korzen [of s3 1 TYP_KATALOG, OF s3(3)] t(2) unfolding s3(2) by (auto split: prod.splits)
  define s5 where "s5 = (oznacz_caly_system_jako_brudny (t4\<lparr>ps_ostatni := 0\<rparr>))\<lparr>ps_gotowy := True, ps_trwaly := zapis \<and> ps_ahci t4\<rparr>"
  have code: "sformatuj_ram_dysk E s zapis = (True, if ps_trwaly s5 then snd (bsp_zapisz_zmiany E s5) else s5)"
  proof -
    have "ps_rozmiar s \<noteq> 0" using r by auto
    moreover have "of_nat (format_dane n) \<noteq> (of_nat (format_wezly n) :: u64)" "of_nat n \<noteq> (of_nat (format_dane n) :: u64)"
      using uD F(4,5) by (metis nat_less_le)+
    ultimately show ?thesis
      unfolding sformatuj_ram_dysk_def Let_def d R
      using rd c nz s3(1) s4 by (simp add: parametry_formatu_obslugiwane_def podz uc po_naglowku_def [symmetric] s2_def [symmetric] s5_def z_korzeniem_def [symmetric] del: of_nat_mult)
  qed
  note W = widok_zgodny [of s5 t4]
  have S: "widok s5 = widok t4" "geometria s5 = geometria t4" "sb s5 = sb t4"
    by (rule W; simp add: s5_def oznacz_caly_system_jako_brudny_def)+
  have ok5: "bsp2_ok s5" using t(3,6,7) S by (simp add: bsp2_ok_def) (simp add: s5_def)
  let ?s' = "if ps_trwaly s5 then snd (bsp_zapisz_zmiany E s5) else s5"
  have "bsp2_ok ?s'" using ok5 bsp2_zapisu by simp
  moreover have "pliki_i_katalogi ?s' = pusty_system" using t(8) S(1) widok_zapisu(1) by simp
  moreover have "sb ?s' = sb (z_korzeniem 1 s2)" using S(3) t(4) zapis_zmian_pola(1) by (simp add: sb_def)
  moreover have "pierwszy_wezel (z_korzeniem 1 s2) = format_wezly n" "pierwsze_dane (z_korzeniem 1 s2) = format_dane n"
    unfolding G(5,6) by (rule uD)+
  ultimately show ?thesis using code G(2,4) by auto
qed

end
