(* ===== verification/Psf_Walidacja.thy ===== *)
theory Psf_Walidacja
  imports Psf_Format
begin

section \<open>BSP2: what the mount accepts\<close>

text \<open>
  \<open>waliduj_metadane\<close> decides a predicate of the view: the invariant without the demand that a used
  block has exactly one owner. What it leaves out are blocks two nodes share and used blocks no node has.
\<close>

definition wskazniki_zywe :: "widok \<Rightarrow> bool" where
  "wskazniki_zywe v \<longleftrightarrow> (\<forall>i k b. zajmuje v i k b \<longrightarrow> vi_zajety v b) \<and> (\<forall>i k k' b. zajmuje v i k b \<longrightarrow> zajmuje v i k' b \<longrightarrow> k = k')"

definition do_przyjecia :: "widok \<Rightarrow> u64 \<Rightarrow> bool" where
  "do_przyjecia v k \<longleftrightarrow> typ_wezla v k = TYP_KATALOG \<and> wezly_ok v \<and> wskazniki_zywe v \<and> pliki_ok v \<and> katalogi_ok v"

lemma spojny_przyjety: "spojny v \<Longrightarrow> pliki_ok v \<Longrightarrow> typ_wezla v k = TYP_KATALOG \<Longrightarrow> do_przyjecia v k"
  unfolding do_przyjecia_def spojny_def wskazniki_zywe_def bloki_ok_def by blast

subsection \<open>Directories\<close>

definition wpis_dobry :: "widok \<Rightarrow> u64 \<Rightarrow> u8 list \<times> u64 \<Rightarrow> bool" where
  "wpis_dobry v d p \<longleftrightarrow> nazwa_ok (fst p) \<and> snd p \<noteq> d \<and> typ_wezla v (snd p) \<noteq> TYP_WOLNY"

abbreviation wpisy_bloku_od :: "blok \<Rightarrow> nat \<Rightarrow> (u8 list \<times> u64) list" where
  "wpisy_bloku_od b j \<equiv> concat (map (wpis_lista b) [j ..< 64])"

abbreviation wpisy_przed :: "psf \<Rightarrow> wezel_indeksowy \<Rightarrow> nat \<Rightarrow> nat \<Rightarrow> (u8 list \<times> u64) list" where
  "wpisy_przed s w k j \<equiv> concat (map (lista_pod (vi_dane (widok s)) w) [0 ..< k]) @
     concat (map (wpis_lista (vi_dane (widok s) (w_wskazniki w k))) [0 ..< j])"

lemma brak_nazwy_w_bloku:
  assumes n: "length (znaki_nazwy t) < 56"
  shows "list_all (\<lambda>j. \<not> (wp_id (wpis_z b j) \<noteq> 0 \<and> nazwy_rowne (wp_nazwa (wpis_z b j)) t)) js \<longleftrightarrow>
    znaki_nazwy t \<notin> fst ` set (concat (map (wpis_lista b) js))"
proof (induction js)
  case (Cons j js)
  have "\<not> (wp_id (wpis_z b j) \<noteq> 0 \<and> nazwy_rowne (wp_nazwa (wpis_z b j)) t) \<longleftrightarrow> znaki_nazwy t \<notin> fst ` set (wpis_lista b j)"
    using n by (auto simp: nazwy_rowne_znaki wpis_lista_def napis_wpisu_def)
  then show ?case using Cons.IH by (simp add: image_Un)
qed simp

lemma bez_powtorki:
  assumes g: "geometria s" and n: "length (znaki_nazwy t) < 56"
    and w: "\<And>l. w_wskazniki w l \<noteq> BARK_BLOKU \<Longrightarrow> w_wskazniki w l < ps_bloki s" and k: "w_wskazniki w k \<noteq> BARK_BLOKU"
  shows "wpis_bez_powtorki s w k j t \<longleftrightarrow> znaki_nazwy t \<notin> fst ` set (wpisy_przed s w k j)"
proof -
  let ?P = "\<lambda>l. let blok2 = w_wskazniki w l in if blok2 = BARK_BLOKU then True
     else case pobierz_wpisy_katalogowe s blok2 of None \<Rightarrow> False
     | Some nr2 \<Rightarrow> list_all (\<lambda>j2. \<not> (wp_id (wpis s nr2 j2) \<noteq> 0 \<and> nazwy_rowne (wp_nazwa (wpis s nr2 j2)) t))
         [0 ..< (if l = k then j else unat wpisow_katalogowych_na_blok)]"
  have blok: "?P l \<longleftrightarrow> (if l = k then znaki_nazwy t \<notin> fst ` set (concat (map (wpis_lista (vi_dane (widok s) (w_wskazniki w k))) [0 ..< j]))
      else znaki_nazwy t \<notin> fst ` set (lista_pod (vi_dane (widok s)) w l))" for l
  proof (cases "w_wskazniki w l = BARK_BLOKU")
    case True
    then show ?thesis using k by (auto simp: lista_pod_def)
  next
    case False
    then show ?thesis using w [OF False] brak_nazwy_w_bloku [OF n, of "vi_dane (widok s) (w_wskazniki w l)"]
      by (simp add: pobierz_wpisy_geo [OF g] wpis_danych [OF g] lista_pod_def lista_bloku_concat)
  qed
  have "wpis_bez_powtorki s w k j t \<longleftrightarrow> (\<forall>l < k. ?P l) \<and> ?P k"
    unfolding wpis_bez_powtorki_def list_all_iff by (auto simp: less_Suc_eq)
  also have "\<dots> \<longleftrightarrow> znaki_nazwy t \<notin> fst ` set (wpisy_przed s w k j)"
    unfolding blok by (auto simp: image_Un image_UN)
  finally show ?thesis .
qed

lemma wpis_poprawny_widok:
  assumes g: "geometria s" and w: "\<And>l. w_wskazniki w l \<noteq> BARK_BLOKU \<Longrightarrow> w_wskazniki w l < ps_bloki s" and k: "w_wskazniki w k \<noteq> BARK_BLOKU"
  shows "wpis_poprawny s d w k j p \<longleftrightarrow> wp_id p = 0 \<and> wpis_poprawny s d w k j p \<or>
    wp_id p \<noteq> 0 \<and> wpis_dobry (widok s) d (znaki_nazwy (wp_nazwa p), wp_id p) \<and> znaki_nazwy (wp_nazwa p) \<notin> fst ` set (wpisy_przed s w k j)"
proof (cases "wp_id p = 0")
  case False
  have t: "typ_wezla (widok s) (wp_id p) \<noteq> TYP_WOLNY \<Longrightarrow> wezel_na_dysku s (wp_id p)" by (rule wolny_poza_dyskiem)
  have d: "wezel_na_dysku s (wp_id p) \<longleftrightarrow> \<not> wp_id p > ps_wezly s" using False by (auto simp: wezel_na_dysku_def)
  show ?thesis
  proof (cases "nazwa_ok (znaki_nazwy (wp_nazwa p))")
    case True
    then have "length (znaki_nazwy (wp_nazwa p)) < 56" by (simp add: nazwa_ok_def)
    from bez_powtorki [OF g this w k, of j] show ?thesis using False True t d
      by (auto simp: wpis_poprawny_def poprawna_nazwa_znaki pobierz_wezel_geo [OF g] g typ_wezla_def wpis_dobry_def)
  next
    case nie: False
    then show ?thesis using False by (auto simp: wpis_poprawny_def poprawna_nazwa_znaki wpis_dobry_def)
  qed
qed simp

text \<open>The two loops: the entries still to come are good, their names are new, and they are counted.\<close>

lemma nowa_nazwa: "distinct (map fst xs) \<Longrightarrow> n \<notin> fst ` set xs \<Longrightarrow> distinct (map fst (xs @ [(n, c)]))"
  by auto

lemma waliduj_wpisy_widok:
  assumes g: "geometria s" and w: "\<And>l. w_wskazniki w l \<noteq> BARK_BLOKU \<Longrightarrow> w_wskazniki w l < ps_bloki s" and k: "w_wskazniki w k \<noteq> BARK_BLOKU"
  defines "b \<equiv> vi_dane (widok s) (w_wskazniki w k)"
  shows "j \<le> 64 \<Longrightarrow> distinct (map fst (wpisy_przed s w k j)) \<Longrightarrow>
    waliduj_wpisy s d w k (nr_danych s (w_wskazniki w k)) z [j ..< 64] =
      (if (\<forall>p \<in> set (wpisy_bloku_od b j). wpis_dobry (widok s) d p) \<and> distinct (map fst (wpisy_przed s w k j @ wpisy_bloku_od b j))
       then Some (z + of_nat (length (wpisy_bloku_od b j))) else None)"
proof (induction "64 - j" arbitrary: j z)
  case (Suc q)
  then have j: "j < 64" "[j ..< 64] = j # [Suc j ..< 64]" by (simp_all add: upt_conv_Cons)
  have pr: "wpisy_przed s w k (Suc j) = wpisy_przed s w k j @ wpis_lista b j" by (simp add: b_def)
  let ?p = "wpis s (nr_danych s (w_wskazniki w k)) j"
  have p: "?p = wpis_z b j" unfolding b_def by (rule wpis_danych [OF g w [OF k]])
  have q: "q = 64 - Suc j" "Suc j \<le> 64" using Suc.hyps(2) j by simp_all
  show ?case
  proof (cases "wp_id (wpis_z b j) = 0")
    case True
    then have e: "wpis_lista b j = []" by (simp add: wpis_lista_def)
    have "distinct (map fst (wpisy_przed s w k (Suc j)))" using Suc.prems(2) unfolding pr e by simp
    from Suc.hyps(1) [OF q this, of z] show ?thesis using True p e unfolding j(2) pr by simp
  next
    case False
    let ?n = "znaki_nazwy (wp_nazwa (wpis_z b j))"
    have e: "wpis_lista b j = [(?n, wp_id (wpis_z b j))]" using False by (simp add: wpis_lista_def napis_wpisu_def)
    note wp = wpis_poprawny_widok [OF g w k, of d j "wpis_z b j"]
    show ?thesis
    proof (cases "wpis_poprawny s d w k j (wpis_z b j)")
      case nie: False
      then show ?thesis using False p e wp unfolding j(2) by auto
    next
      case True
      then have ok: "wpis_dobry (widok s) d (?n, wp_id (wpis_z b j))" "?n \<notin> fst ` set (wpisy_przed s w k j)" using wp False by auto
      have "distinct (map fst (wpisy_przed s w k (Suc j)))" unfolding pr e by (rule nowa_nazwa [OF Suc.prems(2) ok(2)])
      from Suc.hyps(1) [OF q this, of "z + 1"] show ?thesis using True False ok(1) p e unfolding j(2) pr by (simp add: add_ac)
    qed
  qed
qed simp

lemma waliduj_bloki_widok:
  assumes g: "geometria s" and w: "\<And>l. w_wskazniki w l \<noteq> BARK_BLOKU \<Longrightarrow> w_wskazniki w l < ps_bloki s"
  defines "L \<equiv> \<lambda>k. concat (map (lista_pod (vi_dane (widok s)) w) [k ..< 490])"
    and "P \<equiv> \<lambda>k. concat (map (lista_pod (vi_dane (widok s)) w) [0 ..< k])"
  shows "k \<le> 490 \<Longrightarrow> distinct (map fst (P k)) \<Longrightarrow>
    waliduj_bloki s d w z [k ..< 490] =
      (if (\<forall>p \<in> set (L k). wpis_dobry (widok s) d p) \<and> distinct (map fst (P k @ L k)) then Some (z + of_nat (length (L k))) else None)"
proof (induction "490 - k" arbitrary: k z)
  case (Suc q)
  then have k: "k < 490" "[k ..< 490] = k # [Suc k ..< 490]" by (simp_all add: upt_conv_Cons)
  have q: "q = 490 - Suc k" "Suc k \<le> 490" using Suc.hyps(2) k by simp_all
  let ?l = "lista_pod (vi_dane (widok s)) w k"
  have Lk: "L k = ?l @ L (Suc k)" and Pk: "P (Suc k) = P k @ ?l" using k by (simp_all add: L_def P_def upt_conv_Cons)
  show ?case
  proof (cases "w_wskazniki w k = BARK_BLOKU")
    case True
    then have e: "?l = []" by (simp add: lista_pod_def)
    have "distinct (map fst (P (Suc k)))" using Suc.prems(2) unfolding Pk e by simp
    from Suc.hyps(1) [OF q this, of z] show ?thesis using True unfolding k(2) Lk Pk e by simp
  next
    case False
    let ?b = "vi_dane (widok s) (w_wskazniki w k)"
    have l: "?l = wpisy_bloku_od ?b 0" using False by (simp add: lista_pod_def lista_bloku_concat)
    have pd: "distinct (map fst (wpisy_przed s w k 0))" "wpisy_przed s w k 0 = P k" using Suc.prems(2) by (simp_all add: P_def)
    have ww': "waliduj_wpisy s d w k (nr_danych s (w_wskazniki w k)) z [0 ..< 64] =
      (if (\<forall>p \<in> set ?l. wpis_dobry (widok s) d p) \<and> distinct (map fst (P k @ ?l)) then Some (z + of_nat (length ?l)) else None)"
      unfolding l pd(2) [symmetric] by (rule waliduj_wpisy_widok [OF g _ False _ pd(1)]) (use w in simp_all)
    show ?thesis
    proof (cases "(\<forall>p \<in> set ?l. wpis_dobry (widok s) d p) \<and> distinct (map fst (P k @ ?l))")
      case nie: False
      then have "\<not> ((\<forall>p \<in> set (L k). wpis_dobry (widok s) d p) \<and> distinct (map fst (P k @ L k)))" unfolding Lk by auto
      moreover have "waliduj_bloki s d w z [k ..< 490] = None"
        using False w [OF False] ww' [unfolded if_not_P [OF nie]] unfolding k(2) by (simp add: pobierz_wpisy_geo [OF g])
      ultimately show ?thesis by (simp only: if_False)
    next
      case True
      then have "distinct (map fst (P (Suc k)))" unfolding Pk by blast
      note ih = Suc.hyps(1) [OF q this, of "z + of_nat (length ?l)"]
      have "waliduj_bloki s d w z [k ..< 490] = waliduj_bloki s d w (z + of_nat (length ?l)) [Suc k ..< 490]"
        using False w [OF False] ww' [unfolded if_P [OF True]] unfolding k(2) by (simp add: pobierz_wpisy_geo [OF g])
      then show ?thesis unfolding ih Lk Pk using True by (auto simp: add_ac)
    qed
  qed
qed (simp add: L_def)

lemma waliduj_katalog_widok:
  assumes g: "geometria s" and d: "typ_wezla (widok s) d = TYP_KATALOG" and w: "wskazniki_ok s d"
  shows "waliduj_katalog s d (vi_wezel (widok s) d) \<longleftrightarrow> katalog_ok (widok s) d"
proof -
  let ?w = "vi_wezel (widok s) d" and ?L = "wpisy (widok s) d"
  have ws: "\<And>l. w_wskazniki ?w l \<noteq> BARK_BLOKU \<Longrightarrow> w_wskazniki ?w l < ps_bloki s" using w by (simp add: wskazniki_ok_def)
  have e: "waliduj_bloki s d ?w 0 indeksy_wskaznikow =
      (if (\<forall>p \<in> set ?L. wpis_dobry (widok s) d p) \<and> distinct (map fst ?L) then Some (of_nat (length ?L)) else None)"
    using waliduj_bloki_widok [OF g ws, of 0 d 0] by (simp add: wpisy_def)
  have "unat (of_nat (length ?L) :: u64) = length ?L" using dlugosc_wpisow [of "widok s" d] by (intro unat_of_nat_u64) simp
  then have r: "w_rozmiar ?w = of_nat (length ?L) \<longleftrightarrow> length ?L = unat (w_rozmiar ?w)" by (metis word_unat_eq_iff)
  show ?thesis using d r unfolding waliduj_katalog_def e typ_wezla_def katalog_ok_def wpis_dobry_def by (auto simp: typ_wezla_def)
qed

subsection \<open>Nodes\<close>

definition wezel_dobry :: "psf \<Rightarrow> u64 \<Rightarrow> bool" where
  "wezel_dobry s i \<longleftrightarrow> (\<forall>k b. zajmuje (widok s) i k b \<longrightarrow> vi_zajety (widok s) b) \<and>
     (\<forall>k k' b. zajmuje (widok s) i k b \<longrightarrow> zajmuje (widok s) i k' b \<longrightarrow> k = k')"

lemma wskazniki_wezla_widok:
  assumes g: "geometria s" and i: "typ_wezla (widok s) i \<noteq> TYP_WOLNY"
  shows "wskazniki_wezla_poprawne s (vi_wezel (widok s) i) \<longleftrightarrow> wezel_dobry s i \<and>
    w_posredni_1 (vi_wezel (widok s) i) = BARK_BLOKU \<and> w_posredni_2 (vi_wezel (widok s) i) = BARK_BLOKU \<and> w_posredni_3 (vi_wezel (widok s) i) = BARK_BLOKU"
proof -
  let ?u = "w_wskazniki (vi_wezel (widok s) i)"
  have zaj: "vi_zajety (widok s) b \<Longrightarrow> b < ps_bloki s" for b using widok_pola(4) [OF g] .
  have "wezel_dobry s i \<longleftrightarrow> (\<forall>k < 490. ?u k \<noteq> BARK_BLOKU \<longrightarrow> vi_zajety (widok s) (?u k) \<and> (\<forall>j < k. ?u j \<noteq> ?u k))"
  proof
    assume wd: "wezel_dobry s i"
    show "\<forall>k < 490. ?u k \<noteq> BARK_BLOKU \<longrightarrow> vi_zajety (widok s) (?u k) \<and> (\<forall>j < k. ?u j \<noteq> ?u k)"
    proof (intro allI impI conjI)
      fix k assume k: "k < 490" "?u k \<noteq> BARK_BLOKU"
      then have z: "zajmuje (widok s) i k (?u k)" using i by (simp add: zajmuje_def)
      then show "vi_zajety (widok s) (?u k)" using wd unfolding wezel_dobry_def by blast
      fix j assume j: "j < k"
      show "?u j \<noteq> ?u k"
      proof
        assume "?u j = ?u k"
        then have "zajmuje (widok s) i j (?u k)" using i j k by (simp add: zajmuje_def)
        then show False using wd z j unfolding wezel_dobry_def by blast
      qed
    qed
  next
    assume a: "\<forall>k < 490. ?u k \<noteq> BARK_BLOKU \<longrightarrow> vi_zajety (widok s) (?u k) \<and> (\<forall>j < k. ?u j \<noteq> ?u k)"
    show "wezel_dobry s i" unfolding wezel_dobry_def
    proof (intro conjI allI impI)
      fix k b assume "zajmuje (widok s) i k b"
      then show "vi_zajety (widok s) b" using a by (auto simp: zajmuje_def)
    next
      fix k k' b assume "zajmuje (widok s) i k b" "zajmuje (widok s) i k' b"
      then have "k < 490" "k' < 490" "?u k = b" "?u k' = b" "b \<noteq> BARK_BLOKU" by (simp_all add: zajmuje_def)
      then show "k = k'" using a by (metis linorder_neqE_nat)
    qed
  qed
  then show ?thesis using zaj
    by (auto simp: wskazniki_wezla_poprawne_def list_all_iff Let_def id_bloku_danych_poprawne_def widok_pola(3) [OF g])
qed

lemma plik_ok_lista:
  "plik_ok w \<longleftrightarrow> \<not> w_rozmiar w > maks_rozmiar_pliku \<and>
     list_all (\<lambda>k. \<not> (k \<ge> 490 \<or> w_wskazniki w k = BARK_BLOKU)) [0 ..< unat (podziel_w_gore (w_rozmiar w) (of_nat 4096))]"
proof -
  let ?n = "unat (w_rozmiar w)"
  note B = bloki_rozmiaru_granice [where n = ?n]
  have m: "w_rozmiar w > maks_rozmiar_pliku \<longleftrightarrow> 490 * 4096 < ?n" by (simp add: maks_rozmiar_pliku_def word_less_nat_alt unat_word_ariths)
  have l: "list_all (\<lambda>k. \<not> (k \<ge> 490 \<or> w_wskazniki w k = BARK_BLOKU)) [0 ..< bloki_rozmiaru ?n] \<longleftrightarrow>
      (\<forall>k. k * 4096 < ?n \<longrightarrow> k < 490 \<and> w_wskazniki w k \<noteq> BARK_BLOKU)"
    unfolding list_all_iff B(3) by (auto simp: not_le)
  have "k < 490" if "?n \<le> 490 * 4096" "k * 4096 < ?n" for k using that by simp
  then show ?thesis unfolding podziel_blok l m plik_ok_def by (auto simp: not_less)
qed

lemma waliduj_wezel_widok:
  assumes g: "geometria s" and i: "wezel_na_dysku s i"
  shows "waliduj_wezel s i \<longleftrightarrow> typ_wezla (widok s) i = TYP_WOLNY \<or>
    wezel_dobry s i \<and> w_posredni_1 (vi_wezel (widok s) i) = BARK_BLOKU \<and> w_posredni_2 (vi_wezel (widok s) i) = BARK_BLOKU \<and>
      w_posredni_3 (vi_wezel (widok s) i) = BARK_BLOKU \<and>
      (typ_wezla (widok s) i = TYP_PLIK \<and> plik_ok (vi_wezel (widok s) i) \<or> typ_wezla (widok s) i = TYP_KATALOG \<and> katalog_ok (widok s) i)"
proof (cases "typ_wezla (widok s) i = TYP_WOLNY")
  case False
  note wz = wskazniki_wezla_widok [OF g False]
  have k: "wezel_dobry s i \<Longrightarrow> wskazniki_ok s i"
    unfolding wskazniki_ok_def
  proof (intro allI impI)
    fix k assume a: "wezel_dobry s i" "w_wskazniki (vi_wezel (widok s) i) k \<noteq> BARK_BLOKU"
    then have "k < 490" using bez_wskaznikow_widok [of k s i] by (meson not_le)
    then have "zajmuje (widok s) i k (w_wskazniki (vi_wezel (widok s) i) k)" using a(2) False by (simp add: zajmuje_def)
    then show "w_wskazniki (vi_wezel (widok s) i) k < ps_bloki s" using a(1) widok_pola(4) [OF g] unfolding wezel_dobry_def by blast
  qed
  have e: "waliduj_wezel s i \<longleftrightarrow> (typ_wezla (widok s) i = TYP_PLIK \<or> typ_wezla (widok s) i = TYP_KATALOG) \<and>
      wskazniki_wezla_poprawne s (vi_wezel (widok s) i) \<and>
      (if typ_wezla (widok s) i = TYP_PLIK then plik_ok (vi_wezel (widok s) i) else waliduj_katalog s i (vi_wezel (widok s) i))"
    using False i unfolding plik_ok_lista
    by (auto simp: waliduj_wezel_def pobierz_wezel_geo [OF g] g typ_wezla_def Let_def)
  show ?thesis
  proof (cases "typ_wezla (widok s) i = TYP_KATALOG")
    case True
    then show ?thesis unfolding e wz using waliduj_katalog_widok [OF g True] k by auto
  next
    case nie: False
    then show ?thesis unfolding e wz using False by auto
  qed
qed (use i in \<open>simp add: waliduj_wezel_def pobierz_wezel_geo [OF g] g typ_wezla_def\<close>)

subsection \<open>The whole check\<close>

lemma waliduj_metadane_widok:
  assumes g: "geometria s"
  shows "waliduj_metadane s \<longleftrightarrow> do_przyjecia (widok s) (korzen s)"
proof -
  let ?v = "widok s"
  have poza: "typ_wezla ?v i = TYP_WOLNY" if "\<not> wezel_na_dysku s i" for i using that wolny_poza_dyskiem by blast
  have p: "ps_superblok s" "ps_wezly s \<noteq> 0" using g geometria_liczby(2,6) [OF g] by (auto simp: geometria_def)
  have "waliduj_metadane s \<longleftrightarrow> typ_wezla ?v (korzen s) = TYP_KATALOG \<and> (\<forall>i. wezel_na_dysku s i \<longrightarrow> waliduj_wezel s i)"
    using p korzen_na_dysku [OF g] id_wezlow_zbior [OF g]
    by (simp add: waliduj_metadane_def pobierz_wezel_geo [OF g] g typ_wezla_def list_all_iff)
  also have "(\<forall>i. wezel_na_dysku s i \<longrightarrow> waliduj_wezel s i) \<longleftrightarrow> (\<forall>i. typ_wezla ?v i = TYP_WOLNY \<or>
      wezel_dobry s i \<and> w_posredni_1 (vi_wezel ?v i) = BARK_BLOKU \<and> w_posredni_2 (vi_wezel ?v i) = BARK_BLOKU \<and>
      w_posredni_3 (vi_wezel ?v i) = BARK_BLOKU \<and>
      (typ_wezla ?v i = TYP_PLIK \<and> plik_ok (vi_wezel ?v i) \<or> typ_wezla ?v i = TYP_KATALOG \<and> katalog_ok ?v i))"
    using waliduj_wezel_widok [OF g] poza by metis
  also have "\<dots> \<longleftrightarrow> wezly_ok ?v \<and> (\<forall>i. wezel_dobry s i) \<and> pliki_ok ?v \<and> katalogi_ok ?v"
  proof -
    have "wezel_dobry s i" if "typ_wezla ?v i = TYP_WOLNY" for i using that by (simp add: wezel_dobry_def zajmuje_def)
    then show ?thesis unfolding wezly_ok_def pliki_ok_def katalogi_ok_def all_conj_distrib [symmetric]
      by (intro arg_cong [where f = All] ext) auto
  qed
  also have "(\<forall>i. wezel_dobry s i) \<longleftrightarrow> wskazniki_zywe ?v" unfolding wskazniki_zywe_def wezel_dobry_def by blast
  finally show ?thesis unfolding do_przyjecia_def by blast
qed

end
