(* ===== verification/Psf_Trwalosc.thy ===== *)
theory Psf_Trwalosc
  imports Psf_Walidacja
begin

section \<open>BSP2: what reaches the disk\<close>

text \<open>
  A block that is not marked dirty is on the disk as it is in the RAM disk; a successful write-through
  leaves no marks; and mounting such a disk gives the file system back. The driver is a parameter: a
  write touches the sectors of its range only and leaves the data there when it succeeds, a read
  returns what the sectors hold.
\<close>

definition sterownik_zapisu :: "otoczenie \<Rightarrow> bool" where
  "sterownik_zapisu E \<longleftrightarrow> (\<forall>lba n dane d. case ot_zapisz E lba n dane d of (ok, d') \<Rightarrow>
     (\<forall>sek. sek \<notin> (\<lambda>k. lba + of_nat k) ` {..< n} \<longrightarrow> d' sek = d sek) \<and>
     (ok \<longrightarrow> (\<forall>k < n. \<forall>x < 512. d' (lba + of_nat k) x = dane (k * 512 + x))))"

definition sterownik_odczytu :: "otoczenie \<Rightarrow> bool" where
  "sterownik_odczytu E \<longleftrightarrow> (\<forall>lba n d. \<exists>dane. ot_czytaj E lba n d = Some dane \<and>
     (\<forall>k < n. \<forall>x < 512. dane (k * 512 + x) = d (lba + of_nat k) x))"

definition blok_dysku :: "dysk \<Rightarrow> u64 \<Rightarrow> blok" where
  "blok_dysku d nr x = d (BSP_START_LBA + of_nat (unat nr * 8 + x div 512)) (x mod 512)"

definition na_dysku :: "psf \<Rightarrow> u64 \<Rightarrow> bool" where
  "na_dysku s nr \<longleftrightarrow> (\<forall>x < 4096. blok_dysku (ps_dysk s) nr x = ps_ram s nr x)"

definition zgodny :: "psf \<Rightarrow> bool" where
  "zgodny s \<longleftrightarrow> ps_ahci s \<and> ps_trwaly s \<and> (\<forall>nr. unat nr < bloki_dysku s \<longrightarrow> \<not> brudny s nr \<longrightarrow> na_dysku s nr)"

lemma zgodny_zmiana: "zgodny s \<Longrightarrow> zmiana {} s s' v \<Longrightarrow> zgodny s'"
proof -
  assume z: "zgodny s" and m: "zmiana {} s s' v"
  note st = zmiana_stale [OF m]
  have "na_dysku s' nr" if "unat nr < bloki_dysku s'" "\<not> brudny s' nr" for nr
  proof -
    have "ps_ram s' nr = ps_ram s nr" "\<not> brudny s nr" using m that(2) by (auto simp: zmiana_def)
    then show ?thesis using z that(1) st by (simp add: zgodny_def na_dysku_def)
  qed
  then show "zgodny s'" using z st by (simp add: zgodny_def)
qed

subsection \<open>Writing sectors\<close>

lemma rozne_sektory: "k < 18446744073709551616 \<Longrightarrow> l < 18446744073709551616 \<Longrightarrow> (lba :: u64) + of_nat k = lba + of_nat l \<longleftrightarrow> k = l"
  using arg_cong [of "of_nat k :: u64" "of_nat l" unat] unat_of_nat_u64 [of k] unat_of_nat_u64 [of l] by (metis add_left_cancel)

lemma zapisz_sektory_od_wynik:
  assumes E: "sterownik_zapisu E"
  shows "liczba < 18446744073709551616 \<Longrightarrow> zapisz_sektory_od E zap lba liczba dane d = (ok, d') \<Longrightarrow>
    (\<forall>sek. (\<forall>k. zap \<le> k \<longrightarrow> k < liczba \<longrightarrow> sek \<noteq> lba + of_nat k) \<longrightarrow> d' sek = d sek) \<and>
    (ok \<longrightarrow> (\<forall>k x. zap \<le> k \<longrightarrow> k < liczba \<longrightarrow> x < 512 \<longrightarrow> d' (lba + of_nat k) x = dane (k * 512 + x)))"
proof (induction "liczba - zap" arbitrary: zap d rule: less_induct)
  case less
  show ?case
  proof (cases "zap < liczba")
    case False
    then show ?thesis using less.prems(2) by (subst (asm) zapisz_sektory_od.simps) auto
  next
    case True
    define p where "p = (if liczba - zap > 32 then 32 else liczba - zap)"
    have p: "0 < p" "zap + p \<le> liczba" using True by (auto simp: p_def)
    obtain ok1 d1 where w: "ot_zapisz E (lba + of_nat zap) p (\<lambda>i. dane (zap * 512 + i)) d = (ok1, d1)" by force
    have "zapisz_sektory_od E zap lba liczba dane d = (case ot_zapisz E (lba + of_nat zap) p (\<lambda>i. dane (zap * 512 + i)) d of (ok, d1) \<Rightarrow>
        if \<not> ok then (False, d1) else zapisz_sektory_od E (zap + p) lba liczba dane d1)"
      by (subst zapisz_sektory_od.simps) (simp only: True if_True Let_def p_def)
    then have e: "(ok, d') = (if \<not> ok1 then (False, d1) else zapisz_sektory_od E (zap + p) lba liczba dane d1)"
      using less.prems(2) w by simp
    have pocz: "lba + of_nat zap + of_nat k = lba + of_nat (zap + k)" for k by simp
    have f1: "d1 sek = d sek" if "\<forall>k. zap \<le> k \<longrightarrow> k < liczba \<longrightarrow> sek \<noteq> lba + of_nat k" for sek
    proof -
      have "sek \<noteq> lba + of_nat zap + of_nat k" if "k < p" for k
        unfolding pocz using \<open>\<forall>k. zap \<le> k \<longrightarrow> k < liczba \<longrightarrow> sek \<noteq> lba + of_nat k\<close> [rule_format, of "zap + k"] that p(2) by linarith
      then have "sek \<notin> (\<lambda>k. lba + of_nat zap + of_nat k) ` {..< p}" by blast
      moreover have "\<forall>sek. sek \<notin> (\<lambda>k. lba + of_nat zap + of_nat k) ` {..< p} \<longrightarrow> d1 sek = d sek"
        using E [unfolded sterownik_zapisu_def, THEN spec, THEN spec, THEN spec, THEN spec, of "lba + of_nat zap" p d "\<lambda>i. dane (zap * 512 + i)"] unfolding w by simp
      ultimately show ?thesis by blast
    qed
    show ?thesis
    proof (cases ok1)
      case False
      then show ?thesis using e f1 by simp
    next
      case ok: True
      have "liczba - (zap + p) < liczba - zap" using p by simp
      note ih = less.hyps [OF this less.prems(1), of d1]
      have r: "zapisz_sektory_od E (zap + p) lba liczba dane d1 = (ok, d')" using e ok by simp
      note I = ih [OF r]
      have g1: "d1 (lba + of_nat k) x = dane (k * 512 + x)" if "zap \<le> k" "k < zap + p" "x < 512" for k x
      proof -
        have "\<forall>l < p. \<forall>x < 512. d1 (lba + of_nat zap + of_nat l) x = dane (zap * 512 + (l * 512 + x))"
          using E [unfolded sterownik_zapisu_def, THEN spec, THEN spec, THEN spec, THEN spec, of "lba + of_nat zap" p d "\<lambda>i. dane (zap * 512 + i)"] ok unfolding w by simp
        from this [unfolded pocz, rule_format, of "k - zap" x] show ?thesis using that by (simp add: algebra_simps)
      qed
      have "d' (lba + of_nat k) x = dane (k * 512 + x)" if k: "zap \<le> k" "k < liczba" "x < 512" ok for k x
      proof (cases "k < zap + p")
        case True
        have "lba + of_nat k \<noteq> lba + of_nat l" if "zap + p \<le> l" "l < liczba" for l
          using rozne_sektory [of k l lba] less.prems(1) k(2) that True by simp
        then have "d' (lba + of_nat k) = d1 (lba + of_nat k)" using I by blast
        then show ?thesis using g1 True k by simp
      next
        case False
        then show ?thesis using I k by simp
      qed
      moreover have "d' sek = d sek" if s: "\<forall>k. zap \<le> k \<longrightarrow> k < liczba \<longrightarrow> sek \<noteq> lba + of_nat k" for sek
      proof -
        have "d' sek = d1 sek" using I s by simp
        then show ?thesis using f1 s by simp
      qed
      ultimately show ?thesis by blast
    qed
  qed
qed

lemma osemki: "a * 8 + i = b * 8 + k \<Longrightarrow> i < 8 \<Longrightarrow> k < 8 \<Longrightarrow> a = (b :: nat)"
  by arith

text \<open>The write of one dirty block.\<close>

lemma bajty_bloku: "x < 4096 \<Longrightarrow> bajty_ram ram (unat nr * 4096 + x) = ram nr x"
  by (simp add: bajty_ram_def)

lemma zapisz_blok_wynik:
  assumes E: "sterownik_zapisu E" and w: "zapisz_sektory_porcjami E (BSP_START_LBA + of_nat (unat nr * 8)) 8 (\<lambda>i. bajty_ram ram (unat nr * 4096 + i)) d = (ok, d')"
    and n: "unat nr < 4503599627370496"
  shows "x < 4096 \<Longrightarrow> ok \<Longrightarrow> blok_dysku d' nr x = ram nr x"
    "x < 4096 \<Longrightarrow> unat nr' < 4503599627370496 \<Longrightarrow> nr' \<noteq> nr \<Longrightarrow> blok_dysku d' nr' x = blok_dysku d nr' x"
proof -
  let ?l = "BSP_START_LBA + of_nat (unat nr * 8)"
  have pocz: "?l + of_nat k = BSP_START_LBA + of_nat (unat nr * 8 + k)" for k by simp
  have "unat (8 :: u64) = 8" by simp
  then have w': "zapisz_sektory_od E 0 ?l 8 (\<lambda>i. bajty_ram ram (unat nr * 4096 + i)) d = (ok, d')"
    using w unfolding zapisz_sektory_porcjami_def by (simp only:)
  have W: "(\<forall>sek. (\<forall>k. k < 8 \<longrightarrow> sek \<noteq> ?l + of_nat k) \<longrightarrow> d' sek = d sek) \<and>
    (ok \<longrightarrow> (\<forall>k x. k < 8 \<longrightarrow> x < 512 \<longrightarrow> d' (?l + of_nat k) x = bajty_ram ram (unat nr * 4096 + (k * 512 + x))))"
    using zapisz_sektory_od_wynik [OF E _ w', of] by (simp only: le0 simp_thms) simp
  show "blok_dysku d' nr x = ram nr x" if x: "x < 4096" "ok"
  proof -
    have "x div 512 < 8" using x(1) by (simp add: div_less_iff_less_mult)
    then have "d' (?l + of_nat (x div 512)) (x mod 512) = bajty_ram ram (unat nr * 4096 + (x div 512 * 512 + x mod 512))"
      using W x(2) by simp
    then show ?thesis using bajty_bloku [OF x(1)] unfolding blok_dysku_def pocz by simp
  qed
  show "blok_dysku d' nr' x = blok_dysku d nr' x" if x: "x < 4096" "unat nr' < 4503599627370496" "nr' \<noteq> nr"
  proof -
    have "BSP_START_LBA + of_nat (unat nr' * 8 + x div 512) \<noteq> ?l + of_nat k" if k: "k < 8" for k
    proof
      assume eq: "BSP_START_LBA + of_nat (unat nr' * 8 + x div 512) = ?l + of_nat k"
      have x8: "x div 512 < 8" using x(1) by (simp add: div_less_iff_less_mult)
      have "unat nr' * 8 + x div 512 < 18446744073709551616" "unat nr * 8 + k < 18446744073709551616" using n x(2) k x8 by auto
      from iffD1 [OF rozne_sektory [OF this] eq [unfolded pocz]] have "unat nr' * 8 + x div 512 = unat nr * 8 + k" .
      from this x8 k have "unat nr' = unat nr" by (rule osemki)
      then have "nr' = nr" by (rule word_unat_eq_iff [THEN iffD2])
      then show False using x(3) by (rule notE [rotated])
    qed
    then show ?thesis using W unfolding blok_dysku_def by simp
  qed
qed

lemma zapisz_brudne_wynik:
  assumes E: "sterownik_zapisu E"
  shows "zapisz_brudne E ram nry d = (ok, d') \<Longrightarrow>
    (\<forall>nr x. nr \<notin> set nry \<longrightarrow> unat nr < 1048576 \<longrightarrow> x < 4096 \<longrightarrow> blok_dysku d' nr x = blok_dysku d nr x) \<and>
    (ok \<longrightarrow> (\<forall>nr \<in> set nry. \<forall>x < 4096. unat nr < 1048576 \<longrightarrow> blok_dysku d' nr x = ram nr x))"
proof (induction nry arbitrary: d)
  case (Cons nr nry)
  show ?case
  proof (cases "mnoz_u64 nr (of_nat 4096)")
    case None
    then show ?thesis using Cons.prems by (auto split: option.splits)
  next
    case (Some b)
    then have b: "unat nr * 4096 < 18446744073709551616" "unat b = unat nr * 4096" using mnoz_u64_unat [OF Some] by (simp_all add: mnoz_u64_Some)
    then have n: "unat nr < 4503599627370496" by simp
    have l: "mnoz_u64 nr (of_nat (4096 div 512)) = Some (of_nat (unat nr * 8))" using n by (simp add: mnoz_u64_Some)
    obtain ok1 d1 where w: "zapisz_sektory_porcjami E (BSP_START_LBA + of_nat (unat nr * 8)) 8 (\<lambda>i. bajty_ram ram (unat nr * 4096 + i)) d = (ok1, d1)"
      by force
    note W = zapisz_blok_wynik [OF E w n]
    have e: "(ok, d') = (if \<not> ok1 then (False, d1) else zapisz_brudne E ram nry d1)"
      using Cons.prems Some l w b(2) by (simp del: of_nat_mult)
    show ?thesis
    proof (cases ok1)
      case False
      then show ?thesis using e W(2) by auto
    next
      case True
      then have "zapisz_brudne E ram nry d1 = (ok, d')" using e by simp
      note I = Cons.IH [OF this]
      have "blok_dysku d' m x = ram m x" if "ok" "m \<in> set (nr # nry)" "x < 4096" "unat m < 1048576" for m x
      proof (cases "m \<in> set nry")
        case True
        then show ?thesis using I that by blast
      next
        case False
        then have "m = nr" using that by simp
        then show ?thesis using I False that W(1) [OF that(3) \<open>ok1\<close>] by simp
      qed
      moreover have "blok_dysku d' m x = blok_dysku d m x" if "m \<notin> set (nr # nry)" "unat m < 1048576" "x < 4096" for m x
        using I W(2) [OF that(3), of m] that by simp
      ultimately show ?thesis by blast
    qed
  qed
qed simp

subsection \<open>The write-through\<close>

lemma na_dysku_po:
  assumes "\<And>x. x < 4096 \<Longrightarrow> blok_dysku (ps_dysk s') nr x = blok_dysku (ps_dysk s) nr x" "ps_ram s' nr = ps_ram s nr"
  shows "na_dysku s' nr \<longleftrightarrow> na_dysku s nr"
  using assms by (simp add: na_dysku_def)

lemma caly_dysk_wynik:
  assumes E: "sterownik_zapisu E" and n: "n < 1048576"
    and w: "zapisz_sektory_od E 0 BSP_START_LBA (n * 8) (bajty_ram ram) d = (True, d')"
    and x: "x < 4096" and nr: "unat nr < n"
  shows "blok_dysku d' nr x = ram nr x"
proof -
  have b: "n * 8 < 18446744073709551616" using n by simp
  have k: "unat nr * 8 + x div 512 < n * 8" using x nr by (simp add: div_less_iff_less_mult)
  note W = zapisz_sektory_od_wynik [OF E b w]
  have "d' (BSP_START_LBA + of_nat (unat nr * 8 + x div 512)) (x mod 512) = bajty_ram ram ((unat nr * 8 + x div 512) * 512 + x mod 512)"
    using conjunct2 [OF W, rule_format, OF TrueI le0 k, of "x mod 512"] by simp
  moreover have "(unat nr * 8 + x div 512) * 512 + x mod 512 = unat nr * 4096 + x" by (simp add: algebra_simps)
  ultimately show ?thesis using bajty_bloku [OF x, of ram nr] by (simp add: blok_dysku_def ac_simps)
qed

lemma zapis_zmian_wynik:
  assumes E: "sterownik_zapisu E" and g: "geometria s" and z: "zgodny s"
  shows "zgodny (snd (bsp_zapisz_zmiany E s)) \<and> (fst (bsp_zapisz_zmiany E s) \<longrightarrow> (\<forall>nr. \<not> brudny (snd (bsp_zapisz_zmiany E s)) nr))"
proof -
  have p: "ps_ram_dysk s" "ps_superblok s" "ps_ahci s" "ps_trwaly s" using g z by (auto simp: geometria_def zgodny_def)
  note granica = geometria_liczby(4) [OF g]
  show ?thesis
  proof (cases "\<not> ps_caly s \<and> ps_brudne s = []")
    case True
    then have "bsp_zapisz_zmiany E s = (True, s\<lparr>ps_flush_ok := True\<rparr>)" using p by (simp add: bsp_zapisz_zmiany_def)
    then show ?thesis using z True by (auto simp: zgodny_def na_dysku_def brudny_def sb_def)
  next
    case False
    obtain ok d where w: "(if ps_caly s
        then zapisz_sektory_porcjami E BSP_START_LBA (sb_calkowity_rozmiar (sb s) div of_nat ROZMIAR_SEKTORA) (bajty_ram (ps_ram s)) (ps_dysk s)
        else zapisz_brudne E (ps_ram s) (ps_brudne s) (ps_dysk s)) = (ok, d)" by fastforce
    have c: "bsp_zapisz_zmiany E s = (ok, (if ok then wyczysc_liste_brudnych (s\<lparr>ps_dysk := d\<rparr>) else s\<lparr>ps_dysk := d\<rparr>)\<lparr>ps_flush_ok := ok\<rparr>)"
      unfolding bsp_zapisz_zmiany_def w using p False by auto
    have "blok_dysku d nr x = ps_ram s nr x" if nr: "unat nr < bloki_dysku s" and x: "x < 4096" and b: "ok \<or> \<not> brudny s nr" for nr x
    proof (cases "ps_caly s")
      case True
      then have ok: ok using b by (simp add: brudny_def)
      have "unat (sb_calkowity_rozmiar (sb s)) = bloki_dysku s * 4096" using g geometria_superbloku(4) unfolding geometria_def by blast
      then have "unat (sb_calkowity_rozmiar (sb s) div of_nat ROZMIAR_SEKTORA) = bloki_dysku s * 8" by (simp add: unat_div)
      then have "zapisz_sektory_od E 0 BSP_START_LBA (bloki_dysku s * 8) (bajty_ram (ps_ram s)) (ps_dysk s) = (True, d)"
        using w True ok unfolding zapisz_sektory_porcjami_def by simp
      then show ?thesis by (rule caly_dysk_wynik [OF E granica _ x nr])
    next
      case False
      then have "zapisz_brudne E (ps_ram s) (ps_brudne s) (ps_dysk s) = (ok, d)" using w by simp
      note W = zapisz_brudne_wynik [OF E this]
      have nr': "unat nr < 1048576" using nr granica by simp
      show ?thesis
      proof (cases "nr \<in> set (ps_brudne s)")
        case True
        then show ?thesis using W nr' x b by (simp add: brudny_def)
      next
        case nie: False
        have "blok_dysku d nr x = blok_dysku (ps_dysk s) nr x" using W nie nr' x by blast
        moreover have "na_dysku s nr" using z nr nie False by (simp add: zgodny_def brudny_def)
        ultimately show ?thesis using x by (simp add: na_dysku_def)
      qed
    qed
    then show ?thesis using p unfolding c
      by (auto simp: zgodny_def na_dysku_def brudny_def sb_def wyczysc_liste_brudnych_def)
  qed
qed

lemma krok_api_zgodny: "sterownik_zapisu E \<Longrightarrow> krok_api E s s' A \<Longrightarrow> zgodny s \<Longrightarrow> zgodny s'"
  unfolding krok_api_def using zgodny_zmiana [OF _ krok_zmiana] zapis_zmian_wynik krok_ok by (metis bsp2_ok_def)

subsection \<open>Reading sectors\<close>

lemma czytaj_sektory_od_wynik:
  assumes E: "sterownik_odczytu E"
  shows "\<exists>cel'. czytaj_sektory_od E d prz lba liczba cel = (True, cel') \<and> (\<forall>i < prz * 512. cel' i = cel i) \<and>
    (\<forall>k x. prz \<le> k \<longrightarrow> k < liczba \<longrightarrow> x < 512 \<longrightarrow> cel' (k * 512 + x) = d (lba + of_nat k) x)"
proof (induction "liczba - prz" arbitrary: prz cel rule: less_induct)
  case less
  show ?case
  proof (cases "prz < liczba")
    case False
    then show ?thesis by (subst czytaj_sektory_od.simps) auto
  next
    case True
    define p where "p = (if liczba - prz > 32 then 32 else liczba - prz)"
    have p: "0 < p" "prz + p \<le> liczba" using True by (auto simp: p_def)
    obtain dane where R: "ot_czytaj E (lba + of_nat prz) p d = Some dane \<and>
        (\<forall>k < p. \<forall>x < 512. dane (k * 512 + x) = d (lba + of_nat prz + of_nat k) x)"
      using E [unfolded sterownik_odczytu_def, THEN spec, THEN spec, THEN spec] ..
    note r1 = conjunct1 [OF R] and r2 = conjunct2 [OF R, rule_format]
    define cel1 where "cel1 = kopiuj_pamiec cel (prz * 512) dane (p * 512)"
    have e: "czytaj_sektory_od E d prz lba liczba cel = czytaj_sektory_od E d (prz + p) lba liczba cel1"
      by (subst czytaj_sektory_od.simps) (simp only: True if_True Let_def p_def [symmetric] r1 option.case cel1_def)
    have "liczba - (prz + p) < liczba - prz" using p by simp
    from less.hyps [OF this, of cel1] obtain cel' where I: "czytaj_sektory_od E d (prz + p) lba liczba cel1 = (True, cel') \<and>
        (\<forall>i < (prz + p) * 512. cel' i = cel1 i) \<and>
        (\<forall>k x. prz + p \<le> k \<longrightarrow> k < liczba \<longrightarrow> x < 512 \<longrightarrow> cel' (k * 512 + x) = d (lba + of_nat k) x)" ..
    note I1 = conjunct1 [OF I] and I2 = conjunct1 [OF conjunct2 [OF I], rule_format] and I3 = conjunct2 [OF conjunct2 [OF I], rule_format]
    have "cel' (k * 512 + x) = d (lba + of_nat k) x" if k: "prz \<le> k" "k < liczba" "x < 512" for k x
    proof (cases "k < prz + p")
      case True
      obtain l where l: "k = prz + l" "l < p" using k(1) True by (metis add_less_cancel_left le_Suc_ex)
      have j: "k * 512 + x = prz * 512 + (l * 512 + x)" "l * 512 + x < p * 512" using l k(3) by auto
      have "cel' (k * 512 + x) = cel1 (k * 512 + x)" by (rule I2) (use l j in simp)
      also have "\<dots> = dane (l * 512 + x)" unfolding cel1_def kopiuj_pamiec_def using j by simp
      also have "\<dots> = d (lba + of_nat k) x" using r2 [OF l(2) k(3)] l(1) by (simp add: add.assoc)
      finally show ?thesis .
    next
      case False
      then show ?thesis using I3 k by simp
    qed
    moreover have "cel' i = cel i" if "i < prz * 512" for i using I2 [of i] that by (simp add: cel1_def kopiuj_pamiec_def)
    ultimately show ?thesis unfolding e I1 by blast
  qed
qed

lemma sektor_bajtu: "unat nr * 4096 + x = (unat nr * 8 + x div 512) * 512 + x mod 512"
  by simp

lemma wczytany_dysk:
  assumes E: "sterownik_odczytu E" and r: "czytaj_sektory_od E d 0 BSP_START_LBA (n * 8) cel = (ok, bajty)"
  shows "ok" "unat nr < n \<Longrightarrow> x < 4096 \<Longrightarrow> ram_z_bajtow bajty nr x = blok_dysku d nr x"
proof -
  obtain cel' where W: "czytaj_sektory_od E d 0 BSP_START_LBA (n * 8) cel = (True, cel')"
      "\<And>k x. k < n * 8 \<Longrightarrow> x < 512 \<Longrightarrow> cel' (k * 512 + x) = d (BSP_START_LBA + of_nat k) x"
    using czytaj_sektory_od_wynik [OF E, of d 0 BSP_START_LBA "n * 8" cel] by auto
  then show ok using r by simp
  assume nr: "unat nr < n" and x: "x < 4096"
  have "unat nr * 8 + x div 512 < n * 8" using nr x by (simp add: div_less_iff_less_mult)
  from W(2) [OF this, of "x mod 512"] show "ram_z_bajtow bajty nr x = blok_dysku d nr x"
    using W(1) r unfolding ram_z_bajtow_def blok_dysku_def sektor_bajtu by simp
qed

end
