(* ===== verification/Psf_Montowanie.thy ===== *)
theory Psf_Montowanie
  imports Psf_Trwalosc
begin

section \<open>BSP2: mounting a disk that was written through\<close>

text \<open>
  Two RAM disks whose blocks agree in their 4096 bytes hold the same file system. A disk that holds
  the blocks of a consistent RAM disk is therefore mounted by \<open>inicjalizuj_psf\<close> with the file system
  it was written from.
\<close>

subsection \<open>What a block of 4096 bytes determines\<close>

definition zgodne_widoki :: "widok \<Rightarrow> widok \<Rightarrow> bool" where
  "zgodne_widoki v v' \<longleftrightarrow> vi_wezel v' = vi_wezel v \<and> vi_zajety v' = vi_zajety v \<and>
     (\<forall>b x. x < 4096 \<longrightarrow> vi_dane v' b x = vi_dane v b x)"

lemma wezel_z_zgodne: "(\<And>x. x < 4096 \<Longrightarrow> b x = b' x) \<Longrightarrow> wezel_z b = wezel_z b'"
  unfolding wezel_z_def by (intro wezel_indeksowy.equality) (auto simp: fun_eq_iff intro!: czytaj64_zgodne)

lemma superblok_z_zgodne: "(\<And>x. x < 512 \<Longrightarrow> b x = b' x) \<Longrightarrow> superblok_z b = superblok_z b'"
  unfolding superblok_z_def by (intro superblok.equality) (auto simp: fun_eq_iff intro!: czytaj64_zgodne)

lemma wpis_z_zgodne: "(\<And>x. x < 4096 \<Longrightarrow> b x = b' x) \<Longrightarrow> j < 64 \<Longrightarrow> wpis_z b j = wpis_z b' j"
  unfolding wpis_z_def by (intro wpis_katalogowy.equality) (auto simp: fun_eq_iff intro!: czytaj64_zgodne)

lemma lista_bloku_zgodna: "(\<And>x. x < 4096 \<Longrightarrow> b x = b' x) \<Longrightarrow> lista_bloku b = lista_bloku b'"
proof -
  assume b: "\<And>x. x < 4096 \<Longrightarrow> b x = b' x"
  have "zywe_wpisy b = zywe_wpisy b'" unfolding zywe_wpisy_def using wpis_z_zgodne [of b b', OF b] by (auto intro!: filter_cong)
  then show ?thesis unfolding lista_bloku_def napis_wpisu_def
    by (auto simp: zywe_wpisy_def wpis_z_zgodne [of b b', OF b])
qed

lemma zgodne_widoki_system:
  assumes "zgodne_widoki v v'"
  shows "typ_wezla v' = typ_wezla v" "wpisy v' = wpisy v" "zajmuje v' = zajmuje v" "system v' = system v"
proof -
  have w: "vi_wezel v' = vi_wezel v" and d: "\<And>b x. x < 4096 \<Longrightarrow> vi_dane v' b x = vi_dane v b x"
    using assms by (auto simp: zgodne_widoki_def)
  show t: "typ_wezla v' = typ_wezla v" unfolding typ_wezla_def w ..
  have "lista_bloku (vi_dane v' b) = lista_bloku (vi_dane v b)" for b by (rule lista_bloku_zgodna) (rule d)
  then show p: "wpisy v' = wpisy v" unfolding wpisy_def lista_pod_def w by (simp cong: if_cong)
  show "zajmuje v' = zajmuje v" unfolding zajmuje_def t w ..
  have "tresc_wezla (vi_dane v') x = tresc_wezla (vi_dane v) x" for x by (simp add: tresc_wezla_def d)
  then show "system v' = system v" unfolding system_def t p w by (simp cong: if_cong)
qed

lemma zgodne_widoki_ok:
  assumes "zgodne_widoki v v'"
  shows "spojny v' = spojny v" "pliki_ok v' = pliki_ok v" "do_przyjecia v' k = do_przyjecia v k"
proof -
  have w: "vi_wezel v' = vi_wezel v" "vi_zajety v' = vi_zajety v" using assms by (auto simp: zgodne_widoki_def)
  note z = zgodne_widoki_system [OF assms]
  have a: "wezly_ok v' = wezly_ok v" unfolding wezly_ok_def z w ..
  have b: "bloki_ok v' = bloki_ok v" unfolding bloki_ok_def z w ..
  have "katalog_ok v' = katalog_ok v" unfolding katalog_ok_def z w ..
  then have c: "katalogi_ok v' = katalogi_ok v" unfolding katalogi_ok_def z by simp
  show "spojny v' = spojny v" unfolding spojny_def a b c ..
  show p: "pliki_ok v' = pliki_ok v" unfolding pliki_ok_def z w ..
  have "wskazniki_zywe v' = wskazniki_zywe v" unfolding wskazniki_zywe_def z w ..
  then show "do_przyjecia v' k = do_przyjecia v k" unfolding do_przyjecia_def a p c z by simp
qed

text \<open>Two states with the same numbers and the same bytes.\<close>

definition ten_sam_dysk :: "psf \<Rightarrow> psf \<Rightarrow> bool" where
  "ten_sam_dysk s s' \<longleftrightarrow> ps_ram_dysk s' = ps_ram_dysk s \<and> ps_superblok s' = ps_superblok s \<and> ps_rozmiar s' = ps_rozmiar s \<and>
     ps_wezly s' = ps_wezly s \<and> ps_bloki s' = ps_bloki s \<and>
     (\<forall>nr x. unat nr < bloki_dysku s \<longrightarrow> x < 4096 \<longrightarrow> ps_ram s' nr x = ps_ram s nr x)"

lemma ten_sam_widok:
  assumes g: "geometria s" and t: "ten_sam_dysk s s'"
  shows "sb s' = sb s" "geometria s'" "zgodne_widoki (widok s) (widok s')"
proof -
  have p: "ps_ram_dysk s' = ps_ram_dysk s" "ps_superblok s' = ps_superblok s" "ps_rozmiar s' = ps_rozmiar s" "ps_wezly s' = ps_wezly s"
    "ps_bloki s' = ps_bloki s" and r: "\<And>nr x. unat nr < bloki_dysku s \<Longrightarrow> x < 4096 \<Longrightarrow> ps_ram s' nr x = ps_ram s nr x"
    using t by (auto simp: ten_sam_dysk_def)
  have zero: "unat (0 :: u64) < bloki_dysku s" using geometria_liczby(1-3) [OF g] by simp
  show b: "sb s' = sb s" unfolding sb_def by (rule superblok_z_zgodne, rule r [OF zero]) simp
  show g': "geometria s'" using g unfolding geometria_def b p .
  have n: "wezel_na_dysku s' i = wezel_na_dysku s i" "nr_wezla s' i = nr_wezla s i" "nr_danych s' i = nr_danych s i" for i
    unfolding wezel_na_dysku_def nr_wezla_def nr_danych_def b p by simp_all
  have w: "wezel s' (nr_wezla s i) = wezel s (nr_wezla s i)" if "wezel_na_dysku s i" for i
    unfolding wezel_def by (rule wezel_z_zgodne) (rule r [OF rozne_bloki(9) [OF g that]])
  have d: "ps_ram s' (nr_danych s c) x = ps_ram s (nr_danych s c) x" if "c < ps_bloki s" "x < 4096" for c x
    using unat_nr_danych(2) [OF g that(1)] that(2) by (intro r)
  have "czy_blok_danych_zajety s' c = czy_blok_danych_zajety s c" for c
    using rozne_bloki(10) [OF g, of c] r [of "nr_bitmapy c" "unat c div 8 mod 4096"]
    by (simp add: czy_blok_danych_zajety_def lokalizacja_geo [OF g] lokalizacja_geo [OF g'] p pobierz_blok_geo [OF g] pobierz_blok_geo [OF g'] b)
  then show "zgodne_widoki (widok s) (widok s')" using w d by (auto simp: zgodne_widoki_def widok_def n p fun_eq_iff)
qed

subsection \<open>The mount\<close>

lemma geometria_rozmiar: "geometria s \<Longrightarrow> 40960 \<le> unat (ps_rozmiar s)"
proof -
  assume "geometria s"
  then have "\<not> (sb_calkowity_rozmiar (sb s) < of_nat PSF_ROZMIAR_BLOKU * MINIMALNA_LICZBA_BLOKOW \<or> sb_calkowity_rozmiar (sb s) > ucast (ps_rozmiar s))"
    unfolding geometria_def wylicz_geometrie_def Let_def by (auto split: if_splits)
  then show ?thesis
    by (auto simp: word_less_nat_alt not_less MINIMALNA_LICZBA_BLOKOW_def unsigned_ucast_eq take_bit_nat_eq_self)
qed

text \<open>A disk as large as the RAM disk that holds its blocks.\<close>

definition zapisany :: "dysk \<Rightarrow> psf \<Rightarrow> bool" where
  "zapisany d s \<longleftrightarrow> (\<forall>nr x. unat nr < bloki_dysku s \<longrightarrow> x < 4096 \<longrightarrow> blok_dysku d nr x = ps_ram s nr x)"

lemma zgodny_zapisany: "zgodny s \<Longrightarrow> (\<And>nr. \<not> brudny s nr) \<Longrightarrow> zapisany (ps_dysk s) s"
  by (auto simp: zgodny_def zapisany_def na_dysku_def)

lemma wczytaj_zapisany:
  assumes E: "sterownik_odczytu E" and s: "bsp2_ok s" "typ_wezla (widok s) (korzen s) = TYP_KATALOG" and d: "zapisany (ps_dysk s0) s"
    and p: "ps_ram_dysk s0" "ps_rozmiar s0 = ps_rozmiar s" "ps_brudne s0 = []" "\<not> ps_caly s0"
  shows "\<exists>s'. wczytaj_istniejacy_bsp2 E s0 = (True, s') \<and> ten_sam_dysk s s' \<and> ps_gotowy s' \<and> zgodny s' \<and> ps_dysk s' = ps_dysk s0"
proof -
  let ?d = "ps_dysk s0"
  have g: "geometria s" and v: "spojny (widok s)" "pliki_ok (widok s)" using s by (auto simp: bsp2_ok_def)
  note L = geometria_liczby [OF g]
  have w: "wylicz_geometrie (sb s) (ps_rozmiar s) = Some (ps_wezly s, ps_bloki s)" using g by (simp add: geometria_def)
  have sek: "unat (sb_calkowity_rozmiar (sb s) div 512) = bloki_dysku s * 8" "sygnatura_bsp2 (sb s)"
    using geometria_superbloku(4,11) [OF w] by (simp_all add: unat_div)
  have zero: "unat (0 :: u64) < bloki_dysku s" using L(1-3) by simp
  obtain dane where r: "ot_czytaj E BSP_START_LBA 1 ?d = Some dane \<and> (\<forall>k < 1. \<forall>x < 512. dane (k * 512 + x) = ?d (BSP_START_LBA + of_nat k) x)"
    using E [unfolded sterownik_odczytu_def, THEN spec, THEN spec, THEN spec] ..
  define bufor where "bufor = kopiuj_pamiec (\<lambda>_. 0) 0 dane ROZMIAR_SEKTORA"
  have "bufor x = ps_ram s 0 x" if "x < 512" for x
  proof -
    have "bufor x = ?d BSP_START_LBA x" using conjunct2 [OF r, rule_format, of 0 x] that by (simp add: bufor_def kopiuj_pamiec_def)
    also have "\<dots> = blok_dysku ?d 0 x" using that by (simp add: blok_dysku_def)
    also have "\<dots> = ps_ram s 0 x" using d zero that unfolding zapisany_def by auto
    finally show ?thesis .
  qed
  then have k: "superblok_z bufor = sb s" unfolding sb_def by (rule superblok_z_zgodne)
  obtain ok bajty where c: "czytaj_sektory_od E ?d 0 BSP_START_LBA (bloki_dysku s * 8) (bajty_ram (ps_ram s0)) = (ok, bajty)" by force
  note C = wczytany_dysk [OF E c]
  define s4 where "s4 = s0\<lparr>ps_bufor_superbloku := bufor, ps_ahci := True, ps_ram := ram_z_bajtow bajty, ps_superblok := True,
      ps_wezly := ps_wezly s, ps_bloki := ps_bloki s, ps_ostatni := 0, ps_gotowy := True\<rparr>"
  have t: "ten_sam_dysk s s4" using C(2) d p g by (auto simp: ten_sam_dysk_def s4_def zapisany_def geometria_def)
  note W = ten_sam_widok [OF g t]
  have sb4: "sb (s0\<lparr>ps_bufor_superbloku := bufor, ps_ahci := True, ps_ram := ram_z_bajtow bajty, ps_superblok := True\<rparr>) = sb s"
    using W(1) by (simp add: sb_def s4_def)
  have wal: "waliduj_metadane s4"
    using waliduj_metadane_widok [OF W(2)] spojny_przyjety [OF v s(2)] zgodne_widoki_ok(3) [OF W(3)] W(1) by simp
  define s' where "s' = (wyczysc_liste_brudnych s4)\<lparr>ps_trwaly := True, ps_flush_ok := True\<rparr>"
  have code: "wczytaj_istniejacy_bsp2 E s0 = (True, s')"
    unfolding wczytaj_istniejacy_bsp2_def Let_def using p conjunct1 [OF r] L(3,5) wal
    by (auto simp: bufor_def [symmetric] k sek w czytaj_sektory_porcjami_def c C(1) sb4 s'_def s4_def)
  have "ps_gotowy s'" "ps_dysk s' = ?d" "ps_ahci s'" "ps_trwaly s'" "ps_ram s' = ram_z_bajtow bajty"
    by (simp_all add: s'_def s4_def wyczysc_liste_brudnych_def)
  moreover have "ten_sam_dysk s s'" using t by (simp add: ten_sam_dysk_def s'_def wyczysc_liste_brudnych_def)
  moreover have "bloki_dysku s' = bloki_dysku s" using ten_sam_widok(1) [OF g calculation(6)] by simp
  ultimately show ?thesis using code C(2) by (intro exI [of _ s']) (auto simp: zgodny_def na_dysku_def)
qed

lemma inicjalizuj_zapisany:
  assumes E: "sterownik_odczytu E" and s: "bsp2_ok s" "typ_wezla (widok s) (korzen s) = TYP_KATALOG" and d: "zapisany (ps_dysk s0) s"
  shows "bsp2_ok (inicjalizuj_psf E s0 True (ps_rozmiar s)) \<and>
    pliki_i_katalogi (inicjalizuj_psf E s0 True (ps_rozmiar s)) = pliki_i_katalogi s \<and>
    korzen (inicjalizuj_psf E s0 True (ps_rozmiar s)) = korzen s \<and> zgodny (inicjalizuj_psf E s0 True (ps_rozmiar s))"
proof -
  let ?s' = "inicjalizuj_psf E s0 True (ps_rozmiar s)"
  define s1 where "s1 = wyczysc_liste_brudnych (s0\<lparr>ps_ram_dysk := True, ps_rozmiar := ps_rozmiar s, ps_superblok := False,
      ps_wezly := 0, ps_bloki := 0, ps_ostatni := 0, ps_gotowy := False, ps_ahci := False, ps_trwaly := False, ps_flush_ok := True\<rparr>)"
  have p: "ps_ram_dysk s1" "ps_rozmiar s1 = ps_rozmiar s" "ps_brudne s1 = []" "\<not> ps_caly s1" "ps_dysk s1 = ps_dysk s0"
    by (simp_all add: s1_def wyczysc_liste_brudnych_def)
  have g: "geometria s" and v: "spojny (widok s)" "pliki_ok (widok s)" using s by (auto simp: bsp2_ok_def)
  have "zapisany (ps_dysk s1) s" using d p(5) by simp
  from wczytaj_zapisany [OF E s this p(1-4)] obtain s' where w: "wczytaj_istniejacy_bsp2 E s1 = (True, s')"
      and t: "ten_sam_dysk s s'" "ps_gotowy s'" "zgodny s'" by blast
  have "40960 \<le> unat (ps_rozmiar s)" using geometria_rozmiar [OF g] .
  then have r: "\<not> (ucast (ps_rozmiar s) :: u64) < of_nat PSF_ROZMIAR_BLOKU * MINIMALNA_LICZBA_BLOKOW"
    by (simp add: word_less_nat_alt MINIMALNA_LICZBA_BLOKOW_def unsigned_ucast_eq take_bit_nat_eq_self)
  have "?s' = s'" using r w by (simp add: inicjalizuj_psf_def Let_def s1_def parametry_formatu_obslugiwane_def)
  moreover note W = ten_sam_widok [OF g t(1)]
  moreover have "bsp2_ok s'" using W(2) t(2) zgodne_widoki_ok(1,2) [OF W(3)] v by (simp add: bsp2_ok_def)
  ultimately show ?thesis using t(3) zgodne_widoki_system(4) [OF W(3)] W(1) by simp
qed

end
