(* ===== verification/Psf_Twierdzenia.thy ===== *)
theory Psf_Twierdzenia
  imports Psf_Montowanie
begin

section \<open>BSP2: the properties\<close>

text \<open>
  The operations that change the file system as commands, the states they reach from a formatted or
  a mounted disk, the abstract steps they make, and the properties of the manifest.
\<close>

subsection \<open>Commands and reachable states\<close>

datatype polecenie_psf =
    UtworzKatalog "tekst option" | UtworzPlik "tekst option"
  | UtworzKatalogZPzb "tekst option" u8 | UtworzPlikZPzb "tekst option" u8
  | ZapewnijKatalog "tekst option" | UsunTwor "tekst option"
  | ZmienNazweTworu "tekst option" "tekst option" | PrzeniesTwor "tekst option" "tekst option"
  | ZapiszDoPliku "tekst option" "(nat \<Rightarrow> u8) option" u32 | ZapiszZmiany

fun wykonaj_psf :: "otoczenie \<Rightarrow> psf \<Rightarrow> polecenie_psf \<Rightarrow> bool \<times> psf" where
  "wykonaj_psf E s (UtworzKatalog p) = utworz_katalog E s p"
| "wykonaj_psf E s (UtworzPlik p) = utworz_plik E s p"
| "wykonaj_psf E s (UtworzKatalogZPzb p z) = utworz_katalog_z_pzb E s p z"
| "wykonaj_psf E s (UtworzPlikZPzb p z) = utworz_plik_z_pzb E s p z"
| "wykonaj_psf E s (ZapewnijKatalog p) = zapewnij_katalog E s p"
| "wykonaj_psf E s (UsunTwor p) = usun_twor E s p"
| "wykonaj_psf E s (ZmienNazweTworu p n) = zmien_nazwe_tworu E s p n"
| "wykonaj_psf E s (PrzeniesTwor p f) = przenies_twor E s p f"
| "wykonaj_psf E s (ZapiszDoPliku p dane dl) = zapisz_do_pliku E s p dane dl"
| "wykonaj_psf E s ZapiszZmiany = bsp_zapisz_zmiany E s"

inductive stan_psf :: "otoczenie \<Rightarrow> psf \<Rightarrow> bool" for E where
  po_formacie: "sformatuj_ram_dysk E s z = (True, s') \<Longrightarrow> stan_psf E s'"
| po_poleceniu: "stan_psf E s \<Longrightarrow> wykonaj_psf E s c = (b, s') \<Longrightarrow> stan_psf E s'"
| po_montazu: "stan_psf E s \<Longrightarrow> bsp_zapisz_zmiany E s = (True, s') \<Longrightarrow> ps_dysk s0 = ps_dysk s' \<Longrightarrow>
    stan_psf E (inicjalizuj_psf E s0 True (ps_rozmiar s'))"

text \<open>The abstract steps.\<close>

inductive a_krok :: "u64 \<Rightarrow> system_plikow \<Rightarrow> system_plikow \<Rightarrow> bool" for k A where
  a_nic: "a_krok k A A"
| a_nowy: "a_rodzic A k p = Some (d, n) \<Longrightarrow> sp_kat A d n = None \<Longrightarrow> sp_typ A i = TYP_WOLNY \<Longrightarrow>
    t \<in> {TYP_PLIK, TYP_KATALOG} \<Longrightarrow> a_krok k A (a_utworz A d n i t)"
| a_bez: "a_cel A k p = Some (d, n, c) \<Longrightarrow> c \<noteq> k \<Longrightarrow> sp_kat A c = Map.empty \<Longrightarrow> a_krok k A (a_usun A d n c)"
| a_nazwa: "a_cel A k p = Some (d, n, c) \<Longrightarrow> nazwa_ok n' \<Longrightarrow> n' = n \<or> sp_kat A d n' = None \<Longrightarrow>
    a_krok k A (a_zmien_nazwe A d n n' c)"
| a_przeniesiony: "a_cel A k p = Some (d, n, c) \<Longrightarrow> a_wezel A k f = Some d' \<Longrightarrow> sp_typ A d' = TYP_KATALOG \<Longrightarrow> d \<noteq> d' \<Longrightarrow>
    sp_kat A d' n = None \<Longrightarrow> \<not> osiagalny (sp_kat A) c d' \<Longrightarrow> a_krok k A (a_przenies A d d' n c)"
| a_zapisany: "a_wezel A k p = Some i \<Longrightarrow> sp_typ A i = TYP_PLIK \<Longrightarrow> length dane \<le> 490 * 4096 \<Longrightarrow> a_krok k A (a_zapisz A i dane)"

text \<open>In a state of the invariant no entry names a free node.\<close>

definition bez_wiszacych :: "system_plikow \<Rightarrow> bool" where
  "bez_wiszacych A \<longleftrightarrow> (\<forall>d n c. sp_kat A d n = Some c \<longrightarrow> sp_typ A c \<noteq> TYP_WOLNY)"

lemma spojny_bez_wiszacych: "spojny v \<Longrightarrow> bez_wiszacych (system v)"
  using wpisy_nazwy_ok(5) unfolding bez_wiszacych_def by auto

lemma a_krok_drzewo:
  assumes "a_krok k A A'" "drzewo A k" "bez_wiszacych A"
  shows "drzewo A' k"
  using assms
proof (cases rule: a_krok.cases)
  case (a_nowy p d n i t)
  have w: "sp_kat A e m \<noteq> Some i" for e m using assms(3) a_nowy(4) unfolding bez_wiszacych_def by blast
  show ?thesis unfolding a_nowy(1) by (rule drzewo_utworz [OF assms(2) a_rodzic_ok(1) [OF a_nowy(2)] a_nowy(3,4) w])
next
  case (a_bez p d n c)
  then show ?thesis using drzewo_usun [OF assms(2)] a_cel_rodzic by blast
next
  case (a_nazwa p d n c n')
  then show ?thesis using drzewo_zmien_nazwe [OF assms(2)] a_cel_rodzic by blast
next
  case (a_przeniesiony p d n c f d')
  then show ?thesis using drzewo_przenies [OF assms(2)] a_cel_rodzic by blast
qed simp_all

subsection \<open>What a command does\<close>

definition symulowany :: "otoczenie \<Rightarrow> psf \<Rightarrow> psf \<Rightarrow> bool" where
  "symulowany E s s' \<longleftrightarrow> (\<exists>A. krok_api E s s' A \<and> a_krok (korzen s) (pliki_i_katalogi s) A)"

lemma symulowany_bez: "bsp2_ok s \<Longrightarrow> symulowany E s s" "bsp2_ok s \<Longrightarrow> symulowany E s (snd (bsp_zapisz_zmiany E s))"
  unfolding symulowany_def using krok_apiI [OF krok_bez] a_nic by blast+

lemma symulowany_utworz:
  assumes ok: "bsp2_ok s" and t: "typ \<in> {TYP_PLIK, TYP_KATALOG}" and u: "utworz_twor E s p typ pzb = (b, s')"
  shows "symulowany E s s'"
proof -
  note k = utworz_twor_krok [OF ok t, where E = E and p = p and pzb = pzb, unfolded u prod.case]
  show ?thesis
  proof (cases b)
    case True
    then obtain q d n i where "a_rodzic (pliki_i_katalogi s) (korzen s) q = Some (d, n)" "sp_kat (pliki_i_katalogi s) d n = None"
      "sp_typ (pliki_i_katalogi s) i = TYP_WOLNY" "krok_api E s s' (a_utworz (pliki_i_katalogi s) d n i typ)" using k by auto
    then show ?thesis unfolding symulowany_def using a_nowy t by blast
  next
    case False
    then show ?thesis unfolding symulowany_def using k a_nic by auto
  qed
qed

lemma symulowany_usun:
  assumes ok: "bsp2_ok s" and dr: "drzewo (pliki_i_katalogi s) (korzen s)" and u: "usun_twor E s p = (b, s')"
  shows "symulowany E s s'"
proof (cases p)
  case None
  then show ?thesis using u symulowany_bez(1) [OF ok] by (simp add: usun_twor_def)
next
  case (Some q)
  have jn: "jedna_nazwa (pliki_i_katalogi s)" using dr by (simp add: drzewo_def)
  note k = usun_twor_krok [OF ok jn, where E = E and p = q, folded Some, unfolded u]
  show ?thesis
  proof (cases "a_cel (pliki_i_katalogi s) (korzen s) q")
    case None
    then show ?thesis using k symulowany_bez(1) [OF ok] by simp
  next
    case c: (Some x)
    obtain d n c where x: "x = (d, n, c)" by (cases x) auto
    show ?thesis
    proof (cases "c = korzen s \<or> sp_kat (pliki_i_katalogi s) c \<noteq> Map.empty")
      case True
      then show ?thesis using k c x symulowany_bez(1) [OF ok] by simp
    next
      case False
      then have "krok_api E s s' (a_usun (pliki_i_katalogi s) d n c)" using k c x by auto
      moreover have "a_krok (korzen s) (pliki_i_katalogi s) (a_usun (pliki_i_katalogi s) d n c)"
        by (rule a_bez) (use c x False in simp_all)
      ultimately show ?thesis unfolding symulowany_def by blast
    qed
  qed
qed

lemma symulowany_nazwa:
  assumes ok: "bsp2_ok s" and u: "zmien_nazwe_tworu E s p n' = (b, s')"
  shows "symulowany E s s'"
proof (cases "p = None \<or> n' = None")
  case True
  then show ?thesis using u symulowany_bez(1) [OF ok] by (auto simp: zmien_nazwe_tworu_def split: option.splits)
next
  case False
  then obtain q m where qm: "p = Some q" "n' = Some m" by auto
  note k = zmien_nazwe_krok [OF ok, where E = E and p = q and nowa = m, folded qm, unfolded u]
  show ?thesis
  proof (cases "a_cel (pliki_i_katalogi s) (korzen s) q")
    case None
    then show ?thesis using k symulowany_bez(1) [OF ok] by simp
  next
    case c: (Some x)
    obtain d n c where x: "x = (d, n, c)" by (cases x) auto
    show ?thesis
    proof (cases "nazwa_ok (znaki_nazwy m) \<and> (znaki_nazwy m = n \<or> sp_kat (pliki_i_katalogi s) d (znaki_nazwy m) = None)")
      case False
      then show ?thesis using k c x symulowany_bez(1) [OF ok] by (simp split: if_splits)
    next
      case True
      then have "krok_api E s s' (a_zmien_nazwe (pliki_i_katalogi s) d n (znaki_nazwy m) c)" using k c x by auto
      moreover have "a_krok (korzen s) (pliki_i_katalogi s) (a_zmien_nazwe (pliki_i_katalogi s) d n (znaki_nazwy m) c)"
        by (rule a_nazwa) (use c x True in simp_all)
      ultimately show ?thesis unfolding symulowany_def by blast
    qed
  qed
qed

lemma symulowany_przenies:
  assumes ok: "bsp2_ok s" and dr: "drzewo (pliki_i_katalogi s) (korzen s)" and u: "przenies_twor E s p f = (b, s')"
  shows "symulowany E s s'"
proof (cases "p = None \<or> f = None")
  case True
  then show ?thesis using u symulowany_bez(1) [OF ok] by (auto simp: przenies_twor_def split: option.splits)
next
  case False
  then obtain q m where qm: "p = Some q" "f = Some m" by auto
  note k = przenies_krok [OF ok dr, where E = E and p = q and f = m, folded qm, unfolded u]
  show ?thesis
  proof (cases "a_cel (pliki_i_katalogi s) (korzen s) q = None \<or> a_wezel (pliki_i_katalogi s) (korzen s) m = None")
    case True
    then show ?thesis using k symulowany_bez(1) [OF ok] by (auto split: option.splits)
  next
    case False
    then obtain d n c d' where c: "a_cel (pliki_i_katalogi s) (korzen s) q = Some (d, n, c)" "a_wezel (pliki_i_katalogi s) (korzen s) m = Some d'"
      by auto
    show ?thesis
    proof (cases "s' = s")
      case False
      then have w: "sp_typ (pliki_i_katalogi s) d' = TYP_KATALOG \<and> d \<noteq> d' \<and> sp_kat (pliki_i_katalogi s) d' n = None \<and>
          \<not> osiagalny (sp_kat (pliki_i_katalogi s)) c d'" and kr: "krok_api E s s' (a_przenies (pliki_i_katalogi s) d d' n c)"
        using k c by (auto split: if_splits)
      have "a_krok (korzen s) (pliki_i_katalogi s) (a_przenies (pliki_i_katalogi s) d d' n c)"
        by (rule a_przeniesiony [OF c]) (use w in blast)+
      then show ?thesis unfolding symulowany_def using kr by blast
    qed (use symulowany_bez(1) [OF ok] in simp)
  qed
qed

lemma symulowany_zapisz:
  assumes ok: "bsp2_ok s" and u: "zapisz_do_pliku E s p dane dl = (b, s')"
  shows "symulowany E s s'"
proof (cases p)
  case None
  then show ?thesis using u symulowany_bez(1) [OF ok] by (simp add: zapisz_do_pliku_def)
next
  case (Some q)
  let ?A = "pliki_i_katalogi s"
  note k = zapisz_do_pliku_krok [OF ok, where E = E and p = q and dane = dane and dl = dl, folded Some, unfolded u]
  show ?thesis
  proof (cases "a_wezel ?A (korzen s) q")
    case None
    then show ?thesis using k symulowany_bez(1) [OF ok] by simp
  next
    case i: (Some i)
    show ?thesis
    proof (cases "sp_typ ?A i \<noteq> TYP_PLIK \<or> dl \<noteq> 0 \<and> dane = None \<or> 490 * 4096 < unat dl")
      case True
      then show ?thesis using k [unfolded i option.case if_P [OF True]] symulowany_bez(1) [OF ok] by simp
    next
      case False
      let ?B = "a_zapisz ?A i (map (the dane) [0 ..< unat dl])"
      from k [unfolded i option.case if_not_P [OF False]] have "krok_api E s s' ?B \<or> krok_api E s s' ?A"
        using krok_apiI by (metis prod.inject snd_conv)
      moreover have "a_krok (korzen s) ?A ?B" by (rule a_zapisany [OF i]) (use False in simp_all)
      ultimately show ?thesis unfolding symulowany_def using a_nic by blast
    qed
  qed
qed

lemma symulowany_polecenie:
  assumes ok: "bsp2_ok s" and dr: "drzewo (pliki_i_katalogi s) (korzen s)" and w: "wykonaj_psf E s c = (b, s')"
  shows "symulowany E s s'"
proof -
  note utworz = symulowany_utworz [OF ok] and bez = symulowany_bez [OF ok]
  show ?thesis
  proof (cases c)
    case (UsunTwor p)
    then show ?thesis using symulowany_usun [OF ok dr] w by simp
  next
    case (ZmienNazweTworu p n)
    then show ?thesis using symulowany_nazwa [OF ok] w by simp
  next
    case (PrzeniesTwor p f)
    then show ?thesis using symulowany_przenies [OF ok dr] w by simp
  next
    case (ZapiszDoPliku p dane dl)
    then show ?thesis using symulowany_zapisz [OF ok] w by simp
  next
    case ZapiszZmiany
    then show ?thesis using bez(2) [of E] w by simp
  qed (use w bez(1) in \<open>auto simp: utworz_katalog_def utworz_plik_def utworz_katalog_z_pzb_def utworz_plik_z_pzb_def zapewnij_katalog_def
         split: if_splits intro: utworz\<close>)
qed

subsection \<open>The invariant of the reachable states\<close>

definition psf_sprawny :: "psf \<Rightarrow> bool" where
  "psf_sprawny s \<longleftrightarrow> bsp2_ok s \<and> drzewo (pliki_i_katalogi s) (korzen s)"

lemma sprawny_polecenie:
  assumes "psf_sprawny s" "symulowany E s s'"
  shows "psf_sprawny s'"
proof -
  obtain A where A: "krok_api E s s' A" "a_krok (korzen s) (pliki_i_katalogi s) A" using assms(2) by (auto simp: symulowany_def)
  have "bez_wiszacych (pliki_i_katalogi s)" using assms(1) spojny_bez_wiszacych by (auto simp: psf_sprawny_def bsp2_ok_def)
  then have "drzewo A (korzen s)" using a_krok_drzewo [OF A(2)] assms(1) by (simp add: psf_sprawny_def)
  then show ?thesis using krok_api_ok [OF A(1)] krok_api_korzen [OF A(1)] by (simp add: psf_sprawny_def)
qed

lemma sprawny_po_formacie:
  assumes f: "sformatuj_ram_dysk E s z = (True, s')"
  shows "bsp2_ok s' \<and> pliki_i_katalogi s' = pusty_system \<and> korzen s' = 1"
proof -
  have rd: "ps_ram_dysk s" using f by (auto simp: sformatuj_ram_dysk_def split: if_splits)
  let ?R = "(ucast (ps_rozmiar s) div of_nat PSF_ROZMIAR_BLOKU) * of_nat PSF_ROZMIAR_BLOKU :: u64"
  have "\<not> ?R < of_nat PSF_ROZMIAR_BLOKU * MINIMALNA_LICZBA_BLOKOW"
    using f by (auto simp: sformatuj_ram_dysk_def Let_def split: if_splits)
  moreover have "?R \<le> ucast (ps_rozmiar s)" by (rule word_div_mult_le)
  ultimately have "of_nat PSF_ROZMIAR_BLOKU * MINIMALNA_LICZBA_BLOKOW \<le> (ucast (ps_rozmiar s) :: u64)" by simp
  then have "40960 \<le> unat (ps_rozmiar s)"
    by (simp add: word_le_nat_alt MINIMALNA_LICZBA_BLOKOW_def unsigned_ucast_eq take_bit_nat_eq_self)
  from sformatuj_krok [OF rd this, of E z] show ?thesis using f by auto
qed









subsection \<open>A disk for the witnesses\<close>

text \<open>A driver that serves at most 32 sectors at a time, as AHCI does, and a zeroed RAM disk of ten blocks.\<close>

definition sterownik_wzorcowy :: otoczenie where
  "sterownik_wzorcowy = \<lparr>ot_zapisz = (\<lambda>lba n dane d. if n \<le> AHCI_MAX_SEKTOROW_NA_OPERACJE
       then (True, \<lambda>sek. if unat (sek - lba) < n then (\<lambda>x. dane (unat (sek - lba) * 512 + x)) else d sek) else (False, d)),
     ot_czytaj = (\<lambda>lba n d. Some (\<lambda>i. d (lba + of_nat (i div 512)) (i mod 512))), ot_czas = None\<rparr>"



definition dysk_probny :: psf where
  "dysk_probny = \<lparr>ps_ram = (\<lambda>_ _. 0), ps_ram_dysk = True, ps_rozmiar = 40960, ps_superblok = False, ps_wezly = 0, ps_bloki = 0,
     ps_ostatni = 0, ps_gotowy = False, ps_ahci = True, ps_trwaly = False, ps_flush_ok = True, ps_brudne = [], ps_caly = False,
     ps_bufor_superbloku = (\<lambda>_. 0), ps_bufor_wymiany = (\<lambda>_. 0), ps_dysk = (\<lambda>_ _. 0)\<rparr>"

definition psf_probny :: psf where
  "psf_probny = snd (sformatuj_ram_dysk sterownik_wzorcowy dysk_probny True)"

lemma probny_format: "sformatuj_ram_dysk sterownik_wzorcowy dysk_probny True = (True, psf_probny)"
  using sformatuj_krok [of dysk_probny sterownik_wzorcowy True] by (auto simp: dysk_probny_def psf_probny_def)




lemma naglowek_ahci:
  "ps_ahci ((zmien_blok (s\<lparr>ps_ram := r, ps_superblok := True\<rparr>) 0 f)\<lparr>ps_wezly := n, ps_bloki := m\<rparr>) = ps_ahci s"
  by (simp add: zmien_blok_def)



lemma probny:
  "stan_psf sterownik_wzorcowy psf_probny" "bsp2_ok psf_probny" "pliki_i_katalogi psf_probny = pusty_system" "korzen psf_probny = 1"
  "drzewo (pliki_i_katalogi psf_probny) (korzen psf_probny)" "geometria psf_probny"
  using po_formacie [OF probny_format] sprawny_po_formacie [OF probny_format] pusty_drzewo by (auto simp: bsp2_ok_def)

definition sciezka_probna :: tekst where
  "sciezka_probna = (\<lambda>_. 0)(0 := 0x2F, 1 := 0x61)"

lemma pierwsze_trzy: "\<exists>xs. [0 ..< 512] = 0 # 1 # 2 # (xs :: nat list)"
proof -
  have "[0 ..< n + 3] = 0 # 1 # 2 # map (\<lambda>i. i + 3) [0 ..< n]" for n
    using upt_add_eq_append [of 0 3 n] by (simp add: map_add_upt add.commute upt_rec [of _ 3])
  from this [of 509] show ?thesis by (intro exI) (simp only: numeral_plus_numeral arith_simps)
qed

lemma probna_sciezka:
  "bezpieczna_sciezka sciezka_probna" "segmenty_sciezki sciezka_probna = [[0x61]]" "sciezka_probna 1 \<noteq> 0"
proof -
  obtain xs where u: "[0 ..< 512] = 0 # 1 # 2 # (xs :: nat list)" using pierwsze_trzy by blast
  have n: "napis_sciezki sciezka_probna = [0x2F, 0x61]" unfolding napis_sciezki_def u by (simp add: sciezka_probna_def)
  then show "segmenty_sciezki sciezka_probna = [[0x61]]" by (simp add: segmenty_sciezki_def segmenty.simps)
  have "zakonczony_string_w_limicie sciezka_probna 512 = Some 2"
    unfolding zakonczony_string_w_limicie_def u by (simp add: sciezka_probna_def)
  then show "bezpieczna_sciezka sciezka_probna" "sciezka_probna 1 \<noteq> 0"
    by (simp_all add: bezpieczna_sciezka_def sciezka_probna_def upt_rec)
qed

subsection \<open>Lemmas the properties rest on\<close>

lemma symulacja:
  assumes "psf_sprawny s" "wykonaj_psf E s c = (b, s')"
  shows "psf_sprawny s' \<and> korzen s' = korzen s \<and> a_krok (korzen s) (pliki_i_katalogi s) (pliki_i_katalogi s')"
proof -
  have sy: "symulowany E s s'" using symulowany_polecenie assms by (auto simp: psf_sprawny_def)
  then obtain A where A: "krok_api E s s' A" "a_krok (korzen s) (pliki_i_katalogi s) A" by (auto simp: symulowany_def)
  show ?thesis using sprawny_polecenie [OF assms(1) sy] A krok_api_ok [OF A(1)] krok_api_korzen [OF A(1)] by simp
qed


text \<open>What a write leaves: nothing new, or the data in the file.\<close>

lemma zapis_tresci:
  assumes ok: "bsp2_ok s" and z: "zapisz_do_pliku E s (Some p) (Some dane) dl = (b, s')"
  shows "(\<not> b \<and> bsp2_ok s' \<and> pliki_i_katalogi s' = pliki_i_katalogi s \<and> (case a_wezel (pliki_i_katalogi s) (korzen s) p of None \<Rightarrow> True
      | Some i \<Rightarrow> sp_typ (pliki_i_katalogi s) i \<noteq> TYP_PLIK \<or> 490 * 4096 < unat dl \<or> card (wolne_bloki s) < bloki_rozmiaru (unat dl))) \<or>
    (\<exists>i. a_wezel (pliki_i_katalogi s) (korzen s) p = Some i \<and> sp_typ (pliki_i_katalogi s) i = TYP_PLIK \<and> bsp2_ok s' \<and> korzen s' = korzen s \<and>
      pliki_i_katalogi s' = a_zapisz (pliki_i_katalogi s) i (map dane [0 ..< unat dl]))"
proof (cases "a_wezel (pliki_i_katalogi s) (korzen s) p")
  case None
  then show ?thesis using zapisz_do_pliku_krok [OF ok, where E = E and p = p and dane = "Some dane" and dl = dl] z ok by auto
next
  case (Some i)
  let ?A = "pliki_i_katalogi s"
  note k = zapisz_do_pliku_krok [OF ok, where E = E and p = p and dane = "Some dane" and dl = dl, unfolded Some option.case z]
  show ?thesis
  proof (cases "sp_typ ?A i \<noteq> TYP_PLIK \<or> dl \<noteq> 0 \<and> Some dane = None \<or> 490 * 4096 < unat dl")
    case True
    then show ?thesis using k [unfolded if_P [OF True]] ok Some by auto
  next
    case False
    define B where "B = filter (\<lambda>k. w_wskazniki (vi_wezel (widok s) i) k = BARK_BLOKU) [0 ..< bloki_rozmiaru (unat dl)]"
    have B: "length B \<le> bloki_rozmiaru (unat dl)" using length_filter_le [of _ "[0 ..< bloki_rozmiaru (unat dl)]"] by (simp add: B_def)
    from k [unfolded if_not_P [OF False], folded B_def] show ?thesis
    proof (elim disjE exE conjE)
      fix s1 assume w: "(b, s') = bsp_zapisz_zmiany E s1" and kr: "krok s s1 (a_zapisz ?A i (map (the (Some dane)) [0 ..< unat dl]))"
      have "krok_api E s s' (a_zapisz ?A i (map dane [0 ..< unat dl]))"
        using krok_apiI(2) [OF kr, of E] w [symmetric] by simp
      then show ?thesis using krok_api_ok krok_api_korzen Some False by blast
    next
      fix s1 assume "(b, s') = (False, s1)" and kr: "krok s s1 ?A" and c: "card (wolne_bloki s) < length B"
      then show ?thesis using krok_ok [OF kr] B Some by auto
    qed
  qed
qed

lemma odczyt_po_zapisie:
  assumes ok: "bsp2_ok s'" and p: "a_wezel A k p = Some i" "sp_typ A i = TYP_PLIK"
    and s': "pliki_i_katalogi s' = a_zapisz A i dane" "korzen s' = k"
  shows "czytaj_z_pliku s' (Some p) (Some bufor) maks = (True, Some (\<lambda>x. if x < length dane \<and> x < unat maks then dane ! x else bufor x))"
proof -
  have "a_wezel (pliki_i_katalogi s') (korzen s') p = Some i" "sp_typ (pliki_i_katalogi s') i = TYP_PLIK"
    "sp_tresc (pliki_i_katalogi s') i = dane" unfolding s' using p by (auto simp: a_wezel_def a_zapisz_def split: if_splits)
  then show ?thesis using czytaj_z_pliku_tresc [OF ok, of p bufor maks] by (simp cong: if_cong)
qed

lemma inny_po_zapisie:
  assumes ok: "bsp2_ok s" "bsp2_ok s'" and q: "a_wezel (pliki_i_katalogi s) (korzen s) q \<noteq> Some i"
    and s': "pliki_i_katalogi s' = a_zapisz (pliki_i_katalogi s) i dane" "korzen s' = korzen s"
  shows "czytaj_z_pliku s' (Some q) (Some bufor) maks = czytaj_z_pliku s (Some q) (Some bufor) maks"
proof -
  have "a_wezel (pliki_i_katalogi s') (korzen s') q = a_wezel (pliki_i_katalogi s) (korzen s) q"
    unfolding s' by (simp add: a_wezel_def a_zapisz_def)
  then show ?thesis using q unfolding czytaj_z_pliku_tresc [OF ok(1)] czytaj_z_pliku_tresc [OF ok(2)] s'(1)
    by (cases "a_wezel (pliki_i_katalogi s) (korzen s) q") (auto simp: a_zapisz_def)
qed

lemma maly_ram_dysk:
  "unat (r :: u32) < 40960 \<Longrightarrow> (ucast r div of_nat PSF_ROZMIAR_BLOKU) * of_nat PSF_ROZMIAR_BLOKU < (of_nat PSF_ROZMIAR_BLOKU * MINIMALNA_LICZBA_BLOKOW :: u64)"
proof -
  assume r: "unat r < 40960"
  have "unat ((ucast r div of_nat PSF_ROZMIAR_BLOKU) * of_nat PSF_ROZMIAR_BLOKU :: u64) \<le> unat (ucast r :: u64)"
    using word_div_mult_le [of "ucast r :: u64" "of_nat PSF_ROZMIAR_BLOKU"] by (simp add: word_le_nat_alt)
  also have "\<dots> = unat r" by (simp add: unsigned_ucast_eq take_bit_nat_eq_self)
  finally show ?thesis using r by (simp add: word_less_nat_alt MINIMALNA_LICZBA_BLOKOW_def)
qed

subsection \<open>The properties\<close>








text \<open>
  C33. Resolving a path ends: the walk of \<open>rozwiaz_sciezke\<close> needs no more than 512 rounds, so that a larger
  bound changes nothing, and for a legal path (absolute, below 512 bytes, no empty name) it gives the
  node that walking the directories name by name gives, and 0 when a name is missing, is not legal or
  leads through something other than a directory; for any other path it gives 0.
\<close>

theorem rozwiazanie_sciezki:
  assumes "bsp2_ok s"
  shows "fst (rozwiaz_sciezke s p nd False) = (case a_wezel (pliki_i_katalogi s) (korzen s) p of None \<Rightarrow> 0 | Some c \<Rightarrow> c) \<and>
    (bezpieczna_sciezka p \<and> p 1 \<noteq> 0 \<longrightarrow> (\<forall>n \<ge> 512. rozwiaz_od n s p nd False 1 (korzen s) = rozwiaz_sciezke s p nd False))"
proof -
  have g: "geometria s" "spojny (widok s)" "ps_gotowy s" using assms by (auto simp: bsp2_ok_def)
  have "rozwiaz_od n s p nd False 1 (korzen s) = rozwiaz_sciezke s p nd False"
    if b: "bezpieczna_sciezka p" "p 1 \<noteq> 0" and n: "512 \<le> n" for n
  proof -
    note N = bezpieczna_napis [OF b(1)]
    have l: "1 \<le> length (napis_sciezki p)" using N(3) by (metis One_nat_def Suc_leI length_greater_0_conv list.distinct(1))
    have "length (napis_sciezki p) - 1 < n" using napis_znaki(1) [OF N(1)] n by linarith
    from rozwiaz_od_wezel [OF g(1,2) N(1) l this, of nd "korzen s"] show ?thesis
      unfolding rozwiaz_wezel [OF g b(1)] using segmenty_bezpiecznej [OF b(1)] b(2) by simp
  qed
  then show ?thesis using rozwiaz_a(1) [OF assms] by blast
qed

theorem rozwiazanie_sciezki_witness:
  "rozwiaz_od 1000 psf_probny sciezka_probna None False 1 1 = rozwiaz_sciezke psf_probny sciezka_probna None False \<and>
   fst (rozwiaz_sciezke psf_probny sciezka_probna None False) = 0"
  using rozwiazanie_sciezki [OF probny(2), of sciezka_probna None] probny(3,4) probna_sciezka
  by (simp add: a_wezel_def pusty_system_def)

text \<open>
  C34. \<open>usun_twor\<close> removes the named node when the path leads to one that is not the root and not a
  directory with entries; it then frees the node and its name, and nothing else of the file system
  changes. Otherwise it refuses and changes nothing at all.
\<close>

theorem usuniecie_tworu:
  assumes "bsp2_ok s" "drzewo (pliki_i_katalogi s) (korzen s)"
  shows "case a_cel (pliki_i_katalogi s) (korzen s) p of None \<Rightarrow> usun_twor E s (Some p) = (False, s)
    | Some (d, n, c) \<Rightarrow> if c = korzen s \<or> sp_kat (pliki_i_katalogi s) c \<noteq> Map.empty then usun_twor E s (Some p) = (False, s)
        else \<exists>s'. usun_twor E s (Some p) = (True, s') \<and> bsp2_ok s' \<and> pliki_i_katalogi s' = a_usun (pliki_i_katalogi s) d n c"
proof -
  have jn: "jedna_nazwa (pliki_i_katalogi s)" using assms(2) by (simp add: drzewo_def)
  show ?thesis using usun_twor_krok [OF assms(1) jn, where E = E and p = p] krok_api_ok
    by (auto split: option.splits prod.splits if_splits)
qed

theorem usuniecie_tworu_witness:
  "usun_twor sterownik_wzorcowy psf_probny (Some sciezka_probna) = (False, psf_probny)"
  using usuniecie_tworu [OF probny(2,5), where p = sciezka_probna and E = sterownik_wzorcowy] probny(3,4) probna_sciezka
  by (simp add: a_cel_def a_rodzic_def rodzic_sciezki_def pusty_system_def split: option.splits if_splits)

text \<open>
  C35. \<open>przenies_twor\<close> never makes a cycle or loses a subtree: when it succeeds, the node has the same name
  in the target directory and no other, the target does not lie below it, and the directories are
  still a tree; when it fails, nothing has changed.
\<close>

theorem przeniesienie_bez_cyklu:
  assumes "bsp2_ok s" "drzewo (pliki_i_katalogi s) (korzen s)" "przenies_twor E s (Some p) (Some f) = (b, s')"
  shows "if b then \<exists>d n c d'. a_cel (pliki_i_katalogi s) (korzen s) p = Some (d, n, c) \<and>
      a_wezel (pliki_i_katalogi s) (korzen s) f = Some d' \<and> sp_typ (pliki_i_katalogi s) d' = TYP_KATALOG \<and>
      \<not> osiagalny (sp_kat (pliki_i_katalogi s)) c d' \<and> sp_kat (pliki_i_katalogi s) d' n = None \<and>
      pliki_i_katalogi s' = a_przenies (pliki_i_katalogi s) d d' n c \<and> drzewo (pliki_i_katalogi s') (korzen s') \<and> bsp2_ok s'
    else s' = s"
proof -
  note k = przenies_krok [OF assms(1,2), where E = E and p = p and f = f, unfolded assms(3)]
  have sp: "psf_sprawny s" using assms(1,2) by (simp add: psf_sprawny_def)
  have dr: "bsp2_ok s' \<and> drzewo (pliki_i_katalogi s') (korzen s')"
    using symulacja [OF sp, of E "PrzeniesTwor (Some p) (Some f)" b s', unfolded wykonaj_psf.simps, OF assms(3)] unfolding psf_sprawny_def by blast
  show ?thesis
  proof (cases b)
    case True
    then obtain d n c d' where c: "a_cel (pliki_i_katalogi s) (korzen s) p = Some (d, n, c)" "a_wezel (pliki_i_katalogi s) (korzen s) f = Some d'"
      using k by (auto split: option.splits)
    have w: "sp_typ (pliki_i_katalogi s) d' = TYP_KATALOG \<and> d \<noteq> d' \<and> sp_kat (pliki_i_katalogi s) d' n = None \<and>
        \<not> osiagalny (sp_kat (pliki_i_katalogi s)) c d'" and kr: "krok_api E s s' (a_przenies (pliki_i_katalogi s) d d' n c)"
      using k c True by (auto split: if_splits)
    show ?thesis unfolding if_P [OF True]
      by (intro exI [of _ d] exI [of _ n] exI [of _ c] exI [of _ d'] conjI) (use c w dr krok_api_ok [OF kr] in blast)+
  next
    case False
    then show ?thesis using k by (auto split: option.splits if_splits)
  qed
qed

theorem przeniesienie_bez_cyklu_witness:
  "\<not> fst (przenies_twor sterownik_wzorcowy psf_probny (Some sciezka_probna) (Some sciezka_probna))"
proof
  assume "fst (przenies_twor sterownik_wzorcowy psf_probny (Some sciezka_probna) (Some sciezka_probna))"
  then obtain s' where s': "przenies_twor sterownik_wzorcowy psf_probny (Some sciezka_probna) (Some sciezka_probna) = (True, s')"
    by (metis prod.collapse)
  show False using przeniesienie_bez_cyklu [OF probny(2,5) s'] probny(3,4) probna_sciezka
    by (simp add: a_cel_def a_rodzic_def rodzic_sciezki_def pusty_system_def split: option.splits if_splits)
qed

text \<open>
  C36. What \<open>zapisz_do_pliku\<close> writes, \<open>czytaj_z_pliku\<close> reads back: afterwards a read gives the data (as much
  of it as fits the buffer, whose rest it leaves alone) and every other file reads as before; or the
  call reports failure, no file has changed, and the path named no file, the data exceed the 490 blocks
  of a node, too few blocks were free, or the file already held the data. A call that reports failure may
  have written: without a disk it always does.
\<close>

theorem zapis_odczyt:
  assumes "bsp2_ok s" "zapisz_do_pliku E s (Some p) (Some dane) dl = (b, s')"
  shows "if pliki_i_katalogi s' = pliki_i_katalogi s \<and> \<not> b
    then (case a_wezel (pliki_i_katalogi s) (korzen s) p of None \<Rightarrow> True
      | Some i \<Rightarrow> sp_typ (pliki_i_katalogi s) i \<noteq> TYP_PLIK \<or> 490 * 4096 < unat dl \<or> card (wolne_bloki s) < bloki_rozmiaru (unat dl) \<or>
          sp_tresc (pliki_i_katalogi s) i = map dane [0 ..< unat dl])
    else czytaj_z_pliku s' (Some p) (Some bufor) maks = (True, Some (\<lambda>x. if x < unat dl \<and> x < unat maks then dane x else bufor x)) \<and>
      (\<forall>q. a_wezel (pliki_i_katalogi s) (korzen s) q = a_wezel (pliki_i_katalogi s) (korzen s) p \<or>
        czytaj_z_pliku s' (Some q) (Some bufor) maks = czytaj_z_pliku s (Some q) (Some bufor) maks)"
  using zapis_tresci [OF assms]
proof (elim disjE exE conjE)
  fix i assume i: "a_wezel (pliki_i_katalogi s) (korzen s) p = Some i" "sp_typ (pliki_i_katalogi s) i = TYP_PLIK" and ok: "bsp2_ok s'"
    and s': "korzen s' = korzen s" "pliki_i_katalogi s' = a_zapisz (pliki_i_katalogi s) i (map dane [0 ..< unat dl])"
  have "(\<lambda>x. if x < length (map dane [0 ..< unat dl]) \<and> x < unat maks then map dane [0 ..< unat dl] ! x else bufor x) =
      (\<lambda>x. if x < unat dl \<and> x < unat maks then dane x else bufor x)" by auto
  then have p: "czytaj_z_pliku s' (Some p) (Some bufor) maks = (True, Some (\<lambda>x. if x < unat dl \<and> x < unat maks then dane x else bufor x))"
    using odczyt_po_zapisie [OF ok i s'(2,1), of bufor maks] by simp
  have q: "a_wezel (pliki_i_katalogi s) (korzen s) q = a_wezel (pliki_i_katalogi s) (korzen s) p \<or>
      czytaj_z_pliku s' (Some q) (Some bufor) maks = czytaj_z_pliku s (Some q) (Some bufor) maks" for q
    using inny_po_zapisie [OF assms(1) ok _ s'(2,1)] i(1) by metis
  have "sp_tresc (pliki_i_katalogi s) i = map dane [0 ..< unat dl]" if "pliki_i_katalogi s' = pliki_i_katalogi s"
    using arg_cong [OF s'(2), of "\<lambda>A. sp_tresc A i"] that by (simp add: a_zapisz_def)
  then show ?thesis using p q i(1) by auto
next
  assume "\<not> b" "pliki_i_katalogi s' = pliki_i_katalogi s" "case a_wezel (pliki_i_katalogi s) (korzen s) p of None \<Rightarrow> True
      | Some i \<Rightarrow> sp_typ (pliki_i_katalogi s) i \<noteq> TYP_PLIK \<or> 490 * 4096 < unat dl \<or> card (wolne_bloki s) < bloki_rozmiaru (unat dl)"
  then show ?thesis by (auto split: option.splits)
qed

theorem zapis_odczyt_witness:
  "if fst (zapisz_do_pliku sterownik_wzorcowy psf_probny (Some sciezka_probna) (Some (\<lambda>_. 1)) 5)
   then fst (czytaj_z_pliku (snd (zapisz_do_pliku sterownik_wzorcowy psf_probny (Some sciezka_probna) (Some (\<lambda>_. 1)) 5))
     (Some sciezka_probna) (Some (\<lambda>_. 0)) 5)
   else pliki_i_katalogi (snd (zapisz_do_pliku sterownik_wzorcowy psf_probny (Some sciezka_probna) (Some (\<lambda>_. 1)) 5)) = pusty_system \<or>
     fst (czytaj_z_pliku (snd (zapisz_do_pliku sterownik_wzorcowy psf_probny (Some sciezka_probna) (Some (\<lambda>_. 1)) 5))
       (Some sciezka_probna) (Some (\<lambda>_. 0)) 5)"
  using zapis_odczyt [OF probny(2) prod.collapse [symmetric], of sterownik_wzorcowy sciezka_probna "\<lambda>_. 1" 5 "\<lambda>_. 0" 5] probny(3)
  by (auto split: if_splits)

text \<open>
  C37. \<open>waliduj_metadane\<close> accepts exactly the disks whose root is a directory, whose used nodes are files or
  directories without indirect pointers, whose pointers name used data blocks without repetition inside a
  node, whose files have a block for every byte of their size, and whose directories have as many
  entries as their size says, with legal, distinct names of other, used nodes. Two nodes that share a
  block, a used block of no node, two entries of one node and unreachable nodes are not its concern.
\<close>

theorem montaz_przyjmuje:
  assumes "geometria s"
  shows "waliduj_metadane s = (let v = widok s in typ_wezla v (korzen s) = TYP_KATALOG \<and> wezly_ok v \<and> pliki_ok v \<and> katalogi_ok v \<and>
    (\<forall>i k b. zajmuje v i k b \<longrightarrow> vi_zajety v b \<and> (\<forall>k'. zajmuje v i k' b \<longrightarrow> k' = k)))"
  unfolding waliduj_metadane_widok [OF assms] do_przyjecia_def wskazniki_zywe_def Let_def by blast

theorem montaz_przyjmuje_witness:
  "waliduj_metadane psf_probny \<longleftrightarrow> typ_wezla (widok psf_probny) 1 = TYP_KATALOG \<and> wezly_ok (widok psf_probny) \<and>
    pliki_ok (widok psf_probny) \<and> katalogi_ok (widok psf_probny) \<and>
    (\<forall>i k b. zajmuje (widok psf_probny) i k b \<longrightarrow> vi_zajety (widok psf_probny) b \<and> (\<forall>k'. zajmuje (widok psf_probny) i k' b \<longrightarrow> k' = k))"
  using montaz_przyjmuje [OF probny(6)] probny(4) by (simp add: Let_def)

text \<open>
  C38. Formatting succeeds exactly on a RAM disk of at least ten blocks, and gives a consistent file
  system with nothing but an empty root. Its numbers fit: the superblock, the bitmap, the nodes and the
  data follow each other without overlap and end within the RAM disk, and the bitmap has a bit for every
  data block. On a smaller or missing RAM disk nothing changes.
\<close>

theorem formatowanie_granice:
  "if ps_ram_dysk s \<and> 40960 \<le> unat (ps_rozmiar s)
   then \<exists>s'. sformatuj_ram_dysk E s z = (True, s') \<and> bsp2_ok s' \<and> pliki_i_katalogi s' = pusty_system \<and> korzen s' = 1 \<and>
     1 < pierwszy_wezel s' \<and> pierwszy_wezel s' + unat (ps_wezly s') = pierwsze_dane s' \<and>
     pierwsze_dane s' + unat (ps_bloki s') = bloki_dysku s' \<and> bloki_dysku s' = unat (ps_rozmiar s) div 4096 \<and>
     unat (ps_bloki s') \<le> (pierwszy_wezel s' - 1) * 32768 \<and> 0 < ps_wezly s' \<and> 0 < ps_bloki s'
   else sformatuj_ram_dysk E s z = (False, s)"
proof (cases "ps_ram_dysk s \<and> 40960 \<le> unat (ps_rozmiar s)")
  case True
  obtain s' where s': "sformatuj_ram_dysk E s z = (True, s')" "bsp2_ok s'" "pliki_i_katalogi s' = pusty_system" "korzen s' = 1"
      "bloki_dysku s' = unat (ps_rozmiar s) div 4096" using sformatuj_krok [of s E z] True by blast
  have "geometria s'" using s'(2) by (simp add: bsp2_ok_def)
  note L = geometria_liczby [OF this]
  have "0 < ps_wezly s'" "0 < ps_bloki s'" using L(2,3,6,7) by (simp_all add: word_less_nat_alt)
  then show ?thesis using True s' L by auto
next
  case False
  then have "\<not> ps_ram_dysk s \<or> ps_rozmiar s = 0 \<or> (ucast (ps_rozmiar s) div of_nat PSF_ROZMIAR_BLOKU) * of_nat PSF_ROZMIAR_BLOKU < (of_nat PSF_ROZMIAR_BLOKU * MINIMALNA_LICZBA_BLOKOW :: u64)"
    using maly_ram_dysk [of "ps_rozmiar s"] by auto
  then have "sformatuj_ram_dysk E s z = (False, s)" by (auto simp: sformatuj_ram_dysk_def Let_def)
  then show ?thesis unfolding if_not_P [OF False] .
qed

end
