(* ===== verification/Zegar_Kalendarz.thy ===== *)
theory Zegar_Kalendarz
  imports Zegar
begin

section \<open>The calendar of the clock\<close>

text \<open>
  The days of the Gregorian calendar counted from 1 January of year 0, which was a Saturday, as the
  reference: the code's leap years, month lengths, day of the week, last Sundays and the step to the next day
  against it.
\<close>

subsection \<open>The reference calendar\<close>

definition przestepny :: "nat \<Rightarrow> bool" where
  "przestepny r \<longleftrightarrow> 4 dvd r \<and> (100 dvd r \<longrightarrow> 400 dvd r)"

definition dni_miesiaca :: "nat \<Rightarrow> nat \<Rightarrow> nat" where
  "dni_miesiaca r m = (if m = 2 then if przestepny r then 29 else 28 else if m \<in> {4, 6, 9, 11} then 30 else 31)"

fun dni_lat :: "nat \<Rightarrow> nat" where
  "dni_lat 0 = 0"
| "dni_lat (Suc r) = dni_lat r + (if przestepny r then 366 else 365)"

fun dni_miesiecy :: "nat \<Rightarrow> nat \<Rightarrow> nat" where
  "dni_miesiecy r 0 = 0"
| "dni_miesiecy r (Suc m) = dni_miesiecy r m + (if m = 0 then 0 else dni_miesiaca r m)"

definition dzien_ery :: "nat \<Rightarrow> nat \<Rightarrow> nat \<Rightarrow> nat" where
  "dzien_ery r m d = dni_lat r + dni_miesiecy r m + d - 1"

text \<open>The day of the week, 0 for Sunday.\<close>

definition dzien_tygodnia_ery :: "nat \<Rightarrow> nat" where
  "dzien_tygodnia_ery n = (n + 6) mod 7"

lemma unat_add_u32: "unat (a :: u32) + unat b < 4294967296 \<Longrightarrow> unat (a + b) = unat a + unat b"
  by (simp add: unat_word_ariths)

lemma unat_u8_u32: "unat (ucast (d :: u8) :: u32) = unat d"
  by (simp add: unsigned_ucast_eq take_bit_nat_eq_self less_trans [OF unat_u8_less])

lemma unat_u8_of_int: "0 \<le> k \<Longrightarrow> k < 256 \<Longrightarrow> unat (of_int k :: u8) = nat k"
  by (simp add: unsigned_of_int take_bit_int_eq_self)

subsection \<open>Leap years and months\<close>

lemma podzial_nast: "Suc n div k = n div k + (if k dvd Suc n then 1 else 0)"
  by (simp add: div_Suc dvd_eq_mod_eq_0)

lemma dni_lat_wzor: "dni_lat (Suc r) + r div 100 = 365 * r + 366 + r div 4 + r div 400"
proof (induction r)
  case 0
  then show ?case by (simp add: przestepny_def)
next
  case (Suc r)
  have p: "przestepny (Suc r) \<longleftrightarrow> 4 dvd Suc r \<and> (100 dvd Suc r \<longrightarrow> 400 dvd Suc r)" by (simp add: przestepny_def)
  have d: "400 dvd Suc r \<Longrightarrow> 100 dvd Suc r" "100 dvd Suc r \<Longrightarrow> 4 dvd Suc r"
    by (rule dvd_trans [of _ 400]; simp)+ (rule dvd_trans [of _ 100]; simp)
  have "dni_lat (Suc (Suc r)) = dni_lat (Suc r) + (if przestepny (Suc r) then 366 else 365)" by simp
  then show ?case unfolding podzial_nast p using Suc.IH d by (simp del: dni_lat.simps)
qed

lemma rok_przestepny_ref: "rok_przestepny r \<longleftrightarrow> przestepny (unat r)"
proof -
  have m: "r mod of_nat k = 0 \<longleftrightarrow> k dvd unat r" if "k < 65536" for k
    using that by (simp add: word_unat_eq_iff unat_mod unat_of_nat dvd_eq_mod_eq_0)
  have d: "400 dvd unat r \<Longrightarrow> 100 dvd unat r" "400 dvd unat r \<Longrightarrow> 4 dvd unat r" by (rule dvd_trans [of _ 400]; simp)+
  show ?thesis using m [of 400] m [of 100] m [of 4] d by (auto simp: rok_przestepny_def przestepny_def)
qed

lemma miesiac_slowa:
  assumes "1 \<le> unat (m :: u8)" "unat m \<le> 12"
  shows "m \<in> {1, 2, 3, 4, 5, 6, 7, 8, 9, 10, 11, 12}"
proof -
  have "m = of_nat (unat m)" by simp
  moreover have "unat m = 1 \<or> unat m = 2 \<or> unat m = 3 \<or> unat m = 4 \<or> unat m = 5 \<or> unat m = 6 \<or> unat m = 7 \<or> unat m = 8 \<or>
      unat m = 9 \<or> unat m = 10 \<or> unat m = 11 \<or> unat m = 12" using assms by arith
  ultimately show ?thesis by (elim disjE) (auto dest: arg_cong [of _ _ "of_nat :: nat \<Rightarrow> u8"])
qed

lemma dni_w_miesiacu_ref:
  assumes "1 \<le> unat m" "unat m \<le> 12"
  shows "unat (dni_w_miesiacu r m) = dni_miesiaca (unat r) (unat m)"
  using miesiac_slowa [OF assms] by (auto simp: dni_w_miesiacu_def dni_miesiaca_def rok_przestepny_ref)

lemma dni_miesiaca_granice: "28 \<le> dni_miesiaca r m" "dni_miesiaca r m \<le> 31"
  by (simp_all add: dni_miesiaca_def)

lemma dni_roku: "dni_miesiecy r 13 = (if przestepny r then 366 else 365)"
  by (simp add: numeral_eq_Suc dni_miesiaca_def)

subsection \<open>Days of the week\<close>

definition tabela_ery :: "nat list" where
  "tabela_ery = [0, 3, 2, 5, 0, 3, 5, 1, 4, 6, 2, 4]"

lemma dni_miesiecy_suma:
  "dni_miesiecy r 3 = 59 + (if przestepny r then 1 else 0)" "dni_miesiecy r 4 = 90 + (if przestepny r then 1 else 0)"
  "dni_miesiecy r 5 = 120 + (if przestepny r then 1 else 0)" "dni_miesiecy r 6 = 151 + (if przestepny r then 1 else 0)"
  "dni_miesiecy r 7 = 181 + (if przestepny r then 1 else 0)" "dni_miesiecy r 8 = 212 + (if przestepny r then 1 else 0)"
  "dni_miesiecy r 9 = 243 + (if przestepny r then 1 else 0)" "dni_miesiecy r 10 = 273 + (if przestepny r then 1 else 0)"
  "dni_miesiecy r 11 = 304 + (if przestepny r then 1 else 0)" "dni_miesiecy r 12 = 334 + (if przestepny r then 1 else 0)"
  "dni_miesiecy r 1 = 0" "dni_miesiecy r 2 = 31"
  by (simp_all add: numeral_eq_Suc dni_miesiaca_def)

lemma tabela_ery_wartosci:
  "tabela_ery ! 0 = 0" "tabela_ery ! 1 = 3" "tabela_ery ! 2 = 2" "tabela_ery ! 3 = 5" "tabela_ery ! 4 = 0" "tabela_ery ! 5 = 3"
  "tabela_ery ! 6 = 5" "tabela_ery ! 7 = 1" "tabela_ery ! 8 = 4" "tabela_ery ! 9 = 6" "tabela_ery ! 10 = 2" "tabela_ery ! 11 = 4"
  by (simp_all add: tabela_ery_def)

lemma miesiace_tygodnie:
  assumes "3 \<le> m" "m \<le> 12"
  shows "\<exists>j. dni_miesiecy r m + 6 = (if przestepny r then 1 else 0) + tabela_ery ! (m - 1) + 7 * j"
proof -
  have "m = 3 \<or> m = 4 \<or> m = 5 \<or> m = 6 \<or> m = 7 \<or> m = 8 \<or> m = 9 \<or> m = 10 \<or> m = 11 \<or> m = 12" using assms by arith
  then show ?thesis by (elim disjE) (simp_all add: dni_miesiecy_suma tabela_ery_wartosci)
qed

lemma suma_marca:
  fixes d :: nat
  assumes "L + 365 + l + c = 365 * r + 366 + a + b" "M + 6 = l + t + 7 * j" "1 \<le> d"
  shows "L + M + d - 1 + 6 + c = r + a + b + t + d + 7 * (52 * r + j)"
proof -
  obtain e where e: "d = Suc e" using assms(3) by (cases d) auto
  have "L + M + e + 6 + c + (l + 6) = r + a + b + t + Suc e + 7 * (52 * r + j) + (l + 6)" using assms(1,2) by simp
  then show ?thesis unfolding e by simp
qed

lemma suma_stycznia:
  fixes d :: nat
  assumes "L + c = 365 * q + 366 + a + b" "M = t + 7 * j" "1 \<le> d"
  shows "L + M + d - 1 + 6 + c = q + a + b + t + d + 7 * (52 * q + 53 + j)"
proof -
  obtain e where e: "d = Suc e" using assms(3) by (cases d) auto
  have "L + M + e + 6 + c = q + a + b + t + Suc e + 7 * (52 * q + 53 + j)" using assms(1,2) by simp
  then show ?thesis unfolding e by simp
qed

lemma dzien_ery_marzec:
  assumes "3 \<le> m" "m \<le> 12" "1 \<le> d"
  shows "\<exists>k. dzien_ery r m d + 6 + r div 100 = r + r div 4 + r div 400 + tabela_ery ! (m - 1) + d + 7 * k"
proof -
  obtain j where j: "dni_miesiecy r m + 6 = (if przestepny r then 1 else 0) + tabela_ery ! (m - 1) + 7 * j"
    using miesiace_tygodnie [OF assms(1,2)] by blast
  have "dni_lat r + 365 + (if przestepny r then 1 else 0) + r div 100 = 365 * r + 366 + r div 4 + r div 400"
    using dni_lat_wzor [of r] by (auto split: if_splits)
  then have "dzien_ery r m d + 6 + r div 100 = r + r div 4 + r div 400 + tabela_ery ! (m - 1) + d + 7 * (52 * r + j)"
    unfolding dzien_ery_def by (rule suma_marca [OF _ j assms(3)])
  then show ?thesis by blast
qed

lemma dzien_ery_styczen:
  assumes "1 \<le> m" "m < 3" "1 \<le> d"
  shows "\<exists>k. dzien_ery (Suc q) m d + 6 + q div 100 = q + q div 4 + q div 400 + tabela_ery ! (m - 1) + d + 7 * k"
proof -
  have "m = 1 \<or> m = 2" using assms by arith
  then have "dni_miesiecy (Suc q) m = tabela_ery ! (m - 1) + 7 * (if m = 1 then 0 else 4)"
    by (elim disjE) (simp_all add: dni_miesiecy_suma tabela_ery_def)
  then obtain j where j: "dni_miesiecy (Suc q) m = tabela_ery ! (m - 1) + 7 * j" by blast
  have "dzien_ery (Suc q) m d + 6 + q div 100 = q + q div 4 + q div 400 + tabela_ery ! (m - 1) + d + 7 * (52 * q + 53 + j)"
    unfolding dzien_ery_def by (rule suma_stycznia [OF dni_lat_wzor j assms(3)])
  then show ?thesis by blast
qed

lemma modulo_siedem: "z + c = a + e + 7 * k \<Longrightarrow> c \<le> a \<Longrightarrow> z mod 7 = (a - c + e) mod (7 :: nat)"
proof -
  assume "z + c = a + e + 7 * k" "c \<le> a"
  then have "z = a - c + e + k * 7" by linarith
  then show ?thesis by simp
qed

lemma dzien_tygodnia_wzor:
  assumes "1 \<le> m" "m \<le> 12" "1 \<le> d" "1 \<le> r"
  shows "dzien_tygodnia_ery (dzien_ery r m d) =
    (let y = (if m < 3 then r - 1 else r) in (y + y div 4 + y div 400 - y div 100 + (tabela_ery ! (m - 1) + d)) mod 7)"
proof -
  have w: "y div 100 \<le> y + y div 4 + y div 400" for y :: nat by (simp add: div_le_mono2 trans_le_add1 trans_le_add2)
  show ?thesis
  proof (cases "m < 3")
    case True
    have e: "Suc (r - 1) = r" using assms(4) by simp
    obtain k where "dzien_ery r m d + 6 + (r - 1) div 100 = (r - 1) + (r - 1) div 4 + (r - 1) div 400 + tabela_ery ! (m - 1) + d + 7 * k"
      using dzien_ery_styczen [OF assms(1) True assms(3), of "r - 1", unfolded e] by blast
    then have "dzien_ery r m d + 6 + (r - 1) div 100 = ((r - 1) + (r - 1) div 4 + (r - 1) div 400) + (tabela_ery ! (m - 1) + d) + 7 * k"
      by (simp only: add.assoc)
    from modulo_siedem [OF this w] show ?thesis unfolding dzien_tygodnia_ery_def Let_def if_P [OF True] .
  next
    case False
    obtain k where "dzien_ery r m d + 6 + r div 100 = r + r div 4 + r div 400 + tabela_ery ! (m - 1) + d + 7 * k"
      using dzien_ery_marzec [of m d r] False assms by auto
    then have "dzien_ery r m d + 6 + r div 100 = (r + r div 4 + r div 400) + (tabela_ery ! (m - 1) + d) + 7 * k" by (simp only: add.assoc)
    from modulo_siedem [OF this w] show ?thesis unfolding dzien_tygodnia_ery_def Let_def if_not_P [OF False] .
  qed
qed

lemma suma_u32:
  assumes "unat (y :: u32) = n" "unat a = q4" "unat b = q100" "unat c = q400" "unat t \<le> 6" "unat d \<le> 31"
    and "n < 65536" "q4 \<le> n" "q100 \<le> q4" "q400 \<le> n"
  shows "unat (y + a - b + c + t + d) = n + q4 - q100 + q400 + unat t + unat d"
proof -
  have a1: "unat (y + a) = n + q4" using assms by (subst unat_add_u32) auto
  have "b \<le> y + a" using a1 assms by (simp add: word_le_nat_alt)
  then have a2: "unat (y + a - b) = n + q4 - q100" using a1 assms by (simp add: unat_sub)
  have a3: "unat (y + a - b + c) = n + q4 - q100 + q400" using a2 assms by (subst unat_add_u32) auto
  have a4: "unat (y + a - b + c + t) = n + q4 - q100 + q400 + unat t" using a3 assms by (subst unat_add_u32) auto
  then show ?thesis using assms by (subst unat_add_u32) auto
qed

lemma dzien_tygodnia_ref:
  assumes m: "1 \<le> unat m" "unat m \<le> 12" and d: "1 \<le> unat d" "unat d \<le> 31" and r: "1 \<le> unat r"
  shows "unat (dzien_tygodnia r m d) = dzien_tygodnia_ery (dzien_ery (unat r) (unat m) (unat d))"
proof -
  define y where "y = (if m < 3 then ucast r - 1 else ucast r :: u32)"
  define n where "n = (if unat m < 3 then unat r - 1 else unat r)"
  have ur: "unat r < 65536" using unsigned_less [of r] by simp
  have ru: "unat (ucast r :: u32) = unat r" using ur by (simp add: unsigned_ucast_eq take_bit_nat_eq_self)
  then have y: "unat y = n" using r by (auto simp: y_def n_def word_less_nat_alt unat_sub word_le_nat_alt)
  have n: "n < 65536" using ur by (auto simp: n_def)
  define t where "t = tabela_dni ! unat (m - 1)"
  have t: "unat t = tabela_ery ! (unat m - 1)" "unat t \<le> 6"
  proof -
    have "unat (m - 1) = unat m - 1" using m(1) by (subst unat_sub) (simp_all add: word_le_nat_alt)
    moreover have "tabela_ery = map unat tabela_dni" by (simp add: tabela_ery_def tabela_dni_def)
    moreover have "\<forall>x \<in> set tabela_dni. unat x \<le> 6" by (simp add: tabela_dni_def)
    moreover have "length tabela_dni = 12" by (simp add: tabela_dni_def)
    ultimately show "unat t = tabela_ery ! (unat m - 1)" "unat t \<le> 6" using m nth_map [of "unat m - 1" tabela_dni unat] unfolding t_def by auto
  qed
  note du = unat_u8_u32 [of d]
  have dv: "unat (y div 4) = n div 4" "unat (y div 100) = n div 100" "unat (y div 400) = n div 400" using y by (simp_all add: unat_div)
  have b: "n div 4 \<le> n" "n div 100 \<le> n div 4" "n div 400 \<le> n" by (simp_all add: div_le_mono2)
  have a5: "unat (y + y div 4 - y div 100 + y div 400 + t + ucast d) = n + n div 4 - n div 100 + n div 400 + unat t + unat d"
    using suma_u32 [OF y dv t(2) _ n b, of "ucast d"] du d(2) by simp
  have "unat (dzien_tygodnia r m d) = (n + n div 4 - n div 100 + n div 400 + unat t + unat d) mod 7"
    unfolding dzien_tygodnia_def Let_def y_def [symmetric] t_def [symmetric] using a5
    by (simp add: unat_mod unsigned_ucast_eq take_bit_nat_eq_self)
  also have "n + n div 4 - n div 100 + n div 400 + unat t + unat d = n + n div 4 + n div 400 - n div 100 + (tabela_ery ! (unat m - 1) + unat d)"
    unfolding t(1) using b(2) by (simp add: add.assoc)
  finally show ?thesis unfolding dzien_tygodnia_wzor [OF m d(1) r] Let_def n_def .
qed

lemma niedziela_wstecz:
  assumes "w = dzien_tygodnia_ery (dzien_ery r m 31)"
  shows "w \<le> 6" "dzien_tygodnia_ery (dzien_ery r m (31 - w)) = 0"
proof -
  show w: "w \<le> 6" using assms by (simp add: dzien_tygodnia_ery_def less_Suc_eq_le [symmetric])
  have n: "dzien_ery r m (31 - w) + w = dzien_ery r m 31" using w unfolding dzien_ery_def by simp
  have "(dzien_ery r m (31 - w) + w + 6) mod 7 = w" using assms unfolding n dzien_tygodnia_ery_def ..
  then have "(dzien_ery r m (31 - w) + 6 + w) mod 7 = w" by (simp add: ac_simps)
  then show "dzien_tygodnia_ery (dzien_ery r m (31 - w)) = 0" unfolding dzien_tygodnia_ery_def by presburger
qed

definition niedziela_zmiany :: "nat \<Rightarrow> nat \<Rightarrow> nat \<Rightarrow> bool" where
  "niedziela_zmiany r m d \<longleftrightarrow> 25 \<le> d \<and> d \<le> 31 \<and> dzien_tygodnia_ery (dzien_ery r m d) = 0"

lemma ostatnia_niedziela_ref:
  assumes m: "m \<in> {3, 10}" and r: "1 \<le> unat r"
  shows "niedziela_zmiany (unat r) (unat m) (unat (ostatnia_niedziela r m))"
proof -
  have dm: "dni_w_miesiacu r m = 31" "1 \<le> unat m" "unat m \<le> 12" using m by (auto simp: dni_w_miesiacu_def)
  have "unat (dzien_tygodnia r m 31) = dzien_tygodnia_ery (dzien_ery (unat r) (unat m) 31)"
    using dzien_tygodnia_ref [OF dm(2,3) _ _ r, of 31] by simp
  note n = niedziela_wstecz [OF this]
  have "dzien_tygodnia r m 31 \<le> 31" using n(1) by (simp add: word_le_nat_alt)
  then have "unat (ostatnia_niedziela r m) = 31 - unat (dzien_tygodnia r m 31)"
    by (simp add: ostatnia_niedziela_def dm(1) unat_sub)
  then show ?thesis using n unfolding niedziela_zmiany_def by simp
qed

lemma niedziela_jedna: "niedziela_zmiany r m d \<Longrightarrow> niedziela_zmiany r m d' \<Longrightarrow> d = d'"
proof -
  have ll: "d = d'" if "d \<le> d'" "niedziela_zmiany r m d" "niedziela_zmiany r m d'" for d d'
  proof -
    have n: "dzien_ery r m d' = dzien_ery r m d + (d' - d)" "d' - d < 7" using that unfolding niedziela_zmiany_def dzien_ery_def by auto
    have "(dzien_ery r m d + 6) mod 7 = 0" "(dzien_ery r m d + (d' - d) + 6) mod 7 = 0"
      using that unfolding niedziela_zmiany_def dzien_tygodnia_ery_def n(1) by simp_all
    then have "d' - d = 0" using n(2) by presburger
    then show ?thesis using that(1) by simp
  qed
  assume "niedziela_zmiany r m d" "niedziela_zmiany r m d'"
  then show ?thesis using ll [of d d'] ll [of d' d] by linarith
qed

subsection \<open>The absolute minute\<close>

abbreviation dzien_czasu :: "czas_rtc \<Rightarrow> nat" where
  "dzien_czasu c \<equiv> dzien_ery (unat (rtc_rok c)) (unat (rtc_miesiac c)) (unat (rtc_dzien c))"

definition minuta_ery :: "czas_rtc \<Rightarrow> nat" where
  "minuta_ery c = (dzien_czasu c * 24 + unat (rtc_godziny c)) * 60 + unat (rtc_minuty c)"

lemma czas_poprawny_iff:
  assumes "unat (rtc_rok c) < 65536"
  shows "czas_poprawny c \<longleftrightarrow> unat (rtc_sekundy c) < 60 \<and> unat (rtc_minuty c) < 60 \<and> unat (rtc_godziny c) < 24 \<and>
    1900 \<le> unat (rtc_rok c) \<and> 1 \<le> unat (rtc_miesiac c) \<and> unat (rtc_miesiac c) \<le> 12 \<and>
    1 \<le> unat (rtc_dzien c) \<and> unat (rtc_dzien c) \<le> dni_miesiaca (unat (rtc_rok c)) (unat (rtc_miesiac c))"
proof -
  have r: "unat (ucast (rtc_rok c) :: u16) = unat (rtc_rok c)" using assms by (simp add: unsigned_ucast_eq take_bit_nat_eq_self)
  show ?thesis
  proof (cases "1 \<le> unat (rtc_miesiac c) \<and> unat (rtc_miesiac c) \<le> 12")
    case True
    then have "unat (dni_w_miesiacu (ucast (rtc_rok c)) (rtc_miesiac c)) = dni_miesiaca (unat (rtc_rok c)) (unat (rtc_miesiac c))"
      using dni_w_miesiacu_ref [of "rtc_miesiac c" "ucast (rtc_rok c)"] r by simp
    then show ?thesis unfolding czas_poprawny_def word_less_nat_alt word_le_nat_alt by auto
  next
    case False
    then show ?thesis unfolding czas_poprawny_def word_less_nat_alt word_le_nat_alt by auto
  qed
qed

lemma dni_miesiecy_koniec: "dni_miesiecy r 12 + 31 = dni_miesiecy r 13"
  by (simp add: numeral_eq_Suc dni_miesiaca_def)

lemma dzien_ery_nast:
  "1 \<le> d \<Longrightarrow> dzien_ery r m (d + 1) = dzien_ery r m d + 1"
  "1 \<le> m \<Longrightarrow> dzien_ery r (m + 1) 1 = dzien_ery r m (dni_miesiaca r m) + 1"
  "dzien_ery (r + 1) 1 1 = dzien_ery r 12 31 + 1"
proof -
  show "1 \<le> d \<Longrightarrow> dzien_ery r m (d + 1) = dzien_ery r m d + 1" by (simp add: dzien_ery_def)
  show "1 \<le> m \<Longrightarrow> dzien_ery r (m + 1) 1 = dzien_ery r m (dni_miesiaca r m) + 1"
    using dni_miesiaca_granice(1) [of r m] by (simp add: dzien_ery_def)
  show "dzien_ery (r + 1) 1 1 = dzien_ery r 12 31 + 1"
    using dni_miesiecy_koniec [of r] dni_roku [of r] dni_miesiecy_suma(11) [of "r + 1"] by (auto simp: dzien_ery_def split: if_splits)
qed

lemma nastepny_dzien_ref:
  assumes c: "czas_poprawny c" and r: "unat (rtc_rok c) < 65535"
  shows "czas_poprawny (nastepny_dzien c) \<and> dzien_czasu (nastepny_dzien c) = dzien_czasu c + 1 \<and>
    rtc_sekundy (nastepny_dzien c) = rtc_sekundy c \<and> rtc_minuty (nastepny_dzien c) = rtc_minuty c \<and>
    rtc_godziny (nastepny_dzien c) = rtc_godziny c \<and> unat (rtc_rok (nastepny_dzien c)) \<le> unat (rtc_rok c) + 1"
proof -
  let ?r = "unat (rtc_rok c)" and ?m = "unat (rtc_miesiac c)" and ?d = "unat (rtc_dzien c)"
  have r6: "?r < 65536" using r by simp
  note p = czas_poprawny_iff [OF r6, THEN iffD1, OF c]
  have r16: "unat (ucast (rtc_rok c) :: u16) = ?r" using r by (simp add: unsigned_ucast_eq take_bit_nat_eq_self)
  have md: "unat (dni_w_miesiacu (ucast (rtc_rok c)) (rtc_miesiac c)) = dni_miesiaca ?r ?m"
    using dni_w_miesiacu_ref [of "rtc_miesiac c" "ucast (rtc_rok c)"] r16 p by simp
  have d31: "?d \<le> 31" using p dni_miesiaca_granice(2) [of ?r ?m] by linarith
  have e1: "unat (1 :: u8) = 1" by simp
  have k: "1 \<le> dni_miesiaca r m" for r m using dni_miesiaca_granice(1) [of r m] by linarith
  consider (a) "?d < dni_miesiaca ?r ?m" | (b) "?d = dni_miesiaca ?r ?m" "?m < 12" | (c) "?d = dni_miesiaca ?r ?m" "?m = 12" using p by linarith
  then show ?thesis
  proof cases
    case a
    have e: "nastepny_dzien c = c\<lparr>rtc_dzien := rtc_dzien c + 1\<rparr>" using a md by (simp add: nastepny_dzien_def word_less_nat_alt)
    have d: "unat (rtc_dzien c + 1) = ?d + 1" using d31 by (simp add: unat_word_ariths)
    have "czas_poprawny (nastepny_dzien c)" unfolding e by (rule czas_poprawny_iff [THEN iffD2]) (use p r6 d a in auto)
    then show ?thesis using dzien_ery_nast(1) p d unfolding e by simp
  next
    case b
    have e: "nastepny_dzien c = c\<lparr>rtc_dzien := 1, rtc_miesiac := rtc_miesiac c + 1\<rparr>"
      using b md by (simp add: nastepny_dzien_def word_less_nat_alt Let_def)
    have m: "unat (rtc_miesiac c + 1) = ?m + 1" using b by (simp add: unat_word_ariths)
    have "czas_poprawny (nastepny_dzien c)" unfolding e by (rule czas_poprawny_iff [THEN iffD2]) (use p r6 m b k in auto)
    then show ?thesis using dzien_ery_nast(2) [of ?m ?r] p b m unfolding e by simp
  next
    case c
    have e: "nastepny_dzien c = c\<lparr>rtc_dzien := 1, rtc_miesiac := 1, rtc_rok := rtc_rok c + 1\<rparr>"
      using c md by (simp add: nastepny_dzien_def word_less_nat_alt Let_def)
    have rr: "unat (rtc_rok c + 1) = ?r + 1" using r by (simp add: unat_word_ariths)
    have "czas_poprawny (nastepny_dzien c)" unfolding e by (rule czas_poprawny_iff [THEN iffD2]) (use p r rr k in auto)
    moreover have "?d = 31" using c by (simp add: dni_miesiaca_def)
    ultimately show ?thesis using dzien_ery_nast(3) [of ?r] c rr unfolding e by simp
  qed
qed

text \<open>Moving a valid time forward by less than a day.\<close>

lemma przesun_naprzod:
  assumes c: "czas_poprawny c" and r: "unat (rtc_rok c) < 65535" and x: "0 \<le> x" "x < 1440"
  shows "\<exists>w. przesun_czas_o_minuty c x = (True, w) \<and> czas_poprawny w \<and> minuta_ery w = minuta_ery c + nat x \<and> rtc_sekundy w = rtc_sekundy c"
proof -
  have r6: "unat (rtc_rok c) < 65536" using r by simp
  note p = czas_poprawny_iff [OF r6, THEN iffD1, OF c]
  define m where "m = int (unat (rtc_godziny c)) * 60 + int (unat (rtc_minuty c)) + x"
  have "int (unat (rtc_godziny c)) \<le> 23" "int (unat (rtc_minuty c)) \<le> 59" using p by linarith+
  then have m: "0 \<le> m" "m < 2880" using x unfolding m_def by linarith+
  define c1 where "c1 = (if 1440 \<le> m then nastepny_dzien c else c)"
  define m1 where "m1 = (if 1440 \<le> m then m - 1440 else m)"
  have m1: "0 \<le> m1" "m1 < 1440" using m by (auto simp: m1_def)
  have f: "dni_naprzod m c = (m1, c1)"
  proof (cases "1440 \<le> m")
    case True
    then show ?thesis using m by (subst dni_naprzod.simps) (subst dni_naprzod.simps, simp add: m1_def c1_def)
  qed (subst dni_naprzod.simps, simp add: m1_def c1_def)
  have w: "dni_wstecz m1 c1 = (m1, c1)" using m1 by (subst dni_wstecz.simps) simp
  have c1: "czas_poprawny c1" "dzien_czasu c1 = dzien_czasu c + (if 1440 \<le> m then 1 else 0)" "rtc_sekundy c1 = rtc_sekundy c"
    "unat (rtc_rok c1) < 65536"
    using nastepny_dzien_ref [OF c r] c r unfolding c1_def by auto
  define v where "v = c1\<lparr>rtc_godziny := of_int (m1 div 60), rtc_minuty := of_int (m1 mod 60)\<rparr>"
  have h: "unat (of_int (m1 div 60) :: u8) = nat (m1 div 60)" "unat (of_int (m1 mod 60) :: u8) = nat (m1 mod 60)"
    using m1 by (simp_all add: unat_u8_of_int)
  have g: "nat (m1 div 60) < 24" "nat (m1 mod 60) < 60" using m1 by linarith+
  have "czas_poprawny v"
    by (rule czas_poprawny_iff [THEN iffD2]) (use czas_poprawny_iff [OF c1(4), THEN iffD1, OF c1(1)] c1(4) h g in \<open>auto simp: v_def\<close>)
  moreover have "minuta_ery v = minuta_ery c + nat x"
  proof -
    have "nat (m1 div 60) * 60 + nat (m1 mod 60) = nat m1"
      using m1 by (simp add: nat_div_distrib nat_mod_distrib)
    moreover have "nat m1 + (if 1440 \<le> m then 1440 else 0) = nat m" using m by (auto simp: m1_def)
    moreover have "nat m = unat (rtc_godziny c) * 60 + unat (rtc_minuty c) + nat x" using x by (simp add: m_def nat_add_distrib nat_mult_distrib)
    ultimately show ?thesis using c1(2) h unfolding minuta_ery_def v_def by (simp split: if_splits)
  qed
  moreover have "przesun_czas_o_minuty c x = (True, v)"
    unfolding przesun_czas_o_minuty_def m_def [symmetric] using c f w \<open>czas_poprawny v\<close> by (simp add: Let_def v_def)
  ultimately show ?thesis using c1(3) by (intro exI [of _ v]) (simp add: v_def)
qed

end
