(* ===== verification/Zegar_Twierdzenia.thy ===== *)
theory Zegar_Twierdzenia
  imports Zegar_Kalendarz
begin

section \<open>The real-time clock: local time from a clock chip\<close>

text \<open>
  The summer time of the code against the reference calendar, the encoding of a time in the registers
  of the chip and its decoding, the sampling of a chip that changes, and the property of the clock.
\<close>

subsection \<open>Summer time\<close>

definition minuta_zmiany :: "nat \<Rightarrow> nat \<Rightarrow> nat \<Rightarrow> nat" where
  "minuta_zmiany r m d = (dzien_ery r m d * 24 + 1) * 60"

text \<open>From 01:00 UTC of the last Sunday of March to 01:00 UTC of the last Sunday of October.\<close>

definition czas_letni :: "czas_rtc \<Rightarrow> bool" where
  "czas_letni u \<longleftrightarrow> (\<exists>dm dp. niedziela_zmiany (unat (rtc_rok u)) 3 dm \<and> niedziela_zmiany (unat (rtc_rok u)) 10 dp \<and>
     minuta_zmiany (unat (rtc_rok u)) 3 dm \<le> minuta_ery u \<and> minuta_ery u < minuta_zmiany (unat (rtc_rok u)) 10 dp)"

lemma dni_miesiecy_mono: "1 \<le> m \<Longrightarrow> m < m' \<Longrightarrow> dni_miesiecy r m + dni_miesiaca r m \<le> dni_miesiecy r m'"
proof (induction m')
  case (Suc k)
  then show ?case by (cases "m = k") auto
qed simp

lemma dzien_ery_mniejszy:
  assumes "1 \<le> m" "m < m'" "1 \<le> d" "d \<le> dni_miesiaca r m" "1 \<le> d'"
  shows "dzien_ery r m d < dzien_ery r m' d'"
  using dni_miesiecy_mono [OF assms(1,2), of r] assms(3-5) unfolding dzien_ery_def by linarith

lemma minuta_granica:
  fixes D D0 h mi :: nat
  assumes "h < 24" "mi < 60"
  shows "(D0 * 24 + 1) * 60 \<le> (D * 24 + h) * 60 + mi \<longleftrightarrow> D0 < D \<or> D = D0 \<and> 1 \<le> h"
proof -
  consider "D < D0" | "D = D0" | "D0 < D" by linarith
  then show ?thesis
  proof cases
    case 1
    then have "D + 1 \<le> D0" by simp
    then show ?thesis using assms by auto
  next
    case 2
    then show ?thesis using assms by auto
  next
    case 3
    then have "D0 + 1 \<le> D" by simp
    then show ?thesis using assms by auto
  qed
qed

lemma strefa_letnia:
  assumes c: "czas_poprawny u" and r: "unat (rtc_rok u) < 65536"
  shows "polska_strefa_minuty_utc u = (if czas_letni u then 120 else 60)"
proof -
  let ?r = "unat (rtc_rok u)" and ?m = "unat (rtc_miesiac u)" and ?d = "unat (rtc_dzien u)" and ?h = "unat (rtc_godziny u)"
  note p = czas_poprawny_iff [OF r, THEN iffD1, OF c]
  have r16: "unat (ucast (rtc_rok u) :: u16) = ?r" using r by (simp add: unsigned_ucast_eq take_bit_nat_eq_self)
  define zm where "zm = unat (ostatnia_niedziela (ucast (rtc_rok u)) 3)"
  define zp where "zp = unat (ostatnia_niedziela (ucast (rtc_rok u)) 10)"
  have nm: "niedziela_zmiany ?r 3 zm" and np: "niedziela_zmiany ?r 10 zp"
    using ostatnia_niedziela_ref [of 3 "ucast (rtc_rok u)"] ostatnia_niedziela_ref [of 10 "ucast (rtc_rok u)"] p r16 by (simp_all add: zm_def zp_def)
  have z: "25 \<le> zm" "zm \<le> 31" "25 \<le> zp" "zp \<le> 31" using nm np by (auto simp: niedziela_zmiany_def)
  have l: "czas_letni u \<longleftrightarrow> minuta_zmiany ?r 3 zm \<le> minuta_ery u \<and> \<not> minuta_zmiany ?r 10 zp \<le> minuta_ery u"
    unfolding czas_letni_def not_le using nm np niedziela_jedna by blast
  have g: "minuta_zmiany r m d \<le> minuta_ery u \<longleftrightarrow> dzien_ery r m d < dzien_czasu u \<or> dzien_czasu u = dzien_ery r m d \<and> 1 \<le> ?h" for r m d
    unfolding minuta_zmiany_def minuta_ery_def using p by (intro minuta_granica) auto
  have d31: "dni_miesiaca ?r 3 = 31" "dni_miesiaca ?r 10 = 31" by (simp_all add: dni_miesiaca_def)
  have dd: "dzien_ery ?r ?m ?d = dzien_ery ?r ?m 1 + (?d - 1)" using p by (simp add: dzien_ery_def)
  have s: "polska_strefa_minuty_utc u = (if ?m < 3 \<or> 10 < ?m then 60 else if 3 < ?m \<and> ?m < 10 then 120
      else if ?m = 3 then (if zm < ?d then 120 else if ?d < zm then 60 else if 1 \<le> ?h then 120 else 60)
      else (if ?d < zp then 120 else if zp < ?d then 60 else if ?h < 1 then 120 else 60))"
    unfolding polska_strefa_minuty_utc_def Let_def zm_def zp_def word_less_nat_alt word_le_nat_alt word_unat_eq_iff [of _ "3 :: u8"] by simp
  have dzien: "dzien_ery r m d < dzien_ery r m e \<longleftrightarrow> d < e" "dzien_ery r m d = dzien_ery r m e \<longleftrightarrow> d = e" if "1 \<le> d" "1 \<le> e" for r m d e
    using that by (auto simp: dzien_ery_def)
  consider "?m < 3" | "?m = 3" | "3 < ?m" "?m < 10" | "?m = 10" | "10 < ?m" by linarith
  then show ?thesis
  proof cases
    case 1
    have "dzien_czasu u < dzien_ery ?r 3 zm" using p z 1 by (intro dzien_ery_mniejszy) auto
    then show ?thesis unfolding s l g using 1 by auto
  next
    case 2
    have "dzien_czasu u < dzien_ery ?r 10 zp" using p z 2 by (intro dzien_ery_mniejszy) auto
    then show ?thesis unfolding s l g using 2 p z dzien [of zm ?d ?r 3] dzien [of ?d zm ?r 3] by auto
  next
    case 3
    have "dzien_czasu u < dzien_ery ?r 10 zp" using p z 3 by (intro dzien_ery_mniejszy) auto
    moreover have "dzien_ery ?r 3 zm < dzien_czasu u" using p z 3 d31 by (intro dzien_ery_mniejszy) auto
    ultimately show ?thesis unfolding s l g using 3 by auto
  next
    case 4
    have "dzien_ery ?r 3 zm < dzien_czasu u" using p z 4 d31 by (intro dzien_ery_mniejszy) auto
    then show ?thesis unfolding s l g using 4 p z dzien [of zp ?d ?r 10] dzien [of ?d zp ?r 10] by auto
  next
    case 5
    have "dzien_ery ?r 3 zm < dzien_czasu u" "dzien_ery ?r 10 zp < dzien_czasu u" using p z 5 d31 by (auto intro!: dzien_ery_mniejszy)
    then show ?thesis unfolding s l g using 5 by auto
  qed
qed

subsection \<open>The registers of the chip\<close>

text \<open>A number below 100 as the chip stores it, in BCD or in binary.\<close>

definition na_bcd :: "u8 \<Rightarrow> u8" where
  "na_bcd x = (x div 10) * 16 + x mod 10"

definition kod_liczby :: "bool \<Rightarrow> u8 \<Rightarrow> u8" where
  "kod_liczby binarny x = (if binarny then x else na_bcd x)"

text \<open>The hour on a 24-hour chip, or from 12, 1, 2 to 11 with the top bit set after noon.\<close>

definition kod_godziny :: "bool \<Rightarrow> bool \<Rightarrow> u8 \<Rightarrow> u8" where
  "kod_godziny binarny tryb_24h h =
     (if tryb_24h then kod_liczby binarny h
      else kod_liczby binarny (if h mod 12 = 0 then 12 else h mod 12) OR (if h < 12 then 0 else 0x80))"

definition rejestr_czasu :: "u8 \<Rightarrow> czas_rtc \<Rightarrow> u8 \<Rightarrow> u8" where
  "rejestr_czasu B u r =
     (let kod = kod_liczby (B AND RTC_B_BINARY \<noteq> 0) in
      if r = RTC_REJ_SEKUNDY then kod (rtc_sekundy u)
      else if r = RTC_REJ_MINUTY then kod (rtc_minuty u)
      else if r = RTC_REJ_GODZINY then kod_godziny (B AND RTC_B_BINARY \<noteq> 0) (B AND RTC_B_24H \<noteq> 0) (rtc_godziny u)
      else if r = RTC_REJ_DZIEN then kod (rtc_dzien u)
      else if r = RTC_REJ_MIESIAC then kod (rtc_miesiac u)
      else kod (ucast (rtc_rok u - 2000)))"

lemma male_bajty: "x < of_nat n \<Longrightarrow> n < 256 \<Longrightarrow> \<exists>k < n. x = (of_nat k :: u8)"
  by (rule exI [of _ "unat x"]) (auto simp: word_less_nat_alt unsigned_of_nat take_bit_nat_eq_self)

lemma bcd_tabela: "list_all (\<lambda>n. let x = of_nat n :: u8 in poprawny_bcd (na_bcd x) \<and> bcd_na_bin (na_bcd x) = x) [0..<100]"
  by code_simp

lemma bcd_odwrotne:
  assumes "x < 100"
  shows "poprawny_bcd (na_bcd x)" "bcd_na_bin (na_bcd x) = x"
proof -
  obtain k where "k < 100" "x = of_nat k" using male_bajty [of x 100] assms by auto
  then show "poprawny_bcd (na_bcd x)" "bcd_na_bin (na_bcd x) = x"
    using bcd_tabela by (auto simp: list_all_iff Let_def)
qed

definition godzina_dobra :: "bool \<Rightarrow> bool \<Rightarrow> u8 \<Rightarrow> bool" where
  "godzina_dobra binarny tryb_24h h =
     (let k = kod_godziny binarny tryb_24h h; g = k AND 0x7F in
      (binarny \<or> poprawny_bcd g) \<and>
      godziny_24 tryb_24h (\<not> tryb_24h \<and> k AND 0x80 \<noteq> 0) (if binarny then g else bcd_na_bin g) = Some h)"

lemma godziny_tabela: "list_all (\<lambda>n. \<forall>b \<in> set [False, True]. \<forall>t \<in> set [False, True]. godzina_dobra b t (of_nat n)) [0..<24]"
  by code_simp

lemma godziny_odwrotne: "h < 24 \<Longrightarrow> godzina_dobra b t h"
  using godziny_tabela male_bajty [of h 24] by (cases b; cases t) (auto simp: list_all_iff)

text \<open>Decoding the registers gives the time back.\<close>

definition probka_czasu :: "u8 \<Rightarrow> u8 \<Rightarrow> czas_rtc \<Rightarrow> ProbkaRTC" where
  "probka_czasu B D u =
     \<lparr>pr_sekundy = rejestr_czasu B u RTC_REJ_SEKUNDY, pr_minuty = rejestr_czasu B u RTC_REJ_MINUTY,
      pr_godziny = rejestr_czasu B u RTC_REJ_GODZINY, pr_dzien = rejestr_czasu B u RTC_REJ_DZIEN,
      pr_miesiac = rejestr_czasu B u RTC_REJ_MIESIAC, pr_rok = rejestr_czasu B u RTC_REJ_ROK,
      pr_stulecie = 0, pr_rejestr_b = B, pr_rejestr_d = D\<rparr>"

lemma rok_dwie_cyfry:
  fixes r :: u32
  assumes "2000 \<le> unat r" "unat r \<le> 2099"
  shows "(ucast (r - 2000) :: u8) < 100" "2000 + ucast (ucast (r - 2000) :: u8) = r"
proof -
  have d: "unat (r - 2000) = unat r - 2000" using assms by (simp add: unat_sub word_le_nat_alt)
  then have e: "unat (ucast (r - 2000) :: u8) = unat r - 2000" using assms by (simp add: unsigned_ucast_eq take_bit_nat_eq_self)
  then show "(ucast (r - 2000) :: u8) < 100" using assms by (simp add: word_less_nat_alt)
  have "(ucast (ucast (r - 2000) :: u8) :: u32) = r - 2000" by (rule word_unat_eq_iff [THEN iffD2]) (simp add: unat_u8_u32 e d)
  then show "2000 + ucast (ucast (r - 2000) :: u8) = r" by simp
qed

lemma skonwertuj_kod:
  assumes c: "czas_poprawny u" and r: "2000 \<le> unat (rtc_rok u)" "unat (rtc_rok u) \<le> 2099" and D: "D AND RTC_D_VRT \<noteq> 0"
  shows "skonwertuj_probke (probka_czasu B D u) = Some u"
proof -
  have r6: "unat (rtc_rok u) < 65536" using r by simp
  note p = czas_poprawny_iff [OF r6, THEN iffD1, OF c]
  have "unat (rtc_dzien u) < 100" using p dni_miesiaca_granice(2) [of "unat (rtc_rok u)" "unat (rtc_miesiac u)"] by linarith
  then have s: "rtc_sekundy u < 100" "rtc_minuty u < 100" "rtc_dzien u < 100" "rtc_miesiac u < 100" "rtc_godziny u < 24"
    using p by (auto simp: word_less_nat_alt)
  note g = godziny_odwrotne [OF s(5), of "B AND RTC_B_BINARY \<noteq> 0" "B AND RTC_B_24H \<noteq> 0", unfolded godzina_dobra_def Let_def]
  show ?thesis
    using D g s rok_dwie_cyfry [OF r]
    by (auto simp: skonwertuj_probke_def probka_czasu_def rejestr_czasu_def Let_def kod_liczby_def bcd_odwrotne)
qed

subsection \<open>The chip as a clock\<close>

text \<open>
  What the data sheet of the MC146818 promises. The control registers do not change and the time is
  valid. When the update flag of register A reads 0, no update begins for 244 microseconds: the time
  registers then hold the time for the next eight reads of the port.
\<close>

definition rejestry_czasu :: "u8 list" where
  "rejestry_czasu = [RTC_REJ_SEKUNDY, RTC_REJ_MINUTY, RTC_REJ_GODZINY, RTC_REJ_DZIEN, RTC_REJ_MIESIAC, RTC_REJ_ROK]"

definition czas_ukladu :: "czas_rtc \<Rightarrow> bool" where
  "czas_ukladu u \<longleftrightarrow> czas_poprawny u \<and> 2000 \<le> unat (rtc_rok u) \<and> unat (rtc_rok u) \<le> 2099"

definition zegar_cmos :: "cmos \<Rightarrow> u8 \<Rightarrow> u8 \<Rightarrow> (nat \<Rightarrow> czas_rtc) \<Rightarrow> bool" where
  "zegar_cmos c B D zegar \<longleftrightarrow> D AND RTC_D_VRT \<noteq> 0 \<and>
     (\<forall>t. c t RTC_REJ_B = B \<and> c t RTC_REJ_D = D \<and> czas_ukladu (zegar t) \<and>
       (c t RTC_REJ_A AND RTC_A_UIP = 0 \<longrightarrow>
         (\<forall>k \<le> 8. zegar (t + k) = zegar t \<and> (\<forall>r \<in> set rejestry_czasu. c (t + k) r = rejestr_czasu B (zegar t) r))))"

definition spokojny :: "cmos \<Rightarrow> nat \<Rightarrow> bool" where
  "spokojny c t \<longleftrightarrow> c t RTC_REJ_A AND RTC_A_UIP = 0"

lemma probka_po_uip:
  assumes z: "zegar_cmos c B D zegar" and u: "spokojny c t"
  shows "pobierz_probke_surowa c (t + 1) = (probka_czasu B D (zegar t), t + 9)"
proof -
  have r: "c (t + k) r = rejestr_czasu B (zegar t) r" if "k \<le> 8" "r \<in> set rejestry_czasu" for k r
    using z u that unfolding zegar_cmos_def spokojny_def by blast
  have bd: "c t' RTC_REJ_B = B" "c t' RTC_REJ_D = D" for t' using z unfolding zegar_cmos_def by blast+
  have q: "c (t + 1) RTC_REJ_SEKUNDY = rejestr_czasu B (zegar t) RTC_REJ_SEKUNDY"
    "c (t + 1 + 1) RTC_REJ_MINUTY = rejestr_czasu B (zegar t) RTC_REJ_MINUTY"
    "c (t + 1 + 1 + 1) RTC_REJ_GODZINY = rejestr_czasu B (zegar t) RTC_REJ_GODZINY"
    "c (t + 1 + 1 + 1 + 1) RTC_REJ_DZIEN = rejestr_czasu B (zegar t) RTC_REJ_DZIEN"
    "c (t + 1 + 1 + 1 + 1 + 1) RTC_REJ_MIESIAC = rejestr_czasu B (zegar t) RTC_REJ_MIESIAC"
    "c (t + 1 + 1 + 1 + 1 + 1 + 1) RTC_REJ_ROK = rejestr_czasu B (zegar t) RTC_REJ_ROK"
    unfolding add.assoc by (rule r, simp, simp add: rejestry_czasu_def)+
  have indeksy: "RTC_REJ_SEKUNDY AND 0x7F = RTC_REJ_SEKUNDY" "RTC_REJ_MINUTY AND 0x7F = RTC_REJ_MINUTY"
    "RTC_REJ_GODZINY AND 0x7F = RTC_REJ_GODZINY" "RTC_REJ_DZIEN AND 0x7F = RTC_REJ_DZIEN"
    "RTC_REJ_MIESIAC AND 0x7F = RTC_REJ_MIESIAC" "RTC_REJ_ROK AND 0x7F = RTC_REJ_ROK"
    "RTC_REJ_B AND 0x7F = RTC_REJ_B" "RTC_REJ_D AND 0x7F = RTC_REJ_D" by simp_all
  show ?thesis
    unfolding pobierz_probke_surowa_def pobierz_rejestr_rtc_def probka_czasu_def indeksy Let_def prod.case q bd by simp
qed

lemma aktualizacja_spokojny: "aktualizacja_w_toku c t = (\<not> spokojny c t, t + 1)"
  by (simp add: aktualizacja_w_toku_def pobierz_rejestr_rtc_def spokojny_def)

lemma czekaj_od_wynik: "czekaj_od n c t = (ok, t1) \<Longrightarrow> t \<le> t1 \<and> (ok \<longrightarrow> (\<exists>u. t \<le> u \<and> t1 = u + 1 \<and> spokojny c u))"
proof (induction n arbitrary: t)
  case (Suc n)
  show ?case
  proof (cases "spokojny c t")
    case True
    then show ?thesis using Suc.prems by (auto simp: aktualizacja_spokojny)
  next
    case False
    then have "czekaj_od n c (t + 1) = (ok, t1)" using Suc.prems by (simp add: aktualizacja_spokojny)
    from Suc.IH [OF this] have l: "t + 1 \<le> t1" and k: "ok \<longrightarrow> (\<exists>u. t + 1 \<le> u \<and> t1 = u + 1 \<and> spokojny c u)" by blast+
    show ?thesis
    proof (intro conjI impI)
      assume ok
      with k obtain u where "t + 1 \<le> u" "t1 = u + 1" "spokojny c u" by blast
      then show "\<exists>u. t \<le> u \<and> t1 = u + 1 \<and> spokojny c u" by (intro exI [of _ u]) simp
    qed (use l in simp)
  qed
qed simp

lemma czekaj_spokojny: "spokojny c t \<Longrightarrow> czekaj_na_koniec_aktualizacji c t = (True, t + 1)"
proof -
  assume "spokojny c t"
  then have "czekaj_od (Suc n) c t = (True, t + 1)" for n by (simp add: aktualizacja_spokojny)
  from this [of 9999] show ?thesis by (simp add: czekaj_na_koniec_aktualizacji_def)
qed

text \<open>A sample that is returned holds the time of some moment of the call.\<close>

lemma stabilna_od_wynik:
  assumes z: "zegar_cmos c B D zegar"
  shows "stabilna_od n c t = (p, t') \<Longrightarrow> t \<le> t' \<and> (p \<noteq> None \<longrightarrow> (\<exists>u. t \<le> u \<and> u < t' \<and> p = Some (probka_czasu B D (zegar u))))"
proof (induction n arbitrary: t)
  case (Suc n)
  have dalej: ?case if "stabilna_od n c t2 = (p, t')" "t \<le> t2" for t2
    using Suc.IH [OF that(1)] that(2) le_trans by blast
  obtain ok t1 where w1: "czekaj_na_koniec_aktualizacji c t = (ok, t1)" by fastforce
  note c1 = czekaj_od_wynik [OF w1 [unfolded czekaj_na_koniec_aktualizacji_def]]
  show ?case
  proof (cases ok)
    case False
    then show ?thesis using Suc.prems w1 c1 by auto
  next
    case True
    then obtain u1 where u1: "t \<le> u1" "t1 = u1 + 1" "spokojny c u1" using c1 by blast
    note p1 = probka_po_uip [OF z u1(3)]
    obtain ok2 t4 where w2: "czekaj_na_koniec_aktualizacji c (u1 + 10) = (ok2, t4)" by fastforce
    note c2 = czekaj_od_wynik [OF w2 [unfolded czekaj_na_koniec_aktualizacji_def]]
    note krok = Suc.prems [unfolded stabilna_od.simps w1 u1(2) p1 prod.case aktualizacja_spokojny]
    show ?thesis
    proof (cases "spokojny c (u1 + 9) \<and> ok2")
      case False
      have a: "u1 + 9 + 1 = u1 + 10" by simp
      consider "stabilna_od n c (u1 + 10) = (p, t')" | "p = None" "t' = t4" "u1 + 10 \<le> t4"
        using krok \<open>ok\<close> False c2 unfolding a w2 prod.case by (auto split: if_splits)
      then show ?thesis
      proof cases
        case 1
        then show ?thesis using dalej u1(1) by simp
      next
        case 2
        then show ?thesis using u1(1) by simp
      qed
    next
      case True
      then obtain u2 where u2: "u1 + 10 \<le> u2" "t4 = u2 + 1" "spokojny c u2" using c2 by blast
      note p2 = probka_po_uip [OF z u2(3)]
      have a: "u1 + 9 + 1 = u1 + 10" "u2 + 9 + 1 = u2 + 10" by simp_all
      have "(if \<not> ok then (None, u1 + 1) else if \<not> spokojny c (u1 + 9) then stabilna_od n c (u1 + 10)
          else if \<not> ok2 then (None, u2 + 1) else if \<not> spokojny c (u2 + 9) then stabilna_od n c (u2 + 10)
          else if probki_rowne (probka_czasu B D (zegar u1)) (probka_czasu B D (zegar u2))
            then (Some (probka_czasu B D (zegar u2)), u2 + 10) else stabilna_od n c (u2 + 10)) = (p, t')"
        using krok unfolding a w2 u2(2) prod.case p2 aktualizacja_spokojny a .
      then consider "stabilna_od n c (u2 + 10) = (p, t')" | "p = Some (probka_czasu B D (zegar u2))" "t' = u2 + 10"
        using \<open>ok\<close> True by (metis prod.inject)
      then show ?thesis
      proof cases
        case 1
        then show ?thesis using dalej u1(1) u2(1) by simp
      next
        case 2
        then show ?thesis using u1(1) u2(1) by (intro conjI impI exI [of _ u2]) simp_all
      qed
    qed
  qed
qed simp

text \<open>With the update flag clear and the clock standing for twenty reads, the first attempt succeeds.\<close>

lemma stabilna_spokojna:
  assumes z: "zegar_cmos c B D zegar" and s: "\<forall>k < 20. spokojny c (t + k) \<and> zegar (t + k) = zegar t"
  shows "pobierz_stabilna_probke c t = (Some (probka_czasu B D (zegar t)), t + 20)"
proof -
  have u: "spokojny c t" "spokojny c (t + 9)" "spokojny c (t + 10)" "spokojny c (t + 19)" and r: "zegar (t + 10) = zegar t"
    using s [THEN spec, of 0] s [THEN spec, of 9] s [THEN spec, of 10] s [THEN spec, of 19] by simp_all
  have a: "t + 9 + 1 = t + 10" "t + 10 + 9 = t + 19" "t + 19 + 1 = t + 20" by simp_all
  have "stabilna_od (Suc n) c t = (Some (probka_czasu B D (zegar t)), t + 20)" for n
    unfolding stabilna_od.simps czekaj_spokojny [OF u(1)] prod.case probka_po_uip [OF z u(1)] aktualizacja_spokojny a
      czekaj_spokojny [OF u(3)] probka_po_uip [OF z u(3)] r
    using u by (simp add: probki_rowne_def)
  from this [of 7] show ?thesis by (simp add: pobierz_stabilna_probke_def)
qed

subsection \<open>The time that is reported\<close>

text \<open>The local time in Poland at the UTC time \<open>u\<close>.\<close>

definition czas_polski :: "czas_rtc \<Rightarrow> czas_rtc \<Rightarrow> bool" where
  "czas_polski u w \<longleftrightarrow> czas_poprawny w \<and> rtc_sekundy w = rtc_sekundy u \<and>
     minuta_ery w = minuta_ery u + (if czas_letni u then 120 else 60)"

lemma czas_lokalny:
  assumes "czas_ukladu u"
  shows "\<exists>w. przesun_czas_o_minuty u (polska_strefa_minuty_utc u) = (True, w) \<and> czas_polski u w"
proof -
  have c: "czas_poprawny u" and r: "unat (rtc_rok u) < 65535" using assms by (auto simp: czas_ukladu_def)
  have s: "polska_strefa_minuty_utc u = (if czas_letni u then 120 else 60)" using strefa_letnia [OF c] r by simp
  show ?thesis
    using przesun_naprzod [OF c r, of "polska_strefa_minuty_utc u"] unfolding s czas_polski_def by (cases "czas_letni u") auto
qed

lemma odczyt_probki:
  assumes z: "zegar_cmos c B D zegar" and p: "pobierz_stabilna_probke c t = (Some (probka_czasu B D (zegar u)), t1)"
  shows "\<exists>w. pobierz_czas_rtc_wewnetrznie c t = (Some w, t1) \<and> czas_polski (zegar u) w"
proof -
  have d: "D AND RTC_D_VRT \<noteq> 0" and u: "czas_ukladu (zegar u)" using z unfolding zegar_cmos_def by blast+
  obtain w where w: "przesun_czas_o_minuty (zegar u) (polska_strefa_minuty_utc (zegar u)) = (True, w)" "czas_polski (zegar u) w"
    using czas_lokalny [OF u] by blast
  have "skonwertuj_probke (probka_czasu B D (zegar u)) = Some (zegar u)" "czas_poprawny (zegar u)"
    using u d skonwertuj_kod by (auto simp: czas_ukladu_def)
  then have "pobierz_czas_rtc_wewnetrznie c t = (Some w, t1)"
    using w by (simp add: pobierz_czas_rtc_wewnetrznie_def p czas_polski_def)
  then show ?thesis using w(2) by blast
qed

lemma wewnetrzny_wynik:
  assumes z: "zegar_cmos c B D zegar" and w: "pobierz_czas_rtc_wewnetrznie c t = (w, t1)"
  shows "w = None \<or> (\<exists>u x. w = Some x \<and> t \<le> u \<and> u < t1 \<and> czas_polski (zegar u) x)"
proof -
  obtain p t2 where p: "pobierz_stabilna_probke c t = (p, t2)" by fastforce
  note s = stabilna_od_wynik [OF z p [unfolded pobierz_stabilna_probke_def], THEN conjunct2]
  show ?thesis
  proof (cases p)
    case None
    then show ?thesis using w p by (simp add: pobierz_czas_rtc_wewnetrznie_def)
  next
    case (Some q)
    then obtain u where u: "t \<le> u" "u < t2" "p = Some (probka_czasu B D (zegar u))" using s by blast
    obtain x where "pobierz_czas_rtc_wewnetrznie c t = (Some x, t2)" "czas_polski (zegar u) x"
      using odczyt_probki [OF z p [unfolded u(3)]] by blast
    then show ?thesis using w u by auto
  qed
qed

text \<open>
  C39. Take a clock chip that keeps UTC in 2000 to 2099 and leaves its registers alone for eight reads
  once its update flag reads clear, in BCD or binary, with 12 or 24 hours. Then \<open>pobierz_czas_rtc\<close>
  reports the Polish local time of a moment of the call itself: a valid date, the same seconds, and two
  hours later than UTC from 01:00 UTC of the last Sunday of March to 01:00 UTC of the last Sunday of
  October, one hour otherwise, dates, months and years carried as in the Gregorian calendar; it
  remembers that time. Otherwise it reports the time it remembered last, or the start of 2000 when there
  is none, and the state stays. If the flag reads clear and the clock stands for twenty reads, the time
  reported is that of the clock.
\<close>

theorem czas_rtc_lokalny:
  assumes "zegar_cmos c B D zegar" and "pobierz_czas_rtc c t s = (w, t', s')"
  shows "((\<exists>u. t \<le> u \<and> u < t' \<and> czas_polski (zegar u) w) \<and> s' = s\<lparr>rs_ostatni := w, rs_mamy := True\<rparr> \<or>
      w = (if rs_mamy s then rs_ostatni s else ustaw_czas_awaryjny) \<and> s' = s) \<and>
    ((\<forall>k < 20. spokojny c (t + k) \<and> zegar (t + k) = zegar t) \<longrightarrow>
      czas_polski (zegar t) w \<and> s' = s\<lparr>rs_ostatni := w, rs_mamy := True\<rparr>)"
proof (intro conjI impI)
  obtain x t1 where x: "pobierz_czas_rtc_wewnetrznie c t = (x, t1)" by fastforce
  show "(\<exists>u. t \<le> u \<and> u < t' \<and> czas_polski (zegar u) w) \<and> s' = s\<lparr>rs_ostatni := w, rs_mamy := True\<rparr> \<or>
      w = (if rs_mamy s then rs_ostatni s else ustaw_czas_awaryjny) \<and> s' = s"
    using wewnetrzny_wynik [OF assms(1) x] assms(2) x by (auto simp: pobierz_czas_rtc_def)
  assume "\<forall>k < 20. spokojny c (t + k) \<and> zegar (t + k) = zegar t"
  from odczyt_probki [OF assms(1) stabilna_spokojna [OF assms(1) this]]
  show "czas_polski (zegar t) w" "s' = s\<lparr>rs_ostatni := w, rs_mamy := True\<rparr>"
    using assms(2) by (auto simp: pobierz_czas_rtc_def)
qed

definition czas_lipca :: czas_rtc where
  "czas_lipca = \<lparr>rtc_sekundy = 30, rtc_minuty = 15, rtc_godziny = 22, rtc_dzien = 31, rtc_miesiac = 7, rtc_rok = 2026\<rparr>"

definition uklad_lipca :: cmos where
  "uklad_lipca t r = (if r = RTC_REJ_A then 0 else if r = RTC_REJ_B then 0 else if r = RTC_REJ_D then 0x80 else rejestr_czasu 0 czas_lipca r)"

lemma uklad_lipca_zegar: "zegar_cmos uklad_lipca 0 0x80 (\<lambda>t. czas_lipca)"
proof -
  have "czas_ukladu czas_lipca" by code_simp
  then show ?thesis by (auto simp: zegar_cmos_def uklad_lipca_def rejestry_czasu_def)
qed

lemma czas_rtc_lokalny_witness:
  "case pobierz_czas_rtc uklad_lipca 0 \<lparr>rs_ostatni = ustaw_czas_awaryjny, rs_mamy = False\<rparr> of (w, t', s') \<Rightarrow>
     czas_polski czas_lipca w \<and> rs_mamy s'"
proof -
  obtain w t' s' where p: "pobierz_czas_rtc uklad_lipca 0 \<lparr>rs_ostatni = ustaw_czas_awaryjny, rs_mamy = False\<rparr> = (w, t', s')"
    using prod_cases3 by blast
  have "\<forall>k < 20. spokojny uklad_lipca (0 + k)" by (simp add: spokojny_def uklad_lipca_def)
  then show ?thesis using czas_rtc_lokalny [OF uklad_lipca_zegar p] by (simp add: p)
qed

end
