(* ===== verification/Siec.thy ===== *)
theory Siec
  imports Preludium
begin

section \<open>The network stack: bytes, tables and frames sent\<close>

text \<open>
  \<open>siec.cpp\<close> without the functions that wait: byte order, checksums, the ARP table, the building of
  Ethernet, ARP, IPv4 and TCP frames, and the TCP session with its socket buffer. The frames given to
  the card are kept in order in \<open>si_wyslane\<close>. The card is a parameter \<open>karta\<close>: its hardware address,
  whether the \<open>k\<close>-th transmission is confirmed, the frames its receive ring holds at the \<open>k\<close>-th poll, and
  the \<open>k\<close>-th reading of the clock.
\<close>

type_synonym pam = "nat \<Rightarrow> u8"
type_synonym bajty = "u8 list"

record karta =
  ka_mac :: bajty
  ka_tx :: "nat \<Rightarrow> bool"
  ka_rx :: "nat \<Rightarrow> bajty list"
  ka_czas :: "nat \<Rightarrow> u64"

abbreviation ETH_LEN :: nat where "ETH_LEN \<equiv> 14"
abbreviation ARP_LEN :: nat where "ARP_LEN \<equiv> 28"
abbreviation IPV4_MIN_LEN :: nat where "IPV4_MIN_LEN \<equiv> 20"
abbreviation UDP_LEN :: nat where "UDP_LEN \<equiv> 8"
abbreviation TCP_MIN_LEN :: nat where "TCP_MIN_LEN \<equiv> 20"
abbreviation ICMP_ECHO_LEN :: nat where "ICMP_ECHO_LEN \<equiv> 8"
abbreviation ETHERTYPE_IPV4 :: u16 where "ETHERTYPE_IPV4 \<equiv> 0x0800"
abbreviation ETHERTYPE_ARP :: u16 where "ETHERTYPE_ARP \<equiv> 0x0806"
abbreviation IP_PROTO_ICMP :: u8 where "IP_PROTO_ICMP \<equiv> 1"
abbreviation IP_PROTO_TCP :: u8 where "IP_PROTO_TCP \<equiv> 6"
abbreviation IP_PROTO_UDP :: u8 where "IP_PROTO_UDP \<equiv> 17"
abbreviation PORT_DHCP_SERVER :: u16 where "PORT_DHCP_SERVER \<equiv> 67"
abbreviation PORT_DHCP_CLIENT :: u16 where "PORT_DHCP_CLIENT \<equiv> 68"
abbreviation PORT_DNS :: u16 where "PORT_DNS \<equiv> 53"
abbreviation PORT_HTTP :: u16 where "PORT_HTTP \<equiv> 80"
abbreviation PORT_EPHEMERAL_MIN :: u16 where "PORT_EPHEMERAL_MIN \<equiv> 49152"
abbreviation PORT_EPHEMERAL_START :: u16 where "PORT_EPHEMERAL_START \<equiv> 50000"
abbreviation PORT_DNS_START :: u16 where "PORT_DNS_START \<equiv> 53000"
abbreviation TCP_FLAG_FIN :: u8 where "TCP_FLAG_FIN \<equiv> 0x01"
abbreviation TCP_FLAG_SYN :: u8 where "TCP_FLAG_SYN \<equiv> 0x02"
abbreviation TCP_FLAG_RST :: u8 where "TCP_FLAG_RST \<equiv> 0x04"
abbreviation TCP_FLAG_PSH :: u8 where "TCP_FLAG_PSH \<equiv> 0x08"
abbreviation TCP_FLAG_ACK :: u8 where "TCP_FLAG_ACK \<equiv> 0x10"
abbreviation TCP_OKNO :: u16 where "TCP_OKNO \<equiv> 8192"
abbreviation TCP_MSS_WYSYLANIA :: nat where "TCP_MSS_WYSYLANIA \<equiv> 1400"
abbreviation MAKS_RAMKA_ETH :: nat where "MAKS_RAMKA_ETH \<equiv> 1514"
abbreviation MAKS_PAKIET_IPV4 :: nat where "MAKS_PAKIET_IPV4 \<equiv> 1500"
abbreviation ROZMIAR_TABLICY_ARP :: nat where "ROZMIAR_TABLICY_ARP \<equiv> 16"
abbreviation TCP_BUFOR_GNIAZDA :: u32 where "TCP_BUFOR_GNIAZDA \<equiv> 65536"

subsection \<open>The globals\<close>

record ArpWpis =
  aw_ip :: bajty
  aw_mac :: bajty
  aw_aktywny :: bool
  aw_generacja :: u32

datatype StanTCP = ZAMKNIETY | SYN_WYSLANY | USTANOWIONY | FIN_WYSLANY

record siec =
  si_nasz_ip :: bajty
  si_brama_ip :: bajty
  si_maska :: bajty
  si_serwer_dns :: bajty
  si_gotowa :: bool
  si_ipv4_id :: u16
  si_port_eph :: u16
  si_port_dns :: u16
  si_dns_id :: u16
  si_dhcp_xid :: u32
  si_offer_ip :: bajty
  si_offer_serwer :: bajty
  si_offer_maska :: bajty
  si_offer_brama :: bajty
  si_offer_dns :: bajty
  si_offer :: bool
  si_dhcp_ack :: bool
  si_dhcp_nak :: bool
  si_arp :: "ArpWpis list"
  si_arp_generacja :: u32
  si_arp_indeks :: nat
  si_ping_ip :: bajty
  si_ping_id :: u16
  si_ping_seq :: u16
  si_pong :: bool
  si_dns_odebrano :: bool
  si_dns_wynik :: bajty
  si_dns_oczekiwane_id :: u16
  si_dns_oczekiwany_port :: u16
  si_dns_oczekiwany_serwer :: bajty
  si_stan :: StanTCP
  si_seq :: u32
  si_ack :: u32
  si_nasz_port :: u16
  si_cel_port :: u16
  si_cel_ip :: bajty
  si_cel_mac :: bajty
  si_tryb_gniazda :: bool
  si_zajeta :: bool
  si_przepelnienie :: bool
  si_rst :: bool
  si_odbiornik :: bool
  si_odebrane :: pam
  si_max :: u32
  si_zapisano :: u32
  si_dane_odebrane :: bool
  si_bufor :: pam
  si_poczatek :: u32
  si_koniec :: u32
  si_isn :: u32
  si_rx_ipv4 :: u64
  si_rx_udp :: u64
  si_rx_dns :: u64
  si_rx_arp :: u64
  si_rx_icmp :: u64
  si_wyslane :: "bajty list"
  si_n_tx :: nat
  si_n_rx :: nat
  si_n_czas :: nat

subsection \<open>Byte order\<close>

definition zamien16 :: "u16 \<Rightarrow> u16" where
  "zamien16 v = push_bit 8 v OR drop_bit 8 v"

definition zamien32 :: "u32 \<Rightarrow> u32" where
  "zamien32 v = push_bit 24 (v AND 0x000000FF) OR push_bit 8 (v AND 0x0000FF00) OR
     drop_bit 8 (v AND 0x00FF0000) OR drop_bit 24 (v AND 0xFF000000)"

definition host_na_siec16 :: "u16 \<Rightarrow> u16" where "host_na_siec16 v = zamien16 v"
definition siec_na_host16 :: "u16 \<Rightarrow> u16" where "siec_na_host16 v = zamien16 v"
definition host_na_siec32 :: "u32 \<Rightarrow> u32" where "host_na_siec32 v = zamien32 v"
definition siec_na_host32 :: "u32 \<Rightarrow> u32" where "siec_na_host32 v = zamien32 v"

text \<open>A field of a packed header in memory, low byte first.\<close>

definition pole16 :: "pam \<Rightarrow> nat \<Rightarrow> u16" where
  "pole16 f p = ucast (f p) OR push_bit 8 (ucast (f (p + 1)))"

definition pole32 :: "pam \<Rightarrow> nat \<Rightarrow> u32" where
  "pole32 f p = ucast (f p) OR push_bit 8 (ucast (f (p + 1))) OR push_bit 16 (ucast (f (p + 2))) OR push_bit 24 (ucast (f (p + 3)))"

definition slowo16 :: "u16 \<Rightarrow> bajty" where
  "slowo16 v = [ucast v, ucast (drop_bit 8 v)]"

definition slowo32 :: "u32 \<Rightarrow> bajty" where
  "slowo32 v = [ucast v, ucast (drop_bit 8 v), ucast (drop_bit 16 v), ucast (drop_bit 24 v)]"

definition czytaj_be16 :: "pam \<Rightarrow> nat \<Rightarrow> u16" where
  "czytaj_be16 f p = push_bit 8 (ucast (f p)) OR ucast (f (p + 1))"

definition czytaj_be32 :: "pam \<Rightarrow> nat \<Rightarrow> u32" where
  "czytaj_be32 f p = push_bit 24 (ucast (f p)) OR push_bit 16 (ucast (f (p + 1))) OR push_bit 8 (ucast (f (p + 2))) OR ucast (f (p + 3))"

definition zapisz_be16 :: "u16 \<Rightarrow> bajty" where
  "zapisz_be16 v = [ucast (drop_bit 8 v), ucast (v AND 0xFF)]"

definition zapisz_be32 :: "u32 \<Rightarrow> bajty" where
  "zapisz_be32 v = [ucast (drop_bit 24 v), ucast (drop_bit 16 v AND 0xFF), ucast (drop_bit 8 v AND 0xFF), ucast (v AND 0xFF)]"

definition bajty_od :: "pam \<Rightarrow> nat \<Rightarrow> nat \<Rightarrow> bajty" where
  "bajty_od f p n = map f [p ..< p + n]"

definition kopiuj_bajty :: "pam \<Rightarrow> nat \<Rightarrow> bajty \<Rightarrow> pam" where
  "kopiuj_bajty d p xs = (\<lambda>i. if p \<le> i \<and> i < p + length xs then xs ! (i - p) else d i)"

subsection \<open>Addresses\<close>

definition ip_rowne :: "bajty \<Rightarrow> bajty \<Rightarrow> bool" where
  "ip_rowne a b \<longleftrightarrow> a ! 0 = b ! 0 \<and> a ! 1 = b ! 1 \<and> a ! 2 = b ! 2 \<and> a ! 3 = b ! 3"

definition mac_rowne :: "bajty \<Rightarrow> bajty \<Rightarrow> bool" where
  "mac_rowne a b \<longleftrightarrow> list_all (\<lambda>i. a ! i = b ! i) [0 ..< 6]"

definition ip_jest_zero :: "bajty \<Rightarrow> bool" where
  "ip_jest_zero ip \<longleftrightarrow> ip ! 0 = 0 \<and> ip ! 1 = 0 \<and> ip ! 2 = 0 \<and> ip ! 3 = 0"

definition ip_jest_broadcast :: "bajty \<Rightarrow> bool" where
  "ip_jest_broadcast ip \<longleftrightarrow> ip ! 0 = 255 \<and> ip ! 1 = 255 \<and> ip ! 2 = 255 \<and> ip ! 3 = 255"

definition ip_jest_multicast :: "bajty \<Rightarrow> bool" where
  "ip_jest_multicast ip \<longleftrightarrow> ip ! 0 \<ge> 224 \<and> ip ! 0 \<le> 239"

definition mac_jest_broadcast :: "bajty \<Rightarrow> bool" where
  "mac_jest_broadcast mac \<longleftrightarrow> list_all (\<lambda>i. mac ! i = 0xFF) [0 ..< 6]"

definition mac_jest_poprawny :: "bajty \<Rightarrow> bool" where
  "mac_jest_poprawny mac =
     (let suma = fold (\<lambda>i x. x OR mac ! i) [0 ..< 6] 0 in
      if suma = 0 \<or> mac_jest_broadcast mac then False
      else if mac ! 0 AND 0x01 \<noteq> 0 then False
      else True)"

definition arp_ip_poprawne :: "bajty \<Rightarrow> bool" where
  "arp_ip_poprawne ip = (if ip_jest_zero ip \<or> ip_jest_broadcast ip \<or> ip_jest_multicast ip then False else True)"

definition ip_w_naszej_podsieci :: "bajty \<Rightarrow> siec \<Rightarrow> bool" where
  "ip_w_naszej_podsieci ip s \<longleftrightarrow> list_all (\<lambda>i. ip ! i AND si_maska s ! i = si_nasz_ip s ! i AND si_maska s ! i) [0 ..< 4]"

subsection \<open>The Internet checksum\<close>

fun suma_dodaj_bajty :: "u32 \<Rightarrow> bajty \<Rightarrow> u32" where
  "suma_dodaj_bajty suma (a # b # dane) = suma_dodaj_bajty (suma + (push_bit 8 (ucast a) OR ucast b)) dane"
| "suma_dodaj_bajty suma [a] = suma + push_bit 8 (ucast a)"
| "suma_dodaj_bajty suma [] = suma"

lemma suma_zakoncz_maleje: "drop_bit 16 (suma :: u32) \<noteq> 0 \<Longrightarrow> unat ((suma AND 0xFFFF) + drop_bit 16 suma) < unat suma"
proof -
  assume d: "drop_bit 16 suma \<noteq> 0"
  have m: "unat (suma AND 0xFFFF) = unat suma mod 65536"
  proof -
    have "suma AND 0xFFFF = take_bit 16 suma" by (simp add: take_bit_eq_mask mask_eq_exp_minus_1)
    then show ?thesis by (simp add: take_bit_eq_mod unat_mod_distrib)
  qed
  have q: "unat (drop_bit 16 suma) = unat suma div 65536" by (simp add: drop_bit_eq_div unat_div_distrib)
  have u: "unat suma < 4294967296" using unsigned_less [of suma] by simp
  have "unat suma div 65536 \<noteq> 0" using d q by (metis unat_eq_zero)
  then have g: "65536 \<le> unat suma" by (metis div_less linorder_not_less)
  have "unat suma mod 65536 + unat suma div 65536 < 4294967296" using u by (simp add: mod_less_divisor trans_less_add1)
  then have "unat ((suma AND 0xFFFF) + drop_bit 16 suma) = unat suma mod 65536 + unat suma div 65536"
    by (simp add: unat_word_ariths m q)
  moreover have "unat suma = 65536 * (unat suma div 65536) + unat suma mod 65536" by simp
  moreover have "1 \<le> unat suma div 65536" using g div_le_mono [OF g, of 65536] by simp
  ultimately show ?thesis by linarith
qed

function suma_sloz :: "u32 \<Rightarrow> u32" where
  "suma_sloz suma = (if drop_bit 16 suma \<noteq> 0 then suma_sloz ((suma AND 0xFFFF) + drop_bit 16 suma) else suma)"
  by pat_completeness auto
termination by (relation "measure unat") (auto intro: suma_zakoncz_maleje)

declare suma_sloz.simps [simp del]

definition suma_zakoncz :: "u32 \<Rightarrow> u16" where
  "suma_zakoncz suma = ucast (NOT (suma_sloz suma) AND 0xFFFF)"

definition suma_kontrolna_bajty :: "bajty \<Rightarrow> u16" where
  "suma_kontrolna_bajty dane = suma_zakoncz (suma_dodaj_bajty 0 dane)"

definition suma_transport_ipv4 :: "bajty \<Rightarrow> bajty \<Rightarrow> u8 \<Rightarrow> bajty \<Rightarrow> u16" where
  "suma_transport_ipv4 zrodlo_ip cel_ip protokol segment =
     (let suma = suma_dodaj_bajty 0 zrodlo_ip;
          suma = suma_dodaj_bajty suma cel_ip;
          suma = suma + ucast protokol;
          suma = suma + of_nat (length segment);
          wynik = suma_zakoncz (suma_dodaj_bajty suma segment)
      in if wynik = 0 \<and> protokol = IP_PROTO_UDP then 0xFFFF else wynik)"

definition oblicz_sume_kontrolna :: "bajty \<Rightarrow> u16" where
  "oblicz_sume_kontrolna dane = (if dane = [] then 0 else suma_kontrolna_bajty dane)"

subsection \<open>Numbers given out\<close>

definition przydziel_port :: "u16 \<Rightarrow> u16 \<Rightarrow> u16 \<times> u16" where
  "przydziel_port licznik poczatek =
     (let nowy = licznik + 1;
          nowy = (if nowy < PORT_EPHEMERAL_MIN \<or> nowy = 0 then poczatek else nowy);
          wynik = (if licznik < PORT_EPHEMERAL_MIN then poczatek else licznik)
      in (wynik, nowy))"

definition przydziel_ipv4_id :: "siec \<Rightarrow> u16 \<times> siec" where
  "przydziel_ipv4_id s =
     (let ident = si_ipv4_id s; nowy = ident + 1 in (ident, s\<lparr>si_ipv4_id := (if nowy = 0 then 1 else nowy)\<rparr>))"

subsection \<open>The ARP table\<close>

definition pusty_wpis_arp :: ArpWpis where
  "pusty_wpis_arp = \<lparr>aw_ip = [0, 0, 0, 0], aw_mac = [0, 0, 0, 0, 0, 0], aw_aktywny = False, aw_generacja = 0\<rparr>"

definition wyczysc_cache_arp :: "siec \<Rightarrow> siec" where
  "wyczysc_cache_arp s = s\<lparr>si_arp := replicate ROZMIAR_TABLICY_ARP pusty_wpis_arp, si_arp_generacja := 1, si_arp_indeks := 0\<rparr>"

fun szukaj_arp_od :: "nat list \<Rightarrow> bajty \<Rightarrow> siec \<Rightarrow> bajty option \<times> siec" where
  "szukaj_arp_od [] ip s = (None, s)"
| "szukaj_arp_od (i # is) ip s =
     (let wpis = si_arp s ! i in
      if \<not> aw_aktywny wpis \<or> \<not> ip_rowne (aw_ip wpis) ip then szukaj_arp_od is ip s
      else if \<not> mac_jest_poprawny (aw_mac wpis)
      then szukaj_arp_od is ip (s\<lparr>si_arp := (si_arp s)[i := wpis\<lparr>aw_aktywny := False\<rparr>]\<rparr>)
      else (Some (aw_mac wpis), s\<lparr>si_arp := (si_arp s)[i := wpis\<lparr>aw_generacja := si_arp_generacja s\<rparr>],
              si_arp_generacja := si_arp_generacja s + 1\<rparr>))"

definition szukaj_w_cache_arp :: "bajty \<Rightarrow> siec \<Rightarrow> bajty option \<times> siec" where
  "szukaj_w_cache_arp ip s = szukaj_arp_od [0 ..< ROZMIAR_TABLICY_ARP] ip s"

text \<open>The three ways an entry is written: a known address, a free entry, the next in turn.\<close>

definition wpisz_arp :: "nat \<Rightarrow> bajty \<Rightarrow> bajty \<Rightarrow> siec \<Rightarrow> siec" where
  "wpisz_arp i ip mac s = s\<lparr>si_arp := (si_arp s)[i := \<lparr>aw_ip = ip, aw_mac = mac, aw_aktywny = True, aw_generacja = si_arp_generacja s\<rparr>],
     si_arp_generacja := si_arp_generacja s + 1\<rparr>"

definition dodaj_do_cache_arp :: "bajty \<Rightarrow> bajty \<Rightarrow> siec \<Rightarrow> siec" where
  "dodaj_do_cache_arp ip mac s =
     (if \<not> arp_ip_poprawne ip \<or> \<not> mac_jest_poprawny mac then s
      else case find (\<lambda>i. aw_aktywny (si_arp s ! i) \<and> ip_rowne (aw_ip (si_arp s ! i)) ip) [0 ..< ROZMIAR_TABLICY_ARP] of
        Some i \<Rightarrow> s\<lparr>si_arp := (si_arp s)[i := (si_arp s ! i)\<lparr>aw_mac := mac, aw_generacja := si_arp_generacja s\<rparr>],
                    si_arp_generacja := si_arp_generacja s + 1\<rparr>
      | None \<Rightarrow> (case find (\<lambda>i. \<not> aw_aktywny (si_arp s ! i)) [0 ..< ROZMIAR_TABLICY_ARP] of
          Some i \<Rightarrow> wpisz_arp i ip mac s
        | None \<Rightarrow> wpisz_arp (si_arp_indeks s) ip mac (s\<lparr>si_arp_indeks := (si_arp_indeks s + 1) mod ROZMIAR_TABLICY_ARP\<rparr>)))"

subsection \<open>Frames sent\<close>

definition mac_karty_gotowy :: "karta \<Rightarrow> bool" where
  "mac_karty_gotowy K = mac_jest_poprawny (ka_mac K)"

text \<open>The 14 bytes of the Ethernet header.\<close>

definition wypelnij_eth :: "karta \<Rightarrow> bajty \<Rightarrow> u16 \<Rightarrow> bajty" where
  "wypelnij_eth K cel_mac typ = cel_mac @ ka_mac K @ slowo16 (host_na_siec16 typ)"

text \<open>The 20 bytes of the IPv4 header with the checksum field given.\<close>

definition naglowek_ipv4 :: "u16 \<Rightarrow> u16 \<Rightarrow> u8 \<Rightarrow> bajty \<Rightarrow> bajty \<Rightarrow> u16 \<Rightarrow> bajty" where
  "naglowek_ipv4 dl ident protokol zrodlo cel suma =
     [0x45, 0] @ slowo16 (host_na_siec16 dl) @ slowo16 (host_na_siec16 ident) @ slowo16 (host_na_siec16 0x4000) @
     [64, protokol] @ slowo16 suma @ zrodlo @ cel"

definition wypelnij_ipv4 :: "u16 \<Rightarrow> u8 \<Rightarrow> bajty \<Rightarrow> bajty \<Rightarrow> siec \<Rightarrow> bajty option \<times> siec" where
  "wypelnij_ipv4 calkowita_dlugosc protokol zrodlo cel s =
     (if calkowita_dlugosc < of_nat IPV4_MIN_LEN then (None, s)
      else case przydziel_ipv4_id s of (ident, s1) \<Rightarrow>
        (Some (naglowek_ipv4 calkowita_dlugosc ident protokol zrodlo cel
           (host_na_siec16 (suma_kontrolna_bajty (naglowek_ipv4 calkowita_dlugosc ident protokol zrodlo cel 0)))), s1))"

text \<open>The frame handed to the driver; the driver may report a failure although the card has it.\<close>

definition e1000_wyslij_pakiet :: "karta \<Rightarrow> bajty \<Rightarrow> siec \<Rightarrow> bool \<times> siec" where
  "e1000_wyslij_pakiet K ramka s = (ka_tx K (si_n_tx s), s\<lparr>si_wyslane := si_wyslane s @ [ramka], si_n_tx := si_n_tx s + 1\<rparr>)"

definition wyslij_ethernet :: "karta \<Rightarrow> bajty \<Rightarrow> siec \<Rightarrow> bool \<times> siec" where
  "wyslij_ethernet K ramka s =
     (if length ramka < ETH_LEN \<or> length ramka > MAKS_RAMKA_ETH \<or> \<not> mac_karty_gotowy K then (False, s)
      else e1000_wyslij_pakiet K (if length ramka < 60 then ramka @ replicate (60 - length ramka) 0 else ramka) s)"

definition zbuduj_i_wyslij_arp :: "karta \<Rightarrow> u16 \<Rightarrow> bajty \<Rightarrow> bajty \<Rightarrow> bajty \<Rightarrow> bajty \<Rightarrow> siec \<Rightarrow> siec" where
  "zbuduj_i_wyslij_arp K operacja cel_mac_eth nadawca_ip cel_mac_arp cel_ip s =
     snd (wyslij_ethernet K (wypelnij_eth K cel_mac_eth ETHERTYPE_ARP @
       slowo16 (host_na_siec16 1) @ slowo16 (host_na_siec16 ETHERTYPE_IPV4) @ [6, 4] @ slowo16 (host_na_siec16 operacja) @
       ka_mac K @ nadawca_ip @ cel_mac_arp @ cel_ip) s)"

definition broadcast_mac :: bajty where "broadcast_mac = [0xFF, 0xFF, 0xFF, 0xFF, 0xFF, 0xFF]"
definition pusty_mac :: bajty where "pusty_mac = [0, 0, 0, 0, 0, 0]"

definition wyslij_zapytanie_arp :: "karta \<Rightarrow> bajty \<Rightarrow> siec \<Rightarrow> siec" where
  "wyslij_zapytanie_arp K cel_ip s =
     (if \<not> si_gotowa s \<or> \<not> arp_ip_poprawne cel_ip then s
      else zbuduj_i_wyslij_arp K 1 broadcast_mac (si_nasz_ip s) pusty_mac cel_ip s)"

subsection \<open>The TCP session\<close>

definition tcp_poczatkowy_seq :: "karta \<Rightarrow> siec \<Rightarrow> u32 \<times> siec" where
  "tcp_poczatkowy_seq K s =
     (let licznik = (si_isn s + 0x1021) XOR (push_bit 8 (ucast (ka_mac K ! 4)) OR ucast (ka_mac K ! 5)) in (licznik, s\<lparr>si_isn := licznik\<rparr>))"

definition tcp_wyczysc_bufor_gniazda :: "siec \<Rightarrow> siec" where
  "tcp_wyczysc_bufor_gniazda s = s\<lparr>si_poczatek := 0, si_koniec := 0\<rparr>"

definition tcp_resetuj_sesje :: "bool \<Rightarrow> siec \<Rightarrow> siec" where
  "tcp_resetuj_sesje zwolnij_wlasciciela s =
     (let s1 = tcp_wyczysc_bufor_gniazda (s\<lparr>si_stan := ZAMKNIETY, si_ack := 0, si_cel_port := 0, si_cel_ip := [0, 0, 0, 0], si_cel_mac := pusty_mac,
                 si_tryb_gniazda := False, si_odbiornik := False, si_max := 0, si_przepelnienie := False, si_rst := False\<rparr>)
      in if zwolnij_wlasciciela then s1\<lparr>si_zajeta := False\<rparr> else s1)"

definition tcp_rezerwuj_sesje :: "siec \<Rightarrow> bool \<times> siec" where
  "tcp_rezerwuj_sesje s = (if si_zajeta s \<or> si_stan s \<noteq> ZAMKNIETY then (False, s) else (True, s\<lparr>si_zajeta := True\<rparr>))"

definition tcp_dane_sesji_poprawne :: "siec \<Rightarrow> bool" where
  "tcp_dane_sesji_poprawne s \<longleftrightarrow> si_gotowa s \<and> si_zajeta s \<and> si_cel_port s \<noteq> 0 \<and> \<not> ip_jest_zero (si_cel_ip s) \<and> mac_jest_poprawny (si_cel_mac s)"

text \<open>A TCP segment with the checksum field given.\<close>

definition segment_tcp :: "u8 \<Rightarrow> bajty \<Rightarrow> u16 \<Rightarrow> siec \<Rightarrow> bajty" where
  "segment_tcp flagi payload suma s =
     slowo16 (host_na_siec16 (si_nasz_port s)) @ slowo16 (host_na_siec16 (si_cel_port s)) @
     slowo32 (host_na_siec32 (si_seq s)) @ slowo32 (host_na_siec32 (si_ack s)) @
     [0x50, flagi] @ slowo16 (host_na_siec16 TCP_OKNO) @ slowo16 suma @ slowo16 0 @ payload"

definition tcp_wyslij_internal :: "karta \<Rightarrow> u8 \<Rightarrow> bajty \<Rightarrow> siec \<Rightarrow> bool \<times> siec" where
  "tcp_wyslij_internal K flagi payload s =
     (if \<not> tcp_dane_sesji_poprawne s then (False, s)
      else if length payload > TCP_MSS_WYSYLANIA then (False, s)
      else let tcp_len = TCP_MIN_LEN + length payload; ip_len = IPV4_MIN_LEN + tcp_len in
        if ip_len > MAKS_PAKIET_IPV4 then (False, s)
        else case wypelnij_ipv4 (of_nat ip_len) IP_PROTO_TCP (si_nasz_ip s) (si_cel_ip s) s of
          (None, s1) \<Rightarrow> (False, s1)
        | (Some ip, s1) \<Rightarrow>
            (let suma = suma_transport_ipv4 (si_nasz_ip s) (si_cel_ip s) IP_PROTO_TCP (segment_tcp flagi payload 0 s) in
             wyslij_ethernet K (wypelnij_eth K (si_cel_mac s) ETHERTYPE_IPV4 @ ip @ segment_tcp flagi payload (host_na_siec16 suma) s) s1))"

definition tcp_zamknij_grzecznie :: "karta \<Rightarrow> siec \<Rightarrow> bool \<times> siec" where
  "tcp_zamknij_grzecznie K s =
     (if si_stan s = USTANOWIONY
      then (case tcp_wyslij_internal K (TCP_FLAG_FIN OR TCP_FLAG_ACK) [] s of (ok, s1) \<Rightarrow>
        if ok then (True, s1\<lparr>si_seq := si_seq s1 + 1, si_stan := FIN_WYSLANY\<rparr>) else (False, s1))
      else (False, s))"

definition tcp_gniazdo_dostepne :: "siec \<Rightarrow> u32 \<times> siec" where
  "tcp_gniazdo_dostepne s =
     (if si_koniec s < si_poczatek s then (0, tcp_wyczysc_bufor_gniazda s) else (si_koniec s - si_poczatek s, s))"

text \<open>The bytes are moved one by one towards the start of the buffer.\<close>

definition przesun_bufor :: "nat \<Rightarrow> nat \<Rightarrow> pam \<Rightarrow> pam" where
  "przesun_bufor p n b = fold (\<lambda>i b. b(i := b (p + i))) [0 ..< n] b"

definition tcp_gniazdo_kompaktuj :: "siec \<Rightarrow> siec" where
  "tcp_gniazdo_kompaktuj s =
     (if si_poczatek s = 0 then s
      else case tcp_gniazdo_dostepne s of (pozostalo, s1) \<Rightarrow>
        s1\<lparr>si_bufor := przesun_bufor (unat (si_poczatek s1)) (unat pozostalo) (si_bufor s1), si_poczatek := 0, si_koniec := pozostalo\<rparr>)"

definition tcp_gniazdo_ma_miejsce :: "u32 \<Rightarrow> siec \<Rightarrow> bool \<times> siec" where
  "tcp_gniazdo_ma_miejsce potrzebne s =
     (if potrzebne > TCP_BUFOR_GNIAZDA then (False, s)
      else if si_koniec s + potrzebne \<le> TCP_BUFOR_GNIAZDA then (True, s)
      else let s1 = tcp_gniazdo_kompaktuj s in (si_koniec s1 + potrzebne \<le> TCP_BUFOR_GNIAZDA, s1))"

definition tcp_przyjmij_payload :: "karta \<Rightarrow> bajty \<Rightarrow> u32 \<Rightarrow> siec \<Rightarrow> siec" where
  "tcp_przyjmij_payload K payload numer_seq s =
     (let payload_len = of_nat (length payload) :: u32;
          potwierdz = (\<lambda>s. snd (tcp_wyslij_internal K TCP_FLAG_ACK [] s)) in
      if payload_len = 0 then s
      else if numer_seq \<noteq> si_ack s then potwierdz s
      else if si_tryb_gniazda s
      then (case tcp_gniazdo_ma_miejsce payload_len s of (ok, s1) \<Rightarrow>
        if \<not> ok then potwierdz s1
        else potwierdz (s1\<lparr>si_bufor := kopiuj_bajty (si_bufor s1) (unat (si_koniec s1)) payload, si_koniec := si_koniec s1 + payload_len,
               si_ack := si_ack s1 + payload_len\<rparr>))
      else let wolne = (if si_odbiornik s \<and> si_zapisano s < si_max s then si_max s - si_zapisano s else 0);
               do_kopii = (if payload_len < wolne then payload_len else wolne);
               s1 = (if do_kopii > 0
                     then s\<lparr>si_odebrane := kopiuj_bajty (si_odebrane s) (unat (si_zapisano s)) (take (unat do_kopii) payload), si_zapisano := si_zapisano s + do_kopii\<rparr>
                     else s);
               s2 = (if do_kopii \<noteq> payload_len then s1\<lparr>si_przepelnienie := True\<rparr> else s1)
           in potwierdz (s2\<lparr>si_ack := si_ack s2 + payload_len\<rparr>))"

definition wyslij_pakiet_tcp :: "karta \<Rightarrow> u8 \<Rightarrow> bajty \<Rightarrow> siec \<Rightarrow> siec" where
  "wyslij_pakiet_tcp K flagi payload s = snd (tcp_wyslij_internal K flagi payload s)"

definition tcp_gniazdo_otwarte :: "siec \<Rightarrow> bool" where
  "tcp_gniazdo_otwarte s \<longleftrightarrow> si_zajeta s \<and> si_tryb_gniazda s \<and> si_stan s = USTANOWIONY"

subsection \<open>The globals at boot\<close>

definition siec_poczatkowa :: siec where
  "siec_poczatkowa = \<lparr>si_nasz_ip = [0, 0, 0, 0], si_brama_ip = [0, 0, 0, 0], si_maska = [255, 255, 255, 0], si_serwer_dns = [8, 8, 8, 8],
     si_gotowa = False, si_ipv4_id = 1, si_port_eph = PORT_EPHEMERAL_START, si_port_dns = PORT_DNS_START, si_dns_id = 0xA001,
     si_dhcp_xid = 0xB0550001, si_offer_ip = [0, 0, 0, 0], si_offer_serwer = [0, 0, 0, 0], si_offer_maska = [0, 0, 0, 0],
     si_offer_brama = [0, 0, 0, 0], si_offer_dns = [0, 0, 0, 0], si_offer = False, si_dhcp_ack = False, si_dhcp_nak = False,
     si_arp = replicate ROZMIAR_TABLICY_ARP pusty_wpis_arp, si_arp_generacja = 1, si_arp_indeks = 0,
     si_ping_ip = [0, 0, 0, 0], si_ping_id = 0, si_ping_seq = 0, si_pong = False,
     si_dns_odebrano = False, si_dns_wynik = [0, 0, 0, 0], si_dns_oczekiwane_id = 0, si_dns_oczekiwany_port = 0, si_dns_oczekiwany_serwer = [0, 0, 0, 0],
     si_stan = ZAMKNIETY, si_seq = 0, si_ack = 0, si_nasz_port = PORT_EPHEMERAL_START, si_cel_port = PORT_HTTP,
     si_cel_ip = [0, 0, 0, 0], si_cel_mac = pusty_mac, si_tryb_gniazda = False, si_zajeta = False, si_przepelnienie = False, si_rst = False,
     si_odbiornik = False, si_odebrane = (\<lambda>i. 0), si_max = 0, si_zapisano = 0, si_dane_odebrane = False,
     si_bufor = (\<lambda>i. 0), si_poczatek = 0, si_koniec = 0, si_isn = 0x31415926,
     si_rx_ipv4 = 0, si_rx_udp = 0, si_rx_dns = 0, si_rx_arp = 0, si_rx_icmp = 0, si_wyslane = [], si_n_tx = 0, si_n_rx = 0, si_n_czas = 0\<rparr>"

end
