(* ===== verification/Siec_Odbior.thy ===== *)
theory Siec_Odbior
  imports Siec
begin

section \<open>The network stack: frames received\<close>

text \<open>
  The receiving side of \<open>siec.cpp\<close>: a frame is a memory \<open>f\<close> and its length, pointers into it are
  offsets. The handlers check every header before they read it; \<open>obsluz_pakiet_sieciowy\<close> is what the
  driver calls for each frame. Also the encoding of names for DNS and the parsing of DHCP options.
\<close>

abbreviation DNS_PACKET_MAX :: nat where "DNS_PACKET_MAX \<equiv> 512"
abbreviation DNS_NAZWA_MAX :: nat where "DNS_NAZWA_MAX \<equiv> 253"
abbreviation DNS_LABEL_MAX :: nat where "DNS_LABEL_MAX \<equiv> 63"
abbreviation DHCP_PACKET_MAX :: nat where "DHCP_PACKET_MAX \<equiv> 548"
abbreviation DHCP_COOKIE_OFFSET :: nat where "DHCP_COOKIE_OFFSET \<equiv> 236"
abbreviation DHCP_OPTIONS_OFFSET :: nat where "DHCP_OPTIONS_OFFSET \<equiv> 240"
abbreviation DHCP_MAGIC_COOKIE :: u32 where "DHCP_MAGIC_COOKIE \<equiv> 0x63825363"
abbreviation DHCP_DISCOVER :: u8 where "DHCP_DISCOVER \<equiv> 1"
abbreviation DHCP_OFFER :: u8 where "DHCP_OFFER \<equiv> 2"
abbreviation DHCP_REQUEST :: u8 where "DHCP_REQUEST \<equiv> 3"
abbreviation DHCP_ACK :: u8 where "DHCP_ACK \<equiv> 5"
abbreviation DHCP_NAK :: u8 where "DHCP_NAK \<equiv> 6"
abbreviation DHCP_OPT_PAD :: u8 where "DHCP_OPT_PAD \<equiv> 0"
abbreviation DHCP_OPT_SUBNET :: u8 where "DHCP_OPT_SUBNET \<equiv> 1"
abbreviation DHCP_OPT_ROUTER :: u8 where "DHCP_OPT_ROUTER \<equiv> 3"
abbreviation DHCP_OPT_DNS :: u8 where "DHCP_OPT_DNS \<equiv> 6"
abbreviation DHCP_OPT_REQ_IP :: u8 where "DHCP_OPT_REQ_IP \<equiv> 50"
abbreviation DHCP_OPT_MSG_TYPE :: u8 where "DHCP_OPT_MSG_TYPE \<equiv> 53"
abbreviation DHCP_OPT_SERVER_ID :: u8 where "DHCP_OPT_SERVER_ID \<equiv> 54"
abbreviation DHCP_OPT_PARAM_REQ :: u8 where "DHCP_OPT_PARAM_REQ \<equiv> 55"
abbreviation DHCP_OPT_END :: u8 where "DHCP_OPT_END \<equiv> 255"

subsection \<open>Header fields\<close>

text \<open>The fields of the packed headers at their offsets.\<close>

definition eth_zrodlo_mac :: "pam \<Rightarrow> nat \<Rightarrow> bajty" where "eth_zrodlo_mac f p = bajty_od f (p + 6) 6"
definition eth_typ :: "pam \<Rightarrow> nat \<Rightarrow> u16" where "eth_typ f p = pole16 f (p + 12)"

definition arp_typ_sprzetu :: "pam \<Rightarrow> nat \<Rightarrow> u16" where "arp_typ_sprzetu f p = pole16 f p"
definition arp_typ_protokolu :: "pam \<Rightarrow> nat \<Rightarrow> u16" where "arp_typ_protokolu f p = pole16 f (p + 2)"
definition arp_dlugosc_mac :: "pam \<Rightarrow> nat \<Rightarrow> u8" where "arp_dlugosc_mac f p = f (p + 4)"
definition arp_dlugosc_ip :: "pam \<Rightarrow> nat \<Rightarrow> u8" where "arp_dlugosc_ip f p = f (p + 5)"
definition arp_operacja :: "pam \<Rightarrow> nat \<Rightarrow> u16" where "arp_operacja f p = pole16 f (p + 6)"
definition arp_nadawca_mac :: "pam \<Rightarrow> nat \<Rightarrow> bajty" where "arp_nadawca_mac f p = bajty_od f (p + 8) 6"
definition arp_nadawca_ip :: "pam \<Rightarrow> nat \<Rightarrow> bajty" where "arp_nadawca_ip f p = bajty_od f (p + 14) 4"
definition arp_cel_ip :: "pam \<Rightarrow> nat \<Rightarrow> bajty" where "arp_cel_ip f p = bajty_od f (p + 24) 4"

definition ip_wersja_ihl :: "pam \<Rightarrow> nat \<Rightarrow> u8" where "ip_wersja_ihl f p = f p"
definition ip_dlugosc_calkowita :: "pam \<Rightarrow> nat \<Rightarrow> u16" where "ip_dlugosc_calkowita f p = pole16 f (p + 2)"
definition ip_flagi_fragment :: "pam \<Rightarrow> nat \<Rightarrow> u16" where "ip_flagi_fragment f p = pole16 f (p + 6)"
definition ip_protokol :: "pam \<Rightarrow> nat \<Rightarrow> u8" where "ip_protokol f p = f (p + 9)"
definition ip_zrodlo_ip :: "pam \<Rightarrow> nat \<Rightarrow> bajty" where "ip_zrodlo_ip f p = bajty_od f (p + 12) 4"
definition ip_cel_ip :: "pam \<Rightarrow> nat \<Rightarrow> bajty" where "ip_cel_ip f p = bajty_od f (p + 16) 4"

definition udp_port_zrodlowy :: "pam \<Rightarrow> nat \<Rightarrow> u16" where "udp_port_zrodlowy f p = pole16 f p"
definition udp_port_docelowy :: "pam \<Rightarrow> nat \<Rightarrow> u16" where "udp_port_docelowy f p = pole16 f (p + 2)"
definition udp_dlugosc :: "pam \<Rightarrow> nat \<Rightarrow> u16" where "udp_dlugosc f p = pole16 f (p + 4)"
definition udp_suma_kontrolna :: "pam \<Rightarrow> nat \<Rightarrow> u16" where "udp_suma_kontrolna f p = pole16 f (p + 6)"

definition tcp_port_zrodlowy :: "pam \<Rightarrow> nat \<Rightarrow> u16" where "tcp_port_zrodlowy f p = pole16 f p"
definition tcp_port_docelowy :: "pam \<Rightarrow> nat \<Rightarrow> u16" where "tcp_port_docelowy f p = pole16 f (p + 2)"
definition tcp_numer_sekwencyjny :: "pam \<Rightarrow> nat \<Rightarrow> u32" where "tcp_numer_sekwencyjny f p = pole32 f (p + 4)"
definition tcp_numer_potwierdzenia :: "pam \<Rightarrow> nat \<Rightarrow> u32" where "tcp_numer_potwierdzenia f p = pole32 f (p + 8)"
definition tcp_przesuniecie_danych :: "pam \<Rightarrow> nat \<Rightarrow> u8" where "tcp_przesuniecie_danych f p = f (p + 12)"
definition tcp_flagi :: "pam \<Rightarrow> nat \<Rightarrow> u8" where "tcp_flagi f p = f (p + 13)"

definition icmp_typ :: "pam \<Rightarrow> nat \<Rightarrow> u8" where "icmp_typ f p = f p"
definition icmp_kod :: "pam \<Rightarrow> nat \<Rightarrow> u8" where "icmp_kod f p = f (p + 1)"
definition icmp_id :: "pam \<Rightarrow> nat \<Rightarrow> u16" where "icmp_id f p = pole16 f (p + 4)"
definition icmp_sekwencja :: "pam \<Rightarrow> nat \<Rightarrow> u16" where "icmp_sekwencja f p = pole16 f (p + 6)"

subsection \<open>IPv4 and UDP\<close>

record WidokIPv4 =
  wi_ip :: nat
  wi_payload :: nat
  wi_payload_len :: nat
  wi_ihl :: nat
  wi_calkowita_dlugosc :: nat

definition parsuj_ipv4 :: "pam \<Rightarrow> nat \<Rightarrow> nat \<Rightarrow> WidokIPv4 option" where
  "parsuj_ipv4 f dane dostepne =
     (if dostepne < IPV4_MIN_LEN then None
      else let wersja = drop_bit 4 (ip_wersja_ihl f dane); ihl_slowa = ip_wersja_ihl f dane AND 0x0F in
        if wersja \<noteq> 4 \<or> ihl_slowa < 5 then None
        else let ihl = unat ihl_slowa * 4 in
          if ihl > dostepne then None
          else let total = unat (siec_na_host16 (ip_dlugosc_calkowita f dane)) in
            if total < ihl \<or> total > dostepne then None
            else if suma_kontrolna_bajty (bajty_od f dane ihl) \<noteq> 0 then None
            else if siec_na_host16 (ip_flagi_fragment f dane) AND 0x3FFF \<noteq> 0 then None
            else Some \<lparr>wi_ip = dane, wi_payload = dane + ihl, wi_payload_len = total - ihl, wi_ihl = ihl, wi_calkowita_dlugosc = total\<rparr>)"

text \<open>The offset of the UDP data and its length.\<close>

definition udp_poprawny :: "pam \<Rightarrow> WidokIPv4 \<Rightarrow> (nat \<times> nat) option" where
  "udp_poprawny f w =
     (if wi_payload_len w < UDP_LEN then None
      else let udp = wi_payload w; udp_len = unat (siec_na_host16 (udp_dlugosc f udp)) in
        if udp_len < UDP_LEN \<or> udp_len > wi_payload_len w then None
        else if udp_suma_kontrolna f udp \<noteq> 0 \<and>
          suma_transport_ipv4 (ip_zrodlo_ip f (wi_ip w)) (ip_cel_ip f (wi_ip w)) IP_PROTO_UDP (bajty_od f udp udp_len) \<noteq> 0xFFFF
        then None
        else Some (udp + UDP_LEN, udp_len - UDP_LEN))"

subsection \<open>ARP\<close>

definition obsluz_arp :: "karta \<Rightarrow> pam \<Rightarrow> nat \<Rightarrow> siec \<Rightarrow> siec" where
  "obsluz_arp K f dlugosc s =
     (if dlugosc < ETH_LEN + ARP_LEN then s
      else let s1 = s\<lparr>si_rx_arp := si_rx_arp s + 1\<rparr>; arp = ETH_LEN in
        if siec_na_host16 (arp_typ_sprzetu f arp) \<noteq> 1 \<or> siec_na_host16 (arp_typ_protokolu f arp) \<noteq> ETHERTYPE_IPV4 \<or>
          arp_dlugosc_mac f arp \<noteq> 6 \<or> arp_dlugosc_ip f arp \<noteq> 4 then s1
        else let operacja = siec_na_host16 (arp_operacja f arp) in
          if operacja \<noteq> 1 \<and> operacja \<noteq> 2 then s1
          else if \<not> mac_rowne (eth_zrodlo_mac f 0) (arp_nadawca_mac f arp) \<or> \<not> mac_jest_poprawny (arp_nadawca_mac f arp) \<or>
            \<not> arp_ip_poprawne (arp_nadawca_ip f arp) then s1
          else let s2 = dodaj_do_cache_arp (arp_nadawca_ip f arp) (arp_nadawca_mac f arp) s1 in
            if \<not> si_gotowa s2 \<or> \<not> ip_rowne (arp_cel_ip f arp) (si_nasz_ip s2) then s2
            else if operacja = 1
            then zbuduj_i_wyslij_arp K 2 (arp_nadawca_mac f arp) (si_nasz_ip s2) (arp_nadawca_mac f arp) (arp_nadawca_ip f arp) s2
            else s2)"

subsection \<open>DHCP\<close>

record OpcjeDHCP =
  od_typ :: u8
  od_maska :: "bajty option"
  od_brama :: "bajty option"
  od_dns :: "bajty option"
  od_serwer :: "bajty option"

definition puste_opcje :: OpcjeDHCP where
  "puste_opcje = \<lparr>od_typ = 0, od_maska = None, od_brama = None, od_dns = None, od_serwer = None\<rparr>"

definition zapisz_opcje :: "pam \<Rightarrow> nat \<Rightarrow> u8 \<Rightarrow> nat \<Rightarrow> OpcjeDHCP \<Rightarrow> OpcjeDHCP" where
  "zapisz_opcje f dane kod len wynik =
     (if kod = DHCP_OPT_MSG_TYPE then (if len = 1 then wynik\<lparr>od_typ := f dane\<rparr> else wynik)
      else if kod = DHCP_OPT_SUBNET then (if len \<ge> 4 then wynik\<lparr>od_maska := Some (bajty_od f dane 4)\<rparr> else wynik)
      else if kod = DHCP_OPT_ROUTER then (if len \<ge> 4 then wynik\<lparr>od_brama := Some (bajty_od f dane 4)\<rparr> else wynik)
      else if kod = DHCP_OPT_DNS then (if len \<ge> 4 then wynik\<lparr>od_dns := Some (bajty_od f dane 4)\<rparr> else wynik)
      else if kod = DHCP_OPT_SERVER_ID then (if len = 4 then wynik\<lparr>od_serwer := Some (bajty_od f dane 4)\<rparr> else wynik)
      else wynik)"

function opcje_od :: "pam \<Rightarrow> nat \<Rightarrow> nat \<Rightarrow> nat \<Rightarrow> OpcjeDHCP \<Rightarrow> OpcjeDHCP option" where
  "opcje_od f opcje dlugosc pos wynik =
     (if pos \<ge> dlugosc then None
      else let kod = f (opcje + pos) in
        if kod = DHCP_OPT_PAD then opcje_od f opcje dlugosc (pos + 1) wynik
        else if kod = DHCP_OPT_END then Some wynik
        else if pos + 1 \<ge> dlugosc then None
        else let len = unat (f (opcje + (pos + 1))) in
          if len > dlugosc - (pos + 2) then None
          else opcje_od f opcje dlugosc (pos + 2 + len) (zapisz_opcje f (opcje + (pos + 2)) kod len wynik))"
  by pat_completeness auto
termination by (relation "measure (\<lambda>(f, opcje, dlugosc, pos, wynik). dlugosc - pos)") auto

declare opcje_od.simps [simp del]

definition parsuj_opcje_dhcp :: "pam \<Rightarrow> nat \<Rightarrow> nat \<Rightarrow> OpcjeDHCP option" where
  "parsuj_opcje_dhcp f opcje dlugosc = opcje_od f opcje dlugosc 0 puste_opcje"

definition przyjmij_offer :: "bajty \<Rightarrow> bajty \<Rightarrow> OpcjeDHCP \<Rightarrow> siec \<Rightarrow> siec" where
  "przyjmij_offer yiaddr zrodlo_ip opcje s =
     s\<lparr>si_offer_ip := yiaddr,
       si_offer_serwer := (case od_serwer opcje of Some x \<Rightarrow> x | None \<Rightarrow> zrodlo_ip),
       si_offer_maska := (case od_maska opcje of Some x \<Rightarrow> x | None \<Rightarrow> [255, 255, 255, 0]),
       si_offer_brama := (case od_brama opcje of Some x \<Rightarrow> x | None \<Rightarrow> [0, 0, 0, 0]),
       si_offer_dns := (case od_dns opcje of Some x \<Rightarrow> x | None \<Rightarrow> [8, 8, 8, 8]),
       si_offer := True\<rparr>"

definition przyjmij_ack :: "bajty \<Rightarrow> OpcjeDHCP \<Rightarrow> siec \<Rightarrow> siec" where
  "przyjmij_ack nowy_ip opcje s =
     (let maska = (case od_maska opcje of Some x \<Rightarrow> x | None \<Rightarrow> si_offer_maska s);
          brama = (case od_brama opcje of Some x \<Rightarrow> x | None \<Rightarrow> si_offer_brama s);
          dns = (case od_dns opcje of Some x \<Rightarrow> x | None \<Rightarrow> si_offer_dns s)
      in s\<lparr>si_nasz_ip := nowy_ip, si_maska := (if ip_jest_zero maska then [255, 255, 255, 0] else maska), si_brama_ip := brama,
           si_serwer_dns := (if ip_jest_zero dns then [8, 8, 8, 8] else dns), si_dhcp_ack := True\<rparr>)"

definition obsluz_dhcp :: "karta \<Rightarrow> pam \<Rightarrow> WidokIPv4 \<Rightarrow> nat \<Rightarrow> nat \<Rightarrow> nat \<Rightarrow> siec \<Rightarrow> siec" where
  "obsluz_dhcp K f w udp p payload_len s =
     (if payload_len < DHCP_OPTIONS_OFFSET + 1 then s
      else if siec_na_host16 (udp_port_zrodlowy f udp) \<noteq> PORT_DHCP_SERVER \<or> siec_na_host16 (udp_port_docelowy f udp) \<noteq> PORT_DHCP_CLIENT then s
      else if f p \<noteq> 2 \<or> f (p + 1) \<noteq> 1 \<or> f (p + 2) \<noteq> 6 then s
      else if czytaj_be32 f (p + 4) \<noteq> si_dhcp_xid s then s
      else if \<not> mac_rowne (bajty_od f (p + 28) 6) (ka_mac K) then s
      else if czytaj_be32 f (p + DHCP_COOKIE_OFFSET) \<noteq> DHCP_MAGIC_COOKIE then s
      else case parsuj_opcje_dhcp f (p + DHCP_OPTIONS_OFFSET) (payload_len - DHCP_OPTIONS_OFFSET) of None \<Rightarrow> s
      | Some opcje \<Rightarrow>
          let yiaddr = bajty_od f (p + 16) 4 in
          if od_typ opcje = DHCP_OFFER then (if ip_jest_zero yiaddr then s else przyjmij_offer yiaddr (ip_zrodlo_ip f (wi_ip w)) opcje s)
          else if od_typ opcje = DHCP_NAK then s\<lparr>si_dhcp_nak := True\<rparr>
          else if od_typ opcje \<noteq> DHCP_ACK then s
          else let nowy_ip = (if \<not> ip_jest_zero yiaddr then yiaddr else si_offer_ip s) in
            if ip_jest_zero nowy_ip then s else przyjmij_ack nowy_ip opcje s)"

subsection \<open>DNS\<close>

definition dlugosc_tekstu_limit :: "pam \<Rightarrow> nat \<Rightarrow> nat" where
  "dlugosc_tekstu_limit tekst limit = (case find (\<lambda>i. tekst i = 0) [0 ..< limit] of Some i \<Rightarrow> i | None \<Rightarrow> limit)"

definition znak_dns_poprawny :: "u8 \<Rightarrow> bool" where
  "znak_dns_poprawny u =
     (if u \<le> 0x20 \<or> u \<ge> 0x7F then False
      else u \<noteq> 0x2F \<and> u \<noteq> 0x5C \<and> u \<noteq> 0x3A \<and> u \<noteq> 0x0D \<and> u \<noteq> 0x0A)"

text \<open>The loop over the characters; \<open>start\<close> is where the current label begins.\<close>

function koduj_od :: "pam \<Rightarrow> nat \<Rightarrow> nat \<Rightarrow> nat \<Rightarrow> nat \<Rightarrow> bajty \<Rightarrow> bajty option" where
  "koduj_od domena len pojemnosc i start wyjscie =
     (if i > len then (if length wyjscie + 1 > pojemnosc then None else Some (wyjscie @ [0]))
      else if \<not> (i = len \<or> domena i = 0x2E)
      then (if \<not> znak_dns_poprawny (domena i) then None else koduj_od domena len pojemnosc (i + 1) start wyjscie)
      else let label_len = i - start in
        if label_len = 0 \<or> label_len > DNS_LABEL_MAX then None
        else if length wyjscie + 1 + label_len > pojemnosc then None
        else koduj_od domena len pojemnosc (i + 1) (i + 1) (wyjscie @ [of_nat label_len] @ bajty_od domena start label_len))"
  by pat_completeness auto
termination by (relation "measure (\<lambda>(domena, len, pojemnosc, i, start, wyjscie). len + 1 - i)") auto

declare koduj_od.simps [simp del]

definition koduj_nazwe_dns :: "pam \<Rightarrow> nat \<Rightarrow> bajty option" where
  "koduj_nazwe_dns domena pojemnosc =
     (let len = dlugosc_tekstu_limit domena (DNS_NAZWA_MAX + 1) in
      if len = 0 \<or> len > DNS_NAZWA_MAX then None else koduj_od domena len pojemnosc 0 0 [])"

text \<open>The offset after a name, through labels or to a compression pointer.\<close>

function pomin_od :: "pam \<Rightarrow> nat \<Rightarrow> nat \<Rightarrow> nat \<Rightarrow> nat \<Rightarrow> nat option" where
  "pomin_od f pakiet dlugosc p etykiety =
     (if p \<ge> dlugosc then None
      else let len = f (pakiet + p) in
        if len = 0 then Some (p + 1)
        else if len AND 0xC0 = 0xC0 then
          (if p + 2 > dlugosc then None
           else let wsk = push_bit 8 (ucast (len AND 0x3F)) OR ucast (f (pakiet + (p + 1))) :: u16 in
             if unat wsk \<ge> dlugosc then None else Some (p + 2))
        else if len AND 0xC0 \<noteq> 0 \<or> unat len > DNS_LABEL_MAX then None
        else if unat len > dlugosc - (p + 1) then None
        else if etykiety + 1 > 127 then None
        else pomin_od f pakiet dlugosc (p + 1 + unat len) (etykiety + 1))"
  by pat_completeness auto
termination by (relation "measure (\<lambda>(f, pakiet, dlugosc, p, etykiety). dlugosc - p)") auto

declare pomin_od.simps [simp del]

definition dns_pomin_nazwe :: "pam \<Rightarrow> nat \<Rightarrow> nat \<Rightarrow> nat \<Rightarrow> nat option" where
  "dns_pomin_nazwe f pakiet dlugosc p = (if p \<ge> dlugosc then None else pomin_od f pakiet dlugosc p 0)"

fun pomin_pytania :: "pam \<Rightarrow> nat \<Rightarrow> nat \<Rightarrow> nat \<Rightarrow> nat \<Rightarrow> nat option" where
  "pomin_pytania f pakiet dlugosc 0 pos = Some pos"
| "pomin_pytania f pakiet dlugosc (Suc n) pos =
     (case dns_pomin_nazwe f pakiet dlugosc pos of None \<Rightarrow> None
      | Some p \<Rightarrow> if p + 4 > dlugosc then None else pomin_pytania f pakiet dlugosc n (p + 4))"

fun szukaj_odpowiedzi :: "pam \<Rightarrow> nat \<Rightarrow> nat \<Rightarrow> nat \<Rightarrow> nat \<Rightarrow> siec \<Rightarrow> siec" where
  "szukaj_odpowiedzi f pakiet dlugosc 0 pos s = s"
| "szukaj_odpowiedzi f pakiet dlugosc (Suc n) pos s =
     (case dns_pomin_nazwe f pakiet dlugosc pos of None \<Rightarrow> s
      | Some p \<Rightarrow>
          if p + 10 > dlugosc then s
          else let typ = czytaj_be16 f (pakiet + p); klasa = czytaj_be16 f (pakiet + p + 2);
                   rdlen = unat (czytaj_be16 f (pakiet + p + 8)); r = p + 10 in
            if rdlen > dlugosc - r then s
            else let s1 = (if typ = 1 \<and> klasa = 1 \<and> rdlen = 4 then s\<lparr>si_dns_wynik := bajty_od f (pakiet + r) 4\<rparr> else s) in
              if typ = 1 \<and> klasa = 1 \<and> rdlen = 4 \<and> \<not> ip_jest_zero (si_dns_wynik s1) then s1\<lparr>si_dns_odebrano := True\<rparr>
              else szukaj_odpowiedzi f pakiet dlugosc n (r + rdlen) s1)"

definition obsluz_dns :: "pam \<Rightarrow> WidokIPv4 \<Rightarrow> nat \<Rightarrow> nat \<Rightarrow> nat \<Rightarrow> siec \<Rightarrow> siec" where
  "obsluz_dns f w udp p payload_len s =
     (if payload_len < 12 then s
      else if \<not> ip_rowne (ip_zrodlo_ip f (wi_ip w)) (si_dns_oczekiwany_serwer s) \<or> siec_na_host16 (udp_port_zrodlowy f udp) \<noteq> PORT_DNS \<or>
        siec_na_host16 (udp_port_docelowy f udp) \<noteq> si_dns_oczekiwany_port s then s
      else let ident = czytaj_be16 f p; flags = czytaj_be16 f (p + 2); qdcount = czytaj_be16 f (p + 4); ancount = czytaj_be16 f (p + 6) in
        if ident \<noteq> si_dns_oczekiwane_id s \<or> flags AND 0x8000 = 0 \<or> flags AND 0x000F \<noteq> 0 \<or> qdcount = 0 then s
        else case pomin_pytania f p payload_len (unat qdcount) 12 of None \<Rightarrow> s
        | Some pos \<Rightarrow> szukaj_odpowiedzi f p payload_len (unat ancount) pos s)"

definition obsluz_udp :: "karta \<Rightarrow> pam \<Rightarrow> WidokIPv4 \<Rightarrow> siec \<Rightarrow> siec" where
  "obsluz_udp K f w s =
     (case udp_poprawny f w of None \<Rightarrow> s
      | Some (payload, payload_len) \<Rightarrow>
          let s1 = s\<lparr>si_rx_udp := si_rx_udp s + 1\<rparr>; udp = wi_payload w; port_docelowy = siec_na_host16 (udp_port_docelowy f udp) in
          if port_docelowy = PORT_DHCP_CLIENT then obsluz_dhcp K f w udp payload payload_len s1
          else if \<not> si_gotowa s1 \<or> \<not> ip_rowne (ip_cel_ip f (wi_ip w)) (si_nasz_ip s1) then s1
          else if port_docelowy = si_dns_oczekiwany_port s1
          then obsluz_dns f w udp payload payload_len (s1\<lparr>si_rx_dns := si_rx_dns s1 + 1\<rparr>)
          else s1)"

subsection \<open>ICMP\<close>

text \<open>The reply: type 0, the rest of the request, and the checksum computed with zero in its field.\<close>

definition odpowiedz_icmp :: "bajty \<Rightarrow> bajty" where
  "odpowiedz_icmp icmp =
     (let tx = icmp[0 := 0, 2 := 0, 3 := 0]; suma = suma_kontrolna_bajty tx in
      tx[2 := zapisz_be16 suma ! 0, 3 := zapisz_be16 suma ! 1])"

definition obsluz_icmp :: "karta \<Rightarrow> pam \<Rightarrow> WidokIPv4 \<Rightarrow> siec \<Rightarrow> siec" where
  "obsluz_icmp K f w s =
     (if wi_payload_len w < ICMP_ECHO_LEN then s
      else let s1 = s\<lparr>si_rx_icmp := si_rx_icmp s + 1\<rparr>; icmp = wi_payload w in
        if suma_kontrolna_bajty (bajty_od f icmp (wi_payload_len w)) \<noteq> 0 then s1
        else if icmp_kod f icmp \<noteq> 0 then s1
        else if icmp_typ f icmp = 0
        then (if \<not> ip_rowne (ip_cel_ip f (wi_ip w)) (si_nasz_ip s1) \<or> \<not> ip_rowne (ip_zrodlo_ip f (wi_ip w)) (si_ping_ip s1) \<or>
                siec_na_host16 (icmp_id f icmp) \<noteq> si_ping_id s1 \<or> siec_na_host16 (icmp_sekwencja f icmp) \<noteq> si_ping_seq s1
              then s1 else s1\<lparr>si_pong := True\<rparr>)
        else if icmp_typ f icmp \<noteq> 8 \<or> \<not> si_gotowa s1 \<or> \<not> ip_rowne (ip_cel_ip f (wi_ip w)) (si_nasz_ip s1) then s1
        else let icmp_len = wi_payload_len w; ip_len = IPV4_MIN_LEN + icmp_len in
          if ETH_LEN + ip_len > MAKS_RAMKA_ETH then s1
          else case wypelnij_ipv4 (of_nat ip_len) IP_PROTO_ICMP (si_nasz_ip s1) (ip_zrodlo_ip f (wi_ip w)) s1 of
            (None, s2) \<Rightarrow> s2
          | (Some ip, s2) \<Rightarrow> snd (wyslij_ethernet K (wypelnij_eth K (eth_zrodlo_mac f 0) ETHERTYPE_IPV4 @ ip @
              odpowiedz_icmp (bajty_od f icmp icmp_len)) s2))"

subsection \<open>TCP\<close>

definition obsluz_tcp :: "karta \<Rightarrow> pam \<Rightarrow> WidokIPv4 \<Rightarrow> siec \<Rightarrow> siec" where
  "obsluz_tcp K f w s =
     (if wi_payload_len w < TCP_MIN_LEN then s
      else let tcp = wi_payload w; data_offset_words = drop_bit 4 (tcp_przesuniecie_danych f tcp) in
        if data_offset_words < 5 then s
        else let tcp_hdr_len = unat data_offset_words * 4 in
        if tcp_hdr_len > wi_payload_len w then s
        else if suma_transport_ipv4 (ip_zrodlo_ip f (wi_ip w)) (ip_cel_ip f (wi_ip w)) IP_PROTO_TCP (bajty_od f tcp (wi_payload_len w)) \<noteq> 0 then s
        else if \<not> si_zajeta s \<or> \<not> ip_rowne (ip_cel_ip f (wi_ip w)) (si_nasz_ip s) \<or> \<not> ip_rowne (ip_zrodlo_ip f (wi_ip w)) (si_cel_ip s) \<or>
          siec_na_host16 (tcp_port_docelowy f tcp) \<noteq> si_nasz_port s \<or> siec_na_host16 (tcp_port_zrodlowy f tcp) \<noteq> si_cel_port s then s
        else let flagi = tcp_flagi f tcp; sekw = siec_na_host32 (tcp_numer_sekwencyjny f tcp); ack = siec_na_host32 (tcp_numer_potwierdzenia f tcp) in
        if flagi AND TCP_FLAG_RST \<noteq> 0 then s\<lparr>si_rst := True, si_stan := ZAMKNIETY\<rparr>
        else if si_stan s = SYN_WYSLANY
        then (if flagi AND (TCP_FLAG_SYN OR TCP_FLAG_ACK) \<noteq> TCP_FLAG_SYN OR TCP_FLAG_ACK then s
              else if ack \<noteq> si_seq s + 1 then s
              else snd (tcp_wyslij_internal K TCP_FLAG_ACK [] (s\<lparr>si_ack := sekw + 1, si_seq := si_seq s + 1, si_stan := USTANOWIONY\<rparr>)))
        else if si_stan s \<noteq> USTANOWIONY \<and> si_stan s \<noteq> FIN_WYSLANY then s
        else let payload_len = wi_payload_len w - tcp_hdr_len; payload = bajty_od f (tcp + tcp_hdr_len) payload_len;
                 s1 = (if payload_len > 0 then tcp_przyjmij_payload K payload sekw s else s);
                 s2 = (if payload_len > 0 \<and> \<not> si_tryb_gniazda s1 \<and> si_zapisano s1 > 0 then s1\<lparr>si_dane_odebrane := True\<rparr> else s1)
          in if flagi AND TCP_FLAG_FIN \<noteq> 0
             then (if sekw + of_nat payload_len = si_ack s2
                   then (snd (tcp_wyslij_internal K TCP_FLAG_ACK [] (s2\<lparr>si_ack := si_ack s2 + 1\<rparr>)))\<lparr>si_stan := ZAMKNIETY\<rparr>
                   else s2)
             else s2)"

subsection \<open>A frame\<close>

definition obsluz_ipv4 :: "karta \<Rightarrow> pam \<Rightarrow> nat \<Rightarrow> siec \<Rightarrow> siec" where
  "obsluz_ipv4 K f dlugosc s =
     (if dlugosc < ETH_LEN + IPV4_MIN_LEN then s
      else case parsuj_ipv4 f ETH_LEN (dlugosc - ETH_LEN) of None \<Rightarrow> s
      | Some w \<Rightarrow>
          let s1 = s\<lparr>si_rx_ipv4 := si_rx_ipv4 s + 1\<rparr>; protokol = ip_protokol f (wi_ip w); cel = ip_cel_ip f (wi_ip w) in
          if protokol \<noteq> IP_PROTO_UDP \<and> (\<not> si_gotowa s1 \<or> \<not> ip_rowne cel (si_nasz_ip s1) \<and> \<not> ip_jest_broadcast cel) then s1
          else if protokol = IP_PROTO_ICMP then obsluz_icmp K f w s1
          else if protokol = IP_PROTO_UDP then obsluz_udp K f w s1
          else if protokol = IP_PROTO_TCP then obsluz_tcp K f w s1
          else s1)"

definition obsluz_pakiet_sieciowy :: "karta \<Rightarrow> pam \<Rightarrow> nat \<Rightarrow> siec \<Rightarrow> siec" where
  "obsluz_pakiet_sieciowy K pakiet dlugosc s =
     (if dlugosc < ETH_LEN then s
      else let typ = siec_na_host16 (eth_typ pakiet 0) in
        if typ = ETHERTYPE_ARP then obsluz_arp K pakiet dlugosc s
        else if typ = ETHERTYPE_IPV4 then obsluz_ipv4 K pakiet dlugosc s
        else s)"

end
