(* ===== verification/Siec_Klient.thy ===== *)
theory Siec_Klient
  imports Siec_Odbior
begin

section \<open>The network stack: the functions that wait\<close>

text \<open>
  The calls of \<open>siec.cpp\<close> that poll the card until a deadline: address resolution, the DHCP client, ping,
  DNS, the TCP stream and HTTP. Frames come in only at a poll (the driver does not use interrupts). The
  result \<open>None\<close> of a call is a run that never ends, which happens only when the clock stands still.
\<close>

abbreviation ARP_TIMEOUT_MS :: u64 where "ARP_TIMEOUT_MS \<equiv> 2000"
abbreviation DHCP_TIMEOUT_MS :: u64 where "DHCP_TIMEOUT_MS \<equiv> 8000"
abbreviation PING_TIMEOUT_MS :: u64 where "PING_TIMEOUT_MS \<equiv> 4000"
abbreviation DNS_TIMEOUT_MS :: u64 where "DNS_TIMEOUT_MS \<equiv> 4000"
abbreviation TCP_CONNECT_TIMEOUT_MS :: u64 where "TCP_CONNECT_TIMEOUT_MS \<equiv> 5000"
abbreviation HTTP_TIMEOUT_MS :: u64 where "HTTP_TIMEOUT_MS \<equiv> 12000"
abbreviation HTTP_REQUEST_MAX :: nat where "HTTP_REQUEST_MAX \<equiv> 4096"
abbreviation ICMP_ECHO_ID :: u16 where "ICMP_ECHO_ID \<equiv> 0xB055"
abbreviation ICMP_ECHO_SEQ :: u16 where "ICMP_ECHO_SEQ \<equiv> 1"
abbreviation E1000_MIN_RAMKA_ETH :: nat where "E1000_MIN_RAMKA_ETH \<equiv> 14"
abbreviation E1000_MAX_RAMKA_ETH :: nat where "E1000_MAX_RAMKA_ETH \<equiv> 1518"

subsection \<open>The clock and the polls\<close>

definition czas_monotoniczny_ms :: "karta \<Rightarrow> siec \<Rightarrow> u64 \<times> siec" where
  "czas_monotoniczny_ms K s = (ka_czas K (si_n_czas s), s\<lparr>si_n_czas := si_n_czas s + 1\<rparr>)"

definition deadline_ms :: "karta \<Rightarrow> u64 \<Rightarrow> siec \<Rightarrow> u64 \<times> siec" where
  "deadline_ms K odstep s =
     (case czas_monotoniczny_ms K s of (teraz, s1) \<Rightarrow> (if teraz > UINT64_MAX - odstep then UINT64_MAX else teraz + odstep, s1))"

definition pam_ramki :: "bajty \<Rightarrow> pam" where
  "pam_ramki r i = (if i < length r then r ! i else 0)"

definition e1000_obsluz_odbior :: "karta \<Rightarrow> siec \<Rightarrow> siec" where
  "e1000_obsluz_odbior K s =
     fold (\<lambda>r s. obsluz_pakiet_sieciowy K (pam_ramki r) (length r) s)
       (filter (\<lambda>r. length r \<ge> E1000_MIN_RAMKA_ETH \<and> length r \<le> E1000_MAX_RAMKA_ETH) (ka_rx K (si_n_rx s)))
       (s\<lparr>si_n_rx := si_n_rx s + 1\<rparr>)"

text \<open>The loop of every waiting call: until the deadline, poll the card and look whether to stop.\<close>

partial_function (option) petla_odbioru :: "karta \<Rightarrow> u64 \<Rightarrow> (siec \<Rightarrow> 'a option \<times> siec) \<Rightarrow> siec \<Rightarrow> ('a option \<times> siec) option" where
  "petla_odbioru K deadline sprawdz s =
     (let (teraz, s1) = czas_monotoniczny_ms K s in
      if teraz < deadline
      then (let (w, s2) = sprawdz (e1000_obsluz_odbior K s1) in
            if w \<noteq> None then Some (w, s2) else petla_odbioru K deadline sprawdz s2)
      else Some (None, s1))"

subsection \<open>Address resolution\<close>

definition rozwiaz_adres_mac :: "karta \<Rightarrow> bajty \<Rightarrow> siec \<Rightarrow> (bajty option \<times> siec) option" where
  "rozwiaz_adres_mac K cel_ip s =
     (if \<not> si_gotowa s \<or> \<not> mac_karty_gotowy K then Some (None, s)
      else if cel_ip ! 0 = 127 then Some (None, s)
      else if ip_rowne cel_ip (si_nasz_ip s) then Some (Some (ka_mac K), s)
      else if ip_jest_broadcast cel_ip then Some (Some broadcast_mac, s)
      else if ip_jest_multicast cel_ip \<or> ip_jest_zero cel_ip then Some (None, s)
      else if \<not> ip_w_naszej_podsieci cel_ip s \<and> ip_jest_zero (si_brama_ip s) then Some (None, s)
      else let nastepny_hop = (if ip_w_naszej_podsieci cel_ip s then cel_ip else si_brama_ip s) in
        (case szukaj_w_cache_arp nastepny_hop s of
          (Some mac, s1) \<Rightarrow> Some (Some mac, s1)
        | (None, s1) \<Rightarrow>
            (case deadline_ms K ARP_TIMEOUT_MS (wyslij_zapytanie_arp K nastepny_hop s1) of (arp_deadline, s2) \<Rightarrow>
              petla_odbioru K arp_deadline (szukaj_w_cache_arp nastepny_hop) s2)))"

subsection \<open>DHCP\<close>

definition dhcp_dodaj_opcje :: "pam \<times> nat \<Rightarrow> u8 \<Rightarrow> bajty \<Rightarrow> (pam \<times> nat) option" where
  "dhcp_dodaj_opcje b kod dane =
     (case b of (bufor, pos) \<Rightarrow>
      if pos > DHCP_PACKET_MAX \<or> length dane + 2 > DHCP_PACKET_MAX - pos then None
      else Some (kopiuj_bajty bufor pos (kod # of_nat (length dane) # dane), pos + 2 + length dane))"

text \<open>The BOOTP header, 240 bytes.\<close>

definition naglowek_bootp :: "karta \<Rightarrow> u32 \<Rightarrow> pam" where
  "naglowek_bootp K xid =
     (let b = kopiuj_bajty (\<lambda>i. 0) 0 [1, 1, 6, 0];
          b = kopiuj_bajty b 4 (zapisz_be32 xid);
          b = kopiuj_bajty b 8 (zapisz_be16 0);
          b = kopiuj_bajty b 10 (zapisz_be16 0x8000);
          b = kopiuj_bajty b 28 (ka_mac K)
      in kopiuj_bajty b DHCP_COOKIE_OFFSET (zapisz_be32 DHCP_MAGIC_COOKIE))"

definition opcje_zapytania :: "karta \<Rightarrow> u32 \<Rightarrow> u8 \<Rightarrow> (bajty \<times> bajty) option \<Rightarrow> (pam \<times> nat) option" where
  "opcje_zapytania K xid typ_wiadomosci zapytanie =
     (case dhcp_dodaj_opcje (naglowek_bootp K xid, DHCP_OPTIONS_OFFSET) DHCP_OPT_MSG_TYPE [typ_wiadomosci] of None \<Rightarrow> None
      | Some b1 \<Rightarrow>
          (case (case zapytanie of
                   Some (zapytanie_ip, serwer_ip) \<Rightarrow>
                     if typ_wiadomosci = DHCP_REQUEST
                     then (case dhcp_dodaj_opcje b1 DHCP_OPT_REQ_IP zapytanie_ip of None \<Rightarrow> None
                           | Some b2 \<Rightarrow> dhcp_dodaj_opcje b2 DHCP_OPT_SERVER_ID serwer_ip)
                     else Some b1
                 | None \<Rightarrow> Some b1) of None \<Rightarrow> None
           | Some b3 \<Rightarrow> dhcp_dodaj_opcje b3 DHCP_OPT_PARAM_REQ [DHCP_OPT_SUBNET, DHCP_OPT_ROUTER, DHCP_OPT_DNS]))"

definition wyslij_dhcp_internal :: "karta \<Rightarrow> u8 \<Rightarrow> (bajty \<times> bajty) option \<Rightarrow> siec \<Rightarrow> bool \<times> siec" where
  "wyslij_dhcp_internal K typ_wiadomosci zapytanie s =
     (if \<not> mac_karty_gotowy K then (False, s)
      else case opcje_zapytania K (si_dhcp_xid s) typ_wiadomosci zapytanie of None \<Rightarrow> (False, s)
      | Some (b, opt) \<Rightarrow>
          if opt \<ge> DHCP_PACKET_MAX then (False, s)
          else let dhcp = kopiuj_bajty b opt [DHCP_OPT_END];
                   dhcp_len = (if opt + 1 < 300 then 300 else opt + 1);
                   udp_len = UDP_LEN + dhcp_len; ip_len = IPV4_MIN_LEN + udp_len
            in if ip_len > 0xFFFF then (False, s)
               else case wypelnij_ipv4 (of_nat ip_len) IP_PROTO_UDP [0, 0, 0, 0] [255, 255, 255, 255] s of
                 (None, s1) \<Rightarrow> (False, s1)
               | (Some ip, s1) \<Rightarrow> wyslij_ethernet K (wypelnij_eth K broadcast_mac ETHERTYPE_IPV4 @ ip @
                   slowo16 (host_na_siec16 PORT_DHCP_CLIENT) @ slowo16 (host_na_siec16 PORT_DHCP_SERVER) @
                   slowo16 (host_na_siec16 (of_nat udp_len)) @ slowo16 0 @ bajty_od dhcp 0 dhcp_len) s1)"

definition wyslij_pakiet_dhcp :: "karta \<Rightarrow> u8 \<Rightarrow> (bajty \<times> bajty) option \<Rightarrow> siec \<Rightarrow> siec" where
  "wyslij_pakiet_dhcp K typ_wiadomosci zapytanie s = snd (wyslij_dhcp_internal K typ_wiadomosci zapytanie s)"

text \<open>The state the client starts from.\<close>

definition poczatek_dhcp :: "karta \<Rightarrow> siec \<Rightarrow> siec" where
  "poczatek_dhcp K s =
     (let s1 = wyczysc_cache_arp (s\<lparr>si_gotowa := False, si_nasz_ip := [0, 0, 0, 0], si_brama_ip := [0, 0, 0, 0],
                 si_maska := [255, 255, 255, 0], si_serwer_dns := [8, 8, 8, 8]\<rparr>);
          mac = ka_mac K
      in s1\<lparr>si_offer := False, si_dhcp_ack := False, si_dhcp_nak := False,
           si_dhcp_xid := (si_dhcp_xid s1 + 0x00010001) XOR
             (push_bit 24 (ucast (mac ! 2)) OR push_bit 16 (ucast (mac ! 3)) OR push_bit 8 (ucast (mac ! 4)) OR ucast (mac ! 5))\<rparr>)"

definition uruchom_klienta_dhcp :: "karta \<Rightarrow> siec \<Rightarrow> siec option" where
  "uruchom_klienta_dhcp K s =
     (case wyslij_dhcp_internal K DHCP_DISCOVER None (poczatek_dhcp K s) of (ok, s1) \<Rightarrow>
      if \<not> ok then Some s1
      else case deadline_ms K DHCP_TIMEOUT_MS s1 of (offer_deadline, s2) \<Rightarrow>
        (case petla_odbioru K offer_deadline (\<lambda>s. (if si_offer s then Some () else None, s)) s2 of None \<Rightarrow> None
         | Some (_, s3) \<Rightarrow>
             if \<not> si_offer s3 then Some s3
             else case wyslij_dhcp_internal K DHCP_REQUEST (Some (si_offer_ip s3, si_offer_serwer s3)) s3 of (ok, s4) \<Rightarrow>
               if \<not> ok then Some s4
               else case deadline_ms K DHCP_TIMEOUT_MS s4 of (ack_deadline, s5) \<Rightarrow>
                 (case petla_odbioru K ack_deadline (\<lambda>s. (if si_dhcp_ack s \<or> si_dhcp_nak s then Some () else None, s)) s5 of None \<Rightarrow> None
                  | Some (_, s6) \<Rightarrow>
                      if si_dhcp_nak s6 then Some s6
                      else if \<not> si_dhcp_ack s6 then Some s6
                      else Some (s6\<lparr>si_gotowa := True\<rparr>))))"

subsection \<open>Ping\<close>

text \<open>An echo request of 32 bytes, with the checksum field given.\<close>

definition zadanie_echa :: "u16 \<Rightarrow> bajty" where
  "zadanie_echa suma = [8, 0] @ slowo16 suma @ slowo16 (host_na_siec16 ICMP_ECHO_ID) @ slowo16 (host_na_siec16 ICMP_ECHO_SEQ) @
     map of_nat [0 ..< 32]"

definition ramka_pinga :: "karta \<Rightarrow> bajty \<Rightarrow> bajty \<Rightarrow> bajty" where
  "ramka_pinga K docelowy_mac ip =
     wypelnij_eth K docelowy_mac ETHERTYPE_IPV4 @ ip @ zadanie_echa (host_na_siec16 (suma_kontrolna_bajty (zadanie_echa 0)))"

definition bws_siec_ping :: "karta \<Rightarrow> u8 \<Rightarrow> u8 \<Rightarrow> u8 \<Rightarrow> u8 \<Rightarrow> siec \<Rightarrow> (u32 \<times> siec) option" where
  "bws_siec_ping K ip1 ip2 ip3 ip4 s =
     (let cel_ip = [ip1, ip2, ip3, ip4] in
      if \<not> si_gotowa s then Some (0, s)
      else if ip_jest_zero cel_ip \<or> ip_jest_broadcast cel_ip \<or> ip_jest_multicast cel_ip then Some (0, s)
      else case rozwiaz_adres_mac K cel_ip s of None \<Rightarrow> None
      | Some (None, s1) \<Rightarrow> Some (0, s1)
      | Some (Some docelowy_mac, s1) \<Rightarrow>
          (case wypelnij_ipv4 (of_nat (IPV4_MIN_LEN + (ICMP_ECHO_LEN + 32))) IP_PROTO_ICMP (si_nasz_ip s1) cel_ip s1 of
             (None, s2) \<Rightarrow> Some (0, s2)
           | (Some ip, s2) \<Rightarrow>
               (case wyslij_ethernet K (ramka_pinga K docelowy_mac ip)
                       (s2\<lparr>si_ping_ip := cel_ip, si_ping_id := ICMP_ECHO_ID, si_ping_seq := ICMP_ECHO_SEQ, si_pong := False\<rparr>) of (ok, s3) \<Rightarrow>
                if \<not> ok then Some (0, s3)
                else case deadline_ms K PING_TIMEOUT_MS s3 of (ping_deadline, s4) \<Rightarrow>
                  (case petla_odbioru K ping_deadline (\<lambda>s. (if si_pong s then Some () else None, s)) s4 of None \<Rightarrow> None
                   | Some (Some _, s5) \<Rightarrow> Some (2, s5)
                   | Some (None, s5) \<Rightarrow> Some (1, s5)))))"

subsection \<open>DNS\<close>

definition zapytanie_dns :: "u16 \<Rightarrow> bajty \<Rightarrow> bajty" where
  "zapytanie_dns ident qname =
     zapisz_be16 ident @ zapisz_be16 0x0100 @ zapisz_be16 1 @ zapisz_be16 0 @ zapisz_be16 0 @ zapisz_be16 0 @
     qname @ zapisz_be16 1 @ zapisz_be16 1"

text \<open>A UDP datagram with the checksum field given.\<close>

definition datagram_udp :: "u16 \<Rightarrow> u16 \<Rightarrow> u16 \<Rightarrow> bajty \<Rightarrow> bajty" where
  "datagram_udp port_zrodlowy port_docelowy suma dane =
     slowo16 (host_na_siec16 port_zrodlowy) @ slowo16 (host_na_siec16 port_docelowy) @
     slowo16 (host_na_siec16 (of_nat (UDP_LEN + length dane))) @ slowo16 suma @ dane"

text \<open>The pointer \<open>dns_ip\<close> of the code is the global \<open>serwer_dns_ip\<close>, read before and after the polls.\<close>

definition wyslij_zapytanie_dns :: "karta \<Rightarrow> pam \<Rightarrow> u16 \<Rightarrow> u16 \<Rightarrow> siec \<Rightarrow> (bool \<times> siec) option" where
  "wyslij_zapytanie_dns K domena ident port_zrodlowy s =
     (case rozwiaz_adres_mac K (si_serwer_dns s) s of None \<Rightarrow> None
      | Some (None, s1) \<Rightarrow> Some (False, s1)
      | Some (Some docelowy_mac, s1) \<Rightarrow>
          (case koduj_nazwe_dns domena (DNS_PACKET_MAX - 12 - 4) of None \<Rightarrow> Some (False, s1)
           | Some qname \<Rightarrow>
               let dns_ip = si_serwer_dns s1; dane = zapytanie_dns ident qname; udp_len = UDP_LEN + length dane; ip_len = IPV4_MIN_LEN + udp_len in
               (case wypelnij_ipv4 (of_nat ip_len) IP_PROTO_UDP (si_nasz_ip s1) dns_ip s1 of
                  (None, s2) \<Rightarrow> Some (False, s2)
                | (Some ip, s2) \<Rightarrow>
                    let suma = suma_transport_ipv4 (si_nasz_ip s1) dns_ip IP_PROTO_UDP (datagram_udp port_zrodlowy PORT_DNS 0 dane) in
                    Some (wyslij_ethernet K (wypelnij_eth K docelowy_mac ETHERTYPE_IPV4 @ ip @
                      datagram_udp port_zrodlowy PORT_DNS (host_na_siec16 suma) dane) s2))))"

definition kernel_siec_dns :: "karta \<Rightarrow> pam \<Rightarrow> siec \<Rightarrow> (bajty option \<times> siec) option" where
  "kernel_siec_dns K domena s =
     (if \<not> si_gotowa s then Some (None, s)
      else let len = dlugosc_tekstu_limit domena (DNS_NAZWA_MAX + 1) in
        if len = 0 \<or> len > DNS_NAZWA_MAX then Some (None, s)
        else let ident = si_dns_id s + 1; (port, licznik) = przydziel_port (si_port_dns s) PORT_DNS_START;
                 s1 = s\<lparr>si_dns_id := (if ident = 0 then 1 else ident), si_port_dns := licznik, si_dns_oczekiwane_id := ident,
                        si_dns_oczekiwany_port := port, si_dns_oczekiwany_serwer := si_serwer_dns s, si_dns_wynik := [0, 0, 0, 0],
                        si_dns_odebrano := False\<rparr>
          in case wyslij_zapytanie_dns K domena ident port s1 of None \<Rightarrow> None
             | Some (False, s2) \<Rightarrow> Some (None, s2)
             | Some (True, s2) \<Rightarrow>
                 (case deadline_ms K DNS_TIMEOUT_MS s2 of (dns_deadline, s3) \<Rightarrow>
                   (case petla_odbioru K dns_deadline (\<lambda>s. (if si_dns_odebrano s then Some (si_dns_wynik s) else None, s)) s3 of None \<Rightarrow> None
                    | Some (Some ip, s4) \<Rightarrow> Some (if \<not> ip_jest_zero ip then Some ip else None, s4)
                    | Some (None, s4) \<Rightarrow> Some (None, s4))))"

subsection \<open>The TCP stream\<close>

definition tcp_przygotuj_polaczenie :: "karta \<Rightarrow> bajty \<Rightarrow> u16 \<Rightarrow> bool \<Rightarrow> siec \<Rightarrow> (bool \<times> siec) option" where
  "tcp_przygotuj_polaczenie K cel_ip port tryb_gniazda s =
     (if port = 0 \<or> \<not> si_gotowa s then Some (False, s)
      else case tcp_rezerwuj_sesje s of (ok, s1) \<Rightarrow>
        if \<not> ok then Some (False, s1)
        else case rozwiaz_adres_mac K cel_ip s1 of None \<Rightarrow> None
        | Some (None, s2) \<Rightarrow> Some (False, tcp_resetuj_sesje True s2)
        | Some (Some docelowy_mac, s2) \<Rightarrow>
            if \<not> mac_jest_poprawny docelowy_mac then Some (False, tcp_resetuj_sesje True s2)
            else case przydziel_port (si_port_eph s2) PORT_EPHEMERAL_START of (nasz_port, licznik) \<Rightarrow>
              case tcp_poczatkowy_seq K s2 of (sekw, s3) \<Rightarrow>
                let s4 = (tcp_wyczysc_bufor_gniazda (s3\<lparr>si_cel_ip := cel_ip, si_cel_mac := docelowy_mac, si_cel_port := port,
                       si_nasz_port := nasz_port, si_port_eph := licznik, si_seq := sekw, si_ack := 0, si_tryb_gniazda := tryb_gniazda,
                       si_odbiornik := False, si_max := 0, si_przepelnienie := False, si_rst := False\<rparr>))\<lparr>si_stan := SYN_WYSLANY\<rparr> in
                (case tcp_wyslij_internal K TCP_FLAG_SYN [] s4 of (ok, s5) \<Rightarrow>
                  if \<not> ok then Some (False, tcp_resetuj_sesje True s5) else Some (True, s5)))"

definition tcp_czekaj_na_polaczenie :: "karta \<Rightarrow> siec \<Rightarrow> (bool \<times> siec) option" where
  "tcp_czekaj_na_polaczenie K s =
     (case deadline_ms K TCP_CONNECT_TIMEOUT_MS s of (connect_deadline, s1) \<Rightarrow>
      (case petla_odbioru K connect_deadline
              (\<lambda>s. (if si_stan s = USTANOWIONY then Some True else if si_stan s = ZAMKNIETY \<or> si_rst s then Some False else None, s)) s1 of
         None \<Rightarrow> None
       | Some (w, s2) \<Rightarrow> Some (w = Some True, s2)))"

definition tcp_gniazdo_polacz :: "karta \<Rightarrow> bajty \<Rightarrow> u16 \<Rightarrow> siec \<Rightarrow> (bool \<times> siec) option" where
  "tcp_gniazdo_polacz K cel_ip port s =
     (if port = 0 then Some (False, s)
      else case tcp_przygotuj_polaczenie K cel_ip port True s of None \<Rightarrow> None
      | Some (ok, s1) \<Rightarrow>
          if \<not> ok then Some (False, s1)
          else (case tcp_czekaj_na_polaczenie K s1 of None \<Rightarrow> None
            | Some (ok, s2) \<Rightarrow> if \<not> ok then Some (False, tcp_resetuj_sesje True s2) else Some (True, s2)))"

text \<open>The loop over the fragments; the result is the number of bytes sent, -1 when the first fragment fails.\<close>

function wyslij_fragmenty :: "karta \<Rightarrow> bajty \<Rightarrow> nat \<Rightarrow> siec \<Rightarrow> int \<times> siec" where
  "wyslij_fragmenty K dane wyslano s =
     (if wyslano \<ge> length dane then (int wyslano, s)
      else let pozostalo = length dane - wyslano;
               fragment = (if pozostalo > TCP_MSS_WYSYLANIA then TCP_MSS_WYSYLANIA else pozostalo) in
        (case tcp_wyslij_internal K (TCP_FLAG_PSH OR TCP_FLAG_ACK) (take fragment (drop wyslano dane)) s of (ok, s1) \<Rightarrow>
         if \<not> ok then (if wyslano \<noteq> 0 then int wyslano else -1, s1)
         else let s2 = e1000_obsluz_odbior K (s1\<lparr>si_seq := si_seq s1 + of_nat fragment\<rparr>) in
           if si_stan s2 = ZAMKNIETY \<or> si_rst s2 then (int (wyslano + fragment), s2)
           else wyslij_fragmenty K dane (wyslano + fragment) s2))"
  by pat_completeness auto
termination by (relation "measure (\<lambda>(K, dane, wyslano, s). length dane - wyslano)") auto

declare wyslij_fragmenty.simps [simp del]

definition tcp_gniazdo_wyslij :: "karta \<Rightarrow> bajty \<Rightarrow> siec \<Rightarrow> int \<times> siec" where
  "tcp_gniazdo_wyslij K dane s =
     (if dane = [] then (0, s)
      else if \<not> si_zajeta s \<or> \<not> si_tryb_gniazda s \<or> si_stan s \<noteq> USTANOWIONY then (-1, s)
      else wyslij_fragmenty K dane 0 s)"

text \<open>The result code with the bytes copied to the caller: their number, 0 at the end of the stream, -1
  on bad arguments, -2 when there is nothing yet.\<close>

definition tcp_gniazdo_odbierz :: "karta \<Rightarrow> u32 \<Rightarrow> siec \<Rightarrow> int \<times> bajty \<times> siec" where
  "tcp_gniazdo_odbierz K maksymalna_dlugosc s =
     (if maksymalna_dlugosc = 0 then (-1, [], s)
      else if \<not> si_zajeta s \<or> \<not> si_tryb_gniazda s then (-1, [], s)
      else case tcp_gniazdo_dostepne (e1000_obsluz_odbior K s) of (dostepne, s1) \<Rightarrow>
        if dostepne = 0 then (if si_stan s1 = ZAMKNIETY then 0 else -2, [], s1)
        else let n = (if dostepne < maksymalna_dlugosc then dostepne else maksymalna_dlugosc);
                 dane = bajty_od (si_bufor s1) (unat (si_poczatek s1)) (unat n);
                 s2 = s1\<lparr>si_poczatek := si_poczatek s1 + n\<rparr>
          in (int (unat n), dane, if si_poczatek s2 = si_koniec s2 then tcp_wyczysc_bufor_gniazda s2 else s2))"

fun czekaj_zamkniecia :: "nat \<Rightarrow> karta \<Rightarrow> siec \<Rightarrow> siec" where
  "czekaj_zamkniecia 0 K s = s"
| "czekaj_zamkniecia (Suc n) K s =
     (let s1 = e1000_obsluz_odbior K s in if si_stan s1 = ZAMKNIETY then s1 else czekaj_zamkniecia n K s1)"

definition tcp_gniazdo_zamknij :: "karta \<Rightarrow> siec \<Rightarrow> siec" where
  "tcp_gniazdo_zamknij K s =
     (if \<not> si_zajeta s then tcp_resetuj_sesje True s
      else tcp_resetuj_sesje True (czekaj_zamkniecia 100000 K (snd (tcp_zamknij_grzecznie K s))))"

subsection \<open>HTTP\<close>

definition http_tekst_bez_crlf :: "pam \<Rightarrow> nat \<Rightarrow> bool \<Rightarrow> bool" where
  "http_tekst_bez_crlf tekst max_len wymaga_slash =
     (let len = dlugosc_tekstu_limit tekst (max_len + 1) in
      if len = 0 \<or> len > max_len then False
      else if wymaga_slash \<and> tekst 0 \<noteq> 0x2F then False
      else list_all (\<lambda>i. \<not> (tekst i = 0x0D \<or> tekst i = 0x0A \<or> tekst i = 0)) [0 ..< len])"

text \<open>Text appended to a buffer that must keep room for the terminator.\<close>

fun dopisz_tekst_od :: "nat \<Rightarrow> bajty \<Rightarrow> bajty \<Rightarrow> bajty option" where
  "dopisz_tekst_od pojemnosc cel [] = Some cel"
| "dopisz_tekst_od pojemnosc cel (z # tekst) = (if length cel + 1 \<ge> pojemnosc then None else dopisz_tekst_od pojemnosc (cel @ [z]) tekst)"

definition dopisz_tekst :: "nat \<Rightarrow> bajty \<Rightarrow> bajty \<Rightarrow> bajty option" where
  "dopisz_tekst pojemnosc tekst cel = (if length cel \<ge> pojemnosc then None else dopisz_tekst_od pojemnosc cel tekst)"

definition znaki :: "string \<Rightarrow> bajty" where
  "znaki t = map of_char t"

definition tekst_c :: "pam \<Rightarrow> nat \<Rightarrow> bajty" where
  "tekst_c t limit = bajty_od t 0 (dlugosc_tekstu_limit t limit)"

definition zbuduj_http_get :: "pam \<Rightarrow> pam \<Rightarrow> nat \<Rightarrow> bajty option" where
  "zbuduj_http_get domena sciezka pojemnosc =
     (if \<not> http_tekst_bez_crlf domena DNS_NAZWA_MAX False \<or> \<not> http_tekst_bez_crlf sciezka 2047 True then None
      else Option.bind (dopisz_tekst pojemnosc (znaki ''GET '') [])
        (\<lambda>b. Option.bind (dopisz_tekst pojemnosc (tekst_c sciezka 2048) b)
        (\<lambda>b. Option.bind (dopisz_tekst pojemnosc (znaki '' HTTP/1.0'' @ [0x0D, 0x0A] @ znaki ''Host: '') b)
        (\<lambda>b. Option.bind (dopisz_tekst pojemnosc (tekst_c domena (DNS_NAZWA_MAX + 1)) b)
        (dopisz_tekst pojemnosc ([0x0D, 0x0A] @ znaki ''Connection: close'' @ [0x0D, 0x0A] @ znaki ''User-Agent: BursztynOS/0.1'' @
           [0x0D, 0x0A] @ znaki ''Accept: */*'' @ [0x0D, 0x0A, 0x0D, 0x0A]))))))"

function wyslij_zapytanie_http :: "karta \<Rightarrow> bajty \<Rightarrow> nat \<Rightarrow> siec \<Rightarrow> bool \<times> siec" where
  "wyslij_zapytanie_http K request wyslano s =
     (if wyslano \<ge> length request then (True, s)
      else let pozostalo = length request - wyslano;
               fragment = (if pozostalo > TCP_MSS_WYSYLANIA then TCP_MSS_WYSYLANIA else pozostalo) in
        (case tcp_wyslij_internal K (TCP_FLAG_PSH OR TCP_FLAG_ACK) (take fragment (drop wyslano request)) s of (ok, s1) \<Rightarrow>
         if \<not> ok then (False, s1)
         else wyslij_zapytanie_http K request (wyslano + fragment) (s1\<lparr>si_seq := si_seq s1 + of_nat fragment\<rparr>)))"
  by pat_completeness auto
termination by (relation "measure (\<lambda>(K, request, wyslano, s). length request - wyslano)") auto

declare wyslij_zapytanie_http.simps [simp del]

definition kernel_siec_pobierz_http :: "karta \<Rightarrow> bajty \<Rightarrow> pam \<Rightarrow> pam \<Rightarrow> u32 \<Rightarrow> siec \<Rightarrow> (bool \<times> siec) option" where
  "kernel_siec_pobierz_http K cel_ip domena sciezka max_dlugosc s =
     (if max_dlugosc = 0 \<or> \<not> si_gotowa s then Some (False, s)
      else case tcp_przygotuj_polaczenie K cel_ip PORT_HTTP False s of None \<Rightarrow> None
      | Some (ok, s1) \<Rightarrow>
          if \<not> ok then Some (False, s1)
          else (case tcp_czekaj_na_polaczenie K (s1\<lparr>si_odbiornik := True, si_max := max_dlugosc, si_zapisano := 0, si_przepelnienie := False,
                        si_dane_odebrane := False\<rparr>) of None \<Rightarrow> None
            | Some (ok, s2) \<Rightarrow>
                if \<not> ok then Some (False, tcp_resetuj_sesje True s2)
                else (case zbuduj_http_get domena sciezka HTTP_REQUEST_MAX of None \<Rightarrow> Some (False, tcp_gniazdo_zamknij K s2)
                  | Some request \<Rightarrow>
                      (case wyslij_zapytanie_http K request 0 s2 of (ok, s3) \<Rightarrow>
                       if \<not> ok then Some (False, tcp_resetuj_sesje True s3)
                       else case deadline_ms K HTTP_TIMEOUT_MS s3 of (http_deadline, s4) \<Rightarrow>
                         (case petla_odbioru K http_deadline (\<lambda>s. (if si_stan s = ZAMKNIETY \<or> si_rst s then Some () else None, s)) s4 of None \<Rightarrow> None
                          | Some (_, s5) \<Rightarrow>
                              let s6 = (if si_stan s5 \<noteq> ZAMKNIETY then snd (tcp_zamknij_grzecznie K s5) else s5);
                                  sukces = (si_zapisano s6 > 0 \<and> \<not> si_przepelnienie s6 \<and> \<not> si_rst s6)
                              in Some (sukces, tcp_resetuj_sesje True s6))))))"

end
