(* ===== verification/Siec_Sumy.thy ===== *)
theory Siec_Sumy
  imports Siec_Klient
begin

section \<open>The network stack: byte order and checksums\<close>

text \<open>
  Fields written in network order read back as they were, and the Internet checksum as arithmetic: the
  sum of the 16-bit words of the bytes is folded to a number congruent modulo 65535, so data that carry
  their own checksum sum to the value the receiver accepts.
\<close>

subsection \<open>Byte order\<close>

lemma bit_u8: "bit (b :: u8) n \<Longrightarrow> n < 8"
  using bit_imp_le_length [of b n] by simp

lemma maski32:
  "(0x000000FF :: u32) = mask 8" "(0x0000FF00 :: u32) = push_bit 8 (mask 8)"
  "(0x00FF0000 :: u32) = push_bit 16 (mask 8)" "(0xFF000000 :: u32) = push_bit 24 (mask 8)"
  by (simp_all add: mask_eq_exp_minus_1 push_bit_eq_mult)

lemma host_na_siec16_bajty: "slowo16 (host_na_siec16 v) = [ucast (drop_bit 8 v), ucast v]"
  unfolding slowo16_def host_na_siec16_def zamien16_def
  by (simp, intro conjI bit_word_eqI) (auto simp: bit_simps)

lemma bit_zamien32: "bit (zamien32 v) n \<longleftrightarrow> n < 32 \<and>
    (if n < 8 then bit v (24 + n) else if n < 16 then bit v (8 + n) else if n < 24 then bit v (n - 8) else bit v (n - 24))"
  unfolding zamien32_def maski32 by (auto simp: bit_simps)

lemma host_na_siec32_bajty: "slowo32 (host_na_siec32 v) = [ucast (drop_bit 24 v), ucast (drop_bit 16 v), ucast (drop_bit 8 v), ucast v]"
  unfolding slowo32_def host_na_siec32_def
  by (simp, intro conjI bit_word_eqI) (auto simp: bit_simps bit_zamien32)

lemma siec_na_host16_pole: "siec_na_host16 (pole16 f p) = czytaj_be16 f p"
  unfolding siec_na_host16_def pole16_def czytaj_be16_def zamien16_def
  by (rule bit_word_eqI) (auto simp: bit_simps dest: bit_u8)

lemma siec_na_host32_pole: "siec_na_host32 (pole32 f p) = czytaj_be32 f p"
  unfolding siec_na_host32_def pole32_def czytaj_be32_def
  by (rule bit_word_eqI) (auto simp: bit_simps bit_zamien32 dest: bit_u8)

lemma czytaj_be16_slowo: "f p = ucast (drop_bit 8 v) \<Longrightarrow> f (p + 1) = ucast v \<Longrightarrow> czytaj_be16 f p = v"
  unfolding czytaj_be16_def by (rule bit_word_eqI) (auto simp: bit_simps)

lemma czytaj_be32_slowo:
  "f p = ucast (drop_bit 24 v) \<Longrightarrow> f (p + 1) = ucast (drop_bit 16 v) \<Longrightarrow> f (p + 2) = ucast (drop_bit 8 v) \<Longrightarrow> f (p + 3) = ucast v \<Longrightarrow>
   czytaj_be32 f p = v"
  unfolding czytaj_be32_def
proof (rule bit_word_eqI, goal_cases)
  case (1 n)
  then show ?case by (cases "n < 8"; cases "n < 16"; cases "n < 24") (auto simp: bit_simps)
qed

lemma maska16: "(0xFF :: u16) = mask 8"
  by (simp add: mask_eq_exp_minus_1)

lemma zapisz_be16_bajty: "zapisz_be16 v = slowo16 (host_na_siec16 v)"
  unfolding host_na_siec16_bajty zapisz_be16_def maska16
  by (simp, rule bit_word_eqI) (auto simp: bit_simps)

subsection \<open>Words of a byte sequence\<close>

fun slowa :: "bajty \<Rightarrow> nat" where
  "slowa (a # b # xs) = unat a * 256 + unat b + slowa xs"
| "slowa [a] = unat a * 256"
| "slowa [] = 0"

lemma slowa_append: "even (length xs) \<Longrightarrow> slowa (xs @ ys) = slowa xs + slowa ys"
  by (induction xs rule: slowa.induct) auto

lemma slowa_granica: "slowa xs \<le> 65535 * ((length xs + 1) div 2)"
proof (induction xs rule: slowa.induct)
  case (1 a b xs)
  have "unat a * 256 + unat b \<le> 65535" using unat_u8_less [of a] unat_u8_less [of b] by linarith
  then show ?case using 1 by simp
next
  case (2 a)
  have "unat a * 256 \<le> 65535" using unat_u8_less [of a] by linarith
  then show ?case by simp
qed simp

lemma unat_slowo: "unat (push_bit 8 (ucast (a :: u8)) OR ucast (b :: u8) :: u32) = unat a * 256 + unat b"
proof -
  have "push_bit 8 (ucast a :: u32) AND ucast b = 0" by (rule bit_word_eqI) (auto simp: bit_simps dest: bit_u8)
  then have o: "push_bit 8 (ucast a) OR ucast b = push_bit 8 (ucast a) + (ucast b :: u32)" by (simp add: disjunctive_add_eq_or)
  have "unat (push_bit 8 (ucast a) :: u32) = unat a * 256"
    using unat_u8_less [of a] by (simp add: push_bit_eq_mult unat_word_ariths unsigned_ucast_eq take_bit_nat_eq_self del: unat_u8_less)
  then show ?thesis
    unfolding o using unat_u8_less [of a] unat_u8_less [of b]
    by (simp add: unat_word_ariths unsigned_ucast_eq take_bit_nat_eq_self del: unat_u8_less)
qed

lemma unat_suma_dodaj:
  "unat s + slowa xs < 4294967296 \<Longrightarrow> unat (suma_dodaj_bajty s xs) = unat s + slowa xs"
proof (induction s xs rule: suma_dodaj_bajty.induct)
  case (1 s a b xs)
  have "unat (s + (push_bit 8 (ucast a) OR ucast b)) = unat s + (unat a * 256 + unat b)"
    using 1(2) by (simp add: unat_word_ariths unat_slowo)
  then show ?case using 1 by simp
next
  case (2 s a)
  have "unat (push_bit 8 (ucast a) :: u32) = unat a * 256" using unat_slowo [of a 0] by simp
  then show ?case using 2 by (simp add: unat_word_ariths)
qed simp

subsection \<open>Folding\<close>

lemma unat_u32_granica: "unat (s :: u32) < 4294967296" "unat s div 65536 \<le> 65535"
proof -
  show "unat s < 4294967296" using unsigned_less [of s] by simp
  then have "unat s div 65536 < 65536" by (intro less_mult_imp_div_less) simp
  then show "unat s div 65536 \<le> 65535" by simp
qed

lemma unat_zloz_krok:
  assumes "drop_bit 16 (s :: u32) \<noteq> 0"
  shows "unat ((s AND 0xFFFF) + drop_bit 16 s) mod 65535 = unat s mod 65535" "(s AND 0xFFFF) + drop_bit 16 s \<noteq> 0"
proof -
  have a: "s AND 0xFFFF = take_bit 16 s" by (simp add: take_bit_eq_mask mask_eq_exp_minus_1)
  have m: "unat (s AND 0xFFFF) = unat s mod 65536" unfolding a by (simp add: take_bit_eq_mod unat_mod_distrib)
  have q: "unat (drop_bit 16 s) = unat s div 65536" by (simp add: drop_bit_eq_div unat_div_distrib)
  have "unat s mod 65536 < 65536" "unat s div 65536 \<le> 65535" using unat_u32_granica [of s] by simp_all
  then have u: "unat ((s AND 0xFFFF) + drop_bit 16 s) = unat s mod 65536 + unat s div 65536"
    by (simp add: unat_word_ariths m q)
  have e: "unat s = unat s mod 65536 + unat s div 65536 + 65535 * (unat s div 65536)"
    using mult_div_mod_eq [of 65536 "unat s"] by linarith
  then show "unat ((s AND 0xFFFF) + drop_bit 16 s) mod 65535 = unat s mod 65535" unfolding u by (metis mod_mult_self2)
  have "unat s div 65536 \<noteq> 0" using q assms by (metis unat_eq_zero)
  then show "(s AND 0xFFFF) + drop_bit 16 s \<noteq> 0" using u by (metis add_is_0 unat_0)
qed

lemma suma_sloz_wynik:
  "unat (suma_sloz s) < 65536 \<and> unat (suma_sloz s) mod 65535 = unat s mod 65535 \<and> (suma_sloz s = 0 \<longleftrightarrow> s = 0)"
proof (induction s rule: suma_sloz.induct)
  case (1 s)
  show ?case
  proof (cases "drop_bit 16 s = 0")
    case True
    moreover have "unat (drop_bit 16 s) = unat s div 65536" by (simp add: drop_bit_eq_div unat_div_distrib)
    ultimately have "unat s div 65536 = 0" by simp
    then have "unat s < 65536" by (simp add: div_eq_0_iff)
    then show ?thesis unfolding suma_sloz.simps [of s] using True by simp
  next
    case False
    have "s \<noteq> 0" using False by auto
    then show ?thesis unfolding suma_sloz.simps [of s] using 1 [OF False] unat_zloz_krok [OF False] False by simp
  qed
qed

lemma maska32: "(0xFFFF :: u32) = mask 16"
  by (simp add: mask_eq_exp_minus_1)

lemma unat_suma_zakoncz: "unat (suma_zakoncz s) = 65535 - unat (suma_sloz s)"
proof -
  let ?r = "suma_sloz s"
  have r: "unat ?r < 65536" using suma_sloz_wynik by blast
  have "suma_zakoncz s = NOT (ucast ?r)"
    unfolding suma_zakoncz_def maska32 by (rule bit_word_eqI) (auto simp: bit_simps)
  moreover have "unat (ucast ?r :: u16) = unat ?r" using r by (simp add: unsigned_ucast_eq take_bit_nat_eq_self)
  moreover have "unat (NOT x) = 65535 - unat x" for x :: u16
  proof -
    have "NOT x = - 1 - x" by (simp add: not_eq_complement)
    moreover have "x \<le> - 1" by simp
    ultimately show ?thesis by (simp add: unat_sub unsigned_minus_1_eq_mask mask_eq_exp_minus_1)
  qed
  ultimately show ?thesis by simp
qed

text \<open>Zero exactly on a positive multiple of 65535.\<close>

lemma suma_zakoncz_zero: "suma_zakoncz s = 0 \<longleftrightarrow> s \<noteq> 0 \<and> unat s mod 65535 = 0"
proof -
  let ?r = "unat (suma_sloz s)"
  have w: "?r < 65536" "?r mod 65535 = unat s mod 65535" "suma_sloz s = 0 \<longleftrightarrow> s = 0" using suma_sloz_wynik by blast+
  have "suma_zakoncz s = 0 \<longleftrightarrow> unat (suma_zakoncz s) = 0" by (simp add: unat_eq_zero)
  also have "\<dots> \<longleftrightarrow> ?r = 65535" using unat_suma_zakoncz [of s] w(1) by auto
  also have "\<dots> \<longleftrightarrow> s \<noteq> 0 \<and> unat s mod 65535 = 0"
  proof
    assume r: "?r = 65535"
    then show "s \<noteq> 0 \<and> unat s mod 65535 = 0" using w by (metis mod_self unat_0 zero_neq_numeral)
  next
    assume "s \<noteq> 0 \<and> unat s mod 65535 = 0"
    then have "?r \<noteq> 0" "?r mod 65535 = 0" using w by (auto simp: unat_eq_zero)
    then have "\<not> ?r < 65535" by (metis mod_less)
    then show "?r = 65535" using w(1) by simp
  qed
  finally show ?thesis .
qed

lemma zakoncz_dopelnienie:
  assumes "unat s' = unat s + unat (suma_zakoncz s)"
  shows "suma_zakoncz s' = 0"
proof -
  let ?r = "unat (suma_sloz s)"
  have w: "?r < 65536" "?r mod 65535 = unat s mod 65535" "suma_sloz s = 0 \<longleftrightarrow> s = 0" using suma_sloz_wynik by blast+
  have e: "unat s' + ?r = unat s + 65535" using assms unat_suma_zakoncz [of s] w(1) by simp
  have "s' \<noteq> 0"
  proof
    assume "s' = 0"
    with e w(1) have "unat s = 0" "?r = 65535" by simp_all
    with w(3) show False by (simp add: unat_eq_zero)
  qed
  moreover have "unat s' mod 65535 = 0"
  proof -
    have "(unat s' + ?r) mod 65535 = ?r mod 65535" unfolding e using w(2) by simp
    then have "65535 dvd unat s' + ?r - ?r" by (intro mod_eq_dvd_iff_nat [THEN iffD1]) simp_all
    then show ?thesis by (simp add: mod_eq_0_iff_dvd)
  qed
  ultimately show ?thesis by (simp add: suma_zakoncz_zero)
qed

lemma zakoncz_pelna:
  assumes "unat s' = unat s + 65535" "suma_zakoncz s = 0"
  shows "suma_zakoncz s' = 0"
proof -
  have "unat s mod 65535 = 0" using assms(2) unfolding suma_zakoncz_zero by (rule conjunct2)
  then have "unat s' mod 65535 = 0" unfolding assms(1) by simp
  moreover have "s' \<noteq> 0" using assms(1) by auto
  ultimately show ?thesis unfolding suma_zakoncz_zero by simp
qed

text \<open>A checksum in a field of two bytes at an even offset.\<close>

lemma slowa_pole: "slowa (slowo16 (host_na_siec16 v)) = unat v" "slowa (slowo16 0) = 0" "length (slowo16 v) = 2"
proof -
  have "unat v = unat (drop_bit 8 v) * 256 + unat (take_bit 8 v)"
    by (simp add: drop_bit_eq_div unat_div_distrib take_bit_eq_mod unat_mod_distrib)
  moreover have "unat (ucast (drop_bit 8 v) :: u8) = unat (drop_bit 8 v)"
  proof -
    have "unat v < 65536" using unsigned_less [where w = v and 'a = nat] by simp
    then have "unat (drop_bit 8 v) < 256" by (simp add: drop_bit_eq_div unat_div_distrib less_mult_imp_div_less)
    then show ?thesis by (simp add: unsigned_ucast_eq take_bit_nat_eq_self)
  qed
  moreover have "unat (ucast v :: u8) = unat (take_bit 8 v)" by (simp add: unsigned_ucast_eq unsigned_take_bit_eq)
  ultimately show "slowa (slowo16 (host_na_siec16 v)) = unat v" by (simp add: host_na_siec16_bajty)
qed (simp_all add: slowo16_def)

lemma slowa_z_polem:
  "even (length xs) \<Longrightarrow> slowa (xs @ slowo16 (host_na_siec16 v) @ ys) = slowa (xs @ slowo16 0 @ ys) + unat v"
  by (simp add: slowa_append slowa_pole)

lemma slowa_krotkie: "length xs \<le> n \<Longrightarrow> slowa xs \<le> 65535 * ((n + 1) div 2)"
  by (rule order_trans [OF slowa_granica]) (simp add: div_le_mono)

lemma suma_kontrolna_wlasna:
  assumes "even (length xs)" "length xs + length ys \<le> 65533"
  shows "suma_kontrolna_bajty (xs @ slowo16 (host_na_siec16 (suma_kontrolna_bajty (xs @ slowo16 0 @ ys))) @ ys) = 0"
proof -
  let ?d = "xs @ slowo16 0 @ ys" and ?c = "suma_kontrolna_bajty (xs @ slowo16 0 @ ys)"
  let ?e = "xs @ slowo16 (host_na_siec16 ?c) @ ys"
  have "slowa ?d \<le> 65535 * 32768" "slowa ?e \<le> 65535 * 32768" using assms(2) by (auto intro!: slowa_krotkie [of _ 65535, simplified] simp: slowa_pole)
  then have "unat (suma_dodaj_bajty 0 ?d) = slowa ?d" "unat (suma_dodaj_bajty 0 ?e) = slowa ?e" by (simp_all add: unat_suma_dodaj)
  then have "unat (suma_dodaj_bajty 0 ?e) = unat (suma_dodaj_bajty 0 ?d) + unat ?c" by (simp add: slowa_z_polem [OF assms(1)])
  from zakoncz_dopelnienie [OF this [unfolded suma_kontrolna_bajty_def]]
  show ?thesis unfolding suma_kontrolna_bajty_def .
qed

definition zalazek :: "bajty \<Rightarrow> bajty \<Rightarrow> u8 \<Rightarrow> nat \<Rightarrow> u32" where
  "zalazek zrodlo cel prot n = suma_dodaj_bajty (suma_dodaj_bajty 0 zrodlo) cel + ucast prot + of_nat n"

lemma suma_transport_zalazek: "suma_transport_ipv4 zrodlo cel prot seg =
    (let w = suma_zakoncz (suma_dodaj_bajty (zalazek zrodlo cel prot (length seg)) seg) in if w = 0 \<and> prot = IP_PROTO_UDP then 0xFFFF else w)"
  by (simp add: suma_transport_ipv4_def zalazek_def Let_def)

lemma zalazek_granica:
  assumes "length zrodlo = 4" "length cel = 4" "n \<le> 65535"
  shows "unat (zalazek zrodlo cel prot n) \<le> 400000"
proof -
  have s: "slowa zrodlo \<le> 131070" "slowa cel \<le> 131070" using slowa_granica [of zrodlo] slowa_granica [of cel] assms by simp_all
  then have a: "unat (suma_dodaj_bajty (suma_dodaj_bajty 0 zrodlo) cel) \<le> 262140" by (simp add: unat_suma_dodaj)
  have p: "unat (ucast prot :: u32) \<le> 255" using unat_u8_less [of prot] by (simp add: unsigned_ucast_eq take_bit_nat_eq_self del: unat_u8_less)
  have n: "unat (of_nat n :: u32) = n" using assms(3) by (simp add: unsigned_of_nat take_bit_nat_eq_self)
  have t: "unat (x + y + z) \<le> unat x + unat y + unat z" for x y z :: u32
    by (simp add: unat_word_ariths)
  show ?thesis
    unfolding zalazek_def using t [of "suma_dodaj_bajty (suma_dodaj_bajty 0 zrodlo) cel" "ucast prot" "of_nat n"] a p n assms(3) by linarith
qed

lemma suma_transport_wlasna:
  fixes prot :: u8
  assumes "even (length xs)" "length xs + length ys \<le> 65533" "length zrodlo = 4" "length cel = 4"
  defines "c \<equiv> suma_transport_ipv4 zrodlo cel prot (xs @ slowo16 0 @ ys)"
  shows "suma_transport_ipv4 zrodlo cel prot (xs @ slowo16 (host_na_siec16 c) @ ys) = (if prot = IP_PROTO_UDP then 0xFFFF else 0)"
proof -
  let ?d = "xs @ slowo16 0 @ ys" and ?e = "xs @ slowo16 (host_na_siec16 c) @ ys"
  let ?z = "zalazek zrodlo cel prot (length ?d)"
  have l: "length ?e = length ?d" by (simp add: slowa_pole)
  have z: "unat ?z \<le> 400000" using assms by (intro zalazek_granica) (simp_all add: slowa_pole)
  have "slowa ?d \<le> 65535 * 32768" "slowa ?e \<le> 65535 * 32768" using assms(2) by (auto intro!: slowa_krotkie [of _ 65535, simplified] simp: slowa_pole)
  then have u: "unat (suma_dodaj_bajty ?z ?d) = unat ?z + slowa ?d" "unat (suma_dodaj_bajty ?z ?e) = unat ?z + slowa ?e"
    using z by (simp_all add: unat_suma_dodaj)
  let ?w = "suma_zakoncz (suma_dodaj_bajty ?z ?d)"
  have v: "unat (suma_dodaj_bajty ?z ?e) = unat (suma_dodaj_bajty ?z ?d) + unat c" using u slowa_z_polem [OF assms(1), of c ys] by simp
  have c: "c = (if ?w = 0 \<and> prot = IP_PROTO_UDP then 0xFFFF else ?w)" unfolding c_def suma_transport_zalazek Let_def ..
  have "suma_zakoncz (suma_dodaj_bajty ?z ?e) = 0"
  proof (cases "?w = 0 \<and> prot = IP_PROTO_UDP")
    case True
    then have "c = 0xFFFF" unfolding c by (rule if_P)
    then have "unat c = 65535" by simp
    with v have "unat (suma_dodaj_bajty ?z ?e) = unat (suma_dodaj_bajty ?z ?d) + 65535" by metis
    from this conjunct1 [OF True] show ?thesis by (rule zakoncz_pelna)
  next
    case False
    then have w: "c = ?w" unfolding c by (rule if_not_P)
    have "unat (suma_dodaj_bajty ?z ?e) = unat (suma_dodaj_bajty ?z ?d) + unat ?w" unfolding w [symmetric] by (rule v)
    then show ?thesis by (rule zakoncz_dopelnienie)
  qed
  then show ?thesis unfolding suma_transport_zalazek l Let_def by simp
qed

end
