(* ===== verification/Siec_Granice.thy ===== *)
theory Siec_Granice
  imports Siec_Sumy
begin

section \<open>The network stack: what a handler reads of a frame\<close>

text \<open>
  Two memories that agree on the bytes of a frame are handled alike: no handler reads past the length
  the driver reports, whatever the lengths inside the frame say.
\<close>

definition zgodne_do :: "pam \<Rightarrow> pam \<Rightarrow> nat \<Rightarrow> bool" where
  "zgodne_do f g n \<longleftrightarrow> (\<forall>i < n. f i = g i)"

lemma zgodne_bajt: "zgodne_do f g n \<Longrightarrow> p < n \<Longrightarrow> f p = g p"
  by (simp add: zgodne_do_def)

lemma zgodne_pola:
  assumes "zgodne_do f g n"
  shows "p + 2 \<le> n \<Longrightarrow> pole16 f p = pole16 g p" "p + 4 \<le> n \<Longrightarrow> pole32 f p = pole32 g p"
    "p + 2 \<le> n \<Longrightarrow> czytaj_be16 f p = czytaj_be16 g p" "p + 4 \<le> n \<Longrightarrow> czytaj_be32 f p = czytaj_be32 g p"
    "p + k \<le> n \<Longrightarrow> bajty_od f p k = bajty_od g p k"
  using assms by (auto simp: zgodne_do_def pole16_def pole32_def czytaj_be16_def czytaj_be32_def bajty_od_def)

lemmas pola_eth = eth_zrodlo_mac_def eth_typ_def
lemmas pola_arp = arp_typ_sprzetu_def arp_typ_protokolu_def arp_dlugosc_mac_def arp_dlugosc_ip_def arp_operacja_def
  arp_nadawca_mac_def arp_nadawca_ip_def arp_cel_ip_def
lemmas pola_ip = ip_wersja_ihl_def ip_dlugosc_calkowita_def ip_flagi_fragment_def ip_protokol_def ip_zrodlo_ip_def ip_cel_ip_def
lemmas pola_udp = udp_port_zrodlowy_def udp_port_docelowy_def udp_dlugosc_def udp_suma_kontrolna_def
lemmas pola_tcp = tcp_port_zrodlowy_def tcp_port_docelowy_def tcp_numer_sekwencyjny_def tcp_numer_potwierdzenia_def
  tcp_przesuniecie_danych_def tcp_flagi_def
lemmas pola_icmp = icmp_typ_def icmp_kod_def icmp_id_def icmp_sekwencja_def

lemma obsluz_arp_zgodne:
  assumes z: "zgodne_do f g n"
  shows "obsluz_arp K f n s = obsluz_arp K g n s"
proof (cases "n < ETH_LEN + ARP_LEN")
  case False
  then have e: "arp_typ_sprzetu f ETH_LEN = arp_typ_sprzetu g ETH_LEN" "arp_typ_protokolu f ETH_LEN = arp_typ_protokolu g ETH_LEN"
    "arp_dlugosc_mac f ETH_LEN = arp_dlugosc_mac g ETH_LEN" "arp_dlugosc_ip f ETH_LEN = arp_dlugosc_ip g ETH_LEN"
    "arp_operacja f ETH_LEN = arp_operacja g ETH_LEN" "arp_nadawca_mac f ETH_LEN = arp_nadawca_mac g ETH_LEN"
    "arp_nadawca_ip f ETH_LEN = arp_nadawca_ip g ETH_LEN" "arp_cel_ip f ETH_LEN = arp_cel_ip g ETH_LEN" "eth_zrodlo_mac f 0 = eth_zrodlo_mac g 0"
    unfolding pola_arp pola_eth by (auto intro!: zgodne_pola [OF z] zgodne_bajt [OF z])
  show ?thesis unfolding obsluz_arp_def Let_def e ..
qed (simp add: obsluz_arp_def)

lemma parsuj_ipv4_zgodne:
  assumes z: "zgodne_do f g n" and d: "dane + dostepne \<le> n"
  shows "parsuj_ipv4 f dane dostepne = parsuj_ipv4 g dane dostepne"
proof (cases "dostepne < IPV4_MIN_LEN")
  case False
  then have e: "ip_wersja_ihl f dane = ip_wersja_ihl g dane" "ip_dlugosc_calkowita f dane = ip_dlugosc_calkowita g dane"
    "ip_flagi_fragment f dane = ip_flagi_fragment g dane"
    unfolding pola_ip using d by (auto intro!: zgodne_pola [OF z] zgodne_bajt [OF z])
  have b: "bajty_od f dane k = bajty_od g dane k" if "\<not> k > dostepne" for k using that d by (intro zgodne_pola [OF z]) simp
  show ?thesis unfolding parsuj_ipv4_def Let_def e using b by (simp cong: if_cong)
qed (simp add: parsuj_ipv4_def)

text \<open>A view that the parser gives lies in the frame.\<close>

definition widok_w :: "WidokIPv4 \<Rightarrow> nat \<Rightarrow> bool" where
  "widok_w w n \<longleftrightarrow> wi_ip w + IPV4_MIN_LEN \<le> wi_payload w \<and> wi_payload w + wi_payload_len w \<le> n"

lemma widok_parsera:
  assumes "parsuj_ipv4 f dane dostepne = Some w" "dane + dostepne \<le> n"
  shows "widok_w w n" "wi_ip w = dane"
proof -
  define ihl where "ihl = ip_wersja_ihl f dane AND 0x0F"
  have "5 \<le> unat ihl" if "\<not> ihl < 5" using that by (simp add: word_less_nat_alt)
  then have "20 \<le> unat ihl * 4" if "\<not> ihl < 5" using that by simp
  then show "widok_w w n" "wi_ip w = dane"
    using assms unfolding parsuj_ipv4_def Let_def ihl_def [symmetric] widok_w_def by (auto split: if_splits)
qed

subsection \<open>DHCP and DNS\<close>

lemma zapisz_opcje_zgodne:
  assumes "zgodne_do f g n" "dane + len \<le> n"
  shows "zapisz_opcje f dane kod len wynik = zapisz_opcje g dane kod len wynik"
proof -
  have "bajty_od f dane 4 = bajty_od g dane 4" if "4 \<le> len" using zgodne_pola(5) [OF assms(1)] assms(2) that by simp
  moreover have "f dane = g dane" if "len = 1" using zgodne_bajt [OF assms(1)] assms(2) that by simp
  ultimately show ?thesis by (simp add: zapisz_opcje_def)
qed

lemma opcje_od_zgodne:
  assumes z: "zgodne_do f g n"
  shows "opcje + dlugosc \<le> n \<Longrightarrow> opcje_od f opcje dlugosc pos wynik = opcje_od g opcje dlugosc pos wynik"
  using z
proof (induction f opcje dlugosc pos wynik rule: opcje_od.induct)
  case (1 f opcje dlugosc pos wynik)
  note z = 1(4)
  show ?case
  proof (cases "pos \<ge> dlugosc")
    case False
    then have k: "f (opcje + pos) = g (opcje + pos)" using 1(3) by (intro zgodne_bajt [OF z]) simp
    have l: "f (opcje + (pos + 1)) = g (opcje + (pos + 1))" if "\<not> pos + 1 \<ge> dlugosc" using that 1(3) by (intro zgodne_bajt [OF z]) simp
    have w: "zapisz_opcje f (opcje + (pos + 2)) kod len wynik = zapisz_opcje g (opcje + (pos + 2)) kod len wynik"
      if "\<not> pos + 1 \<ge> dlugosc" "\<not> len > dlugosc - (pos + 2)" for kod len
      using that 1(3) by (intro zapisz_opcje_zgodne [OF z]) simp
    show ?thesis
      unfolding opcje_od.simps [of f opcje dlugosc pos wynik] opcje_od.simps [of g opcje dlugosc pos wynik] Let_def
      using False k l w 1(1) [OF False refl _ 1(3) z] 1(2) [OF False refl _ _ _ refl _ 1(3) z] by (simp cong: if_cong)
  qed (simp add: opcje_od.simps)
qed

lemma obsluz_dhcp_zgodne:
  assumes z: "zgodne_do f g n" and w: "widok_w w n" and p: "udp + UDP_LEN \<le> n" "p + payload_len \<le> n"
  shows "obsluz_dhcp K f w udp p payload_len s = obsluz_dhcp K g w udp p payload_len s"
proof (cases "payload_len < DHCP_OPTIONS_OFFSET + 1")
  case False
  then have e: "udp_port_zrodlowy f udp = udp_port_zrodlowy g udp" "udp_port_docelowy f udp = udp_port_docelowy g udp"
    "f p = g p" "f (p + 1) = g (p + 1)" "f (p + 2) = g (p + 2)" "czytaj_be32 f (p + 4) = czytaj_be32 g (p + 4)"
    "bajty_od f (p + 28) 6 = bajty_od g (p + 28) 6" "czytaj_be32 f (p + DHCP_COOKIE_OFFSET) = czytaj_be32 g (p + DHCP_COOKIE_OFFSET)"
    "bajty_od f (p + 16) 4 = bajty_od g (p + 16) 4" "ip_zrodlo_ip f (wi_ip w) = ip_zrodlo_ip g (wi_ip w)"
    "parsuj_opcje_dhcp f (p + DHCP_OPTIONS_OFFSET) (payload_len - DHCP_OPTIONS_OFFSET) =
     parsuj_opcje_dhcp g (p + DHCP_OPTIONS_OFFSET) (payload_len - DHCP_OPTIONS_OFFSET)"
    unfolding pola_udp pola_ip parsuj_opcje_dhcp_def using p w
    by (auto intro!: zgodne_pola [OF z] zgodne_bajt [OF z] opcje_od_zgodne [OF z] simp: widok_w_def)
  show ?thesis unfolding obsluz_dhcp_def Let_def e ..
qed (simp add: obsluz_dhcp_def)

lemma pomin_od_zgodne:
  "zgodne_do f g n \<Longrightarrow> pakiet + dlugosc \<le> n \<Longrightarrow> pomin_od f pakiet dlugosc p etykiety = pomin_od g pakiet dlugosc p etykiety"
proof (induction f pakiet dlugosc p etykiety rule: pomin_od.induct)
  case (1 f pakiet dlugosc p etykiety)
  note z = 1(2) and d = 1(3)
  show ?case
  proof (cases "p \<ge> dlugosc")
    case False
    then have k: "f (pakiet + p) = g (pakiet + p)" using d by (intro zgodne_bajt [OF z]) simp
    have l: "f (pakiet + (p + 1)) = g (pakiet + (p + 1))" if "\<not> p + 2 > dlugosc" using that d by (intro zgodne_bajt [OF z]) simp
    show ?thesis
      unfolding pomin_od.simps [of f pakiet dlugosc p etykiety] pomin_od.simps [of g pakiet dlugosc p etykiety] Let_def
      using False k l 1(1) [OF False refl _ _ _ _ _ z d] by (simp cong: if_cong)
  qed (simp add: pomin_od.simps)
qed

lemma dns_pomin_zgodne:
  "zgodne_do f g n \<Longrightarrow> pakiet + dlugosc \<le> n \<Longrightarrow> dns_pomin_nazwe f pakiet dlugosc p = dns_pomin_nazwe g pakiet dlugosc p"
  by (simp add: dns_pomin_nazwe_def pomin_od_zgodne)

lemma pomin_pytania_zgodne:
  "zgodne_do f g n \<Longrightarrow> pakiet + dlugosc \<le> n \<Longrightarrow> pomin_pytania f pakiet dlugosc k p = pomin_pytania g pakiet dlugosc k p"
proof (induction k arbitrary: p)
  case (Suc k)
  then show ?case by (simp add: dns_pomin_zgodne [OF Suc.prems] split: option.split)
qed simp

lemma szukaj_odpowiedzi_zgodne:
  "zgodne_do f g n \<Longrightarrow> pakiet + dlugosc \<le> n \<Longrightarrow> szukaj_odpowiedzi f pakiet dlugosc k p s = szukaj_odpowiedzi g pakiet dlugosc k p s"
proof (induction k arbitrary: p s)
  case (Suc k)
  note z = Suc.prems(1) and d = Suc.prems(2)
  have e: "czytaj_be16 f (pakiet + q) = czytaj_be16 g (pakiet + q)" "czytaj_be16 f (pakiet + q + 2) = czytaj_be16 g (pakiet + q + 2)"
    "czytaj_be16 f (pakiet + q + 8) = czytaj_be16 g (pakiet + q + 8)" if "\<not> q + 10 > dlugosc" for q
    using that d by (auto intro!: zgodne_pola [OF z])
  have b: "bajty_od f (pakiet + (q + 10)) 4 = bajty_od g (pakiet + (q + 10)) 4" if "\<not> q + 10 > dlugosc" "\<not> 4 > dlugosc - (q + 10)" for q
    using that d by (intro zgodne_pola [OF z]) simp
  show ?case
  proof (cases "dns_pomin_nazwe g pakiet dlugosc p")
    case (Some q)
    show ?thesis
    proof (cases "q + 10 > dlugosc")
      case False
      show ?thesis
        unfolding szukaj_odpowiedzi.simps dns_pomin_zgodne [OF z d] Some option.case Let_def e [OF False]
        using False Suc.IH [OF z d] b [OF False] by (auto cong: if_cong)
    qed (simp add: dns_pomin_zgodne [OF z d] Some)
  qed (simp add: dns_pomin_zgodne [OF z d])
qed simp

lemma obsluz_dns_zgodne:
  assumes z: "zgodne_do f g n" and w: "widok_w w n" and p: "udp + UDP_LEN \<le> n" "p + payload_len \<le> n"
  shows "obsluz_dns f w udp p payload_len s = obsluz_dns g w udp p payload_len s"
proof (cases "payload_len < 12")
  case False
  then have e: "udp_port_zrodlowy f udp = udp_port_zrodlowy g udp" "udp_port_docelowy f udp = udp_port_docelowy g udp"
    "ip_zrodlo_ip f (wi_ip w) = ip_zrodlo_ip g (wi_ip w)" "czytaj_be16 f p = czytaj_be16 g p" "czytaj_be16 f (p + 2) = czytaj_be16 g (p + 2)"
    "czytaj_be16 f (p + 4) = czytaj_be16 g (p + 4)" "czytaj_be16 f (p + 6) = czytaj_be16 g (p + 6)"
    unfolding pola_udp pola_ip using p w by (auto intro!: zgodne_pola [OF z] zgodne_bajt [OF z] simp: widok_w_def)
  show ?thesis unfolding obsluz_dns_def Let_def e pomin_pytania_zgodne [OF z p(2)] szukaj_odpowiedzi_zgodne [OF z p(2)] ..
qed (simp add: obsluz_dns_def)

subsection \<open>UDP, ICMP, TCP\<close>

lemma udp_poprawny_zgodne:
  assumes z: "zgodne_do f g n" and w: "widok_w w n"
  shows "udp_poprawny f w = udp_poprawny g w"
    "udp_poprawny f w = Some (p, l) \<Longrightarrow> wi_payload w + UDP_LEN \<le> n \<and> p + l \<le> n"
proof -
  show "udp_poprawny f w = udp_poprawny g w"
  proof (cases "wi_payload_len w < UDP_LEN")
    case False
    then have e: "udp_dlugosc f (wi_payload w) = udp_dlugosc g (wi_payload w)" "udp_suma_kontrolna f (wi_payload w) = udp_suma_kontrolna g (wi_payload w)"
      "ip_zrodlo_ip f (wi_ip w) = ip_zrodlo_ip g (wi_ip w)" "ip_cel_ip f (wi_ip w) = ip_cel_ip g (wi_ip w)"
      unfolding pola_udp pola_ip using w by (auto intro!: zgodne_pola [OF z] simp: widok_w_def)
    have b: "bajty_od f (wi_payload w) k = bajty_od g (wi_payload w) k" if "\<not> k > wi_payload_len w" for k
      using that w by (intro zgodne_pola [OF z]) (simp add: widok_w_def)
    show ?thesis unfolding udp_poprawny_def Let_def e using b by (auto cong: if_cong)
  qed (simp add: udp_poprawny_def)
  show "udp_poprawny f w = Some (p, l) \<Longrightarrow> wi_payload w + UDP_LEN \<le> n \<and> p + l \<le> n"
    using w unfolding udp_poprawny_def Let_def widok_w_def by (auto split: if_splits)
qed

lemma obsluz_udp_zgodne:
  assumes z: "zgodne_do f g n" and w: "widok_w w n"
  shows "obsluz_udp K f w s = obsluz_udp K g w s"
proof (cases "udp_poprawny f w")
  case None
  then show ?thesis using udp_poprawny_zgodne(1) [OF z w] by (simp add: obsluz_udp_def)
next
  case (Some r)
  obtain p l where r: "r = (p, l)" by (cases r)
  have b: "wi_payload w + UDP_LEN \<le> n" "p + l \<le> n" using udp_poprawny_zgodne(2) [OF z w] Some r by auto
  have e: "udp_port_docelowy f (wi_payload w) = udp_port_docelowy g (wi_payload w)" "ip_cel_ip f (wi_ip w) = ip_cel_ip g (wi_ip w)"
    unfolding pola_udp pola_ip using b w by (auto intro!: zgodne_pola [OF z] simp: widok_w_def)
  show ?thesis
    unfolding obsluz_udp_def udp_poprawny_zgodne(1) [OF z w, symmetric] Some r option.case prod.case Let_def e
      obsluz_dhcp_zgodne [OF z w b] obsluz_dns_zgodne [OF z w b] ..
qed

lemma obsluz_icmp_zgodne:
  assumes z: "zgodne_do f g n" and w: "widok_w w n" and n: "ETH_LEN \<le> n"
  shows "obsluz_icmp K f w s = obsluz_icmp K g w s"
proof (cases "wi_payload_len w < ICMP_ECHO_LEN")
  case False
  then have e: "icmp_typ f (wi_payload w) = icmp_typ g (wi_payload w)" "icmp_kod f (wi_payload w) = icmp_kod g (wi_payload w)"
    "icmp_id f (wi_payload w) = icmp_id g (wi_payload w)" "icmp_sekwencja f (wi_payload w) = icmp_sekwencja g (wi_payload w)"
    "ip_zrodlo_ip f (wi_ip w) = ip_zrodlo_ip g (wi_ip w)" "ip_cel_ip f (wi_ip w) = ip_cel_ip g (wi_ip w)" "eth_zrodlo_mac f 0 = eth_zrodlo_mac g 0"
    "bajty_od f (wi_payload w) (wi_payload_len w) = bajty_od g (wi_payload w) (wi_payload_len w)"
    unfolding pola_icmp pola_ip pola_eth using w n by (auto intro!: zgodne_pola [OF z] zgodne_bajt [OF z] simp: widok_w_def)
  show ?thesis unfolding obsluz_icmp_def Let_def e ..
qed (simp add: obsluz_icmp_def)

lemma obsluz_tcp_zgodne:
  assumes z: "zgodne_do f g n" and w: "widok_w w n"
  shows "obsluz_tcp K f w s = obsluz_tcp K g w s"
proof (cases "wi_payload_len w < TCP_MIN_LEN")
  case False
  then have e: "tcp_port_zrodlowy f (wi_payload w) = tcp_port_zrodlowy g (wi_payload w)" "tcp_port_docelowy f (wi_payload w) = tcp_port_docelowy g (wi_payload w)"
    "tcp_numer_sekwencyjny f (wi_payload w) = tcp_numer_sekwencyjny g (wi_payload w)"
    "tcp_numer_potwierdzenia f (wi_payload w) = tcp_numer_potwierdzenia g (wi_payload w)"
    "tcp_przesuniecie_danych f (wi_payload w) = tcp_przesuniecie_danych g (wi_payload w)" "tcp_flagi f (wi_payload w) = tcp_flagi g (wi_payload w)"
    "ip_zrodlo_ip f (wi_ip w) = ip_zrodlo_ip g (wi_ip w)" "ip_cel_ip f (wi_ip w) = ip_cel_ip g (wi_ip w)"
    "bajty_od f (wi_payload w) (wi_payload_len w) = bajty_od g (wi_payload w) (wi_payload_len w)"
    unfolding pola_tcp pola_ip using w by (auto intro!: zgodne_pola [OF z] zgodne_bajt [OF z] simp: widok_w_def)
  have b: "bajty_od f (wi_payload w + h) (wi_payload_len w - h) = bajty_od g (wi_payload w + h) (wi_payload_len w - h)" if "\<not> h > wi_payload_len w" for h
    using that w by (intro zgodne_pola [OF z]) (simp add: widok_w_def)
  define h where "h = unat (drop_bit 4 (tcp_przesuniecie_danych g (wi_payload w))) * 4"
  show ?thesis
  proof (cases "h > wi_payload_len w")
    case True
    then show ?thesis unfolding obsluz_tcp_def Let_def e h_def [symmetric] by simp
  next
    case False
    show ?thesis unfolding obsluz_tcp_def Let_def e h_def [symmetric] b [OF False] ..
  qed
qed (simp add: obsluz_tcp_def)

subsection \<open>A whole frame\<close>

lemma obsluz_ipv4_zgodne:
  assumes z: "zgodne_do f g n"
  shows "obsluz_ipv4 K f n s = obsluz_ipv4 K g n s"
proof (cases "n < ETH_LEN + IPV4_MIN_LEN")
  case False
  then have d: "ETH_LEN + (n - ETH_LEN) \<le> n" by simp
  show ?thesis
  proof (cases "parsuj_ipv4 f ETH_LEN (n - ETH_LEN)")
    case None
    then show ?thesis using parsuj_ipv4_zgodne [OF z d] by (simp add: obsluz_ipv4_def)
  next
    case (Some w)
    note v = widok_parsera [OF Some d]
    have e: "ip_protokol f (wi_ip w) = ip_protokol g (wi_ip w)" "ip_cel_ip f (wi_ip w) = ip_cel_ip g (wi_ip w)"
      unfolding pola_ip using v(1) by (auto intro!: zgodne_pola [OF z] zgodne_bajt [OF z] simp: widok_w_def)
    have n: "ETH_LEN \<le> n" using False by simp
    show ?thesis
      unfolding obsluz_ipv4_def parsuj_ipv4_zgodne [OF z d, symmetric] Some option.case Let_def e
        obsluz_udp_zgodne [OF z v(1)] obsluz_icmp_zgodne [OF z v(1) n] obsluz_tcp_zgodne [OF z v(1)] ..
  qed
qed (simp add: obsluz_ipv4_def)

lemma obsluz_pakiet_zgodne:
  assumes z: "zgodne_do f g n"
  shows "obsluz_pakiet_sieciowy K f n s = obsluz_pakiet_sieciowy K g n s"
proof (cases "n < ETH_LEN")
  case False
  then have "eth_typ f 0 = eth_typ g 0" unfolding pola_eth by (auto intro!: zgodne_pola [OF z])
  then show ?thesis
    unfolding obsluz_pakiet_sieciowy_def Let_def obsluz_arp_zgodne [OF z] obsluz_ipv4_zgodne [OF z] by simp
qed (simp add: obsluz_pakiet_sieciowy_def)

end
