(* ===== verification/Siec_Strumien.thy ===== *)
theory Siec_Strumien
  imports Siec_Granice
begin

section \<open>The network stack: the TCP stream received\<close>

text \<open>
  A frame as a TCP segment, what the handler does with the segment, the socket buffer as the list of
  bytes it holds, and the invariant of a session whose peer sends one stream of bytes: what was read
  and what is buffered is a prefix of the stream, as long as the acknowledgement number says.
\<close>

subsection \<open>Segments\<close>

record Segment =
  sg_zrodlo :: bajty
  sg_cel :: bajty
  sg_port_zrodlowy :: u16
  sg_port_docelowy :: u16
  sg_sekw :: u32
  sg_potw :: u32
  sg_flagi :: u8
  sg_dane :: bajty

definition segment_widoku :: "pam \<Rightarrow> WidokIPv4 \<Rightarrow> Segment option" where
  "segment_widoku f w =
     (let tcp = wi_payload w; slowa = drop_bit 4 (tcp_przesuniecie_danych f tcp); hdr = unat slowa * 4 in
      if wi_payload_len w < TCP_MIN_LEN \<or> slowa < 5 \<or> hdr > wi_payload_len w \<or>
        suma_transport_ipv4 (ip_zrodlo_ip f (wi_ip w)) (ip_cel_ip f (wi_ip w)) IP_PROTO_TCP (bajty_od f tcp (wi_payload_len w)) \<noteq> 0 then None
      else Some \<lparr>sg_zrodlo = ip_zrodlo_ip f (wi_ip w), sg_cel = ip_cel_ip f (wi_ip w),
        sg_port_zrodlowy = siec_na_host16 (tcp_port_zrodlowy f tcp), sg_port_docelowy = siec_na_host16 (tcp_port_docelowy f tcp),
        sg_sekw = siec_na_host32 (tcp_numer_sekwencyjny f tcp), sg_potw = siec_na_host32 (tcp_numer_potwierdzenia f tcp),
        sg_flagi = tcp_flagi f tcp, sg_dane = bajty_od f (tcp + hdr) (wi_payload_len w - hdr)\<rparr>)"

text \<open>The segment of a frame: the IPv4 and TCP headers are well formed and both checksums hold.\<close>

definition segment_ramki :: "pam \<Rightarrow> nat \<Rightarrow> Segment option" where
  "segment_ramki f n =
     (if n < ETH_LEN + IPV4_MIN_LEN \<or> siec_na_host16 (eth_typ f 0) \<noteq> ETHERTYPE_IPV4 then None
      else case parsuj_ipv4 f ETH_LEN (n - ETH_LEN) of None \<Rightarrow> None
      | Some w \<Rightarrow> if ip_protokol f (wi_ip w) = IP_PROTO_TCP then segment_widoku f w else None)"

definition segment_sesji :: "Segment \<Rightarrow> siec \<Rightarrow> bool" where
  "segment_sesji g s \<longleftrightarrow> si_zajeta s \<and> ip_rowne (sg_cel g) (si_nasz_ip s) \<and> ip_rowne (sg_zrodlo g) (si_cel_ip s) \<and>
     sg_port_docelowy g = si_nasz_port s \<and> sg_port_zrodlowy g = si_cel_port s"

text \<open>The data and the end of the stream in an open session.\<close>

definition przyjmij_dane :: "karta \<Rightarrow> Segment \<Rightarrow> siec \<Rightarrow> siec" where
  "przyjmij_dane K g s =
     (let s1 = (if sg_dane g \<noteq> [] then tcp_przyjmij_payload K (sg_dane g) (sg_sekw g) s else s);
          s2 = (if sg_dane g \<noteq> [] \<and> \<not> si_tryb_gniazda s1 \<and> si_zapisano s1 > 0 then s1\<lparr>si_dane_odebrane := True\<rparr> else s1)
      in if sg_flagi g AND TCP_FLAG_FIN \<noteq> 0
         then (if sg_sekw g + of_nat (length (sg_dane g)) = si_ack s2
               then (snd (tcp_wyslij_internal K TCP_FLAG_ACK [] (s2\<lparr>si_ack := si_ack s2 + 1\<rparr>)))\<lparr>si_stan := ZAMKNIETY\<rparr>
               else s2)
         else s2)"

definition przyjmij_segment :: "karta \<Rightarrow> Segment \<Rightarrow> siec \<Rightarrow> siec" where
  "przyjmij_segment K g s =
     (if \<not> segment_sesji g s then s
      else if sg_flagi g AND TCP_FLAG_RST \<noteq> 0 then s\<lparr>si_rst := True, si_stan := ZAMKNIETY\<rparr>
      else if si_stan s = SYN_WYSLANY
      then (if sg_flagi g AND (TCP_FLAG_SYN OR TCP_FLAG_ACK) \<noteq> TCP_FLAG_SYN OR TCP_FLAG_ACK then s
            else if sg_potw g \<noteq> si_seq s + 1 then s
            else snd (tcp_wyslij_internal K TCP_FLAG_ACK [] (s\<lparr>si_ack := sg_sekw g + 1, si_seq := si_seq s + 1, si_stan := USTANOWIONY\<rparr>)))
      else if si_stan s \<noteq> USTANOWIONY \<and> si_stan s \<noteq> FIN_WYSLANY then s
      else przyjmij_dane K g s)"

lemma length_bajty_od [simp]: "length (bajty_od f p n) = n"
  by (simp add: bajty_od_def)

lemma obsluz_tcp_segment: "obsluz_tcp K f w s = (case segment_widoku f w of None \<Rightarrow> s | Some g \<Rightarrow> przyjmij_segment K g s)"
proof -
  let ?tcp = "wi_payload w"
  define slowa where "slowa = drop_bit 4 (tcp_przesuniecie_danych f ?tcp)"
  define P1 where "P1 \<longleftrightarrow> wi_payload_len w < TCP_MIN_LEN"
  define P2 where "P2 \<longleftrightarrow> slowa < 5"
  define P3 where "P3 \<longleftrightarrow> unat slowa * 4 > wi_payload_len w"
  define z where "z = ip_zrodlo_ip f (wi_ip w)"
  define c where "c = ip_cel_ip f (wi_ip w)"
  define P4 where "P4 \<longleftrightarrow> suma_transport_ipv4 z c IP_PROTO_TCP (bajty_od f ?tcp (wi_payload_len w)) \<noteq> 0"
  define pz where "pz = siec_na_host16 (tcp_port_zrodlowy f ?tcp)"
  define pd where "pd = siec_na_host16 (tcp_port_docelowy f ?tcp)"
  define sk where "sk = siec_na_host32 (tcp_numer_sekwencyjny f ?tcp)"
  define po where "po = siec_na_host32 (tcp_numer_potwierdzenia f ?tcp)"
  define fl where "fl = tcp_flagi f ?tcp"
  define n where "n = wi_payload_len w - unat slowa * 4"
  define d where "d = bajty_od f (?tcp + unat slowa * 4) n"
  have n: "n = length d" "n > 0 \<longleftrightarrow> d \<noteq> []" by (auto simp: d_def bajty_od_def)
  note skroty = slowa_def [symmetric] P1_def [symmetric] P2_def [symmetric] P3_def [symmetric] P4_def [symmetric] n_def [symmetric]
    d_def [symmetric] z_def [symmetric] c_def [symmetric] pz_def [symmetric] pd_def [symmetric] sk_def [symmetric] po_def [symmetric] fl_def [symmetric]
  have g: "segment_widoku f w = (if P1 \<or> P2 \<or> P3 \<or> P4 then None
      else Some \<lparr>sg_zrodlo = z, sg_cel = c, sg_port_zrodlowy = pz, sg_port_docelowy = pd, sg_sekw = sk, sg_potw = po, sg_flagi = fl, sg_dane = d\<rparr>)"
    unfolding segment_widoku_def Let_def skroty ..
  have p: "przyjmij_segment K \<lparr>sg_zrodlo = z, sg_cel = c, sg_port_zrodlowy = pz, sg_port_docelowy = pd, sg_sekw = sk, sg_potw = po, sg_flagi = fl, sg_dane = d\<rparr> s = x
      \<Longrightarrow> (case segment_widoku f w of None \<Rightarrow> s | Some g \<Rightarrow> przyjmij_segment K g s) = (if P1 then s else if P2 then s else if P3 then s else if P4 then s else x)" for x
    unfolding g by (cases P1; cases P2; cases P3; cases P4) simp_all
  show ?thesis
    unfolding obsluz_tcp_def Let_def skroty
    by (rule p [symmetric]) (unfold przyjmij_segment_def przyjmij_dane_def segment_sesji_def Let_def Segment.simps de_Morgan_conj n(2), unfold n(1), rule refl)
qed

subsection \<open>What leaves the session alone\<close>

definition sesja :: "siec \<Rightarrow> (bool \<times> bool \<times> StanTCP \<times> bool) \<times> (u32 \<times> u32) \<times> (pam \<times> u32 \<times> u32) \<times> (bajty \<times> bajty \<times> u16 \<times> u16)" where
  "sesja s = ((si_zajeta s, si_tryb_gniazda s, si_stan s, si_rst s), (si_seq s, si_ack s), (si_bufor s, si_poczatek s, si_koniec s),
     (si_cel_ip s, si_cel_mac s, si_nasz_port s, si_cel_port s))"

lemma sesja_wyslij_ethernet [simp]: "sesja (snd (wyslij_ethernet K r s)) = sesja s"
  by (simp add: wyslij_ethernet_def e1000_wyslij_pakiet_def sesja_def)

lemma sesja_wypelnij_ipv4 [simp]: "sesja (snd (wypelnij_ipv4 d p z c s)) = sesja s"
  by (simp add: wypelnij_ipv4_def przydziel_ipv4_id_def Let_def sesja_def)

lemma sesja_wypelnij: "wypelnij_ipv4 d p z c s = (x, s1) \<Longrightarrow> sesja s1 = sesja s"
  using sesja_wypelnij_ipv4 [of d p z c s] by simp

lemma sesja_tcp_wyslij [simp]: "sesja (snd (tcp_wyslij_internal K fl d s)) = sesja s"
  by (simp add: tcp_wyslij_internal_def Let_def sesja_wypelnij split: prod.split option.split)

lemma sesja_arp [simp]: "sesja (zbuduj_i_wyslij_arp K op a b c d s) = sesja s" "sesja (dodaj_do_cache_arp ip mac s) = sesja s"
    "sesja (wyslij_zapytanie_arp K ip s) = sesja s"
  by (simp_all add: zbuduj_i_wyslij_arp_def wyslij_zapytanie_arp_def)
    (simp add: dodaj_do_cache_arp_def wpisz_arp_def sesja_def split: option.split)

lemma sesja_liczniki [simp]: "sesja (s\<lparr>si_rx_arp := a\<rparr>) = sesja s" "sesja (s\<lparr>si_rx_udp := a\<rparr>) = sesja s" "sesja (s\<lparr>si_rx_dns := a\<rparr>) = sesja s"
    "sesja (s\<lparr>si_rx_icmp := a\<rparr>) = sesja s" "sesja (s\<lparr>si_rx_ipv4 := a\<rparr>) = sesja s" "sesja (s\<lparr>si_n_rx := m\<rparr>) = sesja s" "sesja (s\<lparr>si_pong := p\<rparr>) = sesja s"
  by (simp_all add: sesja_def)

lemma sesja_obsluz_arp [simp]: "sesja (obsluz_arp K f n s) = sesja s"
  by (simp add: obsluz_arp_def Let_def)

lemma sesja_obsluz_dhcp [simp]: "sesja (obsluz_dhcp K f w u p l s) = sesja s"
  unfolding obsluz_dhcp_def Let_def
  by (simp split: option.split) (auto simp: sesja_def przyjmij_offer_def przyjmij_ack_def Let_def)

lemma sesja_szukaj_odpowiedzi [simp]: "sesja (szukaj_odpowiedzi f p l k q s) = sesja s"
proof (induction f p l k q s rule: szukaj_odpowiedzi.induct)
  case (2 f pakiet dlugosc n pos s)
  show ?case
  proof (cases "dns_pomin_nazwe f pakiet dlugosc pos")
    case (Some p)
    then show ?thesis using 2 [OF Some _ refl refl refl refl] by (simp add: Let_def sesja_def)
  qed simp
qed simp

lemma sesja_obsluz_udp [simp]: "sesja (obsluz_udp K f w s) = sesja s"
  by (simp add: obsluz_udp_def obsluz_dns_def Let_def split: option.split prod.split)

lemma sesja_obsluz_icmp [simp]: "sesja (obsluz_icmp K f w s) = sesja s"
  by (simp add: obsluz_icmp_def Let_def sesja_wypelnij split: option.split prod.split)

text \<open>A frame acts on the session as its segment does.\<close>

definition po_ipv4 :: "siec \<Rightarrow> siec" where
  "po_ipv4 s = s\<lparr>si_rx_ipv4 := si_rx_ipv4 s + 1\<rparr>"

lemma obsluz_pakiet_segment:
  "case segment_ramki f n of None \<Rightarrow> sesja (obsluz_pakiet_sieciowy K f n s) = sesja s
   | Some g \<Rightarrow> obsluz_pakiet_sieciowy K f n s = po_ipv4 s \<or> obsluz_pakiet_sieciowy K f n s = przyjmij_segment K g (po_ipv4 s)"
proof (cases "n < ETH_LEN + IPV4_MIN_LEN \<or> siec_na_host16 (eth_typ f 0) \<noteq> ETHERTYPE_IPV4")
  case True
  then have "segment_ramki f n = None" by (auto simp: segment_ramki_def)
  moreover have "obsluz_ipv4 K f n s = s" if "n < ETH_LEN + IPV4_MIN_LEN" using that by (simp add: obsluz_ipv4_def)
  ultimately show ?thesis using True by (auto simp: obsluz_pakiet_sieciowy_def Let_def)
next
  case False
  then have o: "obsluz_pakiet_sieciowy K f n s = obsluz_ipv4 K f n s" by (simp add: obsluz_pakiet_sieciowy_def Let_def)
  show ?thesis
  proof (cases "parsuj_ipv4 f ETH_LEN (n - ETH_LEN)")
    case None
    then show ?thesis using False o by (simp add: segment_ramki_def obsluz_ipv4_def)
  next
    case (Some w)
    show ?thesis
    proof (cases "ip_protokol f (wi_ip w) = IP_PROTO_TCP")
      case True
      then have "obsluz_ipv4 K f n s = po_ipv4 s \<or> obsluz_ipv4 K f n s = obsluz_tcp K f w (po_ipv4 s)"
        using False Some by (auto simp: obsluz_ipv4_def po_ipv4_def Let_def)
      moreover have "segment_ramki f n = segment_widoku f w" using False Some True by (simp add: segment_ramki_def)
      ultimately show ?thesis unfolding o obsluz_tcp_segment by (auto simp: po_ipv4_def split: option.splits)
    next
      case ne: False
      then have "segment_ramki f n = None" using False Some by (simp add: segment_ramki_def)
      then show ?thesis using False Some ne o by (auto simp: obsluz_ipv4_def Let_def)
    qed
  qed
qed

subsection \<open>The socket buffer as a list\<close>

definition gniazdo_ok :: "siec \<Rightarrow> bool" where
  "gniazdo_ok s \<longleftrightarrow> si_zajeta s \<and> si_tryb_gniazda s \<and> si_poczatek s \<le> si_koniec s \<and> si_koniec s \<le> TCP_BUFOR_GNIAZDA"

definition zawartosc :: "siec \<Rightarrow> bajty" where
  "zawartosc s = bajty_od (si_bufor s) (unat (si_poczatek s)) (unat (si_koniec s) - unat (si_poczatek s))"

lemma zawartosc_sesji: "sesja s = sesja s' \<Longrightarrow> zawartosc s = zawartosc s'" "sesja s = sesja s' \<Longrightarrow> gniazdo_ok s = gniazdo_ok s'"
  by (simp_all add: sesja_def zawartosc_def gniazdo_ok_def)

lemma przesun_bufor_wynik: "przesun_bufor p n b i = (if i < n then b (p + i) else b i)"
proof (induction n arbitrary: i)
  case 0
  then show ?case by (simp add: przesun_bufor_def)
next
  case (Suc n)
  have "przesun_bufor p (Suc n) b = (przesun_bufor p n b)(n := przesun_bufor p n b (p + n))" by (simp add: przesun_bufor_def)
  then show ?case by (simp add: Suc.IH less_Suc_eq)
qed

lemma bajty_od_rowne: "(\<And>i. i < n \<Longrightarrow> f (p + i) = g (q + i)) \<Longrightarrow> bajty_od f p n = bajty_od g q n"
  by (rule nth_equalityI) (simp_all add: bajty_od_def)

text \<open>What the session keeps when only the buffer moves.\<close>

definition stan_sesji :: "siec \<Rightarrow> (bool \<times> bool \<times> StanTCP \<times> bool) \<times> u32 \<times> (bajty \<times> bajty \<times> u16 \<times> u16)" where
  "stan_sesji s = ((si_zajeta s, si_tryb_gniazda s, si_stan s, si_rst s), si_seq s, (si_cel_ip s, si_cel_mac s, si_nasz_port s, si_cel_port s))"

lemma stan_z_sesji: "sesja s = sesja s' \<Longrightarrow> stan_sesji s = stan_sesji s'" "sesja s = sesja s' \<Longrightarrow> si_ack s = si_ack s'"
  by (simp_all add: sesja_def stan_sesji_def)

lemma kompaktuj_wynik:
  assumes "gniazdo_ok s"
  defines "s' \<equiv> tcp_gniazdo_kompaktuj s"
  shows "gniazdo_ok s'" "zawartosc s' = zawartosc s" "stan_sesji s' = stan_sesji s" "si_ack s' = si_ack s"
    "si_poczatek s' = 0" "si_koniec s' = si_koniec s - si_poczatek s"
proof -
  have o: "si_poczatek s \<le> si_koniec s" "\<not> si_koniec s < si_poczatek s" "si_koniec s \<le> TCP_BUFOR_GNIAZDA" using assms(1) by (auto simp: gniazdo_ok_def)
  have d: "tcp_gniazdo_dostepne s = (si_koniec s - si_poczatek s, s)" using o by (simp add: tcp_gniazdo_dostepne_def)
  have u: "unat (si_koniec s - si_poczatek s) = unat (si_koniec s) - unat (si_poczatek s)" using o by (simp add: unat_sub)
  have le: "si_koniec s - si_poczatek s \<le> TCP_BUFOR_GNIAZDA" using o u by (simp add: word_le_nat_alt)
  show "gniazdo_ok s'" "stan_sesji s' = stan_sesji s" "si_ack s' = si_ack s" "si_poczatek s' = 0" "si_koniec s' = si_koniec s - si_poczatek s"
    using assms(1) le by (auto simp: s'_def tcp_gniazdo_kompaktuj_def d gniazdo_ok_def stan_sesji_def)
  show "zawartosc s' = zawartosc s"
  proof (cases "si_poczatek s = 0")
    case False
    then show ?thesis
      unfolding s'_def tcp_gniazdo_kompaktuj_def d zawartosc_def
      by (auto simp: u intro!: bajty_od_rowne) (simp add: przesun_bufor_wynik)
  qed (simp add: s'_def tcp_gniazdo_kompaktuj_def)
qed

lemma ma_miejsce_wynik:
  assumes g: "gniazdo_ok s" and p: "potrzebne \<le> TCP_BUFOR_GNIAZDA" and w: "tcp_gniazdo_ma_miejsce potrzebne s = (ok, s')"
  shows "gniazdo_ok s'" "zawartosc s' = zawartosc s" "stan_sesji s' = stan_sesji s" "si_ack s' = si_ack s"
    "ok \<longleftrightarrow> length (zawartosc s) + unat potrzebne \<le> 65536" "ok \<Longrightarrow> unat (si_koniec s') + unat potrzebne \<le> 65536"
proof -
  have o: "unat (si_poczatek s) \<le> unat (si_koniec s)" "unat (si_koniec s) \<le> 65536" "unat potrzebne \<le> 65536"
    using g p by (simp_all add: gniazdo_ok_def word_le_nat_alt)
  have l: "length (zawartosc s) = unat (si_koniec s) - unat (si_poczatek s)" by (simp add: zawartosc_def)
  have suma: "x + potrzebne \<le> TCP_BUFOR_GNIAZDA \<longleftrightarrow> unat x + unat potrzebne \<le> 65536" if "unat x \<le> 65536" for x :: u32
  proof -
    have "unat (x + potrzebne) = unat x + unat potrzebne" using that o(3) by (simp add: unat_word_ariths)
    then show ?thesis by (simp add: word_le_nat_alt)
  qed
  note k = kompaktuj_wynik [OF g]
  have n: "\<not> potrzebne > TCP_BUFOR_GNIAZDA" using p by simp
  consider (bez) "si_koniec s + potrzebne \<le> TCP_BUFOR_GNIAZDA" "ok" "s' = s"
    | (po) "\<not> si_koniec s + potrzebne \<le> TCP_BUFOR_GNIAZDA" "s' = tcp_gniazdo_kompaktuj s" "ok \<longleftrightarrow> si_koniec s' + potrzebne \<le> TCP_BUFOR_GNIAZDA"
    using w n by (auto simp: tcp_gniazdo_ma_miejsce_def Let_def split: if_splits)
  then have "gniazdo_ok s' \<and> zawartosc s' = zawartosc s \<and> stan_sesji s' = stan_sesji s \<and> si_ack s' = si_ack s \<and>
      (ok \<longleftrightarrow> length (zawartosc s) + unat potrzebne \<le> 65536) \<and> (ok \<longrightarrow> unat (si_koniec s') + unat potrzebne \<le> 65536)"
  proof cases
    case bez
    then show ?thesis using g suma [OF o(2)] o l by auto
  next
    case po
    have "unat (si_koniec s') = unat (si_koniec s) - unat (si_poczatek s)" using k(6) po(2) o(1) by (simp add: unat_sub word_le_nat_alt)
    moreover from this have "unat (si_koniec s') \<le> 65536" using o by simp
    ultimately show ?thesis using po k l suma [of "si_koniec s'"] by simp
  qed
  then show "gniazdo_ok s'" "zawartosc s' = zawartosc s" "stan_sesji s' = stan_sesji s" "si_ack s' = si_ack s"
    "ok \<longleftrightarrow> length (zawartosc s) + unat potrzebne \<le> 65536" "ok \<Longrightarrow> unat (si_koniec s') + unat potrzebne \<le> 65536" by blast+
qed

lemma bajty_od_dopisane:
  assumes "p \<le> q"
  shows "bajty_od (kopiuj_bajty b q xs) p (q + length xs - p) = bajty_od b p (q - p) @ xs"
  using assms by (intro nth_equalityI) (auto simp: bajty_od_def kopiuj_bajty_def nth_append add.commute)

text \<open>Data in order that fit are appended and acknowledged; other data change nothing.\<close>

lemma przyjmij_payload_wynik:
  fixes K :: karta and sekw :: u32
  assumes g: "gniazdo_ok s" and d: "d \<noteq> []" "length d \<le> 65535"
  defines "s' \<equiv> tcp_przyjmij_payload K d sekw s"
  shows "gniazdo_ok s' \<and> stan_sesji s' = stan_sesji s \<and>
    (if sekw = si_ack s \<and> length (zawartosc s) + length d \<le> 65536
     then zawartosc s' = zawartosc s @ d \<and> si_ack s' = si_ack s + of_nat (length d)
     else zawartosc s' = zawartosc s \<and> si_ack s' = si_ack s)"
proof -
  let ?n = "of_nat (length d) :: u32" and ?pot = "\<lambda>s. snd (tcp_wyslij_internal K TCP_FLAG_ACK [] s)"
  have n: "unat ?n = length d" using d(2) by (simp add: unsigned_of_nat take_bit_nat_eq_self)
  have n0: "?n \<noteq> 0" using n d(1) by (metis length_0_conv unat_0)
  have nle: "?n \<le> TCP_BUFOR_GNIAZDA" using n d(2) by (simp add: word_le_nat_alt)
  have tg: "si_tryb_gniazda s" using g by (simp add: gniazdo_ok_def)
  have pot: "zawartosc (?pot x) = zawartosc x" "gniazdo_ok (?pot x) = gniazdo_ok x" "stan_sesji (?pot x) = stan_sesji x" "si_ack (?pot x) = si_ack x" for x
    by (simp_all add: zawartosc_sesji [OF sesja_tcp_wyslij] stan_z_sesji [OF sesja_tcp_wyslij])
  obtain ok s1 where m: "tcp_gniazdo_ma_miejsce ?n s = (ok, s1)" by fastforce
  note w = ma_miejsce_wynik [OF g nle m, unfolded n]
  have s': "s' = (if sekw \<noteq> si_ack s then ?pot s else if \<not> ok then ?pot s1
      else ?pot (s1\<lparr>si_bufor := kopiuj_bajty (si_bufor s1) (unat (si_koniec s1)) d, si_koniec := si_koniec s1 + ?n, si_ack := si_ack s1 + ?n\<rparr>))"
    unfolding s'_def tcp_przyjmij_payload_def Let_def m prod.case using n0 tg by simp
  show ?thesis
  proof (cases "sekw = si_ack s \<and> ok")
    case False
    then show ?thesis unfolding s' using g w pot by auto
  next
    case True
    let ?s2 = "s1\<lparr>si_bufor := kopiuj_bajty (si_bufor s1) (unat (si_koniec s1)) d, si_koniec := si_koniec s1 + ?n, si_ack := si_ack s1 + ?n\<rparr>"
    have k: "unat (si_koniec s1 + ?n) = unat (si_koniec s1) + length d" using w(6) True n by (simp add: unat_word_ariths)
    have pk: "unat (si_poczatek s1) \<le> unat (si_koniec s1)" using w(1) by (simp add: gniazdo_ok_def word_le_nat_alt)
    have "gniazdo_ok ?s2" using w(1) w(6) True k pk by (simp add: gniazdo_ok_def word_le_nat_alt)
    moreover have "zawartosc ?s2 = zawartosc s1 @ d" using bajty_od_dopisane [OF pk] by (simp add: zawartosc_def k)
    ultimately show ?thesis unfolding s' using True w pot by (simp add: stan_sesji_def)
  qed
qed

subsection \<open>One stream\<close>

text \<open>A segment that carries a piece of the stream \<open>S\<close> whose first byte has the number \<open>b\<close>; the end of the
  stream is marked only behind its last byte.\<close>

definition niesie :: "bajty \<Rightarrow> u32 \<Rightarrow> Segment \<Rightarrow> bool" where
  "niesie S b g \<longleftrightarrow>
     (sg_dane g = [] \<or> (\<exists>k. k + length (sg_dane g) \<le> length S \<and> sg_sekw g = b + of_nat k \<and> sg_dane g = take (length (sg_dane g)) (drop k S))) \<and>
     (sg_flagi g AND TCP_FLAG_FIN \<noteq> 0 \<longrightarrow> sg_sekw g + of_nat (length (sg_dane g)) = b + of_nat (length S))"

definition strumien :: "bajty \<Rightarrow> u32 \<Rightarrow> bajty \<Rightarrow> siec \<Rightarrow> bool" where
  "strumien S b przeczytane s \<longleftrightarrow> gniazdo_ok s \<and> si_stan s \<noteq> SYN_WYSLANY \<and>
     (let m = length (przeczytane @ zawartosc s) in
      m \<le> length S \<and> przeczytane @ zawartosc s = take m S \<and>
      (if si_stan s = ZAMKNIETY then si_rst s \<or> m = length S else si_ack s = b + of_nat m))"

lemma strumien_sesji: "sesja s = sesja s' \<Longrightarrow> strumien S b p s = strumien S b p s'"
  unfolding strumien_def zawartosc_sesji [of s s'] by (simp add: sesja_def zawartosc_sesji zawartosc_def gniazdo_ok_def)

lemma of_nat_u32_rowne: "b + of_nat k = b + (of_nat m :: u32) \<Longrightarrow> k < 4294967296 \<Longrightarrow> m < 4294967296 \<Longrightarrow> k = m"
proof -
  assume e: "b + of_nat k = b + (of_nat m :: u32)" and k: "k < 4294967296" and m: "m < 4294967296"
  have u: "unat (of_nat n :: u32) = n" if "n < 4294967296" for n using that by (simp add: unsigned_of_nat take_bit_nat_eq_self)
  from e have "of_nat k = (of_nat m :: u32)" by simp
  then have "unat (of_nat k :: u32) = unat (of_nat m :: u32)" by simp
  then show "k = m" using u [OF k] u [OF m] by simp
qed

lemma segment_dlugosc: "segment_ramki f n = Some g \<Longrightarrow> length (sg_dane g) \<le> 65535"
proof -
  assume "segment_ramki f n = Some g"
  then obtain w where w: "parsuj_ipv4 f ETH_LEN (n - ETH_LEN) = Some w" "segment_widoku f w = Some g"
    by (auto simp: segment_ramki_def split: if_splits option.splits)
  have "wi_payload_len w \<le> 65535"
  proof -
    have "unat x - y \<le> 65535" for x :: u16 and y using unsigned_less [where w = x and 'a = nat] by simp
    then show ?thesis using w(1) by (auto simp: parsuj_ipv4_def Let_def split: if_splits)
  qed
  moreover have "length (sg_dane g) \<le> wi_payload_len w" using w(2) by (auto simp: segment_widoku_def Let_def split: if_splits)
  ultimately show ?thesis by simp
qed

text \<open>The data of a segment.\<close>

lemma dane_w_strumieniu:
  assumes s: "strumien S b p s" and o: "si_stan s \<noteq> ZAMKNIETY" and S: "length S < 4294967296" and c: "niesie S b g"
    and d: "sg_dane g \<noteq> []" "length (sg_dane g) \<le> 65535"
  shows "strumien S b p (tcp_przyjmij_payload K (sg_dane g) (sg_sekw g) s)"
proof -
  let ?s' = "tcp_przyjmij_payload K (sg_dane g) (sg_sekw g) s" and ?m = "length (p @ zawartosc s)" and ?n = "length (sg_dane g)"
  have go: "gniazdo_ok s" and m: "?m \<le> length S" "p @ zawartosc s = take ?m S" "si_ack s = b + of_nat ?m" and st: "si_stan s \<noteq> SYN_WYSLANY"
    using s o by (simp_all add: strumien_def Let_def)
  note w = przyjmij_payload_wynik [OF go d, where sekw = "sg_sekw g" and K = K]
  have st': "si_stan ?s' = si_stan s" using w by (simp add: stan_sesji_def)
  show ?thesis
  proof (cases "sg_sekw g = si_ack s \<and> length (zawartosc s) + ?n \<le> 65536")
    case False
    then have "zawartosc ?s' = zawartosc s" "si_ack ?s' = si_ack s" "gniazdo_ok ?s'" using w by auto
    then show ?thesis using s st' o by (simp add: strumien_def Let_def)
  next
    case True
    then have e: "zawartosc ?s' = zawartosc s @ sg_dane g" "si_ack ?s' = si_ack s + of_nat ?n" "gniazdo_ok ?s'" using w by auto
    obtain k where k: "k + ?n \<le> length S" "sg_sekw g = b + of_nat k" "sg_dane g = take ?n (drop k S)" using c d(1) by (auto simp: niesie_def)
    have "b + of_nat k = b + of_nat ?m" using True k(2) m(3) by simp
    then have km: "k = ?m" by (rule of_nat_u32_rowne) (use k(1) m(1) S in simp_all)
    have "p @ zawartosc ?s' = take ?m S @ take ?n (drop ?m S)" using e(1) m(2) k(3) km by (metis append.assoc)
    also have "\<dots> = take (?m + ?n) S" by (simp only: take_add)
    finally have t: "p @ zawartosc ?s' = take (?m + ?n) S" .
    have l: "length (p @ zawartosc ?s') = ?m + ?n" using e(1) by simp
    have "si_ack ?s' = b + of_nat (?m + ?n)" using e(2) m(3) by simp
    then show ?thesis using e(3) st st' o t l k(1) km by (simp add: strumien_def Let_def)
  qed
qed

text \<open>Data and end of stream for a socket.\<close>

definition po_danych :: "karta \<Rightarrow> Segment \<Rightarrow> siec \<Rightarrow> siec" where
  "po_danych K g s = (if sg_dane g \<noteq> [] then tcp_przyjmij_payload K (sg_dane g) (sg_sekw g) s else s)"

definition po_koncu :: "karta \<Rightarrow> siec \<Rightarrow> siec" where
  "po_koncu K s = (snd (tcp_wyslij_internal K TCP_FLAG_ACK [] (s\<lparr>si_ack := si_ack s + 1\<rparr>)))\<lparr>si_stan := ZAMKNIETY\<rparr>"

lemma po_danych_stan: "gniazdo_ok s \<Longrightarrow> length (sg_dane g) \<le> 65535 \<Longrightarrow> stan_sesji (po_danych K g s) = stan_sesji s"
  unfolding po_danych_def
  by (cases "sg_dane g = []") (simp_all add: przyjmij_payload_wynik [THEN conjunct2, THEN conjunct1])

lemma przyjmij_dane_gniazdo:
  assumes "gniazdo_ok s" "length (sg_dane g) \<le> 65535"
  shows "przyjmij_dane K g s = (if sg_flagi g AND TCP_FLAG_FIN \<noteq> 0 \<and> sg_sekw g + of_nat (length (sg_dane g)) = si_ack (po_danych K g s)
    then po_koncu K (po_danych K g s) else po_danych K g s)"
proof -
  have "si_tryb_gniazda (po_danych K g s)" using po_danych_stan [OF assms, of K] assms(1) by (simp add: stan_sesji_def gniazdo_ok_def)
  then have c: "\<not> (sg_dane g \<noteq> [] \<and> \<not> si_tryb_gniazda (po_danych K g s) \<and> si_zapisano (po_danych K g s) > 0)" by blast
  have i: "(if F then (if E then a else b) else b) = (if F \<and> E then a else b)" for F E and a b :: siec by simp
  show ?thesis
    unfolding przyjmij_dane_def po_danych_def [symmetric] Let_def if_not_P [OF c] po_koncu_def [symmetric] by (rule i)
qed

lemma rozgalezienie:
  "x = (if \<not> A then s else if R then r else if Q then y else if U \<and> V then s else z) \<Longrightarrow> \<not> Q \<Longrightarrow>
   (x = s \<Longrightarrow> T) \<Longrightarrow> (x = r \<Longrightarrow> T) \<Longrightarrow> (A \<Longrightarrow> \<not> (U \<and> V) \<Longrightarrow> x = z \<Longrightarrow> T) \<Longrightarrow> T"
  by (cases A; cases R; cases Q; cases "U \<and> V") simp_all

lemma segment_w_strumieniu:
  assumes s: "strumien S b p s" and S: "length S < 4294967296" and c: "segment_sesji g s \<Longrightarrow> niesie S b g" and d: "length (sg_dane g) \<le> 65535"
  shows "strumien S b p (przyjmij_segment K g s)"
proof -
  let ?s1 = "po_danych K g s"
  have st: "si_stan s \<noteq> SYN_WYSLANY" and go: "gniazdo_ok s" using s by (simp_all add: strumien_def)
  have "przyjmij_segment K g s = s \<or> przyjmij_segment K g s = s\<lparr>si_rst := True, si_stan := ZAMKNIETY\<rparr> \<or>
      segment_sesji g s \<and> si_stan s \<noteq> ZAMKNIETY \<and> przyjmij_segment K g s = przyjmij_dane K g s"
  proof (rule rozgalezienie [OF przyjmij_segment_def [of K g s] st])
    assume a: "segment_sesji g s" "\<not> (si_stan s \<noteq> USTANOWIONY \<and> si_stan s \<noteq> FIN_WYSLANY)" "przyjmij_segment K g s = przyjmij_dane K g s"
    then have "si_stan s \<noteq> ZAMKNIETY" by auto
    with a show ?thesis by blast
  qed blast+
  then consider (nic) "przyjmij_segment K g s = s" | (rst) "przyjmij_segment K g s = s\<lparr>si_rst := True, si_stan := ZAMKNIETY\<rparr>"
    | (dane) "segment_sesji g s" "si_stan s \<noteq> ZAMKNIETY" "przyjmij_segment K g s = przyjmij_dane K g s" by blast
  then show ?thesis
  proof cases
    case nic
    then show ?thesis using s by simp
  next
    case rst
    then show ?thesis using s by (auto simp: strumien_def gniazdo_ok_def zawartosc_def Let_def)
  next
    case dane
    have s1: "strumien S b p ?s1" using dane_w_strumieniu [OF s dane(2) S c [OF dane(1)] _ d] s by (simp add: po_danych_def)
    have o1: "si_stan ?s1 = si_stan s" using po_danych_stan [OF go d, of K] by (simp add: stan_sesji_def)
    consider (dalej) "przyjmij_segment K g s = ?s1"
      | (fin) "przyjmij_segment K g s = po_koncu K ?s1" "sg_flagi g AND TCP_FLAG_FIN \<noteq> 0" "sg_sekw g + of_nat (length (sg_dane g)) = si_ack ?s1"
      using przyjmij_dane_gniazdo [OF go d, of K] unfolding dane(3) by metis
    then show ?thesis
    proof cases
      case dalej
      then show ?thesis using s1 by simp
    next
      case fin
      let ?m = "length (p @ zawartosc ?s1)"
      have m: "?m \<le> length S" "si_ack ?s1 = b + of_nat ?m" using s1 dane(2) o1 by (simp_all add: strumien_def Let_def)
      have "b + of_nat (length S) = b + of_nat ?m" using fin(2,3) m(2) c [OF dane(1)] by (simp add: niesie_def)
      then have l: "length S = ?m" by (rule of_nat_u32_rowne) (use m(1) S in simp_all)
      have "zawartosc (po_koncu K ?s1) = zawartosc ?s1" "gniazdo_ok (po_koncu K ?s1) = gniazdo_ok ?s1"
        using zawartosc_sesji [OF sesja_tcp_wyslij, of K TCP_FLAG_ACK "[]" "?s1\<lparr>si_ack := si_ack ?s1 + 1\<rparr>"]
        by (simp_all add: po_koncu_def zawartosc_def gniazdo_ok_def)
      moreover have "si_stan (po_koncu K ?s1) = ZAMKNIETY" by (simp add: po_koncu_def)
      ultimately show ?thesis unfolding fin(1) using s1 l by (simp add: strumien_def Let_def)
    qed
  qed
qed

text \<open>The addresses of the session stay.\<close>

definition konce_sesji :: "siec \<Rightarrow> bajty \<times> u16 \<times> u16" where
  "konce_sesji s = (si_cel_ip s, si_cel_port s, si_nasz_port s)"

lemma adresy_sesji: "sesja s = sesja s' \<Longrightarrow> konce_sesji s = konce_sesji s'" "stan_sesji s = stan_sesji s' \<Longrightarrow> konce_sesji s = konce_sesji s'"
  by (simp_all add: sesja_def stan_sesji_def konce_sesji_def)

lemma adresy_pola [simp]: "konce_sesji (s\<lparr>si_ack := x\<rparr>) = konce_sesji s" "konce_sesji (s\<lparr>si_stan := st\<rparr>) = konce_sesji s" "konce_sesji (s\<lparr>si_dane_odebrane := v\<rparr>) = konce_sesji s"
    "konce_sesji (s\<lparr>si_rst := r\<rparr>) = konce_sesji s" "konce_sesji (s\<lparr>si_n_rx := n\<rparr>) = konce_sesji s" "konce_sesji (s\<lparr>si_seq := x\<rparr>) = konce_sesji s"
  by (simp_all add: konce_sesji_def)

lemma adresy_segmentu:
  assumes s: "strumien S b p s" and d: "length (sg_dane g) \<le> 65535"
  shows "konce_sesji (przyjmij_segment K g s) = konce_sesji s"
proof -
  have go: "gniazdo_ok s" and st: "si_stan s \<noteq> SYN_WYSLANY" using s by (simp_all add: strumien_def)
  have p: "konce_sesji (po_danych K g s) = konce_sesji s" by (rule adresy_sesji(2) [OF po_danych_stan [OF go d]])
  have w: "konce_sesji (snd (tcp_wyslij_internal K TCP_FLAG_ACK [] x)) = konce_sesji x" for x by (rule adresy_sesji) simp
  have "konce_sesji (przyjmij_dane K g s) = konce_sesji s"
    unfolding przyjmij_dane_gniazdo [OF go d] by (simp add: p w po_koncu_def)
  then show ?thesis by - (rule rozgalezienie [OF przyjmij_segment_def [of K g s] st], simp_all)
qed

subsection \<open>Frames, polls and calls\<close>

text \<open>A frame that, when it is a segment of the peer to our port, carries a piece of the stream.\<close>

definition nadaje :: "bajty \<Rightarrow> u32 \<Rightarrow> bajty \<times> u16 \<times> u16 \<Rightarrow> bajty \<Rightarrow> bool" where
  "nadaje S b a r = (case segment_ramki (pam_ramki r) (length r) of None \<Rightarrow> True
     | Some g \<Rightarrow> ip_rowne (sg_zrodlo g) (fst a) \<and> (sg_port_zrodlowy g, sg_port_docelowy g) = snd a \<longrightarrow> niesie S b g)"

lemma strumien_po_ipv4: "strumien S b p (po_ipv4 s) = strumien S b p s" "konce_sesji (po_ipv4 s) = konce_sesji s"
  by (rule strumien_sesji) (simp_all add: po_ipv4_def konce_sesji_def)

lemma ramka_w_strumieniu:
  assumes s: "strumien S b p s" and S: "length S < 4294967296" and r: "nadaje S b (konce_sesji s) r"
  shows "strumien S b p (obsluz_pakiet_sieciowy K (pam_ramki r) (length r) s) \<and>
    konce_sesji (obsluz_pakiet_sieciowy K (pam_ramki r) (length r) s) = konce_sesji s"
proof (cases "segment_ramki (pam_ramki r) (length r)")
  case None
  then have e: "sesja (obsluz_pakiet_sieciowy K (pam_ramki r) (length r) s) = sesja s"
    using obsluz_pakiet_segment [where f = "pam_ramki r" and n = "length r" and K = K and s = s] by simp
  show ?thesis using s strumien_sesji [OF e] adresy_sesji(1) [OF e] by simp
next
  case (Some g)
  have d: "length (sg_dane g) \<le> 65535" by (rule segment_dlugosc [OF Some])
  have p: "strumien S b p (po_ipv4 s)" using s by (simp add: strumien_po_ipv4)
  have c: "niesie S b g" if "segment_sesji g (po_ipv4 s)"
    using r that Some unfolding nadaje_def by (simp add: segment_sesji_def po_ipv4_def konce_sesji_def)
  show ?thesis
    using obsluz_pakiet_segment [where f = "pam_ramki r" and n = "length r" and K = K and s = s] p segment_w_strumieniu [OF p S c d, of K] adresy_segmentu [OF p d, of K]
    by (auto simp: Some strumien_po_ipv4)
qed

lemma odbior_w_strumieniu:
  assumes "strumien S b p s" "length S < 4294967296" "\<And>r. r \<in> set (ka_rx K (si_n_rx s)) \<Longrightarrow> nadaje S b (konce_sesji s) r"
  shows "strumien S b p (e1000_obsluz_odbior K s) \<and> konce_sesji (e1000_obsluz_odbior K s) = konce_sesji s"
proof -
  have f: "strumien S b p (fold (\<lambda>r s. obsluz_pakiet_sieciowy K (pam_ramki r) (length r) s) rs s') \<and>
      konce_sesji (fold (\<lambda>r s. obsluz_pakiet_sieciowy K (pam_ramki r) (length r) s) rs s') = konce_sesji s"
    if "strumien S b p s'" "konce_sesji s' = konce_sesji s" "\<forall>r \<in> set rs. nadaje S b (konce_sesji s) r" for rs s'
    using that by (induction rs arbitrary: s') (simp_all add: ramka_w_strumieniu [OF _ assms(2)])
  show ?thesis
    unfolding e1000_obsluz_odbior_def
  proof (rule f)
    show "strumien S b p (s\<lparr>si_n_rx := si_n_rx s + 1\<rparr>)" using assms(1) by (subst strumien_sesji [of _ s]) simp_all
    show "konce_sesji (s\<lparr>si_n_rx := si_n_rx s + 1\<rparr>) = konce_sesji s" by (simp add: konce_sesji_def)
  qed (use assms(3) in simp)
qed

text \<open>A read takes the first buffered bytes; it reports the end only when the whole stream was read.\<close>

lemma odczyt_w_strumieniu:
  assumes s: "strumien S b p s" and S: "length S < 4294967296" and r: "\<And>r. r \<in> set (ka_rx K (si_n_rx s)) \<Longrightarrow> nadaje S b (konce_sesji s) r"
    and o: "tcp_gniazdo_odbierz K n s = (x, d, s')"
  shows "strumien S b (p @ d) s' \<and> konce_sesji s' = konce_sesji s \<and> (x = 0 \<longrightarrow> si_rst s' \<or> p = S)"
proof -
  define s1 where "s1 = e1000_obsluz_odbior K s"
  have go: "gniazdo_ok s" using s by (simp add: strumien_def)
  have s1: "strumien S b p s1" "konce_sesji s1 = konce_sesji s" using odbior_w_strumieniu [OF s S r] by (simp_all add: s1_def)
  have g1: "si_poczatek s1 \<le> si_koniec s1" "si_koniec s1 \<le> TCP_BUFOR_GNIAZDA" using s1(1) by (simp_all add: strumien_def gniazdo_ok_def)
  define dost where "dost = si_koniec s1 - si_poczatek s1"
  have dd: "tcp_gniazdo_dostepne s1 = (dost, s1)" using g1(1) by (simp add: tcp_gniazdo_dostepne_def dost_def linorder_not_less [symmetric])
  have du: "unat dost = unat (si_koniec s1) - unat (si_poczatek s1)" using g1 by (simp add: dost_def unat_sub)
  have lz: "length (zawartosc s1) = unat dost" by (simp add: zawartosc_def du)
  have guard: "\<not> (\<not> si_zajeta s \<or> \<not> si_tryb_gniazda s)" using go by (simp add: gniazdo_ok_def)
  consider "n = 0" | "n \<noteq> 0" "dost = 0" | "n \<noteq> 0" "dost \<noteq> 0" by blast
  then show ?thesis
  proof cases
    case 1
    then have "x = -1" "d = []" "s' = s" using o by (simp_all add: tcp_gniazdo_odbierz_def)
    then show ?thesis using s by simp
  next
    case 2
    then have e: "x = (if si_stan s1 = ZAMKNIETY then 0 else -2)" "d = []" "s' = s1"
      using o guard by (auto simp: tcp_gniazdo_odbierz_def s1_def [symmetric] dd)
    have z: "zawartosc s1 = []" using lz 2 by simp
    have "p = S" if "si_stan s1 = ZAMKNIETY" "\<not> si_rst s1"
    proof -
      have "p @ zawartosc s1 = take (length (p @ zawartosc s1)) S" using s1(1) unfolding strumien_def Let_def by blast
      moreover have "length (p @ zawartosc s1) = length S" using s1(1) that unfolding strumien_def Let_def by auto
      ultimately show "p = S" unfolding z append_Nil2 by (metis take_all order_refl)
    qed
    then show ?thesis using e s1 by auto
  next
    case 3
    define m where "m = (if dost < n then dost else n)"
    have ml: "unat m \<le> unat dost" by (simp add: m_def word_less_nat_alt)
    have m0: "unat m \<noteq> 0" using 3 by (simp add: m_def unat_eq_zero)
    let ?s2 = "s1\<lparr>si_poczatek := si_poczatek s1 + m\<rparr>"
    have e: "x = int (unat m)" "d = bajty_od (si_bufor s1) (unat (si_poczatek s1)) (unat m)"
        "s' = (if si_poczatek ?s2 = si_koniec ?s2 then tcp_wyczysc_bufor_gniazda ?s2 else ?s2)"
    proof -
      have "tcp_gniazdo_odbierz K n s = (int (unat m), bajty_od (si_bufor s1) (unat (si_poczatek s1)) (unat m),
          if si_poczatek ?s2 = si_koniec ?s2 then tcp_wyczysc_bufor_gniazda ?s2 else ?s2)"
        unfolding tcp_gniazdo_odbierz_def s1_def [symmetric] dd Let_def prod.case m_def [symmetric]
        using guard 3 by (simp cong: if_cong)
      then show "x = int (unat m)" "d = bajty_od (si_bufor s1) (unat (si_poczatek s1)) (unat m)"
          "s' = (if si_poczatek ?s2 = si_koniec ?s2 then tcp_wyczysc_bufor_gniazda ?s2 else ?s2)"
        unfolding o prod.inject by blast+
    qed
    have pk: "unat (si_poczatek s1) \<le> unat (si_koniec s1)" using g1 by (simp add: word_le_nat_alt)
    have pu: "unat (si_poczatek s1 + m) = unat (si_poczatek s1) + unat m"
      using ml du pk g1(2) by (simp add: unat_word_ariths word_le_nat_alt)
    have z: "zawartosc s1 = d @ zawartosc s'"
    proof -
      have u: "[unat (si_poczatek s1) ..< unat (si_koniec s1)] =
          [unat (si_poczatek s1) ..< unat (si_poczatek s1) + unat m] @ [unat (si_poczatek s1) + unat m ..< unat (si_koniec s1)]"
        using ml du pk by (metis le_add1 le_add_diff_inverse nat_add_left_cancel_le upt_add_eq_append)
      have "zawartosc s' = map (si_bufor s1) [unat (si_poczatek s1) + unat m ..< unat (si_koniec s1)]"
        unfolding e(3) using pu ml du pk by (auto simp: zawartosc_def bajty_od_def tcp_wyczysc_bufor_gniazda_def)
      then show ?thesis unfolding e(2) zawartosc_def [of s1] bajty_od_def using u pk by simp
    qed
    have g2: "gniazdo_ok s'" using s1(1) pu ml du pk unfolding e(3)
      by (auto simp: strumien_def gniazdo_ok_def tcp_wyczysc_bufor_gniazda_def word_le_nat_alt)
    have st: "si_stan s' = si_stan s1" "si_rst s' = si_rst s1" "si_ack s' = si_ack s1" "konce_sesji s' = konce_sesji s1"
      unfolding e(3) by (simp_all add: tcp_wyczysc_bufor_gniazda_def konce_sesji_def)
    have zz: "(p @ d) @ zawartosc s' = p @ zawartosc s1" using z by simp
    have "strumien S b (p @ d) s'" using s1(1) g2 unfolding strumien_def Let_def zz st(1,2,3) by blast
    moreover have "x \<noteq> 0" unfolding e(1) using m0 by linarith
    ultimately show ?thesis using s1(2) st(4) by simp
  qed
qed

lemma fragmenty_w_strumieniu:
  assumes S: "length S < 4294967296" and r: "\<And>k r. r \<in> set (ka_rx K k) \<Longrightarrow> nadaje S b a r"
  shows "strumien S b p s \<Longrightarrow> konce_sesji s = a \<Longrightarrow>
    strumien S b p (snd (wyslij_fragmenty K dane wyslano s)) \<and> konce_sesji (snd (wyslij_fragmenty K dane wyslano s)) = a"
proof (induction "length dane - wyslano" arbitrary: wyslano s rule: less_induct)
  case less
  show ?case
  proof (cases "wyslano \<ge> length dane")
    case True
    then show ?thesis using less.prems by (simp add: wyslij_fragmenty.simps)
  next
    case False
    define fr where "fr = (if length dane - wyslano > TCP_MSS_WYSYLANIA then TCP_MSS_WYSYLANIA else length dane - wyslano)"
    obtain ok s1 where w: "tcp_wyslij_internal K (TCP_FLAG_PSH OR TCP_FLAG_ACK) (take fr (drop wyslano dane)) s = (ok, s1)" by fastforce
    have se: "sesja s1 = sesja s" using sesja_tcp_wyslij [of K "TCP_FLAG_PSH OR TCP_FLAG_ACK" "take fr (drop wyslano dane)" s] unfolding w by simp
    have s1: "strumien S b p s1" "konce_sesji s1 = a" using less.prems strumien_sesji [OF se] adresy_sesji(1) [OF se] by simp_all
    define s2 where "s2 = e1000_obsluz_odbior K (s1\<lparr>si_seq := si_seq s1 + of_nat fr\<rparr>)"
    have "strumien S b p (s1\<lparr>si_seq := si_seq s1 + of_nat fr\<rparr>)" using s1(1) by (simp add: strumien_def gniazdo_ok_def zawartosc_def Let_def)
    then have s2: "strumien S b p s2" "konce_sesji s2 = a" using odbior_w_strumieniu [OF _ S, of b p "s1\<lparr>si_seq := si_seq s1 + of_nat fr\<rparr>" K] r s1(2) by (simp_all add: s2_def)
    have "length dane - (wyslano + fr) < length dane - wyslano" using False by (auto simp: fr_def)
    note ih = less.hyps [OF this s2]
    show ?thesis
      unfolding wyslij_fragmenty.simps [of K dane wyslano s] Let_def fr_def [symmetric] w prod.case s2_def [symmetric]
      using False s1 s2 ih by simp
  qed
qed

subsection \<open>Any sequence of calls\<close>

datatype wywolanie = Odczytaj u32 | Wyslij bajty | Odpytaj

text \<open>The calls a program makes on the open socket, with the bytes it has read and the bytes its writes took so far.\<close>

fun wykonaj_tcp :: "karta \<Rightarrow> wywolanie list \<Rightarrow> siec \<times> bajty \<times> bajty \<Rightarrow> siec \<times> bajty \<times> bajty" where
  "wykonaj_tcp K [] (s, p, z) = (s, p, z)"
| "wykonaj_tcp K (Odczytaj n # ws) (s, p, z) = (case tcp_gniazdo_odbierz K n s of (x, d, s1) \<Rightarrow> wykonaj_tcp K ws (s1, p @ d, z))"
| "wykonaj_tcp K (Wyslij dane # ws) (s, p, z) = (case tcp_gniazdo_wyslij K dane s of (x, s1) \<Rightarrow> wykonaj_tcp K ws (s1, p, z @ take (nat x) dane))"
| "wykonaj_tcp K (Odpytaj # ws) (s, p, z) = wykonaj_tcp K ws (e1000_obsluz_odbior K s, p, z)"

lemma wywolania_w_strumieniu:
  assumes S: "length S < 4294967296" and r: "\<And>k r. r \<in> set (ka_rx K k) \<Longrightarrow> nadaje S b a r"
  shows "wykonaj_tcp K ws (s, p, z) = (s', p', z') \<Longrightarrow> strumien S b p s \<Longrightarrow> konce_sesji s = a \<Longrightarrow> strumien S b p' s' \<and> konce_sesji s' = a"
proof (induction ws arbitrary: s p z)
  case (Cons w ws)
  show ?case
  proof (cases w)
    case (Odczytaj n)
    obtain x d s1 where o: "tcp_gniazdo_odbierz K n s = (x, d, s1)" using prod_cases3 by blast
    have "strumien S b (p @ d) s1" "konce_sesji s1 = a"
      using odczyt_w_strumieniu [OF Cons.prems(2) S _ o] r Cons.prems(3) by simp_all
    then show ?thesis using Cons.IH [of s1 "p @ d" z] Cons.prems(1) by (simp add: Odczytaj o)
  next
    case (Wyslij dane)
    obtain x s1 where o: "tcp_gniazdo_wyslij K dane s = (x, s1)" by fastforce
    have "strumien S b p (snd (tcp_gniazdo_wyslij K dane s)) \<and> konce_sesji (snd (tcp_gniazdo_wyslij K dane s)) = a"
      unfolding tcp_gniazdo_wyslij_def
      using fragmenty_w_strumieniu [OF S r Cons.prems(2,3), where dane = dane and wyslano = 0] Cons.prems(2,3) by simp
    then show ?thesis using Cons.IH [of s1 p "z @ take (nat x) dane"] Cons.prems(1) by (simp add: Wyslij o)
  next
    case Odpytaj
    have "strumien S b p (e1000_obsluz_odbior K s)" "konce_sesji (e1000_obsluz_odbior K s) = a"
      using odbior_w_strumieniu [OF Cons.prems(2) S] r Cons.prems(3) by simp_all
    then show ?thesis using Cons.IH [of "e1000_obsluz_odbior K s" p z] Cons.prems(1) by (simp add: Odpytaj)
  qed
qed simp

text \<open>The next segment in order that fits is taken.\<close>

lemma segment_przyjety:
  assumes s: "strumien S b p s" "si_stan s = USTANOWIONY" "si_gotowa s"
    and g: "segment_ramki (pam_ramki r) (length r) = Some g" "segment_sesji g s" "sg_flagi g AND TCP_FLAG_RST = 0"
    and d: "sg_dane g \<noteq> []" "sg_sekw g = si_ack s" "length (zawartosc s) + length (sg_dane g) \<le> 65536"
  shows "zawartosc (obsluz_pakiet_sieciowy K (pam_ramki r) (length r) s) = zawartosc s @ sg_dane g"
proof -
  let ?f = "pam_ramki r" and ?s0 = "po_ipv4 s"
  have l: "length (sg_dane g) \<le> 65535" by (rule segment_dlugosc [OF g(1)])
  obtain w where w: "parsuj_ipv4 ?f ETH_LEN (length r - ETH_LEN) = Some w" "ip_protokol ?f (wi_ip w) = IP_PROTO_TCP" "segment_widoku ?f w = Some g"
      "\<not> length r < ETH_LEN + IPV4_MIN_LEN" "siec_na_host16 (eth_typ ?f 0) = ETHERTYPE_IPV4"
    using g(1) by (auto simp: segment_ramki_def split: if_splits option.splits)
  have c: "ip_cel_ip ?f (wi_ip w) = sg_cel g" using w(3) by (auto simp: segment_widoku_def Let_def split: if_splits)
  have cel: "ip_rowne (sg_cel g) (si_nasz_ip s)" using g(2) by (simp add: segment_sesji_def)
  have "obsluz_ipv4 K ?f (length r) s = obsluz_tcp K ?f w ?s0"
    using w s(3) c cel by (simp add: obsluz_ipv4_def Let_def po_ipv4_def)
  then have o: "obsluz_pakiet_sieciowy K ?f (length r) s = przyjmij_segment K g ?s0"
    using w by (simp add: obsluz_pakiet_sieciowy_def obsluz_tcp_segment)
  have go: "gniazdo_ok ?s0" using s(1) by (simp add: strumien_def po_ipv4_def gniazdo_ok_def)
  have z0: "zawartosc ?s0 = zawartosc s" by (simp add: po_ipv4_def zawartosc_def)
  have seg: "segment_sesji g ?s0" using g(2) by (simp add: segment_sesji_def po_ipv4_def)
  have pd: "przyjmij_segment K g ?s0 = przyjmij_dane K g ?s0"
    using seg g(3) s(2) unfolding przyjmij_segment_def by (simp add: po_ipv4_def)
  have "zawartosc (po_danych K g ?s0) = zawartosc s @ sg_dane g"
    using przyjmij_payload_wynik [OF go d(1) l, where sekw = "sg_sekw g" and K = K] d z0 by (simp add: po_danych_def po_ipv4_def)
  moreover have "zawartosc (po_koncu K x) = zawartosc x" for x
    using zawartosc_sesji(1) [OF sesja_tcp_wyslij, of K TCP_FLAG_ACK "[]" "x\<lparr>si_ack := si_ack x + 1\<rparr>"] by (simp add: po_koncu_def zawartosc_def)
  ultimately show ?thesis unfolding o pd przyjmij_dane_gniazdo [OF go l] by (simp split: if_split)
qed

end
