(* ===== verification/Siec_Ramki.thy ===== *)
theory Siec_Ramki
  imports Siec_Strumien
begin

section \<open>The network stack: a frame sent is a frame received\<close>

text \<open>
  The bytes that the senders lay out are what the parsers read back: the Ethernet, IPv4, TCP and ICMP
  headers of a frame, through the padding of short frames, with both checksums accepted.
\<close>

subsection \<open>A byte sequence in memory\<close>

definition zawiera :: "pam \<Rightarrow> nat \<Rightarrow> bajty \<Rightarrow> bool" where
  "zawiera f p xs \<longleftrightarrow> bajty_od f p (length xs) = xs"

lemma zawiera_Nil [simp]: "zawiera f p []"
  by (simp add: zawiera_def bajty_od_def)

lemma zawiera_Cons [simp]: "zawiera f p (x # xs) \<longleftrightarrow> f p = x \<and> zawiera f (p + 1) xs"
proof -
  have "bajty_od f p (Suc n) = f p # bajty_od f (p + 1) n" for n by (simp add: bajty_od_def upt_conv_Cons del: upt_Suc)
  then show ?thesis by (simp add: zawiera_def)
qed

lemma zawiera_append [simp]: "zawiera f p (xs @ ys) \<longleftrightarrow> zawiera f p xs \<and> zawiera f (p + length xs) ys"
  by (induction xs arbitrary: p) simp_all

lemma bajty_zawarte: "zawiera f p xs \<Longrightarrow> length xs = n \<Longrightarrow> bajty_od f p n = xs"
  by (auto simp: zawiera_def)

lemma length_slowo32 [simp]: "length (slowo32 v) = 4"
  by (simp add: slowo32_def)

declare slowa_pole(3) [simp]

lemma zawiera_pole16: "zawiera f p (slowo16 v) \<Longrightarrow> pole16 f p = v"
  unfolding pole16_def slowo16_def by (auto intro!: bit_word_eqI simp: bit_simps)

lemma zawiera_pole32: "zawiera f p (slowo32 v) \<Longrightarrow> pole32 f p = v"
proof -
  assume "zawiera f p (slowo32 v)"
  then have b: "f p = ucast v" "f (p + 1) = ucast (drop_bit 8 v)" "f (p + 2) = ucast (drop_bit 16 v)" "f (p + 3) = ucast (drop_bit 24 v)"
    by (simp_all add: slowo32_def numeral_eq_Suc)
  show "pole32 f p = v" unfolding pole32_def b
  proof (rule bit_word_eqI, goal_cases)
    case (1 n)
    then show ?case by (cases "n < 8"; cases "n < 16"; cases "n < 24") (auto simp: bit_simps)
  qed
qed

lemma zamiana_dwukrotna [simp]: "siec_na_host16 (host_na_siec16 v) = v" "siec_na_host32 (host_na_siec32 w) = w"
proof -
  show "siec_na_host16 (host_na_siec16 v) = v"
    unfolding siec_na_host16_def host_na_siec16_def zamien16_def by (rule bit_word_eqI) (auto simp: bit_simps)
  show "siec_na_host32 (host_na_siec32 w) = w"
    unfolding siec_na_host32_def host_na_siec32_def by (rule bit_word_eqI) (auto simp: bit_zamien32)
qed

lemma zawiera_ramka: "zawiera (pam_ramki (xs @ ys)) 0 xs"
  unfolding zawiera_def bajty_od_def by (rule nth_equalityI) (simp_all add: pam_ramki_def nth_append)

subsection \<open>The IPv4 header\<close>

lemma length_naglowek: "length zrodlo = 4 \<Longrightarrow> length cel = 4 \<Longrightarrow> length (naglowek_ipv4 dl ident prot zrodlo cel suma) = 20"
  by (simp add: naglowek_ipv4_def)

lemma suma_naglowka:
  assumes "length zrodlo = 4" "length cel = 4"
  shows "suma_kontrolna_bajty (naglowek_ipv4 dl ident prot zrodlo cel
    (host_na_siec16 (suma_kontrolna_bajty (naglowek_ipv4 dl ident prot zrodlo cel 0)))) = 0"
  using suma_kontrolna_wlasna [where xs = "[0x45, 0] @ slowo16 (host_na_siec16 dl) @ slowo16 (host_na_siec16 ident) @ slowo16 (host_na_siec16 0x4000) @ [64, prot]"
      and ys = "zrodlo @ cel"] assms
  by (simp add: naglowek_ipv4_def)

lemma naglowek_pola:
  assumes "zawiera f p (naglowek_ipv4 dl ident prot zrodlo cel suma)" "length zrodlo = 4" "length cel = 4"
  shows "ip_wersja_ihl f p = 0x45" "siec_na_host16 (ip_dlugosc_calkowita f p) = dl" "siec_na_host16 (ip_flagi_fragment f p) = 0x4000"
    "ip_protokol f p = prot" "ip_zrodlo_ip f p = zrodlo" "ip_cel_ip f p = cel"
proof -
  have z: "f p = 0x45" "zawiera f (p + 2) (slowo16 (host_na_siec16 dl))" "zawiera f (p + 6) (slowo16 (host_na_siec16 0x4000))"
      "f (p + 9) = prot" "zawiera f (p + 12) zrodlo" "zawiera f (p + 16) cel"
    using assms by (simp_all add: naglowek_ipv4_def eval_nat_numeral)
  show "ip_wersja_ihl f p = 0x45" "ip_protokol f p = prot" using z(1,4) by (simp_all add: pola_ip)
  show "siec_na_host16 (ip_dlugosc_calkowita f p) = dl" "siec_na_host16 (ip_flagi_fragment f p) = 0x4000"
    by (simp_all only: pola_ip zawiera_pole16 [OF z(2)] zawiera_pole16 [OF z(3)] zamiana_dwukrotna)
  show "ip_zrodlo_ip f p = zrodlo" "ip_cel_ip f p = cel"
    unfolding pola_ip using bajty_zawarte [OF z(5) assms(2)] bajty_zawarte [OF z(6) assms(3)] by simp_all
qed

lemma naglowek_przyjety:
  assumes z: "zawiera f p (naglowek_ipv4 dl ident prot zrodlo cel suma)" "length zrodlo = 4" "length cel = 4"
    and s: "suma = host_na_siec16 (suma_kontrolna_bajty (naglowek_ipv4 dl ident prot zrodlo cel 0))"
    and d: "20 \<le> unat dl" "unat dl \<le> dostepne"
  shows "parsuj_ipv4 f p dostepne = Some \<lparr>wi_ip = p, wi_payload = p + 20, wi_payload_len = unat dl - 20, wi_ihl = 20, wi_calkowita_dlugosc = unat dl\<rparr>"
proof -
  have b: "suma_kontrolna_bajty (bajty_od f p 20) = 0"
    using bajty_zawarte [OF z(1) length_naglowek [OF z(2,3)]] suma_naglowka [OF z(2,3), of dl ident prot] by (simp add: s)
  have i: "drop_bit 4 (0x45 :: u8) = 4" "(0x45 :: u8) AND 0x0F = 5" "(0x4000 :: u16) AND 0x3FFF = 0" by simp_all
  show ?thesis unfolding parsuj_ipv4_def naglowek_pola [OF z] Let_def i using b d by simp
qed

subsection \<open>A TCP segment sent\<close>

definition naglowek_sesji :: "siec \<Rightarrow> u8 \<Rightarrow> bajty \<Rightarrow> Segment" where
  "naglowek_sesji s flagi dane = \<lparr>sg_zrodlo = si_nasz_ip s, sg_cel = si_cel_ip s, sg_port_zrodlowy = si_nasz_port s,
     sg_port_docelowy = si_cel_port s, sg_sekw = si_seq s, sg_potw = si_ack s, sg_flagi = flagi, sg_dane = dane\<rparr>"

lemma length_segment_tcp [simp]: "length (segment_tcp flagi dane suma s) = 20 + length dane"
  by (simp add: segment_tcp_def)

lemma segment_pola:
  assumes "zawiera f p (segment_tcp flagi dane suma s)"
  shows "siec_na_host16 (tcp_port_zrodlowy f p) = si_nasz_port s" "siec_na_host16 (tcp_port_docelowy f p) = si_cel_port s"
    "siec_na_host32 (tcp_numer_sekwencyjny f p) = si_seq s" "siec_na_host32 (tcp_numer_potwierdzenia f p) = si_ack s"
    "tcp_przesuniecie_danych f p = 0x50" "tcp_flagi f p = flagi" "bajty_od f (p + 20) (length dane) = dane"
proof -
  have z: "zawiera f p (slowo16 (host_na_siec16 (si_nasz_port s)))" "zawiera f (p + 2) (slowo16 (host_na_siec16 (si_cel_port s)))"
      "zawiera f (p + 4) (slowo32 (host_na_siec32 (si_seq s)))" "zawiera f (p + 8) (slowo32 (host_na_siec32 (si_ack s)))"
      "f (p + 12) = 0x50" "f (p + 13) = flagi" "zawiera f (p + 20) dane"
    using assms by (simp_all add: segment_tcp_def eval_nat_numeral)
  show "siec_na_host16 (tcp_port_zrodlowy f p) = si_nasz_port s" "siec_na_host16 (tcp_port_docelowy f p) = si_cel_port s"
    by (simp_all only: pola_tcp zawiera_pole16 [OF z(1)] zawiera_pole16 [OF z(2)] zamiana_dwukrotna)
  show "siec_na_host32 (tcp_numer_sekwencyjny f p) = si_seq s" "siec_na_host32 (tcp_numer_potwierdzenia f p) = si_ack s"
    by (simp_all only: pola_tcp zawiera_pole32 [OF z(3)] zawiera_pole32 [OF z(4)] zamiana_dwukrotna)
  show "tcp_przesuniecie_danych f p = 0x50" "tcp_flagi f p = flagi" using z(5,6) by (simp_all add: pola_tcp)
  show "bajty_od f (p + 20) (length dane) = dane" by (rule bajty_zawarte [OF z(7) refl])
qed

lemma suma_segmentu:
  assumes "length (si_nasz_ip s) = 4" "length (si_cel_ip s) = 4" "length dane \<le> 1400"
  shows "suma_transport_ipv4 (si_nasz_ip s) (si_cel_ip s) IP_PROTO_TCP
    (segment_tcp flagi dane (host_na_siec16 (suma_transport_ipv4 (si_nasz_ip s) (si_cel_ip s) IP_PROTO_TCP (segment_tcp flagi dane 0 s))) s) = 0"
  using suma_transport_wlasna [where xs = "slowo16 (host_na_siec16 (si_nasz_port s)) @ slowo16 (host_na_siec16 (si_cel_port s)) @
      slowo32 (host_na_siec32 (si_seq s)) @ slowo32 (host_na_siec32 (si_ack s)) @ [0x50, flagi] @ slowo16 (host_na_siec16 TCP_OKNO)"
      and ys = "slowo16 0 @ dane" and zrodlo = "si_nasz_ip s" and cel = "si_cel_ip s" and prot = IP_PROTO_TCP] assms
  by (simp add: segment_tcp_def)

subsection \<open>A frame on the wire\<close>

text \<open>A frame as the card gets it: padded to 60 bytes.\<close>

definition na_drucie :: "bajty \<Rightarrow> bajty" where
  "na_drucie r = r @ replicate (60 - length r) 0"

lemma zawiera_na_drucie: "zawiera (pam_ramki (na_drucie r)) 0 r" "length r \<le> length (na_drucie r)"
  by (simp_all add: na_drucie_def zawiera_ramka)

lemma wyslij_ethernet_wynik:
  assumes "ETH_LEN \<le> length r" "length r \<le> MAKS_RAMKA_ETH" "mac_karty_gotowy K"
  shows "wyslij_ethernet K r s = (ka_tx K (si_n_tx s), s\<lparr>si_wyslane := si_wyslane s @ [na_drucie r], si_n_tx := si_n_tx s + 1\<rparr>)"
  using assms by (simp add: wyslij_ethernet_def e1000_wyslij_pakiet_def na_drucie_def)

lemma length_eth: "length mac = 6 \<Longrightarrow> length (ka_mac K) = 6 \<Longrightarrow> length (wypelnij_eth K mac typ) = 14"
  by (simp add: wypelnij_eth_def)

lemma eth_pola:
  assumes "zawiera f 0 (wypelnij_eth K mac typ)" "length mac = 6" "length (ka_mac K) = 6"
  shows "siec_na_host16 (eth_typ f 0) = typ" "eth_zrodlo_mac f 0 = ka_mac K"
proof -
  have z: "zawiera f 6 (ka_mac K)" "zawiera f 12 (slowo16 (host_na_siec16 typ))" using assms by (simp_all add: wypelnij_eth_def)
  show "siec_na_host16 (eth_typ f 0) = typ" using zawiera_pole16 [OF z(2)] by (simp add: pola_eth)
  show "eth_zrodlo_mac f 0 = ka_mac K" using bajty_zawarte [OF z(1) assms(3)] by (simp add: pola_eth)
qed

text \<open>A datagram that \<open>wypelnij_ipv4\<close> and \<open>wyslij_ethernet\<close> send: the frame, and what its receiver parses.\<close>

definition datagram :: "karta \<Rightarrow> bajty \<Rightarrow> u8 \<Rightarrow> bajty \<Rightarrow> bajty \<Rightarrow> u16 \<Rightarrow> bajty \<Rightarrow> bajty" where
  "datagram K mac prot zrodlo cel ident payload =
     (let dl = of_nat (20 + length payload) in
      wypelnij_eth K mac ETHERTYPE_IPV4 @ naglowek_ipv4 dl ident prot zrodlo cel
        (host_na_siec16 (suma_kontrolna_bajty (naglowek_ipv4 dl ident prot zrodlo cel 0))) @ payload)"

lemma wypelnij_ipv4_wynik:
  assumes "n \<le> 65515"
  shows "wypelnij_ipv4 (of_nat (20 + n)) prot zrodlo cel s =
    (Some (naglowek_ipv4 (of_nat (20 + n)) (si_ipv4_id s) prot zrodlo cel
       (host_na_siec16 (suma_kontrolna_bajty (naglowek_ipv4 (of_nat (20 + n)) (si_ipv4_id s) prot zrodlo cel 0)))),
     snd (przydziel_ipv4_id s))"
proof -
  have "unat (of_nat (20 + n) :: u16) = 20 + n" using assms by (simp add: unsigned_of_nat take_bit_nat_eq_self del: of_nat_add)
  then have "\<not> of_nat (20 + n) < (of_nat IPV4_MIN_LEN :: u16)" by (simp add: word_less_nat_alt del: of_nat_add)
  then show ?thesis by (simp add: wypelnij_ipv4_def przydziel_ipv4_id_def Let_def del: of_nat_add of_nat_numeral)
qed

lemma datagram_przyjety:
  fixes prot :: u8 and ident :: u16
  assumes l: "length mac = 6" "length (ka_mac K) = 6" "length zrodlo = 4" "length cel = 4" "length payload \<le> 1480"
  defines "r \<equiv> na_drucie (datagram K mac prot zrodlo cel ident payload)"
  defines "f \<equiv> pam_ramki r"
  shows "ETH_LEN + IPV4_MIN_LEN \<le> length r" "length r \<le> MAKS_RAMKA_ETH" "siec_na_host16 (eth_typ f 0) = ETHERTYPE_IPV4" "eth_zrodlo_mac f 0 = ka_mac K"
    "parsuj_ipv4 f ETH_LEN (length r - ETH_LEN) =
      Some \<lparr>wi_ip = 14, wi_payload = 34, wi_payload_len = length payload, wi_ihl = 20, wi_calkowita_dlugosc = 20 + length payload\<rparr>"
    "ip_protokol f 14 = prot" "ip_zrodlo_ip f 14 = zrodlo" "ip_cel_ip f 14 = cel" "zawiera f 34 payload"
proof -
  let ?dl = "of_nat (20 + length payload) :: u16"
  let ?d = "datagram K mac prot zrodlo cel ident payload"
  have u: "unat ?dl = 20 + length payload" using l(5) by (simp add: unsigned_of_nat take_bit_nat_eq_self del: of_nat_add)
  have n: "length ?d = 34 + length payload" using l by (simp add: datagram_def Let_def length_eth length_naglowek)
  have dr: "34 + length payload \<le> length r" "length r \<le> MAKS_RAMKA_ETH" using n l(5) by (simp_all add: r_def na_drucie_def)
  then show "ETH_LEN + IPV4_MIN_LEN \<le> length r" "length r \<le> MAKS_RAMKA_ETH" by simp_all
  have "zawiera f 0 ?d" unfolding f_def r_def by (rule zawiera_na_drucie(1))
  then have z: "zawiera f 0 (wypelnij_eth K mac ETHERTYPE_IPV4)" "zawiera f 34 payload"
      "zawiera f 14 (naglowek_ipv4 ?dl ident prot zrodlo cel (host_na_siec16 (suma_kontrolna_bajty (naglowek_ipv4 ?dl ident prot zrodlo cel 0))))"
    by (simp_all add: datagram_def Let_def length_eth [OF l(1,2)] length_naglowek [OF l(3,4)] del: of_nat_add)
  show "siec_na_host16 (eth_typ f 0) = ETHERTYPE_IPV4" "eth_zrodlo_mac f 0 = ka_mac K" by (fact eth_pola [OF z(1) l(1,2)])+
  show "ip_protokol f 14 = prot" "ip_zrodlo_ip f 14 = zrodlo" "ip_cel_ip f 14 = cel" by (fact naglowek_pola [OF z(3) l(3,4)])+
  show "zawiera f 34 payload" by (fact z(2))
  show "parsuj_ipv4 f ETH_LEN (length r - ETH_LEN) =
      Some \<lparr>wi_ip = 14, wi_payload = 34, wi_payload_len = length payload, wi_ihl = 20, wi_calkowita_dlugosc = 20 + length payload\<rparr>"
    using naglowek_przyjety [OF z(3) l(3,4) refl, of "length r - ETH_LEN"] dr(1) unfolding u by simp
qed

text \<open>What \<open>tcp_wyslij_internal\<close> puts on the wire is read back as the session's segment.\<close>

lemma tcp_na_drucie:
  assumes s: "tcp_dane_sesji_poprawne s" "mac_karty_gotowy K" "length (si_nasz_ip s) = 4" "length (si_cel_ip s) = 4"
    and m: "length (si_cel_mac s) = 6" "length (ka_mac K) = 6" and d: "length dane \<le> 1400"
  obtains r where "si_wyslane (snd (tcp_wyslij_internal K flagi dane s)) = si_wyslane s @ [r]"
    "segment_ramki (pam_ramki r) (length r) = Some (naglowek_sesji s flagi dane)" "length r \<le> MAKS_RAMKA_ETH"
    "fst (tcp_wyslij_internal K flagi dane s) = ka_tx K (si_n_tx s)"
proof -
  let ?seg = "segment_tcp flagi dane (host_na_siec16 (suma_transport_ipv4 (si_nasz_ip s) (si_cel_ip s) IP_PROTO_TCP (segment_tcp flagi dane 0 s))) s"
  let ?d = "datagram K (si_cel_mac s) IP_PROTO_TCP (si_nasz_ip s) (si_cel_ip s) (si_ipv4_id s) ?seg"
  let ?r = "na_drucie ?d" and ?f = "pam_ramki (na_drucie ?d)"
  have l: "length ?seg = 20 + length dane" by simp
  have l2: "length ?seg \<le> 1480" using d by simp
  note p = datagram_przyjety [OF m s(3,4) l2, where prot = IP_PROTO_TCP and ident = "si_ipv4_id s"]
  have n: "length ?d = 54 + length dane" using m s(3,4) by (simp add: datagram_def Let_def length_eth length_naglowek)
  have w: "tcp_wyslij_internal K flagi dane s = wyslij_ethernet K ?d (snd (przydziel_ipv4_id s))"
    using s(1) d wypelnij_ipv4_wynik [of "20 + length dane" IP_PROTO_TCP "si_nasz_ip s" "si_cel_ip s" s]
    by (simp add: tcp_wyslij_internal_def datagram_def Let_def l add.assoc del: of_nat_add)
  have "si_wyslane (snd (wyslij_ethernet K ?d (snd (przydziel_ipv4_id s)))) = si_wyslane s @ [?r]"
      "fst (wyslij_ethernet K ?d (snd (przydziel_ipv4_id s))) = ka_tx K (si_n_tx s)"
  proof -
    have g: "ETH_LEN \<le> length ?d" "length ?d \<le> MAKS_RAMKA_ETH" unfolding n using d by simp_all
    show "si_wyslane (snd (wyslij_ethernet K ?d (snd (przydziel_ipv4_id s)))) = si_wyslane s @ [?r]"
        "fst (wyslij_ethernet K ?d (snd (przydziel_ipv4_id s))) = ka_tx K (si_n_tx s)"
      unfolding wyslij_ethernet_wynik [OF g s(2)] by (simp_all add: przydziel_ipv4_id_def Let_def)
  qed
  moreover have "segment_ramki ?f (length ?r) = Some (naglowek_sesji s flagi dane)"
  proof -
    note q = segment_pola [OF p(9)]
    have b: "bajty_od ?f 34 (20 + length dane) = ?seg" by (rule bajty_zawarte [OF p(9) l])
    have "segment_widoku ?f \<lparr>wi_ip = 14, wi_payload = 34, wi_payload_len = length ?seg, wi_ihl = 20, wi_calkowita_dlugosc = 20 + length ?seg\<rparr> =
        Some (naglowek_sesji s flagi dane)"
      unfolding segment_widoku_def Let_def WidokIPv4.simps l b p(7,8) q suma_segmentu [OF s(3,4) d]
      using q(7) by (simp add: naglowek_sesji_def)
    then show ?thesis using p(1,3) unfolding segment_ramki_def p(5) by (simp add: p(6) del: length_segment_tcp)
  qed
  ultimately show thesis using that [of ?r] p(2) unfolding w by metis
qed

end
