(* ===== verification/Siec_Nadawca.thy ===== *)
theory Siec_Nadawca
  imports Siec_Ramki
begin

section \<open>The network stack: what a host sends\<close>

text \<open>
  The frames a host sends while it serves the frames it receives carry no data of the stream and do not
  end it; the frames of a write carry the bytes of the write at their place in the stream, and the close
  marks the end behind the last byte.
\<close>

subsection \<open>Frames without data\<close>

definition pusta_ramka :: "bajty \<Rightarrow> bool" where
  "pusta_ramka r = (case segment_ramki (pam_ramki r) (length r) of None \<Rightarrow> True
     | Some g \<Rightarrow> sg_dane g = [] \<and> sg_flagi g AND TCP_FLAG_FIN = 0)"

definition dlugosci :: "siec \<Rightarrow> bool" where
  "dlugosci s \<longleftrightarrow> length (si_nasz_ip s) = 4 \<and> length (si_cel_ip s) = 4 \<and> length (si_cel_mac s) = 6 \<and> length (si_offer_ip s) = 4"

text \<open>A step that sends only such frames.\<close>

definition cicho :: "siec \<Rightarrow> siec \<Rightarrow> bool" where
  "cicho s s' \<longleftrightarrow> (dlugosci s \<longrightarrow> dlugosci s' \<and> (\<exists>rs. si_wyslane s' = si_wyslane s @ rs \<and> list_all pusta_ramka rs))"

lemma cicho_refl [simp]: "cicho s s"
  by (simp add: cicho_def)

lemma cicho_trans: "cicho s s' \<Longrightarrow> cicho s' s'' \<Longrightarrow> cicho s s''"
  unfolding cicho_def by (metis append.assoc list_all_append)

lemma cicho_bez_wysylania: "si_wyslane s' = si_wyslane s \<Longrightarrow> (dlugosci s \<Longrightarrow> dlugosci s') \<Longrightarrow> cicho s s'"
  by (simp add: cicho_def)

lemma dlugosci_sesji: "sesja s' = sesja s \<Longrightarrow> si_nasz_ip s' = si_nasz_ip s \<Longrightarrow> si_offer_ip s' = si_offer_ip s \<Longrightarrow> dlugosci s' = dlugosci s"
  by (simp add: sesja_def dlugosci_def)

lemma cicho_wyslij:
  assumes "dlugosci s \<Longrightarrow> pusta_ramka (na_drucie r)"
  shows "cicho s (snd (wyslij_ethernet K r s))"
proof (cases "length r < ETH_LEN \<or> length r > MAKS_RAMKA_ETH \<or> \<not> mac_karty_gotowy K")
  case True
  then show ?thesis by (auto simp: wyslij_ethernet_def)
next
  case False
  then have "wyslij_ethernet K r s = (ka_tx K (si_n_tx s), s\<lparr>si_wyslane := si_wyslane s @ [na_drucie r], si_n_tx := si_n_tx s + 1\<rparr>)"
    by (intro wyslij_ethernet_wynik) auto
  then show ?thesis using assms by (simp add: cicho_def dlugosci_def)
qed

lemma pusta_gdy_nie_ipv4: "siec_na_host16 (eth_typ (pam_ramki r) 0) \<noteq> ETHERTYPE_IPV4 \<Longrightarrow> pusta_ramka r"
  by (simp add: pusta_ramka_def segment_ramki_def)

lemma cicho_arp:
  assumes "length (ka_mac K) = 6" "length mac = 6"
  shows "cicho s (zbuduj_i_wyslij_arp K op mac a b c s)"
  unfolding zbuduj_i_wyslij_arp_def
proof (rule cicho_wyslij, rule pusta_gdy_nie_ipv4)
  let ?r = "wypelnij_eth K mac ETHERTYPE_ARP @ slowo16 (host_na_siec16 1) @ slowo16 (host_na_siec16 ETHERTYPE_IPV4) @ [6, 4] @
    slowo16 (host_na_siec16 op) @ ka_mac K @ a @ b @ c"
  have "zawiera (pam_ramki (na_drucie ?r)) 0 (wypelnij_eth K mac ETHERTYPE_ARP)" using zawiera_na_drucie(1) [of ?r] by (simp del: slowa_pole)
  from eth_pola(1) [OF this assms(2,1)]
  show "siec_na_host16 (eth_typ (pam_ramki (na_drucie ?r)) 0) \<noteq> ETHERTYPE_IPV4" by simp
qed

lemma cicho_datagram:
  assumes "length (ka_mac K) = 6" "length mac = 6" "dlugosci s \<Longrightarrow> length zrodlo = 4" "length cel = 4" "length payload \<le> 1480" "prot \<noteq> IP_PROTO_TCP"
  shows "cicho s (snd (wyslij_ethernet K (datagram K mac prot zrodlo cel ident payload) s))"
proof (rule cicho_wyslij)
  assume "dlugosci s"
  then have z: "length zrodlo = 4" by (rule assms(3))
  note p = datagram_przyjety [OF assms(2,1) z assms(4,5), where prot = prot and ident = ident]
  show "pusta_ramka (na_drucie (datagram K mac prot zrodlo cel ident payload))"
    unfolding pusta_ramka_def segment_ramki_def p(5) using p(6) assms(6) by simp
qed

lemma tcp_wyslij_bez_ramki:
  "\<not> (tcp_dane_sesji_poprawne s \<and> mac_karty_gotowy K \<and> length dane \<le> 1400) \<Longrightarrow>
   si_wyslane (snd (tcp_wyslij_internal K flagi dane s)) = si_wyslane s \<and> \<not> fst (tcp_wyslij_internal K flagi dane s)"
  by (auto simp: tcp_wyslij_internal_def wypelnij_ipv4_def przydziel_ipv4_id_def wyslij_ethernet_def Let_def split: option.split prod.split if_splits)

lemma tcp_wyslij_adresy: "si_nasz_ip (snd (tcp_wyslij_internal K flagi dane s)) = si_nasz_ip s"
    "si_offer_ip (snd (tcp_wyslij_internal K flagi dane s)) = si_offer_ip s"
  by (simp_all add: tcp_wyslij_internal_def wypelnij_ipv4_def przydziel_ipv4_id_def wyslij_ethernet_def e1000_wyslij_pakiet_def Let_def
      split: option.split prod.split)

lemma dlugosci_tcp_wyslij [simp]: "dlugosci (snd (tcp_wyslij_internal K flagi dane s)) = dlugosci s"
  by (rule dlugosci_sesji) (simp_all add: tcp_wyslij_adresy)

lemma cicho_tcp_wyslij:
  assumes "length (ka_mac K) = 6" "flagi AND TCP_FLAG_FIN = 0"
  shows "cicho s (snd (tcp_wyslij_internal K flagi [] s))"
proof (cases "tcp_dane_sesji_poprawne s \<and> mac_karty_gotowy K \<and> dlugosci s")
  case True
  then have d: "length (si_nasz_ip s) = 4" "length (si_cel_ip s) = 4" "length (si_cel_mac s) = 6" by (simp_all add: dlugosci_def)
  obtain r where "si_wyslane (snd (tcp_wyslij_internal K flagi [] s)) = si_wyslane s @ [r]"
      "segment_ramki (pam_ramki r) (length r) = Some (naglowek_sesji s flagi [])"
    using tcp_na_drucie [where s = s and K = K and dane = "[]" and flagi = flagi] True d assms(1) by auto
  then show ?thesis using assms(2) by (simp add: cicho_def pusta_ramka_def naglowek_sesji_def)
next
  case False
  then show ?thesis using tcp_wyslij_bez_ramki [of s K "[]" flagi] by (auto simp: cicho_def)
qed

subsection \<open>The handlers\<close>

lemma cicho_przed: "cicho s' s'' \<Longrightarrow> si_wyslane s' = si_wyslane s \<Longrightarrow> dlugosci s' = dlugosci s \<Longrightarrow> cicho s s''"
  by (simp add: cicho_def)

lemma arp_bez_zmian: "si_wyslane (dodaj_do_cache_arp ip mac s) = si_wyslane s" "dlugosci (dodaj_do_cache_arp ip mac s) = dlugosci s"
  by (simp_all add: dodaj_do_cache_arp_def wpisz_arp_def dlugosci_def split: option.split)

lemma cicho_obsluz_arp:
  assumes "length (ka_mac K) = 6"
  shows "cicho s (obsluz_arp K f n s)"
proof -
  let ?s1 = "s\<lparr>si_rx_arp := si_rx_arp s + 1\<rparr>"
  have k: "cicho s x" if "si_wyslane x = si_wyslane s" "dlugosci x = dlugosci s" for x
    using that by (simp add: cicho_def)
  have d: "dlugosci ?s1 = dlugosci s" by (simp add: dlugosci_def)
  have a: "cicho s (zbuduj_i_wyslij_arp K 2 (arp_nadawca_mac f 14) x (arp_nadawca_mac f 14) (arp_nadawca_ip f 14) (dodaj_do_cache_arp y z ?s1))" for x y z
    by (rule cicho_przed [OF cicho_arp [OF assms]]) (simp_all add: arp_bez_zmian d pola_arp)
  show ?thesis unfolding obsluz_arp_def Let_def by (auto intro!: k a simp: arp_bez_zmian d)
qed

lemma length_odpowiedz_icmp [simp]: "length (odpowiedz_icmp icmp) = length icmp"
  by (simp add: odpowiedz_icmp_def Let_def)

lemma cicho_obsluz_icmp:
  assumes "length (ka_mac K) = 6"
  shows "cicho s (obsluz_icmp K f w s)"
proof -
  let ?s1 = "s\<lparr>si_rx_icmp := si_rx_icmp s + 1\<rparr>" and ?n = "wi_payload_len w"
  let ?o = "odpowiedz_icmp (bajty_od f (wi_payload w) ?n)"
  have k: "cicho s ?s1" "cicho s (?s1\<lparr>si_pong := True\<rparr>)" by (simp_all add: cicho_def dlugosci_def)
  have i: "si_wyslane (snd (przydziel_ipv4_id x)) = si_wyslane x" "dlugosci (snd (przydziel_ipv4_id x)) = dlugosci x"
    "si_nasz_ip (snd (przydziel_ipv4_id x)) = si_nasz_ip x" for x
    by (simp_all add: przydziel_ipv4_id_def Let_def dlugosci_def)
  have o: "cicho s (snd (wyslij_ethernet K (datagram K (eth_zrodlo_mac f 0) IP_PROTO_ICMP (si_nasz_ip ?s1) (ip_zrodlo_ip f (wi_ip w)) (si_ipv4_id ?s1) ?o)
      (snd (przydziel_ipv4_id ?s1))))" if "ETH_LEN + (IPV4_MIN_LEN + ?n) \<le> MAKS_RAMKA_ETH"
    by (rule cicho_przed [OF cicho_datagram [OF assms]])
      (use that in \<open>simp_all add: pola_eth pola_ip i\<close>, simp_all add: dlugosci_def)
  have e: "(case wypelnij_ipv4 (of_nat (IPV4_MIN_LEN + ?n)) IP_PROTO_ICMP (si_nasz_ip ?s1) (ip_zrodlo_ip f (wi_ip w)) ?s1 of
            (None, s2) \<Rightarrow> s2
          | (Some ip, s2) \<Rightarrow> snd (wyslij_ethernet K (wypelnij_eth K (eth_zrodlo_mac f 0) ETHERTYPE_IPV4 @ ip @ ?o) s2)) =
      snd (wyslij_ethernet K (datagram K (eth_zrodlo_mac f 0) IP_PROTO_ICMP (si_nasz_ip ?s1) (ip_zrodlo_ip f (wi_ip w)) (si_ipv4_id ?s1) ?o)
        (snd (przydziel_ipv4_id ?s1)))" if "ETH_LEN + (IPV4_MIN_LEN + ?n) \<le> MAKS_RAMKA_ETH"
    using that wypelnij_ipv4_wynik [of ?n IP_PROTO_ICMP "si_nasz_ip ?s1" "ip_zrodlo_ip f (wi_ip w)" ?s1]
    by (simp add: datagram_def Let_def del: of_nat_add)
  show ?thesis unfolding obsluz_icmp_def Let_def using k o e by auto
qed

lemma cicho_obsluz_dhcp: "cicho s (obsluz_dhcp K f w u p l s)"
proof (rule cicho_bez_wysylania)
  show "si_wyslane (obsluz_dhcp K f w u p l s) = si_wyslane s"
    unfolding obsluz_dhcp_def Let_def by (simp add: przyjmij_offer_def przyjmij_ack_def Let_def split: option.split)
  show "dlugosci (obsluz_dhcp K f w u p l s)" if "dlugosci s"
    using that unfolding obsluz_dhcp_def Let_def by (auto simp: przyjmij_offer_def przyjmij_ack_def dlugosci_def Let_def split: option.split)
qed

lemma cicho_szukaj_odpowiedzi: "cicho s (szukaj_odpowiedzi f p l k q s)"
proof (induction f p l k q s rule: szukaj_odpowiedzi.induct)
  case (2 f pakiet dlugosc n pos s)
  have d: "cicho s (s\<lparr>si_dns_wynik := x\<rparr>)" "cicho s (s\<lparr>si_dns_wynik := x, si_dns_odebrano := True\<rparr>)" for x by (simp_all add: cicho_def dlugosci_def)
  show ?case
  proof (cases "dns_pomin_nazwe f pakiet dlugosc pos")
    case (Some p)
    show ?thesis using 2 [OF Some _ refl refl refl refl] d by (auto simp: Let_def Some intro: cicho_trans [OF d(1)])
  qed simp
qed simp

lemma cicho_licznik: "cicho (s\<lparr>si_rx_udp := m\<rparr>) s' \<Longrightarrow> cicho s s'" "cicho (s\<lparr>si_rx_udp := m, si_rx_dns := n\<rparr>) s' \<Longrightarrow> cicho s s'"
    "cicho s (s\<lparr>si_rx_udp := m\<rparr>)" "cicho s (s\<lparr>si_rx_udp := m, si_rx_dns := n\<rparr>)" "cicho s (po_ipv4 s)" "cicho s (s\<lparr>si_n_rx := k\<rparr>)"
  by (simp_all add: cicho_def dlugosci_def po_ipv4_def)

lemma cicho_obsluz_udp: "cicho s (obsluz_udp K f w s)"
  unfolding obsluz_udp_def obsluz_dns_def Let_def
  by (auto split: option.split intro!: cicho_licznik(3,4) cicho_licznik(1,2) [OF cicho_obsluz_dhcp] cicho_licznik(1,2) [OF cicho_szukaj_odpowiedzi])

text \<open>A change of the session's numbers and buffer sends nothing.\<close>

lemma cicho_po: "cicho s s' \<Longrightarrow> si_wyslane s'' = si_wyslane s' \<Longrightarrow> dlugosci s'' = dlugosci s' \<Longrightarrow> cicho s s''"
  by (simp add: cicho_def)

lemma dlugosci_pola: "dlugosci (s\<lparr>si_bufor := x\<rparr>) = dlugosci s" "dlugosci (s\<lparr>si_koniec := y\<rparr>) = dlugosci s" "dlugosci (s\<lparr>si_ack := z\<rparr>) = dlugosci s"
    "dlugosci (s\<lparr>si_odebrane := x\<rparr>) = dlugosci s" "dlugosci (s\<lparr>si_zapisano := y\<rparr>) = dlugosci s" "dlugosci (s\<lparr>si_przepelnienie := v\<rparr>) = dlugosci s"
  by (simp_all add: dlugosci_def)

lemma cicho_przyjmij_payload:
  assumes "length (ka_mac K) = 6"
  shows "cicho s (tcp_przyjmij_payload K d sekw s)"
proof -
  have p: "cicho s (snd (tcp_wyslij_internal K TCP_FLAG_ACK [] s'))" if "si_wyslane s' = si_wyslane s" "dlugosci s' = dlugosci s" for s'
    by (rule cicho_przed [OF cicho_tcp_wyslij [OF assms] that]) simp
  have m: "si_wyslane (snd (tcp_gniazdo_ma_miejsce n s)) = si_wyslane s" "dlugosci (snd (tcp_gniazdo_ma_miejsce n s)) = dlugosci s" for n
    by (simp_all add: tcp_gniazdo_ma_miejsce_def tcp_gniazdo_kompaktuj_def tcp_gniazdo_dostepne_def tcp_wyczysc_bufor_gniazda_def Let_def dlugosci_def)
  obtain ok s1 where o: "tcp_gniazdo_ma_miejsce (of_nat (length d)) s = (ok, s1)" by fastforce
  have m1: "si_wyslane s1 = si_wyslane s" "dlugosci s1 = dlugosci s" using m [of "of_nat (length d)"] unfolding o by simp_all
  show ?thesis unfolding tcp_przyjmij_payload_def Let_def o prod.case
    by (intro if_split [where P = "cicho s", THEN iffD2] conjI impI p cicho_refl) (simp_all add: m1 dlugosci_pola)
qed

lemma cicho_przyjmij_segment:
  assumes k: "length (ka_mac K) = 6"
  shows "cicho s (przyjmij_segment K g s)"
proof -
  have w: "cicho s' (snd (tcp_wyslij_internal K TCP_FLAG_ACK [] s'))" for s' by (rule cicho_tcp_wyslij [OF k]) simp
  have a: "cicho s (snd (tcp_wyslij_internal K TCP_FLAG_ACK [] (s\<lparr>si_ack := x, si_seq := y, si_stan := z\<rparr>)))" for x y z
    by (rule cicho_przed [OF w]) (simp_all add: dlugosci_def)
  have e: "cicho s ((snd (tcp_wyslij_internal K TCP_FLAG_ACK [] (s\<lparr>si_ack := x\<rparr>)))\<lparr>si_stan := z\<rparr>)" for s x z
    by (rule cicho_po [OF cicho_przed [OF w]]) (simp_all add: dlugosci_def)
  have r: "cicho s (s\<lparr>si_rst := True, si_stan := ZAMKNIETY\<rparr>)" by (simp add: cicho_def dlugosci_def)
  have o: "cicho s' (if b then s'\<lparr>si_dane_odebrane := True\<rparr> else s')" for b s' by (simp add: cicho_def dlugosci_def)
  have p: "cicho s (if b then tcp_przyjmij_payload K d q s else s)" for b d q by (simp add: cicho_przyjmij_payload [OF k])
  have d: "cicho s (przyjmij_dane K g s)"
    unfolding przyjmij_dane_def Let_def
    by (intro if_split [where P = "cicho s", THEN iffD2] conjI impI cicho_trans [OF cicho_trans [OF p o] e] cicho_trans [OF p o])
  show ?thesis unfolding przyjmij_segment_def by (simp add: a r d)
qed

lemma cicho_obsluz_pakiet:
  assumes k: "length (ka_mac K) = 6"
  shows "cicho s (obsluz_pakiet_sieciowy K f n s)"
proof -
  have t: "cicho s' (obsluz_tcp K f w s')" for w s' by (simp add: obsluz_tcp_segment cicho_przyjmij_segment [OF k] split: option.split)
  have "cicho s (obsluz_ipv4 K f n s)"
    unfolding obsluz_ipv4_def Let_def po_ipv4_def [symmetric]
    by (auto split: option.split intro!: cicho_licznik(5) intro: cicho_trans [OF cicho_licznik(5)] simp: cicho_obsluz_icmp [OF k] cicho_obsluz_udp t)
  then show ?thesis by (simp add: obsluz_pakiet_sieciowy_def Let_def cicho_obsluz_arp [OF k])
qed

lemma cicho_odbior:
  assumes k: "length (ka_mac K) = 6"
  shows "cicho s (e1000_obsluz_odbior K s)"
proof -
  have "cicho s' (fold (\<lambda>r s. obsluz_pakiet_sieciowy K (pam_ramki r) (length r) s) rs s')" for rs s'
    by (induction rs arbitrary: s') (auto intro: cicho_trans [OF cicho_obsluz_pakiet [OF k]])
  then show ?thesis unfolding e1000_obsluz_odbior_def by (rule cicho_trans [OF cicho_licznik(6)])
qed

subsection \<open>An open session while frames come in\<close>

definition utrzymane :: "siec \<Rightarrow> siec \<Rightarrow> bool" where
  "utrzymane s s' \<longleftrightarrow> (gniazdo_ok s \<and> si_stan s \<noteq> SYN_WYSLANY \<longrightarrow> gniazdo_ok s' \<and> si_stan s' \<noteq> SYN_WYSLANY \<and> si_seq s' = si_seq s)"

lemma utrzymane_trans: "utrzymane s s' \<Longrightarrow> utrzymane s' s'' \<Longrightarrow> utrzymane s s''"
  by (auto simp: utrzymane_def)

lemma utrzymane_sesja: "sesja s' = sesja s \<Longrightarrow> utrzymane s s'"
  by (simp add: utrzymane_def zawartosc_sesji(2) [of s' s]) (simp add: sesja_def)

lemma utrzymane_segment:
  assumes d: "length (sg_dane g) \<le> 65535"
  shows "utrzymane s (przyjmij_segment K g s)"
  unfolding utrzymane_def
proof (rule impI, elim conjE)
  assume go: "gniazdo_ok s" and st: "si_stan s \<noteq> SYN_WYSLANY"
  let ?p = "po_danych K g s"
  have p: "gniazdo_ok ?p" using go przyjmij_payload_wynik [OF go _ d, where sekw = "sg_sekw g" and K = K] by (auto simp: po_danych_def)
  have q: "si_stan ?p = si_stan s" "si_seq ?p = si_seq s" using po_danych_stan [OF go d, of K] by (simp_all add: stan_sesji_def)
  have w: "gniazdo_ok (po_koncu K x) = gniazdo_ok x" "si_seq (po_koncu K x) = si_seq x" "si_stan (po_koncu K x) = ZAMKNIETY" for x
    using sesja_tcp_wyslij [of K TCP_FLAG_ACK "[]" "x\<lparr>si_ack := si_ack x + 1\<rparr>"] by (simp_all add: po_koncu_def gniazdo_ok_def sesja_def)
  show "gniazdo_ok (przyjmij_segment K g s) \<and> si_stan (przyjmij_segment K g s) \<noteq> SYN_WYSLANY \<and> si_seq (przyjmij_segment K g s) = si_seq s"
  proof (rule rozgalezienie [OF przyjmij_segment_def [of K g s] st])
    assume "przyjmij_segment K g s = s\<lparr>si_rst := True, si_stan := ZAMKNIETY\<rparr>"
    then show ?thesis using go by (simp add: gniazdo_ok_def)
  next
    assume "przyjmij_segment K g s = przyjmij_dane K g s"
    then show ?thesis using p q w st unfolding przyjmij_dane_gniazdo [OF go d] by simp
  qed (use go st in simp)
qed

lemma utrzymane_odbior: "utrzymane s (e1000_obsluz_odbior K s)"
proof -
  have r: "utrzymane s (obsluz_pakiet_sieciowy K (pam_ramki r) (length r) s)" for r s
  proof (cases "segment_ramki (pam_ramki r) (length r)")
    case None
    then show ?thesis using obsluz_pakiet_segment [where f = "pam_ramki r" and n = "length r" and K = K and s = s] by (simp add: utrzymane_sesja)
  next
    case (Some g)
    have n: "utrzymane s (po_ipv4 s)" by (rule utrzymane_sesja) (simp add: po_ipv4_def)
    show ?thesis
      using obsluz_pakiet_segment [where f = "pam_ramki r" and n = "length r" and K = K and s = s] n
        utrzymane_trans [OF n utrzymane_segment [OF segment_dlugosc [OF Some], of "po_ipv4 s" K]]
      by (auto simp: Some)
  qed
  have f: "utrzymane s' (fold (\<lambda>r s. obsluz_pakiet_sieciowy K (pam_ramki r) (length r) s) rs s')" for rs s'
    by (induction rs arbitrary: s') (auto intro: utrzymane_trans r utrzymane_sesja)
  show ?thesis unfolding e1000_obsluz_odbior_def by (rule utrzymane_trans [OF utrzymane_sesja f]) simp
qed

subsection \<open>The sender\<close>

text \<open>A frame with a piece of the stream so far, which does not end it.\<close>

definition dobra :: "bajty \<Rightarrow> u32 \<Rightarrow> bajty \<Rightarrow> bool" where
  "dobra S b r = (case segment_ramki (pam_ramki r) (length r) of None \<Rightarrow> True
     | Some g \<Rightarrow> sg_flagi g AND TCP_FLAG_FIN = 0 \<and> niesie S b g)"

lemma dobra_pusta: "pusta_ramka r \<Longrightarrow> dobra S b r"
  by (auto simp: pusta_ramka_def dobra_def niesie_def split: option.splits)

lemma dobra_dalej: "dobra S b r \<Longrightarrow> dobra (S @ T) b r"
  by (fastforce simp: dobra_def niesie_def split: option.splits)

lemma dobra_nadaje: "dobra S b r \<Longrightarrow> nadaje S b a r"
  by (simp add: dobra_def nadaje_def split: option.splits)

text \<open>A session whose writes took the bytes \<open>S\<close>, the first of them with the number \<open>b\<close>, and sent them in the frames behind \<open>ws\<close>.\<close>

definition nadawca :: "bajty list \<Rightarrow> u32 \<Rightarrow> bajty \<Rightarrow> siec \<Rightarrow> bool" where
  "nadawca ws b S s \<longleftrightarrow> gniazdo_ok s \<and> si_stan s \<noteq> SYN_WYSLANY \<and> dlugosci s \<and> si_seq s = b + of_nat (length S) \<and>
     (\<exists>rs. si_wyslane s = ws @ rs \<and> list_all (dobra S b) rs)"

lemma nadawca_krok:
  assumes "nadawca ws b S s" "cicho s s'" "utrzymane s s'"
  shows "nadawca ws b S s'"
proof -
  obtain rs where n: "gniazdo_ok s" "si_stan s \<noteq> SYN_WYSLANY" "dlugosci s" "si_seq s = b + of_nat (length S)" "si_wyslane s = ws @ rs" "list_all (dobra S b) rs"
    using assms(1) by (auto simp: nadawca_def)
  obtain qs where q: "dlugosci s'" "si_wyslane s' = si_wyslane s @ qs" "list_all pusta_ramka qs" using assms(2) n(3) by (auto simp: cicho_def)
  have "list_all (dobra S b) (rs @ qs)" using n(6) q(3) by (auto simp: list_all_iff dobra_pusta)
  then show ?thesis using assms(3) n q unfolding nadawca_def utrzymane_def by auto
qed

lemma nadawca_odbior: "length (ka_mac K) = 6 \<Longrightarrow> nadawca ws b S s \<Longrightarrow> nadawca ws b S (e1000_obsluz_odbior K s)"
  by (rule nadawca_krok [OF _ cicho_odbior utrzymane_odbior])

lemma utrzymane_wyslij: "utrzymane s (snd (tcp_wyslij_internal K flagi d s))"
  by (rule utrzymane_sesja) simp

text \<open>One segment of a write: it is sent and counted, or neither.\<close>

lemma fragment_nadany:
  assumes n: "nadawca ws b S s" and k: "length (ka_mac K) = 6" "ka_tx K (si_n_tx s)" and f: "flagi AND TCP_FLAG_FIN = 0"
    and w: "tcp_wyslij_internal K flagi d s = (ok, s1)"
  shows "if ok then nadawca ws b (S @ d) (s1\<lparr>si_seq := si_seq s1 + of_nat (length d)\<rparr>) else nadawca ws b S s1"
proof -
  obtain rs where s: "gniazdo_ok s" "si_stan s \<noteq> SYN_WYSLANY" "dlugosci s" "si_seq s = b + of_nat (length S)" "si_wyslane s = ws @ rs" "list_all (dobra S b) rs"
    using n by (auto simp: nadawca_def)
  have u: "gniazdo_ok s1" "si_stan s1 \<noteq> SYN_WYSLANY" "si_seq s1 = si_seq s" "dlugosci s1"
    using utrzymane_wyslij [of s K flagi d] dlugosci_tcp_wyslij [of K flagi d s] s(1-3) unfolding w utrzymane_def by simp_all
  show ?thesis
  proof (cases "tcp_dane_sesji_poprawne s \<and> mac_karty_gotowy K \<and> length d \<le> 1400")
    case False
    then have "si_wyslane s1 = si_wyslane s" "\<not> ok" using tcp_wyslij_bez_ramki [OF False, of flagi] unfolding w by simp_all
    then show ?thesis using u s by (simp add: nadawca_def)
  next
    case True
    have l: "length (si_nasz_ip s) = 4" "length (si_cel_ip s) = 4" "length (si_cel_mac s) = 6" using s(3) by (simp_all add: dlugosci_def)
    have p: "tcp_dane_sesji_poprawne s" "mac_karty_gotowy K" "length d \<le> 1400" using True by blast+
    obtain r where r: "si_wyslane s1 = si_wyslane s @ [r]" "segment_ramki (pam_ramki r) (length r) = Some (naglowek_sesji s flagi d)" "ok"
      using tcp_na_drucie [OF p(1,2) l k(1) p(3), where flagi = flagi] k(2) unfolding w fst_conv snd_conv by metis
    have "niesie (S @ d) b (naglowek_sesji s flagi d)"
    proof -
      have "length S + length d \<le> length (S @ d)" "d = take (length d) (drop (length S) (S @ d))" by simp_all
      then show ?thesis unfolding niesie_def naglowek_sesji_def Segment.simps s(4) using f by metis
    qed
    then have "dobra (S @ d) b r" using r(2) f by (simp add: dobra_def naglowek_sesji_def)
    moreover have "list_all (dobra (S @ d) b) rs" using s(6) by (auto simp: list_all_iff dobra_dalej)
    moreover have "gniazdo_ok (s1\<lparr>si_seq := x\<rparr>) = gniazdo_ok s1" "dlugosci (s1\<lparr>si_seq := x\<rparr>) = dlugosci s1" for x
      by (simp_all add: gniazdo_ok_def dlugosci_def)
    ultimately show ?thesis using r u s(4,5) by (simp add: nadawca_def add.assoc)
  qed
qed

lemma fragmenty_nadane:
  assumes k: "length (ka_mac K) = 6" "\<And>i. ka_tx K i"
  shows "nadawca ws b (S @ take wyslano dane) s \<Longrightarrow> wyslano \<le> length dane \<Longrightarrow> wyslij_fragmenty K dane wyslano s = (x, s') \<Longrightarrow>
    nadawca ws b (S @ take (nat x) dane) s'"
proof (induction "length dane - wyslano" arbitrary: wyslano s rule: less_induct)
  case less
  show ?case
  proof (cases "wyslano \<ge> length dane")
    case True
    then show ?thesis using less.prems by (auto simp: wyslij_fragmenty.simps)
  next
    case False
    define fr where "fr = (if length dane - wyslano > TCP_MSS_WYSYLANIA then TCP_MSS_WYSYLANIA else length dane - wyslano)"
    let ?d = "take fr (drop wyslano dane)"
    have fr: "0 < fr" "wyslano + fr \<le> length dane" "length ?d = fr" using False by (auto simp: fr_def)
    obtain ok s1 where w: "tcp_wyslij_internal K (TCP_FLAG_PSH OR TCP_FLAG_ACK) ?d s = (ok, s1)" by fastforce
    have f: "(TCP_FLAG_PSH OR TCP_FLAG_ACK) AND TCP_FLAG_FIN = 0" by simp
    note n = fragment_nadany [OF less.prems(1) k(1) k(2) f w]
    define s2 where "s2 = e1000_obsluz_odbior K (s1\<lparr>si_seq := si_seq s1 + of_nat fr\<rparr>)"
    have o: "wyslij_fragmenty K dane wyslano s = (if \<not> ok then (if wyslano \<noteq> 0 then int wyslano else -1, s1)
        else if si_stan s2 = ZAMKNIETY \<or> si_rst s2 then (int (wyslano + fr), s2) else wyslij_fragmenty K dane (wyslano + fr) s2)"
      unfolding wyslij_fragmenty.simps [of K dane wyslano s] Let_def fr_def [symmetric] w prod.case s2_def [symmetric] using False by simp
    show ?thesis
    proof (cases ok)
      case False
      then have "x = (if wyslano \<noteq> 0 then int wyslano else -1)" "s' = s1" using o less.prems(3) by simp_all
      then show ?thesis using n False by (simp split: if_splits)
    next
      case True
      have "(S @ take wyslano dane) @ ?d = S @ take (wyslano + fr) dane" by (simp add: take_add)
      then have "nadawca ws b (S @ take (wyslano + fr) dane) (s1\<lparr>si_seq := si_seq s1 + of_nat fr\<rparr>)" using n True fr(3) by simp
      then have s2: "nadawca ws b (S @ take (wyslano + fr) dane) s2" unfolding s2_def by (rule nadawca_odbior [OF k(1)])
      have "length dane - (wyslano + fr) < length dane - wyslano" using fr by simp
      note ih = less.hyps [OF this s2 fr(2)]
      show ?thesis
      proof (cases "si_stan s2 = ZAMKNIETY \<or> si_rst s2")
        case z: True
        have x: "x = int (wyslano + fr)" "s' = s2" using o z True less.prems(3) by auto
        show ?thesis unfolding x nat_int by (rule s2)
      next
        case z: False
        have "wyslij_fragmenty K dane (wyslano + fr) s2 = (x, s')" using o z True less.prems(3) by auto
        then show ?thesis by (rule ih)
      qed
    qed
  qed
qed

text \<open>A read moves the start of the buffer only.\<close>

lemma odczyt_zmiana:
  assumes "gniazdo_ok (e1000_obsluz_odbior K s)" "tcp_gniazdo_odbierz K n s = (x, d, s')"
  shows "s' = s \<or> (\<exists>u v. s' = (e1000_obsluz_odbior K s)\<lparr>si_poczatek := u, si_koniec := v\<rparr> \<and> u \<le> v \<and> v \<le> TCP_BUFOR_GNIAZDA)"
proof (cases "n = 0 \<or> \<not> si_zajeta s \<or> \<not> si_tryb_gniazda s")
  case True
  then have "tcp_gniazdo_odbierz K n s = (-1, [], s)" unfolding tcp_gniazdo_odbierz_def by (cases "n = 0") simp_all
  then show ?thesis using assms(2) by simp
next
  case False
  let ?s1 = "e1000_obsluz_odbior K s"
  have g: "si_poczatek ?s1 \<le> si_koniec ?s1" "si_koniec ?s1 \<le> TCP_BUFOR_GNIAZDA" using assms(1) by (simp_all add: gniazdo_ok_def)
  define dost where "dost = si_koniec ?s1 - si_poczatek ?s1"
  have dd: "tcp_gniazdo_dostepne ?s1 = (dost, ?s1)" using g(1) by (simp add: tcp_gniazdo_dostepne_def dost_def linorder_not_less [symmetric])
  define m where "m = (if dost < n then dost else n)"
  let ?s2 = "?s1\<lparr>si_poczatek := si_poczatek ?s1 + m\<rparr>"
  have ml: "unat m \<le> unat dost" by (simp add: m_def word_less_nat_alt)
  have pk: "unat (si_poczatek ?s1) \<le> unat (si_koniec ?s1)" "unat (si_koniec ?s1) \<le> 65536" using g by (simp_all add: word_le_nat_alt)
  have du: "unat dost = unat (si_koniec ?s1) - unat (si_poczatek ?s1)" using g by (simp add: dost_def unat_sub)
  have "unat (si_poczatek ?s1 + m) = unat (si_poczatek ?s1) + unat m" using ml pk du by (simp add: unat_word_ariths)
  then have le: "si_poczatek ?s1 + m \<le> si_koniec ?s1" using ml pk du by (simp add: word_le_nat_alt)
  have "tcp_gniazdo_odbierz K n s = (if dost = 0 then (if si_stan ?s1 = ZAMKNIETY then 0 else -2, [], ?s1) else (int (unat m), bajty_od (si_bufor ?s1) (unat (si_poczatek ?s1)) (unat m),
      if si_poczatek ?s2 = si_koniec ?s2 then tcp_wyczysc_bufor_gniazda ?s2 else ?s2))"
    unfolding tcp_gniazdo_odbierz_def dd Let_def prod.case m_def [symmetric] using False by (simp cong: if_cong)
  then have "s' = ?s1 \<or> s' = tcp_wyczysc_bufor_gniazda ?s2 \<or> s' = ?s2" unfolding assms(2) by (simp split: if_splits)
  moreover have "?s1 = ?s1\<lparr>si_poczatek := si_poczatek ?s1, si_koniec := si_koniec ?s1\<rparr>" "?s2 = ?s1\<lparr>si_poczatek := si_poczatek ?s1 + m, si_koniec := si_koniec ?s1\<rparr>"
      "tcp_wyczysc_bufor_gniazda ?s2 = ?s1\<lparr>si_poczatek := 0, si_koniec := 0\<rparr>" by (simp_all add: tcp_wyczysc_bufor_gniazda_def)
  ultimately show ?thesis using g le by (metis order_refl word_zero_le)
qed

lemma nadawca_odczyt:
  assumes k: "length (ka_mac K) = 6" and n: "nadawca ws b S s" and o: "tcp_gniazdo_odbierz K m s = (x, d, s')"
  shows "nadawca ws b S s'"
proof -
  have n1: "nadawca ws b S (e1000_obsluz_odbior K s)" by (rule nadawca_odbior [OF k n])
  then have "gniazdo_ok (e1000_obsluz_odbior K s)" by (simp add: nadawca_def)
  from odczyt_zmiana [OF this o] n n1 show ?thesis by (auto simp: nadawca_def gniazdo_ok_def dlugosci_def)
qed

lemma wywolania_nadane:
  assumes k: "length (ka_mac K) = 6" "\<And>i. ka_tx K i"
  shows "wykonaj_tcp K cs (s, p, S) = (s', p', S') \<Longrightarrow> nadawca ws b S s \<Longrightarrow> nadawca ws b S' s'"
proof (induction cs arbitrary: s p S)
  case (Cons c cs)
  show ?case
  proof (cases c)
    case (Odczytaj n)
    obtain x d s1 where o: "tcp_gniazdo_odbierz K n s = (x, d, s1)" using prod_cases3 by blast
    then show ?thesis using Cons.IH [of s1 "p @ d" S] Cons.prems nadawca_odczyt [OF k(1) Cons.prems(2) o] by (simp add: Odczytaj)
  next
    case (Wyslij dane)
    obtain x s1 where o: "tcp_gniazdo_wyslij K dane s = (x, s1)" by fastforce
    have "nadawca ws b (S @ take (nat x) dane) s1"
      using fragmenty_nadane [OF k, where ws = ws and b = b and S = S and wyslano = 0 and dane = dane and s = s] o Cons.prems(2)
      by (auto simp: tcp_gniazdo_wyslij_def split: if_splits)
    then show ?thesis using Cons.IH [of s1 p "S @ take (nat x) dane"] Cons.prems by (simp add: Wyslij o)
  next
    case Odpytaj
    then show ?thesis using Cons.IH [of "e1000_obsluz_odbior K s" p S] Cons.prems nadawca_odbior [OF k(1) Cons.prems(2)] by simp
  qed
qed simp

text \<open>The close sends the end of the stream, then only frames without data.\<close>

lemma zamkniecie_nadane:
  assumes k: "length (ka_mac K) = 6" "\<And>i. ka_tx K i" and n: "nadawca ws b S s"
  obtains rs where "si_wyslane (tcp_gniazdo_zamknij K s) = ws @ rs" "\<And>r a. r \<in> set rs \<Longrightarrow> nadaje S b a r"
proof -
  obtain qs where s: "gniazdo_ok s" "dlugosci s" "si_seq s = b + of_nat (length S)" "si_wyslane s = ws @ qs" "list_all (dobra S b) qs"
    using n by (auto simp: nadawca_def)
  have q: "nadaje S b a r" if "r \<in> set qs" for a r using s(5) that by (auto simp: list_all_iff intro: dobra_nadaje)
  let ?fl = "TCP_FLAG_FIN OR TCP_FLAG_ACK"
  let ?z = "tcp_zamknij_grzecznie K s"
  have l: "length (si_nasz_ip s) = 4" "length (si_cel_ip s) = 4" "length (si_cel_mac s) = 6" using s(2) by (simp_all add: dlugosci_def)
  have z: "dlugosci (snd ?z) \<and> (\<exists>r. si_wyslane (snd ?z) = si_wyslane s \<or> si_wyslane (snd ?z) = si_wyslane s @ [r] \<and> (\<forall>a. nadaje S b a r))"
  proof -
    have d: "dlugosci (snd ?z)" and w: "si_wyslane (snd ?z) = si_wyslane s \<or> si_wyslane (snd ?z) = si_wyslane (snd (tcp_wyslij_internal K ?fl [] s))"
      using s(2) dlugosci_tcp_wyslij [of K ?fl "[]" s] by (auto simp: tcp_zamknij_grzecznie_def dlugosci_def split: prod.split)
    have "nadaje S b a r" if "segment_ramki (pam_ramki r) (length r) = Some (naglowek_sesji s ?fl [])" for a r
      using that s(3) by (simp add: nadaje_def niesie_def naglowek_sesji_def)
    then have "\<exists>r. si_wyslane (snd (tcp_wyslij_internal K ?fl [] s)) = si_wyslane s \<or>
        si_wyslane (snd (tcp_wyslij_internal K ?fl [] s)) = si_wyslane s @ [r] \<and> (\<forall>a. nadaje S b a r)"
      using tcp_na_drucie [OF _ _ l k(1), where dane = "[]" and flagi = ?fl] tcp_wyslij_bez_ramki [of s K "[]" ?fl] by (metis le0 list.size(3))
    then show ?thesis using d w by metis
  qed
  have c: "cicho x (czekaj_zamkniecia m K x)" for m x
    by (induction m arbitrary: x) (auto simp: Let_def intro: cicho_trans [OF cicho_odbior [OF k(1)]] cicho_odbior [OF k(1)])
  obtain rs where r: "si_wyslane (czekaj_zamkniecia 100000 K (snd ?z)) = si_wyslane (snd ?z) @ rs" "list_all pusta_ramka rs"
    using c [of "snd ?z" 100000] z by (auto simp: cicho_def)
  have "si_wyslane (tcp_gniazdo_zamknij K s) = si_wyslane (snd ?z) @ rs"
    using s(1) r(1) by (simp add: tcp_gniazdo_zamknij_def gniazdo_ok_def tcp_resetuj_sesje_def tcp_wyczysc_bufor_gniazda_def)
  moreover have "nadaje S b a r" if "r \<in> set rs" for a r
    using r(2) that by (auto simp: list_all_iff intro: dobra_nadaje dobra_pusta)
  moreover obtain zr where "si_wyslane (snd ?z) = si_wyslane s @ zr" "\<And>r a. r \<in> set zr \<Longrightarrow> nadaje S b a r"
  proof -
    obtain r where "si_wyslane (snd ?z) = si_wyslane s \<or> si_wyslane (snd ?z) = si_wyslane s @ [r] \<and> (\<forall>a. nadaje S b a r)" using z by blast
    then show thesis using that [of "[]"] that [of "[r]"] by auto
  qed
  ultimately have "si_wyslane (tcp_gniazdo_zamknij K s) = ws @ (qs @ zr @ rs)" "\<And>r a. r \<in> set (qs @ zr @ rs) \<Longrightarrow> nadaje S b a r"
    using q s(4) by auto
  then show thesis by (rule that)
qed

end
