(* ===== verification/Siec_Ping.thy ===== *)
theory Siec_Ping
  imports Siec_Ramki
begin

section \<open>The network stack: ping between two hosts\<close>

text \<open>
  The echo request that \<open>bws_siec_ping\<close> sends is answered by the handler of the other host, and the answer
  is the one the first host waits for.
\<close>

subsection \<open>The echo messages\<close>

lemma length_zadanie_echa [simp]: "length (zadanie_echa suma) = 40"
  by (simp add: zadanie_echa_def)

lemma suma_zadania: "suma_kontrolna_bajty (zadanie_echa (host_na_siec16 (suma_kontrolna_bajty (zadanie_echa 0)))) = 0"
  using suma_kontrolna_wlasna [where xs = "[8, 0]" and ys = "slowo16 (host_na_siec16 ICMP_ECHO_ID) @ slowo16 (host_na_siec16 ICMP_ECHO_SEQ) @ map of_nat [0 ..< 32]"]
  by (simp add: zadanie_echa_def)

lemma odpowiedz_icmp_wynik:
  assumes "length suma = 2"
  shows "odpowiedz_icmp ([t, k] @ suma @ rest) =
    [0, k] @ slowo16 (host_na_siec16 (suma_kontrolna_bajty ([0, k] @ slowo16 0 @ rest))) @ rest"
proof -
  obtain x y where s: "suma = [x, y]" using assms by (auto simp: numeral_2_eq_2 length_Suc_conv)
  show ?thesis unfolding s odpowiedz_icmp_def Let_def by (simp add: zapisz_be16_bajty slowo16_def numeral_eq_Suc)
qed

lemma odpowiedz_echa:
  "odpowiedz_icmp (zadanie_echa suma) = [0, 0] @ slowo16 (host_na_siec16 (suma_kontrolna_bajty ([0, 0] @ slowo16 0 @ drop 4 (zadanie_echa suma)))) @ drop 4 (zadanie_echa suma)"
  using odpowiedz_icmp_wynik [where t = 8 and k = 0 and suma = "slowo16 suma"
      and rest = "slowo16 (host_na_siec16 ICMP_ECHO_ID) @ slowo16 (host_na_siec16 ICMP_ECHO_SEQ) @ map of_nat [0 ..< 32]"]
  by (simp add: zadanie_echa_def)

lemma suma_odpowiedzi: "suma_kontrolna_bajty (odpowiedz_icmp (zadanie_echa suma)) = 0"
  unfolding odpowiedz_echa by (rule suma_kontrolna_wlasna) simp_all

lemma pola_echa:
  assumes "zawiera f p ([t, 0] @ suma @ drop 4 (zadanie_echa x))" "length suma = 2"
  shows "icmp_typ f p = t" "icmp_kod f p = 0" "siec_na_host16 (icmp_id f p) = ICMP_ECHO_ID" "siec_na_host16 (icmp_sekwencja f p) = ICMP_ECHO_SEQ"
proof -
  have z: "f p = t" "f (p + 1) = 0" "zawiera f (p + 4) (slowo16 (host_na_siec16 ICMP_ECHO_ID))" "zawiera f (p + 6) (slowo16 (host_na_siec16 ICMP_ECHO_SEQ))"
    using assms by (simp_all add: zadanie_echa_def eval_nat_numeral)
  show "icmp_typ f p = t" "icmp_kod f p = 0" using z(1,2) by (simp_all add: pola_icmp)
  show "siec_na_host16 (icmp_id f p) = ICMP_ECHO_ID" "siec_na_host16 (icmp_sekwencja f p) = ICMP_ECHO_SEQ"
    by (simp_all only: pola_icmp zawiera_pole16 [OF z(3)] zawiera_pole16 [OF z(4)] zamiana_dwukrotna)
qed

subsection \<open>The other host\<close>

text \<open>An address is equal to itself; two addresses of four bytes are equal when their bytes are.\<close>

lemma ip_rowne_refl [simp]: "ip_rowne a a"
  by (simp add: ip_rowne_def)

text \<open>What a host answers to a frame.\<close>

definition odpowiedz_hosta :: "karta \<Rightarrow> siec \<Rightarrow> bajty \<Rightarrow> bajty" where
  "odpowiedz_hosta K s r = last (si_wyslane (obsluz_pakiet_sieciowy K (pam_ramki r) (length r) s))"

lemma echo_hosta:
  assumes A: "length mac = 6" "length (ka_mac KA) = 6" "length zrodlo = 4" "length (si_nasz_ip s) = 4"
    and B: "si_gotowa s" "mac_karty_gotowy KB" "length (ka_mac KB) = 6"
  shows "odpowiedz_hosta KB s (na_drucie (datagram KA mac IP_PROTO_ICMP zrodlo (si_nasz_ip s) ident (zadanie_echa (host_na_siec16 (suma_kontrolna_bajty (zadanie_echa 0)))))) =
    na_drucie (datagram KB (ka_mac KA) IP_PROTO_ICMP (si_nasz_ip s) zrodlo (si_ipv4_id s)
      (odpowiedz_icmp (zadanie_echa (host_na_siec16 (suma_kontrolna_bajty (zadanie_echa 0))))))"
proof -
  define e where "e = zadanie_echa (host_na_siec16 (suma_kontrolna_bajty (zadanie_echa 0)))"
  define r where "r = na_drucie (datagram KA mac IP_PROTO_ICMP zrodlo (si_nasz_ip s) ident e)"
  define f where "f = pam_ramki r"
  define d where "d = datagram KB (ka_mac KA) IP_PROTO_ICMP (si_nasz_ip s) zrodlo (si_ipv4_id s) (odpowiedz_icmp e)"
  have l: "length e = 40" by (simp add: e_def)
  have l2: "length e \<le> 1480" using l by simp
  note p = datagram_przyjety [OF A(1,2,3,4) l2, where prot = IP_PROTO_ICMP and ident = ident, folded r_def, folded f_def]
  have ee: "e = [8, 0] @ slowo16 (host_na_siec16 (suma_kontrolna_bajty (zadanie_echa 0))) @ drop 4 (zadanie_echa 0)"
    by (simp add: e_def zadanie_echa_def)
  note q = pola_echa [OF p(9) [unfolded ee] slowa_pole(3)]
  have b: "bajty_od f 34 40 = e" by (rule bajty_zawarte [OF p(9) l])
  let ?s1 = "s\<lparr>si_rx_ipv4 := si_rx_ipv4 s + 1, si_rx_icmp := si_rx_icmp s + 1\<rparr>"
  have ld: "length (odpowiedz_icmp e) = 40" using l by (simp add: odpowiedz_icmp_def Let_def)
  have g: "ETH_LEN \<le> length d" "length d \<le> MAKS_RAMKA_ETH" using A B l by (simp_all add: d_def datagram_def Let_def length_eth length_naglowek ld)
  have w: "wypelnij_ipv4 (of_nat 60) IP_PROTO_ICMP (si_nasz_ip s) zrodlo ?s1 =
      (Some (naglowek_ipv4 60 (si_ipv4_id s) IP_PROTO_ICMP (si_nasz_ip s) zrodlo
         (host_na_siec16 (suma_kontrolna_bajty (naglowek_ipv4 60 (si_ipv4_id s) IP_PROTO_ICMP (si_nasz_ip s) zrodlo 0)))), snd (przydziel_ipv4_id ?s1))"
    using wypelnij_ipv4_wynik [of 40 IP_PROTO_ICMP "si_nasz_ip s" zrodlo ?s1] by simp
  have "obsluz_icmp KB f \<lparr>wi_ip = 14, wi_payload = 34, wi_payload_len = 40, wi_ihl = 20, wi_calkowita_dlugosc = 60\<rparr> (s\<lparr>si_rx_ipv4 := si_rx_ipv4 s + 1\<rparr>) =
      snd (wyslij_ethernet KB d (snd (przydziel_ipv4_id ?s1)))"
    unfolding obsluz_icmp_def Let_def WidokIPv4.simps b q p(4,7,8)
    using B(1) w suma_zadania by (simp add: d_def datagram_def ld e_def [symmetric])
  then have "obsluz_pakiet_sieciowy KB f (length r) s = snd (wyslij_ethernet KB d (snd (przydziel_ipv4_id ?s1)))"
    using p(1,3) B(1) unfolding obsluz_pakiet_sieciowy_def obsluz_ipv4_def Let_def p(5) l by (simp add: p(6,8))
  then show ?thesis
    unfolding e_def [symmetric] r_def [symmetric] d_def [symmetric] odpowiedz_hosta_def f_def wyslij_ethernet_wynik [OF g B(2)] by simp
qed

subsection \<open>The first host\<close>

text \<open>The answer sets the flag that the ping waits for.\<close>

lemma echo_odebrane:
  fixes ident suma :: u16
  assumes B: "length mac = 6" "length (ka_mac KB) = 6" "length cel = 4" "length (si_nasz_ip s) = 4"
    and A: "si_gotowa s" "si_ping_ip s = cel" "si_ping_id s = ICMP_ECHO_ID" "si_ping_seq s = ICMP_ECHO_SEQ"
  defines "r \<equiv> na_drucie (datagram KB mac IP_PROTO_ICMP cel (si_nasz_ip s) ident (odpowiedz_icmp (zadanie_echa suma)))"
  shows "si_pong (obsluz_pakiet_sieciowy KA (pam_ramki r) (length r) s)"
    "ETH_LEN \<le> length r" "length r \<le> MAKS_RAMKA_ETH"
proof -
  define e where "e = odpowiedz_icmp (zadanie_echa suma)"
  define f where "f = pam_ramki r"
  have l: "length e = 40" by (simp add: e_def odpowiedz_icmp_def Let_def)
  have l2: "length e \<le> 1480" using l by simp
  note p = datagram_przyjety [OF B(1,2,3,4) l2, where prot = IP_PROTO_ICMP and ident = ident, folded r_def [folded e_def], folded f_def]
  show "ETH_LEN \<le> length r" "length r \<le> MAKS_RAMKA_ETH" using p(1,2) by simp_all
  note q = pola_echa [OF p(9) [unfolded e_def odpowiedz_echa] slowa_pole(3)]
  have b: "bajty_od f 34 40 = e" by (rule bajty_zawarte [OF p(9) l])
  let ?s1 = "s\<lparr>si_rx_ipv4 := si_rx_ipv4 s + 1\<rparr>"
  have "obsluz_icmp KA f \<lparr>wi_ip = 14, wi_payload = 34, wi_payload_len = 40, wi_ihl = 20, wi_calkowita_dlugosc = 60\<rparr> ?s1 =
      ?s1\<lparr>si_rx_icmp := si_rx_icmp s + 1, si_pong := True\<rparr>"
    unfolding obsluz_icmp_def Let_def WidokIPv4.simps b q p(7,8) e_def suma_odpowiedzi using A by simp
  then have "si_pong (obsluz_pakiet_sieciowy KA f (length r) s)"
    using p(1,3) A(1) unfolding obsluz_pakiet_sieciowy_def obsluz_ipv4_def Let_def p(5) l by (simp add: p(6,8))
  then show "si_pong (obsluz_pakiet_sieciowy KA (pam_ramki r) (length r) s)" unfolding f_def .
qed

text \<open>The whole call: the request sent, the answer of the other host delivered at the first poll.\<close>

lemma ping_miedzy_hostami:
  assumes s: "si_gotowa s" "rozwiaz_adres_mac KA cel s = Some (Some mac, s1)" "\<not> ip_jest_zero cel" "\<not> ip_jest_broadcast cel" "\<not> ip_jest_multicast cel"
    and c: "cel = [a, b, c, d]"
    and s1: "si_gotowa s1" "length (si_nasz_ip s1) = 4" "length mac = 6" "length (ka_mac KA) = 6" "mac_karty_gotowy KA" "ka_tx KA (si_n_tx s1)"
    and B: "si_gotowa sB" "si_nasz_ip sB = cel" "mac_karty_gotowy KB" "length (ka_mac KB) = 6"
    and rA: "wypelnij_ipv4 60 IP_PROTO_ICMP (si_nasz_ip s1) cel s1 = (Some ip, s2)"
    and rx: "ka_rx KA (si_n_rx s1) = [odpowiedz_hosta KB sB (na_drucie (ramka_pinga KA mac ip))]"
    and t: "unat (ka_czas KA (si_n_czas s1)) + 4000 < 2 ^ 64" "unat (ka_czas KA (Suc (si_n_czas s1))) < unat (ka_czas KA (si_n_czas s1)) + 4000"
  shows "\<exists>s'. bws_siec_ping KA a b c d s = Some (2, s')"
proof -
  define e where "e = zadanie_echa (host_na_siec16 (suma_kontrolna_bajty (zadanie_echa 0)))"
  have le: "length e = 40" by (simp add: e_def)
  have lc: "length cel = 4" using c by simp
  have w: "ip = naglowek_ipv4 60 (si_ipv4_id s1) IP_PROTO_ICMP (si_nasz_ip s1) cel
      (host_na_siec16 (suma_kontrolna_bajty (naglowek_ipv4 60 (si_ipv4_id s1) IP_PROTO_ICMP (si_nasz_ip s1) cel 0)))" "s2 = snd (przydziel_ipv4_id s1)"
    using rA wypelnij_ipv4_wynik [of 40 IP_PROTO_ICMP "si_nasz_ip s1" cel s1] by simp_all
  have pi: "ramka_pinga KA mac ip = datagram KA mac IP_PROTO_ICMP (si_nasz_ip s1) cel (si_ipv4_id s1) e"
    unfolding ramka_pinga_def e_def [symmetric] datagram_def Let_def w(1) le by simp
  let ?r = "datagram KB (ka_mac KA) IP_PROTO_ICMP cel (si_nasz_ip s1) (si_ipv4_id sB) (odpowiedz_icmp e)"
  have o: "odpowiedz_hosta KB sB (na_drucie (ramka_pinga KA mac ip)) = na_drucie ?r"
    using echo_hosta [where mac = mac and KA = KA and zrodlo = "si_nasz_ip s1" and s = sB and KB = KB and ident = "si_ipv4_id s1"] s1 B lc
    unfolding pi e_def by simp
  have g: "ETH_LEN \<le> length (ramka_pinga KA mac ip)" "length (ramka_pinga KA mac ip) \<le> MAKS_RAMKA_ETH"
    using s1 lc le unfolding pi by (simp_all add: datagram_def Let_def length_eth length_naglowek)
  define s3 where "s3 = s2\<lparr>si_ping_ip := cel, si_ping_id := ICMP_ECHO_ID, si_ping_seq := ICMP_ECHO_SEQ, si_pong := False,
    si_wyslane := si_wyslane s2 @ [na_drucie (ramka_pinga KA mac ip)], si_n_tx := si_n_tx s2 + 1, si_n_czas := Suc (Suc (si_n_czas s1))\<rparr>"
  have n2: "si_n_rx s2 = si_n_rx s1" "si_n_tx s2 = si_n_tx s1" "si_n_czas s2 = si_n_czas s1" "si_nasz_ip s2 = si_nasz_ip s1" "si_gotowa s2 = si_gotowa s1"
    by (simp_all add: w(2) przydziel_ipv4_id_def Let_def)
  have fr: "ETH_LEN \<le> length (na_drucie ?r)" "length (na_drucie ?r) \<le> MAKS_RAMKA_ETH"
      "si_pong (obsluz_pakiet_sieciowy KA (pam_ramki (na_drucie ?r)) (length (na_drucie ?r)) (s3\<lparr>si_n_rx := si_n_rx s3 + 1\<rparr>))"
  proof -
    let ?s = "s3\<lparr>si_n_rx := si_n_rx s3 + 1\<rparr>"
    have n: "si_nasz_ip ?s = si_nasz_ip s1" "si_gotowa ?s" "si_ping_ip ?s = cel" "si_ping_id ?s = ICMP_ECHO_ID" "si_ping_seq ?s = ICMP_ECHO_SEQ"
      using n2 s1(1) by (simp_all add: s3_def)
    note eo = echo_odebrane(2,3) [where mac = "ka_mac KA" and KB = KB and cel = cel and s = ?s and ident = "si_ipv4_id sB" and suma = "host_na_siec16 (suma_kontrolna_bajty (zadanie_echa 0))", unfolded n(1),
        OF s1(4) B(4) lc s1(2) n(2-5), folded e_def]
      echo_odebrane(1) [where mac = "ka_mac KA" and KB = KB and cel = cel and s = ?s and ident = "si_ipv4_id sB" and suma = "host_na_siec16 (suma_kontrolna_bajty (zadanie_echa 0))" and KA = KA, unfolded n(1),
        OF s1(4) B(4) lc s1(2) n(2-5), folded e_def]
    show "ETH_LEN \<le> length (na_drucie ?r)" "length (na_drucie ?r) \<le> MAKS_RAMKA_ETH"
      "si_pong (obsluz_pakiet_sieciowy KA (pam_ramki (na_drucie ?r)) (length (na_drucie ?r)) (s3\<lparr>si_n_rx := si_n_rx s3 + 1\<rparr>))"
      by (fact eo)+
  qed
  have "si_pong (e1000_obsluz_odbior KA s3)"
    using fr rx o n2(1) unfolding e1000_obsluz_odbior_def by (simp add: s3_def)
  then have pl: "petla_odbioru KA dl (\<lambda>s. (if si_pong s then Some () else None, s)) (s3\<lparr>si_n_czas := Suc (si_n_czas s1)\<rparr>) =
      Some (Some (), e1000_obsluz_odbior KA s3)" if "ka_czas KA (Suc (si_n_czas s1)) < dl" for dl
    using that by (subst petla_odbioru.simps) (simp add: czas_monotoniczny_ms_def s3_def)
  have m: "unat (UINT64_MAX - PING_TIMEOUT_MS) = 18446744073709547615" by (simp add: UINT64_MAX_def)
  have d: "\<not> ka_czas KA (si_n_czas s1) > UINT64_MAX - PING_TIMEOUT_MS"
      "ka_czas KA (Suc (si_n_czas s1)) < ka_czas KA (si_n_czas s1) + PING_TIMEOUT_MS"
    using t m by (simp_all add: word_less_nat_alt unat_word_ariths)
  have we: "wyslij_ethernet KA (ramka_pinga KA mac ip) (s2\<lparr>si_ping_ip := cel, si_ping_id := ICMP_ECHO_ID, si_ping_seq := ICMP_ECHO_SEQ, si_pong := False\<rparr>) =
      (True, s3\<lparr>si_n_czas := si_n_czas s1\<rparr>)"
    unfolding wyslij_ethernet_wynik [OF g s1(5)] using s1(6) n2 by (simp add: s3_def)
  have dm: "deadline_ms KA PING_TIMEOUT_MS (s3\<lparr>si_n_czas := si_n_czas s1\<rparr>) = (ka_czas KA (si_n_czas s1) + PING_TIMEOUT_MS, s3\<lparr>si_n_czas := Suc (si_n_czas s1)\<rparr>)"
    using d(1) by (simp add: deadline_ms_def czas_monotoniczny_ms_def)
  show ?thesis
    unfolding bws_siec_ping_def Let_def c [symmetric] s(2)
    using s(1,3-5) rA we dm pl [OF d(2)] by simp
qed

end
