(* ===== verification/Siec_Tablica.thy ===== *)
theory Siec_Tablica
  imports Siec_Ramki
begin

section \<open>The network stack: the ARP table as a map\<close>

text \<open>
  The table of sixteen entries is a map from addresses to hardware addresses of at most sixteen elements:
  a lookup reads the map, an insertion updates it, and only when the table is full it drops one other
  address. Frames keep the table well formed.
\<close>

definition wpis_arp_ok :: "ArpWpis \<Rightarrow> bool" where
  "wpis_arp_ok w \<longleftrightarrow> length (aw_ip w) = 4 \<and> length (aw_mac w) = 6 \<and> mac_jest_poprawny (aw_mac w) \<and> arp_ip_poprawne (aw_ip w)"

definition tablica_ok :: "siec \<Rightarrow> bool" where
  "tablica_ok s \<longleftrightarrow> length (si_arp s) = 16 \<and> si_arp_indeks s < 16 \<and>
     (\<forall>i < 16. aw_aktywny (si_arp s ! i) \<longrightarrow> wpis_arp_ok (si_arp s ! i)) \<and>
     (\<forall>i < 16. \<forall>j < 16. aw_aktywny (si_arp s ! i) \<and> aw_aktywny (si_arp s ! j) \<and> aw_ip (si_arp s ! i) = aw_ip (si_arp s ! j) \<longrightarrow> i = j)"

definition mapa_arp :: "siec \<Rightarrow> bajty \<Rightarrow> bajty option" where
  "mapa_arp s ip = map_option (\<lambda>i. aw_mac (si_arp s ! i)) (find (\<lambda>i. aw_aktywny (si_arp s ! i) \<and> aw_ip (si_arp s ! i) = ip) [0 ..< 16])"

lemma ip_rowne_cztery: "length a = 4 \<Longrightarrow> length b = 4 \<Longrightarrow> ip_rowne a b \<longleftrightarrow> a = b"
  by (auto simp: ip_rowne_def numeral_eq_Suc length_Suc_conv)

lemma find_zakres: "(case find P [0 ..< n] of None \<Rightarrow> \<forall>i < n. \<not> P i | Some i \<Rightarrow> i < n \<and> P i)"
  by (auto simp: find_None_iff find_Some_iff split: option.split)

lemma mapa_arp_Some:
  assumes "tablica_ok s"
  shows "mapa_arp s ip = Some m \<longleftrightarrow> (\<exists>i < 16. aw_aktywny (si_arp s ! i) \<and> aw_ip (si_arp s ! i) = ip \<and> aw_mac (si_arp s ! i) = m)"
  using find_zakres [where P = "\<lambda>i. aw_aktywny (si_arp s ! i) \<and> aw_ip (si_arp s ! i) = ip" and n = 16] assms
  unfolding mapa_arp_def tablica_ok_def by (fastforce split: option.splits)

lemma mapa_arp_None:
  assumes "tablica_ok s"
  shows "mapa_arp s ip = None \<longleftrightarrow> (\<forall>i < 16. aw_aktywny (si_arp s ! i) \<longrightarrow> aw_ip (si_arp s ! i) \<noteq> ip)"
  using mapa_arp_Some [OF assms, of ip] by (metis not_Some_eq)

subsection \<open>Lookup\<close>

lemma szukaj_arp_od_wynik:
  assumes "tablica_ok s" "\<forall>i \<in> set is. i < 16" "length ip = 4"
  shows "szukaj_arp_od is ip s = (case find (\<lambda>i. aw_aktywny (si_arp s ! i) \<and> aw_ip (si_arp s ! i) = ip) is of None \<Rightarrow> (None, s)
    | Some i \<Rightarrow> (Some (aw_mac (si_arp s ! i)), s\<lparr>si_arp := (si_arp s)[i := (si_arp s ! i)\<lparr>aw_generacja := si_arp_generacja s\<rparr>],
        si_arp_generacja := si_arp_generacja s + 1\<rparr>))"
  using assms(2)
proof (induction "is")
  case (Cons i "is")
  have w: "wpis_arp_ok (si_arp s ! i)" if "aw_aktywny (si_arp s ! i)" using that assms(1) Cons.prems by (simp add: tablica_ok_def)
  have "aw_aktywny (si_arp s ! i) \<Longrightarrow> ip_rowne (aw_ip (si_arp s ! i)) ip \<longleftrightarrow> aw_ip (si_arp s ! i) = ip"
    using w ip_rowne_cztery [OF _ assms(3)] by (simp add: wpis_arp_ok_def)
  then show ?case using Cons w by (auto simp: Let_def wpis_arp_ok_def)
qed simp

lemma tablica_generacja:
  fixes g h :: u32
  assumes "tablica_ok s" "i < 16"
  defines "s' \<equiv> s\<lparr>si_arp := (si_arp s)[i := (si_arp s ! i)\<lparr>aw_generacja := g\<rparr>], si_arp_generacja := h\<rparr>"
  shows "tablica_ok s'" "mapa_arp s' = mapa_arp s"
proof -
  have l: "length (si_arp s) = 16" using assms(1) by (simp add: tablica_ok_def)
  have e: "aw_aktywny (si_arp s' ! j) = aw_aktywny (si_arp s ! j)" "aw_ip (si_arp s' ! j) = aw_ip (si_arp s ! j)"
      "aw_mac (si_arp s' ! j) = aw_mac (si_arp s ! j)" "wpis_arp_ok (si_arp s' ! j) = wpis_arp_ok (si_arp s ! j)" if "j < 16" for j
    using that l by (cases "i = j"; simp add: s'_def wpis_arp_ok_def)+
  have "length (si_arp s') = 16" "si_arp_indeks s' = si_arp_indeks s" using l by (simp_all add: s'_def)
  then show t: "tablica_ok s'" using assms(1) e unfolding tablica_ok_def by auto
  show "mapa_arp s' = mapa_arp s"
  proof (rule ext, rule option.expand)
    fix ip
    show "(mapa_arp s' ip = None) = (mapa_arp s ip = None)" using e by (auto simp: mapa_arp_None [OF t] mapa_arp_None [OF assms(1)])
    show "the (mapa_arp s' ip) = the (mapa_arp s ip)" if "mapa_arp s' ip \<noteq> None" "mapa_arp s ip \<noteq> None"
      using that e by (metis mapa_arp_Some [OF t] mapa_arp_Some [OF assms(1)] not_None_eq option.sel)
  qed
qed

lemma szukaj_w_mapie:
  assumes "tablica_ok s" "length ip = 4"
  shows "fst (szukaj_w_cache_arp ip s) = mapa_arp s ip" "tablica_ok (snd (szukaj_w_cache_arp ip s))" "mapa_arp (snd (szukaj_w_cache_arp ip s)) = mapa_arp s"
proof -
  let ?P = "\<lambda>i. aw_aktywny (si_arp s ! i) \<and> aw_ip (si_arp s ! i) = ip"
  note w = szukaj_arp_od_wynik [OF assms(1) _ assms(2), of "[0 ..< 16]"]
  show "fst (szukaj_w_cache_arp ip s) = mapa_arp s ip"
    unfolding szukaj_w_cache_arp_def mapa_arp_def using w by (simp split: option.split)
  have "tablica_ok (snd (szukaj_w_cache_arp ip s)) \<and> mapa_arp (snd (szukaj_w_cache_arp ip s)) = mapa_arp s"
    unfolding szukaj_w_cache_arp_def using w find_zakres [where P = ?P and n = 16] assms(1) tablica_generacja [OF assms(1)] by (simp split: option.splits)
  then show "tablica_ok (snd (szukaj_w_cache_arp ip s))" "mapa_arp (snd (szukaj_w_cache_arp ip s)) = mapa_arp s" by blast+
qed

subsection \<open>Insertion\<close>

text \<open>An entry written where no other entry has its address.\<close>

lemma wpis_w_mapie:
  assumes t: "tablica_ok s" and i: "i < 16" and w: "aw_aktywny w" "wpis_arp_ok w"
    and n: "\<And>j. j < 16 \<Longrightarrow> j \<noteq> i \<Longrightarrow> aw_aktywny (si_arp s ! j) \<Longrightarrow> aw_ip (si_arp s ! j) \<noteq> aw_ip w"
    and s': "si_arp s' = (si_arp s)[i := w]" "si_arp_indeks s' < 16"
  shows "tablica_ok s'"
    "mapa_arp s' ip = (if ip = aw_ip w then Some (aw_mac w) else if aw_aktywny (si_arp s ! i) \<and> aw_ip (si_arp s ! i) = ip then None else mapa_arp s ip)"
proof -
  have l: "length (si_arp s) = 16" using t by (simp add: tablica_ok_def)
  have e: "si_arp s' ! j = (if j = i then w else si_arp s ! j)" if "j < 16" for j using that l s'(1) by simp
  have lt: "length (si_arp s') = 16" using l s'(1) by simp
  have ok: "wpis_arp_ok (si_arp s' ! j)" if "j < 16" "aw_aktywny (si_arp s' ! j)" for j
    using that t w(2) e [OF that(1)] by (cases "j = i") (simp_all add: tablica_ok_def)
  have un: "j = k" if "j < 16" "k < 16" "aw_aktywny (si_arp s' ! j)" "aw_aktywny (si_arp s' ! k)" "aw_ip (si_arp s' ! j) = aw_ip (si_arp s' ! k)" for j k
    using that t n [of j] n [of k] e [OF that(1)] e [OF that(2)] by (cases "j = i"; cases "k = i") (auto simp: tablica_ok_def)
  show t': "tablica_ok s'" unfolding tablica_ok_def using lt s'(2) ok un by blast
  have u: "aw_aktywny (si_arp s ! j) \<Longrightarrow> aw_aktywny (si_arp s ! k) \<Longrightarrow> aw_ip (si_arp s ! j) = aw_ip (si_arp s ! k) \<Longrightarrow> j < 16 \<Longrightarrow> k < 16 \<Longrightarrow> j = k" for j k
    using t by (simp add: tablica_ok_def)
  consider "ip = aw_ip w" | "ip \<noteq> aw_ip w" "aw_aktywny (si_arp s ! i) \<and> aw_ip (si_arp s ! i) = ip"
    | "ip \<noteq> aw_ip w" "\<not> (aw_aktywny (si_arp s ! i) \<and> aw_ip (si_arp s ! i) = ip)" by blast
  then show "mapa_arp s' ip = (if ip = aw_ip w then Some (aw_mac w) else if aw_aktywny (si_arp s ! i) \<and> aw_ip (si_arp s ! i) = ip then None else mapa_arp s ip)"
  proof cases
    case 1
    have "mapa_arp s' ip = Some (aw_mac w)" unfolding mapa_arp_Some [OF t'] using e [OF i] i w 1 by auto
    then show ?thesis using 1 by simp
  next
    case 2
    have "mapa_arp s' ip = None" unfolding mapa_arp_None [OF t'] using e u [OF _ _ _ _ i] 2 by auto
    then show ?thesis using 2 by simp
  next
    case 3
    have "mapa_arp s' ip = Some m \<longleftrightarrow> mapa_arp s ip = Some m" for m
      unfolding mapa_arp_Some [OF t'] mapa_arp_Some [OF t] using e 3 by (metis)
    then show ?thesis using 3 by (metis not_Some_eq)
  qed
qed

text \<open>A full table has sixteen addresses.\<close>

lemma pelna_tablica:
  assumes "tablica_ok s" "\<forall>i < 16. aw_aktywny (si_arp s ! i)"
  shows "card (dom (mapa_arp s)) = 16"
proof -
  have "dom (mapa_arp s) = (\<lambda>i. aw_ip (si_arp s ! i)) ` {..<16}"
    using assms by (auto simp: dom_def mapa_arp_Some)
  moreover have "inj_on (\<lambda>i. aw_ip (si_arp s ! i)) {..<16}" using assms by (auto simp: inj_on_def tablica_ok_def)
  ultimately show ?thesis by (simp add: card_image)
qed

lemma dodaj_do_mapy:
  assumes t: "tablica_ok s" and l: "length ip = 4" "length mac = 6" and v: "arp_ip_poprawne ip" "mac_jest_poprawny mac"
  defines "s' \<equiv> dodaj_do_cache_arp ip mac s"
  shows "tablica_ok s' \<and> mapa_arp s' ip = Some mac \<and> (\<forall>x. x \<noteq> ip \<longrightarrow> mapa_arp s' x \<in> {mapa_arp s x, None}) \<and>
    (card (dom (mapa_arp s)) < 16 \<or> ip \<in> dom (mapa_arp s) \<longrightarrow> mapa_arp s' = (mapa_arp s)(ip \<mapsto> mac))"
proof -
  let ?P = "\<lambda>i. aw_aktywny (si_arp s ! i) \<and> ip_rowne (aw_ip (si_arp s ! i)) ip"
  let ?w = "\<lparr>aw_ip = ip, aw_mac = mac, aw_aktywny = True, aw_generacja = si_arp_generacja s\<rparr>"
  have r: "ip_rowne (aw_ip (si_arp s ! i)) ip \<longleftrightarrow> aw_ip (si_arp s ! i) = ip" if "i < 16" "aw_aktywny (si_arp s ! i)" for i
    using t that ip_rowne_cztery [OF _ l(1)] by (simp add: tablica_ok_def wpis_arp_ok_def)
  have wok: "wpis_arp_ok ?w" using l v by (simp add: wpis_arp_ok_def)
  have ix: "si_arp_indeks s < 16" using t by (simp add: tablica_ok_def)
  consider (znany) i where "find ?P [0 ..< 16] = Some i" | (wolny) i where "find ?P [0 ..< 16] = None" "find (\<lambda>i. \<not> aw_aktywny (si_arp s ! i)) [0 ..< 16] = Some i"
    | (pelna) "find ?P [0 ..< 16] = None" "find (\<lambda>i. \<not> aw_aktywny (si_arp s ! i)) [0 ..< 16] = None" by fastforce
  then show ?thesis
  proof cases
    case znany
    then have i: "i < 16" "aw_aktywny (si_arp s ! i)" "aw_ip (si_arp s ! i) = ip" using find_zakres [where P = ?P and n = 16] r by auto
    let ?v = "(si_arp s ! i)\<lparr>aw_mac := mac, aw_generacja := si_arp_generacja s\<rparr>"
    have s: "si_arp s' = (si_arp s)[i := ?v]" "si_arp_indeks s' < 16" using v znany ix by (simp_all add: s'_def dodaj_do_cache_arp_def)
    have n: "aw_ip (si_arp s ! j) \<noteq> aw_ip ?v" if "j < 16" "j \<noteq> i" "aw_aktywny (si_arp s ! j)" for j using t that i by (auto simp: tablica_ok_def)
    have vv: "aw_aktywny ?v" "wpis_arp_ok ?v" using i t l v by (simp_all add: wpis_arp_ok_def)
    note w = wpis_w_mapie [OF t i(1) vv n s]
    have "mapa_arp s' = (mapa_arp s)(ip \<mapsto> mac)" using w(2) i by (auto simp: fun_eq_iff)
    then show ?thesis using w(1) by simp
  next
    case wolny
    have i: "i < 16" "\<not> aw_aktywny (si_arp s ! i)" using wolny find_zakres [where P = "\<lambda>i. \<not> aw_aktywny (si_arp s ! i)" and n = 16] by auto
    have s: "si_arp s' = (si_arp s)[i := ?w]" "si_arp_indeks s' < 16" using v wolny ix by (simp_all add: s'_def dodaj_do_cache_arp_def wpisz_arp_def)
    have n: "aw_ip (si_arp s ! j) \<noteq> aw_ip ?w" if "j < 16" "j \<noteq> i" "aw_aktywny (si_arp s ! j)" for j
      using wolny(1) find_zakres [where P = ?P and n = 16] r that by auto
    note w = wpis_w_mapie [OF t i(1) _ wok n s]
    have "mapa_arp s' = (mapa_arp s)(ip \<mapsto> mac)" using w(2) i by (auto simp: fun_eq_iff)
    then show ?thesis using w(1) by simp
  next
    case pelna
    have a: "\<forall>i < 16. aw_aktywny (si_arp s ! i)" using pelna(2) find_zakres [where P = "\<lambda>i. \<not> aw_aktywny (si_arp s ! i)" and n = 16] by auto
    have s: "si_arp s' = (si_arp s)[si_arp_indeks s := ?w]" "si_arp_indeks s' < 16"
      using v pelna by (simp_all add: s'_def dodaj_do_cache_arp_def wpisz_arp_def)
    have n: "aw_ip (si_arp s ! j) \<noteq> aw_ip ?w" if "j < 16" "aw_aktywny (si_arp s ! j)" for j
      using pelna(1) find_zakres [where P = ?P and n = 16] r that by auto
    note w = wpis_w_mapie [OF t ix _ wok n s]
    have "mapa_arp s ip = None" unfolding mapa_arp_None [OF t] using n by auto
    then show ?thesis using w pelna_tablica [OF t a] by auto
  qed
qed

text \<open>Nothing else changes.\<close>

lemma zmiana_tablicy:
  "\<exists>a g i. s = s\<lparr>si_arp := a, si_arp_generacja := g, si_arp_indeks := i\<rparr>"
  "\<exists>a g i. s\<lparr>si_arp := x, si_arp_generacja := y\<rparr> = s\<lparr>si_arp := a, si_arp_generacja := g, si_arp_indeks := i\<rparr>"
  "\<exists>a g i. s\<lparr>si_arp_indeks := z, si_arp := x, si_arp_generacja := y\<rparr> = s\<lparr>si_arp := a, si_arp_generacja := g, si_arp_indeks := i\<rparr>"
proof -
  show "\<exists>a g i. s = s\<lparr>si_arp := a, si_arp_generacja := g, si_arp_indeks := i\<rparr>"
    by (rule exI [of _ "si_arp s"], rule exI [of _ "si_arp_generacja s"], rule exI [of _ "si_arp_indeks s"]) simp
  show "\<exists>a g i. s\<lparr>si_arp := x, si_arp_generacja := y\<rparr> = s\<lparr>si_arp := a, si_arp_generacja := g, si_arp_indeks := i\<rparr>"
    by (rule exI [of _ x], rule exI [of _ y], rule exI [of _ "si_arp_indeks s"]) simp
  show "\<exists>a g i. s\<lparr>si_arp_indeks := z, si_arp := x, si_arp_generacja := y\<rparr> = s\<lparr>si_arp := a, si_arp_generacja := g, si_arp_indeks := i\<rparr>"
    by (rule exI [of _ x], rule exI [of _ y], rule exI [of _ z]) simp
qed

lemma dodaj_zmienia: "\<exists>a g i. dodaj_do_cache_arp ip mac s = s\<lparr>si_arp := a, si_arp_generacja := g, si_arp_indeks := i\<rparr>"
  unfolding dodaj_do_cache_arp_def wpisz_arp_def
  by (cases "\<not> arp_ip_poprawne ip \<or> \<not> mac_jest_poprawny mac"; simp only: if_True if_False split: option.split)
    (intro conjI allI impI zmiana_tablicy)+

lemma szukaj_zmienia: "\<exists>a g. snd (szukaj_w_cache_arp ip s) = s\<lparr>si_arp := a, si_arp_generacja := g\<rparr>"
proof -
  have "\<exists>a g. snd (szukaj_arp_od is ip s) = s\<lparr>si_arp := a, si_arp_generacja := g\<rparr>" for "is"
  proof (induction "is" arbitrary: s)
    case Nil
    show ?case by (rule exI [of _ "si_arp s"], rule exI [of _ "si_arp_generacja s"]) simp
  next
    case (Cons i "is")
    have "\<exists>a g. snd (szukaj_arp_od is ip (s\<lparr>si_arp := x\<rparr>)) = s\<lparr>si_arp := a, si_arp_generacja := g\<rparr>" for x
      using Cons.IH [of "s\<lparr>si_arp := x\<rparr>"] by simp
    then show ?case using Cons.IH [of s] unfolding szukaj_arp_od.simps Let_def by (auto split: if_split)
  qed
  then show ?thesis by (simp add: szukaj_w_cache_arp_def)
qed

subsection \<open>Frames\<close>

lemma tablica_pola: "si_arp s' = si_arp s \<Longrightarrow> si_arp_indeks s' = si_arp_indeks s \<Longrightarrow> tablica_ok s' = tablica_ok s \<and> mapa_arp s' = mapa_arp s"
  by (simp add: tablica_ok_def mapa_arp_def fun_eq_iff)

lemma tablica_czysta: "tablica_ok (wyczysc_cache_arp s)" "mapa_arp (wyczysc_cache_arp s) = Map.empty"
proof -
  have a: "\<not> aw_aktywny (si_arp (wyczysc_cache_arp s) ! i)" if "i < 16" for i using that by (simp add: wyczysc_cache_arp_def pusty_wpis_arp_def)
  show t: "tablica_ok (wyczysc_cache_arp s)" using a by (simp add: tablica_ok_def) (simp add: wyczysc_cache_arp_def)
  show "mapa_arp (wyczysc_cache_arp s) = Map.empty" using a by (auto simp: fun_eq_iff mapa_arp_None [OF t])
qed

text \<open>What only the ARP handler, and what no handler, changes.\<close>

definition niezmienne :: "siec \<Rightarrow> ArpWpis list \<times> nat \<times> nat \<times> bool" where
  "niezmienne s = (si_arp s, si_arp_indeks s, si_n_czas s, si_gotowa s)"

lemma niezmienne_wyslij [simp]: "niezmienne (snd (wyslij_ethernet K r s)) = niezmienne s"
  by (simp add: wyslij_ethernet_def e1000_wyslij_pakiet_def niezmienne_def)

lemma niezmienne_wypelnij: "wypelnij_ipv4 d p z c s = (x, s1) \<Longrightarrow> niezmienne s1 = niezmienne s"
  by (auto simp: wypelnij_ipv4_def przydziel_ipv4_id_def Let_def niezmienne_def split: if_splits)

lemma niezmienne_tcp [simp]: "niezmienne (snd (tcp_wyslij_internal K fl d s)) = niezmienne s"
  by (simp add: tcp_wyslij_internal_def Let_def niezmienne_wypelnij split: prod.split option.split)

lemma niezmienne_pola [simp]: "niezmienne (s\<lparr>si_rx_udp := a\<rparr>) = niezmienne s" "niezmienne (s\<lparr>si_rx_dns := a\<rparr>) = niezmienne s"
    "niezmienne (s\<lparr>si_rx_icmp := a\<rparr>) = niezmienne s" "niezmienne (s\<lparr>si_rx_ipv4 := a\<rparr>) = niezmienne s" "niezmienne (s\<lparr>si_n_rx := m\<rparr>) = niezmienne s"
    "niezmienne (s\<lparr>si_pong := p\<rparr>) = niezmienne s" "niezmienne (s\<lparr>si_dns_wynik := ip\<rparr>) = niezmienne s" "niezmienne (s\<lparr>si_dns_odebrano := p\<rparr>) = niezmienne s"
    "niezmienne (s\<lparr>si_dhcp_nak := p\<rparr>) = niezmienne s" "niezmienne (s\<lparr>si_ack := u\<rparr>) = niezmienne s" "niezmienne (s\<lparr>si_stan := st\<rparr>) = niezmienne s"
    "niezmienne (s\<lparr>si_rst := p\<rparr>) = niezmienne s" "niezmienne (s\<lparr>si_seq := u\<rparr>) = niezmienne s" "niezmienne (s\<lparr>si_dane_odebrane := p\<rparr>) = niezmienne s"
    "niezmienne (s\<lparr>si_bufor := b\<rparr>) = niezmienne s" "niezmienne (s\<lparr>si_koniec := u\<rparr>) = niezmienne s" "niezmienne (s\<lparr>si_odebrane := b\<rparr>) = niezmienne s"
    "niezmienne (s\<lparr>si_zapisano := u\<rparr>) = niezmienne s" "niezmienne (s\<lparr>si_przepelnienie := p\<rparr>) = niezmienne s"
    "niezmienne (przyjmij_offer y z q s) = niezmienne s" "niezmienne (przyjmij_ack y q s) = niezmienne s"
  by (simp_all add: niezmienne_def przyjmij_offer_def przyjmij_ack_def Let_def)

lemma niezmienne_szukaj_odpowiedzi [simp]: "niezmienne (szukaj_odpowiedzi f p l k q s) = niezmienne s"
proof (induction f p l k q s rule: szukaj_odpowiedzi.induct)
  case (2 f pakiet dlugosc n pos s)
  show ?case
  proof (cases "dns_pomin_nazwe f pakiet dlugosc pos")
    case (Some p)
    then show ?thesis using 2 [OF Some _ refl refl refl refl] by (simp add: Let_def)
  qed simp
qed simp

lemma niezmienne_dhcp [simp]: "niezmienne (obsluz_dhcp K f w u p l s) = niezmienne s"
  unfolding obsluz_dhcp_def Let_def by (simp split: option.split)

lemma niezmienne_udp [simp]: "niezmienne (obsluz_udp K f w s) = niezmienne s"
  by (simp add: obsluz_udp_def obsluz_dns_def Let_def split: option.split prod.split)

lemma niezmienne_icmp [simp]: "niezmienne (obsluz_icmp K f w s) = niezmienne s"
  by (simp add: obsluz_icmp_def Let_def niezmienne_wypelnij split: option.split prod.split)

lemma niezmienne_miejsce [simp]: "niezmienne (snd (tcp_gniazdo_ma_miejsce n s)) = niezmienne s"
  by (simp add: tcp_gniazdo_ma_miejsce_def tcp_gniazdo_kompaktuj_def tcp_gniazdo_dostepne_def tcp_wyczysc_bufor_gniazda_def Let_def niezmienne_def)

lemma niezmienne_payload [simp]: "niezmienne (tcp_przyjmij_payload K d q s) = niezmienne s"
proof -
  obtain ok s1 where m: "tcp_gniazdo_ma_miejsce (of_nat (length d)) s = (ok, s1)" by fastforce
  have "niezmienne s1 = niezmienne s" using niezmienne_miejsce [of "of_nat (length d)" s] unfolding m by simp
  then show ?thesis unfolding tcp_przyjmij_payload_def Let_def m prod.case
    by (intro if_split [where P = "\<lambda>x. niezmienne x = niezmienne s", THEN iffD2] conjI impI) simp_all
qed

lemma niezmienne_segment [simp]: "niezmienne (przyjmij_segment K g s) = niezmienne s"
proof -
  have "niezmienne (przyjmij_dane K g s) = niezmienne s" unfolding przyjmij_dane_def Let_def by simp
  then show ?thesis unfolding przyjmij_segment_def by simp
qed

lemma niezmienne_ipv4: "niezmienne (obsluz_ipv4 K f n s) = niezmienne s"
  unfolding obsluz_ipv4_def Let_def obsluz_tcp_segment by (simp split: option.split)

text \<open>The ARP handler.\<close>

lemma arp_wpisuje:
  "si_n_czas (obsluz_arp K f n s) = si_n_czas s \<and> si_gotowa (obsluz_arp K f n s) = si_gotowa s \<and>
   (let s' = obsluz_arp K f n s in si_arp s' = si_arp s \<and> si_arp_indeks s' = si_arp_indeks s \<or>
      mac_rowne (eth_zrodlo_mac f 0) (arp_nadawca_mac f ETH_LEN) \<and>
      si_arp s' = si_arp (dodaj_do_cache_arp (arp_nadawca_ip f ETH_LEN) (arp_nadawca_mac f ETH_LEN) (s\<lparr>si_rx_arp := si_rx_arp s + 1\<rparr>)) \<and>
      si_arp_indeks s' = si_arp_indeks (dodaj_do_cache_arp (arp_nadawca_ip f ETH_LEN) (arp_nadawca_mac f ETH_LEN) (s\<lparr>si_rx_arp := si_rx_arp s + 1\<rparr>)))"
proof -
  have z: "niezmienne (zbuduj_i_wyslij_arp K op a b c d s') = niezmienne s'" for op a b c d s' by (simp add: zbuduj_i_wyslij_arp_def)
  have d: "si_n_czas (dodaj_do_cache_arp ip mac s') = si_n_czas s'" "si_gotowa (dodaj_do_cache_arp ip mac s') = si_gotowa s'" for ip mac s'
    by (simp_all add: dodaj_do_cache_arp_def wpisz_arp_def split: option.split)
  show ?thesis unfolding obsluz_arp_def Let_def using z by (auto simp: d niezmienne_def)
qed

lemma pakiet_tablica:
  "si_n_czas (obsluz_pakiet_sieciowy K f n s) = si_n_czas s \<and> si_gotowa (obsluz_pakiet_sieciowy K f n s) = si_gotowa s \<and>
   (let s' = obsluz_pakiet_sieciowy K f n s in si_arp s' = si_arp s \<and> si_arp_indeks s' = si_arp_indeks s \<or>
      siec_na_host16 (eth_typ f 0) = ETHERTYPE_ARP \<and> mac_rowne (eth_zrodlo_mac f 0) (arp_nadawca_mac f ETH_LEN) \<and>
      si_arp s' = si_arp (dodaj_do_cache_arp (arp_nadawca_ip f ETH_LEN) (arp_nadawca_mac f ETH_LEN) (s\<lparr>si_rx_arp := si_rx_arp s + 1\<rparr>)) \<and>
      si_arp_indeks s' = si_arp_indeks (dodaj_do_cache_arp (arp_nadawca_ip f ETH_LEN) (arp_nadawca_mac f ETH_LEN) (s\<lparr>si_rx_arp := si_rx_arp s + 1\<rparr>)))"
  using arp_wpisuje [of K f n s] niezmienne_ipv4 [of K f n s] by (auto simp: obsluz_pakiet_sieciowy_def Let_def niezmienne_def)

lemma dodaj_w_mapie_kazdy:
  assumes "tablica_ok s" "length ip = 4" "length mac = 6"
  shows "tablica_ok (dodaj_do_cache_arp ip mac s)"
    "mapa_arp (dodaj_do_cache_arp ip mac s) x = Some m \<Longrightarrow> mapa_arp s x = Some m \<or> x = ip \<and> m = mac"
proof -
  have "tablica_ok (dodaj_do_cache_arp ip mac s) \<and> (mapa_arp (dodaj_do_cache_arp ip mac s) x = Some m \<longrightarrow> mapa_arp s x = Some m \<or> x = ip \<and> m = mac)"
  proof (cases "arp_ip_poprawne ip \<and> mac_jest_poprawny mac")
    case True
    then show ?thesis using dodaj_do_mapy [OF assms] by (cases "x = ip") auto
  next
    case False
    then have "dodaj_do_cache_arp ip mac s = s" by (auto simp: dodaj_do_cache_arp_def)
    then show ?thesis using assms(1) by simp
  qed
  then show "tablica_ok (dodaj_do_cache_arp ip mac s)"
    "mapa_arp (dodaj_do_cache_arp ip mac s) x = Some m \<Longrightarrow> mapa_arp s x = Some m \<or> x = ip \<and> m = mac" by blast+
qed

lemma ramka_w_mapie:
  fixes K :: karta and f :: pam and n :: nat
  assumes t: "tablica_ok s"
  defines "s' \<equiv> obsluz_pakiet_sieciowy K f n s"
  shows "tablica_ok s' \<and> (\<forall>x m. mapa_arp s' x = Some m \<longrightarrow> mapa_arp s x = Some m \<or> siec_na_host16 (eth_typ f 0) = ETHERTYPE_ARP \<and>
    x = arp_nadawca_ip f ETH_LEN \<and> m = arp_nadawca_mac f ETH_LEN \<and> mac_rowne (eth_zrodlo_mac f 0) m)"
proof -
  let ?s = "s\<lparr>si_rx_arp := si_rx_arp s + 1\<rparr>" and ?ip = "arp_nadawca_ip f ETH_LEN" and ?mac = "arp_nadawca_mac f ETH_LEN"
  let ?d = "dodaj_do_cache_arp ?ip ?mac ?s"
  have l: "length ?ip = 4" "length ?mac = 6" by (simp_all add: pola_arp)
  have s: "tablica_ok ?s \<and> mapa_arp ?s = mapa_arp s" using tablica_pola [of ?s s] t by simp
  note d = dodaj_w_mapie_kazdy [OF conjunct1 [OF s] l]
  consider "si_arp s' = si_arp s" "si_arp_indeks s' = si_arp_indeks s"
    | "siec_na_host16 (eth_typ f 0) = ETHERTYPE_ARP" "mac_rowne (eth_zrodlo_mac f 0) ?mac" "si_arp s' = si_arp ?d" "si_arp_indeks s' = si_arp_indeks ?d"
    using pakiet_tablica [of K f n s] unfolding s'_def Let_def by blast
  then show ?thesis
  proof cases
    case 1
    then show ?thesis using tablica_pola [of s' s] t by simp
  next
    case 2
    have "tablica_ok s' = tablica_ok ?d \<and> mapa_arp s' = mapa_arp ?d" by (rule tablica_pola [OF 2(3,4)])
    then show ?thesis using d 2(1,2) s by metis
  qed
qed

end
