(* ===== verification/Siec_Czekanie.thy ===== *)
theory Siec_Czekanie
  imports Siec_Tablica
begin

section \<open>The network stack: the calls that wait end\<close>

text \<open>
  No handler reads the clock, so every turn of a waiting loop reads it once; on a clock that reaches every
  value again and again the loop passes its deadline, and with it every call of the stack returns.
\<close>

definition zegar_idzie :: "karta \<Rightarrow> bool" where
  "zegar_idzie K \<longleftrightarrow> (\<forall>d n. \<exists>i \<ge> n. d \<le> ka_czas K i)"

lemma odbior_czas: "si_n_czas (e1000_obsluz_odbior K s) = si_n_czas s"
proof -
  have f: "si_n_czas (fold (\<lambda>r s. obsluz_pakiet_sieciowy K (pam_ramki r) (length r) s) rs s') = si_n_czas s'" for rs s'
    by (induction rs arbitrary: s') (simp_all add: pakiet_tablica [THEN conjunct1])
  show ?thesis unfolding e1000_obsluz_odbior_def f by simp
qed

lemma petla_konczy:
  assumes k: "deadline \<le> ka_czas K i" and w: "\<And>x. si_n_czas (snd (sprawdz x)) = si_n_czas x"
  shows "si_n_czas s \<le> i \<Longrightarrow> petla_odbioru K deadline sprawdz s \<noteq> None"
proof (induction "i - si_n_czas s" arbitrary: s)
  case 0
  then have "si_n_czas s = i" by simp
  then have "\<not> ka_czas K (si_n_czas s) < deadline" using k by simp
  then show ?case by (subst petla_odbioru.simps) (simp add: czas_monotoniczny_ms_def)
next
  case (Suc m)
  define s1 where "s1 = s\<lparr>si_n_czas := si_n_czas s + 1\<rparr>"
  obtain v s2 where s2: "sprawdz (e1000_obsluz_odbior K s1) = (v, s2)" by fastforce
  have n: "si_n_czas s2 = si_n_czas s + 1" using w [of "e1000_obsluz_odbior K s1"] s2 by (simp add: odbior_czas s1_def)
  have "petla_odbioru K deadline sprawdz s2 \<noteq> None" by (rule Suc.hyps(1)) (use Suc.hyps(2) n in simp_all)
  then show ?case
    by (subst petla_odbioru.simps) (simp add: czas_monotoniczny_ms_def s1_def [symmetric, simplified] s2)
qed

text \<open>The shape of a call: what returns when its parts do.\<close>

lemma konczy_if: "(b \<Longrightarrow> x \<noteq> None) \<Longrightarrow> (\<not> b \<Longrightarrow> y \<noteq> None) \<Longrightarrow> (if b then x else y) \<noteq> None"
  by simp

lemma konczy_Some: "Some x \<noteq> None"
  by simp

lemma konczy_option: "(z = None \<Longrightarrow> x \<noteq> None) \<Longrightarrow> (\<And>r. f r \<noteq> None) \<Longrightarrow> (case z of None \<Rightarrow> x | Some r \<Rightarrow> f r) \<noteq> None"
  by (cases z) simp_all

lemma konczy_para: "(\<And>a b. f a b \<noteq> None) \<Longrightarrow> (case p of (a, b) \<Rightarrow> f a b) \<noteq> None"
  by (cases p) simp

lemma konczy_bool: "x \<noteq> None \<Longrightarrow> y \<noteq> None \<Longrightarrow> (case b of True \<Rightarrow> x | False \<Rightarrow> y) \<noteq> None"
  by (cases b) simp_all

lemmas konczy = konczy_if konczy_Some konczy_option konczy_para konczy_bool

lemma petla_zegara:
  assumes "zegar_idzie K" "\<And>x. si_n_czas (snd (sprawdz x)) = si_n_czas x"
  shows "petla_odbioru K deadline sprawdz s \<noteq> None"
proof -
  obtain i where "si_n_czas s \<le> i" "deadline \<le> ka_czas K i" using assms(1) by (auto simp: zegar_idzie_def)
  then show ?thesis using petla_konczy assms(2) by blast
qed

lemma szukaj_czas: "si_n_czas (snd (szukaj_w_cache_arp ip s)) = si_n_czas s"
proof -
  have "si_n_czas (snd (szukaj_arp_od is ip s)) = si_n_czas s" for "is"
    by (induction "is" arbitrary: s) (auto simp: Let_def)
  then show ?thesis by (simp add: szukaj_w_cache_arp_def)
qed

lemma rozwiaz_konczy: "zegar_idzie K \<Longrightarrow> rozwiaz_adres_mac K ip s \<noteq> None"
  unfolding rozwiaz_adres_mac_def Let_def by (intro konczy) (simp_all add: petla_zegara szukaj_czas del: not_None_eq)

lemma petla_prosta: "zegar_idzie K \<Longrightarrow> petla_odbioru K deadline (\<lambda>s. (g s, s)) s \<noteq> None"
  by (rule petla_zegara) simp_all

subsection \<open>The calls\<close>

lemma ping_konczy: "zegar_idzie K \<Longrightarrow> bws_siec_ping K a b c d s \<noteq> None"
  unfolding bws_siec_ping_def Let_def by (intro konczy) (simp_all add: rozwiaz_konczy petla_prosta del: not_None_eq)

lemma dns_konczy: "zegar_idzie K \<Longrightarrow> kernel_siec_dns K domena s \<noteq> None"
proof -
  assume z: "zegar_idzie K"
  have "wyslij_zapytanie_dns K domena i p s' \<noteq> None" for i p s'
    unfolding wyslij_zapytanie_dns_def Let_def by (intro konczy) (simp_all add: rozwiaz_konczy [OF z] del: not_None_eq)
  then show ?thesis unfolding kernel_siec_dns_def Let_def by (intro konczy) (simp_all add: petla_prosta [OF z] del: not_None_eq)
qed

lemma dhcp_konczy: "zegar_idzie K \<Longrightarrow> uruchom_klienta_dhcp K s \<noteq> None"
  unfolding uruchom_klienta_dhcp_def Let_def by (intro konczy) (simp_all add: petla_prosta del: not_None_eq)

lemma polaczenie_konczy:
  assumes "zegar_idzie K"
  shows "tcp_przygotuj_polaczenie K ip port t s \<noteq> None" "tcp_czekaj_na_polaczenie K s \<noteq> None"
proof -
  show "tcp_przygotuj_polaczenie K ip port t s \<noteq> None"
    unfolding tcp_przygotuj_polaczenie_def Let_def by (intro konczy) (simp_all add: rozwiaz_konczy [OF assms] del: not_None_eq)
  show "tcp_czekaj_na_polaczenie K s \<noteq> None"
    unfolding tcp_czekaj_na_polaczenie_def by (intro konczy) (simp_all add: petla_prosta [OF assms] del: not_None_eq)
qed

lemma polacz_konczy: "zegar_idzie K \<Longrightarrow> tcp_gniazdo_polacz K ip port s \<noteq> None"
  unfolding tcp_gniazdo_polacz_def by (intro konczy) (simp_all add: polaczenie_konczy del: not_None_eq)

lemma http_konczy: "zegar_idzie K \<Longrightarrow> kernel_siec_pobierz_http K ip domena sciezka m s \<noteq> None"
  unfolding kernel_siec_pobierz_http_def Let_def by (intro konczy) (simp_all add: polaczenie_konczy petla_prosta del: not_None_eq)

end
