(* ===== verification/Siec_Twierdzenia.thy ===== *)
theory Siec_Twierdzenia
  imports Siec_Nadawca Siec_Ping Siec_Czekanie
begin

section \<open>The network stack: properties\<close>

text \<open>
  What the stack promises: two hosts and the stream between them, the frames it accepts, ping, the ARP
  table, and the loops that wait.
\<close>

subsection \<open>The stream between two hosts\<close>






text \<open>Two hosts with an open session.\<close>

definition karta_hosta :: "u8 \<Rightarrow> (nat \<Rightarrow> bajty list) \<Rightarrow> karta" where
  "karta_hosta k rx = \<lparr>ka_mac = [2, 0, 0, 0, 0, k], ka_tx = (\<lambda>i. True), ka_rx = rx, ka_czas = of_nat\<rparr>"


lemma karta_pola: "ka_tx (karta_hosta k rx) = (\<lambda>i. True)" "ka_rx (karta_hosta k rx) = rx" "ka_czas (karta_hosta k rx) = of_nat"
  by (simp_all add: karta_hosta_def)



subsection \<open>Frames received\<close>

text \<open>
  C21. Whatever the frame, the handler of received frames reads only its bytes: on two memories that agree
  on the \<open>n\<close> bytes of the frame it does the same.
\<close>

theorem pakiet_w_granicach:
  assumes "zgodne_do f g n"
  shows "obsluz_pakiet_sieciowy K f n s = obsluz_pakiet_sieciowy K g n s"
  by (rule obsluz_pakiet_zgodne [OF assms])

lemma pakiet_w_granicach_witness:
  "obsluz_pakiet_sieciowy (karta_hosta 1 (\<lambda>i. [])) (\<lambda>i. 8) 60 siec_poczatkowa =
   obsluz_pakiet_sieciowy (karta_hosta 1 (\<lambda>i. [])) (\<lambda>i. if i < 60 then 8 else 255) 60 siec_poczatkowa"
  by (rule pakiet_w_granicach) (simp add: zgodne_do_def)

subsection \<open>The ARP table\<close>



subsection \<open>Ping\<close>

text \<open>
  C11. When the address resolves, the other host has the pinged address and is configured, and its answer to
  the request comes with the first poll within four seconds, \<open>bws_siec_ping\<close> returns 2: the host answers the
  request, and the answer is the one awaited.
\<close>

theorem ping_z_odpowiedzia:
  assumes "cel = [a, b, c, d]" "\<not> ip_jest_zero cel" "\<not> ip_jest_broadcast cel" "\<not> ip_jest_multicast cel"
    and "si_gotowa s" "rozwiaz_adres_mac KA cel s = Some (Some mac, s1)"
    and "si_gotowa s1" "length (si_nasz_ip s1) = 4" "length mac = 6" "length (ka_mac KA) = 6" "mac_karty_gotowy KA" "ka_tx KA (si_n_tx s1)"
    and "si_gotowa sB" "si_nasz_ip sB = cel" "mac_karty_gotowy KB" "length (ka_mac KB) = 6"
    and "wypelnij_ipv4 60 IP_PROTO_ICMP (si_nasz_ip s1) cel s1 = (Some ip, s2)"
    and "ka_rx KA (si_n_rx s1) = [odpowiedz_hosta KB sB (na_drucie (ramka_pinga KA mac ip))]"
    and "unat (ka_czas KA (si_n_czas s1)) + 4000 < 2 ^ 64" "unat (ka_czas KA (Suc (si_n_czas s1))) < unat (ka_czas KA (si_n_czas s1)) + 4000"
  shows "\<exists>s'. bws_siec_ping KA a b c d s = Some (2, s')"
  by (rule ping_miedzy_hostami [where cel = cel and mac = mac and sB = sB and KB = KB]) (fact assms)+

lemma ping_z_odpowiedzia_witness:
  "let s = dodaj_do_cache_arp [10, 0, 0, 2] [2, 0, 0, 0, 0, 2] (siec_poczatkowa\<lparr>si_gotowa := True, si_nasz_ip := [10, 0, 0, 1]\<rparr>);
       sB = siec_poczatkowa\<lparr>si_gotowa := True, si_nasz_ip := [10, 0, 0, 2]\<rparr>;
       K0 = karta_hosta 1 (\<lambda>i. []);
       ip = the (fst (wypelnij_ipv4 60 IP_PROTO_ICMP [10, 0, 0, 1] [10, 0, 0, 2] s));
       KA = karta_hosta 1 (\<lambda>i. [odpowiedz_hosta (karta_hosta 2 (\<lambda>i. [])) sB (na_drucie (ramka_pinga K0 [2, 0, 0, 0, 0, 2] ip))])
   in \<exists>s'. bws_siec_ping KA 10 0 0 2 s = Some (2, s')"
proof -
  let ?cel = "[10, 0, 0, 2 :: u8]" and ?mac = "[2, 0, 0, 0, 0, 2 :: u8]"
  let ?pocz = "siec_poczatkowa\<lparr>si_gotowa := True, si_nasz_ip := [10, 0, 0, 1]\<rparr>"
  let ?s = "dodaj_do_cache_arp ?cel ?mac ?pocz" and ?KB = "karta_hosta 2 (\<lambda>i. [])" and ?K0 = "karta_hosta 1 (\<lambda>i. [])"
  let ?sB = "siec_poczatkowa\<lparr>si_gotowa := True, si_nasz_ip := [10, 0, 0, 2]\<rparr>"
  let ?ip = "the (fst (wypelnij_ipv4 60 IP_PROTO_ICMP [10, 0, 0, 1] ?cel ?s))"
  let ?KA = "karta_hosta 1 (\<lambda>i. [odpowiedz_hosta ?KB ?sB (na_drucie (ramka_pinga ?K0 ?mac ?ip))])"
  have v: "arp_ip_poprawne ?cel" "mac_jest_poprawny ?mac" "mac_jest_poprawny [2, 0, 0, 0, 0, 1]"
      "\<not> ip_jest_zero ?cel" "\<not> ip_jest_broadcast ?cel" "\<not> ip_jest_multicast ?cel" "\<not> ip_rowne ?cel [10, 0, 0, 1]" by code_simp+
  obtain a1 g1 i1 where s: "?s = ?pocz\<lparr>si_arp := a1, si_arp_generacja := g1, si_arp_indeks := i1\<rparr>" using dodaj_zmienia by blast
  have t0: "tablica_ok ?pocz" by (simp add: siec_poczatkowa_def tablica_ok_def pusty_wpis_arp_def)
  have "fst (szukaj_w_cache_arp ?cel ?s) = Some ?mac" "tablica_ok ?s"
    using dodaj_do_mapy [OF t0 _ _ v(1,2)] szukaj_w_mapie(1) [of ?s ?cel] by simp_all
  moreover obtain a2 g2 where s2: "snd (szukaj_w_cache_arp ?cel ?s) = ?s\<lparr>si_arp := a2, si_arp_generacja := g2\<rparr>" using szukaj_zmienia by blast
  ultimately have z: "szukaj_w_cache_arp ?cel ?s = (Some ?mac, ?s\<lparr>si_arp := a2, si_arp_generacja := g2\<rparr>)" by (metis prod.collapse)
  have p: "ip_w_naszej_podsieci ?cel ?s" "si_gotowa ?s" "si_nasz_ip ?s = [10, 0, 0, 1]" "si_ipv4_id ?s = 1" "si_n_rx ?s = 0" "si_n_czas ?s = 0"
    unfolding s by (simp_all add: siec_poczatkowa_def ip_w_naszej_podsieci_def upt_rec)
  have k: "mac_karty_gotowy ?KA" "mac_karty_gotowy ?KB" "length (ka_mac ?KA) = 6" "length (ka_mac ?KB) = 6" using v by (simp_all add: karta_hosta_def mac_karty_gotowy_def)
  have r: "rozwiaz_adres_mac ?KA ?cel ?s = Some (Some ?mac, ?s\<lparr>si_arp := a2, si_arp_generacja := g2\<rparr>)"
    unfolding rozwiaz_adres_mac_def Let_def using p k(1) v z by simp
  obtain ip where w: "wypelnij_ipv4 60 IP_PROTO_ICMP [10, 0, 0, 1] ?cel x = (Some ip, snd (przydziel_ipv4_id x))" if "si_ipv4_id x = 1" for x
    using wypelnij_ipv4_wynik [of 40 IP_PROTO_ICMP "[10, 0, 0, 1]" ?cel] by auto
  have i: "?ip = ip" using w [of ?s] p(4) by simp
  have m: "ramka_pinga ?KA = ramka_pinga ?K0" by (simp add: fun_eq_iff ramka_pinga_def wypelnij_eth_def karta_hosta_def)
  have kt: "ka_tx ?KA = (\<lambda>i. True)" "ka_czas ?KA = of_nat" by (simp_all add: karta_pola)
  have rx: "ka_rx ?KA = (\<lambda>i. [odpowiedz_hosta ?KB ?sB (na_drucie (ramka_pinga ?KA ?mac ip))])"
    by (subst m) (simp add: karta_pola i)
  have sB: "si_gotowa ?sB" "si_nasz_ip ?sB = ?cel" by (simp_all add: siec_poczatkowa_def)
  have t: "unat (of_nat 0 :: u64) + 4000 < 2 ^ 64" "unat (of_nat (Suc 0) :: u64) < unat (of_nat 0 :: u64) + 4000" by simp_all
  have "\<exists>s'. bws_siec_ping ?KA 10 0 0 2 ?s = Some (2, s')"
  proof (rule ping_z_odpowiedzia [OF refl v(4-6) p(2) r _ _ _ k(3,1) _ sB k(2,4)])
    show "wypelnij_ipv4 60 IP_PROTO_ICMP (si_nasz_ip (?s\<lparr>si_arp := a2, si_arp_generacja := g2\<rparr>)) ?cel (?s\<lparr>si_arp := a2, si_arp_generacja := g2\<rparr>) =
        (Some ip, snd (przydziel_ipv4_id (?s\<lparr>si_arp := a2, si_arp_generacja := g2\<rparr>)))"
      using w [of "?s\<lparr>si_arp := a2, si_arp_generacja := g2\<rparr>"] p(3,4) by simp
    show "ka_rx ?KA (si_n_rx (?s\<lparr>si_arp := a2, si_arp_generacja := g2\<rparr>)) = [odpowiedz_hosta ?KB ?sB (na_drucie (ramka_pinga ?KA ?mac ip))]"
      unfolding rx ..
  qed (use p(2,3,6) t in \<open>simp_all add: kt\<close>)
  then show ?thesis unfolding Let_def .
qed

subsection \<open>Waiting\<close>




end
