(* ===== verification/Spec2Isabelle.thy ===== *)
theory Spec2Isabelle
  imports Sterta_Alokator Pmm_Twierdzenia Vmm_Jadro Vmm_Procesy Bezpieczenstwo_Twierdzenia Planista_Twierdzenia
    Loader_Twierdzenia Psf_Twierdzenia Zegar_Twierdzenia Siec_Twierdzenia
begin

text \<open>
  BursztynOS: the kernel's memory, processes, programs, file system, clock and network.

  The parts and how they interact. The boot loader hands the kernel a memory map; \<open>pmm.cpp\<close> turns it
  into a bitmap of physical frames. \<open>vmm.cpp\<close> takes frames from it for page tables, maps pages, and
  makes and destroys the address space of each process. \<open>heap.cpp\<close> is the kernel's own allocator
  (\<open>kmalloc\<close>, \<open>kfree\<close>) over one region. \<open>scheduler.cpp\<close> keeps 16 process slots, their event queues and
  the CPU's current process, and gives the CPU away at each timer interrupt (\<open>idt.cpp\<close>); when a process
  ends it destroys its address space through the VMM and frees its kernel stack through the heap.
  \<open>loader.cpp\<close> reserves a slot, checks the file's header, builds the address space from frames of the
  PMM, takes the kernel stack from the heap and publishes the process. \<open>bezpieczenstwo.cpp\<close> copies
  between the kernel and a process after asking the VMM which bytes the process may touch. \<open>psf.cpp\<close> is
  the BSP2 file system: a RAM disk whose changed blocks are written through to the AHCI disk; the
  loader reads programs from it. \<open>siec.cpp\<close> is the network stack over one card: it serves the frames
  the card received, and its calls (DHCP, ping, DNS, one TCP session, HTTP) poll the card until a deadline.

  The theories.
    \<^item> \<open>Preludium\<close>: the word types and the lemmas on 64-bit arithmetic, on loops that search and on
      bits that the components share.
    \<^item> \<open>Interfejsy\<close>: the contracts as locales: \<open>alokator\<close> (disjoint live blocks, interpreted by the heap),
      \<open>pula\<close> (a pool of frames with take and give, interpreted by the PMM), \<open>straz\<close> (a check that
      guards a copy, interpreted by the VMM's range check).
    \<^item> \<open>Sterta\<close>, \<open>Sterta_Alokator\<close>: \<open>heap.cpp\<close>. A block header is a record stored at its address, the list
      links are addresses. The invariant says the blocks tile the region; C1 to C4.
    \<^item> \<open>Pmm\<close>, \<open>Pmm_Wlasnosci\<close>, \<open>Pmm_Twierdzenia\<close>: \<open>pmm.cpp\<close>. The bitmaps are functions from words to 64-bit
      words, all index arithmetic as in the code; C6, C7, C8 and C10.
    \<^item> \<open>Vmm\<close>, \<open>Vmm_Drzewo\<close>, \<open>Vmm_Mapowanie\<close>, \<open>Vmm_Twierdzenia\<close>, \<open>Vmm_Jadro\<close>, \<open>Vmm_Procesy\<close>: \<open>vmm.cpp\<close>. A page
      table is a function from 512 indices to 64-bit entries stored at its physical address. \<open>vmm_drzewo\<close>
      says the tables below a root form a tree of distinct frames; \<open>spacer\<close> is the page walk of the CPU
      and \<open>sprawdz_mapowanie\<close> the walk of the code; C12 to C18.
    \<^item> \<open>Bezpieczenstwo\<close>, \<open>Bezpieczenstwo_Twierdzenia\<close>: \<open>bezpieczenstwo.cpp\<close>; C19, C20 and C22.
    \<^item> \<open>Pierscien\<close>, \<open>Zdarzenia\<close>: ring buffers as lists, and the event queues of \<open>scheduler.cpp\<close>.
    \<^item> \<open>Planista\<close>, \<open>Planista_Wlasnosci\<close>, \<open>Planista_Twierdzenia\<close>: \<open>scheduler.cpp\<close>, the process checks of
      \<open>pzb.h\<close>, the timer branch of \<open>idt.cpp\<close>; C23 to C27.
    \<^item> \<open>Loader\<close>, \<open>Loader_Pamiec\<close>, \<open>Loader_Twierdzenia\<close>: \<open>loader.cpp\<close> and the file format of \<open>loader.h\<close>; C28
      and C29.
    \<^item> \<open>Psf\<close>, \<open>Psf_Struktury\<close>, \<open>Psf_Operacje\<close>, \<open>Psf_Api\<close>: \<open>psf.cpp\<close> with the disk format of \<open>psf.h\<close>, every
      operation. \<open>Psf_Bajty\<close>, \<open>Psf_Widok\<close>, \<open>Psf_Zmiany\<close>: packed fields, the disk as a table of nodes, blocks
      and used blocks, and what each primitive changes of it. \<open>Psf_Spojnosc\<close>: the abstract file system of
      typed nodes, directories as maps and file contents, and the invariant \<open>spojny\<close>. \<open>Psf_Sciezki\<close>,
      \<open>Psf_Przydzial\<close>, \<open>Psf_Wpisy\<close>, \<open>Psf_Katalogi\<close>: paths, blocks given to nodes, entries of directories.
      \<open>Psf_Tworzenie\<close>, \<open>Psf_Przenoszenie\<close>, \<open>Psf_Pliki\<close>, \<open>Psf_Format\<close>: each operation against the abstract
      file system. \<open>Psf_Drzewo\<close>: the tree of directories. \<open>Psf_Walidacja\<close>, \<open>Psf_Trwalosc\<close>, \<open>Psf_Montowanie\<close>:
      the mount check, the write-through, mounting. \<open>Psf_Twierdzenia\<close>: the reachable states; C30 to C38.
    \<^item> \<open>Zegar\<close>, \<open>Zegar_Kalendarz\<close>, \<open>Zegar_Twierdzenia\<close>: \<open>zegar-rtc.cpp\<close>, the clock the file system stamps its
      nodes with. The CMOS is a function from the number of the read and the register to a byte. The
      calendar is proved against a count of days since the year 0; C39.
    \<^item> \<open>Siec\<close>, \<open>Siec_Odbior\<close>, \<open>Siec_Klient\<close>: \<open>siec.cpp\<close>, the frames sent and the tables, the handlers of
      received frames, the calls that wait. A frame is a list of bytes, or a memory and a length where the
      code has a pointer; the card is a parameter that says what each poll and each reading of the clock
      gives. \<open>Siec_Sumy\<close>: byte order and checksums, a header with its own checksum sums to zero.
      \<open>Siec_Granice\<close>: the handlers read only the frame (C21). \<open>Siec_Ramki\<close>: what is laid out is parsed back.
      \<open>Siec_Strumien\<close>, \<open>Siec_Nadawca\<close>: the receiver and the sender of a TCP stream (C5). \<open>Siec_Tablica\<close>: the
      ARP table as a map (C9). \<open>Siec_Ping\<close>: an echo between two hosts (C11). \<open>Siec_Czekanie\<close>: the waiting
      loops end (C40). \<open>Siec_Twierdzenia\<close>: the properties.

  Conventions. A definition has the name of its function; names that clash are told apart by a suffix.
  A record holds the globals of a file. A failing call returns a flag, an option or a zero address as
  the code does. A loop whose end is not syntactic is a \<open>partial_function\<close> with \<open>None\<close> for a run that
  does not end, or a recursion on a counter; the counters are the bounds of the code's own loops (the
  number of blocks that fit the heap, 128 queue entries, the words of a bitmap), and the lemmas show
  that the loop ends before the counter does where the code has no bound of its own. 64-bit and
  32-bit arithmetic wraps as on the machine.

  What the lemmas show. For each component an invariant and that every operation keeps it; what each
  operation does on every branch, refusals included; then the properties of the manifest over them.

  Not modelled. Interrupt flags and spinlocks (the operations they protect are atomic steps here),
  messages written to the log, inline assembly (CR3, TLB, CPUID and RDRAND are fields or parameters), the
  statistics printed for diagnosis. The drivers, the graphics, the shell and the
  applications are listed in the manifest with the reason.
\<close>

end
